(* ===== verification/O3_Prelude.thy ===== *)
theory O3_Prelude
  imports "HOL-Library.Word"
begin

text \<open>
  Shared ground of the development: the machine types, the result type of the
  fallible code with its bind and its bounded loop, little-endian byte
  conversions, 32-bit wrap-around, and \<open>pmap\<close>, the normal form in which
  every operation on a sample plane is described (which indices it writes, and
  what it writes there as a function of the index and the old sample).
\<close>

unbundle bit_operations_syntax

section \<open>Machine types\<close>

type_synonym byte = "8 word"
type_synonym u16 = "16 word"
type_synonym u32 = "32 word"
type_synonym u64 = "64 word"

named_theorems geom "values of the fixed geometry constants"
named_theorems rd_simps "unfolding of the byte reader"
named_theorems plane_spec "operations on planes in pmap normal form"

section \<open>Results\<close>

text \<open>
  \<open>Eof\<close>, \<open>Invalid\<close> and \<open>Unsupported\<close> are the source's enum
  \<open>Error\<close>. \<open>Fault\<close> is not a value of the program: it is what the
  model returns where the program would have undefined behaviour (an unsafe
  access out of bounds) or panic (a failed assertion, a slice index out of
  range), so that its absence can be stated and proved.
\<close>

datatype error = Eof | Invalid string | Unsupported string | Fault

type_synonym 'a result = "error + 'a"

definition bindR :: "'a result \<Rightarrow> ('a \<Rightarrow> 'b result) \<Rightarrow> 'b result" where
  "bindR m k = (case m of Inl e \<Rightarrow> Inl e | Inr x \<Rightarrow> k x)"

lemma bindR_simps [simp]:
  "bindR (Inl e) k = Inl e"
  "bindR (Inr x) k = k x"
  by (simp_all add: bindR_def)

lemma bindR_cong [fundef_cong]:
  assumes "m = m'" and "\<And>x. m' = Inr x \<Longrightarrow> k x = k' x"
  shows "bindR m k = bindR m' k'"
  using assms by (cases m') auto

lemma bindR_eq_Inr_iff: "bindR m k = Inr y \<longleftrightarrow> (\<exists>x. m = Inr x \<and> k x = Inr y)"
  by (cases m) auto

lemma bindR_eq_Inl_iff: "bindR m k = Inl e \<longleftrightarrow> m = Inl e \<or> (\<exists>x. m = Inr x \<and> k x = Inl e)"
  by (cases m) auto

lemma bindR_assoc: "bindR (bindR m k) l = bindR m (\<lambda>x. bindR (k x) l)"
  by (cases m) auto

lemma bindR_Inr [simp]: "bindR m Inr = m"
  by (cases m) auto

lemma bindR_InrE:
  assumes "bindR m k = Inr y"
  obtains x where "m = Inr x" and "k x = Inr y"
  using assms by (auto simp: bindR_eq_Inr_iff)

text \<open>A guarded step: \<open>check b e\<close> is the early return of \<open>e\<close> unless \<open>b\<close>.\<close>

definition check :: "bool \<Rightarrow> error \<Rightarrow> unit result" where
  "check b e = (if b then Inr () else Inl e)"

lemma check_simps [simp]:
  "check True e = Inr ()"
  "check False e = Inl e"
  by (simp_all add: check_def)

lemma check_eq_Inr_iff [simp]: "check b e = Inr u \<longleftrightarrow> b"
  by (simp add: check_def)

lemma check_eq_Inl_iff [simp]: "check b e = Inl e' \<longleftrightarrow> \<not> b \<and> e' = e"
  by (auto simp: check_def)

text \<open>The bounded loop \<open>for k in ks\<close>, stopping at the first error.\<close>

primrec forR :: "('a \<Rightarrow> 's \<Rightarrow> 's result) \<Rightarrow> 'a list \<Rightarrow> 's \<Rightarrow> 's result" where
  "forR f [] s = Inr s"
| "forR f (k # ks) s = bindR (f k s) (forR f ks)"

lemma forR_Nil [simp]: "forR f [] = Inr"
  by (rule ext) simp

lemma forR_single [simp]: "forR f [k] = f k"
  by (rule ext) simp

lemma forR_append: "forR f (ks @ ls) s = bindR (forR f ks s) (forR f ls)"
proof (induction ks arbitrary: s)
  case (Cons k ks)
  have "forR f (ks @ ls) = (\<lambda>s. bindR (forR f ks s) (forR f ls))"
    by (rule ext) (rule Cons.IH)
  then show ?case by (simp add: bindR_assoc)
qed simp

lemma forR_cong [fundef_cong]:
  assumes "ks = ks'" and "s = s'" and "\<And>k s. k \<in> set ks' \<Longrightarrow> f k s = f' k s"
  shows "forR f ks s = forR f' ks' s'"
proof -
  have "forR f ks' t = forR f' ks' t" for t
    using assms(3)
  proof (induction ks' arbitrary: t)
    case (Cons k ks')
    then have "forR f ks' = forR f' ks'" by (intro ext) simp
    with Cons.prems show ?case by simp
  qed simp
  with assms(1,2) show ?thesis by simp
qed

lemma forR_invariant:
  assumes "I s"
    and "\<And>k s. k \<in> set ks \<Longrightarrow> I s \<Longrightarrow> \<exists>s'. f k s = Inr s' \<and> I s'"
  shows "\<exists>s'. forR f ks s = Inr s' \<and> I s'"
  using assms
proof (induction ks arbitrary: s)
  case Nil
  then show ?case by simp
next
  case (Cons k ks)
  from Cons.prems obtain t where t: "f k s = Inr t" "I t" by auto
  from Cons.IH[OF t(2)] Cons.prems(2) have "\<exists>s'. forR f ks t = Inr s' \<and> I s'" by simp
  with t show ?case by simp
qed

section \<open>Decimal output of numbers in messages\<close>

fun dec :: "nat \<Rightarrow> string" where
  "dec n = (if n < 10 then [char_of (48 + n)] else dec (n div 10) @ [char_of (48 + n mod 10)])"

declare dec.simps [simp del]

section \<open>Little-endian bytes\<close>

primrec to_le_bytes :: "nat \<Rightarrow> 'a::len word \<Rightarrow> byte list" where
  "to_le_bytes 0 w = []"
| "to_le_bytes (Suc n) w = ucast w # to_le_bytes n (drop_bit 8 w)"

primrec from_le_bytes :: "byte list \<Rightarrow> 'a::len word" where
  "from_le_bytes [] = 0"
| "from_le_bytes (b # bs) = ucast b OR push_bit 8 (from_le_bytes bs)"

lemma length_to_le_bytes [simp]: "length (to_le_bytes n w) = n"
  by (induction n arbitrary: w) auto

lemma from_to_le_bytes_take: "from_le_bytes (to_le_bytes n w) = take_bit (8 * n) w"
proof (induction n arbitrary: w)
  case 0
  then show ?case by simp
next
  case (Suc n)
  show ?case
    by (rule bit_word_eqI)
      (auto simp: Suc bit_simps not_less)
qed

lemma from_to_le_bytes:
  fixes w :: "'a::len word"
  assumes "LENGTH('a) \<le> 8 * n"
  shows "from_le_bytes (to_le_bytes n w) = w"
  using assms by (simp add: from_to_le_bytes_take take_bit_word_eq_self)

section \<open>32-bit signed arithmetic\<close>

text \<open>
  An \<open>i32\<close> is its integer value; \<open>wrap32\<close> is what a release build
  makes of a result that does not fit.
\<close>

definition wrap32 :: "int \<Rightarrow> int" where
  "wrap32 x = (x + 2147483648) mod 4294967296 - 2147483648"

lemma wrap32_id: "- 2147483648 \<le> x \<Longrightarrow> x < 2147483648 \<Longrightarrow> wrap32 x = x"
  by (simp add: wrap32_def)

lemma wrap32_range: "- 2147483648 \<le> wrap32 x \<and> wrap32 x < 2147483648"
  by (simp add: wrap32_def pos_mod_bound pos_mod_sign)

definition clamp_int :: "int \<Rightarrow> int \<Rightarrow> int \<Rightarrow> int" where
  "clamp_int v lo hi = min (max v lo) hi"

lemma clamp_int_bounds: "lo \<le> hi \<Longrightarrow> lo \<le> clamp_int v lo hi \<and> clamp_int v lo hi \<le> hi"
  by (simp add: clamp_int_def)

lemma clamp_int_id: "lo \<le> v \<Longrightarrow> v \<le> hi \<Longrightarrow> clamp_int v lo hi = v"
  by (simp add: clamp_int_def)

section \<open>Pointwise updates of a plane\<close>

definition pmap :: "(nat \<Rightarrow> bool) \<Rightarrow> (nat \<Rightarrow> 'a \<Rightarrow> 'a) \<Rightarrow> 'a list \<Rightarrow> 'a list" where
  "pmap P h xs = map (\<lambda>i. if P i then h i (xs ! i) else xs ! i) [0..<length xs]"

lemma length_pmap [simp]: "length (pmap P h xs) = length xs"
  by (simp add: pmap_def)

lemma nth_pmap [simp]:
  "i < length xs \<Longrightarrow> pmap P h xs ! i = (if P i then h i (xs ! i) else xs ! i)"
  by (simp add: pmap_def)

lemma pmap_False [simp]: "pmap (\<lambda>_. False) h xs = xs"
  by (rule nth_equalityI) auto

lemma pmap_eqI:
  assumes "length xs = length ys"
    and "\<And>i. i < length ys \<Longrightarrow> (if P i then h i (xs ! i) else xs ! i) = (if Q i then k i (ys ! i) else ys ! i)"
  shows "pmap P h xs = pmap Q k ys"
  using assms by (intro nth_equalityI) auto

lemma pmap_cong:
  assumes "\<And>i. i < length xs \<Longrightarrow> P i = Q i"
    and "\<And>i. i < length xs \<Longrightarrow> Q i \<Longrightarrow> h i (xs ! i) = k i (xs ! i)"
  shows "pmap P h xs = pmap Q k xs"
  using assms by (intro pmap_eqI) auto

lemma pmap_pmap:
  "pmap P h (pmap Q k xs) =
     pmap (\<lambda>i. P i \<or> Q i) (\<lambda>i v. if P i then h i (if Q i then k i v else v) else k i v) xs"
  by (rule nth_equalityI) auto

lemma list_update_pmap: "xs[j := v] = pmap (\<lambda>i. i = j) (\<lambda>_ _. v) xs"
  by (rule nth_equalityI) (auto simp: nth_list_update)

text \<open>
  A loop whose iterations are all the same pointwise update \<open>h\<close> on their
  own index sets is the update on the union, if doing it twice changes nothing
  (copies) or the index sets are disjoint (read-modify-write).
\<close>

lemma forR_pmap_idem:
  assumes "\<And>k d. k \<in> set ks \<Longrightarrow> length d = n \<Longrightarrow> f k d = Inr (pmap (P k) h d)"
    and "\<And>i v. h i (h i v) = h i v"
    and "length d = n"
  shows "forR f ks d = Inr (pmap (\<lambda>i. \<exists>k\<in>set ks. P k i) h d)"
  using assms
proof (induction ks arbitrary: d)
  case Nil
  then show ?case by simp
next
  case (Cons k ks)
  have "forR f ks (pmap (P k) h d) = Inr (pmap (\<lambda>i. \<exists>k\<in>set ks. P k i) h (pmap (P k) h d))"
    using Cons.prems by (intro Cons.IH) auto
  moreover have "pmap (\<lambda>i. \<exists>k\<in>set ks. P k i) h (pmap (P k) h d) = pmap (\<lambda>i. \<exists>k\<in>set (k # ks). P k i) h d"
    using Cons.prems(2) by (intro nth_equalityI) auto
  ultimately show ?case using Cons.prems(1)[of k d] Cons.prems(3) by simp
qed

lemma forR_pmap_disjoint:
  assumes "\<And>k d. k \<in> set ks \<Longrightarrow> length d = n \<Longrightarrow> f k d = Inr (pmap (P k) h d)"
    and "\<And>i k l. k \<in> set ks \<Longrightarrow> l \<in> set ks \<Longrightarrow> P k i \<Longrightarrow> P l i \<Longrightarrow> k = l"
    and "distinct ks" and "length d = n"
  shows "forR f ks d = Inr (pmap (\<lambda>i. \<exists>k\<in>set ks. P k i) h d)"
  using assms
proof (induction ks arbitrary: d)
  case Nil
  then show ?case by simp
next
  case (Cons k ks)
  have "forR f ks (pmap (P k) h d) = Inr (pmap (\<lambda>i. \<exists>k\<in>set ks. P k i) h (pmap (P k) h d))"
    using Cons.prems by (intro Cons.IH) auto
  moreover have "pmap (\<lambda>i. \<exists>k\<in>set ks. P k i) h (pmap (P k) h d) = pmap (\<lambda>i. \<exists>k\<in>set (k # ks). P k i) h d"
  proof (rule nth_equalityI)
    fix i
    have "\<not> (P k i \<and> (\<exists>l\<in>set ks. P l i))"
      using Cons.prems(2)[of k _ i] Cons.prems(3) by auto
    then show "pmap (\<lambda>i. \<exists>k\<in>set ks. P k i) h (pmap (P k) h d) ! i
        = pmap (\<lambda>i. \<exists>k\<in>set (k # ks). P k i) h d ! i"
      if "i < length (pmap (\<lambda>i. \<exists>k\<in>set ks. P k i) h (pmap (P k) h d))"
      using that by auto
  qed simp
  ultimately show ?case using Cons.prems(1)[of k d] Cons.prems(4) by simp
qed

section \<open>Rectangles of a row-major plane\<close>

definition in_rect :: "nat \<Rightarrow> nat \<Rightarrow> nat \<Rightarrow> nat \<Rightarrow> nat \<Rightarrow> nat \<Rightarrow> bool" where
  "in_rect w x0 y0 bw bh i \<longleftrightarrow>
     x0 \<le> i mod w \<and> i mod w < x0 + bw \<and> y0 \<le> i div w \<and> i div w < y0 + bh"

lemma row_range_iff:
  assumes "x0 + len \<le> w"
  shows "(y * w + x0 \<le> i \<and> i < y * w + x0 + len) \<longleftrightarrow>
    (i div w = y \<and> x0 \<le> i mod w \<and> i mod w < x0 + (len::nat))"
proof
  assume a: "y * w + x0 \<le> i \<and> i < y * w + x0 + len"
  with assms have "i - y * w < w" "y * w \<le> i" by auto
  moreover then have "i = y * w + (i - y * w)" by simp
  ultimately have "i div w = y" "i mod w = i - y * w"
    by (metis add.commute div_mult_self3 div_less add.right_neutral less_nat_zero_code not_gr_zero,
        metis mod_less mod_mult_self3)
  with a show "i div w = y \<and> x0 \<le> i mod w \<and> i mod w < x0 + len" by auto
next
  assume "i div w = y \<and> x0 \<le> i mod w \<and> i mod w < x0 + len"
  then show "y * w + x0 \<le> i \<and> i < y * w + x0 + len"
    using div_mult_mod_eq[of i w] by auto
qed

lemma index_bound:
  assumes "x < w" and "y < (h::nat)"
  shows "y * w + x < w * h"
proof -
  have "y * w + x < Suc y * w" using assms(1) by simp
  also have "\<dots> \<le> h * w" using assms(2) by (intro mult_right_mono) auto
  finally show ?thesis by (simp add: mult.commute)
qed

lemma row_bound:
  assumes "x0 + len \<le> w" and "y < (h::nat)"
  shows "y * w + x0 + len \<le> w * h"
proof -
  have "y * w + x0 + len \<le> Suc y * w" using assms(1) by simp
  also have "\<dots> \<le> h * w" using assms(2) by (intro mult_right_mono) auto
  finally show ?thesis by (simp add: mult.commute)
qed

lemma forR_rows:
  assumes "x0 + bw \<le> w"
    and "\<And>row d. row < bh \<Longrightarrow> length d = n \<Longrightarrow>
      f row d = Inr (pmap (\<lambda>i. (y0 + row) * w + x0 \<le> i \<and> i < (y0 + row) * w + x0 + bw) h d)"
    and "\<And>i v. h i (h i v) = h i v"
    and "length d = n"
  shows "forR f [0..<bh] d = Inr (pmap (in_rect w x0 y0 bw bh) h d)"
proof -
  have "forR f [0..<bh] d = Inr (pmap (\<lambda>i. \<exists>row\<in>set [0..<bh].
      (y0 + row) * w + x0 \<le> i \<and> i < (y0 + row) * w + x0 + bw) h d)"
    using assms by (intro forR_pmap_idem[where n = n]) auto
  also have "\<dots> = Inr (pmap (in_rect w x0 y0 bw bh) h d)"
  proof -
    have "(\<exists>row\<in>set [0..<bh]. (y0 + row) * w + x0 \<le> i \<and> i < (y0 + row) * w + x0 + bw)
        = in_rect w x0 y0 bw bh i" for i
      unfolding row_range_iff[OF assms(1)] in_rect_def
      by (auto intro!: bexI[of _ "i div w - y0"])
    then show ?thesis by simp
  qed
  finally show ?thesis .
qed

end
