(* ===== verification/O3_Bytes.thy ===== *)
theory O3_Bytes
  imports O3_Prelude
begin

text \<open>
  The byte layer of \<open>minidecoder/src/lib.rs\<close>: \<open>struct Reader\<close> with its
  operations, the \<open>put_*\<close> writers, the unchecked loads of the header parsers,
  motion vectors on the wire, and the interface \<open>fixed_codec\<close> every
  fixed-width field satisfies: what is read back is what was written, reading
  consumes exactly that, a short input is \<open>Eof\<close>, and nothing faults.
\<close>

section \<open>Reader\<close>

record reader =
  rd_bytes :: "byte list"
  rd_pos :: nat

definition reader_new :: "byte list \<Rightarrow> reader" where
  "reader_new bytes = \<lparr>rd_bytes = bytes, rd_pos = 0\<rparr>"

definition remaining :: "reader \<Rightarrow> nat" where
  "remaining r = length (rd_bytes r) - rd_pos r"

definition rd_take :: "nat \<Rightarrow> reader \<Rightarrow> (byte list \<times> reader) result" where
  "rd_take n r =
     (if n > remaining r then Inl Eof
      else let start = rd_pos r
           in Inr (take n (drop start (rd_bytes r)), r\<lparr>rd_pos := rd_pos r + n\<rparr>))"

definition rd_skip :: "nat \<Rightarrow> reader \<Rightarrow> reader result" where
  "rd_skip n r = bindR (rd_take n r) (\<lambda>(_, r'). Inr r')"

definition consume_optional_trailing_zero :: "reader \<Rightarrow> reader" where
  "consume_optional_trailing_zero r =
     (if remaining r = 1
      then let value = rd_bytes r ! rd_pos r
           in if value = 0 then r\<lparr>rd_pos := rd_pos r + 1\<rparr> else r
      else r)"

definition rd_u8 :: "reader \<Rightarrow> (byte \<times> reader) result" where
  "rd_u8 r =
     (if rd_pos r \<ge> length (rd_bytes r) then Inl Eof
      else let value = rd_bytes r ! rd_pos r
           in Inr (value, r\<lparr>rd_pos := rd_pos r + 1\<rparr>))"

text \<open>An \<open>i8\<close> is kept as its byte; the code's \<open>as i32\<close> is \<open>sint\<close>.\<close>

definition rd_i8 :: "reader \<Rightarrow> (byte \<times> reader) result" where
  "rd_i8 r = bindR (rd_u8 r) (\<lambda>(v, r'). Inr (v, r'))"

definition rd_u16 :: "reader \<Rightarrow> (u16 \<times> reader) result" where
  "rd_u16 r =
     (let end = rd_pos r + 2
      in if end > length (rd_bytes r) then Inl Eof
         else let start = rd_pos r
              in Inr (from_le_bytes (map (\<lambda>k. rd_bytes r ! (start + k)) [0, 1]), r\<lparr>rd_pos := end\<rparr>))"

text \<open>An \<open>i16\<close> likewise is kept as its 16 bits, read by \<open>sint\<close>.\<close>

definition rd_i16 :: "reader \<Rightarrow> (u16 \<times> reader) result" where
  "rd_i16 r =
     (let end = rd_pos r + 2
      in if end > length (rd_bytes r) then Inl Eof
         else let start = rd_pos r
              in Inr (from_le_bytes (map (\<lambda>k. rd_bytes r ! (start + k)) [0, 1]), r\<lparr>rd_pos := end\<rparr>))"

definition rd_u32 :: "reader \<Rightarrow> (u32 \<times> reader) result" where
  "rd_u32 r =
     (let end = rd_pos r + 4
      in if end > length (rd_bytes r) then Inl Eof
         else let start = rd_pos r
              in Inr (from_le_bytes (map (\<lambda>k. rd_bytes r ! (start + k)) [0, 1, 2, 3]), r\<lparr>rd_pos := end\<rparr>))"

definition rd_u64 :: "reader \<Rightarrow> (u64 \<times> reader) result" where
  "rd_u64 r =
     (let end = rd_pos r + 8
      in if end > length (rd_bytes r) then Inl Eof
         else let start = rd_pos r
              in Inr (from_le_bytes (map (\<lambda>k. rd_bytes r ! (start + k)) [0, 1, 2, 3, 4, 5, 6, 7]),
                      r\<lparr>rd_pos := end\<rparr>))"

section \<open>Unchecked loads of the header parsers\<close>

definition load_u8 :: "byte list \<Rightarrow> nat \<Rightarrow> byte result" where
  "load_u8 bs off = (if off < length bs then Inr (bs ! off) else Inl Fault)"

definition load_u16_le :: "byte list \<Rightarrow> nat \<Rightarrow> u16 result" where
  "load_u16_le bs off =
     (if off + 2 \<le> length bs then Inr (from_le_bytes (map (\<lambda>k. bs ! (off + k)) [0, 1])) else Inl Fault)"

definition load_u32_le :: "byte list \<Rightarrow> nat \<Rightarrow> u32 result" where
  "load_u32_le bs off =
     (if off + 4 \<le> length bs then Inr (from_le_bytes (map (\<lambda>k. bs ! (off + k)) [0, 1, 2, 3])) else Inl Fault)"

section \<open>Writers\<close>

definition put_u16 :: "byte list \<Rightarrow> u16 \<Rightarrow> byte list" where
  "put_u16 out v = out @ to_le_bytes 2 v"

definition put_u32 :: "byte list \<Rightarrow> u32 \<Rightarrow> byte list" where
  "put_u32 out v = out @ to_le_bytes 4 v"

definition put_u64 :: "byte list \<Rightarrow> u64 \<Rightarrow> byte list" where
  "put_u64 out v = out @ to_le_bytes 8 v"

section \<open>Motion vectors\<close>

record mv =
  mvX :: byte
  mvY :: byte

definition mv_zero :: mv where
  "mv_zero = \<lparr>mvX = 0, mvY = 0\<rparr>"

definition read_mv :: "reader \<Rightarrow> (mv \<times> reader) result" where
  "read_mv r =
     bindR (rd_i8 r) (\<lambda>(x, r).
     bindR (rd_i8 r) (\<lambda>(y, r). Inr (\<lparr>mvX = x, mvY = y\<rparr>, r)))"

definition put_mv :: "mv \<Rightarrow> byte list" where
  "put_mv mv = [mvX mv, mvY mv]"

section \<open>The remaining input\<close>

text \<open>
  All reading is described on the remaining input \<open>rest\<close> and the moved
  position \<open>adv\<close>.
\<close>

definition rest :: "reader \<Rightarrow> byte list" where
  "rest r = drop (rd_pos r) (rd_bytes r)"

definition adv :: "nat \<Rightarrow> reader \<Rightarrow> reader" where
  "adv n r = r\<lparr>rd_pos := rd_pos r + n\<rparr>"

definition rd_ok :: "reader \<Rightarrow> bool" where
  "rd_ok r \<longleftrightarrow> rd_pos r \<le> length (rd_bytes r)"

lemma rest_new [simp]: "rest (reader_new bs) = bs"
  by (simp add: rest_def reader_new_def)

lemma rest_adv [simp]: "rest (adv n r) = drop n (rest r)"
  by (simp add: rest_def adv_def add.commute)

lemma adv_adv [simp]: "adv m (adv n r) = adv (n + m) r"
  by (simp add: adv_def add.assoc)

lemma adv_0 [simp]: "adv 0 r = r"
  by (simp add: adv_def)

lemma rd_bytes_adv [simp]: "rd_bytes (adv n r) = rd_bytes r"
  by (simp add: adv_def)

lemma rd_pos_adv [simp]: "rd_pos (adv n r) = rd_pos r + n"
  by (simp add: adv_def)

lemma length_rest: "length (rest r) = remaining r"
  by (simp add: rest_def remaining_def)

lemma remaining_eq_0_iff: "remaining r = 0 \<longleftrightarrow> rest r = []"
  using length_rest[of r] by auto

lemma rd_ok_new [simp]: "rd_ok (reader_new bs)"
  by (simp add: rd_ok_def reader_new_def)

lemma remaining_new [simp]: "remaining (reader_new bs) = length bs"
  by (simp add: remaining_def reader_new_def)

lemma remaining_adv [simp]: "remaining (adv n r) = remaining r - n"
  by (simp add: remaining_def)

lemma rd_ok_adv: "rd_ok r \<Longrightarrow> n \<le> remaining r \<Longrightarrow> rd_ok (adv n r)"
  by (simp add: rd_ok_def remaining_def)

lemma nth_rest: "rd_bytes r ! (rd_pos r + k) = rest r ! k" if "k < length (rest r)"
  using that by (simp add: rest_def)

lemma map_nth_rest:
  assumes "n \<le> length (rest r)"
  shows "map (\<lambda>k. rd_bytes r ! (rd_pos r + k)) [0..<n] = take n (rest r)"
  using assms by (intro nth_equalityI) (auto simp: nth_rest)

lemma rd_take_rest [rd_simps]:
  "rd_take n r = (if length (rest r) < n then Inl Eof else Inr (take n (rest r), adv n r))"
  by (simp add: rd_take_def rest_def remaining_def adv_def Let_def)

lemma rd_skip_rest [rd_simps]:
  "rd_skip n r = (if length (rest r) < n then Inl Eof else Inr (adv n r))"
  by (simp add: rd_skip_def rd_take_rest)

lemma rd_u8_rest [rd_simps]:
  "rd_u8 r = (case rest r of [] \<Rightarrow> Inl Eof | b # _ \<Rightarrow> Inr (b, adv 1 r))"
proof (cases "rd_pos r < length (rd_bytes r)")
  case True
  then have "rest r = rd_bytes r ! rd_pos r # drop (Suc (rd_pos r)) (rd_bytes r)"
    by (simp add: rest_def Cons_nth_drop_Suc)
  with True show ?thesis by (simp add: rd_u8_def adv_def)
qed (simp add: rd_u8_def rest_def)

lemma rd_i8_rest [rd_simps]:
  "rd_i8 r = (case rest r of [] \<Rightarrow> Inl Eof | b # _ \<Rightarrow> Inr (b, adv 1 r))"
  by (simp add: rd_i8_def rd_u8_rest split: list.split)

lemma upt_lists:
  "[0, 1] = [0..<2]" "[0, 1, 2, 3] = [0..<4]" "[0, 1, 2, 3, 4, 5, 6, 7] = [0..<8]"
  by (simp_all add: upt_rec numeral_eq_Suc)

lemma end_gt_iff: "n > 0 \<Longrightarrow> (rd_pos r + n > length (rd_bytes r)) \<longleftrightarrow> length (rest r) < n"
  by (auto simp: rest_def)

lemma le_at:
  "\<not> length (rest r) < n \<Longrightarrow>
    from_le_bytes (map (\<lambda>k. rd_bytes r ! (rd_pos r + k)) [0..<n]) = from_le_bytes (take n (rest r))"
  by (simp only: map_nth_rest not_less)

lemma if_else_cong: "(\<not> b \<Longrightarrow> y = z) \<Longrightarrow> (if b then x else y) = (if b then x else z)"
  by simp

lemma rd_u16_rest [rd_simps]:
  "rd_u16 r = (if length (rest r) < 2 then Inl Eof else Inr (from_le_bytes (take 2 (rest r)), adv 2 r))"
  unfolding rd_u16_def Let_def end_gt_iff[OF zero_less_numeral] adv_def upt_lists
  by (rule if_else_cong) (simp only: le_at not_False_eq_True)

lemma rd_i16_rest [rd_simps]:
  "rd_i16 r = (if length (rest r) < 2 then Inl Eof else Inr (from_le_bytes (take 2 (rest r)), adv 2 r))"
  unfolding rd_i16_def Let_def end_gt_iff[OF zero_less_numeral] adv_def upt_lists
  by (rule if_else_cong) (simp only: le_at not_False_eq_True)

lemma rd_u32_rest [rd_simps]:
  "rd_u32 r = (if length (rest r) < 4 then Inl Eof else Inr (from_le_bytes (take 4 (rest r)), adv 4 r))"
  unfolding rd_u32_def Let_def end_gt_iff[OF zero_less_numeral] adv_def upt_lists
  by (rule if_else_cong) (simp only: le_at not_False_eq_True)

lemma rd_u64_rest [rd_simps]:
  "rd_u64 r = (if length (rest r) < 8 then Inl Eof else Inr (from_le_bytes (take 8 (rest r)), adv 8 r))"
  unfolding rd_u64_def Let_def end_gt_iff[OF zero_less_numeral] adv_def upt_lists
  by (rule if_else_cong) (simp only: le_at not_False_eq_True)

lemma read_mv_rest [rd_simps]:
  "read_mv r = (case rest r of x # y # _ \<Rightarrow> Inr (\<lparr>mvX = x, mvY = y\<rparr>, adv 2 r) | _ \<Rightarrow> Inl Eof)"
  by (auto simp: read_mv_def rd_i8_rest drop_Suc split: list.split)

lemma le_at_offset:
  "off + n \<le> length bs \<Longrightarrow>
    from_le_bytes (map (\<lambda>k. bs ! (off + k)) [0..<n]) = from_le_bytes (take n (drop off bs))"
  using le_at[of "\<lparr>rd_bytes = bs, rd_pos = off\<rparr>" n] by (simp add: rest_def not_less le_diff_conv2)

lemma load_u32_le_take:
  "off + 4 \<le> length bs \<Longrightarrow> load_u32_le bs off = Inr (from_le_bytes (take 4 (drop off bs)))"
  unfolding load_u32_le_def upt_lists by (simp only: le_at_offset if_True)

lemma load_u16_le_take:
  "off + 2 \<le> length bs \<Longrightarrow> load_u16_le bs off = Inr (from_le_bytes (take 2 (drop off bs)))"
  unfolding load_u16_le_def upt_lists by (simp only: le_at_offset if_True)

lemma consume_optional_trailing_zero_rest:
  "consume_optional_trailing_zero r = (if rest r = [0] then adv 1 r else r)"
proof (cases "remaining r = 1")
  case True
  then have "length (rest r) = 1" by (simp add: length_rest)
  then obtain b where b: "rest r = [b]" by (auto simp: length_Suc_conv)
  have "rd_bytes r ! rd_pos r = b" using nth_rest[of 0 r] b by simp
  with True b show ?thesis by (simp add: consume_optional_trailing_zero_def adv_def)
next
  case False
  then have "length (rest r) \<noteq> 1" by (simp add: length_rest)
  then have "rest r \<noteq> [0]" by auto
  with False show ?thesis by (simp add: consume_optional_trailing_zero_def)
qed

section \<open>The interface of a fixed-width field\<close>

locale fixed_codec =
  fixes put :: "'a \<Rightarrow> byte list"
    and get :: "reader \<Rightarrow> ('a \<times> reader) result"
    and width :: nat
  assumes length_put: "length (put x) = width"
    and get_put: "rest r = put x @ post \<Longrightarrow> get r = Inr (x, adv width r)"
    and get_short: "length (rest r) < width \<Longrightarrow> get r = Inl Eof"
    and get_enough: "width \<le> length (rest r) \<Longrightarrow> \<exists>x. get r = Inr (x, adv width r)"
begin

lemma get_cases:
  obtains (short) "length (rest r) < width" "get r = Inl Eof"
  | (read) x where "width \<le> length (rest r)" "get r = Inr (x, adv width r)"
  using get_short get_enough by (meson not_le)

lemma get_ok_iff: "(\<exists>x r'. get r = Inr (x, r')) \<longleftrightarrow> width \<le> length (rest r)"
  by (cases rule: get_cases[of r]) auto

lemma get_no_fault: "get r \<noteq> Inl Fault"
  by (cases rule: get_cases[of r]) auto

lemma get_InrD: "get r = Inr (x, r') \<Longrightarrow> r' = adv width r \<and> width \<le> length (rest r)"
  by (cases rule: get_cases[of r]) auto

lemma get_rd_ok: "get r = Inr (x, r') \<Longrightarrow> rd_ok r \<Longrightarrow> rd_ok r'"
  by (auto dest!: get_InrD simp: length_rest intro: rd_ok_adv)

text \<open>Two fields written one after the other are read back one after the other.\<close>

lemma get_put_next:
  assumes "rest r = put x @ put y @ post"
  shows "bindR (get r) (\<lambda>(a, r). bindR (get r) (\<lambda>(b, r). k a b r)) = k x y (adv (2 * width) r)"
proof -
  have "get r = Inr (x, adv width r)" using assms by (rule get_put)
  moreover have "rest (adv width r) = put y @ post" using assms by (simp add: length_put)
  then have "get (adv width r) = Inr (y, adv width (adv width r))" by (rule get_put)
  ultimately show ?thesis by (simp add: mult_2)
qed

end

interpretation u8c: fixed_codec "\<lambda>b. [b]" rd_u8 1
  by unfold_locales (auto simp: rd_simps split: list.split)

interpretation i8c: fixed_codec "\<lambda>b. [b]" rd_i8 1
  by unfold_locales (auto simp: rd_simps split: list.split)

interpretation u16c: fixed_codec "to_le_bytes 2" rd_u16 2
  by unfold_locales (auto simp: rd_simps from_to_le_bytes)

interpretation i16c: fixed_codec "to_le_bytes 2" rd_i16 2
  by unfold_locales (auto simp: rd_simps from_to_le_bytes)

interpretation u32c: fixed_codec "to_le_bytes 4" rd_u32 4
  by unfold_locales (auto simp: rd_simps from_to_le_bytes)

interpretation u64c: fixed_codec "to_le_bytes 8" rd_u64 8
  by unfold_locales (auto simp: rd_simps from_to_le_bytes)

interpretation mvc: fixed_codec put_mv read_mv 2
proof unfold_locales
  show "length (rest r) < 2 \<Longrightarrow> read_mv r = Inl Eof" for r
    by (auto simp: rd_simps split: list.split)
  show "2 \<le> length (rest r) \<Longrightarrow> \<exists>x. read_mv r = Inr (x, adv 2 r)" for r
    by (auto simp: rd_simps numeral_2_eq_2 Suc_le_length_iff)
qed (auto simp: put_mv_def rd_simps)

end
