(* ===== verification/O3_Plane.thy ===== *)
theory O3_Plane
  imports O3_Bytes
begin

text \<open>
  The sample-plane primitives of \<open>minidecoder/src/lib.rs\<close>: the unchecked loads,
  stores and copies (an access outside the buffer is \<open>Fault\<close>, so every
  \<open>unsafe\<close> block carries its proof obligation), the shifted whole-plane motion
  copy and the clipped rectangle copy. Both motion copies are proved equal to
  one reference: every written sample is the reference sample at the displaced
  position clamped to the plane.
\<close>

section \<open>Unchecked accesses\<close>

definition load_at :: "byte list \<Rightarrow> nat \<Rightarrow> byte result" where
  "load_at src off = (if off < length src then Inr (src ! off) else Inl Fault)"

definition store_at :: "byte list \<Rightarrow> nat \<Rightarrow> byte \<Rightarrow> byte list result" where
  "store_at dst off value = (if off < length dst then Inr (dst[off := value]) else Inl Fault)"

definition copy_at_len :: "byte list \<Rightarrow> nat \<Rightarrow> byte list \<Rightarrow> nat \<Rightarrow> nat \<Rightarrow> byte list result" where
  "copy_at_len dst dst_off src src_off len =
     (if dst_off + len \<le> length dst \<and> src_off + len \<le> length src
      then Inr (take dst_off dst @ take len (drop src_off src) @ drop (dst_off + len) dst)
      else Inl Fault)"

text \<open>\<open>copy_at::<N>\<close> and \<open>copy_exact::<N>\<close>: the const generic is the first argument.\<close>

definition copy_at :: "nat \<Rightarrow> byte list \<Rightarrow> nat \<Rightarrow> byte list \<Rightarrow> nat \<Rightarrow> byte list result" where
  "copy_at N dst dst_off src src_off =
     (if dst_off + N \<le> length dst \<and> src_off + N \<le> length src
      then Inr (take dst_off dst @ take N (drop src_off src) @ drop (dst_off + N) dst)
      else Inl Fault)"

definition copy_exact :: "nat \<Rightarrow> byte list \<Rightarrow> byte list \<Rightarrow> byte list result" where
  "copy_exact N dst src =
     (if N \<le> length dst \<and> N \<le> length src then Inr (take N src @ drop N dst) else Inl Fault)"

definition copy_at_4 :: "byte list \<Rightarrow> nat \<Rightarrow> byte list \<Rightarrow> nat \<Rightarrow> byte list result" where
  "copy_at_4 dst dst_off src src_off =
     (if dst_off + 4 \<le> length dst \<and> src_off + 4 \<le> length src
      then let value = take 4 (drop src_off src)
           in Inr (take dst_off dst @ value @ drop (dst_off + 4) dst)
      else Inl Fault)"

definition copy_at_8_by_4 :: "byte list \<Rightarrow> nat \<Rightarrow> byte list \<Rightarrow> nat \<Rightarrow> byte list result" where
  "copy_at_8_by_4 dst dst_off src src_off =
     bindR (copy_at_4 dst dst_off src src_off) (\<lambda>dst.
     copy_at_4 dst (dst_off + 4) src (src_off + 4))"

definition copy_at_16_by_4 :: "byte list \<Rightarrow> nat \<Rightarrow> byte list \<Rightarrow> nat \<Rightarrow> byte list result" where
  "copy_at_16_by_4 dst dst_off src src_off =
     bindR (copy_at_4 dst dst_off src src_off) (\<lambda>dst.
     bindR (copy_at_4 dst (dst_off + 4) src (src_off + 4)) (\<lambda>dst.
     bindR (copy_at_4 dst (dst_off + 8) src (src_off + 8)) (\<lambda>dst.
     copy_at_4 dst (dst_off + 12) src (src_off + 12))))"

definition copy_at_8 :: "byte list \<Rightarrow> nat \<Rightarrow> byte list \<Rightarrow> nat \<Rightarrow> byte list result" where
  "copy_at_8 dst dst_off src src_off =
     (if dst_off + 8 \<le> length dst \<and> src_off + 8 \<le> length src
      then let value = take 8 (drop src_off src)
           in Inr (take dst_off dst @ value @ drop (dst_off + 8) dst)
      else Inl Fault)"

definition copy_at_16 :: "byte list \<Rightarrow> nat \<Rightarrow> byte list \<Rightarrow> nat \<Rightarrow> byte list result" where
  "copy_at_16 dst dst_off src src_off =
     (if dst_off + 16 \<le> length dst \<and> src_off + 16 \<le> length src
      then let a = take 8 (drop src_off src); b = take 8 (drop (src_off + 8) src);
               dst1 = take dst_off dst @ a @ drop (dst_off + 8) dst
           in Inr (take (dst_off + 8) dst1 @ b @ drop (dst_off + 16) dst1)
      else Inl Fault)"

definition fill_at :: "byte list \<Rightarrow> nat \<Rightarrow> nat \<Rightarrow> byte \<Rightarrow> byte list result" where
  "fill_at dst off len value = forR (\<lambda>i dst. store_at dst (off + i) value) [0..<len] dst"

definition slice_at :: "byte list \<Rightarrow> nat \<Rightarrow> nat \<Rightarrow> byte list result" where
  "slice_at bytes offset len =
     (if offset + len \<le> length bytes then Inr (take len (drop offset bytes)) else Inl Fault)"

section \<open>Motion copies\<close>

definition copy_shifted_row_fixed :: "nat \<Rightarrow> byte list \<Rightarrow> nat \<Rightarrow> byte list \<Rightarrow> nat \<Rightarrow> int \<Rightarrow> byte list result" where
  "copy_shifted_row_fixed W dst dst_off src src_off mv_x =
     (if mv_x = 0 then copy_at W dst dst_off src src_off
      else if mv_x = 1 then
        bindR (copy_at_len dst dst_off src (src_off + 1) (W - 1)) (\<lambda>dst.
        bindR (load_at src (src_off + W - 1)) (\<lambda>v.
        store_at dst (dst_off + W - 1) v))
      else if mv_x = -1 then
        bindR (load_at src src_off) (\<lambda>v.
        bindR (store_at dst dst_off v) (\<lambda>dst.
        copy_at_len dst (dst_off + 1) src src_off (W - 1)))
      else if mv_x > 0 then
        let shift = min (nat mv_x) W; copy_len = W - shift in
        bindR (if copy_len > 0 then copy_at_len dst dst_off src (src_off + shift) copy_len
               else Inr dst) (\<lambda>dst.
        bindR (load_at src (src_off + W - 1)) (\<lambda>edge.
        fill_at dst (dst_off + copy_len) shift edge))
      else
        let shift = min (nat (- mv_x)) W in
        bindR (load_at src src_off) (\<lambda>edge.
        bindR (fill_at dst dst_off shift edge) (\<lambda>dst.
        let copy_len = W - shift in
        if copy_len > 0 then copy_at_len dst (dst_off + shift) src src_off copy_len
        else Inr dst)))"

definition motion_copy_plane_fixed :: "nat \<Rightarrow> nat \<Rightarrow> nat \<Rightarrow> byte list \<Rightarrow> byte list \<Rightarrow> int \<Rightarrow> int \<Rightarrow> byte list result" where
  "motion_copy_plane_fixed W H N dst src mv_x mv_y =
     (if mv_x = 0 \<and> mv_y = 0 then copy_exact N dst src
      else let last_y = int H - 1 in
        forR (\<lambda>y dst.
          let sy = nat (clamp_int (int y + mv_y) 0 last_y)
          in copy_shifted_row_fixed W dst (y * W) src (sy * W) mv_x) [0..<H] dst)"

definition copy_rect ::
  "byte list \<Rightarrow> byte list \<Rightarrow> nat \<Rightarrow> nat \<Rightarrow> nat \<Rightarrow> nat \<Rightarrow> nat \<Rightarrow> nat \<Rightarrow> int \<Rightarrow> int \<Rightarrow> byte list result" where
  "copy_rect dst src w h dst_x dst_y bw bh mv_x mv_y =
     (if mv_x = 0 \<and> mv_y = 0 then
        (if bw = 16 then
           forR (\<lambda>row dst. let off = (dst_y + row) * w + dst_x in copy_at 16 dst off src off) [0..<bh] dst
         else if bw = 8 then
           forR (\<lambda>row dst. let off = (dst_y + row) * w + dst_x in copy_at 8 dst off src off) [0..<bh] dst
         else
           forR (\<lambda>row dst. let off = (dst_y + row) * w + dst_x in copy_at_len dst off src off bw) [0..<bh] dst)
      else
        let src_x = int dst_x + mv_x; src_y = int dst_y + mv_y in
        if src_x \<ge> 0 \<and> src_y \<ge> 0 \<and> nat src_x + bw \<le> w \<and> nat src_y + bh \<le> h then
          let src_x = nat src_x; src_y = nat src_y in
          (if bw = 16 then
             forR (\<lambda>row dst.
               let dst_off = (dst_y + row) * w + dst_x; src_off = (src_y + row) * w + src_x
               in copy_at 16 dst dst_off src src_off) [0..<bh] dst
           else if bw = 8 then
             forR (\<lambda>row dst.
               let dst_off = (dst_y + row) * w + dst_x; src_off = (src_y + row) * w + src_x
               in copy_at 8 dst dst_off src src_off) [0..<bh] dst
           else
             forR (\<lambda>row dst.
               let dst_off = (dst_y + row) * w + dst_x; src_off = (src_y + row) * w + src_x
               in forR (\<lambda>col dst.
                    bindR (load_at src (src_off + col)) (\<lambda>v. store_at dst (dst_off + col) v))
                    [0..<bw] dst) [0..<bh] dst)
        else
          forR (\<lambda>row dst.
            forR (\<lambda>col dst.
              let x = dst_x + col; y = dst_y + row;
                  sx = nat (clamp_int (int x + mv_x) 0 (int w - 1));
                  sy = nat (clamp_int (int y + mv_y) 0 (int h - 1))
              in bindR (load_at src (sy * w + sx)) (\<lambda>v. store_at dst (y * w + x) v))
              [0..<bw] dst) [0..<bh] dst)"

section \<open>The accesses in normal form\<close>

lemma load_at_ok [simp]: "off < length src \<Longrightarrow> load_at src off = Inr (src ! off)"
  by (simp add: load_at_def)

lemma store_at_ok [plane_spec]:
  "off < length dst \<Longrightarrow> store_at dst off v = Inr (pmap (\<lambda>i. i = off) (\<lambda>_ _. v) dst)"
  by (simp add: store_at_def list_update_pmap)

lemma splice_list_pmap:
  "length B = len \<Longrightarrow> d + len \<le> length dst \<Longrightarrow>
    take d dst @ B @ drop (d + len) dst = pmap (\<lambda>i. d \<le> i \<and> i < d + len) (\<lambda>i _. B ! (i - d)) dst"
  by (intro nth_equalityI) (auto simp: nth_append)

lemma splice_pmap:
  assumes "d + len \<le> length dst" and "s + len \<le> length src"
  shows "take d dst @ take len (drop s src) @ drop (d + len) dst =
    pmap (\<lambda>i. d \<le> i \<and> i < d + len) (\<lambda>i _. src ! (s + (i - d))) dst"
proof -
  have "length (take len (drop s src)) = len" using assms(2) by simp
  from splice_list_pmap[OF this assms(1)] show ?thesis
    using assms by (auto intro!: pmap_cong)
qed

lemma copy_at_len_ok [plane_spec]:
  assumes "d + len \<le> length dst" and "s + len \<le> length src"
  shows "copy_at_len dst d src s len =
    Inr (pmap (\<lambda>i. d \<le> i \<and> i < d + len) (\<lambda>i _. src ! (s + (i - d))) dst)"
  using assms by (simp add: copy_at_len_def splice_pmap)

lemma copy_at_eq: "copy_at N dst d src s = copy_at_len dst d src s N"
  by (simp add: copy_at_def copy_at_len_def)

lemma copy_at_4_eq: "copy_at_4 dst d src s = copy_at_len dst d src s 4"
  by (simp add: copy_at_4_def copy_at_len_def)

lemma copy_at_8_eq: "copy_at_8 dst d src s = copy_at_len dst d src s 8"
  by (simp add: copy_at_8_def copy_at_len_def)

lemma copy_at_len_append:
  assumes "d + (m + n) \<le> length dst" and "s + (m + n) \<le> length src"
  shows "bindR (copy_at_len dst d src s m) (\<lambda>dst. copy_at_len dst (d + m) src (s + m) n) =
    copy_at_len dst d src s (m + n)"
  using assms by (auto simp: plane_spec pmap_pmap intro!: pmap_cong)

lemma copy_at_16_eq: "copy_at_16 dst d src s = copy_at_len dst d src s 16"
proof (cases "d + 16 \<le> length dst \<and> s + 16 \<le> length src")
  case True
  then have "copy_at_16 dst d src s =
      bindR (copy_at_len dst d src s 8) (\<lambda>dst. copy_at_len dst (d + 8) src (s + 8) 8)"
    using min_absorb2[of 8 "length src - s"] by (auto simp: copy_at_16_def copy_at_len_def Let_def)
  with True show ?thesis using copy_at_len_append[of d 8 8 dst s src] by simp
qed (auto simp: copy_at_16_def copy_at_len_def)

lemma copy_at_8_by_4_eq:
  assumes "d + 8 \<le> length dst" and "s + 8 \<le> length src"
  shows "copy_at_8_by_4 dst d src s = copy_at_len dst d src s 8"
  using copy_at_len_append[of d 4 4 dst s src] assms
  by (simp add: copy_at_8_by_4_def copy_at_4_eq)

lemma copy_at_16_by_4_eq:
  assumes "d + 16 \<le> length dst" and "s + 16 \<le> length src"
  shows "copy_at_16_by_4 dst d src s = copy_at_len dst d src s 16"
  using assms by (auto simp: copy_at_16_by_4_def copy_at_4_eq plane_spec pmap_pmap intro!: pmap_cong)

lemma fill_at_ok [plane_spec]:
  assumes "off + len \<le> length dst"
  shows "fill_at dst off len v = Inr (pmap (\<lambda>i. off \<le> i \<and> i < off + len) (\<lambda>_ _. v) dst)"
proof -
  have "fill_at dst off len v = Inr (pmap (\<lambda>i. \<exists>k\<in>set [0..<len]. i = off + k) (\<lambda>_ _. v) dst)"
    unfolding fill_at_def using assms
    by (intro forR_pmap_idem[where n = "length dst"]) (auto simp: store_at_ok)
  also have "\<dots> = Inr (pmap (\<lambda>i. off \<le> i \<and> i < off + len) (\<lambda>_ _. v) dst)"
  proof -
    have "(\<exists>k\<in>set [0..<len]. i = off + k) = (off \<le> i \<and> i < off + len)" for i
      by (auto intro!: bexI[of _ "i - off"])
    then show ?thesis by simp
  qed
  finally show ?thesis .
qed

section \<open>The reference motion copy\<close>

definition mc_index :: "nat \<Rightarrow> nat \<Rightarrow> int \<Rightarrow> int \<Rightarrow> nat \<Rightarrow> nat" where
  "mc_index w h mx my i =
     nat (clamp_int (int (i div w) + my) 0 (int h - 1)) * w
     + nat (clamp_int (int (i mod w) + mx) 0 (int w - 1))"

lemma nat_clamp_less: "0 < n \<Longrightarrow> nat (clamp_int v 0 (int n - 1)) < n"
  by (auto simp: clamp_int_def)

lemma nat_clamp_id: "x < n \<Longrightarrow> nat (clamp_int (int x) 0 (int n - 1)) = x"
  by (auto simp: clamp_int_def)

lemma nat_clamp_shift:
  "0 \<le> int x + m \<Longrightarrow> int x + m < int n \<Longrightarrow> nat (clamp_int (int x + m) 0 (int n - 1)) = nat (int x + m)"
  by (auto simp: clamp_int_def)

lemma mc_index_less: "0 < w \<Longrightarrow> 0 < h \<Longrightarrow> mc_index w h mx my i < w * h"
  unfolding mc_index_def by (intro index_bound nat_clamp_less)

lemma mc_index_zero:
  assumes "i < w * h"
  shows "mc_index w h 0 0 i = i"
proof -
  have "0 < w" using assms by (cases w) auto
  moreover have "i div w < h" using assms by (simp add: less_mult_imp_div_less mult.commute)
  ultimately show ?thesis by (simp add: mc_index_def nat_clamp_id)
qed

text \<open>One row of a copy whose source row is \<open>sy\<close>, from column \<open>sx\<close> on.\<close>

lemma copy_row_ok:
  assumes "x0 + len \<le> w" and "y < h" and "sx + len \<le> w" and "sy < h"
    and "length dst = w * h" and "length src = w * h"
  shows "copy_at_len dst (y * w + x0) src (sy * w + sx) len =
    Inr (pmap (\<lambda>i. y * w + x0 \<le> i \<and> i < y * w + x0 + len)
              (\<lambda>i _. src ! (sy * w + (sx + (i mod w - x0)))) dst)"
proof -
  have "y * w + x0 + len \<le> length dst" "sy * w + sx + len \<le> length src"
    using assms row_bound by metis+
  moreover have "i mod w = i - y * w" if "y * w + x0 \<le> i \<and> i < y * w + x0 + len" for i
    using that row_range_iff[OF assms(1), of y i] minus_div_mult_eq_mod[of i w] by simp
  ultimately show ?thesis by (auto simp: copy_at_len_ok intro!: pmap_cong arg_cong[of _ _ "(!) src"])
qed

text \<open>The inner loop of the sample-by-sample branches.\<close>

lemma sample_row_ok:
  assumes "x0 + len \<le> w" and "y < h" and "length dst = w * h"
    and "\<And>col. col < len \<Longrightarrow> g (x0 + col) < length src"
  shows "forR (\<lambda>col dst. bindR (load_at src (g (x0 + col))) (\<lambda>v. store_at dst (y * w + (x0 + col)) v)) [0..<len] dst =
    Inr (pmap (\<lambda>i. y * w + x0 \<le> i \<and> i < y * w + x0 + len) (\<lambda>i _. src ! g (i mod w)) dst)"
proof -
  let ?f = "\<lambda>col dst. bindR (load_at src (g (x0 + col))) (\<lambda>v. store_at dst (y * w + (x0 + col)) v)"
  have b: "y * w + x0 + len \<le> w * h" using assms by (intro row_bound)
  have "forR ?f [0..<len] dst =
      Inr (pmap (\<lambda>i. \<exists>col\<in>set [0..<len]. i = y * w + (x0 + col)) (\<lambda>i _. src ! g (i mod w)) dst)"
  proof (rule forR_pmap_idem[where n = "w * h"])
    fix col d assume "col \<in> set [0..<len]" and d: "length (d :: byte list) = w * h"
    then have col: "col < len" by simp
    with assms b have "(y * w + (x0 + col)) mod w = x0 + col" by simp
    with col d assms(4) b show "?f col d =
        Inr (pmap (\<lambda>i. i = y * w + (x0 + col)) (\<lambda>i _. src ! g (i mod w)) d)"
      by (auto simp: store_at_ok intro!: pmap_cong)
  qed (use assms in auto)
  moreover have "(\<exists>col\<in>set [0..<len]. i = y * w + (x0 + col)) = (y * w + x0 \<le> i \<and> i < y * w + x0 + len)" for i
    by (auto intro!: bexI[of _ "i - (y * w + x0)"])
  ultimately show ?thesis by simp
qed

section \<open>The rectangle copy is the reference copy on the rectangle\<close>

definition mc_copy :: "(nat \<Rightarrow> bool) \<Rightarrow> nat \<Rightarrow> nat \<Rightarrow> int \<Rightarrow> int \<Rightarrow> byte list \<Rightarrow> byte list \<Rightarrow> byte list" where
  "mc_copy P w h mx my src dst = pmap P (\<lambda>i _. src ! mc_index w h mx my i) dst"

lemma length_mc_copy [simp]: "length (mc_copy P w h mx my src dst) = length dst"
  by (simp add: mc_copy_def)

lemma nth_mc_copy:
  "i < length dst \<Longrightarrow> mc_copy P w h mx my src dst ! i = (if P i then src ! mc_index w h mx my i else dst ! i)"
  by (simp add: mc_copy_def)

lemma copy_rows_zero:
  fixes w h :: nat and dst src :: "byte list"
  assumes fit: "x0 + bw \<le> w" "y0 + bh \<le> h"
    and len: "length dst = w * h" "length src = w * h"
    and f: "\<And>row d. row < bh \<Longrightarrow> length d = w * h \<Longrightarrow>
    f row d = copy_at_len d ((y0 + row) * w + x0) src ((y0 + row) * w + x0) bw"
  shows "forR f [0..<bh] dst = Inr (mc_copy (in_rect w x0 y0 bw bh) w h 0 0 src dst)"
proof -
  have "forR f [0..<bh] dst =
      Inr (pmap (in_rect w x0 y0 bw bh) (\<lambda>i _. src ! mc_index w h 0 0 i) dst)"
  proof (rule forR_rows[where n = "w * h"])
    fix row and d :: "byte list" assume r: "row < bh" and d: "length d = w * h"
    with fit have y: "y0 + row < h" by simp
    have "f row d = copy_at_len d ((y0 + row) * w + x0) src ((y0 + row) * w + x0) bw"
      using r d by (rule f)
    also have "\<dots> = Inr (pmap (\<lambda>i. (y0 + row) * w + x0 \<le> i \<and> i < (y0 + row) * w + x0 + bw)
        (\<lambda>i _. src ! mc_index w h 0 0 i) d)"
      using fit y d len row_bound[OF fit(1) y]
      by (auto simp: copy_at_len_ok mc_index_zero intro!: pmap_cong)
    finally show "f row d = \<dots>" .
  qed (use fit len in auto)
  then show ?thesis by (simp add: mc_copy_def)
qed

lemma copy_rows_shift:
  fixes w h :: nat and dst src :: "byte list"
  assumes fit: "x0 + bw \<le> w" "y0 + bh \<le> h"
    and len: "length dst = w * h" "length src = w * h"
    and f: "\<And>row d. row < bh \<Longrightarrow> length d = w * h \<Longrightarrow>
      f row d = copy_at_len d ((y0 + row) * w + x0) src ((nat (int y0 + my) + row) * w + nat (int x0 + mx)) bw"
    and s: "0 \<le> int x0 + mx" "0 \<le> int y0 + my" "nat (int x0 + mx) + bw \<le> w" "nat (int y0 + my) + bh \<le> h"
  shows "forR f [0..<bh] dst = Inr (mc_copy (in_rect w x0 y0 bw bh) w h mx my src dst)"
proof -
  have "forR f [0..<bh] dst =
      Inr (pmap (in_rect w x0 y0 bw bh) (\<lambda>i _. src ! mc_index w h mx my i) dst)"
  proof (rule forR_rows[where n = "w * h"])
    fix row and d :: "byte list" assume r: "row < bh" and d: "length d = w * h"
    with fit s have y: "y0 + row < h" and sy: "nat (int y0 + my) + row < h" by simp_all
    have "f row d = copy_at_len d ((y0 + row) * w + x0) src ((nat (int y0 + my) + row) * w + nat (int x0 + mx)) bw"
      using r d by (rule f)
    also have "\<dots> = Inr (pmap (\<lambda>i. (y0 + row) * w + x0 \<le> i \<and> i < (y0 + row) * w + x0 + bw)
        (\<lambda>i _. src ! ((nat (int y0 + my) + row) * w + (nat (int x0 + mx) + (i mod w - x0)))) d)"
      by (rule copy_row_ok[OF fit(1) y s(3) sy d len(2)])
    also have "\<dots> = Inr (pmap (\<lambda>i. (y0 + row) * w + x0 \<le> i \<and> i < (y0 + row) * w + x0 + bw)
        (\<lambda>i _. src ! mc_index w h mx my i) d)"
    proof -
      have "mc_index w h mx my i = (nat (int y0 + my) + row) * w + (nat (int x0 + mx) + (i mod w - x0))"
        if "(y0 + row) * w + x0 \<le> i \<and> i < (y0 + row) * w + x0 + bw" for i
      proof -
        from that have m: "i div w = y0 + row" "x0 \<le> i mod w" "i mod w < x0 + bw"
          using row_range_iff[OF fit(1)] by blast+
        have "nat (clamp_int (int (i div w) + my) 0 (int h - 1)) = nat (int y0 + my) + row"
          using m s sy by (subst nat_clamp_shift) auto
        moreover have "nat (clamp_int (int (i mod w) + mx) 0 (int w - 1)) = nat (int x0 + mx) + (i mod w - x0)"
          using m s by (subst nat_clamp_shift) auto
        ultimately show ?thesis by (simp add: mc_index_def)
      qed
      then show ?thesis by (auto intro!: pmap_cong)
    qed
    finally show "f row d = \<dots>" .
  qed (use fit len in auto)
  then show ?thesis by (simp add: mc_copy_def)
qed

lemma copy_rows_clamped:
  fixes w h :: nat and dst src :: "byte list"
  assumes fit: "x0 + bw \<le> w" "y0 + bh \<le> h"
    and len: "length dst = w * h" "length src = w * h"
    and pos: "0 < w" "0 < h"
    and f: "\<And>row d. row < bh \<Longrightarrow> length d = w * h \<Longrightarrow>
      f row d = forR (\<lambda>col d. bindR (load_at src (nat (clamp_int (int (y0 + row) + my) 0 (int h - 1)) * w
                    + nat (clamp_int (int (x0 + col) + mx) 0 (int w - 1))))
                 (\<lambda>v. store_at d ((y0 + row) * w + (x0 + col)) v)) [0..<bw] d"
  shows "forR f [0..<bh] dst = Inr (mc_copy (in_rect w x0 y0 bw bh) w h mx my src dst)"
proof -
  have "forR f [0..<bh] dst =
      Inr (pmap (in_rect w x0 y0 bw bh) (\<lambda>i _. src ! mc_index w h mx my i) dst)"
  proof (rule forR_rows[where n = "w * h"])
    fix row and d :: "byte list" assume r: "row < bh" and d: "length d = w * h"
    with fit have y: "y0 + row < h" by simp
    let ?g = "\<lambda>x. nat (clamp_int (int (y0 + row) + my) 0 (int h - 1)) * w + nat (clamp_int (int x + mx) 0 (int w - 1))"
    have g: "?g x < length src" for x
      using pos len by (simp add: index_bound nat_clamp_less)
    have "f row d = Inr (pmap (\<lambda>i. (y0 + row) * w + x0 \<le> i \<and> i < (y0 + row) * w + x0 + bw)
        (\<lambda>i _. src ! ?g (i mod w)) d)"
      unfolding f[OF r d] by (rule sample_row_ok[where g = ?g, OF fit(1) y d g])
    also have "\<dots> = Inr (pmap (\<lambda>i. (y0 + row) * w + x0 \<le> i \<and> i < (y0 + row) * w + x0 + bw)
        (\<lambda>i _. src ! mc_index w h mx my i) d)"
      using row_range_iff[OF fit(1)] by (auto simp: mc_index_def intro!: pmap_cong)
    finally show "f row d = \<dots>" .
  qed (use fit len in auto)
  then show ?thesis by (simp add: mc_copy_def)
qed

theorem copy_rect_ok [plane_spec]:
  assumes "x0 + bw \<le> w" and "y0 + bh \<le> h" and "length dst = w * h" and "length src = w * h"
    and "0 < w" and "0 < h"
  shows "copy_rect dst src w h x0 y0 bw bh mx my =
    Inr (mc_copy (in_rect w x0 y0 bw bh) w h mx my src dst)"
proof (cases "mx = 0 \<and> my = 0")
  case True
  then have "copy_rect dst src w h x0 y0 bw bh mx my =
      forR (\<lambda>row d. copy_at_len d ((y0 + row) * w + x0) src ((y0 + row) * w + x0) bw) [0..<bh] dst"
    by (auto simp: copy_rect_def copy_at_eq Let_def)
  with True show ?thesis by (simp only: copy_rows_zero[OF assms(1-4)])
next
  case moved: False
  show ?thesis
  proof (cases "0 \<le> int x0 + mx \<and> 0 \<le> int y0 + my \<and> nat (int x0 + mx) + bw \<le> w \<and> nat (int y0 + my) + bh \<le> h")
    case inside: True
    have narrow: "forR (\<lambda>col d. bindR (load_at src ((nat (int y0 + my) + row) * w + nat (int x0 + mx) + col))
          (\<lambda>v. store_at d ((y0 + row) * w + x0 + col) v)) [0..<bw] d
        = copy_at_len d ((y0 + row) * w + x0) src ((nat (int y0 + my) + row) * w + nat (int x0 + mx)) bw"
      if "row < bh" and d: "length d = w * h" for row d
    proof -
      let ?g = "\<lambda>x. (nat (int y0 + my) + row) * w + (nat (int x0 + mx) + (x - x0))"
      have y: "y0 + row < h" and sy: "nat (int y0 + my) + row < h" using that assms(2) inside by auto
      have "?g (x0 + col) < length src" if "col < bw" for col
        using that inside sy assms(4) by (auto intro!: index_bound)
      from sample_row_ok[where g = ?g, OF assms(1) y d this]
      show ?thesis using copy_row_ok[OF assms(1) y _ sy d assms(4), of "nat (int x0 + mx)"] inside
        by (simp add: add.assoc)
    qed
    have "copy_rect dst src w h x0 y0 bw bh mx my =
      forR (\<lambda>row d. if bw = 16 \<or> bw = 8 then
          copy_at_len d ((y0 + row) * w + x0) src ((nat (int y0 + my) + row) * w + nat (int x0 + mx)) bw
        else forR (\<lambda>col d. bindR (load_at src ((nat (int y0 + my) + row) * w + nat (int x0 + mx) + col))
          (\<lambda>v. store_at d ((y0 + row) * w + x0 + col) v)) [0..<bw] d) [0..<bh] dst"
      using moved inside by (auto simp: copy_rect_def copy_at_eq Let_def)
    also have "\<dots> = Inr (mc_copy (in_rect w x0 y0 bw bh) w h mx my src dst)"
      using inside by (intro copy_rows_shift[OF assms(1-4)]) (auto simp: narrow)
    finally show ?thesis .
  next
    case outside: False
    have "copy_rect dst src w h x0 y0 bw bh mx my =
      forR (\<lambda>row d. forR (\<lambda>col d. bindR (load_at src (nat (clamp_int (int (y0 + row) + my) 0 (int h - 1)) * w
            + nat (clamp_int (int (x0 + col) + mx) 0 (int w - 1))))
         (\<lambda>v. store_at d ((y0 + row) * w + (x0 + col)) v)) [0..<bw] d) [0..<bh] dst"
      using moved outside unfolding copy_rect_def Let_def by (simp only: if_False simp_thms)
    then show ?thesis by (simp only: copy_rows_clamped[OF assms refl])
  qed
qed

section \<open>The shifted plane copy is the reference copy of the plane\<close>

lemma nat_clamp_right:
  "0 \<le> m \<Longrightarrow> x < n \<Longrightarrow> nat (clamp_int (int x + m) 0 (int n - 1)) = min (x + nat m) (n - 1)"
  by (auto simp: clamp_int_def)

lemma nat_clamp_left:
  "m \<le> 0 \<Longrightarrow> x < n \<Longrightarrow> nat (clamp_int (int x + m) 0 (int n - 1)) = x - nat (- m)"
  by (auto simp: clamp_int_def)

lemma row_pmap_eqI:
  assumes "\<And>i. i < length dst \<Longrightarrow> P i = (y * W \<le> i \<and> i < y * W + W)"
    and "\<And>x. x < W \<Longrightarrow> y * W + x < length dst \<Longrightarrow> h (y * W + x) (dst ! (y * W + x)) = src ! (s + t x)"
  shows "pmap P h dst = pmap (\<lambda>i. y * W \<le> i \<and> i < y * W + W) (\<lambda>i _. src ! (s + t (i mod W))) dst"
proof (rule pmap_cong)
  fix i assume i: "i < length dst" "y * W \<le> i \<and> i < y * W + W"
  then have "i mod W = i - y * W" "i - y * W < W"
    using row_range_iff[of 0 W W y i] minus_div_mult_eq_mod[of i W] by auto
  with assms(2)[of "i - y * W"] i show "h i (dst ! i) = src ! (s + t (i mod W))" by simp
qed (rule assms(1))

lemma copy_shifted_row_ok:
  assumes "y < H" and "sy < H" and "0 < W" and "length dst = W * H" and "length src = W * H"
  shows "copy_shifted_row_fixed W dst (y * W) src (sy * W) mx =
    Inr (pmap (\<lambda>i. y * W \<le> i \<and> i < y * W + W)
              (\<lambda>i _. src ! (sy * W + nat (clamp_int (int (i mod W) + mx) 0 (int W - 1)))) dst)"
proof -
  define t where "t x = nat (clamp_int (int x + mx) 0 (int W - 1))" for x
  have b: "y * W + W \<le> length dst" "sy * W + W \<le> length src"
    using row_bound[of 0 W W y H] row_bound[of 0 W W sy H] assms by simp_all
  note row = row_pmap_eqI[where t = t and s = "sy * W" and y = y and src = src]
  have "copy_shifted_row_fixed W dst (y * W) src (sy * W) mx =
    Inr (pmap (\<lambda>i. y * W \<le> i \<and> i < y * W + W) (\<lambda>i _. src ! (sy * W + t (i mod W))) dst)"
  proof -
    consider "mx = 0" | "mx = 1" | "mx = -1" | "mx > 1" | "mx < -1" by linarith
    then show ?thesis
    proof cases
      case 1
      then have T: "t x = x" if "x < W" for x using that by (simp add: t_def nat_clamp_id)
      from 1 show ?thesis using b assms(3)
        by (simp add: copy_shifted_row_fixed_def copy_at_eq copy_at_len_ok) (rule row, auto simp: T)
    next
      case 2
      then have T: "t x = min (x + 1) (W - 1)" if "x < W" for x using that by (simp add: t_def nat_clamp_right)
      from 2 show ?thesis using b assms(3)
        by (simp add: copy_shifted_row_fixed_def copy_at_len_ok store_at_ok pmap_pmap)
          (rule row, auto simp: T min_def intro!: arg_cong[of _ _ "(!) src"])
    next
      case 3
      then have T: "t x = x - 1" if "x < W" for x using that nat_clamp_left[of mx x W] by (simp add: t_def)
      from 3 show ?thesis using b assms(3)
        by (simp add: copy_shifted_row_fixed_def copy_at_len_ok store_at_ok pmap_pmap)
          (rule row, auto simp: T intro!: arg_cong[of _ _ "(!) src"])
    next
      case 4
      define m where "m = nat mx"
      from 4 have mx: "mx = int m" "m > 1" by (simp_all add: m_def)
      then have T: "t x = min (x + m) (W - 1)" if "x < W" for x using that by (simp add: t_def nat_clamp_right)
      from mx show ?thesis using b assms(3)
        by (cases "m < W")
          (simp_all add: copy_shifted_row_fixed_def Let_def min_def copy_at_len_ok fill_at_ok pmap_pmap,
           (rule row, (auto simp: T min_def intro!: arg_cong[of _ _ "(!) src"])[2])+)
    next
      case 5
      define m where "m = nat (- mx)"
      from 5 have mx: "mx = - int m" "m > 1" by (simp_all add: m_def)
      then have T: "t x = x - m" if "x < W" for x using that nat_clamp_left[of mx x W] by (simp add: t_def)
      from mx show ?thesis using b assms(3)
        by (cases "m < W")
          (simp_all add: copy_shifted_row_fixed_def Let_def min_def copy_at_len_ok fill_at_ok pmap_pmap,
           (rule row, (auto simp: T intro!: arg_cong[of _ _ "(!) src"])[2])+)
    qed
  qed
  then show ?thesis by (simp only: t_def)
qed

theorem motion_copy_plane_ok [plane_spec]:
  assumes "length dst = W * H" and "length src = W * H" and "0 < W" and "0 < H" and "N = W * H"
  shows "motion_copy_plane_fixed W H N dst src mx my =
    Inr (mc_copy (\<lambda>_. True) W H mx my src dst)"
proof (cases "mx = 0 \<and> my = 0")
  case True
  then show ?thesis
    using assms by (auto simp: motion_copy_plane_fixed_def copy_exact_def mc_copy_def mc_index_zero
        intro!: nth_equalityI)
next
  case False
  have "motion_copy_plane_fixed W H N dst src mx my =
    forR (\<lambda>y d. copy_shifted_row_fixed W d (y * W) src (nat (clamp_int (int y + my) 0 (int H - 1)) * W) mx) [0..<H] dst"
    using False unfolding motion_copy_plane_fixed_def Let_def by (simp only: if_False)
  also have "\<dots> = Inr (pmap (in_rect W 0 0 W H) (\<lambda>i _. src ! mc_index W H mx my i) dst)"
  proof (rule forR_rows[where n = "W * H"])
    fix y and d :: "byte list" assume y: "y < H" and d: "length d = W * H"
    show "copy_shifted_row_fixed W d (y * W) src (nat (clamp_int (int y + my) 0 (int H - 1)) * W) mx =
      Inr (pmap (\<lambda>i. (0 + y) * W + 0 \<le> i \<and> i < (0 + y) * W + 0 + W) (\<lambda>i _. src ! mc_index W H mx my i) d)"
      unfolding copy_shifted_row_ok[OF y nat_clamp_less[OF assms(4)] assms(3) d assms(2)]
      using row_range_iff[of 0 W W y] by (auto simp: mc_index_def intro!: pmap_cong)
  qed (use assms in auto)
  also have "\<dots> = Inr (mc_copy (\<lambda>_. True) W H mx my src dst)"
  proof -
    have "in_rect W 0 0 W H i" if "i < length dst" for i
      using that assms by (simp add: in_rect_def less_mult_imp_div_less mult.commute)
    then show ?thesis by (auto simp: mc_copy_def intro!: pmap_cong)
  qed
  finally show ?thesis .
qed

end
