(* ===== verification/O3_Eye.thy ===== *)
theory O3_Eye
  imports O3_Plane
begin

text \<open>
  Frames of \<open>minidecoder/src/lib.rs\<close>: the fixed geometry, \<open>EyeFrame\<close> and
  \<open>SbsFrame\<close>, the macroblock prediction copies (\<open>prefill_eye\<close>,
  \<open>copy_mb_from_reference\<close> and its run variants, \<open>copy_vbs_from_reference\<close>) and
  raw macroblocks. A sample belongs to the macroblock \<open>y_mb\<close> (luma) or \<open>c_mb\<close>
  (chroma); frames are compared macroblock by macroblock with \<open>agree\<close>, and the
  interfaces \<open>mb_op\<close> and \<open>mb_overwrite\<close> say what every macroblock operation of
  the decoder keeps to.
\<close>

section \<open>Geometry\<close>

definition VISIBLE_W :: nat where [geom]: "VISIBLE_W = 800"
definition VISIBLE_H :: nat where [geom]: "VISIBLE_H = 240"
definition EYE_W :: nat where [geom]: "EYE_W = 400"
definition EYE_H :: nat where [geom]: "EYE_H = 240"
definition CHROMA_W :: nat where [geom]: "CHROMA_W = 200"
definition CHROMA_H :: nat where [geom]: "CHROMA_H = 120"
definition EYE_Y_BYTES :: nat where [geom]: "EYE_Y_BYTES = EYE_W * EYE_H"
definition EYE_CHROMA_BYTES :: nat where [geom]: "EYE_CHROMA_BYTES = CHROMA_W * CHROMA_H"
definition MB_W :: nat where [geom]: "MB_W = 25"
definition MB_H :: nat where [geom]: "MB_H = 15"
definition MB_COUNT :: nat where [geom]: "MB_COUNT = MB_W * MB_H"
definition RAW_MB_BYTES :: nat where [geom]: "RAW_MB_BYTES = 384"
definition SBS_FRAME_BYTES :: nat where [geom]:
  "SBS_FRAME_BYTES = VISIBLE_W * VISIBLE_H + (VISIBLE_W div 2) * (VISIBLE_H div 2) * 2"
definition EYE_FRAME_BYTES :: nat where [geom]: "EYE_FRAME_BYTES = EYE_W * EYE_H + CHROMA_W * CHROMA_H * 2"

section \<open>Frames\<close>

record eye_frame =
  eye_y :: "byte list"
  eye_cb :: "byte list"
  eye_cr :: "byte list"

definition EyeFrame_new :: eye_frame where
  "EyeFrame_new = \<lparr>eye_y = replicate (EYE_W * EYE_H) 0,
     eye_cb = replicate (CHROMA_W * CHROMA_H) 128, eye_cr = replicate (CHROMA_W * CHROMA_H) 128\<rparr>"

record sbs_frame =
  sbs_left :: eye_frame
  sbs_right :: eye_frame

definition SbsFrame_new :: sbs_frame where
  "SbsFrame_new = \<lparr>sbs_left = EyeFrame_new, sbs_right = EyeFrame_new\<rparr>"

definition wf_eye :: "eye_frame \<Rightarrow> bool" where
  "wf_eye e \<longleftrightarrow> length (eye_y e) = EYE_Y_BYTES \<and>
     length (eye_cb e) = EYE_CHROMA_BYTES \<and> length (eye_cr e) = EYE_CHROMA_BYTES"

definition wf_sbs :: "sbs_frame \<Rightarrow> bool" where
  "wf_sbs f \<longleftrightarrow> wf_eye (sbs_left f) \<and> wf_eye (sbs_right f)"

lemma wf_EyeFrame_new [simp]: "wf_eye EyeFrame_new"
  by (simp add: wf_eye_def EyeFrame_new_def EYE_Y_BYTES_def EYE_CHROMA_BYTES_def)

lemma wf_SbsFrame_new [simp]: "wf_sbs SbsFrame_new"
  by (simp add: wf_sbs_def SbsFrame_new_def)

text \<open>Borrowing one plane of a frame mutably.\<close>

definition on_y :: "(byte list \<Rightarrow> byte list result) \<Rightarrow> eye_frame \<Rightarrow> eye_frame result" where
  "on_y f e = bindR (f (eye_y e)) (\<lambda>p. Inr (e\<lparr>eye_y := p\<rparr>))"

definition on_cb :: "(byte list \<Rightarrow> byte list result) \<Rightarrow> eye_frame \<Rightarrow> eye_frame result" where
  "on_cb f e = bindR (f (eye_cb e)) (\<lambda>p. Inr (e\<lparr>eye_cb := p\<rparr>))"

definition on_cr :: "(byte list \<Rightarrow> byte list result) \<Rightarrow> eye_frame \<Rightarrow> eye_frame result" where
  "on_cr f e = bindR (f (eye_cr e)) (\<lambda>p. Inr (e\<lparr>eye_cr := p\<rparr>))"

lemma on_plane_Inr:
  "f (eye_y e) = Inr p \<Longrightarrow> on_y f e = Inr (e\<lparr>eye_y := p\<rparr>)"
  "f (eye_cb e) = Inr p \<Longrightarrow> on_cb f e = Inr (e\<lparr>eye_cb := p\<rparr>)"
  "f (eye_cr e) = Inr p \<Longrightarrow> on_cr f e = Inr (e\<lparr>eye_cr := p\<rparr>)"
  by (simp_all add: on_y_def on_cb_def on_cr_def)

lemma forR_on_y: "forR (\<lambda>k. on_y (f k)) ks e = on_y (forR f ks) e"
  by (induction ks arbitrary: e) (auto simp: on_y_def bindR_def split: sum.splits)

lemma forR_on_cb: "forR (\<lambda>k. on_cb (f k)) ks e = on_cb (forR f ks) e"
  by (induction ks arbitrary: e) (auto simp: on_cb_def bindR_def split: sum.splits)

lemma forR_on_cr: "forR (\<lambda>k. on_cr (f k)) ks e = on_cr (forR f ks) e"
  by (induction ks arbitrary: e) (auto simp: on_cr_def bindR_def split: sum.splits)

lemma forR_cb_cr:
  assumes "forR f ks (eye_cb e) = Inr p" and "forR g ks (eye_cr e) = Inr q"
  shows "forR (\<lambda>k e. bindR (on_cb (f k) e) (on_cr (g k))) ks e = Inr (e\<lparr>eye_cb := p, eye_cr := q\<rparr>)"
  using assms
proof (induction ks arbitrary: e)
  case (Cons k ks)
  from Cons.prems obtain p' q' where "f k (eye_cb e) = Inr p'" "forR f ks p' = Inr p"
    and "g k (eye_cr e) = Inr q'" "forR g ks q' = Inr q"
    by (auto elim!: bindR_InrE)
  with Cons.IH[of "e\<lparr>eye_cb := p', eye_cr := q'\<rparr>"] show ?case
    by (simp add: on_cb_def on_cr_def)
qed simp

section \<open>Prediction copies\<close>

definition prefill_eye :: "eye_frame \<Rightarrow> eye_frame \<Rightarrow> mv \<Rightarrow> eye_frame result" where
  "prefill_eye dst src mv =
     (if mv = mv_zero then
        bindR (on_y (\<lambda>p. copy_exact EYE_Y_BYTES p (eye_y src)) dst) (\<lambda>dst.
        bindR (on_cb (\<lambda>p. copy_exact EYE_CHROMA_BYTES p (eye_cb src)) dst) (\<lambda>dst.
        on_cr (\<lambda>p. copy_exact EYE_CHROMA_BYTES p (eye_cr src)) dst))
      else
        bindR (on_y (\<lambda>p. motion_copy_plane_fixed EYE_W EYE_H EYE_Y_BYTES p (eye_y src)
                 (sint (mvX mv)) (sint (mvY mv))) dst) (\<lambda>dst.
        bindR (on_cb (\<lambda>p. motion_copy_plane_fixed CHROMA_W CHROMA_H EYE_CHROMA_BYTES p (eye_cb src)
                 (sint (mvX mv) div 2) (sint (mvY mv) div 2)) dst) (\<lambda>dst.
        on_cr (\<lambda>p. motion_copy_plane_fixed CHROMA_W CHROMA_H EYE_CHROMA_BYTES p (eye_cr src)
                 (sint (mvX mv) div 2) (sint (mvY mv) div 2)) dst)))"

definition copy_mb_zero_mv :: "eye_frame \<Rightarrow> eye_frame \<Rightarrow> nat \<Rightarrow> eye_frame result" where
  "copy_mb_zero_mv dst src mb_index =
     (let mb_x = mb_index mod MB_W; mb_y = mb_index div MB_W;
          y_x = mb_x * 16; y_y = mb_y * 16; c_x = mb_x * 8; c_y = mb_y * 8 in
      bindR (forR (\<lambda>row. on_y (\<lambda>p.
          let off = (y_y + row) * EYE_W + y_x in copy_at_16 p off (eye_y src) off)) [0..<16] dst) (\<lambda>dst.
      forR (\<lambda>row dst.
          bindR (on_cb (\<lambda>p. let off = (c_y + row) * CHROMA_W + c_x in copy_at_8 p off (eye_cb src) off) dst)
                (on_cr (\<lambda>p. let off = (c_y + row) * CHROMA_W + c_x in copy_at_8 p off (eye_cr src) off)))
        [0..<8] dst))"

definition copy_mb_from_reference :: "eye_frame \<Rightarrow> eye_frame \<Rightarrow> nat \<Rightarrow> mv \<Rightarrow> eye_frame result" where
  "copy_mb_from_reference dst src mb_index mv =
     (if mv = mv_zero then copy_mb_zero_mv dst src mb_index
      else let mb_x = mb_index mod MB_W; mb_y = mb_index div MB_W in
        bindR (on_y (\<lambda>p. copy_rect p (eye_y src) EYE_W EYE_H (mb_x * 16) (mb_y * 16) 16 16
                 (sint (mvX mv)) (sint (mvY mv))) dst) (\<lambda>dst.
        bindR (on_cb (\<lambda>p. copy_rect p (eye_cb src) CHROMA_W CHROMA_H (mb_x * 8) (mb_y * 8) 8 8
                 (sint (mvX mv) div 2) (sint (mvY mv) div 2)) dst) (\<lambda>dst.
        on_cr (\<lambda>p. copy_rect p (eye_cr src) CHROMA_W CHROMA_H (mb_x * 8) (mb_y * 8) 8 8
                 (sint (mvX mv) div 2) (sint (mvY mv) div 2)) dst)))"

definition copy_mb_row_span_zero_mv :: "eye_frame \<Rightarrow> eye_frame \<Rightarrow> nat \<Rightarrow> nat \<Rightarrow> nat \<Rightarrow> eye_frame result" where
  "copy_mb_row_span_zero_mv dst src mb_x mb_y mb_count =
     (let y_x = mb_x * 16; y_y = mb_y * 16; y_len = mb_count * 16 in
      bindR (forR (\<lambda>row. on_y (\<lambda>p.
          let off = (y_y + row) * EYE_W + y_x in copy_at_len p off (eye_y src) off y_len)) [0..<16] dst) (\<lambda>dst.
      let c_x = mb_x * 8; c_y = mb_y * 8; c_len = mb_count * 8 in
      forR (\<lambda>row dst.
          bindR (on_cb (\<lambda>p. let off = (c_y + row) * CHROMA_W + c_x in copy_at_len p off (eye_cb src) off c_len) dst)
                (on_cr (\<lambda>p. let off = (c_y + row) * CHROMA_W + c_x in copy_at_len p off (eye_cr src) off c_len)))
        [0..<8] dst))"

text \<open>The \<open>while\<close> of \<open>copy_mb_run_zero_mv\<close>: spans of at least four macroblocks of a row are
  copied at once, shorter ones macroblock by macroblock.\<close>

function copy_mb_run_zero_mv_loop :: "eye_frame \<Rightarrow> eye_frame \<Rightarrow> nat \<Rightarrow> nat \<Rightarrow> eye_frame result" where
  "copy_mb_run_zero_mv_loop dst src end_mb mb_index =
     (if mb_index < end_mb then
        let mb_x = mb_index mod MB_W; mb_y = mb_index div MB_W;
            row_mbs = min (MB_W - mb_x) (end_mb - mb_index) in
        if row_mbs \<ge> 4 then
          bindR (copy_mb_row_span_zero_mv dst src mb_x mb_y row_mbs)
            (\<lambda>dst. copy_mb_run_zero_mv_loop dst src end_mb (mb_index + row_mbs))
        else
          let row_end = mb_index + row_mbs in
          bindR (forR (\<lambda>mb_index dst. copy_mb_zero_mv dst src mb_index) [mb_index..<row_end] dst)
            (\<lambda>dst. copy_mb_run_zero_mv_loop dst src end_mb row_end)
      else Inr dst)"
  by pat_completeness auto
termination
  by (relation "measure (\<lambda>(dst, src, end_mb, mb_index). end_mb - mb_index)")
    (auto simp: MB_W_def min_def)

declare copy_mb_run_zero_mv_loop.simps [simp del]

definition copy_mb_run_zero_mv :: "eye_frame \<Rightarrow> eye_frame \<Rightarrow> nat \<Rightarrow> nat \<Rightarrow> eye_frame result" where
  "copy_mb_run_zero_mv dst src start_mb count =
     bindR (check (start_mb + count \<le> MB_COUNT) Fault) (\<lambda>_.
     let end_mb = start_mb + count in copy_mb_run_zero_mv_loop dst src end_mb start_mb)"

definition copy_mb_run_from_reference :: "eye_frame \<Rightarrow> eye_frame \<Rightarrow> nat \<Rightarrow> nat \<Rightarrow> mv \<Rightarrow> eye_frame result" where
  "copy_mb_run_from_reference dst src start_mb count mv =
     (if mv = mv_zero then copy_mb_run_zero_mv dst src start_mb count
      else let end_mb = start_mb + count in
        forR (\<lambda>mb_index dst. copy_mb_from_reference dst src mb_index mv) [start_mb..<end_mb] dst)"

datatype vbs_shape = Split16x8 | Split8x16 | Split8x8

definition round_div2_i32 :: "int \<Rightarrow> int" where
  "round_div2_i32 value = (if value \<ge> 0 then (value + 1) div 2 else - ((- value + 1) div 2))"

definition round_div4_i32 :: "int \<Rightarrow> int" where
  "round_div4_i32 value = (if value \<ge> 0 then (value + 2) div 4 else - ((- value + 2) div 4))"

text \<open>Indexing the slice \<open>mvs\<close> panics out of range.\<close>

definition mv_at :: "mv list \<Rightarrow> nat \<Rightarrow> mv result" where
  "mv_at mvs k = (if k < length mvs then Inr (mvs ! k) else Inl Fault)"

definition copy_vbs_from_reference :: "eye_frame \<Rightarrow> eye_frame \<Rightarrow> nat \<Rightarrow> vbs_shape \<Rightarrow> mv list \<Rightarrow> eye_frame result" where
  "copy_vbs_from_reference dst src mb_index shape mvs =
     (let mb_x = mb_index mod MB_W; mb_y = mb_index div MB_W;
          base_x = mb_x * 16; base_y = mb_y * 16;
          part = (\<lambda>dst x y bw bh mv. on_y (\<lambda>p. copy_rect p (eye_y src) EYE_W EYE_H x y bw bh
                    (sint (mvX mv)) (sint (mvY mv))) dst);
          chroma = (\<lambda>dst (avg_x, avg_y).
            bindR (on_cb (\<lambda>p. copy_rect p (eye_cb src) CHROMA_W CHROMA_H (mb_x * 8) (mb_y * 8) 8 8
                     (avg_x div 2) (avg_y div 2)) dst) (\<lambda>dst.
            on_cr (\<lambda>p. copy_rect p (eye_cr src) CHROMA_W CHROMA_H (mb_x * 8) (mb_y * 8) 8 8
                     (avg_x div 2) (avg_y div 2)) dst)) in
      case shape of
        Split16x8 \<Rightarrow>
          bindR (mv_at mvs 0) (\<lambda>m0.
          bindR (part dst base_x base_y 16 8 m0) (\<lambda>dst.
          bindR (mv_at mvs 1) (\<lambda>m1.
          bindR (part dst base_x (base_y + 8) 16 8 m1) (\<lambda>dst.
          chroma dst (round_div2_i32 (sint (mvX m0) + sint (mvX m1)),
                      round_div2_i32 (sint (mvY m0) + sint (mvY m1)))))))
      | Split8x16 \<Rightarrow>
          bindR (mv_at mvs 0) (\<lambda>m0.
          bindR (part dst base_x base_y 8 16 m0) (\<lambda>dst.
          bindR (mv_at mvs 1) (\<lambda>m1.
          bindR (part dst (base_x + 8) base_y 8 16 m1) (\<lambda>dst.
          chroma dst (round_div2_i32 (sint (mvX m0) + sint (mvX m1)),
                      round_div2_i32 (sint (mvY m0) + sint (mvY m1)))))))
      | Split8x8 \<Rightarrow>
          bindR (forR (\<lambda>part_y. forR (\<lambda>part_x dst.
              let index = part_y * 2 + part_x in
              bindR (mv_at mvs index) (\<lambda>m.
              part dst (base_x + part_x * 8) (base_y + part_y * 8) 8 8 m)) [0..<2]) [0..<2] dst) (\<lambda>dst.
          bindR (mv_at mvs 0) (\<lambda>m0. bindR (mv_at mvs 1) (\<lambda>m1.
          bindR (mv_at mvs 2) (\<lambda>m2. bindR (mv_at mvs 3) (\<lambda>m3.
          chroma dst (round_div4_i32 (sint (mvX m0) + sint (mvX m1) + sint (mvX m2) + sint (mvX m3)),
                      round_div4_i32 (sint (mvY m0) + sint (mvY m1) + sint (mvY m2) + sint (mvY m3)))))))))"

section \<open>Raw macroblocks and raw frames\<close>

definition write_raw_mb :: "eye_frame \<Rightarrow> nat \<Rightarrow> byte list \<Rightarrow> eye_frame result" where
  "write_raw_mb current mb_index bytes =
     (let mb_x = mb_index mod MB_W; mb_y = mb_index div MB_W in
      bindR (forR (\<lambda>row (e, off).
          let dst = (mb_y * 16 + row) * EYE_W + mb_x * 16 in
          bindR (on_y (\<lambda>p. copy_at_16_by_4 p dst bytes off) e) (\<lambda>e. Inr (e, off + 16))) [0..<16] (current, 0)) (\<lambda>s.
      bindR (forR (\<lambda>row (e, off).
          let dst = (mb_y * 8 + row) * CHROMA_W + mb_x * 8 in
          bindR (on_cb (\<lambda>p. copy_at_8_by_4 p dst bytes off) e) (\<lambda>e. Inr (e, off + 8))) [0..<8] s) (\<lambda>s.
      bindR (forR (\<lambda>row (e, off).
          let dst = (mb_y * 8 + row) * CHROMA_W + mb_x * 8 in
          bindR (on_cr (\<lambda>p. copy_at_8_by_4 p dst bytes off) e) (\<lambda>e. Inr (e, off + 8))) [0..<8] s) (\<lambda>(e, off).
      Inr e))))"

text \<open>Safe slicing \<open>&xs[a..b]\<close> and \<open>copy_from_slice\<close> panic when out of range.\<close>

definition slice_range :: "byte list \<Rightarrow> nat \<Rightarrow> nat \<Rightarrow> byte list result" where
  "slice_range xs a b = (if a \<le> b \<and> b \<le> length xs then Inr (take (b - a) (drop a xs)) else Inl Fault)"

definition copy_from_slice :: "byte list \<Rightarrow> nat \<Rightarrow> nat \<Rightarrow> byte list \<Rightarrow> byte list result" where
  "copy_from_slice dst a b xs =
     (if a \<le> b \<and> b \<le> length dst \<and> length xs = b - a then Inr (take a dst @ xs @ drop b dst) else Inl Fault)"

definition read_raw_mb :: "eye_frame \<Rightarrow> nat \<Rightarrow> byte list \<Rightarrow> byte list result" where
  "read_raw_mb eye mb_index out =
     (let mb_x = mb_index mod MB_W; mb_y = mb_index div MB_W in
      bindR (forR (\<lambda>row out.
          let src = (mb_y * 16 + row) * EYE_W + mb_x * 16 in
          bindR (slice_range (eye_y eye) src (src + 16)) (\<lambda>s. Inr (out @ s))) [0..<16] out) (\<lambda>out.
      bindR (forR (\<lambda>row out.
          let src = (mb_y * 8 + row) * CHROMA_W + mb_x * 8 in
          bindR (slice_range (eye_cb eye) src (src + 8)) (\<lambda>s. Inr (out @ s))) [0..<8] out) (\<lambda>out.
      forR (\<lambda>row out.
          let src = (mb_y * 8 + row) * CHROMA_W + mb_x * 8 in
          bindR (slice_range (eye_cr eye) src (src + 8)) (\<lambda>s. Inr (out @ s))) [0..<8] out)))"

definition write_eye_raw :: "byte list \<Rightarrow> eye_frame \<Rightarrow> byte list" where
  "write_eye_raw out eye = out @ eye_y eye @ eye_cb eye @ eye_cr eye"

definition read_eye_raw_from_stream :: "eye_frame \<Rightarrow> byte list \<Rightarrow> nat \<Rightarrow> eye_frame result" where
  "read_eye_raw_from_stream dst bytes offset =
     bindR (check (offset + EYE_FRAME_BYTES \<le> length bytes) Fault) (\<lambda>_.
     bindR (on_y (\<lambda>p. copy_at EYE_Y_BYTES p 0 bytes offset) dst) (\<lambda>dst.
     bindR (on_cb (\<lambda>p. copy_at EYE_CHROMA_BYTES p 0 bytes (offset + EYE_Y_BYTES)) dst) (\<lambda>dst.
     on_cr (\<lambda>p. copy_at EYE_CHROMA_BYTES p 0 bytes (offset + EYE_Y_BYTES + EYE_CHROMA_BYTES)) dst)))"

end
