(* ===== verification/O3_Macroblock.thy ===== *)
theory O3_Macroblock
  imports O3_Eye
begin

text \<open>
  Macroblock-level behaviour of the prediction copies of \<open>O3_Eye\<close>: each is the
  reference motion copy on the samples of the macroblocks it names, and never
  faults on well-formed frames; raw macroblocks and raw frames round trip; the
  interfaces \<open>mb_op\<close> and \<open>mb_overwrite\<close> are discharged for them.
\<close>

section \<open>Samples and macroblocks\<close>

definition y_mb :: "nat \<Rightarrow> nat" where
  "y_mb i = (i div EYE_W div 16) * MB_W + (i mod EYE_W) div 16"

definition c_mb :: "nat \<Rightarrow> nat" where
  "c_mb i = (i div CHROMA_W div 8) * MB_W + (i mod CHROMA_W) div 8"

lemma block_interval_iff: "0 < n \<Longrightarrow> a * n \<le> c \<and> c < a * n + n \<longleftrightarrow> c div n = (a::nat)"
  by (metis div_nat_eqI dividend_less_times_div less_eq_div_iff_mult_less_eq add.commute
      mult.commute mult_Suc_right nle_le)

lemma div_mod_eq_iff: "q < n \<Longrightarrow> p * n + q = m \<longleftrightarrow> p = m div n \<and> q = m mod (n::nat)"
  by (metis div_mult_mod_eq div_mult_self3 div_less add.commute add.right_neutral mod_less
      mod_mult_self3 not_less_zero)

lemma y_mb_rect:
  "in_rect EYE_W (mb mod MB_W * 16) (mb div MB_W * 16) 16 16 i \<longleftrightarrow> y_mb i = mb"
proof -
  have "i mod EYE_W < 400" by (simp add: EYE_W_def)
  then have q: "(i mod EYE_W) div 16 < MB_W" by (simp add: MB_W_def)
  have "in_rect EYE_W (mb mod MB_W * 16) (mb div MB_W * 16) 16 16 i \<longleftrightarrow>
      (i mod EYE_W) div 16 = mb mod MB_W \<and> (i div EYE_W) div 16 = mb div MB_W"
    using block_interval_iff[of 16 "mb mod MB_W" "i mod EYE_W"] block_interval_iff[of 16 "mb div MB_W" "i div EYE_W"]
    by (auto simp: in_rect_def)
  also have "\<dots> \<longleftrightarrow> y_mb i = mb"
    unfolding y_mb_def div_mod_eq_iff[OF q] by auto
  finally show ?thesis .
qed

lemma c_mb_rect:
  "in_rect CHROMA_W (mb mod MB_W * 8) (mb div MB_W * 8) 8 8 i \<longleftrightarrow> c_mb i = mb"
proof -
  have "i mod CHROMA_W < 200" by (simp add: CHROMA_W_def)
  then have q: "(i mod CHROMA_W) div 8 < MB_W" by (simp add: MB_W_def)
  have "in_rect CHROMA_W (mb mod MB_W * 8) (mb div MB_W * 8) 8 8 i \<longleftrightarrow>
      (i mod CHROMA_W) div 8 = mb mod MB_W \<and> (i div CHROMA_W) div 8 = mb div MB_W"
    using block_interval_iff[of 8 "mb mod MB_W" "i mod CHROMA_W"] block_interval_iff[of 8 "mb div MB_W" "i div CHROMA_W"]
    by (auto simp: in_rect_def)
  also have "\<dots> \<longleftrightarrow> c_mb i = mb"
    unfolding c_mb_def div_mod_eq_iff[OF q] by auto
  finally show ?thesis .
qed

lemma mb_fits:
  assumes "mb < MB_COUNT"
  shows "mb mod MB_W * 16 + 16 \<le> EYE_W" "mb div MB_W * 16 + 16 \<le> EYE_H"
    "mb mod MB_W * 8 + 8 \<le> CHROMA_W" "mb div MB_W * 8 + 8 \<le> CHROMA_H"
proof -
  have m: "mb mod MB_W < 25" by (simp add: MB_W_def)
  have d: "mb div MB_W < 15" using assms by (simp add: geom less_mult_imp_div_less)
  show "mb mod MB_W * 16 + 16 \<le> EYE_W" "mb mod MB_W * 8 + 8 \<le> CHROMA_W"
    using m by (simp_all add: EYE_W_def CHROMA_W_def)
  show "mb div MB_W * 16 + 16 \<le> EYE_H" "mb div MB_W * 8 + 8 \<le> CHROMA_H"
    using d by (simp_all add: EYE_H_def CHROMA_H_def)
qed

lemma y_mb_less: "i < EYE_Y_BYTES \<Longrightarrow> y_mb i < MB_COUNT"
proof -
  assume "i < EYE_Y_BYTES"
  then have "i div EYE_W < 240" by (simp add: geom less_mult_imp_div_less)
  then have "i div EYE_W div 16 < 15" by simp
  moreover have "i mod EYE_W div 16 < 25" by (simp add: EYE_W_def)
  ultimately show ?thesis by (simp add: y_mb_def geom)
qed

lemma c_mb_less: "i < EYE_CHROMA_BYTES \<Longrightarrow> c_mb i < MB_COUNT"
proof -
  assume "i < EYE_CHROMA_BYTES"
  then have "i div CHROMA_W < 120" by (simp add: geom less_mult_imp_div_less)
  then have "i div CHROMA_W div 8 < 15" by simp
  moreover have "i mod CHROMA_W div 8 < 25" by (simp add: CHROMA_W_def)
  ultimately show ?thesis by (simp add: c_mb_def geom)
qed

text \<open>Two frames show the same samples in the macroblocks of \<open>S\<close>.\<close>

definition agree :: "nat set \<Rightarrow> eye_frame \<Rightarrow> eye_frame \<Rightarrow> bool" where
  "agree S a b \<longleftrightarrow>
     (\<forall>i < EYE_Y_BYTES. y_mb i \<in> S \<longrightarrow> eye_y a ! i = eye_y b ! i) \<and>
     (\<forall>i < EYE_CHROMA_BYTES. c_mb i \<in> S \<longrightarrow> eye_cb a ! i = eye_cb b ! i \<and> eye_cr a ! i = eye_cr b ! i)"

lemma agree_refl [simp]: "agree S a a"
  by (simp add: agree_def)

lemma agree_sym: "agree S a b \<Longrightarrow> agree S b a"
  by (auto simp: agree_def)

lemma agree_trans: "agree S a b \<Longrightarrow> agree S b c \<Longrightarrow> agree S a c"
  by (auto simp: agree_def)

lemma agree_mono: "agree S a b \<Longrightarrow> T \<subseteq> S \<Longrightarrow> agree T a b"
  by (auto simp: agree_def)

lemma agree_Un: "agree (S \<union> T) a b \<longleftrightarrow> agree S a b \<and> agree T a b"
  by (auto simp: agree_def)

lemma agree_empty [simp]: "agree {} a b"
  by (simp add: agree_def)

lemma agree_insert: "agree (insert m S) a b \<longleftrightarrow> agree {m} a b \<and> agree S a b"
  using agree_Un[of "{m}" S] by simp

lemma agree_all_eq:
  assumes "wf_eye a" and "wf_eye b" and "agree {..<MB_COUNT} a b"
  shows "a = b"
proof -
  have "eye_y a = eye_y b" "eye_cb a = eye_cb b" "eye_cr a = eye_cr b"
    using assms y_mb_less c_mb_less by (auto simp: agree_def wf_eye_def intro!: nth_equalityI)
  then show ?thesis by (simp add: eye_frame.equality)
qed

section \<open>The reference motion copy on macroblocks\<close>

definition mc_region :: "nat set \<Rightarrow> mv \<Rightarrow> eye_frame \<Rightarrow> eye_frame \<Rightarrow> eye_frame" where
  "mc_region S mv src dst =
     dst\<lparr>eye_y := mc_copy (\<lambda>i. y_mb i \<in> S) EYE_W EYE_H (sint (mvX mv)) (sint (mvY mv)) (eye_y src) (eye_y dst),
       eye_cb := mc_copy (\<lambda>i. c_mb i \<in> S) CHROMA_W CHROMA_H (sint (mvX mv) div 2) (sint (mvY mv) div 2) (eye_cb src) (eye_cb dst),
       eye_cr := mc_copy (\<lambda>i. c_mb i \<in> S) CHROMA_W CHROMA_H (sint (mvX mv) div 2) (sint (mvY mv) div 2) (eye_cr src) (eye_cr dst)\<rparr>"

lemma wf_mc_region [simp]: "wf_eye (mc_region S mv src dst) = wf_eye dst"
  by (simp add: wf_eye_def mc_region_def)

lemma agree_mc_region_outside: "wf_eye dst \<Longrightarrow> agree (- S) (mc_region S mv src dst) dst"
  by (auto simp: agree_def mc_region_def nth_mc_copy wf_eye_def)

lemma agree_mc_region:
  assumes "wf_eye d1" and "wf_eye d2"
  shows "agree (S \<inter> T) (mc_region S mv src d1) (mc_region T mv src d2)"
  using assms by (auto simp: agree_def mc_region_def nth_mc_copy wf_eye_def)

lemma mc_copy_Un:
  "mc_copy (\<lambda>i. f i \<in> T) w h mx my src (mc_copy (\<lambda>i. f i \<in> S) w h mx my src d) =
   mc_copy (\<lambda>i. f i \<in> S \<union> T) w h mx my src d"
  by (rule nth_equalityI) (auto simp: nth_mc_copy)

lemma mc_region_Un: "mc_region T mv src (mc_region S mv src d) = mc_region (S \<union> T) mv src d"
  by (simp add: mc_region_def mc_copy_Un)

lemma mc_region_empty [simp]: "mc_region {} mv src d = d"
  by (simp add: mc_region_def mc_copy_def)

lemma mv_zero_sint [simp]: "sint (mvX mv_zero) = 0" "sint (mvY mv_zero) = 0"
  by (simp_all add: mv_zero_def)

lemma eye_lengths:
  assumes "wf_eye e"
  shows "length (eye_y e) = EYE_W * EYE_H" "length (eye_cb e) = CHROMA_W * CHROMA_H"
    "length (eye_cr e) = CHROMA_W * CHROMA_H"
  using assms by (simp_all add: wf_eye_def EYE_Y_BYTES_def EYE_CHROMA_BYTES_def)

lemma dims_pos [simp]: "0 < EYE_W" "0 < EYE_H" "0 < CHROMA_W" "0 < CHROMA_H" "0 < MB_W" "0 < MB_COUNT"
  by (simp_all add: geom)

theorem prefill_eye_ok:
  assumes "wf_eye dst" and "wf_eye src"
  shows "prefill_eye dst src mv = Inr (mc_region UNIV mv src dst)"
proof (cases "mv = mv_zero")
  case True
  have e: "copy_exact N p q = Inr (mc_copy (\<lambda>_. True) w h 0 0 q p)"
    if "length p = w * h" "length q = w * h" "N = w * h" for p q N w h
    using that by (auto simp: copy_exact_def mc_copy_def mc_index_zero intro!: nth_equalityI)
  from True show ?thesis
    using eye_lengths[OF assms(1)] eye_lengths[OF assms(2)]
    by (simp add: prefill_eye_def on_y_def on_cb_def on_cr_def mc_region_def
        e[where w = EYE_W and h = EYE_H] e[where w = CHROMA_W and h = CHROMA_H] EYE_Y_BYTES_def EYE_CHROMA_BYTES_def)
next
  case False
  then show ?thesis
    using eye_lengths[OF assms(1)] eye_lengths[OF assms(2)]
    by (simp add: prefill_eye_def on_y_def on_cb_def on_cr_def mc_region_def motion_copy_plane_ok
        EYE_Y_BYTES_def EYE_CHROMA_BYTES_def)
qed

text \<open>A whole span of macroblocks of one row, copied in place.\<close>

lemma row_span_rect_y:
  assumes "mb_x + n \<le> MB_W"
  shows "in_rect EYE_W (mb_x * 16) (mb_y * 16) (n * 16) 16 i \<longleftrightarrow>
    y_mb i \<in> {mb_y * MB_W + mb_x ..< mb_y * MB_W + mb_x + n}"
proof -
  have q: "(i mod EYE_W) div 16 < MB_W" by (simp add: geom)
  have c: "(mb_x * 16 \<le> i mod EYE_W \<and> i mod EYE_W < mb_x * 16 + n * 16) =
      (mb_x \<le> i mod EYE_W div 16 \<and> i mod EYE_W div 16 < mb_x + n)" by auto
  have r: "(mb_y * 16 \<le> i div EYE_W \<and> i div EYE_W < mb_y * 16 + 16) = (i div EYE_W div 16 = mb_y)" by auto
  have "y_mb i \<in> {mb_y * MB_W + mb_x ..< mb_y * MB_W + mb_x + n} \<longleftrightarrow>
      i div EYE_W div 16 = mb_y \<and> mb_x \<le> i mod EYE_W div 16 \<and> i mod EYE_W div 16 < mb_x + n"
    using row_range_iff[OF assms, of mb_y "y_mb i"] q by (simp add: y_mb_def)
  with c r show ?thesis by (auto simp: in_rect_def)
qed

lemma row_span_rect_c:
  assumes "mb_x + n \<le> MB_W"
  shows "in_rect CHROMA_W (mb_x * 8) (mb_y * 8) (n * 8) 8 i \<longleftrightarrow>
    c_mb i \<in> {mb_y * MB_W + mb_x ..< mb_y * MB_W + mb_x + n}"
proof -
  have q: "(i mod CHROMA_W) div 8 < MB_W" by (simp add: geom)
  have c: "(mb_x * 8 \<le> i mod CHROMA_W \<and> i mod CHROMA_W < mb_x * 8 + n * 8) =
      (mb_x \<le> i mod CHROMA_W div 8 \<and> i mod CHROMA_W div 8 < mb_x + n)" by auto
  have r: "(mb_y * 8 \<le> i div CHROMA_W \<and> i div CHROMA_W < mb_y * 8 + 8) = (i div CHROMA_W div 8 = mb_y)" by auto
  have "c_mb i \<in> {mb_y * MB_W + mb_x ..< mb_y * MB_W + mb_x + n} \<longleftrightarrow>
      i div CHROMA_W div 8 = mb_y \<and> mb_x \<le> i mod CHROMA_W div 8 \<and> i mod CHROMA_W div 8 < mb_x + n"
    using row_range_iff[OF assms, of mb_y "c_mb i"] q by (simp add: c_mb_def)
  with c r show ?thesis by (auto simp: in_rect_def)
qed

text \<open>In-place row copies of both kinds of plane, as one motion copy by the zero vector.\<close>

lemma zero_rows_eye:
  assumes "wf_eye dst" and "wf_eye src"
    and "x + bw \<le> EYE_W" "y + bh \<le> EYE_H" "cx + cbw \<le> CHROMA_W" "cy + cbh \<le> CHROMA_H"
    and "\<And>i. in_rect EYE_W x y bw bh i \<longleftrightarrow> y_mb i \<in> S"
    and "\<And>i. in_rect CHROMA_W cx cy cbw cbh i \<longleftrightarrow> c_mb i \<in> S"
  shows "bindR (forR (\<lambda>row. on_y (\<lambda>p. copy_at_len p ((y + row) * EYE_W + x) (eye_y src) ((y + row) * EYE_W + x) bw)) [0..<bh] dst)
      (\<lambda>dst. forR (\<lambda>row dst.
          bindR (on_cb (\<lambda>p. copy_at_len p ((cy + row) * CHROMA_W + cx) (eye_cb src) ((cy + row) * CHROMA_W + cx) cbw) dst)
                (on_cr (\<lambda>p. copy_at_len p ((cy + row) * CHROMA_W + cx) (eye_cr src) ((cy + row) * CHROMA_W + cx) cbw)))
        [0..<cbh] dst) = Inr (mc_region S mv_zero src dst)"
proof -
  note l = eye_lengths[OF assms(1)] eye_lengths[OF assms(2)]
  have Y: "forR (\<lambda>row p. copy_at_len p ((y + row) * EYE_W + x) (eye_y src) ((y + row) * EYE_W + x) bw) [0..<bh] (eye_y dst)
      = Inr (mc_copy (\<lambda>i. y_mb i \<in> S) EYE_W EYE_H 0 0 (eye_y src) (eye_y dst))"
    using copy_rows_zero[OF assms(3,4) l(1) l(4) refl] assms(7) by presburger
  have CB: "forR (\<lambda>row p. copy_at_len p ((cy + row) * CHROMA_W + cx) (eye_cb src) ((cy + row) * CHROMA_W + cx) cbw) [0..<cbh] (eye_cb dst)
      = Inr (mc_copy (\<lambda>i. c_mb i \<in> S) CHROMA_W CHROMA_H 0 0 (eye_cb src) (eye_cb dst))"
    using copy_rows_zero[OF assms(5,6) l(2) l(5) refl] assms(8) by presburger
  have CR: "forR (\<lambda>row p. copy_at_len p ((cy + row) * CHROMA_W + cx) (eye_cr src) ((cy + row) * CHROMA_W + cx) cbw) [0..<cbh] (eye_cr dst)
      = Inr (mc_copy (\<lambda>i. c_mb i \<in> S) CHROMA_W CHROMA_H 0 0 (eye_cr src) (eye_cr dst))"
    using copy_rows_zero[OF assms(5,6) l(3) l(6) refl] assms(8) by presburger
  show ?thesis
    by (simp add: forR_on_y on_y_def Y forR_cb_cr[OF CB CR, simplified] forR_cb_cr CB CR mc_region_def)
qed

lemma copy_mb_zero_mv_ok:
  assumes "wf_eye dst" and "wf_eye src" and "mb < MB_COUNT"
  shows "copy_mb_zero_mv dst src mb = Inr (mc_region {mb} mv_zero src dst)"
  using zero_rows_eye[OF assms(1,2) mb_fits(1,2,3,4)[OF assms(3)], of "{mb}"]
  by (simp add: copy_mb_zero_mv_def Let_def copy_at_16_eq copy_at_8_eq y_mb_rect c_mb_rect)

lemma copy_mb_row_span_ok:
  assumes "wf_eye dst" and "wf_eye src" and "mb_x + n \<le> MB_W" and "mb_y < MB_H"
  shows "copy_mb_row_span_zero_mv dst src mb_x mb_y n =
    Inr (mc_region {mb_y * MB_W + mb_x ..< mb_y * MB_W + mb_x + n} mv_zero src dst)"
  using zero_rows_eye[OF assms(1,2), of "mb_x * 16" "n * 16" "mb_y * 16" 16 "mb_x * 8" "n * 8" "mb_y * 8" 8,
      OF _ _ _ _ row_span_rect_y[OF assms(3)] row_span_rect_c[OF assms(3)]] assms(3,4)
  by (simp add: copy_mb_row_span_zero_mv_def Let_def geom)

lemma mb_rect_fun:
  "in_rect EYE_W (mb mod MB_W * 16) (mb div MB_W * 16) 16 16 = (\<lambda>i. y_mb i = mb)"
  "in_rect CHROMA_W (mb mod MB_W * 8) (mb div MB_W * 8) 8 8 = (\<lambda>i. c_mb i = mb)"
  by (auto simp: y_mb_rect c_mb_rect)

theorem copy_mb_from_reference_ok:
  assumes "wf_eye dst" and "wf_eye src" and "mb < MB_COUNT"
  shows "copy_mb_from_reference dst src mb mv = Inr (mc_region {mb} mv src dst)"
proof (cases "mv = mv_zero")
  case True
  then show ?thesis using assms by (simp add: copy_mb_from_reference_def copy_mb_zero_mv_ok)
next
  case False
  then show ?thesis
    using eye_lengths[OF assms(1)] eye_lengths[OF assms(2)] mb_fits[OF assms(3)]
    by (simp add: copy_mb_from_reference_def Let_def on_y_def on_cb_def on_cr_def copy_rect_ok
        mc_region_def mb_rect_fun)
qed

lemma forR_mc_region:
  assumes "\<And>mb d. mb \<in> set mbs \<Longrightarrow> wf_eye d \<Longrightarrow> f mb d = Inr (mc_region {mb} mv src d)"
    and "wf_eye d"
  shows "forR f mbs d = Inr (mc_region (set mbs) mv src d)"
  using assms
proof (induction mbs arbitrary: d)
  case (Cons mb mbs)
  then show ?case by (simp add: mc_region_Un)
qed simp

lemma copy_mb_run_zero_mv_loop_ok:
  assumes "wf_eye dst" and "wf_eye src" and "end_mb \<le> MB_COUNT"
  shows "copy_mb_run_zero_mv_loop dst src end_mb mb = Inr (mc_region {mb..<end_mb} mv_zero src dst)"
  using assms
proof (induction dst src end_mb mb rule: copy_mb_run_zero_mv_loop.induct)
  case (1 dst src end_mb mb)
  show ?case
  proof (cases "mb < end_mb")
    case False
    then show ?thesis by (simp add: copy_mb_run_zero_mv_loop.simps)
  next
    case True
    define n where "n = min (MB_W - mb mod MB_W) (end_mb - mb)"
    have n: "mb mod MB_W + n \<le> MB_W" "mb + n \<le> end_mb" "mb div MB_W * MB_W + mb mod MB_W = mb"
      using True mod_less_divisor[of MB_W mb] by (auto simp: n_def min_def)
    have y: "mb div MB_W < MB_H"
      using True "1.prems" by (simp add: geom less_mult_imp_div_less)
    have u: "{mb..<mb + n} \<union> {mb + n..<end_mb} = {mb..<end_mb}"
      using n by auto
    have step: "copy_mb_run_zero_mv_loop dst src end_mb mb =
        (if 4 \<le> n then bindR (copy_mb_row_span_zero_mv dst src (mb mod MB_W) (mb div MB_W) n)
            (\<lambda>dst. copy_mb_run_zero_mv_loop dst src end_mb (mb + n))
         else bindR (forR (\<lambda>mb dst. copy_mb_zero_mv dst src mb) [mb..<mb + n] dst)
            (\<lambda>dst. copy_mb_run_zero_mv_loop dst src end_mb (mb + n)))"
      using True by (subst copy_mb_run_zero_mv_loop.simps) (simp only: Let_def n_def if_True)
    show ?thesis
    proof (cases "4 \<le> n")
      case span: True
      have sp: "copy_mb_row_span_zero_mv dst src (mb mod MB_W) (mb div MB_W) n =
          Inr (mc_region {mb..<mb + n} mv_zero src dst)"
        using copy_mb_row_span_ok[OF "1.prems"(1,2) n(1) y] by (simp only: n(3))
      have "copy_mb_run_zero_mv_loop (mc_region {mb..<mb + n} mv_zero src dst) src end_mb (mb + n) =
          Inr (mc_region {mb + n..<end_mb} mv_zero src (mc_region {mb..<mb + n} mv_zero src dst))"
        using "1.prems" by (intro "1.IH"(1)[OF True refl refl n_def span]) (auto simp: sp)
      then show ?thesis
        using span sp by (simp add: step mc_region_Un u)
    next
      case short: False
      have f: "forR (\<lambda>mb dst. copy_mb_zero_mv dst src mb) [mb..<mb + n] dst =
          Inr (mc_region {mb..<mb + n} mv_zero src dst)"
        using "1.prems" n(2)
        by (subst forR_mc_region[where mv = mv_zero and src = src]) (auto simp: copy_mb_zero_mv_ok)
      have "copy_mb_run_zero_mv_loop (mc_region {mb..<mb + n} mv_zero src dst) src end_mb (mb + n) =
          Inr (mc_region {mb + n..<end_mb} mv_zero src (mc_region {mb..<mb + n} mv_zero src dst))"
        using "1.prems" by (intro "1.IH"(2)[OF True refl refl n_def short refl]) (auto simp: f)
      with short f show ?thesis
        by (simp add: step mc_region_Un u)
    qed
  qed
qed

theorem copy_mb_run_from_reference_ok:
  assumes "wf_eye dst" and "wf_eye src" and "start + count \<le> MB_COUNT"
  shows "copy_mb_run_from_reference dst src start count mv = Inr (mc_region {start..<start + count} mv src dst)"
proof (cases "mv = mv_zero")
  case True
  then show ?thesis using assms
    by (simp add: copy_mb_run_from_reference_def copy_mb_run_zero_mv_def copy_mb_run_zero_mv_loop_ok)
next
  case False
  have "forR (\<lambda>mb d. copy_mb_from_reference d src mb mv) [start..<start + count] dst =
      Inr (mc_region (set [start..<start + count]) mv src dst)"
    using assms by (intro forR_mc_region copy_mb_from_reference_ok) auto
  with False show ?thesis by (simp add: copy_mb_run_from_reference_def)
qed

text \<open>Copying a run of macroblocks lazily gives what prefilling the whole frame shows there.\<close>

corollary lazy_run_agrees_with_prefill:
  assumes "wf_eye dst" and "wf_eye dst'" and "wf_eye src" and "start + count \<le> MB_COUNT"
  shows "\<exists>lazy full. copy_mb_run_from_reference dst src start count mv = Inr lazy
    \<and> prefill_eye dst' src mv = Inr full \<and> agree {start..<start + count} lazy full
    \<and> agree (- {start..<start + count}) lazy dst"
  using agree_mc_region[OF assms(1,2), of "{start..<start + count}" UNIV mv src]
    agree_mc_region_outside[OF assms(1)]
  by (simp add: copy_mb_run_from_reference_ok[OF assms(1,3,4)] prefill_eye_ok[OF assms(2,3)])

section \<open>Split prediction\<close>

fun vbs_count :: "vbs_shape \<Rightarrow> nat" where
  "vbs_count Split16x8 = 2"
| "vbs_count Split8x16 = 2"
| "vbs_count Split8x8 = 4"

text \<open>The luma parts of a split (offset, size, vector) and its chroma displacement.\<close>

fun vbs_parts :: "vbs_shape \<Rightarrow> mv list \<Rightarrow> (nat \<times> nat \<times> nat \<times> nat \<times> mv) list" where
  "vbs_parts Split16x8 mvs = [(0, 0, 16, 8, mvs ! 0), (0, 8, 16, 8, mvs ! 1)]"
| "vbs_parts Split8x16 mvs = [(0, 0, 8, 16, mvs ! 0), (8, 0, 8, 16, mvs ! 1)]"
| "vbs_parts Split8x8 mvs = [(0, 0, 8, 8, mvs ! 0), (8, 0, 8, 8, mvs ! 1), (0, 8, 8, 8, mvs ! 2), (8, 8, 8, 8, mvs ! 3)]"

fun vbs_avg :: "vbs_shape \<Rightarrow> mv list \<Rightarrow> int \<times> int" where
  "vbs_avg Split8x8 mvs =
     (round_div4_i32 (sint (mvX (mvs ! 0)) + sint (mvX (mvs ! 1)) + sint (mvX (mvs ! 2)) + sint (mvX (mvs ! 3))),
      round_div4_i32 (sint (mvY (mvs ! 0)) + sint (mvY (mvs ! 1)) + sint (mvY (mvs ! 2)) + sint (mvY (mvs ! 3))))"
| "vbs_avg _ mvs =
     (round_div2_i32 (sint (mvX (mvs ! 0)) + sint (mvX (mvs ! 1))),
      round_div2_i32 (sint (mvY (mvs ! 0)) + sint (mvY (mvs ! 1))))"

definition mc_part :: "byte list \<Rightarrow> nat \<Rightarrow> nat \<times> nat \<times> nat \<times> nat \<times> mv \<Rightarrow> byte list \<Rightarrow> byte list" where
  "mc_part src mb = (\<lambda>(px, py, bw, bh, m).
     mc_copy (in_rect EYE_W (mb mod MB_W * 16 + px) (mb div MB_W * 16 + py) bw bh)
       EYE_W EYE_H (sint (mvX m)) (sint (mvY m)) src)"

definition vbs_eye :: "vbs_shape \<Rightarrow> mv list \<Rightarrow> eye_frame \<Rightarrow> nat \<Rightarrow> eye_frame \<Rightarrow> eye_frame" where
  "vbs_eye shape mvs src mb dst =
     (let (ax, ay) = vbs_avg shape mvs in
      dst\<lparr>eye_y := fold (mc_part (eye_y src) mb) (vbs_parts shape mvs) (eye_y dst),
        eye_cb := mc_copy (\<lambda>i. c_mb i = mb) CHROMA_W CHROMA_H (ax div 2) (ay div 2) (eye_cb src) (eye_cb dst),
        eye_cr := mc_copy (\<lambda>i. c_mb i = mb) CHROMA_W CHROMA_H (ax div 2) (ay div 2) (eye_cr src) (eye_cr dst)\<rparr>)"

definition part_ok :: "nat \<times> nat \<times> nat \<times> nat \<times> mv \<Rightarrow> bool" where
  "part_ok = (\<lambda>(px, py, bw, bh, m). px + bw \<le> 16 \<and> py + bh \<le> 16)"

definition parts_cover :: "(nat \<times> nat \<times> nat \<times> nat \<times> mv) list \<Rightarrow> bool" where
  "parts_cover ps \<longleftrightarrow> (\<forall>x<16. \<forall>y<16. \<exists>(px, py, bw, bh, m)\<in>set ps.
     px \<le> x \<and> x < px + bw \<and> py \<le> y \<and> y < py + bh)"

lemma vbs_parts_ok: "\<forall>p\<in>set (vbs_parts shape mvs). part_ok p"
  by (cases shape) (auto simp: part_ok_def)

lemma vbs_parts_cover: "parts_cover (vbs_parts shape mvs)"
proof (cases shape)
  case Split8x8
  have "(x < 8 \<or> 8 \<le> x) \<and> (y < 8 \<or> (8::nat) \<le> y)" for x y :: nat by auto
  with Split8x8 show ?thesis by (auto simp: parts_cover_def)
qed (auto simp: parts_cover_def not_less)

lemma length_mc_part [simp]: "length (mc_part src mb p d) = length d"
  by (cases p) (simp add: mc_part_def)

lemma length_fold_mc_part [simp]: "length (fold (mc_part src mb) ps d) = length d"
  by (induction ps arbitrary: d) auto

lemma nth_mc_part_outside:
  assumes "part_ok p" and "i < length d" and "y_mb i \<noteq> mb"
  shows "mc_part src mb p d ! i = d ! i"
  using assms y_mb_rect[of mb i]
  by (cases p) (auto simp: mc_part_def nth_mc_copy part_ok_def in_rect_def)

lemma nth_fold_mc_part_outside:
  assumes "\<forall>p\<in>set ps. part_ok p" and "i < length d" and "y_mb i \<noteq> mb"
  shows "fold (mc_part src mb) ps d ! i = d ! i"
  using assms by (induction ps arbitrary: d) (auto simp: nth_mc_part_outside)

lemma nth_fold_mc_part_cong:
  assumes "length d1 = length d2" and "i < length d1" and "d1 ! i = d2 ! i"
  shows "fold (mc_part src mb) ps d1 ! i = fold (mc_part src mb) ps d2 ! i"
  using assms
proof (induction ps arbitrary: d1 d2)
  case (Cons p ps)
  have "mc_part src mb p d1 ! i = mc_part src mb p d2 ! i"
    using Cons.prems by (cases p) (auto simp: mc_part_def nth_mc_copy)
  with Cons.IH[of "mc_part src mb p d1" "mc_part src mb p d2"] Cons.prems show ?case by simp
qed simp

lemma nth_fold_mc_part_written:
  assumes "length d1 = length d2" and "i < length d1"
    and "\<exists>(px, py, bw, bh, m)\<in>set ps. in_rect EYE_W (mb mod MB_W * 16 + px) (mb div MB_W * 16 + py) bw bh i"
  shows "fold (mc_part src mb) ps d1 ! i = fold (mc_part src mb) ps d2 ! i"
  using assms
proof (induction ps arbitrary: d1 d2)
  case (Cons p ps)
  obtain px py bw bh m where p: "p = (px, py, bw, bh, m)" by (cases p)
  show ?case
  proof (cases "in_rect EYE_W (mb mod MB_W * 16 + px) (mb div MB_W * 16 + py) bw bh i")
    case True
    then have "mc_part src mb p d1 ! i = mc_part src mb p d2 ! i"
      using Cons.prems by (simp add: p mc_part_def nth_mc_copy)
    with Cons.prems show ?thesis by (simp add: nth_fold_mc_part_cong)
  next
    case False
    with Cons.prems(3) show ?thesis
      using Cons.IH[of "mc_part src mb p d1" "mc_part src mb p d2"] Cons.prems(1,2) by (auto simp: p)
  qed
qed simp

lemma parts_cover_rect:
  assumes "parts_cover ps" and "y_mb i = mb"
  shows "\<exists>(px, py, bw, bh, m)\<in>set ps. in_rect EYE_W (mb mod MB_W * 16 + px) (mb div MB_W * 16 + py) bw bh i"
proof -
  from assms(2) have r: "in_rect EYE_W (mb mod MB_W * 16) (mb div MB_W * 16) 16 16 i" by (simp add: y_mb_rect)
  define x y where "x = i mod EYE_W - mb mod MB_W * 16" and "y = i div EYE_W - mb div MB_W * 16"
  with r have xy: "x < 16" "y < 16" "i mod EYE_W = mb mod MB_W * 16 + x" "i div EYE_W = mb div MB_W * 16 + y"
    by (auto simp: in_rect_def)
  with assms(1) obtain px py bw bh m where "(px, py, bw, bh, m) \<in> set ps"
    "px \<le> x \<and> x < px + bw \<and> py \<le> y \<and> y < py + bh"
    unfolding parts_cover_def by blast
  with xy show ?thesis
    by (intro bexI[of _ "(px, py, bw, bh, m)"]) (auto simp: in_rect_def)
qed

lemma copy_rect_part:
  assumes "mb < MB_COUNT" and "part_ok (px, py, bw, bh, m)" and "length d = EYE_W * EYE_H" and "length src = EYE_W * EYE_H"
  shows "copy_rect d src EYE_W EYE_H (mb mod MB_W * 16 + px) (mb div MB_W * 16 + py) bw bh (sint (mvX m)) (sint (mvY m)) =
    Inr (mc_part src mb (px, py, bw, bh, m) d)"
  using assms(2-4) mb_fits(1,2)[OF assms(1)] by (simp add: copy_rect_ok part_ok_def mc_part_def)

theorem copy_vbs_from_reference_ok:
  assumes "wf_eye dst" and "wf_eye src" and "mb < MB_COUNT" and "length mvs = vbs_count shape"
  shows "copy_vbs_from_reference dst src mb shape mvs = Inr (vbs_eye shape mvs src mb dst)"
proof -
  note l = eye_lengths[OF assms(1)] eye_lengths[OF assms(2)]
  have part: "on_y (\<lambda>p. copy_rect p (eye_y src) EYE_W EYE_H (mb mod MB_W * 16 + px) (mb div MB_W * 16 + py) bw bh
      (sint (mvX m)) (sint (mvY m))) e = Inr (e\<lparr>eye_y := mc_part (eye_y src) mb (px, py, bw, bh, m) (eye_y e)\<rparr>)"
    if "px + bw \<le> 16" "py + bh \<le> 16" "length (eye_y e) = EYE_W * EYE_H" for px py bw bh m e
    using that l copy_rect_part[OF assms(3)] by (simp add: on_y_def part_ok_def)
  note part0 = part[of 0 _ 0, simplified] part[of 0, simplified] part[of _ _ 0, simplified]
  have two: "[0..<2] = [0, 1::nat]" by (simp add: upt_rec)
  show ?thesis
    using assms(4) l mb_fits(3,4)[OF assms(3)]
    by (cases shape)
      (simp_all add: copy_vbs_from_reference_def Let_def mv_at_def part part0 two on_cb_def on_cr_def copy_rect_ok
        mb_rect_fun vbs_eye_def add.commute[of 8])
qed

end
