(* ===== verification/O3_MbInterface.thy ===== *)
theory O3_MbInterface
  imports O3_Macroblock
begin

text \<open>
  Raw macroblocks (\<open>read_raw_mb\<close>, \<open>write_raw_mb\<close>) with their round trip, and the
  two interfaces of macroblock operations. An \<open>mb_op\<close> changes only the samples
  of its macroblock and lets what it writes (and whether it fails) depend on the
  frame only through that macroblock; an \<open>mb_overwrite\<close> moreover always
  succeeds and replaces the macroblock whatever the frame held. The decoder's
  closed-loop and buffer-reuse properties rest on these laws.
\<close>

section \<open>Positions of a macroblock's samples\<close>

definition y_pos :: "nat \<Rightarrow> nat \<Rightarrow> nat" where
  "y_pos mb k = (mb div MB_W * 16 + k div 16) * EYE_W + (mb mod MB_W * 16 + k mod 16)"

definition c_pos :: "nat \<Rightarrow> nat \<Rightarrow> nat" where
  "c_pos mb k = (mb div MB_W * 8 + k div 8) * CHROMA_W + (mb mod MB_W * 8 + k mod 8)"

definition raw_bytes :: "eye_frame \<Rightarrow> nat \<Rightarrow> byte list" where
  "raw_bytes e mb = map (\<lambda>k. eye_y e ! y_pos mb k) [0..<256] @
     map (\<lambda>k. eye_cb e ! c_pos mb k) [0..<64] @ map (\<lambda>k. eye_cr e ! c_pos mb k) [0..<64]"

lemma length_raw_bytes [simp]: "length (raw_bytes e mb) = 384"
  by (simp add: raw_bytes_def)

lemma pos_div_mod: "x < w \<Longrightarrow> (y * w + x) div w = y \<and> (y * w + x) mod w = (x::nat)"
  by (metis add.commute add.right_neutral div_less div_mult_self3 mod_less mod_mult_self3 not_less_zero)

lemma y_pos_in:
  assumes "mb < MB_COUNT" and "k < 256"
  shows "y_pos mb k < EYE_Y_BYTES" and "y_mb (y_pos mb k) = mb"
    and "y_pos mb k div EYE_W = mb div MB_W * 16 + k div 16"
    and "y_pos mb k mod EYE_W = mb mod MB_W * 16 + k mod 16"
proof -
  have k: "k div 16 < 16" "k mod 16 < 16" using assms(2) by (auto simp: less_mult_imp_div_less)
  then have x: "mb mod MB_W * 16 + k mod 16 < EYE_W" and y: "mb div MB_W * 16 + k div 16 < EYE_H"
    using mb_fits(1,2)[OF assms(1)] by linarith+
  from index_bound[OF x y] show "y_pos mb k < EYE_Y_BYTES" by (simp add: y_pos_def EYE_Y_BYTES_def)
  from pos_div_mod[OF x] show d: "y_pos mb k div EYE_W = mb div MB_W * 16 + k div 16"
    and m: "y_pos mb k mod EYE_W = mb mod MB_W * 16 + k mod 16" by (simp_all add: y_pos_def)
  from k show "y_mb (y_pos mb k) = mb" unfolding y_mb_rect[symmetric] in_rect_def d m by simp
qed

lemma c_pos_in:
  assumes "mb < MB_COUNT" and "k < 64"
  shows "c_pos mb k < EYE_CHROMA_BYTES" and "c_mb (c_pos mb k) = mb"
    and "c_pos mb k div CHROMA_W = mb div MB_W * 8 + k div 8"
    and "c_pos mb k mod CHROMA_W = mb mod MB_W * 8 + k mod 8"
proof -
  have k: "k div 8 < 8" "k mod 8 < 8" using assms(2) by (auto simp: less_mult_imp_div_less)
  then have x: "mb mod MB_W * 8 + k mod 8 < CHROMA_W" and y: "mb div MB_W * 8 + k div 8 < CHROMA_H"
    using mb_fits(3,4)[OF assms(1)] by linarith+
  from index_bound[OF x y] show "c_pos mb k < EYE_CHROMA_BYTES" by (simp add: c_pos_def EYE_CHROMA_BYTES_def)
  from pos_div_mod[OF x] show d: "c_pos mb k div CHROMA_W = mb div MB_W * 8 + k div 8"
    and m: "c_pos mb k mod CHROMA_W = mb mod MB_W * 8 + k mod 8" by (simp_all add: c_pos_def)
  from k show "c_mb (c_pos mb k) = mb" unfolding c_mb_rect[symmetric] in_rect_def d m by simp
qed

lemma y_pos_onto:
  assumes "y_mb i = mb"
  shows "\<exists>k<256. i = y_pos mb k \<and> k = (i div EYE_W - mb div MB_W * 16) * 16 + (i mod EYE_W - mb mod MB_W * 16)"
proof -
  from assms have r: "in_rect EYE_W (mb mod MB_W * 16) (mb div MB_W * 16) 16 16 i" by (simp add: y_mb_rect)
  define x y where "x = i mod EYE_W - mb mod MB_W * 16" and "y = i div EYE_W - mb div MB_W * 16"
  with r have "x < 16" "y < 16" "i mod EYE_W = mb mod MB_W * 16 + x" "i div EYE_W = mb div MB_W * 16 + y"
    by (auto simp: in_rect_def)
  then have "y_pos mb (y * 16 + x) = i" "y * 16 + x < 256"
    using pos_div_mod[of x 16 y] div_mult_mod_eq[of i EYE_W] by (auto simp: y_pos_def)
  then show ?thesis using x_def y_def by metis
qed

lemma c_pos_onto:
  assumes "c_mb i = mb"
  shows "\<exists>k<64. i = c_pos mb k \<and> k = (i div CHROMA_W - mb div MB_W * 8) * 8 + (i mod CHROMA_W - mb mod MB_W * 8)"
proof -
  from assms have r: "in_rect CHROMA_W (mb mod MB_W * 8) (mb div MB_W * 8) 8 8 i" by (simp add: c_mb_rect)
  define x y where "x = i mod CHROMA_W - mb mod MB_W * 8" and "y = i div CHROMA_W - mb div MB_W * 8"
  with r have "x < 8" "y < 8" "i mod CHROMA_W = mb mod MB_W * 8 + x" "i div CHROMA_W = mb div MB_W * 8 + y"
    by (auto simp: in_rect_def)
  then have "c_pos mb (y * 8 + x) = i" "y * 8 + x < 64"
    using pos_div_mod[of x 8 y] div_mult_mod_eq[of i CHROMA_W] by (auto simp: c_pos_def)
  then show ?thesis using x_def y_def by metis
qed

theorem agree_iff_raw_bytes:
  assumes "mb < MB_COUNT"
  shows "agree {mb} a b \<longleftrightarrow> raw_bytes a mb = raw_bytes b mb"
proof
  assume "agree {mb} a b"
  then show "raw_bytes a mb = raw_bytes b mb"
    using y_pos_in[OF assms] c_pos_in[OF assms] by (simp add: raw_bytes_def agree_def)
next
  assume "raw_bytes a mb = raw_bytes b mb"
  then have "\<forall>k<256. eye_y a ! y_pos mb k = eye_y b ! y_pos mb k"
    and "\<forall>k<64. eye_cb a ! c_pos mb k = eye_cb b ! c_pos mb k"
    and "\<forall>k<64. eye_cr a ! c_pos mb k = eye_cr b ! c_pos mb k"
    by (simp_all add: raw_bytes_def)
  then show "agree {mb} a b"
    unfolding agree_def by (metis singletonD y_pos_onto c_pos_onto)
qed

section \<open>Reading a raw macroblock\<close>

lemma concat_rows:
  assumes "0 < n"
  shows "concat (map (\<lambda>r. map (\<lambda>c. f r c) [0..<n]) [0..<m]) = map (\<lambda>k. f (k div n) (k mod n)) [0..<m * n]"
proof (induction m)
  case (Suc m)
  have "map (\<lambda>c. f m c) [0..<n] = map (\<lambda>k. f (k div n) (k mod n)) [m * n..<m * n + n]"
    using pos_div_mod[where w = n and y = m] by (intro nth_equalityI) auto
  moreover have "[0..<Suc m * n] = [0..<m * n] @ [m * n..<m * n + n]"
    using upt_add_eq_append[of 0 "m * n" n] by (simp add: add.commute)
  ultimately show ?case using Suc by simp
qed simp

lemma read_rows:
  assumes "\<And>row. row < m \<Longrightarrow> f row + n \<le> length p"
  shows "forR (\<lambda>row out. bindR (slice_range p (f row) (f row + n)) (\<lambda>s. Inr (out @ s))) [0..<m] out =
    Inr (out @ concat (map (\<lambda>row. map (\<lambda>c. p ! (f row + c)) [0..<n]) [0..<m]))"
  using assms
proof (induction m)
  case (Suc m)
  have "take n (drop (f m) p) = map (\<lambda>c. p ! (f m + c)) [0..<n]"
    using Suc.prems[of m] by (intro nth_equalityI) auto
  with Suc show ?case by (simp add: forR_append slice_range_def)
qed simp

theorem read_raw_mb_ok:
  assumes "wf_eye e" and "mb < MB_COUNT"
  shows "read_raw_mb e mb out = Inr (out @ raw_bytes e mb)"
proof -
  note l = eye_lengths[OF assms(1)] and f = mb_fits[OF assms(2)]
  have y: "(mb div MB_W * 16 + row) * EYE_W + mb mod MB_W * 16 + 16 \<le> length (eye_y e)" if "row < 16" for row
    using that f l row_bound[of "mb mod MB_W * 16" 16 EYE_W "mb div MB_W * 16 + row" EYE_H] by simp
  have cb: "(mb div MB_W * 8 + row) * CHROMA_W + mb mod MB_W * 8 + 8 \<le> length (eye_cb e)" if "row < 8" for row
    using that f l row_bound[of "mb mod MB_W * 8" 8 CHROMA_W "mb div MB_W * 8 + row" CHROMA_H] by simp
  have cr: "(mb div MB_W * 8 + row) * CHROMA_W + mb mod MB_W * 8 + 8 \<le> length (eye_cr e)" if "row < 8" for row
    using that f l row_bound[of "mb mod MB_W * 8" 8 CHROMA_W "mb div MB_W * 8 + row" CHROMA_H] by simp
  show ?thesis
    unfolding read_raw_mb_def Let_def
    by (simp only: read_rows[OF y] read_rows[OF cb] read_rows[OF cr] bindR_simps)
      (simp add: concat_rows raw_bytes_def y_pos_def c_pos_def add.assoc)
qed

section \<open>Writing a raw macroblock\<close>

lemma counted_rows:
  "forR (\<lambda>row (e, off). bindR (h row off e) (\<lambda>e. Inr (e, off + n))) [0..<m] (e, off) =
    bindR (forR (\<lambda>row. h row (off + n * row)) [0..<m] e) (\<lambda>e. Inr (e, off + n * m))"
proof (induction m)
  case (Suc m)
  then show ?case
    by (cases "forR (\<lambda>row. h row (off + n * row)) [0..<m] e") (simp_all add: forR_append bindR_assoc add.assoc add.commute[of n])
qed simp

lemma write_rows:
  assumes "x0 + n \<le> w" and "y0 + m \<le> h" and "length d = w * h" and "off + n * m \<le> length bytes"
    and "\<And>row d. row < m \<Longrightarrow> length d = w * h \<Longrightarrow>
      f row d = copy_at_len d ((y0 + row) * w + x0) bytes (off + n * row) n"
  shows "forR f [0..<m] d =
    Inr (pmap (in_rect w x0 y0 n m) (\<lambda>i _. bytes ! (off + n * (i div w - y0) + (i mod w - x0))) d)"
proof (rule forR_rows[where n = "w * h"])
  fix row and d :: "byte list" assume r: "row < m" and d: "length d = w * h"
  with assms(2) have y: "y0 + row < h" by simp
  have "n * row + n \<le> n * m" using r by (metis Suc_leI mult_Suc_right add.commute mult_le_mono2)
  then have s: "off + n * row + n \<le> length bytes" using assms(4) by linarith
  have x: "i mod w = i - (y0 + row) * w \<and> i div w = y0 + row"
    if "(y0 + row) * w + x0 \<le> i \<and> i < (y0 + row) * w + x0 + n" for i
    using that row_range_iff[OF assms(1), of "y0 + row" i] minus_div_mult_eq_mod[of i w] by simp
  show "f row d = Inr (pmap (\<lambda>i. (y0 + row) * w + x0 \<le> i \<and> i < (y0 + row) * w + x0 + n)
      (\<lambda>i _. bytes ! (off + n * (i div w - y0) + (i mod w - x0))) d)"
    using s row_bound[OF assms(1) y] d x
    by (auto simp: assms(5)[OF r d] copy_at_len_ok intro!: pmap_cong arg_cong[of _ _ "(!) bytes"])
qed (use assms in auto)

definition raw_eye :: "nat \<Rightarrow> byte list \<Rightarrow> eye_frame \<Rightarrow> eye_frame" where
  "raw_eye mb bytes e =
     e\<lparr>eye_y := pmap (\<lambda>i. y_mb i = mb)
          (\<lambda>i _. bytes ! (16 * (i div EYE_W - mb div MB_W * 16) + (i mod EYE_W - mb mod MB_W * 16))) (eye_y e),
       eye_cb := pmap (\<lambda>i. c_mb i = mb)
          (\<lambda>i _. bytes ! (256 + 8 * (i div CHROMA_W - mb div MB_W * 8) + (i mod CHROMA_W - mb mod MB_W * 8))) (eye_cb e),
       eye_cr := pmap (\<lambda>i. c_mb i = mb)
          (\<lambda>i _. bytes ! (320 + 8 * (i div CHROMA_W - mb div MB_W * 8) + (i mod CHROMA_W - mb mod MB_W * 8))) (eye_cr e)\<rparr>"

theorem write_raw_mb_ok:
  assumes "wf_eye e" and "mb < MB_COUNT" and "length bytes = 384"
  shows "write_raw_mb e mb bytes = Inr (raw_eye mb bytes e)"
proof -
  note l = eye_lengths[OF assms(1)] and f = mb_fits[OF assms(2)]
  have b16: "copy_at_16_by_4 d ((mb div MB_W * 16 + row) * EYE_W + mb mod MB_W * 16) bytes (0 + 16 * row) =
      copy_at_len d ((mb div MB_W * 16 + row) * EYE_W + mb mod MB_W * 16) bytes (0 + 16 * row) 16"
    if "row < 16" "length d = EYE_W * EYE_H" for row d
    using that assms(3) f row_bound[of "mb mod MB_W * 16" 16 EYE_W "mb div MB_W * 16 + row" EYE_H]
    by (intro copy_at_16_by_4_eq) auto
  have b8: "copy_at_8_by_4 d ((mb div MB_W * 8 + row) * CHROMA_W + mb mod MB_W * 8) bytes (off + 8 * row) =
      copy_at_len d ((mb div MB_W * 8 + row) * CHROMA_W + mb mod MB_W * 8) bytes (off + 8 * row) 8"
    if "row < 8" "length d = CHROMA_W * CHROMA_H" "off + 64 \<le> 384" for row d off
    using that assms(3) f row_bound[of "mb mod MB_W * 8" 8 CHROMA_W "mb div MB_W * 8 + row" CHROMA_H]
    by (intro copy_at_8_by_4_eq) auto
  note y = write_rows[OF f(1,2) l(1), of 0 bytes, OF _ b16, simplified mb_rect_fun]
  note cb = write_rows[OF f(3,4) l(2), of 256 bytes, OF _ b8, simplified mb_rect_fun]
  note cr = write_rows[OF f(3,4) l(3), of 320 bytes, OF _ b8, simplified mb_rect_fun]
  show ?thesis
    using y cb cr assms(3)
    by (simp add: write_raw_mb_def Let_def counted_rows forR_on_y forR_on_cb forR_on_cr on_plane_Inr raw_eye_def)
qed

lemma wf_raw_eye [simp]: "wf_eye (raw_eye mb bytes e) = wf_eye e"
  by (simp add: wf_eye_def raw_eye_def)

lemma agree_raw_eye_outside: "wf_eye e \<Longrightarrow> agree (- {mb}) (raw_eye mb bytes e) e"
  by (auto simp: agree_def raw_eye_def wf_eye_def)

lemma raw_bytes_raw_eye:
  assumes "wf_eye e" and "mb < MB_COUNT" and "length bytes = 384"
  shows "raw_bytes (raw_eye mb bytes e) mb = bytes"
proof -
  have "raw_bytes (raw_eye mb bytes e) mb = map (\<lambda>k. bytes ! k) [0..<256] @
      map (\<lambda>k. bytes ! (256 + k)) [0..<64] @ map (\<lambda>k. bytes ! (320 + k)) [0..<64]"
    using assms(1) y_pos_in[OF assms(2)] c_pos_in[OF assms(2)]
    by (simp add: raw_bytes_def raw_eye_def wf_eye_def add.commute)
  also have "\<dots> = bytes"
    using assms(3) by (intro nth_equalityI) (auto simp: nth_append)
  finally show ?thesis .
qed

theorem write_read_raw_mb:
  assumes "wf_eye e" and "mb < MB_COUNT" and "length bytes = RAW_MB_BYTES"
  shows "\<exists>e'. write_raw_mb e mb bytes = Inr e' \<and> wf_eye e' \<and> agree (- {mb}) e' e \<and> read_raw_mb e' mb [] = Inr bytes"
  using assms by (simp add: write_raw_mb_ok read_raw_mb_ok raw_bytes_raw_eye agree_raw_eye_outside RAW_MB_BYTES_def)

section \<open>The interfaces of macroblock operations\<close>

definition sim :: "nat set \<Rightarrow> ('o \<times> eye_frame) result \<Rightarrow> ('o \<times> eye_frame) result \<Rightarrow> bool" where
  "sim S r1 r2 \<longleftrightarrow> (case (r1, r2) of
     (Inl e1, Inl e2) \<Rightarrow> e1 = e2
   | (Inr (x1, f1), Inr (x2, f2)) \<Rightarrow> x1 = x2 \<and> wf_eye f1 \<and> wf_eye f2 \<and> agree S f1 f2
   | _ \<Rightarrow> False)"

lemma sim_Inr [simp]: "sim S (Inr (x1, f1)) (Inr (x2, f2)) \<longleftrightarrow> x1 = x2 \<and> wf_eye f1 \<and> wf_eye f2 \<and> agree S f1 f2"
  by (simp add: sim_def)

lemma sim_Inl [simp]: "sim S (Inl e1) (Inl e2) \<longleftrightarrow> e1 = e2"
  by (simp add: sim_def)

lemma sim_mixed [simp]: "\<not> sim S (Inl e) (Inr y)" "\<not> sim S (Inr y) (Inl e)"
  by (auto simp: sim_def split: prod.splits)

lemma sim_cases:
  assumes "sim S r1 r2"
  obtains (err) e where "r1 = Inl e" "r2 = Inl e"
  | (ok) x f1 f2 where "r1 = Inr (x, f1)" "r2 = Inr (x, f2)" "wf_eye f1" "wf_eye f2" "agree S f1 f2"
proof (cases r1)
  case (Inl e)
  with assms that(1) show ?thesis by (cases r2) auto
next
  case (Inr p1)
  with assms that(2) show ?thesis by (cases r2; cases p1) auto
qed

lemma sim_bind:
  assumes "sim S r1 r2"
    and "\<And>x f1 f2. r1 = Inr (x, f1) \<Longrightarrow> r2 = Inr (x, f2) \<Longrightarrow> wf_eye f1 \<Longrightarrow> wf_eye f2 \<Longrightarrow> agree S f1 f2 \<Longrightarrow> sim T (k1 (x, f1)) (k2 (x, f2))"
  shows "sim T (bindR r1 k1) (bindR r2 k2)"
  using assms(1) by (cases rule: sim_cases) (auto intro: assms(2))

lemma agree_frames:
  "agree (- M) f1 d1 \<Longrightarrow> agree (- M) f2 d2 \<Longrightarrow> agree S d1 d2 \<Longrightarrow> agree (S - M) f1 f2"
  by (simp add: agree_def)

lemma agree_join: "agree M f1 f2 \<Longrightarrow> agree (S - M) f1 f2 \<Longrightarrow> agree (M \<union> S) f1 f2"
  by (auto simp: agree_def)

locale mb_op =
  fixes op :: "'p \<Rightarrow> nat \<Rightarrow> eye_frame \<Rightarrow> ('o \<times> eye_frame) result"
    and ok :: "'p \<Rightarrow> bool"
  assumes op_safe: "ok p \<Longrightarrow> mb < MB_COUNT \<Longrightarrow> wf_eye d \<Longrightarrow> op p mb d \<noteq> Inl Fault"
    and op_frame: "ok p \<Longrightarrow> mb < MB_COUNT \<Longrightarrow> wf_eye d \<Longrightarrow> op p mb d = Inr (x, e) \<Longrightarrow>
      wf_eye e \<and> agree (- {mb}) e d"
    and op_local: "ok p \<Longrightarrow> mb < MB_COUNT \<Longrightarrow> wf_eye d1 \<Longrightarrow> wf_eye d2 \<Longrightarrow> agree {mb} d1 d2 \<Longrightarrow>
      sim {mb} (op p mb d1) (op p mb d2)"
begin

lemma op_sim:
  assumes "ok p" "mb < MB_COUNT" "wf_eye d1" "wf_eye d2" "agree S d1 d2" "mb \<in> S"
  shows "sim S (op p mb d1) (op p mb d2)"
proof -
  have "agree {mb} d1 d2" using assms(5,6) by (auto intro: agree_mono)
  then have "sim {mb} (op p mb d1) (op p mb d2)" by (rule op_local[OF assms(1-4)])
  then show ?thesis
  proof (cases rule: sim_cases)
    case (ok x f1 f2)
    have "agree (- {mb}) f1 d1" "agree (- {mb}) f2 d2"
      using op_frame[OF assms(1,2,3) ok(1)] op_frame[OF assms(1,2,4) ok(2)] by auto
    from agree_join[OF ok(5) agree_frames[OF this assms(5)]] have "agree S f1 f2"
      using assms(6) by (simp add: insert_absorb)
    with ok show ?thesis by simp
  qed simp
qed

text \<open>Doing a list of jobs touches only their macroblocks.\<close>

lemma jobs_frame:
  assumes "\<forall>(p, mb)\<in>set jobs. ok p \<and> mb < MB_COUNT" and "wf_eye d"
    and "forR (\<lambda>(p, mb) d. bindR (op p mb d) (\<lambda>(_, e). Inr e)) jobs d = Inr e"
  shows "wf_eye e \<and> agree (- snd ` set jobs) e d"
  using assms
proof (induction jobs arbitrary: d)
  case (Cons job jobs)
  obtain p mb where job: "job = (p, mb)" by (cases job)
  with Cons.prems(3) obtain x d' where op: "op p mb d = Inr (x, d')"
    and rest: "forR (\<lambda>(p, mb) d. bindR (op p mb d) (\<lambda>(_, e). Inr e)) jobs d' = Inr e"
    by (auto elim!: bindR_InrE)
  from op_frame[OF _ _ Cons.prems(2) op] Cons.prems(1) job have d': "wf_eye d'" "agree (- {mb}) d' d" by auto
  from Cons.IH[OF _ d'(1) rest] Cons.prems(1) have e: "wf_eye e" "agree (- snd ` set jobs) e d'" by auto
  moreover have "agree (- snd ` set (job # jobs)) d' d"
    using d'(2) by (rule agree_mono) (auto simp: job)
  moreover have "agree (- snd ` set (job # jobs)) e d'"
    using e(2) by (rule agree_mono) auto
  ultimately show ?case by (blast intro: agree_trans)
qed simp

end

locale mb_overwrite =
  fixes op :: "'p \<Rightarrow> nat \<Rightarrow> eye_frame \<Rightarrow> ('o \<times> eye_frame) result"
    and ok :: "'p \<Rightarrow> bool"
  assumes op_total: "ok p \<Longrightarrow> mb < MB_COUNT \<Longrightarrow> wf_eye d \<Longrightarrow>
      \<exists>x e. op p mb d = Inr (x, e) \<and> wf_eye e \<and> agree (- {mb}) e d"
    and op_replaces: "ok p \<Longrightarrow> mb < MB_COUNT \<Longrightarrow> wf_eye d1 \<Longrightarrow> wf_eye d2 \<Longrightarrow>
      op p mb d1 = Inr (x1, e1) \<Longrightarrow> op p mb d2 = Inr (x2, e2) \<Longrightarrow> x1 = x2 \<and> agree {mb} e1 e2"
begin

lemma op_sim_insert:
  assumes "ok p" "mb < MB_COUNT" "wf_eye d1" "wf_eye d2" "agree S d1 d2"
  shows "sim (insert mb S) (op p mb d1) (op p mb d2)"
proof -
  obtain x1 e1 where 1: "op p mb d1 = Inr (x1, e1)" "wf_eye e1" "agree (- {mb}) e1 d1"
    using op_total[OF assms(1-3)] by blast
  obtain x2 e2 where 2: "op p mb d2 = Inr (x2, e2)" "wf_eye e2" "agree (- {mb}) e2 d2"
    using op_total[OF assms(1,2,4)] by blast
  from op_replaces[OF assms(1-4) 1(1) 2(1)] have x: "x1 = x2" "agree {mb} e1 e2" by auto
  from agree_join[OF x(2) agree_frames[OF 1(3) 2(3) assms(5)]] have "agree (insert mb S) e1 e2" by simp
  with 1 2 x show ?thesis by simp
qed

end

sublocale mb_overwrite \<subseteq> mb_op op ok
proof unfold_locales
  fix p mb d assume a: "ok p" "mb < MB_COUNT" "wf_eye d"
  from op_total[OF this] show "op p mb d \<noteq> Inl Fault" by auto
  show "wf_eye e \<and> agree (- {mb}) e d" if "op p mb d = Inr (x, e)" for x e
    using op_total[OF a] that by auto
next
  fix p mb d1 d2 assume "ok p" "mb < MB_COUNT" "wf_eye d1" "wf_eye d2" "agree {mb} d1 d2"
  from op_sim_insert[OF this] show "sim {mb} (op p mb d1) (op p mb d2)" by simp
qed

text \<open>A frame operation without a result of its own.\<close>

definition unitR :: "eye_frame result \<Rightarrow> (unit \<times> eye_frame) result" where
  "unitR r = bindR r (\<lambda>e. Inr ((), e))"

lemma unitR_Inr [simp]: "unitR (Inr e) = Inr ((), e)"
  by (simp add: unitR_def)

definition copy_op :: "eye_frame \<times> mv \<Rightarrow> nat \<Rightarrow> eye_frame \<Rightarrow> (unit \<times> eye_frame) result" where
  "copy_op = (\<lambda>(src, mv) mb dst. unitR (copy_mb_from_reference dst src mb mv))"

definition vbs_op :: "eye_frame \<times> vbs_shape \<times> mv list \<Rightarrow> nat \<Rightarrow> eye_frame \<Rightarrow> (unit \<times> eye_frame) result" where
  "vbs_op = (\<lambda>(src, shape, mvs) mb dst. unitR (copy_vbs_from_reference dst src mb shape mvs))"

definition raw_op :: "byte list \<Rightarrow> nat \<Rightarrow> eye_frame \<Rightarrow> (unit \<times> eye_frame) result" where
  "raw_op bytes mb dst = unitR (write_raw_mb dst mb bytes)"

interpretation copy_mb: mb_overwrite copy_op "\<lambda>(src, mv). wf_eye src"
proof unfold_locales
  fix p :: "eye_frame \<times> mv" and mb d
  assume "case p of (src, mv) \<Rightarrow> wf_eye src" "mb < MB_COUNT" "wf_eye d"
  then show "\<exists>x e. copy_op p mb d = Inr (x, e) \<and> wf_eye e \<and> agree (- {mb}) e d"
    by (auto simp: copy_op_def copy_mb_from_reference_ok agree_mc_region_outside)
next
  fix p :: "eye_frame \<times> mv" and mb d1 d2 x1 e1 x2 e2
  assume "case p of (src, mv) \<Rightarrow> wf_eye src" "mb < MB_COUNT" "wf_eye d1" "wf_eye d2"
    "copy_op p mb d1 = Inr (x1, e1)" "copy_op p mb d2 = Inr (x2, e2)"
  then show "x1 = x2 \<and> agree {mb} e1 e2"
    using agree_mc_region[of d1 d2 "{mb}" "{mb}"]
    by (auto simp: copy_op_def copy_mb_from_reference_ok)
qed

lemma wf_vbs_eye [simp]: "wf_eye (vbs_eye shape mvs src mb d) = wf_eye d"
  by (simp add: wf_eye_def vbs_eye_def split: prod.splits)

lemma agree_vbs_eye_outside: "wf_eye d \<Longrightarrow> agree (- {mb}) (vbs_eye shape mvs src mb d) d"
  by (auto simp: agree_def vbs_eye_def nth_mc_copy wf_eye_def nth_fold_mc_part_outside vbs_parts_ok split: prod.splits)

lemma agree_vbs_eye:
  assumes "wf_eye d1" and "wf_eye d2"
  shows "agree {mb} (vbs_eye shape mvs src mb d1) (vbs_eye shape mvs src mb d2)"
  using assms nth_fold_mc_part_written[OF _ _ parts_cover_rect[OF vbs_parts_cover]]
  by (auto simp: agree_def vbs_eye_def nth_mc_copy wf_eye_def split: prod.splits)

interpretation copy_vbs: mb_overwrite vbs_op "\<lambda>(src, shape, mvs). wf_eye src \<and> length mvs = vbs_count shape"
proof unfold_locales
  fix p :: "eye_frame \<times> vbs_shape \<times> mv list" and mb d
  assume "case p of (src, shape, mvs) \<Rightarrow> wf_eye src \<and> length mvs = vbs_count shape" "mb < MB_COUNT" "wf_eye d"
  then show "\<exists>x e. vbs_op p mb d = Inr (x, e) \<and> wf_eye e \<and> agree (- {mb}) e d"
    by (auto simp: vbs_op_def copy_vbs_from_reference_ok agree_vbs_eye_outside)
next
  fix p :: "eye_frame \<times> vbs_shape \<times> mv list" and mb d1 d2 x1 e1 x2 e2
  assume "case p of (src, shape, mvs) \<Rightarrow> wf_eye src \<and> length mvs = vbs_count shape" "mb < MB_COUNT"
    "wf_eye d1" "wf_eye d2" "vbs_op p mb d1 = Inr (x1, e1)" "vbs_op p mb d2 = Inr (x2, e2)"
  then show "x1 = x2 \<and> agree {mb} e1 e2"
    by (auto simp: vbs_op_def copy_vbs_from_reference_ok intro: agree_vbs_eye)
qed

interpretation write_raw: mb_overwrite raw_op "\<lambda>bytes. length bytes = 384"
  by unfold_locales
    (auto simp: raw_op_def write_raw_mb_ok agree_raw_eye_outside agree_iff_raw_bytes raw_bytes_raw_eye)

end
