(* ===== verification/O3_Bits.thy ===== *)
theory O3_Bits
  imports O3_Prelude
begin

text \<open>
  Masks as sets of positions: \<open>trailing_zeros\<close>, \<open>count_ones\<close>, the loop
  \<open>while m != 0 { k = m.trailing_zeros(); m &= m - 1; .. }\<close> the residual
  decoder runs over its masks, proved to visit exactly the set bits in
  increasing order, and the mask the encoder builds by or-ing \<open>1 << k\<close>.
\<close>

definition trailing_zeros :: "'a::len word \<Rightarrow> nat" where
  "trailing_zeros w = length (takeWhile (\<lambda>n. \<not> bit w n) [0..<LENGTH('a)])"

definition set_bits_of :: "'a::len word \<Rightarrow> nat list" where
  "set_bits_of w = filter (bit w) [0..<LENGTH('a)]"

definition count_ones :: "'a::len word \<Rightarrow> nat" where
  "count_ones w = length (set_bits_of w)"

lemma set_set_bits_of [simp]: "set (set_bits_of w) = {n. bit w n}"
  for w :: "'a::len word"
  using bit_imp_le_length by (auto simp: set_bits_of_def)

lemma set_bits_of_0 [simp]: "set_bits_of 0 = []"
  by (simp add: set_bits_of_def)

lemma distinct_set_bits_of [simp]: "distinct (set_bits_of w)"
  by (simp add: set_bits_of_def)

lemma sorted_set_bits_of [simp]: "sorted (set_bits_of w)"
  by (simp add: set_bits_of_def sorted_wrt_filter)

lemma bits_nonzero: "w \<noteq> 0 \<Longrightarrow> \<exists>n<LENGTH('a). bit w n" for w :: "'a::len word"
  by (metis bit_eqI bit_0_eq bot_apply bot_bool_def bit_imp_le_length)

lemma trailing_zeros_less: "w \<noteq> 0 \<Longrightarrow> trailing_zeros w < LENGTH('a)" for w :: "'a::len word"
proof -
  assume "w \<noteq> 0"
  then obtain n where "n < LENGTH('a)" "bit w n" using bits_nonzero by blast
  then have "takeWhile (\<lambda>n. \<not> bit w n) [0..<LENGTH('a)] \<noteq> [0..<LENGTH('a)]"
    by (metis set_takeWhileD atLeast_upt lessThan_iff)
  then show ?thesis unfolding trailing_zeros_def
    by (metis diff_zero length_takeWhile_le length_upt nat_less_le takeWhile_eq_take take_all_iff)
qed

lemma bit_trailing_zeros: "w \<noteq> 0 \<Longrightarrow> bit w (trailing_zeros w)" for w :: "'a::len word"
  using nth_length_takeWhile[of "\<lambda>n. \<not> bit w n" "[0..<LENGTH('a)]"] trailing_zeros_less[of w]
  by (simp add: trailing_zeros_def)

lemma not_bit_below_trailing_zeros: "n < trailing_zeros w \<Longrightarrow> \<not> bit w n" for w :: "'a::len word"
proof -
  assume n: "n < trailing_zeros w"
  then have l: "n < LENGTH('a)"
    unfolding trailing_zeros_def by (metis diff_zero length_takeWhile_le length_upt order_less_le_trans)
  from n have "takeWhile (\<lambda>n. \<not> bit w n) [0..<LENGTH('a)] ! n \<in> set (takeWhile (\<lambda>n. \<not> bit w n) [0..<LENGTH('a)])"
    by (simp add: trailing_zeros_def)
  then have "\<not> bit w (takeWhile (\<lambda>n. \<not> bit w n) [0..<LENGTH('a)] ! n)" by (metis set_takeWhileD)
  with n l show ?thesis by (simp add: trailing_zeros_def takeWhile_nth)
qed

lemma trailing_zeros_le: "bit w n \<Longrightarrow> trailing_zeros w \<le> n"
  using not_bit_below_trailing_zeros not_less by blast

text \<open>Clearing the lowest set bit.\<close>

lemma bit_clear_lowest:
  fixes w :: "'a::len word"
  assumes "w \<noteq> 0"
  shows "bit (w AND (w - 1)) n \<longleftrightarrow> bit w n \<and> n \<noteq> trailing_zeros w"
proof -
  define k where "k = trailing_zeros w"
  define hi where "hi = w AND NOT (mask (Suc k))"
  have k: "k < LENGTH('a)" "bit w k" "\<And>j. bit w j \<Longrightarrow> k \<le> j"
    using assms trailing_zeros_less bit_trailing_zeros trailing_zeros_le by (auto simp: k_def)
  have "w = hi OR push_bit k 1"
    using k by (intro bit_word_eqI) (auto simp: hi_def bit_simps less_Suc_eq not_less)
  also have "\<dots> = hi + push_bit k 1"
    by (rule disjunctive_add_eq_or[symmetric], rule bit_word_eqI) (auto simp: hi_def bit_simps)
  finally have w: "w = hi + push_bit k 1" .
  have "w - 1 = hi + mask k"
    by (subst w) (simp add: mask_eq_exp_minus_1 push_bit_eq_mult)
  also have "\<dots> = hi OR mask k"
    by (rule disjunctive_add_eq_or, rule bit_word_eqI) (auto simp: hi_def bit_simps)
  finally have w1: "w - 1 = hi OR mask k" .
  show ?thesis
    using k by (auto simp: w1 bit_simps hi_def k_def[symmetric] less_Suc_eq dest: bit_imp_le_length)
qed

lemma clear_lowest_less:
  fixes w :: "'a::len word"
  assumes "w \<noteq> 0"
  shows "unat (w AND (w - 1)) < unat w"
proof -
  have "w AND (w - 1) \<noteq> w"
    using bit_clear_lowest[OF assms, of "trailing_zeros w"] bit_trailing_zeros[OF assms] by auto
  moreover have "w AND (w - 1) \<le> w"
    by (rule word_and_le2)
  ultimately have "w AND (w - 1) < w" by simp
  then show ?thesis by (simp add: word_less_nat_alt)
qed

lemma set_bits_of_clear_lowest:
  fixes w :: "'a::len word"
  assumes "w \<noteq> 0"
  shows "set_bits_of w = trailing_zeros w # set_bits_of (w AND (w - 1))"
proof (rule sorted_distinct_set_unique)
  have "\<forall>n\<in>set (set_bits_of (w AND (w - 1))). trailing_zeros w \<le> n"
    by (auto simp: bit_clear_lowest[OF assms] trailing_zeros_le)
  then show "sorted (trailing_zeros w # set_bits_of (w AND (w - 1)))" by simp
  show "distinct (trailing_zeros w # set_bits_of (w AND (w - 1)))"
    by (simp add: bit_clear_lowest[OF assms])
  show "set (set_bits_of w) = set (trailing_zeros w # set_bits_of (w AND (w - 1)))"
    using bit_trailing_zeros[OF assms] by (auto simp: bit_clear_lowest[OF assms])
qed simp_all

function bit_loop :: "(nat \<Rightarrow> 's \<Rightarrow> 's result) \<Rightarrow> 'a::len word \<Rightarrow> 's \<Rightarrow> 's result" where
  "bit_loop body coded s =
     (if coded \<noteq> 0 then
        let k = trailing_zeros coded; coded' = coded AND (coded - 1)
        in bindR (body k s) (bit_loop body coded')
      else Inr s)"
  by pat_completeness auto
termination
  by (relation "measure (\<lambda>(_, w, _). unat w)") (auto simp: clear_lowest_less)

declare bit_loop.simps [simp del]

theorem bit_loop_forR: "bit_loop body w s = forR body (set_bits_of w) s"
proof (induction body w s rule: bit_loop.induct)
  case (1 body w s)
  show ?case
  proof (cases "w = 0")
    case True
    then show ?thesis by (simp add: bit_loop.simps)
  next
    case False
    have "bit_loop body w s = bindR (body (trailing_zeros w) s) (\<lambda>t. bit_loop body (w AND (w - 1)) t)"
      using False by (subst bit_loop.simps) (simp add: Let_def)
    also have "\<dots> = bindR (body (trailing_zeros w) s) (\<lambda>t. forR body (set_bits_of (w AND (w - 1))) t)"
      using False by (intro bindR_cong[OF refl] "1.IH") auto
    finally show ?thesis using False by (simp add: set_bits_of_clear_lowest)
  qed
qed

section \<open>Masks built bit by bit\<close>

definition mask_of :: "nat list \<Rightarrow> 'a::len word" where
  "mask_of ks = fold (\<lambda>k m. m OR push_bit k 1) ks 0"

lemma bit_fold_or: "bit (fold (\<lambda>k m. m OR push_bit k 1) ks m0) n \<longleftrightarrow> bit (m0 :: 'a::len word) n \<or> (n < LENGTH('a) \<and> n \<in> set ks)"
  by (induction ks arbitrary: m0) (auto simp: bit_simps)

lemma bit_mask_of: "bit (mask_of ks :: 'a::len word) n \<longleftrightarrow> n < LENGTH('a) \<and> n \<in> set ks"
  unfolding mask_of_def bit_fold_or by simp

lemma set_bits_of_mask_of:
  assumes "sorted ks" and "distinct ks" and "\<forall>k\<in>set ks. k < LENGTH('a)"
  shows "set_bits_of (mask_of ks :: 'a::len word) = ks"
  using assms by (intro sorted_distinct_set_unique) (auto simp: bit_mask_of)

lemma mask_of_append: "mask_of (ks @ [k]) = mask_of ks OR push_bit k 1"
  by (simp add: mask_of_def)

lemma mask_of_eq_0_iff: "\<forall>k\<in>set ks. k < LENGTH('a) \<Longrightarrow> (mask_of ks :: 'a::len word) = 0 \<longleftrightarrow> ks = []"
  using bit_mask_of[where ks = ks and 'a = 'a] by (cases ks) (auto simp: mask_of_def bit_eq_iff)

end
