(* ===== verification/O3_Residual.thy ===== *)
theory O3_Residual
  imports O3_MbInterface O3_Bits
begin

text \<open>
  Residual decoding of \<open>minidecoder/src/lib.rs\<close>: \<open>apply_mb_residual\<close>,
  \<open>apply_block\<close> with its five block codings, the DC clip table and the 4x4
  inverse transform in 32-bit arithmetic. Their laws are in \<open>O3_Block\<close>.
\<close>

section \<open>Tags and the zigzag order\<close>

definition TAG_DC_ONLY_S8 :: byte where "TAG_DC_ONLY_S8 = 0x00"
definition TAG_DC_ONLY_S16 :: byte where "TAG_DC_ONLY_S16 = 0x40"
definition TAG_AC_MASK_S8 :: byte where "TAG_AC_MASK_S8 = 0x80"
definition TAG_AC_MASK_S16 :: byte where "TAG_AC_MASK_S16 = 0xC0"
definition TAG_RAW_4X4 :: byte where "TAG_RAW_4X4 = 0xE0"

lemmas tag_defs = TAG_DC_ONLY_S8_def TAG_DC_ONLY_S16_def TAG_AC_MASK_S8_def TAG_AC_MASK_S16_def TAG_RAW_4X4_def

definition ZIGZAG :: "nat list" where
  "ZIGZAG = [0, 1, 4, 8, 5, 2, 3, 6, 9, 12, 13, 10, 7, 11, 14, 15]"

definition zigzag_at :: "nat \<Rightarrow> nat result" where
  "zigzag_at index = (if index < length ZIGZAG then Inr (ZIGZAG ! index) else Inl Fault)"

definition store_coeff :: "int list \<Rightarrow> nat \<Rightarrow> int \<Rightarrow> int list result" where
  "store_coeff coeffs index value = (if index < length coeffs then Inr (coeffs[index := value]) else Inl Fault)"

lemma length_ZIGZAG [simp]: "length ZIGZAG = 16"
  by (simp add: ZIGZAG_def)

lemma set_ZIGZAG: "set ZIGZAG = {..<16}"
proof -
  have "set ZIGZAG = set [0..<16]" by (auto simp: ZIGZAG_def upt_rec numeral_eq_Suc)
  then show ?thesis by (simp add: lessThan_atLeast0)
qed

lemma distinct_ZIGZAG: "distinct ZIGZAG"
  by (simp add: ZIGZAG_def)

lemma ZIGZAG_less: "k < 16 \<Longrightarrow> ZIGZAG ! k < 16"
  using nth_mem[of k ZIGZAG] by (simp add: set_ZIGZAG)

section \<open>Clipping\<close>

definition clip_u8 :: "int \<Rightarrow> byte" where
  "clip_u8 v = word_of_int (clamp_int v 0 255)"

lemma uint_clip_u8: "uint (clip_u8 v) = clamp_int v 0 255"
  by (simp add: clip_u8_def uint_word_of_int clamp_int_def take_bit_eq_mod)

definition DC_CLIP_DELTA_MIN :: int where "DC_CLIP_DELTA_MIN = -16"
definition DC_CLIP_DELTA_MAX :: int where "DC_CLIP_DELTA_MAX = 16"

text \<open>The two \<open>while\<close> loops of the const fn fill row \<open>delta - DC_CLIP_DELTA_MIN\<close>, column \<open>sample\<close>.\<close>

definition build_dc_clip_table :: "byte list list" where
  "build_dc_clip_table =
     map (\<lambda>delta. map (\<lambda>sample.
         let value = sample + delta
         in if value < 0 then 0 else if value > 255 then 255 else word_of_int value) [0..255])
       [DC_CLIP_DELTA_MIN..DC_CLIP_DELTA_MAX]"

definition DC_CLIP_TABLE :: "byte list list" where
  "DC_CLIP_TABLE = build_dc_clip_table"

definition dc_clip_table_at :: "nat \<Rightarrow> byte list result" where
  "dc_clip_table_at index = (if index < length DC_CLIP_TABLE then Inr (DC_CLIP_TABLE ! index) else Inl Fault)"

definition table_at :: "byte list \<Rightarrow> byte \<Rightarrow> byte result" where
  "table_at table sample = load_at table (unat sample)"

section \<open>Applying one block\<close>

definition add_dc_row4_table :: "byte list \<Rightarrow> nat \<Rightarrow> byte list \<Rightarrow> byte list result" where
  "add_dc_row4_table plane idx table =
     (let step = (\<lambda>k plane. bindR (load_at plane (idx + k)) (\<lambda>v.
                bindR (table_at table v) (\<lambda>t. store_at plane (idx + k) t))) in
      bindR (step 0 plane) (\<lambda>plane. bindR (step 1 plane) (\<lambda>plane.
      bindR (step 2 plane) (\<lambda>plane. step 3 plane))))"

definition add_dc_row4 :: "byte list \<Rightarrow> nat \<Rightarrow> int \<Rightarrow> byte list result" where
  "add_dc_row4 plane idx delta =
     (let step = (\<lambda>k plane. bindR (load_at plane (idx + k)) (\<lambda>v.
                store_at plane (idx + k) (clip_u8 (wrap32 (uint v + delta))))) in
      bindR (step 0 plane) (\<lambda>plane. bindR (step 1 plane) (\<lambda>plane.
      bindR (step 2 plane) (\<lambda>plane. step 3 plane))))"

definition add_dc_block :: "byte list \<Rightarrow> nat \<Rightarrow> nat \<Rightarrow> int \<Rightarrow> byte list result" where
  "add_dc_block plane stride base coeff =
     (let delta = wrap32 (coeff + 4) div 8 in
      if delta = 0 then Inr plane
      else if DC_CLIP_DELTA_MIN \<le> delta \<and> delta \<le> DC_CLIP_DELTA_MAX then
        bindR (dc_clip_table_at (nat (delta - DC_CLIP_DELTA_MIN))) (\<lambda>table.
        bindR (add_dc_row4_table plane base table) (\<lambda>plane.
        bindR (add_dc_row4_table plane (base + stride) table) (\<lambda>plane.
        bindR (add_dc_row4_table plane (base + stride * 2) table) (\<lambda>plane.
        add_dc_row4_table plane (base + stride * 3) table))))
      else
        bindR (add_dc_row4 plane base delta) (\<lambda>plane.
        bindR (add_dc_row4 plane (base + stride) delta) (\<lambda>plane.
        bindR (add_dc_row4 plane (base + stride * 2) delta) (\<lambda>plane.
        add_dc_row4 plane (base + stride * 3) delta))))"

definition idct_1d :: "int \<Rightarrow> int \<Rightarrow> int \<Rightarrow> int \<Rightarrow> int \<times> int \<times> int \<times> int" where
  "idct_1d c0 c1 c2 c3 =
     (let a1 = wrap32 (c0 + c2);
          b1 = wrap32 (c0 - c2);
          c1v = wrap32 (wrap32 (c1 * 35468) div 65536 - c3);
          d1 = wrap32 (c1 + wrap32 (c3 * 35468) div 65536)
      in (wrap32 (a1 + d1), wrap32 (b1 + c1v), wrap32 (b1 - c1v), wrap32 (a1 - d1)))"

definition add_idct_row :: "byte list \<Rightarrow> nat \<Rightarrow> int \<Rightarrow> int \<Rightarrow> int \<Rightarrow> int \<Rightarrow> byte list result" where
  "add_idct_row plane idx v0 v1 v2 v3 =
     (let step = (\<lambda>k v plane. bindR (load_at plane (idx + k)) (\<lambda>s.
                store_at plane (idx + k) (clip_u8 (wrap32 (uint s + wrap32 (v + 4) div 8))))) in
      bindR (step 0 v0 plane) (\<lambda>plane. bindR (step 1 v1 plane) (\<lambda>plane.
      bindR (step 2 v2 plane) (\<lambda>plane. step 3 v3 plane))))"

definition add_idct_block :: "byte list \<Rightarrow> nat \<Rightarrow> nat \<Rightarrow> int list \<Rightarrow> byte list result" where
  "add_idct_block plane stride base coeffs =
     (let (t0, t4, t8, t12) = idct_1d (coeffs ! 0) (coeffs ! 4) (coeffs ! 8) (coeffs ! 12);
          (t1, t5, t9, t13) = idct_1d (coeffs ! 1) (coeffs ! 5) (coeffs ! 9) (coeffs ! 13);
          (t2, t6, t10, t14) = idct_1d (coeffs ! 2) (coeffs ! 6) (coeffs ! 10) (coeffs ! 14);
          (t3, t7, t11, t15) = idct_1d (coeffs ! 3) (coeffs ! 7) (coeffs ! 11) (coeffs ! 15);
          row = (\<lambda>plane idx (v0, v1, v2, v3). add_idct_row plane idx v0 v1 v2 v3) in
      bindR (row plane base (idct_1d t0 t1 t2 t3)) (\<lambda>plane.
      bindR (row plane (base + stride) (idct_1d t4 t5 t6 t7)) (\<lambda>plane.
      bindR (row plane (base + stride * 2) (idct_1d t8 t9 t10 t11)) (\<lambda>plane.
      row plane (base + stride * 3) (idct_1d t12 t13 t14 t15)))))"

definition copy_raw_4x4_from_reader :: "byte list \<Rightarrow> nat \<Rightarrow> nat \<Rightarrow> reader \<Rightarrow> (byte list \<times> reader) result" where
  "copy_raw_4x4_from_reader plane stride base residual =
     (let start = rd_pos residual; end = start + 16 in
      if end > length (rd_bytes residual) then Inl Eof
      else
        let residual' = residual\<lparr>rd_pos := end\<rparr>; src = rd_bytes residual;
            dst0 = base; dst1 = dst0 + stride; dst2 = dst1 + stride; dst3 = dst2 + stride in
        bindR (copy_at_4 plane dst0 src start) (\<lambda>plane.
        bindR (copy_at_4 plane dst1 src (start + 4)) (\<lambda>plane.
        bindR (copy_at_4 plane dst2 src (start + 8)) (\<lambda>plane.
        bindR (copy_at_4 plane dst3 src (start + 12)) (\<lambda>plane.
        Inr (plane, residual'))))))"

text \<open>The coefficients named by \<open>nz_mask\<close>, each a signed byte or a signed 16-bit word.\<close>

definition read_coeffs_s8 :: "u16 \<Rightarrow> reader \<Rightarrow> (int list \<times> reader) result" where
  "read_coeffs_s8 nz_mask residual =
     bit_loop (\<lambda>zz (coeffs, residual).
         bindR (zigzag_at zz) (\<lambda>index.
         bindR (rd_i8 residual) (\<lambda>(v, residual).
         bindR (store_coeff coeffs index (sint v)) (\<lambda>coeffs. Inr (coeffs, residual)))))
       nz_mask (replicate 16 0, residual)"

definition read_coeffs_s16 :: "u16 \<Rightarrow> reader \<Rightarrow> (int list \<times> reader) result" where
  "read_coeffs_s16 nz_mask residual =
     bit_loop (\<lambda>zz (coeffs, residual).
         bindR (zigzag_at zz) (\<lambda>index.
         bindR (rd_i16 residual) (\<lambda>(v, residual).
         bindR (store_coeff coeffs index (sint v)) (\<lambda>coeffs. Inr (coeffs, residual)))))
       nz_mask (replicate 16 0, residual)"

definition apply_block :: "byte list \<Rightarrow> nat \<Rightarrow> nat \<Rightarrow> reader \<Rightarrow> (byte list \<times> reader) result" where
  "apply_block plane stride base residual =
     bindR (rd_u8 residual) (\<lambda>(tag, residual).
     if tag = TAG_RAW_4X4 then copy_raw_4x4_from_reader plane stride base residual
     else if tag = TAG_DC_ONLY_S8 then
       bindR (rd_i8 residual) (\<lambda>(v, residual).
       bindR (add_dc_block plane stride base (sint v)) (\<lambda>plane. Inr (plane, residual)))
     else if tag = TAG_DC_ONLY_S16 then
       bindR (rd_i16 residual) (\<lambda>(v, residual).
       bindR (add_dc_block plane stride base (sint v)) (\<lambda>plane. Inr (plane, residual)))
     else if tag = TAG_AC_MASK_S8 then
       bindR (rd_u16 residual) (\<lambda>(nz_mask, residual).
       bindR (read_coeffs_s8 nz_mask residual) (\<lambda>(coeffs, residual).
       bindR (add_idct_block plane stride base coeffs) (\<lambda>plane. Inr (plane, residual))))
     else if tag = TAG_AC_MASK_S16 then
       bindR (rd_u16 residual) (\<lambda>(nz_mask, residual).
       bindR (read_coeffs_s16 nz_mask residual) (\<lambda>(coeffs, residual).
       bindR (add_idct_block plane stride base coeffs) (\<lambda>plane. Inr (plane, residual))))
     else Inl (Invalid ''reserved residual tag bits set''))"

section \<open>Applying the residual of a macroblock\<close>

definition apply_mb_residual :: "eye_frame \<Rightarrow> nat \<Rightarrow> reader \<Rightarrow> (eye_frame \<times> reader) result" where
  "apply_mb_residual current mb_index residual =
     bindR (rd_u32 residual) (\<lambda>(mask, residual).
     if mask = 0 then Inr (current, residual)
     else if mask AND 0xff000000 \<noteq> 0 then Inl (Invalid ''coded block mask uses reserved bits'')
     else
       let mb_x = mb_index mod MB_W; mb_y = mb_index div MB_W;
           y_base = mb_y * 16 * EYE_W + mb_x * 16; c_base = mb_y * 8 * CHROMA_W + mb_x * 8 in
       bit_loop (\<lambda>block (current, residual).
         if block < 16 then
           let off = y_base + (block div 4) * 4 * EYE_W + (block mod 4) * 4 in
           bindR (apply_block (eye_y current) EYE_W off residual)
             (\<lambda>(p, residual). Inr (current\<lparr>eye_y := p\<rparr>, residual))
         else if block < 20 then
           let cblock = block - 16; off = c_base + (cblock div 2) * 4 * CHROMA_W + (cblock mod 2) * 4 in
           bindR (apply_block (eye_cb current) CHROMA_W off residual)
             (\<lambda>(p, residual). Inr (current\<lparr>eye_cb := p\<rparr>, residual))
         else
           let cblock = block - 20; off = c_base + (cblock div 2) * 4 * CHROMA_W + (cblock mod 2) * 4 in
           bindR (apply_block (eye_cr current) CHROMA_W off residual)
             (\<lambda>(p, residual). Inr (current\<lparr>eye_cr := p\<rparr>, residual)))
         mask (current, residual))"

end
