(* ===== verification/O3_Block.thy ===== *)
theory O3_Block
  imports O3_Residual
begin

text \<open>
  What the block writers of the residual decoder do, as a pointwise effect on
  the 4x4 samples (\<open>put_blk\<close>): the clip table is the clipped addition
  (\<open>DC_CLIP_TABLE_row\<close>), the DC shortcut is the transform of a block with a DC
  coefficient only (\<open>add_dc_block_eq_idct\<close>), and the transform stays inside
  32 bits for coefficients of at most 16384 (\<open>idct_4x4_in_range\<close>).
\<close>

section \<open>The DC clip table\<close>

lemma length_DC_CLIP_TABLE: "length DC_CLIP_TABLE = 33"
  by (simp add: DC_CLIP_TABLE_def build_dc_clip_table_def DC_CLIP_DELTA_MIN_def DC_CLIP_DELTA_MAX_def)

lemma nth_map_upto: "k < nat (j - i + 1) \<Longrightarrow> map f [i..j] ! k = f (i + int k)"
  by simp

lemma DC_CLIP_TABLE_row:
  assumes "DC_CLIP_DELTA_MIN \<le> delta" and "delta \<le> DC_CLIP_DELTA_MAX"
  shows "dc_clip_table_at (nat (delta - DC_CLIP_DELTA_MIN)) =
    Inr (map (\<lambda>sample. clip_u8 (sample + delta)) [0..255])"
proof -
  have k: "nat (delta - DC_CLIP_DELTA_MIN) < 33"
    using assms by (simp add: DC_CLIP_DELTA_MIN_def DC_CLIP_DELTA_MAX_def)
  then have k': "nat (delta - DC_CLIP_DELTA_MIN) < nat (DC_CLIP_DELTA_MAX - DC_CLIP_DELTA_MIN + 1)"
    by (simp add: DC_CLIP_DELTA_MIN_def DC_CLIP_DELTA_MAX_def)
  have "DC_CLIP_TABLE ! nat (delta - DC_CLIP_DELTA_MIN) =
      map (\<lambda>sample. let value = sample + delta
         in if value < 0 then 0 else if value > 255 then 255 else word_of_int value) [0..255]"
    unfolding DC_CLIP_TABLE_def build_dc_clip_table_def nth_map_upto[OF k'] using assms(1) by simp
  also have "\<dots> = map (\<lambda>sample. clip_u8 (sample + delta)) [0..255]"
    by (rule map_cong) (auto simp: clip_u8_def clamp_int_def Let_def)
  finally show ?thesis using k by (simp add: dc_clip_table_at_def length_DC_CLIP_TABLE)
qed

lemma table_at_clip:
  "table_at (map (\<lambda>sample. clip_u8 (sample + delta)) [0..255]) v = Inr (clip_u8 (uint v + delta))"
proof -
  have "unat v < 256" using unsigned_less[of v, where 'a = nat] by simp
  then have "map (\<lambda>sample. clip_u8 (sample + delta)) [0..255] ! unat v = clip_u8 (uint v + delta)"
    by (subst nth_map_upto) simp_all
  with \<open>unat v < 256\<close> show ?thesis by (simp add: table_at_def)
qed

section \<open>Four samples of a row\<close>

definition row4 :: "(nat \<Rightarrow> byte \<Rightarrow> byte) \<Rightarrow> byte list \<Rightarrow> nat \<Rightarrow> byte list" where
  "row4 g plane idx = pmap (\<lambda>i. idx \<le> i \<and> i < idx + 4) (\<lambda>i v. g (i - idx) v) plane"

lemma length_row4 [simp]: "length (row4 g plane idx) = length plane"
  by (simp add: row4_def)

lemma row4_steps:
  assumes "idx + 4 \<le> length plane"
  shows "plane[idx := g 0 (plane ! idx), idx + 1 := g 1 (plane ! (idx + 1)),
      idx + 2 := g 2 (plane ! (idx + 2)), idx + 3 := g 3 (plane ! (idx + 3))] = row4 g plane idx"
    (is "?l = _")
proof (rule nth_equalityI)
  fix i assume "i < length ?l"
  then have i: "i < length plane" by simp
  consider "i < idx" | "i = idx" | "i = idx + 1" | "i = idx + 2" | "i = idx + 3" | "idx + 4 \<le> i" by linarith
  then show "?l ! i = row4 g plane idx ! i"
    by cases (use assms i in \<open>simp_all add: row4_def nth_list_update\<close>)
qed simp

lemma add_dc_row4_ok:
  assumes "idx + 4 \<le> length plane"
  shows "add_dc_row4 plane idx delta = Inr (row4 (\<lambda>_ v. clip_u8 (wrap32 (uint v + delta))) plane idx)"
  using assms row4_steps[OF assms, of "\<lambda>_ v. clip_u8 (wrap32 (uint v + delta))"]
  by (simp add: add_dc_row4_def store_at_def Let_def)

lemma add_dc_row4_table_ok:
  assumes "idx + 4 \<le> length plane"
  shows "add_dc_row4_table plane idx (map (\<lambda>sample. clip_u8 (sample + delta)) [0..255]) =
    Inr (row4 (\<lambda>_ v. clip_u8 (uint v + delta)) plane idx)"
  using assms row4_steps[OF assms, of "\<lambda>_ v. clip_u8 (uint v + delta)"]
  by (simp add: add_dc_row4_table_def store_at_def Let_def table_at_clip)

lemma add_idct_row_ok:
  assumes "idx + 4 \<le> length plane"
  shows "add_idct_row plane idx v0 v1 v2 v3 =
    Inr (row4 (\<lambda>k s. clip_u8 (wrap32 (uint s + wrap32 ([v0, v1, v2, v3] ! k + 4) div 8))) plane idx)"
  using assms row4_steps[OF assms, of "\<lambda>k s. clip_u8 (wrap32 (uint s + wrap32 ([v0, v1, v2, v3] ! k + 4) div 8))"]
  by (simp add: add_idct_row_def store_at_def Let_def)

section \<open>The sixteen samples of a block\<close>

text \<open>A block at \<open>base\<close> lies inside one band of rows of a plane of width \<open>stride\<close>.\<close>

definition blk_fits :: "byte list \<Rightarrow> nat \<Rightarrow> nat \<Rightarrow> bool" where
  "blk_fits plane stride base \<longleftrightarrow> base mod stride + 4 \<le> stride \<and> base + 3 * stride + 4 \<le> length plane"

definition put_blk :: "nat \<Rightarrow> nat \<Rightarrow> (nat \<Rightarrow> nat \<Rightarrow> byte \<Rightarrow> byte) \<Rightarrow> byte list \<Rightarrow> byte list" where
  "put_blk stride base g plane =
     pmap (in_rect stride (base mod stride) (base div stride) 4 4)
       (\<lambda>i v. g (i div stride - base div stride) (i mod stride - base mod stride) v) plane"

lemma length_put_blk [simp]: "length (put_blk stride base g plane) = length plane"
  by (simp add: put_blk_def)

lemma put_blk_id: "(\<And>r c v. r < 4 \<Longrightarrow> c < 4 \<Longrightarrow> g r c v = v) \<Longrightarrow> put_blk stride base g plane = plane"
  unfolding put_blk_def by (rule nth_equalityI) (auto simp: in_rect_def)

lemma put_blk_cong:
  "(\<And>r c v. r < 4 \<Longrightarrow> c < 4 \<Longrightarrow> g r c v = h r c v) \<Longrightarrow> put_blk stride base g plane = put_blk stride base h plane"
  unfolding put_blk_def by (intro pmap_cong) (auto simp: in_rect_def)

lemma rows_put_blk:
  assumes "blk_fits plane stride base"
  shows "row4 (g 3) (row4 (g 2) (row4 (g 1) (row4 (g 0) plane base) (base + stride)) (base + stride * 2)) (base + stride * 3)
    = put_blk stride base g plane"
proof -
  define x0 y0 where "x0 = base mod stride" and "y0 = base div stride"
  have x: "x0 + 4 \<le> stride" using assms by (simp add: blk_fits_def x0_def)
  have base: "base = y0 * stride + x0" by (simp add: x0_def y0_def)
  have row: "base + stride * r \<le> i \<and> i < base + stride * r + 4 \<longleftrightarrow>
      i div stride = y0 + r \<and> x0 \<le> i mod stride \<and> i mod stride < x0 + 4" for r i
    using row_range_iff[OF x, of "y0 + r" i] by (simp add: base algebra_simps)
  have off: "i - (base + stride * r) = i mod stride - x0"
    if "i div stride = y0 + r" for r i
    using that div_mult_mod_eq[of i stride] by (simp add: base algebra_simps flip: that)
  note rows = row[of 0] row[of 1] row[of 2] row[of 3] and offs = off[of _ 0] off[of _ 1] off[of _ 2] off[of _ 3]
  have r: "row4 f p (base + stride * r) =
      pmap (\<lambda>i. i div stride = y0 + r \<and> x0 \<le> i mod stride \<and> i mod stride < x0 + 4)
        (\<lambda>i v. f (i mod stride - x0) v) p" for f p r
    unfolding row4_def by (intro pmap_cong) (auto simp: row off)
  note rs = r[of _ _ 0, simplified] r[of _ _ 1, simplified] r[of _ _ 2] r[of _ _ 3]
  have cases: "in_rect stride x0 y0 4 4 i \<longleftrightarrow> (x0 \<le> i mod stride \<and> i mod stride < x0 + 4) \<and>
      (i div stride = y0 \<or> i div stride = Suc y0 \<or> i div stride = y0 + 2 \<or> i div stride = y0 + 3)" for i
    by (auto simp: in_rect_def)
  show ?thesis
    unfolding put_blk_def x0_def[symmetric] y0_def[symmetric] rs
    by (rule nth_equalityI) (auto simp: cases)
qed

section \<open>DC blocks and transform blocks\<close>

lemma blk_fits_rows:
  assumes "blk_fits plane stride base"
  shows "base + 4 \<le> length plane" "base + stride + 4 \<le> length plane"
    "base + stride * 2 + 4 \<le> length plane" "base + stride * 3 + 4 \<le> length plane"
  using assms by (auto simp: blk_fits_def)

definition dc_fn :: "int \<Rightarrow> nat \<Rightarrow> nat \<Rightarrow> byte \<Rightarrow> byte" where
  "dc_fn coeff r c v = clip_u8 (uint v + (coeff + 4) div 8)"

lemma byte_range: "0 \<le> uint (v :: byte) \<and> uint v \<le> 255"
  using uint_lt2p[of v] by simp

lemma clip_u8_uint [simp]: "clip_u8 (uint v) = v"
proof -
  show ?thesis using byte_range[of v] by (simp add: clip_u8_def clamp_int_id)
qed

lemma add_dc_block_ok:
  assumes "blk_fits plane stride base" and "- 32768 \<le> coeff" and "coeff < 32768"
  shows "add_dc_block plane stride base coeff = Inr (put_blk stride base (dc_fn coeff) plane)"
proof -
  define delta where "delta = (coeff + 4) div 8"
  have w: "wrap32 (coeff + 4) div 8 = delta" using assms(2,3) by (simp add: wrap32_id delta_def)
  have d: "- 4096 \<le> delta" "delta \<le> 4096" using assms(2,3) by (auto simp: delta_def)
  have wv: "wrap32 (uint v + delta) = uint v + delta" for v :: byte
    using d byte_range[of v] by (intro wrap32_id) linarith+
  have g: "dc_fn coeff = (\<lambda>_ _ v. clip_u8 (uint v + delta))" by (simp add: dc_fn_def delta_def fun_eq_iff)
  note rows = rows_put_blk[OF assms(1), of "\<lambda>_ _ v. clip_u8 (uint v + delta)"]
  consider "delta = 0" | "delta \<noteq> 0" "DC_CLIP_DELTA_MIN \<le> delta \<and> delta \<le> DC_CLIP_DELTA_MAX"
    | "delta \<noteq> 0" "\<not> (DC_CLIP_DELTA_MIN \<le> delta \<and> delta \<le> DC_CLIP_DELTA_MAX)" by blast
  then show ?thesis
  proof cases
    case 1
    then show ?thesis using put_blk_id[of "dc_fn coeff"] by (simp add: add_dc_block_def w g)
  next
    case 2
    then show ?thesis
      using blk_fits_rows[OF assms(1)] rows
      by (simp add: add_dc_block_def w DC_CLIP_TABLE_row add_dc_row4_table_ok g)
  next
    case 3
    have "add_dc_block plane stride base coeff =
        bindR (add_dc_row4 plane base delta) (\<lambda>plane.
        bindR (add_dc_row4 plane (base + stride) delta) (\<lambda>plane.
        bindR (add_dc_row4 plane (base + stride * 2) delta) (\<lambda>plane.
        add_dc_row4 plane (base + stride * 3) delta)))"
      unfolding add_dc_block_def Let_def w using 3 by (simp only: if_False)
    then show ?thesis
      using blk_fits_rows[OF assms(1)] rows by (simp add: add_dc_row4_ok wv g)
  qed
qed

definition idct_4x4 :: "int list \<Rightarrow> int list" where
  "idct_4x4 coeffs =
     (let (t0, t4, t8, t12) = idct_1d (coeffs ! 0) (coeffs ! 4) (coeffs ! 8) (coeffs ! 12);
          (t1, t5, t9, t13) = idct_1d (coeffs ! 1) (coeffs ! 5) (coeffs ! 9) (coeffs ! 13);
          (t2, t6, t10, t14) = idct_1d (coeffs ! 2) (coeffs ! 6) (coeffs ! 10) (coeffs ! 14);
          (t3, t7, t11, t15) = idct_1d (coeffs ! 3) (coeffs ! 7) (coeffs ! 11) (coeffs ! 15)
      in concat (map (\<lambda>(v0, v1, v2, v3). [v0, v1, v2, v3])
        [idct_1d t0 t1 t2 t3, idct_1d t4 t5 t6 t7, idct_1d t8 t9 t10 t11, idct_1d t12 t13 t14 t15]))"

definition idct_fn :: "int list \<Rightarrow> nat \<Rightarrow> nat \<Rightarrow> byte \<Rightarrow> byte" where
  "idct_fn coeffs r c v = clip_u8 (wrap32 (uint v + wrap32 (idct_4x4 coeffs ! (4 * r + c) + 4) div 8))"

lemma less_4_cases: "r < (4::nat) \<Longrightarrow> r = 0 \<or> r = 1 \<or> r = 2 \<or> r = 3"
  by linarith

lemma add_idct_block_ok:
  assumes "blk_fits plane stride base"
  shows "add_idct_block plane stride base coeffs = Inr (put_blk stride base (idct_fn coeffs) plane)"
proof -
  obtain t0 t4 t8 t12 where c0: "idct_1d (coeffs ! 0) (coeffs ! 4) (coeffs ! 8) (coeffs ! 12) = (t0, t4, t8, t12)"
    by (rule prod_cases4)
  obtain t1 t5 t9 t13 where c1: "idct_1d (coeffs ! 1) (coeffs ! 5) (coeffs ! 9) (coeffs ! 13) = (t1, t5, t9, t13)"
    by (rule prod_cases4)
  obtain t2 t6 t10 t14 where c2: "idct_1d (coeffs ! 2) (coeffs ! 6) (coeffs ! 10) (coeffs ! 14) = (t2, t6, t10, t14)"
    by (rule prod_cases4)
  obtain t3 t7 t11 t15 where c3: "idct_1d (coeffs ! 3) (coeffs ! 7) (coeffs ! 11) (coeffs ! 15) = (t3, t7, t11, t15)"
    by (rule prod_cases4)
  obtain a0 a1 a2 a3 where r0: "idct_1d t0 t1 t2 t3 = (a0, a1, a2, a3)" by (rule prod_cases4)
  obtain b0 b1 b2 b3 where r1: "idct_1d t4 t5 t6 t7 = (b0, b1, b2, b3)" by (rule prod_cases4)
  obtain d0 d1 d2 d3 where r2: "idct_1d t8 t9 t10 t11 = (d0, d1, d2, d3)" by (rule prod_cases4)
  obtain e0 e1 e2 e3 where r3: "idct_1d t12 t13 t14 t15 = (e0, e1, e2, e3)" by (rule prod_cases4)
  define vs where "vs = [[a0, a1, a2, a3], [b0, b1, b2, b3], [d0, d1, d2, d3], [e0, e1, e2, e3]]"
  define f where "f = (\<lambda>r k (s :: byte). clip_u8 (wrap32 (uint s + wrap32 (vs ! r ! k + 4) div 8)))"
  have fs: "add_idct_row p (base + stride * r) (vs ! r ! 0) (vs ! r ! 1) (vs ! r ! 2) (vs ! r ! 3) =
      Inr (row4 (f r) p (base + stride * r))" if "length p = length plane" "r < 4" for p r
  proof -
    have "[vs ! r ! 0, vs ! r ! 1, vs ! r ! 2, vs ! r ! 3] = vs ! r"
      using less_4_cases[OF that(2)] by (auto simp: vs_def)
    moreover have "base + stride * r + 4 \<le> length p"
      using less_4_cases[OF that(2)] blk_fits_rows[OF assms] that(1) by auto
    ultimately show ?thesis by (simp add: add_idct_row_ok f_def)
  qed
  note fs4 = fs[of _ 0] fs[of _ 1] fs[of _ 2] fs[of _ 3]
  have "add_idct_block plane stride base coeffs = Inr (put_blk stride base f plane)"
    using fs4 rows_put_blk[OF assms, of f]
    by (simp add: add_idct_block_def c0 c1[unfolded One_nat_def] c2 c3 r0 r1 r2 r3 vs_def)
  also have "put_blk stride base f plane = put_blk stride base (idct_fn coeffs) plane"
  proof (rule put_blk_cong)
    fix r c :: nat and v assume "r < 4" "c < 4"
    from less_4_cases[OF this(1)] less_4_cases[OF this(2)] show "f r c v = idct_fn coeffs r c v"
      by (elim disjE) (simp_all add: f_def idct_fn_def idct_4x4_def c0 c1[unfolded One_nat_def] c2 c3 r0 r1 r2 r3 vs_def)
  qed
  finally show ?thesis .
qed

text \<open>A block whose only coefficient is the DC one.\<close>

lemma idct_1d_dc: "- 32768 \<le> c \<Longrightarrow> c < 32768 \<Longrightarrow> idct_1d c 0 0 0 = (c, c, c, c)"
  by (simp add: idct_1d_def wrap32_id)

lemma idct_fn_dc:
  assumes "- 32768 \<le> c" and "c < 32768" and "k < 4" and "l < 4"
  shows "idct_fn (c # replicate 15 0) k l v = dc_fn c k l v"
proof -
  have z: "replicate 15 (0::int) = [0, 0, 0, 0, 0, 0, 0, 0, 0, 0, 0, 0, 0, 0, 0]" by (simp add: numeral_eq_Suc)
  have "idct_4x4 (c # replicate 15 0) = replicate 16 c"
    using idct_1d_dc[OF assms(1,2)] idct_1d_dc[of 0] by (simp add: idct_4x4_def z numeral_eq_Suc)
  moreover have "4 * k + l < 16" using assms(3,4) by simp
  ultimately have "idct_4x4 (c # replicate 15 0) ! (4 * k + l) = c" by simp
  moreover have "wrap32 (c + 4) = c + 4" using assms(1,2) by (simp add: wrap32_id)
  moreover have "wrap32 (uint v + (c + 4) div 8) = uint v + (c + 4) div 8"
  proof -
    have "- 4096 \<le> (c + 4) div 8" "(c + 4) div 8 \<le> 4096" using assms(1,2) by auto
    then show ?thesis using byte_range[of v] by (intro wrap32_id) linarith+
  qed
  ultimately show ?thesis by (simp add: idct_fn_def dc_fn_def)
qed

lemma add_dc_block_eq_idct:
  assumes "blk_fits plane stride base" and "- 32768 \<le> c" and "c < 32768"
  shows "add_dc_block plane stride base c = add_idct_block plane stride base (c # replicate 15 0)"
  using assms by (simp only: add_dc_block_ok add_idct_block_ok) (auto intro!: put_blk_cong simp: idct_fn_dc)

section \<open>Range of the inverse transform\<close>

text \<open>
  The transform without the 32-bit wrap-around. The two agree as long as the
  coefficients are at most 16384 in magnitude, which every coefficient of an
  S8 block is; coefficients of an S16 block can exceed it.
\<close>

definition idct_1d_exact :: "int \<Rightarrow> int \<Rightarrow> int \<Rightarrow> int \<Rightarrow> int \<times> int \<times> int \<times> int" where
  "idct_1d_exact c0 c1 c2 c3 =
     (let a1 = c0 + c2; b1 = c0 - c2;
          c1v = (c1 * 35468) div 65536 - c3; d1 = c1 + (c3 * 35468) div 65536
      in (a1 + d1, b1 + c1v, b1 - c1v, a1 - d1))"

definition idct_4x4_exact :: "int list \<Rightarrow> int list" where
  "idct_4x4_exact coeffs =
     (let (t0, t4, t8, t12) = idct_1d_exact (coeffs ! 0) (coeffs ! 4) (coeffs ! 8) (coeffs ! 12);
          (t1, t5, t9, t13) = idct_1d_exact (coeffs ! 1) (coeffs ! 5) (coeffs ! 9) (coeffs ! 13);
          (t2, t6, t10, t14) = idct_1d_exact (coeffs ! 2) (coeffs ! 6) (coeffs ! 10) (coeffs ! 14);
          (t3, t7, t11, t15) = idct_1d_exact (coeffs ! 3) (coeffs ! 7) (coeffs ! 11) (coeffs ! 15)
      in concat (map (\<lambda>(v0, v1, v2, v3). [v0, v1, v2, v3])
        [idct_1d_exact t0 t1 t2 t3, idct_1d_exact t4 t5 t6 t7,
         idct_1d_exact t8 t9 t10 t11, idct_1d_exact t12 t13 t14 t15]))"

definition all4 :: "(int \<Rightarrow> bool) \<Rightarrow> int \<times> int \<times> int \<times> int \<Rightarrow> bool" where
  "all4 P = (\<lambda>(a, b, c, d). P a \<and> P b \<and> P c \<and> P d)"

lemma idct_1d_in_range:
  assumes "\<bar>c0\<bar> \<le> M" "\<bar>c1\<bar> \<le> M" "\<bar>c2\<bar> \<le> M" "\<bar>c3\<bar> \<le> M" "M \<le> 60000"
  shows "idct_1d c0 c1 c2 c3 = idct_1d_exact c0 c1 c2 c3"
    and "all4 (\<lambda>v. \<bar>v\<bar> \<le> 3 * M + (M * 35468) div 65536 + 1) (idct_1d_exact c0 c1 c2 c3)"
proof -
  define m where "m = (M * 35468) div 65536"
  have m: "\<bar>(c * 35468) div 65536\<bar> \<le> m + 1" if "\<bar>c\<bar> \<le> M" for c
    using that unfolding m_def by auto
  have mM: "m \<le> 32472" unfolding m_def using assms(5) by auto
  have w: "wrap32 (c * 35468) = c * 35468" if "\<bar>c\<bar> \<le> M" for c
    using that assms(5) by (intro wrap32_id) auto
  note ms = m[OF assms(2)] m[OF assms(4)]
  show "idct_1d c0 c1 c2 c3 = idct_1d_exact c0 c1 c2 c3"
  proof -
    define p q where "p = c1 * 35468 div 65536" and "q = c3 * 35468 div 65536"
    have small: "wrap32 x = x" if "\<bar>x\<bar> \<le> 300000" for x using that by (intro wrap32_id) auto
    have b: "\<bar>p\<bar> \<le> 40000" "\<bar>q\<bar> \<le> 40000" using ms mM by (auto simp: p_def q_def)
    note a = assms
    have "wrap32 (c0 + c2) = c0 + c2" "wrap32 (c0 - c2) = c0 - c2" "wrap32 (p - c3) = p - c3" "wrap32 (c1 + q) = c1 + q"
      "wrap32 (c0 + c2 + (c1 + q)) = c0 + c2 + (c1 + q)" "wrap32 (c0 - c2 + (p - c3)) = c0 - c2 + (p - c3)"
      "wrap32 (c0 - c2 - (p - c3)) = c0 - c2 - (p - c3)" "wrap32 (c0 + c2 - (c1 + q)) = c0 + c2 - (c1 + q)"
      using a b by (intro small, linarith)+
    then show ?thesis
      unfolding idct_1d_def idct_1d_exact_def w[OF assms(2)] w[OF assms(4)] Let_def p_def[symmetric] q_def[symmetric]
      by (simp only:)
  qed
  show "all4 (\<lambda>v. \<bar>v\<bar> \<le> 3 * M + (M * 35468) div 65536 + 1) (idct_1d_exact c0 c1 c2 c3)"
  proof -
    have k: "\<bar>a + b + (c + p)\<bar> \<le> 3 * M + m + 1" "\<bar>a - b + (p - c)\<bar> \<le> 3 * M + m + 1"
      "\<bar>a - b - (p - c)\<bar> \<le> 3 * M + m + 1" "\<bar>a + b - (c + p)\<bar> \<le> 3 * M + m + 1"
      if "\<bar>a\<bar> \<le> M" "\<bar>b\<bar> \<le> M" "\<bar>c\<bar> \<le> M" "\<bar>p\<bar> \<le> m + 1" for a b c p :: int
      using that by linarith+
    show ?thesis
      unfolding idct_1d_exact_def Let_def all4_def m_def[symmetric] prod.case
      by (intro conjI k assms ms)
  qed
qed

lemma idct_4x4_in_range:
  assumes "\<forall>k<16. \<bar>coeffs ! k\<bar> \<le> 16384"
  shows "idct_4x4 coeffs = idct_4x4_exact coeffs"
    and "\<forall>k<16. \<bar>idct_4x4_exact coeffs ! k\<bar> \<le> 205461"
proof -
  have col: "\<exists>a b c d. idct_1d (coeffs ! j) (coeffs ! (j + 4)) (coeffs ! (j + 8)) (coeffs ! (j + 12)) = (a, b, c, d) \<and>
      idct_1d_exact (coeffs ! j) (coeffs ! (j + 4)) (coeffs ! (j + 8)) (coeffs ! (j + 12)) = (a, b, c, d) \<and>
      \<bar>a\<bar> \<le> 58020 \<and> \<bar>b\<bar> \<le> 58020 \<and> \<bar>c\<bar> \<le> 58020 \<and> \<bar>d\<bar> \<le> 58020" if "j < 4" for j
  proof -
    have "\<bar>coeffs ! j\<bar> \<le> 16384" "\<bar>coeffs ! (j + 4)\<bar> \<le> 16384" "\<bar>coeffs ! (j + 8)\<bar> \<le> 16384" "\<bar>coeffs ! (j + 12)\<bar> \<le> 16384"
      using assms that by auto
    from idct_1d_in_range[OF this] show ?thesis
      by (cases "idct_1d_exact (coeffs ! j) (coeffs ! (j + 4)) (coeffs ! (j + 8)) (coeffs ! (j + 12))")
        (auto simp: all4_def)
  qed
  have row: "\<exists>a' b' c' d'. idct_1d a b c d = (a', b', c', d') \<and> idct_1d_exact a b c d = (a', b', c', d') \<and>
      \<bar>a'\<bar> \<le> 205461 \<and> \<bar>b'\<bar> \<le> 205461 \<and> \<bar>c'\<bar> \<le> 205461 \<and> \<bar>d'\<bar> \<le> 205461"
    if "\<bar>a\<bar> \<le> 58020" "\<bar>b\<bar> \<le> 58020" "\<bar>c\<bar> \<le> 58020" "\<bar>d\<bar> \<le> 58020" for a b c d
    using idct_1d_in_range[OF that] by (cases "idct_1d_exact a b c d") (auto simp: all4_def)
  from col[of 0] obtain t0 t4 t8 t12 where c0: "idct_1d (coeffs ! 0) (coeffs ! 4) (coeffs ! 8) (coeffs ! 12) = (t0, t4, t8, t12)"
    "idct_1d_exact (coeffs ! 0) (coeffs ! 4) (coeffs ! 8) (coeffs ! 12) = (t0, t4, t8, t12)"
    and b0: "\<bar>t0\<bar> \<le> 58020" "\<bar>t4\<bar> \<le> 58020" "\<bar>t8\<bar> \<le> 58020" "\<bar>t12\<bar> \<le> 58020" by auto
  from col[of 1] obtain t1 t5 t9 t13 where c1: "idct_1d (coeffs ! 1) (coeffs ! 5) (coeffs ! 9) (coeffs ! 13) = (t1, t5, t9, t13)"
    "idct_1d_exact (coeffs ! 1) (coeffs ! 5) (coeffs ! 9) (coeffs ! 13) = (t1, t5, t9, t13)"
    and b1: "\<bar>t1\<bar> \<le> 58020" "\<bar>t5\<bar> \<le> 58020" "\<bar>t9\<bar> \<le> 58020" "\<bar>t13\<bar> \<le> 58020" by auto
  from col[of 2] obtain t2 t6 t10 t14 where c2: "idct_1d (coeffs ! 2) (coeffs ! 6) (coeffs ! 10) (coeffs ! 14) = (t2, t6, t10, t14)"
    "idct_1d_exact (coeffs ! 2) (coeffs ! 6) (coeffs ! 10) (coeffs ! 14) = (t2, t6, t10, t14)"
    and b2: "\<bar>t2\<bar> \<le> 58020" "\<bar>t6\<bar> \<le> 58020" "\<bar>t10\<bar> \<le> 58020" "\<bar>t14\<bar> \<le> 58020" by auto
  from col[of 3] obtain t3 t7 t11 t15 where c3: "idct_1d (coeffs ! 3) (coeffs ! 7) (coeffs ! 11) (coeffs ! 15) = (t3, t7, t11, t15)"
    "idct_1d_exact (coeffs ! 3) (coeffs ! 7) (coeffs ! 11) (coeffs ! 15) = (t3, t7, t11, t15)"
    and b3: "\<bar>t3\<bar> \<le> 58020" "\<bar>t7\<bar> \<le> 58020" "\<bar>t11\<bar> \<le> 58020" "\<bar>t15\<bar> \<le> 58020" by auto
  obtain a0 a1 a2 a3 where r0: "idct_1d t0 t1 t2 t3 = (a0, a1, a2, a3)" "idct_1d_exact t0 t1 t2 t3 = (a0, a1, a2, a3)"
    and p0: "\<bar>a0\<bar> \<le> 205461" "\<bar>a1\<bar> \<le> 205461" "\<bar>a2\<bar> \<le> 205461" "\<bar>a3\<bar> \<le> 205461" using row[OF b0(1) b1(1) b2(1) b3(1)] by auto
  obtain b0' b1' b2' b3' where r1: "idct_1d t4 t5 t6 t7 = (b0', b1', b2', b3')" "idct_1d_exact t4 t5 t6 t7 = (b0', b1', b2', b3')"
    and p1: "\<bar>b0'\<bar> \<le> 205461" "\<bar>b1'\<bar> \<le> 205461" "\<bar>b2'\<bar> \<le> 205461" "\<bar>b3'\<bar> \<le> 205461" using row[OF b0(2) b1(2) b2(2) b3(2)] by auto
  obtain d0 d1 d2 d3 where r2: "idct_1d t8 t9 t10 t11 = (d0, d1, d2, d3)" "idct_1d_exact t8 t9 t10 t11 = (d0, d1, d2, d3)"
    and p2: "\<bar>d0\<bar> \<le> 205461" "\<bar>d1\<bar> \<le> 205461" "\<bar>d2\<bar> \<le> 205461" "\<bar>d3\<bar> \<le> 205461" using row[OF b0(3) b1(3) b2(3) b3(3)] by auto
  obtain e0 e1 e2 e3 where r3: "idct_1d t12 t13 t14 t15 = (e0, e1, e2, e3)" "idct_1d_exact t12 t13 t14 t15 = (e0, e1, e2, e3)"
    and p3: "\<bar>e0\<bar> \<le> 205461" "\<bar>e1\<bar> \<le> 205461" "\<bar>e2\<bar> \<le> 205461" "\<bar>e3\<bar> \<le> 205461" using row[OF b0(4) b1(4) b2(4) b3(4)] by auto
  have ex: "idct_4x4_exact coeffs = [a0, a1, a2, a3, b0', b1', b2', b3', d0, d1, d2, d3, e0, e1, e2, e3]"
    unfolding idct_4x4_exact_def Let_def c0 c1 c2 c3 by (simp add: r0 r1 r2 r3)
  show "idct_4x4 coeffs = idct_4x4_exact coeffs"
    unfolding ex idct_4x4_def Let_def c0 c1 c2 c3 by (simp add: r0 r1 r2 r3)
  have "\<forall>x\<in>set (idct_4x4_exact coeffs). \<bar>x\<bar> \<le> 205461" using p0 p1 p2 p3 by (simp add: ex)
  moreover have "length (idct_4x4_exact coeffs) = 16" by (simp add: ex)
  ultimately show "\<forall>k<16. \<bar>idct_4x4_exact coeffs ! k\<bar> \<le> 205461" by (metis nth_mem)
qed

lemma idct_fn_exact:
  assumes "\<forall>k<16. \<bar>coeffs ! k\<bar> \<le> 16384" and "r < 4" and "c < 4"
  shows "idct_fn coeffs r c v = clip_u8 (uint v + (idct_4x4_exact coeffs ! (4 * r + c) + 4) div 8)"
proof -
  define x where "x = idct_4x4_exact coeffs ! (4 * r + c)"
  have "4 * r + c < 16" using assms(2,3) by simp
  then have x: "\<bar>x\<bar> \<le> 205461" using idct_4x4_in_range(2)[OF assms(1)] by (simp add: x_def)
  then have "wrap32 (x + 4) = x + 4" by (intro wrap32_id) auto
  moreover have "wrap32 (uint v + (x + 4) div 8) = uint v + (x + 4) div 8"
  proof -
    have "- 30000 \<le> (x + 4) div 8" "(x + 4) div 8 \<le> 30000" using x by auto
    then show ?thesis using byte_range[of v] by (intro wrap32_id) linarith+
  qed
  ultimately show ?thesis by (simp add: idct_fn_def idct_4x4_in_range(1)[OF assms(1)] x_def)
qed

end
