(* ===== verification/O3_MbResidual.thy ===== *)
theory O3_MbResidual
  imports O3_Block
begin

text \<open>
  Decoding of a macroblock's residual as a parse of the stream followed by
  pointwise writes: \<open>apply_block\<close> is \<open>parse_block\<close> then \<open>put_blk\<close>,
  \<open>apply_mb_residual\<close> is \<open>parse_mb_residual\<close> then \<open>put_mb_blk\<close> for each block.
  It keeps the laws of the interface \<open>mb_op\<close>, and reading back a written
  coefficient list gives the coefficients (\<open>read_coeffs_written\<close>).
\<close>

section \<open>Coefficient lists\<close>

definition read_coeffs :: "(reader \<Rightarrow> ('a \<times> reader) result) \<Rightarrow> ('a \<Rightarrow> int) \<Rightarrow> u16 \<Rightarrow> reader \<Rightarrow> (int list \<times> reader) result" where
  "read_coeffs get val nz_mask residual =
     forR (\<lambda>zz (coeffs, residual).
         bindR (zigzag_at zz) (\<lambda>index.
         bindR (get residual) (\<lambda>(v, residual).
         bindR (store_coeff coeffs index (val v)) (\<lambda>coeffs. Inr (coeffs, residual)))))
       (set_bits_of nz_mask) (replicate 16 0, residual)"

lemma read_coeffs_eq:
  "read_coeffs_s8 = read_coeffs rd_i8 sint" "read_coeffs_s16 = read_coeffs rd_i16 sint"
  by (simp_all add: fun_eq_iff read_coeffs_s8_def read_coeffs_s16_def read_coeffs_def bit_loop_forR)

lemma set_bits_of_u16: "k \<in> set (set_bits_of (m :: u16)) \<Longrightarrow> k < 16"
  using bit_imp_le_length by fastforce

definition put_coeffs :: "('a \<Rightarrow> byte list) \<Rightarrow> (nat \<Rightarrow> 'a) \<Rightarrow> u16 \<Rightarrow> byte list" where
  "put_coeffs put x nz_mask = concat (map (\<lambda>k. put (x k)) (set_bits_of nz_mask))"

context fixed_codec
begin

lemma coeffs_loop:
  assumes "\<forall>k\<in>set ks. k < 16" and "length coeffs = 16" and "\<forall>c\<in>set coeffs. P c" and "\<And>v. P (val v)"
  shows "case forR (\<lambda>zz (coeffs, residual).
         bindR (zigzag_at zz) (\<lambda>index. bindR (get residual) (\<lambda>(v, residual).
         bindR (store_coeff coeffs index (val v)) (\<lambda>coeffs. Inr (coeffs, residual))))) ks (coeffs, r) of
    Inl e \<Rightarrow> e = Eof
  | Inr (cs, r') \<Rightarrow> length cs = 16 \<and> (\<forall>c\<in>set cs. P c) \<and> r' = adv (length ks * width) r \<and>
      length ks * width \<le> length (rest r)"
  using assms(1-3)
proof (induction ks arbitrary: coeffs r)
  case (Cons k ks)
  then have k: "k < 16" by simp
  show ?case
  proof (cases rule: get_cases[of r])
    case short
    with k show ?thesis by (simp add: zigzag_at_def)
  next
    case (read x)
    let ?cs = "coeffs[ZIGZAG ! k := val x]"
    have "set ?cs \<subseteq> insert (val x) (set coeffs)" by (rule set_update_subset_insert)
    then have "\<forall>c\<in>set ?cs. P c" using Cons.prems(3) assms(4) by blast
    with Cons.IH[of ?cs "adv width r"] Cons.prems read k show ?thesis
      by (auto simp: zigzag_at_def store_coeff_def ZIGZAG_less algebra_simps split: sum.splits)
  qed
qed simp

lemma read_coeffs_shape:
  assumes "\<And>v. P (val v)" and "P 0"
  shows "case read_coeffs get val nz_mask r of Inl e \<Rightarrow> e = Eof
    | Inr (cs, r') \<Rightarrow> length cs = 16 \<and> (\<forall>c\<in>set cs. P c) \<and> r' = adv (count_ones nz_mask * width) r \<and>
        count_ones nz_mask * width \<le> length (rest r)"
  using coeffs_loop[of "set_bits_of nz_mask" "replicate 16 0" P val r] assms set_bits_of_u16[of _ nz_mask]
  by (simp add: read_coeffs_def count_ones_def split: sum.splits prod.splits)

lemma coeffs_loop_written:
  assumes "\<forall>k\<in>set ks. k < 16" and "length coeffs = 16" and "rest r = concat (map (\<lambda>k. put (x k)) ks) @ post"
  shows "forR (\<lambda>zz (coeffs, residual).
         bindR (zigzag_at zz) (\<lambda>index. bindR (get residual) (\<lambda>(v, residual).
         bindR (store_coeff coeffs index (val v)) (\<lambda>coeffs. Inr (coeffs, residual))))) ks (coeffs, r) =
    Inr (fold (\<lambda>k cs. cs[ZIGZAG ! k := val (x k)]) ks coeffs, adv (length ks * width) r)"
  using assms
proof (induction ks arbitrary: coeffs r)
  case (Cons k ks)
  have "get r = Inr (x k, adv width r)"
    using Cons.prems(3) by (intro get_put[where post = "concat (map (\<lambda>k. put (x k)) ks) @ post"]) simp
  moreover have "rest (adv width r) = concat (map (\<lambda>k. put (x k)) ks) @ post"
    using Cons.prems(3) by (simp add: length_put)
  ultimately show ?case
    using Cons.IH[of "coeffs[ZIGZAG ! k := val (x k)]" "adv width r"] Cons.prems(1,2)
    by (simp add: zigzag_at_def store_coeff_def ZIGZAG_less)
qed simp

end

lemma fold_zigzag:
  assumes "\<forall>k\<in>set ks. k < 16" and "j < 16" and "length d = 16"
  shows "fold (\<lambda>k d. d[ZIGZAG ! k := cs ! (ZIGZAG ! k)]) ks d ! (ZIGZAG ! j) =
    (if j \<in> set ks then cs ! (ZIGZAG ! j) else d ! (ZIGZAG ! j))"
  using assms(1,3)
proof (induction ks arbitrary: d)
  case (Cons k ks)
  have "ZIGZAG ! k = ZIGZAG ! j \<longleftrightarrow> k = j"
    using Cons.prems assms(2) distinct_ZIGZAG by (simp add: nth_eq_iff_index_eq)
  then show ?case
    using Cons ZIGZAG_less[OF assms(2)] by (auto simp: nth_list_update)
qed simp

context fixed_codec
begin

text \<open>A coefficient block written over its nonzero positions is read back.\<close>

lemma read_coeffs_written:
  assumes "length cs = 16"
    and "\<forall>k<16. if bit nz_mask k then val (x k) = cs ! (ZIGZAG ! k) else cs ! (ZIGZAG ! k) = 0"
    and "rest r = put_coeffs put x nz_mask @ post"
  shows "read_coeffs get val nz_mask r = Inr (cs, adv (count_ones nz_mask * width) r)"
proof -
  let ?ks = "set_bits_of nz_mask"
  have ks: "\<forall>k\<in>set ?ks. k < 16" using set_bits_of_u16 by blast
  have "fold (\<lambda>k d. d[ZIGZAG ! k := val (x k)]) ?ks (replicate 16 0) =
      fold (\<lambda>k d. d[ZIGZAG ! k := cs ! (ZIGZAG ! k)]) ?ks (replicate 16 0)" (is "_ = ?f")
    using ks assms(2) by (intro fold_cong) auto
  also have "\<dots> = cs"
  proof (rule nth_equalityI)
    have len: "length (fold (\<lambda>k d. d[ZIGZAG ! k := cs ! (ZIGZAG ! k)]) ks d) = length d" for ks d
      by (induction ks arbitrary: d) auto
    then show "length ?f = length cs" using assms(1) by simp
    fix i assume "i < length ?f"
    then have "i \<in> set ZIGZAG" by (simp add: len set_ZIGZAG)
    then obtain j where j: "j < 16" "i = ZIGZAG ! j" by (auto simp: in_set_conv_nth)
    show "?f ! i = cs ! i"
      using fold_zigzag[OF ks j(1), of "replicate 16 0" cs] assms(2) j ZIGZAG_less[OF j(1)] by auto
  qed
  finally show ?thesis
    using coeffs_loop_written[OF ks, of "replicate 16 0" r x post val] assms(3)
    by (simp add: read_coeffs_def put_coeffs_def count_ones_def)
qed

end

section \<open>Parsing a block\<close>

datatype blk = RawBlk "byte list" | DcBlk int | IdctBlk "int list"

primrec blk_fn :: "blk \<Rightarrow> nat \<Rightarrow> nat \<Rightarrow> byte \<Rightarrow> byte" where
  "blk_fn (RawBlk bytes) = (\<lambda>r c v. bytes ! (4 * r + c))"
| "blk_fn (DcBlk coeff) = dc_fn coeff"
| "blk_fn (IdctBlk coeffs) = idct_fn coeffs"

primrec blk_ok :: "blk \<Rightarrow> bool" where
  "blk_ok (RawBlk bytes) \<longleftrightarrow> length bytes = 16"
| "blk_ok (DcBlk coeff) \<longleftrightarrow> - 32768 \<le> coeff \<and> coeff < 32768"
| "blk_ok (IdctBlk coeffs) \<longleftrightarrow> length coeffs = 16 \<and> (\<forall>c\<in>set coeffs. - 32768 \<le> c \<and> c < 32768)"

definition parse_block :: "reader \<Rightarrow> (blk \<times> reader) result" where
  "parse_block residual =
     bindR (rd_u8 residual) (\<lambda>(tag, residual).
     if tag = TAG_RAW_4X4 then
       (if length (rest residual) < 16 then Inl Eof else Inr (RawBlk (take 16 (rest residual)), adv 16 residual))
     else if tag = TAG_DC_ONLY_S8 then
       bindR (rd_i8 residual) (\<lambda>(v, residual). Inr (DcBlk (sint v), residual))
     else if tag = TAG_DC_ONLY_S16 then
       bindR (rd_i16 residual) (\<lambda>(v, residual). Inr (DcBlk (sint v), residual))
     else if tag = TAG_AC_MASK_S8 then
       bindR (rd_u16 residual) (\<lambda>(nz_mask, residual).
       bindR (read_coeffs_s8 nz_mask residual) (\<lambda>(coeffs, residual). Inr (IdctBlk coeffs, residual)))
     else if tag = TAG_AC_MASK_S16 then
       bindR (rd_u16 residual) (\<lambda>(nz_mask, residual).
       bindR (read_coeffs_s16 nz_mask residual) (\<lambda>(coeffs, residual). Inr (IdctBlk coeffs, residual)))
     else Inl (Invalid ''reserved residual tag bits set''))"

lemma s8_range: "- 32768 \<le> sint (v :: byte) \<and> sint v < 32768"
  using sint_greater_eq[of v] sint_less[of v] by simp

lemma s16_range: "- 32768 \<le> sint (v :: u16) \<and> sint v < 32768"
  using sint_greater_eq[of v] sint_less[of v] by simp

lemmas coeffs_s8_shape = i8c.read_coeffs_shape[of "\<lambda>c. - 32768 \<le> c \<and> c < 32768" sint, OF s8_range, simplified, folded read_coeffs_eq]
  and coeffs_s16_shape = i16c.read_coeffs_shape[of "\<lambda>c. - 32768 \<le> c \<and> c < 32768" sint, OF s16_range, simplified, folded read_coeffs_eq]

text \<open>
  What a parse may do: it never faults, and it moves forward inside the input.
\<close>

definition moves :: "reader \<Rightarrow> reader \<Rightarrow> bool" where
  "moves r r' \<longleftrightarrow> (\<exists>n\<le>length (rest r). r' = adv n r)"

lemma moves_refl [simp]: "moves r r"
  by (auto simp: moves_def intro: exI[of _ 0])

lemma moves_adv: "n \<le> length (rest r) \<Longrightarrow> moves r (adv n r)"
  by (auto simp: moves_def)

lemma moves_trans: "moves r r' \<Longrightarrow> moves r' r'' \<Longrightarrow> moves r r''"
  unfolding moves_def
proof (elim exE conjE)
  fix m n assume "m \<le> length (rest r)" "r' = adv m r" "n \<le> length (rest r')" "r'' = adv n r'"
  then show "\<exists>n\<le>length (rest r). r'' = adv n r" by (intro exI[of _ "m + n"]) auto
qed

lemma moves_rd_ok: "moves r r' \<Longrightarrow> rd_ok r \<Longrightarrow> rd_ok r'"
  by (auto simp: moves_def length_rest rd_ok_adv)

definition parses :: "('a \<Rightarrow> bool) \<Rightarrow> reader \<Rightarrow> ('a \<times> reader) result \<Rightarrow> bool" where
  "parses P r res \<longleftrightarrow> (case res of Inl e \<Rightarrow> e \<noteq> Fault | Inr (x, r') \<Rightarrow> P x \<and> moves r r')"

lemma parses_Inl [simp]: "parses P r (Inl e) \<longleftrightarrow> e \<noteq> Fault"
  by (simp add: parses_def)

lemma parses_Inr [simp]: "parses P r (Inr (x, r')) \<longleftrightarrow> P x \<and> moves r r'"
  by (simp add: parses_def)

lemma parses_bind:
  assumes "parses P r res" and "\<And>x r'. res = Inr (x, r') \<Longrightarrow> P x \<Longrightarrow> parses Q r' (k (x, r'))"
  shows "parses Q r (bindR res k)"
proof (cases res)
  case (Inr p)
  obtain x r' where p: "p = (x, r')" by (cases p)
  with Inr assms(1) have m: "P x" "moves r r'" by auto
  from assms(2)[OF Inr[unfolded p] m(1)] m(2) show ?thesis
    by (auto simp: parses_def Inr p split: sum.splits intro: moves_trans)
qed (use assms(1) in simp)

lemma parses_if:
  "(b \<Longrightarrow> parses P r x) \<Longrightarrow> (\<not> b \<Longrightarrow> parses P r y) \<Longrightarrow> parses P r (if b then x else y)"
  by simp

context fixed_codec
begin

lemma parses_get: "parses (\<lambda>_. True) r (get r)"
  by (cases rule: get_cases[of r]) (auto intro: moves_adv)

lemma parses_read_coeffs:
  assumes "\<And>v. P (val v)" and "P 0"
  shows "parses (\<lambda>cs. length cs = 16 \<and> (\<forall>c\<in>set cs. P c)) r (read_coeffs get val nz_mask r)"
  using read_coeffs_shape[of P val nz_mask r, OF assms]
  by (auto simp: parses_def moves_adv split: sum.splits)

end

lemma parse_block_parses: "parses blk_ok r (parse_block r)"
  unfolding parse_block_def read_coeffs_eq
proof (rule parses_bind[OF u8c.parses_get], unfold prod.case, intro parses_if)
  fix r :: reader
  show "\<not> length (rest r) < 16 \<Longrightarrow> parses blk_ok r (Inr (RawBlk (take 16 (rest r)), adv 16 r))"
    by (simp add: moves_adv)
  show "parses blk_ok r (bindR (rd_i8 r) (\<lambda>(v, residual). Inr (DcBlk (sint v), residual)))"
    by (rule parses_bind[OF i8c.parses_get]) (simp add: s8_range)
  show "parses blk_ok r (bindR (rd_i16 r) (\<lambda>(v, residual). Inr (DcBlk (sint v), residual)))"
    by (rule parses_bind[OF i16c.parses_get]) (simp add: s16_range)
  show "parses blk_ok r (bindR (rd_u16 r) (\<lambda>(nz_mask, residual).
      bindR (read_coeffs rd_i8 sint nz_mask residual) (\<lambda>(coeffs, residual). Inr (IdctBlk coeffs, residual))))"
    by (rule parses_bind[OF u16c.parses_get], unfold prod.case,
        rule parses_bind[OF i8c.parses_read_coeffs[where P = "\<lambda>c. - 32768 \<le> c \<and> c < 32768"]])
      (simp_all add: s8_range)
  show "parses blk_ok r (bindR (rd_u16 r) (\<lambda>(nz_mask, residual).
      bindR (read_coeffs rd_i16 sint nz_mask residual) (\<lambda>(coeffs, residual). Inr (IdctBlk coeffs, residual))))"
    by (rule parses_bind[OF u16c.parses_get], unfold prod.case,
        rule parses_bind[OF i16c.parses_read_coeffs[where P = "\<lambda>c. - 32768 \<le> c \<and> c < 32768"]])
      (simp_all add: s16_range)
qed simp_all

section \<open>Applying a parsed block\<close>

lemma raw_block_ok:
  assumes "blk_fits plane stride base"
  shows "copy_raw_4x4_from_reader plane stride base r =
    (if length (rest r) < 16 then Inl Eof
     else Inr (put_blk stride base (blk_fn (RawBlk (take 16 (rest r)))) plane, adv 16 r))"
proof (cases "length (rest r) < 16")
  case True
  then show ?thesis by (auto simp: copy_raw_4x4_from_reader_def Let_def rest_def)
next
  case False
  then have len: "rd_pos r + 16 \<le> length (rd_bytes r)" by (auto simp: rest_def)
  have row: "copy_at_4 p (base + stride * k) (rd_bytes r) (rd_pos r + 4 * k) =
      Inr (row4 (\<lambda>c _. take 16 (rest r) ! (4 * k + c)) p (base + stride * k))"
    if "length p = length plane" "k < 4" for p k
  proof -
    have "base + stride * k + 4 \<le> length p"
      using less_4_cases[OF that(2)] blk_fits_rows[OF assms] that(1) by auto
    moreover have "rd_bytes r ! (rd_pos r + 4 * k + (i - (base + stride * k))) =
        take 16 (rest r) ! (4 * k + (i - (base + stride * k)))"
      if "base + stride * k \<le> i" "i < base + stride * k + 4" for i
      using that \<open>k < 4\<close> len by (simp add: rest_def add.assoc)
    ultimately show ?thesis
      using len that(2) by (auto simp: copy_at_4_eq copy_at_len_ok row4_def intro!: pmap_cong)
  qed
  note rows = row[of _ 0] row[of _ 1] row[of _ 2] row[of _ 3]
    and all = rows_put_blk[OF assms, of "\<lambda>k c _. take 16 (rest r) ! (4 * k + c)"]
  show ?thesis
    using False len rows all
    by (simp add: copy_raw_4x4_from_reader_def Let_def adv_def add.assoc mult.commute[of stride] mult_2 numeral_3_eq_3)
qed

lemma apply_block_ok:
  assumes "blk_fits plane stride base"
  shows "apply_block plane stride base r =
    bindR (parse_block r) (\<lambda>(b, r). Inr (put_blk stride base (blk_fn b) plane, r))"
proof -
  have dc8: "add_dc_block plane stride base (sint v) = Inr (put_blk stride base (dc_fn (sint v)) plane)" for v :: byte
    using s8_range[of v] by (intro add_dc_block_ok[OF assms]) auto
  have dc16: "add_dc_block plane stride base (sint v) = Inr (put_blk stride base (dc_fn (sint v)) plane)" for v :: u16
    using s16_range[of v] by (intro add_dc_block_ok[OF assms]) auto
  show ?thesis
    unfolding apply_block_def parse_block_def bindR_assoc
    by (intro bindR_cong refl) (auto simp: raw_block_ok[OF assms] add_idct_block_ok[OF assms] dc8 dc16 bindR_assoc
      split: prod.splits intro!: bindR_cong)
qed

section \<open>Applying the residual of a macroblock\<close>

definition y_blk_base :: "nat \<Rightarrow> nat \<Rightarrow> nat" where
  "y_blk_base mb block =
     (mb div MB_W) * 16 * EYE_W + (mb mod MB_W) * 16 + (block div 4) * 4 * EYE_W + (block mod 4) * 4"

definition c_blk_base :: "nat \<Rightarrow> nat \<Rightarrow> nat" where
  "c_blk_base mb cblock =
     (mb div MB_W) * 8 * CHROMA_W + (mb mod MB_W) * 8 + (cblock div 2) * 4 * CHROMA_W + (cblock mod 2) * 4"

definition put_mb_blk :: "nat \<Rightarrow> nat \<times> blk \<Rightarrow> eye_frame \<Rightarrow> eye_frame" where
  "put_mb_blk mb = (\<lambda>(block, b) e.
     if block < 16 then e\<lparr>eye_y := put_blk EYE_W (y_blk_base mb block) (blk_fn b) (eye_y e)\<rparr>
     else if block < 20 then e\<lparr>eye_cb := put_blk CHROMA_W (c_blk_base mb (block - 16)) (blk_fn b) (eye_cb e)\<rparr>
     else e\<lparr>eye_cr := put_blk CHROMA_W (c_blk_base mb (block - 20)) (blk_fn b) (eye_cr e)\<rparr>)"

lemma y_blk_pos:
  assumes "mb < MB_COUNT" and "block < 16"
  shows "y_blk_base mb block mod EYE_W = mb mod MB_W * 16 + block mod 4 * 4"
    and "y_blk_base mb block div EYE_W = mb div MB_W * 16 + block div 4 * 4"
    and "block mod 4 * 4 + 4 \<le> 16" and "block div 4 * 4 + 4 \<le> 16"
proof -
  show b: "block mod 4 * 4 + 4 \<le> 16" "block div 4 * 4 + 4 \<le> 16" using assms(2) by auto
  have x: "mb mod MB_W * 16 + block mod 4 * 4 < EYE_W" using mb_fits(1)[OF assms(1)] b by linarith
  have e: "y_blk_base mb block = (mb div MB_W * 16 + block div 4 * 4) * EYE_W + (mb mod MB_W * 16 + block mod 4 * 4)"
    by (simp add: y_blk_base_def algebra_simps)
  from pos_div_mod[OF x] show "y_blk_base mb block mod EYE_W = mb mod MB_W * 16 + block mod 4 * 4"
    "y_blk_base mb block div EYE_W = mb div MB_W * 16 + block div 4 * 4" unfolding e by simp_all
qed

lemma c_blk_pos:
  assumes "mb < MB_COUNT" and "block < 4"
  shows "c_blk_base mb block mod CHROMA_W = mb mod MB_W * 8 + block mod 2 * 4"
    and "c_blk_base mb block div CHROMA_W = mb div MB_W * 8 + block div 2 * 4"
    and "block mod 2 * 4 + 4 \<le> 8" and "block div 2 * 4 + 4 \<le> 8"
proof -
  show b: "block mod 2 * 4 + 4 \<le> 8" "block div 2 * 4 + 4 \<le> 8" using assms(2) by auto
  have x: "mb mod MB_W * 8 + block mod 2 * 4 < CHROMA_W" using mb_fits(3)[OF assms(1)] b by linarith
  have e: "c_blk_base mb block = (mb div MB_W * 8 + block div 2 * 4) * CHROMA_W + (mb mod MB_W * 8 + block mod 2 * 4)"
    by (simp add: c_blk_base_def algebra_simps)
  from pos_div_mod[OF x] show "c_blk_base mb block mod CHROMA_W = mb mod MB_W * 8 + block mod 2 * 4"
    "c_blk_base mb block div CHROMA_W = mb div MB_W * 8 + block div 2 * 4" unfolding e by simp_all
qed

lemma blk_fits_rect:
  assumes "base mod stride + 4 \<le> stride" and "base div stride + 4 \<le> h" and "length plane = stride * h"
  shows "blk_fits plane stride base"
proof -
  have "(base div stride + 3) * stride + base mod stride + 4 \<le> stride * h"
    using row_bound[of "base mod stride" 4 stride "base div stride + 3" h] assms(1,2) by simp
  then show ?thesis using assms(1,3) div_mult_mod_eq[of base stride] by (simp add: blk_fits_def algebra_simps)
qed

lemma y_blk_fits:
  assumes "wf_eye e" and "mb < MB_COUNT" and "block < 16"
  shows "blk_fits (eye_y e) EYE_W (y_blk_base mb block)"
  using y_blk_pos[OF assms(2,3)] mb_fits(1,2)[OF assms(2)] eye_lengths(1)[OF assms(1)]
  by (intro blk_fits_rect[where h = EYE_H]) auto

lemma c_blk_fits:
  assumes "wf_eye e" and "mb < MB_COUNT" and "block < 4"
  shows "blk_fits (eye_cb e) CHROMA_W (c_blk_base mb block)" "blk_fits (eye_cr e) CHROMA_W (c_blk_base mb block)"
  using c_blk_pos[OF assms(2,3)] mb_fits(3,4)[OF assms(2)] eye_lengths(2,3)[OF assms(1)]
  by (auto intro!: blk_fits_rect[where h = CHROMA_H])

lemma y_blk_in_mb:
  assumes "mb < MB_COUNT" and "block < 16"
    and "in_rect EYE_W (y_blk_base mb block mod EYE_W) (y_blk_base mb block div EYE_W) 4 4 i"
  shows "y_mb i = mb"
  using assms(3) y_blk_pos[OF assms(1,2)] by (auto simp: y_mb_rect[symmetric] in_rect_def)

lemma c_blk_in_mb:
  assumes "mb < MB_COUNT" and "block < 4"
    and "in_rect CHROMA_W (c_blk_base mb block mod CHROMA_W) (c_blk_base mb block div CHROMA_W) 4 4 i"
  shows "c_mb i = mb"
  using assms(3) c_blk_pos[OF assms(1,2)] by (auto simp: c_mb_rect[symmetric] in_rect_def)

lemma wf_put_mb_blk [simp]: "wf_eye (put_mb_blk mb p e) = wf_eye e"
  by (simp add: wf_eye_def put_mb_blk_def split: prod.splits)

lemma agree_put_mb_blk_outside:
  assumes "wf_eye e" and "mb < MB_COUNT" and "fst p < 24"
  shows "agree (- {mb}) (put_mb_blk mb p e) e"
  using assms y_blk_in_mb[OF assms(2), of "fst p"] c_blk_in_mb[OF assms(2), of "fst p - 16"] c_blk_in_mb[OF assms(2), of "fst p - 20"]
  by (auto simp: agree_def put_mb_blk_def put_blk_def wf_eye_def split: prod.splits)

lemma agree_put_mb_blk:
  assumes "wf_eye d1" and "wf_eye d2" and "agree S d1 d2"
  shows "agree S (put_mb_blk mb p d1) (put_mb_blk mb p d2)"
  using assms by (auto simp: agree_def put_mb_blk_def put_blk_def wf_eye_def split: prod.splits)

abbreviation put_mb_blks :: "nat \<Rightarrow> (nat \<times> blk) list \<Rightarrow> eye_frame \<Rightarrow> eye_frame" where
  "put_mb_blks mb \<equiv> fold (put_mb_blk mb)"

lemma wf_put_mb_blks [simp]: "wf_eye (put_mb_blks mb bs e) = wf_eye e"
  by (induction bs arbitrary: e) auto

lemma agree_put_mb_blks_outside:
  assumes "wf_eye e" and "mb < MB_COUNT" and "\<forall>p\<in>set bs. fst p < 24"
  shows "agree (- {mb}) (put_mb_blks mb bs e) e"
  using assms
proof (induction bs arbitrary: e)
  case (Cons p bs)
  then have "agree (- {mb}) (put_mb_blks mb bs (put_mb_blk mb p e)) (put_mb_blk mb p e)" by simp
  moreover have "agree (- {mb}) (put_mb_blk mb p e) e" using Cons.prems by (intro agree_put_mb_blk_outside) auto
  ultimately show ?case by (auto intro: agree_trans)
qed simp

lemma agree_put_mb_blks:
  assumes "wf_eye d1" and "wf_eye d2" and "agree S d1 d2"
  shows "agree S (put_mb_blks mb bs d1) (put_mb_blks mb bs d2)"
  using assms by (induction bs arbitrary: d1 d2) (auto simp: agree_put_mb_blk)

definition parse_mb_residual :: "reader \<Rightarrow> ((nat \<times> blk) list \<times> reader) result" where
  "parse_mb_residual residual =
     bindR (rd_u32 residual) (\<lambda>(mask, residual).
     if mask AND 0xff000000 \<noteq> 0 then Inl (Invalid ''coded block mask uses reserved bits'')
     else forR (\<lambda>block (bs, residual). bindR (parse_block residual) (\<lambda>(b, residual). Inr (bs @ [(block, b)], residual)))
       (set_bits_of mask) ([], residual))"

lemma mask_blocks:
  assumes "m AND 0xff000000 = (0 :: u32)" and "bit m k"
  shows "k < 24"
proof (rule ccontr)
  assume "\<not> k < 24"
  moreover have "k < 32" using assms(2) bit_imp_le_length by fastforce
  ultimately have k: "k \<in> {24..<32}" by simp
  have "k = 24 \<or> k = 25 \<or> k = 26 \<or> k = 27 \<or> k = 28 \<or> k = 29 \<or> k = 30 \<or> k = 31"
    using k by (simp add: atLeastLessThan_iff) presburger
  then have "bit (0xff000000 :: u32) k" by (elim disjE) simp_all
  with assms(2) have "bit (m AND 0xff000000) k" by (simp add: bit_and_iff)
  with assms(1) show False by simp
qed

lemma parse_blocks_parses:
  assumes "\<forall>k\<in>set ks. k < 24" and "\<forall>p\<in>set bs. fst p < 24 \<and> blk_ok (snd p)"
  shows "parses (\<lambda>bs'. map fst bs' = map fst bs @ ks \<and> (\<forall>p\<in>set bs'. fst p < 24 \<and> blk_ok (snd p))) r
    (forR (\<lambda>block (bs, residual). bindR (parse_block residual) (\<lambda>(b, residual). Inr (bs @ [(block, b)], residual)))
       ks (bs, r))"
  using assms
proof (induction ks arbitrary: bs r)
  case (Cons k ks)
  show ?case
    unfolding forR.simps prod.case bindR_assoc
  proof (rule parses_bind[OF parse_block_parses], unfold prod.case bindR_simps)
    fix b r' assume "blk_ok b"
    with Cons.IH[of "bs @ [(k, b)]" r'] Cons.prems show
      "parses (\<lambda>bs'. map fst bs' = map fst bs @ k # ks \<and> (\<forall>p\<in>set bs'. fst p < 24 \<and> blk_ok (snd p))) r'
        (forR (\<lambda>block (bs, residual). bindR (parse_block residual) (\<lambda>(b, residual). Inr (bs @ [(block, b)], residual)))
          ks (bs @ [(k, b)], r'))" by auto
  qed
qed simp

lemma parse_mb_residual_parses:
  "parses (\<lambda>bs. sorted (map fst bs) \<and> distinct (map fst bs) \<and> (\<forall>p\<in>set bs. fst p < 24 \<and> blk_ok (snd p))) r (parse_mb_residual r)"
  unfolding parse_mb_residual_def
proof (rule parses_bind[OF u32c.parses_get], unfold prod.case, intro parses_if)
  fix m :: u32 and r' assume "\<not> m AND 0xff000000 \<noteq> 0"
  then have "\<forall>k\<in>set (set_bits_of m). k < 24" using mask_blocks by auto
  from parse_blocks_parses[OF this, of "[]" r'] show
    "parses (\<lambda>bs. sorted (map fst bs) \<and> distinct (map fst bs) \<and> (\<forall>p\<in>set bs. fst p < 24 \<and> blk_ok (snd p))) r'
      (forR (\<lambda>block (bs, residual). bindR (parse_block residual) (\<lambda>(b, residual). Inr (bs @ [(block, b)], residual)))
        (set_bits_of m) ([], r'))"
    by (auto simp: parses_def split: sum.splits)
qed simp

lemma apply_mb_block_ok:
  assumes "wf_eye e" and "mb < MB_COUNT" and "block < 24"
  shows "(if block < 16 then
           let off = mb div MB_W * 16 * EYE_W + mb mod MB_W * 16 + (block div 4) * 4 * EYE_W + (block mod 4) * 4 in
           bindR (apply_block (eye_y e) EYE_W off r) (\<lambda>(p, r). Inr (e\<lparr>eye_y := p\<rparr>, r))
         else if block < 20 then
           let cblock = block - 16;
               off = mb div MB_W * 8 * CHROMA_W + mb mod MB_W * 8 + (cblock div 2) * 4 * CHROMA_W + (cblock mod 2) * 4 in
           bindR (apply_block (eye_cb e) CHROMA_W off r) (\<lambda>(p, r). Inr (e\<lparr>eye_cb := p\<rparr>, r))
         else
           let cblock = block - 20;
               off = mb div MB_W * 8 * CHROMA_W + mb mod MB_W * 8 + (cblock div 2) * 4 * CHROMA_W + (cblock mod 2) * 4 in
           bindR (apply_block (eye_cr e) CHROMA_W off r) (\<lambda>(p, r). Inr (e\<lparr>eye_cr := p\<rparr>, r))) =
    bindR (parse_block r) (\<lambda>(b, r). Inr (put_mb_blk mb (block, b) e, r))"
proof -
  note y = apply_block_ok[OF y_blk_fits[OF assms(1,2)], of block r, unfolded y_blk_base_def]
  note cb = apply_block_ok[OF c_blk_fits(1)[OF assms(1,2)], of "block - 16" r, unfolded c_blk_base_def]
  note cr = apply_block_ok[OF c_blk_fits(2)[OF assms(1,2)], of "block - 20" r, unfolded c_blk_base_def]
  have "block < 16 \<or> (\<not> block < 16 \<and> block < 20) \<or> (\<not> block < 16 \<and> \<not> block < 20)" by blast
  then show ?thesis
    using assms(3)
    by (elim disjE conjE)
      (simp_all add: Let_def y cb cr bindR_assoc put_mb_blk_def y_blk_base_def c_blk_base_def split_def)
qed

lemma apply_blocks_ok:
  assumes "wf_eye e" and "mb < MB_COUNT" and "\<forall>k\<in>set ks. k < 24"
    and step: "\<And>block e r. wf_eye e \<Longrightarrow> block < 24 \<Longrightarrow>
      f block (e, r) = bindR (parse_block r) (\<lambda>(b, r). Inr (put_mb_blk mb (block, b) e, r))"
  shows "forR f ks (put_mb_blks mb bs e, r) =
    bindR (forR (\<lambda>block (bs, r). bindR (parse_block r) (\<lambda>(b, r). Inr (bs @ [(block, b)], r))) ks (bs, r))
      (\<lambda>(bs, r). Inr (put_mb_blks mb bs e, r))"
  using assms(3)
proof (induction ks arbitrary: bs r)
  case (Cons k ks)
  have "forR f (k # ks) (put_mb_blks mb bs e, r) =
      bindR (parse_block r) (\<lambda>(b, r). forR f ks (put_mb_blks mb (bs @ [(k, b)]) e, r))"
    using Cons.prems assms(1) by (simp add: step bindR_assoc split_def)
  also have "\<dots> = bindR (parse_block r) (\<lambda>(b, r).
      bindR (forR (\<lambda>block (bs, r). bindR (parse_block r) (\<lambda>(b, r). Inr (bs @ [(block, b)], r))) ks (bs @ [(k, b)], r))
      (\<lambda>(bs, r). Inr (put_mb_blks mb bs e, r)))"
    using Cons by (intro bindR_cong refl) (auto simp del: fold_append)
  finally show ?case by (simp add: bindR_assoc split_def)
qed simp

lemma apply_mb_residual_ok:
  assumes "wf_eye e" and "mb < MB_COUNT"
  shows "apply_mb_residual e mb r = bindR (parse_mb_residual r) (\<lambda>(bs, r). Inr (put_mb_blks mb bs e, r))"
proof -
  define F where "F = (\<lambda>block (e :: eye_frame, r).
         if block < 16 then
           let off = mb div MB_W * 16 * EYE_W + mb mod MB_W * 16 + (block div 4) * 4 * EYE_W + (block mod 4) * 4 in
           bindR (apply_block (eye_y e) EYE_W off r) (\<lambda>(p, r). Inr (e\<lparr>eye_y := p\<rparr>, r))
         else if block < 20 then
           let cblock = block - 16;
               off = mb div MB_W * 8 * CHROMA_W + mb mod MB_W * 8 + (cblock div 2) * 4 * CHROMA_W + (cblock mod 2) * 4 in
           bindR (apply_block (eye_cb e) CHROMA_W off r) (\<lambda>(p, r). Inr (e\<lparr>eye_cb := p\<rparr>, r))
         else
           let cblock = block - 20;
               off = mb div MB_W * 8 * CHROMA_W + mb mod MB_W * 8 + (cblock div 2) * 4 * CHROMA_W + (cblock mod 2) * 4 in
           bindR (apply_block (eye_cr e) CHROMA_W off r) (\<lambda>(p, r). Inr (e\<lparr>eye_cr := p\<rparr>, r)))"
  have step: "F block (e, r) = bindR (parse_block r) (\<lambda>(b, r). Inr (put_mb_blk mb (block, b) e, r))"
    if "wf_eye e" "block < 24" for block e r
    unfolding F_def prod.case by (rule apply_mb_block_ok[OF that(1) assms(2) that(2)])
  have "apply_mb_residual e mb r = bindR (rd_u32 r) (\<lambda>(m, r). if m = 0 then Inr (e, r)
      else if m AND 0xff000000 \<noteq> 0 then Inl (Invalid ''coded block mask uses reserved bits'')
      else forR F (set_bits_of m) (e, r))"
    unfolding apply_mb_residual_def Let_def bit_loop_forR F_def ..
  also have "\<dots> = bindR (parse_mb_residual r) (\<lambda>(bs, r). Inr (put_mb_blks mb bs e, r))"
    unfolding parse_mb_residual_def bindR_assoc
  proof (intro bindR_cong refl, unfold split_paired_all prod.case)
    fix m :: u32 and r'
    have "forR F (set_bits_of m) (e, r') =
        bindR (forR (\<lambda>block (bs, r). bindR (parse_block r) (\<lambda>(b, r). Inr (bs @ [(block, b)], r))) (set_bits_of m) ([], r'))
          (\<lambda>(bs, r). Inr (put_mb_blks mb bs e, r))" if "m AND 0xff000000 = 0"
      using apply_blocks_ok[where f = F and ks = "set_bits_of m" and bs = "[]", OF assms _ step] mask_blocks[OF that] by simp
    then show "(if m = 0 then Inr (e, r')
        else if m AND 0xff000000 \<noteq> 0 then Inl (Invalid ''coded block mask uses reserved bits'')
        else forR F (set_bits_of m) (e, r')) =
      bindR (if m AND 0xff000000 \<noteq> 0 then Inl (Invalid ''coded block mask uses reserved bits'')
         else forR (\<lambda>block (bs, r). bindR (parse_block r) (\<lambda>(b, r). Inr (bs @ [(block, b)], r))) (set_bits_of m) ([], r'))
        (\<lambda>(bs, r). Inr (put_mb_blks mb bs e, r))"
      by auto
  qed
  finally show ?thesis .
qed

section \<open>The residual as a macroblock operation\<close>

definition residual_op :: "reader \<Rightarrow> nat \<Rightarrow> eye_frame \<Rightarrow> (reader \<times> eye_frame) result" where
  "residual_op r mb e = bindR (apply_mb_residual e mb r) (\<lambda>(e, r). Inr (r, e))"

lemma residual_op_eq:
  assumes "wf_eye e" and "mb < MB_COUNT"
  shows "residual_op r mb e = bindR (parse_mb_residual r) (\<lambda>(bs, r). Inr (r, put_mb_blks mb bs e))"
  by (simp add: residual_op_def apply_mb_residual_ok[OF assms] bindR_assoc split_def)

lemma parse_mb_residual_cases:
  obtains (err) e where "parse_mb_residual r = Inl e" "e \<noteq> Fault"
  | (ok) bs r' where "parse_mb_residual r = Inr (bs, r')" "moves r r'"
      "sorted (map fst bs)" "distinct (map fst bs)" "\<forall>p\<in>set bs. fst p < 24 \<and> blk_ok (snd p)"
  using parse_mb_residual_parses[of r]
  by (auto simp: parses_def split: sum.splits)

interpretation residual: mb_op residual_op "\<lambda>_. True"
proof unfold_locales
  fix r mb d assume "mb < MB_COUNT" "wf_eye d"
  then show "residual_op r mb d \<noteq> Inl Fault"
    by (cases rule: parse_mb_residual_cases[of r]) (auto simp: residual_op_eq)
next
  fix r mb d x e assume "mb < MB_COUNT" "wf_eye d" "residual_op r mb d = Inr (x, e)"
  then show "wf_eye e \<and> agree (- {mb}) e d"
    by (cases rule: parse_mb_residual_cases[of r]) (auto simp: residual_op_eq agree_put_mb_blks_outside)
next
  fix r mb d1 d2 assume "mb < MB_COUNT" "wf_eye d1" "wf_eye d2" "agree {mb} d1 d2"
  then show "sim {mb} (residual_op r mb d1) (residual_op r mb d2)"
    by (cases rule: parse_mb_residual_cases[of r]) (auto simp: residual_op_eq agree_put_mb_blks)
qed

end
