(* ===== verification/O3_Fragment.thy ===== *)
theory O3_Fragment
  imports O3_MbResidual
begin

text \<open>
  Fragments of \<open>minidecoder/src/lib.rs\<close>: the macroblock modes
  (\<open>decode_one_mb\<close>), the fragment header checks, the segment map, the mode
  loop of \<open>decode_fragment\<close>, the base-predictor count and the recognition of
  fragments that only repeat the reference. The three streams of a fragment
  travel as a triple of readers (modes, residual, raw).
\<close>

section \<open>Constants\<close>

definition FRAGMENT_HEADER_SIZE :: nat where "FRAGMENT_HEADER_SIZE = 28"

definition MODE_BASE_RES :: byte where "MODE_BASE_RES = 0"
definition MODE_COPY16 :: byte where "MODE_COPY16 = 1"
definition MODE_COPY16_RES :: byte where "MODE_COPY16_RES = 2"
definition MODE_COPY16X8 :: byte where "MODE_COPY16X8 = 3"
definition MODE_COPY16X8_RES :: byte where "MODE_COPY16X8_RES = 4"
definition MODE_COPY8X16 :: byte where "MODE_COPY8X16 = 5"
definition MODE_COPY8X16_RES :: byte where "MODE_COPY8X16_RES = 6"
definition MODE_COPY8X8 :: byte where "MODE_COPY8X8 = 7"
definition MODE_COPY8X8_RES :: byte where "MODE_COPY8X8_RES = 8"
definition MODE_RAW_MB :: byte where "MODE_RAW_MB = 10"

lemmas mode_defs = MODE_BASE_RES_def MODE_COPY16_def MODE_COPY16_RES_def MODE_COPY16X8_def
  MODE_COPY16X8_RES_def MODE_COPY8X16_def MODE_COPY8X16_RES_def MODE_COPY8X8_def
  MODE_COPY8X8_RES_def MODE_RAW_MB_def

datatype base_copy_mode = Prefilled | Lazy mv

type_synonym streams = "reader \<times> reader \<times> reader"

section \<open>One macroblock\<close>

definition decode_one_mb ::
  "byte \<Rightarrow> nat \<Rightarrow> base_copy_mode \<Rightarrow> streams \<Rightarrow> eye_frame \<Rightarrow> eye_frame \<Rightarrow> (streams \<times> eye_frame) result" where
  "decode_one_mb mode mb_index base_copy_mode st reference current =
     (case st of (mode_stream, residual, raw) \<Rightarrow>
      if mode = MODE_BASE_RES then
        bindR (case base_copy_mode of
            Lazy base_mv \<Rightarrow> copy_mb_from_reference current reference mb_index base_mv
          | Prefilled \<Rightarrow> Inr current) (\<lambda>current.
        bindR (apply_mb_residual current mb_index residual) (\<lambda>(current, residual).
        Inr ((mode_stream, residual, raw), current)))
      else if mode = MODE_COPY16 then
        bindR (rd_i8 mode_stream) (\<lambda>(x, mode_stream).
        bindR (rd_i8 mode_stream) (\<lambda>(y, mode_stream).
        let mv = \<lparr>mvX = x, mvY = y\<rparr> in
        bindR (copy_mb_from_reference current reference mb_index mv) (\<lambda>current.
        Inr ((mode_stream, residual, raw), current))))
      else if mode = MODE_COPY16_RES then
        bindR (rd_i8 mode_stream) (\<lambda>(x, mode_stream).
        bindR (rd_i8 mode_stream) (\<lambda>(y, mode_stream).
        let mv = \<lparr>mvX = x, mvY = y\<rparr> in
        bindR (copy_mb_from_reference current reference mb_index mv) (\<lambda>current.
        bindR (apply_mb_residual current mb_index residual) (\<lambda>(current, residual).
        Inr ((mode_stream, residual, raw), current)))))
      else if mode = MODE_COPY16X8 then
        bindR (read_mv mode_stream) (\<lambda>(m0, mode_stream).
        bindR (read_mv mode_stream) (\<lambda>(m1, mode_stream).
        bindR (copy_vbs_from_reference current reference mb_index Split16x8 [m0, m1]) (\<lambda>current.
        Inr ((mode_stream, residual, raw), current))))
      else if mode = MODE_COPY16X8_RES then
        bindR (read_mv mode_stream) (\<lambda>(m0, mode_stream).
        bindR (read_mv mode_stream) (\<lambda>(m1, mode_stream).
        bindR (copy_vbs_from_reference current reference mb_index Split16x8 [m0, m1]) (\<lambda>current.
        bindR (apply_mb_residual current mb_index residual) (\<lambda>(current, residual).
        Inr ((mode_stream, residual, raw), current)))))
      else if mode = MODE_COPY8X16 then
        bindR (read_mv mode_stream) (\<lambda>(m0, mode_stream).
        bindR (read_mv mode_stream) (\<lambda>(m1, mode_stream).
        bindR (copy_vbs_from_reference current reference mb_index Split8x16 [m0, m1]) (\<lambda>current.
        Inr ((mode_stream, residual, raw), current))))
      else if mode = MODE_COPY8X16_RES then
        bindR (read_mv mode_stream) (\<lambda>(m0, mode_stream).
        bindR (read_mv mode_stream) (\<lambda>(m1, mode_stream).
        bindR (copy_vbs_from_reference current reference mb_index Split8x16 [m0, m1]) (\<lambda>current.
        bindR (apply_mb_residual current mb_index residual) (\<lambda>(current, residual).
        Inr ((mode_stream, residual, raw), current)))))
      else if mode = MODE_COPY8X8 then
        bindR (read_mv mode_stream) (\<lambda>(m0, mode_stream).
        bindR (read_mv mode_stream) (\<lambda>(m1, mode_stream).
        bindR (read_mv mode_stream) (\<lambda>(m2, mode_stream).
        bindR (read_mv mode_stream) (\<lambda>(m3, mode_stream).
        bindR (copy_vbs_from_reference current reference mb_index Split8x8 [m0, m1, m2, m3]) (\<lambda>current.
        Inr ((mode_stream, residual, raw), current))))))
      else if mode = MODE_COPY8X8_RES then
        bindR (read_mv mode_stream) (\<lambda>(m0, mode_stream).
        bindR (read_mv mode_stream) (\<lambda>(m1, mode_stream).
        bindR (read_mv mode_stream) (\<lambda>(m2, mode_stream).
        bindR (read_mv mode_stream) (\<lambda>(m3, mode_stream).
        bindR (copy_vbs_from_reference current reference mb_index Split8x8 [m0, m1, m2, m3]) (\<lambda>current.
        bindR (apply_mb_residual current mb_index residual) (\<lambda>(current, residual).
        Inr ((mode_stream, residual, raw), current)))))))
      else if mode = MODE_RAW_MB then
        bindR (rd_take RAW_MB_BYTES raw) (\<lambda>(bytes, raw).
        bindR (write_raw_mb current mb_index bytes) (\<lambda>current.
        Inr ((mode_stream, residual, raw), current)))
      else Inl (Unsupported ''unsupported MB mode''))"

section \<open>The mode loop\<close>

lemma unat_pos: "(w :: 'a::len word) \<noteq> 0 \<Longrightarrow> 0 < unat w"
  using unat_eq_zero[of w] by linarith

text \<open>The \<open>for _ in 0..run\<close> of a mode run: \<open>mb_index\<close> counts along.\<close>

definition decode_mode_run ::
  "byte \<Rightarrow> nat \<Rightarrow> base_copy_mode \<Rightarrow> eye_frame \<Rightarrow> nat \<Rightarrow> streams \<Rightarrow> eye_frame \<Rightarrow> (nat \<times> streams \<times> eye_frame) result" where
  "decode_mode_run mode run base_copy_mode reference mb_index st current =
     forR (\<lambda>_ (mb_index, st, current).
         bindR (decode_one_mb mode mb_index base_copy_mode st reference current) (\<lambda>(st, current).
         Inr (mb_index + 1, st, current)))
       [0..<run] (mb_index, st, current)"

text \<open>
  The \<open>while mb_index < end_mb\<close> loop; a zero opcode leaves it. Its result is
  the state of the loop variables at the exit.
\<close>

function decode_modes_loop ::
  "base_copy_mode \<Rightarrow> eye_frame \<Rightarrow> nat \<Rightarrow> nat \<Rightarrow> streams \<Rightarrow> eye_frame \<Rightarrow> (nat \<times> streams \<times> eye_frame) result" where
  "decode_modes_loop base_copy_mode reference end_mb mb_index (mr, rr, raw) current =
     (if mb_index < end_mb then
        bindR (rd_u8 mr) (\<lambda>(op, mr).
        if op = 0 then Inr (mb_index, (mr, rr, raw), current)
        else if op \<le> 0x7f then
          let run = unat op in
          if mb_index + run > end_mb then Inl (Invalid ''skip run exceeds fragment'')
          else
            bindR (case base_copy_mode of
                Lazy base_mv \<Rightarrow> copy_mb_run_from_reference current reference mb_index run base_mv
              | Prefilled \<Rightarrow> Inr current) (\<lambda>current.
            decode_modes_loop base_copy_mode reference end_mb (mb_index + run) (mr, rr, raw) current)
        else if op AND 0xf0 = 0x80 then
          let mode = op AND 0x0f in
          bindR (decode_one_mb mode mb_index base_copy_mode (mr, rr, raw) reference current) (\<lambda>(st, current).
          decode_modes_loop base_copy_mode reference end_mb (mb_index + 1) st current)
        else if op AND 0xf0 = 0x90 then
          let mode = op AND 0x0f in
          bindR (rd_u8 mr) (\<lambda>(n, mr).
          let run = unat n + 1 in
          if mb_index + run > end_mb then Inl (Invalid ''mode run exceeds fragment'')
          else
            bindR (decode_mode_run mode run base_copy_mode reference mb_index (mr, rr, raw) current)
              (\<lambda>(_, st, current).
            decode_modes_loop base_copy_mode reference end_mb (mb_index + run) st current))
        else Inl (Invalid ''reserved mode opcode''))
      else Inr (mb_index, (mr, rr, raw), current))"
  by pat_completeness auto
termination
  by (relation "measure (\<lambda>(b, ref, end_mb, mb_index, st, cur). end_mb - mb_index)")
    (auto dest!: unat_pos)

declare decode_modes_loop.simps [simp del]

section \<open>Headers and segment maps\<close>

definition validate_fragment_header ::
  "byte \<Rightarrow> byte \<Rightarrow> byte \<Rightarrow> u32 \<Rightarrow> byte \<Rightarrow> byte \<Rightarrow> nat \<Rightarrow> nat \<Rightarrow> unit result" where
  "validate_fragment_header frag_tile_id tile_id flags crc row_start row_count start_mb mb_count =
     (if frag_tile_id \<noteq> tile_id \<or> flags \<noteq> 0 \<or> crc \<noteq> 0 then Inl (Invalid ''invalid fragment header'')
      else if start_mb \<ge> MB_COUNT \<or> mb_count = 0 \<or> start_mb + mb_count > MB_COUNT then
        Inl (Invalid ''fragment MB range out of bounds'')
      else if unat row_start \<ge> MB_H \<or> row_count = 0 \<or> unat row_start + unat row_count > MB_H then
        Inl (Invalid ''fragment row range out of bounds'')
      else if start_mb \<noteq> unat row_start * MB_W \<or> mb_count \<noteq> unat row_count * MB_W then
        Inl (Unsupported ''only contiguous row-band fragments are supported'')
      else Inr ())"

function segment_map_loop :: "byte list \<Rightarrow> byte \<Rightarrow> nat \<Rightarrow> nat \<Rightarrow> nat \<Rightarrow> nat result" where
  "segment_map_loop bytes segment_count mb_count pos described =
     (if described < mb_count then
        let next_pos = pos + 2 in
        if next_pos > length bytes then Inl Eof
        else
          bindR (load_u8 bytes pos) (\<lambda>b. let run = unat b + 1 in
          bindR (load_u8 bytes (pos + 1)) (\<lambda>segment_id.
          let pos = next_pos in
          if segment_id \<ge> segment_count then Inl (Invalid ''segment id out of range'')
          else
            let described = described + run in
            if described > mb_count then Inl (Invalid ''segment map exceeds fragment'')
            else segment_map_loop bytes segment_count mb_count pos described))
      else Inr pos)"
  by pat_completeness auto
termination
  by (relation "measure (\<lambda>(bytes, sc, mb_count, pos, described). mb_count - described)") auto

declare segment_map_loop.simps [simp del]

definition validate_segment_map :: "byte list \<Rightarrow> byte \<Rightarrow> nat \<Rightarrow> unit result" where
  "validate_segment_map bytes segment_count mb_count =
     (if segment_count = 1 then
        (if bytes \<noteq> [] then Inl (Invalid ''segment map present when segment_count is 1'') else Inr ())
      else
        bindR (segment_map_loop bytes segment_count mb_count 0 0) (\<lambda>pos.
        if pos \<noteq> length bytes then Inl (Invalid ''segment map was not fully consumed'') else Inr ()))"

section \<open>A fragment\<close>

definition decode_fragment ::
  "reader \<Rightarrow> byte \<Rightarrow> byte \<Rightarrow> base_copy_mode \<Rightarrow> eye_frame \<Rightarrow> eye_frame \<Rightarrow> (reader \<times> eye_frame) result" where
  "decode_fragment r tile_id segment_count base_copy_mode reference current =
     (if remaining r < FRAGMENT_HEADER_SIZE then Inl Eof
      else
        let header_start = rd_pos r;
            r = r\<lparr>rd_pos := rd_pos r + FRAGMENT_HEADER_SIZE\<rparr>;
            hd8 = (\<lambda>k. load_u8 (rd_bytes r) (header_start + k));
            hd16 = (\<lambda>k. load_u16_le (rd_bytes r) (header_start + k));
            hd32 = (\<lambda>k. load_u32_le (rd_bytes r) (header_start + k)) in
        bindR (hd8 0) (\<lambda>frag_tile_id.
        bindR (hd8 1) (\<lambda>row_start.
        bindR (hd8 2) (\<lambda>row_count.
        bindR (hd8 3) (\<lambda>flags.
        bindR (hd16 4) (\<lambda>start_mb. let start_mb = unat start_mb in
        bindR (hd16 6) (\<lambda>mb_count. let mb_count = unat mb_count in
        bindR (hd32 8) (\<lambda>segment_map_size.
        bindR (hd32 12) (\<lambda>mode_size.
        bindR (hd32 16) (\<lambda>residual_size.
        bindR (hd32 20) (\<lambda>raw_size.
        bindR (hd32 24) (\<lambda>crc.
        bindR (validate_fragment_header frag_tile_id tile_id flags crc row_start row_count start_mb mb_count) (\<lambda>_.
        bindR (rd_take (unat segment_map_size) r) (\<lambda>(segment_map, r).
        bindR (validate_segment_map segment_map segment_count mb_count) (\<lambda>_.
        bindR (rd_take (unat mode_size) r) (\<lambda>(mode_stream, r).
        bindR (rd_take (unat residual_size) r) (\<lambda>(residual_stream, r).
        bindR (rd_take (unat raw_size) r) (\<lambda>(raw_stream, r).
        let mr = reader_new mode_stream; rr = reader_new residual_stream; raw = reader_new raw_stream;
            end_mb = start_mb + mb_count in
        bindR (decode_modes_loop base_copy_mode reference end_mb start_mb (mr, rr, raw) current)
          (\<lambda>(mb_index, (mr, rr, raw), current).
        if mb_index \<noteq> end_mb then Inl (Invalid ''fragment ended before all MBs were described'')
        else
          let mr = consume_optional_trailing_zero mr in
          if remaining mr \<noteq> 0 \<or> remaining rr \<noteq> 0 \<or> remaining raw \<noteq> 0 then
            Inl (Invalid ''fragment streams were not fully consumed'')
          else Inr (r, current))))))))))))))))))))"

section \<open>Counting base-predicted macroblocks\<close>

definition skip_mode_payload :: "byte \<Rightarrow> reader \<Rightarrow> reader result" where
  "skip_mode_payload mode r =
     (if mode = MODE_BASE_RES \<or> mode = MODE_RAW_MB then Inr r
      else if mode = MODE_COPY16 \<or> mode = MODE_COPY16_RES then rd_skip 2 r
      else if mode = MODE_COPY16X8 \<or> mode = MODE_COPY16X8_RES \<or> mode = MODE_COPY8X16 \<or> mode = MODE_COPY8X16_RES then
        rd_skip 4 r
      else if mode = MODE_COPY8X8 \<or> mode = MODE_COPY8X8_RES then rd_skip 8 r
      else Inl (Unsupported ''unsupported MB mode''))"

text \<open>
  The loop of \<open>count_base_predictor_mbs_in_modes\<close>; \<open>Inl\<close> inside the result is
  its early \<open>return Ok(base_mbs)\<close> above the limit.
\<close>

function count_base_loop :: "nat \<Rightarrow> nat \<Rightarrow> nat \<Rightarrow> nat \<Rightarrow> reader \<Rightarrow> (nat + nat \<times> nat \<times> reader) result" where
  "count_base_loop limit end_mb mb_index base_mbs r =
     (if mb_index < end_mb then
        bindR (rd_u8 r) (\<lambda>(op, r).
        if op = 0 then Inr (Inr (mb_index, base_mbs, r))
        else if op \<le> 0x7f then
          let run = unat op in
          if mb_index + run > end_mb then Inl (Invalid ''skip run exceeds fragment'')
          else
            let base_mbs = base_mbs + run in
            if base_mbs > limit then Inr (Inl base_mbs)
            else count_base_loop limit end_mb (mb_index + run) base_mbs r
        else if op AND 0xf0 = 0x80 then
          let mode = op AND 0x0f in
          bindR (skip_mode_payload mode r) (\<lambda>r.
          if mode = MODE_BASE_RES then
            let base_mbs = base_mbs + 1 in
            if base_mbs > limit then Inr (Inl base_mbs)
            else count_base_loop limit end_mb (mb_index + 1) base_mbs r
          else count_base_loop limit end_mb (mb_index + 1) base_mbs r)
        else if op AND 0xf0 = 0x90 then
          let mode = op AND 0x0f in
          bindR (rd_u8 r) (\<lambda>(n, r).
          let run = unat n + 1 in
          if mb_index + run > end_mb then Inl (Invalid ''mode run exceeds fragment'')
          else
            bindR (forR (\<lambda>_. skip_mode_payload mode) [0..<run] r) (\<lambda>r.
            if mode = MODE_BASE_RES then
              let base_mbs = base_mbs + run in
              if base_mbs > limit then Inr (Inl base_mbs)
              else count_base_loop limit end_mb (mb_index + run) base_mbs r
            else count_base_loop limit end_mb (mb_index + run) base_mbs r))
        else Inl (Invalid ''reserved mode opcode''))
      else Inr (Inr (mb_index, base_mbs, r)))"
  by pat_completeness auto
termination
  by (relation "measure (\<lambda>(limit, end_mb, mb_index, base, r). end_mb - mb_index)")
    (auto dest!: unat_pos)

declare count_base_loop.simps [simp del]

definition count_base_predictor_mbs_in_modes :: "byte list \<Rightarrow> nat \<Rightarrow> nat \<Rightarrow> nat \<Rightarrow> nat result" where
  "count_base_predictor_mbs_in_modes mode_stream start_mb mb_count limit =
     (let r = reader_new mode_stream; end_mb = start_mb + mb_count in
      bindR (count_base_loop limit end_mb start_mb 0 r) (\<lambda>res. case res of
        Inl base_mbs \<Rightarrow> Inr base_mbs
      | Inr (mb_index, base_mbs, r) \<Rightarrow>
          if mb_index \<noteq> end_mb then Inl (Invalid ''fragment ended before all MBs were described'')
          else
            let r = consume_optional_trailing_zero r in
            if remaining r \<noteq> 0 then Inl (Invalid ''mode stream was not fully consumed'')
            else Inr base_mbs))"

section \<open>Recognising repeated references\<close>

function all_skip_loop :: "nat \<Rightarrow> nat \<Rightarrow> reader \<Rightarrow> reader option" where
  "all_skip_loop mb_count described r =
     (if described < mb_count then
        case rd_u8 r of
          Inl _ \<Rightarrow> None
        | Inr (op, r) \<Rightarrow>
            if op = 0 \<or> op > 0x7f then None
            else
              let described = described + unat op in
              if described > mb_count then None else all_skip_loop mb_count described r
      else Some r)"
  by pat_completeness auto
termination
  by (relation "measure (\<lambda>(mb_count, described, r). mb_count - described)") (auto dest!: unat_pos)

declare all_skip_loop.simps [simp del]

definition mode_stream_is_all_skip :: "byte list \<Rightarrow> nat \<Rightarrow> bool" where
  "mode_stream_is_all_skip mode_stream mb_count =
     (case all_skip_loop mb_count 0 (reader_new mode_stream) of
        None \<Rightarrow> False
      | Some r \<Rightarrow> remaining (consume_optional_trailing_zero r) = 0)"

text \<open>\<open>.ok()?\<close> turns every error into \<open>None\<close>; here \<open>None\<close> is the outer \<open>Inl\<close>.\<close>

definition fragment_payload_reuses_reference :: "reader \<Rightarrow> byte \<Rightarrow> byte \<Rightarrow> (bool \<times> reader) result" where
  "fragment_payload_reuses_reference r tile_id segment_count =
     (if remaining r < FRAGMENT_HEADER_SIZE then Inl Eof
      else
        bindR (rd_u8 r) (\<lambda>(frag_tile_id, r).
        bindR (rd_u8 r) (\<lambda>(row_start, r).
        bindR (rd_u8 r) (\<lambda>(row_count, r).
        bindR (rd_u8 r) (\<lambda>(flags, r).
        bindR (rd_u16 r) (\<lambda>(start_mb, r). let start_mb = unat start_mb in
        bindR (rd_u16 r) (\<lambda>(mb_count, r). let mb_count = unat mb_count in
        bindR (rd_u32 r) (\<lambda>(segment_map_size, r).
        bindR (rd_u32 r) (\<lambda>(mode_size, r).
        bindR (rd_u32 r) (\<lambda>(residual_size, r).
        bindR (rd_u32 r) (\<lambda>(raw_size, r).
        bindR (rd_u32 r) (\<lambda>(crc, r).
        if residual_size \<noteq> 0 \<or> raw_size \<noteq> 0 then Inr (False, r)
        else
          bindR (validate_fragment_header frag_tile_id tile_id flags crc row_start row_count start_mb mb_count) (\<lambda>_.
          bindR (rd_take (unat segment_map_size) r) (\<lambda>(segment_map, r).
          bindR (validate_segment_map segment_map segment_count mb_count) (\<lambda>_.
          bindR (rd_take (unat mode_size) r) (\<lambda>(mode_stream, r).
          bindR (rd_take (unat residual_size) r) (\<lambda>(residual_stream, r).
          bindR (rd_take (unat raw_size) r) (\<lambda>(raw_stream, r).
          Inr (residual_stream = [] \<and> raw_stream = [] \<and> mode_stream_is_all_skip mode_stream mb_count, r)))))))))))))))))))"

text \<open>The \<open>for\<close> loop with its early \<open>return false\<close>, then the check that nothing is left.\<close>

primrec tile_reuse_loop :: "nat \<Rightarrow> byte \<Rightarrow> byte \<Rightarrow> reader \<Rightarrow> bool" where
  "tile_reuse_loop 0 tile_id segment_count r = (remaining r = 0)"
| "tile_reuse_loop (Suc n) tile_id segment_count r =
     (case fragment_payload_reuses_reference r tile_id segment_count of
        Inl _ \<Rightarrow> False
      | Inr (identity, r) \<Rightarrow> if \<not> identity then False else tile_reuse_loop n tile_id segment_count r)"

definition tile_payload_reuses_reference :: "byte list \<Rightarrow> byte \<Rightarrow> byte \<Rightarrow> byte \<Rightarrow> bool" where
  "tile_payload_reuses_reference payload tile_id segment_count fragment_count =
     tile_reuse_loop (unat fragment_count) tile_id segment_count (reader_new payload)"

end
