(* ===== verification/O3_Parse.thy ===== *)
theory O3_Parse
  imports O3_Fragment
begin

text \<open>
  The decoder as a parse followed by an application. \<open>parse_one_mb\<close> and
  \<open>parse_modes\<close> read the streams into a list of macroblock descriptions
  (\<open>mb_desc\<close>: a prediction and the coded blocks) without looking at any frame;
  \<open>put_mb\<close> and \<open>put_mbs\<close> apply them. \<open>decode_one_mb\<close> and the mode loop are shown
  to be exactly that, so what holds of the pure application (which macroblocks
  change, what the result depends on) holds of the decoder.
\<close>

section \<open>Macroblock descriptions\<close>

datatype mb_pred = BaseP | CopyP mv | VbsP vbs_shape "mv list" | RawP "byte list"

type_synonym mb_desc = "mb_pred \<times> (nat \<times> blk) list"

primrec pred_ok :: "mb_pred \<Rightarrow> bool" where
  "pred_ok BaseP \<longleftrightarrow> True"
| "pred_ok (CopyP mv) \<longleftrightarrow> True"
| "pred_ok (VbsP shape mvs) \<longleftrightarrow> length mvs = vbs_count shape"
| "pred_ok (RawP bytes) \<longleftrightarrow> length bytes = 384"

definition desc_ok :: "mb_desc \<Rightarrow> bool" where
  "desc_ok d \<longleftrightarrow> pred_ok (fst d) \<and> (\<forall>p\<in>set (snd d). fst p < 24 \<and> blk_ok (snd p))"

primrec put_pred :: "base_copy_mode \<Rightarrow> eye_frame \<Rightarrow> nat \<Rightarrow> mb_pred \<Rightarrow> eye_frame \<Rightarrow> eye_frame" where
  "put_pred base reference mb BaseP e =
     (case base of Prefilled \<Rightarrow> e | Lazy mv \<Rightarrow> mc_region {mb} mv reference e)"
| "put_pred base reference mb (CopyP mv) e = mc_region {mb} mv reference e"
| "put_pred base reference mb (VbsP shape mvs) e = vbs_eye shape mvs reference mb e"
| "put_pred base reference mb (RawP bytes) e = raw_eye mb bytes e"

definition put_mb :: "base_copy_mode \<Rightarrow> eye_frame \<Rightarrow> nat \<Rightarrow> mb_desc \<Rightarrow> eye_frame \<Rightarrow> eye_frame" where
  "put_mb base reference mb d e = put_mb_blks mb (snd d) (put_pred base reference mb (fst d) e)"

primrec put_mbs :: "base_copy_mode \<Rightarrow> eye_frame \<Rightarrow> nat \<Rightarrow> mb_desc list \<Rightarrow> eye_frame \<Rightarrow> eye_frame" where
  "put_mbs base reference mb [] e = e"
| "put_mbs base reference mb (d # ds) e = put_mbs base reference (Suc mb) ds (put_mb base reference mb d e)"

lemma put_mbs_append:
  "put_mbs base reference mb (ds @ ds') e = put_mbs base reference (mb + length ds) ds' (put_mbs base reference mb ds e)"
  by (induction ds arbitrary: mb e) auto

section \<open>Laws of the application\<close>

lemma wf_put_pred [simp]: "wf_eye (put_pred base reference mb p e) = wf_eye e"
  by (cases p) (auto split: base_copy_mode.split)

lemma wf_put_mb [simp]: "wf_eye (put_mb base reference mb d e) = wf_eye e"
  by (simp add: put_mb_def)

lemma wf_put_mbs [simp]: "wf_eye (put_mbs base reference mb ds e) = wf_eye e"
  by (induction ds arbitrary: mb e) auto

lemma agree_put_pred_outside: "wf_eye e \<Longrightarrow> agree (- {mb}) (put_pred base reference mb p e) e"
  by (cases p) (auto simp: agree_mc_region_outside agree_vbs_eye_outside agree_raw_eye_outside split: base_copy_mode.split)

lemma agree_put_mb_outside:
  assumes "wf_eye e" and "mb < MB_COUNT" and "desc_ok d"
  shows "agree (- {mb}) (put_mb base reference mb d e) e"
proof -
  have "agree (- {mb}) (put_mb base reference mb d e) (put_pred base reference mb (fst d) e)"
    using assms by (auto simp: put_mb_def desc_ok_def intro!: agree_put_mb_blks_outside)
  then show ?thesis using agree_put_pred_outside[OF assms(1)] by (rule agree_trans)
qed

lemma agree_put_mbs_outside:
  assumes "wf_eye e" and "mb + length ds \<le> MB_COUNT" and "\<forall>d\<in>set ds. desc_ok d"
  shows "agree (- {mb..<mb + length ds}) (put_mbs base reference mb ds e) e"
  using assms
proof (induction ds arbitrary: mb e)
  case (Cons d ds)
  let ?e = "put_mb base reference mb d e"
  have "agree (- {Suc mb..<Suc mb + length ds}) (put_mbs base reference (Suc mb) ds ?e) ?e"
    using Cons.prems by (intro Cons.IH) auto
  then have "agree (- {mb..<mb + length (d # ds)}) (put_mbs base reference (Suc mb) ds ?e) ?e"
    by (rule agree_mono) auto
  moreover have "agree (- {mb}) ?e e" using Cons.prems by (intro agree_put_mb_outside) auto
  then have "agree (- {mb..<mb + length (d # ds)}) ?e e" by (rule agree_mono) auto
  ultimately show ?case by (auto intro: agree_trans)
qed simp

text \<open>
  A prediction that copies replaces its macroblock, whatever the frame held. A
  prefilled base prediction keeps what the frame holds there.
\<close>

lemma mc_region_self: "agree {mb} (mc_region {mb} mv reference e) (mc_region UNIV mv reference e')"
  if "wf_eye e" "wf_eye e'"
  using agree_mc_region[OF that, of "{mb}" UNIV] by simp

lemma put_pred_replaces:
  assumes "wf_eye d1" and "wf_eye d2" and "pred_ok p" and "mb < MB_COUNT" and "p \<noteq> BaseP"
  shows "agree {mb} (put_pred base1 reference mb p d1) (put_pred base2 reference mb p d2)"
proof (cases p)
  case (RawP bytes)
  with assms show ?thesis by (simp add: agree_iff_raw_bytes raw_bytes_raw_eye)
qed (use assms agree_mc_region[OF assms(1,2), of "{mb}" "{mb}"] in \<open>auto intro: agree_vbs_eye\<close>)

definition base_matches :: "base_copy_mode \<Rightarrow> eye_frame \<Rightarrow> nat \<Rightarrow> base_copy_mode \<Rightarrow> eye_frame \<Rightarrow> eye_frame \<Rightarrow> bool" where
  "base_matches base1 d1 mb base2 d2 reference \<longleftrightarrow>
     agree {mb} (put_pred base1 reference mb BaseP d1) (put_pred base2 reference mb BaseP d2)"

lemma put_mb_agree:
  assumes "wf_eye d1" and "wf_eye d2" and "desc_ok d" and "mb < MB_COUNT"
    and "base_matches base1 d1 mb base2 d2 reference"
  shows "agree {mb} (put_mb base1 reference mb d d1) (put_mb base2 reference mb d d2)"
proof -
  have "agree {mb} (put_pred base1 reference mb (fst d) d1) (put_pred base2 reference mb (fst d) d2)"
    using assms put_pred_replaces[OF assms(1,2) _ assms(4)]
    by (cases "fst d = BaseP") (auto simp: base_matches_def desc_ok_def)
  then show ?thesis using assms(1,2) by (auto simp: put_mb_def intro: agree_put_mb_blks)
qed

lemma base_matches_outside:
  assumes "base_matches base1 d1 mb base2 d2 reference" and "wf_eye d1" "wf_eye d2" "wf_eye d1'" "wf_eye d2'"
    and "agree {mb} d1' d1" and "agree {mb} d2' d2"
  shows "base_matches base1 d1' mb base2 d2' reference"
proof -
  have m: "agree {mb} (put_pred base reference mb BaseP d') (put_pred base reference mb BaseP d)"
    if "wf_eye d" "wf_eye d'" "agree {mb} d' d" for base d d'
    using that agree_mc_region[OF that(2,1), of "{mb}" "{mb}"] by (auto split: base_copy_mode.split)
  show ?thesis
    using m[OF assms(2,4,6), of base1] m[OF assms(3,5,7), of base2] assms(1)
    unfolding base_matches_def by (blast intro: agree_trans agree_sym)
qed

lemma put_mbs_agree:
  assumes "wf_eye d1" and "wf_eye d2" and "\<forall>d\<in>set ds. desc_ok d" and "mb + length ds \<le> MB_COUNT"
    and "\<forall>m\<in>{mb..<mb + length ds}. base_matches base1 d1 m base2 d2 reference"
  shows "agree {mb..<mb + length ds} (put_mbs base1 reference mb ds d1) (put_mbs base2 reference mb ds d2)"
  using assms
proof (induction ds arbitrary: mb d1 d2)
  case (Cons d ds)
  let ?e1 = "put_mb base1 reference mb d d1" and ?e2 = "put_mb base2 reference mb d d2"
  have mb: "mb < MB_COUNT" and d: "desc_ok d" using Cons.prems by auto
  note out1 = agree_put_mb_outside[OF Cons.prems(1) mb d, of base1 reference]
    and out2 = agree_put_mb_outside[OF Cons.prems(2) mb d, of base2 reference]
  have here: "agree {mb} ?e1 ?e2"
    using Cons.prems(5) by (intro put_mb_agree Cons.prems(1,2) mb d) auto
  have "agree {Suc mb..<Suc mb + length ds} (put_mbs base1 reference (Suc mb) ds ?e1) (put_mbs base2 reference (Suc mb) ds ?e2)"
  proof (intro Cons.IH ballI)
    fix m assume m: "m \<in> {Suc mb..<Suc mb + length ds}"
    then have s: "{m} \<subseteq> - {mb}" and b: "base_matches base1 d1 m base2 d2 reference" using Cons.prems(5) by auto
    show "base_matches base1 ?e1 m base2 ?e2 reference"
      using base_matches_outside[OF b Cons.prems(1,2) _ _ agree_mono[OF out1 s] agree_mono[OF out2 s]] Cons.prems(1,2)
      by simp
  qed (use Cons.prems in auto)
  moreover have "agree {mb} (put_mbs base1 reference (Suc mb) ds ?e1) (put_mbs base2 reference (Suc mb) ds ?e2)"
  proof -
    have o: "agree {mb} (put_mbs base reference (Suc mb) ds e) e" if "wf_eye e" for base e
    proof -
      have "agree (- {Suc mb..<Suc mb + length ds}) (put_mbs base reference (Suc mb) ds e) e"
        using Cons.prems that by (intro agree_put_mbs_outside) auto
      then show ?thesis by (rule agree_mono) auto
    qed
    show ?thesis
      using o[of ?e1 base1] o[of ?e2 base2] here Cons.prems(1,2) by (auto intro: agree_trans agree_sym)
  qed
  moreover have "{mb..<mb + length (d # ds)} = insert mb {Suc mb..<Suc mb + length ds}" by auto
  ultimately show ?case using agree_insert[of mb "{Suc mb..<Suc mb + length ds}"] by simp
qed simp

section \<open>Parsing a macroblock\<close>

definition has_residual :: "byte \<Rightarrow> bool" where
  "has_residual mode \<longleftrightarrow> mode = MODE_BASE_RES \<or> mode = MODE_COPY16_RES \<or> mode = MODE_COPY16X8_RES \<or>
     mode = MODE_COPY8X16_RES \<or> mode = MODE_COPY8X8_RES"

definition parse_pred :: "byte \<Rightarrow> reader \<Rightarrow> reader \<Rightarrow> (mb_pred \<times> reader \<times> reader) result" where
  "parse_pred mode ms raw =
     (if mode = MODE_BASE_RES then Inr (BaseP, ms, raw)
      else if mode = MODE_COPY16 \<or> mode = MODE_COPY16_RES then
        bindR (read_mv ms) (\<lambda>(m, ms). Inr (CopyP m, ms, raw))
      else if mode = MODE_COPY16X8 \<or> mode = MODE_COPY16X8_RES then
        bindR (read_mv ms) (\<lambda>(m0, ms). bindR (read_mv ms) (\<lambda>(m1, ms). Inr (VbsP Split16x8 [m0, m1], ms, raw)))
      else if mode = MODE_COPY8X16 \<or> mode = MODE_COPY8X16_RES then
        bindR (read_mv ms) (\<lambda>(m0, ms). bindR (read_mv ms) (\<lambda>(m1, ms). Inr (VbsP Split8x16 [m0, m1], ms, raw)))
      else if mode = MODE_COPY8X8 \<or> mode = MODE_COPY8X8_RES then
        bindR (read_mv ms) (\<lambda>(m0, ms). bindR (read_mv ms) (\<lambda>(m1, ms).
        bindR (read_mv ms) (\<lambda>(m2, ms). bindR (read_mv ms) (\<lambda>(m3, ms).
        Inr (VbsP Split8x8 [m0, m1, m2, m3], ms, raw)))))
      else if mode = MODE_RAW_MB then
        bindR (rd_take RAW_MB_BYTES raw) (\<lambda>(bytes, raw). Inr (RawP bytes, ms, raw))
      else Inl (Unsupported ''unsupported MB mode''))"

definition parse_one_mb :: "byte \<Rightarrow> streams \<Rightarrow> (mb_desc \<times> streams) result" where
  "parse_one_mb mode st = (case st of (ms, rr, raw) \<Rightarrow>
     bindR (parse_pred mode ms raw) (\<lambda>(p, ms, raw).
     bindR (if has_residual mode then parse_mb_residual rr else Inr ([], rr)) (\<lambda>(bs, rr).
     Inr ((p, bs), ms, rr, raw))))"

lemma read_mv_unfold:
  "bindR (rd_i8 r) (\<lambda>(x, r). bindR (rd_i8 r) (\<lambda>(y, r). k \<lparr>mvX = x, mvY = y\<rparr> r)) = bindR (read_mv r) (\<lambda>(m, r). k m r)"
  by (simp add: read_mv_def bindR_assoc split_def)

lemma decode_one_mb_ok:
  assumes "wf_eye reference" and "wf_eye e" and "mb < MB_COUNT"
  shows "decode_one_mb mode mb base st reference e =
    bindR (parse_one_mb mode st) (\<lambda>(d, st). Inr (st, put_mb base reference mb d e))"
proof -
  obtain ms rr raw where st: "st = (ms, rr, raw)" by (cases st)
  have copy: "copy_mb_from_reference e reference mb m = Inr (mc_region {mb} m reference e)" for m
    by (rule copy_mb_from_reference_ok[OF assms(2,1,3)])
  have vbs: "copy_vbs_from_reference e reference mb shape mvs = Inr (vbs_eye shape mvs reference mb e)"
    if "length mvs = vbs_count shape" for shape mvs
    using that by (intro copy_vbs_from_reference_ok assms) auto
  have res: "apply_mb_residual e' mb r = bindR (parse_mb_residual r) (\<lambda>(bs, r). Inr (put_mb_blks mb bs e', r))"
    if "wf_eye e'" for e' r by (rule apply_mb_residual_ok[OF that assms(3)])
  have raw_ok: "rd_take RAW_MB_BYTES raw = Inr (bytes, raw') \<Longrightarrow> write_raw_mb e mb bytes = Inr (raw_eye mb bytes e)" for bytes raw'
    by (rule write_raw_mb_ok[OF assms(2,3)]) (auto simp: rd_take_rest RAW_MB_BYTES_def split: if_splits)
  note defs = st decode_one_mb_def parse_one_mb_def parse_pred_def has_residual_def mode_defs read_mv_unfold
    bindR_assoc split_def put_mb_def
  consider "mode = 0" | "mode = 1" | "mode = 2" | "mode = 3" | "mode = 4" | "mode = 5" | "mode = 6" | "mode = 7"
    | "mode = 8" | "mode = 10" | "mode \<notin> {0, 1, 2, 3, 4, 5, 6, 7, 8, 10}" by auto
  then show ?thesis
  proof cases
    case 1
    then show ?thesis using assms by (simp add: defs copy res split: base_copy_mode.split)
  next
    case 2
    then show ?thesis using assms by (simp add: defs read_mv_def copy)
  next
    case 3
    then show ?thesis using assms by (simp add: defs read_mv_def copy res)
  next
    case 10
    then show ?thesis
      by (cases "rd_take RAW_MB_BYTES raw") (auto simp: defs raw_ok[unfolded RAW_MB_BYTES_def] RAW_MB_BYTES_def)
  qed (use assms in \<open>simp_all add: defs copy vbs res Let_def\<close>)
qed

section \<open>Parsing a mode stream\<close>

definition parse_run :: "byte \<Rightarrow> nat \<Rightarrow> streams \<Rightarrow> (mb_desc list \<times> streams) result" where
  "parse_run mode run st =
     forR (\<lambda>_ (ds, st). bindR (parse_one_mb mode st) (\<lambda>(d, st). Inr (ds @ [d], st))) [0..<run] ([], st)"

function parse_modes :: "nat \<Rightarrow> streams \<Rightarrow> (mb_desc list \<times> streams) result" where
  "parse_modes n (mr, rr, raw) =
     (if 0 < n then
        bindR (rd_u8 mr) (\<lambda>(op, mr).
        if op = 0 then Inr ([], mr, rr, raw)
        else if op \<le> 0x7f then
          (if unat op > n then Inl (Invalid ''skip run exceeds fragment'')
           else bindR (parse_modes (n - unat op) (mr, rr, raw)) (\<lambda>(ds, st).
             Inr (replicate (unat op) (BaseP, []) @ ds, st)))
        else if op AND 0xf0 = 0x80 then
          bindR (parse_one_mb (op AND 0x0f) (mr, rr, raw)) (\<lambda>(d, st).
          bindR (parse_modes (n - 1) st) (\<lambda>(ds, st). Inr (d # ds, st)))
        else if op AND 0xf0 = 0x90 then
          bindR (rd_u8 mr) (\<lambda>(k, mr).
          if unat k + 1 > n then Inl (Invalid ''mode run exceeds fragment'')
          else bindR (parse_run (op AND 0x0f) (unat k + 1) (mr, rr, raw)) (\<lambda>(ds, st).
            bindR (parse_modes (n - (unat k + 1)) st) (\<lambda>(ds', st). Inr (ds @ ds', st))))
        else Inl (Invalid ''reserved mode opcode''))
      else Inr ([], mr, rr, raw))"
  by pat_completeness auto
termination
  by (relation "measure fst") (auto dest!: unat_pos)

declare parse_modes.simps [simp del]

lemma decode_mode_run_ok:
  assumes "wf_eye reference" and "wf_eye e" and "mb + run \<le> MB_COUNT"
  shows "decode_mode_run mode run base reference mb st e =
    bindR (parse_run mode run st) (\<lambda>(ds, st). Inr (mb + run, st, put_mbs base reference mb ds e)) \<and>
    (\<forall>ds st'. parse_run mode run st = Inr (ds, st') \<longrightarrow> length ds = run)"
  using assms(3)
proof (induction run)
  case 0
  then show ?case by (simp add: decode_mode_run_def parse_run_def)
next
  case (Suc run)
  from Suc have IH: "decode_mode_run mode run base reference mb st e =
      bindR (parse_run mode run st) (\<lambda>(ds, st). Inr (mb + run, st, put_mbs base reference mb ds e))"
    and len: "\<And>ds st'. parse_run mode run st = Inr (ds, st') \<Longrightarrow> length ds = run" by auto
  have d: "decode_mode_run mode (Suc run) base reference mb st e =
      bindR (decode_mode_run mode run base reference mb st e) (\<lambda>(mb, st, e).
      bindR (decode_one_mb mode mb base st reference e) (\<lambda>(st, e). Inr (mb + 1, st, e)))"
    by (simp add: decode_mode_run_def forR_append split_def)
  have p: "parse_run mode (Suc run) st = bindR (parse_run mode run st) (\<lambda>(ds, st).
      bindR (parse_one_mb mode st) (\<lambda>(d, st). Inr (ds @ [d], st)))"
    by (simp add: parse_run_def forR_append split_def)
  show ?case
  proof (cases "parse_run mode run st")
    case (Inr q)
    obtain ds st' where q: "q = (ds, st')" by (cases q)
    have "decode_one_mb mode (mb + run) base st' reference (put_mbs base reference mb ds e) =
        bindR (parse_one_mb mode st') (\<lambda>(d, st). Inr (st, put_mb base reference (mb + run) d (put_mbs base reference mb ds e)))"
      using assms Suc.prems by (intro decode_one_mb_ok) auto
    then show ?thesis
      using len[of ds st'] by (auto simp: d IH p Inr q bindR_assoc split_def put_mbs_append bindR_eq_Inr_iff)
  qed (auto simp: d IH p)
qed

lemma put_mbs_skips:
  "put_mbs base reference mb (replicate n (BaseP, [])) e =
    (case base of Prefilled \<Rightarrow> e | Lazy mv \<Rightarrow> mc_region {mb..<mb + n} mv reference e)"
proof (cases base)
  case Prefilled
  then show ?thesis by (induction n arbitrary: mb e) (auto simp: put_mb_def)
next
  case (Lazy mv)
  have "put_mbs base reference mb (replicate n (BaseP, [])) e = mc_region {mb..<mb + n} mv reference e"
  proof (induction n arbitrary: mb e)
    case (Suc n)
    have "{Suc mb..<Suc mb + n} = {Suc mb..<mb + Suc n}" "insert mb {Suc mb..<mb + Suc n} = {mb..<mb + Suc n}" by auto
    then show ?case using Suc by (simp add: put_mb_def Lazy mc_region_Un)
  qed simp
  with Lazy show ?thesis by simp
qed

lemma skip_run_ok:
  assumes "wf_eye reference" and "wf_eye e" and "mb + run \<le> MB_COUNT"
  shows "(case base of Lazy base_mv \<Rightarrow> copy_mb_run_from_reference e reference mb run base_mv | Prefilled \<Rightarrow> Inr e) =
    Inr (put_mbs base reference mb (replicate run (BaseP, [])) e)"
  using assms by (auto simp: put_mbs_skips copy_mb_run_from_reference_ok split: base_copy_mode.split)

lemma decode_modes_loop_ok:
  assumes "wf_eye reference" and "wf_eye e" and "end_mb \<le> MB_COUNT" and "mb \<le> end_mb"
  shows "decode_modes_loop base reference end_mb mb st e =
    bindR (parse_modes (end_mb - mb) st) (\<lambda>(ds, st). Inr (mb + length ds, st, put_mbs base reference mb ds e))"
  using assms(2,4)
proof (induction "end_mb - mb" arbitrary: mb st e rule: less_induct)
  case less
  obtain mr rr raw where st: "st = (mr, rr, raw)" by (cases st)
  note unf = decode_modes_loop.simps[of base reference end_mb mb mr rr raw e] parse_modes.simps[of "end_mb - mb" mr rr raw] st
  have IH: "decode_modes_loop base reference end_mb (mb + k) st' e' =
      bindR (parse_modes (end_mb - mb - k) st') (\<lambda>(ds, st). Inr (mb + k + length ds, st, put_mbs base reference (mb + k) ds e'))"
    if "0 < k" "mb + k \<le> end_mb" "wf_eye e'" for k st' e'
    using less.hyps[of "mb + k" e' st'] that by simp
  show ?case
  proof (cases "mb < end_mb")
    case False
    with less.prems show ?thesis by (simp add: decode_modes_loop.simps[of base] parse_modes.simps[of 0] st)
  next
    case True
    then have n: "0 < end_mb - mb" by simp
    show ?thesis
    proof (cases "rd_u8 mr")
      case (Inl err)
      with True n show ?thesis by (simp add: unf)
    next
      case (Inr q)
      obtain op mr' where q: "q = (op, mr')" by (cases q)
      note here = True n Inr q
      consider (stop) "op = 0" | (skip) "op \<noteq> 0" "op \<le> 0x7f" | (one) "op \<noteq> 0" "\<not> op \<le> 0x7f" "op AND 0xf0 = 0x80"
        | (run) "op \<noteq> 0" "\<not> op \<le> 0x7f" "op AND 0xf0 \<noteq> 0x80" "op AND 0xf0 = 0x90"
        | (bad) "op \<noteq> 0" "\<not> op \<le> 0x7f" "op AND 0xf0 \<noteq> 0x80" "op AND 0xf0 \<noteq> 0x90" by blast
      then show ?thesis
      proof cases
        case skip
        have over: "end_mb < mb + unat op \<longleftrightarrow> end_mb - mb < unat op" using True by linarith
        have s: "(case base of Lazy base_mv \<Rightarrow> copy_mb_run_from_reference e reference mb (unat op) base_mv | Prefilled \<Rightarrow> Inr e) =
            Inr (put_mbs base reference mb (replicate (unat op) (BaseP, [])) e)" if "\<not> end_mb - mb < unat op"
          using that over assms(1,3) less.prems by (intro skip_run_ok) auto
        show ?thesis
          using here skip s over IH[of "unat op"] unat_pos[OF skip(1)] less.prems
          by (auto simp add: unf Let_def bindR_assoc split_def put_mbs_append add.assoc)
      next
        case one
        have d: "decode_one_mb (op AND 0x0f) mb base (mr', rr, raw) reference e =
            bindR (parse_one_mb (op AND 0x0f) (mr', rr, raw)) (\<lambda>(d, st). Inr (st, put_mb base reference mb d e))"
          using True assms(1,3) less.prems by (intro decode_one_mb_ok) auto
        show ?thesis
          using here one d IH[of 1] less.prems by (simp add: unf bindR_assoc split_def)
      next
        case run
        have over: "end_mb < mb + (unat k + 1) \<longleftrightarrow> end_mb - mb < unat k + 1" for k :: byte using True by linarith
        show ?thesis
        proof (cases "rd_u8 mr'")
          case (Inl err)
          with here run show ?thesis by (simp add: unf)
        next
          case (Inr q')
          obtain k mr2 where q': "q' = (k, mr2)" by (cases q')
          show ?thesis
          proof (cases "end_mb - mb < unat k + 1")
            case True
            with here run Inr q' over[of k] show ?thesis by (simp add: unf)
          next
            case False
            with over[of k] assms(3) have le: "mb + (unat k + 1) \<le> end_mb" "mb + (unat k + 1) \<le> MB_COUNT" by linarith+
            note r = decode_mode_run_ok[OF assms(1) less.prems(1) le(2), of "op AND 0x0f" base "(mr2, rr, raw)"]
            then have len: "\<And>ds st'. parse_run (op AND 0x0f) (unat k + 1) (mr2, rr, raw) = Inr (ds, st') \<Longrightarrow> length ds = unat k + 1"
              by blast
            show ?thesis
            proof (cases "parse_run (op AND 0x0f) (unat k + 1) (mr2, rr, raw)")
              case (Inl err)
              with here run Inr q' over[of k] False r show ?thesis by (simp add: unf)
            next
              case (Inr p)
              obtain ds st' where p: "p = (ds, st')" by (cases p)
              show ?thesis
                using here run \<open>rd_u8 mr' = Inr q'\<close> q' over[of k] False r Inr p len[of ds st'] le(1) less.prems
                  IH[of "unat k + 1" "put_mbs base reference mb ds e" st']
                by (simp add: unf bindR_assoc split_def put_mbs_append add.assoc)
            qed
          qed
        qed
      qed (use here in \<open>simp_all add: unf\<close>)
    qed
  qed
qed

section \<open>What a parse gives\<close>

definition gives :: "('a \<Rightarrow> bool) \<Rightarrow> ('a \<times> 's) result \<Rightarrow> bool" where
  "gives P res \<longleftrightarrow> (case res of Inl e \<Rightarrow> e \<noteq> Fault | Inr (x, _) \<Rightarrow> P x)"

lemma gives_Inl [simp]: "gives P (Inl e) \<longleftrightarrow> e \<noteq> Fault"
  by (simp add: gives_def)

lemma gives_Inr [simp]: "gives P (Inr (x, s)) \<longleftrightarrow> P x"
  by (simp add: gives_def)

lemma gives_bind:
  assumes "gives P res" and "\<And>x s. res = Inr (x, s) \<Longrightarrow> P x \<Longrightarrow> gives Q (k (x, s))"
  shows "gives Q (bindR res k)"
proof (cases res)
  case (Inr p)
  then show ?thesis using assms by (cases p) (auto simp: gives_def)
qed (use assms(1) in \<open>simp add: gives_def\<close>)

lemma gives_parses: "parses P r res \<Longrightarrow> gives P res"
  by (auto simp: parses_def gives_def split: sum.splits)

lemma gives_if: "(b \<Longrightarrow> gives P x) \<Longrightarrow> (\<not> b \<Longrightarrow> gives P y) \<Longrightarrow> gives P (if b then x else y)"
  by simp

lemmas gives_mv = gives_parses[OF mvc.parses_get] and gives_u8 = gives_parses[OF u8c.parses_get]

lemma gives_take: "gives (\<lambda>bs. length bs = n) (rd_take n r)"
  by (simp add: rd_take_rest)

lemma parse_pred_gives: "gives pred_ok (parse_pred mode ms raw)"
  unfolding parse_pred_def
  by (intro gives_if) (auto intro!: gives_bind[OF gives_mv] gives_bind[OF gives_take] simp: RAW_MB_BYTES_def)

lemma parse_one_mb_gives: "gives desc_ok (parse_one_mb mode st)"
proof -
  obtain ms rr raw where st: "st = (ms, rr, raw)" by (cases st)
  have res: "gives (\<lambda>bs. \<forall>p\<in>set bs. fst p < 24 \<and> blk_ok (snd p))
      (if has_residual mode then parse_mb_residual r else Inr ([], r))" for r
    by (cases rule: parse_mb_residual_cases[of r]) auto
  show ?thesis
    unfolding st parse_one_mb_def prod.case
    by (rule gives_bind[OF parse_pred_gives], unfold split_paired_all prod.case, rule gives_bind[OF res])
      (auto simp: desc_ok_def)
qed

lemma parse_run_gives: "gives (\<lambda>ds. length ds = run \<and> (\<forall>d\<in>set ds. desc_ok d)) (parse_run mode run st)"
proof (induction run)
  case 0
  then show ?case by (simp add: parse_run_def)
next
  case (Suc run)
  have "parse_run mode (Suc run) st = bindR (parse_run mode run st) (\<lambda>(ds, st).
      bindR (parse_one_mb mode st) (\<lambda>(d, st). Inr (ds @ [d], st)))"
    by (simp add: parse_run_def forR_append split_def)
  then show ?case
    by (simp only:) (auto intro!: gives_bind[OF Suc] gives_bind[OF parse_one_mb_gives])
qed

lemma parse_modes_gives: "gives (\<lambda>ds. length ds \<le> n \<and> (\<forall>d\<in>set ds. desc_ok d)) (parse_modes n st)"
proof (induction n arbitrary: st rule: less_induct)
  case (less n)
  obtain mr rr raw where st: "st = (mr, rr, raw)" by (cases st)
  have base: "desc_ok (BaseP, [])" by (simp add: desc_ok_def)
  show ?case
    unfolding st parse_modes.simps[of n mr rr raw]
  proof (intro gives_if gives_bind[OF gives_u8], unfold prod.case, intro gives_if)
    fix op mr' assume n: "0 < n" and op: "op \<noteq> 0" "\<not> n < unat op"
    have "n - unat op < n" using n unat_pos[OF op(1)] by simp
    then show "gives (\<lambda>ds. length ds \<le> n \<and> (\<forall>d\<in>set ds. desc_ok d))
        (bindR (parse_modes (n - unat op) (mr', rr, raw)) (\<lambda>(ds, st). Inr (replicate (unat op) (BaseP, []) @ ds, st)))"
      using op base by (intro gives_bind[OF less]) auto
  next
    fix op mr' assume n: "0 < n"
    then show "gives (\<lambda>ds. length ds \<le> n \<and> (\<forall>d\<in>set ds. desc_ok d))
        (bindR (parse_one_mb (op AND 0x0f) (mr', rr, raw)) (\<lambda>(d, st).
          bindR (parse_modes (n - 1) st) (\<lambda>(ds, st). Inr (d # ds, st))))"
      by (auto intro!: gives_bind[OF parse_one_mb_gives] gives_bind[OF less])
  next
    fix op :: byte and mr' assume n: "0 < n"
    show "gives (\<lambda>ds. length ds \<le> n \<and> (\<forall>d\<in>set ds. desc_ok d))
        (bindR (rd_u8 mr') (\<lambda>(k, mr). if unat k + 1 > n then Inl (Invalid ''mode run exceeds fragment'')
          else bindR (parse_run (op AND 0x0f) (unat k + 1) (mr, rr, raw)) (\<lambda>(ds, st).
            bindR (parse_modes (n - (unat k + 1)) st) (\<lambda>(ds', st). Inr (ds @ ds', st)))))"
      using n by (auto intro!: gives_bind[OF gives_u8] gives_bind[OF parse_run_gives] gives_bind[OF less]) arith
  qed simp_all
qed

end
