(* ===== verification/O3_FragmentLaws.thy ===== *)
theory O3_FragmentLaws
  imports O3_Parse
begin

text \<open>
  Laws of fragments. The fields of the header as a function of the input
  (\<open>frag_fields\<close>), the two readers of it in the code agreeing on them; what the
  segment map check accepts; \<open>decode_fragment\<close> as \<open>parse_fragment\<close> followed by
  \<open>put_mbs\<close>; the base-predictor count as a count over the parse; and the
  fragments \<open>fragment_payload_reuses_reference\<close> recognises as those whose parse
  is nothing but skipped macroblocks.
\<close>

section \<open>Header fields\<close>

type_synonym frag_fields = "byte \<times> byte \<times> byte \<times> byte \<times> u16 \<times> u16 \<times> u32 \<times> u32 \<times> u32 \<times> u32 \<times> u32"

definition frag_fields :: "byte list \<Rightarrow> frag_fields" where
  "frag_fields h = (h ! 0, h ! 1, h ! 2, h ! 3,
     from_le_bytes (take 2 (drop 4 h)), from_le_bytes (take 2 (drop 6 h)),
     from_le_bytes (take 4 (drop 8 h)), from_le_bytes (take 4 (drop 12 h)), from_le_bytes (take 4 (drop 16 h)),
     from_le_bytes (take 4 (drop 20 h)), from_le_bytes (take 4 (drop 24 h)))"

lemma load_u8_rest:
  assumes "k < length (rest r)"
  shows "load_u8 (rd_bytes r) (rd_pos r + k) = Inr (rest r ! k)"
  using assms nth_rest[OF assms] by (auto simp: load_u8_def rest_def)

lemma load_u16_rest:
  assumes "k + 2 \<le> length (rest r)"
  shows "load_u16_le (rd_bytes r) (rd_pos r + k) = Inr (from_le_bytes (take 2 (drop k (rest r))))"
  using assms by (subst load_u16_le_take) (auto simp: rest_def add.commute)

lemma load_u32_rest:
  assumes "k + 4 \<le> length (rest r)"
  shows "load_u32_le (rd_bytes r) (rd_pos r + k) = Inr (from_le_bytes (take 4 (drop k (rest r))))"
  using assms by (subst load_u32_le_take) (auto simp: rest_def add.commute)

text \<open>Reading a field after \<open>k\<close> bytes of the input.\<close>

lemma rd_u8_at: "k < length (rest r) \<Longrightarrow> rd_u8 (adv k r) = Inr (rest r ! k, adv (k + 1) r)"
  by (cases "drop k (rest r)") (auto simp: rd_u8_rest nth_via_drop)

lemma rd_u16_at: "k + 2 \<le> length (rest r) \<Longrightarrow>
    rd_u16 (adv k r) = Inr (from_le_bytes (take 2 (drop k (rest r))), adv (k + 2) r)"
  by (simp add: rd_u16_rest)

lemma rd_u32_at: "k + 4 \<le> length (rest r) \<Longrightarrow>
    rd_u32 (adv k r) = Inr (from_le_bytes (take 4 (drop k (rest r))), adv (k + 4) r)"
  by (simp add: rd_u32_rest)

section \<open>Segment maps\<close>

text \<open>A segment map is a list of runs, each a length of 1 to 256 and a segment.\<close>

definition seg_bytes :: "(byte \<times> byte) list \<Rightarrow> byte list" where
  "seg_bytes runs = concat (map (\<lambda>(len, seg). [len, seg]) runs)"

definition seg_total :: "(byte \<times> byte) list \<Rightarrow> nat" where
  "seg_total runs = sum_list (map (\<lambda>(len, seg). unat len + 1) runs)"

lemma segment_map_loop_gives:
  "segment_map_loop bytes sc n pos described \<noteq> Inl Fault"
proof (induction bytes sc n pos described rule: segment_map_loop.induct)
  case (1 bytes sc n pos described)
  show ?case
    unfolding segment_map_loop.simps[of bytes sc n pos described]
    using "1" by (auto simp: load_u8_def Let_def)
qed

lemma segment_map_loop_sound:
  assumes "segment_map_loop bytes sc n pos described = Inr pos'" and "described \<le> n"
  shows "\<exists>runs. pos' = pos + length (seg_bytes runs) \<and> take (length (seg_bytes runs)) (drop pos bytes) = seg_bytes runs \<and>
    described + seg_total runs = n \<and> (\<forall>(len, seg)\<in>set runs. seg < sc)"
  using assms
proof (induction bytes sc n pos described rule: segment_map_loop.induct)
  case (1 bytes sc n pos described)
  show ?case
  proof (cases "described < n")
    case False
    with "1.prems" show ?thesis
      by (intro exI[of _ "[]"]) (auto simp: segment_map_loop.simps[of bytes sc n pos described] seg_bytes_def seg_total_def)
  next
    case True
    let ?b = "bytes ! pos" and ?s = "bytes ! (pos + 1)"
    from True "1.prems"(1) have len: "pos + 2 \<le> length bytes" and s: "?s < sc" and d: "described + (unat ?b + 1) \<le> n"
      and go: "segment_map_loop bytes sc n (pos + 2) (described + (unat ?b + 1)) = Inr pos'"
      by (auto simp: segment_map_loop.simps[of bytes sc n pos described] load_u8_def Let_def split: if_splits)
    have l: "load_u8 bytes pos = Inr ?b" "load_u8 bytes (pos + 1) = Inr ?s" using len by (auto simp: load_u8_def)
    obtain runs where runs: "pos' = pos + 2 + length (seg_bytes runs)"
      "take (length (seg_bytes runs)) (drop (pos + 2) bytes) = seg_bytes runs"
      "described + (unat ?b + 1) + seg_total runs = n" "\<forall>(len, seg)\<in>set runs. seg < sc"
      using "1.IH"[OF True refl _ l(1) refl l(2) refl _ refl _ go d] len s d by (auto simp: not_less not_le)
    have "drop pos bytes = ?b # ?s # drop (pos + 2) bytes"
      using len by (simp add: Cons_nth_drop_Suc[symmetric] numeral_2_eq_2)
    with runs s show ?thesis
      by (intro exI[of _ "(?b, ?s) # runs"]) (auto simp: seg_bytes_def seg_total_def)
  qed
qed

lemma segment_map_loop_complete:
  assumes "\<forall>(len, seg)\<in>set runs. seg < sc" and "described + seg_total runs = n"
    and "drop pos bytes = seg_bytes runs @ post"
  shows "segment_map_loop bytes sc n pos described = Inr (pos + length (seg_bytes runs))"
  using assms
proof (induction runs arbitrary: pos described)
  case Nil
  then show ?case by (simp add: segment_map_loop.simps[of bytes sc n pos n] seg_bytes_def seg_total_def)
next
  case (Cons run runs)
  obtain len seg where run: "run = (len, seg)" by (cases run)
  have d: "drop pos bytes = len # seg # seg_bytes runs @ post" using Cons.prems(3) by (simp add: run seg_bytes_def)
  have "length (drop pos bytes) = Suc (Suc (length (seg_bytes runs @ post)))" by (simp only: d list.size add_Suc_right add_0_right)
  then have l: "pos + 2 \<le> length bytes" by simp
  have n: "bytes ! pos = len" "bytes ! (pos + 1) = seg"
    using d l nth_via_drop[OF d] nth_via_drop[of "pos + 1" bytes seg "seg_bytes runs @ post"] by (auto simp: drop_Suc tl_drop[symmetric])
  have "drop (pos + 2) bytes = seg_bytes runs @ post" using d by (metis drop_drop drop_Suc_Cons drop0 add.commute numeral_2_eq_2)
  then show ?case
    using Cons.IH[of "described + (unat len + 1)" "pos + 2"] Cons.prems n l run
    by (simp add: segment_map_loop.simps[of bytes sc n pos described] load_u8_def Let_def seg_bytes_def seg_total_def not_le)
qed

lemma validate_segment_map_iff:
  "validate_segment_map bytes sc n = Inr () \<longleftrightarrow>
    (if sc = 1 then bytes = []
     else \<exists>runs. bytes = seg_bytes runs \<and> seg_total runs = n \<and> (\<forall>(len, seg)\<in>set runs. seg < sc))"
proof (cases "sc = 1")
  case False
  have "segment_map_loop bytes sc n 0 0 = Inr (length bytes) \<longleftrightarrow>
      (\<exists>runs. bytes = seg_bytes runs \<and> seg_total runs = n \<and> (\<forall>(len, seg)\<in>set runs. seg < sc))"
  proof
    assume "segment_map_loop bytes sc n 0 0 = Inr (length bytes)"
    from segment_map_loop_sound[OF this] obtain runs where "length bytes = length (seg_bytes runs)"
      "take (length (seg_bytes runs)) bytes = seg_bytes runs" "seg_total runs = n" "\<forall>(len, seg)\<in>set runs. seg < sc" by auto
    then show "\<exists>runs. bytes = seg_bytes runs \<and> seg_total runs = n \<and> (\<forall>(len, seg)\<in>set runs. seg < sc)"
      by (intro exI[of _ runs]) simp
  next
    assume "\<exists>runs. bytes = seg_bytes runs \<and> seg_total runs = n \<and> (\<forall>(len, seg)\<in>set runs. seg < sc)"
    then show "segment_map_loop bytes sc n 0 0 = Inr (length bytes)"
      using segment_map_loop_complete[where pos = 0 and described = 0 and post = "[]"] by auto
  qed
  moreover have "validate_segment_map bytes sc n = Inr () \<longleftrightarrow> segment_map_loop bytes sc n 0 0 = Inr (length bytes)"
    using False by (auto simp: validate_segment_map_def bindR_eq_Inr_iff)
  ultimately show ?thesis using False by simp
qed (simp add: validate_segment_map_def)

lemma validate_segment_map_no_fault: "validate_segment_map bytes sc n \<noteq> Inl Fault"
  using segment_map_loop_gives[of bytes sc n 0 0]
  by (cases "segment_map_loop bytes sc n 0 0") (auto simp: validate_segment_map_def)

section \<open>The fragment header and its streams\<close>

definition parse_fragment_streams ::
  "byte \<Rightarrow> byte \<Rightarrow> reader \<Rightarrow> ((nat \<times> nat \<times> byte list \<times> byte list \<times> byte list) \<times> reader) result" where
  "parse_fragment_streams tile_id segment_count r =
     (if length (rest r) < FRAGMENT_HEADER_SIZE then Inl Eof
      else case frag_fields (rest r) of (frag_tile_id, row_start, row_count, flags, start_mb, mb_count,
          segment_map_size, mode_size, residual_size, raw_size, crc) \<Rightarrow>
        bindR (validate_fragment_header frag_tile_id tile_id flags crc row_start row_count (unat start_mb) (unat mb_count)) (\<lambda>_.
        bindR (rd_take (unat segment_map_size) (adv FRAGMENT_HEADER_SIZE r)) (\<lambda>(segment_map, r).
        bindR (validate_segment_map segment_map segment_count (unat mb_count)) (\<lambda>_.
        bindR (rd_take (unat mode_size) r) (\<lambda>(mode_stream, r).
        bindR (rd_take (unat residual_size) r) (\<lambda>(residual_stream, r).
        bindR (rd_take (unat raw_size) r) (\<lambda>(raw_stream, r).
        Inr ((unat start_mb, unat mb_count, mode_stream, residual_stream, raw_stream), r))))))))"

definition parse_mbs :: "nat \<Rightarrow> byte list \<Rightarrow> byte list \<Rightarrow> byte list \<Rightarrow> mb_desc list result" where
  "parse_mbs mb_count mode_stream residual_stream raw_stream =
     bindR (parse_modes mb_count (reader_new mode_stream, reader_new residual_stream, reader_new raw_stream))
       (\<lambda>(ds, mr, rr, raw).
     if length ds \<noteq> mb_count then Inl (Invalid ''fragment ended before all MBs were described'')
     else if remaining (consume_optional_trailing_zero mr) \<noteq> 0 \<or> remaining rr \<noteq> 0 \<or> remaining raw \<noteq> 0 then
       Inl (Invalid ''fragment streams were not fully consumed'')
     else Inr ds)"

definition parse_fragment :: "byte \<Rightarrow> byte \<Rightarrow> reader \<Rightarrow> ((nat \<times> mb_desc list) \<times> reader) result" where
  "parse_fragment tile_id segment_count r =
     bindR (parse_fragment_streams tile_id segment_count r) (\<lambda>((start_mb, mb_count, mode_stream, residual_stream, raw_stream), r).
     bindR (parse_mbs mb_count mode_stream residual_stream raw_stream) (\<lambda>ds. Inr ((start_mb, ds), r)))"

lemma validate_fragment_header_iff:
  "validate_fragment_header ft t flags crc rs rc start n = Inr () \<longleftrightarrow>
    ft = t \<and> flags = 0 \<and> crc = 0 \<and> rc \<noteq> 0 \<and> unat rs + unat rc \<le> MB_H \<and> start = unat rs * MB_W \<and> n = unat rc * MB_W"
proof (cases "rc = 0")
  case False
  then have "0 < unat rc" by (rule unat_pos)
  then show ?thesis using False by (auto simp: validate_fragment_header_def geom)
qed (simp add: validate_fragment_header_def)

lemma validate_fragment_header_range:
  assumes "validate_fragment_header ft t flags crc rs rc start n = Inr u"
  shows "start + n \<le> MB_COUNT" and "0 < n"
  using assms by (auto simp: validate_fragment_header_def split: if_splits)

lemma validate_fragment_header_no_fault: "validate_fragment_header ft t flags crc rs rc start n \<noteq> Inl Fault"
  by (simp add: validate_fragment_header_def)

lemma header_loads:
  assumes "\<not> length (rest r) < FRAGMENT_HEADER_SIZE"
  shows "load_u8 (rd_bytes r) (rd_pos r + 0) = Inr (rest r ! 0)"
    "load_u8 (rd_bytes r) (rd_pos r + 1) = Inr (rest r ! 1)"
    "load_u8 (rd_bytes r) (rd_pos r + 2) = Inr (rest r ! 2)"
    "load_u8 (rd_bytes r) (rd_pos r + 3) = Inr (rest r ! 3)"
    "load_u16_le (rd_bytes r) (rd_pos r + 4) = Inr (from_le_bytes (take 2 (drop 4 (rest r))))"
    "load_u16_le (rd_bytes r) (rd_pos r + 6) = Inr (from_le_bytes (take 2 (drop 6 (rest r))))"
    "load_u32_le (rd_bytes r) (rd_pos r + 8) = Inr (from_le_bytes (take 4 (drop 8 (rest r))))"
    "load_u32_le (rd_bytes r) (rd_pos r + 12) = Inr (from_le_bytes (take 4 (drop 12 (rest r))))"
    "load_u32_le (rd_bytes r) (rd_pos r + 16) = Inr (from_le_bytes (take 4 (drop 16 (rest r))))"
    "load_u32_le (rd_bytes r) (rd_pos r + 20) = Inr (from_le_bytes (take 4 (drop 20 (rest r))))"
    "load_u32_le (rd_bytes r) (rd_pos r + 24) = Inr (from_le_bytes (take 4 (drop 24 (rest r))))"
  using assms by (simp_all only: load_u8_rest load_u16_rest load_u32_rest FRAGMENT_HEADER_SIZE_def)

lemma decode_fragment_ok:
  assumes "wf_eye reference" and "wf_eye e"
  shows "decode_fragment r tile_id segment_count base reference e =
    bindR (parse_fragment tile_id segment_count r) (\<lambda>((start_mb, ds), r). Inr (r, put_mbs base reference start_mb ds e))"
proof (cases "length (rest r) < FRAGMENT_HEADER_SIZE")
  case True
  then show ?thesis by (simp add: decode_fragment_def parse_fragment_def parse_fragment_streams_def length_rest)
next
  case False
  note loads = header_loads[OF False]
  have loop: "bindR (decode_modes_loop base reference (start + n) start (reader_new a, reader_new b, reader_new c) e)
      (\<lambda>(mb_index, (mr, rr, raw), current).
        if mb_index \<noteq> start + n then Inl (Invalid ''fragment ended before all MBs were described'')
        else
          let mr = consume_optional_trailing_zero mr in
          if remaining mr \<noteq> 0 \<or> remaining rr \<noteq> 0 \<or> remaining raw \<noteq> 0 then
            Inl (Invalid ''fragment streams were not fully consumed'')
          else Inr (r', current)) =
      bindR (parse_mbs n a b c) (\<lambda>ds. Inr (r', put_mbs base reference start ds e))"
    if "start + n \<le> MB_COUNT" for start n a b c and r' :: reader
    unfolding decode_modes_loop_ok[OF assms that le_add1] parse_mbs_def bindR_assoc
    by (intro bindR_cong) (auto simp: Let_def)
  show ?thesis
    unfolding decode_fragment_def parse_fragment_def parse_fragment_streams_def frag_fields_def prod.case
    using False
    by (simp add: length_rest[symmetric] Let_def loads[simplified] bindR_assoc split_def flip: adv_def)
      (intro bindR_cong refl, rule loop[unfolded split_def], erule validate_fragment_header_range(1))
qed

lemma parses_take: "parses (\<lambda>bs. length bs = n) r (rd_take n r)"
  by (simp add: rd_take_rest moves_adv)

lemma parses_check:
  assumes "res \<noteq> Inl Fault" and "\<And>u. res = Inr (u :: unit) \<Longrightarrow> parses Q r (k u)"
  shows "parses Q r (bindR res k)"
  using assms by (cases res) auto

definition frag_streams_ok :: "nat \<times> nat \<times> byte list \<times> byte list \<times> byte list \<Rightarrow> bool" where
  "frag_streams_ok = (\<lambda>(start, n, _). start + n \<le> MB_COUNT \<and> 0 < n)"

lemma parses_after:
  assumes "n \<le> length (rest r)" and "parses P (adv n r) res"
  shows "parses P r res"
  using assms by (auto simp: parses_def split: sum.splits intro: moves_trans[OF moves_adv])

lemma parse_fragment_streams_parses: "parses frag_streams_ok r (parse_fragment_streams tile_id segment_count r)"
proof (cases "length (rest r) < FRAGMENT_HEADER_SIZE")
  case False
  then have "FRAGMENT_HEADER_SIZE \<le> length (rest r)" by simp
  then show ?thesis
    unfolding parse_fragment_streams_def frag_fields_def prod.case if_not_P[OF False]
    by (rule parses_after)
      (intro parses_check[OF validate_fragment_header_no_fault], rule parses_bind[OF parses_take], unfold prod.case,
        intro parses_check[OF validate_segment_map_no_fault], rule parses_bind[OF parses_take], unfold prod.case,
        rule parses_bind[OF parses_take], unfold prod.case, rule parses_bind[OF parses_take],
        auto simp: frag_streams_ok_def dest: validate_fragment_header_range)
qed (simp add: parse_fragment_streams_def)

lemma parse_mbs_no_fault: "parse_mbs n ms rs ws \<noteq> Inl Fault"
  using parse_modes_gives[of n "(reader_new ms, reader_new rs, reader_new ws)"]
  by (auto simp: parse_mbs_def bindR_eq_Inl_iff)

lemma parse_mbs_shape:
  assumes "parse_mbs n ms rs ws = Inr ds"
  shows "length ds = n" and "\<forall>d\<in>set ds. desc_ok d"
  using assms parse_modes_gives[of n "(reader_new ms, reader_new rs, reader_new ws)"]
  by (auto simp: parse_mbs_def bindR_eq_Inr_iff split: if_splits)

definition frag_ok :: "nat \<times> mb_desc list \<Rightarrow> bool" where
  "frag_ok = (\<lambda>(start, ds). start + length ds \<le> MB_COUNT \<and> 0 < length ds \<and> (\<forall>d\<in>set ds. desc_ok d))"

lemma parse_fragment_parses: "parses frag_ok r (parse_fragment tile_id segment_count r)"
  unfolding parse_fragment_def
proof (rule parses_bind[OF parse_fragment_streams_parses], unfold split_paired_all prod.case)
  fix start n ms rs ws r' assume ok: "frag_streams_ok (start, n, ms, rs, ws)"
  show "parses frag_ok r' (bindR (parse_mbs n ms rs ws) (\<lambda>ds. Inr ((start, ds), r')))"
    using parse_mbs_no_fault[of n ms rs ws] parse_mbs_shape[of n ms rs ws] ok
    by (cases "parse_mbs n ms rs ws") (auto simp: frag_ok_def frag_streams_ok_def)
qed

section \<open>Counting base-predicted macroblocks\<close>

definition base_count :: "mb_desc list \<Rightarrow> nat" where
  "base_count ds = length (filter (\<lambda>d. fst d = BaseP) ds)"

lemma base_count_simps [simp]:
  "base_count [] = 0" "base_count (d # ds) = (if fst d = BaseP then 1 else 0) + base_count ds"
  "base_count (ds @ ds') = base_count ds + base_count ds'" "base_count (replicate n (BaseP, bs)) = n"
  by (simp_all add: base_count_def)

lemma parse_pred_skips:
  assumes "parse_pred mode ms raw = Inr (p, ms', raw')"
  shows "skip_mode_payload mode ms = Inr ms' \<and> (p = BaseP \<longleftrightarrow> mode = MODE_BASE_RES)"
proof -
  consider "mode = 0" | "mode = 1" | "mode = 2" | "mode = 3" | "mode = 4" | "mode = 5" | "mode = 6" | "mode = 7"
    | "mode = 8" | "mode = 10" | "mode \<notin> {0, 1, 2, 3, 4, 5, 6, 7, 8, 10}" by auto
  then show ?thesis
    by cases (use assms in \<open>auto simp: parse_pred_def skip_mode_payload_def mode_defs rd_skip_rest
      elim!: bindR_InrE dest!: mvc.get_InrD\<close>)
qed

lemma parse_one_mb_skips:
  assumes "parse_one_mb mode (ms, rr, raw) = Inr (d, ms', rr', raw')"
  shows "skip_mode_payload mode ms = Inr ms' \<and> (fst d = BaseP \<longleftrightarrow> mode = MODE_BASE_RES)"
  using assms by (auto simp: parse_one_mb_def bindR_eq_Inr_iff dest!: parse_pred_skips)

lemma parse_run_skips:
  assumes "parse_run mode run (ms, rr, raw) = Inr (ds, ms', rr', raw')"
  shows "forR (\<lambda>_. skip_mode_payload mode) [0..<run] ms = Inr ms' \<and> base_count ds = (if mode = MODE_BASE_RES then run else 0)"
  using assms
proof (induction run arbitrary: ds ms' rr' raw')
  case (Suc run)
  have "parse_run mode (Suc run) (ms, rr, raw) = bindR (parse_run mode run (ms, rr, raw)) (\<lambda>(ds, st).
      bindR (parse_one_mb mode st) (\<lambda>(d, st). Inr (ds @ [d], st)))"
    by (simp add: parse_run_def forR_append split_def)
  with Suc.prems obtain ds0 m0 rr0 raw0 d where 0: "parse_run mode run (ms, rr, raw) = Inr (ds0, m0, rr0, raw0)"
    and 1: "parse_one_mb mode (m0, rr0, raw0) = Inr (d, ms', rr', raw')" "ds = ds0 @ [d]"
    by (auto simp: bindR_eq_Inr_iff)
  from Suc.IH[OF 0] parse_one_mb_skips[OF 1(1)] 1(2) show ?case by (simp add: forR_append)
qed (auto simp: parse_run_def)

lemma count_base_loop_ok:
  assumes "parse_modes (end_mb - mb) (mr, rr, raw) = Inr (ds, mr', rr', raw')" and "mb \<le> end_mb" and "acc \<le> limit"
  shows "if acc + base_count ds \<le> limit
    then count_base_loop limit end_mb mb acc mr = Inr (Inr (mb + length ds, acc + base_count ds, mr'))
    else \<exists>c>limit. count_base_loop limit end_mb mb acc mr = Inr (Inl c)"
  using assms
proof (induction "end_mb - mb" arbitrary: mb acc mr rr raw ds rule: less_induct)
  case less
  note cl = count_base_loop.simps[of limit end_mb mb acc mr] and pm = parse_modes.simps[of "end_mb - mb" mr rr raw]
  show ?case
  proof (cases "mb < end_mb")
    case False
    with less.prems pm show ?thesis by (auto simp: count_base_loop.simps[of limit end_mb end_mb] parse_modes.simps[of 0])
  next
    case True
    then have n: "0 < end_mb - mb" by simp
    from less.prems(1) n obtain op r1 where op: "rd_u8 mr = Inr (op, r1)" by (auto simp: pm elim!: bindR_InrE)
    consider (stop) "op = 0" | (skip) "op \<noteq> 0" "op \<le> 0x7f" | (one) "op \<noteq> 0" "\<not> op \<le> 0x7f" "op AND 0xf0 = 0x80"
      | (run) "op \<noteq> 0" "\<not> op \<le> 0x7f" "op AND 0xf0 \<noteq> 0x80" "op AND 0xf0 = 0x90"
      | (bad) "op \<noteq> 0" "\<not> op \<le> 0x7f" "op AND 0xf0 \<noteq> 0x80" "op AND 0xf0 \<noteq> 0x90" by blast
    then show ?thesis
    proof cases
      case skip
      from less.prems(1) n op skip obtain ds' where le: "\<not> end_mb - mb < unat op"
        and p: "parse_modes (end_mb - mb - unat op) (r1, rr, raw) = Inr (ds', mr', rr', raw')"
        and ds: "ds = replicate (unat op) (BaseP, []) @ ds'"
        by (auto simp: pm elim!: bindR_InrE split: if_splits)
      have "if (acc + unat op) + base_count ds' \<le> limit
        then count_base_loop limit end_mb (mb + unat op) (acc + unat op) r1 = Inr (Inr (mb + unat op + length ds', acc + unat op + base_count ds', mr'))
        else \<exists>c>limit. count_base_loop limit end_mb (mb + unat op) (acc + unat op) r1 = Inr (Inl c)"
        if "acc + unat op \<le> limit"
        using less.hyps[of "mb + unat op" r1 rr raw ds' "acc + unat op"] unat_pos[OF skip(1)] le p that True by simp
      moreover have "\<not> end_mb < mb + unat op" using le True by linarith
      ultimately show ?thesis
        using op skip True ds by (auto simp: cl Let_def add.assoc)
    next
      case one
      from less.prems(1) n op one obtain d r2 rr2 raw2 ds' where
        p1: "parse_one_mb (op AND 0x0f) (r1, rr, raw) = Inr (d, r2, rr2, raw2)"
        and p: "parse_modes (end_mb - mb - 1) (r2, rr2, raw2) = Inr (ds', mr', rr', raw')" and ds: "ds = d # ds'"
        by (auto simp: pm elim!: bindR_InrE split: if_splits)
      show ?thesis
        using less.hyps[of "mb + 1" r2 rr2 raw2 ds' "acc + (if op AND 0x0f = MODE_BASE_RES then 1 else 0)"]
          p parse_one_mb_skips[OF p1] op one True ds less.prems(3) by (auto simp: cl Let_def)
    next
      case run
      from less.prems(1) n op run obtain k r2 ds1 r3 rr3 raw3 ds' where
        k: "rd_u8 r1 = Inr (k, r2)" "\<not> end_mb - mb < unat k + 1"
        and p1: "parse_run (op AND 0x0f) (unat k + 1) (r2, rr, raw) = Inr (ds1, r3, rr3, raw3)"
        and p: "parse_modes (end_mb - mb - (unat k + 1)) (r3, rr3, raw3) = Inr (ds', mr', rr', raw')" and ds: "ds = ds1 @ ds'"
        by (auto simp: pm elim!: bindR_InrE split: if_splits)
      have len: "length ds1 = unat k + 1"
        using parse_run_gives[of "unat k + 1" "op AND 0x0f" "(r2, rr, raw)"] p1 by simp
      have le: "\<not> end_mb < mb + (unat k + 1)" using k(2) True by linarith
      show ?thesis
        using less.hyps[of "mb + (unat k + 1)" r3 rr3 raw3 ds' "acc + (if op AND 0x0f = MODE_BASE_RES then unat k + 1 else 0)"]
          p parse_run_skips[OF p1] op run True ds less.prems(3) k le len by (auto simp: cl Let_def)
    qed (use less.prems(1) op n True in \<open>auto simp: pm cl less.prems(3)\<close>)
  qed
qed

lemma count_base_predictor_ok:
  assumes "parse_mbs n ms rs ws = Inr ds"
  shows "if base_count ds \<le> limit then count_base_predictor_mbs_in_modes ms start n limit = Inr (base_count ds)
    else \<exists>c>limit. count_base_predictor_mbs_in_modes ms start n limit = Inr c"
proof -
  from assms obtain mr rr raw where p: "parse_modes n (reader_new ms, reader_new rs, reader_new ws) = Inr (ds, mr, rr, raw)"
    and len: "length ds = n" and z: "remaining (consume_optional_trailing_zero mr) = 0"
    by (auto simp: parse_mbs_def bindR_eq_Inr_iff split: if_splits)
  from count_base_loop_ok[of "start + n" start "reader_new ms" "reader_new rs" "reader_new ws" ds mr rr raw 0 limit]
  show ?thesis using p len z by (auto simp: count_base_predictor_mbs_in_modes_def Let_def)
qed

section \<open>Fragments that only repeat the reference\<close>

lemma all_skip_parse:
  assumes "all_skip_loop n described r = Some r'" and "described \<le> n"
  shows "parse_modes (n - described) (r, rr, raw) = Inr (replicate (n - described) (BaseP, []), r', rr, raw)"
  using assms
proof (induction "n - described" arbitrary: described r rule: less_induct)
  case less
  show ?case
  proof (cases "described < n")
    case False
    with less.prems show ?thesis by (simp add: all_skip_loop.simps[of n n] parse_modes.simps[of 0])
  next
    case True
    with less.prems(1) obtain op r1 where op: "rd_u8 r = Inr (op, r1)" "op \<noteq> 0" "\<not> 0x7f < op" "\<not> n < described + unat op"
      and go: "all_skip_loop n (described + unat op) r1 = Some r'"
      by (auto simp: all_skip_loop.simps[of n described r] Let_def split: sum.splits if_splits)
    have "parse_modes (n - (described + unat op)) (r1, rr, raw) =
        Inr (replicate (n - (described + unat op)) (BaseP, []), r', rr, raw)"
      using go op unat_pos[OF op(2)] True by (intro less.hyps) auto
    moreover have "replicate (unat op) x @ replicate (n - (described + unat op)) x = replicate (n - described) x" for x :: mb_desc
      using op(4) by (simp flip: replicate_add)
    ultimately show ?thesis
      using op True by (auto simp: parse_modes.simps[of "n - described" r rr raw] not_less)
  qed
qed

lemma all_skip_parse_mbs:
  assumes "mode_stream_is_all_skip ms n"
  shows "parse_mbs n ms [] [] = Inr (replicate n (BaseP, []))"
proof -
  from assms obtain r where "all_skip_loop n 0 (reader_new ms) = Some r" "remaining (consume_optional_trailing_zero r) = 0"
    by (auto simp: mode_stream_is_all_skip_def split: option.splits)
  with all_skip_parse[OF this(1), of "reader_new []" "reader_new []"] show ?thesis by (simp add: parse_mbs_def)
qed

lemma header_reads:
  assumes "\<not> length (rest r) < FRAGMENT_HEADER_SIZE"
  shows "bindR (rd_u8 r) (\<lambda>(f0, r). bindR (rd_u8 r) (\<lambda>(f1, r). bindR (rd_u8 r) (\<lambda>(f2, r). bindR (rd_u8 r) (\<lambda>(f3, r).
      bindR (rd_u16 r) (\<lambda>(f4, r). bindR (rd_u16 r) (\<lambda>(f5, r). bindR (rd_u32 r) (\<lambda>(f6, r). bindR (rd_u32 r) (\<lambda>(f7, r).
      bindR (rd_u32 r) (\<lambda>(f8, r). bindR (rd_u32 r) (\<lambda>(f9, r). bindR (rd_u32 r) (\<lambda>(f10, r).
        k f0 f1 f2 f3 f4 f5 f6 f7 f8 f9 f10 r))))))))))) =
    (case frag_fields (rest r) of (f0, f1, f2, f3, f4, f5, f6, f7, f8, f9, f10) \<Rightarrow>
      k f0 f1 f2 f3 f4 f5 f6 f7 f8 f9 f10 (adv FRAGMENT_HEADER_SIZE r))"
proof -
  have len: "28 \<le> length (rest r)" using assms by (simp add: FRAGMENT_HEADER_SIZE_def)
  note u8 = rd_u8_at[of 0 r, unfolded adv_0] rd_u8_at[of 1 r] rd_u8_at[of 2 r] rd_u8_at[of 3 r]
    and u16 = rd_u16_at[of 4 r] rd_u16_at[of 6 r]
    and u32 = rd_u32_at[of 8 r] rd_u32_at[of 12 r] rd_u32_at[of 16 r] rd_u32_at[of 20 r] rd_u32_at[of 24 r]
  show ?thesis
    using len u8 u16 u32 by (cases "rest r = []") (simp_all add: frag_fields_def FRAGMENT_HEADER_SIZE_def flip: numeral_2_eq_2)
qed

lemma fragment_reuse_parse:
  assumes "fragment_payload_reuses_reference r tile_id segment_count = Inr (True, r')"
  shows "\<exists>start n. parse_fragment tile_id segment_count r = Inr ((start, replicate n (BaseP, [])), r')"
proof -
  have len: "\<not> length (rest r) < FRAGMENT_HEADER_SIZE"
    using assms by (auto simp: fragment_payload_reuses_reference_def length_rest split: if_splits)
  obtain ft rs rc fl st n ss ms res raw crc where f: "frag_fields (rest r) = (ft, rs, rc, fl, st, n, ss, ms, res, raw, crc)"
    by (metis prod.exhaust)
  have "parse_fragment tile_id segment_count r = Inr ((unat st, replicate (unat n) (BaseP, [])), r')"
    using assms unfolding fragment_payload_reuses_reference_def Let_def header_reads[OF len] f
    by (auto simp: len len[folded length_rest] parse_fragment_def parse_fragment_streams_def f rd_take_rest bindR_eq_Inr_iff
      all_skip_parse_mbs split: if_splits)
  then show ?thesis by blast
qed

end
