(* ===== verification/O3_Stream.thy ===== *)
theory O3_Stream
  imports O3_FragmentLaws
begin

text \<open>
  The stream layer of \<open>minidecoder/src/lib.rs\<close>: the writers of file, frame,
  tile and fragment headers, tiles and their reuse test, \<open>struct DecoderState\<close>
  with \<open>decode_next_frame\<close>, the whole-stream decoders and \<open>struct StreamDecoder\<close>.
\<close>

section \<open>Constants\<close>

definition FILE_MAGIC :: u32 where "FILE_MAGIC = from_le_bytes [0x4F, 0x33, 0x59, 0x56]"
definition FRAME_MAGIC :: u32 where "FRAME_MAGIC = from_le_bytes [0x46, 0x52, 0x4D, 0x31]"
definition FILE_HEADER_SIZE :: u16 where "FILE_HEADER_SIZE = 60"
definition FRAME_HEADER_SIZE :: nat where "FRAME_HEADER_SIZE = 28"
definition TILE_HEADER_SIZE :: nat where "TILE_HEADER_SIZE = 17"
definition LAZY_BASE_COPY_MAX_MB_PER_TILE :: nat where "LAZY_BASE_COPY_MAX_MB_PER_TILE = 288"
definition TILE_FLAG_LAZY_BASE_COPY :: u16 where "TILE_FLAG_LAZY_BASE_COPY = 0x0001"
definition SUPPORTED_TILE_FLAGS :: u16 where "SUPPORTED_TILE_FLAGS = TILE_FLAG_LAZY_BASE_COPY"
definition REFERENCE_REUSE_FRAME_PAYLOAD_MAX :: nat where "REFERENCE_REUSE_FRAME_PAYLOAD_MAX = 512"
definition FRAME_TYPE_KEY_RAW :: byte where "FRAME_TYPE_KEY_RAW = 0"
definition FRAME_TYPE_P :: byte where "FRAME_TYPE_P = 2"

section \<open>Encoded tiles and fragments\<close>

record encoded_fragment =
  ef_tile_id :: byte
  ef_row_start :: byte
  ef_row_count :: byte
  ef_start_mb :: u16
  ef_mb_count :: u16
  ef_segment_map_stream :: "byte list"
  ef_mode_stream :: "byte list"
  ef_residual_stream :: "byte list"
  ef_raw_stream :: "byte list"

definition EncodedFragment_full_eye :: "byte \<Rightarrow> byte list \<Rightarrow> byte list \<Rightarrow> byte list \<Rightarrow> encoded_fragment" where
  "EncodedFragment_full_eye tile_id mode_stream residual_stream raw_stream =
     \<lparr>ef_tile_id = tile_id, ef_row_start = 0, ef_row_count = of_nat MB_H,
      ef_start_mb = 0, ef_mb_count = of_nat MB_COUNT, ef_segment_map_stream = [],
      ef_mode_stream = mode_stream, ef_residual_stream = residual_stream, ef_raw_stream = raw_stream\<rparr>"

record encoded_tile =
  et_tile_id :: byte
  et_base_mv :: mv
  et_segment_count :: byte
  et_fragments :: "encoded_fragment list"

section \<open>Writers\<close>

definition write_file_header :: "byte list \<Rightarrow> u32 \<Rightarrow> byte list" where
  "write_file_header out frame_count =
     (let out = put_u32 out FILE_MAGIC;
          out = put_u16 out 1;
          out = put_u16 out 0;
          out = put_u16 out FILE_HEADER_SIZE;
          out = put_u16 out 0;
          out = put_u16 out (of_nat VISIBLE_W);
          out = put_u16 out (of_nat VISIBLE_H);
          out = put_u16 out (of_nat EYE_W);
          out = put_u16 out (of_nat EYE_H);
          out = put_u16 out 24;
          out = put_u16 out 1;
          out = out @ [0, 1, 1, 0];
          out = put_u32 out 16000000;
          out = put_u32 out 1048576;
          out = put_u32 out 131072;
          out = put_u32 out 288000;
          out = put_u16 out 48;
          out = put_u16 out 0;
          out = put_u32 out frame_count
      in put_u64 out 0)"

definition write_frame_header :: "byte list \<Rightarrow> u32 \<Rightarrow> u32 \<Rightarrow> byte \<Rightarrow> u32 \<Rightarrow> byte list" where
  "write_frame_header out payload_len frame_no frame_type cost =
     (let out = put_u32 out FRAME_MAGIC;
          out = put_u32 out payload_len;
          out = put_u32 out frame_no;
          out = put_u32 out frame_no;
          out = out @ [frame_type];
          out = out @ [2];
          out = out @ [0];
          out = out @ [0];
          out = put_u32 out 0
      in put_u32 out cost)"

definition write_key_raw_frame :: "byte list \<Rightarrow> u32 \<Rightarrow> sbs_frame \<Rightarrow> byte list" where
  "write_key_raw_frame out frame_no frame =
     (let payload = write_eye_raw [] (sbs_left frame);
          payload = write_eye_raw payload (sbs_right frame);
          out = write_frame_header out (of_nat (length payload)) frame_no FRAME_TYPE_KEY_RAW 0
      in out @ payload)"

definition write_fragment :: "byte list \<Rightarrow> encoded_fragment \<Rightarrow> byte list" where
  "write_fragment out fragment =
     (let out = out @ [ef_tile_id fragment];
          out = out @ [ef_row_start fragment];
          out = out @ [ef_row_count fragment];
          out = out @ [0];
          out = put_u16 out (ef_start_mb fragment);
          out = put_u16 out (ef_mb_count fragment);
          out = put_u32 out (of_nat (length (ef_segment_map_stream fragment)));
          out = put_u32 out (of_nat (length (ef_mode_stream fragment)));
          out = put_u32 out (of_nat (length (ef_residual_stream fragment)));
          out = put_u32 out (of_nat (length (ef_raw_stream fragment)));
          out = put_u32 out 0;
          out = out @ ef_segment_map_stream fragment;
          out = out @ ef_mode_stream fragment;
          out = out @ ef_residual_stream fragment
      in out @ ef_raw_stream fragment)"

text \<open>
  The \<open>for\<close> loop over the fragments with its two early returns: an unreadable
  mode stream counts as one more than the limit, and counting stops above it.
\<close>

primrec base_predictor_loop :: "encoded_fragment list \<Rightarrow> nat \<Rightarrow> nat" where
  "base_predictor_loop [] tot = tot"
| "base_predictor_loop (fragment # fragments) tot =
     (case count_base_predictor_mbs_in_modes (ef_mode_stream fragment) (unat (ef_start_mb fragment))
         (unat (ef_mb_count fragment)) (LAZY_BASE_COPY_MAX_MB_PER_TILE - tot) of
        Inl _ \<Rightarrow> LAZY_BASE_COPY_MAX_MB_PER_TILE + 1
      | Inr base_mbs \<Rightarrow>
          let tot = tot + base_mbs in
          if tot > LAZY_BASE_COPY_MAX_MB_PER_TILE then tot else base_predictor_loop fragments tot)"

definition encoded_tile_base_predictor_mbs :: "encoded_tile \<Rightarrow> nat" where
  "encoded_tile_base_predictor_mbs tile = base_predictor_loop (et_fragments tile) 0"

definition tile_flags_for_encoded_tile :: "encoded_tile \<Rightarrow> u16" where
  "tile_flags_for_encoded_tile tile =
     (if encoded_tile_base_predictor_mbs tile \<le> LAZY_BASE_COPY_MAX_MB_PER_TILE then TILE_FLAG_LAZY_BASE_COPY else 0)"

definition write_tile :: "byte list \<Rightarrow> encoded_tile \<Rightarrow> byte list" where
  "write_tile out tile =
     (let payload = fold (\<lambda>fragment payload. write_fragment payload fragment) (et_fragments tile) [];
          out = out @ [et_tile_id tile];
          out = out @ [0];
          out = out @ [0];
          out = out @ [of_nat MB_W];
          out = out @ [of_nat MB_H];
          out = out @ [mvX (et_base_mv tile)];
          out = out @ [mvY (et_base_mv tile)];
          out = out @ [64];
          out = out @ [64];
          out = out @ [et_segment_count tile];
          out = out @ [of_nat (length (et_fragments tile))];
          out = put_u16 out (tile_flags_for_encoded_tile tile);
          out = put_u32 out (of_nat (length payload))
      in out @ payload)"

definition write_p_frame :: "byte list \<Rightarrow> u32 \<Rightarrow> encoded_tile \<Rightarrow> encoded_tile \<Rightarrow> byte list" where
  "write_p_frame out frame_no left right =
     (let payload = write_tile [] left;
          payload = write_tile payload right;
          out = write_frame_header out (of_nat (length payload)) frame_no FRAME_TYPE_P 0
      in out @ payload)"

section \<open>The file header\<close>

definition parse_file_header :: "reader \<Rightarrow> reader result" where
  "parse_file_header r =
     bindR (rd_u32 r) (\<lambda>(magic, r).
     if magic \<noteq> FILE_MAGIC then Inl (Invalid ''bad file magic'')
     else
       bindR (rd_u16 r) (\<lambda>(major, r).
       bindR (rd_u16 r) (\<lambda>(minor, r).
       bindR (rd_u16 r) (\<lambda>(header_size, r).
       bindR (rd_u16 r) (\<lambda>(header_crc, r).
       bindR (rd_u16 r) (\<lambda>(visible_w, r).
       bindR (rd_u16 r) (\<lambda>(visible_h, r).
       bindR (rd_u16 r) (\<lambda>(eye_w, r).
       bindR (rd_u16 r) (\<lambda>(eye_h, r).
       bindR (rd_u16 r) (\<lambda>(fps_num, r).
       bindR (rd_u16 r) (\<lambda>(fps_den, r).
       bindR (rd_u8 r) (\<lambda>(pixel_format, r).
       bindR (rd_u8 r) (\<lambda>(stereo_mode, r).
       bindR (rd_u8 r) (\<lambda>(color_matrix, r).
       bindR (rd_u8 r) (\<lambda>(color_range, r).
       bindR (rd_u32 r) (\<lambda>(max_video_bitrate, r).
       bindR (rd_u32 r) (\<lambda>(cpb_size, r).
       bindR (rd_u32 r) (\<lambda>(max_p_frame, r).
       bindR (rd_u32 r) (\<lambda>(max_key_frame, r).
       bindR (rd_u16 r) (\<lambda>(keyint, r).
       bindR (rd_u16 r) (\<lambda>(flags, r).
       bindR (rd_u32 r) (\<lambda>(frame_count, r).
       bindR (rd_u64 r) (\<lambda>(index_offset, r).
       if major \<noteq> 1 \<or> minor \<noteq> 0 then
         Inl (Unsupported (''version '' @ dec (unat major) @ ''.'' @ dec (unat minor)))
       else if header_size < FILE_HEADER_SIZE then Inl (Invalid ''file header too small'')
       else if unat visible_w \<noteq> VISIBLE_W \<or> unat visible_h \<noteq> VISIBLE_H \<or> unat eye_w \<noteq> EYE_W \<or> unat eye_h \<noteq> EYE_H then
         Inl (Unsupported ''only 800x240 SBS / 400x240 eyes are supported'')
       else if fps_num \<noteq> 24 \<or> fps_den \<noteq> 1 \<or> pixel_format \<noteq> 0 \<or> stereo_mode \<noteq> 1 then
         Inl (Unsupported ''unsupported profile fields'')
       else if flags \<noteq> 0 then Inl (Unsupported ''file flags are not implemented yet'')
       else if unat header_size > unat FILE_HEADER_SIZE then
         rd_skip (unat header_size - unat FILE_HEADER_SIZE) r
       else Inr r)))))))))))))))))))))))"

section \<open>Tiles\<close>

definition decode_fragments ::
  "nat \<Rightarrow> byte \<Rightarrow> byte \<Rightarrow> base_copy_mode \<Rightarrow> eye_frame \<Rightarrow> reader \<Rightarrow> eye_frame \<Rightarrow> (reader \<times> eye_frame) result" where
  "decode_fragments n tile_id segment_count base_copy_mode ref_eye tr cur_eye =
     forR (\<lambda>_ (tr, cur_eye). decode_fragment tr tile_id segment_count base_copy_mode ref_eye cur_eye)
       [0..<n] (tr, cur_eye)"

definition decode_tile :: "reader \<Rightarrow> sbs_frame \<Rightarrow> sbs_frame \<Rightarrow> (reader \<times> sbs_frame) result" where
  "decode_tile r reference current =
     (if remaining r < TILE_HEADER_SIZE then Inl Eof
      else
        let header_start = rd_pos r;
            r = r\<lparr>rd_pos := rd_pos r + TILE_HEADER_SIZE\<rparr>;
            hd8 = (\<lambda>k. load_u8 (rd_bytes r) (header_start + k)) in
        bindR (hd8 0) (\<lambda>tile_id.
        bindR (hd8 1) (\<lambda>mb_x.
        bindR (hd8 2) (\<lambda>mb_y.
        bindR (hd8 3) (\<lambda>mb_w.
        bindR (hd8 4) (\<lambda>mb_h.
        bindR (hd8 5) (\<lambda>bx.
        bindR (hd8 6) (\<lambda>by. let base_mv = \<lparr>mvX = bx, mvY = by\<rparr> in
        bindR (hd8 7) (\<lambda>q_y.
        bindR (hd8 8) (\<lambda>q_uv.
        bindR (hd8 9) (\<lambda>segment_count.
        bindR (hd8 10) (\<lambda>fragment_count.
        bindR (load_u16_le (rd_bytes r) (header_start + 11)) (\<lambda>tile_flags.
        bindR (load_u32_le (rd_bytes r) (header_start + 13)) (\<lambda>payload_size. let payload_size = unat payload_size in
        if tile_id > 1 \<or> mb_x \<noteq> 0 \<or> mb_y \<noteq> 0 \<or> unat mb_w \<noteq> MB_W \<or> unat mb_h \<noteq> MB_H then
          Inl (Invalid ''invalid tile geometry'')
        else if q_y > 127 \<or> q_uv > 127 \<or> \<not> (1 \<le> segment_count \<and> segment_count \<le> 4) \<or> fragment_count = 0 \<or>
            tile_flags AND NOT SUPPORTED_TILE_FLAGS \<noteq> 0 then
          Inl (Unsupported ''unsupported tile options'')
        else if payload_size > remaining r then Inl Eof
        else
          bindR (rd_take payload_size r) (\<lambda>(payload, r).
          let ref_eye = (if tile_id = 0 then sbs_left reference else sbs_right reference);
              cur_eye = (if tile_id = 0 then sbs_left current else sbs_right current) in
          bindR (if tile_flags AND TILE_FLAG_LAZY_BASE_COPY \<noteq> 0 then Inr (Lazy base_mv, cur_eye)
                 else bindR (prefill_eye cur_eye ref_eye base_mv) (\<lambda>cur_eye. Inr (Prefilled, cur_eye)))
            (\<lambda>(base_copy_mode, cur_eye).
          let tr = reader_new payload in
          bindR (decode_fragments (unat fragment_count) tile_id segment_count base_copy_mode ref_eye tr cur_eye)
            (\<lambda>(tr, cur_eye).
          if remaining tr \<noteq> 0 then Inl (Invalid ''unconsumed tile payload'')
          else Inr (r, if tile_id = 0 then current\<lparr>sbs_left := cur_eye\<rparr> else current\<lparr>sbs_right := cur_eye\<rparr>))))))))))))))))))"

definition tile_reuses_reference :: "reader \<Rightarrow> (bool \<times> reader) result" where
  "tile_reuses_reference r =
     (if remaining r < TILE_HEADER_SIZE then Inl Eof
      else
        bindR (rd_u8 r) (\<lambda>(tile_id, r).
        bindR (rd_u8 r) (\<lambda>(mb_x, r).
        bindR (rd_u8 r) (\<lambda>(mb_y, r).
        bindR (rd_u8 r) (\<lambda>(mb_w, r).
        bindR (rd_u8 r) (\<lambda>(mb_h, r).
        bindR (rd_i8 r) (\<lambda>(bx, r).
        bindR (rd_i8 r) (\<lambda>(by, r). let base_mv = \<lparr>mvX = bx, mvY = by\<rparr> in
        bindR (rd_u8 r) (\<lambda>(q_y, r).
        bindR (rd_u8 r) (\<lambda>(q_uv, r).
        bindR (rd_u8 r) (\<lambda>(segment_count, r).
        bindR (rd_u8 r) (\<lambda>(fragment_count, r).
        bindR (rd_u16 r) (\<lambda>(tile_flags, r).
        bindR (rd_u32 r) (\<lambda>(payload_size, r). let payload_size = unat payload_size in
        if tile_id > 1 \<or> mb_x \<noteq> 0 \<or> mb_y \<noteq> 0 \<or> unat mb_w \<noteq> MB_W \<or> unat mb_h \<noteq> MB_H \<or>
            q_y > 127 \<or> q_uv > 127 \<or> \<not> (1 \<le> segment_count \<and> segment_count \<le> 4) \<or> fragment_count = 0 \<or>
            tile_flags AND NOT SUPPORTED_TILE_FLAGS \<noteq> 0 then
          Inl Eof
        else if base_mv \<noteq> mv_zero then Inr (False, r)
        else
          bindR (rd_take payload_size r) (\<lambda>(payload, r).
          Inr (tile_payload_reuses_reference payload tile_id segment_count fragment_count, r))))))))))))))))"

primrec p_reuse_loop :: "nat \<Rightarrow> reader \<Rightarrow> bool" where
  "p_reuse_loop 0 r = (remaining r = 0)"
| "p_reuse_loop (Suc n) r =
     (case tile_reuses_reference r of
        Inl _ \<Rightarrow> False
      | Inr (identity, r) \<Rightarrow> if \<not> identity then False else p_reuse_loop n r)"

definition p_payload_reuses_reference :: "byte list \<Rightarrow> byte \<Rightarrow> bool" where
  "p_payload_reuses_reference payload tile_count = p_reuse_loop (unat tile_count) (reader_new payload)"

section \<open>The decoder state\<close>

record decoder_state =
  ds_reference :: sbs_frame
  ds_current :: sbs_frame
  ds_has_reference :: bool

definition DecoderState_new :: decoder_state where
  "DecoderState_new = \<lparr>ds_reference = SbsFrame_new, ds_current = SbsFrame_new, ds_has_reference = False\<rparr>"

definition DecoderState_reset :: "decoder_state \<Rightarrow> decoder_state" where
  "DecoderState_reset st = st\<lparr>ds_has_reference := False\<rparr>"

record decoded_frame =
  df_frame_no :: u32
  df_frame_type :: byte
  df_frame :: sbs_frame

definition decode_p_tiles :: "byte list \<Rightarrow> sbs_frame \<Rightarrow> sbs_frame \<Rightarrow> sbs_frame result" where
  "decode_p_tiles payload reference current =
     bindR (forR (\<lambda>_ (pr, current). decode_tile pr reference current) [0..<2] (reader_new payload, current)) (\<lambda>(pr, current).
     if remaining pr \<noteq> 0 then Inl (Invalid ''unconsumed P-frame payload'') else Inr current)"

text \<open>\<open>checked_add\<close> on a 64-bit \<open>usize\<close>.\<close>

definition checked_add :: "nat \<Rightarrow> nat \<Rightarrow> nat option" where
  "checked_add a b = (if a + b < 2 ^ 64 then Some (a + b) else None)"

definition decode_next_frame ::
  "reader \<Rightarrow> decoder_state \<Rightarrow> (decoded_frame option \<times> reader \<times> decoder_state) result" where
  "decode_next_frame r st =
     (if remaining r = 0 then Inr (None, r, st)
      else if remaining r < FRAME_HEADER_SIZE then Inl Eof
      else
        let frame_start = rd_pos r;
            r = r\<lparr>rd_pos := rd_pos r + FRAME_HEADER_SIZE\<rparr>;
            hd8 = (\<lambda>k. load_u8 (rd_bytes r) (frame_start + k));
            hd32 = (\<lambda>k. load_u32_le (rd_bytes r) (frame_start + k)) in
        bindR (hd32 0) (\<lambda>start_code.
        if start_code \<noteq> FRAME_MAGIC then Inl (Invalid ''bad frame start code'')
        else
        bindR (hd32 4) (\<lambda>frame_size. let frame_size = unat frame_size in
        bindR (hd32 8) (\<lambda>frame_no.
        bindR (hd8 16) (\<lambda>frame_type.
        bindR (hd8 17) (\<lambda>tile_count.
        bindR (hd8 18) (\<lambda>flags.
        bindR (hd8 19) (\<lambda>reserved.
        if flags \<noteq> 0 \<or> reserved \<noteq> 0 then
          Inl (Invalid (''reserved frame bits set at frame '' @ dec (unat frame_no)))
        else
          let payload_start = frame_start + FRAME_HEADER_SIZE in
          case checked_add payload_start frame_size of
            None \<Rightarrow> Inl (Invalid ''frame size overflow'')
          | Some payload_end \<Rightarrow>
              if payload_end > length (rd_bytes r) then Inl Eof
              else
                bindR (slice_at (rd_bytes r) payload_start frame_size) (\<lambda>payload.
                let finish = (\<lambda>current.
                      let st' = st\<lparr>ds_reference := current, ds_current := ds_reference st, ds_has_reference := True\<rparr>
                      in Inr (Some \<lparr>df_frame_no = frame_no, df_frame_type = frame_type, df_frame = ds_reference st'\<rparr>,
                              r\<lparr>rd_pos := payload_end\<rparr>, st')) in
                if frame_type = FRAME_TYPE_KEY_RAW then
                  if tile_count \<noteq> 2 then Inl (Invalid ''KEY_RAW tile_count must be 2'')
                  else if frame_size \<noteq> SBS_FRAME_BYTES then
                    Inl (Invalid (''KEY_RAW payload must be '' @ dec SBS_FRAME_BYTES @ '' bytes, got '' @ dec frame_size))
                  else
                    bindR (read_eye_raw_from_stream (sbs_left (ds_current st)) (rd_bytes r) payload_start) (\<lambda>left.
                    bindR (read_eye_raw_from_stream (sbs_right (ds_current st)) (rd_bytes r) (payload_start + EYE_FRAME_BYTES))
                      (\<lambda>right.
                    finish ((ds_current st)\<lparr>sbs_left := left, sbs_right := right\<rparr>)))
                else if frame_type = FRAME_TYPE_P then
                  if tile_count \<noteq> 2 then Inl (Invalid ''P-frame tile_count must be 2'')
                  else if \<not> ds_has_reference st then
                    Inl (Invalid ''P-frame cannot appear before a reference frame'')
                  else if frame_size \<le> REFERENCE_REUSE_FRAME_PAYLOAD_MAX \<and> p_payload_reuses_reference payload tile_count then
                    Inr (Some \<lparr>df_frame_no = frame_no, df_frame_type = frame_type, df_frame = ds_reference st\<rparr>,
                         r\<lparr>rd_pos := payload_end\<rparr>, st)
                  else
                    bindR (decode_p_tiles payload (ds_reference st) (ds_current st)) finish
                else Inl (Unsupported (''frame type '' @ dec (unat frame_type))))))))))))"

end
