(* ===== verification/O3_Tile.thy ===== *)
theory O3_Tile
  imports O3_Stream
begin

text \<open>
  Laws of tiles: \<open>decode_tile\<close> is \<open>parse_tile\<close> followed by \<open>put_tile\<close>; a tile
  without the lazy flag, or whose fragments cover the eye, is independent of
  what the scratch frame held; with disjoint covering fragments the lazy flag
  makes no difference; and a tile recognised by \<open>tile_reuses_reference\<close> parses
  into skipped macroblocks with a zero base vector.
\<close>

section \<open>Fragments of a tile\<close>

type_synonym frag_ast = "nat \<times> mb_desc list"

definition parse_fragments :: "nat \<Rightarrow> byte \<Rightarrow> byte \<Rightarrow> reader \<Rightarrow> (frag_ast list \<times> reader) result" where
  "parse_fragments n tile_id segment_count tr =
     forR (\<lambda>_ (fs, tr). bindR (parse_fragment tile_id segment_count tr) (\<lambda>(f, tr). Inr (fs @ [f], tr))) [0..<n] ([], tr)"

definition put_frag :: "base_copy_mode \<Rightarrow> eye_frame \<Rightarrow> frag_ast \<Rightarrow> eye_frame \<Rightarrow> eye_frame" where
  "put_frag base reference f = put_mbs base reference (fst f) (snd f)"

abbreviation put_frags :: "base_copy_mode \<Rightarrow> eye_frame \<Rightarrow> frag_ast list \<Rightarrow> eye_frame \<Rightarrow> eye_frame" where
  "put_frags base reference \<equiv> fold (put_frag base reference)"

definition frag_mbs :: "frag_ast \<Rightarrow> nat set" where
  "frag_mbs f = {fst f..<fst f + length (snd f)}"

definition covered :: "frag_ast list \<Rightarrow> nat set" where
  "covered fs = \<Union> (frag_mbs ` set fs)"

lemma covered_simps [simp]: "covered [] = {}" "covered (f # fs) = frag_mbs f \<union> covered fs"
  by (simp_all add: covered_def)

primrec disjoint_frags :: "frag_ast list \<Rightarrow> bool" where
  "disjoint_frags [] \<longleftrightarrow> True"
| "disjoint_frags (f # fs) \<longleftrightarrow> frag_mbs f \<inter> covered fs = {} \<and> disjoint_frags fs"

lemma parse_fragments_Suc:
  "parse_fragments (Suc n) t sc tr = bindR (parse_fragments n t sc tr) (\<lambda>(fs, tr).
     bindR (parse_fragment t sc tr) (\<lambda>(f, tr). Inr (fs @ [f], tr)))"
  by (simp add: parse_fragments_def forR_append split_def)

lemma parse_fragments_parses:
  "parses (\<lambda>fs. length fs = n \<and> (\<forall>f\<in>set fs. frag_ok f)) tr (parse_fragments n t sc tr)"
proof (induction n)
  case (Suc n)
  show ?case
    unfolding parse_fragments_Suc
    by (rule parses_bind[OF Suc], unfold prod.case, rule parses_bind[OF parse_fragment_parses]) auto
qed (simp add: parse_fragments_def)

lemma wf_put_frag [simp]: "wf_eye (put_frag base reference f e) = wf_eye e"
  by (simp add: put_frag_def)

lemma wf_put_frags [simp]: "wf_eye (put_frags base reference fs e) = wf_eye e"
  by (induction fs arbitrary: e) auto

lemma decode_fragment_frag:
  assumes "wf_eye reference" and "wf_eye e"
  shows "decode_fragment r t sc base reference e =
    bindR (parse_fragment t sc r) (\<lambda>(f, r). Inr (r, put_frag base reference f e))"
  using assms by (simp add: decode_fragment_ok put_frag_def split_def)

lemma decode_fragments_ok:
  assumes "wf_eye reference" and "wf_eye e"
  shows "decode_fragments n t sc base reference tr e =
    bindR (parse_fragments n t sc tr) (\<lambda>(fs, tr). Inr (tr, put_frags base reference fs e))"
proof (induction n)
  case (Suc n)
  have "decode_fragments (Suc n) t sc base reference tr e =
      bindR (decode_fragments n t sc base reference tr e) (\<lambda>(tr, e). decode_fragment tr t sc base reference e)"
    by (simp add: decode_fragments_def forR_append split_def)
  then show ?case
    using assms by (simp add: Suc parse_fragments_Suc bindR_assoc split_def decode_fragment_frag)
qed (simp add: decode_fragments_def parse_fragments_def)

section \<open>Independence of the scratch frame\<close>

lemma agree_put_frag_outside:
  assumes "wf_eye e" and "frag_ok f"
  shows "agree (- frag_mbs f) (put_frag base reference f e) e"
  using assms agree_put_mbs_outside[of e "fst f" "snd f"]
  by (cases f) (auto simp: frag_ok_def frag_mbs_def put_frag_def)

lemma agree_put_frags_outside:
  assumes "wf_eye e" and "\<forall>f\<in>set fs. frag_ok f"
  shows "agree (- covered fs) (put_frags base reference fs e) e"
  using assms
proof (induction fs arbitrary: e)
  case (Cons f fs)
  have "agree (- covered fs) (put_frags base reference fs (put_frag base reference f e)) (put_frag base reference f e)"
    using Cons by simp
  then have "agree (- covered (f # fs)) (put_frags base reference fs (put_frag base reference f e)) (put_frag base reference f e)"
    by (rule agree_mono) auto
  moreover have "agree (- covered (f # fs)) (put_frag base reference f e) e"
    using agree_put_frag_outside[of e f] Cons.prems by (auto intro: agree_mono)
  ultimately show ?case by (auto intro: agree_trans)
qed simp

lemma put_frag_agree:
  assumes "wf_eye d1" and "wf_eye d2" and "frag_ok f"
    and "\<forall>m\<in>frag_mbs f. base_matches base1 d1 m base2 d2 reference"
  shows "agree (frag_mbs f) (put_frag base1 reference f d1) (put_frag base2 reference f d2)"
  using assms put_mbs_agree[of d1 d2 "snd f" "fst f"]
  by (cases f) (auto simp: frag_ok_def frag_mbs_def put_frag_def)

lemma lazy_matches:
  assumes "wf_eye d1" and "wf_eye d2"
  shows "base_matches (Lazy mv) d1 m (Lazy mv) d2 reference"
  using agree_mc_region[OF assms, of "{m}" "{m}"] by (simp add: base_matches_def)

lemma same_matches:
  assumes "wf_eye d1" and "wf_eye d2" and "agree {m} d1 d2"
  shows "base_matches base d1 m base d2 reference"
  using assms lazy_matches[OF assms(1,2)] by (cases base) (auto simp: base_matches_def)

text \<open>Equal fragments keep the macroblocks on which two frames agree.\<close>

lemma put_frags_agree_keep:
  assumes "wf_eye d1" and "wf_eye d2" and "\<forall>f\<in>set fs. frag_ok f" and "agree S d1 d2"
    and "\<forall>m. m \<notin> S \<longrightarrow> base = Prefilled \<longrightarrow> m \<notin> covered fs"
  shows "agree (S \<union> covered fs) (put_frags base reference fs d1) (put_frags base reference fs d2)"
  using assms
proof (induction fs arbitrary: d1 d2 S)
  case (Cons f fs)
  let ?d1 = "put_frag base reference f d1" and ?d2 = "put_frag base reference f d2"
  have f: "frag_ok f" using Cons.prems by simp
  have m: "base_matches base d1 m base d2 reference" if "m \<in> frag_mbs f" for m
  proof (cases base)
    case Prefilled
    then have "agree {m} d1 d2" using Cons.prems(4,5) that by (auto intro: agree_mono)
    then show ?thesis by (rule same_matches[OF Cons.prems(1,2)])
  next
    case (Lazy mv)
    then show ?thesis using lazy_matches[OF Cons.prems(1,2)] by simp
  qed
  have "agree (frag_mbs f) ?d1 ?d2" using m by (intro put_frag_agree Cons.prems(1,2) f) auto
  moreover have "agree (S - frag_mbs f) ?d1 ?d2"
    by (rule agree_frames[OF agree_put_frag_outside[OF Cons.prems(1) f] agree_put_frag_outside[OF Cons.prems(2) f] Cons.prems(4)])
  ultimately have "agree (frag_mbs f \<union> S) ?d1 ?d2" by (rule agree_join)
  then have "agree (frag_mbs f \<union> S \<union> covered fs) (put_frags base reference fs ?d1) (put_frags base reference fs ?d2)"
    using Cons.prems by (intro Cons.IH) auto
  moreover have "frag_mbs f \<union> S \<union> covered fs = S \<union> covered (f # fs)" by auto
  ultimately show ?case by simp
qed simp

lemma put_frags_lazy_independent:
  assumes "wf_eye d1" and "wf_eye d2" and "\<forall>f\<in>set fs. frag_ok f"
  shows "agree (covered fs) (put_frags (Lazy mv) reference fs d1) (put_frags (Lazy mv) reference fs d2)"
  using put_frags_agree_keep[OF assms agree_empty, of "Lazy mv"] by simp

text \<open>
  With disjoint fragments, copying the base lazily is the same as prefilling.
\<close>

lemma prefilled_matches_lazy:
  assumes "wf_eye d1" and "wf_eye d2" and "wf_eye d0" and "agree {m} d2 (mc_region UNIV mv reference d0)"
  shows "base_matches (Lazy mv) d1 m Prefilled d2 reference"
  using agree_trans[OF mc_region_self[OF assms(1,3)] agree_sym[OF assms(4)]] by (simp add: base_matches_def)

lemma put_frags_lazy_prefilled:
  assumes "wf_eye d1" and "wf_eye d2" and "wf_eye d0" and "\<forall>f\<in>set fs. frag_ok f" and "disjoint_frags fs"
    and "agree (covered fs) d2 (mc_region UNIV mv reference d0)"
  shows "agree (covered fs) (put_frags (Lazy mv) reference fs d1) (put_frags Prefilled reference fs d2)"
  using assms
proof (induction fs arbitrary: d1 d2)
  case (Cons f fs)
  let ?d1 = "put_frag (Lazy mv) reference f d1" and ?d2 = "put_frag Prefilled reference f d2"
  have f: "frag_ok f" and fs: "\<forall>f\<in>set fs. frag_ok f" and dis: "frag_mbs f \<inter> covered fs = {}" "disjoint_frags fs"
    using Cons.prems by auto
  note w1 = Cons.prems(1) and w2 = Cons.prems(2)
  have "agree {m} d2 (mc_region UNIV mv reference d0)" if "m \<in> covered (f # fs)" for m
    using Cons.prems(6) that by (auto intro: agree_mono)
  then have "agree (frag_mbs f) ?d1 ?d2"
    by (intro put_frag_agree w1 w2 f ballI prefilled_matches_lazy[OF w1 w2 assms(3)]) auto
  moreover have "agree (frag_mbs f) (put_frags base reference fs e) e" if "wf_eye e" for base e
    using agree_put_frags_outside[OF that fs] dis(1) by (auto intro: agree_mono)
  ultimately have 1: "agree (frag_mbs f) (put_frags (Lazy mv) reference fs ?d1) (put_frags Prefilled reference fs ?d2)"
    using w1 w2 by (meson agree_trans agree_sym wf_put_frag)
  have "agree (covered fs) ?d2 d2"
    using agree_put_frag_outside[OF w2 f] dis(1) by (auto intro: agree_mono)
  moreover have "agree (covered fs) d2 (mc_region UNIV mv reference d0)"
    using Cons.prems(6) by (auto intro: agree_mono)
  ultimately have "agree (covered fs) ?d2 (mc_region UNIV mv reference d0)" by (rule agree_trans)
  then have "agree (covered fs) (put_frags (Lazy mv) reference fs ?d1) (put_frags Prefilled reference fs ?d2)"
    using w1 w2 fs dis(2) by (intro Cons.IH assms(3)) auto
  with 1 show ?case by (simp add: agree_Un)
qed simp

section \<open>Tiles\<close>

record tile_ast =
  ta_id :: byte
  ta_base :: mv
  ta_lazy :: bool
  ta_frags :: "frag_ast list"

definition tile_ok :: "tile_ast \<Rightarrow> bool" where
  "tile_ok t \<longleftrightarrow> ta_id t \<le> 1 \<and> (\<forall>f\<in>set (ta_frags t). frag_ok f)"

type_synonym tile_fields =
  "byte \<times> byte \<times> byte \<times> byte \<times> byte \<times> mv \<times> byte \<times> byte \<times> byte \<times> byte \<times> u16 \<times> u32"

definition tile_fields :: "byte list \<Rightarrow> tile_fields" where
  "tile_fields h = (h ! 0, h ! 1, h ! 2, h ! 3, h ! 4, \<lparr>mvX = h ! 5, mvY = h ! 6\<rparr>, h ! 7, h ! 8, h ! 9, h ! 10,
     from_le_bytes (take 2 (drop 11 h)), from_le_bytes (take 4 (drop 13 h)))"

definition parse_tile :: "reader \<Rightarrow> (tile_ast \<times> reader) result" where
  "parse_tile r =
     (if length (rest r) < TILE_HEADER_SIZE then Inl Eof
      else case tile_fields (rest r) of (tile_id, mb_x, mb_y, mb_w, mb_h, base_mv, q_y, q_uv, segment_count,
          fragment_count, tile_flags, payload_size) \<Rightarrow>
        if tile_id > 1 \<or> mb_x \<noteq> 0 \<or> mb_y \<noteq> 0 \<or> unat mb_w \<noteq> MB_W \<or> unat mb_h \<noteq> MB_H then
          Inl (Invalid ''invalid tile geometry'')
        else if q_y > 127 \<or> q_uv > 127 \<or> \<not> (1 \<le> segment_count \<and> segment_count \<le> 4) \<or> fragment_count = 0 \<or>
            tile_flags AND NOT SUPPORTED_TILE_FLAGS \<noteq> 0 then
          Inl (Unsupported ''unsupported tile options'')
        else
          bindR (rd_take (unat payload_size) (adv TILE_HEADER_SIZE r)) (\<lambda>(payload, r).
          bindR (parse_fragments (unat fragment_count) tile_id segment_count (reader_new payload)) (\<lambda>(fs, tr).
          if remaining tr \<noteq> 0 then Inl (Invalid ''unconsumed tile payload'')
          else Inr (\<lparr>ta_id = tile_id, ta_base = base_mv, ta_lazy = (tile_flags AND TILE_FLAG_LAZY_BASE_COPY \<noteq> 0),
                     ta_frags = fs\<rparr>, r))))"

definition eye_of :: "byte \<Rightarrow> sbs_frame \<Rightarrow> eye_frame" where
  "eye_of tile_id f = (if tile_id = 0 then sbs_left f else sbs_right f)"

definition set_eye :: "byte \<Rightarrow> eye_frame \<Rightarrow> sbs_frame \<Rightarrow> sbs_frame" where
  "set_eye tile_id e f = (if tile_id = 0 then f\<lparr>sbs_left := e\<rparr> else f\<lparr>sbs_right := e\<rparr>)"

definition tile_eye :: "tile_ast \<Rightarrow> eye_frame \<Rightarrow> eye_frame \<Rightarrow> eye_frame" where
  "tile_eye t reference e =
     (if ta_lazy t then put_frags (Lazy (ta_base t)) reference (ta_frags t) e
      else put_frags Prefilled reference (ta_frags t) (mc_region UNIV (ta_base t) reference e))"

definition put_tile :: "sbs_frame \<Rightarrow> tile_ast \<Rightarrow> sbs_frame \<Rightarrow> sbs_frame" where
  "put_tile reference t current =
     set_eye (ta_id t) (tile_eye t (eye_of (ta_id t) reference) (eye_of (ta_id t) current)) current"

lemma wf_tile_eye [simp]: "wf_eye (tile_eye t reference e) = wf_eye e"
  by (simp add: tile_eye_def)

lemma wf_eye_of: "wf_sbs f \<Longrightarrow> wf_eye (eye_of i f)"
  by (simp add: wf_sbs_def eye_of_def)

lemma wf_put_tile: "wf_sbs current \<Longrightarrow> wf_sbs (put_tile reference t current)"
  by (simp add: put_tile_def set_eye_def wf_sbs_def eye_of_def)

lemma tile_loads:
  assumes "\<not> length (rest r) < TILE_HEADER_SIZE"
  shows "load_u8 (rd_bytes r) (rd_pos r + 0) = Inr (rest r ! 0)"
    "load_u8 (rd_bytes r) (rd_pos r + 1) = Inr (rest r ! 1)"
    "load_u8 (rd_bytes r) (rd_pos r + 2) = Inr (rest r ! 2)"
    "load_u8 (rd_bytes r) (rd_pos r + 3) = Inr (rest r ! 3)"
    "load_u8 (rd_bytes r) (rd_pos r + 4) = Inr (rest r ! 4)"
    "load_u8 (rd_bytes r) (rd_pos r + 5) = Inr (rest r ! 5)"
    "load_u8 (rd_bytes r) (rd_pos r + 6) = Inr (rest r ! 6)"
    "load_u8 (rd_bytes r) (rd_pos r + 7) = Inr (rest r ! 7)"
    "load_u8 (rd_bytes r) (rd_pos r + 8) = Inr (rest r ! 8)"
    "load_u8 (rd_bytes r) (rd_pos r + 9) = Inr (rest r ! 9)"
    "load_u8 (rd_bytes r) (rd_pos r + 10) = Inr (rest r ! 10)"
    "load_u16_le (rd_bytes r) (rd_pos r + 11) = Inr (from_le_bytes (take 2 (drop 11 (rest r))))"
    "load_u32_le (rd_bytes r) (rd_pos r + 13) = Inr (from_le_bytes (take 4 (drop 13 (rest r))))"
  using assms by (simp_all only: load_u8_rest load_u16_rest load_u32_rest TILE_HEADER_SIZE_def)

lemma take_guard: "(if n > remaining r then Inl Eof else bindR (rd_take n r) k) = bindR (rd_take n r) k"
  by (simp add: rd_take_def)

lemma bindR_if_Inl: "bindR (if b then Inl e else m) k = (if b then Inl e else bindR m k)"
  by simp

lemma tile_body:
  assumes "wf_sbs reference" and "wf_sbs current"
  shows "bindR (if tf AND TILE_FLAG_LAZY_BASE_COPY \<noteq> 0 then Inr (Lazy mv, if tid = 0 then sbs_left current else sbs_right current)
        else bindR (prefill_eye (if tid = 0 then sbs_left current else sbs_right current)
            (if tid = 0 then sbs_left reference else sbs_right reference) mv) (\<lambda>cur_eye. Inr (Prefilled, cur_eye)))
      (\<lambda>(base, cur_eye). bindR (decode_fragments n tid sc base (if tid = 0 then sbs_left reference else sbs_right reference) tr cur_eye)
        (\<lambda>(tr, cur_eye). if remaining tr \<noteq> 0 then Inl (Invalid ''unconsumed tile payload'')
          else Inr (r', if tid = 0 then current\<lparr>sbs_left := cur_eye\<rparr> else current\<lparr>sbs_right := cur_eye\<rparr>))) =
    bindR (parse_fragments n tid sc tr) (\<lambda>(fs, tr). if remaining tr \<noteq> 0 then Inl (Invalid ''unconsumed tile payload'')
      else Inr (r', put_tile reference \<lparr>ta_id = tid, ta_base = mv, ta_lazy = (tf AND TILE_FLAG_LAZY_BASE_COPY \<noteq> 0), ta_frags = fs\<rparr> current))"
proof -
  have w: "wf_eye (eye_of tid reference)" "wf_eye (eye_of tid current)" using assms by (simp_all add: wf_eye_of)
  show ?thesis
    unfolding eye_of_def[symmetric] set_eye_def[symmetric]
    using w by (cases "tf AND TILE_FLAG_LAZY_BASE_COPY = 0")
      (auto simp: prefill_eye_ok decode_fragments_ok bindR_assoc put_tile_def tile_eye_def intro!: bindR_cong)
qed

lemma decode_tile_ok:
  assumes "wf_sbs reference" and "wf_sbs current"
  shows "decode_tile r reference current = bindR (parse_tile r) (\<lambda>(t, r). Inr (r, put_tile reference t current))"
proof (cases "length (rest r) < TILE_HEADER_SIZE")
  case True
  then show ?thesis by (simp add: decode_tile_def parse_tile_def length_rest)
next
  case False
  have case_bind: "bindR (case p of (a, b) \<Rightarrow> f a b) k = (case p of (a, b) \<Rightarrow> bindR (f a b) k)"
    for p :: "byte list \<times> reader" and f and k :: "tile_ast \<times> reader \<Rightarrow> (reader \<times> sbs_frame) result"
    by (cases p) simp
  have case_bind': "bindR (case p of (a, b) \<Rightarrow> f a b) k = (case p of (a, b) \<Rightarrow> bindR (f a b) k)"
    for p :: "frag_ast list \<times> reader" and f and k :: "tile_ast \<times> reader \<Rightarrow> (reader \<times> sbs_frame) result"
    by (cases p) simp
  note loads = tile_loads[OF False]
  show ?thesis
    unfolding decode_tile_def parse_tile_def tile_fields_def prod.case if_not_P[OF False] if_not_P[OF False[unfolded length_rest]]
      Let_def adv_def[symmetric] rd_bytes_adv loads bindR_simps take_guard tile_body[OF assms] bindR_if_Inl bindR_assoc
      case_bind case_bind' ..
qed

lemma byte_le_1: "\<not> 1 < (b :: byte) \<longleftrightarrow> b \<le> 1"
  by (simp add: not_less)

lemma parse_tile_parses: "parses tile_ok r (parse_tile r)"
proof (cases "length (rest r) < TILE_HEADER_SIZE")
  case False
  then have "TILE_HEADER_SIZE \<le> length (rest r)" by simp
  then show ?thesis
    unfolding parse_tile_def tile_fields_def prod.case if_not_P[OF False]
  proof (rule parses_after, intro parses_if)
    assume "\<not> (1 < rest r ! 0 \<or> rest r ! 1 \<noteq> 0 \<or> rest r ! 2 \<noteq> 0 \<or> unat (rest r ! 3) \<noteq> MB_W \<or> unat (rest r ! 4) \<noteq> MB_H)"
    then have id: "rest r ! 0 \<le> 1" by (simp add: byte_le_1)
    show "parses tile_ok (adv TILE_HEADER_SIZE r)
      (bindR (rd_take (unat (from_le_bytes (take 4 (drop 13 (rest r))) :: u32)) (adv TILE_HEADER_SIZE r)) (\<lambda>(payload, ra).
        bindR (parse_fragments (unat (rest r ! 10)) (rest r ! 0) (rest r ! 9) (reader_new payload)) (\<lambda>(fs, tr).
          if remaining tr \<noteq> 0 then Inl (Invalid ''unconsumed tile payload'')
          else Inr (\<lparr>ta_id = rest r ! 0, ta_base = \<lparr>mvX = rest r ! 5, mvY = rest r ! 6\<rparr>,
              ta_lazy = (from_le_bytes (take 2 (drop 11 (rest r))) AND TILE_FLAG_LAZY_BASE_COPY \<noteq> 0), ta_frags = fs\<rparr>, ra))))"
    proof (rule parses_bind[OF parses_take], unfold prod.case)
      fix payload r'
      show "parses tile_ok r' (bindR (parse_fragments (unat (rest r ! 10)) (rest r ! 0) (rest r ! 9) (reader_new payload)) (\<lambda>(fs, tr).
          if remaining tr \<noteq> 0 then Inl (Invalid ''unconsumed tile payload'')
          else Inr (\<lparr>ta_id = rest r ! 0, ta_base = \<lparr>mvX = rest r ! 5, mvY = rest r ! 6\<rparr>,
              ta_lazy = (from_le_bytes (take 2 (drop 11 (rest r))) AND TILE_FLAG_LAZY_BASE_COPY \<noteq> 0), ta_frags = fs\<rparr>, r')))"
        using parse_fragments_parses[of "unat (rest r ! 10)" "reader_new payload" "rest r ! 0" "rest r ! 9"] id
        by (cases "parse_fragments (unat (rest r ! 10)) (rest r ! 0) (rest r ! 9) (reader_new payload)")
          (auto simp: parses_def tile_ok_def)
    qed
  qed simp_all
qed (simp add: parse_tile_def)

section \<open>What a tile's result depends on\<close>

definition tile_region :: "tile_ast \<Rightarrow> nat set" where
  "tile_region t = (if ta_lazy t then covered (ta_frags t) else UNIV)"

lemma tile_eye_independent:
  assumes "wf_eye d1" and "wf_eye d2" and "tile_ok t"
  shows "agree (tile_region t) (tile_eye t reference d1) (tile_eye t reference d2)"
proof (cases "ta_lazy t")
  case True
  then show ?thesis using assms put_frags_lazy_independent by (simp add: tile_eye_def tile_ok_def tile_region_def)
next
  case False
  have "agree UNIV (mc_region UNIV (ta_base t) reference d1) (mc_region UNIV (ta_base t) reference d2)"
    using agree_mc_region[OF assms(1,2), of UNIV UNIV] by simp
  then have "agree (UNIV \<union> covered (ta_frags t)) (put_frags Prefilled reference (ta_frags t) (mc_region UNIV (ta_base t) reference d1))
      (put_frags Prefilled reference (ta_frags t) (mc_region UNIV (ta_base t) reference d2))"
    using assms by (intro put_frags_agree_keep) (auto simp: tile_ok_def)
  then have "agree (UNIV \<union> covered (ta_frags t)) (tile_eye t reference d1) (tile_eye t reference d2)"
    using False by (simp add: tile_eye_def)
  with False show ?thesis by (simp add: tile_region_def)
qed

lemma tile_eye_lazy_flag:
  assumes "wf_eye d1" and "wf_eye d2" and "tile_ok t" and "disjoint_frags (ta_frags t)"
  shows "agree (covered (ta_frags t)) (tile_eye (t\<lparr>ta_lazy := True\<rparr>) reference d1) (tile_eye (t\<lparr>ta_lazy := False\<rparr>) reference d2)"
  using assms by (auto simp: tile_eye_def tile_ok_def intro!: put_frags_lazy_prefilled[where ?d0.0 = d2])

section \<open>Tiles that only repeat the reference\<close>

definition all_skipped :: "frag_ast list \<Rightarrow> bool" where
  "all_skipped fs \<longleftrightarrow> (\<forall>f\<in>set fs. snd f = replicate (length (snd f)) (BaseP, []))"

lemma mc_zero_agree:
  assumes "wf_eye reference" and "wf_eye e"
  shows "agree S (mc_region S mv_zero reference e) reference"
  using assms by (auto simp: agree_def mc_region_def nth_mc_copy wf_eye_def mc_index_zero EYE_Y_BYTES_def EYE_CHROMA_BYTES_def)

lemma put_frag_skipped:
  assumes "snd f = replicate (length (snd f)) (BaseP, [])"
  shows "put_frag base reference f e = (case base of Prefilled \<Rightarrow> e | Lazy mv \<Rightarrow> mc_region (frag_mbs f) mv reference e)"
proof -
  have "put_frag base reference f e = put_mbs base reference (fst f) (replicate (length (snd f)) (BaseP, [])) e"
    unfolding put_frag_def using assms by simp
  then show ?thesis by (cases base) (simp_all add: put_mbs_skips frag_mbs_def)
qed

lemma put_frags_skipped:
  assumes "all_skipped fs"
  shows "put_frags base reference fs e = (case base of Prefilled \<Rightarrow> e | Lazy mv \<Rightarrow> mc_region (covered fs) mv reference e)"
  using assms
proof (induction fs arbitrary: e)
  case (Cons f fs)
  then show ?case
    by (simp add: all_skipped_def put_frag_skipped split: base_copy_mode.split) (auto simp: mc_region_Un Un_commute)
qed (simp split: base_copy_mode.split)

lemma tile_eye_skipped:
  assumes "wf_eye reference" and "wf_eye e" and "all_skipped (ta_frags t)" and "ta_base t = mv_zero"
  shows "agree (tile_region t) (tile_eye t reference e) reference"
  using assms by (simp add: tile_eye_def tile_region_def put_frags_skipped mc_zero_agree)

lemma reuse_loop_parse:
  assumes "tile_reuse_loop n t sc tr" and "all_skipped acc"
  shows "\<exists>fs tr'. forR (\<lambda>_ (fs, tr). bindR (parse_fragment t sc tr) (\<lambda>(f, tr). Inr (fs @ [f], tr))) [m..<m + n] (acc, tr) = Inr (fs, tr') \<and>
    remaining tr' = 0 \<and> all_skipped fs"
  using assms
proof (induction n arbitrary: m acc tr)
  case (Suc n)
  from Suc.prems(1) obtain tr1 where f: "fragment_payload_reuses_reference tr t sc = Inr (True, tr1)"
    and rest: "tile_reuse_loop n t sc tr1"
    by (auto split: sum.splits if_splits)
  from fragment_reuse_parse[OF f] obtain start k where p: "parse_fragment t sc tr = Inr ((start, replicate k (BaseP, [])), tr1)" by blast
  have "all_skipped (acc @ [(start, replicate k (BaseP, []))])" using Suc.prems(2) by (simp add: all_skipped_def)
  from Suc.IH[OF rest this, of "Suc m"] show ?case by (simp add: upt_conv_Cons p del: upt_Suc)
qed simp

lemma tile_header_reads:
  assumes "\<not> length (rest r) < TILE_HEADER_SIZE"
  shows "bindR (rd_u8 r) (\<lambda>(f0, r). bindR (rd_u8 r) (\<lambda>(f1, r). bindR (rd_u8 r) (\<lambda>(f2, r). bindR (rd_u8 r) (\<lambda>(f3, r).
      bindR (rd_u8 r) (\<lambda>(f4, r). bindR (rd_i8 r) (\<lambda>(f5, r). bindR (rd_i8 r) (\<lambda>(f6, r). bindR (rd_u8 r) (\<lambda>(f7, r).
      bindR (rd_u8 r) (\<lambda>(f8, r). bindR (rd_u8 r) (\<lambda>(f9, r). bindR (rd_u8 r) (\<lambda>(f10, r). bindR (rd_u16 r) (\<lambda>(f11, r).
      bindR (rd_u32 r) (\<lambda>(f12, r). k f0 f1 f2 f3 f4 f5 f6 f7 f8 f9 f10 f11 f12 r))))))))))))) =
    (case tile_fields (rest r) of (f0, f1, f2, f3, f4, mv, f7, f8, f9, f10, f11, f12) \<Rightarrow>
      k f0 f1 f2 f3 f4 (mvX mv) (mvY mv) f7 f8 f9 f10 f11 f12 (adv TILE_HEADER_SIZE r))"
proof -
  have len: "17 \<le> length (rest r)" using assms by (simp add: TILE_HEADER_SIZE_def)
  have i8: "rd_i8 r' = rd_u8 r'" for r' by (simp add: rd_i8_rest rd_u8_rest)
  note u8 = rd_u8_at[of 0 r, unfolded adv_0] rd_u8_at[of 1 r] rd_u8_at[of 2 r] rd_u8_at[of 3 r] rd_u8_at[of 4 r]
    rd_u8_at[of 5 r] rd_u8_at[of 6 r] rd_u8_at[of 7 r] rd_u8_at[of 8 r] rd_u8_at[of 9 r] rd_u8_at[of 10 r]
  show ?thesis
    using len u8 rd_u16_at[of 11 r] rd_u32_at[of 13 r]
    by (cases "rest r = []") (simp_all add: i8 tile_fields_def TILE_HEADER_SIZE_def flip: numeral_2_eq_2)
qed

lemma tile_reuse_parse:
  assumes "tile_reuses_reference r = Inr (True, r')"
  shows "\<exists>t. parse_tile r = Inr (t, r') \<and> ta_base t = mv_zero \<and> all_skipped (ta_frags t)"
proof -
  have len: "\<not> length (rest r) < TILE_HEADER_SIZE"
    using assms by (auto simp: tile_reuses_reference_def length_rest split: if_splits)
  obtain f0 f1 f2 f3 f4 mv f7 f8 f9 f10 f11 f12 where f: "tile_fields (rest r) = (f0, f1, f2, f3, f4, mv, f7, f8, f9, f10, f11, f12)"
    by (metis prod.exhaust)
  from assms obtain payload where z: "mv = mv_zero"
    and ok: "\<not> (f0 > 1 \<or> f1 \<noteq> 0 \<or> f2 \<noteq> 0 \<or> unat f3 \<noteq> MB_W \<or> unat f4 \<noteq> MB_H)"
      "\<not> (f7 > 127 \<or> f8 > 127 \<or> \<not> (1 \<le> f9 \<and> f9 \<le> 4) \<or> f10 = 0 \<or> f11 AND NOT SUPPORTED_TILE_FLAGS \<noteq> 0)"
    and take: "rd_take (unat f12) (adv TILE_HEADER_SIZE r) = Inr (payload, r')"
    and reuse: "tile_reuse_loop (unat f10) f0 f9 (reader_new payload)"
    unfolding tile_reuses_reference_def Let_def tile_header_reads[OF len] f prod.case
    by (auto simp: bindR_eq_Inr_iff tile_payload_reuses_reference_def mv_zero_def split: if_splits)
  from reuse_loop_parse[OF reuse, of "[]" 0] obtain fs tr' where
    "parse_fragments (unat f10) f0 f9 (reader_new payload) = Inr (fs, tr')" "remaining tr' = 0" "all_skipped fs"
    by (auto simp: parse_fragments_def all_skipped_def)
  then show ?thesis
    using ok take z by (simp only: parse_tile_def if_not_P[OF len] f prod.case) (auto simp: remaining_eq_0_iff)
qed

end
