(* ===== verification/O3_Decoder.thy ===== *)
theory O3_Decoder
  imports O3_Tile
begin

text \<open>
  Laws of \<open>decode_next_frame\<close>: it is \<open>parse_frame\<close>, which looks at the stream and
  at the flag \<open>has_reference\<close> only, followed by \<open>apply_frame\<close> on the state. The
  whole-stream decoders of \<open>minidecoder/src/lib.rs\<close> follow, with the termination
  of their loop, and \<open>StreamDecoder\<close>.
\<close>

section \<open>Frames as data\<close>

datatype frame_ast = KeyF "byte list" | ReuseF | PF tile_ast tile_ast

definition parse_tiles :: "byte list \<Rightarrow> (tile_ast \<times> tile_ast) result" where
  "parse_tiles payload =
     bindR (parse_tile (reader_new payload)) (\<lambda>(t1, pr).
     bindR (parse_tile pr) (\<lambda>(t2, pr).
     if remaining pr \<noteq> 0 then Inl (Invalid ''unconsumed P-frame payload'') else Inr (t1, t2)))"

definition parse_payload :: "bool \<Rightarrow> byte \<Rightarrow> byte \<Rightarrow> byte list \<Rightarrow> frame_ast result" where
  "parse_payload has_reference frame_type tile_count payload =
     (if frame_type = FRAME_TYPE_KEY_RAW then
        if tile_count \<noteq> 2 then Inl (Invalid ''KEY_RAW tile_count must be 2'')
        else if length payload \<noteq> SBS_FRAME_BYTES then
          Inl (Invalid (''KEY_RAW payload must be '' @ dec SBS_FRAME_BYTES @ '' bytes, got '' @ dec (length payload)))
        else Inr (KeyF payload)
      else if frame_type = FRAME_TYPE_P then
        if tile_count \<noteq> 2 then Inl (Invalid ''P-frame tile_count must be 2'')
        else if \<not> has_reference then Inl (Invalid ''P-frame cannot appear before a reference frame'')
        else if length payload \<le> REFERENCE_REUSE_FRAME_PAYLOAD_MAX \<and> p_payload_reuses_reference payload tile_count then
          Inr ReuseF
        else bindR (parse_tiles payload) (\<lambda>(t1, t2). Inr (PF t1 t2))
      else Inl (Unsupported (''frame type '' @ dec (unat frame_type))))"

definition parse_frame :: "bool \<Rightarrow> reader \<Rightarrow> ((u32 \<times> byte \<times> frame_ast) option \<times> reader) result" where
  "parse_frame has_reference r =
     (if rest r = [] then Inr (None, r)
      else if length (rest r) < FRAME_HEADER_SIZE then Inl Eof
      else
        let h = rest r; frame_size = unat (from_le_bytes (take 4 (drop 4 h)) :: u32);
            frame_no = from_le_bytes (take 4 (drop 8 h)) :: u32 in
        if from_le_bytes (take 4 (drop 0 h)) \<noteq> FRAME_MAGIC then Inl (Invalid ''bad frame start code'')
        else if h ! 18 \<noteq> 0 \<or> h ! 19 \<noteq> 0 then
          Inl (Invalid (''reserved frame bits set at frame '' @ dec (unat frame_no)))
        else if checked_add (rd_pos r + FRAME_HEADER_SIZE) frame_size = None then Inl (Invalid ''frame size overflow'')
        else if FRAME_HEADER_SIZE + frame_size > length h then Inl Eof
        else
          bindR (parse_payload has_reference (h ! 16) (h ! 17) (take frame_size (drop FRAME_HEADER_SIZE h))) (\<lambda>f.
          Inr (Some (frame_no, h ! 16, f), adv (FRAME_HEADER_SIZE + frame_size) r)))"

definition raw_frame :: "byte list \<Rightarrow> eye_frame" where
  "raw_frame bytes = \<lparr>eye_y = take EYE_Y_BYTES bytes, eye_cb = take EYE_CHROMA_BYTES (drop EYE_Y_BYTES bytes),
     eye_cr = take EYE_CHROMA_BYTES (drop (EYE_Y_BYTES + EYE_CHROMA_BYTES) bytes)\<rparr>"

definition swap_in :: "sbs_frame \<Rightarrow> decoder_state \<Rightarrow> decoder_state" where
  "swap_in f st = st\<lparr>ds_reference := f, ds_current := ds_reference st, ds_has_reference := True\<rparr>"

primrec apply_frame :: "frame_ast \<Rightarrow> decoder_state \<Rightarrow> decoder_state" where
  "apply_frame (KeyF payload) st =
     swap_in \<lparr>sbs_left = raw_frame payload, sbs_right = raw_frame (drop EYE_FRAME_BYTES payload)\<rparr> st"
| "apply_frame ReuseF st = st"
| "apply_frame (PF t1 t2) st = swap_in (put_tile (ds_reference st) t2 (put_tile (ds_reference st) t1 (ds_current st))) st"

section \<open>The state invariant\<close>

definition wf_state :: "decoder_state \<Rightarrow> bool" where
  "wf_state st \<longleftrightarrow> wf_sbs (ds_reference st) \<and> wf_sbs (ds_current st)"

lemma wf_DecoderState_new [simp]: "wf_state DecoderState_new"
  by (simp add: wf_state_def DecoderState_new_def)

lemma wf_DecoderState_reset [simp]: "wf_state (DecoderState_reset st) = wf_state st"
  by (simp add: wf_state_def DecoderState_reset_def)

lemma sbs_bytes: "SBS_FRAME_BYTES = EYE_FRAME_BYTES + EYE_FRAME_BYTES"
  "EYE_FRAME_BYTES = EYE_Y_BYTES + EYE_CHROMA_BYTES + EYE_CHROMA_BYTES"
  by (simp_all add: geom)

lemma wf_raw_frame: "EYE_FRAME_BYTES \<le> length bytes \<Longrightarrow> wf_eye (raw_frame bytes)"
  by (auto simp: wf_eye_def raw_frame_def sbs_bytes)

definition frame_ok :: "frame_ast \<Rightarrow> bool" where
  "frame_ok f \<longleftrightarrow> (case f of KeyF payload \<Rightarrow> length payload = SBS_FRAME_BYTES | ReuseF \<Rightarrow> True | PF t1 t2 \<Rightarrow> tile_ok t1 \<and> tile_ok t2)"

lemma wf_apply_frame: "wf_state st \<Longrightarrow> frame_ok f \<Longrightarrow> wf_state (apply_frame f st)"
  by (cases f) (auto simp: wf_state_def frame_ok_def swap_in_def wf_put_tile wf_raw_frame sbs_bytes(1) wf_sbs_def[of "\<lparr>sbs_left = _, sbs_right = _\<rparr>"])

section \<open>The frame decoder\<close>

lemma read_eye_raw_ok:
  assumes "wf_eye dst" and "off + EYE_FRAME_BYTES \<le> length bytes"
  shows "read_eye_raw_from_stream dst bytes off = Inr (raw_frame (drop off bytes))"
proof -
  have c: "copy_at n p 0 bytes k = Inr (take n (drop k bytes))" if "length p = n" "k + n \<le> length bytes" for n p k
    using that by (simp add: copy_at_def)
  show ?thesis
    using assms unfolding sbs_bytes(2)
    by (simp add: read_eye_raw_from_stream_def sbs_bytes(2) wf_eye_def on_y_def on_cb_def on_cr_def c raw_frame_def add.commute add.left_commute)
qed

lemma decode_p_tiles_ok:
  assumes "wf_sbs reference" and "wf_sbs current"
  shows "decode_p_tiles payload reference current =
    bindR (parse_tiles payload) (\<lambda>(t1, t2). Inr (put_tile reference t2 (put_tile reference t1 current)))"
proof -
  have two: "[0..<2] = [0, 1 :: nat]" by (simp add: upt_rec)
  show ?thesis
    using assms
    by (simp add: decode_p_tiles_def parse_tiles_def two decode_tile_ok wf_put_tile bindR_assoc split_def)
      (auto intro!: bindR_cong)
qed

lemma parse_tiles_no_fault: "parse_tiles payload \<noteq> Inl Fault"
  and parse_tiles_ok: "parse_tiles payload = Inr (t1, t2) \<Longrightarrow> tile_ok t1 \<and> tile_ok t2"
proof -
  have "gives (\<lambda>t. tile_ok (fst t) \<and> tile_ok (snd t)) (bindR (parse_tiles payload) (\<lambda>t. Inr (t, ())))"
    unfolding parse_tiles_def bindR_assoc
    by (rule gives_bind[OF gives_parses[OF parse_tile_parses]], unfold prod.case bindR_assoc,
        rule gives_bind[OF gives_parses[OF parse_tile_parses]]) auto
  then show "parse_tiles payload \<noteq> Inl Fault"
    and "parse_tiles payload = Inr (t1, t2) \<Longrightarrow> tile_ok t1 \<and> tile_ok t2" by auto
qed

lemma parse_payload_no_fault: "parse_payload has ty n payload \<noteq> Inl Fault"
  using parse_tiles_no_fault[of payload] by (auto simp: parse_payload_def bindR_eq_Inl_iff)

lemma parse_payload_ok: "parse_payload has ty n payload = Inr f \<Longrightarrow> frame_ok f"
  using parse_tiles_ok by (auto simp: parse_payload_def frame_ok_def bindR_eq_Inr_iff split: if_splits)

definition next_ok :: "(u32 \<times> byte \<times> frame_ast) option \<Rightarrow> bool" where
  "next_ok x \<longleftrightarrow> (case x of None \<Rightarrow> True | Some (no, ty, f) \<Rightarrow> frame_ok f)"

lemma parse_frame_parses: "parses next_ok r (parse_frame has r)"
proof -
  have "parses next_ok r (bindR (parse_payload has a b c) (\<lambda>f. Inr (Some (no, a, f), adv n r)))"
    if "n \<le> length (rest r)" for a b c no n
    using that parse_payload_no_fault[of has a b c] parse_payload_ok[of has a b c]
    by (cases "parse_payload has a b c") (auto simp: next_ok_def moves_adv)
  then show ?thesis
    unfolding parse_frame_def Let_def by (intro parses_if) (auto simp: next_ok_def)
qed

lemma parse_frame_progress:
  assumes "parse_frame has r = Inr (Some x, r')"
  shows "remaining r' < remaining r"
  using assms by (auto simp: parse_frame_def Let_def bindR_eq_Inr_iff FRAME_HEADER_SIZE_def length_rest split: if_splits)

definition finish_frame :: "decoder_state \<Rightarrow> (u32 \<times> byte \<times> frame_ast) option \<Rightarrow> decoded_frame option \<times> decoder_state" where
  "finish_frame st x = (case x of None \<Rightarrow> (None, st)
     | Some (no, ty, f) \<Rightarrow>
         (Some \<lparr>df_frame_no = no, df_frame_type = ty, df_frame = ds_reference (apply_frame f st)\<rparr>, apply_frame f st))"

lemma frame_loads:
  assumes "\<not> length (rest r) < FRAME_HEADER_SIZE"
  shows "load_u32_le (rd_bytes r) (rd_pos r + 0) = Inr (from_le_bytes (take 4 (drop 0 (rest r))))"
    "load_u32_le (rd_bytes r) (rd_pos r + 4) = Inr (from_le_bytes (take 4 (drop 4 (rest r))))"
    "load_u32_le (rd_bytes r) (rd_pos r + 8) = Inr (from_le_bytes (take 4 (drop 8 (rest r))))"
    "load_u8 (rd_bytes r) (rd_pos r + 16) = Inr (rest r ! 16)"
    "load_u8 (rd_bytes r) (rd_pos r + 17) = Inr (rest r ! 17)"
    "load_u8 (rd_bytes r) (rd_pos r + 18) = Inr (rest r ! 18)"
    "load_u8 (rd_bytes r) (rd_pos r + 19) = Inr (rest r ! 19)"
  using assms by (simp_all only: load_u8_rest load_u32_rest FRAME_HEADER_SIZE_def)

lemma frame_body:
  assumes "wf_state st" and "start + sz \<le> length (rd_bytes r)"
  shows "bindR (slice_at (rd_bytes r) start sz) (\<lambda>payload.
      if ty = FRAME_TYPE_KEY_RAW then
        if tc \<noteq> 2 then Inl (Invalid ''KEY_RAW tile_count must be 2'')
        else if sz \<noteq> SBS_FRAME_BYTES then
          Inl (Invalid (''KEY_RAW payload must be '' @ dec SBS_FRAME_BYTES @ '' bytes, got '' @ dec sz))
        else
          bindR (read_eye_raw_from_stream (sbs_left (ds_current st)) (rd_bytes r) start) (\<lambda>left.
          bindR (read_eye_raw_from_stream (sbs_right (ds_current st)) (rd_bytes r) (start + EYE_FRAME_BYTES)) (\<lambda>right.
          finish ((ds_current st)\<lparr>sbs_left := left, sbs_right := right\<rparr>)))
      else if ty = FRAME_TYPE_P then
        if tc \<noteq> 2 then Inl (Invalid ''P-frame tile_count must be 2'')
        else if \<not> ds_has_reference st then Inl (Invalid ''P-frame cannot appear before a reference frame'')
        else if sz \<le> REFERENCE_REUSE_FRAME_PAYLOAD_MAX \<and> p_payload_reuses_reference payload tc then Inr (same st)
        else bindR (decode_p_tiles payload (ds_reference st) (ds_current st)) finish
      else Inl (Unsupported (''frame type '' @ dec (unat ty)))) =
    bindR (parse_payload (ds_has_reference st) ty tc (take sz (drop start (rd_bytes r)))) (\<lambda>f.
      case f of ReuseF \<Rightarrow> Inr (same st) | _ \<Rightarrow> finish (ds_reference (apply_frame f st)))"
proof -
  have w: "wf_sbs (ds_reference st)" "wf_sbs (ds_current st)" "wf_eye (sbs_left (ds_current st))" "wf_eye (sbs_right (ds_current st))"
    using assms(1) by (auto simp: wf_state_def wf_sbs_def)
  let ?p = "take sz (drop start (rd_bytes r))"
  have len: "length ?p = sz" using assms(2) by simp
  have key: "read_eye_raw_from_stream (sbs_left (ds_current st)) (rd_bytes r) start = Inr (raw_frame ?p) \<and>
      read_eye_raw_from_stream (sbs_right (ds_current st)) (rd_bytes r) (start + EYE_FRAME_BYTES) = Inr (raw_frame (drop EYE_FRAME_BYTES ?p))"
    if "sz = SBS_FRAME_BYTES"
  proof -
    have "raw_frame (drop start (rd_bytes r)) = raw_frame ?p"
      "raw_frame (drop (start + EYE_FRAME_BYTES) (rd_bytes r)) = raw_frame (drop EYE_FRAME_BYTES ?p)"
      using that by (simp_all add: raw_frame_def sbs_bytes take_drop min_def add.commute add.left_commute)
    with that assms(2) show ?thesis by (simp add: read_eye_raw_ok w sbs_bytes(1))
  qed
  have rec: "(ds_current st)\<lparr>sbs_left := a, sbs_right := b\<rparr> = \<lparr>sbs_left = a, sbs_right = b\<rparr>" for a b
    by (cases "ds_current st") simp
  show ?thesis
    using assms(2) key len unfolding rec
    by (auto simp: slice_at_def parse_payload_def decode_p_tiles_ok[OF w(1,2)] bindR_assoc swap_in_def intro!: bindR_cong)
qed

lemma decode_next_frame_ok:
  assumes "wf_state st"
  shows "decode_next_frame r st =
    bindR (parse_frame (ds_has_reference st) r) (\<lambda>(x, r). Inr (fst (finish_frame st x), r, snd (finish_frame st x)))"
proof -
  consider (empty) "rest r = []" | (short) "rest r \<noteq> []" "length (rest r) < FRAME_HEADER_SIZE"
    | (header) "rest r \<noteq> []" "\<not> length (rest r) < FRAME_HEADER_SIZE" by blast
  then show ?thesis
  proof cases
    case empty
    then show ?thesis
      using remaining_eq_0_iff[of r] by (simp add: decode_next_frame_def parse_frame_def finish_frame_def)
  next
    case short
    then show ?thesis
      using remaining_eq_0_iff[of r] by (simp add: decode_next_frame_def parse_frame_def length_rest)
  next
    case header
    note loads = frame_loads[OF header(2)]
    define sz where "sz = unat (from_le_bytes (take 4 (drop 4 (rest r))) :: u32)"
    define start where "start = rd_pos r + FRAME_HEADER_SIZE"
    have over: "start + sz > length (rd_bytes r) \<longleftrightarrow> FRAME_HEADER_SIZE + sz > length (rest r)"
      using header(2) by (auto simp: start_def rest_def FRAME_HEADER_SIZE_def)
    have payload: "take sz (drop start (rd_bytes r)) = take sz (drop FRAME_HEADER_SIZE (rest r))"
      by (simp add: start_def rest_def add.commute)
    have pos: "(adv FRAME_HEADER_SIZE r)\<lparr>rd_pos := start + sz\<rparr> = adv (FRAME_HEADER_SIZE + sz) r"
      by (simp add: adv_def start_def add.assoc)
    define fno where "fno = (from_le_bytes (take 4 (drop 8 (rest r))) :: u32)"
    have rem: "remaining r \<noteq> 0" "\<not> remaining r < FRAME_HEADER_SIZE"
      using header remaining_eq_0_iff[of r] by (simp_all add: length_rest)
    note body = frame_body[OF assms, of start sz "adv FRAME_HEADER_SIZE r" "rest r ! 16" "rest r ! 17"
        "\<lambda>current. Inr (Some \<lparr>df_frame_no = fno, df_frame_type = rest r ! 16,
            df_frame = ds_reference (st\<lparr>ds_reference := current, ds_current := ds_reference st, ds_has_reference := True\<rparr>)\<rparr>,
          (adv FRAME_HEADER_SIZE r)\<lparr>rd_pos := start + sz\<rparr>,
          st\<lparr>ds_reference := current, ds_current := ds_reference st, ds_has_reference := True\<rparr>)"
        "\<lambda>st. (Some \<lparr>df_frame_no = fno, df_frame_type = rest r ! 16, df_frame = ds_reference st\<rparr>,
          (adv FRAME_HEADER_SIZE r)\<lparr>rd_pos := start + sz\<rparr>, st)", unfolded rd_bytes_adv payload]
    have fin: "(case f of
          ReuseF \<Rightarrow> Inr (Some \<lparr>df_frame_no = fno, df_frame_type = rest r ! 16, df_frame = ds_reference st\<rparr>,
            (adv FRAME_HEADER_SIZE r)\<lparr>rd_pos := start + sz\<rparr>, st)
        | _ \<Rightarrow> Inr (Some \<lparr>df_frame_no = fno, df_frame_type = rest r ! 16,
              df_frame = ds_reference (st\<lparr>ds_reference := ds_reference (apply_frame f st), ds_current := ds_reference st, ds_has_reference := True\<rparr>)\<rparr>,
            (adv FRAME_HEADER_SIZE r)\<lparr>rd_pos := start + sz\<rparr>,
            st\<lparr>ds_reference := ds_reference (apply_frame f st), ds_current := ds_reference st, ds_has_reference := True\<rparr>)) =
        Inr (fst (finish_frame st (Some (fno, rest r ! 16, f))), adv (FRAME_HEADER_SIZE + sz) r,
          snd (finish_frame st (Some (fno, rest r ! 16, f))))" for f
      unfolding pos by (cases f) (simp_all add: finish_frame_def swap_in_def)
    note body = body[unfolded fin]
    show ?thesis
      unfolding decode_next_frame_def parse_frame_def Let_def if_not_P[OF rem(1)] if_not_P[OF rem(2)] if_not_P[OF header(1)]
        if_not_P[OF header(2)] adv_def[symmetric] rd_bytes_adv loads bindR_simps
      unfolding sz_def[symmetric] start_def[symmetric] fno_def[symmetric] over[symmetric]
      by (cases "start + sz < 2 ^ 64"; cases "length (rd_bytes r) < start + sz")
        (simp_all add: checked_add_def body bindR_if_Inl bindR_assoc not_less)
  qed
qed

lemma decode_next_frame_progress:
  assumes "decode_next_frame r st = Inr (Some f, r', st')"
  shows "remaining r' < remaining r"
  using assms
  by (auto simp: decode_next_frame_def Let_def bindR_eq_Inr_iff checked_add_def remaining_def FRAME_HEADER_SIZE_def
      split: if_splits option.splits)

section \<open>Decoding a whole stream\<close>

text \<open>
  The callback \<open>on_frame\<close> is a function on the state \<open>s\<close> its closure captures.
\<close>

function decode_loop ::
  "(decoded_frame \<Rightarrow> 's \<Rightarrow> 's) \<Rightarrow> nat \<Rightarrow> 's \<Rightarrow> reader \<Rightarrow> decoder_state \<Rightarrow> (nat \<times> 's \<times> decoder_state) result" where
  "decode_loop on_frame frame_count s r st =
     bindR (decode_next_frame r st) (\<lambda>(x, r, st). case x of
       None \<Rightarrow> Inr (frame_count, s, st)
     | Some decoded \<Rightarrow> decode_loop on_frame (frame_count + 1) (on_frame decoded s) r st)"
  by pat_completeness auto
termination
  by (relation "measure (\<lambda>(f, n, s, r, st). remaining r)") (auto dest: decode_next_frame_progress)

declare decode_loop.simps [simp del]

definition decode_stream_for_each_with_state ::
  "byte list \<Rightarrow> decoder_state \<Rightarrow> (decoded_frame \<Rightarrow> 's \<Rightarrow> 's) \<Rightarrow> 's \<Rightarrow> (nat \<times> 's \<times> decoder_state) result" where
  "decode_stream_for_each_with_state bytes st on_frame s =
     bindR (parse_file_header (reader_new bytes)) (\<lambda>r.
     let st = DecoderState_reset st in decode_loop on_frame 0 s r st)"

definition decode_stream_for_each :: "byte list \<Rightarrow> (decoded_frame \<Rightarrow> 's \<Rightarrow> 's) \<Rightarrow> 's \<Rightarrow> (nat \<times> 's) result" where
  "decode_stream_for_each bytes on_frame s =
     bindR (decode_stream_for_each_with_state bytes DecoderState_new on_frame s) (\<lambda>(n, s, st). Inr (n, s))"

definition decode_stream_with_metadata :: "byte list \<Rightarrow> decoded_frame list result" where
  "decode_stream_with_metadata bytes =
     bindR (decode_stream_for_each bytes (\<lambda>decoded frames. frames @ [decoded]) []) (\<lambda>(n, frames). Inr frames)"

definition decode_stream :: "byte list \<Rightarrow> sbs_frame list result" where
  "decode_stream bytes = bindR (decode_stream_with_metadata bytes) (\<lambda>frames. Inr (map df_frame frames))"

section \<open>The streaming decoder\<close>

record stream_decoder =
  sd_r :: reader
  sd_state :: decoder_state

definition StreamDecoder_new :: "byte list \<Rightarrow> stream_decoder result" where
  "StreamDecoder_new bytes =
     bindR (parse_file_header (reader_new bytes)) (\<lambda>r. Inr \<lparr>sd_r = r, sd_state = DecoderState_new\<rparr>)"

definition StreamDecoder_reset :: "stream_decoder \<Rightarrow> stream_decoder result" where
  "StreamDecoder_reset sd =
     (let r = (sd_r sd)\<lparr>rd_pos := 0\<rparr>; st = DecoderState_reset (sd_state sd) in
      bindR (parse_file_header r) (\<lambda>r. Inr \<lparr>sd_r = r, sd_state = st\<rparr>))"

definition StreamDecoder_next_frame :: "stream_decoder \<Rightarrow> (decoded_frame option \<times> stream_decoder) result" where
  "StreamDecoder_next_frame sd =
     bindR (decode_next_frame (sd_r sd) (sd_state sd)) (\<lambda>(x, r, st). Inr (x, \<lparr>sd_r = r, sd_state = st\<rparr>))"

definition StreamDecoder_current_frame :: "stream_decoder \<Rightarrow> sbs_frame result" where
  "StreamDecoder_current_frame sd =
     (if \<not> ds_has_reference (sd_state sd) then Inl (Invalid ''no decoded frame available'')
      else Inr (ds_reference (sd_state sd)))"

definition write_decoder_eye_yuv420p_into :: "eye_frame \<Rightarrow> byte list \<Rightarrow> byte list result" where
  "write_decoder_eye_yuv420p_into eye out =
     (if length out \<noteq> EYE_FRAME_BYTES then
        Inl (Invalid (''expected '' @ dec EYE_FRAME_BYTES @ '' eye YUV420 bytes, got '' @ dec (length out)))
      else
        bindR (copy_at EYE_Y_BYTES out 0 (eye_y eye) 0) (\<lambda>out.
        bindR (copy_at EYE_CHROMA_BYTES out EYE_Y_BYTES (eye_cb eye) 0) (\<lambda>out.
        copy_at EYE_CHROMA_BYTES out (EYE_Y_BYTES + EYE_CHROMA_BYTES) (eye_cr eye) 0)))"

definition StreamDecoder_write_current_yuv420p_into ::
  "stream_decoder \<Rightarrow> byte list \<Rightarrow> byte list \<Rightarrow> (byte list \<times> byte list) result" where
  "StreamDecoder_write_current_yuv420p_into sd left right =
     (if \<not> ds_has_reference (sd_state sd) then Inl (Invalid ''no decoded frame available'')
      else
        bindR (write_decoder_eye_yuv420p_into (sbs_left (ds_reference (sd_state sd))) left) (\<lambda>left.
        bindR (write_decoder_eye_yuv420p_into (sbs_right (ds_reference (sd_state sd))) right) (\<lambda>right.
        Inr (left, right))))"

lemma write_decoder_eye_ok:
  assumes "wf_eye e" and "length out = EYE_FRAME_BYTES"
  shows "write_decoder_eye_yuv420p_into e out = Inr (eye_y e @ eye_cb e @ eye_cr e)"
  using assms by (simp add: write_decoder_eye_yuv420p_into_def copy_at_def wf_eye_def sbs_bytes(2))

end
