(* ===== verification/O3_Machine.thy ===== *)
theory O3_Machine
  imports O3_Decoder
begin

text \<open>
  The decoder over time. \<open>decode_next_frame\<close> as an interface \<open>frame_source\<close>
  (never a fault, the state invariant kept, the reader moved forward), the
  independence of a decoded frame from the scratch buffer, the soundness of
  the reference-reuse shortcut, and \<open>StreamDecoder\<close> as a step relation: after
  any history of calls, failed ones included, \<open>current_frame\<close> is the last
  frame that was returned since the last reset.
\<close>

section \<open>The interface of a frame source\<close>

locale frame_source =
  fixes next_item :: "reader \<Rightarrow> 's \<Rightarrow> ('f option \<times> reader \<times> 's) result"
    and inv :: "'s \<Rightarrow> bool"
  assumes next_no_fault: "inv st \<Longrightarrow> next_item r st \<noteq> Inl Fault"
    and next_inv: "inv st \<Longrightarrow> next_item r st = Inr (x, r', st') \<Longrightarrow> inv st'"
    and next_moves: "inv st \<Longrightarrow> next_item r st = Inr (x, r', st') \<Longrightarrow> moves r r'"
    and next_end: "inv st \<Longrightarrow> next_item r st = Inr (x, r', st') \<Longrightarrow> x = None \<longleftrightarrow> remaining r = 0"
begin

text \<open>Reading a number of items in a row.\<close>

primrec items :: "nat \<Rightarrow> reader \<Rightarrow> 's \<Rightarrow> ('f option list \<times> reader \<times> 's) result" where
  "items 0 r st = Inr ([], r, st)"
| "items (Suc n) r st = bindR (next_item r st) (\<lambda>(x, r, st).
     bindR (items n r st) (\<lambda>(xs, r, st). Inr (x # xs, r, st)))"

lemma items_safe:
  assumes "inv st"
  shows "items n r st \<noteq> Inl Fault"
    and "items n r st = Inr (xs, r', st') \<Longrightarrow> inv st' \<and> moves r r' \<and> length xs = n"
  using assms
proof (induction n arbitrary: r st xs)
  case (Suc n)
  { case 1
    then show ?case using next_no_fault[of st r] Suc.IH(1) next_inv by (auto simp: bindR_eq_Inl_iff)
  next
    case 2
    then obtain x r1 st1 ys where n: "next_item r st = Inr (x, r1, st1)" "items n r1 st1 = Inr (ys, r', st')" "xs = x # ys"
      by (auto simp: bindR_eq_Inr_iff)
    with 2(2) Suc.IH(2)[OF n(2)] next_inv[OF _ n(1)] next_moves[OF _ n(1)] show ?case by (auto intro: moves_trans)
  }
qed auto

end

lemma finish_frame_simps [simp]:
  "finish_frame st None = (None, st)"
  "fst (finish_frame st (Some (no, ty, f))) =
    Some \<lparr>df_frame_no = no, df_frame_type = ty, df_frame = ds_reference (apply_frame f st)\<rparr>"
  "snd (finish_frame st (Some (no, ty, f))) = apply_frame f st"
  by (simp_all add: finish_frame_def)

lemma parse_frame_end: "parse_frame has r = Inr (x, r') \<Longrightarrow> x = None \<longleftrightarrow> remaining r = 0"
  using remaining_eq_0_iff[of r] by (auto simp: parse_frame_def Let_def bindR_eq_Inr_iff split: if_splits)

lemma decode_next_frame_Inr:
  assumes "wf_state st" and "decode_next_frame r st = Inr (x, r', st')"
  obtains p where "parse_frame (ds_has_reference st) r = Inr (p, r')" "x = fst (finish_frame st p)" "st' = snd (finish_frame st p)"
  using assms by (auto simp: decode_next_frame_ok bindR_eq_Inr_iff)

interpretation dec: frame_source decode_next_frame wf_state
proof unfold_locales
  fix st :: decoder_state and r assume st: "wf_state st"
  note p = parse_frame_parses[of r "ds_has_reference st"]
  show "decode_next_frame r st \<noteq> Inl Fault"
    using p by (auto simp: decode_next_frame_ok[OF st] bindR_eq_Inl_iff)
  fix x r' st' assume d: "decode_next_frame r st = Inr (x, r', st')"
  from decode_next_frame_Inr[OF st d] obtain p where q: "parse_frame (ds_has_reference st) r = Inr (p, r')"
    "x = fst (finish_frame st p)" "st' = snd (finish_frame st p)" by blast
  show "wf_state st'"
    using p q st by (auto simp: finish_frame_def next_ok_def wf_apply_frame split: option.splits)
  show "moves r r'" using p q by simp
  show "x = None \<longleftrightarrow> remaining r = 0"
    using parse_frame_end[OF q(1)] q(2) by (auto simp: finish_frame_def split: option.splits)
qed

section \<open>Independence of the scratch frame\<close>

definition frame_complete :: "frame_ast \<Rightarrow> bool" where
  "frame_complete f \<longleftrightarrow> (case f of
     PF t1 t2 \<Rightarrow> {ta_id t1, ta_id t2} = {0, 1} \<and> {..<MB_COUNT} \<subseteq> tile_region t1 \<and> {..<MB_COUNT} \<subseteq> tile_region t2
   | _ \<Rightarrow> True)"

lemma two_tiles:
  assumes "{ta_id t1, ta_id t2} = {0, 1}"
  shows "eye_of i (put_tile reference t2 (put_tile reference t1 current)) =
    (if (i = 0) = (ta_id t1 = 0) then tile_eye t1 (eye_of i reference) (eye_of i current)
     else tile_eye t2 (eye_of i reference) (eye_of i current))"
proof -
  from assms have "ta_id t1 = 0 \<and> ta_id t2 = 1 \<or> ta_id t1 = 1 \<and> ta_id t2 = 0" by (auto simp: doubleton_eq_iff)
  then show ?thesis by (auto simp: put_tile_def eye_of_def set_eye_def)
qed

lemma eyes_eqI: "eye_of 0 f = eye_of 0 g \<Longrightarrow> eye_of 1 f = eye_of 1 g \<Longrightarrow> f = (g :: sbs_frame)"
  by (cases f; cases g) (simp add: eye_of_def)

lemma tile_eye_eq:
  assumes "wf_eye d1" and "wf_eye d2" and "tile_ok t" and "{..<MB_COUNT} \<subseteq> tile_region t"
  shows "tile_eye t reference d1 = tile_eye t reference d2"
  using assms agree_mono[OF tile_eye_independent[OF assms(1-3)] assms(4)] by (intro agree_all_eq) auto

lemma complete_tiles_independent:
  assumes "wf_sbs c1" and "wf_sbs c2" and "frame_ok (PF t1 t2)" and "frame_complete (PF t1 t2)"
  shows "put_tile reference t2 (put_tile reference t1 c1) = put_tile reference t2 (put_tile reference t1 c2)"
proof -
  have ids: "{ta_id t1, ta_id t2} = {0, 1}" using assms(4) by (simp add: frame_complete_def)
  have "tile_eye t1 (eye_of i reference) (eye_of i c1) = tile_eye t1 (eye_of i reference) (eye_of i c2)"
    "tile_eye t2 (eye_of i reference) (eye_of i c1) = tile_eye t2 (eye_of i reference) (eye_of i c2)" for i
    using assms by (auto intro!: tile_eye_eq wf_eye_of simp: frame_ok_def frame_complete_def)
  then show ?thesis by (intro eyes_eqI) (simp_all add: two_tiles[OF ids])
qed

lemma apply_frame_independent:
  assumes "wf_state st1" and "wf_state st2" and "ds_reference st1 = ds_reference st2"
    and "frame_ok f" and "frame_complete f"
  shows "ds_reference (apply_frame f st1) = ds_reference (apply_frame f st2)"
  using assms complete_tiles_independent[of "ds_current st1" "ds_current st2"]
  by (cases f) (auto simp: swap_in_def wf_state_def)

section \<open>The reuse shortcut\<close>

lemma p_reuse_loop_Suc:
  assumes "p_reuse_loop (Suc n) r"
  obtains r' where "tile_reuses_reference r = Inr (True, r')" "p_reuse_loop n r'"
  using assms by (auto split: sum.splits if_splits)

lemma p_reuse_parse:
  assumes "p_payload_reuses_reference payload 2"
  shows "\<exists>t1 t2. parse_tiles payload = Inr (t1, t2) \<and> ta_base t1 = mv_zero \<and> ta_base t2 = mv_zero \<and>
    all_skipped (ta_frags t1) \<and> all_skipped (ta_frags t2)"
proof -
  have two: "unat (2 :: byte) = Suc (Suc 0)" by simp
  obtain r1 where 1: "tile_reuses_reference (reader_new payload) = Inr (True, r1)" and l: "p_reuse_loop (Suc 0) r1"
    using assms p_reuse_loop_Suc[of "Suc 0"] unfolding p_payload_reuses_reference_def two by blast
  obtain r2 where 2: "tile_reuses_reference r1 = Inr (True, r2)" and z: "remaining r2 = 0"
    using p_reuse_loop_Suc[OF l] by auto
  from tile_reuse_parse[OF 1] tile_reuse_parse[OF 2] z show ?thesis
    by (auto simp: parse_tiles_def remaining_eq_0_iff)
qed

lemma reuse_is_reference:
  assumes "wf_sbs reference" and "wf_sbs current" and "frame_ok (PF t1 t2)" and "frame_complete (PF t1 t2)"
    and "ta_base t1 = mv_zero" "ta_base t2 = mv_zero" "all_skipped (ta_frags t1)" "all_skipped (ta_frags t2)"
  shows "put_tile reference t2 (put_tile reference t1 current) = reference"
proof -
  have ids: "{ta_id t1, ta_id t2} = {0, 1}" using assms(4) by (simp add: frame_complete_def)
  have e: "tile_eye t (eye_of i reference) (eye_of i current) = eye_of i reference"
    if "t = t1 \<or> t = t2" for i t
    using that assms tile_eye_skipped[of "eye_of i reference" "eye_of i current" t]
    by (intro agree_all_eq) (auto simp: wf_eye_of frame_complete_def intro: agree_mono)
  show ?thesis by (intro eyes_eqI) (simp_all add: two_tiles[OF ids] e)
qed

section \<open>The streaming decoder as a state machine\<close>

datatype event = Returned "decoded_frame option" | Failed error | Reset

text \<open>
  What a failed \<open>next_frame\<close> leaves: the reader at its old position or behind
  the frame header, the reference frame and the flag as they were, and any
  content in the scratch frame.
\<close>

definition after_error :: "stream_decoder \<Rightarrow> stream_decoder \<Rightarrow> bool" where
  "after_error sd sd' \<longleftrightarrow>
     sd_r sd' = (if remaining (sd_r sd) < FRAME_HEADER_SIZE then sd_r sd else adv FRAME_HEADER_SIZE (sd_r sd)) \<and>
     ds_reference (sd_state sd') = ds_reference (sd_state sd) \<and>
     ds_has_reference (sd_state sd') = ds_has_reference (sd_state sd) \<and> wf_sbs (ds_current (sd_state sd'))"

inductive sd_step :: "stream_decoder \<Rightarrow> event \<Rightarrow> stream_decoder \<Rightarrow> bool" where
  returned: "StreamDecoder_next_frame sd = Inr (x, sd') \<Longrightarrow> sd_step sd (Returned x) sd'"
| failed: "StreamDecoder_next_frame sd = Inl e \<Longrightarrow> after_error sd sd' \<Longrightarrow> sd_step sd (Failed e) sd'"
| reset: "StreamDecoder_reset sd = Inr sd' \<Longrightarrow> sd_step sd Reset sd'"

inductive_cases sd_stepE: "sd_step sd ev sd'"

inductive sd_run :: "byte list \<Rightarrow> event list \<Rightarrow> stream_decoder \<Rightarrow> bool" for bytes where
  start: "StreamDecoder_new bytes = Inr sd \<Longrightarrow> sd_run bytes [] sd"
| step: "sd_run bytes evs sd \<Longrightarrow> sd_step sd ev sd' \<Longrightarrow> sd_run bytes (evs @ [ev]) sd'"

text \<open>The last frame returned since the last reset.\<close>

fun last_frame :: "event list \<Rightarrow> sbs_frame option \<Rightarrow> sbs_frame option" where
  "last_frame [] acc = acc"
| "last_frame (Returned (Some d) # evs) acc = last_frame evs (Some (df_frame d))"
| "last_frame (Returned None # evs) acc = last_frame evs acc"
| "last_frame (Failed e # evs) acc = last_frame evs acc"
| "last_frame (Reset # evs) acc = last_frame evs None"

lemma last_frame_append: "last_frame (evs @ evs') acc = last_frame evs' (last_frame evs acc)"
  by (induction evs acc rule: last_frame.induct) auto

definition sd_inv :: "sbs_frame option \<Rightarrow> stream_decoder \<Rightarrow> bool" where
  "sd_inv shown sd \<longleftrightarrow> wf_state (sd_state sd) \<and>
     (if ds_has_reference (sd_state sd) then shown = Some (ds_reference (sd_state sd)) else shown = None)"

lemma parse_payload_has: "parse_payload has ty n payload = Inr f \<Longrightarrow> f = ReuseF \<Longrightarrow> has"
  by (auto simp: parse_payload_def bindR_eq_Inr_iff split: if_splits)

lemma parse_frame_has: "parse_frame has r = Inr (Some (no, ty, ReuseF), r') \<Longrightarrow> has"
  by (auto simp: parse_frame_def Let_def bindR_eq_Inr_iff dest: parse_payload_has split: if_splits)

lemma apply_frame_has: "(f = ReuseF \<Longrightarrow> ds_has_reference st) \<Longrightarrow> ds_has_reference (apply_frame f st)"
  by (cases f) (auto simp: swap_in_def)

lemma sd_step_inv:
  assumes "sd_inv shown sd" and "sd_step sd ev sd'"
  shows "sd_inv (last_frame [ev] shown) sd'"
  using assms(2)
proof cases
  case (returned x)
  have st: "wf_state (sd_state sd)" using assms(1) by (simp add: sd_inv_def)
  from returned(2) obtain r' st' where d: "decode_next_frame (sd_r sd) (sd_state sd) = Inr (x, r', st')"
    and sd': "sd' = \<lparr>sd_r = r', sd_state = st'\<rparr>"
    by (auto simp: StreamDecoder_next_frame_def bindR_eq_Inr_iff)
  from decode_next_frame_Inr[OF st d] obtain p where p: "parse_frame (ds_has_reference (sd_state sd)) (sd_r sd) = Inr (p, r')"
    "x = fst (finish_frame (sd_state sd) p)" "st' = snd (finish_frame (sd_state sd) p)" by blast
  show ?thesis
  proof (cases p)
    case None
    with p assms(1) returned(1) sd' show ?thesis by (simp add: sd_inv_def)
  next
    case (Some q)
    obtain no ty f where q: "q = (no, ty, f)" by (cases q)
    have "ds_has_reference st'"
      using p Some q parse_frame_has[of _ _ no ty r'] by (auto intro!: apply_frame_has)
    with dec.next_inv[OF st d] p Some q returned(1) sd' show ?thesis by (simp add: sd_inv_def)
  qed
next
  case (failed e)
  with assms(1) show ?thesis by (auto simp: sd_inv_def after_error_def wf_state_def)
next
  case reset
  with assms(1) show ?thesis
    by (auto simp: sd_inv_def StreamDecoder_reset_def DecoderState_reset_def wf_state_def bindR_eq_Inr_iff)
qed

lemma sd_run_inv: "sd_run bytes evs sd \<Longrightarrow> sd_inv (last_frame evs None) sd"
proof (induction rule: sd_run.induct)
  case (start sd)
  then show ?case by (auto simp: StreamDecoder_new_def sd_inv_def bindR_eq_Inr_iff DecoderState_new_def wf_state_def)
next
  case (step evs sd ev sd')
  from sd_step_inv[OF step.IH step.hyps(2)] show ?case by (simp add: last_frame_append)
qed

end
