(* ===== verification/O3_Writers.thy ===== *)
theory O3_Writers
  imports O3_Machine
begin

text \<open>
  What is written is read back: the file header, key frames, fragments, tiles
  and P-frames. Writers only append, so each round trip is stated for the bytes
  written on an empty buffer followed by anything.
\<close>

section \<open>Writers append\<close>

lemma write_fragment_append: "write_fragment out f = out @ write_fragment [] f"
  by (simp add: write_fragment_def put_u16_def put_u32_def Let_def)

lemma write_tile_append: "write_tile out t = out @ write_tile [] t"
  by (simp add: write_tile_def put_u16_def put_u32_def Let_def)

lemma write_frame_header_append: "write_frame_header out a b c d = out @ write_frame_header [] a b c d"
  by (simp add: write_frame_header_def put_u32_def Let_def)

lemma write_key_raw_frame_append: "write_key_raw_frame out no f = out @ write_key_raw_frame [] no f"
  unfolding write_key_raw_frame_def Let_def by (subst write_frame_header_append) simp

lemma write_p_frame_append: "write_p_frame out no a b = out @ write_p_frame [] no a b"
  unfolding write_p_frame_def Let_def by (subst write_frame_header_append) simp

section \<open>The file header\<close>

lemma length_write_file_header: "length (write_file_header [] n) = 60"
  by (simp add: write_file_header_def put_u16_def put_u32_def put_u64_def Let_def)

lemma rd_u8_cons: "rest r = b # post \<Longrightarrow> rd_u8 r = Inr (b, adv 1 r)"
  by (simp add: rd_u8_rest)

lemma rd_u16_put: "rest r = to_le_bytes 2 v @ post \<Longrightarrow> rd_u16 r = Inr (v, adv 2 r)"
  by (rule u16c.get_put)

lemma rd_u32_put: "rest r = to_le_bytes 4 v @ post \<Longrightarrow> rd_u32 r = Inr (v, adv 4 r)"
  by (rule u32c.get_put)

lemma rd_u64_put: "rest r = to_le_bytes 8 v @ post \<Longrightarrow> rd_u64 r = Inr (v, adv 8 r)"
  by (rule u64c.get_put)

lemma parse_file_header_written:
  assumes "rest r = write_file_header [] n @ post"
  shows "parse_file_header r = Inr (adv 60 r)"
proof -
  have r: "rest r = to_le_bytes 4 FILE_MAGIC @ to_le_bytes 2 (1 :: u16) @ to_le_bytes 2 (0 :: u16) @ to_le_bytes 2 FILE_HEADER_SIZE @
      to_le_bytes 2 (0 :: u16) @ to_le_bytes 2 (of_nat VISIBLE_W :: u16) @ to_le_bytes 2 (of_nat VISIBLE_H :: u16) @
      to_le_bytes 2 (of_nat EYE_W :: u16) @ to_le_bytes 2 (of_nat EYE_H :: u16) @ to_le_bytes 2 (24 :: u16) @ to_le_bytes 2 (1 :: u16) @
      0 # 1 # 1 # 0 # to_le_bytes 4 (16000000 :: u32) @ to_le_bytes 4 (1048576 :: u32) @ to_le_bytes 4 (131072 :: u32) @
      to_le_bytes 4 (288000 :: u32) @ to_le_bytes 2 (48 :: u16) @ to_le_bytes 2 (0 :: u16) @ to_le_bytes 4 n @ to_le_bytes 8 (0 :: u64) @ post"
    using assms by (simp add: write_file_header_def put_u16_def put_u32_def put_u64_def Let_def)
  have d: "rd_u32 r = Inr (FILE_MAGIC, adv 4 r)" "rd_u16 (adv 4 r) = Inr (1, adv 6 r)" "rd_u16 (adv 6 r) = Inr (0, adv 8 r)"
    "rd_u16 (adv 8 r) = Inr (FILE_HEADER_SIZE, adv 10 r)" "rd_u16 (adv 10 r) = Inr (0, adv 12 r)"
    "rd_u16 (adv 12 r) = Inr (of_nat VISIBLE_W, adv 14 r)" "rd_u16 (adv 14 r) = Inr (of_nat VISIBLE_H, adv 16 r)"
    "rd_u16 (adv 16 r) = Inr (of_nat EYE_W, adv 18 r)" "rd_u16 (adv 18 r) = Inr (of_nat EYE_H, adv 20 r)"
    "rd_u16 (adv 20 r) = Inr (24, adv 22 r)" "rd_u16 (adv 22 r) = Inr (1, adv 24 r)"
    "rd_u8 (adv 24 r) = Inr (0, adv 25 r)" "rd_u8 (adv 25 r) = Inr (1, adv 26 r)" "rd_u8 (adv 26 r) = Inr (1, adv 27 r)"
    "rd_u8 (adv 27 r) = Inr (0, adv 28 r)"
    "rd_u32 (adv 28 r) = Inr (16000000, adv 32 r)" "rd_u32 (adv 32 r) = Inr (1048576, adv 36 r)"
    "rd_u32 (adv 36 r) = Inr (131072, adv 40 r)" "rd_u32 (adv 40 r) = Inr (288000, adv 44 r)"
    "rd_u16 (adv 44 r) = Inr (48, adv 46 r)" "rd_u16 (adv 46 r) = Inr (0, adv 48 r)"
    "rd_u32 (adv 48 r) = Inr (n, adv 52 r)" "rd_u64 (adv 52 r) = Inr (0, adv 60 r)"
    using rd_u32_put[OF r] by (simp_all add: rd_simps r from_to_le_bytes)
  show ?thesis
    unfolding parse_file_header_def d bindR_simps prod.case by (simp add: FILE_HEADER_SIZE_def geom)
qed

section \<open>Fragments\<close>

definition fragment_valid :: "byte \<Rightarrow> byte \<Rightarrow> encoded_fragment \<Rightarrow> mb_desc list \<Rightarrow> bool" where
  "fragment_valid tile_id segment_count f ds \<longleftrightarrow>
     length (ef_segment_map_stream f) < 2 ^ 32 \<and> length (ef_mode_stream f) < 2 ^ 32 \<and>
     length (ef_residual_stream f) < 2 ^ 32 \<and> length (ef_raw_stream f) < 2 ^ 32 \<and>
     validate_fragment_header (ef_tile_id f) tile_id 0 0 (ef_row_start f) (ef_row_count f)
       (unat (ef_start_mb f)) (unat (ef_mb_count f)) = Inr () \<and>
     validate_segment_map (ef_segment_map_stream f) segment_count (unat (ef_mb_count f)) = Inr () \<and>
     parse_mbs (unat (ef_mb_count f)) (ef_mode_stream f) (ef_residual_stream f) (ef_raw_stream f) = Inr ds"

definition fragment_bytes :: "encoded_fragment \<Rightarrow> nat" where
  "fragment_bytes f = 28 + length (ef_segment_map_stream f) + length (ef_mode_stream f) +
     length (ef_residual_stream f) + length (ef_raw_stream f)"

lemma length_write_fragment [simp]: "length (write_fragment [] f) = fragment_bytes f"
  by (simp add: write_fragment_def put_u16_def put_u32_def Let_def fragment_bytes_def)

definition frag_header :: "encoded_fragment \<Rightarrow> byte list" where
  "frag_header f = [ef_tile_id f, ef_row_start f, ef_row_count f, 0] @ to_le_bytes 2 (ef_start_mb f) @
     to_le_bytes 2 (ef_mb_count f) @ to_le_bytes 4 (of_nat (length (ef_segment_map_stream f)) :: u32) @
     to_le_bytes 4 (of_nat (length (ef_mode_stream f)) :: u32) @ to_le_bytes 4 (of_nat (length (ef_residual_stream f)) :: u32) @
     to_le_bytes 4 (of_nat (length (ef_raw_stream f)) :: u32) @ to_le_bytes 4 (0 :: u32)"

lemma length_frag_header [simp]: "length (frag_header f) = 28"
  by (simp add: frag_header_def)

lemma write_fragment_split:
  "write_fragment [] f = frag_header f @ ef_segment_map_stream f @ ef_mode_stream f @ ef_residual_stream f @ ef_raw_stream f"
  by (simp add: write_fragment_def put_u16_def put_u32_def Let_def frag_header_def)

lemma frag_fields_written:
  "frag_fields (write_fragment [] f @ post) =
    (ef_tile_id f, ef_row_start f, ef_row_count f, 0, ef_start_mb f, ef_mb_count f,
     of_nat (length (ef_segment_map_stream f)), of_nat (length (ef_mode_stream f)),
     of_nat (length (ef_residual_stream f)), of_nat (length (ef_raw_stream f)), 0)"
  by (simp add: write_fragment_split frag_header_def frag_fields_def from_to_le_bytes)

lemma unat_length_u32: "n < 2 ^ 32 \<Longrightarrow> unat (of_nat n :: u32) = n"
  by (simp add: unat_of_nat take_bit_nat_eq_self)

lemma parse_fragment_written:
  assumes "fragment_valid tile_id sc f ds" and "rest r = write_fragment [] f @ post"
  shows "parse_fragment tile_id sc r = Inr ((unat (ef_start_mb f), ds), adv (fragment_bytes f) r)"
proof -
  have len: "\<not> length (rest r) < FRAGMENT_HEADER_SIZE"
    by (simp add: assms(2) fragment_bytes_def FRAGMENT_HEADER_SIZE_def)
  show ?thesis
    using assms(1)
    unfolding parse_fragment_def parse_fragment_streams_def if_not_P[OF len] assms(2) frag_fields_written prod.case
    by (simp add: fragment_valid_def unat_length_u32 rd_take_rest FRAGMENT_HEADER_SIZE_def assms(2) write_fragment_split fragment_bytes_def)
qed

section \<open>Tiles\<close>

definition tile_valid :: "encoded_tile \<Rightarrow> mb_desc list list \<Rightarrow> bool" where
  "tile_valid t dss \<longleftrightarrow> et_tile_id t \<le> 1 \<and> 1 \<le> et_segment_count t \<and> et_segment_count t \<le> 4 \<and>
     0 < length (et_fragments t) \<and> length (et_fragments t) < 256 \<and>
     sum_list (map fragment_bytes (et_fragments t)) < 2 ^ 32 \<and>
     list_all2 (fragment_valid (et_tile_id t) (et_segment_count t)) (et_fragments t) dss"

definition tile_to_ast :: "encoded_tile \<Rightarrow> mb_desc list list \<Rightarrow> tile_ast" where
  "tile_to_ast t dss = \<lparr>ta_id = et_tile_id t, ta_base = et_base_mv t,
     ta_lazy = (encoded_tile_base_predictor_mbs t \<le> LAZY_BASE_COPY_MAX_MB_PER_TILE),
     ta_frags = zip (map (\<lambda>f. unat (ef_start_mb f)) (et_fragments t)) dss\<rparr>"

definition tile_bytes :: "encoded_tile \<Rightarrow> nat" where
  "tile_bytes t = 17 + sum_list (map fragment_bytes (et_fragments t))"

lemma fold_write_fragment:
  "fold (\<lambda>f payload. write_fragment payload f) fs payload = payload @ concat (map (write_fragment []) fs)"
proof (induction fs arbitrary: payload)
  case (Cons f fs)
  then show ?case using write_fragment_append[of payload f] by simp
qed simp

lemma length_concat_fragments: "length (concat (map (write_fragment []) fs)) = sum_list (map fragment_bytes fs)"
  by (induction fs) auto

definition tile_header :: "encoded_tile \<Rightarrow> byte list" where
  "tile_header t = [et_tile_id t, 0, 0, of_nat MB_W, of_nat MB_H, mvX (et_base_mv t), mvY (et_base_mv t), 64, 64,
     et_segment_count t, of_nat (length (et_fragments t))] @ to_le_bytes 2 (tile_flags_for_encoded_tile t) @
     to_le_bytes 4 (of_nat (sum_list (map fragment_bytes (et_fragments t))) :: u32)"

lemma length_tile_header [simp]: "length (tile_header t) = 17"
  by (simp add: tile_header_def)

lemma write_tile_split: "write_tile [] t = tile_header t @ concat (map (write_fragment []) (et_fragments t))"
  by (simp add: write_tile_def put_u16_def put_u32_def Let_def tile_header_def fold_write_fragment length_concat_fragments)

lemma length_write_tile [simp]: "length (write_tile [] t) = tile_bytes t"
  by (simp add: write_tile_split tile_bytes_def length_concat_fragments)

lemma parse_fragments_written_loop:
  assumes "list_all2 (fragment_valid t sc) fs dss" and "rest tr = concat (map (write_fragment []) fs) @ post"
  shows "forR (\<lambda>_ (fs, tr). bindR (parse_fragment t sc tr) (\<lambda>(f, tr). Inr (fs @ [f], tr))) [m..<m + length fs] (acc, tr) =
    Inr (acc @ zip (map (\<lambda>f. unat (ef_start_mb f)) fs) dss, adv (sum_list (map fragment_bytes fs)) tr)"
  using assms
proof (induction fs dss arbitrary: m acc tr rule: list_all2_induct)
  case (Cons f fs ds dss)
  from Cons.prems have r: "rest tr = write_fragment [] f @ concat (map (write_fragment []) fs) @ post" by simp
  note p = parse_fragment_written[OF Cons.hyps(1) r]
  have "rest (adv (fragment_bytes f) tr) = concat (map (write_fragment []) fs) @ post" by (simp add: r)
  from Cons.IH[OF this, of "Suc m" "acc @ [(unat (ef_start_mb f), ds)]"] show ?case
    by (simp add: upt_conv_Cons p del: upt_Suc)
qed simp

lemma parse_fragments_written:
  assumes "list_all2 (fragment_valid t sc) fs dss" and "rest tr = concat (map (write_fragment []) fs)"
  shows "parse_fragments (length fs) t sc tr =
    Inr (zip (map (\<lambda>f. unat (ef_start_mb f)) fs) dss, adv (sum_list (map fragment_bytes fs)) tr)"
  using parse_fragments_written_loop[OF assms(1), of tr "[]" 0 "[]"] assms(2) by (simp add: parse_fragments_def)

lemma tile_fields_written:
  "tile_fields (write_tile [] t @ post) = (et_tile_id t, 0, 0, of_nat MB_W, of_nat MB_H, et_base_mv t, 64, 64,
     et_segment_count t, of_nat (length (et_fragments t)), tile_flags_for_encoded_tile t,
     of_nat (sum_list (map fragment_bytes (et_fragments t))))"
  by (simp add: write_tile_split tile_header_def tile_fields_def from_to_le_bytes)

lemma tile_flags_lazy:
  "tile_flags_for_encoded_tile t AND NOT SUPPORTED_TILE_FLAGS = 0"
  "tile_flags_for_encoded_tile t AND TILE_FLAG_LAZY_BASE_COPY \<noteq> 0 \<longleftrightarrow>
    encoded_tile_base_predictor_mbs t \<le> LAZY_BASE_COPY_MAX_MB_PER_TILE"
  by (auto simp: tile_flags_for_encoded_tile_def SUPPORTED_TILE_FLAGS_def TILE_FLAG_LAZY_BASE_COPY_def)

lemma parse_tile_written:
  assumes "tile_valid t dss" and "rest r = write_tile [] t @ post"
  shows "parse_tile r = Inr (tile_to_ast t dss, adv (tile_bytes t) r)"
proof -
  have len: "\<not> length (rest r) < TILE_HEADER_SIZE" by (simp add: assms(2) tile_bytes_def TILE_HEADER_SIZE_def)
  let ?n = "sum_list (map fragment_bytes (et_fragments t))"
  have n: "unat (of_nat ?n :: u32) = ?n" using assms(1) by (intro unat_length_u32) (simp add: tile_valid_def)
  have k: "unat (of_nat (length (et_fragments t)) :: byte) = length (et_fragments t)"
    using assms(1) by (simp add: tile_valid_def unat_of_nat take_bit_nat_eq_self)
  then have k0: "(of_nat (length (et_fragments t)) :: byte) \<noteq> 0" using assms(1) by (auto simp: tile_valid_def)
  have take: "rd_take ?n (adv TILE_HEADER_SIZE r) =
      Inr (concat (map (write_fragment []) (et_fragments t)), adv (tile_bytes t) r)"
    by (simp add: rd_take_rest assms(2) write_tile_split TILE_HEADER_SIZE_def tile_bytes_def length_concat_fragments)
  have frags: "parse_fragments (length (et_fragments t)) (et_tile_id t) (et_segment_count t)
      (reader_new (concat (map (write_fragment []) (et_fragments t)))) =
      Inr (ta_frags (tile_to_ast t dss), adv ?n (reader_new (concat (map (write_fragment []) (et_fragments t)))))"
    using assms(1) by (subst parse_fragments_written) (auto simp: tile_valid_def tile_to_ast_def)
  have wh: "unat (of_nat MB_W :: byte) = MB_W" "unat (of_nat MB_H :: byte) = MB_H" by (simp_all add: geom)
  show ?thesis
    using assms(1) take frags k0
    unfolding parse_tile_def if_not_P[OF len] assms(2) tile_fields_written prod.case
    by (simp add: tile_valid_def byte_le_1 tile_flags_lazy n k wh length_concat_fragments tile_to_ast_def tile_bytes_def TILE_HEADER_SIZE_def)
qed

section \<open>Frames\<close>

definition frame_header :: "nat \<Rightarrow> u32 \<Rightarrow> byte \<Rightarrow> byte list" where
  "frame_header n no ty = to_le_bytes 4 FRAME_MAGIC @ to_le_bytes 4 (of_nat n :: u32) @ to_le_bytes 4 no @ to_le_bytes 4 no @
     [ty, 2, 0, 0] @ to_le_bytes 4 (0 :: u32) @ to_le_bytes 4 (0 :: u32)"

lemma length_frame_header [simp]: "length (frame_header n no ty) = 28"
  by (simp add: frame_header_def)

lemma frame_header_not_Nil [simp]: "frame_header n no ty \<noteq> []"
  by (simp add: frame_header_def)

lemma frame_header_fields:
  "from_le_bytes (take 4 (drop 0 (frame_header n no ty @ post))) = FRAME_MAGIC"
  "from_le_bytes (take 4 (drop 4 (frame_header n no ty @ post))) = (of_nat n :: u32)"
  "from_le_bytes (take 4 (drop 8 (frame_header n no ty @ post))) = no"
  "(frame_header n no ty @ post) ! 16 = ty" "(frame_header n no ty @ post) ! 17 = 2"
  "(frame_header n no ty @ post) ! 18 = 0" "(frame_header n no ty @ post) ! 19 = 0"
  by (simp_all add: frame_header_def from_to_le_bytes nth_append)

lemma parse_frame_written:
  assumes "rest r = frame_header (length payload) no ty @ payload @ post"
    and "length payload < 2 ^ 32" and "rd_pos r + 28 + length payload < 2 ^ 64"
  shows "parse_frame has r = bindR (parse_payload has ty 2 payload) (\<lambda>f.
    Inr (Some (no, ty, f), adv (28 + length payload) r))"
proof -
  have "length (rest r) \<ge> 28" using arg_cong[OF assms(1), of length] by simp
  then have len: "\<not> length (rest r) < FRAME_HEADER_SIZE" "\<not> rest r = []"
    by (auto simp: FRAME_HEADER_SIZE_def)
  show ?thesis
    using assms(3)
    unfolding parse_frame_def if_not_P[OF len(1)] if_not_P[OF len(2)] assms(1) Let_def frame_header_fields
    by (simp add: unat_length_u32[OF assms(2)] checked_add_def FRAME_HEADER_SIZE_def)
qed

lemma write_key_raw_frame_split:
  assumes "wf_sbs f"
  shows "write_key_raw_frame [] no f = frame_header SBS_FRAME_BYTES no FRAME_TYPE_KEY_RAW @ write_eye_raw (write_eye_raw [] (sbs_left f)) (sbs_right f)"
    and "length (write_eye_raw (write_eye_raw [] (sbs_left f)) (sbs_right f)) = SBS_FRAME_BYTES"
proof -
  show l: "length (write_eye_raw (write_eye_raw [] (sbs_left f)) (sbs_right f)) = SBS_FRAME_BYTES"
    using assms by (simp add: write_eye_raw_def wf_sbs_def wf_eye_def sbs_bytes)
  show "write_key_raw_frame [] no f = frame_header SBS_FRAME_BYTES no FRAME_TYPE_KEY_RAW @ write_eye_raw (write_eye_raw [] (sbs_left f)) (sbs_right f)"
    unfolding write_key_raw_frame_def Let_def l by (simp add: write_frame_header_def put_u32_def Let_def frame_header_def)
qed

lemma raw_frame_written:
  assumes "wf_eye e"
  shows "raw_frame (write_eye_raw [] e @ post) = e"
  using assms by (cases e) (simp add: raw_frame_def write_eye_raw_def wf_eye_def)

lemma decode_key_frame_written:
  assumes "wf_sbs f" and "wf_state st" and "rest r = write_key_raw_frame [] no f @ post"
    and "rd_pos r + 28 + SBS_FRAME_BYTES < 2 ^ 64"
  shows "decode_next_frame r st = Inr (Some \<lparr>df_frame_no = no, df_frame_type = FRAME_TYPE_KEY_RAW, df_frame = f\<rparr>,
    adv (28 + SBS_FRAME_BYTES) r, swap_in f st)"
proof -
  let ?p = "write_eye_raw (write_eye_raw [] (sbs_left f)) (sbs_right f)"
  have len: "length ?p = SBS_FRAME_BYTES" using write_key_raw_frame_split[OF assms(1)] by simp
  have p: "parse_frame has r = Inr (Some (no, FRAME_TYPE_KEY_RAW, KeyF ?p), adv (28 + SBS_FRAME_BYTES) r)" for has
    using parse_frame_written[of r ?p no FRAME_TYPE_KEY_RAW post has] assms(3,4) write_key_raw_frame_split[OF assms(1)]
    by (simp add: parse_payload_def geom)
  have w: "wf_eye (sbs_left f)" "wf_eye (sbs_right f)" using assms(1) by (auto simp: wf_sbs_def)
  have e: "EYE_FRAME_BYTES = length (write_eye_raw [] (sbs_left f))"
    using w by (simp add: write_eye_raw_def wf_eye_def sbs_bytes)
  have "?p = write_eye_raw [] (sbs_left f) @ write_eye_raw [] (sbs_right f)" by (simp add: write_eye_raw_def)
  then have "raw_frame ?p = sbs_left f" "raw_frame (drop EYE_FRAME_BYTES ?p) = sbs_right f"
    using raw_frame_written[OF w(1)] raw_frame_written[OF w(2), of "[]"] by (simp_all add: e)
  then have "apply_frame (KeyF ?p) st = swap_in f st" by (cases f) simp
  then show ?thesis by (simp add: decode_next_frame_ok[OF assms(2)] p swap_in_def)
qed

section \<open>P-frames\<close>

definition p_payload :: "encoded_tile \<Rightarrow> encoded_tile \<Rightarrow> byte list" where
  "p_payload left right = write_tile (write_tile [] left) right"

lemma write_p_frame_split:
  "write_p_frame [] no left right = frame_header (length (p_payload left right)) no FRAME_TYPE_P @ p_payload left right"
  by (simp add: write_p_frame_def Let_def p_payload_def write_frame_header_def put_u32_def frame_header_def)

lemma p_payload_split: "p_payload left right = write_tile [] left @ write_tile [] right"
  unfolding p_payload_def by (rule write_tile_append)

lemma parse_tiles_written:
  assumes "tile_valid left dl" and "tile_valid right dr"
  shows "parse_tiles (p_payload left right) = Inr (tile_to_ast left dl, tile_to_ast right dr)"
proof -
  have 1: "parse_tile (reader_new (p_payload left right)) =
      Inr (tile_to_ast left dl, adv (tile_bytes left) (reader_new (p_payload left right)))"
    by (rule parse_tile_written[OF assms(1), of _ "write_tile [] right"]) (simp add: p_payload_split)
  have "rest (adv (tile_bytes left) (reader_new (p_payload left right))) = write_tile [] right @ []"
    by (simp add: p_payload_split)
  note 2 = parse_tile_written[OF assms(2) this]
  show ?thesis by (simp add: parse_tiles_def 1 2 remaining_eq_0_iff) (simp add: p_payload_split)
qed

definition p_result :: "tile_ast \<Rightarrow> tile_ast \<Rightarrow> decoder_state \<Rightarrow> sbs_frame" where
  "p_result t1 t2 st = put_tile (ds_reference st) t2 (put_tile (ds_reference st) t1 (ds_current st))"

lemma decode_p_frame_written:
  assumes "tile_valid left dl" and "tile_valid right dr" and "wf_state st" and "ds_has_reference st"
    and "frame_complete (PF (tile_to_ast left dl) (tile_to_ast right dr))"
    and "rest r = write_p_frame [] no left right @ post"
    and "length (p_payload left right) < 2 ^ 32" and "rd_pos r + 28 + length (p_payload left right) < 2 ^ 64"
  shows "\<exists>st'. decode_next_frame r st = Inr (Some \<lparr>df_frame_no = no, df_frame_type = FRAME_TYPE_P,
      df_frame = p_result (tile_to_ast left dl) (tile_to_ast right dr) st\<rparr>, adv (28 + length (p_payload left right)) r, st') \<and>
    ds_reference st' = p_result (tile_to_ast left dl) (tile_to_ast right dr) st \<and> ds_has_reference st' \<and> wf_state st'"
proof -
  let ?p = "p_payload left right" and ?l = "tile_to_ast left dl" and ?r = "tile_to_ast right dr"
  note pt = parse_tiles_written[OF assms(1,2)]
  have ok: "frame_ok (PF ?l ?r)" using parse_tiles_ok[OF pt] by (simp add: frame_ok_def)
  have pf: "parse_frame True r = bindR (parse_payload True FRAME_TYPE_P 2 ?p) (\<lambda>f. Inr (Some (no, FRAME_TYPE_P, f), adv (28 + length ?p) r))"
    using assms(6-8) by (intro parse_frame_written[of r ?p no FRAME_TYPE_P post]) (simp_all add: write_p_frame_split)
  have ne: "FRAME_TYPE_P \<noteq> FRAME_TYPE_KEY_RAW" by (simp add: FRAME_TYPE_P_def FRAME_TYPE_KEY_RAW_def)
  show ?thesis
  proof (cases "length ?p \<le> REFERENCE_REUSE_FRAME_PAYLOAD_MAX \<and> p_payload_reuses_reference ?p 2")
    case True
    then have "parse_payload True FRAME_TYPE_P 2 ?p = Inr ReuseF" by (simp add: parse_payload_def ne)
    then have d: "decode_next_frame r st = Inr (Some \<lparr>df_frame_no = no, df_frame_type = FRAME_TYPE_P, df_frame = ds_reference st\<rparr>,
        adv (28 + length ?p) r, st)"
      using pf assms(4) by (simp add: decode_next_frame_ok[OF assms(3)])
    from p_reuse_parse[of ?p] True pt have "ta_base ?l = mv_zero" "ta_base ?r = mv_zero"
      "all_skipped (ta_frags ?l)" "all_skipped (ta_frags ?r)" by auto
    from reuse_is_reference[OF _ _ ok assms(5) this] assms(3) have "p_result ?l ?r st = ds_reference st"
      by (simp add: p_result_def wf_state_def)
    with d assms(3,4) show ?thesis by simp
  next
    case False
    then have "parse_payload True FRAME_TYPE_P 2 ?p = Inr (PF ?l ?r)" using pt ne by (auto simp: parse_payload_def)
    then have "decode_next_frame r st = Inr (Some \<lparr>df_frame_no = no, df_frame_type = FRAME_TYPE_P, df_frame = p_result ?l ?r st\<rparr>,
        adv (28 + length ?p) r, swap_in (p_result ?l ?r st) st)"
      using pf assms(4) by (simp add: decode_next_frame_ok[OF assms(3)] p_result_def swap_in_def)
    moreover have "wf_state (swap_in (p_result ?l ?r st) st)"
      using wf_apply_frame[OF assms(3) ok] by (simp add: p_result_def)
    ultimately show ?thesis by (simp add: swap_in_def)
  qed
qed

section \<open>Whole streams\<close>

text \<open>
  A stream as its writer sees it: key frames and P-frames in order. What is
  shown is a function of the previous picture alone.
\<close>

datatype written = WKey u32 sbs_frame
  | WP u32 encoded_tile "mb_desc list list" encoded_tile "mb_desc list list"

fun write_written :: "written \<Rightarrow> byte list" where
  "write_written (WKey no f) = write_key_raw_frame [] no f"
| "write_written (WP no left dl right dr) = write_p_frame [] no left right"

fun written_bytes :: "written \<Rightarrow> nat" where
  "written_bytes (WKey no f) = 28 + SBS_FRAME_BYTES"
| "written_bytes (WP no left dl right dr) = 28 + tile_bytes left + tile_bytes right"

fun shown :: "sbs_frame \<Rightarrow> written \<Rightarrow> decoded_frame" where
  "shown reference (WKey no f) = \<lparr>df_frame_no = no, df_frame_type = FRAME_TYPE_KEY_RAW, df_frame = f\<rparr>"
| "shown reference (WP no left dl right dr) = \<lparr>df_frame_no = no, df_frame_type = FRAME_TYPE_P,
     df_frame = put_tile reference (tile_to_ast right dr) (put_tile reference (tile_to_ast left dl) reference)\<rparr>"

primrec shown_all :: "sbs_frame \<Rightarrow> written list \<Rightarrow> decoded_frame list" where
  "shown_all reference [] = []"
| "shown_all reference (w # ws) = shown reference w # shown_all (df_frame (shown reference w)) ws"

text \<open>The first frame must be a key frame; a P-frame's two tiles fill both eyes.\<close>

fun written_ok :: "bool \<Rightarrow> written \<Rightarrow> bool" where
  "written_ok has (WKey no f) \<longleftrightarrow> wf_sbs f"
| "written_ok has (WP no left dl right dr) \<longleftrightarrow> has \<and> tile_valid left dl \<and> tile_valid right dr \<and>
     frame_complete (PF (tile_to_ast left dl) (tile_to_ast right dr)) \<and> tile_bytes left + tile_bytes right < 2 ^ 32"

primrec stream_ok :: "bool \<Rightarrow> written list \<Rightarrow> bool" where
  "stream_ok has [] \<longleftrightarrow> True"
| "stream_ok has (w # ws) \<longleftrightarrow> written_ok has w \<and> stream_ok True ws"

definition write_all :: "written list \<Rightarrow> byte list" where
  "write_all ws = concat (map write_written ws)"

lemma length_p_payload [simp]: "length (p_payload left right) = tile_bytes left + tile_bytes right"
  by (simp add: p_payload_split)

lemma length_write_written: "written_ok has w \<Longrightarrow> length (write_written w) = written_bytes w"
  by (cases w) (simp_all add: write_key_raw_frame_split write_p_frame_split)

lemma p_result_shown:
  assumes "wf_state st" and "tile_valid left dl" and "tile_valid right dr"
    and "frame_complete (PF (tile_to_ast left dl) (tile_to_ast right dr))"
  shows "p_result (tile_to_ast left dl) (tile_to_ast right dr) st =
    df_frame (shown (ds_reference st) (WP no left dl right dr))"
proof -
  have "frame_ok (PF (tile_to_ast left dl) (tile_to_ast right dr))"
    using parse_tiles_ok[OF parse_tiles_written[OF assms(2,3)]] by (simp add: frame_ok_def)
  then show ?thesis
    using assms complete_tiles_independent[of "ds_current st" "ds_reference st"] by (simp add: p_result_def wf_state_def)
qed

lemma decode_written:
  assumes "written_ok (ds_has_reference st) w" and "wf_state st" and "rest r = write_written w @ post"
    and "rd_pos r + written_bytes w < 2 ^ 64"
  shows "\<exists>st'. decode_next_frame r st = Inr (Some (shown (ds_reference st) w), adv (written_bytes w) r, st') \<and>
    ds_reference st' = df_frame (shown (ds_reference st) w) \<and> ds_has_reference st' \<and> wf_state st'"
proof (cases w)
  case (WKey no f)
  then have f: "wf_sbs f" "rest r = write_key_raw_frame [] no f @ post" "rd_pos r + 28 + SBS_FRAME_BYTES < 2 ^ 64"
    using assms by simp_all
  from decode_key_frame_written[OF f(1) assms(2) f(2,3)] show ?thesis
    using WKey assms(2) f(1) by (simp add: swap_in_def wf_state_def)
next
  case (WP no left dl right dr)
  then have v: "tile_valid left dl" "tile_valid right dr" "ds_has_reference st"
    "frame_complete (PF (tile_to_ast left dl) (tile_to_ast right dr))" "rest r = write_p_frame [] no left right @ post"
    "length (p_payload left right) < 2 ^ 32" "rd_pos r + 28 + length (p_payload left right) < 2 ^ 64"
    using assms by simp_all
  from decode_p_frame_written[OF v(1,2) assms(2) v(3-7)] show ?thesis
    using WP p_result_shown[OF assms(2) v(1,2,4), of no] by (simp add: add.assoc)
qed

lemma decode_loop_end: "rest r = [] \<Longrightarrow> wf_state st \<Longrightarrow> decode_loop on_frame n s r st = Inr (n, s, st)"
  by (subst decode_loop.simps) (simp add: decode_next_frame_ok parse_frame_def)

lemma decode_loop_written:
  assumes "stream_ok (ds_has_reference st) ws" and "wf_state st" and "rest r = write_all ws"
    and "rd_pos r + length (write_all ws) < 2 ^ 64"
  shows "\<exists>st'. decode_loop on_frame n s r st =
    Inr (n + length ws, fold on_frame (shown_all (ds_reference st) ws) s, st') \<and> wf_state st'"
  using assms
proof (induction ws arbitrary: n s r st)
  case Nil
  then show ?case by (simp add: decode_loop_end write_all_def)
next
  case (Cons w ws)
  have w: "written_ok (ds_has_reference st) w" and len: "length (write_written w) = written_bytes w"
    and ra: "rest r = write_written w @ write_all ws"
    using Cons.prems length_write_written by (auto simp: write_all_def)
  have pos: "rd_pos r + written_bytes w + length (write_all ws) < 2 ^ 64"
    using Cons.prems(4) len by (simp add: write_all_def)
  then have pos': "rd_pos r + written_bytes w < 2 ^ 64" by linarith
  from decode_written[OF w Cons.prems(2) ra pos'] obtain st1 where d:
    "decode_next_frame r st = Inr (Some (shown (ds_reference st) w), adv (written_bytes w) r, st1)"
    and st1: "ds_reference st1 = df_frame (shown (ds_reference st) w)" "ds_has_reference st1" "wf_state st1" by blast
  have "rest (adv (written_bytes w) r) = write_all ws" by (simp add: ra len)
  with Cons.IH[of st1 "adv (written_bytes w) r" "n + 1"] Cons.prems(1) st1 pos show ?case
    by (subst decode_loop.simps) (simp add: d adv_def add.assoc)
qed

lemma fold_snoc: "fold (\<lambda>x xs. xs @ [x]) ys acc = acc @ ys"
  by (induction ys arbitrary: acc) auto

lemma decode_stream_written:
  assumes "stream_ok False ws" and "60 + length (write_all ws) < 2 ^ 64"
  shows "decode_stream_with_metadata (write_file_header [] n @ write_all ws) = Inr (shown_all SbsFrame_new ws)"
proof -
  let ?r = "reader_new (write_file_header [] n @ write_all ws)"
  have h: "parse_file_header ?r = Inr (adv 60 ?r)" by (rule parse_file_header_written) simp
  have ref: "ds_reference (DecoderState_reset DecoderState_new) = SbsFrame_new"
    "\<not> ds_has_reference (DecoderState_reset DecoderState_new)"
    by (simp_all add: DecoderState_reset_def DecoderState_new_def)
  have rest: "rest (adv 60 ?r) = write_all ws" by (simp add: length_write_file_header)
  have pos: "rd_pos (adv 60 ?r) = 60" by (simp add: adv_def reader_new_def)
  from decode_loop_written[of "DecoderState_reset DecoderState_new" ws "adv 60 ?r" "\<lambda>d fs. fs @ [d]" 0 "[]"]
  obtain st' where "decode_loop (\<lambda>d fs. fs @ [d]) 0 [] (adv 60 ?r) (DecoderState_reset DecoderState_new) =
      Inr (length ws, shown_all SbsFrame_new ws, st')"
    using assms rest pos ref by (auto simp: fold_snoc)
  then show ?thesis
    by (simp add: decode_stream_with_metadata_def decode_stream_for_each_def decode_stream_for_each_with_state_def h)
qed

end
