(* ===== verification/O3_Sbs.thy ===== *)
theory O3_Sbs
  imports O3_Eye
begin

text \<open>
  Side-by-side YUV 4:2:0 pictures: \<open>SbsFrame::from_yuv420_sbs\<close>,
  \<open>write_yuv420_sbs_into\<close>, \<open>to_yuv420_sbs\<close> and \<open>EyeFrame::write_yuv420p_into\<close>.
  Splitting a picture into two eyes and joining them again are inverse.
\<close>

section \<open>The operations\<close>

definition on_left :: "(eye_frame \<Rightarrow> eye_frame result) \<Rightarrow> sbs_frame \<Rightarrow> sbs_frame result" where
  "on_left f s = bindR (f (sbs_left s)) (\<lambda>e. Inr (s\<lparr>sbs_left := e\<rparr>))"

definition on_right :: "(eye_frame \<Rightarrow> eye_frame result) \<Rightarrow> sbs_frame \<Rightarrow> sbs_frame result" where
  "on_right f s = bindR (f (sbs_right s)) (\<lambda>e. Inr (s\<lparr>sbs_right := e\<rparr>))"

definition EyeFrame_write_yuv420p_into :: "eye_frame \<Rightarrow> byte list \<Rightarrow> byte list result" where
  "EyeFrame_write_yuv420p_into eye out =
     (if length out \<noteq> EYE_FRAME_BYTES then
        Inl (Invalid (''expected '' @ dec EYE_FRAME_BYTES @ '' eye YUV420 bytes, got '' @ dec (length out)))
      else
        let y_len = EYE_W * EYE_H; c_len = CHROMA_W * CHROMA_H in
        bindR (copy_from_slice out 0 y_len (eye_y eye)) (\<lambda>out.
        bindR (copy_from_slice out y_len (y_len + c_len) (eye_cb eye)) (\<lambda>out.
        copy_from_slice out (y_len + c_len) (length out) (eye_cr eye))))"

definition from_yuv420_sbs :: "byte list \<Rightarrow> sbs_frame result" where
  "from_yuv420_sbs bytes =
     (if length bytes \<noteq> SBS_FRAME_BYTES then
        Inl (Invalid (''expected '' @ dec SBS_FRAME_BYTES @ '' YUV420 bytes, got '' @ dec (length bytes)))
      else
        bindR (slice_range bytes 0 (VISIBLE_W * VISIBLE_H)) (\<lambda>y_plane.
        let cb_start = VISIBLE_W * VISIBLE_H; cb_len = (VISIBLE_W div 2) * (VISIBLE_H div 2) in
        bindR (slice_range bytes cb_start (cb_start + cb_len)) (\<lambda>cb_plane.
        bindR (slice_range bytes (cb_start + cb_len) (length bytes)) (\<lambda>cr_plane.
        bindR (forR (\<lambda>row frame.
          bindR (slice_range y_plane (row * VISIBLE_W) ((row + 1) * VISIBLE_W)) (\<lambda>src.
          bindR (slice_range src 0 EYE_W) (\<lambda>s.
          bindR (on_left (on_y (\<lambda>p. copy_from_slice p (row * EYE_W) ((row + 1) * EYE_W) s)) frame) (\<lambda>frame.
          bindR (slice_range src EYE_W (length src)) (\<lambda>s.
          on_right (on_y (\<lambda>p. copy_from_slice p (row * EYE_W) ((row + 1) * EYE_W) s)) frame)))))
          [0..<EYE_H] SbsFrame_new) (\<lambda>frame.
        forR (\<lambda>row frame.
          bindR (slice_range cb_plane (row * (VISIBLE_W div 2)) ((row + 1) * (VISIBLE_W div 2))) (\<lambda>src_cb.
          bindR (slice_range cr_plane (row * (VISIBLE_W div 2)) ((row + 1) * (VISIBLE_W div 2))) (\<lambda>src_cr.
          bindR (slice_range src_cb 0 CHROMA_W) (\<lambda>s.
          bindR (on_left (on_cb (\<lambda>p. copy_from_slice p (row * CHROMA_W) ((row + 1) * CHROMA_W) s)) frame) (\<lambda>frame.
          bindR (slice_range src_cb CHROMA_W (length src_cb)) (\<lambda>s.
          bindR (on_right (on_cb (\<lambda>p. copy_from_slice p (row * CHROMA_W) ((row + 1) * CHROMA_W) s)) frame) (\<lambda>frame.
          bindR (slice_range src_cr 0 CHROMA_W) (\<lambda>s.
          bindR (on_left (on_cr (\<lambda>p. copy_from_slice p (row * CHROMA_W) ((row + 1) * CHROMA_W) s)) frame) (\<lambda>frame.
          bindR (slice_range src_cr CHROMA_W (length src_cr)) (\<lambda>s.
          on_right (on_cr (\<lambda>p. copy_from_slice p (row * CHROMA_W) ((row + 1) * CHROMA_W) s)) frame))))))))))
          [0..<CHROMA_H] frame)))))"

text \<open>
  \<open>split_at_mut\<close> hands out the chroma planes as two slices; they are put back
  behind the luma plane at the end.
\<close>

definition write_yuv420_sbs_into :: "sbs_frame \<Rightarrow> byte list \<Rightarrow> byte list result" where
  "write_yuv420_sbs_into frame out =
     (if length out \<noteq> SBS_FRAME_BYTES then
        Inl (Invalid (''expected '' @ dec SBS_FRAME_BYTES @ '' SBS YUV420 bytes, got '' @ dec (length out)))
      else
        let cb_start = VISIBLE_W * VISIBLE_H; cb_len = (VISIBLE_W div 2) * (VISIBLE_H div 2);
            cr_start = cb_start + cb_len in
        bindR (forR (\<lambda>row out.
          bindR (slice_range (eye_y (sbs_left frame)) (row * EYE_W) ((row + 1) * EYE_W)) (\<lambda>s.
          bindR (copy_from_slice out (row * VISIBLE_W) (row * VISIBLE_W + EYE_W) s) (\<lambda>out.
          bindR (slice_range (eye_y (sbs_right frame)) (row * EYE_W) ((row + 1) * EYE_W)) (\<lambda>s.
          copy_from_slice out (row * VISIBLE_W + EYE_W) ((row + 1) * VISIBLE_W) s))))
          [0..<EYE_H] out) (\<lambda>out.
        bindR (slice_range out cb_start cr_start) (\<lambda>cb_plane.
        bindR (slice_range out cr_start (length out)) (\<lambda>cr_plane.
        bindR (forR (\<lambda>row (cb_plane, cr_plane).
          let a = row * (VISIBLE_W div 2); b = (row + 1) * (VISIBLE_W div 2) in
          bindR (slice_range (eye_cb (sbs_left frame)) (row * CHROMA_W) ((row + 1) * CHROMA_W)) (\<lambda>s.
          bindR (copy_from_slice cb_plane a (a + CHROMA_W) s) (\<lambda>cb_plane.
          bindR (slice_range (eye_cb (sbs_right frame)) (row * CHROMA_W) ((row + 1) * CHROMA_W)) (\<lambda>s.
          bindR (copy_from_slice cb_plane (a + CHROMA_W) b s) (\<lambda>cb_plane.
          bindR (slice_range (eye_cr (sbs_left frame)) (row * CHROMA_W) ((row + 1) * CHROMA_W)) (\<lambda>s.
          bindR (copy_from_slice cr_plane a (a + CHROMA_W) s) (\<lambda>cr_plane.
          bindR (slice_range (eye_cr (sbs_right frame)) (row * CHROMA_W) ((row + 1) * CHROMA_W)) (\<lambda>s.
          bindR (copy_from_slice cr_plane (a + CHROMA_W) b s) (\<lambda>cr_plane.
          Inr (cb_plane, cr_plane))))))))))
          [0..<CHROMA_H] (cb_plane, cr_plane)) (\<lambda>(cb_plane, cr_plane).
        Inr (take cb_start out @ cb_plane @ cr_plane))))))"

text \<open>\<open>expect\<close> turns the error of a wrong size into a panic.\<close>

definition to_yuv420_sbs :: "sbs_frame \<Rightarrow> byte list result" where
  "to_yuv420_sbs frame =
     (case write_yuv420_sbs_into frame (replicate SBS_FRAME_BYTES 0) of Inr out \<Rightarrow> Inr out | Inl e \<Rightarrow> Inl Fault)"

section \<open>Filling a buffer from the front\<close>

definition filled :: "(nat \<Rightarrow> byte) \<Rightarrow> nat \<Rightarrow> byte list \<Rightarrow> byte list" where
  "filled g n d = map g [0..<n] @ drop n d"

lemma filled_0 [simp]: "filled g 0 d = d"
  by (simp add: filled_def)

lemma length_filled [simp]: "n \<le> length d \<Longrightarrow> length (filled g n d) = length d"
  by (simp add: filled_def)

lemma filled_all: "n = length d \<Longrightarrow> filled g n d = map g [0..<n]"
  by (simp add: filled_def)

lemma copy_from_slice_filled:
  assumes "a \<le> b" and "b \<le> length d" and "xs = map g [a..<b]"
  shows "copy_from_slice (filled g a d) a b xs = Inr (filled g b d)"
proof -
  have "[0..<b] = [0..<a] @ [a..<b]" using assms(1) upt_add_eq_append[of 0 a "b - a"] by simp
  with assms show ?thesis by (simp add: copy_from_slice_def filled_def)
qed

lemma slice_range_nth:
  assumes "a \<le> b" and "b \<le> length xs"
  shows "slice_range xs a b = Inr (map ((!) xs) [a..<b])"
  using assms by (auto simp: slice_range_def intro!: nth_equalityI)

section \<open>Halves of the rows of a picture\<close>

definition half_pos :: "nat \<Rightarrow> nat \<Rightarrow> nat \<Rightarrow> nat" where
  "half_pos w x0 i = i div w * (2 * w) + (x0 + i mod w)"

definition half :: "nat \<Rightarrow> nat \<Rightarrow> nat \<Rightarrow> byte list \<Rightarrow> byte list" where
  "half w h x0 p = map (\<lambda>i. p ! half_pos w x0 i) [0..<w * h]"

definition join_sample :: "nat \<Rightarrow> byte list \<Rightarrow> byte list \<Rightarrow> nat \<Rightarrow> byte" where
  "join_sample w a b i =
     (let row = i div (2 * w); col = i mod (2 * w) in if col < w then a ! (row * w + col) else b ! (row * w + (col - w)))"

definition join_rows :: "nat \<Rightarrow> nat \<Rightarrow> byte list \<Rightarrow> byte list \<Rightarrow> byte list" where
  "join_rows w h a b = map (join_sample w a b) [0..<2 * w * h]"

lemma row_div_mod: "x < w \<Longrightarrow> (row * w + x) div w = row \<and> (row * w + x) mod w = (x::nat)"
  by (cases "w = 0") auto

lemma map_row_eqI:
  assumes "b - a = d - (c::nat)" and "\<And>x. x < b - a \<Longrightarrow> f (a + x) = g (c + x)"
  shows "map f [a..<b] = map g [c..<d]"
  using assms by (intro nth_equalityI) auto

lemma nth_map_row: "x < b - a \<Longrightarrow> map f [a..<b] ! x = f (a + x)"
  by simp

lemma half_pos_less:
  assumes "i < w * h" and "x0 \<le> w"
  shows "half_pos w x0 i < 2 * w * h"
proof -
  have "0 < w" using assms(1) by (cases w) auto
  then have "i mod w < w" by simp
  moreover have "i div w < h" using assms(1) by (simp add: less_mult_imp_div_less mult.commute)
  ultimately show ?thesis
    using assms(2) index_bound[of "x0 + i mod w" "2 * w" "i div w" h] by (simp add: half_pos_def)
qed

lemma join_half:
  assumes "i < w * h"
  shows "join_sample w a b (half_pos w 0 i) = a ! i" and "join_sample w a b (half_pos w w i) = b ! i"
proof -
  have w: "0 < w" using assms by (cases w) auto
  then have m: "i mod w < w" by simp
  have "(i div w * (2 * w) + x) div (2 * w) = i div w \<and> (i div w * (2 * w) + x) mod (2 * w) = x" if "x < 2 * w" for x
    using that by (rule row_div_mod)
  note this[of "i mod w"] this[of "w + i mod w"]
  with m show "join_sample w a b (half_pos w 0 i) = a ! i" and "join_sample w a b (half_pos w w i) = b ! i"
    by (simp_all add: join_sample_def half_pos_def Let_def)
qed

lemma half_join:
  assumes "length a = w * h" and "length b = w * h"
  shows "half w h 0 (join_rows w h a b) = a" and "half w h w (join_rows w h a b) = b"
  using assms by (auto simp: half_def join_rows_def half_pos_less join_half intro!: nth_equalityI)

lemma join_halves:
  assumes "length p = 2 * w * h"
  shows "join_rows w h (half w h 0 p) (half w h w p) = p"
proof (rule nth_equalityI)
  fix i assume "i < length (join_rows w h (half w h 0 p) (half w h w p))"
  then have i: "i < 2 * w * h" by (simp add: join_rows_def)
  then have w: "0 < w" by (cases w) auto
  let ?row = "i div (2 * w)" and ?col = "i mod (2 * w)"
  have row: "?row < h" using i by (simp add: less_mult_imp_div_less mult.commute)
  have col: "?col < 2 * w" using w by simp
  have e: "half_pos w x0 (?row * w + x) = ?row * (2 * w) + (x0 + x)" if "x < w" for x x0
    using row_div_mod[OF that] by (simp add: half_pos_def)
  have b: "?row * w + x < w * h" if "x < w" for x using that row by (rule index_bound)
  show "join_rows w h (half w h 0 p) (half w h w p) ! i = p ! i"
    using i b[of ?col] b[of "?col - w"] e[of ?col 0] e[of "?col - w" w] col less_diff_conv2[of w ?col w]
      div_mult_mod_eq[of i "2 * w"]
    by (cases "?col < w") (simp_all add: join_rows_def join_sample_def half_def Let_def)
qed (simp add: join_rows_def assms)

section \<open>Splitting\<close>

lemma visible: "VISIBLE_W = 2 * EYE_W" "VISIBLE_H = EYE_H" "VISIBLE_W div 2 = 2 * CHROMA_W" "VISIBLE_H div 2 = CHROMA_H"
  "EYE_W \<noteq> 0" "CHROMA_W \<noteq> 0" "SBS_FRAME_BYTES = 2 * EYE_W * EYE_H + (2 * CHROMA_W * CHROMA_H + 2 * CHROMA_W * CHROMA_H)"
  "EYE_FRAME_BYTES = EYE_W * EYE_H + (CHROMA_W * CHROMA_H + CHROMA_W * CHROMA_H)"
  by (simp_all add: geom)

lemma row_le: "row < h \<Longrightarrow> row * w + w \<le> h * (w :: nat)"
  by (metis Suc_leI mult_Suc mult_le_mono1 add.commute)

text \<open>One row: the two halves of row \<open>row\<close> of \<open>p\<close>, and what they add to the eyes.\<close>

lemma half_row:
  assumes "x0 \<le> w"
  shows "map (\<lambda>i. p ! half_pos w x0 i) [row * w..<(row + 1) * w] =
    map ((!) (map ((!) p) [row * (2 * w)..<(row + 1) * (2 * w)])) [x0..<x0 + w]"
  using assms row_div_mod[of _ w row] by (intro nth_equalityI) (auto simp: half_pos_def add_mult_distrib)

lemma split_row:
  assumes "length p = 2 * w * h" and "row < h" and "length d = w * h"
  shows "slice_range p (row * (2 * w)) ((row + 1) * (2 * w)) = Inr (map ((!) p) [row * (2 * w)..<(row + 1) * (2 * w)])"
    and "slice_range (map ((!) p) [row * (2 * w)..<(row + 1) * (2 * w)]) 0 w =
      Inr (map (\<lambda>i. p ! half_pos w 0 i) [row * w..<(row + 1) * w])"
    and "slice_range (map ((!) p) [row * (2 * w)..<(row + 1) * (2 * w)]) w
        (length (map ((!) p) [row * (2 * w)..<(row + 1) * (2 * w)])) =
      Inr (map (\<lambda>i. p ! half_pos w w i) [row * w..<(row + 1) * w])"
    and "copy_from_slice (filled g (row * w) d) (row * w) ((row + 1) * w) (map g [row * w..<(row + 1) * w]) =
      Inr (filled g ((row + 1) * w) d)"
proof -
  show "slice_range p (row * (2 * w)) ((row + 1) * (2 * w)) = Inr (map ((!) p) [row * (2 * w)..<(row + 1) * (2 * w)])"
    using assms row_le[of row h "2 * w"] by (intro slice_range_nth) (auto simp: mult.commute mult.left_commute)
  show "slice_range (map ((!) p) [row * (2 * w)..<(row + 1) * (2 * w)]) 0 w =
      Inr (map (\<lambda>i. p ! half_pos w 0 i) [row * w..<(row + 1) * w])"
    unfolding half_row[OF le0] add_0 by (subst slice_range_nth) auto
  show "slice_range (map ((!) p) [row * (2 * w)..<(row + 1) * (2 * w)]) w
        (length (map ((!) p) [row * (2 * w)..<(row + 1) * (2 * w)])) =
      Inr (map (\<lambda>i. p ! half_pos w w i) [row * w..<(row + 1) * w])"
    unfolding half_row[OF order_refl] by (subst slice_range_nth) (auto simp: mult_2)
  show "copy_from_slice (filled g (row * w) d) (row * w) ((row + 1) * w) (map g [row * w..<(row + 1) * w]) =
      Inr (filled g ((row + 1) * w) d)"
    using assms row_le[of row h w] by (intro copy_from_slice_filled) (auto simp: mult.commute)
qed

definition eye_half :: "nat \<Rightarrow> nat \<Rightarrow> byte list \<Rightarrow> byte list \<Rightarrow> byte list \<Rightarrow> eye_frame" where
  "eye_half yx cx y cb cr = \<lparr>eye_y = half EYE_W EYE_H yx y, eye_cb = half CHROMA_W CHROMA_H cx cb,
     eye_cr = half CHROMA_W CHROMA_H cx cr\<rparr>"

lemma split_luma:
  assumes "length y = 2 * EYE_W * EYE_H" and "wf_eye l" and "wf_eye r" and "n \<le> EYE_H"
  shows "forR (\<lambda>row frame.
      bindR (slice_range y (row * (2 * EYE_W)) ((row + 1) * (2 * EYE_W))) (\<lambda>src.
      bindR (slice_range src 0 EYE_W) (\<lambda>s.
      bindR (on_left (on_y (\<lambda>p. copy_from_slice p (row * EYE_W) ((row + 1) * EYE_W) s)) frame) (\<lambda>frame.
      bindR (slice_range src EYE_W (length src)) (\<lambda>s.
      on_right (on_y (\<lambda>p. copy_from_slice p (row * EYE_W) ((row + 1) * EYE_W) s)) frame)))))
      [0..<n] \<lparr>sbs_left = l, sbs_right = r\<rparr> =
    Inr \<lparr>sbs_left = l\<lparr>eye_y := filled (\<lambda>i. y ! half_pos EYE_W 0 i) (n * EYE_W) (eye_y l)\<rparr>,
         sbs_right = r\<lparr>eye_y := filled (\<lambda>i. y ! half_pos EYE_W EYE_W i) (n * EYE_W) (eye_y r)\<rparr>\<rparr>"
  using assms(4)
proof (induction n)
  case (Suc n)
  then have n: "n < EYE_H" by simp
  have d: "length (eye_y l) = EYE_W * EYE_H" "length (eye_y r) = EYE_W * EYE_H"
    using assms(2,3) by (simp_all add: wf_eye_def EYE_Y_BYTES_def)
  note row = split_row[OF assms(1) n d(1)] split_row(4)[OF assms(1) n d(2)]
  obtain ly lb lr where l: "l = \<lparr>eye_y = ly, eye_cb = lb, eye_cr = lr\<rparr>" by (cases l)
  obtain ry rb rr where r: "r = \<lparr>eye_y = ry, eye_cb = rb, eye_cr = rr\<rparr>" by (cases r)
  show ?case
    using Suc.IH[OF Suc_leD[OF Suc.prems]] row
    by (simp only: upt_Suc forR_append le0 if_True bindR_simps forR_single on_left_def on_right_def on_y_def
        sbs_frame.simps eye_frame.simps l r) (simp only: Suc_eq_plus1)
qed simp

lemma split_chroma:
  assumes "length cb = 2 * CHROMA_W * CHROMA_H" and "length cr = 2 * CHROMA_W * CHROMA_H"
    and "wf_eye l" and "wf_eye r" and "n \<le> CHROMA_H"
  shows "forR (\<lambda>row frame.
      bindR (slice_range cb (row * (2 * CHROMA_W)) ((row + 1) * (2 * CHROMA_W))) (\<lambda>src_cb.
      bindR (slice_range cr (row * (2 * CHROMA_W)) ((row + 1) * (2 * CHROMA_W))) (\<lambda>src_cr.
      bindR (slice_range src_cb 0 CHROMA_W) (\<lambda>s.
      bindR (on_left (on_cb (\<lambda>p. copy_from_slice p (row * CHROMA_W) ((row + 1) * CHROMA_W) s)) frame) (\<lambda>frame.
      bindR (slice_range src_cb CHROMA_W (length src_cb)) (\<lambda>s.
      bindR (on_right (on_cb (\<lambda>p. copy_from_slice p (row * CHROMA_W) ((row + 1) * CHROMA_W) s)) frame) (\<lambda>frame.
      bindR (slice_range src_cr 0 CHROMA_W) (\<lambda>s.
      bindR (on_left (on_cr (\<lambda>p. copy_from_slice p (row * CHROMA_W) ((row + 1) * CHROMA_W) s)) frame) (\<lambda>frame.
      bindR (slice_range src_cr CHROMA_W (length src_cr)) (\<lambda>s.
      on_right (on_cr (\<lambda>p. copy_from_slice p (row * CHROMA_W) ((row + 1) * CHROMA_W) s)) frame))))))))))
      [0..<n] \<lparr>sbs_left = l, sbs_right = r\<rparr> =
    Inr \<lparr>sbs_left = l\<lparr>eye_cb := filled (\<lambda>i. cb ! half_pos CHROMA_W 0 i) (n * CHROMA_W) (eye_cb l),
           eye_cr := filled (\<lambda>i. cr ! half_pos CHROMA_W 0 i) (n * CHROMA_W) (eye_cr l)\<rparr>,
         sbs_right = r\<lparr>eye_cb := filled (\<lambda>i. cb ! half_pos CHROMA_W CHROMA_W i) (n * CHROMA_W) (eye_cb r),
           eye_cr := filled (\<lambda>i. cr ! half_pos CHROMA_W CHROMA_W i) (n * CHROMA_W) (eye_cr r)\<rparr>\<rparr>"
  using assms(5)
proof (induction n)
  case (Suc n)
  then have n: "n < CHROMA_H" by simp
  have d: "length (eye_cb l) = CHROMA_W * CHROMA_H" "length (eye_cb r) = CHROMA_W * CHROMA_H"
    "length (eye_cr l) = CHROMA_W * CHROMA_H" "length (eye_cr r) = CHROMA_W * CHROMA_H"
    using assms(3,4) by (simp_all add: wf_eye_def EYE_CHROMA_BYTES_def)
  note row = split_row[OF assms(1) n d(1)] split_row(4)[OF assms(1) n d(2)]
    split_row(1-3)[OF assms(2) n d(1)] split_row(4)[OF assms(2) n d(3)] split_row(4)[OF assms(2) n d(4)]
  obtain ly lb lr where l: "l = \<lparr>eye_y = ly, eye_cb = lb, eye_cr = lr\<rparr>" by (cases l)
  obtain ry rb rr where r: "r = \<lparr>eye_y = ry, eye_cb = rb, eye_cr = rr\<rparr>" by (cases r)
  show ?case
    using Suc.IH[OF Suc_leD[OF Suc.prems]] row
    by (simp only: upt_Suc forR_append le0 if_True bindR_simps forR_single on_left_def on_right_def on_cb_def on_cr_def
        sbs_frame.simps eye_frame.simps l r) (simp only: Suc_eq_plus1)
qed simp

text \<open>The eyes of a packed picture.\<close>

definition luma_plane :: "byte list \<Rightarrow> byte list" where
  "luma_plane bytes = take (2 * EYE_W * EYE_H) bytes"

definition cb_plane_of :: "byte list \<Rightarrow> byte list" where
  "cb_plane_of bytes = take (2 * CHROMA_W * CHROMA_H) (drop (2 * EYE_W * EYE_H) bytes)"

definition cr_plane_of :: "byte list \<Rightarrow> byte list" where
  "cr_plane_of bytes = drop (2 * EYE_W * EYE_H + 2 * CHROMA_W * CHROMA_H) bytes"

definition split_frame :: "byte list \<Rightarrow> sbs_frame" where
  "split_frame bytes = (let y = luma_plane bytes; cb = cb_plane_of bytes; cr = cr_plane_of bytes in
     \<lparr>sbs_left = eye_half 0 0 y cb cr, sbs_right = eye_half EYE_W CHROMA_W y cb cr\<rparr>)"

lemma planes_length:
  assumes "length bytes = SBS_FRAME_BYTES"
  shows "length (luma_plane bytes) = 2 * EYE_W * EYE_H" "length (cb_plane_of bytes) = 2 * CHROMA_W * CHROMA_H"
    "length (cr_plane_of bytes) = 2 * CHROMA_W * CHROMA_H"
  using assms by (simp_all add: luma_plane_def cb_plane_of_def cr_plane_of_def geom)

lemma wf_split_frame: "wf_sbs (split_frame bytes)"
  by (simp add: split_frame_def wf_sbs_def wf_eye_def eye_half_def half_def EYE_Y_BYTES_def EYE_CHROMA_BYTES_def Let_def)

lemma from_yuv420_sbs_ok:
  assumes "length bytes = SBS_FRAME_BYTES"
  shows "from_yuv420_sbs bytes = Inr (split_frame bytes)"
proof -
  note len = planes_length[OF assms]
  have planes: "slice_range bytes 0 (2 * EYE_W * EYE_H) = Inr (luma_plane bytes)"
    "slice_range bytes (2 * EYE_W * EYE_H) (2 * EYE_W * EYE_H + 2 * CHROMA_W * CHROMA_H) = Inr (cb_plane_of bytes)"
    "slice_range bytes (2 * EYE_W * EYE_H + 2 * CHROMA_W * CHROMA_H) (length bytes) = Inr (cr_plane_of bytes)"
    using assms by (simp_all add: slice_range_def luma_plane_def cb_plane_of_def cr_plane_of_def visible)
  have e: "length (eye_y EyeFrame_new) = EYE_H * EYE_W" "length (eye_cb EyeFrame_new) = CHROMA_H * CHROMA_W"
    "length (eye_cr EyeFrame_new) = CHROMA_H * CHROMA_W" by (simp_all add: EyeFrame_new_def geom)
  have w: "wf_eye (e\<lparr>eye_y := filled g (EYE_H * EYE_W) (eye_y e)\<rparr>)" if "wf_eye e" for e g
    using that by (simp add: wf_eye_def EYE_Y_BYTES_def mult.commute)
  note luma = split_luma[OF len(1) wf_EyeFrame_new wf_EyeFrame_new order_refl]
  note chroma = split_chroma[OF len(2,3) w[OF wf_EyeFrame_new] w[OF wf_EyeFrame_new] order_refl]
  have "from_yuv420_sbs bytes = bindR (Inr \<lparr>
      sbs_left = EyeFrame_new\<lparr>eye_y := filled (\<lambda>i. luma_plane bytes ! half_pos EYE_W 0 i) (EYE_H * EYE_W) (eye_y EyeFrame_new)\<rparr>,
      sbs_right = EyeFrame_new\<lparr>eye_y := filled (\<lambda>i. luma_plane bytes ! half_pos EYE_W EYE_W i) (EYE_H * EYE_W) (eye_y EyeFrame_new)\<rparr>\<rparr>)
      (\<lambda>_. Inr (split_frame bytes))"
    unfolding from_yuv420_sbs_def visible(3,4) unfolding visible(1,2) Let_def SbsFrame_new_def planes bindR_simps luma chroma
    using assms e
    by (simp add: split_frame_def eye_half_def half_def filled_all mult.commute Let_def EyeFrame_new_def)
  then show ?thesis by simp
qed

section \<open>Joining\<close>

lemma join_sample_row:
  assumes "x < w"
  shows "join_sample w a b (row * (2 * w) + x) = a ! (row * w + x)"
    and "join_sample w a b (row * (2 * w) + w + x) = b ! (row * w + x)"
proof -
  have "(row * (2 * w) + y) div (2 * w) = row \<and> (row * (2 * w) + y) mod (2 * w) = y" if "y < 2 * w" for y
    using that by (rule row_div_mod)
  from this[of x] this[of "w + x"] assms
  show "join_sample w a b (row * (2 * w) + x) = a ! (row * w + x)"
    and "join_sample w a b (row * (2 * w) + w + x) = b ! (row * w + x)"
    by (simp_all add: join_sample_def Let_def add.assoc)
qed

lemma join_row:
  assumes "length a = w * h" and "length b = w * h" and "row < h" and "2 * w * h \<le> length d"
  shows "slice_range a (row * w) ((row + 1) * w) = Inr (map (join_sample w a b) [row * (2 * w)..<row * (2 * w) + w])"
    and "copy_from_slice (filled g (row * (2 * w)) d) (row * (2 * w)) (row * (2 * w) + w)
        (map g [row * (2 * w)..<row * (2 * w) + w]) = Inr (filled g (row * (2 * w) + w) d)"
    and "slice_range b (row * w) ((row + 1) * w) = Inr (map (join_sample w a b) [row * (2 * w) + w..<(row + 1) * (2 * w)])"
    and "copy_from_slice (filled g (row * (2 * w) + w) d) (row * (2 * w) + w) ((row + 1) * (2 * w))
        (map g [row * (2 * w) + w..<(row + 1) * (2 * w)]) = Inr (filled g ((row + 1) * (2 * w)) d)"
proof -
  have fit: "(row + 1) * w \<le> w * h" "(row + 1) * (2 * w) \<le> length d"
    using row_le[OF assms(3), of w] assms(4) by (simp_all add: mult.commute mult.left_commute)
  show "slice_range a (row * w) ((row + 1) * w) = Inr (map (join_sample w a b) [row * (2 * w)..<row * (2 * w) + w])"
    using fit assms(1) by (subst slice_range_nth) (auto intro!: map_row_eqI simp: join_sample_row)
  show "slice_range b (row * w) ((row + 1) * w) = Inr (map (join_sample w a b) [row * (2 * w) + w..<(row + 1) * (2 * w)])"
    using fit assms(2) by (subst slice_range_nth) (auto intro!: map_row_eqI simp: join_sample_row)
  show "copy_from_slice (filled g (row * (2 * w)) d) (row * (2 * w)) (row * (2 * w) + w)
      (map g [row * (2 * w)..<row * (2 * w) + w]) = Inr (filled g (row * (2 * w) + w) d)"
    using fit by (intro copy_from_slice_filled) auto
  show "copy_from_slice (filled g (row * (2 * w) + w) d) (row * (2 * w) + w) ((row + 1) * (2 * w))
      (map g [row * (2 * w) + w..<(row + 1) * (2 * w)]) = Inr (filled g ((row + 1) * (2 * w)) d)"
    using fit by (intro copy_from_slice_filled) auto
qed

lemma join_luma:
  assumes "length a = w * h" and "length b = w * h" and "n \<le> h" and "2 * w * h \<le> length out"
  shows "forR (\<lambda>row out.
      bindR (slice_range a (row * w) ((row + 1) * w)) (\<lambda>s.
      bindR (copy_from_slice out (row * (2 * w)) (row * (2 * w) + w) s) (\<lambda>out.
      bindR (slice_range b (row * w) ((row + 1) * w)) (\<lambda>s.
      copy_from_slice out (row * (2 * w) + w) ((row + 1) * (2 * w)) s)))) [0..<n] out =
    Inr (filled (join_sample w a b) (n * (2 * w)) out)"
  using assms(3)
proof (induction n)
  case (Suc n)
  then have n: "n < h" by simp
  show ?case
    using Suc.IH[OF Suc_leD[OF Suc.prems]] join_row(2,4)[OF assms(1,2) n assms(4)] join_row(1,3)[OF assms(1,2) n assms(4)]
    by (simp only: upt_Suc forR_append le0 if_True bindR_simps forR_single) (simp only: Suc_eq_plus1)
qed simp

lemma join_chroma:
  assumes "length a = w * h" and "length b = w * h" and "length a' = w * h" and "length b' = w * h" and "n \<le> h"
    and "2 * w * h \<le> length cb" and "2 * w * h \<le> length cr"
  shows "forR (\<lambda>row (cb_plane, cr_plane).
      bindR (slice_range a (row * w) ((row + 1) * w)) (\<lambda>s.
      bindR (copy_from_slice cb_plane (row * (2 * w)) (row * (2 * w) + w) s) (\<lambda>cb_plane.
      bindR (slice_range b (row * w) ((row + 1) * w)) (\<lambda>s.
      bindR (copy_from_slice cb_plane (row * (2 * w) + w) ((row + 1) * (2 * w)) s) (\<lambda>cb_plane.
      bindR (slice_range a' (row * w) ((row + 1) * w)) (\<lambda>s.
      bindR (copy_from_slice cr_plane (row * (2 * w)) (row * (2 * w) + w) s) (\<lambda>cr_plane.
      bindR (slice_range b' (row * w) ((row + 1) * w)) (\<lambda>s.
      bindR (copy_from_slice cr_plane (row * (2 * w) + w) ((row + 1) * (2 * w)) s) (\<lambda>cr_plane.
      Inr (cb_plane, cr_plane))))))))))
      [0..<n] (cb, cr) =
    Inr (filled (join_sample w a b) (n * (2 * w)) cb, filled (join_sample w a' b') (n * (2 * w)) cr)"
  using assms(5)
proof (induction n)
  case (Suc n)
  then have n: "n < h" by simp
  show ?case
    using Suc.IH[OF Suc_leD[OF Suc.prems]] join_row(2,4)[OF assms(1,2) n assms(6)] join_row(1,3)[OF assms(1,2) n assms(6)]
      join_row(2,4)[OF assms(3,4) n assms(7)] join_row(1,3)[OF assms(3,4) n assms(7)]
    by (simp only: upt_Suc forR_append le0 if_True bindR_simps forR_single prod.case) (simp only: Suc_eq_plus1)
qed simp

definition pack_frame :: "sbs_frame \<Rightarrow> byte list" where
  "pack_frame f = (let l = sbs_left f; r = sbs_right f in
     join_rows EYE_W EYE_H (eye_y l) (eye_y r) @ join_rows CHROMA_W CHROMA_H (eye_cb l) (eye_cb r) @
     join_rows CHROMA_W CHROMA_H (eye_cr l) (eye_cr r))"

lemma length_join_rows [simp]: "length (join_rows w h a b) = 2 * w * h"
  by (simp add: join_rows_def)

lemma length_pack_frame [simp]: "length (pack_frame f) = SBS_FRAME_BYTES"
  by (simp add: pack_frame_def Let_def visible)

lemma write_yuv420_sbs_into_ok:
  assumes "wf_sbs f" and "length out = SBS_FRAME_BYTES"
  shows "write_yuv420_sbs_into f out = Inr (pack_frame f)"
proof -
  let ?l = "sbs_left f" and ?r = "sbs_right f"
  have y: "length (eye_y ?l) = EYE_W * EYE_H" "length (eye_y ?r) = EYE_W * EYE_H"
    and cb: "length (eye_cb ?l) = CHROMA_W * CHROMA_H" "length (eye_cb ?r) = CHROMA_W * CHROMA_H"
    and cr: "length (eye_cr ?l) = CHROMA_W * CHROMA_H" "length (eye_cr ?r) = CHROMA_W * CHROMA_H"
    using assms(1) by (auto simp: wf_sbs_def wf_eye_def EYE_Y_BYTES_def EYE_CHROMA_BYTES_def)
  let ?Y = "2 * EYE_W * EYE_H" and ?C = "2 * CHROMA_W * CHROMA_H"
  have out: "length out = ?Y + (?C + ?C)" using assms(2) by (simp add: visible)
  define o1 where "o1 = filled (join_sample EYE_W (eye_y ?l) (eye_y ?r)) (EYE_H * (2 * EYE_W)) out"
  have o1: "length o1 = ?Y + (?C + ?C)" using out by (simp add: o1_def mult.commute mult.left_commute)
  have t: "take ?Y o1 = join_rows EYE_W EYE_H (eye_y ?l) (eye_y ?r)"
    using out by (simp add: o1_def filled_def join_rows_def mult.commute mult.left_commute)
  note luma = join_luma[OF y order_refl, of out, folded o1_def]
  have planes: "slice_range o1 ?Y (?Y + ?C) = Inr (take ?C (drop ?Y o1))"
    "slice_range o1 (?Y + ?C) (length o1) = Inr (drop (?Y + ?C) o1)"
    using o1 by (simp_all add: slice_range_def)
  have len: "length (take ?C (drop ?Y o1)) = ?C" "length (drop (?Y + ?C) o1) = ?C" using o1 by simp_all
  then have le: "?C \<le> length (take ?C (drop ?Y o1))" "?C \<le> length (drop (?Y + ?C) o1)" by simp_all
  note chroma = join_chroma[OF cb cr order_refl le]
  have fill: "filled g (CHROMA_H * (2 * CHROMA_W)) d = map g [0..<?C]" if "length d = ?C" for g d
    using that by (simp add: filled_all mult.commute mult.left_commute)
  have "?Y \<le> length out" using out by simp
  note luma = luma[OF this]
  show ?thesis
    unfolding write_yuv420_sbs_into_def visible(3,4) unfolding visible(1,2) Let_def luma bindR_simps planes chroma prod.case fill[OF len(1)] fill[OF len(2)]
    by (simp add: assms(2) t pack_frame_def join_rows_def Let_def)
qed

lemma write_split_frame:
  assumes "length bytes = SBS_FRAME_BYTES"
  shows "pack_frame (split_frame bytes) = bytes"
proof -
  have "luma_plane bytes @ cb_plane_of bytes @ cr_plane_of bytes = bytes"
    by (simp add: luma_plane_def cb_plane_of_def cr_plane_of_def add.commute flip: drop_drop)
  then show ?thesis
    using planes_length[OF assms] by (simp add: pack_frame_def split_frame_def eye_half_def join_halves Let_def)
qed

lemma split_pack_frame:
  assumes "wf_sbs f"
  shows "split_frame (pack_frame f) = f"
proof -
  have p: "luma_plane (pack_frame f) = join_rows EYE_W EYE_H (eye_y (sbs_left f)) (eye_y (sbs_right f))"
    "cb_plane_of (pack_frame f) = join_rows CHROMA_W CHROMA_H (eye_cb (sbs_left f)) (eye_cb (sbs_right f))"
    "cr_plane_of (pack_frame f) = join_rows CHROMA_W CHROMA_H (eye_cr (sbs_left f)) (eye_cr (sbs_right f))"
    by (simp_all add: pack_frame_def luma_plane_def cb_plane_of_def cr_plane_of_def Let_def)
  have "wf_eye (sbs_left f)" "wf_eye (sbs_right f)" using assms by (simp_all add: wf_sbs_def)
  then show ?thesis
    unfolding split_frame_def p Let_def eye_half_def
    by (cases f) (simp add: half_join wf_eye_def EYE_Y_BYTES_def EYE_CHROMA_BYTES_def)
qed

lemma EyeFrame_write_ok:
  assumes "wf_eye e" and "length out = EYE_FRAME_BYTES"
  shows "EyeFrame_write_yuv420p_into e out = Inr (eye_y e @ eye_cb e @ eye_cr e)"
  using assms by (simp add: EyeFrame_write_yuv420p_into_def copy_from_slice_def wf_eye_def EYE_Y_BYTES_def EYE_CHROMA_BYTES_def
      visible Let_def)

end
