(* ===== verification/O3_StreamLaws.thy ===== *)
theory O3_StreamLaws
  imports O3_Writers O3_Sbs
begin

text \<open>
  Consequences for whole streams of any content: no input makes the decoder
  fault, every frame it returns has full planes, the number of frames is
  bounded by the input's length, and the first frame is a key frame. Also: a
  split prediction whose vectors are all equal is the plain copy, and the
  macroblocks a fragment can touch.
\<close>

section \<open>Safety of the stream decoder on any input\<close>

lemma parses_if_Inl: "(\<not> b \<Longrightarrow> parses P r x) \<Longrightarrow> e \<noteq> Fault \<Longrightarrow> parses P r (if b then Inl e else x)"
  by simp

lemma file_header_parses: "parses (\<lambda>_. True) r (bindR (parse_file_header r) (\<lambda>r. Inr ((), r)))"
proof -
  note get = parses_bind[OF u8c.parses_get] parses_bind[OF u16c.parses_get] parses_bind[OF u32c.parses_get]
    parses_bind[OF u64c.parses_get]
  have skip: "parses (\<lambda>_. True) r (bindR (rd_skip n r) (\<lambda>r. Inr ((), r)))" for n r
    by (simp add: rd_skip_rest moves_adv)
  show ?thesis
    unfolding parse_file_header_def bindR_assoc split_def bindR_if_Inl
    by (intro get, simp only: fst_conv snd_conv bindR_if_Inl bindR_assoc,
        intro parses_if_Inl, (intro get, simp only: fst_conv snd_conv bindR_if_Inl bindR_assoc)+,
        (intro parses_if_Inl)?, auto simp: skip)
qed

lemma rd_moved:
  "rd_u8 r = Inr (x, r') \<Longrightarrow> r' = adv 1 r" "rd_u16 r = Inr (y, r') \<Longrightarrow> r' = adv 2 r" "rd_u32 r = Inr (z, r') \<Longrightarrow> r' = adv 4 r"
  using u8c.get_InrD u16c.get_InrD u32c.get_InrD by blast+

lemma file_header_moves:
  assumes "parse_file_header r = Inr r'"
  shows "moves r r'" and "remaining r' + 60 \<le> remaining r"
proof -
  show m: "moves r r'" using file_header_parses[of r] assms by simp
  have "8 \<le> length (rest (adv 52 r)) \<and> (\<exists>k. r' = adv k (adv 60 r))"
    using assms
    by (auto simp: parse_file_header_def bindR_eq_Inr_iff rd_skip_rest dest!: rd_moved u64c.get_InrD split: if_splits
        intro: exI[of _ 0])
      (metis add_diff_assoc less_imp_le_nat)
  then show "remaining r' + 60 \<le> remaining r" by (auto simp: length_rest)
qed

lemma parse_frame_length:
  assumes "parse_frame has r = Inr (Some x, r')"
  shows "remaining r' + 28 \<le> remaining r"
  using assms by (auto simp: parse_frame_def Let_def bindR_eq_Inr_iff FRAME_HEADER_SIZE_def length_rest split: if_splits)

lemma decode_next_frame_length:
  assumes "wf_state st" and "decode_next_frame r st = Inr (Some d, r', st')"
  shows "remaining r' + 28 \<le> remaining r" and "wf_sbs (df_frame d)"
    and "\<not> ds_has_reference st \<Longrightarrow> df_frame_type d = FRAME_TYPE_KEY_RAW"
proof -
  from decode_next_frame_Inr[OF assms] obtain p where p: "parse_frame (ds_has_reference st) r = Inr (p, r')"
    "Some d = fst (finish_frame st p)" "st' = snd (finish_frame st p)" by blast
  then obtain no ty f where q: "p = Some (no, ty, f)" by (cases p) (auto simp: finish_frame_def)
  show "remaining r' + 28 \<le> remaining r" using parse_frame_length p(1) q by blast
  have "wf_state st'" using dec.next_inv[OF assms] .
  then show "wf_sbs (df_frame d)" using p q by (auto simp: wf_state_def)
  show "df_frame_type d = FRAME_TYPE_KEY_RAW" if "\<not> ds_has_reference st"
    using that p q
    by (auto simp: parse_frame_def parse_payload_def Let_def bindR_eq_Inr_iff split: if_splits)
qed

text \<open>The frames a loop appends, from any state and reader.\<close>

abbreviation collect_loop :: "nat \<Rightarrow> decoded_frame list \<Rightarrow> reader \<Rightarrow> decoder_state \<Rightarrow> (nat \<times> decoded_frame list \<times> decoder_state) result" where
  "collect_loop \<equiv> decode_loop (\<lambda>d fs. fs @ [d])"

lemma collect_loop_safe:
  assumes "wf_state st"
  shows "collect_loop n fs r st \<noteq> Inl Fault \<and>
    (\<forall>n' fs' st'. collect_loop n fs r st = Inr (n', fs', st') \<longrightarrow>
      (\<exists>new. fs' = fs @ new \<and> n' = n + length new \<and> 28 * length new \<le> remaining r \<and> (\<forall>d\<in>set new. wf_sbs (df_frame d)) \<and>
        (new \<noteq> [] \<longrightarrow> \<not> ds_has_reference st \<longrightarrow> df_frame_type (hd new) = FRAME_TYPE_KEY_RAW)))"
  using assms
proof (induction "remaining r" arbitrary: n fs r st rule: less_induct)
  case less
  note step = decode_loop.simps[of "\<lambda>d fs. fs @ [d]" n fs r st]
  show ?case
  proof (cases "decode_next_frame r st")
    case (Inl e)
    then show ?thesis using dec.next_no_fault[OF less.prems, of r] by (simp add: step)
  next
    case (Inr t)
    obtain x r1 st1 where t: "t = (x, r1, st1)" by (cases t)
    note d = Inr[unfolded t]
    show ?thesis
    proof (cases x)
      case None
      then show ?thesis by (simp add: step d)
    next
      case (Some f)
      note len = decode_next_frame_length[OF less.prems d[unfolded Some]]
      then have "remaining r1 < remaining r" by simp
      from less.hyps[OF this dec.next_inv[OF less.prems d], of "n + 1" "fs @ [f]"] len
      show ?thesis by (fastforce simp: step d Some)
    qed
  qed
qed

lemma decode_stream_safe:
  "decode_stream_with_metadata bytes \<noteq> Inl Fault"
  and decode_stream_frames: "decode_stream_with_metadata bytes = Inr fs \<Longrightarrow>
    60 + 28 * length fs \<le> length bytes \<and> (\<forall>d\<in>set fs. wf_sbs (df_frame d)) \<and>
    (fs \<noteq> [] \<longrightarrow> df_frame_type (hd fs) = FRAME_TYPE_KEY_RAW)"
proof -
  have init: "wf_state (DecoderState_reset DecoderState_new)" "\<not> ds_has_reference (DecoderState_reset DecoderState_new)"
    by simp (simp add: DecoderState_reset_def)
  have h: "parse_file_header (reader_new bytes) \<noteq> Inl Fault"
    using file_header_parses[of "reader_new bytes"] by (cases "parse_file_header (reader_new bytes)") auto
  have rem: "remaining (reader_new bytes) = length bytes" by (simp add: remaining_def reader_new_def)
  have "decode_stream_with_metadata bytes = bindR (parse_file_header (reader_new bytes)) (\<lambda>r.
      bindR (collect_loop 0 [] r (DecoderState_reset DecoderState_new)) (\<lambda>(n, fs, st). Inr fs))"
    by (simp add: decode_stream_with_metadata_def decode_stream_for_each_def decode_stream_for_each_with_state_def
        bindR_assoc split_def)
  note e = this
  show "decode_stream_with_metadata bytes \<noteq> Inl Fault"
    using h collect_loop_safe[OF init(1)] by (auto simp: e bindR_eq_Inl_iff)
  assume "decode_stream_with_metadata bytes = Inr fs"
  then obtain r n st where r: "parse_file_header (reader_new bytes) = Inr r"
    and l: "collect_loop 0 [] r (DecoderState_reset DecoderState_new) = Inr (n, fs, st)"
    by (auto simp: e bindR_eq_Inr_iff)
  from file_header_moves(2)[OF r] collect_loop_safe[OF init(1), of 0 "[]" r] l init(2) rem
  show "60 + 28 * length fs \<le> length bytes \<and> (\<forall>d\<in>set fs. wf_sbs (df_frame d)) \<and>
    (fs \<noteq> [] \<longrightarrow> df_frame_type (hd fs) = FRAME_TYPE_KEY_RAW)"
    by fastforce
qed

section \<open>Split predictions with equal vectors\<close>

lemma round_div_equal: "round_div2_i32 (2 * x) = x" "round_div4_i32 (4 * x) = x"
  unfolding round_div2_i32_def round_div4_i32_def by presburger+

lemma vbs_avg_equal: "vbs_avg shape (replicate (vbs_count shape) m) = (sint (mvX m), sint (mvY m))"
  by (cases shape) (simp_all add: round_div_equal numeral_nat)

lemma fold_same_copy:
  assumes "\<forall>p\<in>set ps. \<exists>px py bw bh. p = (px, py, bw, bh, m)" and "i < length d"
  shows "fold (mc_part src mb) ps d ! i =
    (if \<exists>(px, py, bw, bh, _)\<in>set ps. in_rect EYE_W (mb mod MB_W * 16 + px) (mb div MB_W * 16 + py) bw bh i
     then src ! mc_index EYE_W EYE_H (sint (mvX m)) (sint (mvY m)) i else d ! i)"
  using assms
proof (induction ps arbitrary: d)
  case (Cons p ps)
  from Cons.prems(1) obtain px py bw bh where p: "p = (px, py, bw, bh, m)" by auto
  have "i < length (mc_part src mb p d)" using Cons.prems by simp
  from Cons.IH[OF _ this] Cons.prems p show ?case by (auto simp: mc_part_def nth_mc_copy)
qed simp

lemma vbs_equal_is_copy:
  assumes "wf_eye d" and "mb < MB_COUNT"
  shows "vbs_eye shape (replicate (vbs_count shape) m) src mb d = mc_region {mb} m src d"
proof -
  let ?mvs = "replicate (vbs_count shape) m"
  have same: "\<forall>p\<in>set (vbs_parts shape ?mvs). \<exists>px py bw bh. p = (px, py, bw, bh, m)"
    by (cases shape) (auto simp: numeral_nat)
  have y: "fold (mc_part (eye_y src) mb) (vbs_parts shape ?mvs) (eye_y d) =
      mc_copy (\<lambda>i. y_mb i \<in> {mb}) EYE_W EYE_H (sint (mvX m)) (sint (mvY m)) (eye_y src) (eye_y d)"
  proof (rule nth_equalityI)
    fix i assume "i < length (fold (mc_part (eye_y src) mb) (vbs_parts shape ?mvs) (eye_y d))"
    then have i: "i < length (eye_y d)" by simp
    show "fold (mc_part (eye_y src) mb) (vbs_parts shape ?mvs) (eye_y d) ! i =
      mc_copy (\<lambda>i. y_mb i \<in> {mb}) EYE_W EYE_H (sint (mvX m)) (sint (mvY m)) (eye_y src) (eye_y d) ! i"
      using parts_cover_rect[OF vbs_parts_cover, of i mb shape ?mvs] i
      by (cases "y_mb i = mb")
        (simp add: fold_same_copy[OF same i] nth_mc_copy, simp add: nth_mc_copy nth_fold_mc_part_outside[OF vbs_parts_ok])
  qed simp
  show ?thesis
    unfolding vbs_eye_def vbs_avg_equal prod.case y mc_region_def by simp
qed

section \<open>A still picture\<close>

text \<open>The smallest tile: the whole eye skipped, in three skip runs.\<close>

definition still_tile :: "byte \<Rightarrow> encoded_tile" where
  "still_tile tile_id = \<lparr>et_tile_id = tile_id, et_base_mv = mv_zero, et_segment_count = 1,
     et_fragments = [EncodedFragment_full_eye tile_id [127, 127, 121] [] []]\<rparr>"

abbreviation still_mbs :: "mb_desc list list" where
  "still_mbs \<equiv> [replicate MB_COUNT (BaseP, [])]"

lemma all_skip_step:
  assumes "rest r = op # post" and "op \<noteq> 0" and "op \<le> 0x7f" and "described < n" and "described + unat op \<le> n"
  shows "all_skip_loop n described r = all_skip_loop n (described + unat op) (adv 1 r)"
proof -
  have "\<not> 127 < op" using assms(3) by (simp add: not_less)
  then show ?thesis using assms by (subst all_skip_loop.simps) (simp add: rd_u8_cons Let_def)
qed

lemma still_modes: "mode_stream_is_all_skip [127, 127, 121] MB_COUNT"
proof -
  let ?r = "reader_new [127, 127, 121]"
  have "all_skip_loop 375 0 ?r = all_skip_loop 375 127 (adv 1 ?r)"
    by (subst all_skip_step[of _ 127 "[127, 121]"]) simp_all
  also have "\<dots> = all_skip_loop 375 254 (adv 2 ?r)"
    by (subst all_skip_step[of _ 127 "[121]"]) (simp_all flip: numeral_2_eq_2)
  also have "\<dots> = all_skip_loop 375 375 (adv 3 ?r)"
    by (subst all_skip_step[of _ 121 "[]"]) (simp_all add: numeral_3_eq_3)
  also have "\<dots> = Some (adv 3 ?r)" by (subst all_skip_loop.simps) simp
  finally show ?thesis by (simp add: mode_stream_is_all_skip_def geom) (simp add: consume_optional_trailing_zero_def remaining_def adv_def reader_new_def)
qed

lemma still_tile_valid: "tile_id \<le> 1 \<Longrightarrow> tile_valid (still_tile tile_id) still_mbs"
  using all_skip_parse_mbs[OF still_modes]
  by (simp add: tile_valid_def still_tile_def fragment_valid_def EncodedFragment_full_eye_def fragment_bytes_def
      validate_fragment_header_iff validate_segment_map_iff geom)

lemma still_tile_bytes: "tile_bytes (still_tile tile_id) = 48"
  by (simp add: tile_bytes_def still_tile_def fragment_bytes_def EncodedFragment_full_eye_def)

lemma still_complete: "frame_complete (PF (tile_to_ast (still_tile 0) still_mbs) (tile_to_ast (still_tile 1) still_mbs))"
  by (auto simp: frame_complete_def tile_to_ast_def still_tile_def tile_region_def EncodedFragment_full_eye_def frag_mbs_def)

lemma still_reuses: "p_payload_reuses_reference (p_payload (still_tile 0) (still_tile 1)) 2"
  by code_simp

text \<open>A stream of a key frame and a P-frame that repeats it.\<close>

definition still_stream :: "written list" where
  "still_stream = [WKey 0 SbsFrame_new, WP 1 (still_tile 0) still_mbs (still_tile 1) still_mbs]"

lemma still_stream_ok: "stream_ok False still_stream" "60 + length (write_all still_stream) < 2 ^ 64"
proof -
  show ok: "stream_ok False still_stream"
    using still_tile_valid[of 0] still_tile_valid[of 1] still_complete by (simp add: still_stream_def still_tile_bytes)
  have "length (write_all still_stream) = 28 + SBS_FRAME_BYTES + (28 + 48 + 48)"
    using ok length_write_written[of False "WKey 0 SbsFrame_new"]
      length_write_written[of True "WP 1 (still_tile 0) still_mbs (still_tile 1) still_mbs"]
    by (simp add: still_stream_def write_all_def still_tile_bytes del: write_written.simps)
  then show "60 + length (write_all still_stream) < 2 ^ 64" by (simp add: geom)
qed

end
