(* ===== verification/O3_EncBase.thy ===== *)
theory O3_EncBase
  imports O3_StreamLaws
begin

text \<open>
  Ground of the encoder \<open>src/bin/rav1e-o3yv.rs\<close>: its constants and records,
  the choice of a macroblock, the statistics. The encoder indexes its planes
  with checked accesses, so its functions return a \<open>result\<close> whose only error
  is \<open>Fault\<close>, the panic; \<open>okR P m\<close> says that \<open>m\<close> returns and its value
  satisfies \<open>P\<close>. \<open>i32\<close> arithmetic wraps by \<open>wrap32\<close> and \<open>i16\<close> by
  \<open>wrap16\<close> where a bound is not immediate from the operands' range; the 64-bit
  sums (at most 192000 samples of at most 65025) are natural numbers.
\<close>

section \<open>Returning with a property\<close>

definition okR :: "('a \<Rightarrow> bool) \<Rightarrow> 'a result \<Rightarrow> bool" where
  "okR P m \<longleftrightarrow> (\<exists>x. m = Inr x \<and> P x)"

lemma okR_Inr [simp]: "okR P (Inr x) \<longleftrightarrow> P x"
  by (simp add: okR_def)

lemma okR_Inl [simp]: "\<not> okR P (Inl e)"
  by (simp add: okR_def)

lemma okR_bind:
  assumes "okR P m" and "\<And>x. P x \<Longrightarrow> okR Q (k x)"
  shows "okR Q (bindR m k)"
  using assms by (auto simp: okR_def)

lemma okR_mono: "okR P m \<Longrightarrow> (\<And>x. P x \<Longrightarrow> Q x) \<Longrightarrow> okR Q m"
  by (auto simp: okR_def)

lemma okR_conj: "okR P m \<Longrightarrow> okR Q m \<Longrightarrow> okR (\<lambda>x. P x \<and> Q x) m"
  by (auto simp: okR_def)

lemma okR_if: "(b \<Longrightarrow> okR P m) \<Longrightarrow> (\<not> b \<Longrightarrow> okR P n) \<Longrightarrow> okR P (if b then m else n)"
  by simp

lemma okR_let: "okR P (f x) \<Longrightarrow> okR P (Let x f)"
  by simp

lemma okR_forR:
  assumes "I s" and "\<And>k s. k \<in> set ks \<Longrightarrow> I s \<Longrightarrow> okR I (f k s)"
  shows "okR I (forR f ks s)"
  using forR_invariant[of I s ks f] assms by (auto simp: okR_def)

lemma okR_forR_upt:
  assumes "I m s" and "m \<le> n" and "\<And>i s. m \<le> i \<Longrightarrow> i < n \<Longrightarrow> I i s \<Longrightarrow> okR (I (Suc i)) (f i s)"
  shows "okR (I n) (forR f [m..<n] s)"
  using assms
proof (induction n)
  case (Suc n)
  show ?case
  proof (cases "m \<le> n")
    case True
    then have "okR (I n) (forR f [m..<n] s)" using Suc by simp
    then show ?thesis using True Suc.prems by (auto simp: forR_append intro: okR_bind)
  next
    case False
    with Suc.prems show ?thesis by (simp add: le_Suc_eq)
  qed
qed simp

abbreviation returns :: "'a result \<Rightarrow> bool" where
  "returns \<equiv> okR (\<lambda>_. True)"

lemma returns_iff: "returns m \<longleftrightarrow> (\<exists>x. m = Inr x)"
  by (simp add: okR_def)

lemma okR_load_at: "i < length xs \<Longrightarrow> P (xs ! i) \<Longrightarrow> okR P (load_at xs i)"
  by simp

section \<open>16-bit signed arithmetic\<close>

definition wrap16 :: "int \<Rightarrow> int" where
  "wrap16 x = (x + 32768) mod 65536 - 32768"

lemma wrap16_id: "- 32768 \<le> x \<Longrightarrow> x < 32768 \<Longrightarrow> wrap16 x = x"
  by (simp add: wrap16_def)

text \<open>Truncating division, as Rust's \<open>/\<close> on signed integers.\<close>

definition tdiv :: "int \<Rightarrow> int \<Rightarrow> int" where
  "tdiv a b = sgn a * sgn b * (\<bar>a\<bar> div \<bar>b\<bar>)"

lemma tdiv_nonneg: "0 \<le> a \<Longrightarrow> 0 < b \<Longrightarrow> tdiv a b = a div b"
  by (cases "a = 0") (auto simp: tdiv_def)

section \<open>Constants\<close>

definition FRAME_HEADER_BYTES :: nat where "FRAME_HEADER_BYTES = 28"
definition KEY_RAW_CODED_BYTES :: nat where "KEY_RAW_CODED_BYTES = FRAME_HEADER_BYTES + SBS_FRAME_BYTES"
definition RATE_WINDOW_FRAMES :: nat where "RATE_WINDOW_FRAMES = 24"
definition RATE_WINDOW_BYTES :: nat where "RATE_WINDOW_BYTES = 2000000"
definition QUALITY_RECOVERY_WINDOW_BYTES :: nat where "QUALITY_RECOVERY_WINDOW_BYTES = RATE_WINDOW_BYTES"
definition P_FRAME_SOFT_TARGET_MIN :: nat where "P_FRAME_SOFT_TARGET_MIN = 60 * 1024"
definition MAX_RAW_MB_PER_P_FRAME :: nat where "MAX_RAW_MB_PER_P_FRAME = 96"
definition MAX_DC_ONLY_BLOCKS_PER_P_FRAME :: nat where "MAX_DC_ONLY_BLOCKS_PER_P_FRAME = 3000"
definition MAX_AC_MASK_BLOCKS_PER_P_FRAME :: nat where "MAX_AC_MASK_BLOCKS_PER_P_FRAME = 3650"
definition MAX_FULL_IDCT_BLOCKS_PER_P_FRAME :: nat where "MAX_FULL_IDCT_BLOCKS_PER_P_FRAME = 256"
definition MAX_P_DECODE_WORK_UNITS :: nat where "MAX_P_DECODE_WORK_UNITS = 1000000"
definition BUDGET_Q_STEPS :: "int list" where "BUDGET_Q_STEPS = [4, 8, 12, 16, 24, 32, 48, 64]"
definition QUALITY_RECOVERY_Q_STEP :: int where "QUALITY_RECOVERY_Q_STEP = 1"
definition QUALITY_RECOVERY_RAW4X4_SSE_THRESHOLDS :: "nat list" where
  "QUALITY_RECOVERY_RAW4X4_SSE_THRESHOLDS = [400, 200, 100, 50, 25, 12, 4]"
definition QUALITY_RECOVERY_RAW_MB_COST_BIAS :: nat where "QUALITY_RECOVERY_RAW_MB_COST_BIAS = 96"
definition QUALITY_TARGET_Y_SSE :: nat where "QUALITY_TARGET_Y_SSE = 400000"
definition QUALITY_RECOVERY_RELAXED_STOP_Y_SSE :: nat where "QUALITY_RECOVERY_RELAXED_STOP_Y_SSE = QUALITY_TARGET_Y_SSE * 2"
definition QUALITY_RECOVERY_TIGHT_WINDOW_BYTES :: nat where "QUALITY_RECOVERY_TIGHT_WINDOW_BYTES = 1700000"
definition QUALITY_BAD_Y_MAE_MILLI :: u32 where "QUALITY_BAD_Y_MAE_MILLI = 1800"
definition QUALITY_BAD_Y_GT16_PER_MILLE :: u32 where "QUALITY_BAD_Y_GT16_PER_MILLE = 5"
definition QUALITY_RAW_KEY_Y_SSE :: nat where "QUALITY_RAW_KEY_Y_SSE = QUALITY_TARGET_Y_SSE * 10"
definition QUALITY_AC_MAX_EXTRA_COEFFS :: nat where "QUALITY_AC_MAX_EXTRA_COEFFS = 6"
definition QUALITY_AC_MAX_PAYLOAD_BYTES :: nat where "QUALITY_AC_MAX_PAYLOAD_BYTES = 10"
definition QUALITY_AC_MAX_BLOCK_SSE :: nat where "QUALITY_AC_MAX_BLOCK_SSE = 96"
definition QUALITY_AC_MIN_SSE_GAIN :: nat where "QUALITY_AC_MIN_SSE_GAIN = 96"
definition QUALITY_RAW_4X4_LOCAL_COST :: nat where "QUALITY_RAW_4X4_LOCAL_COST = 21"
definition QUALITY_AC_DECODE_COST_BIAS :: nat where "QUALITY_AC_DECODE_COST_BIAS = 10"
definition QUALITY_AC_DISTORTION_COST_DIVISOR :: nat where "QUALITY_AC_DISTORTION_COST_DIVISOR = 16"
definition QUALITY_RAW_MB_RAW4X4_BLOCK_THRESHOLD :: nat where "QUALITY_RAW_MB_RAW4X4_BLOCK_THRESHOLD = 17"
definition QUALITY_RAW_MB_HARD_MARGIN :: nat where "QUALITY_RAW_MB_HARD_MARGIN = 192"
definition SCENE_CUT_AVG_Y_DELTA :: u32 where "SCENE_CUT_AVG_Y_DELTA = 32"
definition SCENE_CUT_HIGH_Y_DELTA :: byte where "SCENE_CUT_HIGH_Y_DELTA = 48"
definition SCENE_CUT_HIGH_Y_PERCENT :: u32 where "SCENE_CUT_HIGH_Y_PERCENT = 25"
definition O3YV_ZIGZAG :: "nat list" where
  "O3YV_ZIGZAG = [0, 1, 4, 8, 5, 2, 3, 6, 9, 12, 13, 10, 7, 11, 14, 15]"

lemma O3YV_ZIGZAG_eq: "O3YV_ZIGZAG = ZIGZAG"
  by (simp add: O3YV_ZIGZAG_def ZIGZAG_def)

section \<open>Modes and choices\<close>

datatype encode_mode = Lossless | Budget int | QualityRecovery int nat

fun EncodeMode_q_step :: "encode_mode \<Rightarrow> int option" where
  "EncodeMode_q_step Lossless = None"
| "EncodeMode_q_step (Budget q_step) = Some q_step"
| "EncodeMode_q_step (QualityRecovery q_step _) = Some q_step"

fun quality_recovery :: "encode_mode \<Rightarrow> bool" where
  "quality_recovery (QualityRecovery _ _) = True"
| "quality_recovery _ = False"

fun raw4x4_sse_threshold :: "encode_mode \<Rightarrow> nat option" where
  "raw4x4_sse_threshold (QualityRecovery _ threshold) = Some threshold"
| "raw4x4_sse_threshold _ = None"

definition dec_int :: "int \<Rightarrow> string" where
  "dec_int v = (if v < 0 then ''-'' @ dec (nat (- v)) else dec (nat v))"

fun EncodeMode_name :: "encode_mode \<Rightarrow> string" where
  "EncodeMode_name Lossless = ''lossless''"
| "EncodeMode_name (Budget q_step) = ''budget-q'' @ dec_int q_step"
| "EncodeMode_name (QualityRecovery q_step threshold) =
     ''quality-recovery-q'' @ dec_int q_step @ ''-raw4x4-sse'' @ dec threshold"

record residual_counts =
  rs_raw_4x4_blocks :: nat
  rs_dc_only_blocks :: nat
  rs_ac_mask_blocks :: nat
  rs_full_idct_blocks :: nat

definition ResidualStats_default :: residual_counts where
  "ResidualStats_default = \<lparr>rs_raw_4x4_blocks = 0, rs_dc_only_blocks = 0, rs_ac_mask_blocks = 0, rs_full_idct_blocks = 0\<rparr>"

record mb_choice =
  mc_mode :: byte
  mc_mvs :: "mv list"
  mc_residual :: "byte list"
  mc_raw :: "byte list"
  mc_recon :: "byte list"
  mc_cost :: nat
  mc_segment_id :: byte
  mc_stats :: residual_counts
  mc_distortion :: nat

section \<open>Statistics\<close>

record frame_stats =
  fs_skip_mb :: nat
  fs_copy16_mb :: nat
  fs_copy16_res_mb :: nat
  fs_vbs_mb :: nat
  fs_vbs_res_mb :: nat
  fs_base_res_mb :: nat
  fs_prefill_tiles :: nat
  fs_lazy_base_copy_mb :: nat
  fs_raw_mb :: nat
  fs_p_frame_bytes :: nat
  fs_raw_4x4_blocks :: nat
  fs_dc_only_blocks :: nat
  fs_ac_mask_blocks :: nat
  fs_full_idct_blocks :: nat
  fs_segment_map_stream_bytes :: nat
  fs_mode_stream_bytes :: nat
  fs_residual_stream_bytes :: nat
  fs_raw_stream_bytes :: nat
  fs_decode_work_units :: nat
  fs_distortion :: nat

definition FrameStats_default :: frame_stats where
  "FrameStats_default = \<lparr>fs_skip_mb = 0, fs_copy16_mb = 0, fs_copy16_res_mb = 0, fs_vbs_mb = 0, fs_vbs_res_mb = 0,
     fs_base_res_mb = 0, fs_prefill_tiles = 0, fs_lazy_base_copy_mb = 0, fs_raw_mb = 0, fs_p_frame_bytes = 0,
     fs_raw_4x4_blocks = 0, fs_dc_only_blocks = 0, fs_ac_mask_blocks = 0, fs_full_idct_blocks = 0,
     fs_segment_map_stream_bytes = 0, fs_mode_stream_bytes = 0, fs_residual_stream_bytes = 0, fs_raw_stream_bytes = 0,
     fs_decode_work_units = 0, fs_distortion = 0\<rparr>"

definition add_choice :: "frame_stats \<Rightarrow> mb_choice \<Rightarrow> frame_stats" where
  "add_choice st choice =
     (let st = (if mc_mode choice = MODE_BASE_RES then st\<lparr>fs_base_res_mb := fs_base_res_mb st + 1\<rparr>
        else if mc_mode choice = MODE_COPY16 then st\<lparr>fs_copy16_mb := fs_copy16_mb st + 1\<rparr>
        else if mc_mode choice = MODE_COPY16_RES then st\<lparr>fs_copy16_res_mb := fs_copy16_res_mb st + 1\<rparr>
        else if mc_mode choice = MODE_COPY16X8 \<or> mc_mode choice = MODE_COPY8X16 \<or> mc_mode choice = MODE_COPY8X8 then
          st\<lparr>fs_vbs_mb := fs_vbs_mb st + 1\<rparr>
        else if mc_mode choice = MODE_COPY16X8_RES \<or> mc_mode choice = MODE_COPY8X16_RES \<or> mc_mode choice = MODE_COPY8X8_RES then
          st\<lparr>fs_vbs_res_mb := fs_vbs_res_mb st + 1\<rparr>
        else if mc_mode choice = MODE_RAW_MB then st\<lparr>fs_raw_mb := fs_raw_mb st + 1\<rparr>
        else st) in
      st\<lparr>fs_raw_4x4_blocks := fs_raw_4x4_blocks st + rs_raw_4x4_blocks (mc_stats choice),
         fs_dc_only_blocks := fs_dc_only_blocks st + rs_dc_only_blocks (mc_stats choice),
         fs_ac_mask_blocks := fs_ac_mask_blocks st + rs_ac_mask_blocks (mc_stats choice),
         fs_full_idct_blocks := fs_full_idct_blocks st + rs_full_idct_blocks (mc_stats choice),
         fs_distortion := fs_distortion st + mc_distortion choice\<rparr>)"

definition add_stats :: "frame_stats \<Rightarrow> frame_stats \<Rightarrow> frame_stats" where
  "add_stats t f = \<lparr>fs_skip_mb = fs_skip_mb t + fs_skip_mb f, fs_copy16_mb = fs_copy16_mb t + fs_copy16_mb f,
     fs_copy16_res_mb = fs_copy16_res_mb t + fs_copy16_res_mb f, fs_vbs_mb = fs_vbs_mb t + fs_vbs_mb f,
     fs_vbs_res_mb = fs_vbs_res_mb t + fs_vbs_res_mb f, fs_base_res_mb = fs_base_res_mb t + fs_base_res_mb f,
     fs_prefill_tiles = fs_prefill_tiles t + fs_prefill_tiles f, fs_lazy_base_copy_mb = fs_lazy_base_copy_mb t + fs_lazy_base_copy_mb f,
     fs_raw_mb = fs_raw_mb t + fs_raw_mb f, fs_p_frame_bytes = fs_p_frame_bytes t,
     fs_raw_4x4_blocks = fs_raw_4x4_blocks t + fs_raw_4x4_blocks f, fs_dc_only_blocks = fs_dc_only_blocks t + fs_dc_only_blocks f,
     fs_ac_mask_blocks = fs_ac_mask_blocks t + fs_ac_mask_blocks f, fs_full_idct_blocks = fs_full_idct_blocks t + fs_full_idct_blocks f,
     fs_segment_map_stream_bytes = fs_segment_map_stream_bytes t + fs_segment_map_stream_bytes f,
     fs_mode_stream_bytes = fs_mode_stream_bytes t + fs_mode_stream_bytes f,
     fs_residual_stream_bytes = fs_residual_stream_bytes t + fs_residual_stream_bytes f,
     fs_raw_stream_bytes = fs_raw_stream_bytes t + fs_raw_stream_bytes f,
     fs_decode_work_units = fs_decode_work_units t + fs_decode_work_units f, fs_distortion = fs_distortion t + fs_distortion f\<rparr>"

section \<open>Costs\<close>

definition mv_payload_len :: "byte \<Rightarrow> nat" where
  "mv_payload_len mode_id =
     (if mode_id = MODE_COPY16_RES then 2
      else if mode_id = MODE_COPY16X8_RES then 4
      else if mode_id = MODE_COPY8X16_RES then 4
      else if mode_id = MODE_COPY8X8_RES then 8
      else 0)"

definition aq_steps :: "int \<Rightarrow> (byte \<times> int) list" where
  "aq_steps base_q =
     [(2, max (tdiv base_q 2) 1), (0, max base_q 1), (1, max (wrap16 (base_q * 2)) 1), (3, max (wrap16 (base_q * 4)) 1)]"

definition residual_mask :: "byte list \<Rightarrow> u32" where
  "residual_mask residual = from_le_bytes [residual ! 0, residual ! 1, residual ! 2, residual ! 3]"

definition residual_decode_cost :: "byte list \<Rightarrow> nat" where
  "residual_decode_cost residual =
     (if length residual < 4 then 0 else count_ones (residual_mask residual) * 3)"

text \<open>
  The loop over the 24 blocks of \<open>residual_stats\<close>: \<open>continue\<close> goes on with
  the rest of the list, \<open>break\<close> returns the counts.
\<close>

primrec residual_stats_loop :: "u32 \<Rightarrow> byte list \<Rightarrow> nat list \<Rightarrow> nat \<Rightarrow> residual_counts \<Rightarrow> residual_counts" where
  "residual_stats_loop mk residual [] pos st = st"
| "residual_stats_loop mk residual (block # blocks) pos st =
     (if mk AND push_bit block 1 = 0 then residual_stats_loop mk residual blocks pos st
      else if length residual \<le> pos then st
      else
        let tag = residual ! pos; pos = pos + 1 in
        if tag AND 0xc0 = 0x00 then
          (let st = st\<lparr>rs_dc_only_blocks := rs_dc_only_blocks st + 1\<rparr>; pos = pos + 1 in
           if pos > length residual then st else residual_stats_loop mk residual blocks pos st)
        else if tag AND 0xc0 = 0x40 then
          (let st = st\<lparr>rs_dc_only_blocks := rs_dc_only_blocks st + 1\<rparr>; pos = pos + 2 in
           if pos > length residual then st else residual_stats_loop mk residual blocks pos st)
        else if tag AND 0xc0 = 0x80 then
          (let st = st\<lparr>rs_ac_mask_blocks := rs_ac_mask_blocks st + 1, rs_full_idct_blocks := rs_full_idct_blocks st + 1\<rparr> in
           if pos + 2 > length residual then st
           else
             let nz_mask = from_le_bytes [residual ! pos, residual ! (pos + 1)] :: u16; pos = pos + 2 + count_ones nz_mask in
             if pos > length residual then st else residual_stats_loop mk residual blocks pos st)
        else if tag AND 0xc0 = 0xc0 \<and> tag AND 0x20 = 0 then
          (let st = st\<lparr>rs_ac_mask_blocks := rs_ac_mask_blocks st + 1, rs_full_idct_blocks := rs_full_idct_blocks st + 1\<rparr> in
           if pos + 2 > length residual then st
           else
             let nz_mask = from_le_bytes [residual ! pos, residual ! (pos + 1)] :: u16; pos = pos + 2 + count_ones nz_mask * 2 in
             if pos > length residual then st else residual_stats_loop mk residual blocks pos st)
        else if tag AND 0xc0 = 0xc0 then
          (let st = st\<lparr>rs_raw_4x4_blocks := rs_raw_4x4_blocks st + 1\<rparr>; pos = pos + 16 in
           if pos > length residual then st else residual_stats_loop mk residual blocks pos st)
        else if pos > length residual then st else residual_stats_loop mk residual blocks pos st)"

definition residual_stats :: "byte list \<Rightarrow> residual_counts" where
  "residual_stats residual =
     (if length residual < 4 then ResidualStats_default
      else residual_stats_loop (residual_mask residual) residual [0..<24] 4 ResidualStats_default)"

end
