(* ===== verification/O3_EncBlock.thy ===== *)
theory O3_EncBlock
  imports O3_EncBase
begin

text \<open>
  Coding one 4x4 block in the encoder: the lossless payload, the quantised DC
  payload, the AC candidate with its own inverse transform, and
  \<open>lossy_block_payload\<close> that chooses among them and updates the encoder's
  reconstruction.
\<close>

section \<open>The loop over a block\<close>

definition for4x4 :: "(nat \<Rightarrow> nat \<Rightarrow> 's \<Rightarrow> 's result) \<Rightarrow> 's \<Rightarrow> 's result" where
  "for4x4 f s = forR (\<lambda>row. forR (f row) [0..<4]) [0..<4] s"

lemma okR_for4x4:
  assumes "I 0 s"
    and "\<And>row col s. row < 4 \<Longrightarrow> col < 4 \<Longrightarrow> I (row * 4 + col) s \<Longrightarrow> okR (I (row * 4 + col + 1)) (f row col s)"
  shows "okR (I 16) (for4x4 f s)"
proof -
  have row: "okR (I (Suc row * 4)) (forR (f row) [0..<4] s)" if "row < 4" "I (row * 4) s" for row s
    using okR_forR_upt[where I = "\<lambda>col. I (row * 4 + col)" and m = 0 and n = 4 and f = "f row" and s = s] assms(2) that
    by (simp add: add.commute)
  show ?thesis
    unfolding for4x4_def
    using okR_forR_upt[where I = "\<lambda>row. I (row * 4)" and m = 0 and n = 4 and s = s] row assms(1) by simp
qed

section \<open>Quantisation\<close>

definition round_div_i32 :: "int \<Rightarrow> int \<Rightarrow> int" where
  "round_div_i32 value divisor =
     (if value \<ge> 0 then tdiv (wrap32 (value + tdiv divisor 2)) divisor
      else wrap32 (- tdiv (wrap32 (wrap32 (- value) + tdiv divisor 2)) divisor))"

definition quantize_delta :: "int \<Rightarrow> int \<Rightarrow> int" where
  "quantize_delta delta q_step =
     (let q = max q_step 1;
          quantized = (if delta \<ge> 0 then ((delta + q div 2) div q) * q else - (((- delta + q div 2) div q) * q))
      in clamp_int quantized (- 255) 255)"

lemma quantize_delta_range: "- 255 \<le> quantize_delta d q \<and> quantize_delta d q \<le> 255"
  using clamp_int_bounds[of "- 255" 255] by (simp add: quantize_delta_def Let_def)

definition fits_i8 :: "int \<Rightarrow> bool" where
  "fits_i8 v \<longleftrightarrow> - 128 \<le> v \<and> v \<le> 127"

definition dc_payload :: "int \<Rightarrow> byte list" where
  "dc_payload delta =
     (let qdc = wrap16 (delta * 8) in
      if fits_i8 qdc then [TAG_DC_ONLY_S8, word_of_int qdc]
      else TAG_DC_ONLY_S16 # to_le_bytes 2 (word_of_int qdc :: u16))"

section \<open>Lossless payloads\<close>

definition delta_at :: "byte list \<Rightarrow> byte list \<Rightarrow> nat \<Rightarrow> int result" where
  "delta_at src pred idx =
     bindR (load_at src idx) (\<lambda>a. bindR (load_at pred idx) (\<lambda>b. Inr (uint a - uint b)))"

text \<open>The four rows of a raw block, appended to \<open>out\<close>.\<close>

definition push_raw_rows :: "byte list \<Rightarrow> nat \<Rightarrow> nat \<Rightarrow> nat \<Rightarrow> byte list \<Rightarrow> byte list result" where
  "push_raw_rows src stride x y out =
     forR (\<lambda>row out. let src_off = (y + row) * stride + x in
       bindR (slice_range src src_off (src_off + 4)) (\<lambda>s. Inr (out @ s))) [0..<4] out"

definition lossless_block_payload :: "byte list \<Rightarrow> byte list \<Rightarrow> nat \<Rightarrow> nat \<Rightarrow> nat \<Rightarrow> byte list option result" where
  "lossless_block_payload src pred stride x y =
     bindR (delta_at src pred (y * stride + x)) (\<lambda>first.
     bindR (for4x4 (\<lambda>row col (constant_delta, equal). let idx = (y + row) * stride + x + col in
         bindR (delta_at src pred idx) (\<lambda>delta.
         Inr (if delta \<noteq> first then False else constant_delta, if delta \<noteq> 0 then False else equal)))
       (True, first = 0)) (\<lambda>(constant_delta, equal).
     if equal then Inr (Some [])
     else if \<not> constant_delta then
       bindR (push_raw_rows src stride x y [TAG_RAW_4X4]) (\<lambda>out. Inr (Some out))
     else Inr (Some (dc_payload first))))"

section \<open>The encoder's inverse transform\<close>

definition idct_block_deltas :: "int list \<Rightarrow> int list" where
  "idct_block_deltas coeffs =
     (let tmp = fold (\<lambda>col tmp.
            let a1 = wrap32 (coeffs ! col + coeffs ! (8 + col));
                b1 = wrap32 (coeffs ! col - coeffs ! (8 + col));
                c1 = wrap32 (wrap32 (coeffs ! (4 + col) * 35468) div 65536 - coeffs ! (12 + col));
                d1 = wrap32 (coeffs ! (4 + col) + wrap32 (coeffs ! (12 + col) * 35468) div 65536)
            in tmp[col := wrap32 (a1 + d1), 4 + col := wrap32 (b1 + c1), 8 + col := wrap32 (b1 - c1), 12 + col := wrap32 (a1 - d1)])
          [0..<4] (replicate 16 0) in
      fold (\<lambda>row out.
            let base = row * 4;
                a1 = wrap32 (tmp ! base + tmp ! (base + 2));
                b1 = wrap32 (tmp ! base - tmp ! (base + 2));
                c1 = wrap32 (wrap32 (tmp ! (base + 1) * 35468) div 65536 - tmp ! (base + 3));
                d1 = wrap32 (tmp ! (base + 1) + wrap32 (tmp ! (base + 3) * 35468) div 65536);
                vals = [wrap32 (a1 + d1), wrap32 (b1 + c1), wrap32 (b1 - c1), wrap32 (a1 - d1)]
            in fold (\<lambda>col out. out[base + col := wrap32 (vals ! col + 4) div 8]) [0..<4] out)
          [0..<4] (replicate 16 0))"

definition idct_reconstruct_block :: "byte list \<Rightarrow> int list \<Rightarrow> byte list" where
  "idct_reconstruct_block pred coeffs =
     (let deltas = idct_block_deltas coeffs in
      fold (\<lambda>i out. out[i := clip_u8 (wrap32 (uint (pred ! i) + deltas ! i))]) [0..<16] (replicate 16 0))"

section \<open>The AC candidate\<close>

record ac_candidate =
  ac_bytes :: "byte list"
  ac_values :: "byte list"
  ac_distortion :: nat

definition quality_ac_beats_raw_4x4 :: "ac_candidate \<Rightarrow> bool" where
  "quality_ac_beats_raw_4x4 ac \<longleftrightarrow>
     length (ac_bytes ac) + QUALITY_AC_DECODE_COST_BIAS + ac_distortion ac div QUALITY_AC_DISTORTION_COST_DIVISOR
       < QUALITY_RAW_4X4_LOCAL_COST"

text \<open>The projection of the residual on each AC basis function, best first (the sort is stable).\<close>

definition ac_choices :: "int list \<Rightarrow> (int \<times> nat \<times> int) list" where
  "ac_choices residual =
     fold (\<lambda>zz ac.
       let natural = O3YV_ZIGZAG ! zz;
           basis = idct_block_deltas ((replicate 16 0)[natural := 8]);
           (dot, norm) = fold (\<lambda>i (dot, norm).
             (wrap32 (dot + wrap32 (residual ! i * basis ! i)), wrap32 (norm + wrap32 (basis ! i * basis ! i)))) [0..<16] (0, 0)
       in if norm = 0 then ac
          else let coeff = clamp_int (round_div_i32 (wrap32 (dot * 8)) norm) (- 127) 127 in
            if coeff = 0 then ac
            else let scaled = round_div_i32 (wrap32 (coeff * dot)) 8;
                     gain = max (wrap32 (wrap32 (scaled * 2) - round_div_i32 (wrap32 (wrap32 (coeff * coeff) * norm)) 64)) 0
                 in if gain > 0 then ac @ [(gain, zz, coeff)] else ac)
       [1..<16] []"

definition sort_choices :: "(int \<times> nat \<times> int) list \<Rightarrow> (int \<times> nat \<times> int) list" where
  "sort_choices ac = sort_key (\<lambda>(gain, _, _). - gain) ac"

definition block_sse :: "int list \<Rightarrow> byte list \<Rightarrow> nat" where
  "block_sse src_values values =
     fold (\<lambda>i distortion. let err = src_values ! i - uint (values ! i) in distortion + nat (err * err)) [0..<16] 0"

definition quality_ac_mask_candidate ::
  "byte list \<Rightarrow> byte list \<Rightarrow> nat \<Rightarrow> nat \<Rightarrow> nat \<Rightarrow> int \<Rightarrow> nat \<Rightarrow> ac_candidate option result" where
  "quality_ac_mask_candidate src pred stride x y dc_delta dc_distortion =
     (let dc_coeff = dc_delta * 8 in
      if \<not> (- 32768 \<le> dc_coeff \<and> dc_coeff < 32768) then Inr None
      else if \<not> fits_i8 dc_coeff then Inr None
      else
        bindR (for4x4 (\<lambda>row col (src_values, pred_values).
            let src_idx = (y + row) * stride + x + col; block_idx = row * 4 + col in
            bindR (load_at src src_idx) (\<lambda>s. bindR (load_at pred src_idx) (\<lambda>p.
            Inr (src_values[block_idx := uint s], pred_values[block_idx := p]))))
          (replicate 16 0, replicate 16 0)) (\<lambda>(src_values, pred_values).
        let coeffs = (replicate 16 0)[0 := dc_coeff];
            dc_recon = idct_reconstruct_block pred_values coeffs;
            residual = map (\<lambda>i. src_values ! i - uint (dc_recon ! i)) [0..<16];
            taken = take QUALITY_AC_MAX_EXTRA_COEFFS (sort_choices (ac_choices residual));
            (coeffs, nz_mask) = fold (\<lambda>(_, zz, coeff) (coeffs, nz_mask).
              (coeffs[O3YV_ZIGZAG ! zz := coeff], nz_mask OR push_bit zz 1)) taken (coeffs, 1 :: u16);
            extra_coeffs = length taken in
        if extra_coeffs = 0 then Inr None
        else
          let values = idct_reconstruct_block pred_values coeffs;
              distortion = block_sse src_values values in
          if distortion > QUALITY_AC_MAX_BLOCK_SSE \<or> dc_distortion - distortion < QUALITY_AC_MIN_SSE_GAIN then Inr None
          else
            let payload_bytes = 1 + 2 + count_ones nz_mask in
            if payload_bytes > QUALITY_AC_MAX_PAYLOAD_BYTES then Inr None
            else
              let bytes = fold (\<lambda>zz bytes.
                    if nz_mask AND push_bit zz 1 \<noteq> 0 then bytes @ [word_of_int (coeffs ! (O3YV_ZIGZAG ! zz))] else bytes)
                    [0..<16] (TAG_AC_MASK_S8 # to_le_bytes 2 nz_mask)
              in Inr (Some \<lparr>ac_bytes = bytes, ac_values = values, ac_distortion = distortion\<rparr>)))"

section \<open>The lossy block\<close>

definition store_block :: "byte list \<Rightarrow> nat \<Rightarrow> nat \<Rightarrow> nat \<Rightarrow> byte list \<Rightarrow> byte list result" where
  "store_block recon stride x y values =
     for4x4 (\<lambda>row col recon. store_at recon ((y + row) * stride + x + col) (values ! (row * 4 + col))) recon"

definition lossy_block_payload ::
  "byte list \<Rightarrow> byte list \<Rightarrow> byte list \<Rightarrow> nat \<Rightarrow> nat \<Rightarrow> nat \<Rightarrow> int \<Rightarrow> nat option \<Rightarrow> nat \<Rightarrow> residual_counts \<Rightarrow>
    (byte list option \<times> byte list \<times> nat \<times> residual_counts) result" where
  "lossy_block_payload src pred recon stride x y q_step threshold distortion stats =
     bindR (for4x4 (\<lambda>row col sum. bindR (delta_at src pred ((y + row) * stride + x + col)) (\<lambda>d. Inr (sum + d))) 0) (\<lambda>sum.
     let avg = wrap16 (round_div_i32 sum 16);
         delta = quantize_delta avg q_step in
     bindR (for4x4 (\<lambda>row col (dc_values, dc_distortion). let idx = (y + row) * stride + x + col in
         bindR (load_at pred idx) (\<lambda>p. let value = clip_u8 (uint p + delta) in
         bindR (load_at src idx) (\<lambda>s. let err = uint s - uint value in
         Inr (dc_values[row * 4 + col := value], dc_distortion + nat (err * err)))))
       (replicate 16 0, 0)) (\<lambda>(dc_values, dc_distortion).
     if (case threshold of Some t \<Rightarrow> dc_distortion \<ge> t | None \<Rightarrow> False) then
       bindR (quality_ac_mask_candidate src pred stride x y delta dc_distortion) (\<lambda>cand.
       case (case cand of Some ac \<Rightarrow> if quality_ac_beats_raw_4x4 ac then Some ac else None | None \<Rightarrow> None) of
         Some ac \<Rightarrow>
           bindR (store_block recon stride x y (ac_values ac)) (\<lambda>recon.
           Inr (Some (ac_bytes ac), recon, distortion + ac_distortion ac,
             stats\<lparr>rs_ac_mask_blocks := rs_ac_mask_blocks stats + 1, rs_full_idct_blocks := rs_full_idct_blocks stats + 1\<rparr>))
       | None \<Rightarrow>
           bindR (forR (\<lambda>row (out, recon).
               let src_off = (y + row) * stride + x; dst_off = (y + row) * stride + x in
               bindR (slice_range src src_off (src_off + 4)) (\<lambda>s.
               bindR (copy_from_slice recon dst_off (dst_off + 4) s) (\<lambda>recon. Inr (out @ s, recon))))
             [0..<4] ([TAG_RAW_4X4], recon)) (\<lambda>(out, recon).
           Inr (Some out, recon, distortion, stats\<lparr>rs_raw_4x4_blocks := rs_raw_4x4_blocks stats + 1\<rparr>)))
     else
       bindR (store_block recon stride x y dc_values) (\<lambda>recon.
       if delta = 0 then Inr (None, recon, distortion + dc_distortion, stats)
       else Inr (Some (dc_payload delta), recon, distortion + dc_distortion,
             stats\<lparr>rs_dc_only_blocks := rs_dc_only_blocks stats + 1\<rparr>))))"

end
