(* ===== verification/O3_EncBlockLaws.thy ===== *)
theory O3_EncBlockLaws
  imports O3_EncBlock
begin

text \<open>
  What the block coder promises: its payload parses to a block that turns the
  prediction into exactly the samples the encoder keeps in its reconstruction,
  the distortion grows by the squared error of those samples, and the counters
  count the coded block.
\<close>

section \<open>Payloads and the blocks they parse to\<close>

definition codes :: "byte list \<Rightarrow> blk \<Rightarrow> bool" where
  "codes bs b \<longleftrightarrow> blk_ok b \<and> bs \<noteq> [] \<and>
     (\<forall>r post. rest r = bs @ post \<longrightarrow> parse_block r = Inr (b, adv (length bs) r))"

definition blk_values :: "blk \<Rightarrow> byte list \<Rightarrow> byte list" where
  "blk_values b pv = map (\<lambda>k. blk_fn b (k div 4) (k mod 4) (pv ! k)) [0..<16]"

fun codes_block :: "byte list option \<Rightarrow> blk option \<Rightarrow> byte list \<Rightarrow> byte list \<Rightarrow> bool" where
  "codes_block None None pv tv \<longleftrightarrow> tv = pv"
| "codes_block (Some bs) (Some b) pv tv \<longleftrightarrow> codes bs b \<and> tv = blk_values b pv"
| "codes_block _ _ pv tv \<longleftrightarrow> False"

lemma codes_blockE:
  assumes "codes_block ob bo pv tv"
  obtains "ob = None" "bo = None" "tv = pv" | bs b where "ob = Some bs" "bo = Some b" "codes bs b" "tv = blk_values b pv"
  using assms by (cases ob; cases bo) auto

lemma codes_raw:
  assumes "length bs = 16"
  shows "codes (TAG_RAW_4X4 # bs) (RawBlk bs)"
  using assms by (auto simp: codes_def parse_block_def rd_u8_cons)

lemma i8_roundtrip: "fits_i8 v \<Longrightarrow> sint (word_of_int v :: byte) = v"
  by (simp add: fits_i8_def sint_sbintrunc' signed_take_bit_int_eq_self)

lemma i16_roundtrip: "- 32768 \<le> v \<Longrightarrow> v < 32768 \<Longrightarrow> sint (word_of_int v :: u16) = v"
  by (simp add: sint_sbintrunc' signed_take_bit_int_eq_self)

lemma codes_dc:
  assumes "- 255 \<le> d" and "d \<le> 255"
  shows "codes (dc_payload d) (DcBlk (d * 8))"
proof -
  define v where "v = d * 8"
  have range: "- 32768 \<le> v" "v < 32768" using assms by (auto simp: v_def)
  have w: "wrap16 v = v" using range by (rule wrap16_id)
  have tags: "TAG_DC_ONLY_S8 \<noteq> TAG_RAW_4X4" "TAG_DC_ONLY_S16 \<noteq> TAG_RAW_4X4" "TAG_DC_ONLY_S16 \<noteq> TAG_DC_ONLY_S8"
    by (simp_all add: tag_defs)
  show ?thesis
  proof (cases "fits_i8 v")
    case True
    have "parse_block r = Inr (DcBlk v, adv 2 r)" if "rest r = [TAG_DC_ONLY_S8, word_of_int v] @ post" for r post
    proof -
      have "rest (adv 1 r) = [word_of_int v] @ post" using that by simp
      from i8c.get_put[OF this] that show ?thesis
        by (simp add: parse_block_def rd_u8_cons tags i8_roundtrip[OF True] flip: numeral_2_eq_2)
    qed
    with True range show ?thesis
      by (auto simp: codes_def dc_payload_def w v_def[symmetric] Let_def simp flip: numeral_2_eq_2)
  next
    case False
    have "parse_block r = Inr (DcBlk v, adv 3 r)" if "rest r = (TAG_DC_ONLY_S16 # to_le_bytes 2 (word_of_int v :: u16)) @ post" for r post
    proof -
      have "rest (adv 1 r) = to_le_bytes 2 (word_of_int v :: u16) @ post" using that by simp
      from i16c.get_put[OF this] that range show ?thesis
        by (simp add: parse_block_def rd_u8_cons tags i16_roundtrip flip: numeral_3_eq_3)
    qed
    with False range show ?thesis
      by (auto simp: codes_def dc_payload_def w v_def[symmetric] Let_def simp flip: numeral_3_eq_3)
  qed
qed

lemma codes_ac:
  assumes "length coeffs = 16" and "\<forall>c\<in>set coeffs. fits_i8 c"
    and "\<forall>k<16. \<not> bit (m :: u16) k \<longrightarrow> coeffs ! (ZIGZAG ! k) = 0"
  shows "codes (TAG_AC_MASK_S8 # to_le_bytes 2 m @ map (\<lambda>k. word_of_int (coeffs ! (ZIGZAG ! k))) (set_bits_of m)) (IdctBlk coeffs)"
proof -
  have tags: "TAG_AC_MASK_S8 \<noteq> TAG_RAW_4X4" "TAG_AC_MASK_S8 \<noteq> TAG_DC_ONLY_S8" "TAG_AC_MASK_S8 \<noteq> TAG_DC_ONLY_S16"
    by (simp_all add: tag_defs)
  have c: "fits_i8 (coeffs ! (ZIGZAG ! k))" if "k < 16" for k
    using assms(1,2) ZIGZAG_less[OF that] by simp
  have p: "parse_block r = Inr (IdctBlk coeffs, adv (3 + count_ones m) r)"
    if "rest r = (TAG_AC_MASK_S8 # to_le_bytes 2 m @ map (\<lambda>k. word_of_int (coeffs ! (ZIGZAG ! k))) (set_bits_of m)) @ post" for r post
  proof -
    have 1: "rest (adv 1 r) = to_le_bytes 2 m @ map (\<lambda>k. word_of_int (coeffs ! (ZIGZAG ! k))) (set_bits_of m) @ post" using that by simp
    then have 2: "rest (adv 3 r) = put_coeffs (\<lambda>b. [b]) (\<lambda>k. word_of_int (coeffs ! (ZIGZAG ! k))) m @ post"
      using that by (simp add: put_coeffs_def concat_map_singleton)
    have "read_coeffs_s8 m (adv 3 r) = Inr (coeffs, adv (count_ones m * 1) (adv 3 r))"
      unfolding read_coeffs_eq using assms c by (intro i8c.read_coeffs_written[OF _ _ 2]) (auto simp: i8_roundtrip)
    then show ?thesis using that u16c.get_put[OF 1] by (simp add: parse_block_def rd_u8_cons tags flip: numeral_3_eq_3)
  qed
  have "\<forall>c\<in>set coeffs. - 32768 \<le> c \<and> c < 32768" using assms(2) by (force simp: fits_i8_def)
  then show ?thesis using p assms(1) by (auto simp: codes_def count_ones_def)
qed

section \<open>Samples of a block\<close>

definition blk_pos :: "nat \<Rightarrow> nat \<Rightarrow> nat \<Rightarrow> nat \<Rightarrow> nat" where
  "blk_pos stride x y k = (y + k div 4) * stride + x + k mod 4"

definition samples :: "nat \<Rightarrow> nat \<Rightarrow> nat \<Rightarrow> byte list \<Rightarrow> byte list" where
  "samples stride x y p = map (\<lambda>k. p ! blk_pos stride x y k) [0..<16]"

lemma length_samples [simp]: "length (samples stride x y p) = 16"
  by (simp add: samples_def)

lemma nth_samples [simp]: "k < 16 \<Longrightarrow> samples stride x y p ! k = p ! blk_pos stride x y k"
  by (simp add: samples_def)

lemma length_blk_values [simp]: "length (blk_values b pv) = 16"
  by (simp add: blk_values_def)

definition put_vals :: "nat \<Rightarrow> nat \<Rightarrow> nat \<Rightarrow> byte list \<Rightarrow> byte list \<Rightarrow> byte list" where
  "put_vals stride x y tv = put_blk stride (y * stride + x) (\<lambda>r c _. tv ! (4 * r + c))"

lemma blk_pos_rc: "col < 4 \<Longrightarrow> blk_pos stride x y (row * 4 + col) = (y + row) * stride + x + col"
  by (simp add: blk_pos_def)

lemma blk_pos_base: "blk_pos stride x y k = y * stride + x + (k div 4) * stride + k mod 4"
  by (simp add: blk_pos_def algebra_simps)

definition fits :: "nat \<Rightarrow> nat \<Rightarrow> nat \<Rightarrow> byte list \<Rightarrow> bool" where
  "fits stride x y p \<longleftrightarrow> x + 4 \<le> stride \<and> (y + 4) * stride \<le> length p"

lemma blk_pos_less:
  assumes "fits stride x y p" and "k < 16"
  shows "blk_pos stride x y k < length p"
proof -
  have k: "k div 4 \<le> 3" "k mod 4 \<le> 3" using assms(2) by auto
  have "(y + k div 4) * stride \<le> (y + 3) * stride" "x + k mod 4 < stride"
    using assms(1) k mult_le_mono1[of "y + k div 4" "y + 3" stride] by (auto simp: fits_def)
  then have "blk_pos stride x y k < (y + 3) * stride + stride" unfolding blk_pos_def by linarith
  also have "\<dots> = (y + 4) * stride" by (simp add: algebra_simps)
  finally show ?thesis using assms(1) by (simp add: fits_def)
qed

lemma fits_blk_fits: "fits stride x y p \<Longrightarrow> blk_fits p stride (y * stride + x)"
  by (auto simp: fits_def blk_fits_def algebra_simps)

lemma in_blk_iff:
  assumes "x + 4 \<le> stride"
  shows "in_rect stride x y 4 4 i \<longleftrightarrow> (\<exists>k<16. i = blk_pos stride x y k)"
proof
  assume "in_rect stride x y 4 4 i"
  then obtain a b where ab: "i div stride = y + a" "a < 4" "i mod stride = x + b" "b < 4"
    unfolding in_rect_def by (metis le_Suc_ex nat_add_left_cancel_less)
  then have "blk_pos stride x y (a * 4 + b) = i"
    using div_mult_mod_eq[of i stride] by (simp add: blk_pos_rc)
  moreover have "a * 4 + b < 16" using ab by simp
  ultimately show "\<exists>k<16. i = blk_pos stride x y k" by metis
next
  assume "\<exists>k<16. i = blk_pos stride x y k"
  then obtain k where k: "k < 16" "i = blk_pos stride x y k" by blast
  have "k mod 4 < 4" by simp
  then have "x + k mod 4 < stride" using assms by linarith
  from row_div_mod[OF this, of "y + k div 4"] k show "in_rect stride x y 4 4 i"
    by (auto simp: in_rect_def blk_pos_def add.assoc)
qed

lemma base_div_mod:
  assumes "x + 4 \<le> (stride :: nat)"
  shows "(y * stride + x) mod stride = x" and "(y * stride + x) div stride = y"
  using row_div_mod[of x stride y] assms by auto

lemma length_put_vals [simp]: "length (put_vals stride x y tv p) = length p"
  by (simp add: put_vals_def)

lemma blk_pos_div_mod:
  assumes "x + 4 \<le> stride" and "k < 16"
  shows "blk_pos stride x y k div stride = y + k div 4" and "blk_pos stride x y k mod stride = x + k mod 4"
proof -
  have "k mod 4 < 4" by simp
  then have "x + k mod 4 < stride" using assms by linarith
  from row_div_mod[OF this, of "y + k div 4"] show "blk_pos stride x y k div stride = y + k div 4"
    and "blk_pos stride x y k mod stride = x + k mod 4" by (simp_all add: blk_pos_def add.assoc)
qed

lemma put_blk_at:
  assumes "x + 4 \<le> stride"
  shows "put_blk stride (y * stride + x) g p = pmap (in_rect stride x y 4 4) (\<lambda>i. g (i div stride - y) (i mod stride - x)) p"
  unfolding put_blk_def base_div_mod[OF assms] ..

lemma nth_put_blk:
  assumes "fits stride x y p"
  shows "k < 16 \<Longrightarrow> put_blk stride (y * stride + x) g p ! blk_pos stride x y k = g (k div 4) (k mod 4) (p ! blk_pos stride x y k)"
    and "i < length p \<Longrightarrow> \<forall>k<16. i \<noteq> blk_pos stride x y k \<Longrightarrow> put_blk stride (y * stride + x) g p ! i = p ! i"
proof -
  have x: "x + 4 \<le> stride" using assms by (simp add: fits_def)
  show "put_blk stride (y * stride + x) g p ! blk_pos stride x y k = g (k div 4) (k mod 4) (p ! blk_pos stride x y k)" if "k < 16"
  proof -
    have "in_rect stride x y 4 4 (blk_pos stride x y k)" using that in_blk_iff[OF x] by blast
    then show ?thesis
      using blk_pos_less[OF assms that] by (simp add: put_blk_at[OF x] blk_pos_div_mod[OF x that])
  qed
  show "put_blk stride (y * stride + x) g p ! i = p ! i" if "i < length p" "\<forall>k<16. i \<noteq> blk_pos stride x y k"
    using that by (auto simp: put_blk_at[OF x] in_blk_iff[OF x])
qed

lemma nth_put_vals:
  assumes "fits stride x y p"
  shows "k < 16 \<Longrightarrow> put_vals stride x y tv p ! blk_pos stride x y k = tv ! k"
    and "i < length p \<Longrightarrow> \<forall>k<16. i \<noteq> blk_pos stride x y k \<Longrightarrow> put_vals stride x y tv p ! i = p ! i"
  unfolding put_vals_def using nth_put_blk[OF assms] by simp_all

lemma put_blk_eqI:
  assumes "fits stride x y p" and "\<And>k. k < 16 \<Longrightarrow> q ! blk_pos stride x y k = g (k div 4) (k mod 4) (p ! blk_pos stride x y k)"
    and "\<And>i. i < length p \<Longrightarrow> \<forall>k<16. i \<noteq> blk_pos stride x y k \<Longrightarrow> q ! i = p ! i" and "length q = length p"
  shows "put_blk stride (y * stride + x) g p = q"
proof (rule nth_equalityI)
  fix i assume "i < length (put_blk stride (y * stride + x) g p)"
  then have i: "i < length p" by simp
  show "put_blk stride (y * stride + x) g p ! i = q ! i"
    using nth_put_blk[OF assms(1)] assms(2) assms(3)[OF i] i by (cases "\<exists>k<16. i = blk_pos stride x y k") auto
qed (simp add: assms(4))

text \<open>Applying the parsed block to the prediction is writing the values the encoder chose.\<close>

lemma put_blk_values:
  assumes "fits stride x y p"
  shows "put_blk stride (y * stride + x) (blk_fn b) p = put_vals stride x y (blk_values b (samples stride x y p)) p"
  by (rule put_blk_eqI[OF assms]) (simp_all add: nth_put_vals[OF assms] blk_values_def)

lemma put_vals_same:
  assumes "fits stride x y p"
  shows "put_vals stride x y (samples stride x y p) p = p"
proof (rule nth_equalityI)
  fix i assume "i < length (put_vals stride x y (samples stride x y p) p)"
  then show "put_vals stride x y (samples stride x y p) p ! i = p ! i"
    using nth_put_vals[OF assms] by (cases "\<exists>k<16. i = blk_pos stride x y k") auto
qed simp

section \<open>The loops of the block coder\<close>

lemma rc: "row < 4 \<Longrightarrow> col < 4 \<Longrightarrow> row * 4 + col < (16::nat)"
  by simp

lemma blk_pos_inj:
  assumes "x + 4 \<le> stride" and "j < 16" and "k < 16" and "blk_pos stride x y j = blk_pos stride x y k"
  shows "j = k"
proof -
  have "j div 4 = k div 4" "j mod 4 = k mod 4"
    using blk_pos_div_mod[OF assms(1,2), of y] blk_pos_div_mod[OF assms(1,3), of y] assms(4) by simp_all
  then show ?thesis by (metis div_mult_mod_eq)
qed

lemma okR_eq: "okR (\<lambda>x. x = v) m \<longleftrightarrow> m = Inr v"
  by (auto simp: okR_def)

lemma store_block_ok:
  assumes "fits stride x y recon"
  shows "store_block recon stride x y tv = Inr (put_vals stride x y tv recon)"
proof -
  have x: "x + 4 \<le> stride" using assms by (simp add: fits_def)
  let ?I = "\<lambda>n s. length s = length recon \<and>
    (\<forall>j<16. s ! blk_pos stride x y j = (if j < n then tv ! j else recon ! blk_pos stride x y j)) \<and>
    (\<forall>i<length recon. (\<forall>k<16. i \<noteq> blk_pos stride x y k) \<longrightarrow> s ! i = recon ! i)"
  have "okR (?I 16) (store_block recon stride x y tv)"
    unfolding store_block_def
  proof (rule okR_for4x4[where I = ?I])
    fix row col s assume r: "row < (4::nat)" "col < (4::nat)" and I: "?I (row * 4 + col) s"
    define k where "k = row * 4 + col"
    note I = I[folded k_def]
    have k: "k < 16" using r by (simp add: k_def)
    have pos: "(y + row) * stride + x + col = blk_pos stride x y k" using r by (simp add: blk_pos_rc k_def)
    have less: "blk_pos stride x y k < length s" using blk_pos_less[OF assms k] I by simp
    have 1: "s[blk_pos stride x y k := tv ! k] ! blk_pos stride x y j = (if j < k + 1 then tv ! j else recon ! blk_pos stride x y j)"
      if "j < 16" for j
    proof (cases "j = k")
      case True
      with less show ?thesis by simp
    next
      case False
      then have "blk_pos stride x y k \<noteq> blk_pos stride x y j" using blk_pos_inj[OF x k that] by metis
      then show ?thesis using I that False by (auto simp: less_Suc_eq)
    qed
    have 2: "s[blk_pos stride x y k := tv ! k] ! i = recon ! i" if "i < length recon" "\<forall>k<16. i \<noteq> blk_pos stride x y k" for i
      using I that k by (metis nth_list_update_neq)
    have "?I (k + 1) (s[blk_pos stride x y k := tv ! k])" using 1 2 I by simp
    then show "okR (?I (row * 4 + col + 1)) (store_at s ((y + row) * stride + x + col) (tv ! (row * 4 + col)))"
      using less unfolding pos k_def[symmetric] by (simp add: store_at_def)
  qed simp
  then have "okR (\<lambda>s. s = put_vals stride x y tv recon) (store_block recon stride x y tv)"
  proof (rule okR_mono)
    fix s assume "?I 16 s"
    then show "s = put_vals stride x y tv recon"
      unfolding put_vals_def by (intro put_blk_eqI[OF assms, symmetric]) auto
  qed
  then show ?thesis by (simp add: okR_eq)
qed

lemma delta_at_ok:
  "i < length src \<Longrightarrow> i < length pred \<Longrightarrow> delta_at src pred i = Inr (uint (src ! i) - uint (pred ! i))"
  by (simp add: delta_at_def)

definition blk_delta :: "byte list \<Rightarrow> byte list \<Rightarrow> nat \<Rightarrow> int" where
  "blk_delta sv pv k = uint (sv ! k) - uint (pv ! k)"

lemma push_raw_rows_ok:
  assumes "fits stride x y src"
  shows "push_raw_rows src stride x y out = Inr (out @ samples stride x y src)"
proof -
  have row: "slice_range src ((y + row) * stride + x) ((y + row) * stride + x + 4) =
      Inr (map (\<lambda>k. src ! blk_pos stride x y k) [row * 4..<row * 4 + 4])" if "row < 4" for row
  proof -
    have "(y + row) * stride + x + 3 < length src"
      using blk_pos_less[OF assms, of "row * 4 + 3"] that by (simp add: blk_pos_rc)
    then have "slice_range src ((y + row) * stride + x) ((y + row) * stride + x + 4) =
        Inr (map ((!) src) [(y + row) * stride + x..<(y + row) * stride + x + 4])"
      by (intro slice_range_nth) auto
    also have "map ((!) src) [(y + row) * stride + x..<(y + row) * stride + x + 4] =
        map (\<lambda>k. src ! blk_pos stride x y k) [row * 4..<row * 4 + 4]"
      by (rule map_row_eqI) (auto simp: blk_pos_rc)
    finally show ?thesis .
  qed
  have four: "[0..<4] = [0, 1, 2, 3 :: nat]" by (simp add: upt_rec)
  have all: "[0..<16] = [0..<4] @ [4..<8] @ [8..<12] @ [12..<(16::nat)]"
    by (simp add: upt_rec)
  define R where "R row = map (\<lambda>k. src ! blk_pos stride x y k) [row * 4..<row * 4 + 4]" for row
  have "samples stride x y src = R 0 @ R 1 @ R 2 @ R 3"
    unfolding samples_def all R_def by simp
  then show ?thesis
    using row[of 0, folded R_def] row[of 1, folded R_def] row[of 2, folded R_def] row[of 3, folded R_def]
    unfolding push_raw_rows_def four Let_def by simp
qed

section \<open>The lossless coder\<close>

lemma lossless_deltas:
  assumes "fits stride x y src" and "fits stride x y pred"
  shows "for4x4 (\<lambda>row col (constant_delta, equal). let idx = (y + row) * stride + x + col in
         bindR (delta_at src pred idx) (\<lambda>delta.
         Inr (if delta \<noteq> first then False else constant_delta, if delta \<noteq> 0 then False else equal)))
       (True, first = 0) =
    Inr (\<forall>k<16. blk_delta (samples stride x y src) (samples stride x y pred) k = first,
         first = 0 \<and> (\<forall>k<16. blk_delta (samples stride x y src) (samples stride x y pred) k = 0))"
proof -
  let ?d = "blk_delta (samples stride x y src) (samples stride x y pred)"
  let ?I = "\<lambda>n s. s = (\<forall>k<n. ?d k = first, first = 0 \<and> (\<forall>k<n. ?d k = 0))"
  have "okR (?I 16) (for4x4 (\<lambda>row col (constant_delta, equal). let idx = (y + row) * stride + x + col in
         bindR (delta_at src pred idx) (\<lambda>delta.
         Inr (if delta \<noteq> first then False else constant_delta, if delta \<noteq> 0 then False else equal)))
       (True, first = 0))"
  proof (rule okR_for4x4[where I = ?I])
    fix row col s assume r: "row < (4::nat)" "col < (4::nat)" and I: "?I (row * 4 + col) s"
    let ?k = "row * 4 + col"
    have k: "?k < 16" using r by simp
    have pos: "(y + row) * stride + x + col = blk_pos stride x y ?k" using r by (simp add: blk_pos_rc)
    have "delta_at src pred (blk_pos stride x y ?k) = Inr (?d ?k)"
      using blk_pos_less[OF assms(1) k] blk_pos_less[OF assms(2) k] k by (simp add: delta_at_ok blk_delta_def)
    then show "okR (?I (?k + 1)) (case s of (constant_delta, equal) \<Rightarrow> let idx = (y + row) * stride + x + col in
         bindR (delta_at src pred idx) (\<lambda>delta.
         Inr (if delta \<noteq> first then False else constant_delta, if delta \<noteq> 0 then False else equal)))"
      using I unfolding pos by (auto simp: less_Suc_eq Let_def)
  qed simp
  then show ?thesis by (simp only: okR_eq)
qed

lemma byte_eqI: "uint (a :: byte) = uint b \<Longrightarrow> a = b"
  by (rule word_uint_eqI)

lemma clip_u8_id: "clip_u8 (uint (b :: byte)) = b"
  using byte_range[of b] by (simp add: clip_u8_def clamp_int_def)

lemma dc_values:
  assumes "k < 16" and "length pv = 16"
  shows "blk_values (DcBlk (d * 8)) pv ! k = clip_u8 (uint (pv ! k) + d)"
proof -
  have "(d * 8 + 4) div 8 = d" by simp
  then show ?thesis using assms by (simp add: blk_values_def dc_fn_def)
qed

lemma raw_values: "length bs = 16 \<Longrightarrow> blk_values (RawBlk bs) pv = bs"
  by (rule nth_equalityI) (simp_all add: blk_values_def)

theorem lossless_block_payload_ok:
  assumes "fits stride x y src" and "fits stride x y pred"
  shows "\<exists>out bo. lossless_block_payload src pred stride x y = Inr (Some out) \<and>
    codes_block (if out = [] then None else Some out) bo (samples stride x y pred) (samples stride x y src)"
proof -
  let ?sv = "samples stride x y src" and ?pv = "samples stride x y pred"
  define first where "first = blk_delta ?sv ?pv 0"
  have "y * stride + x = blk_pos stride x y 0" by (simp add: blk_pos_def)
  then have f: "delta_at src pred (y * stride + x) = Inr first"
    using blk_pos_less[OF assms(1), of 0] blk_pos_less[OF assms(2), of 0] by (simp add: delta_at_ok blk_delta_def first_def)
  note run = lossless_deltas[OF assms, of first]
  consider (equal) "first = 0" "\<forall>k<16. blk_delta ?sv ?pv k = 0"
    | (raw) "\<not> (first = 0 \<and> (\<forall>k<16. blk_delta ?sv ?pv k = 0))" "\<not> (\<forall>k<16. blk_delta ?sv ?pv k = first)"
    | (dc) "\<not> (first = 0 \<and> (\<forall>k<16. blk_delta ?sv ?pv k = 0))" "\<forall>k<16. blk_delta ?sv ?pv k = first" by blast
  then show ?thesis
  proof cases
    case equal
    then have "?sv = ?pv" by (intro nth_equalityI byte_eqI) (auto simp: blk_delta_def)
    moreover have "lossless_block_payload src pred stride x y = Inr (Some [])"
      using equal unfolding lossless_block_payload_def f run bindR_simps prod.case by simp
    ultimately show ?thesis by (intro exI[of _ "[]"] exI[of _ None]) simp
  next
    case raw
    then have "lossless_block_payload src pred stride x y = Inr (Some (TAG_RAW_4X4 # ?sv))"
      unfolding lossless_block_payload_def f run bindR_simps prod.case by (simp add: push_raw_rows_ok[OF assms(1)])
    moreover have "codes_block (Some (TAG_RAW_4X4 # ?sv)) (Some (RawBlk ?sv)) ?pv ?sv"
      using codes_raw[of ?sv] by (simp add: raw_values)
    ultimately show ?thesis by (intro exI[of _ "TAG_RAW_4X4 # ?sv"] exI[of _ "Some (RawBlk ?sv)"]) simp
  next
    case dc
    have range: "- 255 \<le> first" "first \<le> 255"
      unfolding first_def blk_delta_def using byte_range[of "?sv ! 0"] byte_range[of "?pv ! 0"] by linarith+
    note c = codes_dc[OF range]
    have "?sv = blk_values (DcBlk (first * 8)) ?pv"
    proof (rule nth_equalityI)
      fix k assume "k < length ?sv"
      then have k: "k < 16" by simp
      with dc have "uint (?pv ! k) + first = uint (?sv ! k)" by (auto simp: blk_delta_def)
      then show "?sv ! k = blk_values (DcBlk (first * 8)) ?pv ! k" using dc_values[OF k, of ?pv] by (simp add: clip_u8_id)
    qed simp
    moreover have "lossless_block_payload src pred stride x y = Inr (Some (dc_payload first))"
      using dc unfolding lossless_block_payload_def f run bindR_simps prod.case by simp
    moreover have "dc_payload first \<noteq> []" using c by (simp add: codes_def)
    ultimately show ?thesis using c by (intro exI[of _ "dc_payload first"] exI[of _ "Some (DcBlk (first * 8))"]) simp
  qed
qed

end
