(* ===== verification/O3_EncLossy.thy ===== *)
theory O3_EncLossy
  imports O3_EncBlockLaws
begin

text \<open>
  The lossy coder: the encoder's inverse transform is the decoder's, the AC
  candidate is a payload for the samples it promises, and
  \<open>lossy_block_payload\<close> keeps reconstruction, distortion and counters true.
\<close>

section \<open>The encoder's inverse transform is the decoder's\<close>

lemma fold_update_all:
  assumes "n \<le> length xs"
  shows "fold (\<lambda>i out. out[i := f i]) [0..<n] xs = map f [0..<n] @ drop n xs"
  using assms
proof (induction n)
  case (Suc n)
  then have "drop n xs = xs ! n # drop (Suc n) xs" by (simp add: Cons_nth_drop_Suc)
  with Suc show ?case by (simp add: list_update_append)
qed simp

lemma idct_column:
  "(let a1 = wrap32 (c0 + c2); b1 = wrap32 (c0 - c2);
        c1v = wrap32 (wrap32 (c1 * 35468) div 65536 - c3); d1 = wrap32 (c1 + wrap32 (c3 * 35468) div 65536)
    in tmp[i0 := wrap32 (a1 + d1), i1 := wrap32 (b1 + c1v), i2 := wrap32 (b1 - c1v), i3 := wrap32 (a1 - d1)]) =
   (case idct_1d c0 c1 c2 c3 of (p, q, r, s) \<Rightarrow> tmp[i0 := p, i1 := q, i2 := r, i3 := s])"
  by (simp add: idct_1d_def Let_def)

lemma idct_row:
  "(let a1 = wrap32 (c0 + c2); b1 = wrap32 (c0 - c2);
        c1v = wrap32 (wrap32 (c1 * 35468) div 65536 - c3); d1 = wrap32 (c1 + wrap32 (c3 * 35468) div 65536);
        vals = [wrap32 (a1 + d1), wrap32 (b1 + c1v), wrap32 (b1 - c1v), wrap32 (a1 - d1)]
    in fold (\<lambda>col out. out[base + col := wrap32 (vals ! col + 4) div 8]) [0..<4] out) =
   (case idct_1d c0 c1 c2 c3 of (p, q, r, s) \<Rightarrow>
     out[base := wrap32 (p + 4) div 8, base + 1 := wrap32 (q + 4) div 8, base + 2 := wrap32 (r + 4) div 8,
         base + 3 := wrap32 (s + 4) div 8])"
  by (simp add: idct_1d_def Let_def upt_rec numeral_3_eq_3)

theorem idct_block_deltas_eq:
  "idct_block_deltas coeffs = map (\<lambda>v. wrap32 (v + 4) div 8) (idct_4x4 coeffs)"
proof -
  have four: "[0..<4] = [0, 1, 2, 3 :: nat]" by (simp add: upt_rec)
  obtain t0 t4 t8 t12 where c0: "idct_1d (coeffs ! 0) (coeffs ! 4) (coeffs ! 8) (coeffs ! 12) = (t0, t4, t8, t12)"
    by (rule prod_cases4)
  obtain t1 t5 t9 t13 where c1: "idct_1d (coeffs ! 1) (coeffs ! 5) (coeffs ! 9) (coeffs ! 13) = (t1, t5, t9, t13)"
    by (rule prod_cases4)
  obtain t2 t6 t10 t14 where c2: "idct_1d (coeffs ! 2) (coeffs ! 6) (coeffs ! 10) (coeffs ! 14) = (t2, t6, t10, t14)"
    by (rule prod_cases4)
  obtain t3 t7 t11 t15 where c3: "idct_1d (coeffs ! 3) (coeffs ! 7) (coeffs ! 11) (coeffs ! 15) = (t3, t7, t11, t15)"
    by (rule prod_cases4)
  obtain a0 a1 a2 a3 where r0: "idct_1d t0 t1 t2 t3 = (a0, a1, a2, a3)" by (rule prod_cases4)
  obtain a4 a5 a6 a7 where r1: "idct_1d t4 t5 t6 t7 = (a4, a5, a6, a7)" by (rule prod_cases4)
  obtain a8 a9 a10 a11 where r2: "idct_1d t8 t9 t10 t11 = (a8, a9, a10, a11)" by (rule prod_cases4)
  obtain a12 a13 a14 a15 where r3: "idct_1d t12 t13 t14 t15 = (a12, a13, a14, a15)" by (rule prod_cases4)
  have zs: "replicate 16 (0 :: int) = [0, 0, 0, 0, 0, 0, 0, 0, 0, 0, 0, 0, 0, 0, 0, 0]"
    by (simp add: numeral_eq_Suc)
  have "fold (\<lambda>col tmp. case idct_1d (coeffs ! col) (coeffs ! (4 + col)) (coeffs ! (8 + col)) (coeffs ! (12 + col)) of
      (p, q, r, s) \<Rightarrow> tmp[col := p, 4 + col := q, 8 + col := r, 12 + col := s]) [0..<4] (replicate 16 0) =
      [t0, t1, t2, t3, t4, t5, t6, t7, t8, t9, t10, t11, t12, t13, t14, t15]"
    by (simp add: four c0 c1[simplified] c2 c3 zs)
  then show ?thesis
    unfolding idct_block_deltas_def idct_column idct_row
    by (simp add: Let_def four r0 r1 r2 r3 idct_4x4_def c0 c1[simplified] c2 c3 zs)
qed

lemma idct_reconstruct_block_eq:
  assumes "length pv = 16"
  shows "idct_reconstruct_block pv coeffs = blk_values (IdctBlk coeffs) pv"
proof -
  have len: "length (idct_4x4 coeffs) = 16" by (simp add: idct_4x4_def split: prod.split)
  have "idct_reconstruct_block pv coeffs = map (\<lambda>i. clip_u8 (wrap32 (uint (pv ! i) + idct_block_deltas coeffs ! i))) [0..<16]"
    unfolding idct_reconstruct_block_def Let_def by (subst fold_update_all) simp_all
  moreover have "4 * (k div 4) + k mod 4 = k" for k :: nat by simp
  ultimately show ?thesis by (simp add: blk_values_def idct_fn_def idct_block_deltas_eq len)
qed

section \<open>Squared error\<close>

definition sq_err :: "byte \<Rightarrow> byte \<Rightarrow> nat" where
  "sq_err a b = nat ((uint a - uint b) * (uint a - uint b))"

definition sse :: "byte list \<Rightarrow> byte list \<Rightarrow> nat" where
  "sse sv tv = (\<Sum>k<16. sq_err (sv ! k) (tv ! k))"

lemma sse_same [simp]: "sse sv sv = 0"
  by (simp add: sse_def sq_err_def)

lemma fold_sum: "fold (\<lambda>i d. d + f i) [0..<n] d0 = d0 + (\<Sum>i<n. f i :: nat)"
  by (induction n) auto

lemma block_sse_eq: "length sv = 16 \<Longrightarrow> block_sse (map uint sv) tv = sse sv tv"
  unfolding block_sse_def Let_def fold_sum by (simp add: sse_def sq_err_def)

section \<open>The AC candidate\<close>

lemma fold_inv:
  assumes "I s" and "\<And>x s. x \<in> set xs \<Longrightarrow> I s \<Longrightarrow> I (f x s)"
  shows "I (fold f xs s)"
  using assms by (induction xs arbitrary: s) auto

lemma ac_choices_range:
  "\<forall>(gain, zz, coeff)\<in>set (ac_choices residual). 0 < zz \<and> zz < 16 \<and> - 127 \<le> coeff \<and> coeff \<le> 127"
proof -
  have c: "- 127 \<le> clamp_int v (- 127) 127 \<and> clamp_int v (- 127) 127 \<le> 127" for v
    by (rule clamp_int_bounds) simp
  show ?thesis
    unfolding ac_choices_def
  proof (rule fold_inv[where I = "\<lambda>ac. \<forall>(gain, zz, coeff)\<in>set ac. 0 < zz \<and> zz < 16 \<and> - 127 \<le> coeff \<and> coeff \<le> 127"],
      goal_cases)
    case (2 zz ac)
    then show ?case using c by (auto simp: Let_def split: prod.split if_splits)
  qed simp
qed

lemma set_sort_choices [simp]: "set (sort_choices ac) = set ac"
  by (simp add: sort_choices_def)

text \<open>What the fold over the chosen coefficients keeps: a block whose nonzero places are in the mask.\<close>

definition ac_inv :: "int list \<times> u16 \<Rightarrow> bool" where
  "ac_inv = (\<lambda>(coeffs, m). length coeffs = 16 \<and> (\<forall>c\<in>set coeffs. fits_i8 c) \<and>
     (\<forall>k<16. \<not> bit m k \<longrightarrow> coeffs ! (ZIGZAG ! k) = 0))"

lemma ac_inv_start: "fits_i8 dc \<Longrightarrow> ac_inv ((replicate 16 0)[0 := dc], 1)"
proof -
  assume dc: "fits_i8 dc"
  have "(replicate 16 0)[0 := dc] ! (ZIGZAG ! k) = 0" if "k < 16" "k \<noteq> 0" for k
  proof -
    have "ZIGZAG ! k \<noteq> ZIGZAG ! 0"
      using that distinct_ZIGZAG by (subst nth_eq_iff_index_eq) auto
    then have "ZIGZAG ! k \<noteq> 0" by (simp add: ZIGZAG_def)
    then show ?thesis using ZIGZAG_less[OF that(1)] by simp
  qed
  moreover have "\<forall>c\<in>set ((replicate 16 0)[0 := dc]). fits_i8 c"
    using dc set_update_subset_insert[of "replicate 16 0" 0 dc] by (auto simp: fits_i8_def)
  ultimately show ?thesis by (auto simp: ac_inv_def bit_1_iff)
qed

lemma ac_inv_step:
  assumes "ac_inv (coeffs, m)" and "zz < 16" and "fits_i8 c"
  shows "ac_inv (coeffs[ZIGZAG ! zz := c], m OR push_bit zz 1)"
proof -
  have "\<forall>c\<in>set (coeffs[ZIGZAG ! zz := c]). fits_i8 c"
    using assms set_update_subset_insert[of coeffs "ZIGZAG ! zz" c] by (auto simp: ac_inv_def)
  moreover have "coeffs[ZIGZAG ! zz := c] ! (ZIGZAG ! k) = 0" if "k < 16" "\<not> bit (m OR push_bit zz 1) k" for k
  proof -
    have "k \<noteq> zz" "\<not> bit m k" using that assms(2) by (auto simp: bit_simps)
    then have "ZIGZAG ! zz \<noteq> ZIGZAG ! k"
      using that assms(2) distinct_ZIGZAG by (subst nth_eq_iff_index_eq) auto
    then show ?thesis using assms(1) that(1) \<open>\<not> bit m k\<close> by (simp add: ac_inv_def)
  qed
  ultimately show ?thesis using assms(1) by (simp add: ac_inv_def)
qed

lemma ac_inv_fold:
  assumes "ac_inv s" and "\<forall>(gain, zz, coeff)\<in>set ac. zz < 16 \<and> fits_i8 coeff"
  shows "ac_inv (fold (\<lambda>(_, zz, coeff) (coeffs, nz_mask). (coeffs[ZIGZAG ! zz := coeff], nz_mask OR push_bit zz 1)) ac s)"
  using assms(1)
proof (rule fold_inv)
  fix x s assume "x \<in> set ac" "ac_inv s"
  then show "ac_inv ((\<lambda>(_, zz, coeff) (coeffs, nz_mask). (coeffs[ZIGZAG ! zz := coeff], nz_mask OR push_bit zz 1)) x s)"
    using assms(2) ac_inv_step by (cases x; cases s) auto
qed

lemma and_push_bit_1:
  assumes "n < LENGTH('a)"
  shows "m AND push_bit n 1 = 0 \<longleftrightarrow> \<not> bit (m :: 'a::len word) n"
proof -
  have "bit (m AND push_bit n 1) k \<longleftrightarrow> k = n \<and> bit m n" for k
    using assms by (auto simp: bit_simps bit_1_iff)
  then show ?thesis
    using assms by (simp add: bit_eq_iff[of _ "0 :: 'a word"] del: push_bit_of_1)
qed

lemma ac_bytes_fold:
  "fold (\<lambda>zz bytes. if m AND push_bit zz 1 \<noteq> 0 then bytes @ [f zz] else bytes) [0..<16] bs =
    bs @ map f (set_bits_of (m :: u16))"
proof -
  have b: "m AND push_bit zz 1 \<noteq> 0 \<longleftrightarrow> bit m zz" if "zz < 16" for zz
    using that and_push_bit_1[of zz m] by simp
  have "n \<le> 16 \<Longrightarrow> fold (\<lambda>zz bytes. if m AND push_bit zz 1 \<noteq> 0 then bytes @ [f zz] else bytes) [0..<n] bs =
      bs @ map f (filter (bit m) [0..<n])" for n
    by (induction n) (auto simp: b simp del: push_bit_of_1)
  from this[of 16] show ?thesis by (simp add: set_bits_of_def)
qed

section \<open>Gathering the samples of a block\<close>

lemma fill_step:
  "k < n \<Longrightarrow> (map f [0..<k] @ replicate (n - k) z)[k := f k] = map f [0..<Suc k] @ replicate (n - Suc k) z"
  by (cases "n - k") (simp_all add: list_update_append flip: Suc_diff_Suc)

lemma gather_ok:
  assumes "fits stride x y src" and "fits stride x y pred"
  shows "for4x4 (\<lambda>row col (src_values, pred_values).
      let src_idx = (y + row) * stride + x + col; block_idx = row * 4 + col in
      bindR (load_at src src_idx) (\<lambda>s. bindR (load_at pred src_idx) (\<lambda>p.
      Inr (src_values[block_idx := uint s], pred_values[block_idx := p]))))
    (replicate 16 0, replicate 16 0) = Inr (map uint (samples stride x y src), samples stride x y pred)"
  (is "for4x4 ?f _ = _")
proof -
  let ?I = "\<lambda>n s. s = (map (\<lambda>k. uint (src ! blk_pos stride x y k)) [0..<n] @ replicate (16 - n) 0,
    map (\<lambda>k. pred ! blk_pos stride x y k) [0..<n] @ replicate (16 - n) 0)"
  have "okR (?I 16) (for4x4 ?f (replicate 16 0, replicate 16 0))"
  proof (rule okR_for4x4[where I = ?I])
    fix row col s assume r: "row < (4::nat)" "col < (4::nat)" and I: "?I (row * 4 + col) s"
    let ?k = "row * 4 + col"
    have k: "?k < 16" using r by simp
    have pos: "(y + row) * stride + x + col = blk_pos stride x y ?k" using r by (simp add: blk_pos_rc)
    show "okR (?I (?k + 1)) (?f row col s)"
      unfolding I prod.case pos Let_def
      using blk_pos_less[OF assms(1) k] blk_pos_less[OF assms(2) k]
      by (simp only: load_at_ok bindR_simps okR_Inr Suc_eq_plus1 simp_thms
          fill_step[OF k, of "\<lambda>k. uint (src ! blk_pos stride x y k)"] fill_step[OF k, of "\<lambda>k. pred ! blk_pos stride x y k"])
  qed simp
  then show ?thesis by (simp add: okR_eq samples_def comp_def)
qed


section \<open>The candidate is a payload for the samples it promises\<close>

definition good_candidate :: "byte list \<Rightarrow> byte list \<Rightarrow> ac_candidate \<Rightarrow> bool" where
  "good_candidate sv pv ac \<longleftrightarrow> (\<exists>coeffs. codes (ac_bytes ac) (IdctBlk coeffs) \<and> ac_values ac = blk_values (IdctBlk coeffs) pv) \<and>
     ac_distortion ac = sse sv (ac_values ac) \<and>
     ac_distortion ac \<le> QUALITY_AC_MAX_BLOCK_SSE \<and> length (ac_bytes ac) \<le> QUALITY_AC_MAX_PAYLOAD_BYTES"

lemma good_candidateI:
  assumes inv: "ac_inv (coeffs, m)" and "length sv = 16" and "length pv = 16"
    and "sse sv (blk_values (IdctBlk coeffs) pv) \<le> QUALITY_AC_MAX_BLOCK_SSE"
    and "1 + 2 + count_ones m \<le> QUALITY_AC_MAX_PAYLOAD_BYTES"
  shows "good_candidate sv pv \<lparr>ac_bytes = fold (\<lambda>zz bytes. if m AND push_bit zz 1 \<noteq> 0
        then bytes @ [word_of_int (coeffs ! (ZIGZAG ! zz))] else bytes) [0..<16] (TAG_AC_MASK_S8 # to_le_bytes 2 m),
      ac_values = blk_values (IdctBlk coeffs) pv, ac_distortion = sse sv (blk_values (IdctBlk coeffs) pv)\<rparr>"
proof -
  have "codes (TAG_AC_MASK_S8 # to_le_bytes 2 m @ map (\<lambda>k. word_of_int (coeffs ! (ZIGZAG ! k))) (set_bits_of m)) (IdctBlk coeffs)"
    using inv by (intro codes_ac) (auto simp: ac_inv_def)
  then show ?thesis
    unfolding good_candidate_def ac_bytes_fold using assms by (auto simp: count_ones_def)
qed

lemma okR_if_None: "(\<not> b \<Longrightarrow> okR (pred_option P) m) \<Longrightarrow> okR (pred_option P) (if b then Inr None else m)"
  by simp

lemma quality_ac_mask_candidate_ok:
  assumes "fits stride x y src" and "fits stride x y pred"
  shows "okR (pred_option (good_candidate (samples stride x y src) (samples stride x y pred)))
    (quality_ac_mask_candidate src pred stride x y dc_delta dc_distortion)"
proof -
  let ?sv = "samples stride x y src" and ?pv = "samples stride x y pred"
  define coeffs0 where "coeffs0 = (replicate 16 0)[0 := dc_delta * 8]"
  define residual where
    "residual = map (\<lambda>i. map uint ?sv ! i - uint (blk_values (IdctBlk coeffs0) ?pv ! i)) [0..<16]"
  define taken where "taken = take QUALITY_AC_MAX_EXTRA_COEFFS (sort_choices (ac_choices residual))"
  obtain coeffs m where c: "fold (\<lambda>(_, zz, coeff) (coeffs, nz_mask).
      (coeffs[ZIGZAG ! zz := coeff], nz_mask OR push_bit zz 1)) taken (coeffs0, 1 :: u16) = (coeffs, m)" by fastforce
  have "set taken \<subseteq> set (ac_choices residual)"
    using set_take_subset[of QUALITY_AC_MAX_EXTRA_COEFFS "sort_choices (ac_choices residual)"] by (simp add: taken_def)
  then have "\<forall>(gain, zz, coeff)\<in>set taken. zz < 16 \<and> fits_i8 coeff"
    using ac_choices_range[of residual] by (fastforce simp: fits_i8_def)
  then have inv: "ac_inv (coeffs, m)" if "fits_i8 (dc_delta * 8)"
    using ac_inv_fold[of "(coeffs0, 1)" taken] ac_inv_start[OF that] c by (simp add: coeffs0_def)
  have len: "length ?pv = 16" "length ?sv = 16" by simp_all
  show ?thesis
    unfolding quality_ac_mask_candidate_def gather_ok[OF assms] bindR_simps prod.case
    unfolding Let_def coeffs0_def[symmetric] residual_def[symmetric] taken_def[symmetric] O3YV_ZIGZAG_eq c prod.case
      idct_reconstruct_block_eq[OF len(1)] block_sse_eq[OF len(2)]
  proof (intro okR_if_None)
    assume "\<not> \<not> fits_i8 (dc_delta * 8)"
      "\<not> (QUALITY_AC_MAX_BLOCK_SSE < sse ?sv (blk_values (IdctBlk coeffs) ?pv) \<or>
          dc_distortion - sse ?sv (blk_values (IdctBlk coeffs) ?pv) < QUALITY_AC_MIN_SSE_GAIN)"
      "\<not> QUALITY_AC_MAX_PAYLOAD_BYTES < 1 + 2 + count_ones m"
    then show "okR (pred_option (good_candidate ?sv ?pv)) (Inr (Some \<lparr>ac_bytes = fold (\<lambda>zz bytes. if m AND push_bit zz 1 \<noteq> 0
        then bytes @ [word_of_int (coeffs ! (ZIGZAG ! zz))] else bytes) [0..<16] (TAG_AC_MASK_S8 # to_le_bytes 2 m),
      ac_values = blk_values (IdctBlk coeffs) ?pv, ac_distortion = sse ?sv (blk_values (IdctBlk coeffs) ?pv)\<rparr>))"
      unfolding okR_Inr option.pred_inject using inv len by (intro good_candidateI) auto
  qed
qed


section \<open>The lossy block\<close>

fun count_blk :: "blk option \<Rightarrow> residual_counts \<Rightarrow> residual_counts" where
  "count_blk None st = st"
| "count_blk (Some (RawBlk _)) st = st\<lparr>rs_raw_4x4_blocks := rs_raw_4x4_blocks st + 1\<rparr>"
| "count_blk (Some (DcBlk _)) st = st\<lparr>rs_dc_only_blocks := rs_dc_only_blocks st + 1\<rparr>"
| "count_blk (Some (IdctBlk _)) st =
     st\<lparr>rs_ac_mask_blocks := rs_ac_mask_blocks st + 1, rs_full_idct_blocks := rs_full_idct_blocks st + 1\<rparr>"

definition dc_tv :: "byte list \<Rightarrow> int \<Rightarrow> byte list" where
  "dc_tv pv delta = map (\<lambda>k. clip_u8 (uint (pv ! k) + delta)) [0..<16]"

lemma dc_tv_0: "length pv = 16 \<Longrightarrow> dc_tv pv 0 = pv"
  by (intro nth_equalityI) (simp_all add: dc_tv_def)

lemma dc_tv_blk: "length pv = 16 \<Longrightarrow> dc_tv pv delta = blk_values (DcBlk (delta * 8)) pv"
  by (intro nth_equalityI) (simp_all add: dc_tv_def dc_values)

lemma sum_loop_ok:
  assumes "fits stride x y src" and "fits stride x y pred"
  shows "returns (for4x4 (\<lambda>row col sum. bindR (delta_at src pred ((y + row) * stride + x + col)) (\<lambda>d. Inr (sum + d))) (0 :: int))"
proof (rule okR_for4x4[where I = "\<lambda>_ _. True"])
  fix row col sum assume r: "row < (4 :: nat)" "col < (4 :: nat)"
  have k: "row * 4 + col < 16" using r by simp
  have pos: "(y + row) * stride + x + col = blk_pos stride x y (row * 4 + col)" using r by (simp add: blk_pos_rc)
  show "returns (bindR (delta_at src pred ((y + row) * stride + x + col)) (\<lambda>d. Inr (sum + d)))"
    unfolding pos using blk_pos_less[OF assms(1) k] blk_pos_less[OF assms(2) k] by (simp add: delta_at_ok)
qed simp

lemma dc_loop_ok:
  assumes "fits stride x y src" and "fits stride x y pred"
  shows "for4x4 (\<lambda>row col (dc_values, dc_distortion). let idx = (y + row) * stride + x + col in
         bindR (load_at pred idx) (\<lambda>p. let value = clip_u8 (uint p + delta) in
         bindR (load_at src idx) (\<lambda>s. let err = uint s - uint value in
         Inr (dc_values[row * 4 + col := value], dc_distortion + nat (err * err)))))
       (replicate 16 0, 0) =
    Inr (dc_tv (samples stride x y pred) delta, sse (samples stride x y src) (dc_tv (samples stride x y pred) delta))"
  (is "for4x4 ?f _ = _")
proof -
  define v where "v k = clip_u8 (uint (pred ! blk_pos stride x y k) + delta)" for k
  let ?I = "\<lambda>n s. s = (map v [0..<n] @ replicate (16 - n) 0, \<Sum>k<n. sq_err (src ! blk_pos stride x y k) (v k))"
  have "okR (?I 16) (for4x4 ?f (replicate 16 0, 0))"
  proof (rule okR_for4x4[where I = ?I])
    fix row col s assume r: "row < (4::nat)" "col < (4::nat)" and I: "?I (row * 4 + col) s"
    define k where "k = row * 4 + col"
    have k: "k < 16" using r by (simp add: k_def)
    have pos: "(y + row) * stride + x + col = blk_pos stride x y k" using r by (simp add: blk_pos_rc k_def)
    show "okR (?I (row * 4 + col + 1)) (?f row col s)"
      unfolding I prod.case pos Let_def k_def[symmetric]
      using blk_pos_less[OF assms(1) k] blk_pos_less[OF assms(2) k]
      by (simp only: load_at_ok bindR_simps okR_Inr v_def[symmetric] Suc_eq_plus1[symmetric] fill_step[OF k, of v] sum.lessThan_Suc
          sq_err_def simp_thms)
  qed simp
  moreover have "dc_tv (samples stride x y pred) delta = map v [0..<16]" by (simp add: dc_tv_def v_def)
  moreover have "sse (samples stride x y src) (map v [0..<16]) = (\<Sum>k<16. sq_err (src ! blk_pos stride x y k) (v k))"
    unfolding sse_def by (intro sum.cong) simp_all
  ultimately show ?thesis by (simp add: okR_eq)
qed

lemma nth_copy_from_slice:
  assumes "copy_from_slice d a b xs = Inr d'"
  shows "i < length d \<Longrightarrow> d' ! i = (if a \<le> i \<and> i < b then xs ! (i - a) else d ! i)" and "length d' = length d"
  using assms by (auto simp: copy_from_slice_def nth_append min_def split: if_splits)

lemma raw_loop_ok:
  assumes "fits stride x y src" and "fits stride x y recon"
  shows "forR (\<lambda>row (out, recon).
               let src_off = (y + row) * stride + x; dst_off = (y + row) * stride + x in
               bindR (slice_range src src_off (src_off + 4)) (\<lambda>s.
               bindR (copy_from_slice recon dst_off (dst_off + 4) s) (\<lambda>recon. Inr (out @ s, recon))))
             [0..<4] (out0, recon) =
    Inr (out0 @ samples stride x y src, put_vals stride x y (samples stride x y src) recon)"
  (is "forR ?f _ _ = _")
proof -
  have x: "x + 4 \<le> stride" using assms by (simp add: fits_def)
  let ?p = "blk_pos stride x y"
  let ?I = "\<lambda>row (out, r). out = out0 @ map (\<lambda>k. src ! ?p k) [0..<row * 4] \<and> length r = length recon \<and>
    (\<forall>j<16. r ! ?p j = (if j < row * 4 then src ! ?p j else recon ! ?p j)) \<and>
    (\<forall>i<length recon. (\<forall>k<16. i \<noteq> ?p k) \<longrightarrow> r ! i = recon ! i)"
  have "okR (?I 4) (forR ?f [0..<4] (out0, recon))"
  proof (rule okR_forR_upt[where I = ?I])
    fix row s assume row: "row < 4" and I: "?I row s"
    obtain out r where s: "s = (out, r)" by fastforce
    let ?o = "(y + row) * stride + x"
    have p: "?p (row * 4 + c) = ?o + c" if "c < 4" for c using that by (rule blk_pos_rc)
    have less: "?o + 3 < length src" "?o + 3 < length recon"
      using blk_pos_less[OF assms(1), of "row * 4 + 3"] blk_pos_less[OF assms(2), of "row * 4 + 3"] row by (simp_all add: p)
    have sl: "slice_range src ?o (?o + 4) = Inr (map ((!) src) [?o..<?o + 4])" using less by (intro slice_range_nth) auto
    have "map ((!) src) [?o..<?o + 4] = map (\<lambda>k. src ! ?p k) [row * 4..<row * 4 + 4]"
      by (rule map_row_eqI) (auto simp: blk_pos_rc)
    moreover have "[0..<Suc row * 4] = [0..<row * 4] @ [row * 4..<row * 4 + 4]"
      using upt_add_eq_append[of 0 "row * 4" 4] by (simp add: add.commute)
    ultimately have out: "out @ map ((!) src) [?o..<?o + 4] = out0 @ map (\<lambda>k. src ! ?p k) [0..<Suc row * 4]"
      using I by (simp add: s)
    obtain r' where r': "copy_from_slice r ?o (?o + 4) (map ((!) src) [?o..<?o + 4]) = Inr r'"
      using less I by (auto simp: s copy_from_slice_def)
    note nth = nth_copy_from_slice[OF r']
    have len: "length r' = length recon" using I nth(2) by (simp add: s)
    have 1: "r' ! ?p j = (if j < Suc row * 4 then src ! ?p j else recon ! ?p j)" if j: "j < 16" for j
    proof (cases "j div 4 = row")
      case True
      then have e: "j = row * 4 + j mod 4" by (metis div_mult_mod_eq)
      then have "?p j = ?o + j mod 4" using p[of "j mod 4"] by simp
      moreover have "?p j < length r" using blk_pos_less[OF assms(2) j] I by (simp add: s)
      moreover have "j mod 4 < 4" by simp
      moreover have "j < Suc row * 4" using less_add_one div_less_iff_less_mult[of 4 j "Suc row"] True by simp
      ultimately show ?thesis using nth(1)[of "?p j"] by (simp del: mult_Suc)
    next
      case False
      have "\<not> (?o \<le> ?p j \<and> ?p j < ?o + 4)"
      proof
        assume "?o \<le> ?p j \<and> ?p j < ?o + 4"
        then obtain c where c: "?p j = ?o + c" "c < 4" by (metis le_Suc_ex nat_add_left_cancel_less)
        then have "?p j = ?p (row * 4 + c)" by (simp add: p)
        then have "j = row * 4 + c" using blk_pos_inj[OF x j, of "row * 4 + c" y] row c(2) by simp
        with c(2) False show False by simp
      qed
      moreover have "?p j < length r" using blk_pos_less[OF assms(2) j] I by (simp add: s)
      ultimately have "r' ! ?p j = r ! ?p j" using nth(1)[of "?p j"] by auto
      moreover have "j < Suc row * 4 \<longleftrightarrow> j < row * 4" using False by auto
      ultimately show ?thesis using I j by (simp only: s prod.case)
    qed
    have 2: "r' ! i = recon ! i" if i: "i < length recon" "\<forall>k<16. i \<noteq> ?p k" for i
    proof -
      have "\<not> (?o \<le> i \<and> i < ?o + 4)"
      proof
        assume "?o \<le> i \<and> i < ?o + 4"
        then obtain c where c: "i = ?o + c" "c < 4" by (metis le_Suc_ex nat_add_left_cancel_less)
        then show False using i(2) p[OF c(2)] row by (metis add_less_mono less_Suc_eq_le rc)
      qed
      then have "r' ! i = r ! i" using nth(1)[of i] I i(1) by (auto simp: s)
      then show ?thesis using I i by (simp only: s prod.case)
    qed
    show "okR (?I (Suc row)) (?f row s)"
      unfolding s prod.case Let_def sl bindR_simps r' okR_Inr using out len 1 2 by blast
  qed simp_all
  then show ?thesis
  proof (rule okR_mono[where Q = "\<lambda>s. s = (out0 @ samples stride x y src, put_vals stride x y (samples stride x y src) recon)",
        unfolded okR_eq])
    fix s assume "?I 4 s"
    then show "s = (out0 @ samples stride x y src, put_vals stride x y (samples stride x y src) recon)"
      unfolding put_vals_def by (auto simp: samples_def split: prod.splits intro!: put_blk_eqI[OF assms(2), symmetric])
  qed
qed


definition lossy_result ::
  "nat \<Rightarrow> nat \<Rightarrow> nat \<Rightarrow> byte list \<Rightarrow> byte list \<Rightarrow> byte list \<Rightarrow> nat \<Rightarrow> residual_counts \<Rightarrow>
    byte list option \<times> byte list \<times> nat \<times> residual_counts \<Rightarrow> bool" where
  "lossy_result stride x y src pred recon distortion stats = (\<lambda>(ob, recon', distortion', stats').
     \<exists>bo tv. codes_block ob bo (samples stride x y pred) tv \<and> length tv = 16 \<and>
       recon' = put_vals stride x y tv recon \<and> distortion' = distortion + sse (samples stride x y src) tv \<and>
       stats' = count_blk bo stats)"

theorem lossy_block_payload_ok:
  assumes "fits stride x y src" and "fits stride x y pred" and "fits stride x y recon"
  shows "okR (lossy_result stride x y src pred recon distortion stats)
    (lossy_block_payload src pred recon stride x y q_step threshold distortion stats)"
proof -
  let ?sv = "samples stride x y src" and ?pv = "samples stride x y pred"
  obtain sum where sum: "for4x4 (\<lambda>row col sum. bindR (delta_at src pred ((y + row) * stride + x + col)) (\<lambda>d. Inr (sum + d))) 0 = Inr sum"
    using sum_loop_ok[OF assms(1,2)] by (auto simp: returns_iff)
  define delta where "delta = quantize_delta (wrap16 (round_div_i32 sum 16)) q_step"
  have range: "- 255 \<le> delta" "delta \<le> 255" unfolding delta_def using quantize_delta_range by blast+
  define dcd where "dcd = sse ?sv (dc_tv ?pv delta)"
  have pv: "length ?pv = 16" by simp
  obtain cand where cand: "quality_ac_mask_candidate src pred stride x y delta dcd = Inr cand"
    and good: "pred_option (good_candidate ?sv ?pv) cand"
    using quality_ac_mask_candidate_ok[OF assms(1,2), of delta dcd] by (auto simp: okR_def)
  note run = lossy_block_payload_def sum bindR_simps Let_def[of "wrap16 _"] Let_def[of "quantize_delta _ _"] delta_def[symmetric]
    dc_loop_ok[OF assms(1,2)] prod.case dcd_def[symmetric] cand raw_loop_ok[OF assms(1,3)] store_block_ok[OF assms(3)]
  show ?thesis
  proof (cases "case threshold of Some t \<Rightarrow> dcd \<ge> t | None \<Rightarrow> False")
    case dc: False
    then show ?thesis
    proof (cases "delta = 0")
      case True
      then show ?thesis
        unfolding run if_not_P[OF dc] if_P[OF True] okR_Inr lossy_result_def
        by (intro exI[of _ None] exI[of _ ?pv]) (simp add: dc_tv_0 dcd_def)
    next
      case False
      then show ?thesis
        unfolding run if_not_P[OF dc] if_not_P[OF False] okR_Inr lossy_result_def
        by (intro exI[of _ "Some (DcBlk (delta * 8))"] exI[of _ "dc_tv ?pv delta"])
          (simp add: codes_dc range dc_tv_blk[OF pv] dcd_def)
    qed
  next
    case high: True
    show ?thesis
    proof (cases "case cand of Some ac \<Rightarrow> if quality_ac_beats_raw_4x4 ac then Some ac else None | None \<Rightarrow> None")
      case None
      show ?thesis
        unfolding run if_P[OF high] None option.case okR_Inr lossy_result_def
        using codes_raw[of ?sv] raw_values[of ?sv]
        by (intro exI[of _ "Some (RawBlk ?sv)"] exI[of _ ?sv]) simp
    next
      case (Some ac)
      then have "good_candidate ?sv ?pv ac" using good by (cases cand) (auto split: if_splits)
      then obtain coeffs where "codes (ac_bytes ac) (IdctBlk coeffs)" "ac_values ac = blk_values (IdctBlk coeffs) ?pv"
        "ac_distortion ac = sse ?sv (ac_values ac)" by (auto simp: good_candidate_def)
      then show ?thesis
        unfolding run if_P[OF high] Some option.case okR_Inr lossy_result_def
        by (intro exI[of _ "Some (IdctBlk coeffs)"] exI[of _ "ac_values ac"]) simp
    qed
  qed
qed

end
