(* ===== verification/O3_EncSearch.thy ===== *)
theory O3_EncSearch
  imports O3_EncLossy
begin

text \<open>
  The encoder's searches: the base vector of a tile, an exact copy for a
  macroblock, the best vectors for copies and splits. The search over a window
  is a fold that keeps the first minimum (\<open>window_search_ok\<close>), the exact search
  is complete (\<open>find_exact_copy_ok\<close>), and no search panics on well-formed
  frames.
\<close>

section \<open>Loops that stop early\<close>

text \<open>\<open>allR\<close> is a loop that returns \<open>false\<close> at the first failing test, \<open>firstR\<close> one that returns the first hit.\<close>

primrec allR :: "('a \<Rightarrow> bool result) \<Rightarrow> 'a list \<Rightarrow> bool result" where
  "allR f [] = Inr True"
| "allR f (x # xs) = bindR (f x) (\<lambda>b. if b then allR f xs else Inr False)"

primrec firstR :: "('a \<Rightarrow> 'b option result) \<Rightarrow> 'a list \<Rightarrow> 'b option result" where
  "firstR f [] = Inr None"
| "firstR f (x # xs) = bindR (f x) (\<lambda>hit. case hit of Some y \<Rightarrow> Inr (Some y) | None \<Rightarrow> firstR f xs)"

lemma allR_ok: "(\<And>x. x \<in> set xs \<Longrightarrow> f x = Inr (P x)) \<Longrightarrow> allR f xs = Inr (\<forall>x\<in>set xs. P x)"
  by (induction xs) auto

lemma firstR_ok:
  assumes "\<And>x. x \<in> set xs \<Longrightarrow> okR (\<lambda>hit. case hit of Some y \<Rightarrow> Q y | None \<Rightarrow> N x) (f x)"
  shows "okR (\<lambda>hit. case hit of Some y \<Rightarrow> Q y | None \<Rightarrow> \<forall>x\<in>set xs. N x) (firstR f xs)"
  using assms
proof (induction xs)
  case (Cons x xs)
  then have IH: "okR (\<lambda>hit. case hit of Some y \<Rightarrow> Q y | None \<Rightarrow> \<forall>x\<in>set xs. N x) (firstR f xs)" by simp
  have "okR (\<lambda>hit. case hit of Some y \<Rightarrow> Q y | None \<Rightarrow> N x) (f x)" using Cons.prems by simp
  then show ?case
    unfolding firstR.simps
  proof (rule okR_bind)
    fix hit assume "case hit of Some y \<Rightarrow> Q y | None \<Rightarrow> N x"
    then show "okR (\<lambda>hit. case hit of Some y \<Rightarrow> Q y | None \<Rightarrow> \<forall>x\<in>set (x # xs). N x)
        (case hit of Some y \<Rightarrow> Inr (Some y) | None \<Rightarrow> firstR f xs)"
      using IH by (cases hit) (auto split: option.splits elim!: okR_mono)
  qed
qed simp

lemma okR_sum:
  assumes "\<And>k s. k \<in> set ks \<Longrightarrow> okR (\<lambda>s'. s' \<le> s + b) (f k s)"
  shows "okR (\<lambda>s'. s' \<le> s + length ks * b) (forR f ks (s :: nat))"
  using assms
proof (induction ks arbitrary: s)
  case (Cons k ks)
  show ?case
    unfolding forR.simps
  proof (rule okR_bind[OF Cons.prems])
    fix s' assume s': "s' \<le> s + b"
    have "okR (\<lambda>t. t \<le> s' + length ks * b) (forR f ks s')" using Cons.prems by (intro Cons.IH) simp
    then show "okR (\<lambda>t. t \<le> s + length (k # ks) * b) (forR f ks s')" by (rule okR_mono) (use s' in simp)
  qed simp
qed simp

lemma forR_nested: "forR (\<lambda>y. forR (g y) xs) ys = forR (\<lambda>(y, x). g y x) (List.product ys xs)"
proof (induction ys)
  case (Cons y ys)
  have "forR (\<lambda>(y, x). g y x) (map (Pair y) xs) = forR (g y) xs"
  proof (induction xs)
    case (Cons x xs)
    then show ?case by (intro ext) simp
  qed simp
  with Cons show ?case by (intro ext) (simp add: forR_append)
qed simp

section \<open>Displaced samples\<close>

definition mv_of :: "int \<Rightarrow> int \<Rightarrow> mv" where
  "mv_of x y = \<lparr>mvX = word_of_int x, mvY = word_of_int y\<rparr>"

definition displaced :: "nat \<Rightarrow> nat \<Rightarrow> int \<Rightarrow> int \<Rightarrow> nat \<Rightarrow> nat \<Rightarrow> nat" where
  "displaced w h mx my x y =
     (let sx = nat (clamp_int (int x + mx) 0 (int w - 1)); sy = nat (clamp_int (int y + my) 0 (int h - 1)) in sy * w + sx)"

definition abs_diff_at :: "byte list \<Rightarrow> nat \<Rightarrow> byte list \<Rightarrow> nat \<Rightarrow> nat result" where
  "abs_diff_at a i b j = bindR (load_at a i) (\<lambda>u. bindR (load_at b j) (\<lambda>v. Inr (nat \<bar>uint u - uint v\<bar>)))"

lemma displaced_less: "0 < w \<Longrightarrow> 0 < h \<Longrightarrow> displaced w h mx my x y < w * h"
  unfolding displaced_def Let_def by (intro index_bound nat_clamp_less)

lemma displaced_mc_index: "x < w \<Longrightarrow> displaced w h mx my x y = mc_index w h mx my (y * w + x)"
  using row_div_mod[of x w y] by (simp add: displaced_def mc_index_def Let_def)

lemma abs_diff_at_ok: "i < length a \<Longrightarrow> j < length b \<Longrightarrow> okR (\<lambda>d. d \<le> 255) (abs_diff_at a i b j)"
proof -
  assume "i < length a" "j < length b"
  moreover have "\<bar>uint (a ! i) - uint (b ! j)\<bar> \<le> 255" using byte_range[of "a ! i"] byte_range[of "b ! j"] by linarith
  ultimately show ?thesis by (simp add: abs_diff_at_def nat_le_iff)
qed

section \<open>Sums of absolute differences\<close>

definition sampled_eye_sad :: "eye_frame \<Rightarrow> eye_frame \<Rightarrow> mv \<Rightarrow> nat result" where
  "sampled_eye_sad src reference mv =
     forR (\<lambda>y. forR (\<lambda>x sad.
       bindR (abs_diff_at (eye_y src) (y * EYE_W + x)
         (eye_y reference) (displaced EYE_W EYE_H (sint (mvX mv)) (sint (mvY mv)) x y)) (\<lambda>d. Inr (sad + d)))
       (map (\<lambda>k. 4 * k) [0..<EYE_W div 4])) (map (\<lambda>k. 4 * k) [0..<EYE_H div 4]) 0"

definition partition_sad :: "eye_frame \<Rightarrow> eye_frame \<Rightarrow> nat \<Rightarrow> nat \<Rightarrow> nat \<Rightarrow> nat \<Rightarrow> nat \<Rightarrow> mv \<Rightarrow> nat result" where
  "partition_sad src reference mb_index part_x part_y part_w part_h mv =
     (let mb_x = mb_index mod MB_W; mb_y = mb_index div MB_W in
      forR (\<lambda>row. forR (\<lambda>col sad.
        let x = mb_x * 16 + part_x + col; y = mb_y * 16 + part_y + row in
        bindR (abs_diff_at (eye_y src) (y * EYE_W + x)
          (eye_y reference) (displaced EYE_W EYE_H (sint (mvX mv)) (sint (mvY mv)) x y)) (\<lambda>d. Inr (sad + d)))
        [0..<part_w]) [0..<part_h] 0)"

definition chroma_mb_sad :: "eye_frame \<Rightarrow> eye_frame \<Rightarrow> nat \<Rightarrow> mv \<Rightarrow> nat result" where
  "chroma_mb_sad src reference mb_index mv =
     (let mb_x = mb_index mod MB_W; mb_y = mb_index div MB_W; cmv_x = sint (mvX mv) div 2; cmv_y = sint (mvY mv) div 2 in
      forR (\<lambda>row. forR (\<lambda>col sad.
        let x = mb_x * 8 + col; y = mb_y * 8 + row; d = displaced CHROMA_W CHROMA_H cmv_x cmv_y x y in
        bindR (abs_diff_at (eye_cb src) (y * CHROMA_W + x) (eye_cb reference) d) (\<lambda>e.
        bindR (abs_diff_at (eye_cr src) (y * CHROMA_W + x) (eye_cr reference) d) (\<lambda>f. Inr (sad + e + f))))
        [0..<8]) [0..<8] 0)"

lemma okR_add: "okR (\<lambda>d. d \<le> b) m \<Longrightarrow> okR (\<lambda>s. s \<le> sad + b) (bindR m (\<lambda>d. Inr (sad + d :: nat)))"
  by (auto simp: okR_def)

lemma sampled_eye_sad_ok:
  assumes "wf_eye src" and "wf_eye reference"
  shows "okR (\<lambda>s. s \<le> 1530000) (sampled_eye_sad src reference mv)"
proof -
  have "okR (\<lambda>s. s \<le> 0 + length (List.product (map (\<lambda>k. 4 * k) [0..<EYE_H div 4]) (map (\<lambda>k. 4 * k) [0..<EYE_W div 4])) * 255)
      (sampled_eye_sad src reference mv)"
    unfolding sampled_eye_sad_def forR_nested
  proof (rule okR_sum)
    fix k sad assume "k \<in> set (List.product (map (\<lambda>k. 4 * k) [0..<EYE_H div 4]) (map (\<lambda>k. 4 * k) [0..<EYE_W div 4]))"
    then obtain x y where k: "k = (y, x)" and xy: "x < EYE_W" "y < EYE_H" by (auto simp: geom)
    show "okR (\<lambda>s'. s' \<le> sad + 255) ((case k of (y, x) \<Rightarrow> \<lambda>sad.
       bindR (abs_diff_at (eye_y src) (y * EYE_W + x)
         (eye_y reference) (displaced EYE_W EYE_H (sint (mvX mv)) (sint (mvY mv)) x y)) (\<lambda>d. Inr (sad + d))) sad)"
      unfolding k prod.case
      using index_bound[OF xy] eye_lengths(1)[OF assms(1)] eye_lengths(1)[OF assms(2)]
      by (intro okR_add abs_diff_at_ok) (auto intro: displaced_less)
  qed
  then show ?thesis by (rule okR_mono) (simp add: geom)
qed

lemma partition_sad_ok:
  assumes "wf_eye src" and "wf_eye reference" and "mb < MB_COUNT" and "px + pw \<le> 16" and "py + ph \<le> 16"
  shows "okR (\<lambda>s. s \<le> ph * pw * 255) (partition_sad src reference mb px py pw ph mv)"
proof -
  have "okR (\<lambda>s. s \<le> 0 + length (List.product [0..<ph] [0..<pw]) * 255) (partition_sad src reference mb px py pw ph mv)"
    unfolding partition_sad_def forR_nested Let_def
  proof (rule okR_sum)
    fix k sad assume "k \<in> set (List.product [0..<ph] [0..<pw])"
    then obtain row col where k: "k = (row, col)" and rc: "row < ph" "col < pw" by auto
    have xy: "mb mod MB_W * 16 + px + col < EYE_W" "mb div MB_W * 16 + py + row < EYE_H"
      using mb_fits(1,2)[OF assms(3)] rc assms(4,5) by linarith+
    show "okR (\<lambda>s'. s' \<le> sad + 255) ((case k of (row, col) \<Rightarrow> \<lambda>sad.
       bindR (abs_diff_at (eye_y src) ((mb div MB_W * 16 + py + row) * EYE_W + (mb mod MB_W * 16 + px + col))
         (eye_y reference) (displaced EYE_W EYE_H (sint (mvX mv)) (sint (mvY mv)) (mb mod MB_W * 16 + px + col) (mb div MB_W * 16 + py + row)))
         (\<lambda>d. Inr (sad + d))) sad)"
      unfolding k prod.case
      using index_bound[OF xy] eye_lengths(1)[OF assms(1)] eye_lengths(1)[OF assms(2)]
      by (intro okR_add abs_diff_at_ok) (auto intro: displaced_less)
  qed
  then show ?thesis by (rule okR_mono) simp
qed

lemma chroma_mb_sad_ok:
  assumes "wf_eye src" and "wf_eye reference" and "mb < MB_COUNT"
  shows "okR (\<lambda>s. s \<le> 32640) (chroma_mb_sad src reference mb mv)"
proof -
  have "okR (\<lambda>s. s \<le> 0 + length (List.product [0..<8] [0..<8 :: nat]) * 510) (chroma_mb_sad src reference mb mv)"
    unfolding chroma_mb_sad_def forR_nested Let_def
  proof (rule okR_sum)
    fix k sad assume "k \<in> set (List.product [0..<8] [0..<8 :: nat])"
    then obtain row col where k: "k = (row, col)" and rc: "row < 8" "col < 8" by auto
    have xy: "mb mod MB_W * 8 + col < CHROMA_W" "mb div MB_W * 8 + row < CHROMA_H"
      using mb_fits(3,4)[OF assms(3)] rc by linarith+
    let ?i = "(mb div MB_W * 8 + row) * CHROMA_W + (mb mod MB_W * 8 + col)"
    let ?d = "displaced CHROMA_W CHROMA_H (sint (mvX mv) div 2) (sint (mvY mv) div 2) (mb mod MB_W * 8 + col) (mb div MB_W * 8 + row)"
    have d: "?d < CHROMA_W * CHROMA_H" by (rule displaced_less) simp_all
    have b: "okR (\<lambda>d. d \<le> 255) (abs_diff_at (eye_cb src) ?i (eye_cb reference) ?d)"
      and r: "okR (\<lambda>d. d \<le> 255) (abs_diff_at (eye_cr src) ?i (eye_cr reference) ?d)"
      using index_bound[OF xy] d eye_lengths(2,3)[OF assms(1)] eye_lengths(2,3)[OF assms(2)]
      by (auto intro!: abs_diff_at_ok)
    show "okR (\<lambda>s'. s' \<le> sad + 510) ((case k of (row, col) \<Rightarrow> \<lambda>sad.
       bindR (abs_diff_at (eye_cb src) ((mb div MB_W * 8 + row) * CHROMA_W + (mb mod MB_W * 8 + col)) (eye_cb reference)
          (displaced CHROMA_W CHROMA_H (sint (mvX mv) div 2) (sint (mvY mv) div 2) (mb mod MB_W * 8 + col) (mb div MB_W * 8 + row))) (\<lambda>e.
       bindR (abs_diff_at (eye_cr src) ((mb div MB_W * 8 + row) * CHROMA_W + (mb mod MB_W * 8 + col)) (eye_cr reference)
          (displaced CHROMA_W CHROMA_H (sint (mvX mv) div 2) (sint (mvY mv) div 2) (mb mod MB_W * 8 + col) (mb div MB_W * 8 + row))) (\<lambda>f.
       Inr (sad + e + f)))) sad)"
      unfolding k prod.case by (rule okR_bind[OF b], rule okR_bind[OF r]) simp
  qed
  then show ?thesis by (rule okR_mono) simp
qed

section \<open>The search over a window\<close>

definition U64_MAX :: nat where "U64_MAX = 18446744073709551615"

text \<open>The double loop of the three window searches, with the cost as a parameter: a strictly smaller cost replaces the best.\<close>

definition window_search :: "nat \<Rightarrow> (mv \<Rightarrow> nat result) \<Rightarrow> mv result" where
  "window_search radius cost =
     bindR (forR (\<lambda>y. forR (\<lambda>x (best, best_sad).
         let mv = mv_of x y in
         bindR (cost mv) (\<lambda>sad. Inr (if sad < best_sad then (mv, sad) else (best, best_sad))))
       [- int radius..int radius]) [- int radius..int radius] (mv_zero, U64_MAX)) (\<lambda>(best, best_sad). Inr best)"

definition find_base_mv :: "eye_frame \<Rightarrow> eye_frame \<Rightarrow> mv result" where
  "find_base_mv src reference = window_search 4 (sampled_eye_sad src reference)"

definition find_best_copy_mv :: "eye_frame \<Rightarrow> eye_frame \<Rightarrow> nat \<Rightarrow> mv result" where
  "find_best_copy_mv src reference mb_index =
     window_search 8 (\<lambda>mv. bindR (partition_sad src reference mb_index 0 0 16 16 mv) (\<lambda>a.
       bindR (chroma_mb_sad src reference mb_index mv) (\<lambda>b. Inr (a + b))))"

definition find_best_partition_mv :: "eye_frame \<Rightarrow> eye_frame \<Rightarrow> nat \<Rightarrow> nat \<Rightarrow> nat \<Rightarrow> nat \<Rightarrow> nat \<Rightarrow> mv result" where
  "find_best_partition_mv src reference mb_index part_x part_y part_w part_h =
     window_search 8 (partition_sad src reference mb_index part_x part_y part_w part_h)"

definition find_best_vbs_mvs :: "eye_frame \<Rightarrow> eye_frame \<Rightarrow> nat \<Rightarrow> vbs_shape \<Rightarrow> mv list result" where
  "find_best_vbs_mvs src reference mb_index shape =
     (let best = find_best_partition_mv src reference mb_index in
      case shape of
        Split16x8 \<Rightarrow> bindR (best 0 0 16 8) (\<lambda>a. bindR (best 0 8 16 8) (\<lambda>b. Inr [a, b]))
      | Split8x16 \<Rightarrow> bindR (best 0 0 8 16) (\<lambda>a. bindR (best 8 0 8 16) (\<lambda>b. Inr [a, b]))
      | Split8x8 \<Rightarrow> bindR (best 0 0 8 8) (\<lambda>a. bindR (best 8 0 8 8) (\<lambda>b.
          bindR (best 0 8 8 8) (\<lambda>c. bindR (best 8 8 8 8) (\<lambda>d. Inr [a, b, c, d])))))"

definition window :: "nat \<Rightarrow> (int \<times> int) list" where
  "window radius = List.product [- int radius..int radius] [- int radius..int radius]"

definition best_in :: "nat \<Rightarrow> (mv \<Rightarrow> nat result) \<Rightarrow> mv \<Rightarrow> bool" where
  "best_in radius cost best \<longleftrightarrow> (\<exists>c. cost best = Inr c \<and>
     (\<exists>y x. (y, x) \<in> set (window radius) \<and> best = mv_of x y) \<and>
     (\<forall>y x. (y, x) \<in> set (window radius) \<longrightarrow> (\<exists>d. cost (mv_of x y) = Inr d \<and> c \<le> d)))"

lemma window_search_ok:
  assumes "\<And>mv. okR (\<lambda>s. s < U64_MAX) (cost mv)"
  shows "okR (best_in radius cost) (window_search radius cost)"
proof -
  let ?f = "\<lambda>(y, x) (best, best_sad). let mv = mv_of x y in
         bindR (cost mv) (\<lambda>sad. Inr (if sad < best_sad then (mv, sad) else (best, best_sad)))"
  let ?I = "\<lambda>ks (best, c). (ks = [] \<and> c = U64_MAX) \<or>
     (cost best = Inr c \<and> (\<exists>y x. (y, x) \<in> set ks \<and> best = mv_of x y) \<and>
       (\<forall>y x. (y, x) \<in> set ks \<longrightarrow> (\<exists>d. cost (mv_of x y) = Inr d \<and> c \<le> d)))"
  have loop: "okR (?I ks) (forR ?f ks (mv_zero, U64_MAX))" for ks
  proof (induction ks rule: rev_induct)
    case (snoc k ks)
    obtain y x where k: "k = (y, x)" by (cases k)
    obtain d where d: "cost (mv_of x y) = Inr d" "d < U64_MAX" using assms[of "mv_of x y"] by (auto simp: okR_def)
    show ?case
      unfolding forR_append
    proof (rule okR_bind[OF snoc.IH])
      fix s assume s: "?I ks s"
      obtain best c where [simp]: "s = (best, c)" by (cases s)
      show "okR (?I (ks @ [k])) (forR ?f [k] s)"
        using s d by (auto simp: k) (fastforce+)?
    qed
  qed simp
  have "(0, 0) \<in> set (window radius)" by (simp add: window_def)
  then have ne: "window radius \<noteq> []" by auto
  have "window_search radius cost = bindR (forR ?f (window radius) (mv_zero, U64_MAX)) (\<lambda>(best, best_sad). Inr best)"
    unfolding window_search_def forR_nested window_def ..
  also have "okR (best_in radius cost) \<dots>"
    by (rule okR_bind[OF loop]) (use ne in \<open>(auto simp: best_in_def, blast)\<close>)
  finally show ?thesis .
qed

theorem find_base_mv_ok:
  assumes "wf_eye src" and "wf_eye reference"
  shows "okR (best_in 4 (sampled_eye_sad src reference)) (find_base_mv src reference)"
  unfolding find_base_mv_def
  by (intro window_search_ok okR_mono[OF sampled_eye_sad_ok[OF assms]]) (simp add: U64_MAX_def)

lemma find_best_copy_mv_returns:
  assumes "wf_eye src" and "wf_eye reference" and "mb < MB_COUNT"
  shows "returns (find_best_copy_mv src reference mb)"
proof -
  have "okR (\<lambda>s. s < U64_MAX) (bindR (partition_sad src reference mb 0 0 16 16 mv) (\<lambda>a.
       bindR (chroma_mb_sad src reference mb mv) (\<lambda>b. Inr (a + b))))" for mv
    by (rule okR_bind[OF partition_sad_ok[OF assms]], simp_all, rule okR_bind[OF chroma_mb_sad_ok[OF assms]])
      (simp add: U64_MAX_def)
  from okR_mono[OF window_search_ok[OF this]] show ?thesis by (simp add: find_best_copy_mv_def)
qed

lemma find_best_partition_mv_returns:
  assumes "wf_eye src" and "wf_eye reference" and "mb < MB_COUNT" and "px + pw \<le> 16" and "py + ph \<le> 16"
  shows "returns (find_best_partition_mv src reference mb px py pw ph)"
proof -
  have "ph * pw \<le> 16 * 16" using assms(4,5) by (intro mult_le_mono) auto
  then have "okR (\<lambda>s. s < U64_MAX) (partition_sad src reference mb px py pw ph mv)" for mv
    by (intro okR_mono[OF partition_sad_ok[OF assms]]) (simp add: U64_MAX_def)
  from okR_mono[OF window_search_ok[OF this]] show ?thesis by (simp add: find_best_partition_mv_def)
qed

lemma find_best_vbs_mvs_ok:
  assumes "wf_eye src" and "wf_eye reference" and "mb < MB_COUNT"
  shows "okR (\<lambda>mvs. length mvs = vbs_count shape) (find_best_vbs_mvs src reference mb shape)"
proof -
  note b = find_best_partition_mv_returns[OF assms]
  show ?thesis
    by (cases shape) (auto simp: find_best_vbs_mvs_def Let_def intro!: okR_bind[OF b] simp del: okR_Inr, simp_all)
qed


section \<open>Exact copies\<close>

definition copy_matches :: "eye_frame \<Rightarrow> eye_frame \<Rightarrow> nat \<Rightarrow> mv \<Rightarrow> bool result" where
  "copy_matches src reference mb_index mv =
     (let mb_x = mb_index mod MB_W; mb_y = mb_index div MB_W in
      bindR (allR (\<lambda>row. allR (\<lambda>col.
          let x = mb_x * 16 + col; y = mb_y * 16 + row in
          bindR (load_at (eye_y src) (y * EYE_W + x)) (\<lambda>a.
          bindR (load_at (eye_y reference) (displaced EYE_W EYE_H (sint (mvX mv)) (sint (mvY mv)) x y)) (\<lambda>b. Inr (a = b))))
        [0..<16]) [0..<16]) (\<lambda>luma.
      if \<not> luma then Inr False
      else
        let cmv_x = sint (mvX mv) div 2; cmv_y = sint (mvY mv) div 2 in
        allR (\<lambda>row. allR (\<lambda>col.
          let x = mb_x * 8 + col; y = mb_y * 8 + row; s = displaced CHROMA_W (EYE_H div 2) cmv_x cmv_y x y in
          bindR (load_at (eye_cb src) (y * CHROMA_W + x)) (\<lambda>a. bindR (load_at (eye_cb reference) s) (\<lambda>b.
          if a \<noteq> b then Inr False
          else bindR (load_at (eye_cr src) (y * CHROMA_W + x)) (\<lambda>a. bindR (load_at (eye_cr reference) s) (\<lambda>b. Inr (a = b))))))
        [0..<8]) [0..<8]))"

definition find_exact_copy :: "eye_frame \<Rightarrow> eye_frame \<Rightarrow> nat \<Rightarrow> mv option result" where
  "find_exact_copy src reference mb_index =
     firstR (\<lambda>radius. firstR (\<lambda>dy. firstR (\<lambda>dx.
         if max \<bar>dx\<bar> \<bar>dy\<bar> \<noteq> radius then Inr None
         else if dx = 0 \<and> dy = 0 then Inr None
         else
           let mv = mv_of dx dy in
           bindR (copy_matches src reference mb_index mv) (\<lambda>b. Inr (if b then Some mv else None)))
       [- radius..radius]) [- radius..radius]) [0..8]"

definition mb_equal :: "eye_frame \<Rightarrow> eye_frame \<Rightarrow> nat \<Rightarrow> bool result" where
  "mb_equal a b mb_index =
     (let mb_x = mb_index mod MB_W; mb_y = mb_index div MB_W in
      bindR (allR (\<lambda>row. let off = (mb_y * 16 + row) * EYE_W + mb_x * 16 in
          bindR (slice_range (eye_y a) off (off + 16)) (\<lambda>s. bindR (slice_range (eye_y b) off (off + 16)) (\<lambda>t. Inr (s = t))))
        [0..<16]) (\<lambda>luma.
      if \<not> luma then Inr False
      else allR (\<lambda>row. let off = (mb_y * 8 + row) * CHROMA_W + mb_x * 8 in
          bindR (slice_range (eye_cb a) off (off + 8)) (\<lambda>s. bindR (slice_range (eye_cb b) off (off + 8)) (\<lambda>t.
          if s \<noteq> t then Inr False
          else bindR (slice_range (eye_cr a) off (off + 8)) (\<lambda>s. bindR (slice_range (eye_cr b) off (off + 8)) (\<lambda>t. Inr (s = t))))))
        [0..<8]))"

text \<open>A double loop over the samples of a macroblock is a test over the indices of its rectangle.\<close>

lemma rect_all:
  assumes "x0 + bw \<le> w" and "y0 + bh \<le> h"
  shows "(\<forall>row<bh. \<forall>col<bw. P ((y0 + row) * w + (x0 + col))) \<longleftrightarrow> (\<forall>i<w * h. in_rect w x0 y0 bw bh i \<longrightarrow> P i)"
proof (intro iffI allI impI)
  fix i assume all: "\<forall>row<bh. \<forall>col<bw. P ((y0 + row) * w + (x0 + col))" and i: "in_rect w x0 y0 bw bh i"
  then have "i div w - y0 < bh" "i mod w - x0 < bw" "y0 + (i div w - y0) = i div w" "x0 + (i mod w - x0) = i mod w"
    by (auto simp: in_rect_def)
  with all show "P i" by (metis div_mult_mod_eq)
next
  fix row col assume all: "\<forall>i<w * h. in_rect w x0 y0 bw bh i \<longrightarrow> P i" and rc: "row < bh" "col < bw"
  have x: "x0 + col < w" and y: "y0 + row < h" using assms rc by linarith+
  from row_div_mod[OF x, of "y0 + row"] rc have "in_rect w x0 y0 bw bh ((y0 + row) * w + (x0 + col))"
    by (simp add: in_rect_def)
  with all index_bound[OF x y] show "P ((y0 + row) * w + (x0 + col))" by blast
qed

lemma agree_mb_rects:
  assumes "wf_eye a" and "wf_eye b" and "mb < MB_COUNT"
  shows "agree {mb} a b \<longleftrightarrow>
    (\<forall>row<16. \<forall>col<16. eye_y a ! ((mb div MB_W * 16 + row) * EYE_W + (mb mod MB_W * 16 + col)) =
        eye_y b ! ((mb div MB_W * 16 + row) * EYE_W + (mb mod MB_W * 16 + col))) \<and>
    (\<forall>row<8. \<forall>col<8. eye_cb a ! ((mb div MB_W * 8 + row) * CHROMA_W + (mb mod MB_W * 8 + col)) =
        eye_cb b ! ((mb div MB_W * 8 + row) * CHROMA_W + (mb mod MB_W * 8 + col)) \<and>
      eye_cr a ! ((mb div MB_W * 8 + row) * CHROMA_W + (mb mod MB_W * 8 + col)) =
        eye_cr b ! ((mb div MB_W * 8 + row) * CHROMA_W + (mb mod MB_W * 8 + col)))"
  unfolding rect_all[OF mb_fits(1,2)[OF assms(3)], of "\<lambda>i. eye_y a ! i = eye_y b ! i"]
    rect_all[OF mb_fits(3,4)[OF assms(3)], of "\<lambda>i. eye_cb a ! i = eye_cb b ! i \<and> eye_cr a ! i = eye_cr b ! i"]
  by (simp add: agree_def y_mb_rect c_mb_rect EYE_Y_BYTES_def EYE_CHROMA_BYTES_def)

theorem copy_matches_ok:
  assumes "wf_eye src" and "wf_eye reference" and "mb < MB_COUNT"
  shows "copy_matches src reference mb mv = Inr (agree {mb} src (mc_region {mb} mv reference src))"
proof -
  let ?X = "mb mod MB_W * 16" and ?Y = "mb div MB_W * 16" and ?U = "mb mod MB_W * 8" and ?V = "mb div MB_W * 8"
  let ?m = "mc_region {mb} mv reference src"
  note l = eye_lengths[OF assms(1)] eye_lengths[OF assms(2)]
  have h2: "EYE_H div 2 = CHROMA_H" by (simp add: geom)
  have luma: "eye_y ?m ! ((?Y + row) * EYE_W + (?X + col)) =
        eye_y reference ! displaced EYE_W EYE_H (sint (mvX mv)) (sint (mvY mv)) (?X + col) (?Y + row)"
      "(?Y + row) * EYE_W + (?X + col) < EYE_W * EYE_H" if "row < 16" "col < 16" for row col
  proof -
    have xy: "?X + col < EYE_W" "?Y + row < EYE_H" using mb_fits(1,2)[OF assms(3)] that by linarith+
    show i: "(?Y + row) * EYE_W + (?X + col) < EYE_W * EYE_H" by (rule index_bound[OF xy])
    have "in_rect EYE_W ?X ?Y 16 16 ((?Y + row) * EYE_W + (?X + col))"
      using row_div_mod[OF xy(1), of "?Y + row"] that by (simp add: in_rect_def)
    then have "y_mb ((?Y + row) * EYE_W + (?X + col)) = mb" by (simp only: y_mb_rect)
    then show "eye_y ?m ! ((?Y + row) * EYE_W + (?X + col)) =
        eye_y reference ! displaced EYE_W EYE_H (sint (mvX mv)) (sint (mvY mv)) (?X + col) (?Y + row)"
      using i l by (simp add: mc_region_def nth_mc_copy displaced_mc_index[OF xy(1)])
  qed
  have chroma: "eye_cb ?m ! ((?V + row) * CHROMA_W + (?U + col)) =
        eye_cb reference ! displaced CHROMA_W CHROMA_H (sint (mvX mv) div 2) (sint (mvY mv) div 2) (?U + col) (?V + row)"
      "eye_cr ?m ! ((?V + row) * CHROMA_W + (?U + col)) =
        eye_cr reference ! displaced CHROMA_W CHROMA_H (sint (mvX mv) div 2) (sint (mvY mv) div 2) (?U + col) (?V + row)"
      "(?V + row) * CHROMA_W + (?U + col) < CHROMA_W * CHROMA_H" if "row < 8" "col < 8" for row col
  proof -
    have xy: "?U + col < CHROMA_W" "?V + row < CHROMA_H" using mb_fits(3,4)[OF assms(3)] that by linarith+
    show i: "(?V + row) * CHROMA_W + (?U + col) < CHROMA_W * CHROMA_H" by (rule index_bound[OF xy])
    have "in_rect CHROMA_W ?U ?V 8 8 ((?V + row) * CHROMA_W + (?U + col))"
      using row_div_mod[OF xy(1), of "?V + row"] that by (simp add: in_rect_def)
    then have "c_mb ((?V + row) * CHROMA_W + (?U + col)) = mb" by (simp only: c_mb_rect)
    then show "eye_cb ?m ! ((?V + row) * CHROMA_W + (?U + col)) =
        eye_cb reference ! displaced CHROMA_W CHROMA_H (sint (mvX mv) div 2) (sint (mvY mv) div 2) (?U + col) (?V + row)"
      "eye_cr ?m ! ((?V + row) * CHROMA_W + (?U + col)) =
        eye_cr reference ! displaced CHROMA_W CHROMA_H (sint (mvX mv) div 2) (sint (mvY mv) div 2) (?U + col) (?V + row)"
      using i l by (simp_all add: mc_region_def nth_mc_copy displaced_mc_index[OF xy(1)])
  qed
  have dl: "displaced EYE_W EYE_H mx my x y < EYE_W * EYE_H" "displaced CHROMA_W CHROMA_H mx my x y < CHROMA_W * CHROMA_H"
    for mx my x y by (rule displaced_less, simp, simp)+
  let ?L = "\<lambda>row col. eye_y src ! ((?Y + row) * EYE_W + (?X + col)) = eye_y ?m ! ((?Y + row) * EYE_W + (?X + col))"
  let ?C = "\<lambda>row col. eye_cb src ! ((?V + row) * CHROMA_W + (?U + col)) = eye_cb ?m ! ((?V + row) * CHROMA_W + (?U + col)) \<and>
    eye_cr src ! ((?V + row) * CHROMA_W + (?U + col)) = eye_cr ?m ! ((?V + row) * CHROMA_W + (?U + col))"
  have "allR (\<lambda>row. allR (\<lambda>col.
          let x = ?X + col; y = ?Y + row in
          bindR (load_at (eye_y src) (y * EYE_W + x)) (\<lambda>a.
          bindR (load_at (eye_y reference) (displaced EYE_W EYE_H (sint (mvX mv)) (sint (mvY mv)) x y)) (\<lambda>b. Inr (a = b))))
        [0..<16]) [0..<16] = Inr (\<forall>row\<in>set [0..<16]. \<forall>col\<in>set [0..<16]. ?L row col)"
    using l dl(1) luma by (intro allR_ok) (simp add: Let_def)
  moreover have "allR (\<lambda>row. allR (\<lambda>col.
          let x = ?U + col; y = ?V + row; s = displaced CHROMA_W CHROMA_H (sint (mvX mv) div 2) (sint (mvY mv) div 2) x y in
          bindR (load_at (eye_cb src) (y * CHROMA_W + x)) (\<lambda>a. bindR (load_at (eye_cb reference) s) (\<lambda>b.
          if a \<noteq> b then Inr False
          else bindR (load_at (eye_cr src) (y * CHROMA_W + x)) (\<lambda>a. bindR (load_at (eye_cr reference) s) (\<lambda>b. Inr (a = b))))))
        [0..<8]) [0..<8] = Inr (\<forall>row\<in>set [0..<8]. \<forall>col\<in>set [0..<8]. ?C row col)"
    using l dl(2) chroma by (intro allR_ok) (simp add: Let_def)
  ultimately show ?thesis
    unfolding copy_matches_def Let_def[of "mb mod MB_W"] Let_def[of "mb div MB_W"] Let_def[of "_ div 2"] h2
    by (auto simp: agree_mb_rects[OF assms(1) _ assms(3), of ?m] assms(1))
qed


theorem find_exact_copy_ok:
  assumes "wf_eye src" and "wf_eye reference" and "mb < MB_COUNT"
  shows "okR (\<lambda>hit. case hit of
      Some mv \<Rightarrow> agree {mb} src (mc_region {mb} mv reference src)
    | None \<Rightarrow> \<forall>dx dy. \<bar>dx\<bar> \<le> 8 \<and> \<bar>dy\<bar> \<le> 8 \<and> (dx, dy) \<noteq> (0, 0) \<longrightarrow>
        \<not> agree {mb} src (mc_region {mb} (mv_of dx dy) reference src)) (find_exact_copy src reference mb)"
proof -
  let ?M = "\<lambda>mv. agree {mb} src (mc_region {mb} mv reference src)"
  let ?N = "\<lambda>radius dy dx. max \<bar>dx\<bar> \<bar>dy\<bar> = radius \<and> \<not> (dx = 0 \<and> dy = 0) \<longrightarrow> \<not> ?M (mv_of dx dy)"
  have "okR (\<lambda>hit. case hit of Some mv \<Rightarrow> ?M mv
      | None \<Rightarrow> \<forall>radius\<in>set [0..8]. \<forall>dy\<in>set [- radius..radius]. \<forall>dx\<in>set [- radius..radius]. ?N radius dy dx)
    (find_exact_copy src reference mb)"
    unfolding find_exact_copy_def
    by (intro firstR_ok) (simp add: copy_matches_ok[OF assms] Let_def)
  then show ?thesis
  proof (rule okR_mono)
    fix hit
    assume h: "case hit of Some mv \<Rightarrow> ?M mv
      | None \<Rightarrow> \<forall>radius\<in>set [0..8]. \<forall>dy\<in>set [- radius..radius]. \<forall>dx\<in>set [- radius..radius]. ?N radius dy dx"
    have "\<not> ?M (mv_of dx dy)" if "hit = None" "\<bar>dx\<bar> \<le> 8" "\<bar>dy\<bar> \<le> 8" "(dx, dy) \<noteq> (0, 0)" for dx dy
    proof -
      let ?r = "max \<bar>dx\<bar> \<bar>dy\<bar>"
      have "?r \<in> set [0..8]" "dy \<in> set [- ?r..?r]" "dx \<in> set [- ?r..?r]" using that(2,3) by auto
      then have "?N ?r dy dx" using h that(1) by (simp only: option.case) blast
      then show ?thesis using that(4) by auto
    qed
    with h show "case hit of Some mv \<Rightarrow> ?M mv | None \<Rightarrow> \<forall>dx dy. \<bar>dx\<bar> \<le> 8 \<and> \<bar>dy\<bar> \<le> 8 \<and> (dx, dy) \<noteq> (0, 0) \<longrightarrow> \<not> ?M (mv_of dx dy)"
      by (cases hit) simp_all
  qed
qed

lemma map_nth_row_eq: "map ((!) xs) [i..<i + n] = map ((!) ys) [i..<i + n] \<longleftrightarrow> (\<forall>col<n. xs ! (i + col) = ys ! (i + col))"
proof -
  have e: "map ((!) xs) [i..<i + n] = map (\<lambda>col. xs ! (i + col)) [0..<n]" for xs :: "'a list"
    by (intro nth_equalityI) simp_all
  show ?thesis unfolding e by (auto simp: list_eq_iff_nth_eq)
qed

theorem mb_equal_ok:
  assumes "wf_eye a" and "wf_eye b" and "mb < MB_COUNT"
  shows "mb_equal a b mb = Inr (agree {mb} a b)"
proof -
  let ?X = "mb mod MB_W * 16" and ?Y = "mb div MB_W * 16" and ?U = "mb mod MB_W * 8" and ?V = "mb div MB_W * 8"
  note l = eye_lengths[OF assms(1)] eye_lengths[OF assms(2)]
  have ry: "(?Y + row) * EYE_W + ?X + 16 \<le> EYE_W * EYE_H" if "row < 16" for row
    using that mb_fits(2)[OF assms(3)] by (intro row_bound mb_fits(1)[OF assms(3)]) linarith
  have rc: "(?V + row) * CHROMA_W + ?U + 8 \<le> CHROMA_W * CHROMA_H" if "row < 8" for row
    using that mb_fits(4)[OF assms(3)] by (intro row_bound mb_fits(3)[OF assms(3)]) linarith
  have "allR (\<lambda>row. let off = (?Y + row) * EYE_W + ?X in
          bindR (slice_range (eye_y a) off (off + 16)) (\<lambda>s. bindR (slice_range (eye_y b) off (off + 16)) (\<lambda>t. Inr (s = t))))
        [0..<16] = Inr (\<forall>row\<in>set [0..<16]. \<forall>col<16. eye_y a ! ((?Y + row) * EYE_W + ?X + col) = eye_y b ! ((?Y + row) * EYE_W + ?X + col))"
    using l ry by (intro allR_ok) (simp add: Let_def slice_range_nth map_nth_row_eq del: map_eq_conv)
  moreover have "allR (\<lambda>row. let off = (?V + row) * CHROMA_W + ?U in
          bindR (slice_range (eye_cb a) off (off + 8)) (\<lambda>s. bindR (slice_range (eye_cb b) off (off + 8)) (\<lambda>t.
          if s \<noteq> t then Inr False
          else bindR (slice_range (eye_cr a) off (off + 8)) (\<lambda>s. bindR (slice_range (eye_cr b) off (off + 8)) (\<lambda>t. Inr (s = t))))))
        [0..<8] = Inr (\<forall>row\<in>set [0..<8]. (\<forall>col<8. eye_cb a ! ((?V + row) * CHROMA_W + ?U + col) = eye_cb b ! ((?V + row) * CHROMA_W + ?U + col)) \<and>
          (\<forall>col<8. eye_cr a ! ((?V + row) * CHROMA_W + ?U + col) = eye_cr b ! ((?V + row) * CHROMA_W + ?U + col)))"
    using l rc by (intro allR_ok) (auto simp add: Let_def slice_range_nth map_nth_row_eq simp del: map_eq_conv)
  ultimately show ?thesis
    unfolding mb_equal_def Let_def[of "mb mod MB_W"] Let_def[of "mb div MB_W"]
    by (auto simp: agree_mb_rects[OF assms] add.assoc)
qed

end
