(* ===== verification/O3_EncGeom.thy ===== *)
theory O3_EncGeom
  imports O3_EncSearch
begin

text \<open>
  The 24 blocks of a macroblock as the encoder walks them: 16 luma, 4 of Cb, 4
  of Cr. Writing the samples of one block changes that block only, a block the
  decoder applies is a write of its samples, and two frames with the same
  samples in all 24 blocks agree on the macroblock.
\<close>

section \<open>Blocks by number\<close>

definition blk_stride :: "nat \<Rightarrow> nat" where
  "blk_stride K = (if K < 16 then EYE_W else CHROMA_W)"

definition blk_x :: "nat \<Rightarrow> nat \<Rightarrow> nat" where
  "blk_x mb K = (if K < 16 then (mb mod MB_W) * 16 + (K mod 4) * 4 else (mb mod MB_W) * 8 + ((K - 16) mod 4 mod 2) * 4)"

definition blk_y :: "nat \<Rightarrow> nat \<Rightarrow> nat" where
  "blk_y mb K = (if K < 16 then (mb div MB_W) * 16 + (K div 4) * 4 else (mb div MB_W) * 8 + ((K - 16) mod 4 div 2) * 4)"

definition blk_plane :: "nat \<Rightarrow> eye_frame \<Rightarrow> byte list" where
  "blk_plane K e = (if K < 16 then eye_y e else if K < 20 then eye_cb e else eye_cr e)"

definition set_blk_plane :: "nat \<Rightarrow> byte list \<Rightarrow> eye_frame \<Rightarrow> eye_frame" where
  "set_blk_plane K p e = (if K < 16 then e\<lparr>eye_y := p\<rparr> else if K < 20 then e\<lparr>eye_cb := p\<rparr> else e\<lparr>eye_cr := p\<rparr>)"

definition mb_samples :: "nat \<Rightarrow> nat \<Rightarrow> eye_frame \<Rightarrow> byte list" where
  "mb_samples mb K e = samples (blk_stride K) (blk_x mb K) (blk_y mb K) (blk_plane K e)"

definition put_mb_vals :: "nat \<Rightarrow> nat \<Rightarrow> byte list \<Rightarrow> eye_frame \<Rightarrow> eye_frame" where
  "put_mb_vals mb K tv e = set_blk_plane K (put_vals (blk_stride K) (blk_x mb K) (blk_y mb K) tv (blk_plane K e)) e"

lemma length_mb_samples [simp]: "length (mb_samples mb K e) = 16"
  by (simp add: mb_samples_def)

lemma blk_plane_set [simp]: "blk_plane K (set_blk_plane K p e) = p"
  by (simp add: blk_plane_def set_blk_plane_def)

lemma set_blk_plane_id: "set_blk_plane K (blk_plane K e) e = e"
  by (simp add: blk_plane_def set_blk_plane_def)

lemma blk_16_24: "\<not> K < 16 \<Longrightarrow> K < 20 \<Longrightarrow> (K - 16) mod 4 = K - (16::nat)" "\<not> K < 20 \<Longrightarrow> K < 24 \<Longrightarrow> (K - 16) mod 4 = K - (20::nat)"
proof -
  show "(K - 16) mod 4 = K - 16" if "\<not> K < 16" "K < 20" using that by simp
  show "(K - 16) mod 4 = K - 20" if "\<not> K < 20" "K < 24"
  proof -
    have "K - 16 = (K - 20) + 4" "K - 20 < 4" using that by auto
    then show ?thesis by (metis mod_add_self2 mod_less)
  qed
qed

lemma put_mb_blk_eq:
  assumes "K < 24"
  shows "put_mb_blk mb (K, b) e =
    set_blk_plane K (put_blk (blk_stride K) (blk_y mb K * blk_stride K + blk_x mb K) (blk_fn b) (blk_plane K e)) e"
proof -
  consider "K < 16" | "\<not> K < 16" "K < 20" | "\<not> K < 20" "\<not> K < 16" by linarith
  then show ?thesis
  proof cases
    case 1
    have "y_blk_base mb K = blk_y mb K * EYE_W + blk_x mb K"
      using 1 by (simp add: y_blk_base_def blk_x_def blk_y_def algebra_simps)
    with 1 show ?thesis by (simp add: put_mb_blk_def set_blk_plane_def blk_stride_def blk_plane_def)
  next
    case 2
    have "c_blk_base mb (K - 16) = blk_y mb K * CHROMA_W + blk_x mb K"
      using 2 blk_16_24(1)[OF 2] by (simp add: c_blk_base_def blk_x_def blk_y_def algebra_simps)
    with 2 show ?thesis by (simp add: put_mb_blk_def set_blk_plane_def blk_stride_def blk_plane_def)
  next
    case 3
    have "c_blk_base mb (K - 20) = blk_y mb K * CHROMA_W + blk_x mb K"
      using 3 blk_16_24(2)[OF 3(1) assms] by (simp add: c_blk_base_def blk_x_def blk_y_def algebra_simps)
    with 3 show ?thesis by (simp add: put_mb_blk_def set_blk_plane_def blk_stride_def blk_plane_def)
  qed
qed

lemma blk_fits_plane:
  assumes "wf_eye e" and "mb < MB_COUNT" and "K < 24"
  shows "fits (blk_stride K) (blk_x mb K) (blk_y mb K) (blk_plane K e)"
proof (cases "K < 16")
  case True
  then have "K mod 4 * 4 + 4 \<le> 16" "K div 4 * 4 + 4 \<le> 16" by auto
  with True mb_fits(1,2)[OF assms(2)] have xy: "blk_x mb K + 4 \<le> EYE_W" "blk_y mb K + 4 \<le> EYE_H"
    unfolding blk_x_def blk_y_def if_P[OF True] by linarith+
  then have "(blk_y mb K + 4) * EYE_W \<le> EYE_W * EYE_H" by (simp add: mult.commute)
  with True xy eye_lengths(1)[OF assms(1)] show ?thesis by (simp add: fits_def blk_stride_def blk_plane_def)
next
  case False
  then have "(K - 16) mod 4 mod 2 * 4 + 4 \<le> 8" "(K - 16) mod 4 div 2 * 4 + 4 \<le> 8" by auto
  with False mb_fits(3,4)[OF assms(2)] have xy: "blk_x mb K + 4 \<le> CHROMA_W" "blk_y mb K + 4 \<le> CHROMA_H"
    unfolding blk_x_def blk_y_def if_not_P[OF False] by linarith+
  then have "(blk_y mb K + 4) * CHROMA_W \<le> CHROMA_W * CHROMA_H" by (simp add: mult.commute)
  with False xy eye_lengths(2,3)[OF assms(1)] show ?thesis by (simp add: fits_def blk_stride_def blk_plane_def)
qed

text \<open>Blocks of the same plane do not overlap.\<close>

lemma mult4_inj: "a * 4 + b = c * 4 + (d::nat) \<Longrightarrow> b < 4 \<Longrightarrow> d < 4 \<Longrightarrow> a = c"
  by presburger

definition same_plane :: "nat \<Rightarrow> nat \<Rightarrow> bool" where
  "same_plane J K \<longleftrightarrow> (J < 16 \<longleftrightarrow> K < 16) \<and> (J < 20 \<longleftrightarrow> K < 20)"

lemma blk_xy_inj:
  assumes "J < 24" "K < 24" "same_plane J K"
    and "blk_x mb J + a = blk_x mb K + b" "blk_y mb J + c = blk_y mb K + d" "a < 4" "b < 4" "c < 4" "d < (4::nat)"
  shows "J = K"
proof (cases "K < 16")
  case True
  with assms have "J mod 4 * 4 + a = K mod 4 * 4 + b" "J div 4 * 4 + c = K div 4 * 4 + d"
    by (auto simp: blk_x_def blk_y_def same_plane_def)
  with assms(6-9) mult4_inj have "J mod 4 = K mod 4" "J div 4 = K div 4" by blast+
  then show ?thesis by (metis div_mult_mod_eq)
next
  case False
  let ?j = "(J - 16) mod 4" and ?k = "(K - 16) mod 4"
  from False assms have "?j mod 2 * 4 + a = ?k mod 2 * 4 + b" "?j div 2 * 4 + c = ?k div 2 * 4 + d"
    by (auto simp: blk_x_def blk_y_def same_plane_def)
  with assms(6-9) mult4_inj have "?j mod 2 = ?k mod 2" "?j div 2 = ?k div 2" by blast+
  then have "?j = ?k" by (metis div_mult_mod_eq)
  with False assms(1-3) show ?thesis using blk_16_24[of J] blk_16_24[of K] by (cases "K < 20") (auto simp: same_plane_def)
qed

lemma blk_pos_disjoint:
  assumes "wf_eye e" "mb < MB_COUNT" "J < 24" "K < 24" "same_plane J K" "J \<noteq> K" "j < 16" "k < 16"
  shows "blk_pos (blk_stride J) (blk_x mb J) (blk_y mb J) j \<noteq> blk_pos (blk_stride K) (blk_x mb K) (blk_y mb K) k"
proof
  assume eq: "blk_pos (blk_stride J) (blk_x mb J) (blk_y mb J) j = blk_pos (blk_stride K) (blk_x mb K) (blk_y mb K) k"
  have s: "blk_stride J = blk_stride K" using assms(5) by (auto simp: blk_stride_def same_plane_def)
  have x: "blk_x mb J + 4 \<le> blk_stride J" "blk_x mb K + 4 \<le> blk_stride K"
    using blk_fits_plane[OF assms(1,2)] assms(3,4) by (auto simp: fits_def)
  note dm = blk_pos_div_mod[OF x(1) assms(7), of "blk_y mb J"] blk_pos_div_mod[OF x(2) assms(8), of "blk_y mb K"]
  have "blk_x mb J + j mod 4 = blk_x mb K + k mod 4" "blk_y mb J + j div 4 = blk_y mb K + k div 4"
    using dm eq s by metis+
  then have "J = K"
  proof (rule blk_xy_inj[OF assms(3,4,5)])
    show "j div 4 < 4" "k div 4 < 4" using assms(7,8) by auto
  qed simp_all
  with assms(6) show False by simp
qed

section \<open>Writing a block\<close>

lemma mb_samples_put:
  assumes "wf_eye e" "mb < MB_COUNT" "J < 24" "K < 24" "length tv = 16"
  shows "mb_samples mb J (put_mb_vals mb K tv e) = (if J = K then tv else mb_samples mb J e)"
proof (cases "same_plane J K")
  case False
  then have "blk_plane J (put_mb_vals mb K tv e) = blk_plane J e" "J \<noteq> K"
    by (auto simp: put_mb_vals_def blk_plane_def set_blk_plane_def same_plane_def)
  then show ?thesis by (simp add: mb_samples_def)
next
  case True
  let ?f = "fits (blk_stride K) (blk_x mb K) (blk_y mb K) (blk_plane K e)"
  have f: ?f by (rule blk_fits_plane[OF assms(1,2,4)])
  have p: "blk_plane J (put_mb_vals mb K tv e) = put_vals (blk_stride K) (blk_x mb K) (blk_y mb K) tv (blk_plane K e)"
    "blk_plane J e = blk_plane K e"
    using True by (auto simp: put_mb_vals_def blk_plane_def set_blk_plane_def same_plane_def)
  show ?thesis
  proof (rule nth_equalityI)
    fix j assume "j < length (mb_samples mb J (put_mb_vals mb K tv e))"
    then have j: "j < 16" by simp
    show "mb_samples mb J (put_mb_vals mb K tv e) ! j = (if J = K then tv else mb_samples mb J e) ! j"
    proof (cases "J = K")
      case True
      then show ?thesis using nth_put_vals(1)[OF f j] j by (simp add: mb_samples_def p(1)[unfolded True])
    next
      case False
      have "blk_pos (blk_stride J) (blk_x mb J) (blk_y mb J) j < length (blk_plane K e)"
        using blk_pos_less[OF blk_fits_plane[OF assms(1-3)] j] p(2) by simp
      moreover have "\<forall>k<16. blk_pos (blk_stride J) (blk_x mb J) (blk_y mb J) j \<noteq> blk_pos (blk_stride K) (blk_x mb K) (blk_y mb K) k"
        using blk_pos_disjoint[OF assms(1-4) True False j] by blast
      ultimately show ?thesis using nth_put_vals(2)[OF f] j False by (simp add: mb_samples_def p)
    qed
  qed (simp add: assms(5))
qed

lemma put_mb_vals_blk:
  assumes "wf_eye e" "mb < MB_COUNT" "K < 24"
  shows "put_mb_vals mb K (blk_values b (mb_samples mb K e)) e = put_mb_blk mb (K, b) e"
  by (simp add: put_mb_blk_eq[OF assms(3)] put_mb_vals_def mb_samples_def put_blk_values[OF blk_fits_plane[OF assms]])

lemma put_mb_vals_same:
  assumes "wf_eye e" "mb < MB_COUNT" "K < 24"
  shows "put_mb_vals mb K (mb_samples mb K e) e = e"
  by (simp add: put_mb_vals_def mb_samples_def put_vals_same[OF blk_fits_plane[OF assms]] set_blk_plane_id)

lemma wf_put_mb_vals [simp]: "wf_eye (put_mb_vals mb K tv e) = wf_eye e"
  by (simp add: wf_eye_def put_mb_vals_def set_blk_plane_def blk_plane_def)

lemma codes_block_put:
  assumes "wf_eye e" "mb < MB_COUNT" "K < 24" "codes_block ob bo (mb_samples mb K e) tv"
  shows "put_mb_vals mb K tv e = (case bo of None \<Rightarrow> e | Some b \<Rightarrow> put_mb_blk mb (K, b) e)"
  using assms(4) by (cases rule: codes_blockE) (simp_all add: put_mb_vals_same[OF assms(1-3)] put_mb_vals_blk[OF assms(1-3)])

section \<open>All blocks\<close>

lemma grid_div_mod: "r < n \<Longrightarrow> (q * n + r) div n = q \<and> (q * n + r) mod n = (r::nat)"
  by simp

lemma agree_mb_samples:
  assumes "wf_eye a" and "wf_eye b" and "mb < MB_COUNT" and "\<forall>K<24. mb_samples mb K a = mb_samples mb K b"
  shows "agree {mb} a b"
proof -
  have s: "blk_plane K a ! blk_pos (blk_stride K) (blk_x mb K) (blk_y mb K) k = blk_plane K b ! blk_pos (blk_stride K) (blk_x mb K) (blk_y mb K) k"
    if "K < 24" "k < 16" for K k
    using assms(4) that nth_samples[of k] unfolding mb_samples_def by metis
  show ?thesis
    unfolding agree_mb_rects[OF assms(1-3)]
  proof (intro conjI allI impI)
    fix row col assume rc: "row < (16::nat)" "col < (16::nat)"
    let ?K = "row div 4 * 4 + col div 4" and ?k = "row mod 4 * 4 + col mod 4"
    have d: "row div 4 < 4" "col div 4 < 4" "row mod 4 < 4" "col mod 4 < 4" using rc by auto
    have K: "?K div 4 = row div 4" "?K mod 4 = col div 4" using grid_div_mod[OF d(2), of "row div 4"] by auto
    have less: "?K < 16" "?k < 16" using d by linarith+
    have "row = row div 4 * 4 + row mod 4" "col = col div 4 * 4 + col mod 4" by simp_all
    then have "blk_pos (blk_stride ?K) (blk_x mb ?K) (blk_y mb ?K) ?k = (mb div MB_W * 16 + row) * EYE_W + (mb mod MB_W * 16 + col)"
      using K less by (simp add: blk_pos_rc blk_stride_def blk_x_def blk_y_def)
    then show "eye_y a ! ((mb div MB_W * 16 + row) * EYE_W + (mb mod MB_W * 16 + col)) =
        eye_y b ! ((mb div MB_W * 16 + row) * EYE_W + (mb mod MB_W * 16 + col))"
      using s[of ?K ?k] less by (simp add: blk_plane_def)
  next
    fix row col assume rc: "row < (8::nat)" "col < (8::nat)"
    let ?q = "row div 4 * 2 + col div 4" and ?k = "row mod 4 * 4 + col mod 4"
    have d: "row div 4 < 2" "col div 4 < 2" "row mod 4 < 4" "col mod 4 < 4" using rc by auto
    have q: "?q div 2 = row div 4" "?q mod 2 = col div 4" using grid_div_mod[OF d(2), of "row div 4"] by auto
    have less: "?q < 4" "?k < 16" using d by linarith+
    have e: "row = row div 4 * 4 + row mod 4" "col = col div 4 * 4 + col mod 4" by simp_all
    have p: "blk_pos (blk_stride (16 + n + ?q)) (blk_x mb (16 + n + ?q)) (blk_y mb (16 + n + ?q)) ?k =
        (mb div MB_W * 8 + row) * CHROMA_W + (mb mod MB_W * 8 + col)" if "n = 0 \<or> n = 4" for n
    proof -
      have "(16 + n + ?q - 16) mod 4 = ?q" using that less(1) by auto
      then show ?thesis using q(1,2) e by (simp add: blk_pos_rc blk_stride_def blk_x_def blk_y_def)
    qed
    show "eye_cb a ! ((mb div MB_W * 8 + row) * CHROMA_W + (mb mod MB_W * 8 + col)) =
        eye_cb b ! ((mb div MB_W * 8 + row) * CHROMA_W + (mb mod MB_W * 8 + col))"
      using s[of "16 + 0 + ?q" ?k] less p[of 0] by (simp add: blk_plane_def)
    show "eye_cr a ! ((mb div MB_W * 8 + row) * CHROMA_W + (mb mod MB_W * 8 + col)) =
        eye_cr b ! ((mb div MB_W * 8 + row) * CHROMA_W + (mb mod MB_W * 8 + col))"
      using s[of "16 + 4 + ?q" ?k] less p[of 4] by (simp add: blk_plane_def)
  qed
qed

end
