(* ===== verification/O3_EncResidual.thy ===== *)
theory O3_EncResidual
  imports O3_EncGeom
begin

text \<open>
  The residual of a macroblock: \<open>build_lossless_residual\<close> and
  \<open>build_lossy_residual\<close>. Both are shown to write bytes that
  \<open>parse_mb_residual\<close> reads back as the blocks coded, with counters
  \<open>residual_stats\<close> recounts; the lossless one turns the prediction into the
  source, the lossy one into the reconstruction it reports, at the squared
  error it reports.
\<close>

section \<open>The builders\<close>

definition raw_mb_bytes :: "eye_frame \<Rightarrow> nat \<Rightarrow> byte list result" where
  "raw_mb_bytes eye mb_index = read_raw_mb eye mb_index []"

definition block_xy :: "nat \<Rightarrow> nat \<Rightarrow> nat \<Rightarrow> nat \<Rightarrow> nat \<times> nat" where
  "block_xy bsz per mb_index block =
     ((mb_index mod MB_W) * bsz + (block mod per) * 4, (mb_index div MB_W) * bsz + (block div per) * 4)"

text \<open>
  The loop over the blocks of one plane, the same for the three planes of each
  builder: \<open>bsz\<close> is 16 or 8, \<open>per\<close> the blocks in a row, \<open>first\<close> the number of
  the plane's first block in the mask. \<open>None\<close> is the early return of \<open>None\<close>.
\<close>

definition lossless_blocks ::
  "byte list \<Rightarrow> byte list \<Rightarrow> nat \<Rightarrow> nat \<Rightarrow> nat \<Rightarrow> nat \<Rightarrow> nat \<Rightarrow> nat \<Rightarrow> (u32 \<times> byte list list) option \<Rightarrow>
    (u32 \<times> byte list list) option result" where
  "lossless_blocks src pred stride bsz per first count mb_index st =
     forR (\<lambda>block st. case st of None \<Rightarrow> Inr None | Some (msk, payloads) \<Rightarrow>
       let (bx, b_y) = block_xy bsz per mb_index block in
       bindR (lossless_block_payload src pred stride bx b_y) (\<lambda>payload. case payload of
         None \<Rightarrow> Inr None
       | Some payload \<Rightarrow> Inr (Some (if payload \<noteq> [] then (msk OR push_bit (first + block) 1, payloads @ [payload]) else (msk, payloads)))))
       [0..<count] st"

definition build_lossless_residual :: "eye_frame \<Rightarrow> eye_frame \<Rightarrow> nat \<Rightarrow> byte list option result" where
  "build_lossless_residual src pred mb_index =
     bindR (lossless_blocks (eye_y src) (eye_y pred) EYE_W 16 4 0 16 mb_index (Some (0, []))) (\<lambda>st.
     bindR (lossless_blocks (eye_cb src) (eye_cb pred) CHROMA_W 8 2 16 4 mb_index st) (\<lambda>st.
     bindR (lossless_blocks (eye_cr src) (eye_cr pred) CHROMA_W 8 2 20 4 mb_index st) (\<lambda>st.
     case st of None \<Rightarrow> Inr None
     | Some (msk, payloads) \<Rightarrow>
         if msk = 0 then Inr None
         else Inr (Some (fold (\<lambda>payload out. out @ payload) payloads (to_le_bytes 4 msk))))))"

record lossy_residual =
  lr_bytes :: "byte list"
  lr_recon :: "byte list"
  lr_distortion :: nat
  lr_stats :: residual_counts

definition lossy_blocks ::
  "(eye_frame \<Rightarrow> byte list) \<Rightarrow> (byte list \<Rightarrow> eye_frame \<Rightarrow> eye_frame) \<Rightarrow> eye_frame \<Rightarrow> eye_frame \<Rightarrow> int \<Rightarrow> nat option \<Rightarrow>
    nat \<Rightarrow> nat \<Rightarrow> nat \<Rightarrow> nat \<Rightarrow> nat \<Rightarrow> nat \<Rightarrow> eye_frame \<times> u32 \<times> byte list list \<times> nat \<times> residual_counts \<Rightarrow>
    (eye_frame \<times> u32 \<times> byte list list \<times> nat \<times> residual_counts) result" where
  "lossy_blocks get upd src pred q_step threshold stride bsz per first count mb_index st =
     forR (\<lambda>block (recon_eye, msk, payloads, distortion, stats).
       let (bx, b_y) = block_xy bsz per mb_index block in
       bindR (lossy_block_payload (get src) (get pred) (get recon_eye) stride bx b_y q_step threshold distortion stats)
         (\<lambda>(payload, plane, distortion, stats).
       let recon_eye = upd plane recon_eye in
       case payload of
         Some payload \<Rightarrow> Inr (recon_eye, msk OR push_bit (first + block) 1, payloads @ [payload], distortion, stats)
       | None \<Rightarrow> Inr (recon_eye, msk, payloads, distortion, stats)))
       [0..<count] st"

definition build_lossy_residual :: "eye_frame \<Rightarrow> eye_frame \<Rightarrow> nat \<Rightarrow> int \<Rightarrow> nat option \<Rightarrow> lossy_residual result" where
  "build_lossy_residual src pred mb_index q_step threshold =
     bindR (lossy_blocks eye_y (\<lambda>p e. e\<lparr>eye_y := p\<rparr>) src pred q_step threshold EYE_W 16 4 0 16 mb_index
       (pred, 0, [], 0, ResidualStats_default)) (\<lambda>st.
     bindR (lossy_blocks eye_cb (\<lambda>p e. e\<lparr>eye_cb := p\<rparr>) src pred q_step threshold CHROMA_W 8 2 16 4 mb_index st) (\<lambda>st.
     bindR (lossy_blocks eye_cr (\<lambda>p e. e\<lparr>eye_cr := p\<rparr>) src pred q_step threshold CHROMA_W 8 2 20 4 mb_index st)
       (\<lambda>(recon_eye, msk, payloads, distortion, stats).
     let bytes = fold (\<lambda>payload out. out @ payload) payloads (to_le_bytes 4 msk) in
     bindR (raw_mb_bytes recon_eye mb_index) (\<lambda>recon.
     Inr \<lparr>lr_bytes = bytes, lr_recon = recon, lr_distortion = distortion, lr_stats = stats\<rparr>))))"

section \<open>Coded blocks\<close>

text \<open>After \<open>n\<close> blocks: which were coded, as what bytes, and what the frame shows.\<close>

definition coded :: "nat \<Rightarrow> nat \<Rightarrow> eye_frame \<Rightarrow> eye_frame \<Rightarrow> (nat \<times> blk) list \<Rightarrow> u32 \<Rightarrow> byte list list \<Rightarrow> bool" where
  "coded mb n pred recon bs msk payloads \<longleftrightarrow>
     wf_eye recon \<and> recon = put_mb_blks mb bs pred \<and>
     (\<forall>K<24. n \<le> K \<longrightarrow> mb_samples mb K recon = mb_samples mb K pred) \<and>
     sorted (map fst bs) \<and> distinct (map fst bs) \<and> (\<forall>p\<in>set bs. fst p < n) \<and> msk = mask_of (map fst bs) \<and>
     list_all2 (\<lambda>payload p. codes payload (snd p)) payloads bs"

lemma coded_0: "wf_eye pred \<Longrightarrow> coded mb 0 pred pred [] 0 []"
  by (simp add: coded_def mask_of_def)

fun add_blk :: "nat \<Rightarrow> blk option \<Rightarrow> (nat \<times> blk) list \<Rightarrow> (nat \<times> blk) list" where
  "add_blk n None bs = bs"
| "add_blk n (Some b) bs = bs @ [(n, b)]"

lemma coded_step:
  assumes "coded mb n pred recon bs msk payloads" and "n < 24" and "mb < MB_COUNT" and "length tv = 16"
    and "codes_block ob bo (mb_samples mb n pred) tv"
  shows "coded mb (Suc n) pred (put_mb_vals mb n tv recon) (add_blk n bo bs)
    (case ob of None \<Rightarrow> msk | Some _ \<Rightarrow> msk OR push_bit n 1) (case ob of None \<Rightarrow> payloads | Some p \<Rightarrow> payloads @ [p])"
proof -
  have w: "wf_eye recon" and r: "recon = put_mb_blks mb bs pred" and m: "msk = mask_of (map fst bs)"
    and keep: "\<forall>K<24. n \<le> K \<longrightarrow> mb_samples mb K recon = mb_samples mb K pred"
    and ks: "sorted (map fst bs)" "distinct (map fst bs)" "\<forall>p\<in>set bs. fst p < n"
    and ps: "list_all2 (\<lambda>payload p. codes payload (snd p)) payloads bs"
    using assms(1) unfolding coded_def by blast+
  have c: "codes_block ob bo (mb_samples mb n recon) tv" using assms(2,5) keep by simp
  from codes_block_put[OF w assms(3,2) c]
  have put: "put_mb_vals mb n tv recon = (case bo of None \<Rightarrow> recon | Some b \<Rightarrow> put_mb_blk mb (n, b) recon)" .
  have later: "\<forall>K<24. Suc n \<le> K \<longrightarrow> mb_samples mb K (put_mb_vals mb n tv recon) = mb_samples mb K pred"
    using keep mb_samples_put[OF w assms(3) _ assms(2,4)] by simp
  from c show ?thesis
  proof (cases rule: codes_blockE)
    case 1
    then have same: "put_mb_vals mb n tv recon = recon" using put by simp
    show ?thesis using w r m later ks ps 1 unfolding same coded_def by (auto intro: less_SucI)
  next
    case (2 p b)
    have "sorted (map fst bs @ [n])" "n \<notin> set (map fst bs)"
      using ks by (auto simp: sorted_append less_imp_le)
    moreover have "list_all2 (\<lambda>payload p. codes payload (snd p)) (payloads @ [p]) (bs @ [(n, b)])"
      using ps 2 by (simp add: list_all2_appendI)
    moreover have "put_mb_vals mb n tv recon = put_mb_blks mb (bs @ [(n, b)]) pred"
      using put 2 r by simp
    moreover have "\<forall>p\<in>set (bs @ [(n, b)]). fst p < Suc n" using ks by auto
    moreover have "wf_eye pred" using w r by simp
    ultimately show ?thesis using later 2 w ks unfolding coded_def by (simp add: mask_of_append m)
  qed
qed

section \<open>Reading the bytes back\<close>

lemma parse_coded_blocks:
  assumes "list_all2 (\<lambda>payload p. codes payload (snd p)) payloads bs" and "rest r = concat payloads @ post"
  shows "forR (\<lambda>block (bs, r). bindR (parse_block r) (\<lambda>(b, r). Inr (bs @ [(block, b)], r))) (map fst bs) (bs0, r) =
    Inr (bs0 @ bs, adv (length (concat payloads)) r)"
  using assms
proof (induction payloads bs arbitrary: bs0 r rule: list_all2_induct)
  case (Cons payload payloads p bs)
  then have "parse_block r = Inr (snd p, adv (length payload) r)" by (simp add: codes_def)
  moreover have "rest (adv (length payload) r) = concat payloads @ post" using Cons.prems by simp
  ultimately show ?case using Cons.IH[of "adv (length payload) r" "bs0 @ [(fst p, snd p)]"] by simp
qed simp

lemma small_mask:
  assumes "\<forall>k\<in>set ks. k < 24"
  shows "mask_of ks AND 0xff000000 = (0 :: u32)"
proof -
  have "k \<notin> set ks \<or> \<not> bit (0xff000000 :: u32) k" for k
  proof (cases "k < 24")
    case True
    then have "k \<in> set [0..<24]" by simp
    moreover have "\<forall>k\<in>set [0..<24]. \<not> bit (0xff000000 :: u32) k" by (simp add: upt_rec)
    ultimately show ?thesis by blast
  qed (use assms in auto)
  then show ?thesis by (auto simp: bit_eq_iff bit_and_iff bit_mask_of)
qed

lemma fold_concat: "fold (\<lambda>payload out. out @ payload) payloads out = out @ concat payloads"
  by (induction payloads arbitrary: out) auto

lemma parse_residual_written:
  assumes "list_all2 (\<lambda>payload p. codes payload (snd p)) payloads bs"
    and "sorted (map fst bs)" "distinct (map fst bs)" "\<forall>p\<in>set bs. fst p < 24"
    and "rest r = (to_le_bytes 4 (mask_of (map fst bs) :: u32) @ concat payloads) @ post"
  shows "parse_mb_residual r = Inr (bs, adv (4 + length (concat payloads)) r)"
proof -
  have "rd_u32 r = Inr (mask_of (map fst bs), adv 4 r)"
    using assms(5) by (intro rd_u32_put[where post = "concat payloads @ post"]) simp
  moreover have "set_bits_of (mask_of (map fst bs) :: u32) = map fst bs"
    using assms(2-4) by (intro set_bits_of_mask_of) auto
  moreover have "rest (adv 4 r) = concat payloads @ post" using assms(5) by simp
  moreover have "mask_of (map fst bs) AND 0xff000000 = (0 :: u32)" using assms(4) by (intro small_mask) auto
  ultimately show ?thesis
    using parse_coded_blocks[OF assms(1), of "adv 4 r" post "[]"] by (simp add: parse_mb_residual_def)
qed

section \<open>Recounting the blocks\<close>

definition count_blks :: "(nat \<times> blk) list \<Rightarrow> residual_counts" where
  "count_blks bs = fold (\<lambda>p. count_blk (Some (snd p))) bs ResidualStats_default"

text \<open>The tag and the length of a block's payload.\<close>

lemma codes_shape:
  assumes "codes bs b"
  shows "case b of
      RawBlk _ \<Rightarrow> hd bs = TAG_RAW_4X4 \<and> length bs = 17
    | DcBlk _ \<Rightarrow> (hd bs = TAG_DC_ONLY_S8 \<and> length bs = 2) \<or> (hd bs = TAG_DC_ONLY_S16 \<and> length bs = 3)
    | IdctBlk _ \<Rightarrow> 3 \<le> length bs \<and>
        ((hd bs = TAG_AC_MASK_S8 \<and> length bs = 3 + count_ones (from_le_bytes (take 2 (tl bs)) :: u16)) \<or>
         (hd bs = TAG_AC_MASK_S16 \<and> length bs = 3 + 2 * count_ones (from_le_bytes (take 2 (tl bs)) :: u16)))"
proof -
  define r where "r = reader_new bs"
  have rest: "rest r = bs" by (simp add: r_def reader_new_def rest_def)
  have adv_eq: "adv m r = adv n r \<longleftrightarrow> m = n" for m n by (cases r) (simp add: adv_def)
  obtain t tail where bs: "bs = t # tail" using assms by (cases bs) (auto simp: codes_def)
  have p: "parse_block r = Inr (b, adv (length bs) r)" using assms rest by (simp add: codes_def)
  have r1: "rest (adv 1 r) = tail" using rest bs by simp
  have ac: "length bs = 3 + n * count_ones (from_le_bytes (take 2 tail) :: u16) \<and> 3 \<le> length bs \<and> (\<exists>cs. b = IdctBlk cs)"
    if "bindR (rd_u16 (adv 1 r)) (\<lambda>(nz_mask, r). bindR (read nz_mask r) (\<lambda>(cs, r). Inr (IdctBlk cs, r))) = Inr (b, adv (length bs) r)"
      and shape: "\<And>m r cs r'. read m r = Inr (cs, r') \<Longrightarrow> r' = adv (n * count_ones m) r" for n and read :: "u16 \<Rightarrow> reader \<Rightarrow> (int list \<times> reader) result"
  proof -
    from that(1) obtain cs r' where "2 \<le> length tail" "b = IdctBlk cs" "adv (length bs) r = r'"
      "read (from_le_bytes (take 2 tail)) (adv 3 r) = Inr (cs, r')"
      by (auto simp: rd_u16_rest bs r1[simplified] bindR_eq_Inr_iff split: if_splits prod.splits simp flip: numeral_3_eq_3)
    from shape[OF this(4)] this show ?thesis by (auto simp: adv_eq bs)
  qed
  have s8: "read_coeffs_s8 m r0 = Inr (cs, r') \<Longrightarrow> r' = adv (1 * count_ones m) r0" for m r0 cs r'
    using coeffs_s8_shape[of m r0] by simp
  have s16: "read_coeffs_s16 m r0 = Inr (cs, r') \<Longrightarrow> r' = adv (2 * count_ones m) r0" for m r0 cs r'
    using coeffs_s16_shape[of m r0] by (simp add: mult.commute)
  consider "t = TAG_RAW_4X4" | "t = TAG_DC_ONLY_S8" | "t = TAG_DC_ONLY_S16" | "t = TAG_AC_MASK_S8" | "t = TAG_AC_MASK_S16"
    using p by (auto simp: parse_block_def rd_u8_cons[of r t tail] rest bs split: if_splits)
  then show ?thesis
  proof cases
    case 1
    then show ?thesis using p
      by (auto simp: parse_block_def rd_u8_cons[of r t tail] rest bs adv_eq split: if_splits)
  next
    case 2
    then show ?thesis using p
      by (auto simp: parse_block_def rd_u8_cons[of r t tail] rest bs rd_i8_rest adv_eq tag_defs r1[simplified] split: if_splits list.splits)
  next
    case 3
    then show ?thesis using p
      by (auto simp: parse_block_def rd_u8_cons[of r t tail] rest bs rd_i16_rest adv_eq tag_defs split: if_splits)
  next
    case 4
    have "bindR (rd_u16 (adv 1 r)) (\<lambda>(nz_mask, r). bindR (read_coeffs_s8 nz_mask r) (\<lambda>(cs, r). Inr (IdctBlk cs, r))) = Inr (b, adv (length bs) r)"
      using p 4 by (simp add: parse_block_def rd_u8_cons[of r t tail] rest bs tag_defs)
    then have "length bs = 3 + 1 * count_ones (from_le_bytes (take 2 tail) :: u16) \<and> 3 \<le> length bs \<and> (\<exists>cs. b = IdctBlk cs)"
      by (rule ac) (erule s8)
    with 4 show ?thesis by (auto simp: bs)
  next
    case 5
    have "bindR (rd_u16 (adv 1 r)) (\<lambda>(nz_mask, r). bindR (read_coeffs_s16 nz_mask r) (\<lambda>(cs, r). Inr (IdctBlk cs, r))) = Inr (b, adv (length bs) r)"
      using p 5 by (simp add: parse_block_def rd_u8_cons[of r t tail] rest bs tag_defs)
    then have "length bs = 3 + 2 * count_ones (from_le_bytes (take 2 tail) :: u16) \<and> 3 \<le> length bs \<and> (\<exists>cs. b = IdctBlk cs)"
      by (rule ac) (erule s16)
    with 5 show ?thesis by (auto simp: bs)
  qed
qed


lemma tag_class:
  "TAG_DC_ONLY_S8 AND 0xc0 = 0x00" "TAG_DC_ONLY_S16 AND 0xc0 = 0x40" "TAG_AC_MASK_S8 AND 0xc0 = 0x80"
  "TAG_AC_MASK_S16 AND 0xc0 = 0xc0" "TAG_AC_MASK_S16 AND 0x20 = 0" "TAG_RAW_4X4 AND 0xc0 = 0xc0" "TAG_RAW_4X4 AND 0x20 \<noteq> 0"
  by (simp_all add: tag_defs)

lemma count_step:
  assumes "codes bs b" and "bit (m :: u32) K" and "K < 24"
  shows "residual_stats_loop m (pre @ bs @ post) (K # Ks) (length pre) st =
    residual_stats_loop m (pre @ bs @ post) Ks (length pre + length bs) (count_blk (Some b) st)"
proof -
  obtain t tail where bs: "bs = t # tail" using assms(1) by (cases bs) (auto simp: codes_def)
  have m: "m AND push_bit K 1 \<noteq> 0" using assms(2,3) and_push_bit_1[of K m] by simp
  have nth: "(pre @ bs @ post) ! length pre = t" by (simp add: bs)
  have two: "take 2 tail = [(pre @ bs @ post) ! (length pre + 1), (pre @ bs @ post) ! (length pre + 1 + 1)]" if "2 \<le> length tail"
    using that by (cases tail; cases "tl tail") (auto simp: bs nth_append)
  note shape = codes_shape[OF assms(1)]
  note step = residual_stats_loop.simps(2)[of m "pre @ bs @ post" K Ks "length pre" st] if_not_P[OF m] nth Let_def
  show ?thesis
  proof (cases b)
    case (RawBlk xs)
    with shape have t: "t = TAG_RAW_4X4" "length pre + 1 + 16 = length pre + length bs" by (auto simp: bs)
    moreover have "bs \<noteq> []" by (simp add: bs)
    ultimately show ?thesis unfolding step t(2) by (simp add: tag_class RawBlk)
  next
    case (DcBlk d)
    with shape consider "t = TAG_DC_ONLY_S8" "length bs = 2" | "t = TAG_DC_ONLY_S16" "length bs = 3" by (auto simp: bs)
    then show ?thesis
    proof cases
      case 1
      then show ?thesis unfolding step by (simp add: tag_class DcBlk)
    next
      case 2
      then show ?thesis unfolding step by (simp add: tag_class DcBlk numeral_3_eq_3)
    qed
  next
    case (IdctBlk cs)
    let ?m = "from_le_bytes (take 2 tail) :: u16"
    from shape IdctBlk have l: "2 \<le> length tail" by (auto simp: bs)
    from shape IdctBlk consider "t = TAG_AC_MASK_S8" "length bs = 3 + count_ones ?m" | "t = TAG_AC_MASK_S16" "length bs = 3 + 2 * count_ones ?m"
      by (auto simp: bs)
    then show ?thesis
    proof cases
      case 1
      then have e: "length pre + 1 + 2 + count_ones ?m = length pre + length bs" and "3 \<le> length bs" by simp_all
      moreover from this(2) have "bs \<noteq> []" by auto
      ultimately show ?thesis unfolding step two[OF l, symmetric] e using 1(1) by (simp add: tag_class IdctBlk)
    next
      case 2
      then have e: "length pre + 1 + 2 + count_ones ?m * 2 = length pre + length bs" and "3 \<le> length bs" by simp_all
      moreover from this(2) have "bs \<noteq> []" by auto
      ultimately show ?thesis unfolding step two[OF l, symmetric] e using 2(1) by (simp add: tag_class IdctBlk)
    qed
  qed
qed

lemma count_all:
  assumes "list_all2 (\<lambda>payload p. codes payload (snd p)) payloads bs" and "sorted (map fst bs)" "distinct (map fst bs)"
    and "\<forall>p\<in>set bs. fst p \<in> set [n..<24]" and "\<forall>K\<in>set [n..<24]. bit (m :: u32) K \<longleftrightarrow> K \<in> set (map fst bs)"
  shows "residual_stats_loop m (pre @ concat payloads @ post) [n..<24] (length pre) st =
    fold (\<lambda>p. count_blk (Some (snd p))) bs st"
  using assms
proof (induction "24 - n" arbitrary: n payloads bs pre st)
  case 0
  then have "bs = []" by (cases bs) auto
  with 0 show ?case by simp
next
  case (Suc d)
  then have n: "n < 24" "d = 24 - Suc n" by simp_all
  show ?case
  proof (cases "n \<in> set (map fst bs)")
    case False
    then have b: "\<not> bit m n" using Suc.prems(5) n by simp
    have "residual_stats_loop m (pre @ concat payloads @ post) [Suc n..<24] (length pre) st = fold (\<lambda>p. count_blk (Some (snd p))) bs st"
    proof (rule Suc.hyps(1)[OF n(2) Suc.prems(1-3)])
      show "\<forall>p\<in>set bs. fst p \<in> set [Suc n..<24]"
      proof
        fix p assume "p \<in> set bs"
        then have "fst p \<in> set [n..<24]" "fst p \<noteq> n" using Suc.prems(4) False by auto
        then show "fst p \<in> set [Suc n..<24]" by auto
      qed
    qed (use Suc.prems(5) in auto)
    moreover have "m AND push_bit n 1 = 0" using b n(1) and_push_bit_1[of n m] by simp
    ultimately show ?thesis using n(1) by (simp add: upt_conv_Cons del: push_bit_of_1)
  next
    case True
    then obtain p bs' where bs: "bs = p # bs'" by (cases bs) auto
    have p: "fst p = n"
    proof (rule ccontr)
      assume ne: "fst p \<noteq> n"
      have "fst p \<in> set [n..<24]" using Suc.prems(4) by (simp add: bs)
      with ne have "n < fst p" by auto
      moreover have "n \<in> set (map fst bs')" using True ne by (simp add: bs)
      then have "fst p \<le> n" using Suc.prems(2) by (auto simp: bs)
      ultimately show False by simp
    qed
    from Suc.prems(1) obtain payload payloads' where ps: "payloads = payload # payloads'" "codes payload (snd p)"
      "list_all2 (\<lambda>payload p. codes payload (snd p)) payloads' bs'"
      unfolding bs list_all2_Cons2 by blast
    have bit: "bit m n" using Suc.prems(5) True n(1) by simp
    have notin: "n \<notin> set (map fst bs')" using Suc.prems(3) p by (simp add: bs)
    have "residual_stats_loop m ((pre @ payload) @ concat payloads' @ post) [Suc n..<24] (length (pre @ payload)) (count_blk (Some (snd p)) st) =
        fold (\<lambda>p. count_blk (Some (snd p))) bs' (count_blk (Some (snd p)) st)"
    proof (rule Suc.hyps(1)[OF n(2) ps(3)])
      show "sorted (map fst bs')" "distinct (map fst bs')" using Suc.prems(2,3) by (auto simp: bs)
      show "\<forall>q\<in>set bs'. fst q \<in> set [Suc n..<24]"
      proof
        fix q assume q: "q \<in> set bs'"
        then have "fst q \<in> set [n..<24]" "fst q \<noteq> n" using Suc.prems(4) notin by (auto simp: bs)
        then show "fst q \<in> set [Suc n..<24]" by auto
      qed
      show "\<forall>K\<in>set [Suc n..<24]. bit m K = (K \<in> set (map fst bs'))" using Suc.prems(5) p by (auto simp: bs)
    qed
    moreover have "[n..<24] = n # [Suc n..<24]" using n(1) by (rule upt_conv_Cons)
    ultimately show ?thesis
      using count_step[OF ps(2) bit n(1), of pre "concat payloads' @ post" "[Suc n..<24]" st] ps(1) by (simp add: bs)
  qed
qed

lemma count_written:
  assumes "list_all2 (\<lambda>payload p. codes payload (snd p)) payloads bs"
    and "sorted (map fst bs)" "distinct (map fst bs)" "\<forall>p\<in>set bs. fst p < 24"
  shows "residual_stats (to_le_bytes 4 (mask_of (map fst bs) :: u32) @ concat payloads) = count_blks bs"
proof -
  let ?h = "to_le_bytes 4 (mask_of (map fst bs) :: u32)"
  have h: "length ?h = 4" by simp
  then have "?h = [?h ! 0, ?h ! 1, ?h ! 2, ?h ! 3]"
    by (intro nth_equalityI) (auto simp: nth_Cons' numeral_eq_Suc less_Suc_eq)
  then have "residual_mask (?h @ concat payloads) = from_le_bytes ?h" using h by (simp add: residual_mask_def nth_append)
  then have m: "residual_mask (?h @ concat payloads) = mask_of (map fst bs)" by (simp add: from_to_le_bytes)
  have "\<forall>K\<in>set [0..<24]. bit (mask_of (map fst bs) :: u32) K = (K \<in> set (map fst bs))" by (auto simp: bit_mask_of)
  from count_all[OF assms(1-3) _ this, of ?h "[]" ResidualStats_default] assms(4) show ?thesis
    by (simp add: residual_stats_def m count_blks_def)
qed


section \<open>The loops over the planes\<close>

definition plane_blocks :: "nat \<Rightarrow> (eye_frame \<Rightarrow> byte list) \<Rightarrow> (byte list \<Rightarrow> eye_frame \<Rightarrow> eye_frame) \<Rightarrow> nat \<Rightarrow> nat \<Rightarrow> nat \<Rightarrow> nat \<Rightarrow> nat \<Rightarrow> bool" where
  "plane_blocks mb get upd stride bsz per first count \<longleftrightarrow>
     (\<forall>block<count. first + block < 24 \<and> block_xy bsz per mb block = (blk_x mb (first + block), blk_y mb (first + block)) \<and>
        stride = blk_stride (first + block) \<and> (\<forall>e. get e = blk_plane (first + block) e) \<and>
        (\<forall>p e. upd p e = set_blk_plane (first + block) p e))"

lemma three_planes:
  "plane_blocks mb eye_y (\<lambda>p e. e\<lparr>eye_y := p\<rparr>) EYE_W 16 4 0 16"
  "plane_blocks mb eye_cb (\<lambda>p e. e\<lparr>eye_cb := p\<rparr>) CHROMA_W 8 2 16 4"
  "plane_blocks mb eye_cr (\<lambda>p e. e\<lparr>eye_cr := p\<rparr>) CHROMA_W 8 2 20 4"
proof -
  show "plane_blocks mb eye_y (\<lambda>p e. e\<lparr>eye_y := p\<rparr>) EYE_W 16 4 0 16"
    by (simp add: plane_blocks_def block_xy_def blk_x_def blk_y_def blk_stride_def blk_plane_def set_blk_plane_def)
  show "plane_blocks mb eye_cb (\<lambda>p e. e\<lparr>eye_cb := p\<rparr>) CHROMA_W 8 2 16 4"
    by (simp add: plane_blocks_def block_xy_def blk_x_def blk_y_def blk_stride_def blk_plane_def set_blk_plane_def)
  have "(4 + block) mod 4 = block" if "block < 4" for block :: nat using that by simp
  then show "plane_blocks mb eye_cr (\<lambda>p e. e\<lparr>eye_cr := p\<rparr>) CHROMA_W 8 2 20 4"
    by (simp add: plane_blocks_def block_xy_def blk_x_def blk_y_def blk_stride_def blk_plane_def set_blk_plane_def)
qed

definition lossless_inv :: "nat \<Rightarrow> eye_frame \<Rightarrow> eye_frame \<Rightarrow> nat \<Rightarrow> (u32 \<times> byte list list) option \<Rightarrow> bool" where
  "lossless_inv mb src pred n st \<longleftrightarrow> (\<exists>msk payloads recon bs. st = Some (msk, payloads) \<and>
     coded mb n pred recon bs msk payloads \<and> (\<forall>K<n. mb_samples mb K recon = mb_samples mb K src))"

lemma lossless_blocks_ok:
  assumes wf: "wf_eye src" "wf_eye pred" "mb < MB_COUNT" and planes: "plane_blocks mb get upd stride bsz per first count"
    and start: "lossless_inv mb src pred first st"
  shows "okR (lossless_inv mb src pred (first + count)) (lossless_blocks (get src) (get pred) stride bsz per first count mb st)"
  unfolding lossless_blocks_def
proof (rule okR_forR_upt[where I = "\<lambda>block. lossless_inv mb src pred (first + block)"])
  fix block st assume block: "block < count" and I: "lossless_inv mb src pred (first + block) st"
  let ?K = "first + block"
  from planes block have K: "?K < 24" and xy: "block_xy bsz per mb block = (blk_x mb ?K, blk_y mb ?K)"
    and pl: "stride = blk_stride ?K" "\<And>e. get e = blk_plane ?K e" by (auto simp: plane_blocks_def)
  from I obtain msk payloads recon bs where st: "st = Some (msk, payloads)" and c: "coded mb ?K pred recon bs msk payloads"
    and same: "\<forall>J<?K. mb_samples mb J recon = mb_samples mb J src" by (auto simp: lossless_inv_def)
  have w: "wf_eye recon" using c unfolding coded_def by blast
  obtain out bo where out: "lossless_block_payload (get src) (get pred) stride (blk_x mb ?K) (blk_y mb ?K) = Inr (Some out)"
    and code: "codes_block (if out = [] then None else Some out) bo (mb_samples mb ?K pred) (mb_samples mb ?K src)"
    using lossless_block_payload_ok[OF blk_fits_plane[OF wf(1,3) K] blk_fits_plane[OF wf(2,3) K]]
    by (auto simp: pl mb_samples_def)
  note step = coded_step[OF c K wf(3) _ code]
  have "mb_samples mb J (put_mb_vals mb ?K (mb_samples mb ?K src) recon) = mb_samples mb J src" if "J < Suc ?K" for J
    using mb_samples_put[OF w wf(3) _ K, of J "mb_samples mb ?K src"] that same K by (cases "J = ?K") auto
  then have "lossless_inv mb src pred (Suc ?K) (Some (if out \<noteq> [] then (msk OR push_bit ?K 1, payloads @ [out]) else (msk, payloads)))"
    using step by (cases "out = []") (auto simp: lossless_inv_def simp del: push_bit_of_1)
  then show "okR (lossless_inv mb src pred (first + Suc block)) (case st of None \<Rightarrow> Inr None | Some (msk, payloads) \<Rightarrow>
       let (bx, b_y) = block_xy bsz per mb block in
       bindR (lossless_block_payload (get src) (get pred) stride bx b_y) (\<lambda>payload. case payload of
         None \<Rightarrow> Inr None
       | Some payload \<Rightarrow> Inr (Some (if payload \<noteq> [] then (msk OR push_bit (first + block) 1, payloads @ [payload]) else (msk, payloads)))))"
    by (simp add: st xy out del: push_bit_of_1)
qed (use start in simp_all)

lemma count_ones_le: "count_ones (w :: u16) \<le> 16"
  using length_filter_le[of "bit w" "[0..<16]"] by (simp add: count_ones_def set_bits_of_def)

lemma codes_length:
  assumes "codes bs b"
  shows "length bs \<le> 35"
  using codes_shape[OF assms] count_ones_le[of "from_le_bytes (take 2 (tl bs))"]
  by (cases b) (simp_all only: blk.case, linarith+)

text \<open>The largest residual: the mask and 24 blocks of 16 two-byte coefficients.\<close>

lemma coded_length:
  assumes "list_all2 (\<lambda>payload p. codes payload (snd p)) payloads bs" and "distinct (map fst bs)" and "\<forall>p\<in>set bs. fst p < (24 :: nat)"
  shows "length (concat payloads) \<le> 840"
proof -
  have "length (concat payloads) \<le> 35 * length bs"
    using assms(1) by (induction rule: list_all2_induct) (auto dest!: codes_length)
  moreover have "length (map fst bs) \<le> card {..<24 :: nat}"
    unfolding distinct_card[OF assms(2), symmetric] using assms(3) by (intro card_mono) auto
  ultimately show ?thesis by simp
qed

definition residual_codes :: "byte list \<Rightarrow> (nat \<times> blk) list \<Rightarrow> bool" where
  "residual_codes bytes bs \<longleftrightarrow> length bytes \<le> 844 \<and> (\<forall>p\<in>set bs. fst p < 24 \<and> blk_ok (snd p)) \<and>
     (\<forall>r post. rest r = bytes @ post \<longrightarrow> parse_mb_residual r = Inr (bs, adv (length bytes) r)) \<and>
     residual_stats bytes = count_blks bs"

lemma coded_codes:
  assumes "coded mb 24 pred recon bs msk payloads"
  shows "residual_codes (to_le_bytes 4 msk @ concat payloads) bs"
proof -
  from assms have ks: "sorted (map fst bs)" "distinct (map fst bs)" "\<forall>p\<in>set bs. fst p < 24"
    and m: "msk = mask_of (map fst bs)" and ps: "list_all2 (\<lambda>payload p. codes payload (snd p)) payloads bs"
    unfolding coded_def by blast+
  have "\<forall>p\<in>set bs. blk_ok (snd p)" using ps by (induction rule: list_all2_induct) (auto simp: codes_def)
  then show ?thesis
    using ks parse_residual_written[OF ps ks] count_written[OF ps ks] coded_length[OF ps ks(2,3)]
    by (auto simp: residual_codes_def m)
qed

lemma okR_three:
  assumes "I0 st" and "\<And>st. I0 st \<Longrightarrow> okR I1 (f st)" and "\<And>st. I1 st \<Longrightarrow> okR I2 (g st)" and "\<And>st. I2 st \<Longrightarrow> okR I3 (h st)"
  shows "okR I3 (bindR (f st) (\<lambda>st. bindR (g st) h))"
  using assms by (blast intro: okR_bind)

lemma block_sums: "0 + 16 = (16 :: nat)" "16 + 4 = (20 :: nat)" "20 + 4 = (24 :: nat)"
  by simp_all

theorem build_lossless_residual_ok:
  assumes "wf_eye src" and "wf_eye pred" and "mb < MB_COUNT"
  shows "okR (\<lambda>out. case out of
      None \<Rightarrow> agree {mb} pred src
    | Some bytes \<Rightarrow> \<exists>bs. residual_codes bytes bs \<and> agree {mb} (put_mb_blks mb bs pred) src)
    (build_lossless_residual src pred mb)"
proof -
  have "lossless_inv mb src pred 0 (Some (0, []))"
    using coded_0[OF assms(2)] by (auto simp: lossless_inv_def)
  then have "okR (lossless_inv mb src pred 24)
    (bindR (lossless_blocks (eye_y src) (eye_y pred) EYE_W 16 4 0 16 mb (Some (0, []))) (\<lambda>st.
     bindR (lossless_blocks (eye_cb src) (eye_cb pred) CHROMA_W 8 2 16 4 mb st) (\<lambda>st.
     lossless_blocks (eye_cr src) (eye_cr pred) CHROMA_W 8 2 20 4 mb st)))"
    by (rule okR_three) (rule three_planes[THEN lossless_blocks_ok[OF assms], unfolded block_sums], assumption)+
  then show ?thesis
    unfolding build_lossless_residual_def bindR_assoc[symmetric]
  proof (rule okR_bind)
    fix st assume "lossless_inv mb src pred 24 st"
    then obtain msk payloads recon bs where st: "st = Some (msk, payloads)" and c: "coded mb 24 pred recon bs msk payloads"
      and same: "\<forall>K<24. mb_samples mb K recon = mb_samples mb K src" by (auto simp: lossless_inv_def)
    from c have w: "wf_eye recon" and r: "recon = put_mb_blks mb bs pred" and m: "msk = mask_of (map fst bs)"
      and small: "\<forall>p\<in>set bs. fst p < 24" unfolding coded_def by blast+
    have a: "agree {mb} (put_mb_blks mb bs pred) src" using agree_mb_samples[OF w assms(1,3) same] by (simp add: r)
    have "bs = []" if "msk = 0"
      using that small mask_of_eq_0_iff[where 'a = 32 and ks = "map fst bs"] by (force simp: m)
    then show "okR (\<lambda>out. case out of
        None \<Rightarrow> agree {mb} pred src
      | Some bytes \<Rightarrow> \<exists>bs. residual_codes bytes bs \<and> agree {mb} (put_mb_blks mb bs pred) src)
      (case st of None \<Rightarrow> Inr None
       | Some (msk, payloads) \<Rightarrow>
           if msk = 0 then Inr None
           else Inr (Some (fold (\<lambda>payload out. out @ payload) payloads (to_le_bytes 4 msk))))"
      using a coded_codes[OF c] by (auto simp: st fold_concat)
  qed
qed

section \<open>The lossy residual\<close>

definition mb_sse :: "nat \<Rightarrow> eye_frame \<Rightarrow> eye_frame \<Rightarrow> nat" where
  "mb_sse mb a b = (\<Sum>K<24. sse (mb_samples mb K a) (mb_samples mb K b))"

fun lossy_inv :: "nat \<Rightarrow> eye_frame \<Rightarrow> eye_frame \<Rightarrow> nat \<Rightarrow> eye_frame \<times> u32 \<times> byte list list \<times> nat \<times> residual_counts \<Rightarrow> bool" where
  "lossy_inv mb src pred n (recon, msk, payloads, distortion, stats) \<longleftrightarrow> (\<exists>bs.
     coded mb n pred recon bs msk payloads \<and>
     distortion = (\<Sum>K<n. sse (mb_samples mb K src) (mb_samples mb K recon)) \<and> stats = count_blks bs)"

lemma count_blks_add: "count_blks (add_blk n bo bs) = count_blk bo (count_blks bs)"
  by (cases bo) (simp_all add: count_blks_def)

lemma lossy_blocks_ok:
  assumes wf: "wf_eye src" "wf_eye pred" "mb < MB_COUNT" and planes: "plane_blocks mb get upd stride bsz per first count"
    and start: "lossy_inv mb src pred first st"
  shows "okR (lossy_inv mb src pred (first + count)) (lossy_blocks get upd src pred q_step threshold stride bsz per first count mb st)"
  unfolding lossy_blocks_def
proof (rule okR_forR_upt[where I = "\<lambda>block. lossy_inv mb src pred (first + block)"])
  fix block st assume block: "block < count" and I: "lossy_inv mb src pred (first + block) st"
  let ?K = "first + block"
  from planes block have K: "?K < 24" and xy: "block_xy bsz per mb block = (blk_x mb ?K, blk_y mb ?K)"
    and pl: "stride = blk_stride ?K" "\<And>e. get e = blk_plane ?K e" "\<And>p e. upd p e = set_blk_plane ?K p e" by (auto simp: plane_blocks_def)
  obtain recon msk payloads distortion stats where st: "st = (recon, msk, payloads, distortion, stats)" by (metis prod_cases5)
  with I obtain bs where c: "coded mb ?K pred recon bs msk payloads"
    and d: "distortion = (\<Sum>K<?K. sse (mb_samples mb K src) (mb_samples mb K recon))" and stats: "stats = count_blks bs" by auto
  have w: "wf_eye recon" using c unfolding coded_def by blast
  obtain ob plane dist cnt bo tv where out: "lossy_block_payload (blk_plane ?K src) (blk_plane ?K pred) (blk_plane ?K recon) (blk_stride ?K)
        (blk_x mb ?K) (blk_y mb ?K) q_step threshold distortion stats = Inr (ob, plane, dist, cnt)"
    and code: "codes_block ob bo (mb_samples mb ?K pred) tv" and tv: "length tv = 16"
    and plane: "plane = put_vals (blk_stride ?K) (blk_x mb ?K) (blk_y mb ?K) tv (blk_plane ?K recon)"
    and dist: "dist = distortion + sse (mb_samples mb ?K src) tv" and cnt: "cnt = count_blk bo stats"
  proof -
    obtain r where r: "lossy_block_payload (blk_plane ?K src) (blk_plane ?K pred) (blk_plane ?K recon) (blk_stride ?K)
        (blk_x mb ?K) (blk_y mb ?K) q_step threshold distortion stats = Inr r"
      and res: "lossy_result (blk_stride ?K) (blk_x mb ?K) (blk_y mb ?K) (blk_plane ?K src) (blk_plane ?K pred) (blk_plane ?K recon) distortion stats r"
      using lossy_block_payload_ok[OF blk_fits_plane[OF wf(1,3) K] blk_fits_plane[OF wf(2,3) K] blk_fits_plane[OF w wf(3) K],
        of distortion stats q_step threshold] unfolding okR_def by blast
    obtain ob plane dist cnt where "r = (ob, plane, dist, cnt)" by (metis prod_cases4)
    with r res that show ?thesis unfolding lossy_result_def mb_samples_def by auto
  qed
  have put: "set_blk_plane ?K plane recon = put_mb_vals mb ?K tv recon" by (simp add: plane put_mb_vals_def)
  have "dist = (\<Sum>K<Suc ?K. sse (mb_samples mb K src) (mb_samples mb K (put_mb_vals mb ?K tv recon)))"
    using mb_samples_put[OF w wf(3) _ K tv] K by (simp add: dist d)
  moreover have "cnt = count_blks (add_blk ?K bo bs)" by (simp add: cnt stats count_blks_add)
  ultimately have "lossy_inv mb src pred (Suc ?K) (put_mb_vals mb ?K tv recon,
      case ob of None \<Rightarrow> msk | Some _ \<Rightarrow> msk OR push_bit ?K 1, case ob of None \<Rightarrow> payloads | Some p \<Rightarrow> payloads @ [p], dist, cnt)"
    using coded_step[OF c K wf(3) tv code] by auto
  then show "okR (lossy_inv mb src pred (first + Suc block)) (case st of (recon_eye, msk, payloads, distortion, stats) \<Rightarrow>
       let (bx, b_y) = block_xy bsz per mb block in
       bindR (lossy_block_payload (get src) (get pred) (get recon_eye) stride bx b_y q_step threshold distortion stats)
         (\<lambda>(payload, plane, distortion, stats).
       let recon_eye = upd plane recon_eye in
       case payload of
         Some payload \<Rightarrow> Inr (recon_eye, msk OR push_bit (first + block) 1, payloads @ [payload], distortion, stats)
       | None \<Rightarrow> Inr (recon_eye, msk, payloads, distortion, stats)))"
    unfolding st prod.case xy Let_def pl out bindR_simps put by (cases ob) (simp_all del: push_bit_of_1)
qed (use start in simp_all)

theorem build_lossy_residual_ok:
  assumes "wf_eye src" and "wf_eye pred" and "mb < MB_COUNT"
  shows "okR (\<lambda>res. \<exists>bs. residual_codes (lr_bytes res) bs \<and> lr_recon res = raw_bytes (put_mb_blks mb bs pred) mb \<and>
      lr_distortion res = mb_sse mb src (put_mb_blks mb bs pred) \<and> lr_stats res = count_blks bs)
    (build_lossy_residual src pred mb q_step threshold)"
proof -
  have "lossy_inv mb src pred 0 (pred, 0, [], 0, ResidualStats_default)"
    using coded_0[OF assms(2)] by (auto simp: count_blks_def intro!: exI[of _ "[]"])
  then have "okR (lossy_inv mb src pred 24)
    (bindR (lossy_blocks eye_y (\<lambda>p e. e\<lparr>eye_y := p\<rparr>) src pred q_step threshold EYE_W 16 4 0 16 mb (pred, 0, [], 0, ResidualStats_default)) (\<lambda>st.
     bindR (lossy_blocks eye_cb (\<lambda>p e. e\<lparr>eye_cb := p\<rparr>) src pred q_step threshold CHROMA_W 8 2 16 4 mb st) (\<lambda>st.
     lossy_blocks eye_cr (\<lambda>p e. e\<lparr>eye_cr := p\<rparr>) src pred q_step threshold CHROMA_W 8 2 20 4 mb st)))"
    by (rule okR_three) (rule three_planes[THEN lossy_blocks_ok[OF assms], unfolded block_sums], assumption)+
  then show ?thesis
    unfolding build_lossy_residual_def bindR_assoc[symmetric]
  proof (rule okR_bind)
    fix st assume I: "lossy_inv mb src pred 24 st"
    obtain recon msk payloads distortion stats where st: "st = (recon, msk, payloads, distortion, stats)" by (metis prod_cases5)
    with I obtain bs where c: "coded mb 24 pred recon bs msk payloads"
      and d: "distortion = mb_sse mb src recon" "stats = count_blks bs" by (auto simp: mb_sse_def)
    from c have w: "wf_eye recon" and r: "recon = put_mb_blks mb bs pred" unfolding coded_def by blast+
    show "okR (\<lambda>res. \<exists>bs. residual_codes (lr_bytes res) bs \<and> lr_recon res = raw_bytes (put_mb_blks mb bs pred) mb \<and>
      lr_distortion res = mb_sse mb src (put_mb_blks mb bs pred) \<and> lr_stats res = count_blks bs)
      (case st of (recon_eye, msk, payloads, distortion, stats) \<Rightarrow>
        let bytes = fold (\<lambda>payload out. out @ payload) payloads (to_le_bytes 4 msk) in
        bindR (raw_mb_bytes recon_eye mb) (\<lambda>recon.
        Inr \<lparr>lr_bytes = bytes, lr_recon = recon, lr_distortion = distortion, lr_stats = stats\<rparr>))"
      using coded_codes[OF c] d
      by (auto simp: st raw_mb_bytes_def read_raw_mb_ok[OF _ assms(3)] assms(2) fold_concat r)
  qed
qed

end
