(* ===== verification/O3_EncMb.thy ===== *)
theory O3_EncMb
  imports O3_EncResidual
begin

text \<open>
  The choice of a macroblock: \<open>choose_mb\<close> collects candidates (raw, base
  prediction with residual, exact copy, copy and splits with residual) and
  keeps the cheapest. Every candidate keeps the contract \<open>choice_ok\<close>: the bytes
  it would write parse to a description which, applied to the prefilled frame,
  shows exactly the reconstruction the candidate carries, at the distortion and
  with the counters it carries.
\<close>

section \<open>The code\<close>

definition write_raw_mb_to_eye :: "eye_frame \<Rightarrow> nat \<Rightarrow> byte list \<Rightarrow> eye_frame result" where
  "write_raw_mb_to_eye dst mb_index bytes =
     (let mb_x = mb_index mod MB_W; mb_y = mb_index div MB_W in
      bindR (forR (\<lambda>row (dst, offset).
          let dst_off = (mb_y * 16 + row) * EYE_W + mb_x * 16 in
          bindR (slice_range bytes offset (offset + 16)) (\<lambda>s.
          bindR (on_y (\<lambda>p. copy_from_slice p dst_off (dst_off + 16) s) dst) (\<lambda>dst. Inr (dst, offset + 16)))) [0..<16] (dst, 0)) (\<lambda>st.
      bindR (forR (\<lambda>row (dst, offset).
          let dst_off = (mb_y * 8 + row) * CHROMA_W + mb_x * 8 in
          bindR (slice_range bytes offset (offset + 8)) (\<lambda>s.
          bindR (on_cb (\<lambda>p. copy_from_slice p dst_off (dst_off + 8) s) dst) (\<lambda>dst. Inr (dst, offset + 8)))) [0..<8] st) (\<lambda>st.
      bindR (forR (\<lambda>row (dst, offset).
          let dst_off = (mb_y * 8 + row) * CHROMA_W + mb_x * 8 in
          bindR (slice_range bytes offset (offset + 8)) (\<lambda>s.
          bindR (on_cr (\<lambda>p. copy_from_slice p dst_off (dst_off + 8) s) dst) (\<lambda>dst. Inr (dst, offset + 8)))) [0..<8] st) (\<lambda>(dst, offset).
      Inr dst))))"

definition add_residual_candidates ::
  "mb_choice list \<Rightarrow> byte \<Rightarrow> mv list \<Rightarrow> eye_frame \<Rightarrow> eye_frame \<Rightarrow> nat \<Rightarrow> encode_mode \<Rightarrow> mb_choice list result" where
  "add_residual_candidates candidates mode_id mvs src pred mb_index mode =
     (case EncodeMode_q_step mode of
        None \<Rightarrow>
          bindR (build_lossless_residual src pred mb_index) (\<lambda>residual. case residual of
            None \<Rightarrow> Inr candidates
          | Some residual \<Rightarrow>
              let stats = residual_stats residual in
              bindR (raw_mb_bytes src mb_index) (\<lambda>recon.
              Inr (candidates @ [\<lparr>mc_mode = mode_id, mc_mvs = mvs, mc_residual = residual, mc_raw = [], mc_recon = recon,
                mc_cost = 1 + mv_payload_len mode_id + length residual + residual_decode_cost residual,
                mc_segment_id = 2, mc_stats = stats, mc_distortion = 0\<rparr>])))
      | Some q_step \<Rightarrow>
          forR (\<lambda>(segment_id, segment_q) candidates.
            bindR (build_lossy_residual src pred mb_index segment_q (raw4x4_sse_threshold mode)) (\<lambda>residual.
            Inr (candidates @ [\<lparr>mc_mode = mode_id, mc_mvs = mvs, mc_residual = lr_bytes residual, mc_raw = [],
              mc_recon = lr_recon residual,
              mc_cost = 1 + mv_payload_len mode_id + length (lr_bytes residual) + residual_decode_cost (lr_bytes residual)
                + lr_distortion residual div 96,
              mc_segment_id = segment_id, mc_stats = lr_stats residual, mc_distortion = lr_distortion residual\<rparr>])))
            (aq_steps q_step) candidates)"

definition choose_quality_recovery_raw_mb :: "mb_choice list \<Rightarrow> mb_choice option" where
  "choose_quality_recovery_raw_mb candidates =
     (case find (\<lambda>choice. mc_mode choice = MODE_RAW_MB) candidates of
        None \<Rightarrow> None
      | Some raw \<Rightarrow>
          let best = arg_min_list mc_cost candidates in
          if mc_mode best = MODE_RAW_MB then Some raw
          else if rs_raw_4x4_blocks (mc_stats best) < QUALITY_RAW_MB_RAW4X4_BLOCK_THRESHOLD then None
          else if mc_cost raw \<le> mc_cost best + QUALITY_RAW_MB_HARD_MARGIN then Some raw
          else None)"

fun exact_mode :: "vbs_shape \<Rightarrow> byte" where
  "exact_mode Split16x8 = MODE_COPY16X8"
| "exact_mode Split8x16 = MODE_COPY8X16"
| "exact_mode Split8x8 = MODE_COPY8X8"

fun res_mode :: "vbs_shape \<Rightarrow> byte" where
  "res_mode Split16x8 = MODE_COPY16X8_RES"
| "res_mode Split8x16 = MODE_COPY8X16_RES"
| "res_mode Split8x8 = MODE_COPY8X8_RES"

definition raw_choice :: "byte list \<Rightarrow> encode_mode \<Rightarrow> mb_choice" where
  "raw_choice raw mode =
     \<lparr>mc_mode = MODE_RAW_MB, mc_mvs = [], mc_residual = [], mc_raw = raw, mc_recon = raw,
      mc_cost = 1 + length raw + (if quality_recovery mode then QUALITY_RECOVERY_RAW_MB_COST_BIAS else 0),
      mc_segment_id = 3, mc_stats = ResidualStats_default, mc_distortion = 0\<rparr>"

definition copy_choice :: "byte \<Rightarrow> mv list \<Rightarrow> byte list \<Rightarrow> nat \<Rightarrow> mb_choice" where
  "copy_choice mode_id mvs recon cost =
     \<lparr>mc_mode = mode_id, mc_mvs = mvs, mc_residual = [], mc_raw = [], mc_recon = recon, mc_cost = cost,
      mc_segment_id = 1, mc_stats = ResidualStats_default, mc_distortion = 0\<rparr>"

text \<open>The three kinds of inter candidates of \<open>choose_mb\<close>, in the order the function adds them.\<close>

definition add_exact_copy :: "mb_choice list \<Rightarrow> eye_frame \<Rightarrow> eye_frame \<Rightarrow> eye_frame \<Rightarrow> nat \<Rightarrow> mb_choice list result" where
  "add_exact_copy candidates src reference prefilled mb_index =
     bindR (find_exact_copy src reference mb_index) (\<lambda>exact. case exact of
       Some mv \<Rightarrow>
         bindR (copy_mb_from_reference prefilled reference mb_index mv) (\<lambda>pred.
         bindR (raw_mb_bytes pred mb_index) (\<lambda>recon.
         Inr (candidates @ [copy_choice MODE_COPY16 [mv] recon (1 + 2 + 2)])))
     | None \<Rightarrow> Inr candidates)"

definition add_best_copy ::
  "mb_choice list \<Rightarrow> eye_frame \<Rightarrow> eye_frame \<Rightarrow> eye_frame \<Rightarrow> nat \<Rightarrow> encode_mode \<Rightarrow> mb_choice list result" where
  "add_best_copy candidates src reference prefilled mb_index mode =
     bindR (find_best_copy_mv src reference mb_index) (\<lambda>mv.
     bindR (copy_mb_from_reference prefilled reference mb_index mv) (\<lambda>copy_pred.
     add_residual_candidates candidates MODE_COPY16_RES [mv] src copy_pred mb_index mode))"

definition add_vbs ::
  "mb_choice list \<Rightarrow> eye_frame \<Rightarrow> eye_frame \<Rightarrow> eye_frame \<Rightarrow> nat \<Rightarrow> encode_mode \<Rightarrow> vbs_shape \<Rightarrow> mb_choice list result" where
  "add_vbs candidates src reference prefilled mb_index mode shape =
     bindR (find_best_vbs_mvs src reference mb_index shape) (\<lambda>mvs.
     bindR (copy_vbs_from_reference prefilled reference mb_index shape mvs) (\<lambda>pred.
     bindR (mb_equal src pred mb_index) (\<lambda>exact.
     let mv_bytes = length mvs * 2 in
     if exact then
       bindR (raw_mb_bytes pred mb_index) (\<lambda>recon.
       Inr (candidates @ [copy_choice (exact_mode shape) mvs recon (1 + mv_bytes + 3)]))
     else add_residual_candidates candidates (res_mode shape) mvs src pred mb_index mode)))"

definition choose_mb :: "eye_frame \<Rightarrow> eye_frame \<Rightarrow> eye_frame \<Rightarrow> nat \<Rightarrow> encode_mode \<Rightarrow> mb_choice result" where
  "choose_mb src reference prefilled mb_index mode =
     bindR (read_raw_mb src mb_index []) (\<lambda>raw.
     let candidates = (if mode = Lossless \<or> quality_recovery mode then [raw_choice raw mode] else []) in
     bindR (add_residual_candidates candidates MODE_BASE_RES [] src prefilled mb_index mode) (\<lambda>candidates.
     bindR (add_exact_copy candidates src reference prefilled mb_index) (\<lambda>candidates.
     bindR (add_best_copy candidates src reference prefilled mb_index mode) (\<lambda>candidates.
     bindR (forR (\<lambda>shape candidates. add_vbs candidates src reference prefilled mb_index mode shape)
       [Split16x8, Split8x16, Split8x8] candidates) (\<lambda>candidates.
     case (if quality_recovery mode then choose_quality_recovery_raw_mb candidates else None) of
       Some choice \<Rightarrow> Inr choice
     | None \<Rightarrow> if candidates = [] then Inl Fault else Inr (arg_min_list mc_cost candidates))))))"

definition write_choice ::
  "byte list \<times> byte list \<times> byte list \<Rightarrow> mb_choice \<Rightarrow> byte list \<times> byte list \<times> byte list" where
  "write_choice = (\<lambda>(mode_stream, residual_stream, raw_stream) choice.
     (fold (\<lambda>mv out. out @ [mvX mv] @ [mvY mv]) (mc_mvs choice) (mode_stream @ [0x80 OR mc_mode choice]),
      residual_stream @ mc_residual choice, raw_stream @ mc_raw choice))"

definition apply_choice_to_recon :: "eye_frame \<Rightarrow> nat \<Rightarrow> mb_choice \<Rightarrow> eye_frame result" where
  "apply_choice_to_recon recon mb_index choice = write_raw_mb_to_eye recon mb_index (mc_recon choice)"

section \<open>Writing a macroblock back\<close>

lemma copy_slice_eq:
  assumes "a + n \<le> length p" and "off + n \<le> length bytes"
  shows "bindR (slice_range bytes off (off + n)) (\<lambda>s. copy_from_slice p a (a + n) s) = copy_at_len p a bytes off n"
  using assms by (simp add: slice_range_def copy_from_slice_def copy_at_len_def)

theorem write_raw_mb_to_eye_ok:
  assumes "wf_eye e" and "mb < MB_COUNT" and "length bytes = 384"
  shows "write_raw_mb_to_eye e mb bytes = Inr (raw_eye mb bytes e)"
proof -
  note l = eye_lengths[OF assms(1)] and f = mb_fits[OF assms(2)]
  define fy where "fy off row d = bindR (slice_range bytes (off + 16 * row) (off + 16 * row + 16)) (\<lambda>s.
      copy_from_slice d ((mb div MB_W * 16 + row) * EYE_W + mb mod MB_W * 16) ((mb div MB_W * 16 + row) * EYE_W + mb mod MB_W * 16 + 16) s)"
    for off row d
  define fc where "fc off row d = bindR (slice_range bytes (off + 8 * row) (off + 8 * row + 8)) (\<lambda>s.
      copy_from_slice d ((mb div MB_W * 8 + row) * CHROMA_W + mb mod MB_W * 8) ((mb div MB_W * 8 + row) * CHROMA_W + mb mod MB_W * 8 + 8) s)"
    for off row d
  have b16: "fy 0 row d = copy_at_len d ((mb div MB_W * 16 + row) * EYE_W + mb mod MB_W * 16) bytes (0 + 16 * row) 16"
    if "row < 16" "length d = EYE_W * EYE_H" for row d
    unfolding fy_def using that assms(3) f row_bound[of "mb mod MB_W * 16" 16 EYE_W "mb div MB_W * 16 + row" EYE_H]
    by (intro copy_slice_eq) auto
  have b8: "fc off row d = copy_at_len d ((mb div MB_W * 8 + row) * CHROMA_W + mb mod MB_W * 8) bytes (off + 8 * row) 8"
    if "row < 8" "length d = CHROMA_W * CHROMA_H" "off + 64 \<le> 384" for row d off
    unfolding fc_def using that assms(3) f row_bound[of "mb mod MB_W * 8" 8 CHROMA_W "mb div MB_W * 8 + row" CHROMA_H]
    by (intro copy_slice_eq) auto
  have sw: "bindR (slice_range bs o1 o2) (\<lambda>s. bindR (upd (\<lambda>p. g p s) e) k) = bindR (upd (\<lambda>p. bindR (slice_range bs o1 o2) (g p)) e) k"
    if "upd = on_y \<or> upd = on_cb \<or> upd = on_cr" for bs o1 o2 g e k and upd :: "(byte list \<Rightarrow> byte list result) \<Rightarrow> eye_frame \<Rightarrow> eye_frame result"
    using that by (cases "slice_range bs o1 o2") (auto simp: on_y_def on_cb_def on_cr_def)
  note y = write_rows[OF f(1,2) l(1), of 0 bytes, OF _ b16, simplified mb_rect_fun]
  note cb = write_rows[OF f(3,4) l(2), of 256 bytes, OF _ b8, simplified mb_rect_fun]
  note cr = write_rows[OF f(3,4) l(3), of 320 bytes, OF _ b8, simplified mb_rect_fun]
  show ?thesis
    unfolding write_raw_mb_to_eye_def Let_def sw[OF disjI1[OF refl]] sw[OF disjI2[OF disjI1[OF refl]]] sw[OF disjI2[OF disjI2[OF refl]]]
    using y[unfolded fy_def] cb[unfolded fc_def] cr[unfolded fc_def] assms(3)
    by (simp add: counted_rows forR_on_y forR_on_cb forR_on_cr on_plane_Inr raw_eye_def)
qed


section \<open>Agreement and squared error\<close>

lemma agree_samples:
  assumes "wf_eye a" "wf_eye b" "mb < MB_COUNT" "K < 24" "agree {mb} a b"
  shows "mb_samples mb K a = mb_samples mb K b"
proof (rule nth_equalityI)
  fix k assume "k < length (mb_samples mb K a)"
  then have k: "k < 16" by simp
  let ?i = "blk_pos (blk_stride K) (blk_x mb K) (blk_y mb K) k"
  have f: "fits (blk_stride K) (blk_x mb K) (blk_y mb K) (blk_plane K a)" by (rule blk_fits_plane[OF assms(1,3,4)])
  have i: "?i < length (blk_plane K a)" by (rule blk_pos_less[OF f k])
  from f have "blk_x mb K + 4 \<le> blk_stride K" by (simp add: fits_def)
  from blk_pos_div_mod[OF this k, of "blk_y mb K"]
  have dm: "?i div blk_stride K = blk_y mb K + k div 4" "?i mod blk_stride K = blk_x mb K + k mod 4" by auto
  have k4: "k div 4 < 4" "k mod 4 < 4" using k by auto
  have "blk_plane K a ! ?i = blk_plane K b ! ?i"
  proof (cases "K < 16")
    case True
    then have "K mod 4 < 4" "K div 4 < 4" by auto
    with k4 have "K mod 4 * 4 + k mod 4 < 16" "K div 4 * 4 + k div 4 < 16" by linarith+
    with True dm have "in_rect EYE_W (mb mod MB_W * 16) (mb div MB_W * 16) 16 16 ?i"
      by (auto simp: in_rect_def blk_stride_def blk_x_def blk_y_def)
    then have "y_mb ?i = mb" by (simp only: y_mb_rect)
    with True i assms show ?thesis by (simp add: agree_def blk_plane_def wf_eye_def)
  next
    case False
    have "(K - 16) mod 4 mod 2 < 2" "(K - 16) mod 4 div 2 < 2" by auto
    with k4 have "(K - 16) mod 4 mod 2 * 4 + k mod 4 < 8" "(K - 16) mod 4 div 2 * 4 + k div 4 < 8" by linarith+
    with False dm have "in_rect CHROMA_W (mb mod MB_W * 8) (mb div MB_W * 8) 8 8 ?i"
      by (auto simp: in_rect_def blk_stride_def blk_x_def blk_y_def)
    then have "c_mb ?i = mb" by (simp only: c_mb_rect)
    with False i assms show ?thesis by (cases "K < 20") (simp_all add: agree_def blk_plane_def wf_eye_def)
  qed
  with k show "mb_samples mb K a ! k = mb_samples mb K b ! k" by (simp add: mb_samples_def)
qed simp

lemma mb_sse_agree:
  assumes "wf_eye a" "wf_eye src" "mb < MB_COUNT" "agree {mb} a src"
  shows "mb_sse mb src a = 0"
  using agree_samples[OF assms(1-3) _ assms(4)] by (simp add: mb_sse_def)

section \<open>The contract of a choice\<close>

definition put_mvs :: "mv list \<Rightarrow> byte list" where
  "put_mvs mvs = concat (map put_mv mvs)"

lemma length_put_mvs [simp]: "length (put_mvs mvs) = 2 * length mvs"
  by (induction mvs) (auto simp: put_mvs_def put_mv_def)

lemma read_mv_put: "rest r = put_mv m @ post \<Longrightarrow> read_mv r = Inr (m, adv 2 r)"
  by (rule mvc.get_put)

definition pred_parses :: "byte \<Rightarrow> mv list \<Rightarrow> byte list \<Rightarrow> mb_pred \<Rightarrow> bool" where
  "pred_parses mode mvs raw p \<longleftrightarrow> pred_ok p \<and> (p = BaseP \<longleftrightarrow> mode = MODE_BASE_RES) \<and>
     ((\<exists>bytes. p = RawP bytes) \<longleftrightarrow> mode = MODE_RAW_MB) \<and> mode < 16 \<and> length mvs \<le> 4 \<and> length raw \<le> 384 \<and>
     (\<forall>ms rw post1 post2. rest ms = put_mvs mvs @ post1 \<longrightarrow> rest rw = raw @ post2 \<longrightarrow>
       parse_pred mode ms rw = Inr (p, adv (2 * length mvs) ms, adv (length raw) rw))"

lemma pred_parses_base: "pred_parses MODE_BASE_RES [] [] BaseP"
  by (simp add: pred_parses_def parse_pred_def mode_defs)

lemma pred_parses_copy: "mode = MODE_COPY16 \<or> mode = MODE_COPY16_RES \<Longrightarrow> pred_parses mode [mv] [] (CopyP mv)"
  by (auto simp: pred_parses_def parse_pred_def mode_defs put_mvs_def read_mv_put)

lemma pred_parses_raw: "length raw = 384 \<Longrightarrow> pred_parses MODE_RAW_MB [] raw (RawP raw)"
  by (simp add: pred_parses_def parse_pred_def mode_defs rd_take_rest RAW_MB_BYTES_def)

lemma read_mv_next:
  assumes "rest r = put_mvs (m # mvs) @ post"
  shows "read_mv r = Inr (m, adv 2 r)" and "rest (adv 2 r) = put_mvs mvs @ post"
  using assms read_mv_put[of r m "put_mvs mvs @ post"] by (simp_all add: put_mvs_def put_mv_def)

lemma pred_parses_vbs:
  assumes "mode = exact_mode shape \<or> mode = res_mode shape" and "length mvs = vbs_count shape"
  shows "pred_parses mode mvs [] (VbsP shape mvs)"
proof -
  have two: "\<exists>a b. mvs = [a, b]" if "length mvs = 2"
    using that by (auto simp: length_Suc_conv numeral_2_eq_2)
  have four: "\<exists>a b c d. mvs = [a, b, c, d]" if "length mvs = 4"
    using that by (auto simp: length_Suc_conv eval_nat_numeral)
  have p: "parse_pred mode ms rw = Inr (VbsP shape mvs, adv (2 * length mvs) ms, rw)" if r: "rest ms = put_mvs mvs @ post" for ms rw post
  proof (cases shape)
    case Split16x8
    with assms(2) obtain a b where m: "mvs = [a, b]" using two by auto
    note a = read_mv_next[OF r[unfolded m]]
    note b = read_mv_next[OF a(2)]
    from assms(1) Split16x8 show ?thesis by (auto simp: parse_pred_def mode_defs m a(1) b(1))
  next
    case Split8x16
    with assms(2) obtain a b where m: "mvs = [a, b]" using two by auto
    note a = read_mv_next[OF r[unfolded m]]
    note b = read_mv_next[OF a(2)]
    from assms(1) Split8x16 show ?thesis by (auto simp: parse_pred_def mode_defs m a(1) b(1))
  next
    case Split8x8
    with assms(2) obtain a b c d where m: "mvs = [a, b, c, d]" using four by auto
    note a = read_mv_next[OF r[unfolded m]]
    note b = read_mv_next[OF a(2)]
    note c = read_mv_next[OF b(2)]
    note d = read_mv_next[OF c(2)]
    from assms(1) Split8x8 show ?thesis by (auto simp: parse_pred_def mode_defs m a(1) b(1) c(1)[simplified] d(1)[simplified])
  qed
  show ?thesis
    using p assms by (cases shape) (auto simp: pred_parses_def mode_defs)
qed

definition choice_ok :: "eye_frame \<Rightarrow> eye_frame \<Rightarrow> eye_frame \<Rightarrow> nat \<Rightarrow> encode_mode \<Rightarrow> mb_choice \<Rightarrow> mb_desc \<Rightarrow> bool" where
  "choice_ok src reference pre mb mode c d \<longleftrightarrow>
     desc_ok d \<and> pred_parses (mc_mode c) (mc_mvs c) (mc_raw c) (fst d) \<and>
     (if has_residual (mc_mode c) then residual_codes (mc_residual c) (snd d) else mc_residual c = [] \<and> snd d = []) \<and>
     mc_recon c = raw_bytes (put_mb Prefilled reference mb d pre) mb \<and>
     mc_distortion c = mb_sse mb src (put_mb Prefilled reference mb d pre) \<and>
     mc_stats c = count_blks (snd d) \<and> mc_segment_id c < 4 \<and>
     (mode = Lossless \<longrightarrow> mc_recon c = raw_bytes src mb)"

text \<open>What the choice writes is parsed to its description.\<close>

lemma choice_parses:
  assumes "choice_ok src reference pre mb mode c d"
    and "rest ms = put_mvs (mc_mvs c) @ post1" "rest rr = mc_residual c @ post2" "rest rw = mc_raw c @ post3"
  shows "parse_one_mb (mc_mode c) (ms, rr, rw) =
    Inr (d, adv (2 * length (mc_mvs c)) ms, adv (length (mc_residual c)) rr, adv (length (mc_raw c)) rw)"
proof -
  have "parse_pred (mc_mode c) ms rw = Inr (fst d, adv (2 * length (mc_mvs c)) ms, adv (length (mc_raw c)) rw)"
    using assms(1,2,4) by (auto simp: choice_ok_def pred_parses_def)
  moreover have "(if has_residual (mc_mode c) then parse_mb_residual rr else Inr ([], rr)) = Inr (snd d, adv (length (mc_residual c)) rr)"
    using assms(1,3) by (auto simp: choice_ok_def residual_codes_def split: if_splits)
  ultimately show ?thesis by (simp add: parse_one_mb_def)
qed


section \<open>Every candidate keeps the contract\<close>

definition candidates_ok :: "eye_frame \<Rightarrow> eye_frame \<Rightarrow> eye_frame \<Rightarrow> nat \<Rightarrow> encode_mode \<Rightarrow> mb_choice list \<Rightarrow> bool" where
  "candidates_ok src reference pre mb mode cs \<longleftrightarrow> (\<forall>c\<in>set cs. \<exists>d. choice_ok src reference pre mb mode c d)"

lemma exact_choice_ok:
  assumes wf: "wf_eye src" "wf_eye reference" "wf_eye pre" "mb < MB_COUNT"
    and p: "pred_parses mode_id mvs raw p" and nores: "\<not> has_residual mode_id"
    and exact: "agree {mb} (put_pred Prefilled reference mb p pre) src"
    and c: "mc_mode c = mode_id" "mc_mvs c = mvs" "mc_residual c = []" "mc_raw c = raw"
      "mc_recon c = raw_bytes (put_pred Prefilled reference mb p pre) mb" "mc_segment_id c < 4"
      "mc_stats c = ResidualStats_default" "mc_distortion c = 0"
  shows "choice_ok src reference pre mb mode c (p, [])"
  using mb_sse_agree[of "put_pred Prefilled reference mb p pre" src mb] assms agree_iff_raw_bytes[OF wf(4), of "put_pred Prefilled reference mb p pre" src]
  by (simp add: choice_ok_def desc_ok_def pred_parses_def put_mb_def count_blks_def)

lemma residual_choice_ok:
  assumes wf: "wf_eye src" "wf_eye reference" "wf_eye pre" "mb < MB_COUNT"
    and p: "pred_parses mode_id mvs [] p" and res: "has_residual mode_id" and bs: "residual_codes residual bs"
    and c: "mc_mode c = mode_id" "mc_mvs c = mvs" "mc_residual c = residual" "mc_raw c = []"
      "mc_recon c = raw_bytes (put_mb_blks mb bs (put_pred Prefilled reference mb p pre)) mb" "mc_segment_id c < 4"
      "mc_stats c = count_blks bs" "mc_distortion c = mb_sse mb src (put_mb_blks mb bs (put_pred Prefilled reference mb p pre))"
    and "mode = Lossless \<Longrightarrow> mc_recon c = raw_bytes src mb"
  shows "choice_ok src reference pre mb mode c (p, bs)"
  using assms by (simp add: choice_ok_def desc_ok_def pred_parses_def put_mb_def residual_codes_def)

lemma aq_steps_segments: "\<forall>(seg, q)\<in>set (aq_steps base). seg < 4"
  by (simp add: aq_steps_def)

text \<open>What a step that adds candidates keeps: those there are still there, all keep the contract.\<close>

abbreviation grown :: "eye_frame \<Rightarrow> eye_frame \<Rightarrow> eye_frame \<Rightarrow> nat \<Rightarrow> encode_mode \<Rightarrow> mb_choice list \<Rightarrow> mb_choice list \<Rightarrow> bool" where
  "grown src reference pre mb mode cs cs' \<equiv> candidates_ok src reference pre mb mode cs' \<and> set cs \<subseteq> set cs'"

lemma add_lossless_ok:
  assumes wf: "wf_eye src" "wf_eye reference" "wf_eye pre" "mb < MB_COUNT"
    and p: "pred_parses mode_id mvs [] p" and res: "has_residual mode_id"
    and cs: "candidates_ok src reference pre mb Lossless cs"
  shows "okR (grown src reference pre mb Lossless cs)
    (add_residual_candidates cs mode_id mvs src (put_pred Prefilled reference mb p pre) mb Lossless)"
proof -
  let ?pred = "put_pred Prefilled reference mb p pre"
  have wp: "wf_eye ?pred" using wf(3) by simp
  show ?thesis
    unfolding add_residual_candidates_def EncodeMode_q_step.simps option.case
  proof (rule okR_bind[OF build_lossless_residual_ok[OF wf(1) wp wf(4)]])
    fix out assume out: "case out of None \<Rightarrow> agree {mb} ?pred src
      | Some bytes \<Rightarrow> \<exists>bs. residual_codes bytes bs \<and> agree {mb} (put_mb_blks mb bs ?pred) src"
    show "okR (grown src reference pre mb Lossless cs)
      (case out of None \<Rightarrow> Inr cs | Some residual \<Rightarrow> let stats = residual_stats residual in
        bindR (raw_mb_bytes src mb) (\<lambda>recon.
        Inr (cs @ [\<lparr>mc_mode = mode_id, mc_mvs = mvs, mc_residual = residual, mc_raw = [], mc_recon = recon,
          mc_cost = 1 + mv_payload_len mode_id + length residual + residual_decode_cost residual,
          mc_segment_id = 2, mc_stats = stats, mc_distortion = 0\<rparr>])))"
    proof (cases out)
      case (Some residual)
      with out obtain bs where bs: "residual_codes residual bs" and a: "agree {mb} (put_mb_blks mb bs ?pred) src" by auto
      have "mb_sse mb src (put_mb_blks mb bs ?pred) = 0" using a wf by (intro mb_sse_agree) auto
      moreover have "raw_bytes (put_mb_blks mb bs ?pred) mb = raw_bytes src mb" using a agree_iff_raw_bytes[OF wf(4)] by blast
      ultimately have "choice_ok src reference pre mb Lossless \<lparr>mc_mode = mode_id, mc_mvs = mvs, mc_residual = residual, mc_raw = [],
          mc_recon = raw_bytes src mb, mc_cost = cost,
          mc_segment_id = 2, mc_stats = residual_stats residual, mc_distortion = 0\<rparr> (p, bs)" for cost
        using bs by (intro residual_choice_ok[OF wf p res bs]) (auto simp: residual_codes_def)
      then show ?thesis
        using cs by (auto simp: Some candidates_ok_def raw_mb_bytes_def read_raw_mb_ok[OF wf(1,4)])
    qed (use cs in simp)
  qed
qed

lemma add_lossy_ok:
  assumes wf: "wf_eye src" "wf_eye reference" "wf_eye pre" "mb < MB_COUNT"
    and p: "pred_parses mode_id mvs [] p" and res: "has_residual mode_id" and q: "EncodeMode_q_step mode = Some q"
    and cs: "candidates_ok src reference pre mb mode cs"
  shows "okR (\<lambda>cs'. grown src reference pre mb mode cs cs' \<and> cs' \<noteq> [])
    (add_residual_candidates cs mode_id mvs src (put_pred Prefilled reference mb p pre) mb mode)"
proof -
  let ?pred = "put_pred Prefilled reference mb p pre"
  have wp: "wf_eye ?pred" using wf(3) by simp
  have mode: "mode \<noteq> Lossless" using q by auto
  define c where "c seg r = \<lparr>mc_mode = mode_id, mc_mvs = mvs, mc_residual = lr_bytes r, mc_raw = [], mc_recon = lr_recon r,
      mc_cost = 1 + mv_payload_len mode_id + length (lr_bytes r) + residual_decode_cost (lr_bytes r) + lr_distortion r div 96,
      mc_segment_id = seg, mc_stats = lr_stats r, mc_distortion = lr_distortion r\<rparr>" for seg and r :: lossy_residual
  let ?f = "\<lambda>(segment_id, segment_q) candidates.
      bindR (build_lossy_residual src ?pred mb segment_q (raw4x4_sse_threshold mode)) (\<lambda>residual. Inr (candidates @ [c segment_id residual]))"
  let ?P = "grown src reference pre mb mode cs"
  have step: "okR (\<lambda>cs''. ?P cs'' \<and> cs'' \<noteq> []) (?f k cs')" if "k \<in> set (aq_steps q)" "?P cs'" for k cs'
  proof -
    obtain seg sq where k: "k = (seg, sq)" by (cases k)
    have seg: "seg < 4" using aq_steps_segments[of q] that(1) by (auto simp: k)
    show ?thesis
      unfolding k prod.case
    proof (rule okR_bind[OF build_lossy_residual_ok[OF wf(1) wp wf(4)]])
      fix r :: lossy_residual assume "\<exists>bs. residual_codes (lr_bytes r) bs \<and> lr_recon r = raw_bytes (put_mb_blks mb bs ?pred) mb \<and>
        lr_distortion r = mb_sse mb src (put_mb_blks mb bs ?pred) \<and> lr_stats r = count_blks bs"
      then obtain bs where r: "residual_codes (lr_bytes r) bs" "lr_recon r = raw_bytes (put_mb_blks mb bs ?pred) mb"
        "lr_distortion r = mb_sse mb src (put_mb_blks mb bs ?pred)" "lr_stats r = count_blks bs" by blast
      then have "choice_ok src reference pre mb mode (c seg r) (p, bs)"
        using mode seg by (intro residual_choice_ok[OF wf p res r(1)]) (auto simp: c_def)
      then show "okR (\<lambda>cs''. ?P cs'' \<and> cs'' \<noteq> []) (Inr (cs' @ [c seg r]))"
        using that(2) by (auto simp: candidates_ok_def)
    qed
  qed
  obtain k ks where ks: "aq_steps q = k # ks" by (simp add: aq_steps_def)
  have "okR (\<lambda>cs''. ?P cs'' \<and> cs'' \<noteq> []) (bindR (?f k cs) (forR ?f ks))"
  proof (rule okR_bind[OF step])
    show "okR (\<lambda>cs''. ?P cs'' \<and> cs'' \<noteq> []) (forR ?f ks cs')" if "?P cs' \<and> cs' \<noteq> []" for cs'
      using that by (rule okR_forR) (use step ks in auto)
  qed (use cs ks in auto)
  then show ?thesis
    unfolding add_residual_candidates_def q option.case ks forR.simps c_def .
qed

lemma add_residual_candidates_ok:
  assumes "wf_eye src" "wf_eye reference" "wf_eye pre" "mb < MB_COUNT"
    and "pred_parses mode_id mvs [] p" and "has_residual mode_id"
    and "candidates_ok src reference pre mb mode cs" and "mode = Lossless \<longrightarrow> cs \<noteq> []"
  shows "okR (\<lambda>cs'. grown src reference pre mb mode cs cs' \<and> cs' \<noteq> [])
    (add_residual_candidates cs mode_id mvs src (put_pred Prefilled reference mb p pre) mb mode)"
proof (cases "EncodeMode_q_step mode")
  case None
  then have "mode = Lossless" by (cases mode) auto
  with assms(7,8) show ?thesis by (auto intro!: okR_mono[OF add_lossless_ok[OF assms(1-6)]])
qed (use add_lossy_ok[OF assms(1-6) _ assms(7)] in blast)

section \<open>The chosen macroblock\<close>

lemma modes_with_residual: "has_residual MODE_BASE_RES" "has_residual MODE_COPY16_RES" "has_residual (res_mode shape)"
    "\<not> has_residual MODE_COPY16" "\<not> has_residual (exact_mode shape)" "\<not> has_residual MODE_RAW_MB"
  by (cases shape; simp add: has_residual_def mode_defs)+

lemma raw_choice_ok:
  assumes "wf_eye src" "wf_eye reference" "wf_eye pre" "mb < MB_COUNT"
  shows "choice_ok src reference pre mb mode (raw_choice (raw_bytes src mb) mode) (RawP (raw_bytes src mb), [])"
proof (rule exact_choice_ok[OF assms pred_parses_raw])
  show "agree {mb} (put_pred Prefilled reference mb (RawP (raw_bytes src mb)) pre) src"
    using assms by (simp add: agree_iff_raw_bytes raw_bytes_raw_eye)
qed (use assms modes_with_residual in \<open>simp_all add: raw_choice_def raw_bytes_raw_eye\<close>)

lemma best_candidate:
  assumes "cs \<noteq> []"
  shows "arg_min_list mc_cost cs \<in> set cs" and "\<forall>c\<in>set cs. mc_cost (arg_min_list mc_cost cs) \<le> mc_cost c"
  using arg_min_list_in[OF assms, of mc_cost] f_arg_min_list_f[OF assms, of mc_cost] by auto

lemma quality_raw_in: "choose_quality_recovery_raw_mb cs = Some c \<Longrightarrow> c \<in> set cs"
  by (auto simp: choose_quality_recovery_raw_mb_def Let_def find_Some_iff split: option.splits if_splits)

text \<open>The premises of the steps: well-formed frames and candidates that keep the contract.\<close>

definition stepping :: "eye_frame \<Rightarrow> eye_frame \<Rightarrow> eye_frame \<Rightarrow> nat \<Rightarrow> encode_mode \<Rightarrow> mb_choice list \<Rightarrow> bool" where
  "stepping src reference pre mb mode cs \<longleftrightarrow> candidates_ok src reference pre mb mode cs \<and> cs \<noteq> []"

lemma raw_mb_bytes_ok: "wf_eye e \<Longrightarrow> mb < MB_COUNT \<Longrightarrow> raw_mb_bytes e mb = Inr (raw_bytes e mb)"
  by (simp add: raw_mb_bytes_def read_raw_mb_ok)

lemma step_push: "stepping src reference pre mb mode cs \<Longrightarrow> choice_ok src reference pre mb mode c d \<Longrightarrow>
    stepping src reference pre mb mode (cs @ [c])"
  unfolding stepping_def candidates_ok_def by (simp del: split_paired_Ex) blast

lemma step_residual:
  assumes "wf_eye src" "wf_eye reference" "wf_eye pre" "mb < MB_COUNT"
    and "pred_parses mode_id mvs [] p" and "has_residual mode_id" and "stepping src reference pre mb mode cs"
  shows "okR (stepping src reference pre mb mode)
    (add_residual_candidates cs mode_id mvs src (put_pred Prefilled reference mb p pre) mb mode)"
  by (rule okR_mono[OF add_residual_candidates_ok[OF assms(1-6)]]) (use assms(7) in \<open>auto simp: stepping_def\<close>)

lemma add_exact_copy_ok:
  assumes wf: "wf_eye src" "wf_eye reference" "wf_eye pre" "mb < MB_COUNT" and cs: "stepping src reference pre mb mode cs"
  shows "okR (stepping src reference pre mb mode) (add_exact_copy cs src reference pre mb)"
  unfolding add_exact_copy_def
proof (rule okR_bind[OF find_exact_copy_ok[OF wf(1,2,4)]])
  fix hit
  assume hit: "case hit of Some mv \<Rightarrow> agree {mb} src (mc_region {mb} mv reference src)
    | None \<Rightarrow> \<forall>dx dy. \<bar>dx\<bar> \<le> 8 \<and> \<bar>dy\<bar> \<le> 8 \<and> (dx, dy) \<noteq> (0, 0) \<longrightarrow> \<not> agree {mb} src (mc_region {mb} (mv_of dx dy) reference src)"
  let ?pred = "\<lambda>mv. put_pred Prefilled reference mb (CopyP mv) pre"
  have copy: "copy_mb_from_reference pre reference mb mv = Inr (?pred mv)" for mv
    using wf by (simp add: copy_mb_from_reference_ok)
  have rd: "raw_mb_bytes (?pred mv) mb = Inr (raw_bytes (?pred mv) mb)" for mv
    using wf by (intro raw_mb_bytes_ok) simp_all
  have "choice_ok src reference pre mb mode (copy_choice MODE_COPY16 [mv] (raw_bytes (?pred mv) mb) cost) (CopyP mv, [])"
    if "hit = Some mv" for mv cost
  proof (rule exact_choice_ok[OF wf pred_parses_copy modes_with_residual(4)])
    have "agree {mb} src (mc_region {mb} mv reference src)" using hit that by simp
    then show "agree {mb} (?pred mv) src"
      using agree_mc_region[OF wf(3,1), of "{mb}" "{mb}" mv reference] by (auto intro: agree_trans agree_sym)
  qed (simp_all add: copy_choice_def)
  from step_push[OF cs this] cs show "okR (stepping src reference pre mb mode) (case hit of
       Some mv \<Rightarrow>
         bindR (copy_mb_from_reference pre reference mb mv) (\<lambda>pred.
         bindR (raw_mb_bytes pred mb) (\<lambda>recon.
         Inr (cs @ [copy_choice MODE_COPY16 [mv] recon (1 + 2 + 2)])))
     | None \<Rightarrow> Inr cs)"
    by (cases hit) (simp_all only: option.case copy rd bindR_simps okR_Inr simp_thms)
qed

lemma add_best_copy_ok:
  assumes wf: "wf_eye src" "wf_eye reference" "wf_eye pre" "mb < MB_COUNT" and cs: "stepping src reference pre mb mode cs"
  shows "okR (stepping src reference pre mb mode) (add_best_copy cs src reference pre mb mode)"
proof -
  obtain mv where mv: "find_best_copy_mv src reference mb = Inr mv"
    using find_best_copy_mv_returns[OF wf(1,2,4)] by (auto simp: returns_iff)
  have "copy_mb_from_reference pre reference mb mv = Inr (put_pred Prefilled reference mb (CopyP mv) pre)"
    using wf by (simp add: copy_mb_from_reference_ok)
  then show ?thesis
    using step_residual[OF wf pred_parses_copy modes_with_residual(2) cs] by (simp add: add_best_copy_def mv del: put_pred.simps)
qed

lemma add_vbs_ok:
  assumes wf: "wf_eye src" "wf_eye reference" "wf_eye pre" "mb < MB_COUNT" and cs: "stepping src reference pre mb mode cs"
  shows "okR (stepping src reference pre mb mode) (add_vbs cs src reference pre mb mode shape)"
  unfolding add_vbs_def
proof (rule okR_bind[OF find_best_vbs_mvs_ok[OF wf(1,2,4)]])
  fix mvs :: "mv list" assume mvs: "length mvs = vbs_count shape"
  let ?pred = "put_pred Prefilled reference mb (VbsP shape mvs) pre"
  have copy: "copy_vbs_from_reference pre reference mb shape mvs = Inr ?pred"
    using mvs wf by (simp add: copy_vbs_from_reference_ok)
  have wp: "wf_eye ?pred" using wf(3) by simp
  have eq: "mb_equal src ?pred mb = Inr (agree {mb} src ?pred)" by (rule mb_equal_ok[OF wf(1) wp wf(4)])
  have pe: "pred_parses (exact_mode shape) mvs [] (VbsP shape mvs)" and pr: "pred_parses (res_mode shape) mvs [] (VbsP shape mvs)"
    using mvs by (simp_all add: pred_parses_vbs)
  have "choice_ok src reference pre mb mode (copy_choice (exact_mode shape) mvs (raw_bytes ?pred mb) cost) (VbsP shape mvs, [])"
    if "agree {mb} src ?pred" for cost
    by (rule exact_choice_ok[OF wf pe modes_with_residual(5) agree_sym[OF that]]) (simp_all add: copy_choice_def)
  from step_push[OF cs this] show "okR (stepping src reference pre mb mode)
    (bindR (copy_vbs_from_reference pre reference mb shape mvs) (\<lambda>pred.
     bindR (mb_equal src pred mb) (\<lambda>exact.
     let mv_bytes = length mvs * 2 in
     if exact then
       bindR (raw_mb_bytes pred mb) (\<lambda>recon.
       Inr (cs @ [copy_choice (exact_mode shape) mvs recon (1 + mv_bytes + 3)]))
     else add_residual_candidates cs (res_mode shape) mvs src pred mb mode)))"
    unfolding copy bindR_simps eq Let_def raw_mb_bytes_ok[OF wp wf(4)]
    using step_residual[OF wf pr modes_with_residual(3) cs] by (simp del: put_pred.simps)
qed

theorem choose_mb_ok:
  assumes wf: "wf_eye src" "wf_eye reference" "wf_eye pre" "mb < MB_COUNT"
  shows "okR (\<lambda>c. \<exists>d. choice_ok src reference pre mb mode c d) (choose_mb src reference pre mb mode)"
proof -
  define cs0 where "cs0 = (if mode = Lossless \<or> quality_recovery mode then [raw_choice (raw_bytes src mb) mode] else [])"
  have c0: "candidates_ok src reference pre mb mode cs0" "mode = Lossless \<longrightarrow> cs0 \<noteq> []"
    using raw_choice_ok[OF wf] by (auto simp: cs0_def candidates_ok_def)
  have base: "okR (stepping src reference pre mb mode) (add_residual_candidates cs0 MODE_BASE_RES [] src pre mb mode)"
    using add_residual_candidates_ok[OF wf pred_parses_base modes_with_residual(1) c0]
    by (auto simp: stepping_def elim!: okR_mono)
  have raw: "read_raw_mb src mb [] = Inr (raw_bytes src mb)" by (simp add: read_raw_mb_ok[OF wf(1,4)])
  have pick: "okR (\<lambda>c. \<exists>d. choice_ok src reference pre mb mode c d)
      (case (if quality_recovery mode then choose_quality_recovery_raw_mb cs else None) of
         Some choice \<Rightarrow> Inr choice
       | None \<Rightarrow> if cs = [] then Inl Fault else Inr (arg_min_list mc_cost cs))"
    if "stepping src reference pre mb mode cs" for cs
    using that best_candidate(1)[of cs] quality_raw_in[of cs]
    by (auto simp: stepping_def candidates_ok_def split: option.splits if_splits)
  show ?thesis
    unfolding choose_mb_def raw bindR_simps Let_def cs0_def[symmetric]
    by (rule okR_bind[OF base], rule okR_bind[OF add_exact_copy_ok[OF wf]], assumption,
        rule okR_bind[OF add_best_copy_ok[OF wf]], assumption,
        rule okR_bind[OF okR_forR[where I = "stepping src reference pre mb mode"]], assumption,
        rule add_vbs_ok[OF wf], assumption, rule pick)
qed

end
