(* ===== verification/O3_EncTile.thy ===== *)
theory O3_EncTile
  imports O3_EncMb
begin

text \<open>
  \<open>encode_tile\<close>: the base vector, the prefilled reconstruction, the bands of
  macroblocks with their skip runs, and the segment maps. The streams a band
  writes are described by \<open>writes\<close>: started on these bytes, the parser of a
  fragment reads exactly the given descriptions and goes on after them.
\<close>

section \<open>The code\<close>

function flush_skip :: "byte list \<Rightarrow> nat \<Rightarrow> byte list \<times> nat" where
  "flush_skip mode_stream skip_run =
     (if skip_run > 0 then
        let run = min skip_run 0x7f in flush_skip (mode_stream @ [of_nat run]) (skip_run - run)
      else (mode_stream, skip_run))"
  by pat_completeness auto
termination
  by (relation "measure snd") auto

declare flush_skip.simps [simp del]

text \<open>The variables the macroblock loop of one band changes.\<close>

record band_state =
  bd_mode_stream :: "byte list"
  bd_residual_stream :: "byte list"
  bd_raw_stream :: "byte list"
  bd_segment_ids :: "byte list"
  bd_skip_run :: nat
  bd_recon :: eye_frame
  bd_stats :: frame_stats

definition skip_mb :: "band_state \<Rightarrow> band_state" where
  "skip_mb st =
     (let skip_run = bd_skip_run st + 1;
          st = st\<lparr>bd_segment_ids := bd_segment_ids st @ [0],
                  bd_stats := (bd_stats st)\<lparr>fs_skip_mb := fs_skip_mb (bd_stats st) + 1\<rparr>\<rparr> in
      if skip_run = 0x7f then st\<lparr>bd_mode_stream := bd_mode_stream st @ [0x7f], bd_skip_run := 0\<rparr>
      else st\<lparr>bd_skip_run := skip_run\<rparr>)"

definition encode_mb :: "eye_frame \<Rightarrow> eye_frame \<Rightarrow> encode_mode \<Rightarrow> nat \<Rightarrow> band_state \<Rightarrow> band_state result" where
  "encode_mb src reference mode mb_index st =
     bindR (mb_equal src (bd_recon st) mb_index) (\<lambda>equal.
     if equal then Inr (skip_mb st)
     else
       let (mode_stream, skip_run) = flush_skip (bd_mode_stream st) (bd_skip_run st) in
       bindR (choose_mb src reference (bd_recon st) mb_index mode) (\<lambda>choice.
       let (mode_stream, residual_stream, raw_stream) =
         write_choice (mode_stream, bd_residual_stream st, bd_raw_stream st) choice in
       bindR (apply_choice_to_recon (bd_recon st) mb_index choice) (\<lambda>recon.
       Inr \<lparr>bd_mode_stream = mode_stream, bd_residual_stream = residual_stream, bd_raw_stream = raw_stream,
            bd_segment_ids = bd_segment_ids st @ [mc_segment_id choice], bd_skip_run = skip_run, bd_recon = recon,
            bd_stats = add_choice (bd_stats st) choice\<rparr>)))"

text \<open>The inner \<open>while\<close> of \<open>build_segment_map\<close>: how long the run from \<open>i\<close> is.\<close>

function segment_run :: "byte list \<Rightarrow> nat \<Rightarrow> nat \<Rightarrow> nat" where
  "segment_run segment_ids i run =
     (if i + run < length segment_ids \<and> segment_ids ! (i + run) = segment_ids ! i \<and> run < 256
      then segment_run segment_ids i (run + 1) else run)"
  by pat_completeness auto
termination
  by (relation "measure (\<lambda>(_, _, run). 256 - run)") auto

declare segment_run.simps [simp del]

lemma segment_run_bounds: "run \<le> segment_run segment_ids i run" "run \<le> 256 \<Longrightarrow> segment_run segment_ids i run \<le> 256"
  by (induction segment_ids i run rule: segment_run.induct) (subst segment_run.simps; force)+

function segment_map_runs :: "byte list \<Rightarrow> nat \<Rightarrow> byte list \<Rightarrow> byte list" where
  "segment_map_runs segment_ids i out =
     (if i < length segment_ids then
        let run = segment_run segment_ids i 1 in
        segment_map_runs segment_ids (i + run) (out @ [of_nat (run - 1)] @ [segment_ids ! i])
      else out)"
  by pat_completeness auto
termination
proof (relation "measure (\<lambda>(segment_ids, i, _). length segment_ids - i)")
  fix segment_ids :: "byte list" and i run
  assume "i < length segment_ids" and "run = segment_run segment_ids i 1"
  then show "((segment_ids, i + run, out @ [of_nat (run - 1)] @ [segment_ids ! i]), segment_ids, i, out)
      \<in> measure (\<lambda>(segment_ids, i, _). length segment_ids - i)" for out
    using segment_run_bounds(1)[of 1 segment_ids i] by simp
qed simp

declare segment_map_runs.simps [simp del]

definition build_segment_map :: "byte list \<Rightarrow> byte list" where
  "build_segment_map segment_ids = segment_map_runs segment_ids 0 []"

definition encode_rows :: "eye_frame \<Rightarrow> eye_frame \<Rightarrow> encode_mode \<Rightarrow> nat \<Rightarrow> nat \<Rightarrow> band_state \<Rightarrow> band_state result" where
  "encode_rows src reference mode row_start row_count st =
     forR (\<lambda>row. forR (\<lambda>col. encode_mb src reference mode (row * MB_W + col)) [0..<MB_W])
       [row_start..<row_start + row_count] st"

definition encode_band ::
  "byte \<Rightarrow> eye_frame \<Rightarrow> eye_frame \<Rightarrow> encode_mode \<Rightarrow> nat \<times> nat \<Rightarrow>
    encoded_fragment list \<times> eye_frame \<times> frame_stats \<Rightarrow> (encoded_fragment list \<times> eye_frame \<times> frame_stats) result" where
  "encode_band tile_id src reference mode = (\<lambda>(row_start, row_count) (fragments, recon, stats).
     bindR (encode_rows src reference mode row_start row_count
       \<lparr>bd_mode_stream = [], bd_residual_stream = [], bd_raw_stream = [], bd_segment_ids = [], bd_skip_run = 0,
        bd_recon = recon, bd_stats = stats\<rparr>) (\<lambda>st.
     let mode_stream = fst (flush_skip (bd_mode_stream st) (bd_skip_run st)) @ [0];
         stats = (bd_stats st)\<lparr>
           fs_mode_stream_bytes := fs_mode_stream_bytes (bd_stats st) + length mode_stream,
           fs_residual_stream_bytes := fs_residual_stream_bytes (bd_stats st) + length (bd_residual_stream st),
           fs_raw_stream_bytes := fs_raw_stream_bytes (bd_stats st) + length (bd_raw_stream st)\<rparr>;
         fragment = \<lparr>ef_tile_id = tile_id, ef_row_start = of_nat row_start, ef_row_count = of_nat row_count,
           ef_start_mb = of_nat (row_start * MB_W), ef_mb_count = of_nat (row_count * MB_W),
           ef_segment_map_stream = build_segment_map (bd_segment_ids st), ef_mode_stream = mode_stream,
           ef_residual_stream = bd_residual_stream st, ef_raw_stream = bd_raw_stream st\<rparr>
     in Inr (fragments @ [fragment], bd_recon st, stats)))"

text \<open>Some entry of a segment map (pairs of bytes) names a segment other than 0.\<close>

fun names_segment :: "byte list \<Rightarrow> bool" where
  "names_segment (run # seg # entries) \<longleftrightarrow> seg \<noteq> 0 \<or> names_segment entries"
| "names_segment _ \<longleftrightarrow> False"

definition bands :: "bool \<Rightarrow> (nat \<times> nat) list" where
  "bands row_bands = (if row_bands then [(0, 5), (5, 5), (10, 5)] else [(0, MB_H)])"

definition encode_tile ::
  "byte \<Rightarrow> eye_frame \<Rightarrow> eye_frame \<Rightarrow> bool \<Rightarrow> encode_mode \<Rightarrow> (encoded_tile \<times> eye_frame \<times> frame_stats) result" where
  "encode_tile tile_id src reference row_bands mode =
     bindR (find_base_mv src reference) (\<lambda>base_mv.
     bindR (prefill_eye EyeFrame_new reference base_mv) (\<lambda>recon.
     bindR (forR (encode_band tile_id src reference mode) (bands row_bands) ([], recon, FrameStats_default))
       (\<lambda>(fragments, recon, stats).
     let segment_count = (if \<exists>f\<in>set fragments. names_segment (ef_segment_map_stream f) then 4 else 1 :: byte);
         fragments = (if segment_count = 1 then map (\<lambda>f. f\<lparr>ef_segment_map_stream := []\<rparr>) fragments else fragments);
         stats = stats\<lparr>fs_segment_map_stream_bytes := sum_list (map (\<lambda>f. length (ef_segment_map_stream f)) fragments)\<rparr>;
         base_predictor_mbs = fs_skip_mb stats + fs_base_res_mb stats;
         stats = (if base_predictor_mbs \<le> LAZY_BASE_COPY_MAX_MB_PER_TILE
                  then stats\<lparr>fs_lazy_base_copy_mb := base_predictor_mbs\<rparr> else stats\<lparr>fs_prefill_tiles := 1\<rparr>)
     in Inr (\<lparr>et_tile_id = tile_id, et_base_mv = base_mv, et_segment_count = segment_count, et_fragments = fragments\<rparr>,
             recon, stats))))"

end
