(* ===== verification/O3_EncBand.thy ===== *)
theory O3_EncBand
  imports O3_EncTile
begin

text \<open>
  The laws of a band: what \<open>encode_mb\<close> keeps of the invariant \<open>band_inv\<close>, which
  relates the streams written so far, the reconstruction and the statistics to
  the macroblock descriptions a decoder will parse.
\<close>

section \<open>Streams that continue\<close>

definition writes :: "byte list \<Rightarrow> byte list \<Rightarrow> byte list \<Rightarrow> mb_desc list \<Rightarrow> bool" where
  "writes ms rs ws ds \<longleftrightarrow> (\<forall>n mr rr raw p1 p2 p3.
     rest mr = ms @ p1 \<longrightarrow> rest rr = rs @ p2 \<longrightarrow> rest raw = ws @ p3 \<longrightarrow> length ds \<le> n \<longrightarrow>
     parse_modes n (mr, rr, raw) =
       bindR (parse_modes (n - length ds) (adv (length ms) mr, adv (length rs) rr, adv (length ws) raw))
         (\<lambda>(ds', st). Inr (ds @ ds', st)))"

lemma writes_Nil: "writes [] [] [] []"
  by (simp add: writes_def)

lemma writes_append:
  assumes "writes a1 b1 c1 ds1" and "writes a2 b2 c2 ds2"
  shows "writes (a1 @ a2) (b1 @ b2) (c1 @ c2) (ds1 @ ds2)"
  unfolding writes_def
proof (intro allI impI)
  fix n mr rr raw p1 p2 p3
  assume r: "rest mr = (a1 @ a2) @ p1" "rest rr = (b1 @ b2) @ p2" "rest raw = (c1 @ c2) @ p3" and n: "length (ds1 @ ds2) \<le> n"
  have "parse_modes n (mr, rr, raw) = bindR (parse_modes (n - length ds1) (adv (length a1) mr, adv (length b1) rr, adv (length c1) raw))
      (\<lambda>(ds', st). Inr (ds1 @ ds', st))"
    using r n by (intro assms(1)[unfolded writes_def, rule_format, of _ "a2 @ p1" _ "b2 @ p2" _ "c2 @ p3"]) auto
  moreover have "parse_modes (n - length ds1) (adv (length a1) mr, adv (length b1) rr, adv (length c1) raw) =
      bindR (parse_modes (n - length ds1 - length ds2) (adv (length a2) (adv (length a1) mr), adv (length b2) (adv (length b1) rr), adv (length c2) (adv (length c1) raw)))
      (\<lambda>(ds', st). Inr (ds2 @ ds', st))"
    using r n by (intro assms(2)[unfolded writes_def, rule_format, of _ p1 _ p2 _ p3]) auto
  ultimately show "parse_modes n (mr, rr, raw) =
      bindR (parse_modes (n - length (ds1 @ ds2)) (adv (length (a1 @ a2)) mr, adv (length (b1 @ b2)) rr, adv (length (c1 @ c2)) raw))
        (\<lambda>(ds', st). Inr ((ds1 @ ds2) @ ds', st))"
    by (simp add: bindR_assoc split_def add.commute)
qed

lemma writes_skip:
  assumes "0 < k" and "k \<le> 0x7f"
  shows "writes [of_nat k] [] [] (replicate k (BaseP, []))"
  unfolding writes_def
proof (intro allI impI)
  fix n mr rr raw p1 p2 p3
  assume r: "rest mr = [of_nat k] @ p1" and n: "length (replicate k (BaseP, [])) \<le> n"
  have u: "unat (of_nat k :: byte) = k" using assms by (simp add: unat_of_nat take_bit_nat_eq_self)
  then have "(of_nat k :: byte) \<noteq> 0" "(of_nat k :: byte) \<le> 0x7f" using assms by (auto simp: word_le_nat_alt)
  then show "parse_modes n (mr, rr, raw) =
      bindR (parse_modes (n - length (replicate k (BaseP, []))) (adv (length [of_nat k :: byte]) mr, adv (length []) rr, adv (length []) raw))
        (\<lambda>(ds', st). Inr (replicate k (BaseP, []) @ ds', st))"
    using assms n u rd_u8_cons[of mr "of_nat k" p1] r by (simp add: parse_modes.simps[of n mr rr raw])
qed

lemma mode_opcode:
  assumes "m < 16"
  shows "(0x80 OR m :: byte) \<noteq> 0" and "\<not> (0x80 OR m :: byte) \<le> 0x7f"
    and "(0x80 OR m :: byte) AND 0xf0 = 0x80" and "(0x80 OR m :: byte) AND 0x0f = m"
proof -
  have "m \<in> of_nat ` {..<16}" using assms by (intro image_eqI[where x = "unat m"]) (simp_all add: word_less_nat_alt)
  moreover have "\<forall>k\<in>{..<16}. (0x80 OR of_nat k :: byte) \<noteq> 0 \<and> \<not> (0x80 OR of_nat k :: byte) \<le> 0x7f \<and>
      (0x80 OR of_nat k :: byte) AND 0xf0 = 0x80 \<and> (0x80 OR of_nat k :: byte) AND 0x0f = of_nat k"
    by code_simp
  ultimately show "(0x80 OR m :: byte) \<noteq> 0" "\<not> (0x80 OR m :: byte) \<le> 0x7f"
    "(0x80 OR m :: byte) AND 0xf0 = 0x80" "(0x80 OR m :: byte) AND 0x0f = m" by auto
qed

lemma writes_choice:
  assumes "choice_ok src reference pre mb mode c d"
  shows "writes ((0x80 OR mc_mode c) # put_mvs (mc_mvs c)) (mc_residual c) (mc_raw c) [d]"
  unfolding writes_def
proof (intro allI impI)
  fix n mr rr raw p1 p2 p3
  assume r: "rest mr = ((0x80 OR mc_mode c) # put_mvs (mc_mvs c)) @ p1" "rest rr = mc_residual c @ p2" "rest raw = mc_raw c @ p3"
    and n: "length [d] \<le> n"
  have "mc_mode c < 16" using assms by (simp add: choice_ok_def pred_parses_def)
  note oc = mode_opcode[OF this]
  have "rest (adv 1 mr) = put_mvs (mc_mvs c) @ p1" using r by simp
  note p = choice_parses[OF assms this r(2,3)]
  show "parse_modes n (mr, rr, raw) =
      bindR (parse_modes (n - length [d]) (adv (length ((0x80 OR mc_mode c) # put_mvs (mc_mvs c))) mr, adv (length (mc_residual c)) rr, adv (length (mc_raw c)) raw))
        (\<lambda>(ds', st). Inr ([d] @ ds', st))"
    using n p oc rd_u8_cons[of mr "0x80 OR mc_mode c" "put_mvs (mc_mvs c) @ p1"] r
    by (simp add: parse_modes.simps[of n mr rr raw])
qed

lemma flush_skip_ok: "\<exists>bs. flush_skip ms k = (ms @ bs, 0) \<and> writes bs [] [] (replicate k (BaseP, [])) \<and> length bs \<le> k"
proof (induction ms k rule: flush_skip.induct)
  case (1 ms k)
  show ?case
  proof (cases "k > 0")
    case True
    let ?run = "min k 0x7f"
    obtain bs where bs: "flush_skip (ms @ [of_nat ?run]) (k - ?run) = ((ms @ [of_nat ?run]) @ bs, 0)"
      "writes bs [] [] (replicate (k - ?run) (BaseP, []))" "length bs \<le> k - ?run"
      using 1[OF True refl] by blast
    have "writes [of_nat ?run] [] [] (replicate ?run (BaseP, []))" using True by (intro writes_skip) auto
    from writes_append[OF this bs(2)] have "writes (of_nat ?run # bs) [] [] (replicate k (BaseP, []))"
      by (simp flip: replicate_add)
    moreover have "flush_skip ms k = (ms @ of_nat ?run # bs, 0)"
      using True bs(1) by (simp add: flush_skip.simps[of ms k] Let_def)
    moreover have "length (of_nat ?run # bs) \<le> k" using bs(3) True by auto
    ultimately show ?thesis by blast
  qed (use writes_Nil flush_skip.simps[of ms k] in auto)
qed

text \<open>A complete fragment: the streams, the closing zero, nothing left.\<close>

lemma parse_mbs_writes:
  assumes "writes ms rs ws ds"
  shows "parse_mbs (length ds) (ms @ [0]) rs ws = Inr ds"
proof -
  have "parse_modes (length ds) (reader_new (ms @ [0]), reader_new rs, reader_new ws) =
      bindR (parse_modes 0 (adv (length ms) (reader_new (ms @ [0])), adv (length rs) (reader_new rs), adv (length ws) (reader_new ws)))
        (\<lambda>(ds', st). Inr (ds @ ds', st))"
    using assms[unfolded writes_def, rule_format, of "reader_new (ms @ [0])" "[0]" "reader_new rs" "[]" "reader_new ws" "[]" "length ds"]
    by simp
  then show ?thesis
    by (simp add: parse_mbs_def parse_modes.simps[of 0] consume_optional_trailing_zero_rest remaining_eq_0_iff)
qed

section \<open>What the statistics count\<close>

definition blk_total :: "(residual_counts \<Rightarrow> nat) \<Rightarrow> mb_desc list \<Rightarrow> nat" where
  "blk_total f ds = sum_list (map (\<lambda>d. f (count_blks (snd d))) ds)"

primrec is_raw :: "mb_pred \<Rightarrow> bool" where
  "is_raw BaseP \<longleftrightarrow> False"
| "is_raw (CopyP mv) \<longleftrightarrow> False"
| "is_raw (VbsP shape mvs) \<longleftrightarrow> False"
| "is_raw (RawP bytes) \<longleftrightarrow> True"

definition raw_count :: "mb_desc list \<Rightarrow> nat" where
  "raw_count ds = length (filter (\<lambda>d. is_raw (fst d)) ds)"

definition mb_total :: "frame_stats \<Rightarrow> nat" where
  "mb_total st = fs_skip_mb st + fs_copy16_mb st + fs_copy16_res_mb st + fs_vbs_mb st + fs_vbs_res_mb st +
     fs_base_res_mb st + fs_raw_mb st"

text \<open>The statistics \<open>st\<close> are \<open>st0\<close> with the macroblocks \<open>ds\<close> counted.\<close>

definition accounts :: "frame_stats \<Rightarrow> mb_desc list \<Rightarrow> frame_stats \<Rightarrow> bool" where
  "accounts st0 ds st \<longleftrightarrow> mb_total st = mb_total st0 + length ds \<and>
     fs_skip_mb st + fs_base_res_mb st = fs_skip_mb st0 + fs_base_res_mb st0 + base_count ds \<and>
     fs_raw_mb st = fs_raw_mb st0 + raw_count ds \<and>
     fs_raw_4x4_blocks st = fs_raw_4x4_blocks st0 + blk_total rs_raw_4x4_blocks ds \<and>
     fs_dc_only_blocks st = fs_dc_only_blocks st0 + blk_total rs_dc_only_blocks ds \<and>
     fs_ac_mask_blocks st = fs_ac_mask_blocks st0 + blk_total rs_ac_mask_blocks ds \<and>
     fs_full_idct_blocks st = fs_full_idct_blocks st0 + blk_total rs_full_idct_blocks ds"

text \<open>The counters the macroblock loop leaves alone.\<close>

definition stream_counters :: "frame_stats \<Rightarrow> nat list" where
  "stream_counters st = [fs_mode_stream_bytes st, fs_residual_stream_bytes st, fs_raw_stream_bytes st,
     fs_prefill_tiles st, fs_lazy_base_copy_mb st]"

lemma blk_total_simps [simp]:
  "blk_total f [] = 0" "blk_total f (d # ds) = f (count_blks (snd d)) + blk_total f ds"
  "blk_total f (ds @ ds') = blk_total f ds + blk_total f ds'"
  "blk_total f (replicate n (p, bs)) = n * f (count_blks bs)"
  by (simp_all add: blk_total_def sum_list_replicate)

lemma raw_count_simps [simp]:
  "raw_count [] = 0" "raw_count (d # ds) = (if is_raw (fst d) then 1 else 0) + raw_count ds"
  "raw_count (ds @ ds') = raw_count ds + raw_count ds'" "raw_count (replicate n (BaseP, bs)) = 0"
  by (simp_all add: raw_count_def)

lemma count_blks_Nil [simp]:
  "rs_raw_4x4_blocks (count_blks []) = 0" "rs_dc_only_blocks (count_blks []) = 0"
  "rs_ac_mask_blocks (count_blks []) = 0" "rs_full_idct_blocks (count_blks []) = 0"
  by (simp_all add: count_blks_def ResidualStats_default_def)

lemma accounts_Nil: "accounts st [] st"
  by (simp add: accounts_def)

lemma accounts_trans: "accounts a ds b \<Longrightarrow> accounts b ds' c \<Longrightarrow> accounts a (ds @ ds') c"
  by (simp add: accounts_def)

lemma is_raw_iff: "is_raw p \<longleftrightarrow> (\<exists>bytes. p = RawP bytes)"
  by (cases p) auto

lemma pred_parses_mode:
  assumes "pred_parses mode mvs raw p"
  shows "mode \<in> {MODE_BASE_RES, MODE_COPY16, MODE_COPY16_RES, MODE_COPY16X8, MODE_COPY16X8_RES, MODE_COPY8X16,
    MODE_COPY8X16_RES, MODE_COPY8X8, MODE_COPY8X8_RES, MODE_RAW_MB}"
proof -
  have "\<exists>x. parse_pred mode (reader_new (put_mvs mvs)) (reader_new raw) = Inr x"
    using assms by (auto simp: pred_parses_def)
  then show ?thesis by (auto simp: parse_pred_def split: if_splits)
qed

lemma accounts_choice:
  assumes "choice_ok src reference pre mb mode c d" and "accounts st0 ds st"
  shows "accounts st0 (ds @ [d]) (add_choice st c)"
proof -
  have p: "pred_parses (mc_mode c) (mc_mvs c) (mc_raw c) (fst d)" and s: "mc_stats c = count_blks (snd d)"
    using assms(1) by (simp_all add: choice_ok_def)
  have base: "fst d = BaseP \<longleftrightarrow> mc_mode c = MODE_BASE_RES" and raw: "is_raw (fst d) \<longleftrightarrow> mc_mode c = MODE_RAW_MB"
    using p by (simp_all add: pred_parses_def is_raw_iff)
  show ?thesis
    using pred_parses_mode[OF p] assms(2) by (auto simp: accounts_def add_choice_def Let_def mb_total_def mode_defs base raw s)
qed

lemma accounts_skip:
  assumes "accounts st0 ds st"
  shows "accounts st0 (ds @ [(BaseP, [])]) (st\<lparr>fs_skip_mb := fs_skip_mb st + 1\<rparr>)"
  using assms by (simp add: accounts_def mb_total_def)

section \<open>The invariant of a band\<close>

definition band_inv ::
  "eye_frame \<Rightarrow> eye_frame \<Rightarrow> encode_mode \<Rightarrow> nat \<Rightarrow> eye_frame \<Rightarrow> frame_stats \<Rightarrow> nat \<Rightarrow> band_state \<Rightarrow> bool" where
  "band_inv src reference mode start recon0 st0 m st \<longleftrightarrow> wf_eye (bd_recon st) \<and>
     length (bd_segment_ids st) = m - start \<and> (\<forall>s\<in>set (bd_segment_ids st). s < 4) \<and>
     length (bd_mode_stream st) + bd_skip_run st \<le> 10 * (m - start) \<and>
     length (bd_residual_stream st) \<le> 844 * (m - start) \<and> length (bd_raw_stream st) \<le> 384 * (m - start) \<and>
     fs_distortion (bd_stats st) = fs_distortion st0 + (\<Sum>k\<in>{start..<m}. mb_sse k src (bd_recon st)) \<and>
     (mode = Lossless \<longrightarrow> agree {start..<m} (bd_recon st) src) \<and> stream_counters (bd_stats st) = stream_counters st0 \<and>
     (\<exists>ds. writes (bd_mode_stream st) (bd_residual_stream st) (bd_raw_stream st) ds \<and>
        start + length ds + bd_skip_run st = m \<and> (\<forall>d\<in>set ds. desc_ok d) \<and>
        bd_recon st = put_mbs Prefilled reference start ds recon0 \<and>
        accounts st0 (ds @ replicate (bd_skip_run st) (BaseP, [])) (bd_stats st))"

lemma band_inv_start:
  assumes "wf_eye recon"
  shows "band_inv src reference mode start recon stats start
    \<lparr>bd_mode_stream = [], bd_residual_stream = [], bd_raw_stream = [], bd_segment_ids = [], bd_skip_run = 0,
     bd_recon = recon, bd_stats = stats\<rparr>"
  using assms by (auto simp: band_inv_def writes_Nil accounts_Nil intro!: exI[of _ "[]"])

lemma mb_sse_cong:
  assumes "wf_eye a" "wf_eye b" "mb < MB_COUNT" "agree {mb} a b"
  shows "mb_sse mb src a = mb_sse mb src b"
  using agree_samples[OF assms(1-3) _ assms(4)] by (simp add: mb_sse_def)

lemma sse_sum_cong:
  assumes "wf_eye a" "wf_eye b" "m \<le> MB_COUNT" "agree {start..<m} a b"
  shows "(\<Sum>k\<in>{start..<m}. mb_sse k src a) = (\<Sum>k\<in>{start..<m}. mb_sse k src b)"
  using assms by (intro sum.cong refl mb_sse_cong agree_mono[OF assms(4)]) auto

lemma apply_choice_ok:
  assumes "choice_ok src reference pre mb mode c d" and "wf_eye pre" and "mb < MB_COUNT"
  shows "apply_choice_to_recon pre mb c = Inr (put_mb Prefilled reference mb d pre)"
proof -
  let ?e = "put_mb Prefilled reference mb d pre"
  have c: "mc_recon c = raw_bytes ?e mb" "desc_ok d" using assms(1) by (simp_all add: choice_ok_def)
  have "raw_bytes (raw_eye mb (mc_recon c) pre) mb = raw_bytes ?e mb"
    using raw_bytes_raw_eye[OF assms(2,3), of "mc_recon c"] by (simp add: c)
  then have "agree {mb} (raw_eye mb (mc_recon c) pre) ?e" using agree_iff_raw_bytes[OF assms(3)] by blast
  moreover have "agree (- {mb}) (raw_eye mb (mc_recon c) pre) ?e"
    using agree_raw_eye_outside[OF assms(2)] agree_put_mb_outside[OF assms(2,3) c(2)] by (blast intro: agree_trans agree_sym)
  ultimately have "agree ({mb} \<union> - {mb}) (raw_eye mb (mc_recon c) pre) ?e" by (simp only: agree_Un)
  then have "raw_eye mb (mc_recon c) pre = ?e"
    by (intro agree_all_eq) (use assms(2) in \<open>auto intro: agree_mono\<close>)
  then show ?thesis
    using write_raw_mb_to_eye_ok[OF assms(2,3), of "mc_recon c"] by (simp add: apply_choice_to_recon_def c)
qed

lemma write_choice_eq:
  "write_choice (ms, rs, ws) c = (ms @ (0x80 OR mc_mode c) # put_mvs (mc_mvs c), rs @ mc_residual c, ws @ mc_raw c)"
proof -
  have "fold (\<lambda>mv out. out @ [mvX mv] @ [mvY mv]) mvs out = out @ put_mvs mvs" for mvs :: "mv list" and out
    by (induction mvs arbitrary: out) (simp_all add: put_mvs_def put_mv_def)
  then show ?thesis by (simp add: write_choice_def)
qed

lemma range_Suc: "start \<le> m \<Longrightarrow> {start..<Suc m} = insert m {start..<m}"
  by auto

lemma skip_mb_ok:
  assumes inv: "band_inv src reference mode start recon0 st0 m st" and m: "start \<le> m" "m < MB_COUNT"
    and wf: "wf_eye src" and same: "agree {m} src (bd_recon st)"
  shows "band_inv src reference mode start recon0 st0 (Suc m) (skip_mb st)"
proof -
  from inv obtain ds where w: "wf_eye (bd_recon st)" and ds: "writes (bd_mode_stream st) (bd_residual_stream st) (bd_raw_stream st) ds"
    "start + length ds + bd_skip_run st = m" "\<forall>d\<in>set ds. desc_ok d" "bd_recon st = put_mbs Prefilled reference start ds recon0"
    "accounts st0 (ds @ replicate (bd_skip_run st) (BaseP, [])) (bd_stats st)" by (auto simp: band_inv_def)
  have acc: "accounts st0 (ds @ replicate (bd_skip_run st + 1) (BaseP, []))
      ((bd_stats st)\<lparr>fs_skip_mb := fs_skip_mb (bd_stats st) + 1\<rparr>)"
    using accounts_skip[OF ds(5)] by (simp flip: replicate_append_same)
  have sse: "mb_sse m src (bd_recon st) = 0" by (rule mb_sse_agree[OF w wf m(2) agree_sym[OF same]])
  have m': "agree {start..<Suc m} (bd_recon st) src" if "agree {start..<m} (bd_recon st) src"
    using that agree_sym[OF same] agree_insert[of m "{start..<m}"] by (simp add: range_Suc[OF m(1)])
  note keep = inv[unfolded band_inv_def]
  show ?thesis
  proof (cases "bd_skip_run st + 1 = 0x7f")
    case True
    have "writes (bd_mode_stream st @ [0x7f]) (bd_residual_stream st) (bd_raw_stream st) (ds @ replicate 0x7f (BaseP, []))"
      using writes_append[OF ds(1) writes_skip[of "0x7f"]] by simp
    moreover have "put_mbs Prefilled reference start (ds @ replicate 0x7f (BaseP, [])) recon0 = bd_recon st"
      by (simp only: put_mbs_append put_mbs_skips ds(4)[symmetric] base_copy_mode.case)
    moreover have "accounts st0 (ds @ replicate 0x7f (BaseP, [])) ((bd_stats st)\<lparr>fs_skip_mb := fs_skip_mb (bd_stats st) + 1\<rparr>)"
      using acc by (simp only: True)
    ultimately show ?thesis
      using keep True ds(2,3) m sse m'
      by (auto simp: band_inv_def skip_mb_def stream_counters_def Let_def range_Suc desc_ok_def intro!: exI[of _ "ds @ replicate 0x7f (BaseP, [])"])
  next
    case False
    then show ?thesis
      using keep ds acc m sse m'
      by (auto simp: band_inv_def skip_mb_def stream_counters_def Let_def range_Suc intro!: exI[of _ ds])
  qed
qed

theorem encode_mb_ok:
  assumes inv: "band_inv src reference mode start recon0 st0 m st" and m: "start \<le> m" "m < MB_COUNT"
    and wf: "wf_eye src" "wf_eye reference"
  shows "okR (band_inv src reference mode start recon0 st0 (Suc m)) (encode_mb src reference mode m st)"
proof -
  from inv obtain ds where w: "wf_eye (bd_recon st)" and ds: "writes (bd_mode_stream st) (bd_residual_stream st) (bd_raw_stream st) ds"
    "start + length ds + bd_skip_run st = m" "\<forall>d\<in>set ds. desc_ok d" "bd_recon st = put_mbs Prefilled reference start ds recon0"
    "accounts st0 (ds @ replicate (bd_skip_run st) (BaseP, [])) (bd_stats st)" by (auto simp: band_inv_def)
  note keep = inv[unfolded band_inv_def]
  obtain bs where bs: "flush_skip (bd_mode_stream st) (bd_skip_run st) = (bd_mode_stream st @ bs, 0)"
    "writes bs [] [] (replicate (bd_skip_run st) (BaseP, []))" "length bs \<le> bd_skip_run st" using flush_skip_ok by blast
  let ?ds = "ds @ replicate (bd_skip_run st) (BaseP, [])"
  have r: "put_mbs Prefilled reference start ?ds recon0 = bd_recon st"
    by (simp only: put_mbs_append put_mbs_skips ds(4)[symmetric] base_copy_mode.case)
  have step: "okR (band_inv src reference mode start recon0 st0 (Suc m))
      (case write_choice (bd_mode_stream st @ bs, bd_residual_stream st, bd_raw_stream st) c of (mode_stream, residual_stream, raw_stream) \<Rightarrow>
       bindR (apply_choice_to_recon (bd_recon st) m c) (\<lambda>recon.
       Inr \<lparr>bd_mode_stream = mode_stream, bd_residual_stream = residual_stream, bd_raw_stream = raw_stream,
            bd_segment_ids = bd_segment_ids st @ [mc_segment_id c], bd_skip_run = 0, bd_recon = recon,
            bd_stats = add_choice (bd_stats st) c\<rparr>))"
    if c: "choice_ok src reference (bd_recon st) m mode c d" for c d
  proof -
    let ?e = "put_mb Prefilled reference m d (bd_recon st)"
    note c' = c[unfolded choice_ok_def]
    have d: "desc_ok d" using c' by blast
    have out: "agree (- {m}) ?e (bd_recon st)" by (rule agree_put_mb_outside[OF w m(2) d])
    then have before: "agree {start..<m} ?e (bd_recon st)" by (rule agree_mono) auto
    have "writes ((bd_mode_stream st @ bs) @ (0x80 OR mc_mode c) # put_mvs (mc_mvs c)) (bd_residual_stream st @ mc_residual c)
        (bd_raw_stream st @ mc_raw c) (?ds @ [d])"
      using writes_append[OF writes_append[OF ds(1) bs(2)] writes_choice[OF c]] by simp
    moreover have "start + length (?ds @ [d]) = Suc m" using ds(2) by simp
    moreover have "\<forall>d\<in>set (?ds @ [d]). desc_ok d" using ds(3) d by (auto simp: desc_ok_def)
    moreover have "?e = put_mbs Prefilled reference start (?ds @ [d]) recon0"
      using ds(2) by (simp only: put_mbs_append[of _ _ _ ?ds] r put_mbs.simps length_append length_replicate add.assoc[symmetric])
    moreover have "accounts st0 (?ds @ [d]) (add_choice (bd_stats st) c)" by (rule accounts_choice[OF c ds(5)])
    ultimately have ex: "\<exists>ds. writes ((bd_mode_stream st @ bs) @ (0x80 OR mc_mode c) # put_mvs (mc_mvs c)) (bd_residual_stream st @ mc_residual c)
        (bd_raw_stream st @ mc_raw c) ds \<and> start + length ds + 0 = Suc m \<and> (\<forall>d\<in>set ds. desc_ok d) \<and>
        ?e = put_mbs Prefilled reference start ds recon0 \<and> accounts st0 (ds @ replicate 0 (BaseP, [])) (add_choice (bd_stats st) c)"
      by (intro exI[of _ "?ds @ [d]"]) simp
    have dist: "fs_distortion (add_choice (bd_stats st) c) = fs_distortion st0 + (\<Sum>k\<in>{start..<Suc m}. mb_sse k src ?e)"
    proof -
      have "(\<Sum>k\<in>{start..<m}. mb_sse k src ?e) = (\<Sum>k\<in>{start..<m}. mb_sse k src (bd_recon st))"
        using w m(2) before by (intro sse_sum_cong) auto
      then show ?thesis using keep c' m(1) by (simp add: add_choice_def Let_def range_Suc)
    qed
    have loss: "agree {start..<Suc m} ?e src" if "mode = Lossless"
    proof -
      have "raw_bytes ?e m = raw_bytes src m" using c' that by metis
      then have "agree {m} ?e src" using agree_iff_raw_bytes[OF m(2)] by blast
      moreover have "agree {start..<m} ?e src" using before keep that by (blast intro: agree_trans)
      ultimately show ?thesis using agree_insert[of m "{start..<m}"] by (simp add: range_Suc[OF m(1)])
    qed
    have len: "length (mc_mvs c) \<le> 4" "length (mc_residual c) \<le> 844" "length (mc_raw c) \<le> 384"
      using c' by (auto simp: pred_parses_def residual_codes_def split: if_splits)
    have "Suc m - start = Suc (m - start)" using m(1) by simp
    then show ?thesis
      unfolding write_choice_eq prod.case apply_choice_ok[OF c w m(2)] bindR_simps okR_Inr
      unfolding band_inv_def band_state.simps
      using keep c' m(1) len bs(3) w by (intro conjI ex dist impI loss) (auto simp: stream_counters_def add_choice_def Let_def)
  qed
  show ?thesis
    unfolding encode_mb_def mb_equal_ok[OF wf(1) w m(2)] bindR_simps bs(1) Let_def prod.case
  proof (rule okR_if)
    assume "agree {m} src (bd_recon st)"
    then show "okR (band_inv src reference mode start recon0 st0 (Suc m)) (Inr (skip_mb st))"
      using skip_mb_ok[OF inv m wf(1)] by simp
  qed (rule okR_bind[OF choose_mb_ok[OF wf w m(2)]], blast intro: step)
qed

end
