(* ===== verification/O3_EncTileLaws.thy ===== *)
theory O3_EncTileLaws
  imports O3_EncBand
begin

text \<open>
  What \<open>encode_tile\<close> promises: the tile it returns parses (\<open>tile_valid\<close>), its
  fragments are disjoint and cover the eye, decoding it from any scratch frame
  gives the reconstruction the encoder keeps as the next reference, and the
  statistics count what was coded.
\<close>

section \<open>Segment maps\<close>

text \<open>The macroblocks' segments a map of runs stands for.\<close>

definition expand_runs :: "(byte \<times> byte) list \<Rightarrow> byte list" where
  "expand_runs runs = concat (map (\<lambda>(len, seg). replicate (unat len + 1) seg) runs)"

lemma expand_runs_Cons [simp]: "expand_runs [] = []" "expand_runs ((len, seg) # runs) = replicate (unat len + 1) seg @ expand_runs runs"
  by (simp_all add: expand_runs_def)

lemma seg_simps [simp]: "seg_bytes [] = []" "seg_bytes ((len, seg) # runs) = len # seg # seg_bytes runs"
    "seg_total [] = 0" "seg_total ((len, seg) # runs) = unat len + 1 + seg_total runs"
  by (simp_all add: seg_bytes_def seg_total_def)

lemma length_expand_runs: "length (expand_runs runs) = seg_total runs"
  by (induction runs) auto

lemma set_expand_runs: "set (expand_runs runs) = snd ` set runs"
  by (force simp: expand_runs_def)

lemma unat_of_nat_byte: "k < 256 \<Longrightarrow> unat (of_nat k :: byte) = k"
  by (simp add: unat_of_nat take_bit_nat_eq_self)

lemma segment_run_spec:
  assumes "i + run \<le> length ids" and "\<forall>j<run. ids ! (i + j) = ids ! i"
  shows "i + segment_run ids i run \<le> length ids \<and> (\<forall>j < segment_run ids i run. ids ! (i + j) = ids ! i)"
  using assms
proof (induction ids i run rule: segment_run.induct)
  case (1 ids i run)
  show ?case
  proof (cases "i + run < length ids \<and> ids ! (i + run) = ids ! i \<and> run < 256")
    case True
    then show ?thesis using "1.IH" "1.prems" by (simp add: segment_run.simps[of ids i run] less_Suc_eq)
  next
    case False
    then show ?thesis using "1.prems" by (simp only: segment_run.simps[of ids i run] if_False)
  qed
qed

text \<open>A run is as long as it can be: it ends at the end, at another segment, or at 256.\<close>

lemma segment_run_maximal:
  "segment_run ids i run = 256 \<or> run > 256 \<or> length ids \<le> i + segment_run ids i run \<or> ids ! (i + segment_run ids i run) \<noteq> ids ! i"
proof (induction ids i run rule: segment_run.induct)
  case (1 ids i run)
  show ?case
  proof (cases "i + run < length ids \<and> ids ! (i + run) = ids ! i \<and> run < 256")
    case True
    then show ?thesis using "1.IH" by (simp add: segment_run.simps[of ids i run])
  next
    case False
    then have "segment_run ids i run = run" by (simp only: segment_run.simps[of ids i run] if_False)
    then show ?thesis using False by auto
  qed
qed

lemma segment_map_runs_ok: "\<exists>runs. segment_map_runs ids i out = out @ seg_bytes runs \<and> expand_runs runs = drop i ids"
proof (induction ids i out rule: segment_map_runs.induct)
  case (1 ids i out)
  show ?case
  proof (cases "i < length ids")
    case True
    let ?run = "segment_run ids i 1"
    have b: "1 \<le> ?run" "?run \<le> 256" using segment_run_bounds[of 1 ids i] by simp_all
    have s: "i + ?run \<le> length ids" "\<forall>j < ?run. ids ! (i + j) = ids ! i"
      using segment_run_spec[of i 1 ids] True by simp_all
    obtain runs where runs: "segment_map_runs ids (i + ?run) (out @ [of_nat (?run - 1)] @ [ids ! i]) =
        (out @ [of_nat (?run - 1)] @ [ids ! i]) @ seg_bytes runs" "expand_runs runs = drop (i + ?run) ids"
      using "1.IH"[OF True refl] by blast
    have u: "unat (of_nat (?run - 1) :: byte) + 1 = ?run" using b unat_of_nat_byte[of "?run - 1"] by linarith
    have "take ?run (drop i ids) = replicate ?run (ids ! i)" using s by (intro nth_equalityI) auto
    then have "replicate ?run (ids ! i) @ drop (i + ?run) ids = drop i ids"
      using append_take_drop_id[of ?run "drop i ids"] by (simp add: add.commute)
    then have "expand_runs ((of_nat (?run - 1), ids ! i) # runs) = drop i ids"
      by (simp only: expand_runs_Cons u runs(2))
    moreover have "segment_map_runs ids i out = out @ seg_bytes ((of_nat (?run - 1), ids ! i) # runs)"
      using True runs(1) by (simp add: segment_map_runs.simps[of ids i out] Let_def)
    ultimately show ?thesis by blast
  next
    case False
    then show ?thesis by (intro exI[of _ "[]"]) (simp add: segment_map_runs.simps[of ids i out])
  qed
qed

theorem build_segment_map_ok: "\<exists>runs. build_segment_map ids = seg_bytes runs \<and> expand_runs runs = ids"
  using segment_map_runs_ok[of ids 0 "[]"] by (simp add: build_segment_map_def)

lemma length_seg_bytes: "length (seg_bytes runs) \<le> 2 * seg_total runs"
  by (induction runs) auto

lemma names_segment_runs: "names_segment (seg_bytes runs) \<longleftrightarrow> (\<exists>(len, seg)\<in>set runs. seg \<noteq> 0)"
  by (induction runs) auto

section \<open>A fragment of an encoded tile\<close>

definition band_fragment :: "byte \<Rightarrow> encoded_fragment \<Rightarrow> mb_desc list \<Rightarrow> bool" where
  "band_fragment tile_id f ds \<longleftrightarrow>
     validate_fragment_header (ef_tile_id f) tile_id 0 0 (ef_row_start f) (ef_row_count f)
       (unat (ef_start_mb f)) (unat (ef_mb_count f)) = Inr () \<and>
     (\<exists>runs. ef_segment_map_stream f = seg_bytes runs \<and> seg_total runs = unat (ef_mb_count f) \<and> (\<forall>(len, seg)\<in>set runs. seg < 4)) \<and>
     parse_mbs (unat (ef_mb_count f)) (ef_mode_stream f) (ef_residual_stream f) (ef_raw_stream f) = Inr ds \<and>
     length (ef_mode_stream f) \<le> 3751 \<and> length (ef_residual_stream f) \<le> 316500 \<and> length (ef_raw_stream f) \<le> 144000"

lemma band_fragment_bytes:
  assumes "band_fragment tile_id f ds"
  shows "fragment_bytes f \<le> 470000" and "length ds = unat (ef_mb_count f)" and "\<forall>d\<in>set ds. desc_ok d"
    and "unat (ef_start_mb f) + length ds \<le> MB_COUNT" and "MB_W \<le> length ds" and "length (ef_segment_map_stream f) \<le> 750"
proof -
  note b = assms[unfolded band_fragment_def]
  from b obtain runs where runs: "ef_segment_map_stream f = seg_bytes runs" "seg_total runs = unat (ef_mb_count f)" by blast
  have p: "parse_mbs (unat (ef_mb_count f)) (ef_mode_stream f) (ef_residual_stream f) (ef_raw_stream f) = Inr ds" using b by blast
  show len: "length ds = unat (ef_mb_count f)" and "\<forall>d\<in>set ds. desc_ok d" by (rule parse_mbs_shape[OF p])+
  have v: "validate_fragment_header (ef_tile_id f) tile_id 0 0 (ef_row_start f) (ef_row_count f)
       (unat (ef_start_mb f)) (unat (ef_mb_count f)) = Inr ()" using b by blast
  show r: "unat (ef_start_mb f) + length ds \<le> MB_COUNT" using validate_fragment_header_range(1)[OF v] by (simp add: len)
  from v have "ef_row_count f \<noteq> 0" "unat (ef_mb_count f) = unat (ef_row_count f) * MB_W"
    by (auto simp: validate_fragment_header_iff)
  then show "MB_W \<le> length ds" using unat_pos[of "ef_row_count f"] by (simp add: len)
  have "seg_total runs \<le> 375" using r len runs(2) by (simp add: geom)
  with length_seg_bytes[of runs] show "length (ef_segment_map_stream f) \<le> 750" unfolding runs(1) by linarith
  with b show "fragment_bytes f \<le> 470000" by (simp add: fragment_bytes_def)
qed

section \<open>A band\<close>

lemma encode_rows_ok:
  assumes wf: "wf_eye src" "wf_eye reference" and rows: "row_start + row_count \<le> MB_H"
    and inv: "band_inv src reference mode (row_start * MB_W) recon0 st0 (row_start * MB_W) st"
  shows "okR (band_inv src reference mode (row_start * MB_W) recon0 st0 ((row_start + row_count) * MB_W))
    (encode_rows src reference mode row_start row_count st)"
  unfolding encode_rows_def
proof (rule okR_forR_upt[where I = "\<lambda>row. band_inv src reference mode (row_start * MB_W) recon0 st0 (row * MB_W)"])
  fix row st
  assume row: "row_start \<le> row" "row < row_start + row_count"
    and i: "band_inv src reference mode (row_start * MB_W) recon0 st0 (row * MB_W) st"
  have "row * MB_W + MB_W \<le> MB_COUNT" using row rows by (simp add: geom)
  moreover have "row_start * MB_W \<le> row * MB_W" using row by simp
  ultimately have "okR (band_inv src reference mode (row_start * MB_W) recon0 st0 (row * MB_W + MB_W))
      (forR (\<lambda>col. encode_mb src reference mode (row * MB_W + col)) [0..<MB_W] st)"
    using i by (intro okR_forR_upt[where I = "\<lambda>col. band_inv src reference mode (row_start * MB_W) recon0 st0 (row * MB_W + col)"])
      (auto intro!: encode_mb_ok[OF _ _ _ wf, simplified] trans_le_add1 mult_le_mono1)
  then show "okR (band_inv src reference mode (row_start * MB_W) recon0 st0 (Suc row * MB_W))
      (forR (\<lambda>col. encode_mb src reference mode (row * MB_W + col)) [0..<MB_W] st)" by (simp add: add.commute)
qed (use inv in simp_all)

text \<open>The streams' lengths, as the statistics add them up.\<close>

definition stream_bytes :: "(encoded_fragment \<Rightarrow> byte list) \<Rightarrow> encoded_fragment list \<Rightarrow> nat" where
  "stream_bytes s fs = sum_list (map (\<lambda>f. length (s f)) fs)"

lemma stream_bytes_simps [simp]: "stream_bytes s [] = 0" "stream_bytes s (fs @ [f]) = stream_bytes s fs + length (s f)"
  by (simp_all add: stream_bytes_def)

lemma flush_band:
  assumes "band_inv src reference mode start recon0 st0 m st"
  obtains bs ds where "flush_skip (bd_mode_stream st) (bd_skip_run st) = (bd_mode_stream st @ bs, 0)"
    "writes (bd_mode_stream st @ bs) (bd_residual_stream st) (bd_raw_stream st) ds" "start + length ds = m"
    "length (bd_mode_stream st @ bs) \<le> 10 * (m - start)"
    "bd_recon st = put_mbs Prefilled reference start ds recon0" "accounts st0 ds (bd_stats st)"
proof -
  note keep = assms[unfolded band_inv_def]
  from keep obtain ds where ds: "writes (bd_mode_stream st) (bd_residual_stream st) (bd_raw_stream st) ds"
    "start + length ds + bd_skip_run st = m" "bd_recon st = put_mbs Prefilled reference start ds recon0"
    "accounts st0 (ds @ replicate (bd_skip_run st) (BaseP, [])) (bd_stats st)" by blast
  obtain bs where bs: "flush_skip (bd_mode_stream st) (bd_skip_run st) = (bd_mode_stream st @ bs, 0)"
    "writes bs [] [] (replicate (bd_skip_run st) (BaseP, []))" "length bs \<le> bd_skip_run st" using flush_skip_ok by blast
  let ?ds = "ds @ replicate (bd_skip_run st) (BaseP, [])"
  have "put_mbs Prefilled reference start ?ds recon0 = bd_recon st"
    by (simp only: put_mbs_append put_mbs_skips ds(3)[symmetric] base_copy_mode.case)
  moreover have "writes (bd_mode_stream st @ bs) (bd_residual_stream st) (bd_raw_stream st) ?ds"
    using writes_append[OF ds(1) bs(2)] by simp
  moreover have "length (bd_mode_stream st @ bs) \<le> 10 * (m - start)" using keep bs(3) by simp
  ultimately show ?thesis using that[OF bs(1), of ?ds] ds(2,4) by simp
qed

definition band_done ::
  "byte \<Rightarrow> eye_frame \<Rightarrow> eye_frame \<Rightarrow> encode_mode \<Rightarrow> nat \<Rightarrow> nat \<Rightarrow> eye_frame \<Rightarrow> frame_stats \<Rightarrow>
    encoded_fragment \<Rightarrow> mb_desc list \<Rightarrow> eye_frame \<Rightarrow> frame_stats \<Rightarrow> bool" where
  "band_done tile_id src reference mode start m recon0 st0 f ds recon st \<longleftrightarrow>
     wf_eye recon \<and> band_fragment tile_id f ds \<and> unat (ef_start_mb f) = start \<and> start + length ds = m \<and>
     recon = put_mbs Prefilled reference start ds recon0 \<and> accounts st0 ds st \<and>
     fs_distortion st = fs_distortion st0 + (\<Sum>k\<in>{start..<m}. mb_sse k src recon) \<and>
     (mode = Lossless \<longrightarrow> agree {start..<m} recon src) \<and>
     stream_counters st = map2 (+) (stream_counters st0)
       [length (ef_mode_stream f), length (ef_residual_stream f), length (ef_raw_stream f), 0, 0]"

lemma encode_band_ok:
  assumes wf: "wf_eye src" "wf_eye reference" "wf_eye recon" and rows: "row_start + row_count \<le> MB_H" "0 < row_count"
  shows "okR (\<lambda>(fragments', recon', stats'). \<exists>f ds. fragments' = fragments @ [f] \<and>
      band_done tile_id src reference mode (row_start * MB_W) ((row_start + row_count) * MB_W) recon stats f ds recon' stats')
    (encode_band tile_id src reference mode (row_start, row_count) (fragments, recon, stats))"
  unfolding encode_band_def prod.case
proof (rule okR_bind[OF encode_rows_ok[OF wf(1,2) rows(1) band_inv_start[OF wf(3)]]])
  let ?s = "row_start * MB_W" and ?m = "(row_start + row_count) * MB_W"
  fix st assume inv: "band_inv src reference mode ?s recon stats ?m st"
  note keep = inv[unfolded band_inv_def]
  obtain bs ds where bs: "flush_skip (bd_mode_stream st) (bd_skip_run st) = (bd_mode_stream st @ bs, 0)"
    "writes (bd_mode_stream st @ bs) (bd_residual_stream st) (bd_raw_stream st) ds" "?s + length ds = ?m"
    "length (bd_mode_stream st @ bs) \<le> 10 * (?m - ?s)"
    "bd_recon st = put_mbs Prefilled reference ?s ds recon" "accounts stats ds (bd_stats st)"
    using flush_band[OF inv] by blast
  have n: "?m - ?s = row_count * MB_W" "length ds = row_count * MB_W" using bs(3) by (simp_all add: distrib_right)
  have small: "row_count * MB_W \<le> 375" "row_start * MB_W \<le> 375" using rows by (simp_all add: geom)
  then have u: "unat (of_nat (row_start * MB_W) :: u16) = row_start * MB_W" "unat (of_nat (row_count * MB_W) :: u16) = row_count * MB_W"
    by (simp_all add: unat_of_nat take_bit_nat_eq_self del: of_nat_mult)
  have ub: "unat (of_nat row_start :: byte) = row_start" "unat (of_nat row_count :: byte) = row_count"
    using rows by (auto intro!: unat_of_nat_byte simp: geom)
  then have nz: "(of_nat row_count :: byte) \<noteq> 0" using rows(2) by auto
  define f where "f = \<lparr>ef_tile_id = tile_id, ef_row_start = of_nat row_start, ef_row_count = of_nat row_count,
           ef_start_mb = of_nat (row_start * MB_W), ef_mb_count = of_nat (row_count * MB_W),
           ef_segment_map_stream = build_segment_map (bd_segment_ids st), ef_mode_stream = (bd_mode_stream st @ bs) @ [0],
           ef_residual_stream = bd_residual_stream st, ef_raw_stream = bd_raw_stream st\<rparr>"
  obtain runs where runs: "build_segment_map (bd_segment_ids st) = seg_bytes runs" "expand_runs runs = bd_segment_ids st"
    using build_segment_map_ok by blast
  have seg: "seg_total runs = row_count * MB_W" "\<forall>(len, seg)\<in>set runs. seg < 4"
    using runs(2) keep n(1) length_expand_runs[of runs] set_expand_runs[of runs] by auto
  have bf: "band_fragment tile_id f ds"
    using parse_mbs_writes[OF bs(2)] bs(4) keep n small rows ub nz u runs(1) seg
    by (auto simp: band_fragment_def f_def validate_fragment_header_iff simp del: of_nat_mult intro!: exI[of _ runs])
  show "okR (\<lambda>(fragments', recon', stats'). \<exists>f ds. fragments' = fragments @ [f] \<and>
      band_done tile_id src reference mode ?s ?m recon stats f ds recon' stats')
    (let mode_stream = fst (flush_skip (bd_mode_stream st) (bd_skip_run st)) @ [0];
         stats = (bd_stats st)\<lparr>
           fs_mode_stream_bytes := fs_mode_stream_bytes (bd_stats st) + length mode_stream,
           fs_residual_stream_bytes := fs_residual_stream_bytes (bd_stats st) + length (bd_residual_stream st),
           fs_raw_stream_bytes := fs_raw_stream_bytes (bd_stats st) + length (bd_raw_stream st)\<rparr>;
         fragment = \<lparr>ef_tile_id = tile_id, ef_row_start = of_nat row_start, ef_row_count = of_nat row_count,
           ef_start_mb = of_nat (row_start * MB_W), ef_mb_count = of_nat (row_count * MB_W),
           ef_segment_map_stream = build_segment_map (bd_segment_ids st), ef_mode_stream = mode_stream,
           ef_residual_stream = bd_residual_stream st, ef_raw_stream = bd_raw_stream st\<rparr>
     in Inr (fragments @ [fragment], bd_recon st, stats))"
    unfolding Let_def bs(1) fst_conv f_def[symmetric] okR_Inr prod.case
    using keep bf bs(3,5,6) u(1)
    by (intro exI[of _ f] exI[of _ ds])
      (auto simp: band_done_def f_def stream_counters_def accounts_def mb_total_def simp del: of_nat_mult)
qed

section \<open>The bands of a tile\<close>

definition frags_of :: "encoded_fragment list \<Rightarrow> mb_desc list list \<Rightarrow> frag_ast list" where
  "frags_of fs dss = zip (map (\<lambda>f. unat (ef_start_mb f)) fs) dss"

lemma frags_of_append: "length fs = length dss \<Longrightarrow>
    frags_of (fs @ [f]) (dss @ [ds]) = frags_of fs dss @ [(unat (ef_start_mb f), ds)]"
  by (simp add: frags_of_def)

lemma disjoint_frags_append: "disjoint_frags (fs @ [f]) \<longleftrightarrow> disjoint_frags fs \<and> covered fs \<inter> frag_mbs f = {}"
  by (induction fs) (auto simp: covered_def)

lemma covered_append: "covered (fs @ [f]) = covered fs \<union> frag_mbs f"
  by (auto simp: covered_def)

definition bands_inv ::
  "byte \<Rightarrow> eye_frame \<Rightarrow> eye_frame \<Rightarrow> encode_mode \<Rightarrow> eye_frame \<Rightarrow> nat \<Rightarrow>
    encoded_fragment list \<times> eye_frame \<times> frame_stats \<Rightarrow> bool" where
  "bands_inv tile_id src reference mode recon0 m = (\<lambda>(fs, recon, st). wf_eye recon \<and>
     (\<exists>dss. list_all2 (band_fragment tile_id) fs dss \<and> covered (frags_of fs dss) = {..<m} \<and> disjoint_frags (frags_of fs dss) \<and>
        recon = put_frags Prefilled reference (frags_of fs dss) recon0 \<and> accounts FrameStats_default (concat dss) st \<and>
        length (concat dss) = m) \<and>
     fs_distortion st = (\<Sum>k<m. mb_sse k src recon) \<and> (mode = Lossless \<longrightarrow> agree {..<m} recon src) \<and>
     stream_counters st = [stream_bytes ef_mode_stream fs, stream_bytes ef_residual_stream fs, stream_bytes ef_raw_stream fs, 0, 0])"

lemma split_range: "start \<le> m \<Longrightarrow> {..<m} = {..<start} \<union> {start..<m}" for start m :: nat
  by auto

lemma encode_band_step:
  assumes wf: "wf_eye src" "wf_eye reference" and rows: "row_start + row_count \<le> MB_H" "0 < row_count"
    and inv: "bands_inv tile_id src reference mode recon0 (row_start * MB_W) acc"
  shows "okR (bands_inv tile_id src reference mode recon0 ((row_start + row_count) * MB_W))
    (encode_band tile_id src reference mode (row_start, row_count) acc)"
proof -
  let ?s = "row_start * MB_W" and ?m = "(row_start + row_count) * MB_W"
  obtain fs recon st where acc: "acc = (fs, recon, st)" by (cases acc)
  note keep = inv[unfolded acc bands_inv_def prod.case]
  from keep obtain dss where dss: "list_all2 (band_fragment tile_id) fs dss" "covered (frags_of fs dss) = {..<?s}"
    "disjoint_frags (frags_of fs dss)" "recon = put_frags Prefilled reference (frags_of fs dss) recon0"
    "accounts FrameStats_default (concat dss) st" "length (concat dss) = ?s" by blast
  have w: "wf_eye recon" using keep by blast
  show ?thesis
    unfolding acc
  proof (rule okR_mono[OF encode_band_ok[OF wf w rows]])
    fix x :: "encoded_fragment list \<times> eye_frame \<times> frame_stats"
    assume "case x of (fragments', recon', stats') \<Rightarrow> \<exists>f ds. fragments' = fs @ [f] \<and>
      band_done tile_id src reference mode ?s ?m recon st f ds recon' stats'"
    then obtain f ds recon' st' where x: "x = (fs @ [f], recon', st')"
      and d: "band_done tile_id src reference mode ?s ?m recon st f ds recon' st'" by (cases x) auto
    note d' = d[unfolded band_done_def]
    have bf: "band_fragment tile_id f ds" using d' by blast
    have fr: "frags_of (fs @ [f]) (dss @ [ds]) = frags_of fs dss @ [(?s, ds)]"
      using d' list_all2_lengthD[OF dss(1)] by (simp add: frags_of_append)
    have mbs: "frag_mbs (?s, ds) = {?s..<?m}" using d' by (simp add: frag_mbs_def)
    have le: "?s \<le> ?m" and mx: "?m \<le> MB_COUNT" using rows by (simp_all add: geom)
    have w': "wf_eye recon'" using d' by blast
    have r: "recon' = put_mbs Prefilled reference ?s ds recon" using d' by blast
    have "agree (- {?s..<?s + length ds}) recon' recon"
      unfolding r using w band_fragment_bytes[OF bf] d' by (intro agree_put_mbs_outside) auto
    then have before: "agree {0..<?s} recon' recon" using d' by (auto intro: agree_mono)
    have sum: "(\<Sum>k<?s. mb_sse k src recon') = (\<Sum>k<?s. mb_sse k src recon)"
      using sse_sum_cong[OF w' w _ before, of src] le mx by (simp add: lessThan_atLeast0)
    have "fs_distortion st' = (\<Sum>k<?s. mb_sse k src recon') + (\<Sum>k\<in>{?s..<?m}. mb_sse k src recon')"
      using d' keep sum by simp
    also have "\<dots> = (\<Sum>k<?m. mb_sse k src recon')"
      unfolding split_range[OF le] by (rule sum.union_disjoint[symmetric]) auto
    finally have dist: "fs_distortion st' = (\<Sum>k<?m. mb_sse k src recon')" .
    have loss: "agree {..<?m} recon' src" if "mode = Lossless"
    proof -
      have "agree {..<?s} recon' src"
        using agree_trans[OF before, of src] that keep by (simp add: lessThan_atLeast0)
      moreover have "agree {?s..<?m} recon' src" using d' that by blast
      ultimately show ?thesis unfolding split_range[OF le] agree_Un ..
    qed
    show "bands_inv tile_id src reference mode recon0 ?m x"
      unfolding bands_inv_def x prod.case
    proof (intro conjI exI[of _ "dss @ [ds]"])
      show "list_all2 (band_fragment tile_id) (fs @ [f]) (dss @ [ds])" using dss(1) bf by (simp add: list_all2_appendI)
      show "covered (frags_of (fs @ [f]) (dss @ [ds])) = {..<?m}"
        unfolding fr covered_append mbs dss(2) using split_range[OF le] by simp
      show "disjoint_frags (frags_of (fs @ [f]) (dss @ [ds]))"
        unfolding fr disjoint_frags_append mbs dss(2) using dss(3) by auto
      show "recon' = put_frags Prefilled reference (frags_of (fs @ [f]) (dss @ [ds])) recon0"
        unfolding fr using dss(4) r by (simp add: put_frag_def)
      show "accounts FrameStats_default (concat (dss @ [ds])) st'" using accounts_trans[OF dss(5)] d' by simp
      show "length (concat (dss @ [ds])) = ?m" using dss(6) d' by simp
    qed (use d' keep dist loss in simp_all)
  qed
qed

lemma bands_inv_start: "wf_eye recon \<Longrightarrow> bands_inv tile_id src reference mode recon 0 ([], recon, FrameStats_default)"
  by (auto simp: bands_inv_def frags_of_def accounts_Nil stream_counters_def FrameStats_default_def intro!: exI[of _ "[]"])

lemma forR_two: "forR f [x] = f x" "forR f [x, y] = (\<lambda>acc. bindR (f x acc) (f y))"
  by (simp_all add: fun_eq_iff)

lemma all_bands_ok:
  assumes wf: "wf_eye src" "wf_eye reference" "wf_eye recon"
  shows "okR (bands_inv tile_id src reference mode recon MB_COUNT)
    (forR (encode_band tile_id src reference mode) (bands row_bands) ([], recon, FrameStats_default))"
proof -
  note step = encode_band_step[OF wf(1,2), of _ _ tile_id mode recon]
  have s: "bands_inv tile_id src reference mode recon (0 * MB_W) ([], recon, FrameStats_default)"
    using bands_inv_start[OF wf(3)] by simp
  have e: "(0 + MB_H) * MB_W = MB_COUNT" "(10 + 5) * MB_W = MB_COUNT" by (simp_all add: geom)
  have one: "okR (bands_inv tile_id src reference mode recon MB_COUNT) (encode_band tile_id src reference mode (0, MB_H) ([], recon, FrameStats_default))"
    using step[OF _ _ s, of MB_H] unfolding e by (simp add: geom)
  have "okR (bands_inv tile_id src reference mode recon ((10 + 5) * MB_W))
     (bindR (encode_band tile_id src reference mode (0, 5) ([], recon, FrameStats_default)) (\<lambda>acc.
      bindR (encode_band tile_id src reference mode (5, 5) acc) (encode_band tile_id src reference mode (10, 5))))"
  proof (rule okR_bind[OF step[OF _ _ s]])
    fix acc assume "bands_inv tile_id src reference mode recon ((0 + 5) * MB_W) acc"
    then have a: "bands_inv tile_id src reference mode recon (5 * MB_W) acc" by simp
    show "okR (bands_inv tile_id src reference mode recon ((10 + 5) * MB_W))
      (bindR (encode_band tile_id src reference mode (5, 5) acc) (encode_band tile_id src reference mode (10, 5)))"
    proof (rule okR_bind[OF step[OF _ _ a]])
      fix acc assume "bands_inv tile_id src reference mode recon ((5 + 5) * MB_W) acc"
      then have a: "bands_inv tile_id src reference mode recon (10 * MB_W) acc" by simp
      show "okR (bands_inv tile_id src reference mode recon ((10 + 5) * MB_W)) (encode_band tile_id src reference mode (10, 5) acc)"
        by (rule step[OF _ _ a]) (simp_all add: geom)
    qed (simp_all add: geom)
  qed (simp_all add: geom)
  then have three: "okR (bands_inv tile_id src reference mode recon MB_COUNT)
      (forR (encode_band tile_id src reference mode) [(0, 5), (5, 5), (10, 5)] ([], recon, FrameStats_default))"
    unfolding e by (simp add: forR_two)
  have "forR (encode_band tile_id src reference mode) [(0, MB_H)] ([], recon, FrameStats_default) =
      encode_band tile_id src reference mode (0, MB_H) ([], recon, FrameStats_default)" by simp
  with one three show ?thesis unfolding bands_def by (cases row_bands) simp_all
qed

section \<open>The tile\<close>

lemma base_predictor_loop_ok:
  assumes "list_all2 (\<lambda>f ds. parse_mbs (unat (ef_mb_count f)) (ef_mode_stream f) (ef_residual_stream f) (ef_raw_stream f) = Inr ds) fs dss"
    and "tot \<le> LAZY_BASE_COPY_MAX_MB_PER_TILE"
  shows "base_predictor_loop fs tot \<le> LAZY_BASE_COPY_MAX_MB_PER_TILE \<longleftrightarrow>
    tot + base_count (concat dss) \<le> LAZY_BASE_COPY_MAX_MB_PER_TILE"
  using assms
proof (induction fs dss arbitrary: tot rule: list_all2_induct)
  case (Cons f fs ds dss)
  show ?case
  proof (cases "base_count ds \<le> LAZY_BASE_COPY_MAX_MB_PER_TILE - tot")
    case True
    then have "tot + base_count ds \<le> LAZY_BASE_COPY_MAX_MB_PER_TILE" using Cons.prems by linarith
    with True Cons.IH[OF this] count_base_predictor_ok[OF Cons.hyps(1), of "LAZY_BASE_COPY_MAX_MB_PER_TILE - tot" "unat (ef_start_mb f)"]
    show ?thesis by (simp add: Let_def add.assoc)
  next
    case False
    then obtain c where c: "c > LAZY_BASE_COPY_MAX_MB_PER_TILE - tot"
      "count_base_predictor_mbs_in_modes (ef_mode_stream f) (unat (ef_start_mb f)) (unat (ef_mb_count f)) (LAZY_BASE_COPY_MAX_MB_PER_TILE - tot) = Inr c"
      using count_base_predictor_ok[OF Cons.hyps(1), of "LAZY_BASE_COPY_MAX_MB_PER_TILE - tot" "unat (ef_start_mb f)"] by auto
    moreover have "LAZY_BASE_COPY_MAX_MB_PER_TILE < tot + c" "LAZY_BASE_COPY_MAX_MB_PER_TILE < tot + base_count ds"
      using c(1) False by linarith+
    ultimately show ?thesis by (simp add: Let_def)
  qed
qed simp

text \<open>The segment maps of a tile: dropped when only segment 0 is used, else valid for four segments.\<close>

lemma segment_count_ok:
  assumes "list_all2 (band_fragment tile_id) fs dss"
    and sc: "sc = (if \<exists>f\<in>set fs. names_segment (ef_segment_map_stream f) then 4 else 1)"
  shows "list_all2 (fragment_valid tile_id sc)
    (if sc = 1 then map (\<lambda>f. f\<lparr>ef_segment_map_stream := []\<rparr>) fs else fs) dss"
proof -
  have valid: "fragment_valid tile_id sc (if sc = 1 then f\<lparr>ef_segment_map_stream := []\<rparr> else f) ds"
    if "band_fragment tile_id f ds" for f ds
  proof -
    note b = that[unfolded band_fragment_def]
    have "validate_segment_map (ef_segment_map_stream f) 4 (unat (ef_mb_count f)) = Inr ()"
      using b by (auto simp: validate_segment_map_iff)
    then show ?thesis
      using b band_fragment_bytes(6)[OF that] sc by (auto simp: fragment_valid_def validate_segment_map_iff split: if_splits)
  qed
  have "(if sc = 1 then map (\<lambda>f. f\<lparr>ef_segment_map_stream := []\<rparr>) fs else fs) =
      map (\<lambda>f. if sc = 1 then f\<lparr>ef_segment_map_stream := []\<rparr> else f) fs" by simp
  then show ?thesis
    using assms(1) by (simp only: list_all2_map1) (auto elim!: list_all2_mono intro: valid)
qed

text \<open>A fragment covers a row at least, so there are at most 15.\<close>

lemma bands_size:
  assumes "list_all2 (band_fragment tile_id) fs dss"
  shows "MB_W * length fs \<le> length (concat dss)" and "sum_list (map fragment_bytes fs) \<le> 470000 * length fs"
  using assms by (induction rule: list_all2_induct) (auto dest: band_fragment_bytes)

definition tile_done ::
  "byte \<Rightarrow> eye_frame \<Rightarrow> eye_frame \<Rightarrow> encode_mode \<Rightarrow> encoded_tile \<Rightarrow> mb_desc list list \<Rightarrow> eye_frame \<Rightarrow> frame_stats \<Rightarrow> bool" where
  "tile_done tile_id src reference mode tile dss recon stats \<longleftrightarrow>
     tile_valid tile dss \<and> et_tile_id tile = tile_id \<and> tile_bytes tile \<le> 7050017 \<and>
     covered (ta_frags (tile_to_ast tile dss)) = {..<MB_COUNT} \<and> disjoint_frags (ta_frags (tile_to_ast tile dss)) \<and>
     wf_eye recon \<and> (\<forall>e. wf_eye e \<longrightarrow> tile_eye (tile_to_ast tile dss) reference e = recon) \<and>
     length (concat dss) = MB_COUNT \<and> accounts FrameStats_default (concat dss) stats \<and>
     fs_distortion stats = (\<Sum>k<MB_COUNT. mb_sse k src recon) \<and> (mode = Lossless \<longrightarrow> recon = src) \<and>
     (fs_prefill_tiles stats = 0 \<longleftrightarrow> ta_lazy (tile_to_ast tile dss)) \<and>
     tile_bytes tile = 17 + 28 * length (et_fragments tile) + fs_segment_map_stream_bytes stats + fs_mode_stream_bytes stats +
       fs_residual_stream_bytes stats + fs_raw_stream_bytes stats"

lemma tile_eye_recon:
  assumes wf: "wf_eye e" "wf_eye reference" and ok: "tile_ok t" and dis: "disjoint_frags (ta_frags t)"
    and cov: "covered (ta_frags t) = {..<MB_COUNT}"
    and recon: "recon = put_frags Prefilled reference (ta_frags t) (mc_region UNIV (ta_base t) reference EyeFrame_new)"
  shows "tile_eye t reference e = recon"
proof (rule agree_all_eq)
  have r: "recon = tile_eye (t\<lparr>ta_lazy := False\<rparr>) reference EyeFrame_new" by (simp add: recon tile_eye_def)
  show "agree {..<MB_COUNT} (tile_eye t reference e) recon"
  proof (cases "ta_lazy t")
    case True
    then have "t = t\<lparr>ta_lazy := True\<rparr>" by (cases t) simp
    then show ?thesis using tile_eye_lazy_flag[OF wf(1) wf_EyeFrame_new ok dis, of reference] cov r by simp
  next
    case False
    then have "t\<lparr>ta_lazy := False\<rparr> = t" by (cases t) simp
    with r have "recon = tile_eye t reference EyeFrame_new" by simp
    then show ?thesis
      using tile_eye_independent[OF wf(1) wf_EyeFrame_new ok, of reference] False
      by (auto simp: tile_region_def intro: agree_mono)
  qed
  show "wf_eye recon" by (simp add: recon)
qed (use wf in simp)

theorem encode_tile_ok:
  assumes wf: "wf_eye src" "wf_eye reference" and id: "tile_id \<le> 1"
  shows "okR (\<lambda>(tile, recon, stats). \<exists>dss. tile_done tile_id src reference mode tile dss recon stats)
    (encode_tile tile_id src reference row_bands mode)"
proof -
  obtain base_mv where mv: "find_base_mv src reference = Inr base_mv"
    using find_base_mv_ok[OF wf] by (auto simp: okR_def)
  let ?e0 = "mc_region UNIV base_mv reference EyeFrame_new"
  have w0: "wf_eye ?e0" by simp
  show ?thesis
    unfolding encode_tile_def mv bindR_simps prefill_eye_ok[OF wf_EyeFrame_new wf(2)]
  proof (rule okR_bind[OF all_bands_ok[OF wf w0]])
    fix x :: "encoded_fragment list \<times> eye_frame \<times> frame_stats"
    assume inv: "bands_inv tile_id src reference mode ?e0 MB_COUNT x"
    obtain fs recon st where x: "x = (fs, recon, st)" by (cases x)
    note keep = inv[unfolded x bands_inv_def prod.case]
    from keep obtain dss where dss: "list_all2 (band_fragment tile_id) fs dss" "covered (frags_of fs dss) = {..<MB_COUNT}"
      "disjoint_frags (frags_of fs dss)" "recon = put_frags Prefilled reference (frags_of fs dss) ?e0"
      "accounts FrameStats_default (concat dss) st" "length (concat dss) = MB_COUNT" by blast
    define sc where "sc = (if \<exists>f\<in>set fs. names_segment (ef_segment_map_stream f) then 4 else 1 :: byte)"
    define fs' where "fs' = (if sc = 1 then map (\<lambda>f. f\<lparr>ef_segment_map_stream := []\<rparr>) fs else fs)"
    define tile where "tile = \<lparr>et_tile_id = tile_id, et_base_mv = base_mv, et_segment_count = sc, et_fragments = fs'\<rparr>"
    have valid: "list_all2 (fragment_valid tile_id sc) fs' dss" using segment_count_ok[OF dss(1) sc_def] by (simp add: fs'_def)
    have len: "length fs' = length fs" "length fs = length dss" using list_all2_lengthD[OF dss(1)] by (simp_all add: fs'_def)
    have same: "map (\<lambda>f. unat (ef_start_mb f)) fs' = map (\<lambda>f. unat (ef_start_mb f)) fs" by (simp add: fs'_def)
    have small: "length fs \<le> 15" using bands_size(1)[OF dss(1)] dss(6) by (simp add: geom)
    have pos: "0 < length fs" using dss(6) len(2) by (auto simp: geom)
    have "sum_list (map fragment_bytes fs') \<le> sum_list (map fragment_bytes fs)"
      by (auto simp: fs'_def fragment_bytes_def o_def intro!: sum_list_mono)
    then have bytes: "sum_list (map fragment_bytes fs') \<le> 7050000" using bands_size(2)[OF dss(1)] small by linarith
    have tv: "tile_valid tile dss"
      using valid id bytes small pos by (auto simp: tile_valid_def tile_def len sc_def)
    have ast: "ta_frags (tile_to_ast tile dss) = frags_of fs dss" "ta_base (tile_to_ast tile dss) = base_mv" "ta_id (tile_to_ast tile dss) = tile_id"
      by (simp_all add: tile_to_ast_def tile_def same frags_of_def)
    have "\<forall>f\<in>set (frags_of fs dss). frag_ok f"
      using dss(1) band_fragment_bytes by (auto simp: frags_of_def frag_ok_def set_zip list_all2_conv_all_nth geom) (fastforce simp: geom)+
    then have ok: "tile_ok (tile_to_ast tile dss)" using id by (simp add: tile_ok_def ast)
    have eye: "tile_eye (tile_to_ast tile dss) reference e = recon" if "wf_eye e" for e
      using that wf ok dss(2-4) by (intro tile_eye_recon) (simp_all add: ast)
    have lazy: "ta_lazy (tile_to_ast tile dss) \<longleftrightarrow> fs_skip_mb st + fs_base_res_mb st \<le> LAZY_BASE_COPY_MAX_MB_PER_TILE"
    proof -
      have "list_all2 (\<lambda>f ds. parse_mbs (unat (ef_mb_count f)) (ef_mode_stream f) (ef_residual_stream f) (ef_raw_stream f) = Inr ds) fs' dss"
        using valid by (rule list_all2_mono) (simp add: fragment_valid_def)
      from base_predictor_loop_ok[OF this, of 0] dss(5) show ?thesis
        by (simp add: tile_to_ast_def encoded_tile_base_predictor_mbs_def tile_def accounts_def FrameStats_default_def)
    qed
    define st' where "st' = st\<lparr>fs_segment_map_stream_bytes := sum_list (map (\<lambda>f. length (ef_segment_map_stream f)) fs')\<rparr>"
    define st'' where "st'' = (if fs_skip_mb st' + fs_base_res_mb st' \<le> LAZY_BASE_COPY_MAX_MB_PER_TILE
      then st'\<lparr>fs_lazy_base_copy_mb := fs_skip_mb st' + fs_base_res_mb st'\<rparr> else st'\<lparr>fs_prefill_tiles := 1\<rparr>)"
    have strm: "stream_bytes s fs' = stream_bytes s fs" if "s = ef_mode_stream \<or> s = ef_residual_stream \<or> s = ef_raw_stream" for s
      using that by (auto simp: stream_bytes_def fs'_def o_def)
    have total: "sum_list (map fragment_bytes gs) = 28 * length gs + stream_bytes ef_segment_map_stream gs + stream_bytes ef_mode_stream gs +
        stream_bytes ef_residual_stream gs + stream_bytes ef_raw_stream gs" for gs
      by (induction gs) (auto simp: stream_bytes_def fragment_bytes_def)
    have "tile_done tile_id src reference mode tile dss recon st''"
      unfolding tile_done_def
    proof (intro conjI)
      show "tile_bytes tile = 17 + 28 * length (et_fragments tile) + fs_segment_map_stream_bytes st'' + fs_mode_stream_bytes st'' +
          fs_residual_stream_bytes st'' + fs_raw_stream_bytes st''"
        using keep total[of fs'] strm by (simp add: tile_bytes_def tile_def st''_def st'_def stream_counters_def stream_bytes_def)
      show "accounts FrameStats_default (concat dss) st''" using dss(5) by (simp add: accounts_def mb_total_def st''_def st'_def)
      show "fs_distortion st'' = (\<Sum>k<MB_COUNT. mb_sse k src recon)" using keep by (simp add: st''_def st'_def)
      show "fs_prefill_tiles st'' = 0 \<longleftrightarrow> ta_lazy (tile_to_ast tile dss)" using keep by (simp add: lazy st''_def st'_def stream_counters_def)
      show "mode = Lossless \<longrightarrow> recon = src" using keep wf agree_all_eq by blast
    qed (use tv eye dss bytes keep in \<open>simp_all add: ast tile_bytes_def\<close>, simp_all add: tile_def)
    then show "okR (\<lambda>(tile, recon, stats). \<exists>dss. tile_done tile_id src reference mode tile dss recon stats)
      (case x of (fragments, recon, stats) \<Rightarrow>
       let segment_count = (if \<exists>f\<in>set fragments. names_segment (ef_segment_map_stream f) then 4 else 1 :: byte);
           fragments = (if segment_count = 1 then map (\<lambda>f. f\<lparr>ef_segment_map_stream := []\<rparr>) fragments else fragments);
           stats = stats\<lparr>fs_segment_map_stream_bytes := sum_list (map (\<lambda>f. length (ef_segment_map_stream f)) fragments)\<rparr>;
           base_predictor_mbs = fs_skip_mb stats + fs_base_res_mb stats;
           stats = (if base_predictor_mbs \<le> LAZY_BASE_COPY_MAX_MB_PER_TILE
                    then stats\<lparr>fs_lazy_base_copy_mb := base_predictor_mbs\<rparr> else stats\<lparr>fs_prefill_tiles := 1\<rparr>)
       in Inr (\<lparr>et_tile_id = tile_id, et_base_mv = base_mv, et_segment_count = segment_count, et_fragments = fragments\<rparr>, recon, stats))"
      unfolding x prod.case Let_def sc_def[symmetric] fs'_def[symmetric] st'_def[symmetric] st''_def[symmetric] tile_def[symmetric]
      by auto
  qed
qed

end
