(* ===== verification/O3_EncRate.thy ===== *)
theory O3_EncRate
  imports O3_EncTileLaws
begin

text \<open>
  Rate and quality decisions of the encoder: the rolling window over the last
  24 frames, the decoder's work estimate and the caps of a P-frame, the quality
  and scene-change metrics. \<open>u64\<close> and \<open>usize\<close> sums over one frame stay far
  below their width (\<open>frame_quality_ok\<close>, \<open>scene_metrics_ok\<close>) and are
  naturals here; the reported \<open>u32\<close> ratios are 32-bit words.
\<close>

section \<open>The rolling window\<close>

definition raw_key_due_for_max_gap :: "nat \<Rightarrow> nat option \<Rightarrow> nat \<Rightarrow> bool" where
  "raw_key_due_for_max_gap frame_no last_raw_frame_no max_gap =
     (case last_raw_frame_no of Some last_raw \<Rightarrow> frame_no - last_raw \<ge> max_gap | None \<Rightarrow> True)"

definition rolling_window_bytes_after :: "nat list \<Rightarrow> nat \<Rightarrow> nat" where
  "rolling_window_bytes_after recent_frame_bytes next_frame_bytes =
     (let recent_bytes = sum_list (take (RATE_WINDOW_FRAMES - 1) (rev recent_frame_bytes)) in
      recent_bytes + next_frame_bytes)"

definition rolling_window_allows_frame_bytes :: "nat list \<Rightarrow> nat \<Rightarrow> bool" where
  "rolling_window_allows_frame_bytes recent_frame_bytes next_frame_bytes \<longleftrightarrow>
     rolling_window_bytes_after recent_frame_bytes next_frame_bytes \<le> RATE_WINDOW_BYTES"

definition rolling_window_allows_keyframe :: "nat list \<Rightarrow> bool" where
  "rolling_window_allows_keyframe recent_frame_bytes \<longleftrightarrow>
     rolling_window_allows_frame_bytes recent_frame_bytes KEY_RAW_CODED_BYTES"

definition rolling_window_allows_next_raw_after_frame :: "nat list \<Rightarrow> nat \<Rightarrow> bool" where
  "rolling_window_allows_next_raw_after_frame recent_frame_bytes current_frame_bytes \<longleftrightarrow>
     (let recent_bytes = sum_list (take (RATE_WINDOW_FRAMES - 2) (rev recent_frame_bytes)) in
      recent_bytes + current_frame_bytes + KEY_RAW_CODED_BYTES \<le> RATE_WINDOW_BYTES)"

definition rolling_window_allows_quality_recovery_frame_bytes :: "nat list \<Rightarrow> nat \<Rightarrow> bool \<Rightarrow> bool" where
  "rolling_window_allows_quality_recovery_frame_bytes recent_frame_bytes next_frame_bytes reserve_next_raw \<longleftrightarrow>
     (if reserve_next_raw then rolling_window_allows_next_raw_after_frame recent_frame_bytes next_frame_bytes
      else rolling_window_bytes_after recent_frame_bytes next_frame_bytes \<le> QUALITY_RECOVERY_WINDOW_BYTES)"

section \<open>The budget of a P-frame\<close>

definition estimate_p_decode_work_units :: "frame_stats \<Rightarrow> nat" where
  "estimate_p_decode_work_units stats =
     (let stream_parse_units = fs_segment_map_stream_bytes stats + fs_mode_stream_bytes stats * 2 +
            fs_residual_stream_bytes stats * 2 + fs_raw_stream_bytes stats;
          prefill_units = fs_prefill_tiles stats * EYE_FRAME_BYTES;
          prediction_mb = fs_copy16_mb stats + fs_copy16_res_mb stats + fs_vbs_mb stats + fs_vbs_res_mb stats +
            fs_lazy_base_copy_mb stats;
          prediction_units = prediction_mb * RAW_MB_BYTES;
          raw_units = fs_raw_mb stats * RAW_MB_BYTES + fs_raw_4x4_blocks stats * 16;
          residual_mb = fs_base_res_mb stats + fs_copy16_res_mb stats + fs_vbs_res_mb stats;
          residual_units = residual_mb * 8 + fs_dc_only_blocks stats * 64 + fs_full_idct_blocks stats * 512
      in stream_parse_units + prefill_units + prediction_units + raw_units + residual_units)"

definition p_frame_satisfies_budget :: "frame_stats \<Rightarrow> nat \<Rightarrow> bool" where
  "p_frame_satisfies_budget stats max_p_frame_bytes \<longleftrightarrow>
     fs_p_frame_bytes stats \<le> max_p_frame_bytes \<and> fs_raw_mb stats \<le> MAX_RAW_MB_PER_P_FRAME \<and>
     fs_dc_only_blocks stats \<le> MAX_DC_ONLY_BLOCKS_PER_P_FRAME \<and> fs_ac_mask_blocks stats \<le> MAX_AC_MASK_BLOCKS_PER_P_FRAME \<and>
     fs_full_idct_blocks stats \<le> MAX_FULL_IDCT_BLOCKS_PER_P_FRAME \<and> fs_decode_work_units stats \<le> MAX_P_DECODE_WORK_UNITS"

definition p_frame_satisfies_budget_and_rate :: "frame_stats \<Rightarrow> nat \<Rightarrow> nat list \<Rightarrow> bool" where
  "p_frame_satisfies_budget_and_rate stats max_p_frame_bytes recent_frame_bytes \<longleftrightarrow>
     p_frame_satisfies_budget stats max_p_frame_bytes \<and>
     rolling_window_allows_frame_bytes recent_frame_bytes (fs_p_frame_bytes stats)"

section \<open>Quality metrics\<close>

record quality_metrics =
  qm_y_sse :: nat
  qm_y_mae_milli :: u32
  qm_y_bad_gt16_per_mille :: u32
  qm_y_bad_gt32_per_mille :: u32
  qm_max_mb_y_sse :: nat

definition QualityMetrics_default :: quality_metrics where
  "QualityMetrics_default = \<lparr>qm_y_sse = 0, qm_y_mae_milli = 0, qm_y_bad_gt16_per_mille = 0,
     qm_y_bad_gt32_per_mille = 0, qm_max_mb_y_sse = 0\<rparr>"

definition accumulate_quality_eye_metrics :: "eye_frame \<Rightarrow> eye_frame \<Rightarrow> quality_metrics \<Rightarrow> quality_metrics" where
  "accumulate_quality_eye_metrics src recon metrics =
     fold (\<lambda>(a, b) metrics. let delta = nat \<bar>uint a - uint b\<bar> in metrics\<lparr>qm_y_sse := qm_y_sse metrics + delta * delta\<rparr>)
       (zip (eye_y src) (eye_y recon)) metrics"

definition mb_y_sse :: "eye_frame \<Rightarrow> eye_frame \<Rightarrow> nat \<Rightarrow> nat result" where
  "mb_y_sse src recon mb_index =
     (let mb_x = mb_index mod MB_W; mb_y = mb_index div MB_W in
      forR (\<lambda>row. forR (\<lambda>col sse.
        let idx = (mb_y * 16 + row) * EYE_W + mb_x * 16 + col in
        bindR (abs_diff_at (eye_y src) idx (eye_y recon) idx) (\<lambda>delta. Inr (sse + delta * delta)))
        [0..<16]) [0..<16] 0)"

definition quality_abs_metrics :: "eye_frame \<Rightarrow> eye_frame \<Rightarrow> eye_frame \<Rightarrow> eye_frame \<Rightarrow> (nat \<times> nat \<times> nat \<times> nat) result" where
  "quality_abs_metrics left_src left_recon right_src right_recon =
     forR (\<lambda>(src, recon) (abs_sum, bad16, bad32, max_mb).
       let (abs_sum, bad16, bad32) = fold (\<lambda>(a, b) (abs_sum, bad16, bad32).
             let delta = nat \<bar>uint a - uint b\<bar> in
             (abs_sum + delta, if delta > 16 then bad16 + 1 else bad16, if delta > 32 then bad32 + 1 else bad32))
             (zip (eye_y src) (eye_y recon)) (abs_sum, bad16, bad32) in
       bindR (forR (\<lambda>mb_index max_mb. bindR (mb_y_sse src recon mb_index) (\<lambda>sse. Inr (max max_mb sse)))
         [0..<MB_W * MB_H] max_mb) (\<lambda>max_mb. Inr (abs_sum, bad16, bad32, max_mb)))
       [(left_src, left_recon), (right_src, right_recon)] (0, 0, 0, 0)"

definition frame_quality_metrics :: "sbs_frame \<Rightarrow> sbs_frame \<Rightarrow> quality_metrics result" where
  "frame_quality_metrics src recon =
     (let metrics = accumulate_quality_eye_metrics (sbs_left src) (sbs_left recon) QualityMetrics_default;
          metrics = accumulate_quality_eye_metrics (sbs_right src) (sbs_right recon) metrics;
          samples = EYE_W * EYE_H * 2 in
      bindR (quality_abs_metrics (sbs_left src) (sbs_left recon) (sbs_right src) (sbs_right recon))
        (\<lambda>(abs_sum, bad16, bad32, max_mb).
      Inr (metrics\<lparr>qm_y_mae_milli := of_nat (abs_sum * 1000 div samples),
                   qm_y_bad_gt16_per_mille := of_nat (bad16 * 1000 div samples),
                   qm_y_bad_gt32_per_mille := of_nat (bad32 * 1000 div samples), qm_max_mb_y_sse := max_mb\<rparr>)))"

section \<open>Scene changes\<close>

record scene_change_metrics =
  sc_avg_y_delta :: u32
  sc_high_y_delta_percent :: u32

definition scene_change_requires_keyframe :: "scene_change_metrics \<Rightarrow> bool" where
  "scene_change_requires_keyframe metrics \<longleftrightarrow>
     sc_avg_y_delta metrics \<ge> SCENE_CUT_AVG_Y_DELTA \<and> sc_high_y_delta_percent metrics \<ge> SCENE_CUT_HIGH_Y_PERCENT"

definition accumulate_scene_eye_metrics ::
  "eye_frame \<Rightarrow> eye_frame \<Rightarrow> mv \<Rightarrow> nat \<times> nat \<times> nat \<Rightarrow> (nat \<times> nat \<times> nat) result" where
  "accumulate_scene_eye_metrics current previous mv acc =
     forR (\<lambda>y. forR (\<lambda>x (sad, high_delta_samples, samples).
       bindR (abs_diff_at (eye_y current) (y * EYE_W + x)
         (eye_y previous) (displaced EYE_W EYE_H (sint (mvX mv)) (sint (mvY mv)) x y)) (\<lambda>delta.
       Inr (sad + delta, if delta \<ge> unat SCENE_CUT_HIGH_Y_DELTA then high_delta_samples + 1 else high_delta_samples,
            samples + 1)))
       (map (\<lambda>k. 4 * k) [0..<EYE_W div 4])) (map (\<lambda>k. 4 * k) [0..<EYE_H div 4]) acc"

definition source_scene_change_metrics :: "sbs_frame \<Rightarrow> sbs_frame \<Rightarrow> scene_change_metrics result" where
  "source_scene_change_metrics current previous =
     bindR (find_base_mv (sbs_left current) (sbs_left previous)) (\<lambda>left_mv.
     bindR (accumulate_scene_eye_metrics (sbs_left current) (sbs_left previous) left_mv (0, 0, 0)) (\<lambda>acc.
     bindR (find_base_mv (sbs_right current) (sbs_right previous)) (\<lambda>right_mv.
     bindR (accumulate_scene_eye_metrics (sbs_right current) (sbs_right previous) right_mv acc)
       (\<lambda>(sad, high_delta_samples, samples).
     if samples = 0 then Inl Fault
     else Inr \<lparr>sc_avg_y_delta = of_nat (sad div samples),
               sc_high_y_delta_percent = of_nat (high_delta_samples * 100 div samples)\<rparr>))))"

section \<open>P-frame candidates\<close>

record p_frame_candidate =
  pc_bytes :: "byte list"
  pc_recon :: sbs_frame
  pc_stats :: frame_stats
  pc_mode_name :: string
  pc_q_step :: "int option"
  pc_quality :: quality_metrics
  pc_quality_recovery_used :: bool
  pc_left_base_mv :: mv
  pc_right_base_mv :: mv

definition encode_p_frame_candidate :: "u32 \<Rightarrow> sbs_frame \<Rightarrow> sbs_frame \<Rightarrow> bool \<Rightarrow> encode_mode \<Rightarrow> p_frame_candidate result" where
  "encode_p_frame_candidate frame_no frame reference row_bands mode =
     bindR (encode_tile 0 (sbs_left frame) (sbs_left reference) row_bands mode) (\<lambda>(left_tile, left_recon, left_stats).
     bindR (encode_tile 1 (sbs_right frame) (sbs_right reference) row_bands mode) (\<lambda>(right_tile, right_recon, right_stats).
     let bytes = write_p_frame [] frame_no left_tile right_tile;
         stats = add_stats (add_stats FrameStats_default left_stats) right_stats;
         stats = stats\<lparr>fs_p_frame_bytes := length bytes\<rparr>;
         stats = stats\<lparr>fs_decode_work_units := estimate_p_decode_work_units stats\<rparr>;
         recon = \<lparr>sbs_left = left_recon, sbs_right = right_recon\<rparr> in
     bindR (frame_quality_metrics frame recon) (\<lambda>quality.
     Inr \<lparr>pc_bytes = bytes, pc_recon = recon, pc_stats = stats, pc_mode_name = EncodeMode_name mode,
          pc_q_step = EncodeMode_q_step mode, pc_quality = quality, pc_quality_recovery_used = quality_recovery mode,
          pc_left_base_mv = et_base_mv left_tile, pc_right_base_mv = et_base_mv right_tile\<rparr>)))"

definition should_try_quality_recovery :: "p_frame_candidate \<Rightarrow> nat list \<Rightarrow> bool \<Rightarrow> bool" where
  "should_try_quality_recovery candidate recent_frame_bytes reserve_next_raw \<longleftrightarrow>
     (let has_room = rolling_window_allows_quality_recovery_frame_bytes recent_frame_bytes
            (fs_p_frame_bytes (pc_stats candidate)) reserve_next_raw in
      if \<not> has_room then False
      else qm_y_sse (pc_quality candidate) > QUALITY_TARGET_Y_SSE \<or>
        (fs_p_frame_bytes (pc_stats candidate) < P_FRAME_SOFT_TARGET_MIN \<and>
         rolling_window_allows_frame_bytes recent_frame_bytes P_FRAME_SOFT_TARGET_MIN \<and>
         qm_y_mae_milli (pc_quality candidate) \<ge> QUALITY_BAD_Y_MAE_MILLI \<and>
         qm_y_bad_gt16_per_mille (pc_quality candidate) \<ge> QUALITY_BAD_Y_GT16_PER_MILLE) \<or>
        qm_y_sse (pc_quality candidate) \<ge> QUALITY_RAW_KEY_Y_SSE)"

definition quality_recovery_stop_y_sse :: "p_frame_candidate \<Rightarrow> nat list \<Rightarrow> bool \<Rightarrow> nat" where
  "quality_recovery_stop_y_sse candidate recent_frame_bytes reserve_next_raw =
     (if reserve_next_raw \<or>
         rolling_window_bytes_after recent_frame_bytes (fs_p_frame_bytes (pc_stats candidate)) \<ge> QUALITY_RECOVERY_TIGHT_WINDOW_BYTES
      then QUALITY_RECOVERY_RELAXED_STOP_Y_SSE else QUALITY_TARGET_Y_SSE)"

text \<open>
  The two loops of \<open>encode_budgeted_p_frame\<close> over candidates; the encoder of a
  candidate in a mode is the parameter \<open>enc\<close>. A \<open>break\<close> returns the best.
\<close>

primrec budget_loop ::
  "(encode_mode \<Rightarrow> p_frame_candidate result) \<Rightarrow> nat \<Rightarrow> nat list \<Rightarrow> int list \<Rightarrow> p_frame_candidate \<Rightarrow> p_frame_candidate result" where
  "budget_loop enc max_p_frame_bytes recent [] best = Inr best"
| "budget_loop enc max_p_frame_bytes recent (q_step # q_steps) best =
     bindR (enc (Budget q_step)) (\<lambda>candidate.
     let best = (if fs_p_frame_bytes (pc_stats candidate) < fs_p_frame_bytes (pc_stats best) then candidate else best) in
     if p_frame_satisfies_budget_and_rate (pc_stats best) max_p_frame_bytes recent then Inr best
     else budget_loop enc max_p_frame_bytes recent q_steps best)"

primrec recovery_loop ::
  "(encode_mode \<Rightarrow> p_frame_candidate result) \<Rightarrow> nat \<Rightarrow> nat list \<Rightarrow> bool \<Rightarrow> nat \<Rightarrow> nat list \<Rightarrow> p_frame_candidate \<Rightarrow>
    p_frame_candidate result" where
  "recovery_loop enc max_p_frame_bytes recent reserve_next_raw stop_y_sse [] best = Inr best"
| "recovery_loop enc max_p_frame_bytes recent reserve_next_raw stop_y_sse (threshold # thresholds) best =
     bindR (enc (QualityRecovery QUALITY_RECOVERY_Q_STEP threshold)) (\<lambda>recovery.
     if p_frame_satisfies_budget (pc_stats recovery) max_p_frame_bytes \<and>
        qm_y_sse (pc_quality recovery) < qm_y_sse (pc_quality best) \<and>
        rolling_window_allows_quality_recovery_frame_bytes recent (fs_p_frame_bytes (pc_stats recovery)) reserve_next_raw
     then
       (if qm_y_sse (pc_quality recovery) \<le> stop_y_sse then Inr recovery
        else recovery_loop enc max_p_frame_bytes recent reserve_next_raw stop_y_sse thresholds recovery)
     else recovery_loop enc max_p_frame_bytes recent reserve_next_raw stop_y_sse thresholds best)"

definition encode_budgeted_p_frame ::
  "u32 \<Rightarrow> sbs_frame \<Rightarrow> sbs_frame \<Rightarrow> bool \<Rightarrow> nat \<Rightarrow> nat list \<Rightarrow> bool \<Rightarrow> p_frame_candidate result" where
  "encode_budgeted_p_frame frame_no frame reference row_bands max_p_frame_bytes recent_frame_bytes reserve_next_raw =
     (let enc = encode_p_frame_candidate frame_no frame reference row_bands in
      bindR (enc Lossless) (\<lambda>lossless.
      if p_frame_satisfies_budget_and_rate (pc_stats lossless) max_p_frame_bytes recent_frame_bytes then Inr lossless
      else
        bindR (budget_loop enc max_p_frame_bytes recent_frame_bytes BUDGET_Q_STEPS lossless) (\<lambda>best.
        if should_try_quality_recovery best recent_frame_bytes reserve_next_raw then
          let recovery_stop_y_sse = quality_recovery_stop_y_sse best recent_frame_bytes reserve_next_raw in
          recovery_loop enc max_p_frame_bytes recent_frame_bytes reserve_next_raw recovery_stop_y_sse
            QUALITY_RECOVERY_RAW4X4_SSE_THRESHOLDS best
        else Inr best)))"

definition next_frame_needs_raw_reserve ::
  "nat \<Rightarrow> nat \<Rightarrow> nat option \<Rightarrow> nat \<Rightarrow> byte list \<Rightarrow> sbs_frame \<Rightarrow> bool result" where
  "next_frame_needs_raw_reserve frame_no frame_count last_raw_frame_no keyint input current =
     (let next_frame_no = frame_no + 1 in
      if next_frame_no \<ge> frame_count then Inr False
      else if raw_key_due_for_max_gap next_frame_no last_raw_frame_no keyint then Inr True
      else
        let start = next_frame_no * SBS_FRAME_BYTES in
        bindR (slice_range input start (start + SBS_FRAME_BYTES)) (\<lambda>s.
        bindR (from_yuv420_sbs s) (\<lambda>next.
        bindR (source_scene_change_metrics next current) (\<lambda>metrics. Inr (scene_change_requires_keyframe metrics)))))"

end
