(* ===== verification/O3_EncRateLaws.thy ===== *)
theory O3_EncRateLaws
  imports O3_EncRate
begin

text \<open>
  What the metrics measure, what the window and the budget admit, and the
  contract of a P-frame candidate: its bytes are a written P-frame that shows its
  reconstruction, and its statistics count the macroblocks and blocks a decoder
  will parse.
\<close>

section \<open>Loops that cannot fail\<close>

lemma forR_pure:
  assumes "\<And>k s. k \<in> set ks \<Longrightarrow> f k s = Inr (g k s)"
  shows "forR f ks s = Inr (fold g ks s)"
  using assms by (induction ks arbitrary: s) simp_all

lemma fold_add: "fold (\<lambda>k s. s + h k) ks s = s + (sum_list (map h ks) :: nat)"
  by (induction ks arbitrary: s) (simp_all add: add.assoc)

lemma fold_max: "fold (\<lambda>k m. max m (h k)) ks m = Max (insert m (h ` set ks :: nat set))"
proof (induction ks arbitrary: m)
  case (Cons k ks)
  have "insert (max m (h k)) (h ` set ks) = insert (max m (h k)) (h ` set ks)" ..
  then have "Max (insert (max m (h k)) (h ` set ks)) = Max (insert m (insert (h k) (h ` set ks)))"
    by (cases "set ks = {}") (simp_all add: max.assoc)
  with Cons show ?case by simp
qed simp

lemma sq_err_abs: "nat \<bar>uint a - uint b\<bar> * nat \<bar>uint a - uint b\<bar> = sq_err a b"
  by (simp add: sq_err_def abs_mult_self_eq flip: nat_mult_distrib)

section \<open>Quality metrics\<close>

definition luma_pairs :: "sbs_frame \<Rightarrow> sbs_frame \<Rightarrow> (byte \<times> byte) list" where
  "luma_pairs f g = zip (eye_y (sbs_left f)) (eye_y (sbs_left g)) @ zip (eye_y (sbs_right f)) (eye_y (sbs_right g))"

definition luma_sse :: "sbs_frame \<Rightarrow> sbs_frame \<Rightarrow> nat" where
  "luma_sse f g = sum_list (map (\<lambda>(a, b). sq_err a b) (luma_pairs f g))"

definition sample_diff :: "byte \<times> byte \<Rightarrow> nat" where
  "sample_diff = (\<lambda>(a, b). nat \<bar>uint a - uint b\<bar>)"

definition luma_abs :: "sbs_frame \<Rightarrow> sbs_frame \<Rightarrow> nat" where
  "luma_abs f g = sum_list (map sample_diff (luma_pairs f g))"

definition luma_above :: "nat \<Rightarrow> sbs_frame \<Rightarrow> sbs_frame \<Rightarrow> nat" where
  "luma_above t f g = length (filter (\<lambda>p. sample_diff p > t) (luma_pairs f g))"

definition mb_luma_sse :: "eye_frame \<Rightarrow> eye_frame \<Rightarrow> nat \<Rightarrow> nat" where
  "mb_luma_sse e d mb = sum_list (map (\<lambda>(row, col).
     let idx = (mb div MB_W * 16 + row) * EYE_W + mb mod MB_W * 16 + col in sq_err (eye_y e ! idx) (eye_y d ! idx))
     (List.product [0..<16] [0..<16]))"

lemma mb_y_sse_ok:
  assumes "wf_eye e" and "wf_eye d" and "mb < MB_COUNT"
  shows "mb_y_sse e d mb = Inr (mb_luma_sse e d mb)"
proof -
  have step: "(\<lambda>(row, col) sse. let idx = (mb div MB_W * 16 + row) * EYE_W + mb mod MB_W * 16 + col in
        bindR (abs_diff_at (eye_y e) idx (eye_y d) idx) (\<lambda>delta. Inr (sse + delta * delta))) k s =
      Inr (s + (\<lambda>(row, col). let idx = (mb div MB_W * 16 + row) * EYE_W + mb mod MB_W * 16 + col in
        sq_err (eye_y e ! idx) (eye_y d ! idx)) k)" if k: "k \<in> set (List.product [0..<16] [0..<16])" for k and s :: nat
  proof -
    obtain row col where rc: "k = (row, col)" "row < 16" "col < 16" using k by auto
    have xy: "mb mod MB_W * 16 + col < EYE_W" "mb div MB_W * 16 + row < EYE_H" using mb_fits(1,2)[OF assms(3)] rc by linarith+
    have "(mb div MB_W * 16 + row) * EYE_W + mb mod MB_W * 16 + col < EYE_W * EYE_H"
      using index_bound[OF xy] by (simp add: add.assoc)
    then show ?thesis
      using eye_lengths(1)[OF assms(1)] eye_lengths(1)[OF assms(2)] by (simp add: rc abs_diff_at_def sq_err_abs Let_def)
  qed
  show ?thesis
    unfolding mb_y_sse_def Let_def[of "mb mod MB_W"] Let_def[of "mb div MB_W"] forR_nested
    by (subst forR_pure[OF step], assumption) (simp add: fold_add mb_luma_sse_def)
qed

lemma eye_sse_fold: "accumulate_quality_eye_metrics e d m =
    m\<lparr>qm_y_sse := qm_y_sse m + sum_list (map (\<lambda>(a, b). sq_err a b) (zip (eye_y e) (eye_y d)))\<rparr>"
proof -
  have "fold (\<lambda>(a, b) metrics. let delta = nat \<bar>uint a - uint b\<bar> in metrics\<lparr>qm_y_sse := qm_y_sse metrics + delta * delta\<rparr>) ps m =
      m\<lparr>qm_y_sse := qm_y_sse m + sum_list (map (\<lambda>(a, b). sq_err a b) ps)\<rparr>" for ps
    by (induction ps arbitrary: m) (auto simp: Let_def sq_err_abs add.assoc)
  then show ?thesis by (simp add: accumulate_quality_eye_metrics_def)
qed

lemma abs_fold: "fold (\<lambda>(a, b) (abs_sum, bad16, bad32).
      let delta = nat \<bar>uint a - uint b\<bar> in
      (abs_sum + delta, if delta > 16 then bad16 + 1 else bad16, if delta > 32 then bad32 + 1 else bad32)) ps (s, t, u) =
    (s + sum_list (map sample_diff ps), t + length (filter (\<lambda>p. sample_diff p > 16) ps),
     u + length (filter (\<lambda>p. sample_diff p > 32) ps))"
  by (induction ps arbitrary: s t u) (auto simp: sample_diff_def Let_def)

definition max_mb_sse :: "sbs_frame \<Rightarrow> sbs_frame \<Rightarrow> nat" where
  "max_mb_sse f g = Max (mb_luma_sse (sbs_left f) (sbs_left g) ` {..<MB_COUNT} \<union> mb_luma_sse (sbs_right f) (sbs_right g) ` {..<MB_COUNT})"

lemma quality_abs_metrics_ok:
  assumes "wf_sbs f" and "wf_sbs g"
  shows "quality_abs_metrics (sbs_left f) (sbs_left g) (sbs_right f) (sbs_right g) =
    Inr (luma_abs f g, luma_above 16 f g, luma_above 32 f g, max_mb_sse f g)"
proof -
  have n: "MB_W * MB_H = MB_COUNT" by (simp add: geom)
  have mx: "forR (\<lambda>mb_index max_mb. bindR (mb_y_sse e d mb_index) (\<lambda>sse. Inr (max max_mb sse))) [0..<MB_COUNT] m =
      Inr (Max (insert m (mb_luma_sse e d ` {..<MB_COUNT})))" if "wf_eye e" "wf_eye d" for e d m
    using that by (subst forR_pure[where g = "\<lambda>mb m. max m (mb_luma_sse e d mb)"])
      (auto simp: mb_y_sse_ok fold_max lessThan_atLeast0)
  have ne: "mb_luma_sse e d ` {..<MB_COUNT} \<noteq> {}" for e d by (simp add: geom lessThan_empty_iff)
  have "Max (insert (Max (insert 0 A)) B) = Max (A \<union> B)" if "finite A" "finite B" "A \<noteq> {}" "B \<noteq> {}" for A B :: "nat set"
    using that by (simp add: Max_Un)
  then show ?thesis
    using assms ne
    by (simp add: quality_abs_metrics_def n abs_fold mx wf_sbs_def luma_abs_def luma_above_def luma_pairs_def max_mb_sse_def Un_commute)
qed

lemma length_luma_pairs: "wf_sbs f \<Longrightarrow> wf_sbs g \<Longrightarrow> length (luma_pairs f g) = EYE_W * EYE_H * 2"
  by (simp add: luma_pairs_def wf_sbs_def eye_lengths)

lemma sample_diff_le: "sample_diff p \<le> 255"
proof -
  have "\<bar>uint (fst p) - uint (snd p)\<bar> \<le> 255" using byte_range[of "fst p"] byte_range[of "snd p"] by linarith
  then show ?thesis by (simp add: sample_diff_def split_def nat_le_iff)
qed

lemma luma_bounds:
  assumes "wf_sbs f" and "wf_sbs g"
  shows "luma_abs f g \<le> 255 * 192000" and "luma_above t f g \<le> 192000" and "luma_sse f g \<le> 65025 * 192000"
proof -
  have len: "length (luma_pairs f g) = 192000" using length_luma_pairs[OF assms] by (simp add: geom)
  have sum: "sum_list (map h ps) \<le> c * length ps" if "\<And>p. h p \<le> c" for h :: "byte \<times> byte \<Rightarrow> nat" and c ps
    using that sum_list_mono[of ps h "\<lambda>_. c"] by (simp add: sum_list_const_mult sum_list_triv mult.commute)
  show "luma_abs f g \<le> 255 * 192000" using sum[of sample_diff 255 "luma_pairs f g"] sample_diff_le len by (simp add: luma_abs_def)
  have "(\<lambda>(a, b). sq_err a b) p \<le> 65025" for p
    using mult_le_mono[OF sample_diff_le sample_diff_le, of p p] by (simp add: sample_diff_def split_def sq_err_abs)
  then show "luma_sse f g \<le> 65025 * 192000"
    using sum[of "\<lambda>(a, b). sq_err a b" 65025 "luma_pairs f g"] len by (simp add: luma_sse_def)
  show "luma_above t f g \<le> 192000" using length_filter_le[of _ "luma_pairs f g"] len by (simp add: luma_above_def)
qed

text \<open>Nothing wraps: the 32-bit ratios are the true quotients.\<close>

theorem frame_quality_ok:
  assumes "wf_sbs f" and "wf_sbs g"
  shows "okR (\<lambda>q. qm_y_sse q = luma_sse f g \<and> unat (qm_y_mae_milli q) = luma_abs f g * 1000 div (EYE_W * EYE_H * 2) \<and>
      unat (qm_y_bad_gt16_per_mille q) = luma_above 16 f g * 1000 div (EYE_W * EYE_H * 2) \<and>
      unat (qm_y_bad_gt32_per_mille q) = luma_above 32 f g * 1000 div (EYE_W * EYE_H * 2) \<and>
      qm_max_mb_y_sse q = max_mb_sse f g) (frame_quality_metrics f g)"
proof -
  have "n * 1000 div (EYE_W * EYE_H * 2) < 2 ^ 32" if "n \<le> 255 * 192000" for n
    using div_le_mono[of "n * 1000" "255 * 192000 * 1000" "EYE_W * EYE_H * 2"] that by (simp add: geom)
  then have u: "unat (of_nat (n * 1000 div (EYE_W * EYE_H * 2)) :: u32) = n * 1000 div (EYE_W * EYE_H * 2)" if "n \<le> 255 * 192000" for n
    using that by (simp add: unat_length_u32)
  have b: "luma_above t f g \<le> 255 * 192000" for t using luma_bounds(2)[OF assms, of t] by simp
  show ?thesis
    unfolding frame_quality_metrics_def Let_def quality_abs_metrics_ok[OF assms] bindR_simps prod.case okR_Inr eye_sse_fold
    using u[OF luma_bounds(1)[OF assms]] u[OF b]
    by (simp add: QualityMetrics_default_def luma_sse_def luma_pairs_def)
qed

section \<open>Scene changes\<close>

definition tally :: "nat \<Rightarrow> nat \<times> nat \<times> nat \<Rightarrow> nat \<times> nat \<times> nat \<Rightarrow> bool" where
  "tally k = (\<lambda>(s, h, n) (s', h', n'). s' \<le> s + 255 * k \<and> h' \<le> h + k \<and> n' = n + k)"

lemma okR_tally:
  assumes "\<And>k acc. k \<in> set ks \<Longrightarrow> okR (tally 1 acc) (f k acc)"
  shows "okR (tally (length ks) acc) (forR f ks acc)"
  using assms
proof (induction ks arbitrary: acc)
  case Nil
  then show ?case by (simp add: tally_def split_def)
next
  case (Cons k ks)
  have "okR (tally 1 acc) (f k acc)" using Cons.prems by simp
  then show ?case
    unfolding forR.simps
  proof (rule okR_bind)
    fix acc' assume t: "tally 1 acc acc'"
    have "okR (tally (length ks) acc') (forR f ks acc')" using Cons by simp
    then show "okR (tally (length (k # ks)) acc) (forR f ks acc')"
      by (rule okR_mono) (use t in \<open>auto simp: tally_def split_def\<close>)
  qed
qed

lemma scene_eye_ok:
  assumes "wf_eye current" and "wf_eye previous"
  shows "okR (tally 6000 acc) (accumulate_scene_eye_metrics current previous mv acc)"
proof -
  let ?ks = "List.product (map (\<lambda>k. 4 * k) [0..<EYE_H div 4]) (map (\<lambda>k. 4 * k) [0..<EYE_W div 4])"
  have "okR (tally (length ?ks) acc) (accumulate_scene_eye_metrics current previous mv acc)"
    unfolding accumulate_scene_eye_metrics_def forR_nested
  proof (rule okR_tally)
    fix k :: "nat \<times> nat" and acc :: "nat \<times> nat \<times> nat" assume "k \<in> set ?ks"
    then obtain x y where k: "k = (y, x)" and xy: "x < EYE_W" "y < EYE_H" by (auto simp: geom)
    have d: "okR (\<lambda>d. d \<le> 255) (abs_diff_at (eye_y current) (y * EYE_W + x)
         (eye_y previous) (displaced EYE_W EYE_H (sint (mvX mv)) (sint (mvY mv)) x y))"
      using index_bound[OF xy] eye_lengths(1)[OF assms(1)] eye_lengths(1)[OF assms(2)]
      by (intro abs_diff_at_ok) (auto intro: displaced_less)
    obtain s h n where acc: "acc = (s, h, n)" by (cases acc)
    show "okR (tally 1 acc) ((case k of (y, x) \<Rightarrow> \<lambda>(sad, high_delta_samples, samples).
       bindR (abs_diff_at (eye_y current) (y * EYE_W + x)
         (eye_y previous) (displaced EYE_W EYE_H (sint (mvX mv)) (sint (mvY mv)) x y)) (\<lambda>delta.
       Inr (sad + delta, if delta \<ge> unat SCENE_CUT_HIGH_Y_DELTA then high_delta_samples + 1 else high_delta_samples,
            samples + 1))) acc)"
      unfolding k acc prod.case by (rule okR_bind[OF d]) (simp add: tally_def)
  qed
  then show ?thesis by (simp add: geom)
qed

theorem scene_metrics_ok:
  assumes "wf_sbs current" and "wf_sbs previous"
  shows "okR (\<lambda>m. unat (sc_avg_y_delta m) \<le> 255 \<and> unat (sc_high_y_delta_percent m) \<le> 100)
    (source_scene_change_metrics current previous)"
proof -
  have w: "wf_eye (sbs_left current)" "wf_eye (sbs_right current)" "wf_eye (sbs_left previous)" "wf_eye (sbs_right previous)"
    using assms by (simp_all add: wf_sbs_def)
  have mv: "okR (\<lambda>_. True) (find_base_mv a b)" if "wf_eye a" "wf_eye b" for a b
    using find_base_mv_ok[OF that] by (rule okR_mono) simp
  show ?thesis
    unfolding source_scene_change_metrics_def
  proof (rule okR_bind[OF mv[OF w(1,3)]], rule okR_bind[OF scene_eye_ok[OF w(1,3)]],
      rule okR_bind[OF mv[OF w(2,4)]], rule okR_bind[OF scene_eye_ok[OF w(2,4)]])
    fix acc acc' :: "nat \<times> nat \<times> nat" assume t: "tally 6000 (0, 0, 0) acc" "tally 6000 acc acc'"
    obtain s h n where acc: "acc' = (s, h, n)" by (cases acc')
    from t acc have b: "s \<le> 255 * 12000" "h \<le> 12000" "n = 12000" by (auto simp: tally_def split_def)
    have q: "s div 12000 \<le> 255" "h * 100 div 12000 \<le> 100" using b(1,2) by auto
    then have "unat (of_nat (s div 12000) :: u32) \<le> 255" "unat (of_nat (h * 100 div 12000) :: u32) \<le> 100"
      by (simp_all add: unat_length_u32 del: of_nat_mult)
    then show "okR (\<lambda>m. unat (sc_avg_y_delta m) \<le> 255 \<and> unat (sc_high_y_delta_percent m) \<le> 100)
      (case acc' of (sad, high_delta_samples, n) \<Rightarrow>
         if n = 0 then Inl Fault
         else Inr \<lparr>sc_avg_y_delta = of_nat (sad div n),
               sc_high_y_delta_percent = of_nat (high_delta_samples * 100 div n)\<rparr>)"
      by (simp add: acc b(3) del: of_nat_mult)
  qed
qed

section \<open>The rolling window\<close>

text \<open>The last 23 frames and the next one make a window of 24.\<close>

lemma rolling_window_is_last_24:
  "rolling_window_bytes_after recent n = sum_list (take 24 (rev (recent @ [n])))"
  by (simp add: rolling_window_bytes_after_def RATE_WINDOW_FRAMES_def numeral_eq_Suc)

text \<open>
  Reserving for a raw key frame leaves room for it in the window after the next
  frame, and keeps the window of this frame too when no recent frame was larger
  than a raw key frame.
\<close>

lemma sum_list_take_Suc: "sum_list (take (Suc k) xs) = sum_list (take k xs) + (if k < length xs then xs ! k else 0)"
  for xs :: "nat list"
  by (simp add: take_Suc_conv_app_nth)

lemma reserve_next_raw:
  assumes "rolling_window_allows_next_raw_after_frame recent n"
  shows "rolling_window_allows_keyframe (recent @ [n])"
    and "\<forall>b\<in>set recent. b \<le> KEY_RAW_CODED_BYTES \<Longrightarrow> rolling_window_allows_frame_bytes recent n"
proof -
  have w: "sum_list (take 22 (rev recent)) + n + KEY_RAW_CODED_BYTES \<le> RATE_WINDOW_BYTES"
    using assms by (simp add: rolling_window_allows_next_raw_after_frame_def RATE_WINDOW_FRAMES_def Let_def)
  have "take 23 (rev (recent @ [n])) = n # take 22 (rev recent)" by (simp add: take_Cons')
  with w show "rolling_window_allows_keyframe (recent @ [n])"
    by (simp add: rolling_window_allows_keyframe_def rolling_window_allows_frame_bytes_def rolling_window_bytes_after_def
        RATE_WINDOW_FRAMES_def Let_def)
  assume small: "\<forall>b\<in>set recent. b \<le> KEY_RAW_CODED_BYTES"
  have "rev recent ! 22 \<le> KEY_RAW_CODED_BYTES" if "22 < length (rev recent)"
    using small nth_mem[OF that] by simp
  then have "sum_list (take 23 (rev recent)) \<le> sum_list (take 22 (rev recent)) + KEY_RAW_CODED_BYTES"
    using sum_list_take_Suc[of 22 "rev recent"] by (simp split: if_splits)
  with w show "rolling_window_allows_frame_bytes recent n"
    by (simp add: rolling_window_allows_frame_bytes_def rolling_window_bytes_after_def RATE_WINDOW_FRAMES_def Let_def)
qed

section \<open>The contract of a candidate\<close>

definition p_written :: "u32 \<Rightarrow> sbs_frame \<Rightarrow> byte list \<Rightarrow> sbs_frame \<Rightarrow> mb_desc list \<Rightarrow> bool" where
  "p_written no reference bytes recon ds \<longleftrightarrow> (\<exists>left dl right dr. bytes = write_written (WP no left dl right dr) \<and>
     written_ok True (WP no left dl right dr) \<and> df_frame (shown reference (WP no left dl right dr)) = recon \<and>
     ds = concat dl @ concat dr)"

definition candidate_done :: "u32 \<Rightarrow> sbs_frame \<Rightarrow> sbs_frame \<Rightarrow> encode_mode \<Rightarrow> p_frame_candidate \<Rightarrow> bool" where
  "candidate_done no frame reference mode c \<longleftrightarrow>
     wf_sbs (pc_recon c) \<and> length (pc_bytes c) \<le> 14100062 \<and> (mode = Lossless \<longrightarrow> pc_recon c = frame) \<and>
     fs_p_frame_bytes (pc_stats c) = length (pc_bytes c) \<and>
     fs_decode_work_units (pc_stats c) = estimate_p_decode_work_units (pc_stats c) \<and>
     qm_y_sse (pc_quality c) = luma_sse frame (pc_recon c) \<and>
     (\<exists>ds. p_written no reference (pc_bytes c) (pc_recon c) ds \<and> length ds = 2 * MB_COUNT \<and>
        accounts FrameStats_default ds (pc_stats c))"

lemma accounts_add_stats:
  "accounts FrameStats_default ds s \<Longrightarrow> accounts FrameStats_default ds' s' \<Longrightarrow>
    accounts FrameStats_default (ds @ ds') (add_stats (add_stats FrameStats_default s) s')"
  by (simp add: accounts_def mb_total_def add_stats_def FrameStats_default_def)

lemma put_two_tiles:
  assumes l: "tile_done 0 (sbs_left frame) (sbs_left reference) mode left dl left_recon ls"
    and r: "tile_done 1 (sbs_right frame) (sbs_right reference) mode right dr right_recon rs" and wf: "wf_sbs reference"
  shows "put_tile reference (tile_to_ast right dr) (put_tile reference (tile_to_ast left dl) reference) =
      \<lparr>sbs_left = left_recon, sbs_right = right_recon\<rparr>"
    and "frame_complete (PF (tile_to_ast left dl) (tile_to_ast right dr))"
proof -
  have id: "ta_id (tile_to_ast left dl) = 0" "ta_id (tile_to_ast right dr) = 1"
    using l r by (simp_all add: tile_done_def tile_to_ast_def)
  then show "put_tile reference (tile_to_ast right dr) (put_tile reference (tile_to_ast left dl) reference) =
      \<lparr>sbs_left = left_recon, sbs_right = right_recon\<rparr>"
    using l r wf by (simp add: put_tile_def eye_of_def set_eye_def tile_done_def wf_sbs_def)
  show "frame_complete (PF (tile_to_ast left dl) (tile_to_ast right dr))"
    using id l r by (auto simp: frame_complete_def tile_done_def tile_region_def)
qed

theorem encode_p_frame_candidate_ok:
  assumes wf: "wf_sbs frame" "wf_sbs reference"
  shows "okR (candidate_done no frame reference mode) (encode_p_frame_candidate no frame reference row_bands mode)"
proof -
  have w: "wf_eye (sbs_left frame)" "wf_eye (sbs_right frame)" "wf_eye (sbs_left reference)" "wf_eye (sbs_right reference)"
    using wf by (simp_all add: wf_sbs_def)
  show ?thesis
    unfolding encode_p_frame_candidate_def
  proof (rule okR_bind[OF encode_tile_ok[OF w(1,3)]], simp, unfold split_paired_all prod.case,
      rule okR_bind[OF encode_tile_ok[OF w(2,4)]], simp, unfold split_paired_all prod.case)
    fix left left_recon right right_recon and ls rs :: frame_stats
    assume "\<exists>dl. tile_done 0 (sbs_left frame) (sbs_left reference) mode left dl left_recon ls"
      and "\<exists>dr. tile_done 1 (sbs_right frame) (sbs_right reference) mode right dr right_recon rs"
    then obtain dl dr where l: "tile_done 0 (sbs_left frame) (sbs_left reference) mode left dl left_recon ls"
      and r: "tile_done 1 (sbs_right frame) (sbs_right reference) mode right dr right_recon rs" by blast
    note l' = l[unfolded tile_done_def] and r' = r[unfolded tile_done_def]
    let ?recon = "\<lparr>sbs_left = left_recon, sbs_right = right_recon\<rparr>" and ?bytes = "write_p_frame [] no left right"
    have wr: "wf_sbs ?recon" using l' r' by (simp add: wf_sbs_def)
    have len: "length ?bytes = 28 + tile_bytes left + tile_bytes right" by (simp add: write_p_frame_split)
    note two = put_two_tiles[OF l r wf(2)]
    have pw: "p_written no reference ?bytes ?recon (concat dl @ concat dr)"
      unfolding p_written_def
      using l' r' two by (intro exI[of _ left] exI[of _ dl] exI[of _ right] exI[of _ dr]) simp
    have less: "frame = ?recon" if "mode = Lossless" using l' r' that by (cases frame) simp
    have acc: "accounts FrameStats_default (concat dl @ concat dr) (add_stats (add_stats FrameStats_default ls) rs)"
      using l' r' by (intro accounts_add_stats) simp_all
    show "okR (candidate_done no frame reference mode)
      (let bytes = ?bytes;
         stats = add_stats (add_stats FrameStats_default ls) rs;
         stats = stats\<lparr>fs_p_frame_bytes := length bytes\<rparr>;
         stats = stats\<lparr>fs_decode_work_units := estimate_p_decode_work_units stats\<rparr>;
         recon = ?recon in
       bindR (frame_quality_metrics frame recon) (\<lambda>quality.
       Inr \<lparr>pc_bytes = bytes, pc_recon = recon, pc_stats = stats, pc_mode_name = EncodeMode_name mode,
          pc_q_step = EncodeMode_q_step mode, pc_quality = quality, pc_quality_recovery_used = quality_recovery mode,
          pc_left_base_mv = et_base_mv left, pc_right_base_mv = et_base_mv right\<rparr>))"
      unfolding Let_def
    proof (rule okR_bind[OF frame_quality_ok[OF wf(1) wr]])
      fix q :: quality_metrics assume q: "qm_y_sse q = luma_sse frame ?recon \<and> unat (qm_y_mae_milli q) = luma_abs frame ?recon * 1000 div (EYE_W * EYE_H * 2) \<and>
        unat (qm_y_bad_gt16_per_mille q) = luma_above 16 frame ?recon * 1000 div (EYE_W * EYE_H * 2) \<and>
        unat (qm_y_bad_gt32_per_mille q) = luma_above 32 frame ?recon * 1000 div (EYE_W * EYE_H * 2) \<and> qm_max_mb_y_sse q = max_mb_sse frame ?recon"
      have "length (concat dl @ concat dr) = 2 * MB_COUNT" using l' r' by simp
      moreover have "tile_bytes left + tile_bytes right \<le> 14100034" using l' r' by linarith
      moreover have "accounts FrameStats_default (concat dl @ concat dr)
          (add_stats (add_stats FrameStats_default ls) rs\<lparr>fs_p_frame_bytes := a, fs_decode_work_units := b\<rparr>)" for a b
        using acc by (simp add: accounts_def mb_total_def)
      ultimately show "okR (candidate_done no frame reference mode)
        (Inr \<lparr>pc_bytes = ?bytes, pc_recon = ?recon,
          pc_stats = add_stats (add_stats FrameStats_default ls) rs
            \<lparr>fs_p_frame_bytes := length ?bytes, fs_decode_work_units :=
              estimate_p_decode_work_units (add_stats (add_stats FrameStats_default ls) rs\<lparr>fs_p_frame_bytes := length ?bytes\<rparr>)\<rparr>,
          pc_mode_name = EncodeMode_name mode,
          pc_q_step = EncodeMode_q_step mode, pc_quality = q, pc_quality_recovery_used = quality_recovery mode,
          pc_left_base_mv = et_base_mv left, pc_right_base_mv = et_base_mv right\<rparr>)"
        using q pw wr less len
        by (auto simp: candidate_done_def estimate_p_decode_work_units_def Let_def)
    qed
  qed
qed

section \<open>Staying within the budget\<close>

abbreviation in_budget :: "nat \<Rightarrow> nat list \<Rightarrow> p_frame_candidate \<Rightarrow> bool" where
  "in_budget max_p_frame_bytes recent c \<equiv> p_frame_satisfies_budget_and_rate (pc_stats c) max_p_frame_bytes recent"

abbreviation frame_bytes :: "p_frame_candidate \<Rightarrow> nat" where
  "frame_bytes c \<equiv> fs_p_frame_bytes (pc_stats c)"

lemma budget_loop_ok:
  assumes "P best" and "\<forall>q\<in>set qs. okR P (enc (Budget q))"
  shows "okR (\<lambda>c. P c \<and> frame_bytes c \<le> frame_bytes best \<and>
      (in_budget m recent c \<or> (\<forall>q\<in>set qs. okR (\<lambda>d. frame_bytes c \<le> frame_bytes d) (enc (Budget q)))))
    (budget_loop enc m recent qs best)"
  using assms
proof (induction qs arbitrary: best)
  case (Cons q qs)
  obtain d where d: "enc (Budget q) = Inr d" "P d" using Cons.prems(2) by (auto simp: okR_def)
  let ?best = "if frame_bytes d < frame_bytes best then d else best"
  have best: "P ?best" "frame_bytes ?best \<le> frame_bytes best" "frame_bytes ?best \<le> frame_bytes d" using d Cons.prems(1) by auto
  show ?case
  proof (cases "in_budget m recent ?best")
    case True
    then show ?thesis using best by (simp add: d(1) Let_def)
  next
    case False
    have "okR (\<lambda>c. P c \<and> frame_bytes c \<le> frame_bytes ?best \<and>
        (in_budget m recent c \<or> (\<forall>q\<in>set qs. okR (\<lambda>d. frame_bytes c \<le> frame_bytes d) (enc (Budget q)))))
      (budget_loop enc m recent qs ?best)"
      using best Cons.prems(2) by (intro Cons.IH) auto
    then have "okR (\<lambda>c. P c \<and> frame_bytes c \<le> frame_bytes best \<and>
        (in_budget m recent c \<or> (\<forall>q\<in>set (q # qs). okR (\<lambda>d. frame_bytes c \<le> frame_bytes d) (enc (Budget q)))))
      (budget_loop enc m recent qs ?best)"
      by (rule okR_mono) (use best d(1) in \<open>auto intro: le_trans\<close>)
    then show ?thesis using False by (simp add: d(1) Let_def)
  qed
qed simp

lemma recovery_loop_ok:
  assumes "P best" and "\<forall>t\<in>set ts. okR P (enc (QualityRecovery QUALITY_RECOVERY_Q_STEP t))"
  shows "okR (\<lambda>c. P c \<and> qm_y_sse (pc_quality c) \<le> qm_y_sse (pc_quality best) \<and>
      (c = best \<or> p_frame_satisfies_budget (pc_stats c) m \<and>
        rolling_window_allows_quality_recovery_frame_bytes recent (frame_bytes c) reserve))
    (recovery_loop enc m recent reserve stop ts best)"
  using assms
proof (induction ts arbitrary: best)
  case (Cons t ts)
  obtain d where d: "enc (QualityRecovery QUALITY_RECOVERY_Q_STEP t) = Inr d" "P d" using Cons.prems(2) by (auto simp: okR_def)
  have ts: "\<forall>t\<in>set ts. okR P (enc (QualityRecovery QUALITY_RECOVERY_Q_STEP t))" using Cons.prems(2) by simp
  note IH = Cons.IH[OF Cons.prems(1) ts] Cons.IH[OF d(2) ts]
  show ?case
    by (simp add: d) (auto intro: okR_mono[OF IH(1)] okR_mono[OF IH(2)] d(2))
qed simp

lemma recovery_within:
  assumes "p_frame_satisfies_budget (pc_stats c) m" and "rolling_window_allows_quality_recovery_frame_bytes recent (frame_bytes c) reserve"
    and "\<forall>b\<in>set recent. b \<le> KEY_RAW_CODED_BYTES"
  shows "in_budget m recent c"
  using assms reserve_next_raw(2)[of recent "frame_bytes c"]
  by (auto simp: p_frame_satisfies_budget_and_rate_def rolling_window_allows_quality_recovery_frame_bytes_def
      rolling_window_allows_frame_bytes_def QUALITY_RECOVERY_WINDOW_BYTES_def split: if_splits)

text \<open>
  The frame chosen is the lossless one if that is within the budget and the
  window; else it is within both, or no candidate that was quantized is smaller.
\<close>

definition budget_outcome ::
  "(encode_mode \<Rightarrow> p_frame_candidate result) \<Rightarrow> nat \<Rightarrow> nat list \<Rightarrow> p_frame_candidate \<Rightarrow> bool" where
  "budget_outcome enc m recent c \<longleftrightarrow> in_budget m recent c \<or>
     (\<forall>q\<in>set BUDGET_Q_STEPS. okR (\<lambda>d. frame_bytes c \<le> frame_bytes d) (enc (Budget q))) \<and>
     okR (\<lambda>d. frame_bytes c \<le> frame_bytes d) (enc Lossless)"

text \<open>
  What the budget loops use of the encoder of a frame: in every mode it returns
  a candidate that keeps the contract \<open>good\<close>.
\<close>

locale candidate_encoder =
  fixes enc :: "u32 \<Rightarrow> sbs_frame \<Rightarrow> sbs_frame \<Rightarrow> bool \<Rightarrow> encode_mode \<Rightarrow> p_frame_candidate result"
    and good :: "u32 \<Rightarrow> sbs_frame \<Rightarrow> sbs_frame \<Rightarrow> encode_mode \<Rightarrow> p_frame_candidate \<Rightarrow> bool"
  assumes enc_good: "wf_sbs frame \<Longrightarrow> wf_sbs reference \<Longrightarrow>
    okR (good no frame reference mode) (enc no frame reference row_bands mode)"
begin

definition kept :: "u32 \<Rightarrow> sbs_frame \<Rightarrow> sbs_frame \<Rightarrow> p_frame_candidate \<Rightarrow> bool" where
  "kept no frame reference c \<longleftrightarrow> (\<exists>mode. good no frame reference mode c)"

lemma enc_kept:
  assumes "wf_sbs frame" and "wf_sbs reference"
  shows "okR (kept no frame reference) (enc no frame reference row_bands mode)"
  using enc_good[OF assms] by (rule okR_mono) (auto simp: kept_def)

lemma quantized_kept:
  assumes wf: "wf_sbs frame" "wf_sbs reference" and l: "enc no frame reference row_bands Lossless = Inr lossless"
  shows "okR (\<lambda>c. kept no frame reference c \<and>
      ((\<forall>b\<in>set recent. b \<le> KEY_RAW_CODED_BYTES) \<longrightarrow> budget_outcome (enc no frame reference row_bands) m recent c))
    (bindR (budget_loop (enc no frame reference row_bands) m recent BUDGET_Q_STEPS lossless) (\<lambda>best.
      if should_try_quality_recovery best recent reserve then
        recovery_loop (enc no frame reference row_bands) m recent reserve (quality_recovery_stop_y_sse best recent reserve)
          QUALITY_RECOVERY_RAW4X4_SSE_THRESHOLDS best
      else Inr best))"
proof -
  let ?enc = "enc no frame reference row_bands" and ?P = "kept no frame reference"
  let ?Q = "\<lambda>c. ?P c \<and> ((\<forall>b\<in>set recent. b \<le> KEY_RAW_CODED_BYTES) \<longrightarrow> budget_outcome ?enc m recent c)"
  note P = enc_kept[OF wf, of no row_bands]
  show ?thesis
  proof (rule okR_bind[OF budget_loop_ok[where P = ?P]])
    show "?P lossless" using P[of Lossless] by (simp add: l)
    fix best
    assume best: "?P best \<and> frame_bytes best \<le> frame_bytes lossless \<and>
      (in_budget m recent best \<or> (\<forall>q\<in>set BUDGET_Q_STEPS. okR (\<lambda>d. frame_bytes best \<le> frame_bytes d) (?enc (Budget q))))"
    then have b: "budget_outcome ?enc m recent best" by (auto simp: budget_outcome_def l)
    have "okR ?Q (recovery_loop ?enc m recent reserve stop QUALITY_RECOVERY_RAW4X4_SSE_THRESHOLDS best)" for stop
      by (rule okR_mono[OF recovery_loop_ok[where P = ?P and best = best]])
        (use best b P recovery_within in \<open>auto simp: budget_outcome_def\<close>)
    then show "okR ?Q (if should_try_quality_recovery best recent reserve then
        recovery_loop ?enc m recent reserve (quality_recovery_stop_y_sse best recent reserve)
          QUALITY_RECOVERY_RAW4X4_SSE_THRESHOLDS best
      else Inr best)"
      using best b by simp
  qed (use P in simp)
qed

end

interpretation pc: candidate_encoder encode_p_frame_candidate candidate_done
  by unfold_locales (rule encode_p_frame_candidate_ok)

theorem encode_budgeted_p_frame_ok:
  assumes wf: "wf_sbs frame" "wf_sbs reference"
  shows "okR (\<lambda>c. (\<exists>mode. candidate_done no frame reference mode c) \<and>
      (okR (in_budget m recent) (encode_p_frame_candidate no frame reference row_bands Lossless) \<longrightarrow>
        encode_p_frame_candidate no frame reference row_bands Lossless = Inr c) \<and>
      ((\<forall>b\<in>set recent. b \<le> KEY_RAW_CODED_BYTES) \<longrightarrow>
        budget_outcome (encode_p_frame_candidate no frame reference row_bands) m recent c))
    (encode_budgeted_p_frame no frame reference row_bands m recent reserve)"
proof -
  obtain lossless where l: "encode_p_frame_candidate no frame reference row_bands Lossless = Inr lossless"
    and k: "\<exists>mode. candidate_done no frame reference mode lossless"
    using pc.enc_kept[OF wf, of no row_bands Lossless] by (auto simp: okR_def pc.kept_def)
  show ?thesis
  proof (cases "in_budget m recent lossless")
    case True
    then show ?thesis using l k by (simp add: encode_budgeted_p_frame_def budget_outcome_def)
  next
    case False
    then have e: "encode_budgeted_p_frame no frame reference row_bands m recent reserve =
        bindR (budget_loop (encode_p_frame_candidate no frame reference row_bands) m recent BUDGET_Q_STEPS lossless) (\<lambda>best.
        if should_try_quality_recovery best recent reserve then
          recovery_loop (encode_p_frame_candidate no frame reference row_bands) m recent reserve
            (quality_recovery_stop_y_sse best recent reserve) QUALITY_RECOVERY_RAW4X4_SSE_THRESHOLDS best
        else Inr best)"
      unfolding encode_budgeted_p_frame_def Let_def l bindR_simps by simp
    show ?thesis
      unfolding e by (rule okR_mono[OF pc.quantized_kept[OF wf l, of recent m reserve]]) (simp add: False l pc.kept_def)
  qed
qed

end
