(* ===== verification/O3_EncMain.thy ===== *)
theory O3_EncMain
  imports O3_EncRateLaws
begin

text \<open>
  The program \<open>rav1e-o3yv\<close>: its options and its frame loop, which chooses key
  frames by the gap since the last one and by scene cuts, encodes the other
  frames against the reconstruction of the previous one, and with
  \<open>--loopback\<close> decodes the stream after every frame. The boxed messages of
  \<open>main\<close> are \<open>Invalid\<close> errors here. Reading the input, writing the output and
  the log lines are not modelled.
\<close>

section \<open>Options\<close>

record options =
  op_input :: string
  op_output :: string
  op_frames :: "nat option"
  op_keyint :: nat
  op_loopback :: bool
  op_row_bands :: bool
  op_max_p_frame_bytes :: nat

text \<open>\<open>str::parse::<usize>\<close>: an optional plus sign, decimal digits, at most 64 bits.\<close>

definition digit_value :: "char \<Rightarrow> nat option" where
  "digit_value c = (let n = of_char c :: nat in if 48 \<le> n \<and> n \<le> 57 then Some (n - 48) else None)"

primrec parse_digits :: "string \<Rightarrow> nat \<Rightarrow> nat option" where
  "parse_digits [] acc = Some acc"
| "parse_digits (c # cs) acc =
     (case digit_value c of
        None \<Rightarrow> None
      | Some d \<Rightarrow> if acc * 10 + d > U64_MAX then None else parse_digits cs (acc * 10 + d))"

definition parse_usize :: "string \<Rightarrow> nat result" where
  "parse_usize s =
     (let digits = (case s of c # cs \<Rightarrow> if c = CHR ''+'' then cs else s | [] \<Rightarrow> []) in
      if digits = [] then Inl (Invalid ''invalid digit'')
      else case parse_digits digits 0 of None \<Rightarrow> Inl (Invalid ''invalid digit'') | Some n \<Rightarrow> Inr n)"

text \<open>The variables of the argument loop. \<open>Inr None\<close> is the exit with code 0 of \<open>--help\<close>.\<close>

record arg_state =
  as_input :: "string option"
  as_output :: "string option"
  as_frames :: "nat option"
  as_keyint :: nat
  as_loopback :: bool
  as_row_bands :: bool
  as_max_p_frame_bytes :: nat

definition arg_start :: arg_state where
  "arg_start = \<lparr>as_input = None, as_output = None, as_frames = None, as_keyint = 48, as_loopback = False,
     as_row_bands = True, as_max_p_frame_bytes = 131072\<rparr>"

definition next_arg :: "string list \<Rightarrow> string option" where
  "next_arg args = (case args of [] \<Rightarrow> None | a # _ \<Rightarrow> Some a)"

definition needs_value :: "string \<Rightarrow> string list \<Rightarrow> nat result" where
  "needs_value message args = (case next_arg args of None \<Rightarrow> Inl (Invalid message) | Some v \<Rightarrow> parse_usize v)"

fun arg_loop :: "string list \<Rightarrow> arg_state \<Rightarrow> arg_state option result" where
  "arg_loop [] st = Inr (Some st)"
| "arg_loop (arg # args) st =
     (if arg = ''--input'' \<or> arg = ''-i'' then arg_loop (drop 1 args) (st\<lparr>as_input := next_arg args\<rparr>)
      else if arg = ''--output'' \<or> arg = ''-o'' then arg_loop (drop 1 args) (st\<lparr>as_output := next_arg args\<rparr>)
      else if arg = ''--frames'' then
        bindR (needs_value ''--frames needs a value'' args) (\<lambda>n. arg_loop (drop 1 args) (st\<lparr>as_frames := Some n\<rparr>))
      else if arg = ''--keyint'' then
        bindR (needs_value ''--keyint needs a value'' args) (\<lambda>n. arg_loop (drop 1 args) (st\<lparr>as_keyint := n\<rparr>))
      else if arg = ''--loopback'' then arg_loop args (st\<lparr>as_loopback := True\<rparr>)
      else if arg = ''--full-fragment'' then arg_loop args (st\<lparr>as_row_bands := False\<rparr>)
      else if arg = ''--max-p-frame-bytes'' then
        bindR (needs_value ''--max-p-frame-bytes needs a value'' args)
          (\<lambda>n. arg_loop (drop 1 args) (st\<lparr>as_max_p_frame_bytes := n\<rparr>))
      else if arg = ''--help'' \<or> arg = ''-h'' then Inr None
      else Inl (Invalid (''unknown argument '' @ arg)))"

definition parse_args :: "string list \<Rightarrow> options option result" where
  "parse_args args =
     bindR (arg_loop args arg_start) (\<lambda>st. case st of
       None \<Rightarrow> Inr None
     | Some st \<Rightarrow>
         if as_keyint st = 0 then Inl (Invalid ''--keyint must be greater than zero'')
         else case as_input st of
           None \<Rightarrow> Inl (Invalid ''--input is required'')
         | Some input \<Rightarrow> (case as_output st of
             None \<Rightarrow> Inl (Invalid ''--output is required'')
           | Some output \<Rightarrow> Inr (Some \<lparr>op_input = input, op_output = output, op_frames = as_frames st,
               op_keyint = as_keyint st, op_loopback = as_loopback st, op_row_bands = as_row_bands st,
               op_max_p_frame_bytes = as_max_p_frame_bytes st\<rparr>)))"

section \<open>The frame loop\<close>

record encoder_state =
  en_stream :: "byte list"
  en_reference :: "sbs_frame option"
  en_previous_source :: "sbs_frame option"
  en_recent_frame_bytes :: "nat list"
  en_total :: frame_stats
  en_key_frames :: nat
  en_last_raw_frame_no :: "nat option"

definition encode_p :: "options \<Rightarrow> byte list \<Rightarrow> nat \<Rightarrow> nat \<Rightarrow> sbs_frame \<Rightarrow> encoder_state \<Rightarrow> (sbs_frame \<times> encoder_state) result" where
  "encode_p options input frame_count frame_no frame st =
     bindR (case en_reference st of None \<Rightarrow> Inl (Invalid ''missing reference frame'') | Some r \<Rightarrow> Inr r) (\<lambda>reference_frame.
     bindR (next_frame_needs_raw_reserve frame_no frame_count (en_last_raw_frame_no st) (op_keyint options) input frame)
       (\<lambda>reserve_next_raw.
     bindR (encode_budgeted_p_frame (of_nat frame_no) frame reference_frame (op_row_bands options)
       (op_max_p_frame_bytes options) (en_recent_frame_bytes st) reserve_next_raw) (\<lambda>candidate.
     let tot = add_stats (en_total st) (pc_stats candidate);
         tot = tot\<lparr>fs_p_frame_bytes := fs_p_frame_bytes tot + fs_p_frame_bytes (pc_stats candidate)\<rparr>
     in Inr (pc_recon candidate, st\<lparr>en_total := tot, en_stream := en_stream st @ pc_bytes candidate\<rparr>))))"

definition encode_key :: "nat \<Rightarrow> sbs_frame \<Rightarrow> encoder_state \<Rightarrow> encoder_state" where
  "encode_key frame_no frame st =
     st\<lparr>en_stream := write_key_raw_frame (en_stream st) (of_nat frame_no) frame,
        en_key_frames := en_key_frames st + 1, en_last_raw_frame_no := Some frame_no\<rparr>"

definition loopback_check :: "byte list \<Rightarrow> sbs_frame \<Rightarrow> unit result" where
  "loopback_check stream recon =
     bindR (decode_stream stream) (\<lambda>decoded.
     if decoded = [] then Inl (Invalid ''loopback decoder produced no frames'')
     else if last decoded \<noteq> recon then Inl (Invalid ''closed-loop mismatch'')
     else Inr ())"

definition encode_frame :: "options \<Rightarrow> byte list \<Rightarrow> nat \<Rightarrow> nat \<Rightarrow> encoder_state \<Rightarrow> encoder_state result" where
  "encode_frame options input frame_count frame_no st =
     (let start = frame_no * SBS_FRAME_BYTES in
      bindR (slice_range input start (start + SBS_FRAME_BYTES)) (\<lambda>s.
      bindR (from_yuv420_sbs s) (\<lambda>frame.
      let max_gap_key = raw_key_due_for_max_gap frame_no (en_last_raw_frame_no st) (op_keyint options) in
      bindR (case en_previous_source st of
          None \<Rightarrow> Inr None
        | Some previous \<Rightarrow> bindR (source_scene_change_metrics frame previous) (\<lambda>m. Inr (Some m))) (\<lambda>scene_metrics.
      let scene_cut = (\<not> max_gap_key \<and> (case scene_metrics of Some m \<Rightarrow> scene_change_requires_keyframe m | None \<Rightarrow> False));
          scene_key_allowed = rolling_window_allows_keyframe (en_recent_frame_bytes st);
          is_key = (max_gap_key \<or> scene_cut \<and> scene_key_allowed);
          frame_start = length (en_stream st) in
      bindR (if is_key then
          (if frame_no \<noteq> 0 \<and> \<not> max_gap_key \<and> scene_metrics = None then Inl Fault
           else Inr (frame, encode_key frame_no frame st))
        else encode_p options input frame_count frame_no frame st) (\<lambda>(recon, st).
      let st = st\<lparr>en_recent_frame_bytes := en_recent_frame_bytes st @ [length (en_stream st) - frame_start]\<rparr> in
      bindR (if op_loopback options then loopback_check (en_stream st) recon else Inr ()) (\<lambda>_.
      Inr (st\<lparr>en_reference := Some recon, en_previous_source := Some frame\<rparr>)))))))"

definition encoder_start :: "nat \<Rightarrow> encoder_state" where
  "encoder_start frame_count =
     \<lparr>en_stream = write_file_header [] (of_nat frame_count), en_reference = None, en_previous_source = None,
      en_recent_frame_bytes = [], en_total = FrameStats_default, en_key_frames = 0, en_last_raw_frame_no = None\<rparr>"

definition frames_selected :: "options \<Rightarrow> byte list \<Rightarrow> nat" where
  "frames_selected options input =
     (let available_frames = length input div SBS_FRAME_BYTES in
      min (case op_frames options of Some n \<Rightarrow> n | None \<Rightarrow> available_frames) available_frames)"

definition encode_input :: "options \<Rightarrow> byte list \<Rightarrow> encoder_state result" where
  "encode_input options input =
     (if length input < SBS_FRAME_BYTES then Inl (Invalid ''input has fewer than one 800x240 yuv420 frame'')
      else
        let frame_count = frames_selected options input in
        if frame_count = 0 then Inl (Invalid ''no frames selected'')
        else forR (encode_frame options input frame_count) [0..<frame_count] (encoder_start frame_count))"

end
