(* ===== verification/O3_EncMainLaws.thy ===== *)
theory O3_EncMainLaws
  imports O3_EncMain
begin

text \<open>
  The encoder and the decoder together: whatever the input, the stream after
  every frame decodes to the reconstructions the encoder keeps, so the loopback
  check never fails; key frames show their source, and no run of
  \<open>--keyint\<close> frames is without one.
\<close>

section \<open>Growing a written stream\<close>

definition final_frame :: "sbs_frame \<Rightarrow> written list \<Rightarrow> sbs_frame" where
  "final_frame r ws = (if ws = [] then r else df_frame (last (shown_all r ws)))"

lemma length_shown_all [simp]: "length (shown_all r ws) = length ws"
  by (induction ws arbitrary: r) auto

lemma shown_all_Nil_iff [simp]: "shown_all r ws = [] \<longleftrightarrow> ws = []"
  by (cases ws) auto

lemma shown_all_append: "shown_all r (ws @ [w]) = shown_all r ws @ [shown (final_frame r ws) w]"
  by (induction ws arbitrary: r) (auto simp: final_frame_def)

lemma final_frame_append: "final_frame r (ws @ [w]) = df_frame (shown (final_frame r ws) w)"
  by (simp add: final_frame_def[of _ "ws @ [w]"] shown_all_append)

lemma stream_ok_append: "stream_ok has (ws @ [w]) \<longleftrightarrow> stream_ok has ws \<and> written_ok (has \<or> ws \<noteq> []) w"
  by (induction ws arbitrary: has) auto

lemma write_all_append [simp]: "write_all (ws @ [w]) = write_all ws @ write_written w"
  by (simp add: write_all_def)

fun is_key :: "written \<Rightarrow> bool" where
  "is_key (WKey no f) \<longleftrightarrow> True"
| "is_key (WP no left dl right dr) \<longleftrightarrow> False"

fun written_no :: "written \<Rightarrow> u32" where
  "written_no (WKey no f) = no"
| "written_no (WP no left dl right dr) = no"

lemma shown_fields: "df_frame_no (shown r w) = written_no w"
    "df_frame_type (shown r w) = FRAME_TYPE_KEY_RAW \<longleftrightarrow> is_key w"
  by (cases w; simp add: FRAME_TYPE_KEY_RAW_def FRAME_TYPE_P_def)+

section \<open>The input\<close>

definition source_frame :: "byte list \<Rightarrow> nat \<Rightarrow> sbs_frame" where
  "source_frame input i = split_frame (take SBS_FRAME_BYTES (drop (i * SBS_FRAME_BYTES) input))"

lemma source_frame_ok:
  assumes "(i + 1) * SBS_FRAME_BYTES \<le> length input"
  shows "bindR (slice_range input (i * SBS_FRAME_BYTES) (i * SBS_FRAME_BYTES + SBS_FRAME_BYTES)) (\<lambda>s. bindR (from_yuv420_sbs s) k) =
      k (source_frame input i)"
    and "wf_sbs (source_frame input i)"
proof -
  have len: "length (take SBS_FRAME_BYTES (drop (i * SBS_FRAME_BYTES) input)) = SBS_FRAME_BYTES" using assms by simp
  then show "bindR (slice_range input (i * SBS_FRAME_BYTES) (i * SBS_FRAME_BYTES + SBS_FRAME_BYTES)) (\<lambda>s. bindR (from_yuv420_sbs s) k) =
      k (source_frame input i)"
    using assms by (simp add: slice_range_def from_yuv420_sbs_ok source_frame_def)
  show "wf_sbs (source_frame input i)" unfolding source_frame_def by (rule wf_split_frame)
qed

section \<open>The invariant of the frame loop\<close>

definition stream_inv :: "options \<Rightarrow> byte list \<Rightarrow> nat \<Rightarrow> nat \<Rightarrow> encoder_state \<Rightarrow> written list \<Rightarrow> bool" where
  "stream_inv options input n k st ws \<longleftrightarrow> length ws = k \<and> stream_ok False ws \<and>
     en_stream st = write_file_header [] (of_nat n) @ write_all ws \<and> length (write_all ws) \<le> 14100062 * k \<and>
     en_recent_frame_bytes st = map (\<lambda>w. length (write_written w)) ws \<and>
     wf_sbs (final_frame SbsFrame_new ws) \<and>
     en_reference st = (if k = 0 then None else Some (final_frame SbsFrame_new ws)) \<and>
     en_previous_source st = (if k = 0 then None else Some (source_frame input (k - 1))) \<and>
     (case en_last_raw_frame_no st of None \<Rightarrow> k = 0 | Some j \<Rightarrow> j < k \<and> is_key (ws ! j)) \<and>
     (\<forall>i<k. written_no (ws ! i) = of_nat i \<and> (is_key (ws ! i) \<longrightarrow> ws ! i = WKey (of_nat i) (source_frame input i))) \<and>
     (\<forall>i<k. \<exists>j\<le>i. i - j < op_keyint options \<and> is_key (ws ! j)) \<and>
     en_key_frames st = length (filter is_key ws)"

lemma stream_inv_start: "stream_inv options input n 0 (encoder_start n) []"
  by (simp add: stream_inv_def encoder_start_def write_all_def final_frame_def)

lemma stream_decodes:
  assumes "stream_inv options input n k st ws" and "60 + 14100062 * k < 2 ^ 64"
  shows "decode_stream_with_metadata (en_stream st) = Inr (shown_all SbsFrame_new ws)"
proof -
  have "60 + length (write_all ws) < 2 ^ 64" using assms by (simp add: stream_inv_def)
  then show ?thesis using assms(1) decode_stream_written[of ws "of_nat n"] by (simp add: stream_inv_def)
qed

text \<open>The decoder in the loop never complains.\<close>

lemma loopback_passes:
  assumes "stream_inv options input n k st ws" and "60 + 14100062 * k < 2 ^ 64" and "0 < k"
  shows "loopback_check (en_stream st) (final_frame SbsFrame_new ws) = Inr ()"
proof -
  have "ws \<noteq> []" using assms(1,3) by (auto simp: stream_inv_def)
  then show ?thesis
    using stream_decodes[OF assms(1,2)] by (simp add: loopback_check_def decode_stream_def final_frame_def last_map)
qed

text \<open>Adding a written frame to the stream.\<close>

lemma stream_inv_add:
  assumes inv: "stream_inv options input n k st ws" and ok: "written_ok (0 < k) w" and no: "written_no w = of_nat k"
    and key: "is_key w \<Longrightarrow> w = WKey (of_nat k) (source_frame input k)"
    and bytes: "length (write_written w) \<le> 14100062" and recon: "df_frame (shown (final_frame SbsFrame_new ws) w) = recon" "wf_sbs recon"
    and stream: "en_stream st' = en_stream st @ write_written w"
    and recent: "en_recent_frame_bytes st' = en_recent_frame_bytes st @ [length (write_written w)]"
    and raw: "en_last_raw_frame_no st' = (if is_key w then Some k else en_last_raw_frame_no st)"
    and keys: "en_key_frames st' = en_key_frames st + (if is_key w then 1 else 0)"
    and gap: "\<exists>j\<le>k. k - j < op_keyint options \<and> is_key ((ws @ [w]) ! j)"
    and refs: "en_reference st' = Some recon" "en_previous_source st' = Some (source_frame input k)"
  shows "stream_inv options input n (Suc k) st' (ws @ [w])"
proof -
  note keep = inv[unfolded stream_inv_def]
  have len: "length ws = k" using keep by blast
  have ne: "ws \<noteq> [] \<longleftrightarrow> 0 < k" using len by auto
  have old: "(ws @ [w]) ! i = ws ! i" if "i < k" for i using that len by (simp add: nth_append)
  have new: "(ws @ [w]) ! k = w" using len by (simp add: nth_append)
  have gaps: "\<exists>j\<le>i. i - j < op_keyint options \<and> is_key ((ws @ [w]) ! j)" if "i < Suc k" for i
  proof (cases "i = k")
    case False
    with that have i: "i < k" by simp
    with keep obtain j where "j \<le> i" "i - j < op_keyint options" "is_key (ws ! j)" by blast
    with i old show ?thesis by (intro exI[of _ j]) simp
  qed (use gap in simp)
  show ?thesis
    unfolding stream_inv_def
    using keep ok no key bytes recon stream recent raw keys refs gaps ne len new
    by (auto simp: stream_ok_append final_frame_append less_Suc_eq old split: option.splits)
qed

section \<open>One frame\<close>

lemma reserve_returns:
  assumes "n * SBS_FRAME_BYTES \<le> length input" and "wf_sbs frame"
  shows "returns (next_frame_needs_raw_reserve k n last_raw keyint input frame)"
proof (cases "Suc k < n")
  case True
  then have l: "(k + 1 + 1) * SBS_FRAME_BYTES \<le> length input"
    using assms(1) mult_le_mono1[of "k + 1 + 1" n SBS_FRAME_BYTES] by linarith
  have m: "returns (source_scene_change_metrics (source_frame input (k + 1)) frame)"
    using okR_mono[OF scene_metrics_ok[OF source_frame_ok(2)[OF l] assms(2)]] by simp
  show ?thesis
    unfolding next_frame_needs_raw_reserve_def Let_def source_frame_ok(1)[OF l]
    by (intro okR_if okR_bind[OF m]) simp_all
qed (simp add: next_frame_needs_raw_reserve_def)

lemma encode_p_ok:
  assumes inv: "stream_inv options input n k st ws" and k: "0 < k" "n * SBS_FRAME_BYTES \<le> length input" and wf: "wf_sbs frame"
  shows "okR (\<lambda>(recon, st'). \<exists>w. \<not> is_key w \<and> written_ok True w \<and> written_no w = of_nat k \<and> length (write_written w) \<le> 14100062 \<and>
      df_frame (shown (final_frame SbsFrame_new ws) w) = recon \<and> wf_sbs recon \<and>
      (\<exists>tot. st' = st\<lparr>en_total := tot, en_stream := en_stream st @ write_written w\<rparr>))
    (encode_p options input n k frame st)"
proof -
  let ?r = "final_frame SbsFrame_new ws"
  have r: "en_reference st = Some ?r" "wf_sbs ?r" using inv k(1) by (simp_all add: stream_inv_def)
  obtain reserve where rs: "next_frame_needs_raw_reserve k n (en_last_raw_frame_no st) (op_keyint options) input frame = Inr reserve"
    using reserve_returns[OF k(2) wf] unfolding returns_iff by blast
  show ?thesis
    unfolding encode_p_def r(1) option.case bindR_simps rs
  proof (rule okR_bind[OF encode_budgeted_p_frame_ok[OF wf r(2)]])
    fix c assume "(\<exists>mode. candidate_done (of_nat k) frame ?r mode c) \<and>
      (okR (in_budget (op_max_p_frame_bytes options) (en_recent_frame_bytes st)) (encode_p_frame_candidate (of_nat k) frame ?r (op_row_bands options) Lossless) \<longrightarrow>
        encode_p_frame_candidate (of_nat k) frame ?r (op_row_bands options) Lossless = Inr c) \<and>
      ((\<forall>b\<in>set (en_recent_frame_bytes st). b \<le> KEY_RAW_CODED_BYTES) \<longrightarrow>
        budget_outcome (encode_p_frame_candidate (of_nat k) frame ?r (op_row_bands options)) (op_max_p_frame_bytes options) (en_recent_frame_bytes st) c)"
    then obtain mode where c: "candidate_done (of_nat k) frame ?r mode c" by blast
    then obtain left dl right dr where w: "pc_bytes c = write_written (WP (of_nat k) left dl right dr)"
      "written_ok True (WP (of_nat k) left dl right dr)" "df_frame (shown ?r (WP (of_nat k) left dl right dr)) = pc_recon c"
      by (auto simp: candidate_done_def p_written_def)
    show "okR (\<lambda>(recon, st'). \<exists>w. \<not> is_key w \<and> written_ok True w \<and> written_no w = of_nat k \<and> length (write_written w) \<le> 14100062 \<and>
        df_frame (shown ?r w) = recon \<and> wf_sbs recon \<and>
        (\<exists>tot. st' = st\<lparr>en_total := tot, en_stream := en_stream st @ write_written w\<rparr>))
      (let tot = add_stats (en_total st) (pc_stats c);
           tot = tot\<lparr>fs_p_frame_bytes := fs_p_frame_bytes tot + fs_p_frame_bytes (pc_stats c)\<rparr>
       in Inr (pc_recon c, st\<lparr>en_total := tot, en_stream := en_stream st @ pc_bytes c\<rparr>))"
      using c w by (auto simp: Let_def candidate_done_def intro!: exI[of _ "WP (of_nat k) left dl right dr"])
  qed
qed

theorem encode_frame_ok:
  assumes inv: "stream_inv options input n k st ws" and k: "k < n" "n * SBS_FRAME_BYTES \<le> length input"
    and opts: "0 < op_keyint options" and small: "60 + 14100062 * n < 2 ^ 64"
  shows "okR (\<lambda>st'. \<exists>ws'. stream_inv options input n (Suc k) st' ws') (encode_frame options input n k st)"
proof -
  let ?f = "source_frame input k" and ?r = "final_frame SbsFrame_new ws"
  note keep = inv[unfolded stream_inv_def]
  have len: "length ws = k" using keep by blast
  have len': "(k + 1) * SBS_FRAME_BYTES \<le> length input"
    using k mult_le_mono1[of "k + 1" n SBS_FRAME_BYTES] by linarith
  note src = source_frame_ok[OF len']
  have wfs: "wf_sbs (source_frame input (k - 1))" unfolding source_frame_def by (rule wf_split_frame)
  obtain m where m: "(case en_previous_source st of None \<Rightarrow> Inr None
      | Some previous \<Rightarrow> bindR (source_scene_change_metrics ?f previous) (\<lambda>m. Inr (Some m))) = Inr m" "0 < k \<longrightarrow> m \<noteq> None"
    using keep scene_metrics_ok[OF src(2) wfs] by (cases "k = 0") (auto simp: okR_def)
  define due where "due = raw_key_due_for_max_gap k (en_last_raw_frame_no st) (op_keyint options)"
  have due0: "due" if "k = 0" using keep that by (auto simp: due_def raw_key_due_for_max_gap_def split: option.splits)
  define st2 :: "encoder_state \<Rightarrow> encoder_state" where "st2 st' = st'\<lparr>en_recent_frame_bytes := en_recent_frame_bytes st' @ [length (en_stream st') - length (en_stream st)]\<rparr>" for st'
  have fin: "okR (\<lambda>st'. \<exists>ws'. stream_inv options input n (Suc k) st' ws')
      (bindR (if op_loopback options then loopback_check (en_stream (st2 st')) recon else Inr ())
        (\<lambda>_. Inr ((st2 st')\<lparr>en_reference := Some recon, en_previous_source := Some ?f\<rparr>)))"
    if i: "stream_inv options input n (Suc k) ((st2 st')\<lparr>en_reference := Some recon, en_previous_source := Some ?f\<rparr>) (ws @ [w])" for st' :: encoder_state and recon w
  proof -
    have "final_frame SbsFrame_new (ws @ [w]) = recon" using i by (auto simp: stream_inv_def)
    moreover have "60 + 14100062 * Suc k < 2 ^ 64" using small k(1) by (meson add_le_cancel_left le_less_trans mult_le_mono2 Suc_leI)
    ultimately have "loopback_check (en_stream (st2 st')) recon = Inr ()"
      using loopback_passes[OF i, of] by simp
    with i show ?thesis by auto
  qed
  have step: "okR (\<lambda>st'. \<exists>ws'. stream_inv options input n (Suc k) st' ws')
    (bindR (if b then (if k \<noteq> 0 \<and> \<not> due \<and> m = None then Inl Fault else Inr (?f, encode_key k ?f st))
        else encode_p options input n k ?f st) (\<lambda>(recon, st').
      bindR (if op_loopback options then loopback_check (en_stream (st2 st')) recon else Inr ())
        (\<lambda>_. Inr ((st2 st')\<lparr>en_reference := Some recon, en_previous_source := Some ?f\<rparr>))))"
    if b: "due \<longrightarrow> b" for b
  proof (cases b)
    case True
    have ww: "length (write_written (WKey (of_nat k) ?f)) = 28 + SBS_FRAME_BYTES"
      using length_write_written[of False "WKey (of_nat k) ?f"] src(2) by simp
    have stream: "write_key_raw_frame (en_stream st) (of_nat k) ?f = en_stream st @ write_written (WKey (of_nat k) ?f)"
      using write_key_raw_frame_append[of "en_stream st"] by simp
    have "stream_inv options input n (Suc k) ((st2 (encode_key k ?f st))\<lparr>en_reference := Some ?f, en_previous_source := Some ?f\<rparr>)
        (ws @ [WKey (of_nat k) ?f])"
    proof (rule stream_inv_add[OF inv, where recon = ?f])
      show "\<exists>j\<le>k. k - j < op_keyint options \<and> is_key ((ws @ [WKey (of_nat k) ?f]) ! j)"
        using len opts by (intro exI[of _ k]) (simp add: nth_append)
    qed (use src(2) ww stream in \<open>simp_all add: st2_def encode_key_def geom\<close>)
    from fin[OF this] show ?thesis using True m(2) by auto
  next
    case False
    then have nd: "\<not> due" using b by blast
    with due0 have k0: "0 < k" by blast
    obtain j where j: "en_last_raw_frame_no st = Some j" "j < k" "is_key (ws ! j)"
      using keep k0 by (auto split: option.splits)
    then have near: "k - j < op_keyint options" using nd by (simp add: due_def raw_key_due_for_max_gap_def)
    show ?thesis
      unfolding if_not_P[OF False]
    proof (rule okR_bind[OF encode_p_ok[OF inv k0 k(2) src(2)]])
      fix x :: "sbs_frame \<times> encoder_state" assume "case x of (recon, st') \<Rightarrow> \<exists>w. \<not> is_key w \<and> written_ok True w \<and> written_no w = of_nat k \<and>
        length (write_written w) \<le> 14100062 \<and> df_frame (shown ?r w) = recon \<and> wf_sbs recon \<and>
        (\<exists>tot. st' = st\<lparr>en_total := tot, en_stream := en_stream st @ write_written w\<rparr>)"
      then obtain recon st' w tot where x: "x = (recon, st')" and w: "\<not> is_key w" "written_ok True w" "written_no w = of_nat k"
        "length (write_written w) \<le> 14100062" "df_frame (shown ?r w) = recon" "wf_sbs recon"
        "st' = st\<lparr>en_total := tot, en_stream := en_stream st @ write_written w\<rparr>" by (cases x) auto
      have "stream_inv options input n (Suc k) ((st2 st')\<lparr>en_reference := Some recon, en_previous_source := Some ?f\<rparr>) (ws @ [w])"
      proof (rule stream_inv_add[OF inv, where recon = recon])
        show "\<exists>j\<le>k. k - j < op_keyint options \<and> is_key ((ws @ [w]) ! j)"
          using j near len by (intro exI[of _ j]) (simp add: nth_append)
      qed (use w k0 in \<open>simp_all add: st2_def\<close>)
      from fin[OF this] show "okR (\<lambda>st'. \<exists>ws'. stream_inv options input n (Suc k) st' ws')
        (case x of (recon, st') \<Rightarrow> bindR (if op_loopback options then loopback_check (en_stream (st2 st')) recon else Inr ())
          (\<lambda>_. Inr ((st2 st')\<lparr>en_reference := Some recon, en_previous_source := Some ?f\<rparr>)))"
        by (simp add: x)
    qed
  qed
  show ?thesis
    unfolding encode_frame_def Let_def src(1) due_def[symmetric] m(1) bindR_simps st2_def[symmetric]
    by (rule step) blast
qed

section \<open>The whole program\<close>

lemma shown_all_nth:
  assumes "i < length ws"
  shows "\<exists>r'. shown_all r ws ! i = shown r' (ws ! i)"
  using assms
proof (induction ws arbitrary: r i)
  case (Cons w ws)
  then show ?case by (cases i) auto
qed simp

lemma frames_selected_fits: "frames_selected options input * SBS_FRAME_BYTES \<le> length input"
proof -
  have "frames_selected options input \<le> length input div SBS_FRAME_BYTES" by (simp add: frames_selected_def Let_def)
  then show ?thesis by (metis div_times_less_eq_dividend le_trans mult_le_mono1)
qed

lemma frames_selected_pos: "SBS_FRAME_BYTES \<le> length input \<Longrightarrow> op_frames options \<noteq> Some 0 \<Longrightarrow> 0 < frames_selected options input"
  by (cases "op_frames options") (auto simp: frames_selected_def Let_def geom div_greater_zero_iff)

theorem encode_input_ok:
  assumes "SBS_FRAME_BYTES \<le> length input" and "op_frames options \<noteq> Some 0" and "0 < op_keyint options"
    and "60 + 14100062 * frames_selected options input < 2 ^ 64"
  shows "okR (\<lambda>st. \<exists>ws. stream_inv options input (frames_selected options input) (frames_selected options input) st ws)
    (encode_input options input)"
proof -
  let ?n = "frames_selected options input"
  have "okR (\<lambda>st. \<exists>ws. stream_inv options input ?n ?n st ws)
      (forR (encode_frame options input ?n) [0..<?n] (encoder_start ?n))"
  proof (rule okR_forR_upt[where I = "\<lambda>k st. \<exists>ws. stream_inv options input ?n k st ws"])
    show "okR (\<lambda>st. \<exists>ws. stream_inv options input ?n (Suc k) st ws) (encode_frame options input ?n k st)"
      if "k < ?n" "\<exists>ws. stream_inv options input ?n k st ws" for k st
      using that encode_frame_ok[OF _ that(1) frames_selected_fits assms(3,4)] by blast
  qed (use stream_inv_start in auto)
  then show ?thesis
    using assms(1) frames_selected_pos[OF assms(1,2)] by (simp add: encode_input_def Let_def)
qed

text \<open>The frames a decoder shows of the finished stream.\<close>

definition closed_loop :: "options \<Rightarrow> byte list \<Rightarrow> encoder_state \<Rightarrow> decoded_frame list \<Rightarrow> bool" where
  "closed_loop options input st ds \<longleftrightarrow> decode_stream_with_metadata (en_stream st) = Inr ds \<and>
     length ds = frames_selected options input \<and> en_reference st = Some (df_frame (last ds)) \<and>
     (\<forall>i<length ds. df_frame_no (ds ! i) = of_nat i \<and>
        (df_frame_type (ds ! i) = FRAME_TYPE_KEY_RAW \<longrightarrow> df_frame (ds ! i) = source_frame input i)) \<and>
     (\<forall>i<length ds. \<exists>j\<le>i. i - j < op_keyint options \<and> df_frame_type (ds ! j) = FRAME_TYPE_KEY_RAW) \<and>
     en_key_frames st = length (filter (\<lambda>d. df_frame_type d = FRAME_TYPE_KEY_RAW) ds)"

lemma filter_shown_all: "length (filter (\<lambda>d. df_frame_type d = FRAME_TYPE_KEY_RAW) (shown_all r ws)) = length (filter is_key ws)"
  by (induction ws arbitrary: r) (auto simp: shown_fields)

theorem encode_input_closed_loop:
  assumes "SBS_FRAME_BYTES \<le> length input" and "op_frames options \<noteq> Some 0" and "0 < op_keyint options"
    and "60 + 14100062 * frames_selected options input < 2 ^ 64"
  shows "okR (\<lambda>st. \<exists>ds. closed_loop options input st ds) (encode_input options input)"
proof (rule okR_mono[OF encode_input_ok[OF assms]])
  let ?n = "frames_selected options input"
  fix st assume "\<exists>ws. stream_inv options input ?n ?n st ws"
  then obtain ws where inv: "stream_inv options input ?n ?n st ws" by blast
  note keep = inv[unfolded stream_inv_def]
  have len: "length ws = ?n" using keep by blast
  have pos: "0 < ?n" using frames_selected_pos[OF assms(1,2)] .
  let ?ds = "shown_all SbsFrame_new ws"
  have nth: "df_frame_no (?ds ! i) = written_no (ws ! i)" "df_frame_type (?ds ! i) = FRAME_TYPE_KEY_RAW \<longleftrightarrow> is_key (ws ! i)"
    "ws ! i = WKey no f \<Longrightarrow> df_frame (?ds ! i) = f" if "i < ?n" for i no f
    using shown_all_nth[of i ws SbsFrame_new] that len by (auto simp: shown_fields)
  have "closed_loop options input st ?ds"
    unfolding closed_loop_def
  proof (intro conjI allI impI)
    show "decode_stream_with_metadata (en_stream st) = Inr ?ds" by (rule stream_decodes[OF inv assms(4)])
    show "length ?ds = ?n" by (simp add: len)
    have "ws \<noteq> []" using len pos by auto
    then show "en_reference st = Some (df_frame (last ?ds))" using keep pos by (simp add: final_frame_def)
    show "en_key_frames st = length (filter (\<lambda>d. df_frame_type d = FRAME_TYPE_KEY_RAW) ?ds)"
      using keep by (simp add: filter_shown_all)
    fix i assume i: "i < length ?ds"
    then have i': "i < ?n" by (simp add: len)
    show "df_frame_no (?ds ! i) = of_nat i" using keep i' nth(1) by simp
    show "df_frame (?ds ! i) = source_frame input i" if "df_frame_type (?ds ! i) = FRAME_TYPE_KEY_RAW"
      using keep i' nth that by blast
    obtain j where j: "j \<le> i" "i - j < op_keyint options" "is_key (ws ! j)" using keep i' by blast
    then show "\<exists>j\<le>i. i - j < op_keyint options \<and> df_frame_type (?ds ! j) = FRAME_TYPE_KEY_RAW"
      using nth(2)[of j] i' by auto
  qed
  then show "\<exists>ds. closed_loop options input st ds" by blast
qed

section \<open>The command line\<close>

lemma if_neq: "(b \<Longrightarrow> x \<noteq> z) \<Longrightarrow> (\<not> b \<Longrightarrow> y \<noteq> z) \<Longrightarrow> (if b then x else y) \<noteq> z"
  by simp

lemma arg_loop_no_fault: "arg_loop args st \<noteq> Inl Fault"
proof (induction args st rule: arg_loop.induct)
  case (2 arg args st)
  have pd: "parse_usize s \<noteq> Inl Fault" for s
    by (auto simp: parse_usize_def Let_def split: option.splits)
  have nv: "needs_value m args \<noteq> Inl Fault" for m
    by (auto simp: needs_value_def pd split: option.splits)
  have b: "bindR (needs_value m args) k \<noteq> Inl Fault" if "\<And>n. needs_value m args = Inr n \<Longrightarrow> k n \<noteq> Inl Fault" for m and k :: "nat \<Rightarrow> arg_state option result"
    using that nv[of m] by (cases "needs_value m args") auto
  show ?case
    unfolding arg_loop.simps by (intro if_neq b; (rule 2; assumption)?) simp_all
qed simp

text \<open>Options that are accepted are usable: the gap between key frames is positive.\<close>

theorem parse_args_ok:
  "parse_args args \<noteq> Inl Fault \<and> (\<forall>options. parse_args args = Inr (Some options) \<longrightarrow> 0 < op_keyint options)"
  using arg_loop_no_fault[of args arg_start]
  by (cases "arg_loop args arg_start") (auto simp: parse_args_def split: option.splits if_splits)

end
