(* ===== verification/O3_EncDecode.thy ===== *)
theory O3_EncDecode
  imports O3_EncMainLaws
begin

text \<open>
  The encoder's contracts in the decoder's own terms: what a residual, a chosen
  macroblock or a P-frame decodes to by \<open>apply_mb_residual\<close>, \<open>decode_one_mb\<close>
  and \<open>decode_next_frame\<close>, and what the statistics count there.
\<close>

section \<open>Residuals\<close>

lemma residual_codes_decodes:
  assumes "residual_codes bytes bs" and "wf_eye e" and "mb < MB_COUNT"
  shows "apply_mb_residual e mb (reader_new bytes) = Inr (put_mb_blks mb bs e, adv (length bytes) (reader_new bytes))"
  using assms by (simp add: apply_mb_residual_ok residual_codes_def)

lemma remaining_end [simp]: "remaining (adv (length bytes) (reader_new bytes)) = 0"
  by (simp add: remaining_eq_0_iff)

lemma lossless_residual_decodes:
  assumes "wf_eye src" and "wf_eye pred" and "mb < MB_COUNT"
  shows "okR (\<lambda>out. case out of
      None \<Rightarrow> agree {mb} pred src
    | Some bytes \<Rightarrow> \<exists>e r. apply_mb_residual pred mb (reader_new bytes) = Inr (e, r) \<and> remaining r = 0 \<and> agree {mb} e src)
    (build_lossless_residual src pred mb)"
  by (rule okR_mono[OF build_lossless_residual_ok[OF assms]])
    (auto simp: residual_codes_decodes[OF _ assms(2,3)] split: option.splits)

lemma lossy_residual_decodes:
  assumes "wf_eye src" and "wf_eye pred" and "mb < MB_COUNT"
  shows "okR (\<lambda>res. \<exists>e r. apply_mb_residual pred mb (reader_new (lr_bytes res)) = Inr (e, r) \<and> remaining r = 0 \<and>
      read_raw_mb e mb [] = Inr (lr_recon res) \<and> lr_distortion res = mb_sse mb src e \<and>
      lr_stats res = residual_stats (lr_bytes res))
    (build_lossy_residual src pred mb q_step threshold)"
proof (rule okR_mono[OF build_lossy_residual_ok[OF assms]])
  fix res :: lossy_residual
  assume "\<exists>bs. residual_codes (lr_bytes res) bs \<and> lr_recon res = raw_bytes (put_mb_blks mb bs pred) mb \<and>
    lr_distortion res = mb_sse mb src (put_mb_blks mb bs pred) \<and> lr_stats res = count_blks bs"
  then obtain bs where bs: "residual_codes (lr_bytes res) bs" "lr_recon res = raw_bytes (put_mb_blks mb bs pred) mb"
    "lr_distortion res = mb_sse mb src (put_mb_blks mb bs pred)" "lr_stats res = count_blks bs" by blast
  have "wf_eye (put_mb_blks mb bs pred)" using assms(2) by simp
  then show "\<exists>e r. apply_mb_residual pred mb (reader_new (lr_bytes res)) = Inr (e, r) \<and> remaining r = 0 \<and>
      read_raw_mb e mb [] = Inr (lr_recon res) \<and> lr_distortion res = mb_sse mb src e \<and> lr_stats res = residual_stats (lr_bytes res)"
    using bs residual_codes_decodes[OF bs(1) assms(2,3)] assms(3)
    by (simp add: read_raw_mb_ok) (simp add: residual_codes_def)
qed

section \<open>Macroblocks\<close>

text \<open>
  The bytes \<open>write_choice\<close> puts on the three streams, decoded on the frame the
  encoder had, give the frame the encoder goes on with.
\<close>

definition choice_decodes :: "eye_frame \<Rightarrow> eye_frame \<Rightarrow> eye_frame \<Rightarrow> nat \<Rightarrow> encode_mode \<Rightarrow> mb_choice \<Rightarrow> bool" where
  "choice_decodes src reference pre mb mode c \<longleftrightarrow> (\<exists>op ms rs ws mr rr rw e.
     write_choice ([], [], []) c = (op # ms, rs, ws) \<and> op AND 0xf0 = 0x80 \<and>
     decode_one_mb (op AND 0x0f) mb Prefilled (reader_new ms, reader_new rs, reader_new ws) reference pre = Inr ((mr, rr, rw), e) \<and>
     remaining mr = 0 \<and> remaining rr = 0 \<and> remaining rw = 0 \<and>
     apply_choice_to_recon pre mb c = Inr e \<and> agree (- {mb}) e pre \<and> mc_distortion c = mb_sse mb src e \<and>
     (mode = Lossless \<longrightarrow> agree {mb} e src))"

lemma choice_ok_decodes:
  assumes "choice_ok src reference pre mb mode c d" and "wf_eye reference" and "wf_eye pre" and "mb < MB_COUNT"
  shows "choice_decodes src reference pre mb mode c"
proof -
  let ?e = "put_mb Prefilled reference mb d pre"
  note c = assms(1)[unfolded choice_ok_def]
  have "mc_mode c < 16" using c by (simp add: pred_parses_def)
  note opc = mode_opcode[OF this]
  have p: "parse_one_mb (mc_mode c) (reader_new (put_mvs (mc_mvs c)), reader_new (mc_residual c), reader_new (mc_raw c)) =
      Inr (d, adv (2 * length (mc_mvs c)) (reader_new (put_mvs (mc_mvs c))), adv (length (mc_residual c)) (reader_new (mc_residual c)),
        adv (length (mc_raw c)) (reader_new (mc_raw c)))"
    by (rule choice_parses[OF assms(1), of _ "[]" _ "[]" _ "[]"]) simp_all
  have dec: "decode_one_mb (mc_mode c) mb Prefilled (reader_new (put_mvs (mc_mvs c)), reader_new (mc_residual c), reader_new (mc_raw c)) reference pre =
      Inr ((adv (2 * length (mc_mvs c)) (reader_new (put_mvs (mc_mvs c))), adv (length (mc_residual c)) (reader_new (mc_residual c)),
        adv (length (mc_raw c)) (reader_new (mc_raw c))), ?e)"
    by (simp add: decode_one_mb_ok[OF assms(2-4)] p)
  have end2: "remaining (adv (2 * length (mc_mvs c)) (reader_new (put_mvs (mc_mvs c)))) = 0" by (simp add: remaining_eq_0_iff)
  have "agree {mb} ?e src" if "mode = Lossless"
    using c that agree_iff_raw_bytes[OF assms(4), of ?e src] by metis
  moreover have "agree (- {mb}) ?e pre" using c assms(3,4) by (intro agree_put_mb_outside) auto
  ultimately show ?thesis
    unfolding choice_decodes_def write_choice_eq append_Nil
    using opc(3,4) dec end2 c apply_choice_ok[OF assms(1,3,4)]
    by (intro exI[of _ "0x80 OR mc_mode c"] exI[of _ "put_mvs (mc_mvs c)"] exI[of _ "mc_residual c"] exI[of _ "mc_raw c"]) auto
qed

section \<open>The inverse transform\<close>

lemma encoder_idct:
  assumes "length pv = 16"
  shows "add_idct_block pv 4 0 coeffs = Inr (idct_reconstruct_block pv coeffs)"
proof -
  have f: "fits 4 0 0 pv" using assms by (simp add: fits_def)
  have bf: "blk_fits pv 4 0" using fits_blk_fits[OF f] by simp
  have pos: "blk_pos 4 0 0 k = k" for k by (simp add: blk_pos_def)
  have s: "samples 4 0 0 pv = pv" using assms by (intro nth_equalityI) (simp_all add: samples_def pos)
  have "put_blk 4 (0 * 4 + 0) (blk_fn (IdctBlk coeffs)) pv = blk_values (IdctBlk coeffs) pv"
    by (rule put_blk_eqI[OF f]) (auto simp: pos assms blk_values_def)
  then show ?thesis by (simp add: add_idct_block_ok[OF bf] idct_reconstruct_block_eq[OF assms])
qed

section \<open>Skip runs and segment maps\<close>

lemma flush_skip_bytes:
  "\<exists>runs. flush_skip ms k = (ms @ map of_nat runs, 0) \<and> sum_list runs = k \<and> (\<forall>r\<in>set runs. 0 < r \<and> r \<le> 127)"
proof (induction ms k rule: flush_skip.induct)
  case (1 ms k)
  show ?case
  proof (cases "k > 0")
    case True
    from 1[OF True refl] obtain runs where "flush_skip (ms @ [of_nat (min k 127)]) (k - min k 127) = ((ms @ [of_nat (min k 127)]) @ map of_nat runs, 0)"
      "sum_list runs = k - min k 127" "\<forall>r\<in>set runs. 0 < r \<and> r \<le> 127" by auto
    then show ?thesis
      using True by (intro exI[of _ "min k 127 # runs"]) (simp add: flush_skip.simps[of ms k] Let_def)
  qed (intro exI[of _ "[]"], simp add: flush_skip.simps[of ms 0])
qed

lemma segment_map_valid:
  assumes "\<forall>s\<in>set ids. s < 4"
  shows "validate_segment_map (build_segment_map ids) 4 (length ids) = Inr ()"
    and "\<exists>runs. build_segment_map ids = seg_bytes runs \<and> expand_runs runs = ids"
proof -
  obtain runs where runs: "build_segment_map ids = seg_bytes runs" "expand_runs runs = ids" using build_segment_map_ok by blast
  then show "\<exists>runs. build_segment_map ids = seg_bytes runs \<and> expand_runs runs = ids" by blast
  show "validate_segment_map (build_segment_map ids) 4 (length ids) = Inr ()"
    using assms runs length_expand_runs[of runs] set_expand_runs[of runs]
    by (auto simp: validate_segment_map_iff intro!: exI[of _ runs])
qed

section \<open>P-frames\<close>

lemma candidate_decodes:
  assumes "okR (candidate_done no frame reference mode) m" and "wf_sbs reference"
  shows "\<exists>c. m = Inr c \<and> (mode = Lossless \<longrightarrow> pc_recon c = frame) \<and>
    (\<forall>current. wf_sbs current \<longrightarrow> (\<exists>r st'.
      decode_next_frame (reader_new (pc_bytes c)) \<lparr>ds_reference = reference, ds_current = current, ds_has_reference = True\<rparr> =
        Inr (Some \<lparr>df_frame_no = no, df_frame_type = FRAME_TYPE_P, df_frame = pc_recon c\<rparr>, r, st') \<and>
      remaining r = 0 \<and> ds_reference st' = pc_recon c))"
proof -
  obtain c where m: "m = Inr c" and c: "candidate_done no frame reference mode c" using assms(1) by (auto simp: okR_def)
  then obtain left dl right dr where w: "pc_bytes c = write_written (WP no left dl right dr)"
    "written_ok True (WP no left dl right dr)" "df_frame (shown reference (WP no left dl right dr)) = pc_recon c"
    by (auto simp: candidate_done_def p_written_def)
  let ?w = "WP no left dl right dr"
  have sh: "shown reference ?w = \<lparr>df_frame_no = no, df_frame_type = FRAME_TYPE_P, df_frame = pc_recon c\<rparr>"
    using w(3) by simp
  have len: "written_bytes ?w = length (pc_bytes c)" "length (pc_bytes c) \<le> 14100062"
    using w(1) length_write_written[OF w(2)] c by (simp_all add: candidate_done_def)
  have "\<exists>r st'. decode_next_frame (reader_new (pc_bytes c)) \<lparr>ds_reference = reference, ds_current = current, ds_has_reference = True\<rparr> =
        Inr (Some \<lparr>df_frame_no = no, df_frame_type = FRAME_TYPE_P, df_frame = pc_recon c\<rparr>, r, st') \<and>
      remaining r = 0 \<and> ds_reference st' = pc_recon c" if "wf_sbs current" for current
  proof -
    let ?st = "\<lparr>ds_reference = reference, ds_current = current, ds_has_reference = True\<rparr>"
    have "wf_state ?st" using that assms(2) by (simp add: wf_state_def)
    moreover have "rest (reader_new (pc_bytes c)) = write_written ?w @ []" using w(1) by simp
    moreover have "rd_pos (reader_new (pc_bytes c)) + written_bytes ?w < 2 ^ 64" using len by (simp add: reader_new_def)
    ultimately obtain st' where "decode_next_frame (reader_new (pc_bytes c)) ?st =
        Inr (Some (shown reference ?w), adv (written_bytes ?w) (reader_new (pc_bytes c)), st')" "ds_reference st' = df_frame (shown reference ?w)"
      using decode_written[of ?st ?w "reader_new (pc_bytes c)" "[]"] w(2) by auto
    then show ?thesis unfolding sh len(1) by (intro exI conjI) (assumption, simp_all)
  qed
  with c m show ?thesis by (auto simp: candidate_done_def)
qed

lemma count_blks_ac: "rs_ac_mask_blocks (count_blks bs) = rs_full_idct_blocks (count_blks bs)"
proof -
  have "rs_ac_mask_blocks (fold (\<lambda>p. count_blk (Some (snd p))) bs st) + rs_full_idct_blocks st =
      rs_full_idct_blocks (fold (\<lambda>p. count_blk (Some (snd p))) bs st) + rs_ac_mask_blocks st" for st
  proof (induction bs arbitrary: st)
    case (Cons b bs)
    have "rs_ac_mask_blocks (count_blk (Some (snd b)) st) + rs_full_idct_blocks st =
        rs_full_idct_blocks (count_blk (Some (snd b)) st) + rs_ac_mask_blocks st" by (cases "snd b") simp_all
    with Cons[of "count_blk (Some (snd b)) st"] show ?case by simp
  qed simp
  from this[of ResidualStats_default] show ?thesis by (simp add: count_blks_def ResidualStats_default_def)
qed

lemma blk_total_ac: "blk_total rs_ac_mask_blocks ds = blk_total rs_full_idct_blocks ds"
  by (simp add: blk_total_def count_blks_ac)

definition counts_parsed :: "frame_stats \<Rightarrow> mb_desc list \<Rightarrow> bool" where
  "counts_parsed stats ds \<longleftrightarrow> length ds = 2 * MB_COUNT \<and> mb_total stats = 2 * MB_COUNT \<and> fs_raw_mb stats = raw_count ds \<and>
     fs_skip_mb stats + fs_base_res_mb stats = base_count ds \<and>
     fs_raw_4x4_blocks stats = blk_total rs_raw_4x4_blocks ds \<and> fs_dc_only_blocks stats = blk_total rs_dc_only_blocks ds \<and>
     fs_ac_mask_blocks stats = blk_total rs_full_idct_blocks ds \<and> fs_full_idct_blocks stats = blk_total rs_full_idct_blocks ds"

lemma candidate_statistics:
  assumes "okR (candidate_done no frame reference mode) m"
  shows "\<exists>c left dl right dr. m = Inr c \<and> pc_bytes c = write_p_frame [] no left right \<and>
    parse_tiles (p_payload left right) = Inr (tile_to_ast left dl, tile_to_ast right dr) \<and>
    counts_parsed (pc_stats c) (concat dl @ concat dr) \<and> fs_p_frame_bytes (pc_stats c) = length (pc_bytes c)"
proof -
  obtain c where m: "m = Inr c" and c: "candidate_done no frame reference mode c" using assms(1) by (auto simp: okR_def)
  from c obtain left dl right dr where w: "pc_bytes c = write_written (WP no left dl right dr)" "written_ok True (WP no left dl right dr)"
    "length (concat dl @ concat dr) = 2 * MB_COUNT" "accounts FrameStats_default (concat dl @ concat dr) (pc_stats c)"
    by (auto simp: candidate_done_def p_written_def)
  then have "counts_parsed (pc_stats c) (concat dl @ concat dr)"
    by (simp add: counts_parsed_def accounts_def FrameStats_default_def mb_total_def blk_total_ac)
  with m c w show ?thesis
    by (intro exI[of _ c] exI[of _ left] exI[of _ dl] exI[of _ right] exI[of _ dr])
      (simp add: parse_tiles_written candidate_done_def)
qed

section \<open>The program\<close>

lemma source_frame_split:
  assumes "i < frames_selected options input"
  shows "from_yuv420_sbs (take SBS_FRAME_BYTES (drop (i * SBS_FRAME_BYTES) input)) = Inr (source_frame input i)"
proof -
  have "(i + 1) * SBS_FRAME_BYTES \<le> length input"
    using assms frames_selected_fits[of options input] mult_le_mono1[of "i + 1" "frames_selected options input" SBS_FRAME_BYTES] by linarith
  then show ?thesis by (simp add: from_yuv420_sbs_ok source_frame_def)
qed

lemma encode_input_shows:
  assumes "SBS_FRAME_BYTES \<le> length input" and "op_frames options \<noteq> Some 0" and "0 < op_keyint options"
    and "60 + 14100062 * frames_selected options input < 2 ^ 64"
  shows "\<exists>st ds. encode_input options input = Inr st \<and> decode_stream_with_metadata (en_stream st) = Inr ds \<and>
    length ds = frames_selected options input \<and> en_reference st = Some (df_frame (last ds)) \<and>
    en_key_frames st = length (filter (\<lambda>d. df_frame_type d = FRAME_TYPE_KEY_RAW) ds) \<and>
    (\<forall>i<length ds. df_frame_no (ds ! i) = of_nat i \<and>
      (df_frame_type (ds ! i) = FRAME_TYPE_KEY_RAW \<longrightarrow>
        from_yuv420_sbs (take SBS_FRAME_BYTES (drop (i * SBS_FRAME_BYTES) input)) = Inr (df_frame (ds ! i))) \<and>
      (\<exists>j\<le>i. i - j < op_keyint options \<and> df_frame_type (ds ! j) = FRAME_TYPE_KEY_RAW))"
  using encode_input_closed_loop[OF assms] source_frame_split
  by (fastforce simp: okR_def closed_loop_def)

end
