(* ===== verification/Av1_Ec.thy ===== *)
theory Av1_Ec
  imports O3_Prelude "HOL-Library.Log_Nat"
begin

text \<open>
  The entropy coder of the AV1 encoder, \<open>src/src/ec.rs\<close>: the range coder's
  state \<open>WriterBase<S>\<close> with its three storages (a counter, a recorder and the
  encoder), the operations of \<open>trait Writer\<close> over any storage, the adaptation
  of a CDF, and the range decoder \<open>Reader\<close> of the same file. Machine words keep
  their width; a shift by a variable amount takes it modulo the width, as in a
  release build. \<open>i16\<close> counters and \<open>usize\<close> counts are integers and naturals:
  \<open>enc_state\<close> shows that \<open>cnt\<close> stays between -9 and -1.
\<close>

section \<open>Words\<close>

definition leading_zeros :: "'a::len word \<Rightarrow> nat" where
  "leading_zeros w = LENGTH('a) - floorlog 2 (unat w)"

definition shl :: "'a::len word \<Rightarrow> int \<Rightarrow> 'a word" where
  "shl w n = push_bit (nat (n mod int LENGTH('a))) w"

definition shr :: "'a::len word \<Rightarrow> int \<Rightarrow> 'a word" where
  "shr w n = drop_bit (nat (n mod int LENGTH('a))) w"

section \<open>State\<close>

definition OD_BITRES :: nat where "OD_BITRES = 3"
definition EC_PROB_SHIFT :: nat where "EC_PROB_SHIFT = 6"
definition EC_MIN_PROB :: u32 where "EC_MIN_PROB = 4"

record 's writer_base =
  wr_rng :: u16
  wr_cnt :: int
  wr_fake_bits_frac :: u32
  wr_s :: 's

record writer_counter =
  wc_bits :: nat

record writer_recorder =
  wrec_storage :: "(u16 \<times> u16 \<times> u16) list"
  wrec_bits :: nat

record writer_encoder =
  we_precarry :: "u16 list"
  we_low :: u32

record writer_checkpoint =
  cp_stream_size :: nat
  cp_backend_var :: nat
  cp_rng :: u16
  cp_cnt :: int

definition WriterBase_new :: "'s \<Rightarrow> 's writer_base" where
  "WriterBase_new storage = \<lparr>wr_rng = 0x8000, wr_cnt = - 9, wr_fake_bits_frac = 0, wr_s = storage\<rparr>"

definition WriterCounter_new :: "writer_counter writer_base" where
  "WriterCounter_new = WriterBase_new \<lparr>wc_bits = 0\<rparr>"

definition WriterRecorder_new :: "writer_recorder writer_base" where
  "WriterRecorder_new = WriterBase_new \<lparr>wrec_storage = [], wrec_bits = 0\<rparr>"

definition WriterEncoder_new :: "writer_encoder writer_base" where
  "WriterEncoder_new = WriterBase_new \<lparr>we_precarry = [], we_low = 0\<rparr>"

definition lr_compute :: "'s writer_base \<Rightarrow> u16 \<Rightarrow> u16 \<Rightarrow> u16 \<Rightarrow> u32 \<times> u16" where
  "lr_compute w fl fh nms =
     (let r = ucast (wr_rng w) :: u32;
          u = drop_bit (7 - EC_PROB_SHIFT) (drop_bit 8 r * drop_bit EC_PROB_SHIFT (ucast fl)) + EC_MIN_PROB * ucast nms;
          u = (if fl \<ge> 32768 then r else u);
          v = drop_bit (7 - EC_PROB_SHIFT) (drop_bit 8 r * drop_bit EC_PROB_SHIFT (ucast fh)) + EC_MIN_PROB * ucast (nms - 1)
      in (r - u, ucast (u - v)))"

section \<open>The three storages\<close>

type_synonym token = "u16 \<times> u16 \<times> u16"

definition counter_store :: "u16 \<Rightarrow> u16 \<Rightarrow> u16 \<Rightarrow> writer_counter writer_base \<Rightarrow> writer_counter writer_base" where
  "counter_store fl fh nms w =
     (let (_, r) = lr_compute w fl fh nms; d = leading_zeros r in
      w\<lparr>wr_s := (wr_s w)\<lparr>wc_bits := wc_bits (wr_s w) + d\<rparr>, wr_rng := shl r (int d)\<rparr>)"

definition counter_stream_bits :: "writer_counter writer_base \<Rightarrow> nat" where
  "counter_stream_bits w = wc_bits (wr_s w)"

definition counter_checkpoint :: "writer_counter writer_base \<Rightarrow> writer_checkpoint" where
  "counter_checkpoint w = \<lparr>cp_stream_size = wc_bits (wr_s w), cp_backend_var = 0, cp_rng = wr_rng w, cp_cnt = wr_cnt w\<rparr>"

definition counter_rollback :: "writer_checkpoint \<Rightarrow> writer_counter writer_base \<Rightarrow> writer_counter writer_base" where
  "counter_rollback c w = w\<lparr>wr_rng := cp_rng c, wr_s := (wr_s w)\<lparr>wc_bits := cp_stream_size c\<rparr>\<rparr>"

definition recorder_store :: "u16 \<Rightarrow> u16 \<Rightarrow> u16 \<Rightarrow> writer_recorder writer_base \<Rightarrow> writer_recorder writer_base" where
  "recorder_store fl fh nms w =
     (let (_, r) = lr_compute w fl fh nms; d = leading_zeros r in
      w\<lparr>wr_s := \<lparr>wrec_storage = wrec_storage (wr_s w) @ [(fl, fh, nms)], wrec_bits = wrec_bits (wr_s w) + d\<rparr>,
        wr_rng := shl r (int d)\<rparr>)"

definition recorder_stream_bits :: "writer_recorder writer_base \<Rightarrow> nat" where
  "recorder_stream_bits w = wrec_bits (wr_s w)"

definition recorder_checkpoint :: "writer_recorder writer_base \<Rightarrow> writer_checkpoint" where
  "recorder_checkpoint w = \<lparr>cp_stream_size = wrec_bits (wr_s w), cp_backend_var = length (wrec_storage (wr_s w)),
     cp_rng = wr_rng w, cp_cnt = wr_cnt w\<rparr>"

definition recorder_rollback :: "writer_checkpoint \<Rightarrow> writer_recorder writer_base \<Rightarrow> writer_recorder writer_base" where
  "recorder_rollback c w = w\<lparr>wr_rng := cp_rng c, wr_cnt := cp_cnt c,
     wr_s := \<lparr>wrec_storage = take (cp_backend_var c) (wrec_storage (wr_s w)), wrec_bits = cp_stream_size c\<rparr>\<rparr>"

definition encoder_store :: "u16 \<Rightarrow> u16 \<Rightarrow> u16 \<Rightarrow> writer_encoder writer_base \<Rightarrow> writer_encoder writer_base" where
  "encoder_store fl fh nms w =
     (let (l, r) = lr_compute w fl fh nms;
          low = l + we_low (wr_s w);
          c = wr_cnt w;
          d = leading_zeros r;
          s = c + int d;
          (precarry, low, s) =
            (if s \<ge> 0 then
               let c = c + 16;
                   m = shl 1 c - 1 :: u32;
                   (precarry, low, c, m) =
                     (if s \<ge> 8 then (we_precarry (wr_s w) @ [ucast (shr low c)], low AND m, c - 8, drop_bit 8 m)
                      else (we_precarry (wr_s w), low, c, m));
                   precarry = precarry @ [ucast (shr low c)]
               in (precarry, low AND m, c + int d - 24)
             else (we_precarry (wr_s w), low, s))
      in w\<lparr>wr_s := \<lparr>we_precarry = precarry, we_low = shl low (int d)\<rparr>, wr_rng := shl r (int d), wr_cnt := s\<rparr>)"

definition encoder_stream_bits :: "writer_encoder writer_base \<Rightarrow> nat" where
  "encoder_stream_bits w = length (we_precarry (wr_s w)) * 8"

definition encoder_checkpoint :: "writer_encoder writer_base \<Rightarrow> writer_checkpoint" where
  "encoder_checkpoint w = \<lparr>cp_stream_size = length (we_precarry (wr_s w)), cp_backend_var = unat (we_low (wr_s w)),
     cp_rng = wr_rng w, cp_cnt = wr_cnt w\<rparr>"

definition encoder_rollback :: "writer_checkpoint \<Rightarrow> writer_encoder writer_base \<Rightarrow> writer_encoder writer_base" where
  "encoder_rollback c w = w\<lparr>wr_rng := cp_rng c, wr_cnt := cp_cnt c,
     wr_s := \<lparr>we_precarry = take (cp_stream_size c) (we_precarry (wr_s w)), we_low = of_nat (cp_backend_var c)\<rparr>\<rparr>"

text \<open>
  The loop of \<open>replay\<close> over tokens, with the destination's \<open>store\<close> as a
  parameter, and \<open>replay\<close> itself: the destination and the cleared recorder.
\<close>

definition store_tokens :: "(u16 \<Rightarrow> u16 \<Rightarrow> u16 \<Rightarrow> 'w \<Rightarrow> 'w) \<Rightarrow> token list \<Rightarrow> 'w \<Rightarrow> 'w" where
  "store_tokens store = fold (\<lambda>(fl, fh, nms). store fl fh nms)"

definition replay :: "(u16 \<Rightarrow> u16 \<Rightarrow> u16 \<Rightarrow> 'w \<Rightarrow> 'w) \<Rightarrow> writer_recorder writer_base \<Rightarrow> 'w \<Rightarrow> 'w \<times> writer_recorder writer_base" where
  "replay store w dest =
     (store_tokens store (wrec_storage (wr_s w)) dest,
      w\<lparr>wr_rng := 0x8000, wr_cnt := - 9, wr_s := \<lparr>wrec_storage = [], wrec_bits = 0\<rparr>\<rparr>)"

section \<open>The end of the stream\<close>

text \<open>The loop that puts out the last bytes, then the carries from the last byte to the first.\<close>

function flush_loop :: "u32 \<Rightarrow> u32 \<Rightarrow> int \<Rightarrow> int \<Rightarrow> u16 list \<Rightarrow> u16 list" where
  "flush_loop e n c s precarry =
     (if s > 0 then flush_loop (e AND n) (drop_bit 8 n) (c - 8) (s - 8) (precarry @ [ucast (shr e (c + 16))]) else precarry)"
  by pat_completeness auto
termination
  by (relation "measure (\<lambda>(_, _, _, s, _). nat s)") auto

declare flush_loop.simps [simp del]

primrec carry_loop :: "u16 list \<Rightarrow> u16 \<times> byte list" where
  "carry_loop [] = (0, [])"
| "carry_loop (p # precarry) =
     (let (c, out) = carry_loop precarry; c = c + p in (drop_bit 8 c, ucast c # out))"

definition encoder_done :: "writer_encoder writer_base \<Rightarrow> byte list" where
  "encoder_done w =
     (let l = we_low (wr_s w);
          c = wr_cnt w;
          m = 0x3FFF;
          e = ((l + m) AND NOT m) OR (m + 1);
          s = 10 + c;
          precarry = flush_loop e (shl 1 (c + 16) - 1) c s (we_precarry (wr_s w))
      in snd (carry_loop precarry))"

section \<open>The operations of a writer\<close>

definition write_symbol :: "(u16 \<Rightarrow> u16 \<Rightarrow> u16 \<Rightarrow> 'w \<Rightarrow> 'w) \<Rightarrow> nat \<Rightarrow> u16 list \<Rightarrow> 'w \<Rightarrow> 'w result" where
  "write_symbol store s cdf w =
     (if s \<ge> length cdf then Inl Fault
      else
        let nms = length cdf - s;
            fl = (if s > 0 then cdf ! (s - 1) else 32768);
            fh = cdf ! s
        in Inr (store fl fh (of_nat nms) w))"

definition write_bool :: "(u16 \<Rightarrow> u16 \<Rightarrow> u16 \<Rightarrow> 'w \<Rightarrow> 'w) \<Rightarrow> bool \<Rightarrow> u16 \<Rightarrow> 'w \<Rightarrow> 'w result" where
  "write_bool store val f = write_symbol store (of_bool val) [f, 0]"

definition write_bit :: "(u16 \<Rightarrow> u16 \<Rightarrow> u16 \<Rightarrow> 'w \<Rightarrow> 'w) \<Rightarrow> u16 \<Rightarrow> 'w \<Rightarrow> 'w result" where
  "write_bit store b = write_bool store (b = 1) 16384"

definition write_literal :: "(u16 \<Rightarrow> u16 \<Rightarrow> u16 \<Rightarrow> 'w \<Rightarrow> 'w) \<Rightarrow> nat \<Rightarrow> u32 \<Rightarrow> 'w \<Rightarrow> 'w result" where
  "write_literal store bits s = forR (\<lambda>b. write_bit store (ucast (1 AND shr s (int b)))) (rev [0..<bits])"

definition write_golomb :: "(u16 \<Rightarrow> u16 \<Rightarrow> u16 \<Rightarrow> 'w \<Rightarrow> 'w) \<Rightarrow> u32 \<Rightarrow> 'w \<Rightarrow> 'w result" where
  "write_golomb store level w =
     (let x = level + 1;
          len = 32 - of_nat (leading_zeros x) :: u32 in
      bindR (forR (\<lambda>_. write_bit store 0) [0..<unat (len - 1)] w)
        (forR (\<lambda>i. write_bit store (ucast (shr x (int i) AND 1))) (rev [0..<unat len])))"

definition write_quniform :: "(u16 \<Rightarrow> u16 \<Rightarrow> u16 \<Rightarrow> 'w \<Rightarrow> 'w) \<Rightarrow> u32 \<Rightarrow> u32 \<Rightarrow> 'w \<Rightarrow> 'w result" where
  "write_quniform store n v w =
     (if n > 1 then
        let l = 32 - leading_zeros n;
            m = shl 1 (int l) - n in
        if v < m then write_literal store (l - 1) v w
        else bindR (write_literal store (l - 1) (m + drop_bit 1 (v - m)) w) (write_literal store 1 ((v - m) AND 1))
      else Inr w)"

definition count_quniform :: "u32 \<Rightarrow> u32 \<Rightarrow> u32" where
  "count_quniform n v =
     (if n > 1 then
        let l = 32 - leading_zeros n;
            m = shl 1 (int l) - n;
            bits = push_bit OD_BITRES (of_nat (l - 1)) in
        (if v \<ge> m then bits + push_bit OD_BITRES 1 else bits)
      else 0)"

definition recenter :: "u32 \<Rightarrow> u32 \<Rightarrow> u32" where
  "recenter r v =
     (if v > push_bit 1 r then v else if v \<ge> r then push_bit 1 (v - r) else push_bit 1 (r - v) - 1)"

definition frac_compute :: "u32 \<Rightarrow> u32 \<Rightarrow> u32" where
  "frac_compute nbits_total rng =
     (let nbits = push_bit OD_BITRES nbits_total;
          (rng, l) = fold (\<lambda>_ (rng, l).
             let rng = drop_bit 15 (rng * rng); b = drop_bit 16 rng in (drop_bit (unat b) rng, push_bit 1 l OR b))
             [0..<OD_BITRES] (rng, 0)
      in nbits - l)"

definition tell :: "('s writer_base \<Rightarrow> nat) \<Rightarrow> 's writer_base \<Rightarrow> u32" where
  "tell stream_bits w = word_of_int (int (stream_bits w) + wr_cnt w + 10) + drop_bit 8 (wr_fake_bits_frac w)"

definition tell_frac :: "('s writer_base \<Rightarrow> nat) \<Rightarrow> 's writer_base \<Rightarrow> u32" where
  "tell_frac stream_bits w = frac_compute (tell stream_bits w) (ucast (wr_rng w)) + wr_fake_bits_frac w"

text \<open>The estimated cost of a symbol, without coding it; the shift of the range is an \<open>i16\<close>.\<close>

definition symbol_bits :: "nat \<Rightarrow> u16 list \<Rightarrow> 's writer_base \<Rightarrow> u32 result" where
  "symbol_bits s cdf w =
     (if s \<ge> length cdf then Inl Fault
      else
        let rng = ucast (drop_bit 8 (wr_rng w)) :: u32;
            fh = drop_bit EC_PROB_SHIFT (ucast (cdf ! s));
            r = (if s > 0 then
                   let fl = drop_bit EC_PROB_SHIFT (ucast (cdf ! (s - 1))) in
                   drop_bit (7 - EC_PROB_SHIFT) (rng * fl) - drop_bit (7 - EC_PROB_SHIFT) (rng * fh) + EC_MIN_PROB
                 else
                   let nms1 = of_nat (length cdf) - of_nat s - 1 in
                   ucast (wr_rng w) - drop_bit (7 - EC_PROB_SHIFT) (rng * fh) - nms1 * EC_MIN_PROB);
            pre = frac_compute (word_of_int (wr_cnt w + 9)) (ucast (wr_rng w));
            d = int (leading_zeros r) - 16;
            c = wr_cnt w;
            sh = c + d;
            (bits, sh) =
              (if sh \<ge> 0 then
                 let c = c + 16;
                     (bits, c) = (if sh \<ge> 8 then (8, c - 8) else (0, c));
                     bits = bits + 8
                 in (bits, c + d - 24)
               else (0, sh))
        in Inr (frac_compute (word_of_int (bits + sh + 9)) (shl r d) - pre))"

definition add_bits_frac :: "u32 \<Rightarrow> 's writer_base \<Rightarrow> 's writer_base" where
  "add_bits_frac bits_frac w = w\<lparr>wr_fake_bits_frac := wr_fake_bits_frac w + bits_frac\<rparr>"

section \<open>Adaptation\<close>

definition CDF_LEN_MAX :: nat where "CDF_LEN_MAX = 16"

definition update_cdf :: "u16 list \<Rightarrow> u32 \<Rightarrow> u16 list" where
  "update_cdf cdf val =
     (let nsymbs = length cdf;
          rate = 3 + min (nsymbs div 2) 2 in
      if cdf = [] then cdf
      else
        let count = last cdf;
            rate = rate + unat (drop_bit 4 count);
            cdf = cdf[nsymbs - 1 := count + (1 - drop_bit 5 count)]
        in fold (\<lambda>i cdf.
             let v = cdf ! i in
             cdf[i := (if of_nat i \<ge> val then v - shr v (int rate) else v + shr (32768 - v) (int rate))])
             [0..<min (nsymbs - 1) (CDF_LEN_MAX - 1)] cdf)"

fun pdf_loop :: "u16 \<Rightarrow> u16 list \<Rightarrow> u16 list" where
  "pdf_loop z [] = []"
| "pdf_loop z (a # cdf) = (z - drop_bit EC_PROB_SHIFT a) # pdf_loop (drop_bit EC_PROB_SHIFT a) cdf"

definition cdf_to_pdf :: "u16 list \<Rightarrow> u16 list" where
  "cdf_to_pdf cdf = pdf_loop (drop_bit EC_PROB_SHIFT 32768) cdf"

section \<open>The range decoder\<close>

definition WINDOW_SIZE :: int where "WINDOW_SIZE = 32"
definition LOTS_OF_BITS :: int where "LOTS_OF_BITS = 0x4000"

record ec_reader =
  er_buf :: "byte list"
  er_bptr :: nat
  er_dif :: u32
  er_rng :: u16
  er_cnt :: int

function refill_loop :: "int \<Rightarrow> ec_reader \<Rightarrow> ec_reader result" where
  "refill_loop s r =
     (if s \<ge> 0 \<and> er_bptr r < length (er_buf r) then
        if s > WINDOW_SIZE - 8 then Inl Fault
        else refill_loop (s - 8)
          (r\<lparr>er_dif := er_dif r XOR shl (ucast (er_buf r ! er_bptr r)) s, er_cnt := er_cnt r + 8, er_bptr := er_bptr r + 1\<rparr>)
      else Inr r)"
  by pat_completeness auto
termination
  by (relation "measure (\<lambda>(s, _). nat (s + 8))") auto

declare refill_loop.simps [simp del]

definition refill :: "ec_reader \<Rightarrow> ec_reader result" where
  "refill r =
     bindR (refill_loop (WINDOW_SIZE - 9 - (er_cnt r + 15)) r) (\<lambda>r.
     Inr (if er_bptr r \<ge> length (er_buf r) then r\<lparr>er_cnt := LOTS_OF_BITS\<rparr> else r))"

definition ec_reader_new :: "byte list \<Rightarrow> ec_reader result" where
  "ec_reader_new buf =
     refill \<lparr>er_buf = buf, er_bptr = 0, er_dif = shl 1 (WINDOW_SIZE - 1) - 1, er_rng = 0x8000, er_cnt = - 15\<rparr>"

definition normalize :: "u32 \<Rightarrow> u32 \<Rightarrow> ec_reader \<Rightarrow> ec_reader result" where
  "normalize dif rng r =
     (if rng > 65536 then Inl Fault
      else
        let d = int (leading_zeros rng) - 16;
            r = r\<lparr>er_cnt := er_cnt r - d, er_dif := shl (dif + 1) d - 1, er_rng := ucast (shl rng d)\<rparr>
        in if er_cnt r < 0 then refill r else Inr r)"

definition read_bool :: "u32 \<Rightarrow> ec_reader \<Rightarrow> (bool \<times> ec_reader) result" where
  "read_bool f rd =
     (if \<not> f < 32768 then Inl Fault
      else
        let r = ucast (er_rng rd) :: u32 in
        if \<not> (shr (er_dif rd) (WINDOW_SIZE - 16) < r \<and> 32768 \<le> r) then Inl Fault
        else
          let v = drop_bit (7 - EC_PROB_SHIFT) (drop_bit 8 r * drop_bit EC_PROB_SHIFT f) + EC_MIN_PROB;
              vw = shl v (WINDOW_SIZE - 16);
              (dif, rng, ret) = (if er_dif rd \<ge> vw then (er_dif rd - vw, r - v, False) else (er_dif rd, v, True))
          in bindR (normalize dif rng rd) (\<lambda>rd. Inr (ret, rd)))"

text \<open>The search of \<open>Reader::symbol\<close>; \<open>icdf[ret]\<close> out of range is a panic.\<close>

definition sym_bound :: "u32 \<Rightarrow> u16 list \<Rightarrow> nat \<Rightarrow> u32 result" where
  "sym_bound r icdf ret =
     (if ret < length icdf then
        Inr (drop_bit (7 - EC_PROB_SHIFT) (drop_bit 8 r * drop_bit EC_PROB_SHIFT (ucast (icdf ! ret))) +
          EC_MIN_PROB * (of_nat (length icdf) - 1 - of_nat ret))
      else Inl Fault)"

function symbol_loop :: "u32 \<Rightarrow> u32 \<Rightarrow> u16 list \<Rightarrow> u32 \<Rightarrow> u32 \<Rightarrow> nat \<Rightarrow> (u32 \<times> u32 \<times> nat) result" where
  "symbol_loop c r icdf u v ret =
     (if c < v then
        if ret + 1 < length icdf then
          bindR (sym_bound r icdf (ret + 1)) (\<lambda>v'. symbol_loop c r icdf v v' (ret + 1))
        else Inl Fault
      else Inr (u, v, ret))"
  by pat_completeness auto
termination
  by (relation "measure (\<lambda>(_, _, icdf, _, _, ret). length icdf - ret)") auto

declare symbol_loop.simps [simp del]

definition read_symbol :: "u16 list \<Rightarrow> ec_reader \<Rightarrow> (nat \<times> ec_reader) result" where
  "read_symbol icdf rd =
     (let r = ucast (er_rng rd) :: u32;
          c = shr (er_dif rd) (WINDOW_SIZE - 16) in
      if \<not> (c < r \<and> 32768 \<le> r) then Inl Fault
      else
        bindR (sym_bound r icdf 0) (\<lambda>v.
        bindR (symbol_loop c r icdf r v 0) (\<lambda>(u, v, ret).
        if \<not> (v < u \<and> u \<le> r) then Inl Fault
        else bindR (normalize (er_dif rd - shl v (WINDOW_SIZE - 16)) (u - v) rd) (\<lambda>rd. Inr (ret, rd)))))"

end
