(* ===== verification/Av1_EcLaws.thy ===== *)
theory Av1_EcLaws
  imports Av1_Ec
begin

text \<open>
  The range coder in numbers: the bounds of a token inside the current range,
  the normalising shift, and what each storage does with a token.
\<close>

section \<open>Words\<close>

lemma unat_drop_bit: "unat (drop_bit n w) = unat w div 2 ^ n" for w :: "'a::len word"
  by (simp only: unat_drop_bit_eq drop_bit_eq_div[where 'a = nat])

lemma unat_shl: "0 \<le> n \<Longrightarrow> nat n < LENGTH('a) \<Longrightarrow> unat w * 2 ^ nat n < 2 ^ LENGTH('a) \<Longrightarrow> unat (shl w n) = unat w * 2 ^ nat n"
  for w :: "'a::len word"
  by (simp only: shl_def unsigned_push_bit_eq push_bit_eq_mult[where 'a = nat] take_bit_eq_mod[where 'a = nat]) (simp add: nat_less_iff)

lemma unat_shr: "0 \<le> n \<Longrightarrow> nat n < LENGTH('a) \<Longrightarrow> unat (shr w n) = unat w div 2 ^ nat n"
  for w :: "'a::len word"
  by (simp only: shr_def unat_drop_bit) (simp add: nat_less_iff)

lemma unat_add_small: "unat x + unat y < 2 ^ LENGTH('a) \<Longrightarrow> unat (x + y) = unat x + unat y"
  for x y :: "'a::len word"
  using unat_add_lem by blast

lemma unat_mult_small: "unat x * unat y < 2 ^ LENGTH('a) \<Longrightarrow> unat (x * y) = unat x * unat y"
  for x y :: "'a::len word"
  using unat_mult_lem by blast

lemma unat_ucast_up: "LENGTH('a) \<le> LENGTH('b) \<Longrightarrow> unat (ucast (w :: 'a::len word) :: 'b::len word) = unat w"
  by (simp add: unsigned_ucast_eq take_bit_nat_eq_self less_le_trans[OF unsigned_less])

lemma unat_ucast_small: "unat w < 2 ^ LENGTH('b) \<Longrightarrow> unat (ucast w :: 'b::len word) = unat w" for w :: "'a::len word"
  by (simp add: unsigned_ucast_eq take_bit_nat_eq_self)

lemma leading_zeros_bounds:
  fixes w :: "'a::len word"
  assumes "0 < unat w"
  shows "2 ^ (LENGTH('a) - 1) \<le> unat w * 2 ^ leading_zeros w" and "unat w * 2 ^ leading_zeros w < 2 ^ LENGTH('a)"
    and "leading_zeros w < LENGTH('a)"
proof -
  let ?n = "unat w" and ?f = "floorlog 2 (unat w)"
  have b: "2 ^ (?f - 1) \<le> ?n" "?n < 2 ^ ?f" using floorlog_bounds[of ?n 2] assms by auto
  have "?n < 2 ^ LENGTH('a)" by simp
  then have f: "?f \<le> LENGTH('a)" by (simp add: floorlog_le_iff)
  have f0: "0 < ?f" using b(2) assms by (cases ?f) auto
  show "leading_zeros w < LENGTH('a)" using f0 f by (simp add: leading_zeros_def)
  have "2 ^ (?f - 1) * 2 ^ (LENGTH('a) - ?f) = (2 :: nat) ^ (LENGTH('a) - 1)"
    using f f0 by (simp flip: power_add)
  then show "2 ^ (LENGTH('a) - 1) \<le> ?n * 2 ^ leading_zeros w"
    using mult_le_mono1[OF b(1), of "2 ^ (LENGTH('a) - ?f)"] by (simp add: leading_zeros_def)
  have "2 ^ ?f * 2 ^ (LENGTH('a) - ?f) = (2 :: nat) ^ LENGTH('a)" using f by (simp flip: power_add)
  moreover have "?n * 2 ^ (LENGTH('a) - ?f) < 2 ^ ?f * 2 ^ (LENGTH('a) - ?f)" using b(2) by simp
  ultimately show "?n * 2 ^ leading_zeros w < 2 ^ LENGTH('a)" by (simp add: leading_zeros_def)
qed

section \<open>The interval of a token\<close>

definition part :: "nat \<Rightarrow> u16 \<Rightarrow> nat" where
  "part R f = R div 256 * (unat f div 64) div 2"

fun tok_upper :: "nat \<Rightarrow> token \<Rightarrow> nat" where
  "tok_upper R (fl, fh, nms) = (if fl \<ge> 32768 then R else part R fl + 4 * unat nms)"

fun tok_lower :: "nat \<Rightarrow> token \<Rightarrow> nat" where
  "tok_lower R (fl, fh, nms) = part R fh + 4 * (unat nms - 1)"

text \<open>Tokens of a decreasing CDF of at most 16 values below 32768.\<close>

fun tok_ok :: "token \<Rightarrow> bool" where
  "tok_ok (fl, fh, nms) \<longleftrightarrow> fh < 32768 \<and> (fl < 32768 \<longrightarrow> unat fh div 64 \<le> unat fl div 64) \<and> 1 \<le> unat nms \<and> unat nms \<le> 16"

lemma part_le:
  assumes "32768 \<le> R" and "unat f < 32768"
  shows "part R f + 64 \<le> R"
proof -
  let ?q = "R div 256"
  have "?q * (unat f div 64) \<le> ?q * 511" using assms(2) by (intro mult_le_mono) auto
  moreover have "128 \<le> ?q" "?q * 256 \<le> R" using assms(1) by auto
  ultimately show ?thesis unfolding part_def by linarith
qed

lemma part_mono: "unat f div 64 \<le> unat g div 64 \<Longrightarrow> part R f \<le> part R g"
  by (simp add: part_def div_le_mono mult_le_mono)

lemma tok_bounds:
  assumes "32768 \<le> R" and "tok_ok t"
  shows "tok_lower R t < tok_upper R t" and "tok_upper R t \<le> R" and "0 < tok_upper R t - tok_lower R t"
proof -
  obtain fl fh nms where t: "t = (fl, fh, nms)" by (cases t)
  have fh: "part R fh + 64 \<le> R" using assms by (intro part_le) (auto simp: t word_less_nat_alt)
  show "tok_lower R t < tok_upper R t"
    using assms fh part_mono[of fh fl R] by (auto simp: t not_le)
  then show "0 < tok_upper R t - tok_lower R t" by simp
  show "tok_upper R t \<le> R"
    using assms part_le[of R fl] by (auto simp: t not_le word_less_nat_alt)
qed

lemma lr_compute_ok:
  assumes r: "wr_rng w = r" "32768 \<le> unat r" and ok: "tok_ok (fl, fh, nms)"
  shows "unat (fst (lr_compute w fl fh nms)) = unat r - tok_upper (unat r) (fl, fh, nms)"
    and "unat (snd (lr_compute w fl fh nms)) = tok_upper (unat r) (fl, fh, nms) - tok_lower (unat r) (fl, fh, nms)"
proof -
  let ?R = "unat r"
  have R: "?R < 65536" using unsigned_less[of r] by simp
  have f16: "unat f < 65536" for f :: u16 using unsigned_less[of f] by simp
  have rr: "unat (ucast r :: u32) = ?R" by (simp add: unat_ucast_up)
  have p: "unat (drop_bit 1 (drop_bit 8 (ucast r :: u32) * drop_bit 6 (ucast f))) = part ?R f" for f :: u16
  proof -
    have "?R div 256 * (unat f div 64) \<le> 255 * 1023" using R f16[of f] by (intro mult_le_mono) auto
    then have "unat (drop_bit 8 (ucast r :: u32) * drop_bit 6 (ucast f)) = ?R div 256 * (unat f div 64)"
      by (subst unat_mult_small) (simp_all add: unat_drop_bit rr unat_ucast_up)
    then show ?thesis by (simp add: unat_drop_bit part_def)
  qed
  have pb: "part ?R f \<le> 255 * 1023" for f
  proof -
    have "?R div 256 * (unat f div 64) \<le> 255 * 1023" using R f16[of f] by (intro mult_le_mono) auto
    then show ?thesis unfolding part_def by linarith
  qed
  have s: "unat (drop_bit 1 (drop_bit 8 (ucast r :: u32) * drop_bit 6 (ucast f)) + 4 * ucast n) = part ?R f + 4 * unat n"
    if "unat n \<le> 16" for f n :: u16
  proof -
    have "unat (4 * ucast n :: u32) = 4 * unat n"
      using that by (subst unat_mult_small) (simp_all add: unat_ucast_up)
    then show ?thesis
      using that pb[of f] by (subst unat_add_small) (simp_all add: p[unfolded One_nat_def])
  qed
  have n1: "unat (nms - 1) = unat nms - 1" using ok by (intro unat_minus_one) auto
  have u: "unat (if fl \<ge> 32768 then ucast r else drop_bit 1 (drop_bit 8 (ucast r :: u32) * drop_bit 6 (ucast fl)) + 4 * ucast nms) =
      tok_upper ?R (fl, fh, nms)"
    using ok by (simp add: rr s[unfolded One_nat_def])
  have v: "unat (drop_bit 1 (drop_bit 8 (ucast r :: u32) * drop_bit 6 (ucast fh)) + 4 * ucast (nms - 1)) = tok_lower ?R (fl, fh, nms)"
    using ok by (subst s) (auto simp: n1)
  note b = tok_bounds[OF r(2) ok]
  have k: "7 - 6 = (1 :: nat)" by simp
  let ?u = "if fl \<ge> 32768 then ucast r else drop_bit 1 (drop_bit 8 (ucast r :: u32) * drop_bit 6 (ucast fl)) + 4 * ucast nms"
  let ?v = "drop_bit 1 (drop_bit 8 (ucast r :: u32) * drop_bit 6 (ucast fh)) + 4 * ucast (nms - 1)"
  have lr: "lr_compute w fl fh nms = (ucast r - ?u, ucast (?u - ?v))"
    unfolding lr_compute_def Let_def r(1) EC_PROB_SHIFT_def EC_MIN_PROB_def k ..
  have "?u \<le> ucast r" by (rule word_le_nat_alt[THEN iffD2]) (simp only: u rr b)
  from unat_sub[OF this] show "unat (fst (lr_compute w fl fh nms)) = ?R - tok_upper ?R (fl, fh, nms)"
    by (simp only: lr fst_conv u rr)
  have "?v \<le> ?u" by (rule word_le_nat_alt[THEN iffD2]) (simp only: u v less_imp_le[OF b(1)])
  from unat_sub[OF this] have uv: "unat (?u - ?v) = tok_upper ?R (fl, fh, nms) - tok_lower ?R (fl, fh, nms)"
    by (simp only: u v)
  also have "\<dots> < 2 ^ LENGTH(16)" using b R by simp
  finally show "unat (snd (lr_compute w fl fh nms)) = tok_upper ?R (fl, fh, nms) - tok_lower ?R (fl, fh, nms)"
    unfolding lr snd_conv by (subst unat_ucast_small) (simp_all only: uv)
qed

section \<open>The normalised range\<close>

definition tok_width :: "nat \<Rightarrow> token \<Rightarrow> nat" where
  "tok_width R t = tok_upper R t - tok_lower R t"

definition tok_shift :: "nat \<Rightarrow> token \<Rightarrow> nat" where
  "tok_shift R t = 16 - floorlog 2 (tok_width R t)"

definition tok_range :: "nat \<Rightarrow> token \<Rightarrow> nat" where
  "tok_range R t = tok_width R t * 2 ^ tok_shift R t"

lemma tok_range_bounds:
  assumes "32768 \<le> R" and "R < 65536" and "tok_ok t"
  shows "32768 \<le> tok_range R t" and "tok_range R t < 65536" and "tok_shift R t < 16"
proof -
  let ?n = "tok_width R t" and ?w = "of_nat (tok_width R t) :: u16"
  note b = tok_bounds[OF assms(1,3)]
  have n: "0 < ?n" "?n < 65536" using b assms(2) by (simp_all add: tok_width_def)
  then have u: "unat ?w = ?n" by (simp add: unat_of_nat take_bit_nat_eq_self)
  have lz: "leading_zeros ?w = tok_shift R t" by (simp add: leading_zeros_def u tok_shift_def)
  have "0 < unat ?w" using n u by simp
  from leading_zeros_bounds[OF this, unfolded lz u]
  show "32768 \<le> tok_range R t" "tok_range R t < 65536" "tok_shift R t < 16" by (simp_all add: tok_range_def)
qed

text \<open>What \<open>lr_compute\<close> and the shift of the range give in every storage.\<close>

lemma lr_shift:
  assumes r: "32768 \<le> unat (wr_rng w)" and ok: "tok_ok (fl, fh, nms)" and lr: "lr_compute w fl fh nms = (l, r)"
  shows "unat l = unat (wr_rng w) - tok_upper (unat (wr_rng w)) (fl, fh, nms)"
    and "leading_zeros r = tok_shift (unat (wr_rng w)) (fl, fh, nms)"
    and "shl r (int (leading_zeros r)) = of_nat (tok_range (unat (wr_rng w)) (fl, fh, nms))"
    and "unat (shl r (int (leading_zeros r))) = tok_range (unat (wr_rng w)) (fl, fh, nms)"
proof -
  let ?R = "unat (wr_rng w)" and ?t = "(fl, fh, nms)"
  have R: "?R < 65536" using unsigned_less[of "wr_rng w"] by simp
  show "unat l = ?R - tok_upper ?R ?t" using lr_compute_ok(1)[OF refl r ok] by (simp only: lr fst_conv)
  have w: "unat r = tok_width ?R ?t" using lr_compute_ok(2)[OF refl r ok] by (simp only: lr snd_conv tok_width_def)
  then show d: "leading_zeros r = tok_shift ?R ?t" by (simp add: leading_zeros_def tok_shift_def)
  note b = tok_range_bounds[OF r R ok]
  have "unat (shl r (int (tok_shift ?R ?t))) = unat r * 2 ^ nat (int (tok_shift ?R ?t))"
    using b by (intro unat_shl) (simp_all add: w tok_range_def)
  then show u: "unat (shl r (int (leading_zeros r))) = tok_range ?R ?t" by (simp add: d w tok_range_def)
  then show "shl r (int (leading_zeros r)) = of_nat (tok_range ?R ?t)" by (metis of_nat_unat ucast_id)
qed

primrec run_range :: "nat \<Rightarrow> token list \<Rightarrow> nat" where
  "run_range R [] = R"
| "run_range R (t # ts) = run_range (tok_range R t) ts"

primrec run_shift :: "nat \<Rightarrow> token list \<Rightarrow> nat" where
  "run_shift R [] = 0"
| "run_shift R (t # ts) = tok_shift R t + run_shift (tok_range R t) ts"

lemma store_tokens_simps [simp]:
  "store_tokens store [] w = w"
  "store_tokens store ((fl, fh, nms) # ts) w = store_tokens store ts (store fl fh nms w)"
  by (simp_all add: store_tokens_def)

section \<open>What a storage promises\<close>

text \<open>
  The contract of \<open>trait StorageBackend\<close> with the range state of its
  \<open>WriterBase\<close>: a stored token narrows the range and accounts for its bits in
  the sum of \<open>stream_bits\<close> and \<open>cnt\<close>, and what is stored after a checkpoint is
  forgotten by rolling back to it.
\<close>

locale storage_backend =
  fixes store :: "u16 \<Rightarrow> u16 \<Rightarrow> u16 \<Rightarrow> 's writer_base \<Rightarrow> 's writer_base"
    and stream_bits :: "'s writer_base \<Rightarrow> nat"
    and checkpoint :: "'s writer_base \<Rightarrow> writer_checkpoint"
    and rollback :: "writer_checkpoint \<Rightarrow> 's writer_base \<Rightarrow> 's writer_base"
    and inv :: "'s writer_base \<Rightarrow> bool"
    and grown :: "writer_checkpoint \<Rightarrow> 's writer_base \<Rightarrow> bool"
  assumes inv_range: "inv w \<Longrightarrow> 32768 \<le> unat (wr_rng w)"
    and inv_store: "inv w \<Longrightarrow> tok_ok (fl, fh, nms) \<Longrightarrow> inv (store fl fh nms w)"
    and store_range: "inv w \<Longrightarrow> tok_ok (fl, fh, nms) \<Longrightarrow>
      unat (wr_rng (store fl fh nms w)) = tok_range (unat (wr_rng w)) (fl, fh, nms)"
    and store_bits: "inv w \<Longrightarrow> tok_ok (fl, fh, nms) \<Longrightarrow>
      int (stream_bits (store fl fh nms w)) + wr_cnt (store fl fh nms w) =
        int (stream_bits w) + wr_cnt w + int (tok_shift (unat (wr_rng w)) (fl, fh, nms))"
    and store_fake: "wr_fake_bits_frac (store fl fh nms w) = wr_fake_bits_frac w"
    and rollback_same: "rollback (checkpoint w) w = w"
    and grown_same: "grown (checkpoint w) w"
    and grown_store: "grown c w \<Longrightarrow> grown c (store fl fh nms w)"
    and rollback_store: "grown c w \<Longrightarrow> rollback c (store fl fh nms w) = rollback c w"
begin

lemma run_state:
  assumes "inv w" and "\<forall>t\<in>set ts. tok_ok t"
  shows "inv (store_tokens store ts w) \<and> unat (wr_rng (store_tokens store ts w)) = run_range (unat (wr_rng w)) ts \<and>
    int (stream_bits (store_tokens store ts w)) + wr_cnt (store_tokens store ts w) = int (stream_bits w) + wr_cnt w + int (run_shift (unat (wr_rng w)) ts) \<and>
    wr_fake_bits_frac (store_tokens store ts w) = wr_fake_bits_frac w"
  using assms
proof (induction ts arbitrary: w)
  case (Cons t ts)
  obtain fl fh nms where t: "t = (fl, fh, nms)" by (cases t)
  have ok: "tok_ok (fl, fh, nms)" using Cons.prems(2) by (simp add: t del: tok_ok.simps)
  have "\<forall>t\<in>set ts. tok_ok t" using Cons.prems(2) by simp
  from Cons.IH[OF inv_store[OF Cons.prems(1) ok] this] show ?case
    by (simp add: t store_range[OF Cons.prems(1) ok] store_bits[OF Cons.prems(1) ok] store_fake del: tok_ok.simps)
qed simp

lemma rollback_run: "grown c w \<Longrightarrow> rollback c (store_tokens store ts w) = rollback c w"
proof (induction ts arbitrary: w)
  case (Cons t ts)
  then show ?case by (cases t) (simp add: grown_store rollback_store)
qed simp

lemma rollback_checkpoint: "rollback (checkpoint w) (store_tokens store ts w) = w"
  by (simp add: rollback_run grown_same rollback_same)

lemma tell_run:
  assumes "inv w" and "\<forall>t\<in>set ts. tok_ok t"
  shows "tell stream_bits (store_tokens store ts w) = tell stream_bits w + of_nat (run_shift (unat (wr_rng w)) ts)"
proof -
  have "int (stream_bits (store_tokens store ts w)) + wr_cnt (store_tokens store ts w) + 10 =
      int (stream_bits w) + wr_cnt w + 10 + int (run_shift (unat (wr_rng w)) ts)"
    using run_state[OF assms] by simp
  then show ?thesis
    unfolding tell_def using run_state[OF assms] by simp
qed

end

end
