(* ===== verification/Av1_EcCoder.thy ===== *)
theory Av1_EcCoder
  imports Av1_EcLaws
begin

text \<open>
  The three storages keep the contract of \<open>storage_backend\<close>. For the encoder
  \<open>enc_state w L N\<close> reads its state as the exact low end \<open>L\<close> of the range after
  \<open>N\<close> shifts: the bytes put out (with their carries), followed by \<open>low\<close>.
\<close>

section \<open>Counter and recorder\<close>

interpretation counter: storage_backend counter_store counter_stream_bits counter_checkpoint counter_rollback
  "\<lambda>w. 32768 \<le> unat (wr_rng w)" "\<lambda>_ _. True"
proof
  fix w :: "writer_counter writer_base" and fl fh nms
  assume w: "32768 \<le> unat (wr_rng w)" and ok: "tok_ok (fl, fh, nms)"
  obtain l r where lr: "lr_compute w fl fh nms = (l, r)" by (cases "lr_compute w fl fh nms")
  note s = lr_shift[OF w ok lr]
  have R: "unat (wr_rng w) < 65536" using unsigned_less[of "wr_rng w"] by simp
  show "unat (wr_rng (counter_store fl fh nms w)) = tok_range (unat (wr_rng w)) (fl, fh, nms)"
    by (simp add: counter_store_def lr Let_def s(4) del: tok_ok.simps)
  then show "32768 \<le> unat (wr_rng (counter_store fl fh nms w))" using tok_range_bounds(1)[OF w R ok] by simp
  show "int (counter_stream_bits (counter_store fl fh nms w)) + wr_cnt (counter_store fl fh nms w) =
      int (counter_stream_bits w) + wr_cnt w + int (tok_shift (unat (wr_rng w)) (fl, fh, nms))"
    by (simp add: counter_store_def counter_stream_bits_def lr Let_def s(2))
qed (simp_all add: counter_store_def counter_checkpoint_def counter_rollback_def Let_def split: prod.splits)

interpretation recorder: storage_backend recorder_store recorder_stream_bits recorder_checkpoint recorder_rollback
  "\<lambda>w. 32768 \<le> unat (wr_rng w)" "\<lambda>c w. cp_backend_var c \<le> length (wrec_storage (wr_s w))"
proof
  fix w :: "writer_recorder writer_base" and fl fh nms
  assume w: "32768 \<le> unat (wr_rng w)" and ok: "tok_ok (fl, fh, nms)"
  obtain l r where lr: "lr_compute w fl fh nms = (l, r)" by (cases "lr_compute w fl fh nms")
  note s = lr_shift[OF w ok lr]
  have R: "unat (wr_rng w) < 65536" using unsigned_less[of "wr_rng w"] by simp
  show "unat (wr_rng (recorder_store fl fh nms w)) = tok_range (unat (wr_rng w)) (fl, fh, nms)"
    by (simp add: recorder_store_def lr Let_def s(4) del: tok_ok.simps)
  then show "32768 \<le> unat (wr_rng (recorder_store fl fh nms w))" using tok_range_bounds(1)[OF w R ok] by simp
  show "int (recorder_stream_bits (recorder_store fl fh nms w)) + wr_cnt (recorder_store fl fh nms w) =
      int (recorder_stream_bits w) + wr_cnt w + int (tok_shift (unat (wr_rng w)) (fl, fh, nms))"
    by (simp add: recorder_store_def recorder_stream_bits_def lr Let_def s(2))
qed (simp_all add: recorder_store_def recorder_checkpoint_def recorder_rollback_def Let_def split: prod.splits)

lemma recorder_storage: "wrec_storage (wr_s (store_tokens recorder_store ts w)) = wrec_storage (wr_s w) @ ts"
proof (induction ts arbitrary: w)
  case (Cons t ts)
  then show ?case by (cases t) (simp add: recorder_store_def Let_def split: prod.splits)
qed simp

section \<open>The encoder's state\<close>

definition pval :: "u16 list \<Rightarrow> nat" where
  "pval ps = foldl (\<lambda>a p. a * 256 + unat p) 0 ps"

lemma pval_simps [simp]: "pval [] = 0" "pval (ps @ [p]) = pval ps * 256 + unat p"
  "pval (ps @ [p, q]) = (pval ps * 256 + unat p) * 256 + unat q"
  by (simp_all add: pval_def)

definition enc_state :: "writer_encoder writer_base \<Rightarrow> nat \<Rightarrow> nat \<Rightarrow> bool" where
  "enc_state w L N \<longleftrightarrow> (\<exists>e. 15 \<le> e \<and> e \<le> 23 \<and> wr_cnt w = int e - 24 \<and> N + 15 = 8 * length (we_precarry (wr_s w)) + e \<and>
     32768 \<le> unat (wr_rng w) \<and> unat (we_low (wr_s w)) + unat (wr_rng w) \<le> 2 ^ (e + 1) \<and>
     L = pval (we_precarry (wr_s w)) * 2 ^ e + unat (we_low (wr_s w)) \<and> (\<forall>p\<in>set (we_precarry (wr_s w)). unat p < 512))"

lemma enc_state_new: "enc_state WriterEncoder_new 0 0"
  by (simp add: enc_state_def WriterEncoder_new_def WriterBase_new_def exI[of _ 15])

lemma shl_1_mask: "0 \<le> c \<Longrightarrow> c < 32 \<Longrightarrow> shl 1 c - 1 = (mask (nat c) :: u32)"
  by (simp add: shl_def mask_eq_exp_minus_1 push_bit_eq_mult)

lemma unat_and_mask: "unat (w AND mask n) = unat w mod 2 ^ n" for w :: "'a::len word"
  by (simp add: unsigned_take_bit_eq flip: take_bit_eq_mask) (simp add: take_bit_eq_mod)

lemma unat_low_byte:
  "unat (w :: u32) = a \<Longrightarrow> a div 2 ^ n < 512 \<Longrightarrow> n < 32 \<Longrightarrow> unat (ucast (shr w (int n)) :: u16) = a div 2 ^ n"
  by (subst unat_ucast_small) (simp_all add: unat_shr)

text \<open>Putting out a byte: the number read so far does not change.\<close>

lemma byte_out:
  fixes P A :: nat
  assumes "A < 2 ^ (f + 9)"
  shows "P * 2 ^ (f + 8) + A = (P * 256 + A div 2 ^ f) * 2 ^ f + A mod 2 ^ f" and "A div 2 ^ f < 512" and "A mod 2 ^ f < 2 ^ f"
proof -
  have "A = A div 2 ^ f * 2 ^ f + A mod 2 ^ f" by (rule div_mult_mod_eq[symmetric])
  then show "P * 2 ^ (f + 8) + A = (P * 256 + A div 2 ^ f) * 2 ^ f + A mod 2 ^ f"
    by (simp add: power_add algebra_simps)
  show "A div 2 ^ f < 512" using assms by (simp add: power_add less_mult_imp_div_less mult.commute)
qed simp

lemma enc_stateI:
  assumes "15 \<le> e" "e \<le> 23" "wr_cnt w = int e - 24" "N + 15 = 8 * length (we_precarry (wr_s w)) + e"
    "32768 \<le> unat (wr_rng w)" "unat (we_low (wr_s w)) + unat (wr_rng w) \<le> 2 ^ (e + 1)"
    "L = pval (we_precarry (wr_s w)) * 2 ^ e + unat (we_low (wr_s w))" "\<forall>p\<in>set (we_precarry (wr_s w)). unat p < 512"
  shows "enc_state w L N"
  using assms unfolding enc_state_def by blast

lemma unat_shl_nat: "d < LENGTH('a) \<Longrightarrow> unat w = a \<Longrightarrow> a * 2 ^ d < 2 ^ LENGTH('a) \<Longrightarrow> unat (shl w (int d)) = a * 2 ^ d"
  for w :: "'a::len word"
  using unat_shl[of "int d" w] by simp

lemma scaled_fits:
  fixes A W D E :: nat
  assumes "(A + W) * D \<le> E" and "E \<le> 2 ^ 24"
  shows "A * D < 2 ^ 32" and "A * D + W * D \<le> E"
proof -
  show 2: "A * D + W * D \<le> E" using assms(1) by (simp only: distrib_right)
  have "A * D \<le> 2 ^ 24" using 2 assms(2) by (rule le_trans[OF trans_le_add1[OF order_refl] le_trans])
  then show "A * D < 2 ^ 32" by simp
qed

lemma encoder_store_eqs:
  assumes e: "15 \<le> e" "e \<le> 23" "wr_cnt w = int e - 24" and lr: "lr_compute w fl fh nms = (l, r)" "leading_zeros r = d" "d < 16"
  shows "e + d < 24 \<Longrightarrow> encoder_store fl fh nms w = w\<lparr>wr_s := \<lparr>we_precarry = we_precarry (wr_s w), we_low = shl (l + we_low (wr_s w)) (int d)\<rparr>,
      wr_rng := shl r (int d), wr_cnt := int (e + d) - 24\<rparr>"
    and "24 \<le> e + d \<Longrightarrow> e + d < 32 \<Longrightarrow> encoder_store fl fh nms w =
      w\<lparr>wr_s := \<lparr>we_precarry = we_precarry (wr_s w) @ [ucast (shr (l + we_low (wr_s w)) (int (e - 8)))],
          we_low = shl ((l + we_low (wr_s w)) AND mask (e - 8)) (int d)\<rparr>,
        wr_rng := shl r (int d), wr_cnt := int (e - 8 + d) - 24\<rparr>"
    and "32 \<le> e + d \<Longrightarrow> encoder_store fl fh nms w =
      w\<lparr>wr_s := \<lparr>we_precarry = we_precarry (wr_s w) @ [ucast (shr (l + we_low (wr_s w)) (int (e - 8))),
            ucast (shr ((l + we_low (wr_s w)) AND mask (e - 8)) (int (e - 16)))],
          we_low = shl (((l + we_low (wr_s w)) AND mask (e - 8)) AND mask (e - 16)) (int d)\<rparr>,
        wr_rng := shl r (int d), wr_cnt := int (e - 16 + d) - 24\<rparr>"
proof -
  have c: "int e - 24 + 16 = int (e - 8)" using e by linarith
  have m: "shl 1 (int (e - 8)) - 1 = (mask (e - 8) :: u32)" 
    by (subst shl_1_mask, simp, use e in linarith, simp only: nat_int)
  have m8: "drop_bit 8 (mask (e - 8) :: u32) = mask (e - 16)"
    using e by (intro bit_eqI) (auto simp: bit_drop_bit_eq bit_mask_iff)
  note defs = encoder_store_def lr Let_def prod.case e(3)
  show "e + d < 24 \<Longrightarrow> encoder_store fl fh nms w = w\<lparr>wr_s := \<lparr>we_precarry = we_precarry (wr_s w), we_low = shl (l + we_low (wr_s w)) (int d)\<rparr>,
      wr_rng := shl r (int d), wr_cnt := int (e + d) - 24\<rparr>"
    unfolding defs by simp
  show "encoder_store fl fh nms w =
      w\<lparr>wr_s := \<lparr>we_precarry = we_precarry (wr_s w) @ [ucast (shr (l + we_low (wr_s w)) (int (e - 8)))],
          we_low = shl ((l + we_low (wr_s w)) AND mask (e - 8)) (int d)\<rparr>,
        wr_rng := shl r (int d), wr_cnt := int (e - 8 + d) - 24\<rparr>" if "24 \<le> e + d" "e + d < 32"
    unfolding defs c m using that e by simp
  assume 3: "32 \<le> e + d"
  have c16: "int (e - 8) - 8 = int (e - 16)" using 3 lr(3) by linarith
  show "encoder_store fl fh nms w =
      w\<lparr>wr_s := \<lparr>we_precarry = we_precarry (wr_s w) @ [ucast (shr (l + we_low (wr_s w)) (int (e - 8))),
            ucast (shr ((l + we_low (wr_s w)) AND mask (e - 8)) (int (e - 16)))],
          we_low = shl (((l + we_low (wr_s w)) AND mask (e - 8)) AND mask (e - 16)) (int d)\<rparr>,
        wr_rng := shl r (int d), wr_cnt := int (e - 16 + d) - 24\<rparr>"
    unfolding defs c m m8 c16 using 3 e by simp
qed


lemma encoder_store_state:
  assumes st: "enc_state w L N" and ok: "tok_ok (fl, fh, nms)" and R: "R = unat (wr_rng w)"
  shows "enc_state (encoder_store fl fh nms w)
      ((L + (R - tok_upper R (fl, fh, nms))) * 2 ^ tok_shift R (fl, fh, nms)) (N + tok_shift R (fl, fh, nms))"
    and "unat (wr_rng (encoder_store fl fh nms w)) = tok_range R (fl, fh, nms)"
proof -
  let ?t = "(fl, fh, nms)" and ?pre = "we_precarry (wr_s w)"
  let ?d = "tok_shift R ?t" and ?W = "tok_width R ?t" and ?P = "pval ?pre" and ?w = "encoder_store fl fh nms w"
  obtain l r where lr: "lr_compute w fl fh nms = (l, r)" by (cases "lr_compute w fl fh nms")
  from st obtain e where e: "15 \<le> e" "e \<le> 23" "wr_cnt w = int e - 24" and n: "N + 15 = 8 * length ?pre + e"
    and R': "32768 \<le> R" and bound: "unat (we_low (wr_s w)) + R \<le> 2 ^ (e + 1)"
    and L: "L = ?P * 2 ^ e + unat (we_low (wr_s w))" and small: "\<forall>p\<in>set ?pre. unat p < 512"
    by (auto simp: enc_state_def R)
  have R2: "R < 65536" using unsigned_less[of "wr_rng w"] by (simp add: R)
  note tb = tok_bounds[OF R' ok] and rb = tok_range_bounds[OF R' R2 ok]
  note s = lr_shift[OF R'[unfolded R] ok lr, folded R]
  define A where "A = L - ?P * 2 ^ e + (R - tok_upper R ?t)"
  have A: "A + ?W \<le> 2 ^ (e + 1)" "L + (R - tok_upper R ?t) = ?P * 2 ^ e + A" "0 < ?W"
    using bound tb by (simp_all add: A_def L tok_width_def)
  have e24: "(2 :: nat) ^ (e + 1) \<le> 2 ^ 24" using e by (intro power_increasing) auto
  have low: "unat (l + we_low (wr_s w)) = A"
  proof -
    have "unat l + unat (we_low (wr_s w)) = A" using s(1) L by (simp add: A_def)
    then show ?thesis using A(1) e24 by (subst unat_add_small) simp_all
  qed
  have WR: "tok_range R ?t = ?W * 2 ^ ?d" by (simp add: tok_range_def)
  have eqs: "?d < 16" "leading_zeros r = ?d" using rb s by simp_all
  note rng = s(4)[unfolded eqs(2)]
  consider (none) "e + ?d < 24" | (one) "24 \<le> e + ?d" "e + ?d < 32" | (two) "32 \<le> e + ?d" by linarith
  then have "enc_state (encoder_store fl fh nms w) ((?P * 2 ^ e + A) * 2 ^ ?d) (N + ?d) \<and>
      unat (wr_rng (encoder_store fl fh nms w)) = tok_range R ?t"
  proof cases
    case none
    note eq = encoder_store_eqs(1)[OF e lr eqs(2,1) none]
    have p: "2 ^ (e + 1) * 2 ^ ?d = (2 :: nat) ^ (e + ?d + 1)" by (simp add: power_add)
    have b: "(A + ?W) * 2 ^ ?d \<le> 2 ^ (e + ?d + 1)" using mult_le_mono1[OF A(1), of "2 ^ ?d"] unfolding p .
    moreover have "(2 :: nat) ^ (e + ?d + 1) \<le> 2 ^ 24" using none by (intro power_increasing) auto
    ultimately have "A * 2 ^ ?d < 2 ^ 32" "A * 2 ^ ?d + tok_range R ?t \<le> 2 ^ (e + ?d + 1)"
      unfolding WR by (rule scaled_fits)+
    note b = this
    have sh: "unat (shl (l + we_low (wr_s w)) (int ?d)) = A * 2 ^ ?d" using eqs(1) b by (intro unat_shl_nat low) simp_all
    have Leq: "(?P * 2 ^ e + A) * 2 ^ ?d = ?P * 2 ^ (e + ?d) + A * 2 ^ ?d" by (simp only: power_add distrib_right mult.assoc)
    have w': "we_precarry (wr_s ?w) = ?pre" "we_low (wr_s ?w) = shl (l + we_low (wr_s w)) (int ?d)"
        "wr_rng ?w = shl r (int ?d)" "wr_cnt ?w = int (e + ?d) - 24"
      unfolding eq by simp_all
    show ?thesis
    proof (intro conjI enc_stateI[of "e + ?d"])
      show "15 \<le> e + ?d" "e + ?d \<le> 23" using e none by simp_all
      show "wr_cnt ?w = int (e + ?d) - 24" by (rule w'(4))
      show "N + ?d + 15 = 8 * length (we_precarry (wr_s ?w)) + (e + ?d)" using n  unfolding w'(1) by simp
      show "32768 \<le> unat (wr_rng ?w)" unfolding w' rng by (rule rb(1))
      show "unat (we_low (wr_s ?w)) + unat (wr_rng ?w) \<le> 2 ^ (e + ?d + 1)" unfolding w' rng sh by (rule b(2))
      show "(?P * 2 ^ e + A) * 2 ^ ?d = pval (we_precarry (wr_s ?w)) * 2 ^ (e + ?d) + unat (we_low (wr_s ?w))"
        unfolding w' sh  by (rule Leq)
      show "\<forall>p\<in>set (we_precarry (wr_s ?w)). unat p < 512" unfolding w' using small  by simp
      show "unat (wr_rng ?w) = tok_range R ?t" unfolding w' by (rule rng)
    qed
  next
    case one
    define f where "f = e - 8"
    have f: "e = f + 8" "7 \<le> f" "f < 16" "16 \<le> f + ?d" "f + ?d < 24" using one e eqs(1) by (simp_all add: f_def)
    note eq = encoder_store_eqs(2)[OF e lr eqs(2,1) one, folded f_def]
    have "e + 1 = f + 9" using f by simp
    from A(1)[unfolded this] A(3) have "A < 2 ^ (f + 9)" by linarith
    note bo = byte_out(1)[OF this, of ?P] byte_out(2,3)[OF this]
    have "(2 :: nat) ^ (f + ?d) \<le> 2 ^ 24" "(2 :: nat) ^ 16 \<le> 2 ^ (f + ?d)" using f by (intro power_increasing; simp)+
    moreover have "A mod 2 ^ f * 2 ^ ?d < 2 ^ (f + ?d)" using bo(3) by (simp add: power_add)
    ultimately have b: "A mod 2 ^ f * 2 ^ ?d < 2 ^ 32" "A mod 2 ^ f * 2 ^ ?d + tok_range R ?t \<le> 2 ^ (f + ?d + 1)"
      using rb(2) by simp_all
    have sh: "unat (shl ((l + we_low (wr_s w)) AND mask f) (int ?d)) = A mod 2 ^ f * 2 ^ ?d"
      using eqs(1) b(1) by (intro unat_shl_nat) (simp_all add: unat_and_mask low)
    have hb: "unat (ucast (shr (l + we_low (wr_s w)) (int f)) :: u16) = A div 2 ^ f"
      using bo(2) f(3) by (intro unat_low_byte low) simp_all
    have Leq: "(?P * 2 ^ e + A) * 2 ^ ?d = (?P * 256 + A div 2 ^ f) * 2 ^ (f + ?d) + A mod 2 ^ f * 2 ^ ?d"
      unfolding f(1) bo(1) by (simp only: power_add distrib_right mult.assoc)
    have w': "we_precarry (wr_s ?w) = ?pre @ [ucast (shr (l + we_low (wr_s w)) (int f))]" "we_low (wr_s ?w) = shl ((l + we_low (wr_s w)) AND mask f) (int ?d)"
        "wr_rng ?w = shl r (int ?d)" "wr_cnt ?w = int (f + ?d) - 24"
      unfolding eq by simp_all
    show ?thesis
    proof (intro conjI enc_stateI[of "f + ?d"])
      show "15 \<le> f + ?d" "f + ?d \<le> 23" using f by simp_all
      show "wr_cnt ?w = int (f + ?d) - 24" by (rule w'(4))
      show "N + ?d + 15 = 8 * length (we_precarry (wr_s ?w)) + (f + ?d)" using n f(1) unfolding w'(1) by simp
      show "32768 \<le> unat (wr_rng ?w)" unfolding w' rng by (rule rb(1))
      show "unat (we_low (wr_s ?w)) + unat (wr_rng ?w) \<le> 2 ^ (f + ?d + 1)" unfolding w' rng sh by (rule b(2))
      show "(?P * 2 ^ e + A) * 2 ^ ?d = pval (we_precarry (wr_s ?w)) * 2 ^ (f + ?d) + unat (we_low (wr_s ?w))"
        unfolding w' sh pval_simps hb by (rule Leq)
      show "\<forall>p\<in>set (we_precarry (wr_s ?w)). unat p < 512" unfolding w' using small bo(2) hb by simp
      show "unat (wr_rng ?w) = tok_range R ?t" unfolding w' by (rule rng)
    qed
  next
    case two
    define g where "g = e - 16"
    have f: "e = g + 16" "g < 8" "16 \<le> g + ?d" "g + ?d < 24" "e - 8 = g + 8" using two e eqs(1) by (simp_all add: g_def)
    note eq = encoder_store_eqs(3)[OF e lr eqs(2,1) two, folded g_def, unfolded f(5)]
    have "e + 1 = g + 8 + 9" using f by simp
    from A(1)[unfolded this] A(3) have "A < 2 ^ (g + 8 + 9)" by linarith
    note bo = byte_out(1)[OF this, of ?P] byte_out(2,3)[OF this]
    have "A mod 2 ^ (g + 8) < 2 ^ (g + 9)" using bo(3) by (rule less_le_trans) simp
    note bo2 = byte_out(1)[OF this, of "?P * 256 + A div 2 ^ (g + 8)"] byte_out(2,3)[OF this]
    have "(2 :: nat) ^ (g + ?d) \<le> 2 ^ 24" "(2 :: nat) ^ 16 \<le> 2 ^ (g + ?d)" using f by (intro power_increasing; simp)+
    moreover have "A mod 2 ^ (g + 8) mod 2 ^ g * 2 ^ ?d < 2 ^ (g + ?d)" using bo2(3) by (simp add: power_add)
    ultimately have b: "A mod 2 ^ (g + 8) mod 2 ^ g * 2 ^ ?d < 2 ^ 32"
        "A mod 2 ^ (g + 8) mod 2 ^ g * 2 ^ ?d + tok_range R ?t \<le> 2 ^ (g + ?d + 1)"
      using rb(2) by simp_all
    have sh: "unat (shl (((l + we_low (wr_s w)) AND mask (g + 8)) AND mask g) (int ?d)) = A mod 2 ^ (g + 8) mod 2 ^ g * 2 ^ ?d"
      using eqs(1) b(1) by (intro unat_shl_nat) (simp_all add: unat_and_mask low)
    have by1: "unat (ucast (shr (l + we_low (wr_s w)) (int (g + 8))) :: u16) = A div 2 ^ (g + 8)"
      using f(2) by (intro unat_low_byte low bo(2)) simp
    have by2: "unat (ucast (shr ((l + we_low (wr_s w)) AND mask (g + 8)) (int g)) :: u16) = A mod 2 ^ (g + 8) div 2 ^ g"
      using f(2) by (intro unat_low_byte bo2(2)) (simp_all add: unat_and_mask low)
    have "?P * 2 ^ e + A = (?P * 256 + A div 2 ^ (g + 8)) * 2 ^ (g + 8) + A mod 2 ^ (g + 8)"
      using bo(1) f(1) by (simp add: add.assoc)
    then have Leq: "(?P * 2 ^ e + A) * 2 ^ ?d =
        ((?P * 256 + A div 2 ^ (g + 8)) * 256 + A mod 2 ^ (g + 8) div 2 ^ g) * 2 ^ (g + ?d) + A mod 2 ^ (g + 8) mod 2 ^ g * 2 ^ ?d"
      unfolding bo2(1) by (simp only: power_add distrib_right mult.assoc)
    have w': "we_precarry (wr_s ?w) = ?pre @ [ucast (shr (l + we_low (wr_s w)) (int (g + 8))), ucast (shr ((l + we_low (wr_s w)) AND mask (g + 8)) (int g))]" "we_low (wr_s ?w) = shl (((l + we_low (wr_s w)) AND mask (g + 8)) AND mask g) (int ?d)"
        "wr_rng ?w = shl r (int ?d)" "wr_cnt ?w = int (g + ?d) - 24"
      unfolding eq by simp_all
    show ?thesis
    proof (intro conjI enc_stateI[of "g + ?d"])
      show "15 \<le> g + ?d" "g + ?d \<le> 23" using f by simp_all
      show "wr_cnt ?w = int (g + ?d) - 24" by (rule w'(4))
      show "N + ?d + 15 = 8 * length (we_precarry (wr_s ?w)) + (g + ?d)" using n f(1) unfolding w'(1) by simp
      show "32768 \<le> unat (wr_rng ?w)" unfolding w' rng by (rule rb(1))
      show "unat (we_low (wr_s ?w)) + unat (wr_rng ?w) \<le> 2 ^ (g + ?d + 1)" unfolding w' rng sh by (rule b(2))
      show "(?P * 2 ^ e + A) * 2 ^ ?d = pval (we_precarry (wr_s ?w)) * 2 ^ (g + ?d) + unat (we_low (wr_s ?w))"
        unfolding w' sh pval_simps by1 by2 by (rule Leq)
      show "\<forall>p\<in>set (we_precarry (wr_s ?w)). unat p < 512" unfolding w' using small bo(2) bo2(2) by1 by2 by simp
      show "unat (wr_rng ?w) = tok_range R ?t" unfolding w' by (rule rng)
    qed
  qed
  then show "enc_state (encoder_store fl fh nms w) ((L + (R - tok_upper R ?t)) * 2 ^ ?d) (N + ?d)"
    "unat (wr_rng (encoder_store fl fh nms w)) = tok_range R ?t" by (simp_all only: A(2))
qed


interpretation encoder: storage_backend encoder_store encoder_stream_bits encoder_checkpoint encoder_rollback
  "\<lambda>w. \<exists>L N. enc_state w L N" "\<lambda>c w. cp_stream_size c \<le> length (we_precarry (wr_s w))"
proof
  fix w :: "writer_encoder writer_base" and fl fh nms
  assume w: "\<exists>L N. enc_state w L N"
  then show "32768 \<le> unat (wr_rng w)" by (auto simp: enc_state_def)
  assume ok: "tok_ok (fl, fh, nms)"
  from w obtain L N where st: "enc_state w L N" by blast
  note s = encoder_store_state[OF st ok refl]
  from s(1) show "\<exists>L N. enc_state (encoder_store fl fh nms w) L N" by blast
  show "unat (wr_rng (encoder_store fl fh nms w)) = tok_range (unat (wr_rng w)) (fl, fh, nms)" by (rule s(2))
  have b: "int (encoder_stream_bits v) + wr_cnt v = int M - 9" if "enc_state v K M" for v K M
    using that by (auto simp: enc_state_def encoder_stream_bits_def)
  show "int (encoder_stream_bits (encoder_store fl fh nms w)) + wr_cnt (encoder_store fl fh nms w) =
      int (encoder_stream_bits w) + wr_cnt w + int (tok_shift (unat (wr_rng w)) (fl, fh, nms))"
    unfolding b[OF st] b[OF s(1)] by simp
next
  fix c :: writer_checkpoint and w :: "writer_encoder writer_base" and fl fh nms
  let ?w = "encoder_store fl fh nms w"
  have pre: "\<exists>ps. we_precarry (wr_s ?w) = we_precarry (wr_s w) @ ps" "wr_fake_bits_frac ?w = wr_fake_bits_frac w"
    by (auto simp: encoder_store_def Let_def split: prod.splits if_splits)
  show "wr_fake_bits_frac ?w = wr_fake_bits_frac w" by (rule pre(2))
  assume g: "cp_stream_size c \<le> length (we_precarry (wr_s w))"
  with pre(1) show "cp_stream_size c \<le> length (we_precarry (wr_s ?w))" by auto
  show "encoder_rollback c ?w = encoder_rollback c w"
    using pre g by (cases w, cases ?w) (auto simp: encoder_rollback_def)
qed (simp_all add: encoder_checkpoint_def encoder_rollback_def)

primrec run_low :: "nat \<Rightarrow> nat \<Rightarrow> token list \<Rightarrow> nat" where
  "run_low L R [] = L"
| "run_low L R (t # ts) = run_low ((L + (R - tok_upper R t)) * 2 ^ tok_shift R t) (tok_range R t) ts"

lemma encoder_tokens_state:
  assumes "enc_state w L N" and "\<forall>t\<in>set ts. tok_ok t" and "R = unat (wr_rng w)"
  shows "enc_state (store_tokens encoder_store ts w) (run_low L R ts) (N + run_shift R ts)"
  using assms
proof (induction ts arbitrary: w L N R)
  case (Cons t ts)
  obtain fl fh nms where t: "t = (fl, fh, nms)" by (cases t)
  have ok: "tok_ok (fl, fh, nms)" using Cons.prems(2) by (simp add: t del: tok_ok.simps)
  note s = encoder_store_state[OF Cons.prems(1) ok Cons.prems(3)]
  have "\<forall>t\<in>set ts. tok_ok t" using Cons.prems(2) by simp
  from Cons.IH[OF s(1) this s(2)[symmetric]] show ?case
    by (simp add: t add.assoc del: tok_upper.simps)
qed simp

lemma tok_step_upper:
  assumes "32768 \<le> R" and "tok_ok t"
  shows "(L + (R - tok_upper R t)) * 2 ^ tok_shift R t + tok_range R t = (L + (R - tok_lower R t)) * 2 ^ tok_shift R t"
proof -
  have "L + (R - tok_lower R t) = L + (R - tok_upper R t) + tok_width R t"
    using tok_bounds[OF assms] by (simp add: tok_width_def)
  then show ?thesis by (simp only: tok_range_def distrib_right)
qed

lemma run_low_bound:
  assumes "L + R \<le> 2 ^ (15 + N)" and "\<forall>t\<in>set ts. tok_ok t" and "32768 \<le> R" "R < 65536"
  shows "run_low L R ts + run_range R ts \<le> 2 ^ (15 + (N + run_shift R ts))"
  using assms
proof (induction ts arbitrary: L R N)
  case (Cons t ts)
  have ok: "tok_ok t" using Cons.prems(2) by simp
  have "(L + (R - tok_lower R t)) * 2 ^ tok_shift R t \<le> 2 ^ (15 + N) * 2 ^ tok_shift R t"
    using Cons.prems(1) by (intro mult_le_mono1) simp
  then have "(L + (R - tok_upper R t)) * 2 ^ tok_shift R t + tok_range R t \<le> 2 ^ (15 + (N + tok_shift R t))"
    unfolding tok_step_upper[OF Cons.prems(3) ok] by (simp add: power_add mult.assoc)
  from Cons.IH[OF this _ tok_range_bounds(1,2)[OF Cons.prems(3,4) ok]] Cons.prems(2) show ?case
    by (simp add: add.assoc del: tok_upper.simps)
qed simp

end
