(* ===== verification/Av1_EcRound.thy ===== *)
theory Av1_EcRound
  imports Av1_EcCoder
begin

text \<open>
  The range decoder reads back what the encoder wrote. \<open>encoder_done_range\<close>:
  the bytes of \<open>done\<close>, as a fraction, lie in the encoder's final range.
  \<open>dec_state\<close>: the decoder's window is the exact distance from that number to
  the upper end of the current range, up to bytes it has not read yet; so its
  comparisons are those of the exact numbers (\<open>window_exact\<close>).
\<close>

section \<open>Byte strings as numbers\<close>

definition bval :: "byte list \<Rightarrow> nat" where
  "bval bs = foldl (\<lambda>a b. a * 256 + unat b) 0 bs"

lemma foldl_base:
  "foldl (\<lambda>a b. a * 256 + f b) (x :: nat) bs = x * 256 ^ length bs + foldl (\<lambda>a b. a * 256 + f b) 0 bs"
proof (induction bs arbitrary: x)
  case (Cons b bs)
  show ?case
    using Cons[of "x * 256 + f b"] Cons[of "f b"] by (simp add: algebra_simps)
qed simp

lemma bval_simps [simp]: "bval [] = 0" "bval (b # bs) = unat b * 256 ^ length bs + bval bs" "bval (bs @ [b]) = bval bs * 256 + unat b"
  using foldl_base[of unat "unat b" bs] by (simp_all add: bval_def)

lemma pval_Cons: "pval (p # ps) = unat p * 256 ^ length ps + pval ps"
  using foldl_base[of unat "unat p" ps] by (simp add: pval_def)

lemma bval_less: "bval bs < 256 ^ length bs"
proof (induction bs)
  case (Cons b bs)
  have "unat b < 2 ^ LENGTH(8)" by (rule unsigned_less)
  then have "unat b \<le> 255" by simp
  then have "unat b * 256 ^ length bs \<le> 255 * 256 ^ length bs" by (rule mult_le_mono1)
  with Cons show ?case unfolding bval_simps length_Cons power_Suc by linarith
qed simp

lemma bval_append: "bval (xs @ ys) = bval xs * 256 ^ length ys + bval ys"
  by (induction xs) (simp_all add: algebra_simps power_add)

lemma bval_take_div:
  assumes "j \<le> length bs"
  shows "bval (take j bs) * 256 ^ (length bs - j) \<le> bval bs" and "bval bs < (bval (take j bs) + 1) * 256 ^ (length bs - j)"
  using bval_append[of "take j bs" "drop j bs"] bval_less[of "drop j bs"] assms by simp_all

section \<open>The last bytes\<close>

lemma carry_loop_val:
  assumes "carry_loop ps = (c, out)" and "\<forall>p\<in>set ps. unat p < 512"
  shows "length out = length ps \<and> unat c * 256 ^ length ps + bval out = pval ps \<and> unat c \<le> 2"
  using assms
proof (induction ps arbitrary: c out)
  case (Cons p ps)
  obtain c' out' where r: "carry_loop ps = (c', out')" by (cases "carry_loop ps")
  with Cons have IH: "length out' = length ps" "unat c' * 256 ^ length ps + bval out' = pval ps" "unat c' \<le> 2" by auto
  have s: "unat (c' + p) = unat c' + unat p" using IH(3) Cons.prems(2) by (intro unat_add_small) simp
  have c: "c = drop_bit 8 (c' + p)" "out = ucast (c' + p) # out'" using Cons.prems(1) by (auto simp: r Let_def)
  define D M where "D = (unat c' + unat p) div 256" and "M = (unat c' + unat p) mod 256"
  have DM: "unat c' + unat p = D * 256 + M" by (simp add: D_def M_def)
  have D2: "D \<le> 2" using IH(3) Cons.prems(2) DM by simp
  have b: "unat c = D" by (simp add: c unat_drop_bit s D_def)
  have h: "unat (ucast (c' + p) :: byte) = M"
    by (simp add: unsigned_ucast_eq take_bit_eq_mod s M_def)
  have "unat c * 256 ^ length (p # ps) + bval out = (D * 256 + M) * 256 ^ length ps + bval out'"
    by (simp add: c(2) h b IH(1) algebra_simps)
  also have "\<dots> = pval (p # ps)" unfolding DM[symmetric] pval_Cons by (simp add: distrib_right flip: IH(2))
  finally show ?case
    using IH(1) b D2 by (simp add: c(2))
qed simp

text \<open>\<open>e\<close> is the odd multiple of 2 ^ 14 that follows \<open>low\<close>.\<close>

lemma round_up:
  fixes l :: u32
  assumes "unat l < 2 ^ 24"
  obtains q where "unat (((l + 0x3FFF) AND NOT 0x3FFF) OR (0x3FFF + 1)) = q * 2 ^ 14"
    and "unat l \<le> q * 2 ^ 14" and "q * 2 ^ 14 < unat l + 2 ^ 15"
proof -
  let ?x = "l + 0x3FFF"
  have x: "unat ?x = unat l + 16383" using assms by (subst unat_add_small) simp_all
  have "((?x AND NOT 0x3FFF) OR (0x3FFF + 1)) = push_bit 14 (drop_bit 14 ?x OR 1)"
  proof (rule bit_word_eqI)
    fix n assume n: "n < LENGTH(32)"
    have m: "(0x3FFF :: u32) = mask 14" by (simp add: mask_eq_exp_minus_1)
    have p: "(0x3FFF + 1 :: u32) = push_bit 14 1" by simp
    show "bit ((?x AND NOT 0x3FFF) OR (0x3FFF + 1)) n = bit (push_bit 14 (drop_bit 14 ?x OR 1)) n"
      unfolding p unfolding m using n
      by (auto simp: bit_simps)
  qed
  then have e: "unat ((?x AND NOT 0x3FFF) OR (0x3FFF + 1)) = unat (push_bit 14 (drop_bit 14 ?x OR 1))" by simp
  let ?q = "unat (drop_bit 14 ?x OR 1)" and ?d = "(unat l + 16383) div 16384"
  have d: "unat (drop_bit 14 ?x) = ?d" by (simp add: unat_drop_bit x)
  have q: "?q = ?d OR 1" by (simp add: unsigned_or_eq d)
  have q': "?q = ?d + of_bool (even ?d)" unfolding q by (rule or_one_eq)
  have d24: "?d \<le> 2 ^ 11" using assms by simp
  show thesis
  proof (rule that[of ?q])
    show "unat ((?x AND NOT 0x3FFF) OR (0x3FFF + 1)) = ?q * 2 ^ 14"
      unfolding e using q' d24 unat_shl_nat[of 14 "drop_bit 14 ?x OR 1" ?q] by (simp add: shl_def)
    show "unat l \<le> ?q * 2 ^ 14" "?q * 2 ^ 14 < unat l + 2 ^ 15"
      unfolding q' by (cases "even ?d"; simp; presburger?)+
  qed
qed


lemma flush_loop_step: "s > 0 \<Longrightarrow> flush_loop e n c s ps = flush_loop (e AND n) (drop_bit 8 n) (c - 8) (s - 8) (ps @ [ucast (shr e (c + 16))])"
  and flush_loop_end: "s \<le> 0 \<Longrightarrow> flush_loop e n c s ps = ps"
  by (simp_all add: flush_loop.simps)

text \<open>The flushed bytes have the value of what was put out before and \<open>E\<close>, the odd multiple of 2 ^ 14.\<close>

lemma flush_loop_val:
  fixes E :: u32
  assumes e: "15 \<le> e" "e \<le> 23" and E: "unat E = q * 2 ^ 14" "unat E < 2 ^ (e + 1)" and small: "\<forall>p\<in>set ps. unat p < 512"
  obtains h ps' where "flush_loop E (mask (e - 8)) (int e - 24) (int e - 14) ps = ps'" and "\<forall>p\<in>set ps'. unat p < 512"
    and "8 * length ps' + h = 8 * length ps + e" and "pval ps' * 2 ^ h = pval ps * 2 ^ e + unat E"
proof -
  define f where "f = e - 8"
  have f: "e = f + 8" "7 \<le> f" "f \<le> 15" using e by (simp_all add: f_def)
  have c: "int e - 24 + 16 = int f" using f by simp
  have "e + 1 = f + 9" using f by simp
  note bo = byte_out(1)[OF E(2)[unfolded this], of "pval ps"] byte_out(2,3)[OF E(2)[unfolded this]]
  have hb: "unat (ucast (shr E (int f)) :: u16) = unat E div 2 ^ f" using bo(2) f by (intro unat_low_byte) simp_all
  note step = flush_loop_step[of "int e - 14" E "mask (e - 8)" "int e - 24" ps, folded f_def, unfolded c]
  show thesis
  proof (cases "e = 23")
    case False
    have "2 ^ f dvd (2 :: nat) ^ 14" using f False by (intro le_imp_power_dvd) simp
    then have "2 ^ f dvd unat E" unfolding E(1) by (rule dvd_mult)
    then have m0: "unat E mod 2 ^ f = 0" by simp
    have "flush_loop E (mask f) (int e - 24) (int e - 14) ps = ps @ [ucast (shr E (int f))]"
      using step flush_loop_end[of "int e - 14 - 8"] e False by simp
    then show thesis
      using that[of "ps @ [ucast (shr E (int f))]" f] bo small hb f m0 by (simp add: f_def[symmetric])
  next
    case True
    then have f15: "f = 15" using f by simp
    have c2: "int e - 24 - 8 + 16 = int 7" using True by simp
    let ?E1 = "E AND mask 15"
    have E1: "unat ?E1 = unat E mod 2 ^ 15" by (rule unat_and_mask)
    have "unat ?E1 < 2 ^ (7 + 9)" unfolding E1 by (rule less_le_trans[of _ "2 ^ 15"]) simp_all
    note bo2 = byte_out(1)[OF this, of "pval ps * 256 + unat E div 2 ^ 15"] byte_out(2)[OF this]
    have hb2: "unat (ucast (shr ?E1 (int 7)) :: u16) = unat ?E1 div 2 ^ 7" using bo2(2) by (intro unat_low_byte) simp_all
    have "2 ^ 7 dvd unat ?E1"
      unfolding E1 E(1) by (intro dvd_mod dvd_mult le_imp_power_dvd) simp_all
    then have m0: "unat ?E1 mod 2 ^ 7 = 0" by simp
    let ?ps = "ps @ [ucast (shr E (int f)), ucast (shr ?E1 (int 7))]"
    have "flush_loop E (mask f) (int e - 24) (int e - 14) ps = ?ps"
      using step True f15 flush_loop_step[of "int e - 14 - 8" ?E1 "drop_bit 8 (mask f)" "int e - 24 - 8" "ps @ [ucast (shr E (int f))]"]
        flush_loop_end[of "int e - 14 - 8 - 8"] by (simp add: c2)
    moreover have "pval ?ps * 2 ^ 7 = pval ps * 2 ^ e + unat E"
    proof -
      have "pval ?ps * 2 ^ 7 = (pval ps * 256 + unat E div 2 ^ 15) * 2 ^ (7 + 8) + unat ?E1"
        unfolding bo2(1) by (simp only: pval_simps f15 hb[unfolded f15] hb2 m0 add_0_right)
      also have "\<dots> = pval ps * 2 ^ e + unat E" using bo(1) by (simp add: E1 f15 True)
      finally show ?thesis .
    qed
    ultimately show thesis
      using that[of ?ps 7] bo(2) bo2(2) small hb hb2 f15 True by (simp add: f_def[symmetric])
  qed
qed

lemma encoder_done_range:
  assumes st: "enc_state w L N" and b: "L + unat (wr_rng w) \<le> 2 ^ (15 + N)"
  shows "L * 256 ^ length (encoder_done w) \<le> bval (encoder_done w) * 2 ^ (15 + N)"
    and "bval (encoder_done w) * 2 ^ (15 + N) < (L + unat (wr_rng w)) * 256 ^ length (encoder_done w)"
proof -
  let ?pre = "we_precarry (wr_s w)" and ?low = "we_low (wr_s w)" and ?R = "unat (wr_rng w)"
  from st obtain e where e: "15 \<le> e" "e \<le> 23" "wr_cnt w = int e - 24" and n: "N + 15 = 8 * length ?pre + e"
    and R: "32768 \<le> ?R" and bound: "unat ?low + ?R \<le> 2 ^ (e + 1)" and L: "L = pval ?pre * 2 ^ e + unat ?low"
    and small: "\<forall>p\<in>set ?pre. unat p < 512" by (auto simp: enc_state_def)
  have "(2 :: nat) ^ (e + 1) \<le> 2 ^ 24" using e by (intro power_increasing) auto
  then have l24: "unat ?low < 2 ^ 24" using bound R by linarith
  let ?E = "((?low + 0x3FFF) AND NOT 0x3FFF) OR (0x3FFF + 1)"
  obtain q where q: "unat ?E = q * 2 ^ 14" "unat ?low \<le> q * 2 ^ 14" "q * 2 ^ 14 < unat ?low + 2 ^ 15" by (rule round_up[OF l24])
  have "unat ?E < 2 ^ (e + 1)" unfolding q(1) using q(3) bound R by simp
  then obtain h ps where
    fl: "flush_loop ?E (mask (e - 8)) (int e - 24) (int e - 14) ?pre = ps" "\<forall>p\<in>set ps. unat p < 512"
    and h: "8 * length ps + h = 8 * length ?pre + e" "pval ps * 2 ^ h = pval ?pre * 2 ^ e + unat ?E"
    by (rule flush_loop_val[OF e(1,2) q(1) _ small])
  obtain c out where co: "carry_loop ps = (c, out)" by (cases "carry_loop ps")
  note cv = carry_loop_val[OF co fl(2)]
  have "int e - 24 + 16 = int (e - 8)" using e by simp
  then have m: "shl 1 (int e - 24 + 16) - 1 = (mask (e - 8) :: u32)" using e by (simp add: shl_1_mask del: of_nat_diff)
  have dn: "encoder_done w = out"
    unfolding encoder_done_def Let_def e(3) m using fl(1) co by simp
  have pow: "x * 2 ^ (15 + N) = x * 2 ^ h * 256 ^ length ps" for x :: nat
  proof -
    have "15 + N = h + 8 * length ps" using n h(1) by simp
    then show ?thesis by (simp add: power_add power_mult)
  qed
  have val: "pval ps * 2 ^ (15 + N) = (pval ?pre * 2 ^ e + unat ?E) * 256 ^ length ps" by (simp only: pow h(2))
  have up: "pval ?pre * 2 ^ e + unat ?E < L + ?R" and lo: "L \<le> pval ?pre * 2 ^ e + unat ?E" using q R L by simp_all
  have "pval ps * 2 ^ (15 + N) < 2 ^ (15 + N) * 256 ^ length ps"
    unfolding val using up b by (intro mult_strict_right_mono) simp_all
  then have "pval ps < 256 ^ length ps" by (simp add: mult.commute)
  then have "unat c = 0" using cv by (cases "unat c") auto
  then have bv: "bval out = pval ps" "length out = length ps" using cv by simp_all
  show "L * 256 ^ length (encoder_done w) \<le> bval (encoder_done w) * 2 ^ (15 + N)"
    unfolding dn bv val using lo by (rule mult_le_mono1)
  show "bval (encoder_done w) * 2 ^ (15 + N) < (L + ?R) * 256 ^ length (encoder_done w)"
    unfolding dn bv val using up by (intro mult_strict_right_mono) simp_all
qed


section \<open>The decoder's window\<close>

definition dec_state :: "ec_reader \<Rightarrow> nat \<Rightarrow> nat \<Rightarrow> bool" where
  "dec_state rd L N \<longleftrightarrow> er_bptr rd \<le> length (er_buf rd) \<and> 8 * er_bptr rd \<le> 31 + N \<and> 32768 \<le> unat (er_rng rd) \<and>
     0 \<le> er_cnt rd \<and> (er_bptr rd < length (er_buf rd) \<longrightarrow> er_cnt rd = 8 * int (er_bptr rd) - int N - 15) \<and>
     unat (er_dif rd) + 1 + bval (take (er_bptr rd) (er_buf rd)) * 2 ^ (31 + N - 8 * er_bptr rd) = (L + unat (er_rng rd)) * 2 ^ 16"

lemma pow_split: "8 * j \<le> M \<Longrightarrow> (2 :: nat) ^ M = 2 ^ (M - 8 * j) * 256 ^ j"
proof -
  assume "8 * j \<le> M"
  then have "(2 :: nat) ^ M = 2 ^ (M - 8 * j + 8 * j)" by simp
  then show ?thesis unfolding power_add by (simp add: power_mult)
qed

lemma le_of_scaled_less: "M * c < (B + 1) * c \<Longrightarrow> M \<le> B" for M :: nat
  by (simp only: mult_less_cancel2) simp

text \<open>Comparing with a bound at the scale of the range is comparing the window.\<close>

lemma window_exact:
  assumes "dec_state rd L N"
  shows "A * 256 ^ length (er_buf rd) \<le> bval (er_buf rd) * 2 ^ (15 + N) \<longleftrightarrow>
    A * 2 ^ 16 \<le> bval (take (er_bptr rd) (er_buf rd)) * 2 ^ (31 + N - 8 * er_bptr rd)"
proof -
  let ?j = "er_bptr rd" and ?k = "length (er_buf rd)" and ?V = "bval (er_buf rd)" and ?B = "bval (take (er_bptr rd) (er_buf rd))"
  let ?e = "31 + N - 8 * ?j"
  have j: "?j \<le> ?k" "8 * ?j \<le> 31 + N" using assms by (simp_all add: dec_state_def)
  have k: "(256 :: nat) ^ ?k = 256 ^ ?j * 256 ^ (?k - ?j)" using j(1) by (simp flip: power_add)
  have p: "(2 :: nat) ^ (15 + N) * 2 ^ 16 = 2 ^ ?e * 256 ^ ?j"
    unfolding pow_split[OF j(2), symmetric] by (simp add: power_add)
  have "A * 256 ^ ?k \<le> ?V * 2 ^ (15 + N) \<longleftrightarrow> A * 256 ^ ?k * 2 ^ 16 \<le> ?V * 2 ^ (15 + N) * 2 ^ 16" by simp
  also have "\<dots> \<longleftrightarrow> A * 2 ^ 16 * 256 ^ (?k - ?j) * 256 ^ ?j \<le> ?V * 2 ^ ?e * 256 ^ ?j"
    unfolding mult.assoc p k by (simp only: ac_simps)
  also have "\<dots> \<longleftrightarrow> A * 2 ^ 16 * 256 ^ (?k - ?j) \<le> ?V * 2 ^ ?e" by simp
  also have "\<dots> \<longleftrightarrow> A * 2 ^ 16 \<le> ?B * 2 ^ ?e"
  proof (cases "?j = ?k")
    case True
    then show ?thesis by simp
  next
    case False
    then have "int (8 * ?j) \<ge> int N + 15" using assms j by (simp add: dec_state_def)
    then have "?e \<le> 16" by linarith
    then have "A * 2 ^ 16 = A * 2 ^ (16 - ?e) * 2 ^ ?e" by (simp add: mult.assoc flip: power_add)
    then obtain M where M: "A * 2 ^ 16 = M * 2 ^ ?e" by blast
    have "M * 2 ^ ?e * 256 ^ (?k - ?j) \<le> ?V * 2 ^ ?e \<longleftrightarrow> M * 256 ^ (?k - ?j) * 2 ^ ?e \<le> ?V * 2 ^ ?e"
      by (simp only: ac_simps)
    also have "\<dots> \<longleftrightarrow> M * 256 ^ (?k - ?j) \<le> ?V" by simp
    also have "\<dots> \<longleftrightarrow> M \<le> ?B"
    proof
      assume "M * 256 ^ (?k - ?j) \<le> ?V"
      then have "M * 256 ^ (?k - ?j) < (?B + 1) * 256 ^ (?k - ?j)" using bval_take_div(2)[OF j(1)] by (rule le_less_trans)
      then show "M \<le> ?B" by (rule le_of_scaled_less)
    next
      assume "M \<le> ?B"
      then show "M * 256 ^ (?k - ?j) \<le> ?V" using bval_take_div(1)[OF j(1)] by (rule le_trans[OF mult_le_mono1])
    qed
    also have "\<dots> \<longleftrightarrow> M * 2 ^ ?e \<le> ?B * 2 ^ ?e" by simp
    finally show ?thesis by (simp only: M)
  qed
  finally show ?thesis .
qed

text \<open>Putting a byte into the window, whose bits below are all ones.\<close>

lemma unat_xor_byte:
  fixes x :: u32 and b :: byte
  assumes "2 ^ (n + 8) dvd unat x + 1" and "n + 8 \<le> 32"
  shows "unat (x XOR shl (ucast b) (int n)) = unat x - unat b * 2 ^ n" and "unat b * 2 ^ n \<le> unat x"
proof -
  let ?y = "shl (ucast b) (int n) :: u32"
  have y: "?y = push_bit n (ucast b)" using assms(2) by (simp add: shl_def)
  have b8: "unat b < 256" using unsigned_less[of b, where ?'a = nat] by simp
  have "(unat x + 1) mod 2 ^ (n + 8) = 0" using assms(1) by simp
  have ones: "bit x i" if "i < n + 8" for i
  proof -
    obtain q where q: "unat x + 1 = 2 ^ (n + 8) * q" using assms(1) by blast
    have "q \<noteq> 0" using q by (intro notI) simp
    then have "unat x = 2 ^ (n + 8) * (q - 1) + (2 ^ (n + 8) - 1)" using q by (cases q) simp_all
    then have "unat x mod 2 ^ (n + 8) = 2 ^ (n + 8) - 1" by (simp only: mod_mult_self4) simp
    then have "take_bit (n + 8) (unat x) = mask (n + 8)" by (simp only: take_bit_eq_mod mask_eq_exp_minus_1)
    then have "bit (take_bit (n + 8) (unat x)) i" using that by (simp add: bit_mask_iff)
    then show ?thesis by (simp add: bit_simps)
  qed
  have yb: "bit ?y i \<Longrightarrow> i < n + 8" for i
    unfolding y by (auto simp: bit_simps dest: bit_imp_le_length)
  have "NOT x AND ?y = 0"
    by (rule bit_word_eqI) (use ones yb in \<open>auto simp: bit_simps\<close>)
  then have xy: "x XOR ?y = x - ?y" by (simp add: disjunctive_diff_eq_and_not disjunctive_and_not_eq_xor)
  have "unat b * 2 ^ n < 2 ^ 8 * 2 ^ n" using b8 by simp
  also have "\<dots> = 2 ^ (n + 8)" by (simp add: power_add)
  finally have bn: "unat b * 2 ^ n < 2 ^ (n + 8)" .
  moreover have "(2 :: nat) ^ (n + 8) \<le> 2 ^ 32" using assms(2) by (intro power_increasing) simp_all
  ultimately have uy: "unat ?y = unat b * 2 ^ n"
    using assms(2) by (intro unat_shl_nat) (simp_all add: unat_ucast_up)
  have "2 ^ (n + 8) \<le> unat x + 1" using assms(1) by (rule dvd_imp_le) simp
  with bn show le: "unat b * 2 ^ n \<le> unat x" by linarith
  then show "unat (x XOR ?y) = unat x - unat b * 2 ^ n"
    unfolding xy by (subst unat_sub) (simp_all add: word_le_nat_alt uy)
qed


section \<open>Refilling and normalising\<close>

lemma refill_loop_ok:
  assumes "er_bptr rd \<le> length (er_buf rd)" and "8 * er_bptr rd \<le> 31 + N"
    and "er_bptr rd < length (er_buf rd) \<longrightarrow> s = 23 + int N - 8 * int (er_bptr rd) \<and> s \<le> 24 \<and>
      er_cnt rd = 8 * int (er_bptr rd) - int N - 15 \<and> 2 ^ (31 + N - 8 * er_bptr rd) dvd unat (er_dif rd) + 1"
    and "unat (er_dif rd) + 1 + bval (take (er_bptr rd) (er_buf rd)) * 2 ^ (31 + N - 8 * er_bptr rd) = T"
  shows "\<exists>rd'. refill_loop s rd = Inr rd' \<and> er_buf rd' = er_buf rd \<and> er_rng rd' = er_rng rd \<and>
    er_bptr rd' \<le> length (er_buf rd) \<and> 8 * er_bptr rd' \<le> 31 + N \<and>
    (er_bptr rd' < length (er_buf rd) \<longrightarrow> er_cnt rd' = 8 * int (er_bptr rd') - int N - 15 \<and> int N + 23 < 8 * int (er_bptr rd')) \<and>
    unat (er_dif rd') + 1 + bval (take (er_bptr rd') (er_buf rd)) * 2 ^ (31 + N - 8 * er_bptr rd') = T"
  using assms
proof (induction s rd rule: refill_loop.induct)
  case (1 s rd)
  let ?j = "er_bptr rd" and ?b = "er_buf rd ! er_bptr rd"
  show ?case
  proof (cases "s \<ge> 0 \<and> ?j < length (er_buf rd)")
    case False
    then have "refill_loop s rd = Inr rd" by (subst refill_loop.simps) auto
    moreover have "?j < length (er_buf rd) \<longrightarrow> er_cnt rd = 8 * int ?j - int N - 15 \<and> int N + 23 < 8 * int ?j"
      using "1.prems"(3) False by linarith
    ultimately show ?thesis using "1.prems"(1,2,4) by (intro exI[of _ rd] conjI) (assumption | rule refl)+
  next
    case True
    with "1.prems" have s: "s = 23 + int N - 8 * int ?j" "s \<le> 24" "er_cnt rd = 8 * int ?j - int N - 15"
      "2 ^ (31 + N - 8 * ?j) dvd unat (er_dif rd) + 1" by simp_all
    define n where "n = nat s"
    have n: "s = int n" "31 + N - 8 * ?j = n + 8" "n + 8 \<le> 32" "31 + N - 8 * (?j + 1) = n" "8 * (?j + 1) \<le> 31 + N"
      using True s "1.prems"(2) by (simp_all add: n_def) linarith+
    let ?rd = "rd\<lparr>er_dif := er_dif rd XOR shl (ucast ?b) s, er_cnt := er_cnt rd + 8, er_bptr := ?j + 1\<rparr>"
    note x = unat_xor_byte[OF s(4)[unfolded n(2)] n(3), of ?b, folded n(1)]
    have tk: "bval (take (?j + 1) (er_buf rd)) = bval (take ?j (er_buf rd)) * 256 + unat ?b"
      using True by (simp add: take_Suc_conv_app_nth)
    have e: "unat (er_dif ?rd) + 1 + bval (take (er_bptr ?rd) (er_buf ?rd)) * 2 ^ (31 + N - 8 * er_bptr ?rd) = T"
    proof -
      have "unat (er_dif ?rd) + 1 + (bval (take ?j (er_buf rd)) * 256 + unat ?b) * 2 ^ n =
          unat (er_dif rd) + 1 + bval (take ?j (er_buf rd)) * 2 ^ (n + 8)"
        using x by (simp add: power_add algebra_simps)
      then show ?thesis using "1.prems"(4) n(2,4) tk by simp
    qed
    have d: "2 ^ n dvd unat (er_dif ?rd) + 1"
    proof -
      have "unat (er_dif ?rd) + 1 = (unat (er_dif rd) + 1) - unat ?b * 2 ^ n" using x by simp
      moreover have "2 ^ n dvd unat (er_dif rd) + 1" using s(4) n(2) by (auto simp: power_add intro: dvd_mult_left)
      ultimately show ?thesis by (simp only: dvd_diff_nat dvd_triv_right)
    qed
    have unf: "refill_loop s rd = refill_loop (s - 8) ?rd"
      using True s(2) by (subst refill_loop.simps) (simp add: WINDOW_SIZE_def)
    have "\<exists>rd'. refill_loop (s - 8) ?rd = Inr rd' \<and> er_buf rd' = er_buf ?rd \<and> er_rng rd' = er_rng ?rd \<and>
      er_bptr rd' \<le> length (er_buf ?rd) \<and> 8 * er_bptr rd' \<le> 31 + N \<and>
      (er_bptr rd' < length (er_buf ?rd) \<longrightarrow> er_cnt rd' = 8 * int (er_bptr rd') - int N - 15 \<and> int N + 23 < 8 * int (er_bptr rd')) \<and>
      unat (er_dif rd') + 1 + bval (take (er_bptr rd') (er_buf ?rd)) * 2 ^ (31 + N - 8 * er_bptr rd') = T"
    proof (rule "1.IH"[OF True])
      show "\<not> WINDOW_SIZE - 8 < s" using s(2) by (simp add: WINDOW_SIZE_def)
      show "er_bptr ?rd < length (er_buf ?rd) \<longrightarrow> s - 8 = 23 + int N - 8 * int (er_bptr ?rd) \<and> s - 8 \<le> 24 \<and>
          er_cnt ?rd = 8 * int (er_bptr ?rd) - int N - 15 \<and> 2 ^ (31 + N - 8 * er_bptr ?rd) dvd unat (er_dif ?rd) + 1"
        using s d n(4) by simp
    qed (use True n(5) e in simp_all)
    then show ?thesis unfolding unf by simp
  qed
qed

lemma refill_ok:
  assumes "er_bptr rd \<le> length (er_buf rd)" and "8 * er_bptr rd \<le> 31 + N" and "32768 \<le> unat (er_rng rd)"
    and "er_bptr rd < length (er_buf rd) \<longrightarrow> er_cnt rd = 8 * int (er_bptr rd) - int N - 15 \<and> - 16 \<le> er_cnt rd \<and>
      2 ^ (31 + N - 8 * er_bptr rd) dvd unat (er_dif rd) + 1"
    and "unat (er_dif rd) + 1 + bval (take (er_bptr rd) (er_buf rd)) * 2 ^ (31 + N - 8 * er_bptr rd) = (L + unat (er_rng rd)) * 2 ^ 16"
  shows "\<exists>rd'. refill rd = Inr rd' \<and> dec_state rd' L N \<and> er_buf rd' = er_buf rd \<and> er_rng rd' = er_rng rd"
proof -
  let ?s = "WINDOW_SIZE - 9 - (er_cnt rd + 15)"
  have "er_bptr rd < length (er_buf rd) \<longrightarrow> ?s = 23 + int N - 8 * int (er_bptr rd) \<and> ?s \<le> 24 \<and>
      er_cnt rd = 8 * int (er_bptr rd) - int N - 15 \<and> 2 ^ (31 + N - 8 * er_bptr rd) dvd unat (er_dif rd) + 1"
    using assms(4) by (auto simp: WINDOW_SIZE_def)
  from refill_loop_ok[OF assms(1,2) this assms(5)] obtain rd' where rd': "refill_loop ?s rd = Inr rd'" "er_buf rd' = er_buf rd"
    "er_rng rd' = er_rng rd" "er_bptr rd' \<le> length (er_buf rd)" "8 * er_bptr rd' \<le> 31 + N"
    "er_bptr rd' < length (er_buf rd) \<longrightarrow> er_cnt rd' = 8 * int (er_bptr rd') - int N - 15 \<and> int N + 23 < 8 * int (er_bptr rd')"
    "unat (er_dif rd') + 1 + bval (take (er_bptr rd') (er_buf rd)) * 2 ^ (31 + N - 8 * er_bptr rd') = (L + unat (er_rng rd)) * 2 ^ 16"
    by blast
  then show ?thesis
    using assms(3) by (auto simp: refill_def dec_state_def LOTS_OF_BITS_def)
qed

lemma normalize_ok:
  fixes W D :: u32
  assumes st: "dec_state rd L0 N" and W: "0 < unat W" "unat W < 65536"
    and e: "unat D + 1 + bval (take (er_bptr rd) (er_buf rd)) * 2 ^ (31 + N - 8 * er_bptr rd) = (L + unat W) * 2 ^ 16"
    and low: "L * 2 ^ 16 \<le> bval (take (er_bptr rd) (er_buf rd)) * 2 ^ (31 + N - 8 * er_bptr rd)"
    and d_def: "d = 16 - floorlog 2 (unat W)"
  shows "\<exists>rd'. normalize D W rd = Inr rd' \<and> dec_state rd' (L * 2 ^ d) (N + d) \<and>
    er_buf rd' = er_buf rd \<and> unat (er_rng rd') = unat W * 2 ^ d"
proof -
  let ?w = "ucast W :: u16"
  have uw: "unat ?w = unat W" using W(2) by (intro unat_ucast_small) simp
  have lz: "leading_zeros ?w = d" by (simp only: leading_zeros_def uw d_def) simp
  have "0 < unat ?w" using W(1) uw by simp
  note lb = leading_zeros_bounds[OF this, unfolded lz uw]
  have d: "d < 16" "32768 \<le> unat W * 2 ^ d" "unat W * 2 ^ d < 65536" using lb by simp_all
  have "floorlog 2 (unat W) \<le> 16" using W(2) by (intro floorlog_leI) simp_all
  then have lz32: "int (leading_zeros W) - 16 = int d" by (simp add: leading_zeros_def d_def)
  let ?j = "er_bptr rd" and ?B = "bval (take (er_bptr rd) (er_buf rd))"
  let ?e = "31 + N - 8 * ?j"
  have j: "?j \<le> length (er_buf rd)" "8 * ?j \<le> 31 + N" "0 \<le> er_cnt rd"
    "?j < length (er_buf rd) \<longrightarrow> er_cnt rd = 8 * int ?j - int N - 15" using st by (simp_all add: dec_state_def)
  have D: "unat D + 1 \<le> unat W * 2 ^ 16" using e low by (simp only: distrib_right)
  then have D2: "(unat D + 1) * 2 ^ d \<le> unat W * 2 ^ d * 2 ^ 16" using mult_le_mono1[OF D, of "2 ^ d"] by (simp only: ac_simps)
  have D3: "(unat D + 1) * 2 ^ d < 2 ^ 32" using D2 d(3) by simp
  have D1: "unat (D + 1) = unat D + 1" using D W(2) by (subst unat_add_small) simp_all
  have sD: "unat (shl (D + 1) (int d)) = (unat D + 1) * 2 ^ d" using d(1) D3 by (intro unat_shl_nat D1) simp_all
  have dif: "unat (shl (D + 1) (int d) - 1) + 1 = (unat D + 1) * 2 ^ d"
  proof -
    have "unat (shl (D + 1) (int d)) \<noteq> 0" unfolding sD by simp
    then have "shl (D + 1) (int d) \<noteq> 0" by (metis unat_0)
    then show ?thesis using sD by (subst unat_minus_one) simp_all
  qed
  have "unat (shl W (int d)) = unat W * 2 ^ d" using d by (intro unat_shl_nat) simp_all
  then have rng: "unat (ucast (shl W (int d)) :: u16) = unat W * 2 ^ d" using d(3) by (subst unat_ucast_small) simp_all
  define rd1 where "rd1 = rd\<lparr>er_cnt := er_cnt rd - int d, er_dif := shl (D + 1) (int d) - 1, er_rng := ucast (shl W (int d))\<rparr>"
  have dr: "unat (er_dif rd1) + 1 = (unat D + 1) * 2 ^ d" using dif by (simp add: rd1_def)
  have norm: "normalize D W rd = (if er_cnt rd1 < 0 then refill rd1 else Inr rd1)"
    using W(2) unfolding normalize_def lz32 Let_def by (simp add: rd1_def word_less_nat_alt)
  have e1: "31 + (N + d) - 8 * ?j = ?e + d" using j(2) by simp
  have eq: "unat (er_dif rd1) + 1 + bval (take (er_bptr rd1) (er_buf rd1)) * 2 ^ (31 + (N + d) - 8 * er_bptr rd1) =
      (L * 2 ^ d + unat (er_rng rd1)) * 2 ^ 16"
  proof -
    have "(unat D + 1) * 2 ^ d + ?B * 2 ^ (?e + d) = (unat D + 1 + ?B * 2 ^ ?e) * 2 ^ d"
      by (simp only: power_add distrib_right mult.assoc)
    also have "\<dots> = (L * 2 ^ d + unat W * 2 ^ d) * 2 ^ 16" unfolding e by (simp add: algebra_simps)
    finally show ?thesis by (simp add: rd1_def dif[simplified] rng e1[simplified])
  qed
  show ?thesis
  proof (cases "er_cnt rd1 < 0")
    case False
    have "dec_state rd1 (L * 2 ^ d) (N + d)"
      unfolding dec_state_def
      using eq j d rng False by (auto simp: rd1_def)
    then show ?thesis using norm False rng by (simp add: rd1_def)
  next
    case True
    have dv: "2 ^ (?e + d) dvd unat (er_dif rd1) + 1" if "?j < length (er_buf rd)"
    proof -
      have "?e \<le> 16" using j that by linarith
      then have "2 ^ ?e dvd (L + unat W) * 2 ^ 16" by (intro dvd_mult le_imp_power_dvd)
      moreover have "unat D + 1 = (L + unat W) * 2 ^ 16 - ?B * 2 ^ ?e" using e by linarith
      ultimately have "2 ^ ?e dvd unat D + 1" by (simp only: dvd_diff_nat dvd_triv_right)
      then have "2 ^ ?e * 2 ^ d dvd (unat D + 1) * 2 ^ d" by (intro mult_dvd_mono) simp_all
      then show ?thesis by (simp only: dr power_add)
    qed
    have "\<exists>rd'. refill rd1 = Inr rd' \<and> dec_state rd' (L * 2 ^ d) (N + d) \<and> er_buf rd' = er_buf rd1 \<and> er_rng rd' = er_rng rd1"
    proof (rule refill_ok[OF _ _ _ _ eq])
      show "er_bptr rd1 < length (er_buf rd1) \<longrightarrow> er_cnt rd1 = 8 * int (er_bptr rd1) - int (N + d) - 15 \<and> - 16 \<le> er_cnt rd1 \<and>
          2 ^ (31 + (N + d) - 8 * er_bptr rd1) dvd unat (er_dif rd1) + 1"
      proof
        assume "er_bptr rd1 < length (er_buf rd1)"
        then have jk: "?j < length (er_buf rd)" by (simp add: rd1_def)
        have "31 + (N + d) - 8 * er_bptr rd1 = ?e + d" using e1 by (simp add: rd1_def)
        then show "er_cnt rd1 = 8 * int (er_bptr rd1) - int (N + d) - 15 \<and> - 16 \<le> er_cnt rd1 \<and>
          2 ^ (31 + (N + d) - 8 * er_bptr rd1) dvd unat (er_dif rd1) + 1"
          using dv[OF jk] j(3,4) jk d(1) by (simp only:) (simp add: rd1_def)
      qed
    qed (use j d rng in \<open>simp_all add: rd1_def\<close>)
    then show ?thesis using norm True rng by (auto simp: rd1_def)
  qed
qed


section \<open>One symbol\<close>

definition in_range :: "nat \<Rightarrow> nat \<Rightarrow> nat \<Rightarrow> nat \<Rightarrow> nat \<Rightarrow> bool" where
  "in_range V k L R N \<longleftrightarrow> L * 256 ^ k \<le> V * 2 ^ (15 + N) \<and> V * 2 ^ (15 + N) < (L + R) * 256 ^ k"

lemma in_range_tok:
  assumes ok: "32768 \<le> R" "tok_ok t"
    and r: "in_range V k ((L + (R - tok_upper R t)) * 2 ^ tok_shift R t) (tok_range R t) (N + tok_shift R t)"
  shows "(L + (R - tok_upper R t)) * 256 ^ k \<le> V * 2 ^ (15 + N)" and "V * 2 ^ (15 + N) < (L + (R - tok_lower R t)) * 256 ^ k"
    and "in_range V k L R N"
proof -
  let ?d = "tok_shift R t"
  have p: "V * 2 ^ (15 + (N + ?d)) = V * 2 ^ (15 + N) * 2 ^ ?d" by (simp only: add.assoc[symmetric] power_add mult.assoc)
  have "(L + (R - tok_upper R t)) * 256 ^ k * 2 ^ ?d \<le> V * 2 ^ (15 + N) * 2 ^ ?d"
    using r unfolding in_range_def p by (simp only: ac_simps)
  then show lo: "(L + (R - tok_upper R t)) * 256 ^ k \<le> V * 2 ^ (15 + N)" by simp
  have "V * 2 ^ (15 + N) * 2 ^ ?d < (L + (R - tok_lower R t)) * 256 ^ k * 2 ^ ?d"
    using r unfolding in_range_def p tok_step_upper[OF ok] by (simp only: ac_simps)
  then show up: "V * 2 ^ (15 + N) < (L + (R - tok_lower R t)) * 256 ^ k" by simp
  have "L * 256 ^ k \<le> (L + (R - tok_upper R t)) * 256 ^ k" by simp
  moreover have "(L + (R - tok_lower R t)) * 256 ^ k \<le> (L + R) * 256 ^ k" by simp
  ultimately show "in_range V k L R N" using lo up unfolding in_range_def by linarith
qed

lemma in_range_run:
  assumes "32768 \<le> R" and "R < 65536" and "\<forall>t\<in>set ts. tok_ok t"
    and "in_range V k (run_low L R ts) (run_range R ts) (N + run_shift R ts)"
  shows "in_range V k L R N"
  using assms
proof (induction ts arbitrary: L R N)
  case (Cons t ts)
  have ok: "tok_ok t" using Cons.prems(3) by simp
  note b = tok_range_bounds[OF Cons.prems(1,2) ok]
  have "in_range V k ((L + (R - tok_upper R t)) * 2 ^ tok_shift R t) (tok_range R t) (N + tok_shift R t)"
    using Cons.prems(3,4) by (intro Cons.IH[OF b(1,2)]) (simp_all add: add.assoc)
  then show ?case by (rule in_range_tok(3)[OF Cons.prems(1) ok])
qed simp

text \<open>CDFs as the encoder keeps them: decreasing values below 32768, then the count.\<close>

definition cdf_ok :: "u16 list \<Rightarrow> bool" where
  "cdf_ok cdf \<longleftrightarrow> cdf \<noteq> [] \<and> length cdf \<le> 16 \<and> (\<forall>x\<in>set (butlast cdf). x < 32768) \<and>
     sorted_wrt (\<lambda>a b. b \<le> a) (butlast cdf) \<and> last cdf < 64"

definition symbol_token :: "nat \<Rightarrow> u16 list \<Rightarrow> token" where
  "symbol_token s cdf = (if s > 0 then cdf ! (s - 1) else 32768, cdf ! s, of_nat (length cdf - s))"

lemma write_symbol_token: "s < length cdf \<Longrightarrow> write_symbol store s cdf w = Inr (store_tokens store [symbol_token s cdf] w)"
  by (simp add: write_symbol_def symbol_token_def Let_def store_tokens_def)

lemma cdf_ok_nth:
  assumes "cdf_ok cdf" and "i < length cdf"
  shows "cdf ! i < 32768" and "j \<le> i \<Longrightarrow> unat (cdf ! i) div 64 \<le> unat (cdf ! j) div 64"
proof -
  have l: "cdf ! i = last cdf" if "\<not> i < length cdf - 1"
    using that assms(2) by (simp add: last_conv_nth cdf_ok_def)
      (metis One_nat_def Suc_pred cdf_ok_def assms(1) last_conv_nth length_greater_0_conv less_antisym)
  have b: "cdf ! n = butlast cdf ! n" if "n < length cdf - 1" for n using that by (simp add: nth_butlast)
  have last64: "unat (last cdf) < 64" using assms(1) by (simp add: cdf_ok_def word_less_nat_alt)
  show "cdf ! i < 32768"
  proof (cases "i < length cdf - 1")
    case True
    then have "cdf ! i \<in> set (butlast cdf)" unfolding b[OF True] by (intro nth_mem) simp
    then show ?thesis using assms(1) by (auto simp: cdf_ok_def)
  next
    case False
    then show ?thesis using l last64 by (simp add: word_less_nat_alt)
  qed
  assume j: "j \<le> i"
  show "unat (cdf ! i) div 64 \<le> unat (cdf ! j) div 64"
  proof (cases "i < length cdf - 1")
    case True
    show ?thesis
    proof (cases "j = i")
      case False
      have "sorted_wrt (\<lambda>a b. b \<le> a) (butlast cdf)" using assms(1) by (simp add: cdf_ok_def)
      from sorted_wrt_nth_less[OF this, of j i] have "butlast cdf ! i \<le> butlast cdf ! j" using False j True by simp
      then have "unat (cdf ! i) \<le> unat (cdf ! j)" using b[of i] b[of j] True j by (simp add: word_le_nat_alt)
      then show ?thesis by (rule div_le_mono)
    qed simp
  next
    case False
    then show ?thesis using l last64 by simp
  qed
qed

lemma unat_of_nat_small: "n < 2 ^ LENGTH('a) \<Longrightarrow> unat (of_nat n :: 'a::len word) = n"
  by (simp add: unat_of_nat take_bit_nat_eq_self)

lemma symbol_count: "cdf_ok cdf \<Longrightarrow> unat (of_nat (length cdf - s) :: u16) = length cdf - s"
  by (rule unat_of_nat_small) (auto simp: cdf_ok_def)

lemma symbol_token_ok: "cdf_ok cdf \<Longrightarrow> s < length cdf \<Longrightarrow> tok_ok (symbol_token s cdf)"
  using cdf_ok_nth(1)[of cdf s] cdf_ok_nth(2)[of cdf s "s - 1"] symbol_count[of cdf s]
  by (simp add: symbol_token_def del: of_nat_diff) (auto simp: cdf_ok_def)

definition sym_lower :: "nat \<Rightarrow> u16 list \<Rightarrow> nat \<Rightarrow> nat" where
  "sym_lower R cdf i = part R (cdf ! i) + 4 * (length cdf - 1 - i)"

lemma tok_lower_symbol: "cdf_ok cdf \<Longrightarrow> s < length cdf \<Longrightarrow> tok_lower R (symbol_token s cdf) = sym_lower R cdf s"
  using symbol_count[of cdf s] by (simp add: symbol_token_def sym_lower_def del: of_nat_diff)

lemma tok_upper_symbol:
  "cdf_ok cdf \<Longrightarrow> s < length cdf \<Longrightarrow> tok_upper R (symbol_token s cdf) = (if s = 0 then R else sym_lower R cdf (s - 1))"
proof (cases "s = 0")
  case False
  assume c: "cdf_ok cdf" "s < length cdf"
  then have "\<not> 32768 \<le> cdf ! (s - 1)" using cdf_ok_nth(1)[of cdf "s - 1"] by (simp add: not_le)
  then show ?thesis using symbol_count[OF c(1), of s] False c(2) by (simp add: symbol_token_def sym_lower_def del: of_nat_diff)
qed (simp add: symbol_token_def)

lemma sym_lower_mono: "cdf_ok cdf \<Longrightarrow> i \<le> j \<Longrightarrow> j < length cdf \<Longrightarrow> sym_lower R cdf j \<le> sym_lower R cdf i"
  unfolding sym_lower_def by (intro add_mono part_mono cdf_ok_nth(2)) simp_all


lemma sym_bound_ok:
  assumes c: "cdf_ok cdf" and i: "i < length cdf" and r: "unat r < 65536"
  shows "\<exists>v. sym_bound r cdf i = Inr v \<and> unat v = sym_lower (unat r) cdf i"
proof -
  have f16: "unat (cdf ! i) < 65536" using unsigned_less[of "cdf ! i", where ?'a = nat] by simp
  have m: "unat r div 256 * (unat (cdf ! i) div 64) \<le> 255 * 1023" using r f16 by (intro mult_le_mono) auto
  have p: "unat (drop_bit 1 (drop_bit 8 r * drop_bit 6 (ucast (cdf ! i)))) = part (unat r) (cdf ! i)"
  proof -
    have "unat (drop_bit 8 r * drop_bit 6 (ucast (cdf ! i))) = unat r div 256 * (unat (cdf ! i) div 64)"
      using m by (subst unat_mult_small) (simp_all add: unat_drop_bit unat_ucast_up)
    then show ?thesis by (simp add: unat_drop_bit part_def)
  qed
  have l16: "length cdf \<le> 16" using c by (simp add: cdf_ok_def)
  have n: "(of_nat (length cdf) - 1 - of_nat i :: u32) = of_nat (length cdf - 1 - i)" using i by (simp add: of_nat_diff)
  have n4: "unat (4 * of_nat (length cdf - 1 - i) :: u32) = 4 * (length cdf - 1 - i)"
    using l16 by (subst unat_mult_small) (simp_all add: unat_of_nat_small del: of_nat_diff)
  have pb: "part (unat r) (cdf ! i) \<le> 255 * 1023" using m unfolding part_def by linarith
  have "unat (drop_bit 1 (drop_bit 8 r * drop_bit 6 (ucast (cdf ! i))) + 4 * of_nat (length cdf - 1 - i)) = sym_lower (unat r) cdf i"
    using l16 pb by (subst unat_add_small) (simp_all only: p n4 sym_lower_def, simp)
  then show ?thesis
    using i unfolding sym_bound_def n EC_PROB_SHIFT_def EC_MIN_PROB_def by simp
qed

lemma symbol_loop_ok:
  assumes c: "cdf_ok cdf" and s: "s < length cdf" and r: "unat r < 65536" and i: "i \<le> s"
    and v: "unat v = sym_lower (unat r) cdf i" and u: "unat u = tok_upper (unat r) (symbol_token i cdf)"
    and lo: "\<And>j. j < s \<Longrightarrow> unat c' < sym_lower (unat r) cdf j" and hi: "sym_lower (unat r) cdf s \<le> unat c'"
  shows "\<exists>u' v'. symbol_loop c' r cdf u v i = Inr (u', v', s) \<and> unat u' = tok_upper (unat r) (symbol_token s cdf) \<and>
    unat v' = sym_lower (unat r) cdf s"
  using i v u
proof (induction "s - i" arbitrary: i u v)
  case 0
  then have "i = s" by simp
  with 0 hi show ?case by (subst symbol_loop.simps) (simp add: word_less_nat_alt)
next
  case (Suc n)
  then have lt: "i < s" by simp
  obtain v' where v': "sym_bound r cdf (i + 1) = Inr v'" "unat v' = sym_lower (unat r) cdf (i + 1)"
    using sym_bound_ok[OF c _ r, of "i + 1"] lt s by auto
  have "unat v = tok_upper (unat r) (symbol_token (i + 1) cdf)"
    using tok_upper_symbol[OF c, of "i + 1" "unat r"] lt s Suc.prems(2) by simp
  moreover have "n = s - (i + 1)" "i + 1 \<le> s" using Suc.hyps(2) lt by linarith+
  ultimately obtain u'' v'' where "symbol_loop c' r cdf v v' (i + 1) = Inr (u'', v'', s)" "unat u'' = tok_upper (unat r) (symbol_token s cdf)"
    "unat v'' = sym_lower (unat r) cdf s" using Suc.hyps(1)[of "i + 1" v' v] v'(2) by blast
  moreover have "c' < v" using lo[OF lt] Suc.prems(2) by (simp add: word_less_nat_alt)
  ultimately show ?case using v'(1) lt s by (subst symbol_loop.simps) simp
qed

text \<open>The facts about the window that one decoding step uses, with \<open>t\<close> the token coded.\<close>

lemma window_step:
  assumes st: "dec_state rd L N" and R: "R = unat (er_rng rd)" and ok: "tok_ok t" and buf: "er_buf rd = buf"
    and r: "in_range (bval buf) (length buf) ((L + (R - tok_upper R t)) * 2 ^ tok_shift R t) (tok_range R t) (N + tok_shift R t)"
  shows "tok_lower R t * 2 ^ 16 \<le> unat (er_dif rd)" and "unat (er_dif rd) < tok_upper R t * 2 ^ 16"
    and "(L + (R - tok_upper R t)) * 2 ^ 16 \<le> bval (take (er_bptr rd) buf) * 2 ^ (31 + N - 8 * er_bptr rd)"
    and "unat (er_dif rd) - tok_lower R t * 2 ^ 16 + 1 + bval (take (er_bptr rd) buf) * 2 ^ (31 + N - 8 * er_bptr rd) =
      (L + (R - tok_upper R t) + tok_width R t) * 2 ^ 16"
proof -
  let ?B = "bval (take (er_bptr rd) buf) * 2 ^ (31 + N - 8 * er_bptr rd)"
  have R': "32768 \<le> R" and e: "unat (er_dif rd) + 1 + ?B = (L + R) * 2 ^ 16" using st by (simp_all add: dec_state_def R buf)
  note tb = tok_bounds[OF R' ok]
  note ir = in_range_tok[OF R' ok r]
  note we = window_exact[OF st, unfolded buf]
  show lo: "(L + (R - tok_upper R t)) * 2 ^ 16 \<le> ?B" using ir(1) we by blast
  have hi: "?B < (L + (R - tok_lower R t)) * 2 ^ 16" using ir(2) we[of "L + (R - tok_lower R t)"] by linarith
  have "L + R = L + (R - tok_upper R t) + tok_upper R t" using tb by simp
  then have up: "(L + R) * 2 ^ 16 = (L + (R - tok_upper R t)) * 2 ^ 16 + tok_upper R t * 2 ^ 16" by (metis distrib_right)
  have "L + R = L + (R - tok_lower R t) + tok_lower R t" using tb by simp
  then have dn: "(L + R) * 2 ^ 16 = (L + (R - tok_lower R t)) * 2 ^ 16 + tok_lower R t * 2 ^ 16" by (metis distrib_right)
  show l: "tok_lower R t * 2 ^ 16 \<le> unat (er_dif rd)" using e hi dn by linarith
  show "unat (er_dif rd) < tok_upper R t * 2 ^ 16" using e lo up by linarith
  have "L + (R - tok_upper R t) + tok_width R t = L + (R - tok_lower R t)" using tb by (simp add: tok_width_def)
  then show "unat (er_dif rd) - tok_lower R t * 2 ^ 16 + 1 + ?B = (L + (R - tok_upper R t) + tok_width R t) * 2 ^ 16"
    using e l dn by (simp only:)
qed

lemma read_symbol_ok:
  assumes st: "dec_state rd L N" and R: "R = unat (er_rng rd)" and c: "cdf_ok cdf" "s < length cdf" and t: "t = symbol_token s cdf"
    and buf: "er_buf rd = buf"
    and r: "in_range (bval buf) (length buf) ((L + (R - tok_upper R t)) * 2 ^ tok_shift R t) (tok_range R t) (N + tok_shift R t)"
  shows "\<exists>rd'. read_symbol cdf rd = Inr (s, rd') \<and> dec_state rd' ((L + (R - tok_upper R t)) * 2 ^ tok_shift R t) (N + tok_shift R t) \<and>
    er_buf rd' = buf \<and> unat (er_rng rd') = tok_range R t"
proof -
  have R': "32768 \<le> R" "R < 65536" using st unsigned_less[of "er_rng rd", where ?'a = nat] by (simp_all add: dec_state_def R)
  have ok: "tok_ok t" unfolding t by (rule symbol_token_ok[OF c])
  note tb = tok_bounds[OF R'(1) ok]
  note ws = window_step[OF st R ok buf r]
  let ?r = "ucast (er_rng rd) :: u32" and ?c = "shr (er_dif rd) 16"
  have ur: "unat ?r = R" by (simp add: R unat_ucast_up)
  have uc: "unat ?c = unat (er_dif rd) div 65536" by (subst unat_shr) simp_all
  have lt: "unat ?c < x \<longleftrightarrow> unat (er_dif rd) < x * 2 ^ 16" for x unfolding uc by (simp add: less_mult_imp_div_less div_less_iff_less_mult)
  have "unat (er_dif rd) < R * 2 ^ 16" using ws(2) tb(2) by (simp add: less_le_trans)
  then have a1: "?c < ?r" "32768 \<le> ?r" using R' lt[of R] by (simp_all add: word_less_nat_alt word_le_nat_alt ur)
  have low: "tok_lower R t = sym_lower R cdf s" unfolding t by (rule tok_lower_symbol[OF c])
  obtain v0 where v0: "sym_bound ?r cdf 0 = Inr v0" "unat v0 = sym_lower R cdf 0"
    using sym_bound_ok[OF c(1) le_less_trans[OF le0 c(2)], of ?r] R' unfolding ur by blast
  have "unat ?c < sym_lower R cdf j" if "j < s" for j
  proof -
    have "tok_upper R t = sym_lower R cdf (s - 1)" using tok_upper_symbol[OF c] that by (simp add: t)
    also have "\<dots> \<le> sym_lower R cdf j" using that c(2) by (intro sym_lower_mono[OF c(1)]) simp_all
    finally show ?thesis using ws(2) unfolding lt by simp
  qed
  moreover have "sym_lower R cdf s \<le> unat ?c" using ws(1) lt[of "sym_lower R cdf s"] by (simp add: low not_less[symmetric])
  moreover have "unat ?r = tok_upper (unat ?r) (symbol_token 0 cdf)" using c by (subst tok_upper_symbol) auto
  ultimately obtain u v where uv0: "symbol_loop ?c ?r cdf ?r v0 0 = Inr (u, v, s)"
      "unat u = tok_upper R (symbol_token s cdf)" "unat v = sym_lower R cdf s"
    using symbol_loop_ok[OF c, of ?r 0 v0 ?r ?c] R' v0 unfolding ur by auto
  have uv: "symbol_loop ?c ?r cdf ?r v0 0 = Inr (u, v, s)" "unat u = tok_upper R t" "unat v = tok_lower R t"
    by (rule uv0(1), simp only: t uv0(2), simp only: low uv0(3))
  have a2: "v < u" "u \<le> ?r" using tb by (simp_all add: word_less_nat_alt word_le_nat_alt uv ur)
  have "unat (u - v) = tok_width R t" using a2(1) uv by (subst unat_sub) (simp_all add: tok_width_def)
  note W = this
  have "unat (shl v (int 16)) = tok_lower R t * 2 ^ 16"
    using tb R' uv(3) by (intro unat_shl_nat) simp_all
  then have D: "unat (er_dif rd - shl v 16) = unat (er_dif rd) - tok_lower R t * 2 ^ 16"
    using ws(1) by (subst unat_sub) (simp_all add: word_le_nat_alt)
  have d: "tok_shift R t = 16 - floorlog 2 (unat (u - v))" by (simp add: tok_shift_def W)
  have W0: "0 < unat (u - v)" "unat (u - v) < 65536" unfolding W tok_width_def using tb R' by linarith+
  obtain rd' where rd': "normalize (er_dif rd - shl v 16) (u - v) rd = Inr rd'"
    "dec_state rd' ((L + (R - tok_upper R t)) * 2 ^ tok_shift R t) (N + tok_shift R t)"
    "er_buf rd' = er_buf rd" "unat (er_rng rd') = unat (u - v) * 2 ^ tok_shift R t"
    using normalize_ok[OF st W0 _ _ d, of "er_dif rd - shl v 16" "L + (R - tok_upper R t)", unfolded D W buf, OF ws(4,3)]
    unfolding W buf by blast
  have "read_symbol cdf rd = Inr (s, rd')"
    using a1 a2 v0(1) uv(1) rd'(1) unfolding read_symbol_def Let_def WINDOW_SIZE_def by simp
  then show ?thesis using rd' by (simp add: W tok_range_def buf)
qed

end
