(* ===== verification/Av1_EcAdapt.thy ===== *)
theory Av1_EcAdapt
  imports Av1_EcRound
begin

text \<open>
  Adaptation keeps CDFs well formed: \<open>update_cdf\<close> moves each value a fraction of
  the way to 0 or to 32768, by its position, and counts up to 32. The facts
  about \<open>cdf_ok\<close> are what the coder needs of the contexts it is given.
\<close>

section \<open>A loop over indices\<close>

lemma fold_update_upt:
  assumes "m \<le> length xs"
  shows "fold (\<lambda>i ys. ys[i := f i (ys ! i)]) [0..<m] xs = map (\<lambda>i. if i < m then f i (xs ! i) else xs ! i) [0..<length xs]"
  using assms
proof (induction m)
  case (Suc m)
  then have m: "m < length xs" by simp
  have "fold (\<lambda>i ys. ys[i := f i (ys ! i)]) [0..<Suc m] xs =
      (map (\<lambda>i. if i < m then f i (xs ! i) else xs ! i) [0..<length xs])[m := f m (xs ! m)]"
    using Suc m by simp
  also have "\<dots> = map (\<lambda>i. if i < Suc m then f i (xs ! i) else xs ! i) [0..<length xs]"
    by (rule nth_equalityI) (auto simp: nth_list_update less_Suc_eq)
  finally show ?case .
qed (simp add: map_nth)

section \<open>One step towards a bound\<close>

definition cdf_rate :: "u16 list \<Rightarrow> nat" where
  "cdf_rate cdf = 3 + min (length cdf div 2) 2 + unat (drop_bit 4 (last cdf))"

definition cdf_step :: "nat \<Rightarrow> u32 \<Rightarrow> nat \<Rightarrow> u16 \<Rightarrow> u16" where
  "cdf_step r val i v = (if of_nat i \<ge> val then v - shr v (int r) else v + shr (32768 - v) (int r))"

lemma cdf_rate_bounds: "last cdf < 64 \<Longrightarrow> 3 \<le> cdf_rate cdf \<and> cdf_rate cdf < 16"
  by (auto simp: cdf_rate_def unat_drop_bit word_less_nat_alt)

lemma cdf_step_down: "val \<le> of_nat i \<Longrightarrow> r < 16 \<Longrightarrow> unat (cdf_step r val i v) = unat v - unat v div 2 ^ r"
proof -
  assume a: "val \<le> of_nat i" "r < 16"
  have s: "unat (shr v (int r)) = unat v div 2 ^ r" using a(2) by (subst unat_shr) simp_all
  have "shr v (int r) \<le> v" by (simp add: word_le_nat_alt s)
  from unat_sub[OF this] show ?thesis using a(1) by (simp add: cdf_step_def s)
qed

lemma cdf_step_up:
  assumes "\<not> val \<le> of_nat i" and "r < 16" and "v < 32768"
  shows "unat (cdf_step r val i v) = unat v + (32768 - unat v) div 2 ^ r"
proof -
  have v: "unat v < 32768" using assms(3) by (simp add: word_less_nat_alt)
  have d: "unat (32768 - v) = 32768 - unat v" using assms(3) by (subst unat_sub) (simp_all add: less_imp_le)
  have s: "unat (shr (32768 - v) (int r)) = (32768 - unat v) div 2 ^ r"
    using assms(2) by (subst unat_shr) (simp_all add: d)
  have "(32768 - unat v) div 2 ^ r \<le> 32768 - unat v" by simp
  then have "unat v + (32768 - unat v) div 2 ^ r \<le> 32768" using v by linarith
  then have "unat v + (32768 - unat v) div 2 ^ r < 2 ^ 16" by (rule le_less_trans) simp
  then show ?thesis using assms(1) by (simp add: cdf_step_def) (subst unat_add_small, simp_all add: s)
qed

lemma down_mono: "a \<le> b \<Longrightarrow> a - a div k \<le> b - b div (k :: nat)"
proof -
  assume ab: "a \<le> b"
  have "b - a + a = b" using ab by simp
  have "b div k \<le> a div k + (b - a)"
  proof (cases "k = 0")
    case False
    have "b div k \<le> (a + (b - a) * k) div k" using False ab
      by (intro div_le_mono) (metis Suc_leI add_mono_thms_linordered_semiring(2) le_add_diff_inverse mult.commute mult_le_mono1 nat_mult_1 neq0_conv One_nat_def)
    then show ?thesis using False by simp
  qed simp
  moreover have "b div k \<le> b" "a div k \<le> a" by simp_all
  ultimately show ?thesis using ab by linarith
qed

lemma up_mono: "a \<le> b \<Longrightarrow> b \<le> c \<Longrightarrow> a + (c - a) div k \<le> b + (c - b) div (k :: nat)"
proof -
  assume ab: "a \<le> b" "b \<le> c"
  have "(c - b) - (c - b) div k \<le> (c - a) - (c - a) div k" using ab by (intro down_mono) simp
  moreover have "(c - b) div k \<le> c - b" "(c - a) div k \<le> c - a" by simp_all
  ultimately show ?thesis using ab by linarith
qed

lemma cdf_step_mono:
  assumes "v < 32768" "v' \<le> v" "i \<le> j" "j < 2 ^ 32" and r: "r < 16"
  shows "cdf_step r val j v' \<le> cdf_step r val i v"
proof -
  have v: "unat v' \<le> unat v" "unat v < 32768" "v' < 32768" using assms(1,2) by (simp_all add: word_le_nat_alt word_less_nat_alt)
  have ij: "val \<le> of_nat i \<Longrightarrow> val \<le> of_nat j" using assms(3,4)
    by (erule_tac order_trans) (simp add: word_le_nat_alt unat_of_nat take_bit_nat_eq_self)
  consider "val \<le> of_nat i" "val \<le> of_nat j" | "\<not> val \<le> of_nat i" "val \<le> of_nat j" | "\<not> val \<le> of_nat i" "\<not> val \<le> of_nat j"
    using ij by blast
  then have "unat (cdf_step r val j v') \<le> unat (cdf_step r val i v)"
  proof cases
    case 1
    then show ?thesis using v(1) by (simp add: cdf_step_down r down_mono)
  next
    case 2
    have "unat v' - unat v' div 2 ^ r \<le> unat v" using v(1) by linarith
    then show ?thesis by (simp only: cdf_step_down[OF 2(2) r] cdf_step_up[OF 2(1) r assms(1)] trans_le_add1)
  next
    case 3
    show ?thesis using v up_mono[of "unat v'" "unat v" 32768 "2 ^ r"]
      by (simp only: cdf_step_up[OF 3(2) r v(3)] cdf_step_up[OF 3(1) r assms(1)])
  qed
  then show ?thesis by (simp add: word_le_nat_alt)
qed

lemma cdf_step_less: "v < 32768 \<Longrightarrow> 0 < r \<Longrightarrow> r < 16 \<Longrightarrow> cdf_step r val i v < 32768"
proof (cases "val \<le> of_nat i")
  case True
  assume a: "v < 32768" "0 < r" "r < 16"
  have "unat v < 32768" using a(1) by (simp add: word_less_nat_alt)
  then have "unat v - unat v div 2 ^ r < 32768" by (rule le_less_trans[OF diff_le_self])
  then show ?thesis using cdf_step_down[OF True a(3), of v] by (simp add: word_less_nat_alt)
next
  case False
  assume a: "v < 32768" "0 < r" "r < 16"
  have v: "unat v < 32768" using a(1) by (simp add: word_less_nat_alt)
  have "(1 :: nat) < 2 ^ r" using a(2) by (intro one_less_power) simp_all
  then have "(32768 - unat v) div 2 ^ r < 32768 - unat v" using v by (intro div_less_dividend) simp_all
  then show ?thesis using cdf_step_up[OF False a(3,1)] v by (simp add: word_less_nat_alt)
qed

section \<open>The whole update\<close>

lemma update_cdf_step:
  "cdf \<noteq> [] \<Longrightarrow> length cdf \<le> 16 \<Longrightarrow> update_cdf cdf val =
     map (\<lambda>i. if i < length cdf - 1 then cdf_step (cdf_rate cdf) val i (cdf ! i) else last cdf + (1 - drop_bit 5 (last cdf))) [0..<length cdf]"
proof -
  assume c: "cdf \<noteq> []" "length cdf \<le> 16"
  define xs where "xs = cdf[length cdf - 1 := last cdf + (1 - drop_bit 5 (last cdf))]"
  have m: "min (length cdf - 1) (CDF_LEN_MAX - 1) = length cdf - 1" using c by (simp add: CDF_LEN_MAX_def)
  have "update_cdf cdf val = fold (\<lambda>i cdf'. cdf'[i := cdf_step (cdf_rate cdf) val i (cdf' ! i)]) [0..<length cdf - 1] xs"
    unfolding update_cdf_def Let_def m xs_def cdf_step_def cdf_rate_def using c by simp
  also have "\<dots> = map (\<lambda>i. if i < length cdf - 1 then cdf_step (cdf_rate cdf) val i (xs ! i) else xs ! i) [0..<length cdf]"
    by (subst fold_update_upt) (simp_all add: xs_def)
  also have "\<dots> = map (\<lambda>i. if i < length cdf - 1 then cdf_step (cdf_rate cdf) val i (cdf ! i) else last cdf + (1 - drop_bit 5 (last cdf))) [0..<length cdf]"
    using c by (intro map_cong refl) (auto simp: xs_def nth_list_update)
  finally show ?thesis .
qed

lemma cdf_count_step: "c < 64 \<Longrightarrow> c + (1 - drop_bit 5 c) < (64 :: u16)"
proof -
  assume c: "c < 64"
  then have u: "unat c < 64" by (simp add: word_less_nat_alt)
  have d: "unat (drop_bit 5 c) = unat c div 32" by (simp add: unat_drop_bit)
  have "drop_bit 5 c \<le> 1" using u by (simp add: word_le_nat_alt d)
  then have s: "unat (1 - drop_bit 5 c) = 1 - unat c div 32" by (subst unat_sub) (simp_all add: d)
  have "unat (c + (1 - drop_bit 5 c)) = unat c + (1 - unat c div 32)" using u by (subst unat_add_small) (simp_all add: s)
  moreover have "unat c + (1 - unat c div 32) < 64" using u by (cases "unat c < 32") simp_all
  ultimately show ?thesis by (simp add: word_less_nat_alt)
qed

lemma update_cdf_length: "cdf_ok cdf \<Longrightarrow> length (update_cdf cdf val) = length cdf"
  by (simp add: cdf_ok_def update_cdf_step)

lemma update_cdf_ok:
  assumes "cdf_ok cdf"
  shows "cdf_ok (update_cdf cdf val)"
proof -
  let ?n = "length cdf" and ?r = "cdf_rate cdf" and ?u = "update_cdf cdf val"
  have c: "cdf \<noteq> []" "?n \<le> 16" "\<forall>x\<in>set (butlast cdf). x < 32768" "sorted_wrt (\<lambda>a b. b \<le> a) (butlast cdf)" "last cdf < 64"
    using assms by (simp_all add: cdf_ok_def)
  have r: "0 < ?r" "?r < 16" using cdf_rate_bounds[OF c(5)] by simp_all
  have eq: "?u = map (\<lambda>i. cdf_step ?r val i (cdf ! i)) [0..<?n - 1] @ [last cdf + (1 - drop_bit 5 (last cdf))]"
  proof -
    have u: "[0..<?n] = [0..<?n - 1] @ [?n - 1]" using c(1) by (cases ?n) simp_all
    show ?thesis unfolding update_cdf_step[OF c(1,2)] u map_append using c(1) by simp
  qed
  have nth: "cdf ! i = butlast cdf ! i" "i < length (butlast cdf)" if "i < ?n - 1" for i using that by (simp_all add: nth_butlast)
  have lt: "cdf ! i < 32768" if "i < ?n - 1" for i using c(3) nth[OF that] nth_mem by metis
  have mono: "cdf ! j \<le> cdf ! i" if "i < j" "j < ?n - 1" for i j
    using sorted_wrt_nth_less[OF c(4) that(1)] nth(2)[OF that(2)] nth(1)[OF that(2)] nth(1)[of i] that by simp
  have "sorted_wrt (\<lambda>a b. b \<le> a) (map (\<lambda>i. cdf_step ?r val i (cdf ! i)) [0..<?n - 1])"
    unfolding sorted_wrt_iff_nth_less
  proof (intro allI impI)
    fix i j assume ij: "i < j" "j < length (map (\<lambda>i. cdf_step ?r val i (cdf ! i)) [0..<?n - 1])"
    then have "j < ?n - 1" by simp
    moreover from this have "cdf_step ?r val j (cdf ! j) \<le> cdf_step ?r val i (cdf ! i)"
      using ij(1) c(2) lt[of i] mono[OF ij(1)] r(2) by (intro cdf_step_mono) simp_all
    ultimately show "map (\<lambda>i. cdf_step ?r val i (cdf ! i)) [0..<?n - 1] ! j \<le> map (\<lambda>i. cdf_step ?r val i (cdf ! i)) [0..<?n - 1] ! i"
      using ij(1) by simp
  qed
  moreover have "\<forall>x\<in>set (map (\<lambda>i. cdf_step ?r val i (cdf ! i)) [0..<?n - 1]). x < 32768" using lt r by (auto intro: cdf_step_less)
  ultimately show ?thesis using c(2) cdf_count_step[OF c(5)] c(1) unfolding cdf_ok_def eq by simp
qed

end
