(* ===== verification/Av1_Cdf.thy ===== *)
theory Av1_Cdf
  imports Av1_EcAdapt
begin

text \<open>
  The tables CDF contexts start from: \<open>src/src/util/cdf.rs\<close> turns the values of a
  table, increasing towards 32768, into the decreasing CDFs with a count that the
  coder works on. A table of CDFs is a nested list in the order of the source's
  array; \<open>rows\<close> states its shape and a property of its elements, and
  \<open>vars_ok\<close> is what the values of one CDF satisfy.
\<close>

definition cdf_1d :: "nat \<Rightarrow> nat list \<Rightarrow> u16 list" where
  "cdf_1d n vars = map (\<lambda>v. 32768 - of_nat v) vars @ replicate (n - length vars) 0"

definition cdf_2d :: "nat \<Rightarrow> nat list list \<Rightarrow> u16 list list" where
  "cdf_2d n = map (cdf_1d n)"

definition cdf_3d :: "nat \<Rightarrow> nat list list list \<Rightarrow> u16 list list list" where
  "cdf_3d n = map (cdf_2d n)"

definition cdf_4d :: "nat \<Rightarrow> nat list list list list \<Rightarrow> u16 list list list list" where
  "cdf_4d n = map (cdf_3d n)"

definition cdf_5d :: "nat \<Rightarrow> nat list list list list list \<Rightarrow> u16 list list list list list" where
  "cdf_5d n = map (cdf_4d n)"

section \<open>What a table satisfies\<close>

primrec vars_from :: "nat \<Rightarrow> nat list \<Rightarrow> bool" where
  "vars_from a [] \<longleftrightarrow> a \<le> 32768"
| "vars_from a (v # vs) \<longleftrightarrow> a \<le> v \<and> vars_from v vs"

definition vars_ok :: "nat \<Rightarrow> nat list \<Rightarrow> bool" where
  "vars_ok n vs \<longleftrightarrow> length vs < n \<and> n \<le> 16 \<and> vars_from 1 vs"

definition rows :: "nat \<Rightarrow> ('a \<Rightarrow> bool) \<Rightarrow> 'a list \<Rightarrow> bool" where
  "rows k P xs \<longleftrightarrow> length xs = k \<and> list_all P xs"

text \<open>One CDF as an element of the context: its length, and what the coder needs.\<close>

definition cdf_at :: "nat \<Rightarrow> u16 list \<Rightarrow> bool" where
  "cdf_at n c \<longleftrightarrow> length c = n \<and> cdf_ok c"

lemma rows_concat: "rows a (rows b P) xs \<Longrightarrow> rows (a * b) P (concat xs)"
  by (induction xs arbitrary: a) (auto simp: rows_def list_all_iff)

lemma rows_map: "rows a P xs \<Longrightarrow> (\<And>x. P x \<Longrightarrow> Q (f x)) \<Longrightarrow> rows a Q (map f xs)"
  by (auto simp: rows_def list_all_iff)

lemma rows_nth: "rows a P xs \<Longrightarrow> i < a \<Longrightarrow> P (xs ! i)"
  by (auto simp: rows_def list_all_length)

lemma vars_from_sorted: "vars_from a vs \<Longrightarrow> a \<le> 32768 \<and> sorted_wrt (\<le>) (a # vs) \<and> (\<forall>v\<in>set vs. v \<le> 32768)"
proof (induction vs arbitrary: a)
  case (Cons v vs)
  then have "v \<le> 32768" "sorted_wrt (\<le>) (v # vs)" "\<forall>v\<in>set vs. v \<le> 32768" "a \<le> v" by auto
  then show ?case by auto
qed simp

lemma cdf_ok_cdf:
  assumes "vars_ok n vs"
  shows "cdf_at n (cdf_1d n vs)"
proof -
  have n: "length vs < n" "n \<le> 16" and v: "vars_from 1 vs" using assms by (simp_all add: vars_ok_def)
  have s: "sorted_wrt (\<le>) vs" "\<forall>v\<in>set vs. 1 \<le> v \<and> v \<le> 32768" using vars_from_sorted[OF v] by auto
  have u: "unat (32768 - of_nat v :: u16) = 32768 - v" if "v \<le> 32768" for v
  proof -
    have w: "unat (of_nat v :: u16) = v" using that by (intro unat_of_nat_small) simp
    then show ?thesis using that by (subst unat_sub) (simp_all add: word_le_nat_alt)
  qed
  obtain k where k: "n - length vs = Suc k" using n(1) by (cases "n - length vs") simp_all
  have "cdf_1d n vs = (map (\<lambda>v. 32768 - of_nat v) vs @ replicate k 0) @ [0]" by (simp add: cdf_1d_def k replicate_append_same)
  then have b: "butlast (cdf_1d n vs) = map (\<lambda>v. 32768 - of_nat v) vs @ replicate k 0" "last (cdf_1d n vs) = 0"
    by (simp_all only: butlast_snoc last_snoc)
  have "sorted_wrt (\<lambda>a b. b \<le> (a :: u16)) (map (\<lambda>v. 32768 - of_nat v) vs)"
    using s by (auto simp: sorted_wrt_map word_le_nat_alt u intro!: sorted_wrt_mono_rel[OF _ s(1)])
  moreover have "(32768 - of_nat v :: u16) < 32768" if "v \<in> set vs" for v
  proof -
    have "1 \<le> v" "v \<le> 32768" using s(2) that by blast+
    then show ?thesis by (simp add: word_less_nat_alt u)
  qed
  moreover have "sorted_wrt (\<lambda>a b. b \<le> (a :: u16)) (replicate k 0)" by (induction k) simp_all
  ultimately show ?thesis
    using n by (auto simp: cdf_at_def cdf_ok_def b sorted_wrt_append) (auto simp: cdf_1d_def)
qed

lemma cdf_at_zeros: "0 < n \<Longrightarrow> n \<le> 16 \<Longrightarrow> cdf_at n (replicate n 0)"
  using cdf_ok_cdf[of n "[]"] by (simp add: cdf_1d_def vars_ok_def)

lemma rows_cdf_2d: "rows a (vars_ok n) xs \<Longrightarrow> rows a (cdf_at n) (cdf_2d n xs)"
  unfolding cdf_2d_def by (erule rows_map) (rule cdf_ok_cdf)

lemma rows_cdf_3d: "rows a (rows b (vars_ok n)) xs \<Longrightarrow> rows a (rows b (cdf_at n)) (cdf_3d n xs)"
  unfolding cdf_3d_def by (erule rows_map) (rule rows_cdf_2d)

lemma rows_cdf_4d: "rows a (rows b (rows c (vars_ok n))) xs \<Longrightarrow> rows a (rows b (rows c (cdf_at n))) (cdf_4d n xs)"
  unfolding cdf_4d_def by (erule rows_map) (rule rows_cdf_3d)

lemma rows_cdf_5d:
  "rows a (rows b (rows c (rows d (vars_ok n)))) xs \<Longrightarrow> rows a (rows b (rows c (rows d (cdf_at n)))) (cdf_5d n xs)"
  unfolding cdf_5d_def by (erule rows_map) (rule rows_cdf_4d)

text \<open>How a table's values are checked.\<close>

lemmas table_simps = rows_def vars_ok_def list.pred_inject vars_from.simps list.size

end
