(* ===== verification/Av1_CdfTokens.thy ===== *)
theory Av1_CdfTokens
  imports Av1_Cdf
begin

text \<open>
  The default CDFs of \<open>src/src/token_cdfs.rs\<close> for the end of block, its extra bits, the
  skip flag and the sign, one table per range of the base quantizer; a table of
  more than 150 lines is defined in pieces.
\<close>

definition av1_default_dc_sign_cdfs :: "u16 list list list list" where
  "av1_default_dc_sign_cdfs = cdf_4d 2
    [[[[16000], [13056], [18816]], [[15232], [12928], [17280]]], [[[16000], [13056], [18816]], [[15232], [12928], [17280]]], [[[16000],
    [13056], [18816]], [[15232], [12928], [17280]]], [[[16000], [13056], [18816]], [[15232], [12928], [17280]]]]"

lemma av1_default_dc_sign_cdfs_ok: "rows 4 (rows 2 (rows 3 (cdf_at 2))) av1_default_dc_sign_cdfs"
  unfolding av1_default_dc_sign_cdfs_def by (rule rows_cdf_4d) (simp add: table_simps)

definition av1_default_txb_skip_cdfs_0 :: "nat list list list" where
  "av1_default_txb_skip_cdfs_0 =
    [[[31849], [5892], [12112], [21935], [20289], [27473], [32487], [7654], [19473], [29984], [9961], [30242], [32117]], [[31548], [1549],
    [10130], [16656], [18591], [26308], [32537], [5403], [18096], [30003], [16384], [16384], [16384]], [[29957], [5391], [18039], [23566],
    [22431], [25822], [32197], [3778], [15336], [28981], [16384], [16384], [16384]], [[17920], [1818], [7282], [25273], [10923], [31554],
    [32624], [1366], [15628], [30462], [146], [5132], [31657]], [[6308], [117], [1638], [2161], [16384], [10923], [30247], [16384], [16384],
    [16384], [16384], [16384], [16384]]]"

lemma av1_default_txb_skip_cdfs_0_ok: "rows 5 (rows 13 (vars_ok 2)) av1_default_txb_skip_cdfs_0"
  by (simp add: av1_default_txb_skip_cdfs_0_def table_simps)

definition av1_default_txb_skip_cdfs_1 :: "nat list list list" where
  "av1_default_txb_skip_cdfs_1 =
    [[[30371], [7570], [13155], [20751], [20969], [27067], [32013], [5495], [17942], [28280], [16384], [16384], [16384]], [[31782], [1836],
    [10689], [17604], [21622], [27518], [32399], [4419], [16294], [28345], [16384], [16384], [16384]], [[31901], [10311], [18047], [24806],
    [23288], [27914], [32296], [4215], [15756], [28341], [16384], [16384], [16384]], [[26726], [1045], [11703], [20590], [18554], [25970],
    [31938], [5583], [21313], [29390], [641], [22265], [31452]], [[26584], [188], [8847], [24519], [22938], [30583], [32608], [16384],
    [16384], [16384], [16384], [16384], [16384]]]"

lemma av1_default_txb_skip_cdfs_1_ok: "rows 5 (rows 13 (vars_ok 2)) av1_default_txb_skip_cdfs_1"
  by (simp add: av1_default_txb_skip_cdfs_1_def table_simps)

definition av1_default_txb_skip_cdfs_2 :: "nat list list list" where
  "av1_default_txb_skip_cdfs_2 =
    [[[29614], [9068], [12924], [19538], [17737], [24619], [30642], [4119], [16026], [25657], [16384], [16384], [16384]], [[31957], [3230],
    [11153], [18123], [20143], [26536], [31986], [3050], [14603], [25155], [16384], [16384], [16384]], [[32363], [10692], [19090], [24357],
    [24442], [28312], [32169], [3648], [15690], [26815], [16384], [16384], [16384]], [[30669], [3832], [11663], [18889], [19782], [23313],
    [31330], [5124], [18719], [28468], [3082], [20982], [29443]], [[28573], [3183], [17802], [25977], [26677], [27832], [32387], [16384],
    [16384], [16384], [16384], [16384], [16384]]]"

lemma av1_default_txb_skip_cdfs_2_ok: "rows 5 (rows 13 (vars_ok 2)) av1_default_txb_skip_cdfs_2"
  by (simp add: av1_default_txb_skip_cdfs_2_def table_simps)

definition av1_default_txb_skip_cdfs_3 :: "nat list list list" where
  "av1_default_txb_skip_cdfs_3 =
    [[[26887], [6729], [10361], [17442], [15045], [22478], [29072], [2713], [11861], [20773], [16384], [16384], [16384]], [[31903], [2044],
    [7528], [14618], [16182], [24168], [31037], [2786], [11194], [20155], [16384], [16384], [16384]], [[32510], [8430], [17318], [24154],
    [23674], [28789], [32139], [3440], [13117], [22702], [16384], [16384], [16384]], [[31671], [2056], [11746], [16852], [18635], [24715],
    [31484], [4656], [16074], [24704], [1806], [14645], [25336]], [[31539], [8433], [20576], [27904], [27852], [30026], [32441], [16384],
    [16384], [16384], [16384], [16384], [16384]]]"

lemma av1_default_txb_skip_cdfs_3_ok: "rows 5 (rows 13 (vars_ok 2)) av1_default_txb_skip_cdfs_3"
  by (simp add: av1_default_txb_skip_cdfs_3_def table_simps)

definition av1_default_txb_skip_cdfs :: "u16 list list list list" where
  "av1_default_txb_skip_cdfs = cdf_4d 2
    [av1_default_txb_skip_cdfs_0, av1_default_txb_skip_cdfs_1, av1_default_txb_skip_cdfs_2, av1_default_txb_skip_cdfs_3]"

lemma av1_default_txb_skip_cdfs_ok: "rows 4 (rows 5 (rows 13 (cdf_at 2))) av1_default_txb_skip_cdfs"
  unfolding av1_default_txb_skip_cdfs_def
  by (rule rows_cdf_4d) (simp add: rows_def[of 4] list.pred_inject list.size av1_default_txb_skip_cdfs_0_ok av1_default_txb_skip_cdfs_1_ok
  av1_default_txb_skip_cdfs_2_ok av1_default_txb_skip_cdfs_3_ok)

definition av1_default_eob_extra_cdfs_0 :: "nat list list list list" where
  "av1_default_eob_extra_cdfs_0 =
    [[[[16961], [17223], [7621], [16384], [16384], [16384], [16384], [16384], [16384]], [[19069], [22525], [13377], [16384], [16384],
    [16384], [16384], [16384], [16384]]], [[[20401], [17025], [12845], [12873], [14094], [16384], [16384], [16384], [16384]], [[20681],
    [20701], [15250], [15017], [14928], [16384], [16384], [16384], [16384]]], [[[23905], [17194], [16170], [17695], [13826], [15810],
    [12036], [16384], [16384]], [[23959], [20799], [19021], [16203], [17886], [14144], [12010], [16384], [16384]]], [[[27399], [16327],
    [18071], [19584], [20721], [18432], [19560], [10150], [8805]], [[24932], [20833], [12027], [16670], [19914], [15106], [17662], [13783],
    [28756]]], [[[23406], [21845], [18432], [16384], [17096], [12561], [17320], [22395], [21370]], [[16384], [16384], [16384], [16384],
    [16384], [16384], [16384], [16384], [16384]]]]"

lemma av1_default_eob_extra_cdfs_0_ok: "rows 5 (rows 2 (rows 9 (vars_ok 2))) av1_default_eob_extra_cdfs_0"
  by (simp add: av1_default_eob_extra_cdfs_0_def table_simps)

definition av1_default_eob_extra_cdfs_1 :: "nat list list list list" where
  "av1_default_eob_extra_cdfs_1 =
    [[[[17471], [20223], [11357], [16384], [16384], [16384], [16384], [16384], [16384]], [[20335], [21667], [14818], [16384], [16384],
    [16384], [16384], [16384], [16384]]], [[[20430], [20662], [15367], [16970], [14657], [16384], [16384], [16384], [16384]], [[22117],
    [22028], [18650], [16042], [15885], [16384], [16384], [16384], [16384]]], [[[22409], [21012], [15650], [17395], [15469], [20205],
    [19511], [16384], [16384]], [[24220], [22480], [17737], [18916], [19268], [18412], [18844], [16384], [16384]]], [[[25991], [20314],
    [17731], [19678], [18649], [17307], [21798], [17549], [15630]], [[26585], [21469], [20432], [17735], [19280], [15235], [20297], [22471],
    [28997]]], [[[26605], [11304], [16726], [16560], [20866], [23524], [19878], [13469], [23084]], [[16384], [16384], [16384], [16384],
    [16384], [16384], [16384], [16384], [16384]]]]"

lemma av1_default_eob_extra_cdfs_1_ok: "rows 5 (rows 2 (rows 9 (vars_ok 2))) av1_default_eob_extra_cdfs_1"
  by (simp add: av1_default_eob_extra_cdfs_1_def table_simps)

definition av1_default_eob_extra_cdfs_2 :: "nat list list list list" where
  "av1_default_eob_extra_cdfs_2 =
    [[[[18983], [20512], [14885], [16384], [16384], [16384], [16384], [16384], [16384]], [[20090], [19444], [17286], [16384], [16384],
    [16384], [16384], [16384], [16384]]], [[[19139], [21487], [18959], [20910], [19089], [16384], [16384], [16384], [16384]], [[20536],
    [20664], [20625], [19123], [14862], [16384], [16384], [16384], [16384]]], [[[19833], [21502], [17485], [20267], [18353], [23329],
    [21478], [16384], [16384]], [[22041], [23434], [20001], [20554], [20951], [20145], [15562], [16384], [16384]]], [[[23312], [21607],
    [16526], [18957], [18034], [18934], [24247], [16921], [17080]], [[26579], [24910], [18637], [19800], [20388], [9887], [15642], [30198],
    [24721]]], [[[26998], [16737], [17838], [18922], [19515], [18636], [17333], [15776], [22658]], [[16384], [16384], [16384], [16384],
    [16384], [16384], [16384], [16384], [16384]]]]"

lemma av1_default_eob_extra_cdfs_2_ok: "rows 5 (rows 2 (rows 9 (vars_ok 2))) av1_default_eob_extra_cdfs_2"
  by (simp add: av1_default_eob_extra_cdfs_2_def table_simps)

definition av1_default_eob_extra_cdfs_3 :: "nat list list list list" where
  "av1_default_eob_extra_cdfs_3 =
    [[[[20177], [20789], [20262], [16384], [16384], [16384], [16384], [16384], [16384]], [[21416], [20855], [23410], [16384], [16384],
    [16384], [16384], [16384], [16384]]], [[[20238], [21057], [19159], [22337], [20159], [16384], [16384], [16384], [16384]], [[20125],
    [20559], [21707], [22296], [17333], [16384], [16384], [16384], [16384]]], [[[19941], [20527], [21470], [22487], [19558], [22354],
    [20331], [16384], [16384]], [[22752], [25006], [22075], [21576], [17740], [21690], [19211], [16384], [16384]]], [[[21442], [22358],
    [18503], [20291], [19945], [21294], [21178], [19400], [10556]], [[24648], [24949], [20708], [23905], [20501], [9558], [9423], [30365],
    [19253]]], [[[26064], [22098], [19613], [20525], [17595], [16618], [20497], [18989], [15513]], [[16384], [16384], [16384], [16384],
    [16384], [16384], [16384], [16384], [16384]]]]"

lemma av1_default_eob_extra_cdfs_3_ok: "rows 5 (rows 2 (rows 9 (vars_ok 2))) av1_default_eob_extra_cdfs_3"
  by (simp add: av1_default_eob_extra_cdfs_3_def table_simps)

definition av1_default_eob_extra_cdfs :: "u16 list list list list list" where
  "av1_default_eob_extra_cdfs = cdf_5d 2
    [av1_default_eob_extra_cdfs_0, av1_default_eob_extra_cdfs_1, av1_default_eob_extra_cdfs_2, av1_default_eob_extra_cdfs_3]"

lemma av1_default_eob_extra_cdfs_ok: "rows 4 (rows 5 (rows 2 (rows 9 (cdf_at 2)))) av1_default_eob_extra_cdfs"
  unfolding av1_default_eob_extra_cdfs_def
  by (rule rows_cdf_5d) (simp add: rows_def[of 4] list.pred_inject list.size av1_default_eob_extra_cdfs_0_ok av1_default_eob_extra_cdfs_1_ok
  av1_default_eob_extra_cdfs_2_ok av1_default_eob_extra_cdfs_3_ok)

definition av1_default_eob_multi16_cdfs :: "u16 list list list list" where
  "av1_default_eob_multi16_cdfs = cdf_4d 5
    [[[[840, 1039, 1980, 4895], [370, 671, 1883, 4471]], [[3247, 4950, 9688, 14563], [1904, 3354, 7763, 14647]]], [[[2125, 2551, 5165,
    8946], [513, 765, 1859, 6339]], [[7637, 9498, 14259, 19108], [2497, 4096, 8866, 16993]]], [[[4016, 4897, 8881, 14968], [716, 1105, 2646,
    10056]], [[11139, 13270, 18241, 23566], [3192, 5032, 10297, 19755]]], [[[6708, 8958, 14746, 22133], [1222, 2074, 4783, 15410]], [[19575,
    21766, 26044, 29709], [7297, 10767, 19273, 28194]]]]"

lemma av1_default_eob_multi16_cdfs_ok: "rows 4 (rows 2 (rows 2 (cdf_at 5))) av1_default_eob_multi16_cdfs"
  unfolding av1_default_eob_multi16_cdfs_def by (rule rows_cdf_4d) (simp add: table_simps)

definition av1_default_eob_multi32_cdfs :: "u16 list list list list" where
  "av1_default_eob_multi32_cdfs = cdf_4d 6
    [[[[400, 520, 977, 2102, 6542], [210, 405, 1315, 3326, 7537]], [[2636, 4273, 7588, 11794, 20401], [1786, 3179, 6902, 11357, 19054]]],
    [[[989, 1249, 2019, 4151, 10785], [313, 441, 1099, 2917, 8562]], [[8394, 10352, 13932, 18855, 26014], [2578, 4124, 8181, 13670,
    24234]]], [[[2515, 3003, 4452, 8162, 16041], [574, 821, 1836, 5089, 13128]], [[13468, 16303, 20361, 25105, 29281], [3542, 5502, 10415,
    16760, 25644]]], [[[4617, 5709, 8446, 13584, 23135], [1156, 1702, 3675, 9274, 20539]], [[22086, 24282, 27010, 29770, 31743], [7699,
    10897, 20891, 26926, 31628]]]]"

lemma av1_default_eob_multi32_cdfs_ok: "rows 4 (rows 2 (rows 2 (cdf_at 6))) av1_default_eob_multi32_cdfs"
  unfolding av1_default_eob_multi32_cdfs_def by (rule rows_cdf_4d) (simp add: table_simps)

definition av1_default_eob_multi64_cdfs :: "u16 list list list list" where
  "av1_default_eob_multi64_cdfs = cdf_4d 7
    [[[[329, 498, 1101, 1784, 3265, 7758], [335, 730, 1459, 5494, 8755, 12997]], [[3505, 5304, 10086, 13814, 17684, 23370], [1563, 2700,
    4876, 10911, 14706, 22480]]], [[[1260, 1446, 2253, 3712, 6652, 13369], [401, 605, 1029, 2563, 5845, 12626]], [[8609, 10612, 14624,
    18714, 22614, 29024], [1923, 3127, 5867, 9703, 14277, 27100]]], [[[2374, 2772, 4583, 7276, 12288, 19706], [497, 810, 1315, 3000, 7004,
    15641]], [[15050, 17126, 21410, 24886, 28156, 30726], [4034, 6290, 10235, 14982, 21214, 28491]]], [[[6307, 7541, 12060, 16358, 22553,
    27865], [1289, 2320, 3971, 7926, 14153, 24291]], [[24212, 25708, 28268, 30035, 31307, 32049], [8726, 12378, 19409, 26450, 30038,
    32462]]]]"

lemma av1_default_eob_multi64_cdfs_ok: "rows 4 (rows 2 (rows 2 (cdf_at 7))) av1_default_eob_multi64_cdfs"
  unfolding av1_default_eob_multi64_cdfs_def by (rule rows_cdf_4d) (simp add: table_simps)

definition av1_default_eob_multi128_cdfs :: "u16 list list list list" where
  "av1_default_eob_multi128_cdfs = cdf_4d 8
    [[[[219, 482, 1140, 2091, 3680, 6028, 12586], [371, 699, 1254, 4830, 9479, 12562, 17497]], [[5245, 7456, 12880, 15852, 20033, 23932,
    27608], [2054, 3472, 5869, 14232, 18242, 20590, 26752]]], [[[685, 933, 1488, 2714, 4766, 8562, 19254], [217, 352, 618, 2303, 5261, 9969,
    17472]], [[8045, 11200, 15497, 19595, 23948, 27408, 30938], [2310, 4160, 7471, 14997, 17931, 20768, 30240]]], [[[1366, 1738, 2527, 5016,
    9355, 15797, 24643], [354, 558, 944, 2760, 7287, 14037, 21779]], [[13627, 16246, 20173, 24429, 27948, 30415, 31863], [6275, 9889, 14769,
    23164, 27988, 30493, 32272]]], [[[3472, 4885, 7489, 12481, 18517, 24536, 29635], [886, 1731, 3271, 8469, 15569, 22126, 28383]], [[24313,
    26062, 28385, 30107, 31217, 31898, 32345], [9165, 13282, 21150, 30286, 31894, 32571, 32712]]]]"

lemma av1_default_eob_multi128_cdfs_ok: "rows 4 (rows 2 (rows 2 (cdf_at 8))) av1_default_eob_multi128_cdfs"
  unfolding av1_default_eob_multi128_cdfs_def by (rule rows_cdf_4d) (simp add: table_simps)

definition av1_default_eob_multi256_cdfs :: "u16 list list list list" where
  "av1_default_eob_multi256_cdfs = cdf_4d 9
    [[[[310, 584, 1887, 3589, 6168, 8611, 11352, 15652], [998, 1850, 2998, 5604, 17341, 19888, 22899, 25583]], [[2520, 3240, 5952, 8870,
    12577, 17558, 19954, 24168], [2203, 4130, 7435, 10739, 20652, 23681, 25609, 27261]]], [[[1448, 2109, 4151, 6263, 9329, 13260, 17944,
    23300], [399, 1019, 1749, 3038, 10444, 15546, 22739, 27294]], [[6402, 8148, 12623, 15072, 18728, 22847, 26447, 29377], [1674, 3252,
    5734, 10159, 22397, 23802, 24821, 30940]]], [[[3089, 3920, 6038, 9460, 14266, 19881, 25766, 29176], [1084, 2358, 3488, 5122, 11483,
    18103, 26023, 29799]], [[11514, 13794, 17480, 20754, 24361, 27378, 29492, 31277], [6571, 9610, 15516, 21826, 29092, 30829, 31842,
    32708]]], [[[5348, 7113, 11820, 15924, 22106, 26777, 30334, 31757], [2453, 4474, 6307, 8777, 16474, 22975, 29000, 31547]], [[23110,
    24597, 27140, 28894, 30167, 30927, 31392, 32094], [9998, 17661, 25178, 28097, 31308, 32038, 32403, 32695]]]]"

lemma av1_default_eob_multi256_cdfs_ok: "rows 4 (rows 2 (rows 2 (cdf_at 9))) av1_default_eob_multi256_cdfs"
  unfolding av1_default_eob_multi256_cdfs_def by (rule rows_cdf_4d) (simp add: table_simps)

definition av1_default_eob_multi512_cdfs :: "u16 list list list list" where
  "av1_default_eob_multi512_cdfs = cdf_4d 10
    [[[[641, 983, 3707, 5430, 10234, 14958, 18788, 23412, 26061], [3277, 6554, 9830, 13107, 16384, 19661, 22938, 26214, 29491]], [[5095,
    6446, 9996, 13354, 16017, 17986, 20919, 26129, 29140], [3277, 6554, 9830, 13107, 16384, 19661, 22938, 26214, 29491]]], [[[1230, 2278,
    5035, 7776, 11871, 15346, 19590, 24584, 28749], [3277, 6554, 9830, 13107, 16384, 19661, 22938, 26214, 29491]], [[7265, 9979, 15819,
    19250, 21780, 23846, 26478, 28396, 31811], [3277, 6554, 9830, 13107, 16384, 19661, 22938, 26214, 29491]]], [[[2624, 3936, 6480, 9686,
    13979, 17726, 23267, 28410, 31078], [3277, 6554, 9830, 13107, 16384, 19661, 22938, 26214, 29491]], [[12015, 14769, 19588, 22052, 24222,
    25812, 27300, 29219, 32114], [3277, 6554, 9830, 13107, 16384, 19661, 22938, 26214, 29491]]], [[[5927, 7809, 10923, 14597, 19439, 24135,
    28456, 31142, 32060], [3277, 6554, 9830, 13107, 16384, 19661, 22938, 26214, 29491]], [[21093, 23043, 25742, 27658, 29097, 29716, 30073,
    30820, 31956], [3277, 6554, 9830, 13107, 16384, 19661, 22938, 26214, 29491]]]]"

lemma av1_default_eob_multi512_cdfs_ok: "rows 4 (rows 2 (rows 2 (cdf_at 10))) av1_default_eob_multi512_cdfs"
  unfolding av1_default_eob_multi512_cdfs_def by (rule rows_cdf_4d) (simp add: table_simps)

definition av1_default_eob_multi1024_cdfs :: "u16 list list list list" where
  "av1_default_eob_multi1024_cdfs = cdf_4d 11
    [[[[393, 421, 751, 1623, 3160, 6352, 13345, 18047, 22571, 25830], [2979, 5958, 8937, 11916, 14895, 17873, 20852, 23831, 26810, 29789]],
    [[1865, 1988, 2930, 4242, 10533, 16538, 21354, 27255, 28546, 31784], [2979, 5958, 8937, 11916, 14895, 17873, 20852, 23831, 26810,
    29789]]], [[[696, 948, 3145, 5702, 9706, 13217, 17851, 21856, 25692, 28034], [2979, 5958, 8937, 11916, 14895, 17873, 20852, 23831,
    26810, 29789]], [[2672, 3591, 9330, 17084, 22725, 24284, 26527, 28027, 28377, 30876], [2979, 5958, 8937, 11916, 14895, 17873, 20852,
    23831, 26810, 29789]]], [[[2784, 3831, 7041, 10521, 14847, 18844, 23155, 26682, 29229, 31045], [2979, 5958, 8937, 11916, 14895, 17873,
    20852, 23831, 26810, 29789]], [[9577, 12466, 17739, 20750, 22061, 23215, 24601, 25483, 25843, 32056], [2979, 5958, 8937, 11916, 14895,
    17873, 20852, 23831, 26810, 29789]]], [[[6698, 8334, 11961, 15762, 20186, 23862, 27434, 29326, 31082, 32050], [2979, 5958, 8937, 11916,
    14895, 17873, 20852, 23831, 26810, 29789]], [[20569, 22426, 25569, 26859, 28053, 28913, 29486, 29724, 29807, 32570], [2979, 5958, 8937,
    11916, 14895, 17873, 20852, 23831, 26810, 29789]]]]"

lemma av1_default_eob_multi1024_cdfs_ok: "rows 4 (rows 2 (rows 2 (cdf_at 11))) av1_default_eob_multi1024_cdfs"
  unfolding av1_default_eob_multi1024_cdfs_def by (rule rows_cdf_4d) (simp add: table_simps)

end
