(* ===== verification/Av1_CdfLayout.thy ===== *)
theory Av1_CdfLayout
  imports Av1_CdfDefaults Av1_CdfTokens Av1_CdfCoeffs
begin

text \<open>
  \<open>CDFContext\<close> of \<open>src/src/context/cdf_context.rs\<close>: the fields of the struct in the order of
  their declaration, which \<open>repr(C)\<close> makes the order in memory, and the context
  that \<open>CDFContext::new\<close> fills from the default tables. A context is the list of
  its 16-bit words, because the undo log of the same file copies words from it
  without regard to fields; \<open>slots\<close> are the places of its CDFs in that list.
\<close>

section \<open>Constants\<close>

named_theorems cdf_geom "values of the constants that give the shape of a CDF context"

definition BWD_REFS :: nat where [cdf_geom]: "BWD_REFS = 3"
definition REF_CONTEXTS :: nat where [cdf_geom]: "REF_CONTEXTS = 3"
definition COMP_INTER_CONTEXTS :: nat where [cdf_geom]: "COMP_INTER_CONTEXTS = 5"
definition FWD_REFS :: nat where [cdf_geom]: "FWD_REFS = 4"
definition COMP_REF_TYPE_CONTEXTS :: nat where [cdf_geom]: "COMP_REF_TYPE_CONTEXTS = 5"
definition DC_SIGN_CONTEXTS :: nat where [cdf_geom]: "DC_SIGN_CONTEXTS = 3"
definition PLANE_TYPES :: nat where [cdf_geom]: "PLANE_TYPES = 2"
definition DRL_MODE_CONTEXTS :: nat where [cdf_geom]: "DRL_MODE_CONTEXTS = 3"
definition EOB_COEF_CONTEXTS :: nat where [cdf_geom]: "EOB_COEF_CONTEXTS = 9"
definition TX_SIZES :: nat where [cdf_geom]: "TX_SIZES = 5"
definition BLOCK_SIZES_ALL :: nat where [cdf_geom]: "BLOCK_SIZES_ALL = 22"
definition INTRA_INTER_CONTEXTS :: nat where [cdf_geom]: "INTRA_INTER_CONTEXTS = 4"
definition NEWMV_MODE_CONTEXTS :: nat where [cdf_geom]: "NEWMV_MODE_CONTEXTS = 7"
definition PALETTE_UV_MODE_CONTEXTS :: nat where [cdf_geom]: "PALETTE_UV_MODE_CONTEXTS = 2"
definition PALETTE_Y_MODE_CONTEXTS :: nat where [cdf_geom]: "PALETTE_Y_MODE_CONTEXTS = 3"
definition PALETTE_BSIZE_CTXS :: nat where [cdf_geom]: "PALETTE_BSIZE_CTXS = 7"
definition REFMV_MODE_CONTEXTS :: nat where [cdf_geom]: "REFMV_MODE_CONTEXTS = 6"
definition SINGLE_REFS :: nat where [cdf_geom]: "SINGLE_REFS = 7"
definition SKIP_CONTEXTS :: nat where [cdf_geom]: "SKIP_CONTEXTS = 3"
definition TXB_SKIP_CONTEXTS :: nat where [cdf_geom]: "TXB_SKIP_CONTEXTS = 13"
definition TXFM_PARTITION_CONTEXTS :: nat where [cdf_geom]: "TXFM_PARTITION_CONTEXTS = (TX_SIZES - 1) * 6 - 3"
definition GLOBALMV_MODE_CONTEXTS :: nat where [cdf_geom]: "GLOBALMV_MODE_CONTEXTS = 2"
definition MAX_TX_DEPTH :: nat where [cdf_geom]: "MAX_TX_DEPTH = 2"
definition TX_SIZE_CONTEXTS :: nat where [cdf_geom]: "TX_SIZE_CONTEXTS = 3"
definition TX_SIZE_SQR_CONTEXTS :: nat where [cdf_geom]: "TX_SIZE_SQR_CONTEXTS = 4"
definition SIG_COEF_CONTEXTS_EOB :: nat where [cdf_geom]: "SIG_COEF_CONTEXTS_EOB = 4"
definition MAX_TX_CATS :: nat where [cdf_geom]: "MAX_TX_CATS = TX_SIZES - 1"
definition BIG_TX_CATS :: nat where [cdf_geom]: "BIG_TX_CATS = MAX_TX_CATS - 1"
definition SIG_COEF_CONTEXTS_2D :: nat where [cdf_geom]: "SIG_COEF_CONTEXTS_2D = 26"
definition SIG_COEF_CONTEXTS_1D :: nat where [cdf_geom]: "SIG_COEF_CONTEXTS_1D = 16"
definition SIG_COEF_CONTEXTS :: nat where [cdf_geom]: "SIG_COEF_CONTEXTS = SIG_COEF_CONTEXTS_2D + SIG_COEF_CONTEXTS_1D"
definition BR_CDF_SIZE :: nat where [cdf_geom]: "BR_CDF_SIZE = 4"
definition LEVEL_CONTEXTS :: nat where [cdf_geom]: "LEVEL_CONTEXTS = 21"
definition DELTA_LF_PROBS :: nat where [cdf_geom]: "DELTA_LF_PROBS = 3"
definition FRAME_LF_COUNT :: nat where [cdf_geom]: "FRAME_LF_COUNT = 4"
definition PARTITION_TYPES :: nat where [cdf_geom]: "PARTITION_TYPES = 4"
definition INTRA_MODES :: nat where [cdf_geom]: "INTRA_MODES = 13"
definition MAX_ANGLE_DELTA :: nat where [cdf_geom]: "MAX_ANGLE_DELTA = 3"
definition DIRECTIONAL_MODES :: nat where [cdf_geom]: "DIRECTIONAL_MODES = 8"
definition CFL_JOINT_SIGNS :: nat where [cdf_geom]: "CFL_JOINT_SIGNS = 8"
definition INTER_COMPOUND_MODES :: nat where [cdf_geom]: "INTER_COMPOUND_MODES = 8"
definition INTER_MODE_CONTEXTS :: nat where [cdf_geom]: "INTER_MODE_CONTEXTS = 8"
definition EXT_PARTITION_TYPES :: nat where [cdf_geom]: "EXT_PARTITION_TYPES = 10"
definition KF_MODE_CONTEXTS :: nat where [cdf_geom]: "KF_MODE_CONTEXTS = 5"
definition BLOCK_SIZE_GROUPS :: nat where [cdf_geom]: "BLOCK_SIZE_GROUPS = 4"
definition UV_INTRA_MODES :: nat where [cdf_geom]: "UV_INTRA_MODES = 14"
definition CFL_ALPHABET_SIZE :: nat where [cdf_geom]: "CFL_ALPHABET_SIZE = 16"
definition CFL_ALPHA_CONTEXTS :: nat where [cdf_geom]: "CFL_ALPHA_CONTEXTS = 6"
definition TX_TYPES :: nat where [cdf_geom]: "TX_TYPES = 16"
definition MV_JOINTS :: nat where [cdf_geom]: "MV_JOINTS = 4"
definition MV_CLASSES :: nat where [cdf_geom]: "MV_CLASSES = 11"
definition CLASS0_BITS :: nat where [cdf_geom]: "CLASS0_BITS = 1"
definition CLASS0_SIZE :: nat where [cdf_geom]: "CLASS0_SIZE = 2 ^ CLASS0_BITS"
definition MV_OFFSET_BITS :: nat where [cdf_geom]: "MV_OFFSET_BITS = MV_CLASSES + CLASS0_BITS - 2"
definition MV_FP_SIZE :: nat where [cdf_geom]: "MV_FP_SIZE = 4"

section \<open>The struct\<close>

text \<open>A field of CDFs of one length (\<open>Cdf name length count\<close>), or padding.\<close>

datatype fc_field = Cdf string nat nat | Padding nat

definition NMVComponent :: "fc_field list" where
  "NMVComponent =
    [Cdf ''sign_cdf'' 2 1, Cdf ''class0_hp_cdf'' 2 1, Cdf ''hp_cdf'' 2 1, Cdf ''class0_cdf'' CLASS0_SIZE 1, Cdf ''bits_cdf'' 2
    MV_OFFSET_BITS, Cdf ''class0_fp_cdf'' MV_FP_SIZE CLASS0_SIZE, Cdf ''fp_cdf'' MV_FP_SIZE 1, Cdf ''classes_cdf'' MV_CLASSES 1, Padding 5]"

definition NMVContext :: "fc_field list" where
  "NMVContext = [Cdf ''joints_cdf'' MV_JOINTS 1, Padding 12] @ NMVComponent @ NMVComponent"

definition CDFContext :: "fc_field list" where
  "CDFContext =
    [Cdf ''comp_bwd_ref_cdf'' 2 (REF_CONTEXTS * (BWD_REFS - 1)), Cdf ''comp_mode_cdf'' 2 COMP_INTER_CONTEXTS, Cdf ''comp_ref_cdf'' 2
    (REF_CONTEXTS * (FWD_REFS - 1)), Cdf ''comp_ref_type_cdf'' 2 COMP_REF_TYPE_CONTEXTS, Cdf ''dc_sign_cdf'' 2 (PLANE_TYPES *
    DC_SIGN_CONTEXTS), Cdf ''drl_cdfs'' 2 DRL_MODE_CONTEXTS, Cdf ''eob_extra_cdf'' 2 (TX_SIZES * PLANE_TYPES * EOB_COEF_CONTEXTS), Cdf
    ''filter_intra_cdfs'' 2 BLOCK_SIZES_ALL, Cdf ''intra_inter_cdfs'' 2 INTRA_INTER_CONTEXTS, Cdf ''lrf_sgrproj_cdf'' 2 1, Cdf
    ''lrf_wiener_cdf'' 2 1, Cdf ''newmv_cdf'' 2 NEWMV_MODE_CONTEXTS, Cdf ''palette_uv_mode_cdfs'' 2 PALETTE_UV_MODE_CONTEXTS, Cdf
    ''palette_y_mode_cdfs'' 2 (PALETTE_BSIZE_CTXS * PALETTE_Y_MODE_CONTEXTS), Cdf ''refmv_cdf'' 2 REFMV_MODE_CONTEXTS, Cdf
    ''single_ref_cdfs'' 2 (REF_CONTEXTS * (SINGLE_REFS - 1)), Cdf ''skip_cdfs'' 2 SKIP_CONTEXTS, Cdf ''txb_skip_cdf'' 2 (TX_SIZES *
    TXB_SKIP_CONTEXTS), Cdf ''txfm_partition_cdf'' 2 TXFM_PARTITION_CONTEXTS, Cdf ''zeromv_cdf'' 2 GLOBALMV_MODE_CONTEXTS, Cdf
    ''tx_size_8x8_cdf'' MAX_TX_DEPTH TX_SIZE_CONTEXTS, Cdf ''inter_tx_3_cdf'' 2 TX_SIZE_SQR_CONTEXTS, Cdf ''coeff_base_eob_cdf'' 3 (TX_SIZES
    * PLANE_TYPES * SIG_COEF_CONTEXTS_EOB), Cdf ''lrf_switchable_cdf'' 3 1, Cdf ''tx_size_cdf'' (MAX_TX_DEPTH + 1) (BIG_TX_CATS *
    TX_SIZE_CONTEXTS), Cdf ''coeff_base_cdf'' 4 (TX_SIZES * PLANE_TYPES * SIG_COEF_CONTEXTS), Cdf ''coeff_br_cdf'' BR_CDF_SIZE (TX_SIZES *
    PLANE_TYPES * LEVEL_CONTEXTS), Cdf ''deblock_delta_cdf'' (DELTA_LF_PROBS + 1) 1, Cdf ''deblock_delta_multi_cdf'' (DELTA_LF_PROBS + 1)
    FRAME_LF_COUNT, Cdf ''partition_w8_cdf'' 4 PARTITION_TYPES, Cdf ''eob_flag_cdf16'' 5 (PLANE_TYPES * 2), Cdf ''intra_tx_2_cdf'' 5
    (TX_SIZE_SQR_CONTEXTS * INTRA_MODES), Cdf ''eob_flag_cdf32'' 6 (PLANE_TYPES * 2), Cdf ''angle_delta_cdf'' (2 * MAX_ANGLE_DELTA + 1)
    DIRECTIONAL_MODES, Cdf ''eob_flag_cdf64'' 7 (PLANE_TYPES * 2), Cdf ''intra_tx_1_cdf'' 7 (TX_SIZE_SQR_CONTEXTS * INTRA_MODES), Cdf
    ''cfl_sign_cdf'' CFL_JOINT_SIGNS 1, Cdf ''compound_mode_cdf'' INTER_COMPOUND_MODES INTER_MODE_CONTEXTS, Cdf ''eob_flag_cdf128'' 8
    (PLANE_TYPES * 2), Cdf ''spatial_segmentation_cdfs'' 8 3, Cdf ''partition_w128_cdf'' 8 PARTITION_TYPES, Cdf ''eob_flag_cdf256'' 9
    (PLANE_TYPES * 2), Cdf ''eob_flag_cdf512'' 10 (PLANE_TYPES * 2), Cdf ''partition_cdf'' EXT_PARTITION_TYPES ((3 * PARTITION_TYPES)), Cdf
    ''eob_flag_cdf1024'' 11 (PLANE_TYPES * 2), Cdf ''inter_tx_2_cdf'' 12 TX_SIZE_SQR_CONTEXTS, Cdf ''kf_y_cdf'' INTRA_MODES
    (KF_MODE_CONTEXTS * KF_MODE_CONTEXTS), Cdf ''y_mode_cdf'' INTRA_MODES BLOCK_SIZE_GROUPS, Cdf ''uv_mode_cdf'' INTRA_MODES INTRA_MODES,
    Cdf ''uv_mode_cfl_cdf'' UV_INTRA_MODES INTRA_MODES, Cdf ''cfl_alpha_cdf'' CFL_ALPHABET_SIZE CFL_ALPHA_CONTEXTS, Cdf ''inter_tx_1_cdf''
    TX_TYPES TX_SIZE_SQR_CONTEXTS] @ NMVContext"

section \<open>The context filled from the defaults\<close>

text \<open>The two components of \<open>default_nmv_context\<close> are alike; its fields are in the struct's order.\<close>

definition default_nmv_component :: "u16 list list list" where
  "default_nmv_component = [[cdf_1d 2 [128 * 128]], [cdf_1d 2 [160 * 128]], [cdf_1d 2 [128 * 128]], [cdf_1d 2 [216 * 128]],
     cdf_2d 2 [[128 * 136], [128 * 140], [128 * 148], [128 * 160], [128 * 176], [128 * 192], [128 * 224], [128 * 234], [128 * 234], [128 * 240]],
     cdf_2d 4 [[16384, 24576, 26624], [12288, 21248, 24128]], [cdf_1d 4 [8192, 17408, 21248]],
     [cdf_1d 11 [28672, 30976, 31858, 32320, 32551, 32656, 32740, 32757, 32762, 32767]], [replicate 5 0]]"

definition default_nmv_context :: "u16 list list list" where
  "default_nmv_context = [[cdf_1d 4 [4096, 11264, 19328]], [replicate 12 0]] @ default_nmv_component @ default_nmv_component"

definition qctx :: "8 word \<Rightarrow> nat" where
  "qctx quantizer = (if quantizer \<le> 20 then 0 else if quantizer \<le> 60 then 1 else if quantizer \<le> 120 then 2 else 3)"

definition CDFContext_fields :: "nat \<Rightarrow> u16 list list list" where
  "CDFContext_fields qc =
    [concat default_comp_bwdref_cdf, default_comp_mode_cdf, concat default_comp_ref_cdf, default_comp_ref_type_cdf, concat
    (av1_default_dc_sign_cdfs ! qc), default_drl_cdf, concat (concat (av1_default_eob_extra_cdfs ! qc)), default_filter_intra_cdfs,
    default_intra_inter_cdf, [default_sgrproj_restore_cdf], [default_wiener_restore_cdf], default_newmv_cdf, default_palette_uv_mode_cdfs,
    concat default_palette_y_mode_cdfs, default_refmv_cdf, concat default_single_ref_cdf, default_skip_cdfs, concat
    (av1_default_txb_skip_cdfs ! qc), default_txfm_partition_cdf, default_zeromv_cdf, default_tx_size_8x8_cdf, default_inter_tx_3_cdf,
    concat (concat (av1_default_coeff_base_eob_multi_cdfs ! qc)), [default_switchable_restore_cdf], concat default_tx_size_cdf, concat
    (concat (av1_default_coeff_base_multi_cdfs ! qc)), concat (concat (av1_default_coeff_lps_multi_cdfs ! qc)), [default_delta_lf_cdf],
    default_delta_lf_multi_cdf, default_partition_w8_cdf, concat (av1_default_eob_multi16_cdfs ! qc), concat default_intra_tx_2_cdf, concat
    (av1_default_eob_multi32_cdfs ! qc), default_angle_delta_cdf, concat (av1_default_eob_multi64_cdfs ! qc), concat default_intra_tx_1_cdf,
    [default_cfl_sign_cdf], default_compound_mode_cdf, concat (av1_default_eob_multi128_cdfs ! qc), default_spatial_pred_seg_tree_cdf,
    default_partition_w128_cdf, concat (av1_default_eob_multi256_cdfs ! qc), concat (av1_default_eob_multi512_cdfs ! qc),
    default_partition_cdf, concat (av1_default_eob_multi1024_cdfs ! qc), default_inter_tx_2_cdf, concat default_kf_y_mode_cdf,
    default_if_y_mode_cdf, default_uv_mode_cdf, default_uv_mode_cfl_cdf, default_cfl_alpha_cdf, default_inter_tx_1_cdf] @
    default_nmv_context"

definition CDFContext_new :: "8 word \<Rightarrow> u16 list" where
  "CDFContext_new quantizer = concat (map concat (CDFContext_fields (qctx quantizer)))"

section \<open>Slots\<close>

primrec field_words :: "fc_field \<Rightarrow> nat" where
  "field_words (Cdf _ n c) = n * c"
| "field_words (Padding k) = k"

text \<open>The CDFs of a list of fields from word \<open>a\<close> on: where each starts and its length.\<close>

fun slots :: "nat \<Rightarrow> fc_field list \<Rightarrow> (nat \<times> nat) list" where
  "slots a [] = []"
| "slots a (Cdf _ n c # fs) = map (\<lambda>i. (a + i * n, n)) [0..<c] @ slots (a + n * c) fs"
| "slots a (Padding k # fs) = slots (a + k) fs"

definition layout_words :: "fc_field list \<Rightarrow> nat" where
  "layout_words fs = sum_list (map field_words fs)"

lemma layout_words_simps [simp]:
  "layout_words [] = 0" "layout_words (f # fs) = field_words f + layout_words fs" "layout_words (fs @ gs) = layout_words fs + layout_words gs"
  by (simp_all add: layout_words_def)

text \<open>A field and its value agree.\<close>

primrec field_ok :: "fc_field \<Rightarrow> u16 list list \<Rightarrow> bool" where
  "field_ok (Cdf _ n c) cs \<longleftrightarrow> rows c (cdf_at n) cs"
| "field_ok (Padding k) cs \<longleftrightarrow> rows 1 (\<lambda>w. length w = k) cs"

text \<open>A memory in which every slot of a layout holds a CDF the coder accepts.\<close>

definition fc_get :: "u16 list \<Rightarrow> nat \<times> nat \<Rightarrow> u16 list" where
  "fc_get fc s = take (snd s) (drop (fst s) fc)"

lemma length_concat_rows: "rows c (\<lambda>w. length w = n) cs \<Longrightarrow> length (concat cs) = c * n"
  by (induction cs arbitrary: c) (auto simp: rows_def list_all_iff)

lemma take_drop_concat:
  "rows c (\<lambda>w. length w = n) cs \<Longrightarrow> i < c \<Longrightarrow> take n (drop (i * n) (concat cs @ zs)) = cs ! i"
proof (induction cs arbitrary: c i)
  case (Cons w cs)
  then have r: "rows (c - 1) (\<lambda>w. length w = n) cs" "length w = n" by (auto simp: rows_def)
  show ?case
  proof (cases i)
    case (Suc j)
    then show ?thesis using Cons.IH[OF r(1), of j] Cons.prems(2) r(2) by simp
  qed (simp add: r(2))
qed (simp add: rows_def)

lemma rows_weaken: "rows k P xs \<Longrightarrow> (\<And>x. P x \<Longrightarrow> Q x) \<Longrightarrow> rows k Q xs"
  by (auto simp: rows_def list_all_iff)

lemma field_ok_length: "field_ok f cs \<Longrightarrow> length (concat cs) = field_words f"
proof (cases f)
  case (Cdf nm n c)
  assume "field_ok f cs"
  then have "rows c (\<lambda>w. length w = n) cs" unfolding Cdf field_ok.simps by (rule rows_weaken) (simp add: cdf_at_def)
  from length_concat_rows[OF this] show ?thesis by (simp add: Cdf mult.commute)
next
  case (Padding k)
  assume "field_ok f cs"
  then have "rows 1 (\<lambda>w. length w = k) cs" by (simp add: Padding)
  from length_concat_rows[OF this] show ?thesis by (simp add: Padding)
qed

lemma layout_filled:
  assumes "list_all2 field_ok fs css"
  shows "length (concat (map concat css)) = layout_words fs"
    and "s \<in> set (slots (length pre) fs) \<Longrightarrow> cdf_at (snd s) (fc_get (pre @ concat (map concat css)) s)"
proof -
  show "length (concat (map concat css)) = layout_words fs"
    using assms by (induction fs css rule: list_all2_induct) (simp_all add: field_ok_length)
  show "s \<in> set (slots (length pre) fs) \<Longrightarrow> cdf_at (snd s) (fc_get (pre @ concat (map concat css)) s)"
    using assms
  proof (induction fs css arbitrary: pre rule: list_all2_induct)
    case (Cons f fs cs css)
    let ?pre = "pre @ concat cs"
    have len: "length ?pre = length pre + field_words f" using field_ok_length[OF Cons.hyps(1)] by simp
    have later: "s \<in> set (slots (length pre + field_words f) fs) \<Longrightarrow> ?case"
      using Cons.IH[of ?pre] unfolding len by simp
    show ?case
    proof (cases f)
      case (Cdf nm n c)
      have r: "rows c (cdf_at n) cs" using Cons.hyps(1) by (simp add: Cdf)
      then have l: "rows c (\<lambda>w. length w = n) cs" by (rule rows_weaken) (simp add: cdf_at_def)
      show ?thesis
      proof (cases "s \<in> set (slots (length pre + field_words f) fs)")
        case False
        then obtain i where i: "i < c" "s = (length pre + i * n, n)" using Cons.prems by (auto simp: Cdf)
        have "fc_get (pre @ concat (map concat (cs # css))) s = cs ! i"
          using take_drop_concat[OF l i(1), of "concat (map concat css)"] by (simp add: fc_get_def i(2))
        then show ?thesis using rows_nth[OF r i(1)] i(2) by simp
      qed (rule later)
    next
      case (Padding k)
      then show ?thesis using later Cons.prems by simp
    qed
  qed simp
qed

section \<open>The slots of a context\<close>

definition cdf_slots :: "(nat \<times> nat) list" where
  "cdf_slots = slots 0 CDFContext"

lemma default_nmv_ok: "list_all2 field_ok NMVContext default_nmv_context"
  unfolding NMVContext_def default_nmv_context_def NMVComponent_def default_nmv_component_def append.simps list.rel_inject list.rel_eq
  by (simp add: cdf_geom rows_def cdf_2d_def cdf_ok_cdf table_simps)

lemma CDFContext_fields_ok: "qc < 4 \<Longrightarrow> list_all2 field_ok CDFContext (CDFContext_fields qc)"
proof -
  assume q: "qc < 4"
  note facts = rows_concat[OF default_comp_bwdref_cdf_ok] default_comp_mode_cdf_ok rows_concat[OF default_comp_ref_cdf_ok]
  default_comp_ref_type_cdf_ok rows_concat[OF rows_nth[OF av1_default_dc_sign_cdfs_ok q]] default_drl_cdf_ok rows_concat[OF rows_concat[OF
  rows_nth[OF av1_default_eob_extra_cdfs_ok q]]] default_filter_intra_cdfs_ok default_intra_inter_cdf_ok default_sgrproj_restore_cdf_ok
  default_wiener_restore_cdf_ok default_newmv_cdf_ok default_palette_uv_mode_cdfs_ok rows_concat[OF default_palette_y_mode_cdfs_ok]
  default_refmv_cdf_ok rows_concat[OF default_single_ref_cdf_ok] default_skip_cdfs_ok rows_concat[OF rows_nth[OF
  av1_default_txb_skip_cdfs_ok q]] default_txfm_partition_cdf_ok default_zeromv_cdf_ok default_tx_size_8x8_cdf_ok default_inter_tx_3_cdf_ok
  rows_concat[OF rows_concat[OF rows_nth[OF av1_default_coeff_base_eob_multi_cdfs_ok q]]] default_switchable_restore_cdf_ok rows_concat[OF
  default_tx_size_cdf_ok] rows_concat[OF rows_concat[OF rows_nth[OF av1_default_coeff_base_multi_cdfs_ok q]]] rows_concat[OF rows_concat[OF
  rows_nth[OF av1_default_coeff_lps_multi_cdfs_ok q]]] default_delta_lf_cdf_ok default_delta_lf_multi_cdf_ok default_partition_w8_cdf_ok
  rows_concat[OF rows_nth[OF av1_default_eob_multi16_cdfs_ok q]] rows_concat[OF default_intra_tx_2_cdf_ok] rows_concat[OF rows_nth[OF
  av1_default_eob_multi32_cdfs_ok q]] default_angle_delta_cdf_ok rows_concat[OF rows_nth[OF av1_default_eob_multi64_cdfs_ok q]]
  rows_concat[OF default_intra_tx_1_cdf_ok] default_cfl_sign_cdf_ok default_compound_mode_cdf_ok rows_concat[OF rows_nth[OF
  av1_default_eob_multi128_cdfs_ok q]] default_spatial_pred_seg_tree_cdf_ok default_partition_w128_cdf_ok rows_concat[OF rows_nth[OF
  av1_default_eob_multi256_cdfs_ok q]] rows_concat[OF rows_nth[OF av1_default_eob_multi512_cdfs_ok q]] default_partition_cdf_ok
  rows_concat[OF rows_nth[OF av1_default_eob_multi1024_cdfs_ok q]] default_inter_tx_2_cdf_ok rows_concat[OF default_kf_y_mode_cdf_ok]
  default_if_y_mode_cdf_ok default_uv_mode_cdf_ok default_uv_mode_cfl_cdf_ok default_cfl_alpha_cdf_ok default_inter_tx_1_cdf_ok
  show ?thesis
    unfolding CDFContext_def CDFContext_fields_def
    by (rule list_all2_appendI[OF _ default_nmv_ok])
      (use facts in \<open>simp add: cdf_geom rows_def\<close>)
qed

lemma qctx_less: "qctx quantizer < 4"
  by (simp add: qctx_def)

lemma CDFContext_new_ok:
  "length (CDFContext_new quantizer) = layout_words CDFContext"
  "s \<in> set cdf_slots \<Longrightarrow> cdf_at (snd s) (fc_get (CDFContext_new quantizer) s)"
  using layout_filled(1)[OF CDFContext_fields_ok[OF qctx_less[of quantizer]]]
    layout_filled(2)[OF CDFContext_fields_ok[OF qctx_less[of quantizer]], where s = s and pre = "[]"]
  by (simp_all add: CDFContext_new_def cdf_slots_def)

end
