(* ===== verification/Av1_CdfLog.thy ===== *)
theory Av1_CdfLog
  imports Av1_CdfLayout
begin

text \<open>
  The undo log of \<open>src/src/context/cdf_context.rs\<close>: before a CDF is adapted, a
  window of words that starts at the CDF (4 words for a short CDF, 16 for a long
  one, so possibly words of its neighbours) is copied to the log with the CDF's
  byte offset, and rolling back copies the windows of the short CDFs and then
  those of the long ones over the context, latest first. The copies are raw
  memory accesses: outside the context, at an odd offset or past the log's
  capacity they are \<open>Fault\<close>.
\<close>

section \<open>Raw access to the context\<close>

definition overwrite :: "nat \<Rightarrow> 'a list \<Rightarrow> 'a list \<Rightarrow> 'a list" where
  "overwrite a ws xs = take a xs @ ws @ drop (a + length ws) xs"

definition fc_read :: "u16 list \<Rightarrow> nat \<Rightarrow> nat \<Rightarrow> u16 list result" where
  "fc_read fc offset k =
     (if even offset \<and> offset div 2 + k \<le> length fc then Inr (take k (drop (offset div 2) fc)) else Inl Fault)"

definition fc_write :: "u16 list \<Rightarrow> nat \<Rightarrow> u16 list \<Rightarrow> u16 list result" where
  "fc_write fc offset ws =
     (if even offset \<and> offset div 2 + length ws \<le> length fc then Inr (overwrite (offset div 2) ws fc) else Inl Fault)"

lemma overwrite_length [simp]: "a + length ws \<le> length xs \<Longrightarrow> length (overwrite a ws xs) = length xs"
  by (simp add: overwrite_def)

lemma overwrite_nth:
  "a + length ws \<le> length xs \<Longrightarrow> i < length xs \<Longrightarrow>
    overwrite a ws xs ! i = (if a \<le> i \<and> i < a + length ws then ws ! (i - a) else xs ! i)"
  by (auto simp: overwrite_def nth_append min_def)

text \<open>Writing back a window undoes a write inside it, and distant writes commute.\<close>

lemma overwrite_restore:
  "a + k \<le> length xs \<Longrightarrow> length ws \<le> k \<Longrightarrow> overwrite a (take k (drop a xs)) (overwrite a ws xs) = xs"
  by (rule nth_equalityI) (auto simp: overwrite_nth)

lemma overwrite_commute:
  "a + length ws \<le> length xs \<Longrightarrow> b + length vs \<le> length xs \<Longrightarrow> a + length ws \<le> b \<or> b + length vs \<le> a \<Longrightarrow>
    overwrite a ws (overwrite b vs xs) = overwrite b vs (overwrite a ws xs)"
  by (rule nth_equalityI) (auto simp: overwrite_nth)

lemma overwrite_window:
  "a + length ws \<le> length xs \<Longrightarrow> b + k \<le> length xs \<Longrightarrow> a + length ws \<le> b \<or> b + k \<le> a \<Longrightarrow>
    take k (drop b (overwrite a ws xs)) = take k (drop b xs)"
  by (rule nth_equalityI) (auto simp: overwrite_nth)

lemma overwrite_window_same: "a + length ws \<le> length xs \<Longrightarrow> take (length ws) (drop a (overwrite a ws xs)) = ws"
  by (simp add: overwrite_def)

section \<open>The log\<close>

definition CDF_LEN_SMALL :: nat where [cdf_geom]: "CDF_LEN_SMALL = 4"

record log_partition =
  lp_data :: "u16 list list"
  lp_capacity :: nat

record cdf_log =
  log_small :: log_partition
  log_large :: log_partition

record cdf_checkpoint =
  cc_small :: nat
  cc_large :: nat

definition log_new :: cdf_log where
  "log_new = \<lparr>log_small = \<lparr>lp_data = [], lp_capacity = 2 ^ 16\<rparr>, log_large = \<lparr>lp_data = [], lp_capacity = 2 ^ 9\<rparr>\<rparr>"

text \<open>The growth of the standard library's vector: at least twice the capacity.\<close>

definition vec_reserve :: "nat \<Rightarrow> nat \<Rightarrow> nat \<Rightarrow> nat" where
  "vec_reserve capacity len additional =
     (if additional > capacity - len then max (2 * capacity) (len + additional) else capacity)"

definition lp_push :: "nat \<Rightarrow> log_partition \<Rightarrow> u16 list \<Rightarrow> nat \<times> nat \<Rightarrow> log_partition result" where
  "lp_push m p fc cdf =
     (let (offset, cdf_len) = cdf in
      if \<not> cdf_len < m \<or> \<not> offset \<le> 0xFFFF then Inl Fault
      else
        let new_len = length (lp_data p) + 1; capacity = lp_capacity p in
        if \<not> new_len \<le> capacity then Inl Fault
        else bindR (fc_read fc offset (m - 1)) (\<lambda>ws.
          Inr \<lparr>lp_data = lp_data p @ [ws @ [of_nat offset]],
            lp_capacity = (if m > capacity - new_len then vec_reserve capacity new_len m else capacity)\<rparr>))"

function lp_undo :: "nat \<Rightarrow> nat \<Rightarrow> u16 list list \<Rightarrow> u16 list \<Rightarrow> (u16 list list \<times> u16 list) result" where
  "lp_undo m checkpoint data fc =
     (if length data > checkpoint then
        let src = last data; offset = unat (src ! (m - 1)) in
        bindR (fc_write fc offset (take (m - 1) src)) (\<lambda>fc. lp_undo m checkpoint (butlast data) fc)
      else Inr (data, fc))"
  by pat_completeness auto
termination
  by (relation "measure (\<lambda>(_, _, data, _). length data)") auto

declare lp_undo.simps [simp del]

definition lp_rollback :: "nat \<Rightarrow> log_partition \<Rightarrow> u16 list \<Rightarrow> nat \<Rightarrow> (log_partition \<times> u16 list) result" where
  "lp_rollback m p fc checkpoint =
     bindR (lp_undo m checkpoint (lp_data p) fc) (\<lambda>(data, fc). Inr (p\<lparr>lp_data := data\<rparr>, fc))"

definition log_checkpoint :: "cdf_log \<Rightarrow> cdf_checkpoint" where
  "log_checkpoint l = \<lparr>cc_small = length (lp_data (log_small l)), cc_large = length (lp_data (log_large l))\<rparr>"

definition log_push :: "cdf_log \<Rightarrow> u16 list \<Rightarrow> nat \<times> nat \<Rightarrow> cdf_log result" where
  "log_push l fc cdf =
     (if snd cdf \<le> CDF_LEN_SMALL then
        bindR (lp_push (CDF_LEN_SMALL + 1) (log_small l) fc cdf) (\<lambda>p. Inr (l\<lparr>log_small := p\<rparr>))
      else bindR (lp_push (CDF_LEN_MAX + 1) (log_large l) fc cdf) (\<lambda>p. Inr (l\<lparr>log_large := p\<rparr>)))"

definition log_rollback :: "cdf_log \<Rightarrow> u16 list \<Rightarrow> cdf_checkpoint \<Rightarrow> (cdf_log \<times> u16 list) result" where
  "log_rollback l fc cp =
     bindR (lp_rollback (CDF_LEN_SMALL + 1) (log_small l) fc (cc_small cp)) (\<lambda>(small, fc).
     bindR (lp_rollback (CDF_LEN_MAX + 1) (log_large l) fc (cc_large cp)) (\<lambda>(large, fc).
     Inr (l\<lparr>log_small := small, log_large := large\<rparr>, fc)))"

definition log_clear :: "cdf_log \<Rightarrow> cdf_log" where
  "log_clear l = l\<lparr>log_small := (log_small l)\<lparr>lp_data := []\<rparr>, log_large := (log_large l)\<lparr>lp_data := []\<rparr>\<rparr>"

section \<open>Coding a symbol with adaptation\<close>

text \<open>
  \<open>CDFContext::offset\<close> is the byte distance of a CDF from the start of the
  context. \<open>symbol_with_update\<close> logs the CDF, codes the symbol with it and
  adapts it in place, through the reference that \<open>push\<close> returns.
\<close>

definition cdf_offset :: "nat \<times> nat \<Rightarrow> nat \<times> nat" where
  "cdf_offset s = (2 * fst s, snd s)"

definition symbol_with_update ::
  "(u16 \<Rightarrow> u16 \<Rightarrow> u16 \<Rightarrow> 'w \<Rightarrow> 'w) \<Rightarrow> u32 \<Rightarrow> nat \<times> nat \<Rightarrow> 'w \<times> cdf_log \<times> u16 list \<Rightarrow> ('w \<times> cdf_log \<times> u16 list) result" where
  "symbol_with_update store s cdf st =
     (let (w, log, fc) = st in
      bindR (log_push log fc cdf) (\<lambda>log.
      bindR (fc_read fc (fst cdf) (snd cdf)) (\<lambda>c.
      bindR (write_symbol store (unat s) c w) (\<lambda>w.
      bindR (fc_write fc (fst cdf) (update_cdf c s)) (\<lambda>fc.
      Inr (w, log, fc))))))"

text \<open>A run of symbols, each coded with the CDF of a slot of the context.\<close>

definition symbols_with_update ::
  "(u16 \<Rightarrow> u16 \<Rightarrow> u16 \<Rightarrow> 'w \<Rightarrow> 'w) \<Rightarrow> (u32 \<times> nat \<times> nat) list \<Rightarrow> 'w \<times> cdf_log \<times> u16 list \<Rightarrow> ('w \<times> cdf_log \<times> u16 list) result" where
  "symbols_with_update store = forR (\<lambda>(s, slot). symbol_with_update store s (cdf_offset slot))"

definition reset_counts :: "u16 list \<Rightarrow> u16 list" where
  "reset_counts = fold (\<lambda>s fc. fc[fst s + snd s - 1 := 0]) cdf_slots"

end
