(* ===== verification/Av1_CdfLogLaws.thy ===== *)
theory Av1_CdfLogLaws
  imports Av1_CdfLog
begin

text \<open>
  Why the undo log of a CDF context is exact. The locale \<open>cdf_layout\<close> says what
  the log needs of the places of the CDFs: windows lie inside the context, the
  offsets fit 16 bits, CDFs do not overlap, and no window of a short CDF meets a
  window of a long one; the last is why the source sorts the fields of the
  struct by length and pads \<open>NMVComponent\<close>. It is interpreted on the slots of
  \<open>CDFContext\<close>.
\<close>

section \<open>What the log needs of a layout\<close>

definition cdf_window :: "nat \<Rightarrow> nat" where
  "cdf_window n = (if n \<le> CDF_LEN_SMALL then CDF_LEN_SMALL else CDF_LEN_MAX)"

definition apart :: "nat \<Rightarrow> nat \<Rightarrow> nat \<Rightarrow> nat \<Rightarrow> bool" where
  "apart a k b l \<longleftrightarrow> a + k \<le> b \<or> b + l \<le> a"

definition part_ok :: "nat \<Rightarrow> log_partition \<Rightarrow> bool" where
  "part_ok m p \<longleftrightarrow> length (lp_data p) < lp_capacity p \<and> m \<le> 17"

text \<open>An entry of the log: a window of the context and the byte offset it came from.\<close>

definition entry_at :: "nat \<Rightarrow> nat \<Rightarrow> u16 list \<Rightarrow> bool" where
  "entry_at k a e \<longleftrightarrow> length e = k + 1 \<and> e ! k = of_nat (2 * a)"

lemma lp_undo_snoc:
  assumes e: "entry_at k a e" and a: "2 * a \<le> 0xFFFF" "a + k \<le> length fc" and cp: "cp \<le> length data"
  shows "lp_undo (k + 1) cp (data @ [e]) fc = lp_undo (k + 1) cp data (overwrite a (take k e) fc)"
proof -
  have u: "unat (of_nat (2 * a) :: u16) = 2 * a" using a(1) by (intro unat_of_nat_small) simp
  then show ?thesis using e a(2) cp by (subst lp_undo.simps) (simp add: entry_at_def fc_write_def min_def)
qed

lemma lp_undo_stop: "length data \<le> cp \<Longrightarrow> lp_undo m cp data fc = Inr (data, fc)"
  by (subst lp_undo.simps) simp

lemma lp_push_ok:
  assumes p: "part_ok (k + 1) p" and s: "2 * a \<le> 0xFFFF" "a + k \<le> length fc" "n \<le> k"
  shows "\<exists>p'. lp_push (k + 1) p fc (2 * a, n) = Inr p' \<and> part_ok (k + 1) p' \<and>
    lp_data p' = lp_data p @ [take k (drop a fc) @ [of_nat (2 * a)]]"
  using assms by (auto simp: lp_push_def Let_def fc_read_def part_ok_def vec_reserve_def)

lemma entry_copied:
  "a + k \<le> length fc \<Longrightarrow> entry_at k a (take k (drop a fc) @ [of_nat (2 * a)])"
  "a + k \<le> length fc \<Longrightarrow> take k (take k (drop a fc) @ [of_nat (2 * a)]) = take k (drop a fc)"
proof -
  assume "a + k \<le> length fc"
  then have "length (take k (drop a fc)) = k" by simp
  then show "entry_at k a (take k (drop a fc) @ [of_nat (2 * a)])"
    "take k (take k (drop a fc) @ [of_nat (2 * a)]) = take k (drop a fc)"
    by (simp_all only: entry_at_def length_append nth_append list.size) simp_all
qed

locale cdf_layout =
  fixes S :: "(nat \<times> nat) set" and words :: nat
  assumes slot_len: "s \<in> S \<Longrightarrow> 0 < snd s \<and> snd s \<le> CDF_LEN_MAX"
    and slot_window: "s \<in> S \<Longrightarrow> fst s + cdf_window (snd s) \<le> words"
    and slot_offset: "s \<in> S \<Longrightarrow> 2 * fst s \<le> 0xFFFF"
    and slots_apart: "s \<in> S \<Longrightarrow> t \<in> S \<Longrightarrow> s \<noteq> t \<Longrightarrow> apart (fst s) (snd s) (fst t) (snd t)"
    and windows_apart: "s \<in> S \<Longrightarrow> t \<in> S \<Longrightarrow> snd s \<le> CDF_LEN_SMALL \<Longrightarrow> \<not> snd t \<le> CDF_LEN_SMALL \<Longrightarrow>
      apart (fst s) CDF_LEN_SMALL (fst t) CDF_LEN_MAX"
begin

lemma slot_le_window: "s \<in> S \<Longrightarrow> snd s \<le> cdf_window (snd s)"
  using slot_len[of s] by (simp add: cdf_window_def)

lemma slot_inside: "s \<in> S \<Longrightarrow> fst s + snd s \<le> words"
  using slot_le_window[of s] slot_window[of s] by simp

definition log_ok :: "cdf_log \<Rightarrow> bool" where
  "log_ok l \<longleftrightarrow> part_ok (CDF_LEN_SMALL + 1) (log_small l) \<and> part_ok (CDF_LEN_MAX + 1) (log_large l) \<and>
     (\<forall>e\<in>set (lp_data (log_small l)). \<exists>s\<in>S. snd s \<le> CDF_LEN_SMALL \<and> entry_at CDF_LEN_SMALL (fst s) e) \<and>
     (\<forall>e\<in>set (lp_data (log_large l)). \<exists>s\<in>S. \<not> snd s \<le> CDF_LEN_SMALL \<and> entry_at CDF_LEN_MAX (fst s) e)"

text \<open>Undoing the short entries leaves a distant window alone, whatever is in it.\<close>

lemma undo_small_frame:
  assumes "\<forall>e\<in>set data. \<exists>s\<in>S. snd s \<le> CDF_LEN_SMALL \<and> entry_at CDF_LEN_SMALL (fst s) e"
    and t: "t \<in> S" "\<not> snd t \<le> CDF_LEN_SMALL" and vs: "length vs \<le> CDF_LEN_MAX" and "length fc = words" and "cp \<le> length data"
  shows "\<exists>fc'. lp_undo (CDF_LEN_SMALL + 1) cp data fc = Inr (take cp data, fc') \<and> length fc' = words \<and>
    lp_undo (CDF_LEN_SMALL + 1) cp data (overwrite (fst t) vs fc) = Inr (take cp data, overwrite (fst t) vs fc') \<and>
    take CDF_LEN_MAX (drop (fst t) fc') = take CDF_LEN_MAX (drop (fst t) fc)"
  using assms(1,5,6)
proof (induction data arbitrary: fc rule: rev_induct)
  case (snoc e data)
  have tw: "fst t + CDF_LEN_MAX \<le> words" using slot_window[OF t(1)] t(2) by (simp add: cdf_window_def)
  show ?case
  proof (cases "cp = length (data @ [e])")
    case False
    then have cp: "cp \<le> length data" using snoc.prems(3) by simp
    obtain s where s: "s \<in> S" "snd s \<le> CDF_LEN_SMALL" "entry_at CDF_LEN_SMALL (fst s) e" using snoc.prems(1) by auto
    have so: "2 * fst s \<le> 0xFFFF" "fst s + CDF_LEN_SMALL \<le> words"
      using slot_offset[OF s(1)] slot_window[OF s(1)] s(2) by (simp_all add: cdf_window_def)
    have l: "length (take CDF_LEN_SMALL e) = CDF_LEN_SMALL" using s(3) by (simp add: entry_at_def)
    have ap: "fst s + length (take CDF_LEN_SMALL e) \<le> fst t \<or> fst t + CDF_LEN_MAX \<le> fst s"
      using windows_apart[OF s(1) t(1) s(2) t(2)] by (simp only: apart_def l)
    let ?fc = "overwrite (fst s) (take CDF_LEN_SMALL e) fc"
    have L: "length ?fc = words" "length (overwrite (fst t) vs fc) = words" using snoc.prems(2) so tw vs l by simp_all
    have cm: "overwrite (fst s) (take CDF_LEN_SMALL e) (overwrite (fst t) vs fc) = overwrite (fst t) vs ?fc"
      using ap so tw vs snoc.prems(2) l by (intro overwrite_commute) auto
    have w: "take CDF_LEN_MAX (drop (fst t) ?fc) = take CDF_LEN_MAX (drop (fst t) fc)"
      using ap so tw snoc.prems(2) l by (intro overwrite_window) auto
    have "\<forall>e\<in>set data. \<exists>s\<in>S. snd s \<le> CDF_LEN_SMALL \<and> entry_at CDF_LEN_SMALL (fst s) e" using snoc.prems(1) by simp
    from snoc.IH[OF this L(1) cp] show ?thesis
      using lp_undo_snoc[OF s(3) so(1), of fc cp data] lp_undo_snoc[OF s(3) so(1), of "overwrite (fst t) vs fc" cp data]
        so(2) snoc.prems(2) L cp unfolding cm w by simp
  qed (simp add: lp_undo_stop snoc.prems(2))
qed (simp add: lp_undo_stop)

text \<open>The log takes the context back to \<open>fc0\<close> at the checkpoint \<open>cp\<close>.\<close>

definition undoes :: "cdf_log \<Rightarrow> u16 list \<Rightarrow> cdf_checkpoint \<Rightarrow> u16 list \<Rightarrow> bool" where
  "undoes l fc cp fc0 \<longleftrightarrow> cc_small cp \<le> length (lp_data (log_small l)) \<and> cc_large cp \<le> length (lp_data (log_large l)) \<and>
     (\<exists>fc1. lp_undo (CDF_LEN_SMALL + 1) (cc_small cp) (lp_data (log_small l)) fc = Inr (take (cc_small cp) (lp_data (log_small l)), fc1) \<and>
       lp_undo (CDF_LEN_MAX + 1) (cc_large cp) (lp_data (log_large l)) fc1 = Inr (take (cc_large cp) (lp_data (log_large l)), fc0))"

lemma undoes_checkpoint: "undoes l fc (log_checkpoint l) fc"
  by (simp add: undoes_def log_checkpoint_def lp_undo_stop)

lemma log_push_ok:
  assumes l: "log_ok l" and s: "s \<in> S" and fc: "length fc = words"
  shows "\<exists>l'. log_push l fc (cdf_offset s) = Inr l' \<and> log_ok l' \<and>
    lp_data (log_small l') = lp_data (log_small l) @ (if snd s \<le> CDF_LEN_SMALL then [take CDF_LEN_SMALL (drop (fst s) fc) @ [of_nat (2 * fst s)]] else []) \<and>
    lp_data (log_large l') = lp_data (log_large l) @ (if snd s \<le> CDF_LEN_SMALL then [] else [take CDF_LEN_MAX (drop (fst s) fc) @ [of_nat (2 * fst s)]])"
proof (cases "snd s \<le> CDF_LEN_SMALL")
  case True
  have w: "fst s + CDF_LEN_SMALL \<le> length fc" using slot_window[OF s] True fc by (simp add: cdf_window_def)
  have "part_ok (CDF_LEN_SMALL + 1) (log_small l)" using l by (simp add: log_ok_def)
  from lp_push_ok[OF this slot_offset[OF s] w True] obtain p where
    p: "lp_push (CDF_LEN_SMALL + 1) (log_small l) fc (2 * fst s, snd s) = Inr p" "part_ok (CDF_LEN_SMALL + 1) p"
      "lp_data p = lp_data (log_small l) @ [take CDF_LEN_SMALL (drop (fst s) fc) @ [of_nat (2 * fst s)]]" by blast
  have "entry_at CDF_LEN_SMALL (fst s) (take CDF_LEN_SMALL (drop (fst s) fc) @ [of_nat (2 * fst s)])"
    by (rule entry_copied(1)[OF w])
  then have "log_ok (l\<lparr>log_small := p\<rparr>)" using l p s True unfolding log_ok_def by auto
  then show ?thesis using p True by (simp add: log_push_def cdf_offset_def)
next
  case False
  have w: "fst s + CDF_LEN_MAX \<le> length fc" using slot_window[OF s] False fc by (simp add: cdf_window_def)
  have n: "snd s \<le> CDF_LEN_MAX" using slot_len[OF s] by simp
  have "part_ok (CDF_LEN_MAX + 1) (log_large l)" using l by (simp add: log_ok_def)
  from lp_push_ok[OF this slot_offset[OF s] w n] obtain p where
    p: "lp_push (CDF_LEN_MAX + 1) (log_large l) fc (2 * fst s, snd s) = Inr p" "part_ok (CDF_LEN_MAX + 1) p"
      "lp_data p = lp_data (log_large l) @ [take CDF_LEN_MAX (drop (fst s) fc) @ [of_nat (2 * fst s)]]" by blast
  have "entry_at CDF_LEN_MAX (fst s) (take CDF_LEN_MAX (drop (fst s) fc) @ [of_nat (2 * fst s)])"
    by (rule entry_copied(1)[OF w])
  then have "log_ok (l\<lparr>log_large := p\<rparr>)" using l p s False unfolding log_ok_def by auto
  then show ?thesis using p False by (simp add: log_push_def cdf_offset_def)
qed

text \<open>Logging a CDF and overwriting it keeps the way back.\<close>

lemma undoes_push:
  assumes l: "log_ok l" and u: "undoes l fc cp fc0" and s: "s \<in> S" and fc: "length fc = words" and ws: "length ws = snd s"
    and push: "log_push l fc (cdf_offset s) = Inr l'"
  shows "undoes l' (overwrite (fst s) ws fc) cp fc0"
proof -
  note po = log_push_ok[OF l s fc, unfolded push]
  obtain fc1 where fc1: "lp_undo (CDF_LEN_SMALL + 1) (cc_small cp) (lp_data (log_small l)) fc = Inr (take (cc_small cp) (lp_data (log_small l)), fc1)"
      "lp_undo (CDF_LEN_MAX + 1) (cc_large cp) (lp_data (log_large l)) fc1 = Inr (take (cc_large cp) (lp_data (log_large l)), fc0)"
    and cps: "cc_small cp \<le> length (lp_data (log_small l))" "cc_large cp \<le> length (lp_data (log_large l))"
    using u by (auto simp: undoes_def)
  note w = slot_window[OF s] and o = slot_offset[OF s]
  show ?thesis
  proof (cases "snd s \<le> CDF_LEN_SMALL")
    case True
    let ?e = "take CDF_LEN_SMALL (drop (fst s) fc) @ [of_nat (2 * fst s)]"
    have d: "lp_data (log_small l') = lp_data (log_small l) @ [?e]" "lp_data (log_large l') = lp_data (log_large l)"
      using po True by auto
    have k: "fst s + CDF_LEN_SMALL \<le> words" using w True by (simp add: cdf_window_def)
    have e: "entry_at CDF_LEN_SMALL (fst s) ?e" "take CDF_LEN_SMALL ?e = take CDF_LEN_SMALL (drop (fst s) fc)"
      using entry_copied[OF k[folded fc]] by simp_all
    have b: "fst s + CDF_LEN_SMALL \<le> length (overwrite (fst s) ws fc)" using k True ws fc by simp
    have "lp_undo (CDF_LEN_SMALL + 1) (cc_small cp) (lp_data (log_small l')) (overwrite (fst s) ws fc) =
        lp_undo (CDF_LEN_SMALL + 1) (cc_small cp) (lp_data (log_small l)) fc"
      unfolding d lp_undo_snoc[OF e(1) o b cps(1)] e(2)
      using True ws k fc by (subst overwrite_restore) simp_all
    then show ?thesis using fc1 cps by (simp add: undoes_def d)
  next
    case False
    let ?e = "take CDF_LEN_MAX (drop (fst s) fc) @ [of_nat (2 * fst s)]"
    have d: "lp_data (log_small l') = lp_data (log_small l)" "lp_data (log_large l') = lp_data (log_large l) @ [?e]"
      using po False by auto
    have k: "fst s + CDF_LEN_MAX \<le> words" using w False by (simp add: cdf_window_def)
    have n: "length ws \<le> CDF_LEN_MAX" using slot_len[OF s] ws by simp
    have e: "entry_at CDF_LEN_MAX (fst s) ?e" "take CDF_LEN_MAX ?e = take CDF_LEN_MAX (drop (fst s) fc)"
      using entry_copied[OF k[folded fc]] by simp_all
    have "\<forall>e\<in>set (lp_data (log_small l)). \<exists>s\<in>S. snd s \<le> CDF_LEN_SMALL \<and> entry_at CDF_LEN_SMALL (fst s) e"
      using l by (simp add: log_ok_def)
    from undo_small_frame[OF this s False n fc cps(1)] fc1(1)
    have f: "lp_undo (CDF_LEN_SMALL + 1) (cc_small cp) (lp_data (log_small l)) (overwrite (fst s) ws fc) =
          Inr (take (cc_small cp) (lp_data (log_small l)), overwrite (fst s) ws fc1)"
        "take CDF_LEN_MAX (drop (fst s) fc1) = take CDF_LEN_MAX (drop (fst s) fc)" "length fc1 = words"
      by auto
    have b: "fst s + CDF_LEN_MAX \<le> length (overwrite (fst s) ws fc1)" using k f(3) n by simp
    have "lp_undo (CDF_LEN_MAX + 1) (cc_large cp) (lp_data (log_large l')) (overwrite (fst s) ws fc1) =
        lp_undo (CDF_LEN_MAX + 1) (cc_large cp) (lp_data (log_large l)) fc1"
      unfolding d lp_undo_snoc[OF e(1) o b cps(2)] e(2) unfolding f(2)[symmetric]
      using n k f(3) by (subst overwrite_restore) simp_all
    then show ?thesis using f(1) fc1(2) cps by (simp add: undoes_def d)
  qed
qed

lemma undoes_rollback:
  assumes "undoes l fc cp fc0"
  shows "\<exists>l'. log_rollback l fc cp = Inr (l', fc0) \<and> lp_data (log_small l') = take (cc_small cp) (lp_data (log_small l)) \<and>
    lp_data (log_large l') = take (cc_large cp) (lp_data (log_large l))"
  using assms by (auto simp: undoes_def log_rollback_def lp_rollback_def)

end

end
