(* ===== verification/Av1_Stream.thy ===== *)
theory Av1_Stream
  imports Av1_CdfLogLaws
begin

text \<open>
  The coder, the adaptive contexts and their undo log together. A run of symbols
  through \<open>symbol_with_update\<close> is described by the tokens it stores and the
  context it leaves, whatever the storage; the same run is decoded by reading
  each symbol with the context adapted so far. The interpretation of
  \<open>cdf_layout\<close> on the slots of \<open>CDFContext\<close> discharges what the undo log assumes
  of the struct.
\<close>

section \<open>What a run of symbols does\<close>

definition adapt :: "u16 list \<Rightarrow> u32 \<Rightarrow> nat \<times> nat \<Rightarrow> u16 list" where
  "adapt fc v s = overwrite (fst s) (update_cdf (fc_get fc s) v) fc"

fun run_tokens :: "u16 list \<Rightarrow> (u32 \<times> nat \<times> nat) list \<Rightarrow> token list" where
  "run_tokens fc [] = []"
| "run_tokens fc ((v, s) # xs) = symbol_token (unat v) (fc_get fc s) # run_tokens (adapt fc v s) xs"

fun run_context :: "u16 list \<Rightarrow> (u32 \<times> nat \<times> nat) list \<Rightarrow> u16 list" where
  "run_context fc [] = fc"
| "run_context fc ((v, s) # xs) = run_context (adapt fc v s) xs"

fun run_log :: "cdf_log \<Rightarrow> u16 list \<Rightarrow> (u32 \<times> nat \<times> nat) list \<Rightarrow> cdf_log" where
  "run_log l fc [] = l"
| "run_log l fc ((v, s) # xs) = run_log (projr (log_push l fc (cdf_offset s))) (adapt fc v s) xs"

text \<open>A decoder of adaptive symbols over \<open>Reader\<close>: the CDF is read and adapted as the encoder does.\<close>

definition decode_symbol :: "nat \<times> nat \<Rightarrow> ec_reader \<times> u16 list \<Rightarrow> (u32 \<times> ec_reader \<times> u16 list) result" where
  "decode_symbol s st =
     (let (rd, fc) = st in
      bindR (fc_read fc (2 * fst s) (snd s)) (\<lambda>c.
      bindR (read_symbol c rd) (\<lambda>(v, rd).
      bindR (fc_write fc (2 * fst s) (update_cdf c (of_nat v))) (\<lambda>fc.
      Inr (of_nat v, rd, fc)))))"

primrec decode_symbols :: "(nat \<times> nat) list \<Rightarrow> ec_reader \<times> u16 list \<Rightarrow> (u32 list \<times> ec_reader \<times> u16 list) result" where
  "decode_symbols [] st = Inr ([], st)"
| "decode_symbols (s # ss) st =
     bindR (decode_symbol s st) (\<lambda>(v, st). bindR (decode_symbols ss st) (\<lambda>(vs, st). Inr (v # vs, st)))"

context cdf_layout
begin

definition fc_ok :: "u16 list \<Rightarrow> bool" where
  "fc_ok fc \<longleftrightarrow> length fc = words \<and> (\<forall>s\<in>S. cdf_at (snd s) (fc_get fc s))"

definition syms_ok :: "(u32 \<times> nat \<times> nat) list \<Rightarrow> bool" where
  "syms_ok xs \<longleftrightarrow> (\<forall>(v, s)\<in>set xs. s \<in> S \<and> unat v < snd s)"

lemma syms_ok_Cons [simp]: "syms_ok ((v, s) # xs) \<longleftrightarrow> s \<in> S \<and> unat v < snd s \<and> syms_ok xs"
  by (auto simp: syms_ok_def)

lemma fc_get_ok: "fc_ok fc \<Longrightarrow> s \<in> S \<Longrightarrow> cdf_ok (fc_get fc s) \<and> length (fc_get fc s) = snd s"
  by (auto simp: fc_ok_def cdf_at_def)

lemma fc_overwrite_ok:
  assumes fc: "fc_ok fc" and s: "s \<in> S" and c: "cdf_at (snd s) c"
  shows "fc_ok (overwrite (fst s) c fc)"
proof -
  have l: "fst s + length c \<le> length fc" using fc slot_inside[OF s] c by (simp add: fc_ok_def cdf_at_def)
  have "cdf_at (snd t) (fc_get (overwrite (fst s) c fc) t)" if t: "t \<in> S" for t
  proof (cases "t = s")
    case True
    have "fc_get (overwrite (fst s) c fc) s = c" using overwrite_window_same[OF l] c by (simp add: fc_get_def cdf_at_def)
    then show ?thesis using c True by simp
  next
    case False
    have "fst s + length c \<le> fst t \<or> fst t + snd t \<le> fst s"
      using slots_apart[OF s t] False c by (auto simp: apart_def cdf_at_def)
    then have "fc_get (overwrite (fst s) c fc) t = fc_get fc t"
      using l slot_inside[OF t] fc unfolding fc_get_def by (intro overwrite_window) (simp_all add: fc_ok_def)
    then show ?thesis using fc t by (simp add: fc_ok_def)
  qed
  then show ?thesis using fc l by (simp add: fc_ok_def)
qed

lemma adapt_ok: "fc_ok fc \<Longrightarrow> s \<in> S \<Longrightarrow> fc_ok (adapt fc v s)"
  unfolding adapt_def using fc_get_ok[of fc s]
  by (intro fc_overwrite_ok) (simp_all add: cdf_at_def update_cdf_ok update_cdf_length)

lemma fc_read_slot: "fc_ok fc \<Longrightarrow> s \<in> S \<Longrightarrow> fc_read fc (2 * fst s) (snd s) = Inr (fc_get fc s)"
  using slot_inside[of s] by (simp add: fc_read_def fc_get_def fc_ok_def)

lemma fc_write_slot:
  "fc_ok fc \<Longrightarrow> s \<in> S \<Longrightarrow> fc_write fc (2 * fst s) (update_cdf (fc_get fc s) v) = Inr (adapt fc v s)"
  using slot_inside[of s] fc_get_ok[of fc s] by (simp add: fc_write_def adapt_def fc_ok_def update_cdf_length)

section \<open>Writing\<close>

lemma symbol_with_update_ok:
  assumes "fc_ok fc" and "log_ok l" and "s \<in> S" and "unat v < snd s"
  shows "symbol_with_update store v (cdf_offset s) (w, l, fc) =
      Inr (store_tokens store [symbol_token (unat v) (fc_get fc s)] w, projr (log_push l fc (cdf_offset s)), adapt fc v s)"
    and "log_ok (projr (log_push l fc (cdf_offset s)))"
    and "undoes l fc cp fc0 \<Longrightarrow> undoes (projr (log_push l fc (cdf_offset s))) (adapt fc v s) cp fc0"
proof -
  have len: "length fc = words" using assms(1) by (simp add: fc_ok_def)
  obtain l' where l': "log_push l fc (cdf_offset s) = Inr l'" "log_ok l'" using log_push_ok[OF assms(2,3) len] by blast
  have g: "length (fc_get fc s) = snd s" "length (update_cdf (fc_get fc s) v) = snd s"
    using fc_get_ok[OF assms(1,3)] by (simp_all add: update_cdf_length)
  show "log_ok (projr (log_push l fc (cdf_offset s)))" using l' by simp
  show "undoes l fc cp fc0 \<Longrightarrow> undoes (projr (log_push l fc (cdf_offset s))) (adapt fc v s) cp fc0"
    unfolding adapt_def using undoes_push[OF assms(2) _ assms(3) len g(2) l'(1)] l'(1) by simp
  have "write_symbol store (unat v) (fc_get fc s) w = Inr (store_tokens store [symbol_token (unat v) (fc_get fc s)] w)"
    using assms(4) g by (intro write_symbol_token) simp
  then show "symbol_with_update store v (cdf_offset s) (w, l, fc) =
      Inr (store_tokens store [symbol_token (unat v) (fc_get fc s)] w, projr (log_push l fc (cdf_offset s)), adapt fc v s)"
    using l' fc_read_slot[OF assms(1,3)] fc_write_slot[OF assms(1,3)]
    by (simp add: symbol_with_update_def cdf_offset_def)
qed

lemma store_tokens_append: "store_tokens store (ts @ us) w = store_tokens store us (store_tokens store ts w)"
  by (simp add: store_tokens_def)

lemma symbols_with_update_ok:
  assumes "fc_ok fc" and "log_ok l" and "syms_ok xs"
  shows "symbols_with_update store xs (w, l, fc) = Inr (store_tokens store (run_tokens fc xs) w, run_log l fc xs, run_context fc xs) \<and>
    log_ok (run_log l fc xs) \<and> (undoes l fc cp fc0 \<longrightarrow> undoes (run_log l fc xs) (run_context fc xs) cp fc0)"
  using assms
proof (induction xs arbitrary: fc l w)
  case (Cons x xs)
  obtain v s where x: "x = (v, s)" by (cases x)
  have s: "s \<in> S" "unat v < snd s" "syms_ok xs" using Cons.prems(3) by (simp_all add: x)
  let ?w = "store_tokens store [symbol_token (unat v) (fc_get fc s)] w"
  note so = symbol_with_update_ok[OF Cons.prems(1,2) s(1,2)]
  from Cons.IH[OF adapt_ok[OF Cons.prems(1) s(1), of v] so(2) s(3), of ?w] show ?case
    using so(1)[of store w] so(3)[of cp fc0] store_tokens_append[of store "[symbol_token (unat v) (fc_get fc s)]" "run_tokens (adapt fc v s) xs" w]
    by (simp add: symbols_with_update_def x)
qed (simp add: symbols_with_update_def store_tokens_def)

lemma run_tokens_ok: "fc_ok fc \<Longrightarrow> syms_ok xs \<Longrightarrow> \<forall>t\<in>set (run_tokens fc xs). tok_ok t"
proof (induction xs arbitrary: fc)
  case (Cons x xs)
  obtain v s where x: "x = (v, s)" by (cases x)
  have s: "s \<in> S" "unat v < snd s" "syms_ok xs" using Cons.prems(2) by (simp_all add: x)
  have "tok_ok (symbol_token (unat v) (fc_get fc s))"
    using fc_get_ok[OF Cons.prems(1) s(1)] s(2) by (intro symbol_token_ok) auto
  then show ?case using Cons.IH[OF adapt_ok[OF Cons.prems(1) s(1)] s(3)] by (simp add: x)
qed simp

lemma run_context_ok: "fc_ok fc \<Longrightarrow> syms_ok xs \<Longrightarrow> fc_ok (run_context fc xs)"
proof (induction xs arbitrary: fc)
  case (Cons x xs)
  then show ?case by (cases x) (simp add: adapt_ok)
qed simp

section \<open>Reading\<close>

lemma decode_symbols_ok:
  assumes "fc_ok fc" and "syms_ok xs" and "dec_state rd L N" and "R = unat (er_rng rd)" and "er_buf rd = buf"
    and "in_range (bval buf) (length buf) (run_low L R (run_tokens fc xs)) (run_range R (run_tokens fc xs)) (N + run_shift R (run_tokens fc xs))"
  shows "\<exists>rd'. decode_symbols (map snd xs) (rd, fc) = Inr (map fst xs, rd', run_context fc xs)"
  using assms
proof (induction xs arbitrary: fc rd L N R)
  case (Cons x xs)
  obtain v s where x: "x = (v, s)" by (cases x)
  have s: "s \<in> S" "unat v < snd s" "syms_ok xs" using Cons.prems(2) by (simp_all add: x)
  let ?c = "fc_get fc s" and ?fc = "adapt fc v s"
  define t where "t = symbol_token (unat v) ?c"
  have c: "cdf_ok ?c" "unat v < length ?c" using fc_get_ok[OF Cons.prems(1) s(1)] s(2) by simp_all
  have ok: "tok_ok t" unfolding t_def by (rule symbol_token_ok[OF c])
  have R: "32768 \<le> R" "R < 65536"
    using Cons.prems(3,4) unsigned_less[of "er_rng rd", where ?'a = nat] by (simp_all add: dec_state_def)
  note tb = tok_range_bounds[OF R ok]
  let ?ts = "run_tokens ?fc xs" and ?R = "tok_range R t" and ?L = "(L + (R - tok_upper R t)) * 2 ^ tok_shift R t" and ?N = "N + tok_shift R t"
  have ts: "run_tokens fc (x # xs) = t # ?ts" by (simp add: x t_def)
  have fin: "in_range (bval buf) (length buf) (run_low ?L ?R ?ts) (run_range ?R ?ts) (?N + run_shift ?R ?ts)"
    using Cons.prems(6) unfolding ts by (simp add: add.assoc)
  have "\<forall>t\<in>set ?ts. tok_ok t" by (rule run_tokens_ok[OF adapt_ok[OF Cons.prems(1) s(1)] s(3)])
  from in_range_run[OF tb(1,2) this fin] have r: "in_range (bval buf) (length buf) ?L ?R ?N" .
  obtain rd1 where rd1: "read_symbol ?c rd = Inr (unat v, rd1)" "dec_state rd1 ?L ?N" "er_buf rd1 = buf" "unat (er_rng rd1) = ?R"
    using read_symbol_ok[OF Cons.prems(3,4) c t_def Cons.prems(5) r] by blast
  have d: "decode_symbol s (rd, fc) = Inr (v, rd1, ?fc)"
    using fc_read_slot[OF Cons.prems(1) s(1)] fc_write_slot[OF Cons.prems(1) s(1)] rd1(1) by (simp add: decode_symbol_def)
  from Cons.IH[OF adapt_ok[OF Cons.prems(1) s(1)] s(3) rd1(2) rd1(4)[symmetric] rd1(3) fin] show ?case
    by (auto simp: x d)
qed simp

end

section \<open>A fresh decoder\<close>

lemma ec_reader_new_ok: "\<exists>rd. ec_reader_new buf = Inr rd \<and> dec_state rd 0 0 \<and> er_buf rd = buf \<and> unat (er_rng rd) = 32768"
proof -
  let ?r = "\<lparr>er_buf = buf, er_bptr = 0, er_dif = 2 ^ 31 - 1, er_rng = 0x8000, er_cnt = - 15\<rparr> :: ec_reader"
  have e: "shl 1 (WINDOW_SIZE - 1) - 1 = (2 ^ 31 - 1 :: u32)" by (simp add: shl_def WINDOW_SIZE_def push_bit_eq_mult)
  have "\<exists>rd'. refill ?r = Inr rd' \<and> dec_state rd' 0 0 \<and> er_buf rd' = er_buf ?r \<and> er_rng rd' = er_rng ?r"
    by (rule refill_ok) (simp_all)
  then show ?thesis unfolding ec_reader_new_def e by auto
qed

end
