(* ===== verification/Av1_ContextLaws.thy ===== *)
theory Av1_ContextLaws
  imports Av1_Stream
begin

text \<open>
  \<open>CDFContext\<close> has the layout its undo log needs. The words of the struct fall
  into seven regions, each holding windows of short CDFs or of long ones only:
  the sorted fields, the joints with their padding, and the two motion vector
  components with the padding after \<open>classes_cdf\<close>. The check is per field, and
  the interpretation of \<open>cdf_layout\<close> turns it into facts about every pair of
  CDFs.
\<close>

section \<open>Slots in order\<close>

lemma slots_bounds: "s \<in> set (slots a fs) \<Longrightarrow> a \<le> fst s \<and> fst s + snd s \<le> a + layout_words fs"
proof (induction a fs rule: slots.induct)
  case (2 a nm n c fs)
  then show ?case
  proof (cases "s \<in> set (slots (a + n * c) fs)")
    case False
    then obtain i where i: "i < c" "s = (a + i * n, n)" using 2 by auto
    have "(i + 1) * n \<le> c * n" using i(1) by (intro mult_le_mono1) simp
    then show ?thesis using i(2) by (simp add: mult.commute)
  qed fastforce
qed fastforce+

lemma slots_sorted: "sorted_wrt (\<lambda>s t. fst s + snd s \<le> fst t) (slots a fs)"
proof (induction a fs rule: slots.induct)
  case (2 a nm n c fs)
  have "fst s + snd s \<le> fst t" if s: "s \<in> set (map (\<lambda>i. (a + i * n, n)) [0..<c])" and t: "t \<in> set (slots (a + n * c) fs)" for s t
  proof -
    obtain i where i: "i < c" "s = (a + i * n, n)" using s by auto
    have "(i + 1) * n \<le> c * n" using i(1) by (intro mult_le_mono1) simp
    then show ?thesis using slots_bounds[OF t] i(2) by (simp add: mult.commute)
  qed
  moreover have "sorted_wrt (\<lambda>s t. fst s + snd s \<le> fst t) (map (\<lambda>i. (a + i * n, n)) [0..<c])"
    unfolding sorted_wrt_iff_nth_less
  proof (intro allI impI)
    fix i j assume ij: "i < j" "j < length (map (\<lambda>i. (a + i * n, n)) [0..<c])"
    then have "(i + 1) * n \<le> j * n" by (intro mult_le_mono1) simp
    then show "fst (map (\<lambda>i. (a + i * n, n)) [0..<c] ! i) + snd (map (\<lambda>i. (a + i * n, n)) [0..<c] ! i)
        \<le> fst (map (\<lambda>i. (a + i * n, n)) [0..<c] ! j)" using ij by simp
  qed
  ultimately show ?case using 2 by (simp add: sorted_wrt_append)
qed simp_all

lemma slots_pair:
  assumes "s \<in> set (slots a fs)" and "t \<in> set (slots a fs)" and "s \<noteq> t"
  shows "apart (fst s) (snd s) (fst t) (snd t)"
proof -
  obtain i j where ij: "i < length (slots a fs)" "s = slots a fs ! i" "j < length (slots a fs)" "t = slots a fs ! j"
    using assms(1,2) by (metis in_set_conv_nth)
  then have "i \<noteq> j" using assms(3) by auto
  then have "i < j \<or> j < i" by (rule linorder_neqE_nat) simp_all
  then show ?thesis
    using sorted_wrt_nth_less[OF slots_sorted, of i j a fs] sorted_wrt_nth_less[OF slots_sorted, of j i a fs] ij
    by (auto simp: apart_def)
qed

section \<open>Regions\<close>

text \<open>\<open>(short, lo, hi)\<close>: the windows of the short (or the long) CDFs between two words.\<close>

definition regions :: "(bool \<times> nat \<times> nat) list" where
  "regions = [(True, 0, 3314), (False, 3314, 5402), (True, 5402, 5418), (True, 5418, 5458), (False, 5458, 5474), (True, 5474, 5514), (False, 5514, 5530)]"

definition in_region :: "bool \<Rightarrow> nat \<Rightarrow> nat \<Rightarrow> bool" where
  "in_region short a b \<longleftrightarrow> list_ex (\<lambda>(sh, lo, hi). sh = short \<and> lo \<le> a \<and> b \<le> hi) regions"

fun fits :: "nat \<Rightarrow> fc_field list \<Rightarrow> bool" where
  "fits a [] \<longleftrightarrow> True"
| "fits a (Cdf _ n c # fs) \<longleftrightarrow>
     0 < n \<and> n \<le> 16 \<and> 0 < c \<and> in_region (n \<le> 4) a (a + n * (c - 1) + (if n \<le> 4 then 4 else 16)) \<and> fits (a + n * c) fs"
| "fits a (Padding k # fs) \<longleftrightarrow> fits (a + k) fs"

lemma in_region_sub: "in_region short a b \<Longrightarrow> a \<le> a' \<Longrightarrow> b' \<le> b \<Longrightarrow> in_region short a' b'"
  unfolding in_region_def list_ex_iff by (erule bexE, rule bexI) auto

lemma fits_slots:
  "fits a fs \<Longrightarrow> s \<in> set (slots a fs) \<Longrightarrow>
    0 < snd s \<and> snd s \<le> 16 \<and> in_region (snd s \<le> 4) (fst s) (fst s + (if snd s \<le> 4 then 4 else 16))"
proof (induction a fs rule: slots.induct)
  case (2 a nm n c fs)
  then show ?case
  proof (cases "s \<in> set (slots (a + n * c) fs)")
    case False
    then obtain i where i: "i < c" "s = (a + i * n, n)" using 2 by auto
    have "i * n \<le> (c - 1) * n" using i(1) by (intro mult_le_mono1) simp
    then have e: "fst s + (if n \<le> 4 then 4 else 16) \<le> a + n * (c - 1) + (if n \<le> 4 then 4 else 16)" "a \<le> fst s" "snd s = n"
      using i(2) by (simp_all add: mult.commute)
    have "0 < n" "n \<le> 16" "in_region (n \<le> 4) a (a + n * (c - 1) + (if n \<le> 4 then 4 else 16))" using 2(2) by simp_all
    then show ?thesis unfolding e(3) using in_region_sub[OF _ e(2,1)] by blast
  qed simp
qed simp_all

lemma layout_numbers:
  "layout_words CDFContext = 5530"
  "fits 0 CDFContext"
  by (simp add: CDFContext_def NMVContext_def NMVComponent_def cdf_geom)
    (simp add: CDFContext_def NMVContext_def NMVComponent_def cdf_geom in_region_def regions_def)

lemma in_region_bound: "in_region short a b \<Longrightarrow> b \<le> 5530"
  by (auto simp: in_region_def regions_def)

lemma in_region_apart: "in_region True a b \<Longrightarrow> in_region False c d \<Longrightarrow> b \<le> c \<or> d \<le> a"
  by (auto simp: in_region_def regions_def)

interpretation ctx: cdf_layout "set cdf_slots" "layout_words CDFContext"
proof
  fix s t assume s: "s \<in> set cdf_slots"
  note f = fits_slots[OF layout_numbers(2) s[unfolded cdf_slots_def]]
  show "0 < snd s \<and> snd s \<le> CDF_LEN_MAX" using f by (simp add: CDF_LEN_MAX_def)
  have w: "cdf_window (snd s) = (if snd s \<le> 4 then 4 else 16)" by (simp add: cdf_window_def cdf_geom CDF_LEN_MAX_def)
  show "fst s + cdf_window (snd s) \<le> layout_words CDFContext" using in_region_bound f unfolding w layout_numbers(1) by blast
  then show "2 * fst s \<le> 0xFFFF" by (simp add: layout_numbers)
  assume t: "t \<in> set cdf_slots"
  show "s \<noteq> t \<Longrightarrow> apart (fst s) (snd s) (fst t) (snd t)" using slots_pair s t unfolding cdf_slots_def by blast
  note g = fits_slots[OF layout_numbers(2) t[unfolded cdf_slots_def]]
  show "snd s \<le> CDF_LEN_SMALL \<Longrightarrow> \<not> snd t \<le> CDF_LEN_SMALL \<Longrightarrow> apart (fst s) CDF_LEN_SMALL (fst t) CDF_LEN_MAX"
    using f g in_region_apart[of "fst s" "fst s + 4" "fst t" "fst t + 16"] by (simp add: apart_def cdf_geom CDF_LEN_MAX_def)
qed

lemma CDFContext_new_fc_ok: "ctx.fc_ok (CDFContext_new q)"
  using CDFContext_new_ok by (simp add: ctx.fc_ok_def)

lemma log_new_ok: "ctx.log_ok log_new"
  by (simp add: ctx.log_ok_def log_new_def part_ok_def cdf_geom CDF_LEN_MAX_def)

section \<open>Resetting the counts\<close>

lemma reset_one:
  assumes fc: "ctx.fc_ok fc" and s: "s \<in> set cdf_slots"
  shows "ctx.fc_ok (fc[fst s + snd s - 1 := 0])"
proof -
  let ?c = "fc_get fc s"
  have c: "cdf_ok ?c" "length ?c = snd s" using ctx.fc_get_ok[OF fc s] by simp_all
  have n: "0 < snd s" "fst s + snd s \<le> length fc" using ctx.slot_len[OF s] ctx.slot_inside[OF s] fc by (simp_all add: ctx.fc_ok_def)
  have "fc[fst s + snd s - 1 := 0] = overwrite (fst s) (?c[snd s - 1 := 0]) fc"
    using n c(2) by (intro nth_equalityI) (auto simp: overwrite_nth nth_list_update fc_get_def)
  moreover have "cdf_at (snd s) (?c[snd s - 1 := 0])"
  proof -
    have "?c[length ?c - 1 := 0] = butlast ?c @ [0]" using n c by (metis cdf_ok_def list_update_length append_butlast_last_id length_butlast)
    then show ?thesis using c n by (simp add: cdf_at_def cdf_ok_def)
  qed
  ultimately show ?thesis using ctx.fc_overwrite_ok[OF fc s] by simp
qed

lemma reset_counts_ok:
  assumes "ctx.fc_ok fc"
  shows "ctx.fc_ok (reset_counts fc)"
proof -
  have "ctx.fc_ok fc \<Longrightarrow> set ss \<subseteq> set cdf_slots \<Longrightarrow> ctx.fc_ok (fold (\<lambda>s fc. fc[fst s + snd s - 1 := 0]) ss fc)" for ss fc
    by (induction ss arbitrary: fc) (simp_all add: reset_one[unfolded One_nat_def])
  then show ?thesis using assms unfolding reset_counts_def by blast
qed

end
