(* ===== verification/Av1_EcCost.thy ===== *)
theory Av1_EcCost
  imports Av1_EcRound
begin

text \<open>
  The cost estimate \<open>symbol_bits\<close> of \<open>src/src/ec.rs\<close> against the writer: for every
  storage it is exactly by how much coding the symbol moves \<open>tell_frac\<close>, because
  the fractional part depends on the range alone and both compute the same range.
\<close>

definition frac_part :: "u32 \<Rightarrow> u32" where
  "frac_part rng = snd (fold (\<lambda>_ (rng, l).
     let rng = drop_bit 15 (rng * rng); b = drop_bit 16 rng in (drop_bit (unat b) rng, push_bit 1 l OR b)) [0..<OD_BITRES] (rng, 0))"

lemma frac_compute_part: "frac_compute n rng = 8 * n - frac_part rng"
  unfolding frac_compute_def frac_part_def Let_def by (simp add: OD_BITRES_def push_bit_eq_mult split: prod.split)

lemma cost_range:
  assumes c: "cdf_ok cdf" "s < length cdf" and R: "32768 \<le> unat (wr_rng w)"
    and t: "t = symbol_token s cdf"
  shows "symbol_bits s cdf w = Inr (8 * of_nat (tok_shift (unat (wr_rng w)) t) -
    frac_part (of_nat (tok_range (unat (wr_rng w)) t)) + frac_part (ucast (wr_rng w)))"
proof -
  let ?R = "unat (wr_rng w)" and ?rng = "ucast (drop_bit 8 (wr_rng w)) :: u32"
  have R': "?R < 65536" using unsigned_less[of "wr_rng w", where ?'a = nat] by simp
  have ok: "tok_ok t" unfolding t by (rule symbol_token_ok[OF c])
  note tb = tok_bounds[OF R ok] and rb = tok_range_bounds[OF R R' ok]
  have l16: "length cdf \<le> 16" using c by (simp add: cdf_ok_def)
  have p: "unat (drop_bit 1 (?rng * drop_bit 6 (ucast f))) = part ?R f" for f :: u16
  proof -
    have f16: "unat f < 65536" using unsigned_less[of f, where ?'a = nat] by simp
    have m: "?R div 256 * (unat f div 64) \<le> 255 * 1023" using R' f16 by (intro mult_le_mono) auto
    have "unat (?rng * drop_bit 6 (ucast f)) = ?R div 256 * (unat f div 64)"
      using m by (subst unat_mult_small) (simp_all add: unat_drop_bit unat_ucast_up)
    then show ?thesis by (simp add: unat_drop_bit part_def)
  qed
  define r where "r = (if s > 0 then drop_bit 1 (?rng * drop_bit 6 (ucast (cdf ! (s - 1)))) - drop_bit 1 (?rng * drop_bit 6 (ucast (cdf ! s))) + 4
      else ucast (wr_rng w) - drop_bit 1 (?rng * drop_bit 6 (ucast (cdf ! s))) - (of_nat (length cdf) - of_nat s - 1) * 4 :: u32)"
  have low: "tok_lower ?R t = sym_lower ?R cdf s" unfolding t by (rule tok_lower_symbol[OF c])
  have ur: "unat r = tok_width ?R t"
  proof (cases "s > 0")
    case True
    let ?a = "drop_bit 1 (?rng * drop_bit 6 (ucast (cdf ! (s - 1))))" and ?b = "drop_bit 1 (?rng * drop_bit 6 (ucast (cdf ! s)))"
    have up: "tok_upper ?R t = part ?R (cdf ! (s - 1)) + 4 * (length cdf - s)"
      using tok_upper_symbol[OF c, of ?R] True c(2) by (simp add: t sym_lower_def)
    have le: "part ?R (cdf ! s) \<le> part ?R (cdf ! (s - 1))" using cdf_ok_nth(2)[OF c, of "s - 1"] by (intro part_mono) simp
    then have "?b \<le> ?a" by (intro word_le_nat_alt[THEN iffD2]) (simp only: p)
    from unat_sub[OF this] have d: "unat (?a - ?b) = part ?R (cdf ! (s - 1)) - part ?R (cdf ! s)" by (simp only: p)
    have w: "tok_width ?R t = part ?R (cdf ! (s - 1)) - part ?R (cdf ! s) + 4"
      using le True c(2) by (simp add: tok_width_def up low sym_lower_def)
    have "tok_width ?R t \<le> ?R" using tb by (simp add: tok_width_def)
    then have "unat (?a - ?b + 4) = tok_width ?R t" using R' unfolding w by (subst unat_add_small) (simp_all only: d, simp_all)
    then show ?thesis using True by (simp only: r_def if_True)
  next
    case False
    then have s0: "s = 0" by simp
    let ?b = "drop_bit 1 (?rng * drop_bit 6 (ucast (cdf ! s)))"
    have up: "tok_upper ?R t = ?R" using tok_upper_symbol[OF c, of ?R] by (simp add: t s0)
    have lt: "part ?R (cdf ! s) + 4 * (length cdf - 1) < ?R" using tb(1) by (simp add: up low sym_lower_def s0)
    have "?b \<le> ucast (wr_rng w)" using lt by (intro word_le_nat_alt[THEN iffD2]) (simp only: p unat_ucast_up, simp add: unat_ucast_up)
    from unat_sub[OF this] have d: "unat (ucast (wr_rng w) - ?b) = ?R - part ?R (cdf ! s)" by (simp only: p) (simp add: unat_ucast_up)
    have n: "(of_nat (length cdf) - of_nat s - 1 :: u32) = of_nat (length cdf - 1)"
      using c(2) by (cases "length cdf") (simp_all add: s0)
    have n4: "unat (of_nat (length cdf - 1) * 4 :: u32) = (length cdf - 1) * 4"
      using l16 by (subst unat_mult_small) (simp_all add: unat_of_nat_small del: of_nat_diff)
    have "of_nat (length cdf - 1) * 4 \<le> ucast (wr_rng w) - ?b" using lt by (intro word_le_nat_alt[THEN iffD2]) (unfold d n4, linarith)
    from unat_sub[OF this] have "unat (ucast (wr_rng w) - ?b - of_nat (length cdf - 1) * 4) = ?R - part ?R (cdf ! s) - (length cdf - 1) * 4"
      unfolding d n4 .
    also have "\<dots> = tok_width ?R t" unfolding tok_width_def up low sym_lower_def s0 by linarith
    finally show ?thesis using False by (simp only: r_def n if_False)
  qed
  let ?d = "tok_shift ?R t"
  have W: "0 < tok_width ?R t" "tok_width ?R t < 65536" using tb R' by (simp_all add: tok_width_def)
  have "floorlog 2 (tok_width ?R t) \<le> 16" using W(2) by (intro floorlog_leI) simp_all
  then have lz: "int (leading_zeros r) - 16 = int ?d" by (simp add: leading_zeros_def ur tok_shift_def)
  have sh: "unat (shl r (int ?d)) = tok_range ?R t"
    using rb W by (subst unat_shl_nat[OF _ ur]) (simp_all add: tok_range_def)
  then have shw: "shl r (int ?d) = of_nat (tok_range ?R t)" by (metis of_nat_unat ucast_id)
  have k: "7 - EC_PROB_SHIFT = 1" by (simp add: EC_PROB_SHIFT_def)
  have eq: "symbol_bits s cdf w = Inr (frac_compute (word_of_int (wr_cnt w + int ?d + 9)) (shl r (int ?d)) - frac_compute (word_of_int (wr_cnt w + 9)) (ucast (wr_rng w)))"
  proof -
    have "symbol_bits s cdf w = (let (bits, sh) =
              (if wr_cnt w + int ?d \<ge> 0 then
                 let c = wr_cnt w + 16;
                     (bits, c) = (if wr_cnt w + int ?d \<ge> 8 then (8, c - 8) else (0, c));
                     bits = bits + 8
                 in (bits, c + int ?d - 24)
               else (0, wr_cnt w + int ?d))
        in Inr (frac_compute (word_of_int (bits + sh + 9)) (shl r (int ?d)) - frac_compute (word_of_int (wr_cnt w + 9)) (ucast (wr_rng w))))"
      unfolding symbol_bits_def Let_def k EC_MIN_PROB_def unfolding EC_PROB_SHIFT_def lz[unfolded r_def, symmetric] r_def
      using c(2) by (simp only: not_le[symmetric]) simp
    also have "\<dots> = Inr (frac_compute (word_of_int (wr_cnt w + int ?d + 9)) (shl r (int ?d)) - frac_compute (word_of_int (wr_cnt w + 9)) (ucast (wr_rng w)))"
      by (simp add: Let_def ac_simps)
    finally show ?thesis .
  qed
  show ?thesis unfolding eq shw frac_compute_part by (simp add: algebra_simps)
qed

text \<open>The cost is the change of \<open>tell_frac\<close>, in every storage.\<close>

context storage_backend
begin

lemma tell_frac_store:
  assumes w: "inv w" and c: "cdf_ok cdf" "s < length cdf"
  shows "\<exists>w'. write_symbol store s cdf w = Inr w' \<and>
    symbol_bits s cdf w = Inr (tell_frac stream_bits w' - tell_frac stream_bits w)"
proof -
  define t where "t = symbol_token s cdf"
  let ?w = "store_tokens store [t] w" and ?R = "unat (wr_rng w)"
  have ok: "\<forall>t'\<in>set [t]. tok_ok t'" unfolding t_def using symbol_token_ok[OF c] by simp
  note tr = tell_run[OF w ok] and rs = run_state[OF w ok]
  have rng: "ucast (wr_rng ?w) = (of_nat (tok_range ?R t) :: u32)"
  proof -
    have "unat (wr_rng ?w) = tok_range ?R t" using rs by simp
    then have "(of_nat (tok_range ?R t) :: u32) = of_nat (unat (wr_rng ?w))" by simp
    then show ?thesis by simp
  qed
  have "tell_frac stream_bits ?w - tell_frac stream_bits w =
      8 * of_nat (tok_shift ?R t) - frac_part (of_nat (tok_range ?R t)) + frac_part (ucast (wr_rng w))"
    using rs unfolding tell_frac_def frac_compute_part rng tr by (simp add: algebra_simps)
  moreover have "write_symbol store s cdf w = Inr ?w" unfolding t_def by (rule write_symbol_token[OF c(2)])
  ultimately show ?thesis using cost_range[OF c inv_range[OF w] t_def] by simp
qed

end

end
