(* ===== verification/Av1_Coding.thy ===== *)
theory Av1_Coding
  imports Av1_ContextLaws Av1_EcCost
begin

text \<open>
  The states of a tile's contexts and undo log that coding reaches, and what
  every run of adaptive symbols does from them in the three storages: from a
  fresh writer for the frame's quantizer, by coding symbols, by undoing a trial,
  by clearing the log, and by going to the next frame with the counts reset.
\<close>

inductive coding_state :: "cdf_log \<Rightarrow> u16 list \<Rightarrow> bool" where
  cs_new: "coding_state log_new (CDFContext_new q)"
| cs_symbol: "coding_state l fc \<Longrightarrow> s \<in> set cdf_slots \<Longrightarrow> unat v < snd s \<Longrightarrow>
    symbol_with_update (\<lambda>_ _ _ w. w) v (cdf_offset s) ((), l, fc) = Inr ((), l', fc') \<Longrightarrow> coding_state l' fc'"
| cs_undo: "coding_state l fc \<Longrightarrow> \<forall>(v, s)\<in>set xs. s \<in> set cdf_slots \<and> unat v < snd s \<Longrightarrow>
    symbols_with_update (\<lambda>_ _ _ w. w) xs ((), l, fc) = Inr ((), l', fc') \<Longrightarrow>
    log_rollback l' fc' (log_checkpoint l) = Inr (l'', fc'') \<Longrightarrow> coding_state l'' fc''"
| cs_clear: "coding_state l fc \<Longrightarrow> coding_state (log_clear l) fc"
| cs_next_frame: "coding_state l fc \<Longrightarrow> coding_state log_new (reset_counts fc)"

text \<open>Symbols a context can code: the CDF of a slot, and a symbol in its alphabet.\<close>

definition codable :: "(u32 \<times> nat \<times> nat) list \<Rightarrow> bool" where
  "codable xs \<longleftrightarrow> (\<forall>(v, s)\<in>set xs. s \<in> set cdf_slots \<and> unat v < snd s)"

lemma codable_syms: "codable xs \<longleftrightarrow> ctx.syms_ok xs"
  by (simp add: codable_def ctx.syms_ok_def)

lemma codable_Cons [simp]: "codable ((v, s) # xs) \<longleftrightarrow> s \<in> set cdf_slots \<and> unat v < snd s \<and> codable xs"
  by (auto simp: codable_def)

lemma log_rollback_ok:
  assumes l': "ctx.log_ok l'" and u: "ctx.undoes l' fc' (log_checkpoint l) fc" and r: "log_rollback l' fc' (log_checkpoint l) = Inr (l'', fc'')"
  shows "ctx.log_ok l'' \<and> fc'' = fc"
proof -
  note d = ctx.undoes_rollback[OF u, unfolded r]
  have data: "set (lp_data (log_small l'')) \<subseteq> set (lp_data (log_small l'))" "set (lp_data (log_large l'')) \<subseteq> set (lp_data (log_large l'))"
    "length (lp_data (log_small l'')) \<le> length (lp_data (log_small l'))" "length (lp_data (log_large l'')) \<le> length (lp_data (log_large l'))"
    using d by (auto dest: in_set_takeD)
  have "lp_capacity (log_small l'') = lp_capacity (log_small l')" "lp_capacity (log_large l'') = lp_capacity (log_large l')"
    using r by (auto simp: log_rollback_def lp_rollback_def bindR_eq_Inr_iff)
  then show ?thesis using l' d data unfolding ctx.log_ok_def part_ok_def by (auto dest: subsetD)
qed

lemma coding_state_ok: "coding_state l fc \<Longrightarrow> ctx.log_ok l \<and> ctx.fc_ok fc"
proof (induction rule: coding_state.induct)
  case (cs_symbol l fc s v l' fc')
  then have fc: "ctx.fc_ok fc" and l: "ctx.log_ok l" by simp_all
  note so = ctx.symbol_with_update_ok[OF fc l cs_symbol.hyps(2,3)]
  show ?case
    using cs_symbol.hyps(4) so(1)[of "\<lambda>_ _ _ w. w" "()"] so(2) ctx.adapt_ok[OF fc cs_symbol.hyps(2), of v] by simp
next
  case (cs_undo l fc xs l' fc' l'' fc'')
  have ok: "ctx.syms_ok xs" using cs_undo.hyps(2) by (simp add: ctx.syms_ok_def)
  from ctx.symbols_with_update_ok[OF _ _ ok, of fc l "\<lambda>_ _ _ w. w" "()" "log_checkpoint l" fc] cs_undo ctx.undoes_checkpoint[of l fc]
  have l': "ctx.log_ok l'" "ctx.undoes l' fc' (log_checkpoint l) fc" by auto
  show ?case using log_rollback_ok[OF l' cs_undo.hyps(4)] cs_undo.IH by simp
next
  case (cs_clear l fc)
  then show ?case by (auto simp: log_clear_def ctx.log_ok_def part_ok_def)
qed (simp_all add: CDFContext_new_fc_ok log_new_ok reset_counts_ok)

text \<open>A run only adds to the log.\<close>

lemma run_log_extends:
  assumes "ctx.log_ok l" and "ctx.fc_ok fc" and "ctx.syms_ok xs"
  shows "\<exists>ds dl. lp_data (log_small (run_log l fc xs)) = lp_data (log_small l) @ ds \<and>
    lp_data (log_large (run_log l fc xs)) = lp_data (log_large l) @ dl"
  using assms
proof (induction xs arbitrary: l fc)
  case (Cons x xs)
  obtain v s where x: "x = (v, s)" by (cases x)
  have s: "s \<in> set cdf_slots" "unat v < snd s" "ctx.syms_ok xs" using Cons.prems(3) by (simp_all add: x)
  have fc: "length fc = layout_words CDFContext" using Cons.prems(2) by (simp add: ctx.fc_ok_def)
  obtain l' where l': "log_push l fc (cdf_offset s) = Inr l'" "ctx.log_ok l'"
      "\<exists>ds dl. lp_data (log_small l') = lp_data (log_small l) @ ds \<and> lp_data (log_large l') = lp_data (log_large l) @ dl"
    using ctx.log_push_ok[OF Cons.prems(1) s(1) fc] by blast
  from Cons.IH[OF l'(2) ctx.adapt_ok[OF Cons.prems(2) s(1), of v] s(3)] l'(3) show ?case by (auto simp: x l'(1))
qed simp

text \<open>A run from a coding state: what it stores, and how it is undone.\<close>

lemma coding_run:
  assumes "coding_state l fc" and "codable xs"
  shows "symbols_with_update store xs (w, l, fc) = Inr (store_tokens store (run_tokens fc xs) w, run_log l fc xs, run_context fc xs)"
    and "\<exists>l''. log_rollback (run_log l fc xs) (run_context fc xs) (log_checkpoint l) = Inr (l'', fc) \<and>
      lp_data (log_small l'') = lp_data (log_small l) \<and> lp_data (log_large l'') = lp_data (log_large l)"
    and "\<forall>t\<in>set (run_tokens fc xs). tok_ok t"
    and "ctx.fc_ok (run_context fc xs)"
proof -
  note ok = coding_state_ok[OF assms(1)] and xs = assms(2)[unfolded codable_syms]
  note run = ctx.symbols_with_update_ok[OF conjunct2[OF ok] conjunct1[OF ok] xs]
  show "symbols_with_update store xs (w, l, fc) = Inr (store_tokens store (run_tokens fc xs) w, run_log l fc xs, run_context fc xs)"
    by (rule run[THEN conjunct1])
  have "ctx.undoes (run_log l fc xs) (run_context fc xs) (log_checkpoint l) fc"
    by (rule mp[OF conjunct2[OF conjunct2[OF run]] ctx.undoes_checkpoint])
  from ctx.undoes_rollback[OF this] obtain l'' where l'': "log_rollback (run_log l fc xs) (run_context fc xs) (log_checkpoint l) = Inr (l'', fc)"
    "lp_data (log_small l'') = take (cc_small (log_checkpoint l)) (lp_data (log_small (run_log l fc xs)))"
    "lp_data (log_large l'') = take (cc_large (log_checkpoint l)) (lp_data (log_large (run_log l fc xs)))" by blast
  show "\<exists>l''. log_rollback (run_log l fc xs) (run_context fc xs) (log_checkpoint l) = Inr (l'', fc) \<and>
      lp_data (log_small l'') = lp_data (log_small l) \<and> lp_data (log_large l'') = lp_data (log_large l)"
    using l'' run_log_extends[OF conjunct1[OF ok] conjunct2[OF ok] xs] by (auto simp: log_checkpoint_def)
  show "\<forall>t\<in>set (run_tokens fc xs). tok_ok t" using ok xs by (intro ctx.run_tokens_ok) simp_all
  show "ctx.fc_ok (run_context fc xs)" using ok xs by (intro ctx.run_context_ok) simp_all
qed

section \<open>Round trip\<close>

text \<open>Decoding what a fresh encoder put out gives the symbols, and the same adapted context.\<close>

lemma stream_roundtrip:
  assumes fc: "ctx.fc_ok fc" and xs: "ctx.syms_ok xs"
  shows "\<exists>rd rd'. ec_reader_new (encoder_done (store_tokens encoder_store (run_tokens fc xs) WriterEncoder_new)) = Inr rd \<and>
    decode_symbols (map snd xs) (rd, fc) = Inr (map fst xs, rd', run_context fc xs)"
proof -
  let ?ts = "run_tokens fc xs" and ?w = "store_tokens encoder_store (run_tokens fc xs) WriterEncoder_new"
  let ?buf = "encoder_done ?w"
  have rng: "(32768 :: nat) = unat (wr_rng WriterEncoder_new)" by (simp add: WriterEncoder_new_def WriterBase_new_def)
  have ok: "\<forall>t\<in>set ?ts. tok_ok t" by (rule ctx.run_tokens_ok[OF fc xs])
  have st: "enc_state ?w (run_low 0 32768 ?ts) (0 + run_shift 32768 ?ts)" by (rule encoder_tokens_state[OF enc_state_new ok rng])
  have "\<exists>L N. enc_state WriterEncoder_new L N" using enc_state_new by blast
  from encoder.run_state[OF this ok] have R: "unat (wr_rng ?w) = run_range 32768 ?ts" using rng by simp
  have b: "run_low 0 32768 ?ts + run_range 32768 ?ts \<le> 2 ^ (15 + (0 + run_shift 32768 ?ts))"
    by (rule run_low_bound[OF _ ok]) simp_all
  have ir: "in_range (bval ?buf) (length ?buf) (run_low 0 32768 ?ts) (run_range 32768 ?ts) (0 + run_shift 32768 ?ts)"
    unfolding in_range_def using encoder_done_range[OF st b[folded R]] unfolding R by simp
  obtain rd where rd: "ec_reader_new ?buf = Inr rd" "dec_state rd 0 0" "er_buf rd = ?buf" "unat (er_rng rd) = 32768"
    using ec_reader_new_ok by blast
  from ctx.decode_symbols_ok[OF fc xs rd(2) rd(4)[symmetric] rd(3) ir] rd(1) show ?thesis by blast
qed

section \<open>A recorder in front of an encoder\<close>

lemma replay_recorder:
  assumes "32768 \<le> unat (wr_rng w)"
  shows "replay encoder_store (store_tokens recorder_store ts WriterRecorder_new) w = (store_tokens encoder_store ts w, WriterRecorder_new)"
proof -
  have f: "wr_fake_bits_frac (store_tokens recorder_store ts r) = wr_fake_bits_frac r" for r :: "writer_recorder writer_base"
  proof (induction ts arbitrary: r)
    case (Cons t ts)
    then show ?case by (cases t) (simp add: recorder.store_fake)
  qed simp
  show ?thesis
    using f[of WriterRecorder_new] recorder_storage[of ts WriterRecorder_new]
    by (cases "store_tokens recorder_store ts WriterRecorder_new") (simp add: replay_def WriterRecorder_new_def WriterBase_new_def)
qed

lemma tell_frac_same:
  assumes "\<forall>t\<in>set ts. tok_ok t"
  shows "tell_frac recorder_stream_bits (store_tokens recorder_store ts WriterRecorder_new) =
      tell_frac encoder_stream_bits (store_tokens encoder_store ts WriterEncoder_new)"
    and "tell_frac counter_stream_bits (store_tokens counter_store ts WriterCounter_new) =
      tell_frac encoder_stream_bits (store_tokens encoder_store ts WriterEncoder_new)"
proof -
  note new = WriterRecorder_new_def WriterEncoder_new_def WriterCounter_new_def WriterBase_new_def
  have e: "\<exists>L N. enc_state WriterEncoder_new L N" using enc_state_new by blast
  have c: "32768 \<le> unat (wr_rng WriterCounter_new)" "32768 \<le> unat (wr_rng WriterRecorder_new)" by (simp_all add: new)
  note er = encoder.run_state[OF e assms] encoder.tell_run[OF e assms]
  note cr = counter.run_state[OF c(1) assms] counter.tell_run[OF c(1) assms]
  note rr = recorder.run_state[OF c(2) assms] recorder.tell_run[OF c(2) assms]
  have s: "tell encoder_stream_bits WriterEncoder_new = tell counter_stream_bits WriterCounter_new"
      "tell recorder_stream_bits WriterRecorder_new = tell counter_stream_bits WriterCounter_new"
      "wr_rng WriterEncoder_new = 32768" "wr_rng WriterCounter_new = 32768" "wr_rng WriterRecorder_new = 32768"
      "wr_fake_bits_frac WriterEncoder_new = 0" "wr_fake_bits_frac WriterCounter_new = 0" "wr_fake_bits_frac WriterRecorder_new = 0"
    by (simp_all add: new tell_def encoder_stream_bits_def counter_stream_bits_def recorder_stream_bits_def)
  have w: "wr_rng a = wr_rng b" if "unat (wr_rng a) = unat (wr_rng b)" for a :: "'a writer_base" and b :: "'b writer_base"
    by (rule word_unat_eq_iff[THEN iffD2, OF that])
  show "tell_frac recorder_stream_bits (store_tokens recorder_store ts WriterRecorder_new) =
      tell_frac encoder_stream_bits (store_tokens encoder_store ts WriterEncoder_new)"
    unfolding tell_frac_def using er rr s w[of "store_tokens recorder_store ts WriterRecorder_new" "store_tokens encoder_store ts WriterEncoder_new"] by simp
  show "tell_frac counter_stream_bits (store_tokens counter_store ts WriterCounter_new) =
      tell_frac encoder_stream_bits (store_tokens encoder_store ts WriterEncoder_new)"
    unfolding tell_frac_def using er cr s w[of "store_tokens counter_store ts WriterCounter_new" "store_tokens encoder_store ts WriterEncoder_new"] by simp
qed

end
