(* ===== verification/Av1_Tx.thy ===== *)
theory Av1_Tx
  imports O3_Prelude
begin

text \<open>
  Transform sizes and types of \<open>src/src/transform/mod.rs\<close>: the enums, the geometry
  of a size, the two one-dimensional transforms of a type (twice in the source,
  as a function and as the tables \<open>VTX_TAB\<close> and \<open>HTX_TAB\<close>), and which pairs of
  size and type are valid.
\<close>

section \<open>Sizes\<close>

datatype tx_size =
  TX_4X4 | TX_8X8 | TX_16X16 | TX_32X32 | TX_64X64 |
  TX_4X8 | TX_8X4 | TX_8X16 | TX_16X8 | TX_16X32 | TX_32X16 | TX_32X64 | TX_64X32 |
  TX_4X16 | TX_16X4 | TX_8X32 | TX_32X8 | TX_16X64 | TX_64X16

definition all_tx_sizes :: "tx_size list" where
  "all_tx_sizes = [TX_4X4, TX_8X8, TX_16X16, TX_32X32, TX_64X64, TX_4X8, TX_8X4, TX_8X16, TX_16X8, TX_16X32,
     TX_32X16, TX_32X64, TX_64X32, TX_4X16, TX_16X4, TX_8X32, TX_32X8, TX_16X64, TX_64X16]"

fun width_log2 :: "tx_size \<Rightarrow> nat" where
  "width_log2 TX_4X4 = 2" | "width_log2 TX_4X8 = 2" | "width_log2 TX_4X16 = 2"
| "width_log2 TX_8X8 = 3" | "width_log2 TX_8X4 = 3" | "width_log2 TX_8X16 = 3" | "width_log2 TX_8X32 = 3"
| "width_log2 TX_16X16 = 4" | "width_log2 TX_16X8 = 4" | "width_log2 TX_16X32 = 4" | "width_log2 TX_16X4 = 4" | "width_log2 TX_16X64 = 4"
| "width_log2 TX_32X32 = 5" | "width_log2 TX_32X16 = 5" | "width_log2 TX_32X64 = 5" | "width_log2 TX_32X8 = 5"
| "width_log2 TX_64X64 = 6" | "width_log2 TX_64X32 = 6" | "width_log2 TX_64X16 = 6"

fun height_log2 :: "tx_size \<Rightarrow> nat" where
  "height_log2 TX_4X4 = 2" | "height_log2 TX_8X4 = 2" | "height_log2 TX_16X4 = 2"
| "height_log2 TX_8X8 = 3" | "height_log2 TX_4X8 = 3" | "height_log2 TX_16X8 = 3" | "height_log2 TX_32X8 = 3"
| "height_log2 TX_16X16 = 4" | "height_log2 TX_8X16 = 4" | "height_log2 TX_32X16 = 4" | "height_log2 TX_4X16 = 4" | "height_log2 TX_64X16 = 4"
| "height_log2 TX_32X32 = 5" | "height_log2 TX_16X32 = 5" | "height_log2 TX_64X32 = 5" | "height_log2 TX_8X32 = 5"
| "height_log2 TX_64X64 = 6" | "height_log2 TX_32X64 = 6" | "height_log2 TX_16X64 = 6"

definition tx_width :: "tx_size \<Rightarrow> nat" where "tx_width t = 2 ^ width_log2 t"
definition tx_height :: "tx_size \<Rightarrow> nat" where "tx_height t = 2 ^ height_log2 t"
definition area_log2 :: "tx_size \<Rightarrow> nat" where "area_log2 t = width_log2 t + height_log2 t"
definition tx_area :: "tx_size \<Rightarrow> nat" where "tx_area t = 2 ^ area_log2 t"
definition tx_is_rect :: "tx_size \<Rightarrow> bool" where "tx_is_rect t \<longleftrightarrow> width_log2 t \<noteq> height_log2 t"
definition rect_ratio_log2 :: "tx_size \<Rightarrow> int" where "rect_ratio_log2 t = int (width_log2 t) - int (height_log2 t)"

fun tx_sqr :: "tx_size \<Rightarrow> tx_size" where
  "tx_sqr TX_4X4 = TX_4X4" | "tx_sqr TX_4X8 = TX_4X4" | "tx_sqr TX_8X4 = TX_4X4" | "tx_sqr TX_4X16 = TX_4X4" | "tx_sqr TX_16X4 = TX_4X4"
| "tx_sqr TX_8X8 = TX_8X8" | "tx_sqr TX_8X16 = TX_8X8" | "tx_sqr TX_16X8 = TX_8X8" | "tx_sqr TX_8X32 = TX_8X8" | "tx_sqr TX_32X8 = TX_8X8"
| "tx_sqr TX_16X16 = TX_16X16" | "tx_sqr TX_16X32 = TX_16X16" | "tx_sqr TX_32X16 = TX_16X16" | "tx_sqr TX_16X64 = TX_16X16" | "tx_sqr TX_64X16 = TX_16X16"
| "tx_sqr TX_32X32 = TX_32X32" | "tx_sqr TX_32X64 = TX_32X32" | "tx_sqr TX_64X32 = TX_32X32"
| "tx_sqr TX_64X64 = TX_64X64"

fun tx_sqr_up :: "tx_size \<Rightarrow> tx_size" where
  "tx_sqr_up TX_4X4 = TX_4X4"
| "tx_sqr_up TX_8X8 = TX_8X8" | "tx_sqr_up TX_4X8 = TX_8X8" | "tx_sqr_up TX_8X4 = TX_8X8"
| "tx_sqr_up TX_16X16 = TX_16X16" | "tx_sqr_up TX_8X16 = TX_16X16" | "tx_sqr_up TX_16X8 = TX_16X16" | "tx_sqr_up TX_4X16 = TX_16X16" | "tx_sqr_up TX_16X4 = TX_16X16"
| "tx_sqr_up TX_32X32 = TX_32X32" | "tx_sqr_up TX_16X32 = TX_32X32" | "tx_sqr_up TX_32X16 = TX_32X32" | "tx_sqr_up TX_8X32 = TX_32X32" | "tx_sqr_up TX_32X8 = TX_32X32"
| "tx_sqr_up TX_64X64 = TX_64X64" | "tx_sqr_up TX_32X64 = TX_64X64" | "tx_sqr_up TX_64X32 = TX_64X64" | "tx_sqr_up TX_16X64 = TX_64X64" | "tx_sqr_up TX_64X16 = TX_64X64"

definition by_dims :: "nat \<Rightarrow> nat \<Rightarrow> tx_size result" where
  "by_dims w h =
     (case find (\<lambda>(d, _). d = (w, h))
        [((4, 4), TX_4X4), ((8, 8), TX_8X8), ((16, 16), TX_16X16), ((32, 32), TX_32X32), ((64, 64), TX_64X64),
         ((4, 8), TX_4X8), ((8, 4), TX_8X4), ((8, 16), TX_8X16), ((16, 8), TX_16X8), ((16, 32), TX_16X32), ((32, 16), TX_32X16),
         ((32, 64), TX_32X64), ((64, 32), TX_64X32), ((4, 16), TX_4X16), ((16, 4), TX_16X4), ((8, 32), TX_8X32), ((32, 8), TX_32X8),
         ((16, 64), TX_16X64), ((64, 16), TX_64X16)] of
        Some (_, t) \<Rightarrow> Inr t
      | None \<Rightarrow> Inl Fault)"

section \<open>Types\<close>

datatype tx_type =
  DCT_DCT | ADST_DCT | DCT_ADST | ADST_ADST | FLIPADST_DCT | DCT_FLIPADST | FLIPADST_FLIPADST | ADST_FLIPADST |
  FLIPADST_ADST | IDTX | V_DCT | H_DCT | V_ADST | H_ADST | V_FLIPADST | H_FLIPADST | WHT_WHT

definition all_tx_types :: "tx_type list" where
  "all_tx_types = [DCT_DCT, ADST_DCT, DCT_ADST, ADST_ADST, FLIPADST_DCT, DCT_FLIPADST, FLIPADST_FLIPADST, ADST_FLIPADST,
     FLIPADST_ADST, IDTX, V_DCT, H_DCT, V_ADST, H_ADST, V_FLIPADST, H_FLIPADST, WHT_WHT]"

text \<open>The cast of a variant to an integer: its place in the declaration.\<close>

primrec index_of :: "'a list \<Rightarrow> 'a \<Rightarrow> nat" where
  "index_of [] x = 0"
| "index_of (y # ys) x = (if x = y then 0 else Suc (index_of ys x))"

definition uv_inter :: "tx_type \<Rightarrow> tx_size \<Rightarrow> tx_type" where
  "uv_inter t uv =
     (if tx_sqr_up uv = TX_32X32 then (if t = IDTX then IDTX else DCT_DCT)
      else if tx_sqr uv = TX_16X16 then
        (if t \<in> {V_ADST, H_ADST, V_FLIPADST, H_FLIPADST} then DCT_DCT else t)
      else t)"

datatype tx_type_1d = DCT | ADST | FLIPADST | IDTX1 | WHT

fun get_1d_tx_types :: "tx_type \<Rightarrow> tx_type_1d \<times> tx_type_1d" where
  "get_1d_tx_types DCT_DCT = (DCT, DCT)" | "get_1d_tx_types ADST_DCT = (ADST, DCT)"
| "get_1d_tx_types DCT_ADST = (DCT, ADST)" | "get_1d_tx_types ADST_ADST = (ADST, ADST)"
| "get_1d_tx_types FLIPADST_DCT = (FLIPADST, DCT)" | "get_1d_tx_types DCT_FLIPADST = (DCT, FLIPADST)"
| "get_1d_tx_types FLIPADST_FLIPADST = (FLIPADST, FLIPADST)" | "get_1d_tx_types ADST_FLIPADST = (ADST, FLIPADST)"
| "get_1d_tx_types FLIPADST_ADST = (FLIPADST, ADST)" | "get_1d_tx_types IDTX = (IDTX1, IDTX1)"
| "get_1d_tx_types V_DCT = (DCT, IDTX1)" | "get_1d_tx_types H_DCT = (IDTX1, DCT)"
| "get_1d_tx_types V_ADST = (ADST, IDTX1)" | "get_1d_tx_types H_ADST = (IDTX1, ADST)"
| "get_1d_tx_types V_FLIPADST = (FLIPADST, IDTX1)" | "get_1d_tx_types H_FLIPADST = (IDTX1, FLIPADST)"
| "get_1d_tx_types WHT_WHT = (WHT, WHT)"

definition VTX_TAB :: "tx_type_1d list" where
  "VTX_TAB = [DCT, ADST, DCT, ADST, FLIPADST, DCT, FLIPADST, ADST, FLIPADST, IDTX1, DCT, IDTX1, ADST, IDTX1, FLIPADST, IDTX1, WHT]"

definition HTX_TAB :: "tx_type_1d list" where
  "HTX_TAB = [DCT, DCT, ADST, ADST, DCT, FLIPADST, FLIPADST, FLIPADST, ADST, IDTX1, IDTX1, DCT, IDTX1, ADST, IDTX1, FLIPADST, WHT]"

definition valid_av1_transform :: "tx_size \<Rightarrow> tx_type \<Rightarrow> bool" where
  "valid_av1_transform s t \<longleftrightarrow>
     (case tx_sqr_up s of TX_64X64 \<Rightarrow> t = DCT_DCT | TX_32X32 \<Rightarrow> t = DCT_DCT \<or> t = IDTX | _ \<Rightarrow> True)"

section \<open>Facts\<close>

text \<open>The forward transform's tables and the inverse transform's function agree.\<close>

lemma tx_tables_agree:
  "get_1d_tx_types t = (VTX_TAB ! index_of all_tx_types t, HTX_TAB ! index_of all_tx_types t)"
  by (cases t) (simp_all add: VTX_TAB_def HTX_TAB_def all_tx_types_def)

lemma by_dims_inverse: "by_dims (tx_width s) (tx_height s) = Inr s"
  by (cases s) (simp_all add: by_dims_def tx_width_def tx_height_def)

lemma tx_sqr_dims:
  "width_log2 (tx_sqr s) = min (width_log2 s) (height_log2 s)" "height_log2 (tx_sqr s) = min (width_log2 s) (height_log2 s)"
  "width_log2 (tx_sqr_up s) = max (width_log2 s) (height_log2 s)" "height_log2 (tx_sqr_up s) = max (width_log2 s) (height_log2 s)"
  by (cases s; simp)+

text \<open>A luma type that is valid for a size stays valid for the chroma size it is adapted to.\<close>

lemma uv_inter_valid:
  "valid_av1_transform s t \<Longrightarrow> t \<noteq> WHT_WHT \<Longrightarrow> tx_sqr_up uv \<noteq> TX_64X64 \<Longrightarrow> valid_av1_transform uv (uv_inter t uv)"
  by (cases "tx_sqr_up uv") (auto simp: valid_av1_transform_def uv_inter_def)

end
