(* ===== verification/Av1_DivLaws.thy ===== *)
theory Av1_DivLaws
  imports Av1_Quant Av1_EcCoder
begin

text \<open>
  Division by multiplication is exact. For a divisor that is not a power of two,
  with \<open>2^m < d < 2^(m+1)\<close>, the reciprocal is rounded up when the excess is small
  and otherwise down, with the dividend increased by one; both give the quotient
  for every 32-bit dividend.
\<close>

section \<open>The arithmetic of reciprocals\<close>

text \<open>A reciprocal rounded up, with an excess of at most \<open>2^m\<close>.\<close>

lemma recip_up:
  fixes x d a k e :: nat
  assumes d: "0 < d" and a: "a * d = k + e" and small: "x * e < k"
  shows "x * a div k = x div d"
proof -
  let ?q = "x div d" and ?r = "x mod d"
  have k: "0 < k" using small by (cases k) simp_all
  have xa: "x * a * d = x * k + x * e" using a by (simp add: mult.assoc distrib_left)
  have "?q * k * d \<le> x * a * d"
  proof -
    have "?q * k * d = ?q * d * k" by simp
    also have "\<dots> \<le> x * k" by (intro mult_le_mono1) simp
    finally show ?thesis unfolding xa by (rule trans_le_add1)
  qed
  then have lo: "?q * k \<le> x * a" using d by simp
  have "x * a * d < (?q + 1) * k * d"
  proof -
    have "x + 1 \<le> (?q + 1) * d" using dividend_less_div_times[OF d, of x] by simp
    then have "(x + 1) * k \<le> (?q + 1) * d * k" by (rule mult_le_mono1)
    moreover have "x * a * d < (x + 1) * k" unfolding xa using small by simp
    ultimately have "x * a * d < (?q + 1) * d * k" by (rule order_less_le_trans[rotated])
    then show ?thesis by (simp only: ac_simps)
  qed
  then have hi: "x * a < (?q + 1) * k" by (simp only: mult_less_cancel2)
  show ?thesis using lo hi k by (intro div_nat_eqI) (simp_all add: mult.commute)
qed

text \<open>A reciprocal rounded down, with the dividend plus one.\<close>

lemma recip_down:
  fixes x d t k e :: nat
  assumes d: "0 < d" and t: "t * d + e = k" and e: "0 < e" and small: "(x + 1) * e \<le> k"
  shows "(t * x + t) div k = x div d"
proof -
  let ?q = "x div d" and ?y = "t * x + t"
  have k: "0 < k" using t e by simp
  have y: "?y = t * (x + 1)" by simp
  have yd: "?y * d + (x + 1) * e = (x + 1) * k"
  proof -
    have "?y * d + (x + 1) * e = (x + 1) * (t * d + e)" unfolding y by (simp only: distrib_left ac_simps)
    then show ?thesis using t by simp
  qed
  have "?q * k * d \<le> ?y * d"
  proof -
    have "?q * k * d = ?q * d * k" by simp
    also have "\<dots> \<le> x * k" by (intro mult_le_mono1) simp
    finally have "?q * k * d \<le> x * k" .
    moreover have "x * k + (x + 1) * e \<le> (x + 1) * k" using small by simp
    ultimately show ?thesis using yd by linarith
  qed
  then have lo: "?q * k \<le> ?y" using d by simp
  have "?y * d < (?q + 1) * k * d"
  proof -
    have "x + 1 \<le> (?q + 1) * d" using dividend_less_div_times[OF d, of x] by simp
    then have "(x + 1) * k \<le> (?q + 1) * d * k" by (rule mult_le_mono1)
    moreover have "0 < (x + 1) * e" using e by simp
    ultimately have "?y * d < (?q + 1) * d * k" using yd by linarith
    then show ?thesis by (simp only: ac_simps)
  qed
  then have hi: "?y < (?q + 1) * k" by (simp only: mult_less_cancel2)
  show ?thesis using lo hi k by (intro div_nat_eqI) (simp_all add: mult.commute)
qed

text \<open>All ones times a number is the number less one part in \<open>2^32\<close>.\<close>

lemma recip_ones: "x < 2 ^ 32 \<Longrightarrow> (0xFFFFFFFF * x + 0xFFFFFFFF) div 2 ^ 32 = (x :: nat)"
  by (intro div_nat_eqI) simp_all

lemma dvd_power_two: "d dvd (2 :: nat) ^ n \<Longrightarrow> \<exists>i. d = 2 ^ i"
proof (induction n arbitrary: d)
  case 0
  then show ?case by (intro exI[of _ 0]) simp
next
  case (Suc n)
  show ?case
  proof (cases "even d")
    case True
    then obtain d' where d': "d = 2 * d'" by blast
    then have "d' dvd 2 ^ n" using Suc.prems by simp
    then obtain i where "d' = 2 ^ i" using Suc.IH by blast
    then show ?thesis using d' by (intro exI[of _ "Suc i"]) simp
  next
    case False
    then have "coprime d 2" by (simp add: coprime_right_2_iff_odd)
    then have "d dvd 2 ^ n" using Suc.prems by (simp add: coprime_dvd_mult_right_iff)
    then show ?thesis by (rule Suc.IH)
  qed
qed

section \<open>On words\<close>

lemma divu_pair_value:
  assumes "unat s < 32"
  shows "unat (divu_pair x (a, b, s)) = (unat a * unat x + unat b) div 2 ^ (32 + unat s)"
proof -
  have u: "unat w \<le> 2 ^ 32 - 1" for w :: u32 using unsigned_less[of w, where ?'a = nat] by simp
  have "unat a * unat x \<le> (2 ^ 32 - 1) * (2 ^ 32 - 1)" by (intro mult_le_mono u)
  then have b: "unat a * unat x + unat b \<le> (2 ^ 32 - 1) * 2 ^ 32" using u[of b] by simp
  have m: "unat (ucast a * ucast x :: u64) = unat a * unat x"
    using b by (subst unat_mult_small) (simp_all add: unat_ucast_up)
  have y: "unat (ucast a * ucast x + ucast b :: u64) = unat a * unat x + unat b"
    using b by (subst unat_add_small) (simp_all add: m unat_ucast_up)
  have d: "unat (drop_bit (unat s) (drop_bit 32 (ucast a * ucast x + ucast b :: u64))) = (unat a * unat x + unat b) div 2 ^ (32 + unat s)"
    by (simp only: unat_drop_bit y power_add div_mult2_eq)
  have "(unat a * unat x + unat b) div 2 ^ (32 + unat s) \<le> (unat a * unat x + unat b) div 2 ^ 32"
    by (intro div_le_mono2) (simp_all add: power_add)
  also have "\<dots> \<le> (2 ^ 32 - 1) * 2 ^ 32 div 2 ^ 32" using b by (rule div_le_mono)
  finally have "(unat a * unat x + unat b) div 2 ^ (32 + unat s) < 2 ^ 32" by simp
  then show ?thesis unfolding divu_pair_def prod.case Let_def by (subst unat_ucast_small) (simp_all only: d, simp)
qed

text \<open>The bounds of the divisor that its leading zeros give.\<close>

lemma leading_zeros_log:
  fixes d :: u32
  assumes "0 < unat d" and "m = 31 - leading_zeros d"
  shows "m < 32" and "32 - leading_zeros d - 1 = m" and "2 ^ m \<le> unat d" and "unat d < 2 ^ (m + 1)"
proof -
  note b = leading_zeros_bounds[OF assms(1)]
  let ?l = "leading_zeros d"
  have l: "?l < 32" using b by simp
  show "m < 32" "32 - ?l - 1 = m" using assms(2) l by simp_all
  have p: "2 ^ ?l * 2 ^ (m + 1) = (2 :: nat) ^ 32" "2 ^ ?l * 2 ^ m = (2 :: nat) ^ 31"
    using l assms(2) by (simp_all flip: power_add)
  have "2 ^ 31 \<le> unat d * 2 ^ ?l" "unat d * 2 ^ ?l < 2 ^ 32" using b by simp_all
  then have "2 ^ ?l * 2 ^ m \<le> 2 ^ ?l * unat d" "2 ^ ?l * unat d < 2 ^ ?l * 2 ^ (m + 1)"
    unfolding p by (simp_all only: mult.commute)
  then show "2 ^ m \<le> unat d" "unat d < 2 ^ (m + 1)" by simp_all
qed

lemma unat_two_power: "n < 64 \<Longrightarrow> unat (2 ^ n :: u64) = 2 ^ n"
proof -
  assume "n < 64"
  then have "(2 :: nat) ^ n < 2 ^ 64" by (intro power_strict_increasing) simp_all
  moreover have "(2 ^ n :: u64) = of_nat (2 ^ n)" by simp
  ultimately show ?thesis by (simp only: unat_of_nat) (simp add: take_bit_nat_eq_self)
qed

lemma divu_exact:
  assumes d: "0 < unat d"
  shows "unat (divu_pair x (divu_gen d)) = unat x div unat d"
proof -
  define m where "m = 31 - leading_zeros d"
  note mb = leading_zeros_log[OF d m_def]
  have x32: "unat x < 2 ^ 32" using unsigned_less[of x, where ?'a = nat] by simp
  have s: "unat (of_nat m :: u32) = m" using mb(1) by (simp add: unat_of_nat take_bit_nat_eq_self)
  show ?thesis
  proof (cases "is_power_of_two d")
    case True
    then have "unat d = 2 ^ m" by (simp add: is_power_of_two_def m_def)
    moreover have "divu_gen d = (0xFFFFFFFF, 0xFFFFFFFF, of_nat m)" using True mb(2) by (simp add: divu_gen_def)
    moreover have "(0xFFFFFFFF * unat x + 0xFFFFFFFF) div 2 ^ (32 + m) = unat x div 2 ^ m"
      unfolding power_add div_mult2_eq recip_ones[OF x32] ..
    ultimately show ?thesis using s mb(1) by (simp add: divu_pair_value)
  next
    case False
    let ?D = "unat d" and ?K = "2 ^ (m + 32) :: nat"
    define t where "t = ?K div ?D"
    define e where "e = ?D - ?K mod ?D"
    have ne: "2 ^ m < ?D" using False mb(3) by (simp add: is_power_of_two_def m_def)
    have k64: "?K < 2 ^ 64" using mb(1) by (intro power_strict_increasing) simp_all
    have ndvd: "0 < ?K mod ?D"
    proof (rule ccontr)
      assume "\<not> 0 < ?K mod ?D"
      then have "?D dvd 2 ^ (m + 32)" by (simp add: mod_eq_0_iff_dvd)
      then obtain i where "?D = 2 ^ i" using dvd_power_two by blast
      then have "2 ^ m < (2 :: nat) ^ i" "(2 :: nat) ^ i < 2 ^ (m + 1)" using ne mb(4) by simp_all
      then have "m < i" "i < m + 1" by (simp_all only: power_strict_increasing_iff one_less_numeral_iff semiring_norm)
      then show False by simp
    qed
    have mod: "?K mod ?D < ?D" using d by simp
    have td: "t * ?D + ?K mod ?D = ?K" unfolding t_def by (rule div_mult_mod_eq)
    have up: "(t + 1) * ?D = ?K + e" "0 < e" "e < ?D" using td mod ndvd by (simp_all add: e_def)
    have d32: "?D < 2 ^ 32" using unsigned_less[of d, where ?'a = nat] by simp
    have t32: "t + 1 < 2 ^ 32"
    proof -
      have "2 ^ m + 1 \<le> ?D" using ne by simp
      then have "(t + 1) * (2 ^ m + 1) \<le> ?K + e" unfolding up(1)[symmetric] by (rule mult_le_mono2)
      moreover have "e < 2 ^ m * 2" using up(3) mb(4) by simp
      moreover have "(2 :: nat) ^ m \<le> 2 ^ 31" using mb(1) by (intro power_increasing) simp_all
      moreover have "?K = 2 ^ 32 * 2 ^ m" by (simp add: power_add)
      ultimately show ?thesis
      proof -
        assume a: "(t + 1) * (2 ^ m + 1) \<le> ?K + e" "e < 2 ^ m * 2" "(2 :: nat) ^ m \<le> 2 ^ 31" "?K = 2 ^ 32 * 2 ^ m"
        show ?thesis
        proof (rule ccontr)
          assume "\<not> t + 1 < 2 ^ 32"
          then have "2 ^ 32 * (2 ^ m + 1) \<le> (t + 1) * (2 ^ m + 1)" by (intro mult_le_mono1) simp
          then have "2 ^ 32 * 2 ^ m + 2 ^ 32 \<le> ?K + e" using a(1) by simp
          then have "2 ^ 32 \<le> e" using a(4) by simp
          moreover have "e < 2 ^ 32" using a(2,3) by simp
          ultimately show False by simp
        qed
      qed
    qed
    have ud: "unat (ucast d :: u64) = ?D" by (simp add: unat_ucast_up)
    let ?T = "2 ^ (m + 32) div ucast d :: u64"
    have ut: "unat ?T = t"
      using mb(1) by (simp only: unat_div ud) (subst unat_two_power, simp_all add: t_def)
    have k63: "?K \<le> 2 ^ 63" using mb(1) by (intro power_increasing) simp_all
    have tD: "t * ?D \<le> ?K" using td by linarith
    have m1: "unat (?T * ucast d) = t * ?D" using tD k64 by (subst unat_mult_small) (simp_all add: ut ud)
    have a1: "unat (?T * ucast d + ucast d) = ?K + e"
    proof -
      have "t * ?D + ?D = ?K + e" using up(1) by simp
      then show ?thesis using k63 up(3) d32 by (subst unat_add_small) (simp_all add: m1 ud)
    qed
    have r: "unat ((?T * ucast d + ucast d) AND (2 ^ 32 - 1)) = e"
    proof -
      have "(2 ^ 32 - 1 :: u64) = mask 32" by (simp add: mask_eq_exp_minus_1)
      moreover have "(?K + e) mod 2 ^ 32 = e" using up(3) d32 by (simp add: power_add)
      ultimately show ?thesis by (simp only: unat_and_mask a1)
    qed
    have pm: "unat (2 ^ m :: u64) = 2 ^ m" using mb(1) by (intro unat_two_power) simp
    have gen: "divu_gen d = (if e \<le> 2 ^ m then (ucast ?T + 1, 0, of_nat m) else (ucast ?T, ucast ?T, of_nat m))"
      using False mb(2) by (simp only: divu_gen_def Let_def word_le_nat_alt push_bit_eq_mult mult_1 r pm if_False)
    have tT: "unat (ucast ?T :: u32) = t" using t32 by (subst unat_ucast_small) (simp_all add: ut)
    have K: "?K = 2 ^ (32 + m)" "?K = 2 ^ 32 * 2 ^ m" by (simp_all add: power_add)
    show ?thesis
    proof (cases "e \<le> 2 ^ m")
      case True
      have "unat x * e \<le> unat x * 2 ^ m" using True by simp
      also have "\<dots> < ?K" unfolding K(2) using x32 by (intro mult_strict_right_mono) simp_all
      finally have "unat x * (t + 1) div ?K = unat x div ?D" by (rule recip_up[OF d up(1)])
      moreover have "unat (ucast ?T + 1 :: u32) = t + 1" using t32 by (subst unat_add_small) (simp_all add: tT)
      ultimately show ?thesis using True s mb(1) by (simp add: gen divu_pair_value K(1) mult.commute)
    next
      case False
      have "?K mod ?D \<le> 2 ^ m" using False mb(4) by (simp add: e_def)
      then have "(unat x + 1) * (?K mod ?D) \<le> 2 ^ 32 * 2 ^ m" using x32 by (intro mult_le_mono) simp_all
      then have "(t * unat x + t) div ?K = unat x div ?D" unfolding K(2)[symmetric] by (rule recip_down[OF d td ndvd])
      then show ?thesis using False s mb(1) by (simp add: gen divu_pair_value K(1) tT)
    qed
  qed
qed

end
