(* ===== verification/Av1_QuantLaws.thy ===== *)
theory Av1_QuantLaws
  imports Av1_DivLaws
begin

text \<open>
  What the quantizer promises: the steps are between 4 and 29247, \<open>quantize\<close>
  returns the position after the last coefficient it keeps (the assertion at its
  end), and no coefficient is further from its multiple of the step than one step.
\<close>

section \<open>Signed words in range\<close>

lemma sint_of_int:
  assumes "- (2 ^ (LENGTH('a) - 1)) \<le> x" "x < 2 ^ (LENGTH('a) - 1)"
  shows "sint (word_of_int x :: 'a::len word) = x"
  using assms by (simp add: signed_of_int signed_take_bit_int_eq_self)

lemma unat_of_int:
  assumes "0 \<le> x" "x < 2 ^ LENGTH('a)"
  shows "unat (word_of_int x :: 'a::len word) = nat x"
  using assms by (simp add: unsigned_of_int take_bit_int_eq_self nat_eq_iff unat_eq_nat_uint flip: take_bit_eq_mod)

lemma abs_sint_le: "\<bar>sint w\<bar> \<le> 2 ^ (LENGTH('a) - 1)" for w :: "'a::len word"
  using sint_greater_eq[of w] sint_less[of w] by simp

lemma unsigned_abs_of_int: "unsigned_abs w = word_of_int \<bar>sint w\<bar>"
  by (simp add: unsigned_abs_def)

lemma unat_unsigned_abs: "unat (unsigned_abs w) = nat \<bar>sint w\<bar>" for w :: "'a::len word"
proof -
  have "(2 :: int) ^ (LENGTH('a) - 1) < 2 ^ LENGTH('a)" by (intro power_strict_increasing) simp_all
  then show ?thesis unfolding unsigned_abs_of_int using abs_sint_le[of w] by (intro unat_of_int) linarith+
qed

lemma sint_unsigned_abs: "\<bar>sint w\<bar> < 2 ^ (LENGTH('a) - 1) \<Longrightarrow> sint (unsigned_abs w) = \<bar>sint w\<bar>" for w :: "'a::len word"
  unfolding unsigned_abs_of_int by (intro sint_of_int) simp_all

text \<open>A number with the sign of another.\<close>

definition with_sign :: "int \<Rightarrow> int \<Rightarrow> int" where
  "with_sign c q = (if c < 0 then - q else q)"

lemma with_sign_range: "0 \<le> q \<Longrightarrow> q < m \<Longrightarrow> - m \<le> with_sign c q" "0 \<le> q \<Longrightarrow> q < m \<Longrightarrow> with_sign c q < m"
  by (simp_all add: with_sign_def)

lemma sint_scast_copysign:
  fixes v c :: u32
  assumes v: "int (unat v) < 2 ^ (LENGTH('a) - 1)" "int (unat v) < 2 ^ 31"
  shows "sint (scast (copysign v c) :: 'a::len word) = with_sign (sint c) (int (unat v))"
proof -
  have "copysign v c = word_of_int (with_sign (sint c) (int (unat v)))"
    by (simp add: copysign_def with_sign_def)
  moreover have "sint (word_of_int (with_sign (sint c) (int (unat v))) :: u32) = with_sign (sint c) (int (unat v))"
    using v by (intro sint_of_int with_sign_range) simp_all
  ultimately have "(scast (copysign v c) :: 'a word) = word_of_int (with_sign (sint c) (int (unat v)))"
    by (simp only: scast_eq)
  moreover have "sint (word_of_int (with_sign (sint c) (int (unat v))) :: 'a word) = with_sign (sint c) (int (unat v))"
    using v by (intro sint_of_int with_sign_range) simp_all
  ultimately show ?thesis by simp
qed

lemma sint_shl_scast:
  fixes c :: "'a::len word"
  assumes "s < 32" "\<bar>sint c\<bar> * 2 ^ s < 2 ^ 31"
  shows "sint (shl (scast c) (int s) :: u32) = sint c * 2 ^ s"
proof -
  have "\<bar>sint c * 2 ^ s\<bar> < 2 ^ 31" using assms(2) by (simp add: abs_mult)
  moreover have "(shl (scast c) (int s) :: u32) = word_of_int (sint c * 2 ^ s)"
  proof -
    have "(shl (scast c) (int s) :: u32) = scast c * 2 ^ s"
      using assms(1) by (simp only: shl_def push_bit_eq_mult) simp
    then show ?thesis by (simp only: of_int_mult of_int_power of_int_numeral scast_eq)
  qed
  moreover have "sint (word_of_int x :: u32) = x" if "\<bar>x\<bar> < 2 ^ 31" for x
    using that by (intro sint_of_int) simp_all
  ultimately show ?thesis by (simp only:)
qed

section \<open>Steps\<close>

definition steps_ok :: "u16 list \<Rightarrow> bool" where
  "steps_ok qs \<longleftrightarrow> length qs = 256 \<and> list_all (\<lambda>q. 4 \<le> unat q \<and> unat q \<le> 29247) qs"

lemma steps_okI: "length ns = 256 \<Longrightarrow> list_all (\<lambda>n. 4 \<le> n \<and> n \<le> 29247) ns \<Longrightarrow> steps_ok (map of_nat ns)"
  by (auto simp: steps_ok_def list_all_iff unat_of_nat take_bit_nat_eq_self)

lemma steps_ok:
  "steps_ok dc_qlookup_Q3" "steps_ok dc_qlookup_10_Q3" "steps_ok dc_qlookup_12_Q3"
  "steps_ok ac_qlookup_Q3" "steps_ok ac_qlookup_10_Q3" "steps_ok ac_qlookup_12_Q3"
  unfolding dc_qlookup_Q3_def dc_qlookup_10_Q3_def dc_qlookup_12_Q3_def
    ac_qlookup_Q3_def ac_qlookup_10_Q3_def ac_qlookup_12_Q3_def
  by (rule steps_okI; simp)+

lemma steps_bounds:
  "4 \<le> unat (dc_q qi delta bd) \<and> unat (dc_q qi delta bd) \<le> 29247"
  "4 \<le> unat (ac_q qi delta bd) \<and> unat (ac_q qi delta bd) \<le> 29247"
proof -
  have d: "depth_index bd \<in> {0, 1, 2}" by (auto simp: depth_index_def)
  have t: "table_index qi delta < 256" by (simp add: table_index_def)
  have nth: "4 \<le> unat (T ! table_index qi delta) \<and> unat (T ! table_index qi delta) \<le> 29247" if "steps_ok T" for T
    using that t by (simp add: steps_ok_def list_all_length)
  show "4 \<le> unat (dc_q qi delta bd) \<and> unat (dc_q qi delta bd) \<le> 29247"
    unfolding dc_q_def using d nth[OF steps_ok(1)] nth[OF steps_ok(2)] nth[OF steps_ok(3)] by auto
  show "4 \<le> unat (ac_q qi delta bd) \<and> unat (ac_q qi delta bd) \<le> 29247"
    unfolding ac_q_def using d nth[OF steps_ok(4)] nth[OF steps_ok(5)] nth[OF steps_ok(6)] by auto
qed

section \<open>The context\<close>

text \<open>
  What an update leaves: the shift of the size, the reciprocals of the steps,
  biases below the step, and none of them below the bias of the end of block.
\<close>

definition qc_ok :: "nat \<Rightarrow> quantization_context \<Rightarrow> bool" where
  "qc_ok s c \<longleftrightarrow> qc_log_tx_scale c = s \<and> s \<le> 2
     \<and> 4 \<le> unat (qc_dc_quant c) \<and> unat (qc_dc_quant c) \<le> 29247
     \<and> 4 \<le> unat (qc_ac_quant c) \<and> unat (qc_ac_quant c) \<le> 29247
     \<and> qc_dc_mul_add c = divu_gen (ucast (qc_dc_quant c)) \<and> qc_ac_mul_add c = divu_gen (ucast (qc_ac_quant c))
     \<and> unat (qc_dc_offset c) < unat (qc_dc_quant c)
     \<and> unat (qc_ac_offset0 c) < unat (qc_ac_quant c) \<and> unat (qc_ac_offset1 c) < unat (qc_ac_quant c)
     \<and> unat (qc_ac_offset_eob c) \<le> unat (qc_ac_offset0 c)"

lemma unat_bias:
  fixes q :: u16
  assumes "n \<le> 109" "unat q \<le> 29247"
  shows "unat (ucast q * of_nat n div 256 :: u32) = unat q * n div 256"
proof -
  have "unat q * n \<le> 29247 * 109" using assms by (intro mult_le_mono)
  moreover have "unat (of_nat n :: u32) = n" using assms(1) by (simp add: unat_of_nat take_bit_nat_eq_self)
  ultimately have "unat (ucast q * of_nat n :: u32) = unat q * n"
    by (subst unat_mult_small) (simp_all add: unat_ucast_up)
  then show ?thesis by (simp add: unat_div)
qed

lemma get_log_tx_scale_le: "get_log_tx_scale s \<le> 2"
  by (simp add: get_log_tx_scale_def)

lemma QuantizationContext_update_ok:
  "qc_ok (get_log_tx_scale ts) (QuantizationContext_update qi ts intra bd dd da self)"
proof -
  note b = steps_bounds(1)[of qi dd bd] steps_bounds(2)[of qi da bd]
  obtain n0 n1 ne :: nat where n:
    "(if intra then 98 else 97 :: u32) = of_nat n0" "(if intra then 109 else 108 :: u32) = of_nat n1"
    "(if intra then 88 else 44 :: u32) = of_nat ne" "n0 \<le> 109" "n1 \<le> 109" "ne \<le> 109" "ne \<le> n0"
    by (cases intra) (rule that[of 98 109 88], simp_all, rule that[of 97 108 44], simp_all)
  have lt: "x * k div 256 < x" if "4 \<le> x" "k \<le> 109" for x k :: nat
  proof -
    have "x * k < x * 256" using that by simp
    then show ?thesis by (simp add: less_mult_imp_div_less)
  qed
  have dv: "x * ne div 256 \<le> x * n0 div 256" for x
    using n(7) by (intro div_le_mono mult_le_mono2)
  show ?thesis
    using b by (simp add: qc_ok_def QuantizationContext_update_def Let_def n(1-3) get_log_tx_scale_le lt dv unat_bias n(4-6))
qed

section \<open>One coefficient\<close>

text \<open>How far a scaled coefficient is from its multiple of the step.\<close>

definition near :: "int \<Rightarrow> int \<Rightarrow> int \<Rightarrow> bool" where
  "near Q x q \<longleftrightarrow> \<bar>x - q * Q\<bar> < Q"

lemma near_iff: "near Q x q \<longleftrightarrow> x < q * Q + Q \<and> q * Q < x + Q"
  unfolding near_def by linarith

lemma near_with_sign: "near Q \<bar>x\<bar> q \<Longrightarrow> near Q x (with_sign x q)"
  by (cases "x < 0") (simp_all add: near_iff with_sign_def)

lemma near_quot:
  assumes "0 < Q" "off < Q"
  shows "near (int Q) (int x) (int ((x + off) div Q))"
proof -
  have "(x + off) div Q * Q \<le> x + off" "x + off < (x + off) div Q * Q + Q"
    using assms(1) dividend_less_div_times[of Q "x + off"] by simp_all
  then have "int ((x + off) div Q) * int Q \<le> int x + int off" "int x + int off < int ((x + off) div Q) * int Q + int Q"
    by (simp_all flip: of_nat_mult of_nat_add)
  then show ?thesis using assms by (simp add: near_def)
qed

lemma near_rounded:
  assumes "0 < Q" "off < Q"
  shows "near (int Q) (int x) (int (x div Q + of_bool ((x div Q + 1) * Q \<le> x + off)))"
proof -
  define m where "m = x div Q * Q"
  have "m \<le> x" "x < m + Q" unfolding m_def using assms(1) dividend_less_div_times[of Q x] by simp_all
  moreover have m: "int (x div Q) * int Q = int m" "int (x div Q + 1) * int Q = int m + int Q" "(x div Q + 1) * Q = m + Q"
    by (simp_all add: m_def distrib_right)
  ultimately show ?thesis
    using assms unfolding near_iff m(3) by (cases "m + Q \<le> x + off") (simp_all only: m of_bool_eq add_0_right, linarith+)
qed

lemma near_small:
  assumes "near (int Q) (int x) (int q)" "x \<le> Q * c"
  shows "q \<le> c"
proof (rule ccontr)
  assume "\<not> q \<le> c"
  then have "Q * (c + 1) \<le> Q * q" by (intro mult_le_mono2) simp
  then have "x + Q \<le> q * Q" using assms(2) by (simp add: mult.commute)
  then have "int x + int Q \<le> int q * int Q" by (simp flip: of_nat_mult of_nat_add)
  then show False using assms(1) by (simp add: near_def)
qed

text \<open>The coefficients for which the 32-bit arithmetic is exact: not the smallest number of the type, and of at most 28 bits.\<close>

definition coeff_ok :: "'a::len word \<Rightarrow> bool" where
  "coeff_ok c \<longleftrightarrow> \<bar>sint c\<bar> < 2 ^ (LENGTH('a) - 1) \<and> \<bar>sint c\<bar> < 2 ^ 28"

text \<open>The end of block: the coefficients that the smallest bias keeps.\<close>

definition live :: "quantization_context \<Rightarrow> 'a::len word \<Rightarrow> bool" where
  "live self c \<longleftrightarrow> unat (qc_ac_quant self) \<le> nat \<bar>sint c\<bar> * 2 ^ qc_log_tx_scale self + unat (qc_ac_offset_eob self)"

lemma scaled:
  fixes c :: "'a::len word"
  assumes "coeff_ok c" "s \<le> 2"
  shows "sint (shl (scast c) (int s) :: u32) = sint c * 2 ^ s"
    and "unat (unsigned_abs (shl (scast c) (int s) :: u32)) = nat \<bar>sint c\<bar> * 2 ^ s"
    and "nat \<bar>sint c\<bar> * 2 ^ s \<le> 2 ^ 30" and "\<bar>sint c * 2 ^ s\<bar> = int (nat \<bar>sint c\<bar> * 2 ^ s)"
    and "nat \<bar>sint c\<bar> * 2 ^ s \<le> 4 * nat \<bar>sint c\<bar>"
proof -
  have p: "(2 :: int) ^ s \<le> 2 ^ 2" "(2 :: nat) ^ s \<le> 2 ^ 2" using assms(2) by (intro power_increasing; simp)+
  have c: "\<bar>sint c\<bar> < 2 ^ 28" using assms(1) by (simp add: coeff_ok_def)
  then have "\<bar>sint c\<bar> * 2 ^ s \<le> 2 ^ 28 * 2 ^ 2" using p by (intro mult_mono) simp_all
  then show s: "sint (shl (scast c) (int s) :: u32) = sint c * 2 ^ s"
    using assms(2) by (intro sint_shl_scast) simp_all
  show a: "\<bar>sint c * 2 ^ s\<bar> = int (nat \<bar>sint c\<bar> * 2 ^ s)" by (simp add: abs_mult)
  show "unat (unsigned_abs (shl (scast c) (int s) :: u32)) = nat \<bar>sint c\<bar> * 2 ^ s"
    unfolding unat_unsigned_abs s a nat_int ..
  have "nat \<bar>sint c\<bar> \<le> 2 ^ 28" using c by simp
  then have "nat \<bar>sint c\<bar> * 2 ^ s \<le> 2 ^ 28 * 2 ^ 2" using p(2) by (intro mult_le_mono) simp_all
  then show "nat \<bar>sint c\<bar> * 2 ^ s \<le> 2 ^ 30" by simp
  show "nat \<bar>sint c\<bar> * 2 ^ s \<le> 4 * nat \<bar>sint c\<bar>" using p(2) by simp
qed

text \<open>The value stored for a magnitude near the coefficient's.\<close>

lemma stored_near:
  fixes c :: "'a::len word"
  assumes c: "coeff_ok c" and s: "s \<le> 2" and Q: "4 \<le> Q"
    and n: "near (int Q) (int (nat \<bar>sint c\<bar> * 2 ^ s)) (int (unat v))"
  shows "sint (scast (copysign v (shl (scast c) (int s) :: u32)) :: 'a word) = with_sign (sint c * 2 ^ s) (int (unat v))"
    and "near (int Q) (sint c * 2 ^ s) (with_sign (sint c * 2 ^ s) (int (unat v)))"
    and "unat v \<le> nat \<bar>sint c\<bar>"
proof -
  note sc = scaled[OF c s]
  have "4 * nat \<bar>sint c\<bar> \<le> Q * nat \<bar>sint c\<bar>" using Q by (intro mult_le_mono1)
  then show v: "unat v \<le> nat \<bar>sint c\<bar>" using sc(5) by (intro near_small[OF n]) linarith
  then have "int (unat v) \<le> \<bar>sint c\<bar>" by linarith
  then have "int (unat v) < 2 ^ (LENGTH('a) - 1)" "int (unat v) < 2 ^ 28"
    using c unfolding coeff_ok_def by linarith+
  then show "sint (scast (copysign v (shl (scast c) (int s) :: u32)) :: 'a word) = with_sign (sint c * 2 ^ s) (int (unat v))"
    by (subst sint_scast_copysign) (simp_all add: sc(1))
  show "near (int Q) (sint c * 2 ^ s) (with_sign (sint c * 2 ^ s) (int (unat v)))"
    using n unfolding sc(4)[symmetric] by (rule near_with_sign)
qed

section \<open>The loop\<close>

text \<open>The magnitude that a step of the loop computes, on words and on numbers.\<close>

lemma level_rounded:
  fixes x off :: u32 and quant :: u16
  assumes "unat x \<le> 2 ^ 30" "4 \<le> unat quant" "unat quant \<le> 29247" "unat off < unat quant"
  defines "l \<equiv> divu_pair x (divu_gen (ucast quant))"
  shows "unat l = unat x div unat quant"
    and "unat (l + of_bool ((l + 1) * ucast quant \<le> x + off)) =
      unat x div unat quant + of_bool ((unat x div unat quant + 1) * unat quant \<le> unat x + unat off)"
proof -
  have q: "unat (ucast quant :: u32) = unat quant" by (simp add: unat_ucast_up)
  show l: "unat l = unat x div unat quant" unfolding l_def by (subst divu_exact) (use assms(2) q in simp_all)
  have le: "unat x div unat quant \<le> 2 ^ 30" using assms(1) div_le_dividend le_trans by blast
  have "unat x div unat quant * unat quant \<le> unat x" by simp
  then have m: "(unat x div unat quant + 1) * unat quant \<le> unat x + unat quant" by (simp only: distrib_right mult_1 add_le_mono1)
  have one: "unat (l + 1) = unat x div unat quant + 1" using le by (subst unat_add_small) (simp_all add: l)
  have prod: "unat ((l + 1) * ucast quant) = (unat x div unat quant + 1) * unat quant"
  proof -
    have "unat x + unat quant < 2 ^ LENGTH(32)" using assms(1,3) by simp
    then have "(unat x div unat quant + 1) * unat quant < 2 ^ LENGTH(32)" by (rule le_less_trans[OF m])
    then show ?thesis by (subst unat_mult_small) (simp_all only: one q)
  qed
  have sum: "unat (x + off) = unat x + unat off" using assms(1,3,4) by (subst unat_add_small) simp_all
  show "unat (l + of_bool ((l + 1) * ucast quant \<le> x + off)) =
      unat x div unat quant + of_bool ((unat x div unat quant + 1) * unat quant \<le> unat x + unat off)"
    unfolding word_le_nat_alt prod sum using one l by (simp add: of_bool_def)
qed

definition kept :: "quantization_context \<Rightarrow> 'a::len word \<Rightarrow> 'a word \<Rightarrow> bool" where
  "kept self c v \<longleftrightarrow>
     near (int (unat (qc_ac_quant self))) (sint c * 2 ^ qc_log_tx_scale self) (sint v) \<and> \<bar>sint v\<bar> \<le> \<bar>sint c\<bar>
     \<and> (live self c \<longrightarrow> v \<noteq> 0)"

lemma quantize_step_ok:
  fixes coeffs :: "'a::len word list"
  assumes self: "qc_ok s self" and c: "coeff_ok (coeffs ! pos)" and pos: "pos < length coeffs" "pos < length qs"
  shows "\<exists>lm' v. quantize_step self coeffs pos (lm, qs) = Inr (lm', qs[pos := v]) \<and> kept self (coeffs ! pos) v"
proof -
  let ?c = "coeffs ! pos" and ?Q = "unat (qc_ac_quant self)"
  have qc: "qc_log_tx_scale self = s" "s \<le> 2" "4 \<le> ?Q" "?Q \<le> 29247" "qc_ac_mul_add self = divu_gen (ucast (qc_ac_quant self))"
    and off: "unat (qc_ac_offset0 self) < ?Q" "unat (qc_ac_offset1 self) < ?Q" "unat (qc_ac_offset_eob self) \<le> unat (qc_ac_offset0 self)"
    using self by (simp_all add: qc_ok_def)
  note sc = scaled[OF c qc(2)]
  define coeff :: u32 where "coeff = shl (scast ?c) (int s)"
  define x where "x = unsigned_abs coeff"
  define l where "l = divu_pair x (divu_gen (ucast (qc_ac_quant self)))"
  define o' where "o' = (if l > 1 - lm then qc_ac_offset1 self else qc_ac_offset0 self)"
  define a where "a = l + of_bool ((l + 1) * ucast (qc_ac_quant self) \<le> x + o')"
  define v :: "'a word" where "v = scast (copysign a coeff)"
  have x: "unat x = nat \<bar>sint ?c\<bar> * 2 ^ s" by (simp add: x_def coeff_def sc(2))
  have o': "unat o' < ?Q" using off by (simp add: o'_def)
  have x30: "unat x \<le> 2 ^ 30" unfolding x by (rule sc(3))
  note lev = level_rounded[OF x30 qc(3,4) o', folded l_def]
  have a: "unat a = unat x div ?Q + of_bool ((unat x div ?Q + 1) * ?Q \<le> unat x + unat o')" unfolding a_def by (rule lev(2))
  have near: "near (int ?Q) (int (nat \<bar>sint ?c\<bar> * 2 ^ s)) (int (unat a))"
    unfolding a x[symmetric] using qc(3) o' by (intro near_rounded) simp_all
  note st = stored_near[OF c qc(2,3) near, folded coeff_def v_def]
  have "quantize_step self coeffs pos (lm, qs) = Inr
      (if lm \<noteq> 0 \<and> a = 0 then 0 else if a > 1 then 1 else lm, qs[pos := v])"
    using pos by (simp add: quantize_step_def Let_def qc(1,5) v_def a_def o'_def l_def x_def coeff_def)
  moreover have "\<bar>sint v\<bar> \<le> \<bar>sint ?c\<bar>" 
  proof -
    have "\<bar>sint v\<bar> = int (unat a)" unfolding st(1) with_sign_def by simp
    then show ?thesis using st(3) by linarith
  qed
  moreover have "v \<noteq> 0" if "live self ?c"
  proof
    assume "v = 0"
    then have "sint v = 0" by simp
    then have a0: "unat a = 0" unfolding st(1) with_sign_def using of_nat_eq_0_iff[of "unat a", where ?'a = int] by (simp only: neg_equal_0_iff_equal split: if_splits)
    then have d0: "unat x div ?Q = 0" using a by simp
    then have "l = 0" using lev(1) by (simp add: unat_eq_0)
    then have "o' = qc_ac_offset0 self" by (simp add: o'_def)
    moreover have "?Q \<le> unat x + unat (qc_ac_offset_eob self)" using that by (simp add: live_def qc(1) x)
    ultimately show False using a a0 d0 off(3) by simp
  qed
  ultimately show ?thesis using st(1,2) by (auto simp: kept_def qc(1))
qed

lemma quantize_loop_ok:
  fixes coeffs :: "'a::len word list"
  assumes self: "qc_ok s self" and c: "\<forall>c\<in>set coeffs. coeff_ok c"
    and ps: "distinct ps" "\<forall>p\<in>set ps. p < length coeffs" "length qs = length coeffs"
  shows "\<exists>lm' qs'. forR (quantize_step self coeffs) ps (lm, qs) = Inr (lm', qs') \<and> length qs' = length coeffs
    \<and> (\<forall>p. p \<notin> set ps \<longrightarrow> qs' ! p = qs ! p) \<and> (\<forall>p\<in>set ps. kept self (coeffs ! p) (qs' ! p))"
  using ps
proof (induction ps arbitrary: lm qs)
  case (Cons p ps)
  then have p: "p < length coeffs" "p < length qs" "coeff_ok (coeffs ! p)" using c by simp_all
  obtain lm1 v where v: "quantize_step self coeffs p (lm, qs) = Inr (lm1, qs[p := v])" "kept self (coeffs ! p) v"
    using quantize_step_ok[OF self p(3,1,2)] by blast
  have "length (qs[p := v]) = length coeffs" "distinct ps" "\<forall>p\<in>set ps. p < length coeffs" using Cons.prems by simp_all
  from Cons.IH[OF this(2,3,1)] obtain lm' qs' where q:
    "forR (quantize_step self coeffs) ps (lm1, qs[p := v]) = Inr (lm', qs')" "length qs' = length coeffs"
    "\<forall>i. i \<notin> set ps \<longrightarrow> qs' ! i = qs[p := v] ! i" "\<forall>p\<in>set ps. kept self (coeffs ! p) (qs' ! p)" by blast
  have "qs' ! p = v" using q(3) Cons.prems(1) p(2) by simp
  then show ?case using q v by (intro exI[of _ lm'] exI[of _ qs']) auto
qed auto

section \<open>The end of block\<close>

text \<open>The position after the last coefficient of a scan that is not zero, as the assertion at the end of \<open>quantize\<close> finds it.\<close>

definition coded_end :: "nat list \<Rightarrow> 'a::zero list \<Rightarrow> nat" where
  "coded_end scan qs = length (dropWhile (\<lambda>p. qs ! p = 0) (rev scan))"

lemma coded_end_eqI:
  assumes "e \<le> length scan" "\<And>n. e \<le> n \<Longrightarrow> n < length scan \<Longrightarrow> qs ! (scan ! n) = 0"
    and "0 < e \<Longrightarrow> qs ! (scan ! (e - 1)) \<noteq> 0"
  shows "coded_end scan qs = e"
proof -
  have "qs ! p = 0" if p: "p \<in> set (rev (drop e scan))" for p
  proof -
    from p obtain k where k: "k < length scan - e" "p = scan ! (e + k)" by (auto simp: in_set_conv_nth)
    then show ?thesis using assms(2)[of "e + k"] by simp
  qed
  note z = this
  have "rev scan = rev (drop e scan) @ rev (take e scan)" by (simp flip: rev_append)
  then have d: "dropWhile (\<lambda>p. qs ! p = 0) (rev scan) = dropWhile (\<lambda>p. qs ! p = 0) (rev (take e scan))"
    using dropWhile_append2[of "rev (drop e scan)" "\<lambda>p. qs ! p = 0"] z by (simp only:)
  show ?thesis
  proof (cases e)
    case (Suc k)
    then have "take e scan = take k scan @ [scan ! k]" "qs ! (scan ! k) \<noteq> 0"
      using assms(1,3) by (simp_all add: take_Suc_conv_app_nth)
    then show ?thesis using assms(1) by (simp add: coded_end_def d Suc)
  qed (simp add: coded_end_def d)
qed

lemma fold_max_bound:
  fixes xs :: "nat list"
  shows "x \<in> set xs \<Longrightarrow> x \<le> fold max xs a" and "fold max xs a = a \<or> fold max xs a \<in> set xs"
proof -
  have "a \<le> fold max xs a \<and> (\<forall>x\<in>set xs. x \<le> fold max xs a) \<and> (fold max xs a = a \<or> fold max xs a \<in> set xs)"
  proof (induction xs arbitrary: a)
    case (Cons y xs)
    show ?case using Cons[of "max y a"] by (auto simp: max_def split: if_splits)
  qed simp
  then show "x \<in> set xs \<Longrightarrow> x \<le> fold max xs a" "fold max xs a = a \<or> fold max xs a \<in> set xs" by blast+
qed

text \<open>Rounding up, as the frame library documents it.\<close>

definition align_ok :: "(nat \<Rightarrow> nat \<Rightarrow> nat) \<Rightarrow> bool" where
  "align_ok align \<longleftrightarrow> (\<forall>x n. align x n = (x + 2 ^ n - 1) div 2 ^ n)"

lemma deadzone_live:
  fixes c :: "'a::len word"
  assumes self: "qc_ok s self" and c: "coeff_ok c" and align: "align_ok align" and w: "16 \<le> LENGTH('a)"
  shows "sint (of_nat (align (unat (qc_ac_quant self) - unat (qc_ac_offset_eob self)) (qc_log_tx_scale self)) :: 'a word)
      \<le> sint (unsigned_abs c) \<longleftrightarrow> live self c"
proof -
  let ?d = "unat (qc_ac_quant self) - unat (qc_ac_offset_eob self)" and ?x = "nat \<bar>sint c\<bar>"
  define n where "n = (?d + 2 ^ s - 1) div 2 ^ s"
  have s: "qc_log_tx_scale self = s" "s \<le> 2" "unat (qc_ac_quant self) \<le> 29247" using self by (simp_all add: qc_ok_def)
  have p: "(2 :: nat) ^ s \<le> 2 ^ 2" "(0 :: nat) < 2 ^ s" using s(2) by (intro power_increasing) simp_all
  have "n \<le> ?d + 2 ^ s - 1" unfolding n_def by (rule div_le_dividend)
  then have "n < 2 ^ 15" using s(3) p(1) by simp
  then have "int n < 2 ^ 15" by simp
  also have "(2 :: int) ^ 15 \<le> 2 ^ (LENGTH('a) - 1)" using w by (intro power_increasing) simp_all
  finally have "sint (word_of_int (int n) :: 'a word) = int n" by (intro sint_of_int) linarith+
  then have dz: "sint (of_nat n :: 'a word) = int n" by simp
  have "n \<le> ?x \<longleftrightarrow> (?d + 2 ^ s - 1) div 2 ^ s < ?x + 1" unfolding n_def by linarith
  also have "\<dots> \<longleftrightarrow> ?d + 2 ^ s - 1 < (?x + 1) * 2 ^ s" using p(2) by (rule div_less_iff_less_mult)
  also have "\<dots> \<longleftrightarrow> ?d \<le> ?x * 2 ^ s" using p(2) by (simp only: distrib_right mult_1) linarith
  finally have "n \<le> ?x \<longleftrightarrow> ?d \<le> ?x * 2 ^ s" .
  moreover have "align ?d s = n" using align by (simp add: align_ok_def n_def)
  moreover have "sint (unsigned_abs c) = int ?x" using c by (simp add: sint_unsigned_abs coeff_ok_def)
  ultimately show ?thesis by (simp only: s(1) dz live_def of_nat_le_iff le_diff_conv)
qed

lemma dc_coefficient:
  fixes c :: "'a::len word"
  assumes self: "qc_ok s self" and c: "coeff_ok c"
  defines "coeff \<equiv> shl (scast c) (int s) :: u32"
  defines "v \<equiv> scast (copysign (divu_pair (unsigned_abs coeff + qc_dc_offset self) (qc_dc_mul_add self)) coeff) :: 'a word"
  shows "near (int (unat (qc_dc_quant self))) (sint c * 2 ^ s) (sint v)" and "\<bar>sint v\<bar> \<le> \<bar>sint c\<bar>"
proof -
  let ?Q = "unat (qc_dc_quant self)" and ?x = "nat \<bar>sint c\<bar> * 2 ^ s"
  have qc: "s \<le> 2" "4 \<le> ?Q" "?Q \<le> 29247" "qc_dc_mul_add self = divu_gen (ucast (qc_dc_quant self))"
    and off: "unat (qc_dc_offset self) < ?Q"
    using self by (simp_all add: qc_ok_def)
  note sc = scaled[OF c qc(1), folded coeff_def]
  define a where "a = divu_pair (unsigned_abs coeff + qc_dc_offset self) (qc_dc_mul_add self)"
  have "unat (unsigned_abs coeff + qc_dc_offset self) = ?x + unat (qc_dc_offset self)"
    using sc(3) off qc(3) by (subst unat_add_small) (simp_all add: sc(2))
  then have a: "unat a = (?x + unat (qc_dc_offset self)) div ?Q"
    unfolding a_def qc(4) using qc(2) by (subst divu_exact) (simp_all add: unat_ucast_up)
  have "near (int ?Q) (int ?x) (int (unat a))" unfolding a using qc(2) off by (intro near_quot) simp_all
  note st = stored_near[OF c qc(1,2) this, folded coeff_def, unfolded a_def, folded v_def]
  show "near (int ?Q) (sint c * 2 ^ s) (sint v)" using st(2) unfolding st(1) .
  have "\<bar>sint v\<bar> = int (unat a)" unfolding st(1) with_sign_def a_def by simp
  then show "\<bar>sint v\<bar> \<le> \<bar>sint c\<bar>" using st(3) unfolding a_def by linarith
qed

section \<open>Quantizing a block\<close>

definition step_at :: "quantization_context \<Rightarrow> nat \<Rightarrow> int" where
  "step_at self i = int (unat (if i = 0 then qc_dc_quant self else qc_ac_quant self))"

definition scan_for :: "tx_size \<Rightarrow> tx_type \<Rightarrow> nat list" where
  "scan_for ts t = so_scan (av1_scan_orders ! index_of all_tx_sizes ts ! index_of all_tx_types t)"

lemma quantize_ok:
  fixes coeffs :: "'a::len word list"
  assumes self: "qc_ok s self" and t: "t \<noteq> WHT_WHT" and len: "length coeffs = coded_area ts"
    and c: "\<forall>c\<in>set coeffs. coeff_ok c" and align: "align_ok align" and w: "16 \<le> LENGTH('a)"
  shows "\<exists>qs. quantize align self coeffs (replicate (coded_area ts) 0) ts t = Inr (coded_end (scan_for ts t) qs, qs)
    \<and> length qs = coded_area ts
    \<and> (\<forall>i<coded_area ts. near (step_at self i) (sint (coeffs ! i) * 2 ^ s) (sint (qs ! i)) \<and> \<bar>sint (qs ! i)\<bar> \<le> \<bar>sint (coeffs ! i)\<bar>)"
proof -
  let ?n = "coded_area ts"
  obtain xs where xs: "av1_scan_orders ! index_of all_tx_sizes ts ! index_of all_tx_types t = scan_order xs" "is_scan ?n xs"
    using av1_scan_orders_ok[OF t] by blast
  note sc = invert_scan[OF xs(2)]
  have scan: "scan_for ts t = xs" by (simp add: scan_for_def xs(1) scan_order_def)
  have n: "0 < ?n" "distinct xs" "set xs = {..<?n}" using xs(2) by (simp_all add: is_scan_def)
  have s: "qc_log_tx_scale self = s" using self by (simp add: qc_ok_def)
  define v0 :: "'a word" where "v0 = (let coeff = shl (scast (coeffs ! 0)) (int s) :: u32 in
    scast (copysign (divu_pair (unsigned_abs coeff + qc_dc_offset self) (qc_dc_mul_add self)) coeff))"
  define q0 where "q0 = (replicate ?n 0)[0 := v0]"
  have cn: "coeff_ok (coeffs ! i)" if "i < ?n" for i using c len that by simp
  have v0: "near (step_at self 0) (sint (coeffs ! 0) * 2 ^ s) (sint v0)" "\<bar>sint v0\<bar> \<le> \<bar>sint (coeffs ! 0)\<bar>"
    using dc_coefficient[OF self cn[OF n(1)]] by (simp_all add: v0_def Let_def step_at_def)
  define M where "M = fold max (map (\<lambda>(i, c). if live self c then i else 0) (zip (invert xs) coeffs)) 0"
  have inv: "length (invert xs) = ?n" by (simp add: invert_length sc(1))
  have M_le: "invert xs ! p \<le> M" if p: "p < ?n" "live self (coeffs ! p)" for p
  proof -
    have "(invert xs ! p, coeffs ! p) \<in> set (zip (invert xs) coeffs)" using p(1) inv len by (auto simp: set_zip)
    then have "invert xs ! p \<in> set (map (\<lambda>(i, c). if live self c then i else 0) (zip (invert xs) coeffs))"
      using p(2) by (force simp: image_iff)
    then show ?thesis unfolding M_def by (rule fold_max_bound(1))
  qed
  have M_live: "M < ?n \<and> live self (coeffs ! (xs ! M))" if "0 < M"
  proof -
    have "M \<in> set (map (\<lambda>(i, c). if live self c then i else 0) (zip (invert xs) coeffs))"
      using fold_max_bound(2)[of "map (\<lambda>(i, c). if live self c then i else 0) (zip (invert xs) coeffs)" 0] that by (simp add: M_def)
    then obtain p where p: "p < ?n" "M = (if live self (coeffs ! p) then invert xs ! p else 0)"
      using inv len by (auto simp: set_zip)
    then have "live self (coeffs ! p)" "M = invert xs ! p" using that by (simp_all split: if_splits)
    then show ?thesis using sc(4)[OF p(1)] by simp
  qed
  define e where "e = (if M > 0 then M + 1 else of_bool (q0 ! 0 \<noteq> 0))"
  define ps where "ps = drop 1 (take e xs)"
  have e: "e \<le> ?n" using M_live n(1) by (auto simp: e_def of_bool_def)
  have ps: "distinct ps" "set ps = {p. \<exists>k. 1 \<le> k \<and> k < e \<and> p = xs ! k}"
  proof -
    show "distinct ps" unfolding ps_def using n(2) by simp
    have "ps = map ((!) xs) [1..<e]" unfolding ps_def using e sc(1) by (intro nth_equalityI) simp_all
    then show "set ps = {p. \<exists>k. 1 \<le> k \<and> k < e \<and> p = xs ! k}" by auto
  qed
  have ps_lt: "\<forall>p\<in>set ps. p < length coeffs" using ps(2) e sc(2) len by auto
  have q0: "length q0 = length coeffs" "q0 ! 0 = v0" "\<And>i. 0 < i \<Longrightarrow> i < ?n \<Longrightarrow> q0 ! i = 0"
    using n(1) len by (simp_all add: q0_def)
  obtain lm qs where q: "forR (quantize_step self coeffs) ps (1, q0) = Inr (lm, qs)" "length qs = length coeffs"
    "\<forall>p. p \<notin> set ps \<longrightarrow> qs ! p = q0 ! p" "\<forall>p\<in>set ps. kept self (coeffs ! p) (qs ! p)"
    using quantize_loop_ok[OF self c ps(1) ps_lt q0(1), of 1] by blast
  have xs_inj: "xs ! k = xs ! l \<longleftrightarrow> k = l" if "k < ?n" "l < ?n" for k l
    using n(2) sc(1) that by (simp add: nth_eq_iff_index_eq)
  have in_ps: "xs ! k \<in> set ps \<longleftrightarrow> 1 \<le> k \<and> k < e" if "k < ?n" for k
    unfolding ps(2) using xs_inj that e by auto
  have q_at: "qs ! (xs ! k) = (if k = 0 then v0 else 0)" if "k < ?n" "k = 0 \<or> e \<le> k" for k
  proof -
    have "qs ! (xs ! k) = q0 ! (xs ! k)" using in_ps[OF that(1)] that(2) q(3) by auto
    moreover have "0 < xs ! k" if "k \<noteq> 0" using xs_inj[OF \<open>k < ?n\<close> n(1)] that sc(5) by simp
    ultimately show ?thesis using q0 sc(2)[OF that(1)] sc(5) by (cases "k = 0") simp_all
  qed
  have end_eq: "coded_end xs qs = e"
  proof (rule coded_end_eqI)
    fix k assume k: "e \<le> k" "k < length xs"
    then show "qs ! (xs ! k) = 0"
      using q_at[of k] sc(1) q0(2) by (cases "k = 0") (auto simp: e_def split: if_splits)
  next
    assume "0 < e"
    show "qs ! (xs ! (e - 1)) \<noteq> 0"
    proof (cases "M = 0")
      case True
      then show ?thesis using \<open>0 < e\<close> q_at[of 0] q0(2) n(1) by (auto simp: e_def split: if_splits)
    next
      case False
      then have "xs ! M \<in> set ps" using in_ps[of M] M_live by (simp add: e_def)
      then show ?thesis using q(4) M_live False by (simp add: e_def kept_def)
    qed
  qed (use e sc(1) in simp)
  have near: "near (step_at self i) (sint (coeffs ! i) * 2 ^ s) (sint (qs ! i)) \<and> \<bar>sint (qs ! i)\<bar> \<le> \<bar>sint (coeffs ! i)\<bar>"
    if i: "i < ?n" for i
  proof -
    define k where "k = invert xs ! i"
    have k: "k < ?n" "xs ! k = i" using sc(4)[OF i] by (simp_all add: k_def)
    show ?thesis
    proof (cases "k = 0 \<or> e \<le> k")
      case False
      then have "kept self (coeffs ! i) (qs ! i)" using q(4) in_ps[OF k(1)] k(2) by simp
      moreover have "i \<noteq> 0" using False xs_inj[OF k(1) n(1)] k(2) sc(5) by auto
      ultimately show ?thesis by (simp add: kept_def s step_at_def)
    next
      case True
      show ?thesis
      proof (cases "k = 0")
        case True
        then show ?thesis using v0 q_at[of 0] n(1) k(2) sc(5) by simp
      next
        case False
        have "\<not> live self (coeffs ! i)"
        proof
          assume "live self (coeffs ! i)"
          then have "k \<le> M" using M_le[OF i] by (simp add: k_def)
          then show False using False \<open>k = 0 \<or> e \<le> k\<close> by (simp add: e_def split: if_splits)
        qed
        then have "nat \<bar>sint (coeffs ! i)\<bar> * 2 ^ s < unat (qc_ac_quant self)" by (simp add: live_def s)
        then have "int (nat \<bar>sint (coeffs ! i)\<bar> * 2 ^ s) < int (unat (qc_ac_quant self))" by (simp only: of_nat_less_iff)
        then have "\<bar>sint (coeffs ! i) * 2 ^ s\<bar> < int (unat (qc_ac_quant self))" by (simp add: abs_mult)
        moreover have "i \<noteq> 0" using False xs_inj[OF k(1) n(1)] k(2) sc(5) by auto
        moreover have "qs ! i = 0" using q_at[OF k(1)] False True k(2) by simp
        ultimately show ?thesis by (simp add: near_def step_at_def)
      qed
    qed
  qed
  have index: "index_of all_tx_types t < 16" using t by (cases t) (simp_all add: all_tx_types_def)
  have dead: "fold max (map (\<lambda>(i, c). if sint (of_nat (align (unat (qc_ac_quant self) - unat (qc_ac_offset_eob self)) s) :: 'a word)
      \<le> sint (unsigned_abs c) then i else 0) (zip (invert xs) coeffs)) 0 = M"
    unfolding M_def
  proof (intro arg_cong[where f = "\<lambda>l. fold max l 0"] map_cong refl)
    fix p assume "p \<in> set (zip (invert xs) coeffs)"
    then have "snd p \<in> set coeffs" by (metis prod.collapse set_zip_rightD)
    then have "coeff_ok (snd p)" using c by blast
    from deadzone_live[OF self this align w]
    show "(\<lambda>(i, c). if sint (of_nat (align (unat (qc_ac_quant self) - unat (qc_ac_offset_eob self)) s) :: 'a word)
        \<le> sint (unsigned_abs c) then i else 0) p = (\<lambda>(i, c). if live self c then i else 0) p"
      by (cases p) (simp add: s)
  qed
  have ne: "coeffs \<noteq> []" "\<not> ?n = 0" using len n(1) by auto
  have first: "(replicate ?n 0)[0 := scast (copysign (divu_pair (unsigned_abs (shl (scast (coeffs ! 0)) (int s)) + qc_dc_offset self)
      (qc_dc_mul_add self)) (shl (scast (coeffs ! 0)) (int s)))] = q0"
    by (simp add: q0_def v0_def Let_def)
  have "quantize align self coeffs (replicate ?n 0) ts t =
      bindR (forR (quantize_step self coeffs) ps (1, q0)) (\<lambda>(_, qcoeffs). Inr (e, qcoeffs))"
    unfolding quantize_def Let_def xs(1) scan_order_def SCAN_ORDER.simps s first dead e_def[symmetric] ps_def[symmetric]
    using index ne by simp
  also have "\<dots> = Inr (e, qs)" by (simp add: q)
  finally have "quantize align self coeffs (replicate ?n 0) ts t = Inr (e, qs)" .
  then show ?thesis using end_eq q(2) len near by (intro exI[of _ qs]) (simp add: scan)
qed

section \<open>Dequantizing\<close>

lemma dequantize_one_ok:
  fixes v :: "'a::len word" and quant :: u16
  assumes s: "s \<le> 2" and v: "LENGTH('a) \<le> 32" and b: "\<bar>sint v * int (unat quant)\<bar> < 2 ^ 31 - 4"
    and m: "\<bar>sint v * int (unat quant)\<bar> < m * 2 ^ s" "m \<le> 2 ^ (LENGTH('a) - 1)"
  shows "\<bar>sint (dequantize_one quant s v) * 2 ^ s - sint v * int (unat quant)\<bar> < 2 ^ s"
proof -
  define Q where "Q = int (unat quant)"
  define k :: int where "k = (if sint v < 0 then 2 ^ s - 1 else 0)"
  define y where "y = sint v * Q + k"
  define c :: u32 where "c = scast v"
  have p: "(1 :: int) \<le> 2 ^ s" "(2 :: int) ^ s \<le> 2 ^ 2" using s by (simp, intro power_increasing) simp_all
  have Q: "0 \<le> Q" by (simp add: Q_def)
  have k: "0 \<le> k" "k < 2 ^ s" "k \<le> 3" "0 \<le> sint v \<Longrightarrow> k = 0" using p by (simp_all add: k_def)
  have "(2 :: int) ^ (LENGTH('a) - 1) \<le> 2 ^ 31" using v by (intro power_increasing) simp_all
  then have vb: "- (2 ^ 31) \<le> sint v" "sint v < 2 ^ 31"
    using sint_greater_eq[of v] sint_less[of v] unfolding One_nat_def by linarith+
  then have c: "sint c = sint v" unfolding c_def scast_eq by (intro sint_of_int) simp_all
  have "signed_drop_bit 31 c = word_of_int (sint v div 2 ^ 31)"
    using arg_cong[OF sint_signed_drop_bit_eq[of 31 c], of "word_of_int :: int \<Rightarrow> u32"] by (simp add: c drop_bit_eq_div)
  moreover have "sint v div 2 ^ 31 = (if sint v < 0 then - 1 else 0)"
    using vb by (intro int_div_pos_eq[of _ _ _ "if sint v < 0 then sint v + 2 ^ 31 else sint v"]) auto
  ultimately have sg: "signed_drop_bit 31 c = (if sint v < 0 then - 1 else 0)" by simp
  have off: "(shl 1 (int s) - 1 :: u32) = word_of_int (2 ^ s - 1)"
    using s by (simp add: shl_def)
  have "c * ucast quant = word_of_int (sint v * Q)" unfolding c_def scast_eq Q_def of_int_mult by simp
  then have W: "c * ucast quant + (signed_drop_bit 31 c AND (shl 1 (int s) - 1)) = word_of_int y"
    unfolding y_def k_def sg off by (cases "sint v < 0") (simp_all only: if_True if_False and.left_neutral zero_and_eq of_int_add of_int_0)
  have y0: "\<bar>y\<bar> \<le> \<bar>sint v * Q\<bar> + 3"
    using k unfolding y_def by linarith
  then have "sint (word_of_int y :: u32) = y" using b by (intro sint_of_int) (simp_all add: Q_def)
  then have d: "dequantize_one quant s v = word_of_int (y div 2 ^ s)"
    unfolding dequantize_one_def Let_def c_def[symmetric] W
    by (simp only: scast_eq sint_signed_drop_bit_eq drop_bit_eq_div)
  have sgn: "sint v < 0 \<Longrightarrow> sint v * Q \<le> 0" "0 \<le> sint v \<Longrightarrow> 0 \<le> sint v * Q"
    using Q by (simp_all add: mult_nonpos_nonneg)
  have ym: "y < m * 2 ^ s" "- m * 2 ^ s \<le> y"
  proof -
    have a: "\<bar>sint v * Q\<bar> < m * 2 ^ s" using m(1) by (simp add: Q_def)
    have "0 < m * 2 ^ s" using a by linarith
    then have "0 < m" using p(1) by (simp add: zero_less_mult_iff)
    then have "2 ^ s \<le> m * 2 ^ s" using p(1) by simp
    then show "y < m * 2 ^ s" "- m * 2 ^ s \<le> y" 
      using a sgn k p(1) unfolding y_def by (cases "sint v < 0"; linarith)+
  qed
  have dm: "y div 2 ^ s * 2 ^ s \<le> y" "y < y div 2 ^ s * 2 ^ s + 2 ^ s"
    using p(1) pos_mod_bound[of "2 ^ s" y] pos_mod_sign[of "2 ^ s" y] div_mult_mod_eq[of y "2 ^ s"] by linarith+
  have "y div 2 ^ s * 2 ^ s < m * 2 ^ s" using dm(1) ym(1) by (rule le_less_trans)
  then have "y div 2 ^ s < m" by (rule mult_right_less_imp_less) simp
  moreover have "- m * 2 ^ s < (y div 2 ^ s + 1) * 2 ^ s" using ym(2) dm(2) by (simp add: distrib_right)
  then have "- m < y div 2 ^ s + 1" by (rule mult_right_less_imp_less) simp
  ultimately have "sint (word_of_int (y div 2 ^ s) :: 'a word) = y div 2 ^ s" using m(2) by (intro sint_of_int) linarith+
  moreover note dm
  ultimately show ?thesis 
    unfolding d Q_def[symmetric] using k unfolding y_def k_def by (cases "sint v < 0") simp_all
qed

lemma qc_ok_step:
  assumes "qc_ok s S"
  shows "4 \<le> step_at S i \<and> step_at S i \<le> 29247"
  using assms unfolding qc_ok_def step_at_def by (cases "i = 0") (simp_all only: simp_thms if_True if_False, linarith+)

lemma quantize_dequantize:
  fixes coeffs :: "'a::len word list"
  assumes t: "t \<noteq> WHT_WHT" and len: "length coeffs = coded_area ts" and align: "align_ok align"
    and w: "16 \<le> LENGTH('a)" "LENGTH('a) \<le> 32"
    and S: "S = QuantizationContext_update qi ts intra bd dd da S0"
    and c: "\<forall>i<coded_area ts. \<bar>sint (coeffs ! i)\<bar> + step_at S i \<le> 2 ^ (LENGTH('a) - 1) \<and> \<bar>sint (coeffs ! i)\<bar> < 2 ^ 28"
  shows "\<exists>qs. quantize align S coeffs (replicate (coded_area ts) 0) ts t = Inr (coded_end (scan_for ts t) qs, qs)
    \<and> (\<forall>i<coded_area ts. \<bar>sint (dequantize qi qs (replicate (coded_area ts) 0) ts bd dd da ! i) - sint (coeffs ! i)\<bar>
          * 2 ^ get_log_tx_scale ts < step_at S i + 2 ^ get_log_tx_scale ts)"
proof -
  let ?n = "coded_area ts" and ?s = "get_log_tx_scale ts"
  have self: "qc_ok ?s S" unfolding S by (rule QuantizationContext_update_ok)
  note step = qc_ok_step[OF self]
  have "coeff_ok x" if x: "x \<in> set coeffs" for x
  proof -
    obtain i where i: "i < ?n" "coeffs ! i = x" using x unfolding in_set_conv_nth len by blast
    show ?thesis using c[rule_format, OF i(1)] step[of i] unfolding coeff_ok_def i(2) by simp
  qed
  then obtain qs where q: "quantize align S coeffs (replicate ?n 0) ts t = Inr (coded_end (scan_for ts t) qs, qs)" "length qs = ?n"
    "\<forall>i<?n. near (step_at S i) (sint (coeffs ! i) * 2 ^ ?s) (sint (qs ! i)) \<and> \<bar>sint (qs ! i)\<bar> \<le> \<bar>sint (coeffs ! i)\<bar>"
    using quantize_ok[OF self t len _ align w(1)] by blast
  have "\<bar>sint (dequantize qi qs (replicate ?n 0) ts bd dd da ! i) - sint (coeffs ! i)\<bar> * 2 ^ ?s < step_at S i + 2 ^ ?s"
    if i: "i < ?n" for i
  proof -
    define Q where "Q = (if i = 0 then dc_q qi dd bd else ac_q qi da bd)"
    have Q: "int (unat Q) = step_at S i" by (simp add: Q_def step_at_def S QuantizationContext_update_def Let_def)
    define x where "x = sint (coeffs ! i)"
    define v where "v = sint (qs ! i)"
    have p: "(1 :: int) \<le> 2 ^ ?s" "(2 :: int) ^ ?s \<le> 2 ^ 2"
      using get_log_tx_scale_le[of ts] by (simp, intro power_increasing) simp_all
    have n: "\<bar>x * 2 ^ ?s - v * step_at S i\<bar> < step_at S i" using q(3) i by (simp add: near_def x_def v_def)
    have xs: "\<bar>x * 2 ^ ?s\<bar> = \<bar>x\<bar> * 2 ^ ?s" by (simp add: abs_mult)
    have vx: "\<bar>v * step_at S i\<bar> < \<bar>x\<bar> * 2 ^ ?s + step_at S i" using n unfolding xs[symmetric] by linarith
    have c': "\<bar>x\<bar> + step_at S i \<le> 2 ^ (LENGTH('a) - 1)" "\<bar>x\<bar> < 2 ^ 28" using c i by (simp_all add: x_def)
    then have "\<bar>x\<bar> * 2 ^ ?s \<le> 2 ^ 28 * 2 ^ 2" using p by (intro mult_mono) simp_all
    then have b: "\<bar>v * step_at S i\<bar> < 2 ^ 31 - 4" using vx step[of i] by simp
    have "step_at S i * 1 \<le> step_at S i * 2 ^ ?s" using p step[of i] by (intro mult_left_mono) simp_all
    then have m: "\<bar>v * step_at S i\<bar> < (\<bar>x\<bar> + step_at S i) * 2 ^ ?s" using vx by (simp add: distrib_right)
    define r where "r = sint (dequantize_one Q ?s (qs ! i))"
    have "\<bar>r * 2 ^ ?s - v * step_at S i\<bar> < 2 ^ ?s"
      using dequantize_one_ok[OF get_log_tx_scale_le w(2) b[unfolded Q[symmetric] v_def] m[unfolded Q[symmetric] v_def]
        c'(1)[unfolded Q[symmetric]]] unfolding Q r_def v_def .
    then have "\<bar>r * 2 ^ ?s - x * 2 ^ ?s\<bar> < step_at S i + 2 ^ ?s" using n by linarith
    moreover have "\<bar>r * 2 ^ ?s - x * 2 ^ ?s\<bar> = \<bar>r - x\<bar> * 2 ^ ?s"
      by (simp add: abs_mult flip: left_diff_distrib)
    moreover have "dequantize qi qs (replicate ?n 0) ts bd dd da ! i = dequantize_one Q ?s (qs ! i)"
      using i q(2) by (simp add: dequantize_def Let_def nth_append Q_def)
    ultimately show ?thesis by (simp add: r_def x_def)
  qed
  then show ?thesis using q(1) by blast
qed

end
