(* ===== verification/Av1_Reorder.thy ===== *)
theory Av1_Reorder
  imports O3_Prelude O3_Bits
begin

text \<open>
  The order of frames: \<open>InterConfig\<close> of \<open>src/src/api/internal.rs\<close>, the part of
  \<open>FrameInvariants\<close> of \<open>src/src/encoder.rs\<close> that schedules a frame (its order
  hint, pyramid level, reference slots, the slot it is kept in), and the queue of
  one group of pictures: which frames are coded, and what every packet shows.
  Counters of 64 bits are naturals; \<open>as u32\<close> is written out. A reference frame
  has its order hint, its output number and its reconstruction.
\<close>

section \<open>References\<close>

datatype ref_type = INTRA_FRAME | LAST_FRAME | LAST2_FRAME | LAST3_FRAME | GOLDEN_FRAME | BWDREF_FRAME | ALTREF2_FRAME | ALTREF_FRAME | NONE_FRAME

primrec ref_index :: "ref_type \<Rightarrow> nat" where
  "ref_index INTRA_FRAME = 0" | "ref_index LAST_FRAME = 1" | "ref_index LAST2_FRAME = 2" | "ref_index LAST3_FRAME = 3"
| "ref_index GOLDEN_FRAME = 4" | "ref_index BWDREF_FRAME = 5" | "ref_index ALTREF2_FRAME = 6" | "ref_index ALTREF_FRAME = 7"
| "ref_index NONE_FRAME = 8"

text \<open>\<open>to_index\<close> panics on the two that are no inter reference.\<close>

definition to_index :: "ref_type \<Rightarrow> nat result" where
  "to_index r = (if r = NONE_FRAME \<or> r = INTRA_FRAME then Inl Fault else Inr (ref_index r - 1))"

definition is_fwd_ref :: "ref_type \<Rightarrow> bool" where "is_fwd_ref r \<longleftrightarrow> ref_index r < 5"
definition is_bwd_ref :: "ref_type \<Rightarrow> bool" where "is_bwd_ref r \<longleftrightarrow> ref_index r \<ge> 5"

definition ALL_INTER_REFS :: "ref_type list" where
  "ALL_INTER_REFS = [LAST_FRAME, LAST2_FRAME, LAST3_FRAME, GOLDEN_FRAME, BWDREF_FRAME, ALTREF2_FRAME, ALTREF_FRAME]"

definition INTER_REFS_PER_FRAME :: nat where "INTER_REFS_PER_FRAME = 7"
definition REF_FRAMES :: nat where "REF_FRAMES = 8"
definition ALL_REF_FRAMES_MASK :: nat where "ALL_REF_FRAMES_MASK = 2 ^ REF_FRAMES - 1"
definition PRIMARY_REF_NONE :: nat where "PRIMARY_REF_NONE = 7"

section \<open>The configuration of reordering\<close>

record inter_config =
  ic_reorder :: bool
  ic_multiref :: bool
  ic_pyramid_depth :: nat
  ic_group_input_len :: nat
  ic_group_output_len :: nat
  ic_switch_frame_interval :: nat

definition InterConfig_new :: "bool \<Rightarrow> bool \<Rightarrow> nat \<Rightarrow> inter_config result" where
  "InterConfig_new low_latency multiref switch_frame_interval =
     (let reorder = \<not> low_latency;
          pyramid_depth = (if reorder then 2 else 0);
          group_input_len = 2 ^ pyramid_depth;
          group_output_len = group_input_len + pyramid_depth in
      if switch_frame_interval mod group_input_len \<noteq> 0 then Inl Fault
      else Inr \<lparr>ic_reorder = reorder, ic_multiref = reorder \<or> multiref, ic_pyramid_depth = pyramid_depth,
        ic_group_input_len = group_input_len, ic_group_output_len = group_output_len,
        ic_switch_frame_interval = switch_frame_interval\<rparr>)"

definition pos_to_lvl :: "nat \<Rightarrow> nat \<Rightarrow> nat" where
  "pos_to_lvl pos pyramid_depth = pyramid_depth - trailing_zeros (of_nat pos OR push_bit pyramid_depth 1 :: u64)"

definition get_idx_in_group_output :: "inter_config \<Rightarrow> nat \<Rightarrow> nat result" where
  "get_idx_in_group_output self output_frameno_in_gop =
     (if \<not> output_frameno_in_gop > 0 then Inl Fault else Inr ((output_frameno_in_gop - 1) mod ic_group_output_len self))"

definition get_order_hint :: "inter_config \<Rightarrow> nat \<Rightarrow> nat \<Rightarrow> nat result" where
  "get_order_hint self output_frameno_in_gop idx_in_group_output =
     (if \<not> output_frameno_in_gop > 0 then Inl Fault
      else
        let group_idx = (output_frameno_in_gop - 1) div ic_group_output_len self;
            offset = (if idx_in_group_output < ic_pyramid_depth self
              then drop_bit idx_in_group_output (ic_group_input_len self)
              else idx_in_group_output - ic_pyramid_depth self + 1)
        in Inr ((ic_group_input_len self * group_idx + offset) mod 2 ^ 32))"

definition get_level :: "inter_config \<Rightarrow> nat \<Rightarrow> nat" where
  "get_level self idx_in_group_output =
     (if \<not> ic_reorder self then 0
      else if idx_in_group_output < ic_pyramid_depth self then idx_in_group_output
      else pos_to_lvl (idx_in_group_output - ic_pyramid_depth self + 1) (ic_pyramid_depth self))"

definition get_slot_idx :: "inter_config \<Rightarrow> nat \<Rightarrow> nat \<Rightarrow> nat" where
  "get_slot_idx self level order_hint =
     (if level = 0 then drop_bit (ic_pyramid_depth self) order_hint AND 3 else 3 + level)"

definition get_show_frame :: "inter_config \<Rightarrow> nat \<Rightarrow> bool" where
  "get_show_frame self idx_in_group_output \<longleftrightarrow> idx_in_group_output \<ge> ic_pyramid_depth self"

definition get_show_existing_frame :: "inter_config \<Rightarrow> nat \<Rightarrow> bool" where
  "get_show_existing_frame self idx_in_group_output \<longleftrightarrow>
     ic_reorder self \<and> get_show_frame self idx_in_group_output
     \<and> count_ones (of_nat (idx_in_group_output - ic_pyramid_depth self + 1) :: u64) = 1
     \<and> idx_in_group_output \<noteq> ic_pyramid_depth self"

definition get_input_frameno :: "inter_config \<Rightarrow> nat \<Rightarrow> nat \<Rightarrow> nat result" where
  "get_input_frameno self output_frameno_in_gop gop_input_frameno_start =
     (if output_frameno_in_gop = 0 then Inr gop_input_frameno_start
      else
        bindR (get_idx_in_group_output self output_frameno_in_gop) (\<lambda>idx.
        bindR (get_order_hint self output_frameno_in_gop idx) (\<lambda>order_hint.
        Inr (gop_input_frameno_start + order_hint))))"

definition max_reordering_latency :: "inter_config \<Rightarrow> nat" where
  "max_reordering_latency self = ic_group_input_len self"

definition keyframe_lookahead_distance :: "inter_config \<Rightarrow> nat" where
  "keyframe_lookahead_distance self = max_reordering_latency self + 1"

definition allowed_ref_frames :: "inter_config \<Rightarrow> ref_type list" where
  "allowed_ref_frames self =
     (if ic_reorder self then ALL_INTER_REFS
      else if ic_multiref self then [LAST_FRAME, LAST2_FRAME, LAST3_FRAME, GOLDEN_FRAME]
      else [LAST_FRAME])"

section \<open>The frame\<close>

record frame_sequence =
  sq_order_hint_bits_minus_1 :: nat
  sq_enable_order_hint :: bool
  sq_reduced_still_picture_hdr :: bool
  sq_max_frame_width :: nat
  sq_max_frame_height :: nat

record 'f reference_frame =
  rf_order_hint :: nat
  rf_output_frameno :: nat
  rf_frame :: 'f

datatype frame_type = KEY | INTER | INTRA_ONLY | SWITCH
datatype reference_mode = SINGLE | COMPOUND | SELECT

text \<open>\<open>fi_coded\<close> says whether \<open>coded_frame_data\<close> is present.\<close>

record 'f frame_invariants =
  fi_sequence :: frame_sequence
  fi_width :: nat
  fi_height :: nat
  fi_render_and_frame_size_different :: bool
  fi_enable_inter_txfm_split :: bool
  fi_coded :: bool
  fi_intra_only :: bool
  fi_force_integer_mv :: nat
  fi_tx_mode_select :: bool
  fi_idx_in_group_output :: nat
  fi_order_hint :: nat
  fi_pyramid_level :: nat
  fi_frame_type :: frame_type
  fi_error_resilient :: bool
  fi_frame_size_override_flag :: bool
  fi_show_frame :: bool
  fi_frame_to_show_map_idx :: nat
  fi_refresh_frame_flags :: nat
  fi_primary_ref_frame :: nat
  fi_ref_frames :: "nat list"
  fi_ref_frame_sign_bias :: "bool list"
  fi_rec_buffer :: "'f reference_frame option list"
  fi_reference_mode :: reference_mode
  fi_input_frameno :: nat
  fi_me_range_scale :: nat

definition is_show_existing_frame :: "'f frame_invariants \<Rightarrow> bool" where
  "is_show_existing_frame fi \<longleftrightarrow> \<not> fi_coded fi"

definition get_relative_dist :: "frame_sequence \<Rightarrow> nat \<Rightarrow> nat \<Rightarrow> int" where
  "get_relative_dist self a b =
     (let diff = int a - int b; m = push_bit (sq_order_hint_bits_minus_1 self) 1 in (diff AND (m - 1)) - (diff AND m))"

definition set_ref_frame_sign_bias :: "'f frame_invariants \<Rightarrow> 'f frame_invariants" where
  "set_ref_frame_sign_bias self =
     self\<lparr>fi_ref_frame_sign_bias := map (\<lambda>i.
       if \<not> sq_enable_order_hint (fi_sequence self) then False
       else case fi_rec_buffer self ! (fi_ref_frames self ! i) of
           Some rec \<Rightarrow> get_relative_dist (fi_sequence self) (rf_order_hint rec) (fi_order_hint self) > 0
         | None \<Rightarrow> False) [0..<INTER_REFS_PER_FRAME]\<rparr>"

definition FrameInvariants_new :: "frame_sequence \<Rightarrow> nat \<Rightarrow> nat \<Rightarrow> bool \<Rightarrow> bool \<Rightarrow> 'f frame_invariants" where
  "FrameInvariants_new sequence width height render_differs enable_inter_tx_split =
     \<lparr>fi_sequence = sequence, fi_width = width, fi_height = height, fi_render_and_frame_size_different = render_differs,
      fi_enable_inter_txfm_split = enable_inter_tx_split, fi_coded = False, fi_intra_only = True, fi_force_integer_mv = 1,
      fi_tx_mode_select = False, fi_idx_in_group_output = 0, fi_order_hint = 0, fi_pyramid_level = 0, fi_frame_type = KEY,
      fi_error_resilient = False,
      fi_frame_size_override_flag = (width \<noteq> sq_max_frame_width sequence \<or> height \<noteq> sq_max_frame_height sequence),
      fi_show_frame = True, fi_frame_to_show_map_idx = 0, fi_refresh_frame_flags = ALL_REF_FRAMES_MASK,
      fi_primary_ref_frame = PRIMARY_REF_NONE, fi_ref_frames = replicate INTER_REFS_PER_FRAME 0,
      fi_ref_frame_sign_bias = replicate INTER_REFS_PER_FRAME False, fi_rec_buffer = replicate REF_FRAMES None,
      fi_reference_mode = SINGLE, fi_input_frameno = 0, fi_me_range_scale = 1\<rparr>"

definition new_key_frame :: "frame_sequence \<Rightarrow> nat \<Rightarrow> nat \<Rightarrow> bool \<Rightarrow> bool \<Rightarrow> bool \<Rightarrow> nat \<Rightarrow> 'f frame_invariants" where
  "new_key_frame sequence width height render_differs enable_inter_tx_split rdo_tx_decision gop_input_frameno_start =
     (FrameInvariants_new sequence width height render_differs enable_inter_tx_split)
       \<lparr>fi_input_frameno := gop_input_frameno_start, fi_tx_mode_select := rdo_tx_decision, fi_coded := True\<rparr>"

definition clone_without_coded_data :: "'f frame_invariants \<Rightarrow> 'f frame_invariants" where
  "clone_without_coded_data self = self\<lparr>fi_coded := False\<rparr>"

text \<open>
  The references of a frame above the base level: the slot of the frame at a
  distance on either side. The subtraction of 32-bit numbers is checked.
\<close>

definition ref_slot_of_hint :: "inter_config \<Rightarrow> nat \<Rightarrow> nat" where
  "ref_slot_of_hint inter_cfg oh =
     (let lvl = pos_to_lvl oh (ic_pyramid_depth inter_cfg) in
      if lvl = 0 then drop_bit (ic_pyramid_depth inter_cfg) oh mod 4 else 3 + lvl)"

definition choose_ref_frames :: "inter_config \<Rightarrow> nat \<Rightarrow> nat \<Rightarrow> nat \<Rightarrow> nat \<Rightarrow> nat list result" where
  "choose_ref_frames inter_cfg idx_in_group_output pyramid_level order_hint slot_idx =
     (let second_ref_frame = (if idx_in_group_output = 0 then LAST2_FRAME else ALTREF_FRAME);
          ref_in_previous_group = LAST3_FRAME in
      bindR (to_index second_ref_frame) (\<lambda>second.
      bindR (to_index ref_in_previous_group) (\<lambda>third.
      if pyramid_level = 0 then
        let refs = replicate INTER_REFS_PER_FRAME ((slot_idx + 4 - 1) mod 256 mod 4) in
        Inr (if ic_multiref inter_cfg then refs[second := (slot_idx + 4 - 2) mod 256 mod 4] else refs)
      else if \<not> ic_multiref inter_cfg then Inl Fault
      else
        let d = drop_bit pyramid_level (ic_group_input_len inter_cfg) in
        if order_hint < d then Inl Fault
        else
          let refs = replicate INTER_REFS_PER_FRAME (ref_slot_of_hint inter_cfg (order_hint - d));
              refs = refs[second := ref_slot_of_hint inter_cfg (order_hint + d)]
          in Inr (refs[third := slot_idx]))))"

text \<open>The fields in the order the source sets them; \<open>primary_ref_frame\<close> is the index of \<open>LAST3_FRAME\<close>.\<close>

definition new_inter_frame ::
  "'f frame_invariants \<Rightarrow> inter_config \<Rightarrow> nat \<Rightarrow> nat \<Rightarrow> nat \<Rightarrow> bool \<Rightarrow> 'f frame_invariants option result" where
  "new_inter_frame previous_coded_fi inter_cfg gop_input_frameno_start output_frameno_in_gop next_keyframe_input_frameno error_resilient =
     bindR (get_input_frameno inter_cfg output_frameno_in_gop gop_input_frameno_start) (\<lambda>input_frameno.
     if input_frameno \<ge> next_keyframe_input_frameno then Inr None
     else
       bindR (get_idx_in_group_output inter_cfg output_frameno_in_gop) (\<lambda>idx.
       bindR (get_order_hint inter_cfg output_frameno_in_gop idx) (\<lambda>order_hint.
       let fi = clone_without_coded_data previous_coded_fi;
           sequence = fi_sequence fi;
           show_existing_frame = get_show_existing_frame inter_cfg idx;
           coded = (if \<not> show_existing_frame then fi_coded previous_coded_fi else fi_coded fi);
           pyramid_level = get_level inter_cfg idx;
           frame_type = (if ic_switch_frame_interval inter_cfg > 0
             \<and> output_frameno_in_gop mod ic_switch_frame_interval inter_cfg = 0
             \<and> pyramid_level = 0 then SWITCH else INTER);
           error_resilient = (if frame_type = SWITCH then True else error_resilient);
           frame_size_override_flag =
             (if frame_type = SWITCH then True
              else if sq_reduced_still_picture_hdr sequence then False
              else if frame_type = INTER \<and> \<not> error_resilient \<and> fi_render_and_frame_size_different fi then True
              else fi_width fi \<noteq> sq_max_frame_width sequence \<or> fi_height fi \<noteq> sq_max_frame_height sequence);
           slot_idx = get_slot_idx inter_cfg pyramid_level order_hint;
           refresh_frame_flags =
             (if frame_type = SWITCH then ALL_REF_FRAMES_MASK
              else if \<not> coded then 0
              else push_bit slot_idx 1);
           primary_ref_frame =
             (if error_resilient \<or> pyramid_level > 2 then PRIMARY_REF_NONE else ref_index LAST3_FRAME - 1) in
       bindR (choose_ref_frames inter_cfg idx pyramid_level order_hint slot_idx) (\<lambda>ref_frames.
       Inr (Some (set_ref_frame_sign_bias (fi
         \<lparr>fi_intra_only := False, fi_force_integer_mv := 0, fi_idx_in_group_output := idx,
          fi_tx_mode_select := fi_enable_inter_txfm_split fi, fi_coded := coded, fi_order_hint := order_hint,
          fi_pyramid_level := pyramid_level, fi_frame_type := frame_type, fi_error_resilient := error_resilient,
          fi_frame_size_override_flag := frame_size_override_flag, fi_show_frame := get_show_frame inter_cfg idx,
          fi_frame_to_show_map_idx := slot_idx, fi_refresh_frame_flags := refresh_frame_flags,
          fi_primary_ref_frame := primary_ref_frame, fi_ref_frames := ref_frames,
          fi_reference_mode := (if ic_multiref inter_cfg \<and> idx \<noteq> 0 then SELECT else SINGLE),
          fi_input_frameno := input_frameno,
          fi_me_range_scale := drop_bit pyramid_level (ic_group_input_len inter_cfg) mod 256\<rparr>)))))))"

definition update_rec_buffer :: "nat \<Rightarrow> 'f frame_invariants \<Rightarrow> 'f \<Rightarrow> 'f frame_invariants" where
  "update_rec_buffer output_frameno fi rec =
     (let rfs = \<lparr>rf_order_hint = fi_order_hint fi, rf_output_frameno = output_frameno, rf_frame = rec\<rparr> in
      fi\<lparr>fi_rec_buffer := map (\<lambda>i. if bit (fi_refresh_frame_flags fi) i then Some rfs else fi_rec_buffer fi ! i) [0..<REF_FRAMES]\<rparr>)"

section \<open>The queue of one group of pictures\<close>

text \<open>
  \<open>encode_packet\<close> on the frames of a group: a placeholder is passed over; a
  frame that shows an existing one puts out the picture of its slot; another is
  coded against the buffer after the last coded frame (\<open>rec_buffer\<close> is copied to
  the frames that follow), enters the buffer, and is put out if it is shown. The
  state keeps what \<open>get_previous_coded_fi\<close> and \<open>get_previous_fi\<close> look up. The
  coding itself, from the frame's data to its reconstruction, is a parameter.
\<close>

record 'f gop_state =
  gs_coded_fi :: "'f frame_invariants"
  gs_prev_input :: nat
  gs_coded :: "(nat \<times> 'f frame_invariants) list"
  gs_packets :: "(nat \<times> 'f reference_frame option) list"

definition encode_packet :: "(nat \<Rightarrow> 'f frame_invariants \<Rightarrow> 'f) \<Rightarrow> nat \<Rightarrow> 'f frame_invariants option \<Rightarrow> 'f gop_state \<Rightarrow> 'f gop_state" where
  "encode_packet encode_frame output_frameno r st =
     (case r of
       None \<Rightarrow> st
     | Some fi \<Rightarrow>
         if is_show_existing_frame fi then
           st\<lparr>gs_prev_input := fi_input_frameno fi, gs_packets := gs_packets st @ [(fi_input_frameno fi, fi_rec_buffer fi ! fi_frame_to_show_map_idx fi)]\<rparr>
         else
           let rec = encode_frame output_frameno fi; fi' = update_rec_buffer output_frameno fi rec;
               shown = Some \<lparr>rf_order_hint = fi_order_hint fi, rf_output_frameno = output_frameno, rf_frame = rec\<rparr> in
           st\<lparr>gs_coded_fi := fi', gs_prev_input := fi_input_frameno fi, gs_coded := gs_coded st @ [(output_frameno, fi)],
             gs_packets := (if fi_show_frame fi then gs_packets st @ [(fi_input_frameno fi, shown)] else gs_packets st)\<rparr>)"

text \<open>One output of a group of pictures whose key frame is output \<open>base\<close>, and the first \<open>n\<close> of them.\<close>

definition encode_output ::
  "inter_config \<Rightarrow> nat \<Rightarrow> nat \<Rightarrow> nat \<Rightarrow> bool \<Rightarrow> (nat \<Rightarrow> 'f frame_invariants \<Rightarrow> 'f) \<Rightarrow> nat \<Rightarrow> 'f gop_state \<Rightarrow> 'f gop_state result" where
  "encode_output cfg base gop_start next_keyframe error_resilient encode_frame n st =
     bindR (new_inter_frame (gs_coded_fi st) cfg gop_start n next_keyframe error_resilient) (\<lambda>r.
     Inr (encode_packet encode_frame (base + n) r st))"

definition encode_outputs where
  "encode_outputs cfg base gop_start next_keyframe error_resilient encode_frame n st =
     forR (encode_output cfg base gop_start next_keyframe error_resilient encode_frame) [1..<n + 1] st"

end
