(* ===== verification/Av1_ReorderLaws.thy ===== *)
theory Av1_ReorderLaws
  imports Av1_Reorder
begin

text \<open>
  What the order of frames promises. \<open>gop_inv k\<close> is the state after \<open>k\<close> whole
  groups: the packets so far are the first pictures in input order, each the
  reconstruction of its own coding; the base frame of the last group is in its
  slot; and every coded frame found in its slots the frames it was meant to
  predict from.
\<close>

section \<open>Levels and slots\<close>

lemma pos_to_lvl_0 [simp]: "pos_to_lvl pos 0 = 0"
  by (simp add: pos_to_lvl_def)

lemma pos_to_lvl_2: "pos_to_lvl pos 2 = (if odd pos then 2 else if odd (pos div 2) then 1 else 0)"
proof -
  have u: "[0..<64] = [0, 1, 2] @ [3..<64]" by (simp add: upt_conv_Cons)
  have "bit (of_nat pos OR push_bit 2 1 :: u64) n \<longleftrightarrow> bit pos n \<or> n = 2" if "n < 64" for n
    unfolding bit_or_iff bit_push_bit_iff using that by (auto simp: bit_of_nat_iff bit_1_iff)
  from this[of 0] this[of 1] this[of 2]
  have b: "bit (of_nat pos OR push_bit 2 1 :: u64) 0 = odd pos" "bit (of_nat pos OR push_bit 2 1 :: u64) 1 = odd (pos div 2)"
    "bit (of_nat pos OR push_bit 2 1 :: u64) 2"
    by (simp_all only: bit_0 bit_iff_odd) simp_all
  define w :: u64 where "w = of_nat pos OR push_bit 2 1"
  have "trailing_zeros w = (if odd pos then 0 else if odd (pos div 2) then 1 else 2)"
    unfolding trailing_zeros_def using b[folded w_def] by (simp add: u)
  then show ?thesis by (simp add: pos_to_lvl_def w_def)
qed

lemma count_ones_small:
  "count_ones (1 :: u64) = 1" "count_ones (2 :: u64) = 1" "count_ones (3 :: u64) = 2" "count_ones (4 :: u64) = 1"
  unfolding count_ones_def set_bits_of_def by code_simp+

section \<open>A frame of a group with reordering\<close>

definition pyramid_config :: inter_config where
  "pyramid_config = \<lparr>ic_reorder = True, ic_multiref = True, ic_pyramid_depth = 2, ic_group_input_len = 4,
     ic_group_output_len = 6, ic_switch_frame_interval = 0\<rparr>"

lemma InterConfig_new_reorder: "InterConfig_new False multiref 0 = Inr pyramid_config"
  by (simp add: InterConfig_new_def pyramid_config_def)

text \<open>By place in the group: distance from the last base frame, level, slot, and whether it shows an existing frame.\<close>

definition group_offset :: "nat \<Rightarrow> nat" where "group_offset idx = [4, 2, 1, 2, 3, 4] ! idx"
definition group_level :: "nat \<Rightarrow> nat" where "group_level idx = [0, 1, 2, 1, 2, 0] ! idx"
definition group_slot :: "nat \<Rightarrow> nat \<Rightarrow> nat" where "group_slot k idx = [(k + 1) mod 4, 4, 5, 4, 5, (k + 1) mod 4] ! idx"
definition group_shows :: "nat \<Rightarrow> bool" where "group_shows idx \<longleftrightarrow> idx = 3 \<or> idx = 5"

lemma less_6: "idx < 6 \<Longrightarrow> idx = 0 \<or> idx = 1 \<or> idx = 2 \<or> idx = 3 \<or> idx = 4 \<or> idx = (5 :: nat)"
  by linarith

lemma and_3: "n AND 3 = n mod (4 :: nat)"
  using take_bit_eq_mask[of 2 n] by (simp add: take_bit_eq_mod mask_eq_exp_minus_1)

text \<open>The slots a coded frame predicts from: behind, ahead, and the base frame before the last.\<close>

definition ref_behind :: "nat \<Rightarrow> nat \<Rightarrow> nat" where "ref_behind k idx = [k mod 4, k mod 4, k mod 4, k mod 4, 4, k mod 4] ! idx"
definition ref_ahead :: "nat \<Rightarrow> nat \<Rightarrow> nat" where "ref_ahead k idx = [(k + 3) mod 4, (k + 1) mod 4, 4, (k + 1) mod 4, (k + 1) mod 4, (k + 3) mod 4] ! idx"

definition group_refs :: "nat \<Rightarrow> nat \<Rightarrow> nat list" where
  "group_refs k idx =
     (if group_level idx = 0 then (replicate 7 (ref_behind k idx))[(if idx = 0 then 1 else 6) := ref_ahead k idx]
      else ((replicate 7 (ref_behind k idx))[6 := ref_ahead k idx])[2 := group_slot k idx])"

lemma pyramid_schedule:
  assumes idx: "idx < 6" and h: "h = 4 * k + group_offset idx" "h < 2 ^ 32"
  shows "get_idx_in_group_output pyramid_config (6 * k + idx + 1) = Inr idx"
    and "get_order_hint pyramid_config (6 * k + idx + 1) idx = Inr h"
    and "get_input_frameno pyramid_config (6 * k + idx + 1) start = Inr (start + h)"
    and "get_level pyramid_config idx = group_level idx"
    and "get_slot_idx pyramid_config (group_level idx) h = group_slot k idx"
    and "get_show_frame pyramid_config idx \<longleftrightarrow> 2 \<le> idx"
    and "get_show_existing_frame pyramid_config idx \<longleftrightarrow> group_shows idx"
proof -
  show i: "get_idx_in_group_output pyramid_config (6 * k + idx + 1) = Inr idx"
    using idx by (simp add: get_idx_in_group_output_def pyramid_config_def)
  show o': "get_order_hint pyramid_config (6 * k + idx + 1) idx = Inr h"
    using less_6[OF idx] h by (auto simp: get_order_hint_def pyramid_config_def group_offset_def)
  show "get_input_frameno pyramid_config (6 * k + idx + 1) start = Inr (start + h)"
    by (simp only: get_input_frameno_def i o' bindR_simps) simp
  show "get_level pyramid_config idx = group_level idx"
    using less_6[OF idx] by (auto simp: get_level_def pyramid_config_def group_level_def pos_to_lvl_2)
  show "get_slot_idx pyramid_config (group_level idx) h = group_slot k idx"
    using less_6[OF idx] h(1) by (auto simp: get_slot_idx_def pyramid_config_def group_level_def group_slot_def group_offset_def and_3 drop_bit_eq_div)
  show "get_show_frame pyramid_config idx \<longleftrightarrow> 2 \<le> idx" by (simp add: get_show_frame_def pyramid_config_def)
  show "get_show_existing_frame pyramid_config idx \<longleftrightarrow> group_shows idx"
    using less_6[OF idx] by (auto simp: get_show_existing_frame_def get_show_frame_def pyramid_config_def group_shows_def count_ones_small)
qed

lemma pyramid_refs:
  assumes idx: "idx < 6" and h: "h = 4 * k + group_offset idx"
  shows "choose_ref_frames pyramid_config idx (group_level idx) h (group_slot k idx) = Inr (group_refs k idx)"
proof -
  have m: "((k + 1) mod 4 + 4 - 1) mod 256 mod 4 = k mod 4" "((k + 1) mod 4 + 4 - 2) mod 256 mod 4 = (k + 3) mod 4"
  proof -
    have "x mod 256 mod 4 = x mod (4 :: nat)" for x by (rule mod_mod_cancel) simp
    moreover have "x + 4 - 1 = x + 3" "x + 4 - 2 = x + 2" for x :: nat by simp_all
    moreover have "((k + 1) mod 4 + 3) mod 4 = k mod 4" "((k + 1) mod 4 + 2) mod 4 = (k + 3) mod 4"
      unfolding mod_add_left_eq by (simp_all add: add.commute)
    ultimately show "((k + 1) mod 4 + 4 - 1) mod 256 mod 4 = k mod 4" "((k + 1) mod 4 + 4 - 2) mod 256 mod 4 = (k + 3) mod 4"
      by (simp_all only:)
  qed
  have d: "(4 * k) div 4 = k" "(4 * k + 1) div 2 = 2 * k" "(4 * k + 2) div 2 = 2 * k + 1" "(4 * k + 4) div 4 = k + 1"
    "(4 * k + 4) div 2 = 2 * k + 2" "(4 * k + 2) div 4 = k" by presburger+
  have slots: "ref_slot_of_hint pyramid_config (4 * k) = k mod 4" "ref_slot_of_hint pyramid_config (4 * k + 4) = (k + 1) mod 4"
    "ref_slot_of_hint pyramid_config (4 * k + 2) = 4"
    by (simp_all add: ref_slot_of_hint_def pyramid_config_def pos_to_lvl_2 drop_bit_eq_div d)
  have s2: "4 + 4 * k = 4 * k + 4" "Suc (Suc (Suc (Suc (4 * k)))) = 4 * k + 4" "Suc (Suc (4 * k)) = 4 * k + 2" by simp_all
  note slots' = slots[folded s2(1)] slots[folded s2(2)] slots[folded s2(3)]
  have m': "(3 + Suc k mod 4) mod 4 = k mod 4" "Suc (Suc (Suc k mod 4)) mod 4 = (k + 3) mod 4"
    unfolding add_2_eq_Suc'[symmetric] using m by (simp_all add: add.commute)
  have i: "to_index ALTREF_FRAME = Inr 6" "to_index LAST2_FRAME = Inr 1" "to_index LAST3_FRAME = Inr 2"
    by (simp_all add: to_index_def)
  have c: "ic_multiref pyramid_config" "ic_group_input_len pyramid_config = 4" by (simp_all add: pyramid_config_def)
  consider "idx = 0" | "idx = 1" | "idx = 2" | "idx = 3" | "idx = 4" | "idx = 5" using less_6[OF idx] by blast
  then show ?thesis
    by cases (simp_all add: choose_ref_frames_def Let_def i c h m group_refs_def group_level_def group_slot_def group_offset_def
      ref_behind_def ref_ahead_def INTER_REFS_PER_FRAME_def slots slots' m' drop_bit_eq_div)
qed

text \<open>What a frame of the group is given: \<open>planned\<close> lists the facts the proofs use.\<close>

definition planned :: "nat \<Rightarrow> 'f frame_invariants \<Rightarrow> nat \<Rightarrow> nat \<Rightarrow> nat \<Rightarrow> 'f frame_invariants \<Rightarrow> bool" where
  "planned start prev k idx h fi \<longleftrightarrow>
     fi_coded fi = (\<not> group_shows idx) \<and> fi_order_hint fi = h \<and> fi_input_frameno fi = start + h \<and> fi_pyramid_level fi = group_level idx
     \<and> fi_show_frame fi = (2 \<le> idx) \<and> fi_frame_to_show_map_idx fi = group_slot k idx
     \<and> fi_refresh_frame_flags fi = (if group_shows idx then 0 else 2 ^ group_slot k idx)
     \<and> fi_ref_frames fi = group_refs k idx \<and> fi_rec_buffer fi = fi_rec_buffer prev"

lemma new_inter_frame_pyramid:
  assumes idx: "idx < 6" and h: "h = 4 * k + group_offset idx" "h < 2 ^ 32" and prev: "fi_coded prev"
  shows "next \<le> start + h \<Longrightarrow> new_inter_frame prev pyramid_config start (6 * k + idx + 1) next er = Inr None"
    and "\<not> next \<le> start + h \<Longrightarrow>
      \<exists>fi. new_inter_frame prev pyramid_config start (6 * k + idx + 1) next er = Inr (Some fi) \<and> planned start prev k idx h fi"
proof -
  note sch = pyramid_schedule[OF idx h]
  have c: "ic_switch_frame_interval pyramid_config = 0" "ic_group_input_len pyramid_config = 4" "ic_multiref pyramid_config"
    by (simp_all add: pyramid_config_def)
  show "new_inter_frame prev pyramid_config start (6 * k + idx + 1) next er = Inr None" if "next \<le> start + h"
    unfolding new_inter_frame_def sch(1-5) bindR_simps using that by simp
  show "\<exists>fi. new_inter_frame prev pyramid_config start (6 * k + idx + 1) next er = Inr (Some fi) \<and> planned start prev k idx h fi"
    if "\<not> next \<le> start + h"
    unfolding new_inter_frame_def sch(1-5) bindR_simps Let_def pyramid_refs[OF idx h(1)]
    using prev that by (simp add: sch(6,7) c planned_def set_ref_frame_sign_bias_def clone_without_coded_data_def push_bit_eq_mult)
qed

section \<open>Invariants of the queue\<close>

text \<open>A reference that is the reconstruction of a coded frame, with that frame's order hint.\<close>

definition coded_ref :: "(nat \<Rightarrow> 'f frame_invariants \<Rightarrow> 'f) \<Rightarrow> (nat \<times> 'f frame_invariants) list \<Rightarrow> 'f reference_frame \<Rightarrow> bool" where
  "coded_ref enc coded r \<longleftrightarrow>
     (\<exists>fi. (rf_output_frameno r, fi) \<in> set coded \<and> rf_order_hint r = fi_order_hint fi \<and> rf_frame r = enc (rf_output_frameno r) fi)"

lemma coded_ref_mono: "coded_ref enc coded r \<Longrightarrow> set coded \<subseteq> set coded' \<Longrightarrow> coded_ref enc coded' r"
  by (auto simp: coded_ref_def)

lemma coded_ref_append: "coded_ref enc coded r \<Longrightarrow> coded_ref enc (coded @ xs) r"
  by (rule coded_ref_mono) auto

definition holds :: "(nat \<Rightarrow> 'f frame_invariants \<Rightarrow> 'f) \<Rightarrow> (nat \<times> 'f frame_invariants) list \<Rightarrow> 'f reference_frame option list \<Rightarrow> nat \<Rightarrow> nat \<Rightarrow> bool" where
  "holds enc coded buf slot h \<longleftrightarrow> (\<exists>r. buf ! slot = Some r \<and> coded_ref enc coded r \<and> rf_order_hint r = h)"

definition buffer_ok :: "(nat \<Rightarrow> 'f frame_invariants \<Rightarrow> 'f) \<Rightarrow> (nat \<times> 'f frame_invariants) list \<Rightarrow> 'f reference_frame option list \<Rightarrow> bool" where
  "buffer_ok enc coded buf \<longleftrightarrow> length buf = REF_FRAMES \<and> (\<forall>s<REF_FRAMES. \<exists>r. buf ! s = Some r \<and> coded_ref enc coded r)"

text \<open>The reference of a frame under one of the seven names, a coded one.\<close>

definition ref_of :: "'f frame_invariants \<Rightarrow> ref_type \<Rightarrow> 'f reference_frame option" where
  "ref_of fi r = fi_rec_buffer fi ! (fi_ref_frames fi ! (ref_index r - 1))"

definition ref_at :: "(nat \<Rightarrow> 'f frame_invariants \<Rightarrow> 'f) \<Rightarrow> (nat \<times> 'f frame_invariants) list \<Rightarrow> 'f frame_invariants \<Rightarrow> ref_type \<Rightarrow> nat \<Rightarrow> bool" where
  "ref_at enc coded fi r h \<longleftrightarrow> (\<exists>rf. ref_of fi r = Some rf \<and> coded_ref enc coded rf \<and> rf_order_hint rf = h)"

text \<open>
  A frame's references are all coded; behind it is the frame it refines, at the
  distance of its level, and ahead, if the group of pictures goes that far, the
  other one.
\<close>

definition refs_ok :: "(nat \<Rightarrow> 'f frame_invariants \<Rightarrow> 'f) \<Rightarrow> (nat \<times> 'f frame_invariants) list \<Rightarrow> nat \<Rightarrow> nat \<Rightarrow> 'f frame_invariants \<Rightarrow> bool" where
  "refs_ok enc coded input_len len fi \<longleftrightarrow>
     (\<forall>r\<in>set ALL_INTER_REFS. \<exists>h. ref_at enc coded fi r h)
     \<and> (let d = drop_bit (fi_pyramid_level fi) input_len; h = fi_order_hint fi in
         d \<le> h \<and> ref_at enc coded fi LAST_FRAME (h - d)
         \<and> (0 < fi_pyramid_level fi \<and> h + d < len \<longrightarrow> ref_at enc coded fi ALTREF_FRAME (h + d)))"

lemma ref_at_mono: "ref_at enc coded fi r h \<Longrightarrow> set coded \<subseteq> set coded' \<Longrightarrow> ref_at enc coded' fi r h"
  using coded_ref_mono by (fastforce simp: ref_at_def)

lemma refs_ok_append: "refs_ok enc coded q len fi \<Longrightarrow> refs_ok enc (coded @ xs) q len fi"
  unfolding refs_ok_def Let_def using ref_at_mono[of enc coded fi _ _ "coded @ xs"] by (simp; blast)

definition packet_ok :: "(nat \<Rightarrow> 'f frame_invariants \<Rightarrow> 'f) \<Rightarrow> nat \<Rightarrow> (nat \<times> 'f frame_invariants) list \<Rightarrow> nat \<times> 'f reference_frame option \<Rightarrow> bool" where
  "packet_ok enc start coded p \<longleftrightarrow> (\<exists>r. snd p = Some r \<and> coded_ref enc coded r \<and> fst p = start + rf_order_hint r)"

definition gop_ok :: "(nat \<Rightarrow> 'f frame_invariants \<Rightarrow> 'f) \<Rightarrow> nat \<Rightarrow> nat \<Rightarrow> nat \<Rightarrow> nat \<Rightarrow> 'f gop_state \<Rightarrow> bool" where
  "gop_ok enc input_len start len shown st \<longleftrightarrow>
     fi_coded (gs_coded_fi st) \<and> buffer_ok enc (gs_coded st) (fi_rec_buffer (gs_coded_fi st))
     \<and> list_all (\<lambda>(n, fi). refs_ok enc (gs_coded st) input_len len fi) (tl (gs_coded st))
     \<and> gs_coded st \<noteq> [] \<and> fi_frame_type (snd (hd (gs_coded st))) = KEY
     \<and> list_all (\<lambda>(n, fi). fi_input_frameno fi = start + fi_order_hint fi) (gs_coded st)
     \<and> list_all (packet_ok enc start (gs_coded st)) (gs_packets st)
     \<and> map fst (gs_packets st) = [start..<start + shown]"

lemma packet_ok_append: "list_all (packet_ok enc start coded) ps \<Longrightarrow> list_all (packet_ok enc start (coded @ xs)) ps"
  by (auto simp: list_all_iff packet_ok_def coded_ref_append)

text \<open>Coding a frame puts its reconstruction in the slots it refreshes and leaves the others.\<close>

lemma update_rec_buffer_nth:
  "s < 8 \<Longrightarrow> fi_rec_buffer (update_rec_buffer n fi rec) ! s =
    (if bit (fi_refresh_frame_flags fi) s then Some \<lparr>rf_order_hint = fi_order_hint fi, rf_output_frameno = n, rf_frame = rec\<rparr>
     else fi_rec_buffer fi ! s)"
  by (simp add: update_rec_buffer_def Let_def REF_FRAMES_def)

lemma code_frame:
  assumes st: "gop_ok enc q start len shown st" and refs: "refs_ok enc (gs_coded st) q len fi"
    and fi: "fi_coded fi" "fi_rec_buffer fi = fi_rec_buffer (gs_coded_fi st)" "fi_input_frameno fi = start + fi_order_hint fi"
    and shown: "fi_show_frame fi \<longrightarrow> shown = fi_order_hint fi" and st': "st' = encode_packet enc n (Some fi) st"
  shows "gop_ok enc q start len (if fi_show_frame fi then fi_order_hint fi + 1 else shown) st'"
    and "gs_prev_input st' = fi_input_frameno fi"
    and "s < 8 \<Longrightarrow> bit (fi_refresh_frame_flags fi) s \<Longrightarrow> holds enc (gs_coded st') (fi_rec_buffer (gs_coded_fi st')) s (fi_order_hint fi)"
    and "s < 8 \<Longrightarrow> \<not> bit (fi_refresh_frame_flags fi) s \<Longrightarrow> holds enc (gs_coded st) (fi_rec_buffer (gs_coded_fi st)) s h \<Longrightarrow>
      holds enc (gs_coded st') (fi_rec_buffer (gs_coded_fi st')) s h"
proof -
  define r where "r = \<lparr>rf_order_hint = fi_order_hint fi, rf_output_frameno = n, rf_frame = enc n fi\<rparr>"
  have e: "gs_coded_fi st' = update_rec_buffer n fi (enc n fi)" "gs_coded st' = gs_coded st @ [(n, fi)]"
      "gs_packets st' = (if fi_show_frame fi then gs_packets st @ [(fi_input_frameno fi, Some r)] else gs_packets st)"
      "gs_prev_input st' = fi_input_frameno fi"
    using fi(1) by (simp_all add: st' encode_packet_def is_show_existing_frame_def Let_def r_def)
  have b: "fi_rec_buffer (gs_coded_fi st') ! s = (if bit (fi_refresh_frame_flags fi) s then Some r else fi_rec_buffer (gs_coded_fi st) ! s)"
    if "s < 8" for s unfolding e(1) update_rec_buffer_nth[OF that] r_def fi(2) ..
  have cr: "coded_ref enc (gs_coded st') r" by (auto simp: coded_ref_def e r_def)
  show "gs_prev_input st' = fi_input_frameno fi" by (rule e)
  show "holds enc (gs_coded st') (fi_rec_buffer (gs_coded_fi st')) s (fi_order_hint fi)" if "s < 8" "bit (fi_refresh_frame_flags fi) s"
    using cr b[OF that(1)] that(2) by (simp add: holds_def r_def)
  show "holds enc (gs_coded st') (fi_rec_buffer (gs_coded_fi st')) s h"
    if "s < 8" "\<not> bit (fi_refresh_frame_flags fi) s" "holds enc (gs_coded st) (fi_rec_buffer (gs_coded_fi st)) s h"
    using that(3) b[OF that(1)] that(2) coded_ref_append[of enc "gs_coded st" _ "[(n, fi)]"] by (auto simp: holds_def e)
  have bok: "buffer_ok enc (gs_coded st') (fi_rec_buffer (gs_coded_fi st'))"
    unfolding buffer_ok_def
  proof (intro conjI allI impI)
    fix s assume s: "s < REF_FRAMES"
    obtain q where "fi_rec_buffer (gs_coded_fi st) ! s = Some q" "coded_ref enc (gs_coded st') q"
      using st s coded_ref_append[of enc "gs_coded st" _ "[(n, fi)]"] unfolding gop_ok_def buffer_ok_def e(2) by blast
    then show "\<exists>r'. fi_rec_buffer (gs_coded_fi st') ! s = Some r' \<and> coded_ref enc (gs_coded st') r'"
      using cr b s by (simp add: REF_FRAMES_def)
  qed (simp add: e update_rec_buffer_def Let_def)
  have "packet_ok enc start (gs_coded st') (fi_input_frameno fi, Some r)" using cr fi(3) by (simp add: packet_ok_def r_def)
  moreover have "fi_coded (gs_coded_fi st')" using fi(1) by (simp add: e update_rec_buffer_def Let_def)
  ultimately show "gop_ok enc q start len (if fi_show_frame fi then fi_order_hint fi + 1 else shown) st'"
    using st bok refs shown fi(3) packet_ok_append[of enc start "gs_coded st" "gs_packets st" "[(n, fi)]"]
    refs_ok_append[of enc "gs_coded st" q len _ "[(n, fi)]"]
    by (cases "gs_coded st") (auto simp: gop_ok_def e list_all_iff)
qed

section \<open>One frame, one group\<close>

lemma group_refs_less: "idx < 6 \<Longrightarrow> i < 7 \<Longrightarrow> group_refs k idx ! i < 8"
proof -
  assume i: "idx < 6" "i < 7"
  have m: "x mod 4 < (8 :: nat)" for x by (rule less_trans[of _ 4]) simp_all
  have b: "ref_behind k idx < 8" "ref_ahead k idx < 8" "group_slot k idx < 8"
    using less_6[OF i(1)] m by (auto simp: ref_behind_def ref_ahead_def group_slot_def)
  then show ?thesis using i(2) by (auto simp: group_refs_def nth_list_update)
qed

lemma group_refs_at:
  assumes "idx < 6" "\<not> group_shows idx"
  shows "group_refs k idx ! 0 = ref_behind k idx" and "group_level idx \<noteq> 0 \<Longrightarrow> group_refs k idx ! 6 = ref_ahead k idx"
  using less_6[OF assms(1)] assms(2) by (auto simp: group_refs_def group_level_def)

lemma planned_refs_ok:
  assumes idx: "idx < 6" "\<not> group_shows idx" and fi: "planned start prev k idx h fi" and h: "h = 4 * k + group_offset idx"
    and buf: "buffer_ok enc coded (fi_rec_buffer prev)"
    and behind: "holds enc coded (fi_rec_buffer prev) (ref_behind k idx) (h - drop_bit (group_level idx) 4)"
    and ahead: "0 < group_level idx \<Longrightarrow> h + drop_bit (group_level idx) 4 < len \<Longrightarrow>
      holds enc coded (fi_rec_buffer prev) (ref_ahead k idx) (h + drop_bit (group_level idx) 4)"
  shows "refs_ok enc coded 4 len fi"
proof -
  have f: "fi_ref_frames fi = group_refs k idx" "fi_rec_buffer fi = fi_rec_buffer prev" "fi_pyramid_level fi = group_level idx"
    "fi_order_hint fi = h"
    using fi by (simp_all add: planned_def)
  have all: "\<exists>h. ref_at enc coded fi r h" if "r \<in> set ALL_INTER_REFS" for r
  proof -
    have "ref_index r - 1 < 7" using that by (auto simp: ALL_INTER_REFS_def)
    then show ?thesis using buf group_refs_less[OF idx(1), of "ref_index r - 1" k] by (auto simp: ref_at_def ref_of_def f buffer_ok_def REF_FRAMES_def)
  qed
  have "drop_bit (group_level idx) 4 \<le> h"
    using less_6[OF idx(1)] h by (auto simp: group_level_def group_offset_def drop_bit_eq_div)
  moreover have "ref_at enc coded fi LAST_FRAME (h - drop_bit (group_level idx) 4)"
    using behind group_refs_at(1)[OF idx] by (auto simp: ref_at_def ref_of_def f holds_def)
  moreover have "ref_at enc coded fi ALTREF_FRAME (h + drop_bit (group_level idx) 4)"
    if "0 < group_level idx" "h + drop_bit (group_level idx) 4 < len"
    using ahead[OF that] group_refs_at(2)[OF idx] that(1) by (auto simp: ref_at_def ref_of_def f holds_def)
  ultimately show ?thesis using all by (simp add: refs_ok_def f)
qed

text \<open>A frame beyond the group of pictures is a placeholder.\<close>

lemma pyramid_skip:
  assumes "idx < 6" "h = 4 * k + group_offset idx" "h < 2 ^ 32" "gop_ok enc 4 start len shown st" "len \<le> h"
  shows "encode_output pyramid_config base start (start + len) er enc (6 * k + idx + 1) st = Inr st"
  unfolding encode_output_def
  using new_inter_frame_pyramid(1)[OF assms(1-3), of "gs_coded_fi st" "start + len" start er] assms(4,5) by (simp add: gop_ok_def encode_packet_def)

lemma pyramid_show:
  assumes idx: "idx < 6" "group_shows idx" and h: "h = 4 * k + group_offset idx" "h < 2 ^ 32" and st: "gop_ok enc 4 start len h st"
    and len: "h < len" and slot: "holds enc (gs_coded st) (fi_rec_buffer (gs_coded_fi st)) (group_slot k idx) h"
  shows "\<exists>st'. encode_output pyramid_config base start (start + len) er enc (6 * k + idx + 1) st = Inr st' \<and>
    gop_ok enc 4 start len (h + 1) st' \<and> gs_coded_fi st' = gs_coded_fi st \<and> gs_coded st' = gs_coded st \<and>
    gs_prev_input st' = start + h"
proof -
  obtain fi where fi: "new_inter_frame (gs_coded_fi st) pyramid_config start (6 * k + idx + 1) (start + len) er = Inr (Some fi)"
    "planned start (gs_coded_fi st) k idx h fi"
    using new_inter_frame_pyramid(2)[OF idx(1) h, of "gs_coded_fi st" "start + len" start er] st len by (auto simp: gop_ok_def)
  obtain r where r: "fi_rec_buffer (gs_coded_fi st) ! group_slot k idx = Some r" "coded_ref enc (gs_coded st) r" "rf_order_hint r = h"
    using slot by (auto simp: holds_def)
  show ?thesis
    using st fi idx(2) r by (simp add: encode_output_def encode_packet_def planned_def is_show_existing_frame_def gop_ok_def packet_ok_def)
qed

lemma pyramid_code:
  assumes idx: "idx < 6" "\<not> group_shows idx" and h: "h = 4 * k + group_offset idx" "h < 2 ^ 32" and st: "gop_ok enc 4 start len shown st"
    and len: "h < len" and shown: "2 \<le> idx \<Longrightarrow> shown = h"
    and behind: "holds enc (gs_coded st) (fi_rec_buffer (gs_coded_fi st)) (ref_behind k idx) (h - drop_bit (group_level idx) 4)"
    and ahead: "0 < group_level idx \<Longrightarrow> h + drop_bit (group_level idx) 4 < len \<Longrightarrow>
      holds enc (gs_coded st) (fi_rec_buffer (gs_coded_fi st)) (ref_ahead k idx) (h + drop_bit (group_level idx) 4)"
  shows "\<exists>st'. encode_output pyramid_config base start (start + len) er enc (6 * k + idx + 1) st = Inr st' \<and>
    gop_ok enc 4 start len (if 2 \<le> idx then h + 1 else shown) st' \<and>
    gs_prev_input st' = start + h \<and>
    holds enc (gs_coded st') (fi_rec_buffer (gs_coded_fi st')) (group_slot k idx) h \<and>
    (\<forall>s h'. s < 8 \<longrightarrow> s \<noteq> group_slot k idx \<longrightarrow> holds enc (gs_coded st) (fi_rec_buffer (gs_coded_fi st)) s h' \<longrightarrow>
      holds enc (gs_coded st') (fi_rec_buffer (gs_coded_fi st')) s h')"
proof -
  let ?n = "6 * k + idx + 1" and ?buf = "fi_rec_buffer (gs_coded_fi st)" and ?slot = "group_slot k idx"
  obtain fi where fi: "new_inter_frame (gs_coded_fi st) pyramid_config start ?n (start + len) er = Inr (Some fi)"
    "planned start (gs_coded_fi st) k idx h fi"
    using new_inter_frame_pyramid(2)[OF idx(1) h, of "gs_coded_fi st" "start + len" start er] st len by (auto simp: gop_ok_def)
  have refs: "refs_ok enc (gs_coded st) 4 len fi"
    using planned_refs_ok[OF idx fi(2) h(1) _ behind ahead] st unfolding gop_ok_def by blast
  have slot: "?slot < 8" using less_6[OF idx(1)] less_trans[of "(k + 1) mod 4" 4 8] by (auto simp: group_slot_def)
  have f: "fi_coded fi" "fi_rec_buffer fi = ?buf" "fi_input_frameno fi = start + fi_order_hint fi" "fi_order_hint fi = h"
      "fi_show_frame fi = (2 \<le> idx)" "fi_refresh_frame_flags fi = 2 ^ ?slot"
    using fi(2) idx(2) by (simp_all add: planned_def)
  have bits: "bit (fi_refresh_frame_flags fi) s \<longleftrightarrow> s = ?slot" for s unfolding f(6) by (auto simp: bit_simps)
  have sh: "fi_show_frame fi \<longrightarrow> shown = fi_order_hint fi" using shown by (simp add: f)
  define st' where "st' = encode_packet enc (base + ?n) (Some fi) st"
  note c = code_frame[OF st refs f(1-3) sh st'_def]
  have e: "encode_output pyramid_config base start (start + len) er enc ?n st = Inr st'"
    by (simp only: encode_output_def fi(1) bindR_simps st'_def)
  have "gs_prev_input st' = start + h" "gop_ok enc 4 start len (if 2 \<le> idx then h + 1 else shown) st'"
    using c(1,2) unfolding f(3-5) by simp_all
  moreover have "holds enc (gs_coded st') (fi_rec_buffer (gs_coded_fi st')) ?slot h" using c(3)[OF slot] bits by (simp add: f)
  moreover have "holds enc (gs_coded st') (fi_rec_buffer (gs_coded_fi st')) s h'"
    if "s < 8" "s \<noteq> ?slot" "holds enc (gs_coded st) ?buf s h'" for s h' using c(4)[OF that(1) _ that(3)] that(2) bits by blast
  ultimately show ?thesis using e by blast
qed

text \<open>After \<open>k\<close> groups: everything up to the base frame is shown, and it is in its slot.\<close>

definition group_inv :: "nat \<Rightarrow> (nat \<Rightarrow> 'f frame_invariants \<Rightarrow> 'f) \<Rightarrow> nat \<Rightarrow> nat \<Rightarrow> nat \<Rightarrow> 'f gop_state \<Rightarrow> bool" where
  "group_inv q enc start len k st \<longleftrightarrow>
     gop_ok enc q start len (min len (q * k + 1)) st
     \<and> gs_prev_input st = start + (min len (q * k + 1) - 1)
     \<and> (q * k < len \<longrightarrow> holds enc (gs_coded st) (fi_rec_buffer (gs_coded_fi st)) (k mod 4) (q * k))"

lemma slot_numbers: "(4 :: nat) < 8" "(5 :: nat) < 8" "(4 :: nat) \<noteq> 5"
  by simp_all

lemma pyramid_group:
  assumes st: "group_inv 4 enc start len k st" and len: "len < 2 ^ 32" and big: "4 * k + 4 < 2 ^ 32"
  shows "\<exists>st'. forR (encode_output pyramid_config base start (start + len) er enc) [6 * k + 1..<6 * k + 7] st = Inr st' \<and>
    group_inv 4 enc start len (k + 1) st'"
proof -
  let ?E = "encode_output pyramid_config base start (start + len) er enc"
  let ?H = "\<lambda>st s h. holds enc (gs_coded st) (fi_rec_buffer (gs_coded_fi st)) s h"
  let ?ok = "\<lambda>shown st. gop_ok enc 4 start len shown st"
  let ?okp = "\<lambda>shown st. gop_ok enc 4 start len shown st \<and> gs_prev_input st = start + (shown - 1)"
  note off = group_offset_def group_level_def group_slot_def group_shows_def ref_behind_def ref_ahead_def drop_bit_eq_div
  have k4: "k mod 4 < 8" "(k + 1) mod 4 < 8" "k mod 4 \<noteq> 4" "k mod 4 \<noteq> 5" "(k + 1) mod 4 \<noteq> 4" "(k + 1) mod 4 \<noteq> 5" "k mod 4 \<noteq> (k + 1) mod 4"
    by presburger+
  have sums: "2 + 4 * k = 4 * k + 2" "4 * k + 2 + 2 = 4 * k + 4" "4 * k + 1 + 1 = 4 * k + 2" "4 * k + 3 + 1 = 4 * k + 4" "4 * k + 2 + 1 = 4 * k + 3"
    "4 * k + 4 + 1 = 4 * (k + 1) + 1" by simp_all
  have pv: "Suc (start + 4 * k) = start + (4 * k + 1)" "start + (3 + 4 * k) = start + (4 * k + 3)" by simp_all
  have ix: "[6 * k + 1..<6 * k + 7] = [6 * k + 0 + 1, 6 * k + 1 + 1, 6 * k + 2 + 1, 6 * k + 3 + 1, 6 * k + 4 + 1, 6 * k + 5 + 1]"
    by (simp add: upt_conv_Cons eval_nat_numeral)
  have st0: "?ok (min len (4 * k + 1)) st" "gs_prev_input st = start + (min len (4 * k + 1) - 1)" "4 * k < len \<Longrightarrow> ?H st (k mod 4) (4 * k)" using st by (simp_all add: group_inv_def)
  have s1: "\<exists>st'. ?E (6 * k + 0 + 1) st = Inr st' \<and> ?ok (min len (4 * k + 1)) st' \<and>
      (4 * k + 4 < len \<longrightarrow> ?H st' ((k + 1) mod 4) (4 * k + 4)) \<and> (4 * k < len \<longrightarrow> ?H st' (k mod 4) (4 * k)) \<and>
      (len \<le> 4 * k + 1 \<longrightarrow> st' = st)"
  proof (cases "4 * k + 4 < len")
    case True
    then show ?thesis
      using pyramid_code[of 0 "4 * k + 4" k enc start len "min len (4 * k + 1)" st base er] st0 big k4 by (simp add: off sums del: add_2_eq_Suc add_2_eq_Suc' One_nat_def) (metis slot_numbers)
  next
    case False
    then show ?thesis using pyramid_skip[of 0 "4 * k + 4" k enc start len _ st base er] st0 big by (simp add: off)
  qed
  then obtain st1 where st1: "?E (6 * k + 0 + 1) st = Inr st1" "?ok (min len (4 * k + 1)) st1"
      "4 * k + 4 < len \<Longrightarrow> ?H st1 ((k + 1) mod 4) (4 * k + 4)" "4 * k < len \<Longrightarrow> ?H st1 (k mod 4) (4 * k)"
      "len \<le> 4 * k + 1 \<Longrightarrow> st1 = st" by blast
  have s2: "\<exists>st'. ?E (6 * k + 1 + 1) st1 = Inr st' \<and> ?ok (min len (4 * k + 1)) st' \<and>
      (4 * k + 4 < len \<longrightarrow> ?H st' ((k + 1) mod 4) (4 * k + 4)) \<and> (4 * k < len \<longrightarrow> ?H st' (k mod 4) (4 * k)) \<and>
      (4 * k + 2 < len \<longrightarrow> ?H st' 4 (4 * k + 2)) \<and> (len \<le> 4 * k + 1 \<longrightarrow> st' = st)"
  proof (cases "4 * k + 2 < len")
    case True
    then show ?thesis
      using pyramid_code[of 1 "4 * k + 2" k enc start len "min len (4 * k + 1)" st1 base er] st1 big k4 by (simp add: off sums del: add_2_eq_Suc add_2_eq_Suc' One_nat_def) (metis slot_numbers)
  next
    case False
    then show ?thesis using pyramid_skip[of 1 "4 * k + 2" k enc start len _ st1 base er] st1 big by (simp add: off)
  qed
  then obtain st2 where st2: "?E (6 * k + 1 + 1) st1 = Inr st2" "?ok (min len (4 * k + 1)) st2"
      "4 * k + 4 < len \<Longrightarrow> ?H st2 ((k + 1) mod 4) (4 * k + 4)" "4 * k < len \<Longrightarrow> ?H st2 (k mod 4) (4 * k)"
      "4 * k + 2 < len \<Longrightarrow> ?H st2 4 (4 * k + 2)" "len \<le> 4 * k + 1 \<Longrightarrow> st2 = st" by blast
  have s3: "\<exists>st'. ?E (6 * k + 2 + 1) st2 = Inr st' \<and> ?okp (min len (4 * k + 2)) st' \<and>
      (4 * k + 4 < len \<longrightarrow> ?H st' ((k + 1) mod 4) (4 * k + 4)) \<and> (4 * k + 2 < len \<longrightarrow> ?H st' 4 (4 * k + 2))"
  proof (cases "4 * k + 1 < len")
    case True
    have mn: "min len (4 * k + 1) = 4 * k + 1" "min len (4 * k + 2) = 4 * k + 2" using True by simp_all
    from True show ?thesis
      using pyramid_code[of 2 "4 * k + 1" k enc start len "4 * k + 1" st2 base er] st2 big k4 by (simp add: off mn sums del: add_2_eq_Suc add_2_eq_Suc' One_nat_def) (metis slot_numbers pv)
  next
    case False
    have mn: "min len (4 * k + 1) = len" "min len (4 * k + 2) = len" using False by simp_all
    from False show ?thesis using pyramid_skip[of 2 "4 * k + 1" k enc start len _ st2 base er] st2 st0(2) big by (simp add: off mn)
  qed
  then obtain st3 where st3: "?E (6 * k + 2 + 1) st2 = Inr st3" "?okp (min len (4 * k + 2)) st3"
      "4 * k + 4 < len \<Longrightarrow> ?H st3 ((k + 1) mod 4) (4 * k + 4)" "4 * k + 2 < len \<Longrightarrow> ?H st3 4 (4 * k + 2)" by blast
  have s4: "\<exists>st'. ?E (6 * k + 3 + 1) st3 = Inr st' \<and> ?okp (min len (4 * k + 3)) st' \<and>
      (4 * k + 4 < len \<longrightarrow> ?H st' ((k + 1) mod 4) (4 * k + 4)) \<and> (4 * k + 2 < len \<longrightarrow> ?H st' 4 (4 * k + 2))"
  proof (cases "4 * k + 2 < len")
    case True
    have mn: "min len (4 * k + 2) = 4 * k + 2" "min len (4 * k + 3) = 4 * k + 3" using True by simp_all
    from True show ?thesis
      using pyramid_show[of 3 "4 * k + 2" k enc start len st3 base er] st3 big by (simp add: off mn sums del: add_2_eq_Suc add_2_eq_Suc' One_nat_def) (metis slot_numbers pv)
  next
    case False
    have mn: "min len (4 * k + 2) = len" "min len (4 * k + 3) = len" using False by simp_all
    from False show ?thesis using pyramid_skip[of 3 "4 * k + 2" k enc start len _ st3 base er] st3 conjunct1[OF st3(2)] big by (auto simp: off mn)
  qed
  then obtain st4 where st4: "?E (6 * k + 3 + 1) st3 = Inr st4" "?okp (min len (4 * k + 3)) st4"
      "4 * k + 4 < len \<Longrightarrow> ?H st4 ((k + 1) mod 4) (4 * k + 4)" "4 * k + 2 < len \<Longrightarrow> ?H st4 4 (4 * k + 2)" by blast
  have s5: "\<exists>st'. ?E (6 * k + 4 + 1) st4 = Inr st' \<and> ?okp (min len (4 * k + 4)) st' \<and>
      (4 * k + 4 < len \<longrightarrow> ?H st' ((k + 1) mod 4) (4 * k + 4))"
  proof (cases "4 * k + 3 < len")
    case True
    have mn: "min len (4 * k + 3) = 4 * k + 3" "min len (4 * k + 4) = 4 * k + 4" using True by simp_all
    from True show ?thesis
      using pyramid_code[of 4 "4 * k + 3" k enc start len "4 * k + 3" st4 base er] st4 big k4 by (simp add: off mn sums del: add_2_eq_Suc add_2_eq_Suc' One_nat_def) (metis slot_numbers pv)
  next
    case False
    have mn: "min len (4 * k + 3) = len" "min len (4 * k + 4) = len" using False by simp_all
    from False show ?thesis using pyramid_skip[of 4 "4 * k + 3" k enc start len _ st4 base er] st4 conjunct1[OF st4(2)] big by (auto simp: off mn)
  qed
  then obtain st5 where st5: "?E (6 * k + 4 + 1) st4 = Inr st5" "?okp (min len (4 * k + 4)) st5"
      "4 * k + 4 < len \<Longrightarrow> ?H st5 ((k + 1) mod 4) (4 * k + 4)" by blast
  have s6: "\<exists>st'. ?E (6 * k + 5 + 1) st5 = Inr st' \<and> group_inv 4 enc start len (k + 1) st'"
  proof (cases "4 * k + 4 < len")
    case True
    have ok5: "?ok (4 * k + 4) st5" using conjunct1[OF st5(2)] True by (simp add: min_def)
    have h5: "?H st5 (group_slot k 5) (4 * k + 4)" using st5(3)[OF True] by (simp add: group_slot_def)
    obtain st6 where st6: "?E (6 * k + 5 + 1) st5 = Inr st6" "?ok (4 * k + 4 + 1) st6"
        "gs_coded_fi st6 = gs_coded_fi st5" "gs_coded st6 = gs_coded st5" "gs_prev_input st6 = start + (4 * k + 4)"
      using pyramid_show[OF _ _ _ big ok5 True h5, of base er] by (auto simp: off)
    have n: "4 * (k + 1) = 4 * k + 4" by simp
    have m: "min len (4 * k + 4 + 1) = 4 * k + 4 + 1" using True by simp
    have "group_inv 4 enc start len (k + 1) st6"
      unfolding group_inv_def n m st6(3,4) using st6(2,5) st5(3)[OF True] by simp
    then show ?thesis using st6(1) by blast
  next
    case False
    have mn: "min len (4 * k + 4) = len" "min len (4 * (k + 1) + 1) = len" using False by simp_all
    from False show ?thesis using pyramid_skip[of 5 "4 * k + 4" k enc start len _ st5 base er] st5 conjunct1[OF st5(2)] big by (auto simp: off mn group_inv_def)
  qed
  then show ?thesis unfolding ix using st1(1) st2(1) st3(1) st4(1) st5(1) by simp
qed

section \<open>Without reordering\<close>

definition low_latency_config :: "bool \<Rightarrow> nat \<Rightarrow> inter_config" where
  "low_latency_config multiref switch = \<lparr>ic_reorder = False, ic_multiref = multiref, ic_pyramid_depth = 0, ic_group_input_len = 1,
     ic_group_output_len = 1, ic_switch_frame_interval = switch\<rparr>"

lemma InterConfig_new_low_latency: "InterConfig_new True multiref switch = Inr (low_latency_config multiref switch)"
  by (simp add: InterConfig_new_def low_latency_config_def)

lemma low_latency_refs:
  "choose_ref_frames (low_latency_config m sw) 0 0 h (Suc k mod 4) =
    Inr (if m then (replicate 7 (k mod 4))[1 := (k + 3) mod 4] else replicate 7 (k mod 4))"
proof -
  have "x mod 256 mod 4 = x mod (4 :: nat)" for x by (rule mod_mod_cancel) simp
  moreover have "(Suc k mod 4 + 3) mod 4 = k mod 4" "(Suc k mod 4 + 2) mod 4 = (k + 3) mod 4"
    unfolding mod_add_left_eq by (simp_all add: add.commute)
  moreover have "x + 4 - 1 = x + 3" "x + 4 - 2 = x + 2" for x :: nat by simp_all
  ultimately show ?thesis
    by (simp only: choose_ref_frames_def Let_def) (simp add: to_index_def low_latency_config_def INTER_REFS_PER_FRAME_def)
qed

lemma low_latency_frame:
  assumes h: "k + 1 < 2 ^ 32" and prev: "fi_coded prev"
  shows "next \<le> start + (k + 1) \<Longrightarrow> new_inter_frame prev (low_latency_config m sw) start (k + 1) next er = Inr None"
    and "\<not> next \<le> start + (k + 1) \<Longrightarrow> \<exists>fi. new_inter_frame prev (low_latency_config m sw) start (k + 1) next er = Inr (Some fi) \<and>
      fi_coded fi \<and> fi_rec_buffer fi = fi_rec_buffer prev \<and> fi_input_frameno fi = start + fi_order_hint fi \<and> fi_order_hint fi = k + 1 \<and>
      fi_show_frame fi \<and> fi_pyramid_level fi = 0 \<and>
      fi_ref_frames fi = (if m then (replicate 7 (k mod 4))[1 := (k + 3) mod 4] else replicate 7 (k mod 4)) \<and>
      (fi_refresh_frame_flags fi = 2 ^ ((k + 1) mod 4) \<or> fi_refresh_frame_flags fi = 2 ^ 8 - 1)"
proof -
  let ?c = "low_latency_config m sw"
  have i: "get_idx_in_group_output ?c (k + 1) = Inr 0" by (simp add: get_idx_in_group_output_def low_latency_config_def)
  have o': "get_order_hint ?c (k + 1) 0 = Inr (k + 1)" using h by (simp add: get_order_hint_def low_latency_config_def)
  have n: "get_input_frameno ?c (k + 1) start = Inr (start + (k + 1))" by (simp only: get_input_frameno_def i o' bindR_simps) simp
  have l: "get_level ?c 0 = 0" "get_slot_idx ?c 0 (k + 1) = Suc k mod 4" "get_show_frame ?c 0" "\<not> get_show_existing_frame ?c 0"
    by (simp_all add: get_level_def get_slot_idx_def get_show_frame_def get_show_existing_frame_def low_latency_config_def and_3)
  show "new_inter_frame prev ?c start (k + 1) next er = Inr None" if "next \<le> start + (k + 1)"
    unfolding new_inter_frame_def n i o' bindR_simps using that by simp
  show "\<exists>fi. new_inter_frame prev ?c start (k + 1) next er = Inr (Some fi) \<and>
      fi_coded fi \<and> fi_rec_buffer fi = fi_rec_buffer prev \<and> fi_input_frameno fi = start + fi_order_hint fi \<and> fi_order_hint fi = k + 1 \<and>
      fi_show_frame fi \<and> fi_pyramid_level fi = 0 \<and>
      fi_ref_frames fi = (if m then (replicate 7 (k mod 4))[1 := (k + 3) mod 4] else replicate 7 (k mod 4)) \<and>
      (fi_refresh_frame_flags fi = 2 ^ ((k + 1) mod 4) \<or> fi_refresh_frame_flags fi = 2 ^ 8 - 1)" if "\<not> next \<le> start + (k + 1)"
    unfolding new_inter_frame_def n i o' bindR_simps Let_def l low_latency_refs
    using prev that l(3,4)
    by (simp add: set_ref_frame_sign_bias_def clone_without_coded_data_def push_bit_eq_mult ALL_REF_FRAMES_MASK_def REF_FRAMES_def)
qed

lemma low_latency_group:
  assumes st: "group_inv 1 enc start len k st" and big: "k + 1 < 2 ^ 32"
  shows "\<exists>st'. encode_output (low_latency_config m sw) base start (start + len) er enc (k + 1) st = Inr st' \<and>
    group_inv 1 enc start len (k + 1) st'"
proof (cases "k + 1 < len")
  case False
  have "min len (k + 1) = len" "min len (k + 1 + 1) = len" using False by simp_all
  moreover have "encode_output (low_latency_config m sw) base start (start + len) er enc (k + 1) st = Inr st"
    unfolding encode_output_def using low_latency_frame(1)[OF big, of "gs_coded_fi st" "start + len" start m sw er] st False
    by (simp add: encode_packet_def group_inv_def gop_ok_def)
  ultimately show ?thesis using st False by (simp add: group_inv_def)
next
  case True
  have mn: "min len (1 * k + 1) = k + 1" "min len (1 * (k + 1) + 1) = k + 1 + 1" using True by simp_all
  have ok: "gop_ok enc 1 start len (k + 1) st" "holds enc (gs_coded st) (fi_rec_buffer (gs_coded_fi st)) (k mod 4) k"
    using st True unfolding group_inv_def mn by simp_all
  obtain fi where fi: "new_inter_frame (gs_coded_fi st) (low_latency_config m sw) start (k + 1) (start + len) er = Inr (Some fi)"
      "fi_coded fi" "fi_rec_buffer fi = fi_rec_buffer (gs_coded_fi st)" "fi_input_frameno fi = start + fi_order_hint fi" "fi_order_hint fi = k + 1"
      "fi_show_frame fi" "fi_pyramid_level fi = 0"
      "fi_ref_frames fi = (if m then (replicate 7 (k mod 4))[1 := (k + 3) mod 4] else replicate 7 (k mod 4))"
      "fi_refresh_frame_flags fi = 2 ^ ((k + 1) mod 4) \<or> fi_refresh_frame_flags fi = 2 ^ 8 - 1"
    using low_latency_frame(2)[OF big, of "gs_coded_fi st" "start + len" start m sw er] True ok(1) unfolding gop_ok_def by auto
  have m8: "x mod 4 < (8 :: nat)" for x by (rule less_trans[of _ 4]) simp_all
  have "\<exists>h. ref_at enc (gs_coded st) fi r h" if "r \<in> set ALL_INTER_REFS" for r
  proof -
    have "ref_index r - 1 < 7" using that by (auto simp: ALL_INTER_REFS_def)
    then have "fi_ref_frames fi ! (ref_index r - 1) < 8" using m8 by (auto simp: fi(8) nth_list_update)
    then show ?thesis using ok(1) by (auto simp: ref_at_def ref_of_def fi(3) gop_ok_def buffer_ok_def REF_FRAMES_def)
  qed
  then have refs: "refs_ok enc (gs_coded st) 1 len fi" using ok(2) by (auto simp: refs_ok_def ref_at_def ref_of_def fi(3,5,7,8) holds_def)
  define st' where "st' = encode_packet enc (base + (k + 1)) (Some fi) st"
  have sh: "fi_show_frame fi \<longrightarrow> k + 1 = fi_order_hint fi" by (simp add: fi)
  have "bit (fi_refresh_frame_flags fi) ((k + 1) mod 4)"
  proof -
    have "bit (mask 8 :: nat) ((k + 1) mod 4)" unfolding bit_mask_iff using m8 by simp
    then have "bit (2 ^ 8 - 1 :: nat) ((k + 1) mod 4)" unfolding mask_eq_exp_minus_1 .
    then show ?thesis using fi(9) by (auto simp: bit_simps simp del: One_nat_def)
  qed
  then have "group_inv 1 enc start len (k + 1) st'"
    using code_frame[OF ok(1) refs fi(2-4) sh st'_def] fi(4-6) m8 unfolding group_inv_def mn by simp
  then show ?thesis using fi(1) by (simp add: encode_output_def st'_def)
qed

section \<open>A whole group of pictures\<close>

text \<open>The key frame fills every slot.\<close>

lemma key_output_inv:
  fixes enc :: "nat \<Rightarrow> 'f frame_invariants \<Rightarrow> 'f"
  assumes fi: "fi = new_key_frame sequence width height differs split_tx rdo start" and len: "0 < len"
    and st: "gs_coded st = []" "gs_packets st = []"
  shows "gop_ok enc d start len 1 (encode_packet enc base (Some fi) st)"
    and "s < 8 \<Longrightarrow> holds enc (gs_coded (encode_packet enc base (Some fi) st)) (fi_rec_buffer (gs_coded_fi (encode_packet enc base (Some fi) st))) s 0"
proof -
  have f: "fi_refresh_frame_flags fi = 2 ^ 8 - 1" "fi_coded fi" "fi_order_hint fi = 0" "fi_input_frameno fi = start" "fi_show_frame fi" "fi_frame_type fi = KEY"
    by (simp_all add: fi new_key_frame_def FrameInvariants_new_def ALL_REF_FRAMES_MASK_def REF_FRAMES_def)
  have b: "bit (255 :: nat) s" if "s < 8" for s
  proof -
    have "(255 :: nat) = mask 8" by (simp add: mask_eq_exp_minus_1)
    then show ?thesis using that by (simp only: bit_mask_iff) simp
  qed
  show "gop_ok enc d start len 1 (encode_packet enc base (Some fi) st)"
    using f b st by (auto simp: gop_ok_def encode_packet_def is_show_existing_frame_def Let_def update_rec_buffer_def buffer_ok_def REF_FRAMES_def packet_ok_def coded_ref_def)
  show "holds enc (gs_coded (encode_packet enc base (Some fi) st)) (fi_rec_buffer (gs_coded_fi (encode_packet enc base (Some fi) st))) s 0" if "s < 8"
    using f b[OF that] that st by (simp add: holds_def encode_packet_def is_show_existing_frame_def Let_def update_rec_buffer_def REF_FRAMES_def coded_ref_def)
qed

lemma key_group_inv:
  assumes fi: "fi = new_key_frame sequence width height differs split_tx rdo start" and len: "0 < len"
    and st: "gs_coded st = []" "gs_packets st = []"
  shows "group_inv q enc start len 0 (encode_packet enc base (Some fi) st)"
proof -
  have "min len (Suc 0) = 1" using len by simp
  then show ?thesis
    using key_output_inv(1)[OF fi len st, where enc = enc and d = q] key_output_inv(2)[OF fi len st, where enc = enc and s = 0]
    by (simp add: group_inv_def encode_packet_def fi Let_def new_key_frame_def)
qed

section \<open>What was coded before does not matter\<close>

definition add_past :: "(nat \<times> 'f frame_invariants) list \<Rightarrow> (nat \<times> 'f reference_frame option) list \<Rightarrow> 'f gop_state \<Rightarrow> 'f gop_state" where
  "add_past cs ps st = st\<lparr>gs_coded := cs @ gs_coded st, gs_packets := ps @ gs_packets st\<rparr>"

lemma add_past_fields [simp]:
  "gs_coded_fi (add_past cs ps st) = gs_coded_fi st" "gs_prev_input (add_past cs ps st) = gs_prev_input st"
  "gs_coded (add_past cs ps st) = cs @ gs_coded st" "gs_packets (add_past cs ps st) = ps @ gs_packets st"
  by (simp_all add: add_past_def)

lemma encode_packet_past: "encode_packet enc n r (add_past cs ps st) = add_past cs ps (encode_packet enc n r st)"
  by (cases r) (simp_all add: encode_packet_def add_past_def Let_def)

end
