(* ===== verification/Av1_Api.thy ===== *)
theory Av1_Api
  imports Av1_ReorderLaws
begin

text \<open>
  The queue of \<open>ContextInner\<close> in \<open>src/src/api/internal.rs\<close>: where a group of pictures
  ends, which frame every output number codes, and what the outputs of a whole
  input are. The input is queued and flushed, and the places of the key frames
  (scene cuts and forced ones) are known: \<open>api_env\<close> holds what does not change
  from then on. \<open>BTreeMap\<close> and \<open>BTreeSet\<close> are maps and ascending lists.
\<close>

section \<open>Numbering the outputs\<close>

datatype encoder_status = NeedMoreData | EnoughData | LimitReached | Encoded | Failure | NotReady

record 'i api_env =
  en_inter_cfg :: inter_config
  en_sequence :: frame_sequence
  en_width :: nat
  en_height :: nat
  en_render_differs :: bool
  en_enable_inter_tx_split :: bool
  en_rdo_tx_decision :: bool
  en_error_resilient :: bool
  en_max_key_frame_interval :: nat
  en_limit :: "nat option"
  en_keyframes :: "nat list"
  en_frame_q :: "(nat \<times> 'i option) list"

record 'f api_state =
  as_gop :: "'f gop_state"
  as_gop_output_start :: "nat \<rightharpoonup> nat"
  as_gop_input_start :: "nat \<rightharpoonup> nat"

definition fetch :: "(nat \<rightharpoonup> 'a) \<Rightarrow> nat \<Rightarrow> 'a result" where
  "fetch m k = (case m k of Some v \<Rightarrow> Inr v | None \<Rightarrow> Inl Fault)"

definition needs_more_frames :: "'i api_env \<Rightarrow> nat \<Rightarrow> bool" where
  "needs_more_frames self frame_count = (case en_limit self of Some limit \<Rightarrow> frame_count < limit | None \<Rightarrow> True)"

definition needs_more_frame_q_lookahead :: "'i api_env \<Rightarrow> nat \<Rightarrow> bool" where
  "needs_more_frame_q_lookahead self input_frameno =
     (let lookahead_end = (if en_frame_q self = [] then 0 else fst (last (en_frame_q self)));
          frames_needed = input_frameno + keyframe_lookahead_distance (en_inter_cfg self) + 1
      in lookahead_end < frames_needed \<and> needs_more_frames self lookahead_end)"

definition next_keyframe_input_frameno :: "'i api_env \<Rightarrow> nat \<Rightarrow> bool \<Rightarrow> nat" where
  "next_keyframe_input_frameno self gop_input_frameno_start ignore_limit =
     (let next_detected = find (\<lambda>input_frameno. input_frameno > gop_input_frameno_start) (en_keyframes self);
          next_limit = gop_input_frameno_start + en_max_key_frame_interval self;
          next_limit = (case en_limit self of Some l \<Rightarrow> if \<not> ignore_limit then min next_limit l else next_limit | None \<Rightarrow> next_limit)
      in case next_detected of None \<Rightarrow> next_limit | Some d \<Rightarrow> min d next_limit)"

definition frame_queued :: "'i api_env \<Rightarrow> nat \<Rightarrow> bool" where
  "frame_queued self input_frameno \<longleftrightarrow> (\<exists>frame. map_of (en_frame_q self) input_frameno = Some (Some frame))"

lemma frame_queued_code [code]:
  "frame_queued self n = (case map_of (en_frame_q self) n of Some (Some _) \<Rightarrow> True | _ \<Rightarrow> False)"
  by (auto simp: frame_queued_def split: option.splits)

text \<open>
  The two halves of \<open>build_frame_properties\<close>: the input number and the start of
  the group of pictures, then the frame. The result is a status or the frame (or
  placeholder), with the two maps of starts.
\<close>

type_synonym 'f properties = "(encoder_status + 'f frame_invariants option) \<times> (nat \<rightharpoonup> nat) \<times> (nat \<rightharpoonup> nat)"

definition build_frame :: "'i api_env \<Rightarrow> 'f gop_state \<Rightarrow> nat \<Rightarrow> nat \<Rightarrow> (nat \<rightharpoonup> nat) \<Rightarrow> (nat \<rightharpoonup> nat) \<Rightarrow> 'f properties result" where
  "build_frame self g output_frameno input_frameno outs ins =
     (if \<not> frame_queued self input_frameno then Inr (Inl NeedMoreData, outs, ins)
      else
        let key = input_frameno \<in> set (en_keyframes self);
            outs = (if key then outs(output_frameno \<mapsto> output_frameno) else outs);
            ins = (if key then ins(output_frameno \<mapsto> input_frameno) else ins) in
        bindR (fetch outs output_frameno) (\<lambda>out_start.
        bindR (fetch ins output_frameno) (\<lambda>in_start.
        if output_frameno < out_start then Inl Fault
        else if output_frameno - out_start = 0 then
          Inr (Inr (Some (new_key_frame (en_sequence self) (en_width self) (en_height self) (en_render_differs self)
            (en_enable_inter_tx_split self) (en_rdo_tx_decision self) in_start)), outs, ins)
        else
          bindR (new_inter_frame (gs_coded_fi g) (en_inter_cfg self) in_start (output_frameno - out_start)
            (next_keyframe_input_frameno self in_start False) (en_error_resilient self)) (\<lambda>fi.
          if fi = None then Inl Fault else Inr (Inr fi, outs, ins)))))"

definition build_frame_properties :: "'i api_env \<Rightarrow> 'f api_state \<Rightarrow> nat \<Rightarrow> 'f properties result" where
  "build_frame_properties self st output_frameno =
     bindR (if output_frameno = 0 then Inr 0 else fetch (as_gop_output_start st) (output_frameno - 1)) (\<lambda>out_start.
     bindR (if output_frameno = 0 then Inr 0 else fetch (as_gop_input_start st) (output_frameno - 1)) (\<lambda>in_start.
     let cfg = en_inter_cfg self; g = as_gop st;
         outs = (as_gop_output_start st)(output_frameno \<mapsto> out_start);
         ins = (as_gop_input_start st)(output_frameno \<mapsto> in_start);
         in_gop = output_frameno - out_start in
     if output_frameno < out_start then Inl Fault
     else
       bindR (get_input_frameno cfg in_gop in_start) (\<lambda>input_frameno.
       if needs_more_frame_q_lookahead self input_frameno then Inr (Inl NeedMoreData, outs, ins)
       else
         let next_keyframe = next_keyframe_input_frameno self in_start False in
         if in_gop > 0 \<and> input_frameno \<ge> next_keyframe then
           if \<not> ic_reorder cfg \<or> (in_gop - 1) mod ic_group_output_len cfg = 0 \<and> gs_prev_input g + 1 = next_keyframe then
             if \<not> frame_queued self next_keyframe then Inr (Inl NeedMoreData, outs, ins)
             else build_frame self g output_frameno next_keyframe (outs(output_frameno \<mapsto> output_frameno)) (ins(output_frameno \<mapsto> next_keyframe))
           else
             bindR (new_inter_frame (gs_coded_fi g) cfg in_start in_gop next_keyframe (en_error_resilient self)) (\<lambda>fi.
             if fi \<noteq> None then Inl Fault else Inr (Inr fi, outs, ins))
         else build_frame self g output_frameno input_frameno outs ins)))"

section \<open>All outputs\<close>

text \<open>
  \<open>set_frame_properties\<close> demands the picture of the frame; then the frame is coded.
  A status other than success ends the run.
\<close>

definition api_step :: "'i api_env \<Rightarrow> (nat \<Rightarrow> 'f frame_invariants \<Rightarrow> 'f) \<Rightarrow> nat \<Rightarrow> 'f api_state \<Rightarrow> (encoder_status option \<times> 'f api_state) result" where
  "api_step self encode_frame n st =
     bindR (build_frame_properties self st n) (\<lambda>(r, outs, ins).
     case r of
       Inl e \<Rightarrow> Inr (Some e, st\<lparr>as_gop_output_start := outs, as_gop_input_start := ins\<rparr>)
     | Inr fi \<Rightarrow>
         if (case fi of Some fi \<Rightarrow> \<not> frame_queued self (fi_input_frameno fi) | None \<Rightarrow> False) then Inl Fault
         else Inr (None, \<lparr>as_gop = encode_packet encode_frame n fi (as_gop st), as_gop_output_start = outs, as_gop_input_start = ins\<rparr>))"

primrec api_run :: "'i api_env \<Rightarrow> (nat \<Rightarrow> 'f frame_invariants \<Rightarrow> 'f) \<Rightarrow> nat \<Rightarrow> nat \<Rightarrow> 'f api_state \<Rightarrow> (encoder_status option \<times> 'f api_state) result" where
  "api_run self encode_frame 0 n st = Inr (None, st)"
| "api_run self encode_frame (Suc fuel) n st =
     bindR (api_step self encode_frame n st) (\<lambda>(e, st'). if e = None then api_run self encode_frame fuel (n + 1) st' else Inr (e, st'))"

end
