(* ===== verification/Av1_ApiLaws.thy ===== *)
theory Av1_ApiLaws
  imports Av1_Api
begin

text \<open>
  From groups to a whole input: the locale \<open>group_scheme\<close> is what the queue needs
  of a configuration (the number of a frame of a group, and that a group keeps
  \<open>group_inv\<close>); it is interpreted on the two configurations of \<open>InterConfig\<close>.
  \<open>at_boundary\<close> is the state in which the next output starts a group of pictures.
\<close>

section \<open>The queue\<close>

definition queue_ok :: "'i api_env \<Rightarrow> nat \<Rightarrow> bool" where
  "queue_ok env L \<longleftrightarrow> en_limit env = Some L \<and> 0 < L \<and> L < 2 ^ 31 \<and> 0 < en_max_key_frame_interval env
     \<and> sorted (en_keyframes env) \<and> (\<exists>frames. en_frame_q env = map (\<lambda>n. (n, Some (frames n))) [0..<L] @ [(L, None)])"

lemma queue_lookahead: "queue_ok env L \<Longrightarrow> \<not> needs_more_frame_q_lookahead env n"
  by (auto simp: queue_ok_def needs_more_frame_q_lookahead_def needs_more_frames_def Let_def)

lemma queue_frames:
  assumes "queue_ok env L"
  shows "frame_queued env n \<longleftrightarrow> n < L"
proof -
  obtain frames where q: "en_frame_q env = map (\<lambda>n. (n, Some (frames n))) [0..<L] @ [(L, None)]" using assms by (auto simp: queue_ok_def)
  have "map_of (en_frame_q env) n = (if n < L then Some (Some (frames n)) else if n = L then Some None else None)"
    unfolding q map_of_append by (auto simp: map_add_def map_of_map_restrict restrict_map_def split: option.splits)
  then show ?thesis by (simp add: frame_queued_def)
qed

lemma next_keyframe_ok:
  assumes env: "queue_ok env L" and s: "s < L"
  shows "s < next_keyframe_input_frameno env s False" "next_keyframe_input_frameno env s False \<le> L"
    and "s < i \<Longrightarrow> i < next_keyframe_input_frameno env s False \<Longrightarrow> i \<notin> set (en_keyframes env)"
proof -
  let ?f = "find (\<lambda>i. s < i) (en_keyframes env)"
  have f: "\<forall>i\<in>set (en_keyframes env). \<not> s < i" if "?f = None" using that by (simp add: find_None_iff)
  have g: "s < d \<and> (\<forall>i\<in>set (en_keyframes env). s < i \<longrightarrow> d \<le> i)" if d: "?f = Some d" for d
  proof -
    obtain k where k: "k < length (en_keyframes env)" "s < en_keyframes env ! k" "d = en_keyframes env ! k" "\<forall>j<k. \<not> s < en_keyframes env ! j"
      using d by (auto simp: find_Some_iff)
    have "d \<le> en_keyframes env ! j" if "j < length (en_keyframes env)" "s < en_keyframes env ! j" for j
    proof -
      have "k \<le> j" using k(4) that(2) not_le by blast
      then show ?thesis using env that(1) k(3) by (auto simp: queue_ok_def intro: sorted_nth_mono)
    qed
    then show ?thesis using k by (auto simp: in_set_conv_nth)
  qed
  have e: "next_keyframe_input_frameno env s False =
      (let m = min (s + en_max_key_frame_interval env) L in case ?f of None \<Rightarrow> m | Some d \<Rightarrow> min d m)"
    using env by (simp add: next_keyframe_input_frameno_def queue_ok_def Let_def)
  show "s < next_keyframe_input_frameno env s False"
    using g s env unfolding e by (cases ?f) (auto simp: queue_ok_def Let_def)
  show "next_keyframe_input_frameno env s False \<le> L" unfolding e by (cases ?f) (auto simp: Let_def)
  show "i \<notin> set (en_keyframes env)" if "s < i" "i < next_keyframe_input_frameno env s False"
    using f g that unfolding e by (cases ?f) (auto simp: Let_def)
qed

section \<open>One output\<close>

lemma new_inter_frame_input:
  assumes "new_inter_frame prev cfg start n next er = Inr r" "get_input_frameno cfg n start = Inr i"
  shows "r = None \<longleftrightarrow> next \<le> i" "r = Some fi \<Longrightarrow> fi_input_frameno fi = i"
proof -
  have "(r = None \<longleftrightarrow> next \<le> i) \<and> (\<forall>fi. r = Some fi \<longrightarrow> fi_input_frameno fi = i)"
  proof (cases "next \<le> i")
    case True
    then show ?thesis using assms(1) unfolding new_inter_frame_def assms(2) bindR_simps by auto
  next
    case False
    then obtain idx h where "get_idx_in_group_output cfg n = Inr idx" "get_order_hint cfg n idx = Inr h"
      using assms(1) unfolding new_inter_frame_def assms(2) bindR_simps if_not_P[OF False] bindR_eq_Inr_iff by blast
    with False show ?thesis
      using assms(1) unfolding new_inter_frame_def assms(2) bindR_simps Let_def
      by (auto simp: bindR_def set_ref_frame_sign_bias_def split: sum.splits)
  qed
  then show "r = None \<longleftrightarrow> next \<le> i" "r = Some fi \<Longrightarrow> fi_input_frameno fi = i" by simp_all
qed

lemma build_frame_properties_at:
  assumes la: "queue_ok env L" and n: "0 < j" "n = base + j"
    and st: "as_gop_output_start st (n - 1) = Some base" "as_gop_input_start st (n - 1) = Some start"
    and i: "get_input_frameno (en_inter_cfg env) j start = Inr i" and s: "s = next_keyframe_input_frameno env start False"
  shows "build_frame_properties env st n =
    (let outs = (as_gop_output_start st)(n \<mapsto> base); ins = (as_gop_input_start st)(n \<mapsto> start); g = as_gop st in
     if s \<le> i then
       if \<not> ic_reorder (en_inter_cfg env) \<or> (j - 1) mod ic_group_output_len (en_inter_cfg env) = 0 \<and> gs_prev_input g + 1 = s then
         if \<not> frame_queued env s then Inr (Inl NeedMoreData, outs, ins)
         else build_frame env g n s (outs(n \<mapsto> n)) (ins(n \<mapsto> s))
       else bindR (new_inter_frame (gs_coded_fi g) (en_inter_cfg env) start j s (en_error_resilient env)) (\<lambda>fi.
         if fi \<noteq> None then Inl Fault else Inr (Inr fi, outs, ins))
     else build_frame env g n i outs ins)"
proof -
  have m: "n \<noteq> 0" "n - base = j" "\<not> n < base" using n by simp_all
  have f: "(if n = 0 then Inr 0 else fetch (as_gop_output_start st) (n - 1)) = Inr base"
      "(if n = 0 then Inr 0 else fetch (as_gop_input_start st) (n - 1)) = Inr start" using m(1) st by (simp_all add: fetch_def)
  show ?thesis
    unfolding build_frame_properties_def f bindR_simps Let_def m(2) i s
    using m(3) n(1) queue_lookahead[OF la, of i] by simp
qed

text \<open>An output inside a group of pictures.\<close>

lemma step_inside:
  assumes env: "queue_ok env L" and start: "start < L" "next = next_keyframe_input_frameno env start False"
    and j: "0 < j" "n = base + j" and st: "as_gop_output_start st (n - 1) = Some base" "as_gop_input_start st (n - 1) = Some start"
    and frame: "new_inter_frame (gs_coded_fi (as_gop st)) (en_inter_cfg env) start j next (en_error_resilient env) = Inr r"
    and i: "get_input_frameno (en_inter_cfg env) j start = Inr i" "start < i"
    and stay: "next \<le> i \<Longrightarrow> ic_reorder (en_inter_cfg env) \<and>
      \<not> ((j - 1) mod ic_group_output_len (en_inter_cfg env) = 0 \<and> gs_prev_input (as_gop st) + 1 = next)"
  shows "api_step env enc n st = Inr (None, \<lparr>as_gop = encode_packet enc n r (as_gop st),
    as_gop_output_start = (as_gop_output_start st)(n \<mapsto> base), as_gop_input_start = (as_gop_input_start st)(n \<mapsto> start)\<rparr>)"
proof -
  have n: "n \<noteq> 0" "n - base = j" "\<not> n < base" using j by simp_all
  note ri = new_inter_frame_input[OF frame i(1)]
  note at = build_frame_properties_at[OF env j st i(1) start(2)]
  let ?p = "Inr (Inr r, (as_gop_output_start st)(n \<mapsto> base), (as_gop_input_start st)(n \<mapsto> start))"
  have "build_frame_properties env st n = ?p"
  proof (cases "next \<le> i")
    case True
    have rn: "r = None" using ri(1) True by simp
    have no: "\<not> (\<not> ic_reorder (en_inter_cfg env) \<or> (j - 1) mod ic_group_output_len (en_inter_cfg env) = 0 \<and> gs_prev_input (as_gop st) + 1 = next)"
      using stay[OF True] by simp
    show ?thesis unfolding at Let_def if_not_P[OF no] if_P[OF True] frame bindR_simps rn by simp
  next
    case False
    have lt: "i < L" using next_keyframe_ok(2)[OF env start(1)] False start(2) by simp
    have nk: "i \<notin> set (en_keyframes env)" using next_keyframe_ok(3)[OF env start(1) i(2)] False start(2) by simp
    have rs: "r \<noteq> None" using ri(1) False by simp
    have "build_frame env (as_gop st) n i ((as_gop_output_start st)(n \<mapsto> base)) ((as_gop_input_start st)(n \<mapsto> start)) = ?p"
      unfolding build_frame_def Let_def using queue_frames[OF env, of i] lt nk n j(1) frame rs by (simp add: fetch_def start(2)[symmetric])
    then show ?thesis unfolding at Let_def using False by simp
  qed
  moreover have "\<not> (case r of Some fi \<Rightarrow> \<not> frame_queued env (fi_input_frameno fi) | None \<Rightarrow> False)"
  proof (cases r)
    case (Some fi)
    then have "fi_input_frameno fi = i" "i < next" using ri(1) ri(2)[of fi] by simp_all
    then show ?thesis using Some queue_frames[OF env] next_keyframe_ok(2)[OF env start(1)] start(2) by simp
  qed simp
  ultimately show ?thesis by (simp add: api_step_def)
qed

text \<open>The output that starts a group of pictures, or ends the run.\<close>

definition at_boundary :: "'i api_env \<Rightarrow> 'f api_state \<Rightarrow> nat \<Rightarrow> nat \<Rightarrow> nat \<Rightarrow> bool" where
  "at_boundary env st L n s \<longleftrightarrow> n = 0 \<and> s = 0 \<or>
     (\<exists>base j start i. 0 < j \<and> n = base + j \<and> as_gop_output_start st (n - 1) = Some base \<and> as_gop_input_start st (n - 1) = Some start \<and>
       start < L \<and> s = next_keyframe_input_frameno env start False \<and> get_input_frameno (en_inter_cfg env) j start = Inr i \<and> s \<le> i \<and>
       (\<not> ic_reorder (en_inter_cfg env) \<or> (j - 1) mod ic_group_output_len (en_inter_cfg env) = 0 \<and> gs_prev_input (as_gop st) + 1 = s))"

lemma at_boundaryD:
  assumes "at_boundary env st L n s" "\<not> (n = 0 \<and> s = 0)"
  shows "\<exists>base j start i. 0 < j \<and> n = base + j \<and> as_gop_output_start st (n - 1) = Some base \<and> as_gop_input_start st (n - 1) = Some start \<and>
       start < L \<and> s = next_keyframe_input_frameno env start False \<and> get_input_frameno (en_inter_cfg env) j start = Inr i \<and> s \<le> i \<and>
       (\<not> ic_reorder (en_inter_cfg env) \<or> (j - 1) mod ic_group_output_len (en_inter_cfg env) = 0 \<and> gs_prev_input (as_gop st) + 1 = s)"
  using assms(1) assms(2) unfolding at_boundary_def by (elim disjE) simp_all

definition key_of :: "'i api_env \<Rightarrow> nat \<Rightarrow> 'f frame_invariants" where
  "key_of env s = new_key_frame (en_sequence env) (en_width env) (en_height env) (en_render_differs env)
     (en_enable_inter_tx_split env) (en_rdo_tx_decision env) s"

lemma key_of_input [simp]: "fi_input_frameno (key_of env s) = s"
  by (simp add: key_of_def new_key_frame_def)

lemma build_frame_key:
  assumes env: "queue_ok env L" and s: "s < L" and m: "outs n = Some n" "ins n = Some s"
  shows "build_frame env g n s outs ins = Inr (Inr (Some (key_of env s)), outs, ins)"
proof -
  have "outs(n \<mapsto> n) = outs" "ins(n \<mapsto> s) = ins" using m by (simp_all add: map_upd_triv)
  then show ?thesis using queue_frames[OF env, of s] s m by (simp add: build_frame_def Let_def fetch_def key_of_def)
qed

lemma step_boundary:
  assumes env: "queue_ok env L" and b: "at_boundary env st L n s" and s: "s < L"
  shows "\<exists>st'. api_step env enc n st = Inr (None, st') \<and> as_gop st' = encode_packet enc n (Some (key_of env s)) (as_gop st) \<and>
    as_gop_output_start st' n = Some n \<and> as_gop_input_start st' n = Some s"
proof -
  have "\<exists>outs ins. build_frame_properties env st n = Inr (Inr (Some (key_of env s)), outs, ins) \<and> outs n = Some n \<and> ins n = Some s"
  proof (cases "n = 0 \<and> s = 0")
    case True
    then show ?thesis
      using build_frame_key[OF env s, of "(as_gop_output_start st)(n \<mapsto> 0)" n "(as_gop_input_start st)(n \<mapsto> 0)" "as_gop st"] queue_lookahead[OF env]
      by (auto simp: build_frame_properties_def Let_def get_input_frameno_def)
  next
    case False
    then obtain base j start i where j: "0 < j" "n = base + j" and st: "as_gop_output_start st (n - 1) = Some base" "as_gop_input_start st (n - 1) = Some start"
        and i: "s = next_keyframe_input_frameno env start False" "get_input_frameno (en_inter_cfg env) j start = Inr i" "s \<le> i"
        and go: "\<not> ic_reorder (en_inter_cfg env) \<or> (j - 1) mod ic_group_output_len (en_inter_cfg env) = 0 \<and> gs_prev_input (as_gop st) + 1 = s"
      using at_boundaryD[OF b False] by metis
    show ?thesis
      unfolding build_frame_properties_at[OF env j st i(2,1)] Let_def
      using build_frame_key[OF env s, of "(as_gop_output_start st)(n \<mapsto> base, n \<mapsto> n)" n "(as_gop_input_start st)(n \<mapsto> start, n \<mapsto> s)" "as_gop st"]
        queue_frames[OF env, of s] s i(3) go by simp
  qed
  then show ?thesis using queue_frames[OF env, of s] s by (auto simp: api_step_def)
qed

lemma step_end:
  assumes env: "queue_ok env L" and b: "at_boundary env st L n L"
  shows "\<exists>st'. api_step env enc n st = Inr (Some NeedMoreData, st') \<and> as_gop st' = as_gop st"
proof -
  have L: "L \<noteq> 0" using env by (simp add: queue_ok_def)
  then have "\<not> (n = 0 \<and> L = 0)" by simp
  then obtain base j start i where j: "0 < j" "n = base + j" and st: "as_gop_output_start st (n - 1) = Some base" "as_gop_input_start st (n - 1) = Some start"
      and i: "L = next_keyframe_input_frameno env start False" "get_input_frameno (en_inter_cfg env) j start = Inr i" "L \<le> i"
      and go: "\<not> ic_reorder (en_inter_cfg env) \<or> (j - 1) mod ic_group_output_len (en_inter_cfg env) = 0 \<and> gs_prev_input (as_gop st) + 1 = L"
    using at_boundaryD[OF b] by metis
  have "\<exists>outs ins. build_frame_properties env st n = Inr (Inl NeedMoreData, outs, ins)"
    unfolding build_frame_properties_at[OF env j st i(2,1)] Let_def using queue_frames[OF env, of L] i(3) go by simp
  then show ?thesis by (auto simp: api_step_def)
qed

end
