(* ===== verification/Av1_ApiRun.thy ===== *)
theory Av1_ApiRun
  imports Av1_ApiLaws
begin

text \<open>
  A run over a whole input: group after group, group of pictures after group of
  pictures.
\<close>

section \<open>What a run promises\<close>

text \<open>A packet shows the reconstruction of a coded frame of its own input number.\<close>

definition shows_input :: "(nat \<Rightarrow> 'f frame_invariants \<Rightarrow> 'f) \<Rightarrow> (nat \<times> 'f frame_invariants) list \<Rightarrow> nat \<times> 'f reference_frame option \<Rightarrow> bool" where
  "shows_input enc coded p \<longleftrightarrow>
     (\<exists>r fi. snd p = Some r \<and> (rf_output_frameno r, fi) \<in> set coded \<and> rf_frame r = enc (rf_output_frameno r) fi \<and> fi_input_frameno fi = fst p)"

text \<open>A frame's reference of a name is the reconstruction of the coded frame of an input number.\<close>

definition predicts_from :: "(nat \<Rightarrow> 'f frame_invariants \<Rightarrow> 'f) \<Rightarrow> (nat \<times> 'f frame_invariants) list \<Rightarrow> 'f frame_invariants \<Rightarrow> ref_type \<Rightarrow> nat \<Rightarrow> bool" where
  "predicts_from enc coded fi r i \<longleftrightarrow>
     (\<exists>rf fi'. ref_of fi r = Some rf \<and> (rf_output_frameno rf, fi') \<in> set coded \<and> rf_frame rf = enc (rf_output_frameno rf) fi' \<and> fi_input_frameno fi' = i)"

text \<open>
  A coded frame is a key frame, or all its references are coded, the one behind
  at the distance of its level, and the one ahead too unless the group of
  pictures ends before it.
\<close>

definition coded_frame_ok :: "'i api_env \<Rightarrow> (nat \<Rightarrow> 'f frame_invariants \<Rightarrow> 'f) \<Rightarrow> (nat \<times> 'f frame_invariants) list \<Rightarrow> 'f frame_invariants \<Rightarrow> bool" where
  "coded_frame_ok env enc coded fi \<longleftrightarrow>
     fi_frame_type fi = KEY \<or>
     (let d = drop_bit (fi_pyramid_level fi) (ic_group_input_len (en_inter_cfg env)); i = fi_input_frameno fi; gop = i - fi_order_hint fi in
       (\<forall>r\<in>set ALL_INTER_REFS. \<exists>i'. predicts_from enc coded fi r i')
       \<and> gop + d \<le> i \<and> predicts_from enc coded fi LAST_FRAME (i - d)
       \<and> (0 < fi_pyramid_level fi \<and> i + d < next_keyframe_input_frameno env gop False \<longrightarrow> predicts_from enc coded fi ALTREF_FRAME (i + d)))"

definition run_ok :: "'i api_env \<Rightarrow> (nat \<Rightarrow> 'f frame_invariants \<Rightarrow> 'f) \<Rightarrow> nat \<Rightarrow> 'f gop_state \<Rightarrow> bool" where
  "run_ok env enc shown g \<longleftrightarrow>
     map fst (gs_packets g) = [0..<shown] \<and> list_all (shows_input enc (gs_coded g)) (gs_packets g)
     \<and> list_all (\<lambda>(n, fi). coded_frame_ok env enc (gs_coded g) fi) (gs_coded g)"

lemma shows_input_mono: "shows_input enc coded p \<Longrightarrow> set coded \<subseteq> set coded' \<Longrightarrow> shows_input enc coded' p"
  unfolding shows_input_def by blast

lemma predicts_from_mono: "predicts_from enc coded fi r i \<Longrightarrow> set coded \<subseteq> set coded' \<Longrightarrow> predicts_from enc coded' fi r i"
  unfolding predicts_from_def by blast

lemma coded_frame_ok_mono: "coded_frame_ok env enc coded fi \<Longrightarrow> set coded \<subseteq> set coded' \<Longrightarrow> coded_frame_ok env enc coded' fi"
  unfolding coded_frame_ok_def Let_def using predicts_from_mono by blast

lemma run_ok_gop:
  assumes old: "run_ok env enc start g0" "gs_coded g0 = cs" "gs_packets g0 = ps"
    and g: "gop_ok enc (ic_group_input_len (en_inter_cfg env)) start len len g" and nk: "start + len = next_keyframe_input_frameno env start False"
  shows "run_ok env enc (start + len) (add_past cs ps g)"
proof -
  let ?c = "cs @ gs_coded g"
  have inp: "fi_input_frameno fi = start + fi_order_hint fi" if "(n, fi) \<in> set (gs_coded g)" for n fi
    using g that by (auto simp: gop_ok_def list_all_iff)
  have shown: "shows_input enc ?c p" if "p \<in> set (gs_packets g)" for p
  proof -
    have "packet_ok enc start (gs_coded g) p" using g that by (auto simp: gop_ok_def list_all_iff)
    then show ?thesis using inp by (fastforce simp: packet_ok_def coded_ref_def shows_input_def)
  qed
  have pred: "predicts_from enc ?c fi r (start + h)" if "ref_at enc (gs_coded g) fi r h" for fi r h
    using that inp by (fastforce simp: ref_at_def coded_ref_def predicts_from_def)
  have frame: "coded_frame_ok env enc ?c fi" if x: "(n, fi) \<in> set (gs_coded g)" for n fi
  proof (cases "(n, fi) \<in> set (tl (gs_coded g))")
    case False
    then have "(n, fi) = hd (gs_coded g)" using x by (cases "gs_coded g") auto
    then show ?thesis using g by (auto simp: gop_ok_def coded_frame_ok_def dest: sym)
  next
    case True
    define d where "d = drop_bit (fi_pyramid_level fi) (ic_group_input_len (en_inter_cfg env))"
    have ok: "refs_ok enc (gs_coded g) (ic_group_input_len (en_inter_cfg env)) len fi"
      using g True by (auto simp: gop_ok_def list_all_iff)
    have "predicts_from enc ?c fi LAST_FRAME (start + (fi_order_hint fi - d))" "d \<le> fi_order_hint fi"
        "0 < fi_pyramid_level fi \<Longrightarrow> fi_order_hint fi + d < len \<Longrightarrow> predicts_from enc ?c fi ALTREF_FRAME (start + (fi_order_hint fi + d))"
        "\<forall>r\<in>set ALL_INTER_REFS. \<exists>i'. predicts_from enc ?c fi r i'"
      using ok pred unfolding refs_ok_def Let_def d_def[symmetric] by blast+
    then show ?thesis
      unfolding coded_frame_ok_def Let_def d_def[symmetric] inp[OF x] using nk by (simp add: add.assoc)
  qed
  show ?thesis
    using old g shown frame shows_input_mono[of enc cs _ ?c] coded_frame_ok_mono[of env enc cs _ ?c]
    unfolding run_ok_def by (auto simp: list_all_iff gop_ok_def upt_add_eq_append[of 0 start len, simplified])
qed

section \<open>What the queue needs of a configuration\<close>

locale group_scheme =
  fixes cfg :: inter_config and P Q :: nat and enc :: "nat \<Rightarrow> 'f frame_invariants \<Rightarrow> 'f"
  assumes P: "0 < P" "P = ic_group_output_len cfg" "P \<le> 2 * Q" and Q: "0 < Q" "Q \<le> 4"
    and number: "idx < P \<Longrightarrow> Q * k + Q < 2 ^ 32 \<Longrightarrow> \<exists>i>start. get_input_frameno cfg (P * k + idx + 1) start = Inr i"
    and first: "Q * k + Q < 2 ^ 32 \<Longrightarrow> get_input_frameno cfg (P * k + 1) start = Inr (start + (Q * k + Q))"
    and plain: "\<not> ic_reorder cfg \<Longrightarrow> P = 1 \<and> Q = 1"
    and group: "group_inv Q enc start len k g \<Longrightarrow> len < 2 ^ 32 \<Longrightarrow> Q * k + Q < 2 ^ 32 \<Longrightarrow>
      \<exists>g'. forR (encode_output cfg base start (start + len) er enc) [P * k + 1..<P * k + 1 + P] g = Inr g' \<and>
        group_inv Q enc start len (k + 1) g'"
begin

lemma run_part:
  assumes env: "queue_ok env L" "en_inter_cfg env = cfg" and start: "start < L" "next = next_keyframe_input_frameno env start False"
  shows "forR (encode_output cfg base start next (en_error_resilient env) enc) [j..<j + m] g = Inr g' \<Longrightarrow> 0 < j \<Longrightarrow>
    as_gop st = add_past cs ps g \<Longrightarrow> as_gop_output_start st (base + j - 1) = Some base \<Longrightarrow> as_gop_input_start st (base + j - 1) = Some start \<Longrightarrow>
    (\<And>j'. j \<le> j' \<Longrightarrow> j' < j + m \<Longrightarrow> \<exists>i>start. get_input_frameno cfg j' start = Inr i \<and>
      (next \<le> i \<longrightarrow> ic_reorder cfg \<and> ((j' - 1) mod P \<noteq> 0 \<or> j' = j \<and> gs_prev_input g + 1 \<noteq> next))) \<Longrightarrow>
    \<exists>st'. (\<forall>f. api_run env enc (m + f) (base + j) st = api_run env enc f (base + j + m) st') \<and> as_gop st' = add_past cs ps g' \<and>
      as_gop_output_start st' (base + j + m - 1) = Some base \<and> as_gop_input_start st' (base + j + m - 1) = Some start"
proof (induction m arbitrary: j g st)
  case 0
  then show ?case by (intro exI[of _ st]) simp
next
  case (Suc m)
  have "[j..<j + Suc m] = j # [j + 1..<j + 1 + m]" by (simp add: upt_conv_Cons)
  then obtain g1 where g1: "encode_output cfg base start next (en_error_resilient env) enc j g = Inr g1"
      "forR (encode_output cfg base start next (en_error_resilient env) enc) [j + 1..<j + 1 + m] g1 = Inr g'"
    using Suc.prems(1) by (auto simp: bindR_eq_Inr_iff)
  obtain r where r: "new_inter_frame (gs_coded_fi g) cfg start j next (en_error_resilient env) = Inr r" "g1 = encode_packet enc (base + j) r g"
    using g1(1) by (auto simp: encode_output_def bindR_eq_Inr_iff)
  obtain i where i: "start < i" "get_input_frameno cfg j start = Inr i"
      "next \<le> i \<longrightarrow> ic_reorder cfg \<and> ((j - 1) mod P \<noteq> 0 \<or> gs_prev_input g + 1 \<noteq> next)"
    using Suc.prems(6)[of j] by auto
  define st1 where "st1 = \<lparr>as_gop = encode_packet enc (base + j) r (as_gop st),
    as_gop_output_start = (as_gop_output_start st)(base + j \<mapsto> base), as_gop_input_start = (as_gop_input_start st)(base + j \<mapsto> start)\<rparr>"
  have step: "api_step env enc (base + j) st = Inr (None, st1)"
    unfolding st1_def
    by (rule step_inside[OF env(1) start Suc.prems(2) refl Suc.prems(4,5)]) (use r(1) i P(2) in \<open>auto simp: env(2) Suc.prems(3)\<close>)
  have "\<exists>st'. (\<forall>f. api_run env enc (m + f) (base + (j + 1)) st1 = api_run env enc f (base + (j + 1) + m) st') \<and> as_gop st' = add_past cs ps g' \<and>
      as_gop_output_start st' (base + (j + 1) + m - 1) = Some base \<and> as_gop_input_start st' (base + (j + 1) + m - 1) = Some start"
  proof (rule Suc.IH[OF g1(2)])
    show "as_gop st1 = add_past cs ps g1" by (simp add: st1_def Suc.prems(3) encode_packet_past r(2))
  next
    fix j' assume "j + 1 \<le> j'" "j' < j + 1 + m"
    then show "\<exists>i>start. get_input_frameno cfg j' start = Inr i \<and>
      (next \<le> i \<longrightarrow> ic_reorder cfg \<and> ((j' - 1) mod P \<noteq> 0 \<or> j' = j + 1 \<and> gs_prev_input g1 + 1 \<noteq> next))"
      using Suc.prems(6)[of j'] by auto
  qed (simp_all add: st1_def)
  then show ?case using step by simp
qed

lemma run_group:
  assumes env: "queue_ok env L" "en_inter_cfg env = cfg" and start: "start < L" "start + len = next_keyframe_input_frameno env start False"
    and g: "group_inv Q enc start len k g" "Q * k + 1 < len"
    and st: "as_gop st = add_past cs ps g" "as_gop_output_start st (base + P * k) = Some base" "as_gop_input_start st (base + P * k) = Some start"
  shows "\<exists>st' g'. (\<forall>f. api_run env enc (P + f) (base + P * k + 1) st = api_run env enc f (base + P * (k + 1) + 1) st') \<and>
    group_inv Q enc start len (k + 1) g' \<and> as_gop st' = add_past cs ps g' \<and>
    as_gop_output_start st' (base + P * (k + 1)) = Some base \<and> as_gop_input_start st' (base + P * (k + 1)) = Some start"
proof -
  have "start + len \<le> L" "L < 2 ^ 31" using next_keyframe_ok(2)[OF env(1) start(1)] start(2) env(1) by (simp_all add: queue_ok_def)
  then have big: "len < 2 ^ 32" "Q * k + Q < 2 ^ 32" using g(2) Q(2) by simp_all
  obtain g' where g': "forR (encode_output cfg base start (start + len) (en_error_resilient env) enc) [P * k + 1..<P * k + 1 + P] g = Inr g'"
      "group_inv Q enc start len (k + 1) g'" using group[OF g(1) big] by blast
  have prev: "gs_prev_input g + 1 \<noteq> start + len" using g by (simp add: group_inv_def)
  have "\<exists>i>start. get_input_frameno cfg j' start = Inr i \<and> (start + len \<le> i \<longrightarrow> ic_reorder cfg \<and>
      ((j' - 1) mod P \<noteq> 0 \<or> j' = P * k + 1 \<and> gs_prev_input g + 1 \<noteq> start + len))"
    if j': "P * k + 1 \<le> j'" "j' < P * k + 1 + P" for j'
  proof -
    define idx where "idx = j' - (P * k + 1)"
    have idx: "j' = P * k + idx + 1" "idx < P" using j' by (simp_all add: idx_def)
    obtain i where i: "start < i" "get_input_frameno cfg j' start = Inr i" using number[OF idx(2) big(2)] idx(1) by blast
    have "ic_reorder cfg \<and> (idx \<noteq> 0 \<or> gs_prev_input g + 1 \<noteq> start + len)" if "start + len \<le> i"
    proof (cases "ic_reorder cfg")
      case False
      then have "idx = 0" "Q = 1" using plain idx(2) by auto
      then have "i = start + (Q * k + Q)" using first[OF big(2), of start] i(2) idx(1) by simp
      then show ?thesis using that g(2) \<open>Q = 1\<close> by simp
    qed (use prev in simp)
    then show ?thesis using i idx by auto
  qed
  from run_part[OF env start(1) start(2) g'(1) _ st(1) _ _ this] st(2,3) g'(2)
  show ?thesis by (auto simp: add.assoc add.commute[of P "P * k"])
qed

lemma run_groups:
  assumes env: "queue_ok env L" "en_inter_cfg env = cfg" and start: "start < L" "start + len = next_keyframe_input_frameno env start False"
  shows "group_inv Q enc start len k g \<Longrightarrow> as_gop st = add_past cs ps g \<Longrightarrow> as_gop_output_start st (base + P * k) = Some base \<Longrightarrow>
    as_gop_input_start st (base + P * k) = Some start \<Longrightarrow>
    \<exists>K st' g'. (\<forall>f. api_run env enc (P * (K - k) + f) (base + P * k + 1) st = api_run env enc f (base + P * K + 1) st') \<and>
      k \<le> K \<and> len \<le> Q * K + 1 \<and> (k < K \<longrightarrow> Q * (K - 1) + 1 < len) \<and> group_inv Q enc start len K g' \<and> as_gop st' = add_past cs ps g' \<and>
      as_gop_output_start st' (base + P * K) = Some base \<and> as_gop_input_start st' (base + P * K) = Some start"
proof (induction "len - k" arbitrary: k g st rule: less_induct)
  case less
  show ?case
  proof (cases "Q * k + 1 < len")
    case False
    then show ?thesis using less.prems by (intro exI[of _ k] exI[of _ st] exI[of _ g]) simp
  next
    case True
    obtain st1 g1 where st1: "\<And>f. api_run env enc (P + f) (base + P * k + 1) st = api_run env enc f (base + P * (k + 1) + 1) st1"
        "group_inv Q enc start len (k + 1) g1" "as_gop st1 = add_past cs ps g1"
        "as_gop_output_start st1 (base + P * (k + 1)) = Some base" "as_gop_input_start st1 (base + P * (k + 1)) = Some start"
      using run_group[OF env start less.prems(1) True less.prems(2-4)] by blast
    have "k \<le> Q * k" using Q(1) by simp
    then have "len - (k + 1) < len - k" using True by linarith
    from less.hyps[OF this st1(2-5)] obtain K st' g' where K:
      "\<And>f. api_run env enc (P * (K - (k + 1)) + f) (base + P * (k + 1) + 1) st1 = api_run env enc f (base + P * K + 1) st'"
      "k + 1 \<le> K" "len \<le> Q * K + 1" "k + 1 < K \<longrightarrow> Q * (K - 1) + 1 < len" "group_inv Q enc start len K g'" "as_gop st' = add_past cs ps g'"
      "as_gop_output_start st' (base + P * K) = Some base" "as_gop_input_start st' (base + P * K) = Some start" by blast
    have "P * (K - k) + f = P + (P * (K - (k + 1)) + f)" for f
    proof -
      have "K - k = 1 + (K - (k + 1))" using K(2) by simp
      then show ?thesis by (simp only: distrib_left mult_1_right add.assoc)
    qed
    then have "api_run env enc (P * (K - k) + f) (base + P * k + 1) st = api_run env enc f (base + P * K + 1) st'" for f
      by (simp only: st1(1) K(1))
    moreover have "Q * (K - 1) + 1 < len" using K(2,4) True by (cases "k + 1 < K") auto
    ultimately show ?thesis using K by (intro exI[of _ K] exI[of _ st'] exI[of _ g']) simp
  qed
qed

text \<open>Group of pictures after group of pictures, until the input ends.\<close>

lemma run_gop:
  assumes env: "queue_ok env L" "en_inter_cfg env = cfg" "ic_group_input_len cfg = Q" and b: "at_boundary env st L n s" and s: "s < L"
    and ok: "run_ok env enc s (as_gop st)" and nk: "s' = next_keyframe_input_frameno env s False"
  shows "\<exists>N st'. 0 < N \<and> N \<le> 6 * (s' - s) \<and> (\<forall>f. api_run env enc (N + f) n st = api_run env enc f (n + N) st') \<and>
    at_boundary env st' L (n + N) s' \<and> run_ok env enc s' (as_gop st')"
proof -
  let ?cs = "gs_coded (as_gop st)" and ?ps = "gs_packets (as_gop st)"
  define len where "len = s' - s"
  have len: "0 < len" "s + len = s'" "s' \<le> L" using next_keyframe_ok(1,2)[OF env(1) s] nk by (simp_all add: len_def)
  obtain st1 where st1: "api_step env enc n st = Inr (None, st1)" "as_gop st1 = encode_packet enc n (Some (key_of env s)) (as_gop st)"
      "as_gop_output_start st1 n = Some n" "as_gop_input_start st1 n = Some s" using step_boundary[OF env(1) b s] by blast
  define g0 where "g0 = (as_gop st)\<lparr>gs_coded := [], gs_packets := []\<rparr>"
  have past: "as_gop st = add_past ?cs ?ps g0" by (simp add: g0_def add_past_def)
  have g1: "as_gop st1 = add_past ?cs ?ps (encode_packet enc n (Some (key_of env s)) g0)"
    using st1(2) encode_packet_past[of enc n "Some (key_of env s)" ?cs ?ps g0] past by simp
  have inv: "group_inv Q enc s len 0 (encode_packet enc n (Some (key_of env s)) g0)"
    by (rule key_group_inv[OF key_of_def len(1)]) (simp_all add: g0_def)
  obtain K st' g' where K: "\<And>f. api_run env enc (P * K + f) (n + 1) st1 = api_run env enc f (n + P * K + 1) st'"
      "len \<le> Q * K + 1" "0 < K \<longrightarrow> Q * (K - 1) + 1 < len" "group_inv Q enc s len K g'" "as_gop st' = add_past ?cs ?ps g'"
      "as_gop_output_start st' (n + P * K) = Some n" "as_gop_input_start st' (n + P * K) = Some s"
    using run_groups[OF env(1,2) s _ inv g1, of n] st1(3,4) nk len(2) by auto
  have mn: "min len (Q * K + 1) = len" using K(2) by simp
  have g': "gop_ok enc Q s len len g'" "gs_prev_input g' = s + (len - 1)" using K(4) unfolding group_inv_def mn by simp_all
  have "L < 2 ^ 31" using env(1) by (simp add: queue_ok_def)
  moreover have QK: "Q * K \<le> len + 2"
  proof (cases K)
    case (Suc m)
    then have "Q * m + 1 < len" using K(3) by simp
    then show ?thesis using Suc Q(2) by simp
  qed simp
  ultimately have big: "Q * K + Q < 2 ^ 32" using len(2,3) Q(2) by simp
  have bound: "1 + P * K \<le> 6 * len"
  proof (cases K)
    case (Suc m)
    have "P * K \<le> 2 * Q * K" using P(3) by simp
    moreover have "1 < len" using K(3) Suc by simp
    ultimately show ?thesis using QK by linarith
  qed (use len(1) in simp)
  have "at_boundary env st' L (n + (1 + P * K)) s'"
    unfolding at_boundary_def
    using K(5-7) g'(2) len P(2) env(2) s nk first[OF big, of s] K(2) Q(1)
    by (intro disjI2 exI[of _ n] exI[of _ "P * K + 1"] exI[of _ s] exI[of _ "s + (Q * K + Q)"]) simp
  moreover have "run_ok env enc s' (as_gop st')"
    using run_ok_gop[OF ok refl refl, of len g'] g'(1) env(2,3) len(2) nk K(5) by simp
  moreover have "api_run env enc (1 + P * K + f) n st = api_run env enc f (n + (1 + P * K)) st'" for f
    using st1(1) K(1)[of f] by simp
  ultimately show ?thesis using bound by (intro exI[of _ "1 + P * K"] exI[of _ st']) (auto simp: len_def[symmetric])
qed

lemma run_input:
  assumes env: "queue_ok env L" "en_inter_cfg env = cfg" "ic_group_input_len cfg = Q"
  shows "at_boundary env st L n s \<Longrightarrow> s \<le> L \<Longrightarrow> run_ok env enc s (as_gop st) \<Longrightarrow>
    \<exists>N st'. N \<le> 6 * (L - s) \<and> (\<forall>f. api_run env enc (N + Suc f) n st = Inr (Some NeedMoreData, st')) \<and> run_ok env enc L (as_gop st')"
proof (induction "L - s" arbitrary: n s st rule: less_induct)
  case less
  show ?case
  proof (cases "s = L")
    case True
    then show ?thesis using step_end[OF env(1), of st n enc] less.prems by (intro exI[of _ 0]) auto
  next
    case False
    then have s: "s < L" using less.prems(2) by simp
    define s' where "s' = next_keyframe_input_frameno env s False"
    obtain M st1 where M: "0 < M" "M \<le> 6 * (s' - s)" "\<And>f. api_run env enc (M + f) n st = api_run env enc f (n + M) st1"
        "at_boundary env st1 L (n + M) s'" "run_ok env enc s' (as_gop st1)"
      using run_gop[OF env less.prems(1) s less.prems(3) s'_def] by blast
    have s'': "s < s'" "s' \<le> L" using next_keyframe_ok(1,2)[OF env(1) s] by (simp_all add: s'_def)
    then have lt: "L - s' < L - s" by simp
    obtain N st' where N: "N \<le> 6 * (L - s')" "\<And>f. api_run env enc (N + Suc f) (n + M) st1 = Inr (Some NeedMoreData, st')" "run_ok env enc L (as_gop st')"
      using less.hyps[OF lt M(4) s''(2) M(5)] by blast
    have "api_run env enc (M + N + Suc f) n st = Inr (Some NeedMoreData, st')" for f
      using M(3)[of "N + Suc f"] N(2)[of f] by (simp only: add.assoc)
    moreover have "M + N \<le> 6 * (L - s)" using M(2) N(1) s'' by simp
    ultimately show ?thesis using N(3) by blast
  qed
qed

end

section \<open>The two configurations\<close>

interpretation pyramid: group_scheme pyramid_config 6 4 enc for enc
proof unfold_locales
  show "\<exists>i>start. get_input_frameno pyramid_config (6 * k + idx + 1) start = Inr i" if "idx < 6" "4 * k + 4 < (2 :: nat) ^ 32" for idx k start
  proof -
    have o': "0 < group_offset idx" "group_offset idx \<le> 4" using less_6[OF that(1)] by (auto simp: group_offset_def)
    then have "4 * k + group_offset idx < 2 ^ 32" using that(2) by simp
    from pyramid_schedule(3)[OF that(1) refl this, of start] show ?thesis using o'(1) by (intro exI[of _ "start + (4 * k + group_offset idx)"]) simp
  qed
  show "get_input_frameno pyramid_config (6 * k + 1) start = Inr (start + (4 * k + 4))" if "4 * k + 4 < (2 :: nat) ^ 32" for k start
    using pyramid_schedule(3)[of 0 "4 * k + 4" k start] that by (simp add: group_offset_def)
  show "\<exists>g'. forR (encode_output pyramid_config base start (start + len) er enc) [6 * k + 1..<6 * k + 1 + 6] g = Inr g' \<and>
      group_inv 4 enc start len (k + 1) g'" if "group_inv 4 enc start len k g" "len < 2 ^ 32" "4 * k + 4 < 2 ^ 32" for start len k g base er
  proof -
    have e: "6 * k + 1 + 6 = 6 * k + (7 :: nat)" by simp
    show ?thesis unfolding e by (rule pyramid_group[OF that])
  qed
qed (simp_all add: pyramid_config_def)

interpretation low_latency: group_scheme "low_latency_config multiref switch" 1 1 enc for multiref switch enc
proof unfold_locales
  have n: "get_input_frameno (low_latency_config multiref switch) (k + 1) start = Inr (start + (k + 1))" if "k + 1 < 2 ^ 32" for k start
    using that by (simp add: get_input_frameno_def get_idx_in_group_output_def get_order_hint_def low_latency_config_def)
  show "\<exists>i>start. get_input_frameno (low_latency_config multiref switch) (1 * k + idx + 1) start = Inr i"
    if "idx < 1" "1 * k + 1 < (2 :: nat) ^ 32" for idx k start using n[of k start] that by simp
  show "get_input_frameno (low_latency_config multiref switch) (1 * k + 1) start = Inr (start + (1 * k + 1))"
    if "1 * k + 1 < (2 :: nat) ^ 32" for k start using n[of k start] that by simp
  show "\<exists>g'. forR (encode_output (low_latency_config multiref switch) base start (start + len) er enc) [1 * k + 1..<1 * k + 1 + 1] g = Inr g' \<and>
      group_inv 1 enc start len (k + 1) g'" if "group_inv 1 enc start len k g" "len < 2 ^ 32" "1 * k + 1 < (2 :: nat) ^ 32" for start len k g base er
    using low_latency_group[OF that(1), of multiref switch base er] that(3) by simp
qed (simp_all add: low_latency_config_def)

lemma api_run_ok:
  assumes env: "queue_ok env L" and cfg: "InterConfig_new low_latency multiref switch = Inr (en_inter_cfg env)" "low_latency \<or> switch = 0"
    and st: "gs_coded (as_gop st) = []" "gs_packets (as_gop st) = []"
  shows "\<exists>N st'. N \<le> 6 * L \<and> (\<forall>f. api_run env enc (N + Suc f) 0 st = Inr (Some NeedMoreData, st')) \<and> run_ok env enc L (as_gop st')"
proof -
  have b: "at_boundary env st L 0 0" by (simp add: at_boundary_def)
  have ok: "run_ok env enc 0 (as_gop st)" using st by (simp add: run_ok_def)
  show ?thesis
  proof (cases low_latency)
    case True
    then have c: "en_inter_cfg env = low_latency_config multiref switch" using cfg InterConfig_new_low_latency[of multiref switch] by simp
    show ?thesis using low_latency.run_input[OF env c _ b _ ok] by (simp add: low_latency_config_def)
  next
    case False
    then have c: "en_inter_cfg env = pyramid_config" using cfg InterConfig_new_reorder[of multiref] by simp
    show ?thesis using pyramid.run_input[OF env c _ b _ ok] by (simp add: pyramid_config_def)
  qed
qed

text \<open>A small input: seven pictures, a scene cut at the sixth.\<close>

definition example_env :: "nat api_env" where
  "example_env = \<lparr>en_inter_cfg = pyramid_config,
     en_sequence = \<lparr>sq_order_hint_bits_minus_1 = 6, sq_enable_order_hint = True, sq_reduced_still_picture_hdr = False,
       sq_max_frame_width = 64, sq_max_frame_height = 64\<rparr>,
     en_width = 64, en_height = 64, en_render_differs = False, en_enable_inter_tx_split = False, en_rdo_tx_decision = True,
     en_error_resilient = False, en_max_key_frame_interval = 240, en_limit = Some 7, en_keyframes = [0, 5],
     en_frame_q = map (\<lambda>n. (n, Some n)) [0..<7] @ [(7, None)]\<rparr>"

definition example_start :: "nat api_state" where
  "example_start = \<lparr>as_gop = \<lparr>gs_coded_fi = key_of example_env 0, gs_prev_input = 0, gs_coded = [], gs_packets = []\<rparr>,
     as_gop_output_start = Map.empty, as_gop_input_start = Map.empty\<rparr>"

lemma example_env_ok:
  "queue_ok example_env 7" "InterConfig_new False True 0 = Inr (en_inter_cfg example_env)"
  "gs_coded (as_gop example_start) = []" "gs_packets (as_gop example_start) = []"
  by (auto simp: queue_ok_def example_env_def InterConfig_new_reorder example_start_def)

end
