(* ===== verification/Av1_InvTx.thy ===== *)
theory Av1_InvTx
  imports O3_Prelude Av1_Tx
begin

text \<open>
  The inverse transforms of \<open>src/src/transform/inverse.rs\<close> and their helpers in
  \<open>transform/mod.rs\<close>. The arithmetic of \<open>i32\<close> is a parameter \<open>ar\<close>: \<open>i32_op\<close> is what the
  operators make of an exact result, \<open>i32_wrapping\<close> what \<open>wrapping_add\<close> makes of
  it; \<open>round_shift\<close> and \<open>clamp\<close> are functions of \<open>v_frame\<close>. So the same definitions
  are the code on a machine that wraps, on one that checks, and on ideal integers.
  A transform reads its input array and returns the entries it writes.
\<close>

section \<open>Arithmetic\<close>

record i32_arith =
  i32_op :: "int \<Rightarrow> int"
  i32_wrapping :: "int \<Rightarrow> int"
  i32_round_shift :: "int \<Rightarrow> nat \<Rightarrow> int"
  i32_clamp :: "int \<Rightarrow> int \<Rightarrow> int \<Rightarrow> int"

definition SQRT2_BITS :: nat where "SQRT2_BITS = 12"
definition SQRT2 :: int where "SQRT2 = 5793"
definition INV_SQRT2 :: int where "INV_SQRT2 = 2896"
definition INV_COS_BIT :: nat where "INV_COS_BIT = 12"

definition COSPI_INV :: "int list" where
  "COSPI_INV = [
     4096, 4095, 4091, 4085, 4076, 4065, 4052, 4036, 4017, 3996, 3973, 3948, 3920, 3889, 3857, 3822, 3784, 3745, 3703, 3659,
     3612, 3564, 3513, 3461, 3406, 3349, 3290, 3229, 3166, 3102, 3035, 2967, 2896, 2824, 2751, 2675, 2598, 2520, 2440, 2359,
     2276, 2191, 2106, 2019, 1931, 1842, 1751, 1660, 1567, 1474, 1380, 1285, 1189, 1092, 995, 897, 799, 700, 601, 501, 401,
     301, 201, 101]"

definition SINPI_INV :: "int list" where
  "SINPI_INV = [0, 1321, 2482, 3344, 3803]"

definition half_btf :: "i32_arith \<Rightarrow> int \<Rightarrow> int \<Rightarrow> int \<Rightarrow> int \<Rightarrow> nat \<Rightarrow> int" where
  "half_btf ar w0 in0 w1 in1 n =
     (let result = i32_wrapping ar (i32_op ar (w0 * in0) + i32_op ar (w1 * in1)) in
      if n = 0 then result else drop_bit n (i32_wrapping ar (result + 2 ^ (n - 1))))"

definition clamp_value :: "i32_arith \<Rightarrow> int \<Rightarrow> nat \<Rightarrow> int" where
  "clamp_value ar value n =
     (let max_value = 2 ^ (n - 1) - 1; min_value = - (2 ^ (n - 1)) in i32_clamp ar value min_value max_value)"

section \<open>Transforms of one dimension\<close>

definition av1_iwht4 :: "i32_arith \<Rightarrow> int list \<Rightarrow> nat \<Rightarrow> int list result" where
  "av1_iwht4 ar input rng =
     (if length input < 4 then Inl Fault
      else
        let x0 = input ! 0; x1 = input ! 1; x2 = input ! 2; x3 = input ! 3;
            s0 = i32_op ar (x0 + x1); s2 = i32_op ar (x2 - x3);
            s4 = drop_bit 1 (i32_op ar (s0 - s2));
            s3 = i32_op ar (s4 - x3); s1 = i32_op ar (s4 - x1)
        in Inr [i32_op ar (s0 - s3), s3, s1, i32_op ar (s2 + s1)])"

definition av1_idct4 :: "i32_arith \<Rightarrow> int list \<Rightarrow> nat \<Rightarrow> int list result" where
  "av1_idct4 ar input rng =
     (if length input < 4 then Inl Fault
      else
        let stg1 = [input ! 0, input ! 2, input ! 1, input ! 3];
            stg2 = [half_btf ar (COSPI_INV ! 32) (stg1 ! 0) (COSPI_INV ! 32) (stg1 ! 1) INV_COS_BIT,
              half_btf ar (COSPI_INV ! 32) (stg1 ! 0) (- (COSPI_INV ! 32)) (stg1 ! 1) INV_COS_BIT,
              half_btf ar (COSPI_INV ! 48) (stg1 ! 2) (- (COSPI_INV ! 16)) (stg1 ! 3) INV_COS_BIT,
              half_btf ar (COSPI_INV ! 16) (stg1 ! 2) (COSPI_INV ! 48) (stg1 ! 3) INV_COS_BIT]
        in Inr [clamp_value ar (i32_op ar (stg2 ! 0 + stg2 ! 3)) rng, clamp_value ar (i32_op ar (stg2 ! 1 + stg2 ! 2)) rng,
          clamp_value ar (i32_op ar (stg2 ! 1 - stg2 ! 2)) rng, clamp_value ar (i32_op ar (stg2 ! 0 - stg2 ! 3)) rng])"

definition av1_iadst4 :: "i32_arith \<Rightarrow> int list \<Rightarrow> nat \<Rightarrow> int list result" where
  "av1_iadst4 ar input rng =
     (if length input < 4 then Inl Fault
      else
        let bit = 12; x0 = input ! 0; x1 = input ! 1; x2 = input ! 2; x3 = input ! 3;
            s0 = i32_op ar (SINPI_INV ! 1 * x0); s1 = i32_op ar (SINPI_INV ! 2 * x0); s2 = i32_op ar (SINPI_INV ! 3 * x1);
            s3 = i32_op ar (SINPI_INV ! 4 * x2); s4 = i32_op ar (SINPI_INV ! 1 * x2); s5 = i32_op ar (SINPI_INV ! 2 * x3);
            s6 = i32_op ar (SINPI_INV ! 4 * x3);
            s7 = i32_op ar (i32_op ar (x0 - x2) + x3);
            s0 = i32_op ar (s0 + s3); s1 = i32_op ar (s1 - s4); s3 = s2; s2 = i32_op ar (SINPI_INV ! 3 * s7);
            s0 = i32_op ar (s0 + s5); s1 = i32_op ar (s1 - s6);
            x0 = i32_op ar (s0 + s3); x1 = i32_op ar (s1 + s3); x2 = s2; x3 = i32_op ar (s0 + s1);
            x3 = i32_op ar (x3 - s3)
        in Inr [i32_round_shift ar x0 bit, i32_round_shift ar x1 bit, i32_round_shift ar x2 bit, i32_round_shift ar x3 bit])"

definition av1_iflipadst4 :: "i32_arith \<Rightarrow> int list \<Rightarrow> nat \<Rightarrow> int list result" where
  "av1_iflipadst4 ar input rng = bindR (av1_iadst4 ar input rng) (\<lambda>output. Inr (rev output))"

definition av1_iidentity4 :: "i32_arith \<Rightarrow> int list \<Rightarrow> nat \<Rightarrow> int list result" where
  "av1_iidentity4 ar input rng =
     (if length input < 4 then Inl Fault else Inr (map (\<lambda>inp. i32_round_shift ar (i32_op ar (SQRT2 * inp)) 12) (take 4 input)))"

definition av1_idct8 :: "i32_arith \<Rightarrow> int list \<Rightarrow> nat \<Rightarrow> int list result" where
  "av1_idct8 ar input rng =
     (if length input < 8 then Inl Fault
      else
        bindR (av1_idct4 ar [input ! 0, input ! 2, input ! 4, input ! 6] rng) (\<lambda>temp_out.
        let stg1 = [input ! 1, input ! 5, input ! 3, input ! 7];
            stg2 = [half_btf ar (COSPI_INV ! 56) (stg1 ! 0) (- (COSPI_INV ! 8)) (stg1 ! 3) INV_COS_BIT,
              half_btf ar (COSPI_INV ! 24) (stg1 ! 1) (- (COSPI_INV ! 40)) (stg1 ! 2) INV_COS_BIT,
              half_btf ar (COSPI_INV ! 40) (stg1 ! 1) (COSPI_INV ! 24) (stg1 ! 2) INV_COS_BIT,
              half_btf ar (COSPI_INV ! 8) (stg1 ! 0) (COSPI_INV ! 56) (stg1 ! 3) INV_COS_BIT];
            stg3 = [clamp_value ar (i32_op ar (stg2 ! 0 + stg2 ! 1)) rng, clamp_value ar (i32_op ar (stg2 ! 0 - stg2 ! 1)) rng,
              clamp_value ar (i32_op ar (i32_op ar (- (stg2 ! 2)) + stg2 ! 3)) rng, clamp_value ar (i32_op ar (stg2 ! 2 + stg2 ! 3)) rng];
            stg4 = [stg3 ! 0, half_btf ar (- (COSPI_INV ! 32)) (stg3 ! 1) (COSPI_INV ! 32) (stg3 ! 2) INV_COS_BIT,
              half_btf ar (COSPI_INV ! 32) (stg3 ! 1) (COSPI_INV ! 32) (stg3 ! 2) INV_COS_BIT, stg3 ! 3]
        in Inr [clamp_value ar (i32_op ar (temp_out ! 0 + stg4 ! 3)) rng, clamp_value ar (i32_op ar (temp_out ! 1 + stg4 ! 2)) rng,
          clamp_value ar (i32_op ar (temp_out ! 2 + stg4 ! 1)) rng, clamp_value ar (i32_op ar (temp_out ! 3 + stg4 ! 0)) rng,
          clamp_value ar (i32_op ar (temp_out ! 3 - stg4 ! 0)) rng, clamp_value ar (i32_op ar (temp_out ! 2 - stg4 ! 1)) rng,
          clamp_value ar (i32_op ar (temp_out ! 1 - stg4 ! 2)) rng, clamp_value ar (i32_op ar (temp_out ! 0 - stg4 ! 3)) rng]))"

definition av1_iadst8 :: "i32_arith \<Rightarrow> int list \<Rightarrow> nat \<Rightarrow> int list result" where
  "av1_iadst8 ar input rng =
     (if length input < 8 then Inl Fault
      else
        let stg1 = [input ! 7, input ! 0, input ! 5, input ! 2, input ! 3, input ! 4, input ! 1, input ! 6];
            stg2 = [half_btf ar (COSPI_INV ! 4) (stg1 ! 0) (COSPI_INV ! 60) (stg1 ! 1) INV_COS_BIT,
              half_btf ar (COSPI_INV ! 60) (stg1 ! 0) (- (COSPI_INV ! 4)) (stg1 ! 1) INV_COS_BIT,
              half_btf ar (COSPI_INV ! 20) (stg1 ! 2) (COSPI_INV ! 44) (stg1 ! 3) INV_COS_BIT,
              half_btf ar (COSPI_INV ! 44) (stg1 ! 2) (- (COSPI_INV ! 20)) (stg1 ! 3) INV_COS_BIT,
              half_btf ar (COSPI_INV ! 36) (stg1 ! 4) (COSPI_INV ! 28) (stg1 ! 5) INV_COS_BIT,
              half_btf ar (COSPI_INV ! 28) (stg1 ! 4) (- (COSPI_INV ! 36)) (stg1 ! 5) INV_COS_BIT,
              half_btf ar (COSPI_INV ! 52) (stg1 ! 6) (COSPI_INV ! 12) (stg1 ! 7) INV_COS_BIT,
              half_btf ar (COSPI_INV ! 12) (stg1 ! 6) (- (COSPI_INV ! 52)) (stg1 ! 7) INV_COS_BIT];
            stg3 = [clamp_value ar (i32_op ar (stg2 ! 0 + stg2 ! 4)) rng, clamp_value ar (i32_op ar (stg2 ! 1 + stg2 ! 5)) rng,
              clamp_value ar (i32_op ar (stg2 ! 2 + stg2 ! 6)) rng, clamp_value ar (i32_op ar (stg2 ! 3 + stg2 ! 7)) rng,
              clamp_value ar (i32_op ar (stg2 ! 0 - stg2 ! 4)) rng, clamp_value ar (i32_op ar (stg2 ! 1 - stg2 ! 5)) rng,
              clamp_value ar (i32_op ar (stg2 ! 2 - stg2 ! 6)) rng, clamp_value ar (i32_op ar (stg2 ! 3 - stg2 ! 7)) rng];
            stg4 = [stg3 ! 0, stg3 ! 1, stg3 ! 2, stg3 ! 3, half_btf ar (COSPI_INV ! 16) (stg3 ! 4) (COSPI_INV ! 48) (stg3 ! 5) INV_COS_BIT,
              half_btf ar (COSPI_INV ! 48) (stg3 ! 4) (- (COSPI_INV ! 16)) (stg3 ! 5) INV_COS_BIT,
              half_btf ar (- (COSPI_INV ! 48)) (stg3 ! 6) (COSPI_INV ! 16) (stg3 ! 7) INV_COS_BIT,
              half_btf ar (COSPI_INV ! 16) (stg3 ! 6) (COSPI_INV ! 48) (stg3 ! 7) INV_COS_BIT];
            stg5 = [clamp_value ar (i32_op ar (stg4 ! 0 + stg4 ! 2)) rng, clamp_value ar (i32_op ar (stg4 ! 1 + stg4 ! 3)) rng,
              clamp_value ar (i32_op ar (stg4 ! 0 - stg4 ! 2)) rng, clamp_value ar (i32_op ar (stg4 ! 1 - stg4 ! 3)) rng,
              clamp_value ar (i32_op ar (stg4 ! 4 + stg4 ! 6)) rng, clamp_value ar (i32_op ar (stg4 ! 5 + stg4 ! 7)) rng,
              clamp_value ar (i32_op ar (stg4 ! 4 - stg4 ! 6)) rng, clamp_value ar (i32_op ar (stg4 ! 5 - stg4 ! 7)) rng];
            stg6 = [stg5 ! 0, stg5 ! 1, half_btf ar (COSPI_INV ! 32) (stg5 ! 2) (COSPI_INV ! 32) (stg5 ! 3) INV_COS_BIT,
              half_btf ar (COSPI_INV ! 32) (stg5 ! 2) (- (COSPI_INV ! 32)) (stg5 ! 3) INV_COS_BIT, stg5 ! 4, stg5 ! 5,
              half_btf ar (COSPI_INV ! 32) (stg5 ! 6) (COSPI_INV ! 32) (stg5 ! 7) INV_COS_BIT,
              half_btf ar (COSPI_INV ! 32) (stg5 ! 6) (- (COSPI_INV ! 32)) (stg5 ! 7) INV_COS_BIT]
        in Inr [stg6 ! 0, i32_op ar (- (stg6 ! 4)), stg6 ! 6, i32_op ar (- (stg6 ! 2)), stg6 ! 3, i32_op ar (- (stg6 ! 7)), stg6 ! 5, i32_op ar (- (stg6 ! 1))])"

definition av1_iflipadst8 :: "i32_arith \<Rightarrow> int list \<Rightarrow> nat \<Rightarrow> int list result" where
  "av1_iflipadst8 ar input rng = bindR (av1_iadst8 ar input rng) (\<lambda>output. Inr (rev output))"

definition av1_iidentity8 :: "i32_arith \<Rightarrow> int list \<Rightarrow> nat \<Rightarrow> int list result" where
  "av1_iidentity8 ar input rng =
     (if length input < 8 then Inl Fault else Inr (map (\<lambda>inp. i32_op ar (2 * inp)) (take 8 input)))"

definition av1_idct16 :: "i32_arith \<Rightarrow> int list \<Rightarrow> nat \<Rightarrow> int list result" where
  "av1_idct16 ar input rng =
     (if length input < 16 then Inl Fault
      else
        bindR (av1_idct8 ar [input ! 0, input ! 2, input ! 4, input ! 6, input ! 8, input ! 10, input ! 12, input ! 14] rng) (\<lambda>temp_out.
        let stg1 = [input ! 1, input ! 9, input ! 5, input ! 13, input ! 3, input ! 11, input ! 7, input ! 15];
            stg2 = [half_btf ar (COSPI_INV ! 60) (stg1 ! 0) (- (COSPI_INV ! 4)) (stg1 ! 7) INV_COS_BIT,
              half_btf ar (COSPI_INV ! 28) (stg1 ! 1) (- (COSPI_INV ! 36)) (stg1 ! 6) INV_COS_BIT,
              half_btf ar (COSPI_INV ! 44) (stg1 ! 2) (- (COSPI_INV ! 20)) (stg1 ! 5) INV_COS_BIT,
              half_btf ar (COSPI_INV ! 12) (stg1 ! 3) (- (COSPI_INV ! 52)) (stg1 ! 4) INV_COS_BIT,
              half_btf ar (COSPI_INV ! 52) (stg1 ! 3) (COSPI_INV ! 12) (stg1 ! 4) INV_COS_BIT,
              half_btf ar (COSPI_INV ! 20) (stg1 ! 2) (COSPI_INV ! 44) (stg1 ! 5) INV_COS_BIT,
              half_btf ar (COSPI_INV ! 36) (stg1 ! 1) (COSPI_INV ! 28) (stg1 ! 6) INV_COS_BIT,
              half_btf ar (COSPI_INV ! 4) (stg1 ! 0) (COSPI_INV ! 60) (stg1 ! 7) INV_COS_BIT];
            stg3 = [clamp_value ar (i32_op ar (stg2 ! 0 + stg2 ! 1)) rng, clamp_value ar (i32_op ar (stg2 ! 0 - stg2 ! 1)) rng,
              clamp_value ar (i32_op ar (i32_op ar (- (stg2 ! 2)) + stg2 ! 3)) rng, clamp_value ar (i32_op ar (stg2 ! 2 + stg2 ! 3)) rng,
              clamp_value ar (i32_op ar (stg2 ! 4 + stg2 ! 5)) rng, clamp_value ar (i32_op ar (stg2 ! 4 - stg2 ! 5)) rng,
              clamp_value ar (i32_op ar (i32_op ar (- (stg2 ! 6)) + stg2 ! 7)) rng, clamp_value ar (i32_op ar (stg2 ! 6 + stg2 ! 7)) rng];
            stg4 = [stg3 ! 0, half_btf ar (- (COSPI_INV ! 16)) (stg3 ! 1) (COSPI_INV ! 48) (stg3 ! 6) INV_COS_BIT,
              half_btf ar (- (COSPI_INV ! 48)) (stg3 ! 2) (- (COSPI_INV ! 16)) (stg3 ! 5) INV_COS_BIT, stg3 ! 3, stg3 ! 4,
              half_btf ar (- (COSPI_INV ! 16)) (stg3 ! 2) (COSPI_INV ! 48) (stg3 ! 5) INV_COS_BIT,
              half_btf ar (COSPI_INV ! 48) (stg3 ! 1) (COSPI_INV ! 16) (stg3 ! 6) INV_COS_BIT, stg3 ! 7];
            stg5 = [clamp_value ar (i32_op ar (stg4 ! 0 + stg4 ! 3)) rng, clamp_value ar (i32_op ar (stg4 ! 1 + stg4 ! 2)) rng,
              clamp_value ar (i32_op ar (stg4 ! 1 - stg4 ! 2)) rng, clamp_value ar (i32_op ar (stg4 ! 0 - stg4 ! 3)) rng,
              clamp_value ar (i32_op ar (i32_op ar (- (stg4 ! 4)) + stg4 ! 7)) rng, clamp_value ar (i32_op ar (i32_op ar (- (stg4 ! 5)) + stg4 ! 6)) rng,
              clamp_value ar (i32_op ar (stg4 ! 5 + stg4 ! 6)) rng, clamp_value ar (i32_op ar (stg4 ! 4 + stg4 ! 7)) rng];
            stg6 = [stg5 ! 0, stg5 ! 1, half_btf ar (- (COSPI_INV ! 32)) (stg5 ! 2) (COSPI_INV ! 32) (stg5 ! 5) INV_COS_BIT,
              half_btf ar (- (COSPI_INV ! 32)) (stg5 ! 3) (COSPI_INV ! 32) (stg5 ! 4) INV_COS_BIT,
              half_btf ar (COSPI_INV ! 32) (stg5 ! 3) (COSPI_INV ! 32) (stg5 ! 4) INV_COS_BIT,
              half_btf ar (COSPI_INV ! 32) (stg5 ! 2) (COSPI_INV ! 32) (stg5 ! 5) INV_COS_BIT, stg5 ! 6, stg5 ! 7]
        in Inr [clamp_value ar (i32_op ar (temp_out ! 0 + stg6 ! 7)) rng, clamp_value ar (i32_op ar (temp_out ! 1 + stg6 ! 6)) rng,
          clamp_value ar (i32_op ar (temp_out ! 2 + stg6 ! 5)) rng, clamp_value ar (i32_op ar (temp_out ! 3 + stg6 ! 4)) rng,
          clamp_value ar (i32_op ar (temp_out ! 4 + stg6 ! 3)) rng, clamp_value ar (i32_op ar (temp_out ! 5 + stg6 ! 2)) rng,
          clamp_value ar (i32_op ar (temp_out ! 6 + stg6 ! 1)) rng, clamp_value ar (i32_op ar (temp_out ! 7 + stg6 ! 0)) rng,
          clamp_value ar (i32_op ar (temp_out ! 7 - stg6 ! 0)) rng, clamp_value ar (i32_op ar (temp_out ! 6 - stg6 ! 1)) rng,
          clamp_value ar (i32_op ar (temp_out ! 5 - stg6 ! 2)) rng, clamp_value ar (i32_op ar (temp_out ! 4 - stg6 ! 3)) rng,
          clamp_value ar (i32_op ar (temp_out ! 3 - stg6 ! 4)) rng, clamp_value ar (i32_op ar (temp_out ! 2 - stg6 ! 5)) rng,
          clamp_value ar (i32_op ar (temp_out ! 1 - stg6 ! 6)) rng, clamp_value ar (i32_op ar (temp_out ! 0 - stg6 ! 7)) rng]))"

definition av1_iadst16 :: "i32_arith \<Rightarrow> int list \<Rightarrow> nat \<Rightarrow> int list result" where
  "av1_iadst16 ar input rng =
     (if length input < 16 then Inl Fault
      else
        let stg1 = [input ! 15, input ! 0, input ! 13, input ! 2, input ! 11, input ! 4, input ! 9, input ! 6, input ! 7, input ! 8, input ! 5, input ! 10, input ! 3,
              input ! 12, input ! 1, input ! 14];
            stg2 = [half_btf ar (COSPI_INV ! 2) (stg1 ! 0) (COSPI_INV ! 62) (stg1 ! 1) INV_COS_BIT,
              half_btf ar (COSPI_INV ! 62) (stg1 ! 0) (- (COSPI_INV ! 2)) (stg1 ! 1) INV_COS_BIT,
              half_btf ar (COSPI_INV ! 10) (stg1 ! 2) (COSPI_INV ! 54) (stg1 ! 3) INV_COS_BIT,
              half_btf ar (COSPI_INV ! 54) (stg1 ! 2) (- (COSPI_INV ! 10)) (stg1 ! 3) INV_COS_BIT,
              half_btf ar (COSPI_INV ! 18) (stg1 ! 4) (COSPI_INV ! 46) (stg1 ! 5) INV_COS_BIT,
              half_btf ar (COSPI_INV ! 46) (stg1 ! 4) (- (COSPI_INV ! 18)) (stg1 ! 5) INV_COS_BIT,
              half_btf ar (COSPI_INV ! 26) (stg1 ! 6) (COSPI_INV ! 38) (stg1 ! 7) INV_COS_BIT,
              half_btf ar (COSPI_INV ! 38) (stg1 ! 6) (- (COSPI_INV ! 26)) (stg1 ! 7) INV_COS_BIT,
              half_btf ar (COSPI_INV ! 34) (stg1 ! 8) (COSPI_INV ! 30) (stg1 ! 9) INV_COS_BIT,
              half_btf ar (COSPI_INV ! 30) (stg1 ! 8) (- (COSPI_INV ! 34)) (stg1 ! 9) INV_COS_BIT,
              half_btf ar (COSPI_INV ! 42) (stg1 ! 10) (COSPI_INV ! 22) (stg1 ! 11) INV_COS_BIT,
              half_btf ar (COSPI_INV ! 22) (stg1 ! 10) (- (COSPI_INV ! 42)) (stg1 ! 11) INV_COS_BIT,
              half_btf ar (COSPI_INV ! 50) (stg1 ! 12) (COSPI_INV ! 14) (stg1 ! 13) INV_COS_BIT,
              half_btf ar (COSPI_INV ! 14) (stg1 ! 12) (- (COSPI_INV ! 50)) (stg1 ! 13) INV_COS_BIT,
              half_btf ar (COSPI_INV ! 58) (stg1 ! 14) (COSPI_INV ! 6) (stg1 ! 15) INV_COS_BIT,
              half_btf ar (COSPI_INV ! 6) (stg1 ! 14) (- (COSPI_INV ! 58)) (stg1 ! 15) INV_COS_BIT];
            stg3 = [clamp_value ar (i32_op ar (stg2 ! 0 + stg2 ! 8)) rng, clamp_value ar (i32_op ar (stg2 ! 1 + stg2 ! 9)) rng,
              clamp_value ar (i32_op ar (stg2 ! 2 + stg2 ! 10)) rng, clamp_value ar (i32_op ar (stg2 ! 3 + stg2 ! 11)) rng,
              clamp_value ar (i32_op ar (stg2 ! 4 + stg2 ! 12)) rng, clamp_value ar (i32_op ar (stg2 ! 5 + stg2 ! 13)) rng,
              clamp_value ar (i32_op ar (stg2 ! 6 + stg2 ! 14)) rng, clamp_value ar (i32_op ar (stg2 ! 7 + stg2 ! 15)) rng,
              clamp_value ar (i32_op ar (stg2 ! 0 - stg2 ! 8)) rng, clamp_value ar (i32_op ar (stg2 ! 1 - stg2 ! 9)) rng,
              clamp_value ar (i32_op ar (stg2 ! 2 - stg2 ! 10)) rng, clamp_value ar (i32_op ar (stg2 ! 3 - stg2 ! 11)) rng,
              clamp_value ar (i32_op ar (stg2 ! 4 - stg2 ! 12)) rng, clamp_value ar (i32_op ar (stg2 ! 5 - stg2 ! 13)) rng,
              clamp_value ar (i32_op ar (stg2 ! 6 - stg2 ! 14)) rng, clamp_value ar (i32_op ar (stg2 ! 7 - stg2 ! 15)) rng];
            stg4 = [stg3 ! 0, stg3 ! 1, stg3 ! 2, stg3 ! 3, stg3 ! 4, stg3 ! 5, stg3 ! 6, stg3 ! 7,
              half_btf ar (COSPI_INV ! 8) (stg3 ! 8) (COSPI_INV ! 56) (stg3 ! 9) INV_COS_BIT,
              half_btf ar (COSPI_INV ! 56) (stg3 ! 8) (- (COSPI_INV ! 8)) (stg3 ! 9) INV_COS_BIT,
              half_btf ar (COSPI_INV ! 40) (stg3 ! 10) (COSPI_INV ! 24) (stg3 ! 11) INV_COS_BIT,
              half_btf ar (COSPI_INV ! 24) (stg3 ! 10) (- (COSPI_INV ! 40)) (stg3 ! 11) INV_COS_BIT,
              half_btf ar (- (COSPI_INV ! 56)) (stg3 ! 12) (COSPI_INV ! 8) (stg3 ! 13) INV_COS_BIT,
              half_btf ar (COSPI_INV ! 8) (stg3 ! 12) (COSPI_INV ! 56) (stg3 ! 13) INV_COS_BIT,
              half_btf ar (- (COSPI_INV ! 24)) (stg3 ! 14) (COSPI_INV ! 40) (stg3 ! 15) INV_COS_BIT,
              half_btf ar (COSPI_INV ! 40) (stg3 ! 14) (COSPI_INV ! 24) (stg3 ! 15) INV_COS_BIT];
            stg5 = [clamp_value ar (i32_op ar (stg4 ! 0 + stg4 ! 4)) rng, clamp_value ar (i32_op ar (stg4 ! 1 + stg4 ! 5)) rng,
              clamp_value ar (i32_op ar (stg4 ! 2 + stg4 ! 6)) rng, clamp_value ar (i32_op ar (stg4 ! 3 + stg4 ! 7)) rng,
              clamp_value ar (i32_op ar (stg4 ! 0 - stg4 ! 4)) rng, clamp_value ar (i32_op ar (stg4 ! 1 - stg4 ! 5)) rng,
              clamp_value ar (i32_op ar (stg4 ! 2 - stg4 ! 6)) rng, clamp_value ar (i32_op ar (stg4 ! 3 - stg4 ! 7)) rng,
              clamp_value ar (i32_op ar (stg4 ! 8 + stg4 ! 12)) rng, clamp_value ar (i32_op ar (stg4 ! 9 + stg4 ! 13)) rng,
              clamp_value ar (i32_op ar (stg4 ! 10 + stg4 ! 14)) rng, clamp_value ar (i32_op ar (stg4 ! 11 + stg4 ! 15)) rng,
              clamp_value ar (i32_op ar (stg4 ! 8 - stg4 ! 12)) rng, clamp_value ar (i32_op ar (stg4 ! 9 - stg4 ! 13)) rng,
              clamp_value ar (i32_op ar (stg4 ! 10 - stg4 ! 14)) rng, clamp_value ar (i32_op ar (stg4 ! 11 - stg4 ! 15)) rng];
            stg6 = [stg5 ! 0, stg5 ! 1, stg5 ! 2, stg5 ! 3, half_btf ar (COSPI_INV ! 16) (stg5 ! 4) (COSPI_INV ! 48) (stg5 ! 5) INV_COS_BIT,
              half_btf ar (COSPI_INV ! 48) (stg5 ! 4) (- (COSPI_INV ! 16)) (stg5 ! 5) INV_COS_BIT,
              half_btf ar (- (COSPI_INV ! 48)) (stg5 ! 6) (COSPI_INV ! 16) (stg5 ! 7) INV_COS_BIT,
              half_btf ar (COSPI_INV ! 16) (stg5 ! 6) (COSPI_INV ! 48) (stg5 ! 7) INV_COS_BIT, stg5 ! 8, stg5 ! 9, stg5 ! 10, stg5 ! 11,
              half_btf ar (COSPI_INV ! 16) (stg5 ! 12) (COSPI_INV ! 48) (stg5 ! 13) INV_COS_BIT,
              half_btf ar (COSPI_INV ! 48) (stg5 ! 12) (- (COSPI_INV ! 16)) (stg5 ! 13) INV_COS_BIT,
              half_btf ar (- (COSPI_INV ! 48)) (stg5 ! 14) (COSPI_INV ! 16) (stg5 ! 15) INV_COS_BIT,
              half_btf ar (COSPI_INV ! 16) (stg5 ! 14) (COSPI_INV ! 48) (stg5 ! 15) INV_COS_BIT];
            stg7 = [clamp_value ar (i32_op ar (stg6 ! 0 + stg6 ! 2)) rng, clamp_value ar (i32_op ar (stg6 ! 1 + stg6 ! 3)) rng,
              clamp_value ar (i32_op ar (stg6 ! 0 - stg6 ! 2)) rng, clamp_value ar (i32_op ar (stg6 ! 1 - stg6 ! 3)) rng,
              clamp_value ar (i32_op ar (stg6 ! 4 + stg6 ! 6)) rng, clamp_value ar (i32_op ar (stg6 ! 5 + stg6 ! 7)) rng,
              clamp_value ar (i32_op ar (stg6 ! 4 - stg6 ! 6)) rng, clamp_value ar (i32_op ar (stg6 ! 5 - stg6 ! 7)) rng,
              clamp_value ar (i32_op ar (stg6 ! 8 + stg6 ! 10)) rng, clamp_value ar (i32_op ar (stg6 ! 9 + stg6 ! 11)) rng,
              clamp_value ar (i32_op ar (stg6 ! 8 - stg6 ! 10)) rng, clamp_value ar (i32_op ar (stg6 ! 9 - stg6 ! 11)) rng,
              clamp_value ar (i32_op ar (stg6 ! 12 + stg6 ! 14)) rng, clamp_value ar (i32_op ar (stg6 ! 13 + stg6 ! 15)) rng,
              clamp_value ar (i32_op ar (stg6 ! 12 - stg6 ! 14)) rng, clamp_value ar (i32_op ar (stg6 ! 13 - stg6 ! 15)) rng];
            stg8 = [stg7 ! 0, stg7 ! 1, half_btf ar (COSPI_INV ! 32) (stg7 ! 2) (COSPI_INV ! 32) (stg7 ! 3) INV_COS_BIT,
              half_btf ar (COSPI_INV ! 32) (stg7 ! 2) (- (COSPI_INV ! 32)) (stg7 ! 3) INV_COS_BIT, stg7 ! 4, stg7 ! 5,
              half_btf ar (COSPI_INV ! 32) (stg7 ! 6) (COSPI_INV ! 32) (stg7 ! 7) INV_COS_BIT,
              half_btf ar (COSPI_INV ! 32) (stg7 ! 6) (- (COSPI_INV ! 32)) (stg7 ! 7) INV_COS_BIT, stg7 ! 8, stg7 ! 9,
              half_btf ar (COSPI_INV ! 32) (stg7 ! 10) (COSPI_INV ! 32) (stg7 ! 11) INV_COS_BIT,
              half_btf ar (COSPI_INV ! 32) (stg7 ! 10) (- (COSPI_INV ! 32)) (stg7 ! 11) INV_COS_BIT, stg7 ! 12, stg7 ! 13,
              half_btf ar (COSPI_INV ! 32) (stg7 ! 14) (COSPI_INV ! 32) (stg7 ! 15) INV_COS_BIT,
              half_btf ar (COSPI_INV ! 32) (stg7 ! 14) (- (COSPI_INV ! 32)) (stg7 ! 15) INV_COS_BIT]
        in Inr [stg8 ! 0, i32_op ar (- (stg8 ! 8)), stg8 ! 12, i32_op ar (- (stg8 ! 4)), stg8 ! 6, i32_op ar (- (stg8 ! 14)), stg8 ! 10, i32_op ar (- (stg8 ! 2)),
          stg8 ! 3, i32_op ar (- (stg8 ! 11)), stg8 ! 15, i32_op ar (- (stg8 ! 7)), stg8 ! 5, i32_op ar (- (stg8 ! 13)), stg8 ! 9, i32_op ar (- (stg8 ! 1))])"

definition av1_iflipadst16 :: "i32_arith \<Rightarrow> int list \<Rightarrow> nat \<Rightarrow> int list result" where
  "av1_iflipadst16 ar input rng = bindR (av1_iadst16 ar input rng) (\<lambda>output. Inr (rev output))"

definition av1_iidentity16 :: "i32_arith \<Rightarrow> int list \<Rightarrow> nat \<Rightarrow> int list result" where
  "av1_iidentity16 ar input rng =
     (if length input < 16 then Inl Fault else Inr (map (\<lambda>inp. i32_round_shift ar (i32_op ar (i32_op ar (SQRT2 * 2) * inp)) 12) (take 16 input)))"

definition av1_idct32 :: "i32_arith \<Rightarrow> int list \<Rightarrow> nat \<Rightarrow> int list result" where
  "av1_idct32 ar input rng =
     (if length input < 32 then Inl Fault
      else
        let stg1 = [input ! 0, input ! 16, input ! 8, input ! 24, input ! 4, input ! 20, input ! 12, input ! 28, input ! 2, input ! 18, input ! 10, input ! 26,
              input ! 6, input ! 22, input ! 14, input ! 30, input ! 1, input ! 17, input ! 9, input ! 25, input ! 5, input ! 21, input ! 13, input ! 29,
              input ! 3, input ! 19, input ! 11, input ! 27, input ! 7, input ! 23, input ! 15, input ! 31];
            stg2 = [stg1 ! 0, stg1 ! 1, stg1 ! 2, stg1 ! 3, stg1 ! 4, stg1 ! 5, stg1 ! 6, stg1 ! 7, stg1 ! 8, stg1 ! 9, stg1 ! 10, stg1 ! 11, stg1 ! 12, stg1 ! 13,
              stg1 ! 14, stg1 ! 15, half_btf ar (COSPI_INV ! 62) (stg1 ! 16) (- (COSPI_INV ! 2)) (stg1 ! 31) INV_COS_BIT,
              half_btf ar (COSPI_INV ! 30) (stg1 ! 17) (- (COSPI_INV ! 34)) (stg1 ! 30) INV_COS_BIT,
              half_btf ar (COSPI_INV ! 46) (stg1 ! 18) (- (COSPI_INV ! 18)) (stg1 ! 29) INV_COS_BIT,
              half_btf ar (COSPI_INV ! 14) (stg1 ! 19) (- (COSPI_INV ! 50)) (stg1 ! 28) INV_COS_BIT,
              half_btf ar (COSPI_INV ! 54) (stg1 ! 20) (- (COSPI_INV ! 10)) (stg1 ! 27) INV_COS_BIT,
              half_btf ar (COSPI_INV ! 22) (stg1 ! 21) (- (COSPI_INV ! 42)) (stg1 ! 26) INV_COS_BIT,
              half_btf ar (COSPI_INV ! 38) (stg1 ! 22) (- (COSPI_INV ! 26)) (stg1 ! 25) INV_COS_BIT,
              half_btf ar (COSPI_INV ! 6) (stg1 ! 23) (- (COSPI_INV ! 58)) (stg1 ! 24) INV_COS_BIT,
              half_btf ar (COSPI_INV ! 58) (stg1 ! 23) (COSPI_INV ! 6) (stg1 ! 24) INV_COS_BIT,
              half_btf ar (COSPI_INV ! 26) (stg1 ! 22) (COSPI_INV ! 38) (stg1 ! 25) INV_COS_BIT,
              half_btf ar (COSPI_INV ! 42) (stg1 ! 21) (COSPI_INV ! 22) (stg1 ! 26) INV_COS_BIT,
              half_btf ar (COSPI_INV ! 10) (stg1 ! 20) (COSPI_INV ! 54) (stg1 ! 27) INV_COS_BIT,
              half_btf ar (COSPI_INV ! 50) (stg1 ! 19) (COSPI_INV ! 14) (stg1 ! 28) INV_COS_BIT,
              half_btf ar (COSPI_INV ! 18) (stg1 ! 18) (COSPI_INV ! 46) (stg1 ! 29) INV_COS_BIT,
              half_btf ar (COSPI_INV ! 34) (stg1 ! 17) (COSPI_INV ! 30) (stg1 ! 30) INV_COS_BIT,
              half_btf ar (COSPI_INV ! 2) (stg1 ! 16) (COSPI_INV ! 62) (stg1 ! 31) INV_COS_BIT];
            stg3 = [stg2 ! 0, stg2 ! 1, stg2 ! 2, stg2 ! 3, stg2 ! 4, stg2 ! 5, stg2 ! 6, stg2 ! 7,
              half_btf ar (COSPI_INV ! 60) (stg2 ! 8) (- (COSPI_INV ! 4)) (stg2 ! 15) INV_COS_BIT,
              half_btf ar (COSPI_INV ! 28) (stg2 ! 9) (- (COSPI_INV ! 36)) (stg2 ! 14) INV_COS_BIT,
              half_btf ar (COSPI_INV ! 44) (stg2 ! 10) (- (COSPI_INV ! 20)) (stg2 ! 13) INV_COS_BIT,
              half_btf ar (COSPI_INV ! 12) (stg2 ! 11) (- (COSPI_INV ! 52)) (stg2 ! 12) INV_COS_BIT,
              half_btf ar (COSPI_INV ! 52) (stg2 ! 11) (COSPI_INV ! 12) (stg2 ! 12) INV_COS_BIT,
              half_btf ar (COSPI_INV ! 20) (stg2 ! 10) (COSPI_INV ! 44) (stg2 ! 13) INV_COS_BIT,
              half_btf ar (COSPI_INV ! 36) (stg2 ! 9) (COSPI_INV ! 28) (stg2 ! 14) INV_COS_BIT,
              half_btf ar (COSPI_INV ! 4) (stg2 ! 8) (COSPI_INV ! 60) (stg2 ! 15) INV_COS_BIT, clamp_value ar (i32_op ar (stg2 ! 16 + stg2 ! 17)) rng,
              clamp_value ar (i32_op ar (stg2 ! 16 - stg2 ! 17)) rng, clamp_value ar (i32_op ar (i32_op ar (- (stg2 ! 18)) + stg2 ! 19)) rng,
              clamp_value ar (i32_op ar (stg2 ! 18 + stg2 ! 19)) rng, clamp_value ar (i32_op ar (stg2 ! 20 + stg2 ! 21)) rng,
              clamp_value ar (i32_op ar (stg2 ! 20 - stg2 ! 21)) rng, clamp_value ar (i32_op ar (i32_op ar (- (stg2 ! 22)) + stg2 ! 23)) rng,
              clamp_value ar (i32_op ar (stg2 ! 22 + stg2 ! 23)) rng, clamp_value ar (i32_op ar (stg2 ! 24 + stg2 ! 25)) rng,
              clamp_value ar (i32_op ar (stg2 ! 24 - stg2 ! 25)) rng, clamp_value ar (i32_op ar (i32_op ar (- (stg2 ! 26)) + stg2 ! 27)) rng,
              clamp_value ar (i32_op ar (stg2 ! 26 + stg2 ! 27)) rng, clamp_value ar (i32_op ar (stg2 ! 28 + stg2 ! 29)) rng,
              clamp_value ar (i32_op ar (stg2 ! 28 - stg2 ! 29)) rng, clamp_value ar (i32_op ar (i32_op ar (- (stg2 ! 30)) + stg2 ! 31)) rng,
              clamp_value ar (i32_op ar (stg2 ! 30 + stg2 ! 31)) rng];
            stg4 = [stg3 ! 0, stg3 ! 1, stg3 ! 2, stg3 ! 3, half_btf ar (COSPI_INV ! 56) (stg3 ! 4) (- (COSPI_INV ! 8)) (stg3 ! 7) INV_COS_BIT,
              half_btf ar (COSPI_INV ! 24) (stg3 ! 5) (- (COSPI_INV ! 40)) (stg3 ! 6) INV_COS_BIT,
              half_btf ar (COSPI_INV ! 40) (stg3 ! 5) (COSPI_INV ! 24) (stg3 ! 6) INV_COS_BIT,
              half_btf ar (COSPI_INV ! 8) (stg3 ! 4) (COSPI_INV ! 56) (stg3 ! 7) INV_COS_BIT, clamp_value ar (i32_op ar (stg3 ! 8 + stg3 ! 9)) rng,
              clamp_value ar (i32_op ar (stg3 ! 8 - stg3 ! 9)) rng, clamp_value ar (i32_op ar (i32_op ar (- (stg3 ! 10)) + stg3 ! 11)) rng,
              clamp_value ar (i32_op ar (stg3 ! 10 + stg3 ! 11)) rng, clamp_value ar (i32_op ar (stg3 ! 12 + stg3 ! 13)) rng,
              clamp_value ar (i32_op ar (stg3 ! 12 - stg3 ! 13)) rng, clamp_value ar (i32_op ar (i32_op ar (- (stg3 ! 14)) + stg3 ! 15)) rng,
              clamp_value ar (i32_op ar (stg3 ! 14 + stg3 ! 15)) rng, stg3 ! 16,
              half_btf ar (- (COSPI_INV ! 8)) (stg3 ! 17) (COSPI_INV ! 56) (stg3 ! 30) INV_COS_BIT,
              half_btf ar (- (COSPI_INV ! 56)) (stg3 ! 18) (- (COSPI_INV ! 8)) (stg3 ! 29) INV_COS_BIT, stg3 ! 19, stg3 ! 20,
              half_btf ar (- (COSPI_INV ! 40)) (stg3 ! 21) (COSPI_INV ! 24) (stg3 ! 26) INV_COS_BIT,
              half_btf ar (- (COSPI_INV ! 24)) (stg3 ! 22) (- (COSPI_INV ! 40)) (stg3 ! 25) INV_COS_BIT, stg3 ! 23, stg3 ! 24,
              half_btf ar (- (COSPI_INV ! 40)) (stg3 ! 22) (COSPI_INV ! 24) (stg3 ! 25) INV_COS_BIT,
              half_btf ar (COSPI_INV ! 24) (stg3 ! 21) (COSPI_INV ! 40) (stg3 ! 26) INV_COS_BIT, stg3 ! 27, stg3 ! 28,
              half_btf ar (- (COSPI_INV ! 8)) (stg3 ! 18) (COSPI_INV ! 56) (stg3 ! 29) INV_COS_BIT,
              half_btf ar (COSPI_INV ! 56) (stg3 ! 17) (COSPI_INV ! 8) (stg3 ! 30) INV_COS_BIT, stg3 ! 31];
            stg5 = [half_btf ar (COSPI_INV ! 32) (stg4 ! 0) (COSPI_INV ! 32) (stg4 ! 1) INV_COS_BIT,
              half_btf ar (COSPI_INV ! 32) (stg4 ! 0) (- (COSPI_INV ! 32)) (stg4 ! 1) INV_COS_BIT,
              half_btf ar (COSPI_INV ! 48) (stg4 ! 2) (- (COSPI_INV ! 16)) (stg4 ! 3) INV_COS_BIT,
              half_btf ar (COSPI_INV ! 16) (stg4 ! 2) (COSPI_INV ! 48) (stg4 ! 3) INV_COS_BIT, clamp_value ar (i32_op ar (stg4 ! 4 + stg4 ! 5)) rng,
              clamp_value ar (i32_op ar (stg4 ! 4 - stg4 ! 5)) rng, clamp_value ar (i32_op ar (i32_op ar (- (stg4 ! 6)) + stg4 ! 7)) rng,
              clamp_value ar (i32_op ar (stg4 ! 6 + stg4 ! 7)) rng, stg4 ! 8, half_btf ar (- (COSPI_INV ! 16)) (stg4 ! 9) (COSPI_INV ! 48) (stg4 ! 14) INV_COS_BIT,
              half_btf ar (- (COSPI_INV ! 48)) (stg4 ! 10) (- (COSPI_INV ! 16)) (stg4 ! 13) INV_COS_BIT, stg4 ! 11, stg4 ! 12,
              half_btf ar (- (COSPI_INV ! 16)) (stg4 ! 10) (COSPI_INV ! 48) (stg4 ! 13) INV_COS_BIT,
              half_btf ar (COSPI_INV ! 48) (stg4 ! 9) (COSPI_INV ! 16) (stg4 ! 14) INV_COS_BIT, stg4 ! 15, clamp_value ar (i32_op ar (stg4 ! 16 + stg4 ! 19)) rng,
              clamp_value ar (i32_op ar (stg4 ! 17 + stg4 ! 18)) rng, clamp_value ar (i32_op ar (stg4 ! 17 - stg4 ! 18)) rng,
              clamp_value ar (i32_op ar (stg4 ! 16 - stg4 ! 19)) rng, clamp_value ar (i32_op ar (i32_op ar (- (stg4 ! 20)) + stg4 ! 23)) rng,
              clamp_value ar (i32_op ar (i32_op ar (- (stg4 ! 21)) + stg4 ! 22)) rng, clamp_value ar (i32_op ar (stg4 ! 21 + stg4 ! 22)) rng,
              clamp_value ar (i32_op ar (stg4 ! 20 + stg4 ! 23)) rng, clamp_value ar (i32_op ar (stg4 ! 24 + stg4 ! 27)) rng,
              clamp_value ar (i32_op ar (stg4 ! 25 + stg4 ! 26)) rng, clamp_value ar (i32_op ar (stg4 ! 25 - stg4 ! 26)) rng,
              clamp_value ar (i32_op ar (stg4 ! 24 - stg4 ! 27)) rng, clamp_value ar (i32_op ar (i32_op ar (- (stg4 ! 28)) + stg4 ! 31)) rng,
              clamp_value ar (i32_op ar (i32_op ar (- (stg4 ! 29)) + stg4 ! 30)) rng, clamp_value ar (i32_op ar (stg4 ! 29 + stg4 ! 30)) rng,
              clamp_value ar (i32_op ar (stg4 ! 28 + stg4 ! 31)) rng];
            stg6 = [clamp_value ar (i32_op ar (stg5 ! 0 + stg5 ! 3)) rng, clamp_value ar (i32_op ar (stg5 ! 1 + stg5 ! 2)) rng,
              clamp_value ar (i32_op ar (stg5 ! 1 - stg5 ! 2)) rng, clamp_value ar (i32_op ar (stg5 ! 0 - stg5 ! 3)) rng, stg5 ! 4,
              half_btf ar (- (COSPI_INV ! 32)) (stg5 ! 5) (COSPI_INV ! 32) (stg5 ! 6) INV_COS_BIT,
              half_btf ar (COSPI_INV ! 32) (stg5 ! 5) (COSPI_INV ! 32) (stg5 ! 6) INV_COS_BIT, stg5 ! 7, clamp_value ar (i32_op ar (stg5 ! 8 + stg5 ! 11)) rng,
              clamp_value ar (i32_op ar (stg5 ! 9 + stg5 ! 10)) rng, clamp_value ar (i32_op ar (stg5 ! 9 - stg5 ! 10)) rng,
              clamp_value ar (i32_op ar (stg5 ! 8 - stg5 ! 11)) rng, clamp_value ar (i32_op ar (i32_op ar (- (stg5 ! 12)) + stg5 ! 15)) rng,
              clamp_value ar (i32_op ar (i32_op ar (- (stg5 ! 13)) + stg5 ! 14)) rng, clamp_value ar (i32_op ar (stg5 ! 13 + stg5 ! 14)) rng,
              clamp_value ar (i32_op ar (stg5 ! 12 + stg5 ! 15)) rng, stg5 ! 16, stg5 ! 17,
              half_btf ar (- (COSPI_INV ! 16)) (stg5 ! 18) (COSPI_INV ! 48) (stg5 ! 29) INV_COS_BIT,
              half_btf ar (- (COSPI_INV ! 16)) (stg5 ! 19) (COSPI_INV ! 48) (stg5 ! 28) INV_COS_BIT,
              half_btf ar (- (COSPI_INV ! 48)) (stg5 ! 20) (- (COSPI_INV ! 16)) (stg5 ! 27) INV_COS_BIT,
              half_btf ar (- (COSPI_INV ! 48)) (stg5 ! 21) (- (COSPI_INV ! 16)) (stg5 ! 26) INV_COS_BIT, stg5 ! 22, stg5 ! 23, stg5 ! 24, stg5 ! 25,
              half_btf ar (- (COSPI_INV ! 16)) (stg5 ! 21) (COSPI_INV ! 48) (stg5 ! 26) INV_COS_BIT,
              half_btf ar (- (COSPI_INV ! 16)) (stg5 ! 20) (COSPI_INV ! 48) (stg5 ! 27) INV_COS_BIT,
              half_btf ar (COSPI_INV ! 48) (stg5 ! 19) (COSPI_INV ! 16) (stg5 ! 28) INV_COS_BIT,
              half_btf ar (COSPI_INV ! 48) (stg5 ! 18) (COSPI_INV ! 16) (stg5 ! 29) INV_COS_BIT, stg5 ! 30, stg5 ! 31];
            stg7 = [clamp_value ar (i32_op ar (stg6 ! 0 + stg6 ! 7)) rng, clamp_value ar (i32_op ar (stg6 ! 1 + stg6 ! 6)) rng,
              clamp_value ar (i32_op ar (stg6 ! 2 + stg6 ! 5)) rng, clamp_value ar (i32_op ar (stg6 ! 3 + stg6 ! 4)) rng,
              clamp_value ar (i32_op ar (stg6 ! 3 - stg6 ! 4)) rng, clamp_value ar (i32_op ar (stg6 ! 2 - stg6 ! 5)) rng,
              clamp_value ar (i32_op ar (stg6 ! 1 - stg6 ! 6)) rng, clamp_value ar (i32_op ar (stg6 ! 0 - stg6 ! 7)) rng, stg6 ! 8, stg6 ! 9,
              half_btf ar (- (COSPI_INV ! 32)) (stg6 ! 10) (COSPI_INV ! 32) (stg6 ! 13) INV_COS_BIT,
              half_btf ar (- (COSPI_INV ! 32)) (stg6 ! 11) (COSPI_INV ! 32) (stg6 ! 12) INV_COS_BIT,
              half_btf ar (COSPI_INV ! 32) (stg6 ! 11) (COSPI_INV ! 32) (stg6 ! 12) INV_COS_BIT,
              half_btf ar (COSPI_INV ! 32) (stg6 ! 10) (COSPI_INV ! 32) (stg6 ! 13) INV_COS_BIT, stg6 ! 14, stg6 ! 15,
              clamp_value ar (i32_op ar (stg6 ! 16 + stg6 ! 23)) rng, clamp_value ar (i32_op ar (stg6 ! 17 + stg6 ! 22)) rng,
              clamp_value ar (i32_op ar (stg6 ! 18 + stg6 ! 21)) rng, clamp_value ar (i32_op ar (stg6 ! 19 + stg6 ! 20)) rng,
              clamp_value ar (i32_op ar (stg6 ! 19 - stg6 ! 20)) rng, clamp_value ar (i32_op ar (stg6 ! 18 - stg6 ! 21)) rng,
              clamp_value ar (i32_op ar (stg6 ! 17 - stg6 ! 22)) rng, clamp_value ar (i32_op ar (stg6 ! 16 - stg6 ! 23)) rng,
              clamp_value ar (i32_op ar (i32_op ar (- (stg6 ! 24)) + stg6 ! 31)) rng, clamp_value ar (i32_op ar (i32_op ar (- (stg6 ! 25)) + stg6 ! 30)) rng,
              clamp_value ar (i32_op ar (i32_op ar (- (stg6 ! 26)) + stg6 ! 29)) rng, clamp_value ar (i32_op ar (i32_op ar (- (stg6 ! 27)) + stg6 ! 28)) rng,
              clamp_value ar (i32_op ar (stg6 ! 27 + stg6 ! 28)) rng, clamp_value ar (i32_op ar (stg6 ! 26 + stg6 ! 29)) rng,
              clamp_value ar (i32_op ar (stg6 ! 25 + stg6 ! 30)) rng, clamp_value ar (i32_op ar (stg6 ! 24 + stg6 ! 31)) rng];
            stg8 = [clamp_value ar (i32_op ar (stg7 ! 0 + stg7 ! 15)) rng, clamp_value ar (i32_op ar (stg7 ! 1 + stg7 ! 14)) rng,
              clamp_value ar (i32_op ar (stg7 ! 2 + stg7 ! 13)) rng, clamp_value ar (i32_op ar (stg7 ! 3 + stg7 ! 12)) rng,
              clamp_value ar (i32_op ar (stg7 ! 4 + stg7 ! 11)) rng, clamp_value ar (i32_op ar (stg7 ! 5 + stg7 ! 10)) rng,
              clamp_value ar (i32_op ar (stg7 ! 6 + stg7 ! 9)) rng, clamp_value ar (i32_op ar (stg7 ! 7 + stg7 ! 8)) rng,
              clamp_value ar (i32_op ar (stg7 ! 7 - stg7 ! 8)) rng, clamp_value ar (i32_op ar (stg7 ! 6 - stg7 ! 9)) rng,
              clamp_value ar (i32_op ar (stg7 ! 5 - stg7 ! 10)) rng, clamp_value ar (i32_op ar (stg7 ! 4 - stg7 ! 11)) rng,
              clamp_value ar (i32_op ar (stg7 ! 3 - stg7 ! 12)) rng, clamp_value ar (i32_op ar (stg7 ! 2 - stg7 ! 13)) rng,
              clamp_value ar (i32_op ar (stg7 ! 1 - stg7 ! 14)) rng, clamp_value ar (i32_op ar (stg7 ! 0 - stg7 ! 15)) rng, stg7 ! 16, stg7 ! 17, stg7 ! 18,
              stg7 ! 19, half_btf ar (- (COSPI_INV ! 32)) (stg7 ! 20) (COSPI_INV ! 32) (stg7 ! 27) INV_COS_BIT,
              half_btf ar (- (COSPI_INV ! 32)) (stg7 ! 21) (COSPI_INV ! 32) (stg7 ! 26) INV_COS_BIT,
              half_btf ar (- (COSPI_INV ! 32)) (stg7 ! 22) (COSPI_INV ! 32) (stg7 ! 25) INV_COS_BIT,
              half_btf ar (- (COSPI_INV ! 32)) (stg7 ! 23) (COSPI_INV ! 32) (stg7 ! 24) INV_COS_BIT,
              half_btf ar (COSPI_INV ! 32) (stg7 ! 23) (COSPI_INV ! 32) (stg7 ! 24) INV_COS_BIT,
              half_btf ar (COSPI_INV ! 32) (stg7 ! 22) (COSPI_INV ! 32) (stg7 ! 25) INV_COS_BIT,
              half_btf ar (COSPI_INV ! 32) (stg7 ! 21) (COSPI_INV ! 32) (stg7 ! 26) INV_COS_BIT,
              half_btf ar (COSPI_INV ! 32) (stg7 ! 20) (COSPI_INV ! 32) (stg7 ! 27) INV_COS_BIT, stg7 ! 28, stg7 ! 29, stg7 ! 30, stg7 ! 31]
        in Inr [clamp_value ar (i32_op ar (stg8 ! 0 + stg8 ! 31)) rng, clamp_value ar (i32_op ar (stg8 ! 1 + stg8 ! 30)) rng,
          clamp_value ar (i32_op ar (stg8 ! 2 + stg8 ! 29)) rng, clamp_value ar (i32_op ar (stg8 ! 3 + stg8 ! 28)) rng,
          clamp_value ar (i32_op ar (stg8 ! 4 + stg8 ! 27)) rng, clamp_value ar (i32_op ar (stg8 ! 5 + stg8 ! 26)) rng,
          clamp_value ar (i32_op ar (stg8 ! 6 + stg8 ! 25)) rng, clamp_value ar (i32_op ar (stg8 ! 7 + stg8 ! 24)) rng,
          clamp_value ar (i32_op ar (stg8 ! 8 + stg8 ! 23)) rng, clamp_value ar (i32_op ar (stg8 ! 9 + stg8 ! 22)) rng,
          clamp_value ar (i32_op ar (stg8 ! 10 + stg8 ! 21)) rng, clamp_value ar (i32_op ar (stg8 ! 11 + stg8 ! 20)) rng,
          clamp_value ar (i32_op ar (stg8 ! 12 + stg8 ! 19)) rng, clamp_value ar (i32_op ar (stg8 ! 13 + stg8 ! 18)) rng,
          clamp_value ar (i32_op ar (stg8 ! 14 + stg8 ! 17)) rng, clamp_value ar (i32_op ar (stg8 ! 15 + stg8 ! 16)) rng,
          clamp_value ar (i32_op ar (stg8 ! 15 - stg8 ! 16)) rng, clamp_value ar (i32_op ar (stg8 ! 14 - stg8 ! 17)) rng,
          clamp_value ar (i32_op ar (stg8 ! 13 - stg8 ! 18)) rng, clamp_value ar (i32_op ar (stg8 ! 12 - stg8 ! 19)) rng,
          clamp_value ar (i32_op ar (stg8 ! 11 - stg8 ! 20)) rng, clamp_value ar (i32_op ar (stg8 ! 10 - stg8 ! 21)) rng,
          clamp_value ar (i32_op ar (stg8 ! 9 - stg8 ! 22)) rng, clamp_value ar (i32_op ar (stg8 ! 8 - stg8 ! 23)) rng,
          clamp_value ar (i32_op ar (stg8 ! 7 - stg8 ! 24)) rng, clamp_value ar (i32_op ar (stg8 ! 6 - stg8 ! 25)) rng,
          clamp_value ar (i32_op ar (stg8 ! 5 - stg8 ! 26)) rng, clamp_value ar (i32_op ar (stg8 ! 4 - stg8 ! 27)) rng,
          clamp_value ar (i32_op ar (stg8 ! 3 - stg8 ! 28)) rng, clamp_value ar (i32_op ar (stg8 ! 2 - stg8 ! 29)) rng,
          clamp_value ar (i32_op ar (stg8 ! 1 - stg8 ! 30)) rng, clamp_value ar (i32_op ar (stg8 ! 0 - stg8 ! 31)) rng])"

definition av1_iidentity32 :: "i32_arith \<Rightarrow> int list \<Rightarrow> nat \<Rightarrow> int list result" where
  "av1_iidentity32 ar input rng =
     (if length input < 32 then Inl Fault else Inr (map (\<lambda>inp. i32_op ar (4 * inp)) (take 32 input)))"

definition av1_idct64 :: "i32_arith \<Rightarrow> int list \<Rightarrow> nat \<Rightarrow> int list result" where
  "av1_idct64 ar input rng =
     (if length input < 64 then Inl Fault
      else
        let stg1 = [input ! 0, input ! 32, input ! 16, input ! 48, input ! 8, input ! 40, input ! 24, input ! 56, input ! 4, input ! 36, input ! 20, input ! 52,
              input ! 12, input ! 44, input ! 28, input ! 60, input ! 2, input ! 34, input ! 18, input ! 50, input ! 10, input ! 42, input ! 26, input ! 58,
              input ! 6, input ! 38, input ! 22, input ! 54, input ! 14, input ! 46, input ! 30, input ! 62, input ! 1, input ! 33, input ! 17, input ! 49,
              input ! 9, input ! 41, input ! 25, input ! 57, input ! 5, input ! 37, input ! 21, input ! 53, input ! 13, input ! 45, input ! 29, input ! 61,
              input ! 3, input ! 35, input ! 19, input ! 51, input ! 11, input ! 43, input ! 27, input ! 59, input ! 7, input ! 39, input ! 23, input ! 55,
              input ! 15, input ! 47, input ! 31, input ! 63];
            stg2 = [stg1 ! 0, stg1 ! 1, stg1 ! 2, stg1 ! 3, stg1 ! 4, stg1 ! 5, stg1 ! 6, stg1 ! 7, stg1 ! 8, stg1 ! 9, stg1 ! 10, stg1 ! 11, stg1 ! 12, stg1 ! 13,
              stg1 ! 14, stg1 ! 15, stg1 ! 16, stg1 ! 17, stg1 ! 18, stg1 ! 19, stg1 ! 20, stg1 ! 21, stg1 ! 22, stg1 ! 23, stg1 ! 24, stg1 ! 25, stg1 ! 26,
              stg1 ! 27, stg1 ! 28, stg1 ! 29, stg1 ! 30, stg1 ! 31, half_btf ar (COSPI_INV ! 63) (stg1 ! 32) (- (COSPI_INV ! 1)) (stg1 ! 63) INV_COS_BIT,
              half_btf ar (COSPI_INV ! 31) (stg1 ! 33) (- (COSPI_INV ! 33)) (stg1 ! 62) INV_COS_BIT,
              half_btf ar (COSPI_INV ! 47) (stg1 ! 34) (- (COSPI_INV ! 17)) (stg1 ! 61) INV_COS_BIT,
              half_btf ar (COSPI_INV ! 15) (stg1 ! 35) (- (COSPI_INV ! 49)) (stg1 ! 60) INV_COS_BIT,
              half_btf ar (COSPI_INV ! 55) (stg1 ! 36) (- (COSPI_INV ! 9)) (stg1 ! 59) INV_COS_BIT,
              half_btf ar (COSPI_INV ! 23) (stg1 ! 37) (- (COSPI_INV ! 41)) (stg1 ! 58) INV_COS_BIT,
              half_btf ar (COSPI_INV ! 39) (stg1 ! 38) (- (COSPI_INV ! 25)) (stg1 ! 57) INV_COS_BIT,
              half_btf ar (COSPI_INV ! 7) (stg1 ! 39) (- (COSPI_INV ! 57)) (stg1 ! 56) INV_COS_BIT,
              half_btf ar (COSPI_INV ! 59) (stg1 ! 40) (- (COSPI_INV ! 5)) (stg1 ! 55) INV_COS_BIT,
              half_btf ar (COSPI_INV ! 27) (stg1 ! 41) (- (COSPI_INV ! 37)) (stg1 ! 54) INV_COS_BIT,
              half_btf ar (COSPI_INV ! 43) (stg1 ! 42) (- (COSPI_INV ! 21)) (stg1 ! 53) INV_COS_BIT,
              half_btf ar (COSPI_INV ! 11) (stg1 ! 43) (- (COSPI_INV ! 53)) (stg1 ! 52) INV_COS_BIT,
              half_btf ar (COSPI_INV ! 51) (stg1 ! 44) (- (COSPI_INV ! 13)) (stg1 ! 51) INV_COS_BIT,
              half_btf ar (COSPI_INV ! 19) (stg1 ! 45) (- (COSPI_INV ! 45)) (stg1 ! 50) INV_COS_BIT,
              half_btf ar (COSPI_INV ! 35) (stg1 ! 46) (- (COSPI_INV ! 29)) (stg1 ! 49) INV_COS_BIT,
              half_btf ar (COSPI_INV ! 3) (stg1 ! 47) (- (COSPI_INV ! 61)) (stg1 ! 48) INV_COS_BIT,
              half_btf ar (COSPI_INV ! 61) (stg1 ! 47) (COSPI_INV ! 3) (stg1 ! 48) INV_COS_BIT,
              half_btf ar (COSPI_INV ! 29) (stg1 ! 46) (COSPI_INV ! 35) (stg1 ! 49) INV_COS_BIT,
              half_btf ar (COSPI_INV ! 45) (stg1 ! 45) (COSPI_INV ! 19) (stg1 ! 50) INV_COS_BIT,
              half_btf ar (COSPI_INV ! 13) (stg1 ! 44) (COSPI_INV ! 51) (stg1 ! 51) INV_COS_BIT,
              half_btf ar (COSPI_INV ! 53) (stg1 ! 43) (COSPI_INV ! 11) (stg1 ! 52) INV_COS_BIT,
              half_btf ar (COSPI_INV ! 21) (stg1 ! 42) (COSPI_INV ! 43) (stg1 ! 53) INV_COS_BIT,
              half_btf ar (COSPI_INV ! 37) (stg1 ! 41) (COSPI_INV ! 27) (stg1 ! 54) INV_COS_BIT,
              half_btf ar (COSPI_INV ! 5) (stg1 ! 40) (COSPI_INV ! 59) (stg1 ! 55) INV_COS_BIT,
              half_btf ar (COSPI_INV ! 57) (stg1 ! 39) (COSPI_INV ! 7) (stg1 ! 56) INV_COS_BIT,
              half_btf ar (COSPI_INV ! 25) (stg1 ! 38) (COSPI_INV ! 39) (stg1 ! 57) INV_COS_BIT,
              half_btf ar (COSPI_INV ! 41) (stg1 ! 37) (COSPI_INV ! 23) (stg1 ! 58) INV_COS_BIT,
              half_btf ar (COSPI_INV ! 9) (stg1 ! 36) (COSPI_INV ! 55) (stg1 ! 59) INV_COS_BIT,
              half_btf ar (COSPI_INV ! 49) (stg1 ! 35) (COSPI_INV ! 15) (stg1 ! 60) INV_COS_BIT,
              half_btf ar (COSPI_INV ! 17) (stg1 ! 34) (COSPI_INV ! 47) (stg1 ! 61) INV_COS_BIT,
              half_btf ar (COSPI_INV ! 33) (stg1 ! 33) (COSPI_INV ! 31) (stg1 ! 62) INV_COS_BIT,
              half_btf ar (COSPI_INV ! 1) (stg1 ! 32) (COSPI_INV ! 63) (stg1 ! 63) INV_COS_BIT];
            stg3 = [stg2 ! 0, stg2 ! 1, stg2 ! 2, stg2 ! 3, stg2 ! 4, stg2 ! 5, stg2 ! 6, stg2 ! 7, stg2 ! 8, stg2 ! 9, stg2 ! 10, stg2 ! 11, stg2 ! 12, stg2 ! 13,
              stg2 ! 14, stg2 ! 15, half_btf ar (COSPI_INV ! 62) (stg2 ! 16) (- (COSPI_INV ! 2)) (stg2 ! 31) INV_COS_BIT,
              half_btf ar (COSPI_INV ! 30) (stg2 ! 17) (- (COSPI_INV ! 34)) (stg2 ! 30) INV_COS_BIT,
              half_btf ar (COSPI_INV ! 46) (stg2 ! 18) (- (COSPI_INV ! 18)) (stg2 ! 29) INV_COS_BIT,
              half_btf ar (COSPI_INV ! 14) (stg2 ! 19) (- (COSPI_INV ! 50)) (stg2 ! 28) INV_COS_BIT,
              half_btf ar (COSPI_INV ! 54) (stg2 ! 20) (- (COSPI_INV ! 10)) (stg2 ! 27) INV_COS_BIT,
              half_btf ar (COSPI_INV ! 22) (stg2 ! 21) (- (COSPI_INV ! 42)) (stg2 ! 26) INV_COS_BIT,
              half_btf ar (COSPI_INV ! 38) (stg2 ! 22) (- (COSPI_INV ! 26)) (stg2 ! 25) INV_COS_BIT,
              half_btf ar (COSPI_INV ! 6) (stg2 ! 23) (- (COSPI_INV ! 58)) (stg2 ! 24) INV_COS_BIT,
              half_btf ar (COSPI_INV ! 58) (stg2 ! 23) (COSPI_INV ! 6) (stg2 ! 24) INV_COS_BIT,
              half_btf ar (COSPI_INV ! 26) (stg2 ! 22) (COSPI_INV ! 38) (stg2 ! 25) INV_COS_BIT,
              half_btf ar (COSPI_INV ! 42) (stg2 ! 21) (COSPI_INV ! 22) (stg2 ! 26) INV_COS_BIT,
              half_btf ar (COSPI_INV ! 10) (stg2 ! 20) (COSPI_INV ! 54) (stg2 ! 27) INV_COS_BIT,
              half_btf ar (COSPI_INV ! 50) (stg2 ! 19) (COSPI_INV ! 14) (stg2 ! 28) INV_COS_BIT,
              half_btf ar (COSPI_INV ! 18) (stg2 ! 18) (COSPI_INV ! 46) (stg2 ! 29) INV_COS_BIT,
              half_btf ar (COSPI_INV ! 34) (stg2 ! 17) (COSPI_INV ! 30) (stg2 ! 30) INV_COS_BIT,
              half_btf ar (COSPI_INV ! 2) (stg2 ! 16) (COSPI_INV ! 62) (stg2 ! 31) INV_COS_BIT, clamp_value ar (i32_op ar (stg2 ! 32 + stg2 ! 33)) rng,
              clamp_value ar (i32_op ar (stg2 ! 32 - stg2 ! 33)) rng, clamp_value ar (i32_op ar (i32_op ar (- (stg2 ! 34)) + stg2 ! 35)) rng,
              clamp_value ar (i32_op ar (stg2 ! 34 + stg2 ! 35)) rng, clamp_value ar (i32_op ar (stg2 ! 36 + stg2 ! 37)) rng,
              clamp_value ar (i32_op ar (stg2 ! 36 - stg2 ! 37)) rng, clamp_value ar (i32_op ar (i32_op ar (- (stg2 ! 38)) + stg2 ! 39)) rng,
              clamp_value ar (i32_op ar (stg2 ! 38 + stg2 ! 39)) rng, clamp_value ar (i32_op ar (stg2 ! 40 + stg2 ! 41)) rng,
              clamp_value ar (i32_op ar (stg2 ! 40 - stg2 ! 41)) rng, clamp_value ar (i32_op ar (i32_op ar (- (stg2 ! 42)) + stg2 ! 43)) rng,
              clamp_value ar (i32_op ar (stg2 ! 42 + stg2 ! 43)) rng, clamp_value ar (i32_op ar (stg2 ! 44 + stg2 ! 45)) rng,
              clamp_value ar (i32_op ar (stg2 ! 44 - stg2 ! 45)) rng, clamp_value ar (i32_op ar (i32_op ar (- (stg2 ! 46)) + stg2 ! 47)) rng,
              clamp_value ar (i32_op ar (stg2 ! 46 + stg2 ! 47)) rng, clamp_value ar (i32_op ar (stg2 ! 48 + stg2 ! 49)) rng,
              clamp_value ar (i32_op ar (stg2 ! 48 - stg2 ! 49)) rng, clamp_value ar (i32_op ar (i32_op ar (- (stg2 ! 50)) + stg2 ! 51)) rng,
              clamp_value ar (i32_op ar (stg2 ! 50 + stg2 ! 51)) rng, clamp_value ar (i32_op ar (stg2 ! 52 + stg2 ! 53)) rng,
              clamp_value ar (i32_op ar (stg2 ! 52 - stg2 ! 53)) rng, clamp_value ar (i32_op ar (i32_op ar (- (stg2 ! 54)) + stg2 ! 55)) rng,
              clamp_value ar (i32_op ar (stg2 ! 54 + stg2 ! 55)) rng, clamp_value ar (i32_op ar (stg2 ! 56 + stg2 ! 57)) rng,
              clamp_value ar (i32_op ar (stg2 ! 56 - stg2 ! 57)) rng, clamp_value ar (i32_op ar (i32_op ar (- (stg2 ! 58)) + stg2 ! 59)) rng,
              clamp_value ar (i32_op ar (stg2 ! 58 + stg2 ! 59)) rng, clamp_value ar (i32_op ar (stg2 ! 60 + stg2 ! 61)) rng,
              clamp_value ar (i32_op ar (stg2 ! 60 - stg2 ! 61)) rng, clamp_value ar (i32_op ar (i32_op ar (- (stg2 ! 62)) + stg2 ! 63)) rng,
              clamp_value ar (i32_op ar (stg2 ! 62 + stg2 ! 63)) rng];
            stg4 = [stg3 ! 0, stg3 ! 1, stg3 ! 2, stg3 ! 3, stg3 ! 4, stg3 ! 5, stg3 ! 6, stg3 ! 7,
              half_btf ar (COSPI_INV ! 60) (stg3 ! 8) (- (COSPI_INV ! 4)) (stg3 ! 15) INV_COS_BIT,
              half_btf ar (COSPI_INV ! 28) (stg3 ! 9) (- (COSPI_INV ! 36)) (stg3 ! 14) INV_COS_BIT,
              half_btf ar (COSPI_INV ! 44) (stg3 ! 10) (- (COSPI_INV ! 20)) (stg3 ! 13) INV_COS_BIT,
              half_btf ar (COSPI_INV ! 12) (stg3 ! 11) (- (COSPI_INV ! 52)) (stg3 ! 12) INV_COS_BIT,
              half_btf ar (COSPI_INV ! 52) (stg3 ! 11) (COSPI_INV ! 12) (stg3 ! 12) INV_COS_BIT,
              half_btf ar (COSPI_INV ! 20) (stg3 ! 10) (COSPI_INV ! 44) (stg3 ! 13) INV_COS_BIT,
              half_btf ar (COSPI_INV ! 36) (stg3 ! 9) (COSPI_INV ! 28) (stg3 ! 14) INV_COS_BIT,
              half_btf ar (COSPI_INV ! 4) (stg3 ! 8) (COSPI_INV ! 60) (stg3 ! 15) INV_COS_BIT, clamp_value ar (i32_op ar (stg3 ! 16 + stg3 ! 17)) rng,
              clamp_value ar (i32_op ar (stg3 ! 16 - stg3 ! 17)) rng, clamp_value ar (i32_op ar (i32_op ar (- (stg3 ! 18)) + stg3 ! 19)) rng,
              clamp_value ar (i32_op ar (stg3 ! 18 + stg3 ! 19)) rng, clamp_value ar (i32_op ar (stg3 ! 20 + stg3 ! 21)) rng,
              clamp_value ar (i32_op ar (stg3 ! 20 - stg3 ! 21)) rng, clamp_value ar (i32_op ar (i32_op ar (- (stg3 ! 22)) + stg3 ! 23)) rng,
              clamp_value ar (i32_op ar (stg3 ! 22 + stg3 ! 23)) rng, clamp_value ar (i32_op ar (stg3 ! 24 + stg3 ! 25)) rng,
              clamp_value ar (i32_op ar (stg3 ! 24 - stg3 ! 25)) rng, clamp_value ar (i32_op ar (i32_op ar (- (stg3 ! 26)) + stg3 ! 27)) rng,
              clamp_value ar (i32_op ar (stg3 ! 26 + stg3 ! 27)) rng, clamp_value ar (i32_op ar (stg3 ! 28 + stg3 ! 29)) rng,
              clamp_value ar (i32_op ar (stg3 ! 28 - stg3 ! 29)) rng, clamp_value ar (i32_op ar (i32_op ar (- (stg3 ! 30)) + stg3 ! 31)) rng,
              clamp_value ar (i32_op ar (stg3 ! 30 + stg3 ! 31)) rng, stg3 ! 32,
              half_btf ar (- (COSPI_INV ! 4)) (stg3 ! 33) (COSPI_INV ! 60) (stg3 ! 62) INV_COS_BIT,
              half_btf ar (- (COSPI_INV ! 60)) (stg3 ! 34) (- (COSPI_INV ! 4)) (stg3 ! 61) INV_COS_BIT, stg3 ! 35, stg3 ! 36,
              half_btf ar (- (COSPI_INV ! 36)) (stg3 ! 37) (COSPI_INV ! 28) (stg3 ! 58) INV_COS_BIT,
              half_btf ar (- (COSPI_INV ! 28)) (stg3 ! 38) (- (COSPI_INV ! 36)) (stg3 ! 57) INV_COS_BIT, stg3 ! 39, stg3 ! 40,
              half_btf ar (- (COSPI_INV ! 20)) (stg3 ! 41) (COSPI_INV ! 44) (stg3 ! 54) INV_COS_BIT,
              half_btf ar (- (COSPI_INV ! 44)) (stg3 ! 42) (- (COSPI_INV ! 20)) (stg3 ! 53) INV_COS_BIT, stg3 ! 43, stg3 ! 44,
              half_btf ar (- (COSPI_INV ! 52)) (stg3 ! 45) (COSPI_INV ! 12) (stg3 ! 50) INV_COS_BIT,
              half_btf ar (- (COSPI_INV ! 12)) (stg3 ! 46) (- (COSPI_INV ! 52)) (stg3 ! 49) INV_COS_BIT, stg3 ! 47, stg3 ! 48,
              half_btf ar (- (COSPI_INV ! 52)) (stg3 ! 46) (COSPI_INV ! 12) (stg3 ! 49) INV_COS_BIT,
              half_btf ar (COSPI_INV ! 12) (stg3 ! 45) (COSPI_INV ! 52) (stg3 ! 50) INV_COS_BIT, stg3 ! 51, stg3 ! 52,
              half_btf ar (- (COSPI_INV ! 20)) (stg3 ! 42) (COSPI_INV ! 44) (stg3 ! 53) INV_COS_BIT,
              half_btf ar (COSPI_INV ! 44) (stg3 ! 41) (COSPI_INV ! 20) (stg3 ! 54) INV_COS_BIT, stg3 ! 55, stg3 ! 56,
              half_btf ar (- (COSPI_INV ! 36)) (stg3 ! 38) (COSPI_INV ! 28) (stg3 ! 57) INV_COS_BIT,
              half_btf ar (COSPI_INV ! 28) (stg3 ! 37) (COSPI_INV ! 36) (stg3 ! 58) INV_COS_BIT, stg3 ! 59, stg3 ! 60,
              half_btf ar (- (COSPI_INV ! 4)) (stg3 ! 34) (COSPI_INV ! 60) (stg3 ! 61) INV_COS_BIT,
              half_btf ar (COSPI_INV ! 60) (stg3 ! 33) (COSPI_INV ! 4) (stg3 ! 62) INV_COS_BIT, stg3 ! 63];
            stg5 = [stg4 ! 0, stg4 ! 1, stg4 ! 2, stg4 ! 3, half_btf ar (COSPI_INV ! 56) (stg4 ! 4) (- (COSPI_INV ! 8)) (stg4 ! 7) INV_COS_BIT,
              half_btf ar (COSPI_INV ! 24) (stg4 ! 5) (- (COSPI_INV ! 40)) (stg4 ! 6) INV_COS_BIT,
              half_btf ar (COSPI_INV ! 40) (stg4 ! 5) (COSPI_INV ! 24) (stg4 ! 6) INV_COS_BIT,
              half_btf ar (COSPI_INV ! 8) (stg4 ! 4) (COSPI_INV ! 56) (stg4 ! 7) INV_COS_BIT, clamp_value ar (i32_op ar (stg4 ! 8 + stg4 ! 9)) rng,
              clamp_value ar (i32_op ar (stg4 ! 8 - stg4 ! 9)) rng, clamp_value ar (i32_op ar (i32_op ar (- (stg4 ! 10)) + stg4 ! 11)) rng,
              clamp_value ar (i32_op ar (stg4 ! 10 + stg4 ! 11)) rng, clamp_value ar (i32_op ar (stg4 ! 12 + stg4 ! 13)) rng,
              clamp_value ar (i32_op ar (stg4 ! 12 - stg4 ! 13)) rng, clamp_value ar (i32_op ar (i32_op ar (- (stg4 ! 14)) + stg4 ! 15)) rng,
              clamp_value ar (i32_op ar (stg4 ! 14 + stg4 ! 15)) rng, stg4 ! 16,
              half_btf ar (- (COSPI_INV ! 8)) (stg4 ! 17) (COSPI_INV ! 56) (stg4 ! 30) INV_COS_BIT,
              half_btf ar (- (COSPI_INV ! 56)) (stg4 ! 18) (- (COSPI_INV ! 8)) (stg4 ! 29) INV_COS_BIT, stg4 ! 19, stg4 ! 20,
              half_btf ar (- (COSPI_INV ! 40)) (stg4 ! 21) (COSPI_INV ! 24) (stg4 ! 26) INV_COS_BIT,
              half_btf ar (- (COSPI_INV ! 24)) (stg4 ! 22) (- (COSPI_INV ! 40)) (stg4 ! 25) INV_COS_BIT, stg4 ! 23, stg4 ! 24,
              half_btf ar (- (COSPI_INV ! 40)) (stg4 ! 22) (COSPI_INV ! 24) (stg4 ! 25) INV_COS_BIT,
              half_btf ar (COSPI_INV ! 24) (stg4 ! 21) (COSPI_INV ! 40) (stg4 ! 26) INV_COS_BIT, stg4 ! 27, stg4 ! 28,
              half_btf ar (- (COSPI_INV ! 8)) (stg4 ! 18) (COSPI_INV ! 56) (stg4 ! 29) INV_COS_BIT,
              half_btf ar (COSPI_INV ! 56) (stg4 ! 17) (COSPI_INV ! 8) (stg4 ! 30) INV_COS_BIT, stg4 ! 31, clamp_value ar (i32_op ar (stg4 ! 32 + stg4 ! 35)) rng,
              clamp_value ar (i32_op ar (stg4 ! 33 + stg4 ! 34)) rng, clamp_value ar (i32_op ar (stg4 ! 33 - stg4 ! 34)) rng,
              clamp_value ar (i32_op ar (stg4 ! 32 - stg4 ! 35)) rng, clamp_value ar (i32_op ar (i32_op ar (- (stg4 ! 36)) + stg4 ! 39)) rng,
              clamp_value ar (i32_op ar (i32_op ar (- (stg4 ! 37)) + stg4 ! 38)) rng, clamp_value ar (i32_op ar (stg4 ! 37 + stg4 ! 38)) rng,
              clamp_value ar (i32_op ar (stg4 ! 36 + stg4 ! 39)) rng, clamp_value ar (i32_op ar (stg4 ! 40 + stg4 ! 43)) rng,
              clamp_value ar (i32_op ar (stg4 ! 41 + stg4 ! 42)) rng, clamp_value ar (i32_op ar (stg4 ! 41 - stg4 ! 42)) rng,
              clamp_value ar (i32_op ar (stg4 ! 40 - stg4 ! 43)) rng, clamp_value ar (i32_op ar (i32_op ar (- (stg4 ! 44)) + stg4 ! 47)) rng,
              clamp_value ar (i32_op ar (i32_op ar (- (stg4 ! 45)) + stg4 ! 46)) rng, clamp_value ar (i32_op ar (stg4 ! 45 + stg4 ! 46)) rng,
              clamp_value ar (i32_op ar (stg4 ! 44 + stg4 ! 47)) rng, clamp_value ar (i32_op ar (stg4 ! 48 + stg4 ! 51)) rng,
              clamp_value ar (i32_op ar (stg4 ! 49 + stg4 ! 50)) rng, clamp_value ar (i32_op ar (stg4 ! 49 - stg4 ! 50)) rng,
              clamp_value ar (i32_op ar (stg4 ! 48 - stg4 ! 51)) rng, clamp_value ar (i32_op ar (i32_op ar (- (stg4 ! 52)) + stg4 ! 55)) rng,
              clamp_value ar (i32_op ar (i32_op ar (- (stg4 ! 53)) + stg4 ! 54)) rng, clamp_value ar (i32_op ar (stg4 ! 53 + stg4 ! 54)) rng,
              clamp_value ar (i32_op ar (stg4 ! 52 + stg4 ! 55)) rng, clamp_value ar (i32_op ar (stg4 ! 56 + stg4 ! 59)) rng,
              clamp_value ar (i32_op ar (stg4 ! 57 + stg4 ! 58)) rng, clamp_value ar (i32_op ar (stg4 ! 57 - stg4 ! 58)) rng,
              clamp_value ar (i32_op ar (stg4 ! 56 - stg4 ! 59)) rng, clamp_value ar (i32_op ar (i32_op ar (- (stg4 ! 60)) + stg4 ! 63)) rng,
              clamp_value ar (i32_op ar (i32_op ar (- (stg4 ! 61)) + stg4 ! 62)) rng, clamp_value ar (i32_op ar (stg4 ! 61 + stg4 ! 62)) rng,
              clamp_value ar (i32_op ar (stg4 ! 60 + stg4 ! 63)) rng];
            stg6 = [half_btf ar (COSPI_INV ! 32) (stg5 ! 0) (COSPI_INV ! 32) (stg5 ! 1) INV_COS_BIT,
              half_btf ar (COSPI_INV ! 32) (stg5 ! 0) (- (COSPI_INV ! 32)) (stg5 ! 1) INV_COS_BIT,
              half_btf ar (COSPI_INV ! 48) (stg5 ! 2) (- (COSPI_INV ! 16)) (stg5 ! 3) INV_COS_BIT,
              half_btf ar (COSPI_INV ! 16) (stg5 ! 2) (COSPI_INV ! 48) (stg5 ! 3) INV_COS_BIT, clamp_value ar (i32_op ar (stg5 ! 4 + stg5 ! 5)) rng,
              clamp_value ar (i32_op ar (stg5 ! 4 - stg5 ! 5)) rng, clamp_value ar (i32_op ar (i32_op ar (- (stg5 ! 6)) + stg5 ! 7)) rng,
              clamp_value ar (i32_op ar (stg5 ! 6 + stg5 ! 7)) rng, stg5 ! 8, half_btf ar (- (COSPI_INV ! 16)) (stg5 ! 9) (COSPI_INV ! 48) (stg5 ! 14) INV_COS_BIT,
              half_btf ar (- (COSPI_INV ! 48)) (stg5 ! 10) (- (COSPI_INV ! 16)) (stg5 ! 13) INV_COS_BIT, stg5 ! 11, stg5 ! 12,
              half_btf ar (- (COSPI_INV ! 16)) (stg5 ! 10) (COSPI_INV ! 48) (stg5 ! 13) INV_COS_BIT,
              half_btf ar (COSPI_INV ! 48) (stg5 ! 9) (COSPI_INV ! 16) (stg5 ! 14) INV_COS_BIT, stg5 ! 15, clamp_value ar (i32_op ar (stg5 ! 16 + stg5 ! 19)) rng,
              clamp_value ar (i32_op ar (stg5 ! 17 + stg5 ! 18)) rng, clamp_value ar (i32_op ar (stg5 ! 17 - stg5 ! 18)) rng,
              clamp_value ar (i32_op ar (stg5 ! 16 - stg5 ! 19)) rng, clamp_value ar (i32_op ar (i32_op ar (- (stg5 ! 20)) + stg5 ! 23)) rng,
              clamp_value ar (i32_op ar (i32_op ar (- (stg5 ! 21)) + stg5 ! 22)) rng, clamp_value ar (i32_op ar (stg5 ! 21 + stg5 ! 22)) rng,
              clamp_value ar (i32_op ar (stg5 ! 20 + stg5 ! 23)) rng, clamp_value ar (i32_op ar (stg5 ! 24 + stg5 ! 27)) rng,
              clamp_value ar (i32_op ar (stg5 ! 25 + stg5 ! 26)) rng, clamp_value ar (i32_op ar (stg5 ! 25 - stg5 ! 26)) rng,
              clamp_value ar (i32_op ar (stg5 ! 24 - stg5 ! 27)) rng, clamp_value ar (i32_op ar (i32_op ar (- (stg5 ! 28)) + stg5 ! 31)) rng,
              clamp_value ar (i32_op ar (i32_op ar (- (stg5 ! 29)) + stg5 ! 30)) rng, clamp_value ar (i32_op ar (stg5 ! 29 + stg5 ! 30)) rng,
              clamp_value ar (i32_op ar (stg5 ! 28 + stg5 ! 31)) rng, stg5 ! 32, stg5 ! 33,
              half_btf ar (- (COSPI_INV ! 8)) (stg5 ! 34) (COSPI_INV ! 56) (stg5 ! 61) INV_COS_BIT,
              half_btf ar (- (COSPI_INV ! 8)) (stg5 ! 35) (COSPI_INV ! 56) (stg5 ! 60) INV_COS_BIT,
              half_btf ar (- (COSPI_INV ! 56)) (stg5 ! 36) (- (COSPI_INV ! 8)) (stg5 ! 59) INV_COS_BIT,
              half_btf ar (- (COSPI_INV ! 56)) (stg5 ! 37) (- (COSPI_INV ! 8)) (stg5 ! 58) INV_COS_BIT, stg5 ! 38, stg5 ! 39, stg5 ! 40, stg5 ! 41,
              half_btf ar (- (COSPI_INV ! 40)) (stg5 ! 42) (COSPI_INV ! 24) (stg5 ! 53) INV_COS_BIT,
              half_btf ar (- (COSPI_INV ! 40)) (stg5 ! 43) (COSPI_INV ! 24) (stg5 ! 52) INV_COS_BIT,
              half_btf ar (- (COSPI_INV ! 24)) (stg5 ! 44) (- (COSPI_INV ! 40)) (stg5 ! 51) INV_COS_BIT,
              half_btf ar (- (COSPI_INV ! 24)) (stg5 ! 45) (- (COSPI_INV ! 40)) (stg5 ! 50) INV_COS_BIT, stg5 ! 46, stg5 ! 47, stg5 ! 48, stg5 ! 49,
              half_btf ar (- (COSPI_INV ! 40)) (stg5 ! 45) (COSPI_INV ! 24) (stg5 ! 50) INV_COS_BIT,
              half_btf ar (- (COSPI_INV ! 40)) (stg5 ! 44) (COSPI_INV ! 24) (stg5 ! 51) INV_COS_BIT,
              half_btf ar (COSPI_INV ! 24) (stg5 ! 43) (COSPI_INV ! 40) (stg5 ! 52) INV_COS_BIT,
              half_btf ar (COSPI_INV ! 24) (stg5 ! 42) (COSPI_INV ! 40) (stg5 ! 53) INV_COS_BIT, stg5 ! 54, stg5 ! 55, stg5 ! 56, stg5 ! 57,
              half_btf ar (- (COSPI_INV ! 8)) (stg5 ! 37) (COSPI_INV ! 56) (stg5 ! 58) INV_COS_BIT,
              half_btf ar (- (COSPI_INV ! 8)) (stg5 ! 36) (COSPI_INV ! 56) (stg5 ! 59) INV_COS_BIT,
              half_btf ar (COSPI_INV ! 56) (stg5 ! 35) (COSPI_INV ! 8) (stg5 ! 60) INV_COS_BIT,
              half_btf ar (COSPI_INV ! 56) (stg5 ! 34) (COSPI_INV ! 8) (stg5 ! 61) INV_COS_BIT, stg5 ! 62, stg5 ! 63];
            stg7 = [clamp_value ar (i32_op ar (stg6 ! 0 + stg6 ! 3)) rng, clamp_value ar (i32_op ar (stg6 ! 1 + stg6 ! 2)) rng,
              clamp_value ar (i32_op ar (stg6 ! 1 - stg6 ! 2)) rng, clamp_value ar (i32_op ar (stg6 ! 0 - stg6 ! 3)) rng, stg6 ! 4,
              half_btf ar (- (COSPI_INV ! 32)) (stg6 ! 5) (COSPI_INV ! 32) (stg6 ! 6) INV_COS_BIT,
              half_btf ar (COSPI_INV ! 32) (stg6 ! 5) (COSPI_INV ! 32) (stg6 ! 6) INV_COS_BIT, stg6 ! 7, clamp_value ar (i32_op ar (stg6 ! 8 + stg6 ! 11)) rng,
              clamp_value ar (i32_op ar (stg6 ! 9 + stg6 ! 10)) rng, clamp_value ar (i32_op ar (stg6 ! 9 - stg6 ! 10)) rng,
              clamp_value ar (i32_op ar (stg6 ! 8 - stg6 ! 11)) rng, clamp_value ar (i32_op ar (i32_op ar (- (stg6 ! 12)) + stg6 ! 15)) rng,
              clamp_value ar (i32_op ar (i32_op ar (- (stg6 ! 13)) + stg6 ! 14)) rng, clamp_value ar (i32_op ar (stg6 ! 13 + stg6 ! 14)) rng,
              clamp_value ar (i32_op ar (stg6 ! 12 + stg6 ! 15)) rng, stg6 ! 16, stg6 ! 17,
              half_btf ar (- (COSPI_INV ! 16)) (stg6 ! 18) (COSPI_INV ! 48) (stg6 ! 29) INV_COS_BIT,
              half_btf ar (- (COSPI_INV ! 16)) (stg6 ! 19) (COSPI_INV ! 48) (stg6 ! 28) INV_COS_BIT,
              half_btf ar (- (COSPI_INV ! 48)) (stg6 ! 20) (- (COSPI_INV ! 16)) (stg6 ! 27) INV_COS_BIT,
              half_btf ar (- (COSPI_INV ! 48)) (stg6 ! 21) (- (COSPI_INV ! 16)) (stg6 ! 26) INV_COS_BIT, stg6 ! 22, stg6 ! 23, stg6 ! 24, stg6 ! 25,
              half_btf ar (- (COSPI_INV ! 16)) (stg6 ! 21) (COSPI_INV ! 48) (stg6 ! 26) INV_COS_BIT,
              half_btf ar (- (COSPI_INV ! 16)) (stg6 ! 20) (COSPI_INV ! 48) (stg6 ! 27) INV_COS_BIT,
              half_btf ar (COSPI_INV ! 48) (stg6 ! 19) (COSPI_INV ! 16) (stg6 ! 28) INV_COS_BIT,
              half_btf ar (COSPI_INV ! 48) (stg6 ! 18) (COSPI_INV ! 16) (stg6 ! 29) INV_COS_BIT, stg6 ! 30, stg6 ! 31,
              clamp_value ar (i32_op ar (stg6 ! 32 + stg6 ! 39)) rng, clamp_value ar (i32_op ar (stg6 ! 33 + stg6 ! 38)) rng,
              clamp_value ar (i32_op ar (stg6 ! 34 + stg6 ! 37)) rng, clamp_value ar (i32_op ar (stg6 ! 35 + stg6 ! 36)) rng,
              clamp_value ar (i32_op ar (stg6 ! 35 - stg6 ! 36)) rng, clamp_value ar (i32_op ar (stg6 ! 34 - stg6 ! 37)) rng,
              clamp_value ar (i32_op ar (stg6 ! 33 - stg6 ! 38)) rng, clamp_value ar (i32_op ar (stg6 ! 32 - stg6 ! 39)) rng,
              clamp_value ar (i32_op ar (i32_op ar (- (stg6 ! 40)) + stg6 ! 47)) rng, clamp_value ar (i32_op ar (i32_op ar (- (stg6 ! 41)) + stg6 ! 46)) rng,
              clamp_value ar (i32_op ar (i32_op ar (- (stg6 ! 42)) + stg6 ! 45)) rng, clamp_value ar (i32_op ar (i32_op ar (- (stg6 ! 43)) + stg6 ! 44)) rng,
              clamp_value ar (i32_op ar (stg6 ! 43 + stg6 ! 44)) rng, clamp_value ar (i32_op ar (stg6 ! 42 + stg6 ! 45)) rng,
              clamp_value ar (i32_op ar (stg6 ! 41 + stg6 ! 46)) rng, clamp_value ar (i32_op ar (stg6 ! 40 + stg6 ! 47)) rng,
              clamp_value ar (i32_op ar (stg6 ! 48 + stg6 ! 55)) rng, clamp_value ar (i32_op ar (stg6 ! 49 + stg6 ! 54)) rng,
              clamp_value ar (i32_op ar (stg6 ! 50 + stg6 ! 53)) rng, clamp_value ar (i32_op ar (stg6 ! 51 + stg6 ! 52)) rng,
              clamp_value ar (i32_op ar (stg6 ! 51 - stg6 ! 52)) rng, clamp_value ar (i32_op ar (stg6 ! 50 - stg6 ! 53)) rng,
              clamp_value ar (i32_op ar (stg6 ! 49 - stg6 ! 54)) rng, clamp_value ar (i32_op ar (stg6 ! 48 - stg6 ! 55)) rng,
              clamp_value ar (i32_op ar (i32_op ar (- (stg6 ! 56)) + stg6 ! 63)) rng, clamp_value ar (i32_op ar (i32_op ar (- (stg6 ! 57)) + stg6 ! 62)) rng,
              clamp_value ar (i32_op ar (i32_op ar (- (stg6 ! 58)) + stg6 ! 61)) rng, clamp_value ar (i32_op ar (i32_op ar (- (stg6 ! 59)) + stg6 ! 60)) rng,
              clamp_value ar (i32_op ar (stg6 ! 59 + stg6 ! 60)) rng, clamp_value ar (i32_op ar (stg6 ! 58 + stg6 ! 61)) rng,
              clamp_value ar (i32_op ar (stg6 ! 57 + stg6 ! 62)) rng, clamp_value ar (i32_op ar (stg6 ! 56 + stg6 ! 63)) rng];
            stg8 = [clamp_value ar (i32_op ar (stg7 ! 0 + stg7 ! 7)) rng, clamp_value ar (i32_op ar (stg7 ! 1 + stg7 ! 6)) rng,
              clamp_value ar (i32_op ar (stg7 ! 2 + stg7 ! 5)) rng, clamp_value ar (i32_op ar (stg7 ! 3 + stg7 ! 4)) rng,
              clamp_value ar (i32_op ar (stg7 ! 3 - stg7 ! 4)) rng, clamp_value ar (i32_op ar (stg7 ! 2 - stg7 ! 5)) rng,
              clamp_value ar (i32_op ar (stg7 ! 1 - stg7 ! 6)) rng, clamp_value ar (i32_op ar (stg7 ! 0 - stg7 ! 7)) rng, stg7 ! 8, stg7 ! 9,
              half_btf ar (- (COSPI_INV ! 32)) (stg7 ! 10) (COSPI_INV ! 32) (stg7 ! 13) INV_COS_BIT,
              half_btf ar (- (COSPI_INV ! 32)) (stg7 ! 11) (COSPI_INV ! 32) (stg7 ! 12) INV_COS_BIT,
              half_btf ar (COSPI_INV ! 32) (stg7 ! 11) (COSPI_INV ! 32) (stg7 ! 12) INV_COS_BIT,
              half_btf ar (COSPI_INV ! 32) (stg7 ! 10) (COSPI_INV ! 32) (stg7 ! 13) INV_COS_BIT, stg7 ! 14, stg7 ! 15,
              clamp_value ar (i32_op ar (stg7 ! 16 + stg7 ! 23)) rng, clamp_value ar (i32_op ar (stg7 ! 17 + stg7 ! 22)) rng,
              clamp_value ar (i32_op ar (stg7 ! 18 + stg7 ! 21)) rng, clamp_value ar (i32_op ar (stg7 ! 19 + stg7 ! 20)) rng,
              clamp_value ar (i32_op ar (stg7 ! 19 - stg7 ! 20)) rng, clamp_value ar (i32_op ar (stg7 ! 18 - stg7 ! 21)) rng,
              clamp_value ar (i32_op ar (stg7 ! 17 - stg7 ! 22)) rng, clamp_value ar (i32_op ar (stg7 ! 16 - stg7 ! 23)) rng,
              clamp_value ar (i32_op ar (i32_op ar (- (stg7 ! 24)) + stg7 ! 31)) rng, clamp_value ar (i32_op ar (i32_op ar (- (stg7 ! 25)) + stg7 ! 30)) rng,
              clamp_value ar (i32_op ar (i32_op ar (- (stg7 ! 26)) + stg7 ! 29)) rng, clamp_value ar (i32_op ar (i32_op ar (- (stg7 ! 27)) + stg7 ! 28)) rng,
              clamp_value ar (i32_op ar (stg7 ! 27 + stg7 ! 28)) rng, clamp_value ar (i32_op ar (stg7 ! 26 + stg7 ! 29)) rng,
              clamp_value ar (i32_op ar (stg7 ! 25 + stg7 ! 30)) rng, clamp_value ar (i32_op ar (stg7 ! 24 + stg7 ! 31)) rng, stg7 ! 32, stg7 ! 33, stg7 ! 34,
              stg7 ! 35, half_btf ar (- (COSPI_INV ! 16)) (stg7 ! 36) (COSPI_INV ! 48) (stg7 ! 59) INV_COS_BIT,
              half_btf ar (- (COSPI_INV ! 16)) (stg7 ! 37) (COSPI_INV ! 48) (stg7 ! 58) INV_COS_BIT,
              half_btf ar (- (COSPI_INV ! 16)) (stg7 ! 38) (COSPI_INV ! 48) (stg7 ! 57) INV_COS_BIT,
              half_btf ar (- (COSPI_INV ! 16)) (stg7 ! 39) (COSPI_INV ! 48) (stg7 ! 56) INV_COS_BIT,
              half_btf ar (- (COSPI_INV ! 48)) (stg7 ! 40) (- (COSPI_INV ! 16)) (stg7 ! 55) INV_COS_BIT,
              half_btf ar (- (COSPI_INV ! 48)) (stg7 ! 41) (- (COSPI_INV ! 16)) (stg7 ! 54) INV_COS_BIT,
              half_btf ar (- (COSPI_INV ! 48)) (stg7 ! 42) (- (COSPI_INV ! 16)) (stg7 ! 53) INV_COS_BIT,
              half_btf ar (- (COSPI_INV ! 48)) (stg7 ! 43) (- (COSPI_INV ! 16)) (stg7 ! 52) INV_COS_BIT, stg7 ! 44, stg7 ! 45, stg7 ! 46, stg7 ! 47, stg7 ! 48,
              stg7 ! 49, stg7 ! 50, stg7 ! 51, half_btf ar (- (COSPI_INV ! 16)) (stg7 ! 43) (COSPI_INV ! 48) (stg7 ! 52) INV_COS_BIT,
              half_btf ar (- (COSPI_INV ! 16)) (stg7 ! 42) (COSPI_INV ! 48) (stg7 ! 53) INV_COS_BIT,
              half_btf ar (- (COSPI_INV ! 16)) (stg7 ! 41) (COSPI_INV ! 48) (stg7 ! 54) INV_COS_BIT,
              half_btf ar (- (COSPI_INV ! 16)) (stg7 ! 40) (COSPI_INV ! 48) (stg7 ! 55) INV_COS_BIT,
              half_btf ar (COSPI_INV ! 48) (stg7 ! 39) (COSPI_INV ! 16) (stg7 ! 56) INV_COS_BIT,
              half_btf ar (COSPI_INV ! 48) (stg7 ! 38) (COSPI_INV ! 16) (stg7 ! 57) INV_COS_BIT,
              half_btf ar (COSPI_INV ! 48) (stg7 ! 37) (COSPI_INV ! 16) (stg7 ! 58) INV_COS_BIT,
              half_btf ar (COSPI_INV ! 48) (stg7 ! 36) (COSPI_INV ! 16) (stg7 ! 59) INV_COS_BIT, stg7 ! 60, stg7 ! 61, stg7 ! 62, stg7 ! 63];
            stg9 = [clamp_value ar (i32_op ar (stg8 ! 0 + stg8 ! 15)) rng, clamp_value ar (i32_op ar (stg8 ! 1 + stg8 ! 14)) rng,
              clamp_value ar (i32_op ar (stg8 ! 2 + stg8 ! 13)) rng, clamp_value ar (i32_op ar (stg8 ! 3 + stg8 ! 12)) rng,
              clamp_value ar (i32_op ar (stg8 ! 4 + stg8 ! 11)) rng, clamp_value ar (i32_op ar (stg8 ! 5 + stg8 ! 10)) rng,
              clamp_value ar (i32_op ar (stg8 ! 6 + stg8 ! 9)) rng, clamp_value ar (i32_op ar (stg8 ! 7 + stg8 ! 8)) rng,
              clamp_value ar (i32_op ar (stg8 ! 7 - stg8 ! 8)) rng, clamp_value ar (i32_op ar (stg8 ! 6 - stg8 ! 9)) rng,
              clamp_value ar (i32_op ar (stg8 ! 5 - stg8 ! 10)) rng, clamp_value ar (i32_op ar (stg8 ! 4 - stg8 ! 11)) rng,
              clamp_value ar (i32_op ar (stg8 ! 3 - stg8 ! 12)) rng, clamp_value ar (i32_op ar (stg8 ! 2 - stg8 ! 13)) rng,
              clamp_value ar (i32_op ar (stg8 ! 1 - stg8 ! 14)) rng, clamp_value ar (i32_op ar (stg8 ! 0 - stg8 ! 15)) rng, stg8 ! 16, stg8 ! 17, stg8 ! 18,
              stg8 ! 19, half_btf ar (- (COSPI_INV ! 32)) (stg8 ! 20) (COSPI_INV ! 32) (stg8 ! 27) INV_COS_BIT,
              half_btf ar (- (COSPI_INV ! 32)) (stg8 ! 21) (COSPI_INV ! 32) (stg8 ! 26) INV_COS_BIT,
              half_btf ar (- (COSPI_INV ! 32)) (stg8 ! 22) (COSPI_INV ! 32) (stg8 ! 25) INV_COS_BIT,
              half_btf ar (- (COSPI_INV ! 32)) (stg8 ! 23) (COSPI_INV ! 32) (stg8 ! 24) INV_COS_BIT,
              half_btf ar (COSPI_INV ! 32) (stg8 ! 23) (COSPI_INV ! 32) (stg8 ! 24) INV_COS_BIT,
              half_btf ar (COSPI_INV ! 32) (stg8 ! 22) (COSPI_INV ! 32) (stg8 ! 25) INV_COS_BIT,
              half_btf ar (COSPI_INV ! 32) (stg8 ! 21) (COSPI_INV ! 32) (stg8 ! 26) INV_COS_BIT,
              half_btf ar (COSPI_INV ! 32) (stg8 ! 20) (COSPI_INV ! 32) (stg8 ! 27) INV_COS_BIT, stg8 ! 28, stg8 ! 29, stg8 ! 30, stg8 ! 31,
              clamp_value ar (i32_op ar (stg8 ! 32 + stg8 ! 47)) rng, clamp_value ar (i32_op ar (stg8 ! 33 + stg8 ! 46)) rng,
              clamp_value ar (i32_op ar (stg8 ! 34 + stg8 ! 45)) rng, clamp_value ar (i32_op ar (stg8 ! 35 + stg8 ! 44)) rng,
              clamp_value ar (i32_op ar (stg8 ! 36 + stg8 ! 43)) rng, clamp_value ar (i32_op ar (stg8 ! 37 + stg8 ! 42)) rng,
              clamp_value ar (i32_op ar (stg8 ! 38 + stg8 ! 41)) rng, clamp_value ar (i32_op ar (stg8 ! 39 + stg8 ! 40)) rng,
              clamp_value ar (i32_op ar (stg8 ! 39 - stg8 ! 40)) rng, clamp_value ar (i32_op ar (stg8 ! 38 - stg8 ! 41)) rng,
              clamp_value ar (i32_op ar (stg8 ! 37 - stg8 ! 42)) rng, clamp_value ar (i32_op ar (stg8 ! 36 - stg8 ! 43)) rng,
              clamp_value ar (i32_op ar (stg8 ! 35 - stg8 ! 44)) rng, clamp_value ar (i32_op ar (stg8 ! 34 - stg8 ! 45)) rng,
              clamp_value ar (i32_op ar (stg8 ! 33 - stg8 ! 46)) rng, clamp_value ar (i32_op ar (stg8 ! 32 - stg8 ! 47)) rng,
              clamp_value ar (i32_op ar (i32_op ar (- (stg8 ! 48)) + stg8 ! 63)) rng, clamp_value ar (i32_op ar (i32_op ar (- (stg8 ! 49)) + stg8 ! 62)) rng,
              clamp_value ar (i32_op ar (i32_op ar (- (stg8 ! 50)) + stg8 ! 61)) rng, clamp_value ar (i32_op ar (i32_op ar (- (stg8 ! 51)) + stg8 ! 60)) rng,
              clamp_value ar (i32_op ar (i32_op ar (- (stg8 ! 52)) + stg8 ! 59)) rng, clamp_value ar (i32_op ar (i32_op ar (- (stg8 ! 53)) + stg8 ! 58)) rng,
              clamp_value ar (i32_op ar (i32_op ar (- (stg8 ! 54)) + stg8 ! 57)) rng, clamp_value ar (i32_op ar (i32_op ar (- (stg8 ! 55)) + stg8 ! 56)) rng,
              clamp_value ar (i32_op ar (stg8 ! 55 + stg8 ! 56)) rng, clamp_value ar (i32_op ar (stg8 ! 54 + stg8 ! 57)) rng,
              clamp_value ar (i32_op ar (stg8 ! 53 + stg8 ! 58)) rng, clamp_value ar (i32_op ar (stg8 ! 52 + stg8 ! 59)) rng,
              clamp_value ar (i32_op ar (stg8 ! 51 + stg8 ! 60)) rng, clamp_value ar (i32_op ar (stg8 ! 50 + stg8 ! 61)) rng,
              clamp_value ar (i32_op ar (stg8 ! 49 + stg8 ! 62)) rng, clamp_value ar (i32_op ar (stg8 ! 48 + stg8 ! 63)) rng];
            stg10 = [clamp_value ar (i32_op ar (stg9 ! 0 + stg9 ! 31)) rng, clamp_value ar (i32_op ar (stg9 ! 1 + stg9 ! 30)) rng,
              clamp_value ar (i32_op ar (stg9 ! 2 + stg9 ! 29)) rng, clamp_value ar (i32_op ar (stg9 ! 3 + stg9 ! 28)) rng,
              clamp_value ar (i32_op ar (stg9 ! 4 + stg9 ! 27)) rng, clamp_value ar (i32_op ar (stg9 ! 5 + stg9 ! 26)) rng,
              clamp_value ar (i32_op ar (stg9 ! 6 + stg9 ! 25)) rng, clamp_value ar (i32_op ar (stg9 ! 7 + stg9 ! 24)) rng,
              clamp_value ar (i32_op ar (stg9 ! 8 + stg9 ! 23)) rng, clamp_value ar (i32_op ar (stg9 ! 9 + stg9 ! 22)) rng,
              clamp_value ar (i32_op ar (stg9 ! 10 + stg9 ! 21)) rng, clamp_value ar (i32_op ar (stg9 ! 11 + stg9 ! 20)) rng,
              clamp_value ar (i32_op ar (stg9 ! 12 + stg9 ! 19)) rng, clamp_value ar (i32_op ar (stg9 ! 13 + stg9 ! 18)) rng,
              clamp_value ar (i32_op ar (stg9 ! 14 + stg9 ! 17)) rng, clamp_value ar (i32_op ar (stg9 ! 15 + stg9 ! 16)) rng,
              clamp_value ar (i32_op ar (stg9 ! 15 - stg9 ! 16)) rng, clamp_value ar (i32_op ar (stg9 ! 14 - stg9 ! 17)) rng,
              clamp_value ar (i32_op ar (stg9 ! 13 - stg9 ! 18)) rng, clamp_value ar (i32_op ar (stg9 ! 12 - stg9 ! 19)) rng,
              clamp_value ar (i32_op ar (stg9 ! 11 - stg9 ! 20)) rng, clamp_value ar (i32_op ar (stg9 ! 10 - stg9 ! 21)) rng,
              clamp_value ar (i32_op ar (stg9 ! 9 - stg9 ! 22)) rng, clamp_value ar (i32_op ar (stg9 ! 8 - stg9 ! 23)) rng,
              clamp_value ar (i32_op ar (stg9 ! 7 - stg9 ! 24)) rng, clamp_value ar (i32_op ar (stg9 ! 6 - stg9 ! 25)) rng,
              clamp_value ar (i32_op ar (stg9 ! 5 - stg9 ! 26)) rng, clamp_value ar (i32_op ar (stg9 ! 4 - stg9 ! 27)) rng,
              clamp_value ar (i32_op ar (stg9 ! 3 - stg9 ! 28)) rng, clamp_value ar (i32_op ar (stg9 ! 2 - stg9 ! 29)) rng,
              clamp_value ar (i32_op ar (stg9 ! 1 - stg9 ! 30)) rng, clamp_value ar (i32_op ar (stg9 ! 0 - stg9 ! 31)) rng, stg9 ! 32, stg9 ! 33, stg9 ! 34,
              stg9 ! 35, stg9 ! 36, stg9 ! 37, stg9 ! 38, stg9 ! 39, half_btf ar (- (COSPI_INV ! 32)) (stg9 ! 40) (COSPI_INV ! 32) (stg9 ! 55) INV_COS_BIT,
              half_btf ar (- (COSPI_INV ! 32)) (stg9 ! 41) (COSPI_INV ! 32) (stg9 ! 54) INV_COS_BIT,
              half_btf ar (- (COSPI_INV ! 32)) (stg9 ! 42) (COSPI_INV ! 32) (stg9 ! 53) INV_COS_BIT,
              half_btf ar (- (COSPI_INV ! 32)) (stg9 ! 43) (COSPI_INV ! 32) (stg9 ! 52) INV_COS_BIT,
              half_btf ar (- (COSPI_INV ! 32)) (stg9 ! 44) (COSPI_INV ! 32) (stg9 ! 51) INV_COS_BIT,
              half_btf ar (- (COSPI_INV ! 32)) (stg9 ! 45) (COSPI_INV ! 32) (stg9 ! 50) INV_COS_BIT,
              half_btf ar (- (COSPI_INV ! 32)) (stg9 ! 46) (COSPI_INV ! 32) (stg9 ! 49) INV_COS_BIT,
              half_btf ar (- (COSPI_INV ! 32)) (stg9 ! 47) (COSPI_INV ! 32) (stg9 ! 48) INV_COS_BIT,
              half_btf ar (COSPI_INV ! 32) (stg9 ! 47) (COSPI_INV ! 32) (stg9 ! 48) INV_COS_BIT,
              half_btf ar (COSPI_INV ! 32) (stg9 ! 46) (COSPI_INV ! 32) (stg9 ! 49) INV_COS_BIT,
              half_btf ar (COSPI_INV ! 32) (stg9 ! 45) (COSPI_INV ! 32) (stg9 ! 50) INV_COS_BIT,
              half_btf ar (COSPI_INV ! 32) (stg9 ! 44) (COSPI_INV ! 32) (stg9 ! 51) INV_COS_BIT,
              half_btf ar (COSPI_INV ! 32) (stg9 ! 43) (COSPI_INV ! 32) (stg9 ! 52) INV_COS_BIT,
              half_btf ar (COSPI_INV ! 32) (stg9 ! 42) (COSPI_INV ! 32) (stg9 ! 53) INV_COS_BIT,
              half_btf ar (COSPI_INV ! 32) (stg9 ! 41) (COSPI_INV ! 32) (stg9 ! 54) INV_COS_BIT,
              half_btf ar (COSPI_INV ! 32) (stg9 ! 40) (COSPI_INV ! 32) (stg9 ! 55) INV_COS_BIT, stg9 ! 56, stg9 ! 57, stg9 ! 58, stg9 ! 59, stg9 ! 60, stg9 ! 61,
              stg9 ! 62, stg9 ! 63]
        in Inr [clamp_value ar (i32_op ar (stg10 ! 0 + stg10 ! 63)) rng, clamp_value ar (i32_op ar (stg10 ! 1 + stg10 ! 62)) rng,
          clamp_value ar (i32_op ar (stg10 ! 2 + stg10 ! 61)) rng, clamp_value ar (i32_op ar (stg10 ! 3 + stg10 ! 60)) rng,
          clamp_value ar (i32_op ar (stg10 ! 4 + stg10 ! 59)) rng, clamp_value ar (i32_op ar (stg10 ! 5 + stg10 ! 58)) rng,
          clamp_value ar (i32_op ar (stg10 ! 6 + stg10 ! 57)) rng, clamp_value ar (i32_op ar (stg10 ! 7 + stg10 ! 56)) rng,
          clamp_value ar (i32_op ar (stg10 ! 8 + stg10 ! 55)) rng, clamp_value ar (i32_op ar (stg10 ! 9 + stg10 ! 54)) rng,
          clamp_value ar (i32_op ar (stg10 ! 10 + stg10 ! 53)) rng, clamp_value ar (i32_op ar (stg10 ! 11 + stg10 ! 52)) rng,
          clamp_value ar (i32_op ar (stg10 ! 12 + stg10 ! 51)) rng, clamp_value ar (i32_op ar (stg10 ! 13 + stg10 ! 50)) rng,
          clamp_value ar (i32_op ar (stg10 ! 14 + stg10 ! 49)) rng, clamp_value ar (i32_op ar (stg10 ! 15 + stg10 ! 48)) rng,
          clamp_value ar (i32_op ar (stg10 ! 16 + stg10 ! 47)) rng, clamp_value ar (i32_op ar (stg10 ! 17 + stg10 ! 46)) rng,
          clamp_value ar (i32_op ar (stg10 ! 18 + stg10 ! 45)) rng, clamp_value ar (i32_op ar (stg10 ! 19 + stg10 ! 44)) rng,
          clamp_value ar (i32_op ar (stg10 ! 20 + stg10 ! 43)) rng, clamp_value ar (i32_op ar (stg10 ! 21 + stg10 ! 42)) rng,
          clamp_value ar (i32_op ar (stg10 ! 22 + stg10 ! 41)) rng, clamp_value ar (i32_op ar (stg10 ! 23 + stg10 ! 40)) rng,
          clamp_value ar (i32_op ar (stg10 ! 24 + stg10 ! 39)) rng, clamp_value ar (i32_op ar (stg10 ! 25 + stg10 ! 38)) rng,
          clamp_value ar (i32_op ar (stg10 ! 26 + stg10 ! 37)) rng, clamp_value ar (i32_op ar (stg10 ! 27 + stg10 ! 36)) rng,
          clamp_value ar (i32_op ar (stg10 ! 28 + stg10 ! 35)) rng, clamp_value ar (i32_op ar (stg10 ! 29 + stg10 ! 34)) rng,
          clamp_value ar (i32_op ar (stg10 ! 30 + stg10 ! 33)) rng, clamp_value ar (i32_op ar (stg10 ! 31 + stg10 ! 32)) rng,
          clamp_value ar (i32_op ar (stg10 ! 31 - stg10 ! 32)) rng, clamp_value ar (i32_op ar (stg10 ! 30 - stg10 ! 33)) rng,
          clamp_value ar (i32_op ar (stg10 ! 29 - stg10 ! 34)) rng, clamp_value ar (i32_op ar (stg10 ! 28 - stg10 ! 35)) rng,
          clamp_value ar (i32_op ar (stg10 ! 27 - stg10 ! 36)) rng, clamp_value ar (i32_op ar (stg10 ! 26 - stg10 ! 37)) rng,
          clamp_value ar (i32_op ar (stg10 ! 25 - stg10 ! 38)) rng, clamp_value ar (i32_op ar (stg10 ! 24 - stg10 ! 39)) rng,
          clamp_value ar (i32_op ar (stg10 ! 23 - stg10 ! 40)) rng, clamp_value ar (i32_op ar (stg10 ! 22 - stg10 ! 41)) rng,
          clamp_value ar (i32_op ar (stg10 ! 21 - stg10 ! 42)) rng, clamp_value ar (i32_op ar (stg10 ! 20 - stg10 ! 43)) rng,
          clamp_value ar (i32_op ar (stg10 ! 19 - stg10 ! 44)) rng, clamp_value ar (i32_op ar (stg10 ! 18 - stg10 ! 45)) rng,
          clamp_value ar (i32_op ar (stg10 ! 17 - stg10 ! 46)) rng, clamp_value ar (i32_op ar (stg10 ! 16 - stg10 ! 47)) rng,
          clamp_value ar (i32_op ar (stg10 ! 15 - stg10 ! 48)) rng, clamp_value ar (i32_op ar (stg10 ! 14 - stg10 ! 49)) rng,
          clamp_value ar (i32_op ar (stg10 ! 13 - stg10 ! 50)) rng, clamp_value ar (i32_op ar (stg10 ! 12 - stg10 ! 51)) rng,
          clamp_value ar (i32_op ar (stg10 ! 11 - stg10 ! 52)) rng, clamp_value ar (i32_op ar (stg10 ! 10 - stg10 ! 53)) rng,
          clamp_value ar (i32_op ar (stg10 ! 9 - stg10 ! 54)) rng, clamp_value ar (i32_op ar (stg10 ! 8 - stg10 ! 55)) rng,
          clamp_value ar (i32_op ar (stg10 ! 7 - stg10 ! 56)) rng, clamp_value ar (i32_op ar (stg10 ! 6 - stg10 ! 57)) rng,
          clamp_value ar (i32_op ar (stg10 ! 5 - stg10 ! 58)) rng, clamp_value ar (i32_op ar (stg10 ! 4 - stg10 ! 59)) rng,
          clamp_value ar (i32_op ar (stg10 ! 3 - stg10 ! 60)) rng, clamp_value ar (i32_op ar (stg10 ! 2 - stg10 ! 61)) rng,
          clamp_value ar (i32_op ar (stg10 ! 1 - stg10 ! 62)) rng, clamp_value ar (i32_op ar (stg10 ! 0 - stg10 ! 63)) rng])"

section \<open>Transforms of a block\<close>

fun type_1d_index :: "tx_type_1d \<Rightarrow> nat" where
  "type_1d_index DCT = 0" | "type_1d_index ADST = 1" | "type_1d_index FLIPADST = 2" | "type_1d_index IDTX1 = 3" | "type_1d_index WHT = 4"

definition unimplemented :: "i32_arith \<Rightarrow> int list \<Rightarrow> nat \<Rightarrow> int list result" where
  "unimplemented ar input rng = Inl Fault"

definition INV_TXFM_FNS :: "(i32_arith \<Rightarrow> int list \<Rightarrow> nat \<Rightarrow> int list result) list list" where
  "INV_TXFM_FNS = [
     [av1_idct4, av1_idct8, av1_idct16, av1_idct32, av1_idct64],
     [av1_iadst4, av1_iadst8, av1_iadst16, unimplemented, unimplemented],
     [av1_iflipadst4, av1_iflipadst8, av1_iflipadst16, unimplemented, unimplemented],
     [av1_iidentity4, av1_iidentity8, av1_iidentity16, av1_iidentity32, unimplemented],
     [av1_iwht4, unimplemented, unimplemented, unimplemented, unimplemented]]"

definition INV_INTERMEDIATE_SHIFTS :: "nat list" where
  "INV_INTERMEDIATE_SHIFTS = [0, 1, 2, 2, 2, 0, 0, 1, 1, 1, 1, 1, 1, 1, 1, 2, 2, 2, 2]"

text \<open>An array of 64 numbers that starts with those given.\<close>

definition temp64 :: "int list \<Rightarrow> int list" where
  "temp64 xs = take 64 xs @ replicate (64 - length xs) 0"

text \<open>
  The row pass reads row \<open>r\<close> of the coefficients, stored by columns, at most 32 of
  them; the column pass reads the buffer of rows; the output is the block's rows in
  the picture. The casts between coefficients, samples and \<open>i32\<close> change no value.
\<close>

definition inverse_row :: "i32_arith \<Rightarrow> int list \<Rightarrow> tx_size \<Rightarrow> tx_type \<Rightarrow> nat \<Rightarrow> nat \<Rightarrow> int list result" where
  "inverse_row ar input tx_size tx_type rng r =
     (let width = tx_width tx_size; height = tx_height tx_size; rect_type = rect_ratio_log2 tx_size; lossless = (tx_type = WHT_WHT);
          temp_in = temp64 (map (\<lambda>k.
            let raw = input ! (r + k * min height 32);
                val = (if \<bar>rect_type\<bar> = 1 then i32_round_shift ar (i32_op ar (raw * INV_SQRT2)) SQRT2_BITS
                       else if lossless then drop_bit 2 raw
                       else raw)
            in clamp_value ar val rng) [0..<min width 32])
      in (INV_TXFM_FNS ! type_1d_index (snd (get_1d_tx_types tx_type)) ! (width_log2 tx_size - 2)) ar temp_in rng)"

definition inverse_col :: "i32_arith \<Rightarrow> int list list \<Rightarrow> tx_size \<Rightarrow> tx_type \<Rightarrow> nat \<Rightarrow> nat \<Rightarrow> int list result" where
  "inverse_col ar buffer tx_size tx_type rng c =
     (let temp_in = temp64 (map (\<lambda>row.
            clamp_value ar (i32_round_shift ar (row ! c) (INV_INTERMEDIATE_SHIFTS ! index_of all_tx_sizes tx_size)) rng) buffer)
      in (INV_TXFM_FNS ! type_1d_index (fst (get_1d_tx_types tx_type)) ! (height_log2 tx_size - 2)) ar temp_in rng)"

definition add_column :: "i32_arith \<Rightarrow> bool \<Rightarrow> nat \<Rightarrow> nat \<Rightarrow> nat \<Rightarrow> int list \<Rightarrow> int list list \<Rightarrow> int list list result" where
  "add_column ar lossless bd height c temp_out output =
     forR (\<lambda>i rows.
       let row = rows ! i in
       if \<not> c < length row then Inl Fault
       else
         let v = row ! c; temp = temp_out ! i;
             r = (if lossless then temp else i32_round_shift ar temp 4);
             v = i32_clamp ar (i32_op ar (v + r)) 0 (2 ^ bd - 1)
         in Inr (rows[i := row[c := v]])) [0..<min height (length output)] output"

primrec mapR :: "('a \<Rightarrow> 'b result) \<Rightarrow> 'a list \<Rightarrow> 'b list result" where
  "mapR f [] = Inr []"
| "mapR f (x # xs) = bindR (f x) (\<lambda>y. bindR (mapR f xs) (\<lambda>ys. Inr (y # ys)))"

definition inverse_transform_add :: "i32_arith \<Rightarrow> int list \<Rightarrow> int list list \<Rightarrow> tx_size \<Rightarrow> tx_type \<Rightarrow> nat \<Rightarrow> int list list result" where
  "inverse_transform_add ar input output tx_size tx_type bd =
     (let width = tx_width tx_size; height = tx_height tx_size; n = min width 32 * min height 32; lossless = (tx_type = WHT_WHT) in
      if length input < n then Inl Fault
      else
        bindR (mapR (inverse_row ar (take n input) tx_size tx_type (bd + 8)) [0..<min height 32]) (\<lambda>rows.
        let buffer = rows @ replicate (height - min height 32) (replicate width 0) in
        forR (\<lambda>c output.
          bindR (inverse_col ar buffer tx_size tx_type (max (bd + 6) 16) c) (\<lambda>temp_out.
          add_column ar lossless bd height c temp_out output)) [0..<width] output))"

end
