(* ===== verification/Av1_FwdTx.thy ===== *)
theory Av1_FwdTx
  imports Av1_InvTx
begin

text \<open>
  The forward transforms of \<open>src/src/transform/forward_shared.rs\<close> over the \<open>i32\<close>
  operations of \<open>forward.rs\<close>, and the transform of a block. The traits of the
  rotation kernels are records of their functions; a transform of named numbers
  returns the list that it stores, and \<open>output[a..b].reverse()\<close> is \<open>rev\<close> of that part.
\<close>

section \<open>Operations on coefficients\<close>

definition tx_mul :: "i32_arith \<Rightarrow> nat \<Rightarrow> int \<Rightarrow> int \<Rightarrow> int" where
  "tx_mul ar shift self m = drop_bit shift (i32_op ar (i32_op ar (self * m) + drop_bit 1 (push_bit shift 1)))"

definition rshift1 :: "i32_arith \<Rightarrow> int \<Rightarrow> int" where
  "rshift1 ar self = drop_bit 1 (i32_op ar (self + (if self < 0 then 1 else 0)))"

definition tx_add :: "i32_arith \<Rightarrow> int \<Rightarrow> int \<Rightarrow> int" where "tx_add ar self b = i32_op ar (self + b)"
definition tx_sub :: "i32_arith \<Rightarrow> int \<Rightarrow> int \<Rightarrow> int" where "tx_sub ar self b = i32_op ar (self - b)"
definition add_avg :: "i32_arith \<Rightarrow> int \<Rightarrow> int \<Rightarrow> int" where "add_avg ar self b = drop_bit 1 (i32_op ar (self + b))"
definition sub_avg :: "i32_arith \<Rightarrow> int \<Rightarrow> int \<Rightarrow> int" where "sub_avg ar self b = drop_bit 1 (i32_op ar (self - b))"

section \<open>Rotations and butterflies\<close>

record rotation =
  rot_ADD :: "int \<Rightarrow> int \<Rightarrow> int"
  rot_SUB :: "int \<Rightarrow> int \<Rightarrow> int"
  rot_SHIFT :: "int \<Rightarrow> int"

definition RotatePi4Add :: "i32_arith \<Rightarrow> rotation" where "RotatePi4Add ar = \<lparr>rot_ADD = tx_add ar, rot_SUB = tx_sub ar, rot_SHIFT = (\<lambda>x. x)\<rparr>"
definition RotatePi4AddAvg :: "i32_arith \<Rightarrow> rotation" where "RotatePi4AddAvg ar = \<lparr>rot_ADD = add_avg ar, rot_SUB = tx_sub ar, rot_SHIFT = (\<lambda>x. x)\<rparr>"
definition RotatePi4Sub :: "i32_arith \<Rightarrow> rotation" where "RotatePi4Sub ar = \<lparr>rot_ADD = tx_sub ar, rot_SUB = tx_add ar, rot_SHIFT = (\<lambda>x. x)\<rparr>"
definition RotatePi4SubAvg :: "i32_arith \<Rightarrow> rotation" where "RotatePi4SubAvg ar = \<lparr>rot_ADD = sub_avg ar, rot_SUB = tx_add ar, rot_SHIFT = (\<lambda>x. x)\<rparr>"
definition RotateAdd :: "i32_arith \<Rightarrow> rotation" where "RotateAdd ar = \<lparr>rot_ADD = tx_add ar, rot_SUB = tx_sub ar, rot_SHIFT = (\<lambda>x. x)\<rparr>"
definition RotateAddAvg :: "i32_arith \<Rightarrow> rotation" where "RotateAddAvg ar = \<lparr>rot_ADD = add_avg ar, rot_SUB = tx_sub ar, rot_SHIFT = (\<lambda>x. x)\<rparr>"
definition RotateAddShift :: "i32_arith \<Rightarrow> rotation" where "RotateAddShift ar = \<lparr>rot_ADD = tx_add ar, rot_SUB = tx_sub ar, rot_SHIFT = rshift1 ar\<rparr>"
definition RotateSub :: "i32_arith \<Rightarrow> rotation" where "RotateSub ar = \<lparr>rot_ADD = tx_sub ar, rot_SUB = tx_add ar, rot_SHIFT = (\<lambda>x. x)\<rparr>"
definition RotateSubAvg :: "i32_arith \<Rightarrow> rotation" where "RotateSubAvg ar = \<lparr>rot_ADD = sub_avg ar, rot_SUB = tx_add ar, rot_SHIFT = (\<lambda>x. x)\<rparr>"
definition RotateSubShift :: "i32_arith \<Rightarrow> rotation" where "RotateSubShift ar = \<lparr>rot_ADD = tx_sub ar, rot_SUB = tx_add ar, rot_SHIFT = rshift1 ar\<rparr>"
definition RotateNeg :: "i32_arith \<Rightarrow> int \<Rightarrow> int \<Rightarrow> int" where "RotateNeg ar = tx_sub ar"
definition RotateNegAvg :: "i32_arith \<Rightarrow> int \<Rightarrow> int \<Rightarrow> int" where "RotateNegAvg ar = sub_avg ar"

definition pi4_kernel :: "i32_arith \<Rightarrow> rotation \<Rightarrow> nat \<Rightarrow> nat \<Rightarrow> int \<Rightarrow> int \<Rightarrow> int \<Rightarrow> int \<Rightarrow> int \<times> int" where
  "pi4_kernel ar K shift0 shift1 p0 p1 m0 m1 =
     (let t = rot_ADD K p1 p0; a = tx_mul ar shift0 p0 m0; out0 = tx_mul ar shift1 t m1; out1 = rot_SUB K a out0 in (out0, out1))"

definition half_kernel :: "i32_arith \<Rightarrow> rotation \<Rightarrow> nat \<Rightarrow> nat \<Rightarrow> nat \<Rightarrow> int \<times> int \<Rightarrow> int \<Rightarrow> int \<Rightarrow> int \<Rightarrow> int \<Rightarrow> int \<times> int" where
  "half_kernel ar K shift0 shift1 shift2 p0 p1 m0 m1 m2 =
     (let t = rot_ADD K p1 (fst p0);
          a = tx_mul ar shift0 (snd p0) m0; b = tx_mul ar shift1 p1 m1; c = tx_mul ar shift2 t m2;
          out0 = tx_add ar b c; shifted = rot_SHIFT K c; out1 = rot_SUB K a shifted
      in (out0, out1))"

definition kernel :: "i32_arith \<Rightarrow> rotation \<Rightarrow> nat \<Rightarrow> nat \<Rightarrow> nat \<Rightarrow> int \<Rightarrow> int \<Rightarrow> int \<Rightarrow> int \<Rightarrow> int \<Rightarrow> int \<times> int" where
  "kernel ar K shift0 shift1 shift2 p0 p1 m0 m1 m2 = half_kernel ar K shift0 shift1 shift2 (p0, p0) p1 m0 m1 m2"

definition neg_kernel :: "i32_arith \<Rightarrow> (int \<Rightarrow> int \<Rightarrow> int) \<Rightarrow> nat \<Rightarrow> nat \<Rightarrow> nat \<Rightarrow> int \<Rightarrow> int \<Rightarrow> int \<Rightarrow> int \<Rightarrow> int \<Rightarrow> int \<times> int" where
  "neg_kernel ar ADD shift0 shift1 shift2 p0 p1 m0 m1 m2 =
     (let t = ADD p0 p1; a = tx_mul ar shift0 p0 m0; b = tx_mul ar shift1 p1 m1; c = tx_mul ar shift2 t m2;
          out0 = tx_sub ar b c; out1 = tx_sub ar c a
      in (out0, out1))"

definition butterfly_add :: "i32_arith \<Rightarrow> int \<Rightarrow> int \<Rightarrow> (int \<times> int) \<times> int" where
  "butterfly_add ar p0 p1 = (let p0 = tx_add ar p0 p1; p0h = rshift1 ar p0; p1h = tx_sub ar p1 p0h in ((p0h, p0), p1h))"

definition butterfly_sub :: "i32_arith \<Rightarrow> int \<Rightarrow> int \<Rightarrow> (int \<times> int) \<times> int" where
  "butterfly_sub ar p0 p1 = (let p0 = tx_sub ar p0 p1; p0h = rshift1 ar p0; p1h = tx_add ar p1 p0h in ((p0h, p0), p1h))"

definition butterfly_neg :: "i32_arith \<Rightarrow> int \<Rightarrow> int \<Rightarrow> int \<times> (int \<times> int)" where
  "butterfly_neg ar p0 p1 = (let p1 = tx_sub ar p0 p1; p1h = rshift1 ar p1; p0h = tx_sub ar p0 p1h in (p0h, (p1h, p1)))"

definition butterfly_add_asym :: "i32_arith \<Rightarrow> int \<times> int \<Rightarrow> int \<Rightarrow> int \<times> int" where
  "butterfly_add_asym ar p0 p1h = (let p1 = tx_add ar p1h (fst p0); p0 = tx_sub ar (snd p0) p1 in (p0, p1))"

definition butterfly_sub_asym :: "i32_arith \<Rightarrow> int \<times> int \<Rightarrow> int \<Rightarrow> int \<times> int" where
  "butterfly_sub_asym ar p0 p1h = (let p1 = tx_sub ar p1h (fst p0); p0 = tx_add ar (snd p0) p1 in (p0, p1))"

definition butterfly_neg_asym :: "i32_arith \<Rightarrow> int \<Rightarrow> int \<times> int \<Rightarrow> int \<times> int" where
  "butterfly_neg_asym ar p0h p1 = (let p0 = tx_add ar p0h (fst p1); p1 = tx_sub ar p0 (snd p1) in (p0, p1))"

section \<open>Transforms of one dimension\<close>

definition daala_fdct_ii_2_asym :: "i32_arith \<Rightarrow> int \<Rightarrow> (int \<times> int) \<Rightarrow> int \<times> int" where
  "daala_fdct_ii_2_asym ar p0h p1 = butterfly_neg_asym ar p0h p1"

definition daala_fdst_iv_2_asym :: "i32_arith \<Rightarrow> (int \<times> int) \<Rightarrow> int \<Rightarrow> int \<times> int" where
  "daala_fdst_iv_2_asym ar p0 p1h = half_kernel ar (RotateAdd ar) 9 12 13 p0 p1h 473 3135 4433"

definition daala_fdct_ii_4 :: "i32_arith \<Rightarrow> int \<Rightarrow> int \<Rightarrow> int \<Rightarrow> int \<Rightarrow> int list" where
  "daala_fdct_ii_4 ar q0 q1 q2 q3 =
     (let (q0h, q3) = butterfly_neg ar q0 q3;
          (q1, q2h) = butterfly_add ar q1 q2;
          (q0, q1) = daala_fdct_ii_2_asym ar q0h q1;
          (q3, q2) = daala_fdst_iv_2_asym ar q3 q2h
      in [q0, q1, q2, q3])"

definition daala_fdct4 :: "i32_arith \<Rightarrow> int list \<Rightarrow> int list result" where
  "daala_fdct4 ar coeffs =
     (if length coeffs < 4 then Inl Fault
      else
        let temp_out = daala_fdct_ii_4 ar (coeffs ! 0) (coeffs ! 1) (coeffs ! 2) (coeffs ! 3)
        in Inr ([temp_out ! 0, temp_out ! 2, temp_out ! 1, temp_out ! 3] @ drop 4 coeffs))"

definition daala_fdst_vii_4 :: "i32_arith \<Rightarrow> int list \<Rightarrow> int list result" where
  "daala_fdst_vii_4 ar coeffs =
     (if length coeffs < 4 then Inl Fault
      else
        let q0 = coeffs ! 0; q1 = coeffs ! 1; q2 = coeffs ! 2; q3 = coeffs ! 3;
            t0 = tx_add ar q1 q3; t1 = tx_add ar q1 (sub_avg ar q0 t0); t2 = tx_sub ar q0 q1; t3 = q2; t4 = tx_add ar q0 q3;
            t0 = tx_mul ar 14 t0 7021; t1 = tx_mul ar 15 t1 37837; t2 = tx_mul ar 15 t2 21513; t3 = tx_mul ar 15 t3 37837;
            t4 = tx_mul ar 11 t4 467; t3h = rshift1 ar t3; u4 = tx_add ar t4 t3h
        in Inr ([tx_add ar t0 u4, t1, tx_add ar t0 (tx_sub ar t2 t3h), tx_add ar t2 (tx_sub ar t3 u4)] @ drop 4 coeffs))"

definition daala_fdct_ii_2 :: "i32_arith \<Rightarrow> int \<Rightarrow> int \<Rightarrow> int \<times> int" where
  "daala_fdct_ii_2 ar p0 p1 = (let (p1, p0) = pi4_kernel ar (RotatePi4SubAvg ar) 13 13 p1 p0 11585 11585 in (p0, p1))"

definition daala_fdst_iv_2 :: "i32_arith \<Rightarrow> int \<Rightarrow> int \<Rightarrow> int \<times> int" where
  "daala_fdst_iv_2 ar p0 p1 = kernel ar (RotateAddAvg ar) 13 14 12 p0 p1 10703 8867 3135"

definition daala_fdct_ii_4_asym :: "i32_arith \<Rightarrow> int \<Rightarrow> (int \<times> int) \<Rightarrow> int \<Rightarrow> (int \<times> int) \<Rightarrow> int list" where
  "daala_fdct_ii_4_asym ar q0h q1 q2h q3 =
     (let (q0, q3) = butterfly_neg_asym ar q0h q3;
          (q1, q2) = butterfly_sub_asym ar q1 q2h;
          (q0, q1) = daala_fdct_ii_2 ar q0 q1;
          (q3, q2) = daala_fdst_iv_2 ar q3 q2
      in [q0, q1, q2, q3])"

definition daala_fdst_iv_4_asym :: "i32_arith \<Rightarrow> (int \<times> int) \<Rightarrow> int \<Rightarrow> (int \<times> int) \<Rightarrow> int \<Rightarrow> int list" where
  "daala_fdst_iv_4_asym ar q0 q1h q2 q3h =
     (let (q0, q3) = half_kernel ar (RotateAddShift ar) 14 13 15 q0 q3h 9633 12873 12785;
          (q2, q1) = half_kernel ar (RotateSubShift ar) 14 15 12 q2 q1h 11363 18081 4551;
          (q2, q3) = butterfly_sub_asym ar (rshift1 ar q2, q2) q3;
          (q0, q1) = butterfly_sub_asym ar (rshift1 ar q0, q0) q1;
          (q2, q1) = pi4_kernel ar (RotatePi4AddAvg ar) 13 13 q2 q1 11585 11585
      in [q0, q1, q2, q3])"

definition daala_fdct_ii_8 :: "i32_arith \<Rightarrow> int \<Rightarrow> int \<Rightarrow> int \<Rightarrow> int \<Rightarrow> int \<Rightarrow> int \<Rightarrow>
  int \<Rightarrow> int \<Rightarrow> int list" where
  "daala_fdct_ii_8 ar r0 r1 r2 r3 r4 r5 r6 r7 =
     (let (r0h, r7) = butterfly_neg ar r0 r7;
          (r1, r6h) = butterfly_add ar r1 r6;
          (r2h, r5) = butterfly_neg ar r2 r5;
          (r3, r4h) = butterfly_add ar r3 r4
      in daala_fdct_ii_4_asym ar r0h r1 r2h r3 @
         rev (daala_fdst_iv_4_asym ar r7 r6h r5 r4h))"

definition daala_fdct8 :: "i32_arith \<Rightarrow> int list \<Rightarrow> int list result" where
  "daala_fdct8 ar coeffs =
     (if length coeffs < 8 then Inl Fault
      else
        let temp_out = daala_fdct_ii_8 ar (coeffs ! 0) (coeffs ! 1) (coeffs ! 2) (coeffs ! 3) (coeffs ! 4) (coeffs ! 5) (coeffs ! 6) (coeffs ! 7)
        in Inr ([temp_out ! 0, temp_out ! 4, temp_out ! 2, temp_out ! 6, temp_out ! 1, temp_out ! 5, temp_out ! 3, temp_out ! 7] @ drop 8 coeffs))"

definition daala_fdst_iv_8 :: "i32_arith \<Rightarrow> int \<Rightarrow> int \<Rightarrow> int \<Rightarrow> int \<Rightarrow> int \<Rightarrow> int \<Rightarrow>
  int \<Rightarrow> int \<Rightarrow> int list" where
  "daala_fdst_iv_8 ar r0 r1 r2 r3 r4 r5 r6 r7 =
     (let (r0, r7) = kernel ar (RotateAdd ar) 14 14 13 r0 r7 17911 14699 803;
          (r6, r1) = kernel ar (RotateSub ar) 14 15 12 r6 r1 20435 21845 1189;
          (r2, r5) = kernel ar (RotateAdd ar) 14 13 15 r2 r5 22173 3363 15447;
          (r4, r3) = kernel ar (RotateSub ar) 14 14 13 r4 r3 23059 2271 5197;
          (r0, r3h) = butterfly_add ar r0 r3;
          (r2, r1h) = butterfly_sub ar r2 r1;
          (r5, r6h) = butterfly_add ar r5 r6;
          (r7, r4h) = butterfly_sub ar r7 r4;
          (r7, r6) = butterfly_add_asym ar r7 r6h;
          (r5, r3) = butterfly_add_asym ar r5 r3h;
          (r2, r4) = butterfly_add_asym ar r2 r4h;
          (r0, r1) = butterfly_sub_asym ar r0 r1h;
          (r3, r4) = kernel ar (RotateSubAvg ar) 13 14 12 r3 r4 10703 8867 3135;
          (r2, r5) = neg_kernel ar (RotateNegAvg ar) 13 14 12 r2 r5 10703 8867 3135;
          (r1, r6) = pi4_kernel ar (RotatePi4SubAvg ar) 13 13 r1 r6 11585 11585
      in [r0, r1, r2, r3, r4, r5, r6, r7])"

definition daala_fdst8 :: "i32_arith \<Rightarrow> int list \<Rightarrow> int list result" where
  "daala_fdst8 ar coeffs =
     (if length coeffs < 8 then Inl Fault
      else
        let temp_out = daala_fdst_iv_8 ar (coeffs ! 0) (coeffs ! 1) (coeffs ! 2) (coeffs ! 3) (coeffs ! 4) (coeffs ! 5) (coeffs ! 6) (coeffs ! 7)
        in Inr ([temp_out ! 0, temp_out ! 4, temp_out ! 2, temp_out ! 6, temp_out ! 1, temp_out ! 5, temp_out ! 3, temp_out ! 7] @ drop 8 coeffs))"

definition daala_fdst_iv_4 :: "i32_arith \<Rightarrow> int \<Rightarrow> int \<Rightarrow> int \<Rightarrow> int \<Rightarrow> int list" where
  "daala_fdst_iv_4 ar q0 q1 q2 q3 =
     (let (q0, q3) = kernel ar (RotateAddShift ar) 14 12 11 q0 q3 13623 4551 565;
          (q2, q1) = kernel ar (RotateSubShift ar) 14 15 11 q2 q1 16069 12785 1609;
          (q2, q3) = butterfly_sub_asym ar (rshift1 ar q2, q2) q3;
          (q0, q1) = butterfly_sub_asym ar (rshift1 ar q0, q0) q1;
          (q2, q1) = pi4_kernel ar (RotatePi4AddAvg ar) 13 13 q2 q1 11585 11585
      in [q0, q1, q2, q3])"

definition daala_fdct_ii_8_asym :: "i32_arith \<Rightarrow> int \<Rightarrow> (int \<times> int) \<Rightarrow> int \<Rightarrow> (int \<times> int) \<Rightarrow> int
  \<Rightarrow> (int \<times> int) \<Rightarrow> int \<Rightarrow> (int \<times> int) \<Rightarrow> int list" where
  "daala_fdct_ii_8_asym ar r0h r1 r2h r3 r4h r5 r6h r7 =
     (let (r0, r7) = butterfly_neg_asym ar r0h r7;
          (r1, r6) = butterfly_sub_asym ar r1 r6h;
          (r2, r5) = butterfly_neg_asym ar r2h r5;
          (r3, r4) = butterfly_sub_asym ar r3 r4h
      in daala_fdct_ii_4 ar r0 r1 r2 r3 @
         rev (daala_fdst_iv_4 ar r7 r6 r5 r4))"

definition daala_fdst_iv_8_asym :: "i32_arith \<Rightarrow> (int \<times> int) \<Rightarrow> int \<Rightarrow> (int \<times> int) \<Rightarrow> int \<Rightarrow> (int
  \<times> int) \<Rightarrow> int \<Rightarrow> (int \<times> int) \<Rightarrow> int \<Rightarrow> int list" where
  "daala_fdst_iv_8_asym ar r0 r1h r2 r3h r4 r5h r6 r7h =
     (let (r0, r7) = half_kernel ar (RotateAdd ar) 14 12 14 r0 r7h 12665 5197 2271;
          (r6, r1) = half_kernel ar (RotateSub ar) 14 15 13 r6 r1h 14449 30893 3363;
          (r2, r5) = half_kernel ar (RotateAdd ar) 14 11 13 r2 r5h 15679 1189 5461;
          (r4, r3) = half_kernel ar (RotateSub ar) 14 12 14 r4 r3h 16305 803 14699;
          (r0, r3h) = butterfly_add ar r0 r3;
          (r2, r1h) = butterfly_sub ar r2 r1;
          (r5, r6h) = butterfly_add ar r5 r6;
          (r7, r4h) = butterfly_sub ar r7 r4;
          (r7, r6) = butterfly_add_asym ar r7 r6h;
          (r5, r3) = butterfly_add_asym ar r5 r3h;
          (r2, r4) = butterfly_add_asym ar r2 r4h;
          (r0, r1) = butterfly_sub_asym ar r0 r1h;
          (r3, r4) = kernel ar (RotateSubAvg ar) 9 14 12 r3 r4 669 8867 3135;
          (r2, r5) = neg_kernel ar (RotateNegAvg ar) 9 14 12 r2 r5 669 8867 3135;
          (r1, r6) = pi4_kernel ar (RotatePi4SubAvg ar) 12 13 r1 r6 5793 11585
      in [r0, r1, r2, r3, r4, r5, r6, r7])"

definition daala_fdct_ii_16 :: "i32_arith \<Rightarrow> int \<Rightarrow> int \<Rightarrow> int \<Rightarrow> int \<Rightarrow> int \<Rightarrow> int \<Rightarrow>
  int \<Rightarrow> int \<Rightarrow> int \<Rightarrow> int \<Rightarrow> int \<Rightarrow> int \<Rightarrow>
  int \<Rightarrow> int \<Rightarrow> int \<Rightarrow> int \<Rightarrow> int list" where
  "daala_fdct_ii_16 ar s0 s1 s2 s3 s4 s5 s6 s7 s8 s9 sa sb sc sd se sf =
     (let (s0h, sf) = butterfly_neg ar s0 sf;
          (s1, seh) = butterfly_add ar s1 se;
          (s2h, sd) = butterfly_neg ar s2 sd;
          (s3, sch) = butterfly_add ar s3 sc;
          (s4h, sb) = butterfly_neg ar s4 sb;
          (s5, sah) = butterfly_add ar s5 sa;
          (s6h, s9) = butterfly_neg ar s6 s9;
          (s7, s8h) = butterfly_add ar s7 s8
      in daala_fdct_ii_8_asym ar s0h s1 s2h s3 s4h s5 s6h s7 @
         rev (daala_fdst_iv_8_asym ar sf seh sd sch sb sah s9 s8h))"

definition daala_fdct16 :: "i32_arith \<Rightarrow> int list \<Rightarrow> int list result" where
  "daala_fdct16 ar coeffs =
     (if length coeffs < 16 then Inl Fault
      else
        let temp_out = daala_fdct_ii_16 ar (coeffs ! 0) (coeffs ! 1) (coeffs ! 2) (coeffs ! 3) (coeffs ! 4) (coeffs ! 5) (coeffs ! 6) (coeffs ! 7) (coeffs ! 8)
          (coeffs ! 9) (coeffs ! 10) (coeffs ! 11) (coeffs ! 12) (coeffs ! 13) (coeffs ! 14) (coeffs ! 15)
        in Inr ([temp_out ! 0, temp_out ! 8, temp_out ! 4, temp_out ! 12, temp_out ! 2, temp_out ! 10, temp_out ! 6, temp_out ! 14, temp_out ! 1,
          temp_out ! 9, temp_out ! 5, temp_out ! 13, temp_out ! 3, temp_out ! 11, temp_out ! 7, temp_out ! 15] @ drop 16 coeffs))"

definition daala_fdst_iv_16 :: "i32_arith \<Rightarrow> int \<Rightarrow> int \<Rightarrow> int \<Rightarrow> int \<Rightarrow> int \<Rightarrow> int \<Rightarrow>
  int \<Rightarrow> int \<Rightarrow> int \<Rightarrow> int \<Rightarrow> int \<Rightarrow> int \<Rightarrow>
  int \<Rightarrow> int \<Rightarrow> int \<Rightarrow> int \<Rightarrow> int list" where
  "daala_fdst_iv_16 ar s0 s1 s2 s3 s4 s5 s6 s7 s8 s9 sa sb sc sd se sf =
     (let (s0, sf) = kernel ar (RotateAddShift ar) 15 13 14 s0 sf 24279 11003 1137;
          (se, s1) = kernel ar (RotateSubShift ar) 11 8 11 se s1 1645 305 425;
          (s2, sd) = kernel ar (RotateAddShift ar) 14 13 13 s2 sd 14053 8423 2815;
          (sc, s3) = kernel ar (RotateSubShift ar) 14 13 13 sc s3 14811 7005 3903;
          (s4, sb) = kernel ar (RotateAddShift ar) 15 14 14 s4 sb 30853 11039 9907;
          (sa, s5) = kernel ar (RotateSubShift ar) 14 13 11 sa s5 15893 3981 1489;
          (s6, s9) = kernel ar (RotateAddShift ar) 15 11 14 s6 s9 32413 601 13803;
          (s8, s7) = kernel ar (RotateSubShift ar) 15 11 11 s8 s7 32729 201 1945;
          (s0, s7) = butterfly_sub_asym ar (rshift1 ar s0, s0) s7;
          (s8, sf) = butterfly_sub_asym ar (rshift1 ar s8, s8) sf;
          (s4, s3) = butterfly_add_asym ar (rshift1 ar s4, s4) s3;
          (sc, sb) = butterfly_add_asym ar (rshift1 ar sc, sc) sb;
          (s2, s5) = butterfly_sub_asym ar (rshift1 ar s2, s2) s5;
          (sa, sd) = butterfly_sub_asym ar (rshift1 ar sa, sa) sd;
          (s6, s1) = butterfly_add_asym ar (rshift1 ar s6, s6) s1;
          (se, s9) = butterfly_add_asym ar (rshift1 ar se, se) s9;
          ((s8h', s8), s4h) = butterfly_add ar s8 s4;
          ((s7h', s7), sbh) = butterfly_add ar s7 sb;
          ((sah', sa), s6h) = butterfly_sub ar sa s6;
          ((s5h', s5), s9h) = butterfly_sub ar s5 s9;
          (s0, s3h) = butterfly_add ar s0 s3;
          (sd, seh) = butterfly_add ar sd se;
          (s2, s1h) = butterfly_sub ar s2 s1;
          (sf, sch) = butterfly_sub ar sf sc;
          (s8, s7) = kernel ar (RotateAddAvg ar) 8 11 15 s8 s7 301 1609 12785;
          (s9, s6) = kernel ar (RotateAdd ar) 13 15 13 s9h s6h 11363 9041 4551;
          (s5, sa) = neg_kernel ar (RotateNegAvg ar) 12 15 12 s5 sa 5681 9041 4551;
          (s4, sb) = neg_kernel ar (RotateNeg ar) 13 14 15 s4h sbh 9633 12873 6393;
          (s2, sc) = butterfly_add_asym ar s2 sch;
          (s0, s1) = butterfly_sub_asym ar s0 s1h;
          (sf, se) = butterfly_add_asym ar sf seh;
          (sd, s3) = butterfly_add_asym ar sd s3h;
          (s7, s6) = butterfly_add_asym ar (rshift1 ar s7, s7) s6;
          (s8, s9) = butterfly_sub_asym ar (rshift1 ar s8, s8) s9;
          (sa, sb) = butterfly_sub_asym ar (rshift1 ar sa, sa) sb;
          (s5, s4) = butterfly_add_asym ar (rshift1 ar s5, s5) s4;
          (sc, s3) = kernel ar (RotateAddAvg ar) 9 14 12 sc s3 669 8867 3135;
          (s2, sd) = neg_kernel ar (RotateNegAvg ar) 9 14 12 s2 sd 669 8867 3135;
          (sa, s5) = pi4_kernel ar (RotatePi4AddAvg ar) 12 13 sa s5 5793 11585;
          (s6, s9) = pi4_kernel ar (RotatePi4AddAvg ar) 12 13 s6 s9 5793 11585;
          (se, s1) = pi4_kernel ar (RotatePi4AddAvg ar) 12 13 se s1 5793 11585
      in [s0, s1, s2, s3, s4, s5, s6, s7, s8, s9, sa, sb, sc, sd, se, sf])"

definition daala_fdst16 :: "i32_arith \<Rightarrow> int list \<Rightarrow> int list result" where
  "daala_fdst16 ar coeffs =
     (if length coeffs < 16 then Inl Fault
      else
        let temp_out = daala_fdst_iv_16 ar (coeffs ! 0) (coeffs ! 1) (coeffs ! 2) (coeffs ! 3) (coeffs ! 4) (coeffs ! 5) (coeffs ! 6) (coeffs ! 7) (coeffs ! 8)
          (coeffs ! 9) (coeffs ! 10) (coeffs ! 11) (coeffs ! 12) (coeffs ! 13) (coeffs ! 14) (coeffs ! 15)
        in Inr ([temp_out ! 0, temp_out ! 8, temp_out ! 4, temp_out ! 12, temp_out ! 2, temp_out ! 10, temp_out ! 6, temp_out ! 14, temp_out ! 1,
          temp_out ! 9, temp_out ! 5, temp_out ! 13, temp_out ! 3, temp_out ! 11, temp_out ! 7, temp_out ! 15] @ drop 16 coeffs))"

definition daala_fdct_ii_16_asym :: "i32_arith \<Rightarrow> int \<Rightarrow> (int \<times> int) \<Rightarrow> int \<Rightarrow> (int \<times> int) \<Rightarrow> int
  \<Rightarrow> (int \<times> int) \<Rightarrow> int \<Rightarrow> (int \<times> int) \<Rightarrow> int
  \<Rightarrow> (int \<times> int) \<Rightarrow> int \<Rightarrow> (int \<times> int) \<Rightarrow> int
  \<Rightarrow> (int \<times> int) \<Rightarrow> int \<Rightarrow> (int \<times> int) \<Rightarrow> int list" where
  "daala_fdct_ii_16_asym ar s0h s1 s2h s3 s4h s5 s6h s7 s8h s9 sah sb sch sd seh sf =
     (let (s0, sf) = butterfly_neg_asym ar s0h sf;
          (s1, se) = butterfly_sub_asym ar s1 seh;
          (s2, sd) = butterfly_neg_asym ar s2h sd;
          (s3, sc) = butterfly_sub_asym ar s3 sch;
          (s4, sb) = butterfly_neg_asym ar s4h sb;
          (s5, sa) = butterfly_sub_asym ar s5 sah;
          (s6, s9) = butterfly_neg_asym ar s6h s9;
          (s7, s8) = butterfly_sub_asym ar s7 s8h
      in daala_fdct_ii_8 ar s0 s1 s2 s3 s4 s5 s6 s7 @
         rev (daala_fdst_iv_8 ar sf se sd sc sb sa s9 s8))"

definition daala_fdst_iv_16_asym :: "i32_arith \<Rightarrow> (int \<times> int) \<Rightarrow> int \<Rightarrow> (int \<times> int) \<Rightarrow> int \<Rightarrow> (int
  \<times> int) \<Rightarrow> int \<Rightarrow> (int \<times> int) \<Rightarrow> int \<Rightarrow> (int \<times>
  int) \<Rightarrow> int \<Rightarrow> (int \<times> int) \<Rightarrow> int \<Rightarrow> (int \<times> int)
  \<Rightarrow> int \<Rightarrow> (int \<times> int) \<Rightarrow> int \<Rightarrow> int list" where
  "daala_fdst_iv_16_asym ar s0 s1h s2 s3h s4 s5h s6 s7h s8 s9h sa sbh sc sdh se sfh =
     (let (s0, sf) = half_kernel ar (RotateAddShift ar) 11 15 11 s0 sfh 1073 62241 201;
          (se, s1) = half_kernel ar (RotateSubShift ar) 15 15 11 se s1h 18611 55211 601;
          (s2, sd) = half_kernel ar (RotateAddShift ar) 14 10 13 s2 sdh 9937 1489 3981;
          (sc, s3) = half_kernel ar (RotateSubShift ar) 14 15 14 sc s3h 10473 39627 11039;
          (s4, sb) = half_kernel ar (RotateAddShift ar) 12 12 13 s4 sbh 2727 3903 7005;
          (sa, s5) = half_kernel ar (RotateSubShift ar) 13 12 13 sa s5h 5619 2815 8423;
          (s6, s9) = half_kernel ar (RotateAddShift ar) 12 15 8 s6 s9h 2865 13599 305;
          (s8, s7) = half_kernel ar (RotateSubShift ar) 15 13 13 s8 s7h 23143 1137 11003;
          (s0, s7) = butterfly_sub_asym ar (rshift1 ar s0, s0) s7;
          (s8, sf) = butterfly_sub_asym ar (rshift1 ar s8, s8) sf;
          (s4, s3) = butterfly_add_asym ar (rshift1 ar s4, s4) s3;
          (sc, sb) = butterfly_add_asym ar (rshift1 ar sc, sc) sb;
          (s2, s5) = butterfly_sub_asym ar (rshift1 ar s2, s2) s5;
          (sa, sd) = butterfly_sub_asym ar (rshift1 ar sa, sa) sd;
          (s6, s1) = butterfly_add_asym ar (rshift1 ar s6, s6) s1;
          (se, s9) = butterfly_add_asym ar (rshift1 ar se, se) s9;
          ((s8h', s8), s4h) = butterfly_add ar s8 s4;
          ((s7h', s7), sbh) = butterfly_add ar s7 sb;
          ((sah', sa), s6h) = butterfly_sub ar sa s6;
          ((s5h', s5), s9h) = butterfly_sub ar s5 s9;
          (s0, s3h) = butterfly_add ar s0 s3;
          (sd, seh) = butterfly_add ar sd se;
          (s2, s1h) = butterfly_sub ar s2 s1;
          (sf, sch) = butterfly_sub ar sf sc;
          (s8, s7) = kernel ar (RotateAdd ar) 13 14 15 s8 s7 9633 12873 6393;
          (s9, s6) = kernel ar (RotateAdd ar) 14 15 13 s9h s6h 22725 9041 4551;
          (s5, sa) = neg_kernel ar (RotateNeg ar) 13 15 13 s5 sa 11363 9041 4551;
          (s4, sb) = neg_kernel ar (RotateNeg ar) 13 14 15 s4h sbh 9633 12873 6393;
          (s2, sc) = butterfly_add_asym ar s2 sch;
          (s0, s1) = butterfly_sub_asym ar s0 s1h;
          (sf, se) = butterfly_add_asym ar sf seh;
          (sd, s3) = butterfly_add_asym ar sd s3h;
          (s7, s6) = butterfly_add_asym ar (rshift1 ar s7, s7) s6;
          (s8, s9) = butterfly_sub_asym ar (rshift1 ar s8, s8) s9;
          (sa, sb) = butterfly_sub_asym ar (rshift1 ar sa, sa) sb;
          (s5, s4) = butterfly_add_asym ar (rshift1 ar s5, s5) s4;
          (sc, s3) = kernel ar (RotateAdd ar) 13 14 13 sc s3 10703 8867 3135;
          (s2, sd) = neg_kernel ar (RotateNeg ar) 13 14 13 s2 sd 10703 8867 3135;
          (sa, s5) = pi4_kernel ar (RotatePi4Add ar) 13 13 sa s5 11585 5793;
          (s6, s9) = pi4_kernel ar (RotatePi4Add ar) 13 13 s6 s9 11585 5793;
          (se, s1) = pi4_kernel ar (RotatePi4Add ar) 13 13 se s1 11585 5793
      in [s0, s1, s2, s3, s4, s5, s6, s7, s8, s9, sa, sb, sc, sd, se, sf])"

definition daala_fdct_ii_32 :: "i32_arith \<Rightarrow> int \<Rightarrow> int \<Rightarrow> int \<Rightarrow> int \<Rightarrow> int \<Rightarrow> int \<Rightarrow>
  int \<Rightarrow> int \<Rightarrow> int \<Rightarrow> int \<Rightarrow> int \<Rightarrow> int \<Rightarrow>
  int \<Rightarrow> int \<Rightarrow> int \<Rightarrow> int \<Rightarrow> int \<Rightarrow> int \<Rightarrow>
  int \<Rightarrow> int \<Rightarrow> int \<Rightarrow> int \<Rightarrow> int \<Rightarrow> int \<Rightarrow>
  int \<Rightarrow> int \<Rightarrow> int \<Rightarrow> int \<Rightarrow> int \<Rightarrow> int \<Rightarrow>
  int \<Rightarrow> int \<Rightarrow> int list" where
  "daala_fdct_ii_32 ar t0 t1 t2 t3 t4 t5 t6 t7 t8 t9 ta tb tc td te tf tg th ti tj tk tl' tm tn to tp tq tr ts tt tu tv =
     (let (t0h, tv) = butterfly_neg ar t0 tv;
          (t1, tuh) = butterfly_add ar t1 tu;
          (t2h, tt) = butterfly_neg ar t2 tt;
          (t3, tsh) = butterfly_add ar t3 ts;
          (t4h, tr) = butterfly_neg ar t4 tr;
          (t5, tqh) = butterfly_add ar t5 tq;
          (t6h, tp) = butterfly_neg ar t6 tp;
          (t7, toh) = butterfly_add ar t7 to;
          (t8h, tn) = butterfly_neg ar t8 tn;
          (t9, tmh) = butterfly_add ar t9 tm;
          (tah, tl') = butterfly_neg ar ta tl';
          (tb, tkh) = butterfly_add ar tb tk;
          (tch, tj) = butterfly_neg ar tc tj;
          (td, tih) = butterfly_add ar td ti;
          (teh, th) = butterfly_neg ar te th;
          (tf, tgh) = butterfly_add ar tf tg
      in daala_fdct_ii_16_asym ar t0h t1 t2h t3 t4h t5 t6h t7 t8h t9 tah tb tch td teh tf @
         rev (daala_fdst_iv_16_asym ar tv tuh tt tsh tr tqh tp toh tn tmh tl' tkh tj tih th tgh))"

definition daala_fdct32 :: "i32_arith \<Rightarrow> int list \<Rightarrow> int list result" where
  "daala_fdct32 ar coeffs =
     (if length coeffs < 32 then Inl Fault
      else
        let temp_out = daala_fdct_ii_32 ar (coeffs ! 0) (coeffs ! 1) (coeffs ! 2) (coeffs ! 3) (coeffs ! 4) (coeffs ! 5) (coeffs ! 6) (coeffs ! 7) (coeffs ! 8)
          (coeffs ! 9) (coeffs ! 10) (coeffs ! 11) (coeffs ! 12) (coeffs ! 13) (coeffs ! 14) (coeffs ! 15) (coeffs ! 16) (coeffs ! 17) (coeffs ! 18)
          (coeffs ! 19) (coeffs ! 20) (coeffs ! 21) (coeffs ! 22) (coeffs ! 23) (coeffs ! 24) (coeffs ! 25) (coeffs ! 26) (coeffs ! 27) (coeffs ! 28)
          (coeffs ! 29) (coeffs ! 30) (coeffs ! 31)
        in Inr ([temp_out ! 0, temp_out ! 16, temp_out ! 8, temp_out ! 24, temp_out ! 4, temp_out ! 20, temp_out ! 12, temp_out ! 28, temp_out ! 2,
          temp_out ! 18, temp_out ! 10, temp_out ! 26, temp_out ! 6, temp_out ! 22, temp_out ! 14, temp_out ! 30, temp_out ! 1, temp_out ! 17,
          temp_out ! 9, temp_out ! 25, temp_out ! 5, temp_out ! 21, temp_out ! 13, temp_out ! 29, temp_out ! 3, temp_out ! 19, temp_out ! 11,
          temp_out ! 27, temp_out ! 7, temp_out ! 23, temp_out ! 15, temp_out ! 31] @ drop 32 coeffs))"

definition daala_fdct_ii_32_asym :: "i32_arith \<Rightarrow> int \<Rightarrow> (int \<times> int) \<Rightarrow> int \<Rightarrow> (int \<times> int) \<Rightarrow> int
  \<Rightarrow> (int \<times> int) \<Rightarrow> int \<Rightarrow> (int \<times> int) \<Rightarrow> int
  \<Rightarrow> (int \<times> int) \<Rightarrow> int \<Rightarrow> (int \<times> int) \<Rightarrow> int
  \<Rightarrow> (int \<times> int) \<Rightarrow> int \<Rightarrow> (int \<times> int) \<Rightarrow> int
  \<Rightarrow> (int \<times> int) \<Rightarrow> int \<Rightarrow> (int \<times> int) \<Rightarrow> int
  \<Rightarrow> (int \<times> int) \<Rightarrow> int \<Rightarrow> (int \<times> int) \<Rightarrow> int
  \<Rightarrow> (int \<times> int) \<Rightarrow> int \<Rightarrow> (int \<times> int) \<Rightarrow> int
  \<Rightarrow> (int \<times> int) \<Rightarrow> int \<Rightarrow> (int \<times> int) \<Rightarrow> int list" where
  "daala_fdct_ii_32_asym ar t0h t1 t2h t3 t4h t5 t6h t7 t8h t9 tah tb tch td teh tf tgh th tih tj tkh tl' tmh tn toh tp tqh tr tsh tt tuh tv =
     (let (t0, tv) = butterfly_neg_asym ar t0h tv;
          (t1, tu) = butterfly_sub_asym ar t1 tuh;
          (t2, tt) = butterfly_neg_asym ar t2h tt;
          (t3, ts) = butterfly_sub_asym ar t3 tsh;
          (t4, tr) = butterfly_neg_asym ar t4h tr;
          (t5, tq) = butterfly_sub_asym ar t5 tqh;
          (t6, tp) = butterfly_neg_asym ar t6h tp;
          (t7, to) = butterfly_sub_asym ar t7 toh;
          (t8, tn) = butterfly_neg_asym ar t8h tn;
          (t9, tm) = butterfly_sub_asym ar t9 tmh;
          (ta, tl') = butterfly_neg_asym ar tah tl';
          (tb, tk) = butterfly_sub_asym ar tb tkh;
          (tc, tj) = butterfly_neg_asym ar tch tj;
          (td, ti) = butterfly_sub_asym ar td tih;
          (te, th) = butterfly_neg_asym ar teh th;
          (tf, tg) = butterfly_sub_asym ar tf tgh
      in daala_fdct_ii_16 ar t0 t1 t2 t3 t4 t5 t6 t7 t8 t9 ta tb tc td te tf @
         rev (daala_fdst_iv_16 ar tv tu tt ts tr tq tp to tn tm tl' tk tj ti th tg))"

definition daala_fdst_iv_32_asym :: "i32_arith \<Rightarrow> (int \<times> int) \<Rightarrow> int \<Rightarrow> (int \<times> int) \<Rightarrow> int \<Rightarrow> (int
  \<times> int) \<Rightarrow> int \<Rightarrow> (int \<times> int) \<Rightarrow> int \<Rightarrow> (int \<times>
  int) \<Rightarrow> int \<Rightarrow> (int \<times> int) \<Rightarrow> int \<Rightarrow> (int \<times> int)
  \<Rightarrow> int \<Rightarrow> (int \<times> int) \<Rightarrow> int \<Rightarrow> (int \<times> int)
  \<Rightarrow> int \<Rightarrow> (int \<times> int) \<Rightarrow> int \<Rightarrow> (int \<times> int)
  \<Rightarrow> int \<Rightarrow> (int \<times> int) \<Rightarrow> int \<Rightarrow> (int \<times> int)
  \<Rightarrow> int \<Rightarrow> (int \<times> int) \<Rightarrow> int \<Rightarrow> (int \<times> int)
  \<Rightarrow> int \<Rightarrow> (int \<times> int) \<Rightarrow> int \<Rightarrow> int list" where
  "daala_fdst_iv_32_asym ar t0 t1h t2 t3h t4 t5h t6 t7h t8 t9h ta tbh tc tdh te tfh tg thh ti tjh tk tlh tm tnh to tph tq trh ts tth tu tvh =
     (let (t0, tv) = half_kernel ar (RotateAdd ar) 13 14 15 t0 tvh 5933 22595 1137;
          (tu, t1) = half_kernel ar (RotateSub ar) 13 14 15 tu t1h 6203 21403 3409;
          (t2, tt) = half_kernel ar (RotateAdd ar) 15 8 15 t2 tth 25833 315 5673;
          (ts, t3) = half_kernel ar (RotateSub ar) 15 12 15 ts t3h 26791 4717 7923;
          (t4, tr) = half_kernel ar (RotateAdd ar) 13 14 15 t4 trh 6921 17531 10153;
          (tq, t5) = half_kernel ar (RotateSub ar) 15 15 12 tq t5h 28511 32303 1545;
          (t6, tp) = half_kernel ar (RotateAdd ar) 15 14 12 t6 tph 29269 14733 1817;
          (to, t7) = half_kernel ar (RotateSub ar) 15 14 14 to t7h 29957 13279 8339;
          (t8, tn) = half_kernel ar (RotateAdd ar) 13 14 15 t8 tnh 7643 11793 18779;
          (tm, t9) = half_kernel ar (RotateSub ar) 14 15 15 tm t9h 15557 20557 20835;
          (ta, tl') = half_kernel ar (RotateAdd ar) 15 15 15 ta tlh 31581 17479 22841;
          (tk, tb) = half_kernel ar (RotateSub ar) 13 15 12 tk tbh 7993 14359 3099;
          (tc, tj) = half_kernel ar (RotateAdd ar) 14 13 15 tc tjh 16143 2801 26683;
          (ti, td) = half_kernel ar (RotateSub ar) 14 14 14 ti tdh 16261 4011 14255;
          (te, th) = half_kernel ar (RotateAdd ar) 15 15 15 te thh 32679 4821 30269;
          (tg, tf) = half_kernel ar (RotateSub ar) 14 12 14 tg tfh 16379 201 15977;
          (t0, tfh) = butterfly_add ar t0 tf;
          (tv, tgh) = butterfly_sub ar tv tg;
          (th, tuh) = butterfly_add ar th tu;
          (te, t1h) = butterfly_sub ar te t1;
          (t2, tdh) = butterfly_add ar t2 td;
          (tt, tih) = butterfly_sub ar tt ti;
          (tj, tsh) = butterfly_add ar tj ts;
          (tc, t3h) = butterfly_sub ar tc t3;
          (t4, tbh) = butterfly_add ar t4 tb;
          (tr, tkh) = butterfly_sub ar tr tk;
          (tl', tqh) = butterfly_add ar tl' tq;
          (ta, t5h) = butterfly_sub ar ta t5;
          (t6, t9h) = butterfly_add ar t6 t9;
          (tp, tmh) = butterfly_sub ar tp tm;
          (tn, toh) = butterfly_add ar tn to;
          (t8, t7h) = butterfly_sub ar t8 t7;
          (t0, t7) = butterfly_sub_asym ar t0 t7h;
          (tv, to) = butterfly_add_asym ar tv toh;
          (tp, tu) = butterfly_sub_asym ar tp tuh;
          (t6, t1) = butterfly_add_asym ar t6 t1h;
          (t2, t5) = butterfly_sub_asym ar t2 t5h;
          (tt, tq) = butterfly_add_asym ar tt tqh;
          (tr, ts) = butterfly_sub_asym ar tr tsh;
          (t4, t3) = butterfly_add_asym ar t4 t3h;
          (t8, tg) = butterfly_add_asym ar t8 tgh;
          (te, tm) = butterfly_sub_asym ar te tmh;
          (tn, tf) = butterfly_add_asym ar tn tfh;
          (th, t9) = butterfly_sub_asym ar th t9h;
          (ta, ti) = butterfly_add_asym ar ta tih;
          (tc, tk) = butterfly_sub_asym ar tc tkh;
          (tl', td) = butterfly_add_asym ar tl' tdh;
          (tj, tb) = butterfly_sub_asym ar tj tbh;
          (tf, tg) = kernel ar (RotateSub ar) 14 14 13 tf tg 17911 14699 803;
          (th, te) = kernel ar (RotateAdd ar) 13 13 12 th te 10217 5461 1189;
          (ti, td) = kernel ar (RotateAdd ar) 12 13 14 ti td 5543 3363 7723;
          (tc, tj) = kernel ar (RotateSub ar) 13 14 13 tc tj 11529 2271 5197;
          (tb, tk) = neg_kernel ar (RotateNeg ar) 13 14 13 tb tk 11529 2271 5197;
          (ta, tl') = neg_kernel ar (RotateNeg ar) 12 13 14 ta tl' 5543 3363 7723;
          (t9, tm) = neg_kernel ar (RotateNeg ar) 13 13 12 t9 tm 10217 5461 1189;
          (t8, tn) = neg_kernel ar (RotateNeg ar) 14 14 13 t8 tn 17911 14699 803;
          (t3, t0h) = butterfly_sub ar t3 t0;
          (ts, tvh) = butterfly_add ar ts tv;
          (tu, tth) = butterfly_sub ar tu tt;
          (t1, t2h) = butterfly_add ar t1 t2;
          ((toh', to), t4h) = butterfly_add ar to t4;
          ((tqh', tq), t6h) = butterfly_sub ar tq t6;
          ((t7h', t7), trh) = butterfly_add ar t7 tr;
          ((t5h', t5), tph) = butterfly_sub ar t5 tp;
          (tb, t8h) = butterfly_sub ar tb t8;
          (tk, tnh) = butterfly_add ar tk tn;
          (tm, tlh) = butterfly_sub ar tm tl';
          (t9, tah) = butterfly_add ar t9 ta;
          (tf, tch) = butterfly_sub ar tf tc;
          (tg, tjh) = butterfly_add ar tg tj;
          (ti, thh) = butterfly_sub ar ti th;
          (td, teh) = butterfly_add ar td te;
          (to, t7) = kernel ar (RotateAdd ar) 8 11 15 to t7 301 1609 6393;
          (tph, t6h) = kernel ar (RotateAdd ar) 13 15 13 tph t6h 11363 9041 4551;
          (t5, tq) = neg_kernel ar (RotateNeg ar) 12 15 13 t5 tq 5681 9041 4551;
          (t4h, trh) = neg_kernel ar (RotateNeg ar) 13 14 15 t4h trh 9633 12873 6393;
          (t1, t0) = butterfly_add_asym ar t1 t0h;
          (tu, tv) = butterfly_sub_asym ar tu tvh;
          (ts, t2) = butterfly_sub_asym ar ts t2h;
          (t3, tt) = butterfly_sub_asym ar t3 tth;
          (t5, t4) = butterfly_add_asym ar (rshift1 ar t5, t5) t4h;
          (tq, tr) = butterfly_sub_asym ar (rshift1 ar tq, tq) trh;
          (t7, t6) = butterfly_add_asym ar (rshift1 ar t7, t7) t6h;
          (to, tp) = butterfly_sub_asym ar (rshift1 ar to, to) tph;
          (t9, t8) = butterfly_add_asym ar t9 t8h;
          (tm, tn) = butterfly_sub_asym ar tm tnh;
          (tk, ta) = butterfly_sub_asym ar tk tah;
          (tb, tl') = butterfly_sub_asym ar tb tlh;
          (ti, tc) = butterfly_add_asym ar ti tch;
          (td, tj) = butterfly_add_asym ar td tjh;
          (tf, te) = butterfly_add_asym ar tf teh;
          (tg, th) = butterfly_sub_asym ar tg thh;
          (t2, tt) = neg_kernel ar (RotateNeg ar) 9 14 13 t2 tt 669 8867 3135;
          (ts, t3) = kernel ar (RotateAdd ar) 9 14 13 ts t3 669 8867 3135;
          (ta, tl') = neg_kernel ar (RotateNeg ar) 9 14 13 ta tl' 669 8867 3135;
          (tk, tb) = kernel ar (RotateAdd ar) 9 14 13 tk tb 669 8867 3135;
          (tc, tj) = kernel ar (RotateAdd ar) 9 14 13 tc tj 669 8867 3135;
          (ti, td) = neg_kernel ar (RotateNeg ar) 9 14 13 ti td 669 8867 3135;
          (tu, t1) = pi4_kernel ar (RotatePi4Add ar) 12 13 tu t1 5793 5793;
          (tq, t5) = pi4_kernel ar (RotatePi4Add ar) 12 13 tq t5 5793 5793;
          (tp, t6) = pi4_kernel ar (RotatePi4Sub ar) 12 13 tp t6 5793 5793;
          (tm, t9) = pi4_kernel ar (RotatePi4Add ar) 12 13 tm t9 5793 5793;
          (te, th) = pi4_kernel ar (RotatePi4Add ar) 12 13 te th 5793 5793
      in [t0, t1, t2, t3, t4, t5, t6, t7, t8, t9, ta, tb, tc, td, te, tf, tg, th, ti, tj, tk, tl', tm, tn, to, tp, tq, tr, ts, tt, tu, tv])"

text \<open>
  \<open>butterfly_pair\<close> fills entries \<open>i\<close> and \<open>31 - i\<close> of \<open>half\<close> and \<open>asym\<close>, so their first
  16 entries are made by the pairs in order and the last 16 by the pairs backwards.
\<close>

definition butterfly_pair :: "i32_arith \<Rightarrow> int list \<Rightarrow> nat \<Rightarrow> (int \<times> (int \<times> int)) \<times> (int \<times> (int \<times> int))" where
  "butterfly_pair ar input i =
     (let j = i * 2; (ah, c) = butterfly_neg ar (input ! j) (input ! (63 - j)); (b, dh) = butterfly_add ar (input ! (j + 1)) (input ! (63 - j - 1))
      in ((ah, b), (dh, c)))"

definition reorder_4 :: "int list \<Rightarrow> nat \<Rightarrow> int list" where
  "reorder_4 tmp j = [tmp ! (0 + j), tmp ! (32 + j), tmp ! (16 + j), tmp ! (48 + j)]"

definition daala_fdct64 :: "i32_arith \<Rightarrow> int list \<Rightarrow> int list result" where
  "daala_fdct64 ar coeffs =
     (if length coeffs < 64 then Inl Fault
      else
        let pairs = map (butterfly_pair ar coeffs) [0..<16];
            half = map (\<lambda>p. fst (fst p)) pairs @ rev (map (\<lambda>p. fst (snd p)) pairs);
            asym = map (\<lambda>p. snd (fst p)) pairs @ rev (map (\<lambda>p. snd (snd p)) pairs);
            temp_out =
              daala_fdct_ii_32_asym ar (half ! 0) (asym ! 0) (half ! 1) (asym ! 1) (half ! 2) (asym ! 2) (half ! 3) (asym ! 3) (half ! 4) (asym ! 4) (half ! 5)
                (asym ! 5) (half ! 6) (asym ! 6) (half ! 7) (asym ! 7) (half ! 8) (asym ! 8) (half ! 9) (asym ! 9) (half ! 10) (asym ! 10) (half ! 11) (asym ! 11)
                (half ! 12) (asym ! 12) (half ! 13) (asym ! 13) (half ! 14) (asym ! 14) (half ! 15) (asym ! 15) @
              rev (daala_fdst_iv_32_asym ar (asym ! 31) (half ! 31) (asym ! 30) (half ! 30) (asym ! 29) (half ! 29) (asym ! 28) (half ! 28) (asym ! 27) (half ! 27) (asym
                ! 26) (half ! 26) (asym ! 25) (half ! 25) (asym ! 24) (half ! 24) (asym ! 23) (half ! 23) (asym ! 22) (half ! 22) (asym ! 21) (half ! 21) (asym ! 20)
                (half ! 20) (asym ! 19) (half ! 19) (asym ! 18) (half ! 18) (asym ! 17) (half ! 17) (asym ! 16) (half ! 16))
        in Inr (concat (map (reorder_4 temp_out) [0, 8, 4, 12, 2, 10, 6, 14, 1, 9, 5, 13, 3, 11, 7, 15]) @ drop 64 coeffs))"

definition fidentity :: "i32_arith \<Rightarrow> int list \<Rightarrow> int list result" where
  "fidentity ar coeffs = Inr coeffs"

definition fwht4 :: "i32_arith \<Rightarrow> int list \<Rightarrow> int list result" where
  "fwht4 ar coeffs =
     (if length coeffs < 4 then Inl Fault
      else
        let x0 = coeffs ! 0; x1 = coeffs ! 1; x2 = coeffs ! 2; x3 = coeffs ! 3;
            s0 = tx_add ar x0 x1; s1 = tx_sub ar x3 x2; s2 = sub_avg ar s0 s1;
            q1 = tx_sub ar s2 x2; q0 = tx_sub ar s0 q1; q3 = tx_sub ar s2 x1; q2 = tx_add ar s1 q3
        in Inr ([q0, q1, q2, q3] @ drop 4 coeffs))"

section \<open>The transforms of a block\<close>

datatype txfm_type =
  DCT4 | DCT8 | DCT16 | DCT32 | DCT64 | ADST4 | ADST8 | ADST16 | Identity4 | Identity8 | Identity16 | Identity32 | WHT4

fun get_func :: "txfm_type \<Rightarrow> i32_arith \<Rightarrow> int list \<Rightarrow> int list result" where
  "get_func DCT4 = daala_fdct4" | "get_func DCT8 = daala_fdct8" | "get_func DCT16 = daala_fdct16"
| "get_func DCT32 = daala_fdct32" | "get_func DCT64 = daala_fdct64"
| "get_func ADST4 = daala_fdst_vii_4" | "get_func ADST8 = daala_fdst8" | "get_func ADST16 = daala_fdst16"
| "get_func Identity4 = fidentity" | "get_func Identity8 = fidentity" | "get_func Identity16 = fidentity" | "get_func Identity32 = fidentity"
| "get_func WHT4 = fwht4"

definition AV1_TXFM_TYPE_LS :: "txfm_type option list list" where
  "AV1_TXFM_TYPE_LS = [
     [Some DCT4, Some ADST4, Some ADST4, Some Identity4, Some WHT4],
     [Some DCT8, Some ADST8, Some ADST8, Some Identity8, None],
     [Some DCT16, Some ADST16, Some ADST16, Some Identity16, None],
     [Some DCT32, None, None, Some Identity32, None],
     [Some DCT64, None, None, None, None]]"

definition FWD_SHIFT_4X4_WHT :: "int list" where "FWD_SHIFT_4X4_WHT = [0, 0, 2]"

text \<open>The shifts of a size for 8, 10 and 12 bits.\<close>

definition FWD_TXFM_SHIFT_LS :: "int list list list" where
  "FWD_TXFM_SHIFT_LS = [
     [[3, 0, 0], [2, 0, 1], [0, 0, 3]],
     [[4, -1, 0], [2, 0, 1], [0, 0, 3]],
     [[4, -1, 0], [2, 0, 1], [0, 0, 3]],
     [[4, -2, 0], [2, 0, 0], [0, 0, 2]],
     [[4, -1, -2], [2, 0, -1], [0, 0, 1]],
     [[4, -1, 0], [2, 0, 1], [0, 0, 3]],
     [[4, -1, 0], [2, 0, 1], [0, 0, 3]],
     [[4, -1, 0], [2, 0, 1], [0, 0, 3]],
     [[4, -1, 0], [2, 0, 1], [0, 0, 3]],
     [[4, -2, 0], [2, 0, 0], [0, 0, 2]],
     [[4, -2, 0], [2, 0, 0], [0, 0, 2]],
     [[4, -1, -2], [2, 0, -1], [0, 0, 1]],
     [[4, -1, -2], [2, 0, -1], [0, 0, 1]],
     [[4, -1, 0], [2, 0, 1], [0, 0, 3]],
     [[4, -1, 0], [2, 0, 1], [0, 0, 3]],
     [[4, -1, 0], [2, 0, 1], [0, 0, 3]],
     [[4, -1, 0], [2, 0, 1], [0, 0, 3]],
     [[4, -2, 0], [2, 0, 0], [0, 0, 2]],
     [[4, -2, 0], [2, 0, 0], [0, 0, 2]]]"


record txfm_2d_flip_cfg =
  cfg_tx_size :: tx_size
  cfg_ud_flip :: bool
  cfg_lr_flip :: bool
  cfg_shift :: "int list"
  cfg_txfm_type_col :: txfm_type
  cfg_txfm_type_row :: txfm_type

definition get_flip_cfg :: "tx_type \<Rightarrow> bool \<times> bool" where
  "get_flip_cfg tx_type =
     (if tx_type \<in> {FLIPADST_DCT, FLIPADST_ADST, V_FLIPADST} then (True, False)
      else if tx_type \<in> {DCT_FLIPADST, ADST_FLIPADST, H_FLIPADST} then (False, True)
      else if tx_type = FLIPADST_FLIPADST then (True, True)
      else (False, False))"

definition fwd_cfg :: "tx_type \<Rightarrow> tx_size \<Rightarrow> nat \<Rightarrow> txfm_2d_flip_cfg result" where
  "fwd_cfg tx_type tx_size bd =
     (let col_1d = VTX_TAB ! index_of all_tx_types tx_type; row_1d = HTX_TAB ! index_of all_tx_types tx_type;
          txw_idx = width_log2 tx_size - 2; txh_idx = height_log2 tx_size - 2;
          (ud_flip, lr_flip) = get_flip_cfg tx_type
      in case AV1_TXFM_TYPE_LS ! txh_idx ! type_1d_index col_1d of None \<Rightarrow> Inl Fault
         | Some txfm_type_col \<Rightarrow>
      (case AV1_TXFM_TYPE_LS ! txw_idx ! type_1d_index row_1d of None \<Rightarrow> Inl Fault
         | Some txfm_type_row \<Rightarrow>
      bindR (if tx_type = WHT_WHT then Inr FWD_SHIFT_4X4_WHT
             else if bd < 8 \<or> 3 \<le> (bd - 8) div 2 then Inl Fault
             else Inr (FWD_TXFM_SHIFT_LS ! index_of all_tx_sizes tx_size ! ((bd - 8) div 2))) (\<lambda>shift.
      Inr \<lparr>cfg_tx_size = tx_size, cfg_ud_flip = ud_flip, cfg_lr_flip = lr_flip, cfg_shift = shift,
        cfg_txfm_type_col = txfm_type_col, cfg_txfm_type_row = txfm_type_row\<rparr>)))"

definition av1_round_shift_array :: "i32_arith \<Rightarrow> int list \<Rightarrow> nat \<Rightarrow> int \<Rightarrow> int list" where
  "av1_round_shift_array ar arr sz n =
     (if n = 0 then arr
      else if n > 0 then map (\<lambda>i. i32_round_shift ar i (nat n)) (take sz arr) @ drop sz arr
      else map (\<lambda>i. i32_wrapping ar (push_bit (nat (- n)) i)) (take sz arr) @ drop sz arr)"

text \<open>
  The column pass makes a column of the buffer; with a left-to-right flip the columns
  are stored backwards. The row pass writes row \<open>r\<close> of the coefficients, by columns
  and in chunks of 32 by 32. \<open>cast_from\<close> is the conversion to the coefficient type,
  \<open>i16\<close> for pictures of bytes and \<open>i32\<close> for the others.
\<close>

definition forward_col :: "i32_arith \<Rightarrow> int list \<Rightarrow> nat \<Rightarrow> nat \<Rightarrow> txfm_2d_flip_cfg \<Rightarrow> nat \<Rightarrow> int list result" where
  "forward_col ar input stride height cfg c =
     bindR (mapR (\<lambda>r.
       let i = (if cfg_ud_flip cfg then height - r - 1 else r) * stride + c
       in if i < length input then Inr (input ! i) else Inl Fault) [0..<height]) (\<lambda>col_coeffs.
     bindR (get_func (cfg_txfm_type_col cfg) ar (av1_round_shift_array ar col_coeffs height (- (cfg_shift cfg ! 0)))) (\<lambda>col_coeffs.
     Inr (av1_round_shift_array ar col_coeffs height (- (cfg_shift cfg ! 1)))))"

definition cast_from :: "bool \<Rightarrow> int \<Rightarrow> int" where
  "cast_from wide v = (if wide then v else (v + 2 ^ 15) mod 2 ^ 16 - 2 ^ 15)"

definition write_row :: "bool \<Rightarrow> nat \<Rightarrow> nat \<Rightarrow> nat \<Rightarrow> int list \<Rightarrow> int list \<Rightarrow> int list result" where
  "write_row wide width height r row_coeffs output =
     (let output_stride = min height 32; base = (if r \<ge> 32 then 1 else 0) * output_stride * min width 32 in
      forR (\<lambda>cg. forR (\<lambda>c output.
        let i = base + height * cg + (c * output_stride + r mod 32)
        in if i < length output then Inr (output[i := cast_from wide (row_coeffs ! (c + cg))]) else Inl Fault)
        [0..<min width 32]) (map (\<lambda>k. k * 32) [0..<(width + 31) div 32]) output)"

definition forward_transform ::
  "i32_arith \<Rightarrow> bool \<Rightarrow> int list \<Rightarrow> int list \<Rightarrow> nat \<Rightarrow> tx_size \<Rightarrow> tx_type \<Rightarrow> nat \<Rightarrow> int list result" where
  "forward_transform ar wide input output stride tx_size tx_type bd =
     (if \<not> valid_av1_transform tx_size tx_type then Inl Fault
      else
        let width = tx_width tx_size; height = tx_height tx_size in
        bindR (fwd_cfg tx_type tx_size bd) (\<lambda>cfg.
        bindR (mapR (forward_col ar input stride height cfg) [0..<width]) (\<lambda>cols.
        let cols = (if cfg_lr_flip cfg then rev cols else cols) in
        forR (\<lambda>r output.
          bindR (get_func (cfg_txfm_type_row cfg) ar (map (\<lambda>col. col ! r) cols)) (\<lambda>row_coeffs.
          write_row wide width height r (av1_round_shift_array ar row_coeffs width (- (cfg_shift cfg ! 2))) output)) [0..<height] output)))"

end
