(* ===== verification/Av1_InvTxBounds.thy ===== *)
theory Av1_InvTxBounds
  imports Av1_InvTx
begin

text \<open>
  The inverse transforms stay in 32 bits. \<open>machine_ok\<close> is what any machine's \<open>i32\<close>
  promises: exact results in range (and nothing outside, where it may wrap or
  panic). With clamped inputs of at most 18 bits, 8- and 10-bit video, all
  machines compute what \<open>ideal\<close> integers compute. In every stage of a transform an
  entry is small, at most the clamp's bound \<open>B\<close>, or at most \<open>2 * B\<close>; the lists of
  flags say which.
\<close>

section \<open>Machines\<close>

definition in_i32 :: "int \<Rightarrow> bool" where "in_i32 x \<longleftrightarrow> - (2 ^ 31) \<le> x \<and> x < 2 ^ 31"

definition machine_ok :: "i32_arith \<Rightarrow> bool" where
  "machine_ok ar \<longleftrightarrow>
     (\<forall>x. in_i32 x \<longrightarrow> i32_op ar x = x \<and> i32_wrapping ar x = x)
     \<and> (\<forall>v n. in_i32 v \<longrightarrow> in_i32 (v + 2 ^ n div 2) \<longrightarrow> i32_round_shift ar v n = (v + 2 ^ n div 2) div 2 ^ n)
     \<and> (\<forall>v lo hi. lo \<le> hi \<longrightarrow> i32_clamp ar v lo hi = max lo (min hi v))"

definition ideal :: i32_arith where
  "ideal = \<lparr>i32_op = (\<lambda>x. x), i32_wrapping = (\<lambda>x. x), i32_round_shift = (\<lambda>v n. (v + 2 ^ n div 2) div 2 ^ n),
     i32_clamp = (\<lambda>v lo hi. max lo (min hi v))\<rparr>"

lemma ideal_simps [simp]:
  "i32_op ideal x = x" "i32_wrapping ideal x = x" "i32_round_shift ideal v n = (v + 2 ^ n div 2) div 2 ^ n"
  "i32_clamp ideal v lo hi = max lo (min hi v)"
  by (simp_all add: ideal_def)

lemma ideal_ok: "machine_ok ideal"
  by (simp add: machine_ok_def)

text \<open>A machine that wraps.\<close>

definition wrapping_i32 :: i32_arith where
  "wrapping_i32 = \<lparr>i32_op = wrap32, i32_wrapping = wrap32, i32_round_shift = (\<lambda>v n. drop_bit n (wrap32 (v + 2 ^ n div 2))),
     i32_clamp = (\<lambda>v lo hi. if v < lo then lo else if v > hi then hi else v)\<rparr>"

lemma wrapping_i32_ok: "machine_ok wrapping_i32"
  by (auto simp: machine_ok_def wrapping_i32_def in_i32_def wrap32_id drop_bit_eq_div)

section \<open>One operation\<close>

lemma op_id: "machine_ok ar \<Longrightarrow> \<bar>x\<bar> < 2 ^ 31 \<Longrightarrow> i32_op ar x = x"
  unfolding machine_ok_def in_i32_def abs_less_iff by (simp add: minus_le_iff)

lemma wrapping_id: "machine_ok ar \<Longrightarrow> \<bar>x\<bar> < 2 ^ 31 \<Longrightarrow> i32_wrapping ar x = x"
  unfolding machine_ok_def in_i32_def abs_less_iff by (simp add: minus_le_iff)

lemma round_shift_id:
  "machine_ok ar \<Longrightarrow> \<bar>v\<bar> < 2 ^ 31 - 2 ^ n div 2 \<Longrightarrow> i32_round_shift ar v n = (v + 2 ^ n div 2) div 2 ^ n"
proof -
  assume a: "machine_ok ar" "\<bar>v\<bar> < 2 ^ 31 - 2 ^ n div 2"
  have "0 \<le> (2 :: int) ^ n div 2" by simp
  then have "in_i32 v" "in_i32 (v + 2 ^ n div 2)" using a(2) unfolding in_i32_def by linarith+
  then show ?thesis using a(1) by (simp add: machine_ok_def)
qed

lemma clamp_value_ideal: "machine_ok ar \<Longrightarrow> clamp_value ar v n = clamp_value ideal v n"
proof -
  assume "machine_ok ar"
  moreover have "- (2 ^ (n - 1)) \<le> (2 :: int) ^ (n - 1) - 1" using zero_less_power[of "2 :: int" "n - 1"] by linarith
  ultimately show ?thesis by (simp add: clamp_value_def Let_def machine_ok_def)
qed

lemma clamp_value_le: "\<bar>clamp_value ideal v n\<bar> \<le> 2 ^ (n - 1)"
proof -
  have "0 < (2 :: int) ^ (n - 1)" by simp
  then show ?thesis unfolding clamp_value_def Let_def ideal_simps by linarith
qed

lemma clamp_value_id: "- (2 ^ (n - 1)) \<le> v \<Longrightarrow> v < 2 ^ (n - 1) \<Longrightarrow> clamp_value ideal v n = v"
  by (simp add: clamp_value_def Let_def)

lemma op_pair:
  assumes "machine_ok ar" "B \<le> 131072"
  shows "\<bar>x\<bar> \<le> 2 * B \<Longrightarrow> \<bar>y\<bar> \<le> 2 * B \<Longrightarrow> i32_op ar (x + y) = x + y"
    and "\<bar>x\<bar> \<le> 2 * B \<Longrightarrow> \<bar>y\<bar> \<le> 2 * B \<Longrightarrow> i32_op ar (x - y) = x - y"
    and "\<bar>x\<bar> \<le> 2 * B \<Longrightarrow> i32_op ar (- x) = - x"
proof -
  have m: "i32_op ar z = z" if "\<bar>z\<bar> \<le> 4 * B" for z using op_id[OF assms(1), of z] that assms(2) by simp
  show "\<bar>x\<bar> \<le> 2 * B \<Longrightarrow> \<bar>y\<bar> \<le> 2 * B \<Longrightarrow> i32_op ar (x + y) = x + y" by (rule m) linarith
  show "\<bar>x\<bar> \<le> 2 * B \<Longrightarrow> \<bar>y\<bar> \<le> 2 * B \<Longrightarrow> i32_op ar (x - y) = x - y" by (rule m) linarith
  show "\<bar>x\<bar> \<le> 2 * B \<Longrightarrow> i32_op ar (- x) = - x" by (rule m) linarith
qed

lemma abs_mult_le: "\<bar>c\<bar> \<le> (C :: int) \<Longrightarrow> \<bar>x\<bar> \<le> B \<Longrightarrow> \<bar>c * x\<bar> \<le> C * B"
  unfolding abs_mult by (rule mult_mono) simp_all

lemma half_btf_ideal: "half_btf ideal c x d y INV_COS_BIT = (c * x + d * y + 2048) div 4096"
  by (simp add: half_btf_def INV_COS_BIT_def drop_bit_eq_div)

lemma half_btf_le:
  assumes "\<bar>c\<bar> \<le> 4096" "\<bar>d\<bar> \<le> 4096" "\<bar>x\<bar> \<le> B" "\<bar>y\<bar> \<le> B"
  shows "\<bar>half_btf ideal c x d y INV_COS_BIT\<bar> \<le> 2 * B"
proof -
  have m: "\<bar>c * x\<bar> \<le> 4096 * B" "\<bar>d * y\<bar> \<le> 4096 * B" using assms abs_mult_le by blast+
  define s where "s = c * x + d * y + 2048"
  have "s \<le> 8192 * B + 2048" "- 8192 * B + 2048 \<le> s" using m unfolding s_def by linarith+
  moreover have "s = 4096 * (s div 4096) + s mod 4096" "0 \<le> s mod 4096" "s mod 4096 < 4096" by simp_all
  ultimately have "\<bar>s div 4096\<bar> \<le> 2 * B" by linarith
  then show ?thesis by (simp add: half_btf_ideal s_def)
qed

lemma half_btf_id:
  assumes ok: "machine_ok ar" "B \<le> 131072" and "\<bar>c\<bar> \<le> 4096" "\<bar>d\<bar> \<le> 4096" "\<bar>x\<bar> \<le> B" "\<bar>y\<bar> \<le> B"
  shows "half_btf ar c x d y INV_COS_BIT = half_btf ideal c x d y INV_COS_BIT"
proof -
  have m: "\<bar>c * x\<bar> \<le> 4096 * B" "\<bar>d * y\<bar> \<le> 4096 * B" using assms abs_mult_le by blast+
  have "i32_op ar (c * x) = c * x" "i32_op ar (d * y) = d * y" "i32_wrapping ar (c * x + d * y) = c * x + d * y"
    "i32_wrapping ar (c * x + d * y + 2048) = c * x + d * y + 2048"
    using m ok(2) by (auto intro!: op_id[OF ok(1)] wrapping_id[OF ok(1)])
  then show ?thesis by (simp add: half_btf_def INV_COS_BIT_def)
qed

lemma cospi: "(\<forall>c\<in>set COSPI_INV. \<bar>c\<bar> \<le> 4096) \<and> length COSPI_INV = 64"
  by (simp add: COSPI_INV_def)

lemma cospi_le [simp]: "k < 64 \<Longrightarrow> \<bar>COSPI_INV ! k\<bar> \<le> 4096" "k < 64 \<Longrightarrow> \<bar>- (COSPI_INV ! k)\<bar> \<le> 4096"
  using cospi by simp_all

section \<open>Stages\<close>

definition small :: "int \<Rightarrow> bool list \<Rightarrow> int list \<Rightarrow> bool" where
  "small B flags xs \<longleftrightarrow> list_all2 (\<lambda>s v. \<bar>v\<bar> \<le> (if s then B else 2 * B)) flags xs"

text \<open>The flag of an entry within the bound, and of one within twice the bound.\<close>

abbreviation (input) fits :: bool where "fits \<equiv> True"
abbreviation (input) twice :: bool where "twice \<equiv> False"

definition agree_on :: "int \<Rightarrow> bool list \<Rightarrow> int list result \<Rightarrow> int list result \<Rightarrow> bool" where
  "agree_on B flags r r' \<longleftrightarrow> (\<exists>out. r = Inr out \<and> r' = Inr out \<and> small B flags out)"

lemma small_nth:
  assumes "small B flags xs" "0 \<le> B"
  shows "length xs = length flags" "i < length flags \<Longrightarrow> flags ! i \<Longrightarrow> \<bar>xs ! i\<bar> \<le> B" "i < length flags \<Longrightarrow> \<bar>xs ! i\<bar> \<le> 2 * B"
proof -
  have a: "list_all2 (\<lambda>s v. \<bar>v\<bar> \<le> (if s then B else 2 * B)) flags xs" using assms(1) by (simp add: small_def)
  show "length xs = length flags" using list_all2_lengthD[OF a] by simp
  show "i < length flags \<Longrightarrow> flags ! i \<Longrightarrow> \<bar>xs ! i\<bar> \<le> B" using list_all2_nthD[OF a, of i] by simp
  show "i < length flags \<Longrightarrow> \<bar>xs ! i\<bar> \<le> 2 * B" using list_all2_nthD[OF a, of i] assms(2) by (auto split: if_splits)
qed

lemma agree_let:
  assumes "e = e'" "small B flags e'" "0 \<le> B"
    and "\<And>x. length x = length flags \<Longrightarrow> (\<And>i. i < length flags \<Longrightarrow> flags ! i \<Longrightarrow> \<bar>x ! i\<bar> \<le> B) \<Longrightarrow>
      (\<And>i. i < length flags \<Longrightarrow> \<bar>x ! i\<bar> \<le> 2 * B) \<Longrightarrow> agree_on B flags' (f x) (g x)"
  shows "agree_on B flags' (let x = e in f x) (let x = e' in g x)"
  unfolding Let_def assms(1) by (rule assms(4)) (use small_nth[OF assms(2,3)] in blast)+

lemma agree_bind:
  assumes "agree_on B flags m m'" "0 \<le> B"
    and "\<And>x. length x = length flags \<Longrightarrow> (\<And>i. i < length flags \<Longrightarrow> flags ! i \<Longrightarrow> \<bar>x ! i\<bar> \<le> B) \<Longrightarrow>
      (\<And>i. i < length flags \<Longrightarrow> \<bar>x ! i\<bar> \<le> 2 * B) \<Longrightarrow> agree_on B flags' (f x) (g x)"
  shows "agree_on B flags' (bindR m f) (bindR m' g)"
proof -
  obtain out where o': "m = Inr out" "m' = Inr out" "small B flags out" using assms(1) by (auto simp: agree_on_def)
  show ?thesis unfolding o' bindR_simps by (rule assms(3)) (use small_nth[OF o'(3) assms(2)] in blast)+
qed

lemma agree_out: "xs = ys \<Longrightarrow> small B flags ys \<Longrightarrow> agree_on B flags (Inr xs) (Inr ys)"
  by (simp add: agree_on_def)

lemma agree_out_small: "xs = ys \<Longrightarrow> list_all (\<lambda>v. \<bar>v\<bar> \<le> B) ys \<Longrightarrow> length ys = n \<Longrightarrow> agree_on B (replicate n True) (Inr xs) (Inr ys)"
  by (auto simp: agree_on_def small_def list_all2_conv_all_nth list_all_length)

lemma agree_out_large: "xs = ys \<Longrightarrow> list_all (\<lambda>v. \<bar>v\<bar> \<le> 2 * B) ys \<Longrightarrow> length ys = n \<Longrightarrow> agree_on B (replicate n False) (Inr xs) (Inr ys)"
  by (auto simp: agree_on_def small_def list_all2_conv_all_nth list_all_length)

text \<open>The first \<open>n\<close> entries of an input are small.\<close>

definition small_input :: "int \<Rightarrow> nat \<Rightarrow> int list \<Rightarrow> bool" where
  "small_input B n xs \<longleftrightarrow> n \<le> length xs \<and> list_all (\<lambda>v. \<bar>v\<bar> \<le> B) (take n xs)"

lemma small_inputD:
  assumes "small_input B n xs" "0 \<le> B"
  shows "\<not> length xs < n" "i < n \<Longrightarrow> \<bar>xs ! i\<bar> \<le> B" "i < n \<Longrightarrow> \<bar>xs ! i\<bar> \<le> 2 * B"
proof -
  have a: "\<bar>xs ! i\<bar> \<le> B" if "i < n" for i
    using assms(1) that by (auto simp: small_input_def list_all_length)
  show "\<not> length xs < n" using assms(1) by (simp add: small_input_def)
  show "i < n \<Longrightarrow> \<bar>xs ! i\<bar> \<le> B" by (rule a)
  show "i < n \<Longrightarrow> \<bar>xs ! i\<bar> \<le> 2 * B" using a[of i] assms(2) by linarith
qed

text \<open>The facts every transform's proof uses.\<close>

lemma stage_facts:
  assumes "machine_ok ar" "B \<le> 131072" "B = 2 ^ (rng - 1)"
  shows "0 \<le> B" "\<bar>clamp_value ideal v rng\<bar> \<le> B" "\<bar>clamp_value ideal v rng\<bar> \<le> 2 * B" "clamp_value ar v rng = clamp_value ideal v rng"
proof -
  show B0: "0 \<le> B" by (simp add: assms(3))
  show c: "\<bar>clamp_value ideal v rng\<bar> \<le> B" using clamp_value_le[of v rng] by (simp add: assms(3))
  show "\<bar>clamp_value ideal v rng\<bar> \<le> 2 * B" using c B0 by linarith
  show "clamp_value ar v rng = clamp_value ideal v rng" by (rule clamp_value_ideal[OF assms(1)])
qed

lemma sinpi: "SINPI_INV ! 1 = 1321" "SINPI_INV ! 2 = 2482" "SINPI_INV ! 3 = 3344" "SINPI_INV ! 4 = 3803"
  by (simp_all add: SINPI_INV_def)

lemma av1_idct4_exact:
  assumes ok: "machine_ok ar" "B \<le> 131072" and B: "B = 2 ^ (rng - 1)" and inp: "small_input B 4 input"
  shows "agree_on B (replicate 4 True) (av1_idct4 ar input rng) (av1_idct4 ideal input rng)"
proof -
  note f = stage_facts[OF ok B]
  note i = small_inputD[OF inp f(1)]
  note ops = op_pair[OF ok] half_btf_id[OF ok] half_btf_le f i
  show ?thesis
    unfolding av1_idct4_def if_not_P[OF i(1)]
    apply (rule agree_let[where flags = "[fits, fits, fits, fits]"])
       apply (simp (no_asm_simp) add: ops)
      apply (simp (no_asm_simp) add: small_def ops)
     apply (rule f(1))
    apply (rule agree_let[where flags = "[twice, twice, twice, twice]"])
       apply (simp (no_asm_simp) add: ops)
      apply (simp (no_asm_simp) add: small_def ops)
     apply (rule f(1))
    apply (rule agree_out_small)
      apply (simp (no_asm_simp) add: ops)
     apply (simp (no_asm_simp) add: ops)
    apply simp
    done
qed

lemma av1_idct8_exact:
  assumes ok: "machine_ok ar" "B \<le> 131072" and B: "B = 2 ^ (rng - 1)" and inp: "small_input B 8 input"
  shows "agree_on B (replicate 8 True) (av1_idct8 ar input rng) (av1_idct8 ideal input rng)"
proof -
  note f = stage_facts[OF ok B]
  note i = small_inputD[OF inp f(1)]
  note ops = op_pair[OF ok] half_btf_id[OF ok] half_btf_le f i
  show ?thesis
    unfolding av1_idct8_def if_not_P[OF i(1)]
    apply (rule agree_bind[OF av1_idct4_exact[OF ok B] f(1)])
     apply (simp (no_asm_simp) add: small_input_def ops)
    apply (rule agree_let[where flags = "[fits, fits, fits, fits]"])
       apply (simp (no_asm_simp) add: ops)
      apply (simp (no_asm_simp) add: small_def ops)
     apply (rule f(1))
    apply (rule agree_let[where flags = "[twice, twice, twice, twice]"])
       apply (simp (no_asm_simp) add: ops)
      apply (simp (no_asm_simp) add: small_def ops)
     apply (rule f(1))
    apply (rule agree_let[where flags = "[fits, fits, fits, fits]"])
       apply (simp (no_asm_simp) add: ops)
      apply (simp (no_asm_simp) add: small_def ops)
     apply (rule f(1))
    apply (rule agree_let[where flags = "[fits, twice, twice, fits]"])
       apply (simp (no_asm_simp) add: ops)
      apply (simp (no_asm_simp) add: small_def ops)
     apply (rule f(1))
    apply (rule agree_out_small)
      apply (simp (no_asm_simp) add: ops)
     apply (simp (no_asm_simp) add: ops)
    apply simp
    done
qed

lemma av1_iadst8_exact:
  assumes ok: "machine_ok ar" "B \<le> 131072" and B: "B = 2 ^ (rng - 1)" and inp: "small_input B 8 input"
  shows "agree_on B (replicate 8 False) (av1_iadst8 ar input rng) (av1_iadst8 ideal input rng)"
proof -
  note f = stage_facts[OF ok B]
  note i = small_inputD[OF inp f(1)]
  note ops = op_pair[OF ok] half_btf_id[OF ok] half_btf_le f i
  show ?thesis
    unfolding av1_iadst8_def if_not_P[OF i(1)]
    apply (rule agree_let[where flags = "[fits, fits, fits, fits, fits, fits, fits, fits]"])
       apply (simp (no_asm_simp) add: ops)
      apply (simp (no_asm_simp) add: small_def ops)
     apply (rule f(1))
    apply (rule agree_let[where flags = "[twice, twice, twice, twice, twice, twice, twice, twice]"])
       apply (simp (no_asm_simp) add: ops)
      apply (simp (no_asm_simp) add: small_def ops)
     apply (rule f(1))
    apply (rule agree_let[where flags = "[fits, fits, fits, fits, fits, fits, fits, fits]"])
       apply (simp (no_asm_simp) add: ops)
      apply (simp (no_asm_simp) add: small_def ops)
     apply (rule f(1))
    apply (rule agree_let[where flags = "[fits, fits, fits, fits, twice, twice, twice, twice]"])
       apply (simp (no_asm_simp) add: ops)
      apply (simp (no_asm_simp) add: small_def ops)
     apply (rule f(1))
    apply (rule agree_let[where flags = "[fits, fits, fits, fits, fits, fits, fits, fits]"])
       apply (simp (no_asm_simp) add: ops)
      apply (simp (no_asm_simp) add: small_def ops)
     apply (rule f(1))
    apply (rule agree_let[where flags = "[fits, fits, twice, twice, fits, fits, twice, twice]"])
       apply (simp (no_asm_simp) add: ops)
      apply (simp (no_asm_simp) add: small_def ops)
     apply (rule f(1))
    apply (rule agree_out_large)
      apply (simp (no_asm_simp) add: ops)
     apply (simp (no_asm_simp) add: ops)
    apply simp
    done
qed

lemma av1_idct16_exact:
  assumes ok: "machine_ok ar" "B \<le> 131072" and B: "B = 2 ^ (rng - 1)" and inp: "small_input B 16 input"
  shows "agree_on B (replicate 16 True) (av1_idct16 ar input rng) (av1_idct16 ideal input rng)"
proof -
  note f = stage_facts[OF ok B]
  note i = small_inputD[OF inp f(1)]
  note ops = op_pair[OF ok] half_btf_id[OF ok] half_btf_le f i
  show ?thesis
    unfolding av1_idct16_def if_not_P[OF i(1)]
    apply (rule agree_bind[OF av1_idct8_exact[OF ok B] f(1)])
     apply (simp (no_asm_simp) add: small_input_def ops)
    apply (rule agree_let[where flags = "[fits, fits, fits, fits, fits, fits, fits, fits]"])
       apply (simp (no_asm_simp) add: ops)
      apply (simp (no_asm_simp) add: small_def ops)
     apply (rule f(1))
    apply (rule agree_let[where flags = "[twice, twice, twice, twice, twice, twice, twice, twice]"])
       apply (simp (no_asm_simp) add: ops)
      apply (simp (no_asm_simp) add: small_def ops)
     apply (rule f(1))
    apply (rule agree_let[where flags = "[fits, fits, fits, fits, fits, fits, fits, fits]"])
       apply (simp (no_asm_simp) add: ops)
      apply (simp (no_asm_simp) add: small_def ops)
     apply (rule f(1))
    apply (rule agree_let[where flags = "[fits, twice, twice, fits, fits, twice, twice, fits]"])
       apply (simp (no_asm_simp) add: ops)
      apply (simp (no_asm_simp) add: small_def ops)
     apply (rule f(1))
    apply (rule agree_let[where flags = "[fits, fits, fits, fits, fits, fits, fits, fits]"])
       apply (simp (no_asm_simp) add: ops)
      apply (simp (no_asm_simp) add: small_def ops)
     apply (rule f(1))
    apply (rule agree_let[where flags = "[fits, fits, twice, twice, twice, twice, fits, fits]"])
       apply (simp (no_asm_simp) add: ops)
      apply (simp (no_asm_simp) add: small_def ops)
     apply (rule f(1))
    apply (rule agree_out_small)
      apply (simp (no_asm_simp) add: ops)
     apply (simp (no_asm_simp) add: ops)
    apply simp
    done
qed

lemma av1_iadst16_exact:
  assumes ok: "machine_ok ar" "B \<le> 131072" and B: "B = 2 ^ (rng - 1)" and inp: "small_input B 16 input"
  shows "agree_on B (replicate 16 False) (av1_iadst16 ar input rng) (av1_iadst16 ideal input rng)"
proof -
  note f = stage_facts[OF ok B]
  note i = small_inputD[OF inp f(1)]
  note ops = op_pair[OF ok] half_btf_id[OF ok] half_btf_le f i
  show ?thesis
    unfolding av1_iadst16_def if_not_P[OF i(1)]
    apply (rule agree_let[where flags = "[fits, fits, fits, fits, fits, fits, fits, fits, fits, fits, fits, fits, fits, fits, fits, fits]"])
       apply (simp (no_asm_simp) add: ops)
      apply (simp (no_asm_simp) add: small_def ops)
     apply (rule f(1))
    apply (rule agree_let[where flags = "[twice, twice, twice, twice, twice, twice, twice, twice, twice, twice, twice, twice, twice, twice, twice, twice]"])
       apply (simp (no_asm_simp) add: ops)
      apply (simp (no_asm_simp) add: small_def ops)
     apply (rule f(1))
    apply (rule agree_let[where flags = "[fits, fits, fits, fits, fits, fits, fits, fits, fits, fits, fits, fits, fits, fits, fits, fits]"])
       apply (simp (no_asm_simp) add: ops)
      apply (simp (no_asm_simp) add: small_def ops)
     apply (rule f(1))
    apply (rule agree_let[where flags = "[fits, fits, fits, fits, fits, fits, fits, fits, twice, twice, twice, twice, twice, twice, twice, twice]"])
       apply (simp (no_asm_simp) add: ops)
      apply (simp (no_asm_simp) add: small_def ops)
     apply (rule f(1))
    apply (rule agree_let[where flags = "[fits, fits, fits, fits, fits, fits, fits, fits, fits, fits, fits, fits, fits, fits, fits, fits]"])
       apply (simp (no_asm_simp) add: ops)
      apply (simp (no_asm_simp) add: small_def ops)
     apply (rule f(1))
    apply (rule agree_let[where flags = "[fits, fits, fits, fits, twice, twice, twice, twice, fits, fits, fits, fits, twice, twice, twice, twice]"])
       apply (simp (no_asm_simp) add: ops)
      apply (simp (no_asm_simp) add: small_def ops)
     apply (rule f(1))
    apply (rule agree_let[where flags = "[fits, fits, fits, fits, fits, fits, fits, fits, fits, fits, fits, fits, fits, fits, fits, fits]"])
       apply (simp (no_asm_simp) add: ops)
      apply (simp (no_asm_simp) add: small_def ops)
     apply (rule f(1))
    apply (rule agree_let[where flags = "[fits, fits, twice, twice, fits, fits, twice, twice, fits, fits, twice, twice, fits, fits, twice, twice]"])
       apply (simp (no_asm_simp) add: ops)
      apply (simp (no_asm_simp) add: small_def ops)
     apply (rule f(1))
    apply (rule agree_out_large)
      apply (simp (no_asm_simp) add: ops)
     apply (simp (no_asm_simp) add: ops)
    apply simp
    done
qed

lemma av1_idct32_exact:
  assumes ok: "machine_ok ar" "B \<le> 131072" and B: "B = 2 ^ (rng - 1)" and inp: "small_input B 32 input"
  shows "agree_on B (replicate 32 True) (av1_idct32 ar input rng) (av1_idct32 ideal input rng)"
proof -
  note f = stage_facts[OF ok B]
  note i = small_inputD[OF inp f(1)]
  note ops = op_pair[OF ok] half_btf_id[OF ok] half_btf_le f i
  show ?thesis
    unfolding av1_idct32_def if_not_P[OF i(1)]
    apply (rule agree_let[where flags = "[fits, fits, fits, fits, fits, fits, fits, fits, fits, fits, fits, fits, fits, fits, fits, fits, fits, fits, fits, fits, fits,
      fits, fits, fits, fits, fits, fits, fits, fits, fits, fits, fits]"])
       apply (simp (no_asm_simp) add: ops)
      apply (simp (no_asm_simp) add: small_def ops)
     apply (rule f(1))
    apply (rule agree_let[where flags = "[fits, fits, fits, fits, fits, fits, fits, fits, fits, fits, fits, fits, fits, fits, fits, fits, twice, twice, twice, twice,
      twice, twice, twice, twice, twice, twice, twice, twice, twice, twice, twice, twice]"])
       apply (simp (no_asm_simp) add: ops)
      apply (simp (no_asm_simp) add: small_def ops)
     apply (rule f(1))
    apply (rule agree_let[where flags = "[fits, fits, fits, fits, fits, fits, fits, fits, twice, twice, twice, twice, twice, twice, twice, twice, fits, fits, fits, fits,
      fits, fits, fits, fits, fits, fits, fits, fits, fits, fits, fits, fits]"])
       apply (simp (no_asm_simp) add: ops)
      apply (simp (no_asm_simp) add: small_def ops)
     apply (rule f(1))
    apply (rule agree_let[where flags = "[fits, fits, fits, fits, twice, twice, twice, twice, fits, fits, fits, fits, fits, fits, fits, fits, fits, twice, twice, fits,
      fits, twice, twice, fits, fits, twice, twice, fits, fits, twice, twice, fits]"])
       apply (simp (no_asm_simp) add: ops)
      apply (simp (no_asm_simp) add: small_def ops)
     apply (rule f(1))
    apply (rule agree_let[where flags = "[twice, twice, twice, twice, fits, fits, fits, fits, fits, twice, twice, fits, fits, twice, twice, fits, fits, fits, fits, fits,
      fits, fits, fits, fits, fits, fits, fits, fits, fits, fits, fits, fits]"])
       apply (simp (no_asm_simp) add: ops)
      apply (simp (no_asm_simp) add: small_def ops)
     apply (rule f(1))
    apply (rule agree_let[where flags = "[fits, fits, fits, fits, fits, twice, twice, fits, fits, fits, fits, fits, fits, fits, fits, fits, fits, fits, twice, twice,
      twice, twice, fits, fits, fits, fits, twice, twice, twice, twice, fits, fits]"])
       apply (simp (no_asm_simp) add: ops)
      apply (simp (no_asm_simp) add: small_def ops)
     apply (rule f(1))
    apply (rule agree_let[where flags = "[fits, fits, fits, fits, fits, fits, fits, fits, fits, fits, twice, twice, twice, twice, fits, fits, fits, fits, fits, fits, fits,
      fits, fits, fits, fits, fits, fits, fits, fits, fits, fits, fits]"])
       apply (simp (no_asm_simp) add: ops)
      apply (simp (no_asm_simp) add: small_def ops)
     apply (rule f(1))
    apply (rule agree_let[where flags = "[fits, fits, fits, fits, fits, fits, fits, fits, fits, fits, fits, fits, fits, fits, fits, fits, fits, fits, fits, fits, twice,
      twice, twice, twice, twice, twice, twice, twice, fits, fits, fits, fits]"])
       apply (simp (no_asm_simp) add: ops)
      apply (simp (no_asm_simp) add: small_def ops)
     apply (rule f(1))
    apply (rule agree_out_small)
      apply (simp (no_asm_simp) add: ops)
     apply (simp (no_asm_simp) add: ops)
    apply simp
    done
qed

lemma av1_idct64_exact:
  assumes ok: "machine_ok ar" "B \<le> 131072" and B: "B = 2 ^ (rng - 1)" and inp: "small_input B 64 input"
  shows "agree_on B (replicate 64 True) (av1_idct64 ar input rng) (av1_idct64 ideal input rng)"
proof -
  note f = stage_facts[OF ok B]
  note i = small_inputD[OF inp f(1)]
  note ops = op_pair[OF ok] half_btf_id[OF ok] half_btf_le f i
  show ?thesis
    unfolding av1_idct64_def if_not_P[OF i(1)]
    apply (rule agree_let[where flags = "[fits, fits, fits, fits, fits, fits, fits, fits, fits, fits, fits, fits, fits, fits, fits, fits, fits, fits, fits, fits, fits,
      fits, fits, fits, fits, fits, fits, fits, fits, fits, fits, fits, fits, fits, fits, fits, fits, fits, fits, fits, fits, fits,
      fits, fits, fits, fits, fits, fits, fits, fits, fits, fits, fits, fits, fits, fits, fits, fits, fits, fits, fits, fits, fits, fits]"])
       apply (simp (no_asm_simp) add: ops)
      apply (simp (no_asm_simp) add: small_def ops)
     apply (rule f(1))
    apply (rule agree_let[where flags = "[fits, fits, fits, fits, fits, fits, fits, fits, fits, fits, fits, fits, fits, fits, fits, fits, fits, fits, fits, fits, fits,
      fits, fits, fits, fits, fits, fits, fits, fits, fits, fits, fits, twice, twice, twice, twice, twice, twice, twice, twice, twice,
      twice, twice, twice, twice, twice, twice, twice, twice, twice, twice, twice, twice, twice, twice, twice, twice, twice, twice,
      twice, twice, twice, twice, twice]"])
       apply (simp (no_asm_simp) add: ops)
      apply (simp (no_asm_simp) add: small_def ops)
     apply (rule f(1))
    apply (rule agree_let[where flags = "[fits, fits, fits, fits, fits, fits, fits, fits, fits, fits, fits, fits, fits, fits, fits, fits, twice, twice, twice, twice,
      twice, twice, twice, twice, twice, twice, twice, twice, twice, twice, twice, twice, fits, fits, fits, fits, fits, fits, fits,
      fits, fits, fits, fits, fits, fits, fits, fits, fits, fits, fits, fits, fits, fits, fits, fits, fits, fits, fits, fits, fits,
      fits, fits, fits, fits]"])
       apply (simp (no_asm_simp) add: ops)
      apply (simp (no_asm_simp) add: small_def ops)
     apply (rule f(1))
    apply (rule agree_let[where flags = "[fits, fits, fits, fits, fits, fits, fits, fits, twice, twice, twice, twice, twice, twice, twice, twice, fits, fits, fits, fits,
      fits, fits, fits, fits, fits, fits, fits, fits, fits, fits, fits, fits, fits, twice, twice, fits, fits, twice, twice, fits, fits,
      twice, twice, fits, fits, twice, twice, fits, fits, twice, twice, fits, fits, twice, twice, fits, fits, twice, twice, fits, fits,
      twice, twice, fits]"])
       apply (simp (no_asm_simp) add: ops)
      apply (simp (no_asm_simp) add: small_def ops)
     apply (rule f(1))
    apply (rule agree_let[where flags = "[fits, fits, fits, fits, twice, twice, twice, twice, fits, fits, fits, fits, fits, fits, fits, fits, fits, twice, twice, fits,
      fits, twice, twice, fits, fits, twice, twice, fits, fits, twice, twice, fits, fits, fits, fits, fits, fits, fits, fits, fits,
      fits, fits, fits, fits, fits, fits, fits, fits, fits, fits, fits, fits, fits, fits, fits, fits, fits, fits, fits, fits, fits,
      fits, fits, fits]"])
       apply (simp (no_asm_simp) add: ops)
      apply (simp (no_asm_simp) add: small_def ops)
     apply (rule f(1))
    apply (rule agree_let[where flags = "[twice, twice, twice, twice, fits, fits, fits, fits, fits, twice, twice, fits, fits, twice, twice, fits, fits, fits, fits, fits,
      fits, fits, fits, fits, fits, fits, fits, fits, fits, fits, fits, fits, fits, fits, twice, twice, twice, twice, fits, fits, fits,
      fits, twice, twice, twice, twice, fits, fits, fits, fits, twice, twice, twice, twice, fits, fits, fits, fits, twice, twice,
      twice, twice, fits, fits]"])
       apply (simp (no_asm_simp) add: ops)
      apply (simp (no_asm_simp) add: small_def ops)
     apply (rule f(1))
    apply (rule agree_let[where flags = "[fits, fits, fits, fits, fits, twice, twice, fits, fits, fits, fits, fits, fits, fits, fits, fits, fits, fits, twice, twice,
      twice, twice, fits, fits, fits, fits, twice, twice, twice, twice, fits, fits, fits, fits, fits, fits, fits, fits, fits, fits,
      fits, fits, fits, fits, fits, fits, fits, fits, fits, fits, fits, fits, fits, fits, fits, fits, fits, fits, fits, fits, fits,
      fits, fits, fits]"])
       apply (simp (no_asm_simp) add: ops)
      apply (simp (no_asm_simp) add: small_def ops)
     apply (rule f(1))
    apply (rule agree_let[where flags = "[fits, fits, fits, fits, fits, fits, fits, fits, fits, fits, twice, twice, twice, twice, fits, fits, fits, fits, fits, fits, fits,
      fits, fits, fits, fits, fits, fits, fits, fits, fits, fits, fits, fits, fits, fits, fits, twice, twice, twice, twice, twice,
      twice, twice, twice, fits, fits, fits, fits, fits, fits, fits, fits, twice, twice, twice, twice, twice, twice, twice, twice,
      fits, fits, fits, fits]"])
       apply (simp (no_asm_simp) add: ops)
      apply (simp (no_asm_simp) add: small_def ops)
     apply (rule f(1))
    apply (rule agree_let[where flags = "[fits, fits, fits, fits, fits, fits, fits, fits, fits, fits, fits, fits, fits, fits, fits, fits, fits, fits, fits, fits, twice,
      twice, twice, twice, twice, twice, twice, twice, fits, fits, fits, fits, fits, fits, fits, fits, fits, fits, fits, fits, fits,
      fits, fits, fits, fits, fits, fits, fits, fits, fits, fits, fits, fits, fits, fits, fits, fits, fits, fits, fits, fits, fits,
      fits, fits]"])
       apply (simp (no_asm_simp) add: ops)
      apply (simp (no_asm_simp) add: small_def ops)
     apply (rule f(1))
    apply (rule agree_let[where flags = "[fits, fits, fits, fits, fits, fits, fits, fits, fits, fits, fits, fits, fits, fits, fits, fits, fits, fits, fits, fits, fits,
      fits, fits, fits, fits, fits, fits, fits, fits, fits, fits, fits, fits, fits, fits, fits, fits, fits, fits, fits, twice, twice,
      twice, twice, twice, twice, twice, twice, twice, twice, twice, twice, twice, twice, twice, twice, fits, fits, fits, fits, fits,
      fits, fits, fits]"])
       apply (simp (no_asm_simp) add: ops)
      apply (simp (no_asm_simp) add: small_def ops)
     apply (rule f(1))
    apply (rule agree_out_small)
      apply (simp (no_asm_simp) add: ops)
     apply (simp (no_asm_simp) add: ops)
    apply simp
    done
qed

end
