(* ===== verification/Av1_InvTxLaws.thy ===== *)
theory Av1_InvTxLaws
  imports Av1_InvTxBounds
begin

text \<open>
  The inverse transform of a block: on every machine the result of ideal integers,
  confined to the block.
\<close>

section \<open>Every transform of the table\<close>

definition txfm_ok :: "(i32_arith \<Rightarrow> int list \<Rightarrow> nat \<Rightarrow> int list result) \<Rightarrow> nat \<Rightarrow> bool" where
  "txfm_ok f n \<longleftrightarrow>
     (\<forall>ar B rng input. machine_ok ar \<longrightarrow> B \<le> 131072 \<longrightarrow> B = 2 ^ (rng - 1) \<longrightarrow> small_input B n input \<longrightarrow>
       (\<exists>out. f ar input rng = Inr out \<and> f ideal input rng = Inr out \<and> length out = n \<and> list_all (\<lambda>v. \<bar>v\<bar> \<le> 16 * B) out))"

lemma txfm_okI:
  assumes "\<And>ar B rng input. machine_ok ar \<Longrightarrow> B \<le> 131072 \<Longrightarrow> B = 2 ^ (rng - 1) \<Longrightarrow> small_input B n input \<Longrightarrow>
    agree_on B flags (f ar input rng) (f ideal input rng)" and "length flags = n"
  shows "txfm_ok f n"
  unfolding txfm_ok_def
proof (intro allI impI)
  fix ar input and B :: int and rng :: nat
  assume a: "machine_ok ar" "B \<le> 131072" "B = 2 ^ (rng - 1)" "small_input B n input"
  then obtain out where out: "f ar input rng = Inr out" "f ideal input rng = Inr out" "small B flags out"
    using assms(1)[OF a] by (auto simp: agree_on_def)
  have B0: "0 \<le> B" by (simp add: a(3))
  have "\<bar>v\<bar> \<le> 16 * B" if "v \<in> set out" for v
  proof -
    obtain i where i: "i < length out" "out ! i = v" using \<open>v \<in> set out\<close> unfolding in_set_conv_nth by blast
    then have "\<bar>out ! i\<bar> \<le> 2 * B" using small_nth(1)[OF out(3) B0] small_nth(3)[OF out(3) B0, of i] by simp
    then show ?thesis using i(2) B0 by linarith
  qed
  then show "\<exists>out. f ar input rng = Inr out \<and> f ideal input rng = Inr out \<and> length out = n \<and> list_all (\<lambda>v. \<bar>v\<bar> \<le> 16 * B) out"
    using out small_nth(1)[OF out(3) B0] assms(2) by (auto simp: list_all_iff)
qed

lemma dct_ok:
  "txfm_ok av1_idct4 4" "txfm_ok av1_idct8 8" "txfm_ok av1_idct16 16" "txfm_ok av1_idct32 32" "txfm_ok av1_idct64 64"
  "txfm_ok av1_iadst8 8" "txfm_ok av1_iadst16 16"
  by (rule txfm_okI, erule (3) av1_idct4_exact av1_idct8_exact av1_idct16_exact av1_idct32_exact av1_idct64_exact
    av1_iadst8_exact av1_iadst16_exact, simp)+

lemma op_lin: "machine_ok ar \<Longrightarrow> - 2147483648 < x \<Longrightarrow> x < 2147483648 \<Longrightarrow> i32_op ar x = x"
  by (rule op_id) (simp_all add: abs_less_iff minus_less_iff)

lemma rounded_le:
  assumes "\<bar>s\<bar> \<le> 16384 * (B :: int)" "0 \<le> B"
  shows "\<bar>(s + 2048) div 4096\<bar> \<le> 16 * B"
proof (cases "B = 0")
  case False
  then have "1 \<le> B" using assms(2) by linarith
  moreover have "s + 2048 = 4096 * ((s + 2048) div 4096) + (s + 2048) mod 4096" "0 \<le> (s + 2048) mod 4096" "(s + 2048) mod 4096 < 4096" by simp_all
  ultimately show ?thesis using assms(1) by linarith
qed (use assms in simp)

lemma iadst4_ok: "txfm_ok av1_iadst4 4"
  unfolding txfm_ok_def
proof (intro allI impI)
  fix ar input and B :: int and rng :: nat
  assume a: "machine_ok ar" "B \<le> 131072" "B = 2 ^ (rng - 1)" "small_input B 4 input"
  define x0 x1 x2 x3 where x: "x0 = input ! 0" "x1 = input ! 1" "x2 = input ! 2" "x3 = input ! 3"
  have B0: "0 \<le> B" by (simp add: a(3))
  note i = small_inputD[OF a(4) B0]
  have b: "\<bar>x0\<bar> \<le> B" "\<bar>x1\<bar> \<le> B" "\<bar>x2\<bar> \<le> B" "\<bar>x3\<bar> \<le> B" using i(2) by (simp_all add: x)
  have c: "- B \<le> x0" "x0 \<le> B" "- B \<le> x1" "x1 \<le> B" "- B \<le> x2" "x2 \<le> B" "- B \<le> x3" "x3 \<le> B"
    using b by linarith+
  have d: "- 131072 \<le> x0" "x0 \<le> 131072" "- 131072 \<le> x1" "x1 \<le> 131072" "- 131072 \<le> x2" "x2 \<le> 131072" "- 131072 \<le> x3" "x3 \<le> 131072"
    using c a(2) by linarith+
  have ops: "i32_op ar (1321 * x0) = 1321 * x0" "i32_op ar (2482 * x0) = 2482 * x0" "i32_op ar (3344 * x1) = 3344 * x1"
    "i32_op ar (3803 * x2) = 3803 * x2" "i32_op ar (1321 * x2) = 1321 * x2" "i32_op ar (2482 * x3) = 2482 * x3"
    "i32_op ar (3803 * x3) = 3803 * x3" "i32_op ar (x0 - x2) = x0 - x2" "i32_op ar (x0 - x2 + x3) = x0 - x2 + x3"
    "i32_op ar (1321 * x0 + 3803 * x2) = 1321 * x0 + 3803 * x2" "i32_op ar (2482 * x0 - 1321 * x2) = 2482 * x0 - 1321 * x2"
    "i32_op ar (1321 * x0 + 3803 * x2 + 2482 * x3) = 1321 * x0 + 3803 * x2 + 2482 * x3"
    "i32_op ar (2482 * x0 - 1321 * x2 - 3803 * x3) = 2482 * x0 - 1321 * x2 - 3803 * x3"
    "i32_op ar (1321 * x0 + 3803 * x2 + 2482 * x3 + 3344 * x1) = 1321 * x0 + 3803 * x2 + 2482 * x3 + 3344 * x1"
    "i32_op ar (2482 * x0 - 1321 * x2 - 3803 * x3 + 3344 * x1) = 2482 * x0 - 1321 * x2 - 3803 * x3 + 3344 * x1"
    "i32_op ar (1321 * x0 + 3803 * x2 + 2482 * x3 + (2482 * x0 - 1321 * x2 - 3803 * x3)) =
      1321 * x0 + 3803 * x2 + 2482 * x3 + (2482 * x0 - 1321 * x2 - 3803 * x3)"
    "i32_op ar (1321 * x0 + 3803 * x2 + 2482 * x3 + (2482 * x0 - 1321 * x2 - 3803 * x3) - 3344 * x1) =
      1321 * x0 + 3803 * x2 + 2482 * x3 + (2482 * x0 - 1321 * x2 - 3803 * x3) - 3344 * x1"
    using d by (intro op_lin[OF a(1)]; linarith)+
  define y where "y = x0 - x2 + x3"
  have y: "\<bar>y\<bar> \<le> 3 * B" using b unfolding y_def by linarith
  have y': "\<bar>3344 * y\<bar> \<le> 3344 * (3 * B)" by (rule abs_mult_le[OF _ y]) simp
  have opy': "i32_op ar y = y" using ops(9) by (simp add: y_def)
  have opy: "i32_op ar (3344 * y) = 3344 * y" by (rule op_id[OF a(1)], rule order.strict_trans1[OF y']) (use a(2) in simp)
  let ?r = "\<lambda>s :: int. (s + 2048) div 4096"
  let ?out = "[?r (1321 * x0 + 3803 * x2 + 2482 * x3 + 3344 * x1), ?r (2482 * x0 - 1321 * x2 - 3803 * x3 + 3344 * x1),
    ?r (3344 * y), ?r (1321 * x0 + 3803 * x2 + 2482 * x3 + (2482 * x0 - 1321 * x2 - 3803 * x3) - 3344 * x1)]"
  have r: "i32_round_shift m s 12 = ?r s" if "machine_ok m" "\<bar>s\<bar> \<le> 16000 * B" for m s
    using round_shift_id[OF that(1), of s 12] that(2) a(2) by simp
  have w: "\<bar>1321 * x0 + 3803 * x2 + 2482 * x3 + 3344 * x1\<bar> \<le> 16000 * B" "\<bar>2482 * x0 - 1321 * x2 - 3803 * x3 + 3344 * x1\<bar> \<le> 16000 * B"
    "\<bar>3344 * y\<bar> \<le> 16000 * B"
    "\<bar>1321 * x0 + 3803 * x2 + 2482 * x3 + (2482 * x0 - 1321 * x2 - 3803 * x3) - 3344 * x1\<bar> \<le> 16000 * B"
    using c y' B0 by (simp_all only: abs_le_iff; linarith)+
  have q: "\<bar>?r s\<bar> \<le> 16 * B" if s: "\<bar>s\<bar> \<le> 16000 * B" for s
    by (rule rounded_le[OF _ B0]) (use s B0 in linarith)
  have "av1_iadst4 ar input rng = Inr ?out"
    unfolding av1_iadst4_def if_not_P[OF i(1)] Let_def sinpi x[symmetric] by (simp only: ops y_def[symmetric] opy opy' r[OF a(1) w(1)] r[OF a(1) w(2)] r[OF a(1) w(3)] r[OF a(1) w(4)])
  moreover have "av1_iadst4 ideal input rng = Inr ?out"
    unfolding av1_iadst4_def if_not_P[OF i(1)] Let_def sinpi x[symmetric] by (simp add: y_def)
  moreover have "list_all (\<lambda>v. \<bar>v\<bar> \<le> 16 * B) ?out"
    using q[OF w(1)] q[OF w(2)] q[OF w(3)] q[OF w(4)] by (simp only: list.pred_inject simp_thms)
  ultimately show "\<exists>out. av1_iadst4 ar input rng = Inr out \<and> av1_iadst4 ideal input rng = Inr out \<and> length out = 4 \<and>
      list_all (\<lambda>v. \<bar>v\<bar> \<le> 16 * B) out"
    by (intro exI[of _ ?out]) simp
qed

lemma flip_ok: "txfm_ok f n \<Longrightarrow> txfm_ok (\<lambda>ar input rng. bindR (f ar input rng) (\<lambda>output. Inr (rev output))) n"
  unfolding txfm_ok_def by fastforce

lemma map_ok:
  assumes "\<And>ar B x. machine_ok ar \<Longrightarrow> 0 \<le> B \<Longrightarrow> B \<le> 131072 \<Longrightarrow> \<bar>x\<bar> \<le> B \<Longrightarrow> g ar x = g ideal x \<and> \<bar>g ideal x\<bar> \<le> 16 * B"
  shows "txfm_ok (\<lambda>ar input rng. if length input < n then Inl Fault else Inr (map (g ar) (take n input))) n"
  unfolding txfm_ok_def
proof (intro allI impI)
  fix ar input and B :: int and rng :: nat
  assume a: "machine_ok ar" "B \<le> 131072" "B = 2 ^ (rng - 1)" "small_input B n input"
  have "g ar x = g ideal x" "\<bar>g ideal x\<bar> \<le> 16 * B" if "x \<in> set (take n input)" for x
    using assms[OF a(1) _ a(2), of x] a(3,4) that by (auto simp: small_input_def list_all_iff)
  then show "\<exists>out. (if length input < n then Inl Fault else Inr (map (g ar) (take n input))) = Inr out \<and>
      (if length input < n then Inl Fault else Inr (map (g ideal) (take n input))) = Inr out \<and> length out = n \<and> list_all (\<lambda>v. \<bar>v\<bar> \<le> 16 * B) out"
    using a(4) by (auto simp: small_input_def list_all_iff)
qed

lemma identity_ok:
  "txfm_ok av1_iidentity4 4" "txfm_ok av1_iidentity8 8" "txfm_ok av1_iidentity16 16" "txfm_ok av1_iidentity32 32"
proof -
  have r: "i32_round_shift ar (i32_op ar (c * x)) 12 = (c * x + 2048) div 4096 \<and> \<bar>(c * x + 2048) div 4096\<bar> \<le> 16 * B"
    if "machine_ok ar" "0 \<le> B" "B \<le> 131072" "\<bar>x\<bar> \<le> B" "\<bar>c\<bar> \<le> 11586" for ar x c and B :: int
  proof -
    have m: "\<bar>c * x\<bar> \<le> 11586 * B" using abs_mult_le[OF that(5,4)] .
    moreover have "i32_op ar (c * x) = c * x" by (rule op_id[OF that(1)]) (use m that(3) in simp)
    ultimately show ?thesis using round_shift_id[OF that(1), of "c * x" 12] rounded_le[of "c * x" B] that(2,3) by simp
  qed
  have o: "i32_op ar (c * x) = c * x \<and> \<bar>c * x\<bar> \<le> 16 * B"
    if "machine_ok ar" "0 \<le> B" "B \<le> 131072" "\<bar>x\<bar> \<le> B" "\<bar>c\<bar> \<le> 4" for ar x c and B :: int
  proof -
    have m: "\<bar>c * x\<bar> \<le> 4 * B" using abs_mult_le[OF that(5,4)] .
    then show ?thesis using op_id[OF that(1), of "c * x"] that(2,3) by simp
  qed
  show "txfm_ok av1_iidentity4 4" unfolding av1_iidentity4_def[abs_def]
    by (rule map_ok) (use r[of _ _ _ 5793] in \<open>simp add: SQRT2_def\<close>)
  have k: "i32_op ar (SQRT2 * 2) = 11586" if "machine_ok ar" for ar using op_id[OF that, of 11586] by (simp add: SQRT2_def)
  show "txfm_ok av1_iidentity16 16" unfolding av1_iidentity16_def[abs_def]
    by (rule map_ok) (use r[of _ _ _ 11586] k in \<open>simp add: SQRT2_def\<close>)
  show "txfm_ok av1_iidentity8 8" unfolding av1_iidentity8_def[abs_def] by (rule map_ok) (use o[of _ _ _ 2] in simp)
  show "txfm_ok av1_iidentity32 32" unfolding av1_iidentity32_def[abs_def] by (rule map_ok) (use o[of _ _ _ 4] in simp)
qed

lemma iwht4_ok: "txfm_ok av1_iwht4 4"
  unfolding txfm_ok_def
proof (intro allI impI)
  fix ar input and B :: int and rng :: nat
  assume a: "machine_ok ar" "B \<le> 131072" "B = 2 ^ (rng - 1)" "small_input B 4 input"
  define x0 x1 x2 x3 where x: "x0 = input ! 0" "x1 = input ! 1" "x2 = input ! 2" "x3 = input ! 3"
  have B0: "0 \<le> B" by (simp add: a(3))
  note i = small_inputD[OF a(4) B0]
  have b: "\<bar>x0\<bar> \<le> B" "\<bar>x1\<bar> \<le> B" "\<bar>x2\<bar> \<le> B" "\<bar>x3\<bar> \<le> B" using i(2) by (simp_all add: x)
  define s where "s = (x0 + x1 - (x2 - x3)) div 2"
  have s: "\<bar>s\<bar> \<le> 2 * B" using b unfolding s_def by linarith
  have ops: "i32_op m (x0 + x1) = x0 + x1" "i32_op m (x2 - x3) = x2 - x3" "i32_op m (x0 + x1 - (x2 - x3)) = x0 + x1 - (x2 - x3)"
    "i32_op m (s - x3) = s - x3" "i32_op m (s - x1) = s - x1" "i32_op m (x0 + x1 - (s - x3)) = x0 + x1 - (s - x3)"
    "i32_op m (x2 - x3 + (s - x1)) = x2 - x3 + (s - x1)" if "machine_ok m" for m
    using b s a(2) by (intro op_lin[OF that]; linarith)+
  let ?out = "[x0 + x1 - (s - x3), s - x3, s - x1, x2 - x3 + (s - x1)]"
  have "av1_iwht4 m input rng = Inr ?out" if "machine_ok m" for m
    unfolding av1_iwht4_def if_not_P[OF i(1)] Let_def x[symmetric]
    by (simp only: ops[OF that] drop_bit_eq_div power_one_right s_def[symmetric])
  moreover have "\<bar>x0 + x1 - (s - x3)\<bar> \<le> 16 * B" "\<bar>s - x3\<bar> \<le> 16 * B" "\<bar>s - x1\<bar> \<le> 16 * B" "\<bar>x2 - x3 + (s - x1)\<bar> \<le> 16 * B"
    using b s by linarith+
  ultimately show "\<exists>out. av1_iwht4 ar input rng = Inr out \<and> av1_iwht4 ideal input rng = Inr out \<and> length out = 4 \<and> list_all (\<lambda>v. \<bar>v\<bar> \<le> 16 * B) out"
    using a(1) ideal_ok by (intro exI[of _ ?out]) simp
qed

lemma flips_ok: "txfm_ok av1_iflipadst4 4" "txfm_ok av1_iflipadst8 8" "txfm_ok av1_iflipadst16 16"
  unfolding av1_iflipadst4_def[abs_def] av1_iflipadst8_def[abs_def] av1_iflipadst16_def[abs_def]
  using flip_ok[OF iadst4_ok] flip_ok[OF dct_ok(6)] flip_ok[OF dct_ok(7)] by simp_all

text \<open>The transforms that a valid pair of size and type selects.\<close>

lemma selected_ok:
  assumes "valid_av1_transform s t" "t = WHT_WHT \<Longrightarrow> s = TX_4X4"
  shows "txfm_ok (INV_TXFM_FNS ! type_1d_index (snd (get_1d_tx_types t)) ! (width_log2 s - 2)) (tx_width s)"
    and "txfm_ok (INV_TXFM_FNS ! type_1d_index (fst (get_1d_tx_types t)) ! (height_log2 s - 2)) (tx_height s)"
  using assms by (cases s; cases t; simp add: valid_av1_transform_def INV_TXFM_FNS_def tx_width_def tx_height_def dct_ok iadst4_ok
    flips_ok identity_ok iwht4_ok)+

section \<open>Loops on two machines\<close>

lemma mapR_agree:
  assumes "\<And>x. x \<in> set xs \<Longrightarrow> \<exists>y. f x = Inr y \<and> g x = Inr y \<and> P y"
  shows "\<exists>ys. mapR f xs = Inr ys \<and> mapR g xs = Inr ys \<and> length ys = length xs \<and> list_all P ys"
  using assms
proof (induction xs)
  case (Cons x xs)
  obtain y where "f x = Inr y" "g x = Inr y" "P y" using Cons.prems[of x] by auto
  moreover obtain ys where "mapR f xs = Inr ys" "mapR g xs = Inr ys" "length ys = length xs" "list_all P ys"
    using Cons.IH Cons.prems by auto
  ultimately show ?case by simp
qed simp

lemma mapR_nth: "mapR f xs = Inr ys \<Longrightarrow> length ys = length xs \<and> (\<forall>i<length xs. f (xs ! i) = Inr (ys ! i))"
proof (induction xs arbitrary: ys)
  case (Cons x xs)
  then show ?case by (auto simp: bindR_eq_Inr_iff nth_Cons split: nat.splits)
qed simp

lemma forR_upt_inv:
  assumes step: "\<And>k s. k < n \<Longrightarrow> I k s \<Longrightarrow> \<exists>s'. f k s = Inr s' \<and> I (Suc k) s'" and start: "I 0 s"
  shows "\<exists>s'. forR f [0..<n] s = Inr s' \<and> I n s'"
proof -
  have "\<exists>s'. forR f [0..<m] s = Inr s' \<and> I m s'" if "m \<le> n" for m
    using that
  proof (induction m)
    case (Suc m)
    then obtain s' where s': "forR f [0..<m] s = Inr s'" "I m s'" by auto
    then show ?case using step[of m s'] Suc.prems by (auto simp: forR_append)
  qed (use start in simp)
  then show ?thesis by blast
qed

section \<open>Rows and columns\<close>

lemma temp64_small:
  assumes "list_all (\<lambda>v. \<bar>v\<bar> \<le> B) xs" "0 \<le> B" "n \<le> 64"
  shows "small_input B n (temp64 xs)"
  using assms by (auto simp: small_input_def temp64_def list_all_iff dest!: in_set_takeD)

lemma inverse_row_agree:
  assumes ok: "machine_ok ar" and sel: "valid_av1_transform s t" "t = WHT_WHT \<Longrightarrow> s = TX_4X4"
    and rng: "0 < rng" "rng \<le> 18" and inp: "\<And>v. v \<in> set input \<Longrightarrow> \<bar>v\<bar> \<le> 524288"
    and n: "length input = min (tx_width s) 32 * min (tx_height s) 32" "r < min (tx_height s) 32"
  shows "\<exists>out. inverse_row ar input s t rng r = Inr out \<and> inverse_row ideal input s t rng r = Inr out \<and>
    (length out = tx_width s \<and> list_all (\<lambda>v. \<bar>v\<bar> \<le> 2097152) out)"
proof -
  define B :: int where "B = 2 ^ (rng - 1)"
  have B: "B \<le> 131072" using power_increasing[of "rng - 1" 17 "2 :: int"] rng by (simp add: B_def)
  have B0: "0 \<le> B" by (simp add: B_def)
  let ?val = "\<lambda>ar k. let raw = input ! (r + k * min (tx_height s) 32);
                val = (if \<bar>rect_ratio_log2 s\<bar> = 1 then i32_round_shift ar (i32_op ar (raw * INV_SQRT2)) SQRT2_BITS
                       else if t = WHT_WHT then drop_bit 2 raw else raw)
            in clamp_value ar val rng"
  have val: "?val ar k = ?val ideal k" if "k \<in> set [0..<min (tx_width s) 32]" for k
  proof -
    have "r + k * min (tx_height s) 32 < length input"
    proof -
      have "r + k * min (tx_height s) 32 < min (tx_height s) 32 + k * min (tx_height s) 32" using n(2) by simp
      also have "\<dots> = (k + 1) * min (tx_height s) 32" by simp
      also have "\<dots> \<le> min (tx_width s) 32 * min (tx_height s) 32" using that by (intro mult_le_mono1) simp
      finally show ?thesis by (simp add: n(1))
    qed
    then have raw: "\<bar>input ! (r + k * min (tx_height s) 32)\<bar> \<le> 524288" using inp by simp
    then have m: "\<bar>input ! (r + k * min (tx_height s) 32) * 2896\<bar> \<le> 524288 * 2896"
      unfolding abs_mult by (intro mult_mono) simp_all
    have e: "i32_op ar (input ! (r + k * min (tx_height s) 32) * 2896) = input ! (r + k * min (tx_height s) 32) * 2896"
      by (rule op_id[OF ok], rule order.strict_trans1[OF m]) simp
    have e': "i32_round_shift ar (input ! (r + k * min (tx_height s) 32) * 2896) 12 = i32_round_shift ideal (input ! (r + k * min (tx_height s) 32) * 2896) 12"
      unfolding ideal_simps by (rule round_shift_id[OF ok], rule order.strict_trans1[OF m]) simp
    show ?thesis by (simp only: Let_def INV_SQRT2_def SQRT2_BITS_def e e' clamp_value_ideal[OF ok] ideal_simps(1))
  qed
  define temp where "temp = temp64 (map (?val ideal) [0..<min (tx_width s) 32])"
  have te: "temp64 (map (?val ar) [0..<min (tx_width s) 32]) = temp" unfolding temp_def by (rule arg_cong[of _ _ temp64], rule map_cong[OF refl val])
  have w: "tx_width s \<le> 64" by (cases s) (simp_all add: tx_width_def)
  have small: "small_input B (tx_width s) temp"
    unfolding temp_def by (rule temp64_small[OF _ B0 w]) (simp only: list_all_iff B_def Let_def set_map ball_simps clamp_value_le, simp)
  have row: "inverse_row m input s t rng r =
      (INV_TXFM_FNS ! type_1d_index (snd (get_1d_tx_types t)) ! (width_log2 s - 2)) m (temp64 (map (?val m) [0..<min (tx_width s) 32])) rng" for m
    by (simp only: inverse_row_def Let_def)
  obtain out where out: "(INV_TXFM_FNS ! type_1d_index (snd (get_1d_tx_types t)) ! (width_log2 s - 2)) ar temp rng = Inr out"
      "(INV_TXFM_FNS ! type_1d_index (snd (get_1d_tx_types t)) ! (width_log2 s - 2)) ideal temp rng = Inr out"
      "length out = tx_width s" "list_all (\<lambda>v. \<bar>v\<bar> \<le> 16 * B) out"
    using selected_ok(1)[OF sel] ok B B_def small unfolding txfm_ok_def by blast
  have "list_all (\<lambda>v. \<bar>v\<bar> \<le> 2097152) out" using out(4) B by (fastforce simp: list_all_iff)
  then show ?thesis unfolding row[of ar] row[of ideal] te temp_def[symmetric] using out by blast
qed

lemma inverse_col_agree:
  assumes ok: "machine_ok ar" and sel: "valid_av1_transform s t" "t = WHT_WHT \<Longrightarrow> s = TX_4X4"
    and rng: "0 < rng" "rng \<le> 18" and buf: "\<And>row. row \<in> set buffer \<Longrightarrow> c < length row \<and> list_all (\<lambda>v. \<bar>v\<bar> \<le> 2097152) row"
  shows "\<exists>out. inverse_col ar buffer s t rng c = Inr out \<and> inverse_col ideal buffer s t rng c = Inr out \<and>
    (length out = tx_height s \<and> list_all (\<lambda>v. \<bar>v\<bar> \<le> 2097152) out)"
proof -
  define B :: int where "B = 2 ^ (rng - 1)"
  have B: "B \<le> 131072" using power_increasing[of "rng - 1" 17 "2 :: int"] rng by (simp add: B_def)
  have B0: "0 \<le> B" by (simp add: B_def)
  let ?sh = "INV_INTERMEDIATE_SHIFTS ! index_of all_tx_sizes s"
  let ?val = "\<lambda>ar row. clamp_value ar (i32_round_shift ar (row ! c) ?sh) rng"
  have sh: "?sh \<le> 2" by (cases s) (simp_all add: INV_INTERMEDIATE_SHIFTS_def all_tx_sizes_def)
  have half: "(2 :: int) ^ ?sh div 2 \<le> 2"
    using power_increasing[OF sh, of "2 :: int"] by simp
  have val: "?val ar row = ?val ideal row" if "row \<in> set buffer" for row
  proof -
    have "\<bar>row ! c\<bar> \<le> 2097152" using buf[OF that] by (auto simp: list_all_length)
    then have "i32_round_shift ar (row ! c) ?sh = i32_round_shift ideal (row ! c) ?sh"
      unfolding ideal_simps by (intro round_shift_id[OF ok]) (use half in simp)
    then show ?thesis by (simp only: clamp_value_ideal[OF ok])
  qed
  define temp where "temp = temp64 (map (?val ideal) buffer)"
  have te: "temp64 (map (?val ar) buffer) = temp" unfolding temp_def by (rule arg_cong[of _ _ temp64], rule map_cong[OF refl val])
  have h: "tx_height s \<le> 64" by (cases s) (simp_all add: tx_height_def)
  have small: "small_input B (tx_height s) temp"
    unfolding temp_def by (rule temp64_small[OF _ B0 h]) (simp only: list_all_iff B_def set_map ball_simps clamp_value_le, simp)
  have col: "inverse_col m buffer s t rng c =
      (INV_TXFM_FNS ! type_1d_index (fst (get_1d_tx_types t)) ! (height_log2 s - 2)) m (temp64 (map (?val m) buffer)) rng" for m
    by (simp only: inverse_col_def Let_def)
  obtain out where out: "(INV_TXFM_FNS ! type_1d_index (fst (get_1d_tx_types t)) ! (height_log2 s - 2)) ar temp rng = Inr out"
      "(INV_TXFM_FNS ! type_1d_index (fst (get_1d_tx_types t)) ! (height_log2 s - 2)) ideal temp rng = Inr out"
      "length out = tx_height s" "list_all (\<lambda>v. \<bar>v\<bar> \<le> 16 * B) out"
    using selected_ok(2)[OF sel] ok B B_def small unfolding txfm_ok_def by blast
  have "list_all (\<lambda>v. \<bar>v\<bar> \<le> 2097152) out" using out(4) B by (fastforce simp: list_all_iff)
  then show ?thesis unfolding col[of ar] col[of ideal] te temp_def[symmetric] using out by blast
qed

section \<open>A block\<close>

text \<open>The columns of the residual in ideal arithmetic, and the residual that is added.\<close>

definition residual_rows :: "i32_arith \<Rightarrow> int list \<Rightarrow> tx_size \<Rightarrow> tx_type \<Rightarrow> nat \<Rightarrow> int list list result" where
  "residual_rows ar input s t bd =
     bindR (mapR (inverse_row ar (take (min (tx_width s) 32 * min (tx_height s) 32) input) s t (bd + 8)) [0..<min (tx_height s) 32]) (\<lambda>rows.
     Inr (rows @ replicate (tx_height s - min (tx_height s) 32) (replicate (tx_width s) 0)))"

definition residual_cols :: "i32_arith \<Rightarrow> int list \<Rightarrow> tx_size \<Rightarrow> tx_type \<Rightarrow> nat \<Rightarrow> int list list result" where
  "residual_cols ar input s t bd =
     bindR (residual_rows ar input s t bd) (\<lambda>buffer. mapR (inverse_col ar buffer s t (max (bd + 6) 16)) [0..<tx_width s])"

definition added :: "tx_type \<Rightarrow> int \<Rightarrow> int" where
  "added t r = (if t = WHT_WHT then r else (r + 8) div 16)"

text \<open>What the picture's rows are after a block's residual is added.\<close>

definition block_added :: "tx_size \<Rightarrow> tx_type \<Rightarrow> nat \<Rightarrow> int list list \<Rightarrow> int list list \<Rightarrow> int list list \<Rightarrow> bool" where
  "block_added s t bd cols output out \<longleftrightarrow>
     length out = length output \<and> (\<forall>i<length output. length (out ! i) = length (output ! i) \<and> (\<forall>j<length (output ! i).
       out ! i ! j = (if i < tx_height s \<and> j < tx_width s
         then max 0 (min (2 ^ bd - 1) (output ! i ! j + added t (cols ! j ! i))) else output ! i ! j)))"

lemma add_column_ok:
  assumes ok: "machine_ok ar" and bd: "0 < bd" "bd \<le> 12" and h: "length temp = height" "list_all (\<lambda>v. \<bar>v\<bar> \<le> 2097152) temp"
    and rows: "\<And>i. i < height \<Longrightarrow> i < length output \<Longrightarrow> c < length (output ! i) \<and> \<bar>output ! i ! c\<bar> \<le> 4096"
  shows "\<exists>out. add_column ar (t = WHT_WHT) bd height c temp output = Inr out \<and> length out = length output \<and>
    (\<forall>i<length output. out ! i = (if i < height then (output ! i)[c := max 0 (min (2 ^ bd - 1) (output ! i ! c + added t (temp ! i)))] else output ! i))"
proof -
  let ?I = "\<lambda>k rows. length rows = length output \<and> (\<forall>i<length output. rows ! i =
    (if i < k then (output ! i)[c := max 0 (min (2 ^ bd - 1) (output ! i ! c + added t (temp ! i)))] else output ! i))"
  have "\<exists>out. forR (\<lambda>i rows. let row = rows ! i in if \<not> c < length row then Inl Fault
       else let v = row ! c; temp = temp ! i; r = (if t = WHT_WHT then temp else i32_round_shift ar temp 4);
             v = i32_clamp ar (i32_op ar (v + r)) 0 (2 ^ bd - 1) in Inr (rows[i := row[c := v]])) [0..<min height (length output)] output = Inr out \<and>
      ?I (min height (length output)) out"
  proof (rule forR_upt_inv)
    fix k rows' assume k: "k < min height (length output)" and I: "?I k rows'"
    have row: "rows' ! k = output ! k" "c < length (output ! k)" "\<bar>output ! k ! c\<bar> \<le> 4096" using I k rows by simp_all
    have tk: "\<bar>temp ! k\<bar> \<le> 2097152" using h k by (simp add: list_all_length)
    have rs: "(if t = WHT_WHT then temp ! k else i32_round_shift ar (temp ! k) 4) = added t (temp ! k)"
      using round_shift_id[OF ok, of "temp ! k" 4] tk by (simp add: added_def)
    have ad: "\<bar>added t (temp ! k)\<bar> \<le> 2097152" using tk unfolding added_def by (split if_split, intro conjI impI; linarith)
    have op: "i32_op ar (output ! k ! c + added t (temp ! k)) = output ! k ! c + added t (temp ! k)"
      by (rule op_id[OF ok]) (use ad row(3) in simp)
    have "(0 :: int) \<le> 2 ^ bd - 1" by simp
    then have cl: "i32_clamp ar v 0 (2 ^ bd - 1) = max 0 (min (2 ^ bd - 1) v)" for v using ok by (simp add: machine_ok_def)
    have n: "\<not> \<not> c < length (output ! k)" using row(2) by simp
    show "\<exists>s'. (let row = rows' ! k in if \<not> c < length row then Inl Fault
       else let v = row ! c; temp = temp ! k; r = (if t = WHT_WHT then temp else i32_round_shift ar temp 4);
             v = i32_clamp ar (i32_op ar (v + r)) 0 (2 ^ bd - 1) in Inr (rows'[k := row[c := v]])) = Inr s' \<and> ?I (Suc k) s'"
      unfolding Let_def row(1) if_not_P[OF n] rs op cl using I k by (auto simp: nth_list_update less_Suc_eq)
  qed simp
  then show ?thesis by (auto simp: add_column_def)
qed

lemma inverse_transform_add_ok:
  assumes ok: "machine_ok ar" and bd: "8 \<le> bd" "bd \<le> 10" and sel: "valid_av1_transform s t" "t = WHT_WHT \<Longrightarrow> s = TX_4X4"
    and inp: "min (tx_width s) 32 * min (tx_height s) 32 \<le> length input" "\<And>v. v \<in> set input \<Longrightarrow> \<bar>v\<bar> \<le> 524288"
    and rows: "\<And>i. i < tx_height s \<Longrightarrow> i < length output \<Longrightarrow> tx_width s \<le> length (output ! i)"
      "\<And>row v. row \<in> set output \<Longrightarrow> v \<in> set row \<Longrightarrow> 0 \<le> v \<and> v < 2 ^ bd"
  shows "\<exists>cols out. residual_cols ideal input s t bd = Inr cols \<and> inverse_transform_add ar input output s t bd = Inr out \<and>
    length cols = tx_width s \<and> block_added s t bd cols output out"
proof -
  let ?w = "tx_width s" and ?h = "tx_height s"
  let ?in = "take (min ?w 32 * min ?h 32) input"
  have rng: "0 < bd + 8" "bd + 8 \<le> 18" "0 < max (bd + 6) 16" "max (bd + 6) 16 \<le> 18" using bd by simp_all
  have ilen: "length ?in = min ?w 32 * min ?h 32" using inp(1) by simp
  have iv: "\<bar>v\<bar> \<le> 524288" if "v \<in> set ?in" for v using inp(2) set_take_subset that by fastforce
  obtain rs where rs: "mapR (inverse_row ar ?in s t (bd + 8)) [0..<min ?h 32] = Inr rs" "mapR (inverse_row ideal ?in s t (bd + 8)) [0..<min ?h 32] = Inr rs"
      "length rs = min ?h 32" "list_all (\<lambda>out. length out = ?w \<and> list_all (\<lambda>v. \<bar>v\<bar> \<le> 2097152) out) rs"
    using mapR_agree[of "[0..<min ?h 32]" "inverse_row ar ?in s t (bd + 8)" "inverse_row ideal ?in s t (bd + 8)"
      "\<lambda>out. length out = ?w \<and> list_all (\<lambda>v. \<bar>v\<bar> \<le> 2097152) out"] inverse_row_agree[OF ok sel rng(1,2) iv ilen] by auto
  define buffer where "buffer = rs @ replicate (?h - min ?h 32) (replicate ?w 0)"
  have buf: "c < length row \<and> list_all (\<lambda>v. \<bar>v\<bar> \<le> 2097152) row" if "row \<in> set buffer" "c < ?w" for row c
    using rs(4) that by (auto simp: buffer_def list_all_iff split: if_splits)
  obtain cols where cols: "mapR (inverse_col ar buffer s t (max (bd + 6) 16)) [0..<?w] = Inr cols"
      "mapR (inverse_col ideal buffer s t (max (bd + 6) 16)) [0..<?w] = Inr cols" "length cols = ?w"
      "list_all (\<lambda>out. length out = ?h \<and> list_all (\<lambda>v. \<bar>v\<bar> \<le> 2097152) out) cols"
    using mapR_agree[of "[0..<?w]" "inverse_col ar buffer s t (max (bd + 6) 16)" "inverse_col ideal buffer s t (max (bd + 6) 16)"
      "\<lambda>out. length out = ?h \<and> list_all (\<lambda>v. \<bar>v\<bar> \<le> 2097152) out"] inverse_col_agree[OF ok sel rng(3,4) buf] by auto
  have colc: "inverse_col ar buffer s t (max (bd + 6) 16) c = Inr (cols ! c)" if "c < ?w" for c
    using mapR_nth[OF cols(1)] that by simp
  have rc: "residual_cols ideal input s t bd = Inr cols" using rs(2) cols(2) by (simp add: residual_cols_def residual_rows_def buffer_def)
  have p: "(2 :: int) ^ bd \<le> 4096" using power_increasing[of bd 12 "2 :: int"] bd by simp
  let ?I = "\<lambda>k rows. length rows = length output \<and> (\<forall>i<length output. length (rows ! i) = length (output ! i) \<and> (\<forall>j<length (output ! i).
    rows ! i ! j = (if i < ?h \<and> j < k then max 0 (min (2 ^ bd - 1) (output ! i ! j + added t (cols ! j ! i))) else output ! i ! j)))"
  have "\<exists>out. forR (\<lambda>c output. bindR (inverse_col ar buffer s t (max (bd + 6) 16) c) (\<lambda>temp_out.
      add_column ar (t = WHT_WHT) bd ?h c temp_out output)) [0..<?w] output = Inr out \<and> ?I ?w out"
  proof (rule forR_upt_inv)
    fix c rows' assume c: "c < ?w" and I: "?I c rows'"
    have h: "length (cols ! c) = ?h" "list_all (\<lambda>v. \<bar>v\<bar> \<le> 2097152) (cols ! c)" using cols(3,4) c by (simp_all add: list_all_length)
    have old: "c < length (rows' ! i) \<and> \<bar>rows' ! i ! c\<bar> \<le> 4096" if i: "i < ?h" "i < length rows'" for i
    proof -
      have l: "c < length (output ! i)" using rows(1) i I c by fastforce
      then have "0 \<le> output ! i ! c \<and> output ! i ! c < 2 ^ bd" using rows(2)[of "output ! i" "output ! i ! c"] i I by simp
      then show ?thesis using I i l p by auto
    qed
    obtain out where out: "add_column ar (t = WHT_WHT) bd ?h c (cols ! c) rows' = Inr out" "length out = length rows'"
        "\<forall>i<length rows'. out ! i = (if i < ?h then (rows' ! i)[c := max 0 (min (2 ^ bd - 1) (rows' ! i ! c + added t (cols ! c ! i)))] else rows' ! i)"
      using add_column_ok[OF ok _ _ h old, of bd t] bd by auto
    have "?I (Suc c) out"
    proof (intro conjI allI impI)
      fix i j assume i: "i < length output" and j: "j < length (output ! i)"
      have old: "rows' ! i ! j = (if i < ?h \<and> j < c then max 0 (min (2 ^ bd - 1) (output ! i ! j + added t (cols ! j ! i))) else output ! i ! j)"
        "length (rows' ! i) = length (output ! i)" using I i j by simp_all
      show "out ! i ! j = (if i < ?h \<and> j < Suc c then max 0 (min (2 ^ bd - 1) (output ! i ! j + added t (cols ! j ! i))) else output ! i ! j)"
        using out(3) i I old j by (cases "j = c") (auto simp: nth_list_update)
    qed (use out I in auto)
    then show "\<exists>s'. bindR (inverse_col ar buffer s t (max (bd + 6) 16) c) (\<lambda>temp_out. add_column ar (t = WHT_WHT) bd ?h c temp_out rows') = Inr s' \<and> ?I (Suc c) s'"
      using colc[OF c] out(1) by simp
  qed simp
  then obtain out where out: "forR (\<lambda>c output. bindR (inverse_col ar buffer s t (max (bd + 6) 16) c) (\<lambda>temp_out.
      add_column ar (t = WHT_WHT) bd ?h c temp_out output)) [0..<?w] output = Inr out" "?I ?w out" by blast
  have "\<not> length input < min ?w 32 * min ?h 32" using inp(1) by simp
  then have "inverse_transform_add ar input output s t bd = Inr out"
    using rs(1) out(1) by (simp add: inverse_transform_add_def Let_def buffer_def)
  then show ?thesis using rc cols(3) out(2) unfolding block_added_def by blast
qed

end
