(* ===== verification/Av1_FwdTxLaws.thy ===== *)
theory Av1_FwdTxLaws
  imports Av1_FwdTx Av1_InvTxLaws
begin

text \<open>
  The lossless transform: the Walsh-Hadamard transform of a block of 4 by 4 and its
  inverse give back the block, on every machine whose \<open>i32\<close> is exact in range.
\<close>

section \<open>Four numbers\<close>

lemma halves:
  fixes x0 :: int
  assumes "\<bar>x0\<bar> \<le> M" "\<bar>x1\<bar> \<le> M" "\<bar>x2\<bar> \<le> M" "\<bar>x3\<bar> \<le> M"
  shows "\<bar>(x0 + x1 - (x3 - x2)) div 2\<bar> \<le> 2 * M"
  using assms by linarith

lemma fwht4_pair:
  assumes ok: "machine_ok ar" and b: "\<bar>x0\<bar> \<le> M" "\<bar>x1\<bar> \<le> M" "\<bar>x2\<bar> \<le> M" "\<bar>x3\<bar> \<le> M" and M: "M \<le> 134217728"
  shows "\<exists>q0 q1 q2 q3. fwht4 ar [x0, x1, x2, x3] = Inr [q0, q1, q2, q3] \<and>
    (\<bar>q0\<bar> \<le> 5 * M \<and> \<bar>q1\<bar> \<le> 5 * M \<and> \<bar>q2\<bar> \<le> 5 * M \<and> \<bar>q3\<bar> \<le> 5 * M) \<and>
    (\<forall>zs rng. av1_iwht4 ideal (q0 # q1 # q2 # q3 # zs) rng = Inr [x0, x1, x2, x3])"
proof -
  define s where "s = (x0 + x1 - (x3 - x2)) div 2"
  have s: "\<bar>s\<bar> \<le> 2 * M" unfolding s_def by (rule halves[OF b])
  have ops: "i32_op ar (x0 + x1) = x0 + x1" "i32_op ar (x3 - x2) = x3 - x2" "i32_op ar (x0 + x1 - (x3 - x2)) = x0 + x1 - (x3 - x2)"
    "i32_op ar (s - x2) = s - x2" "i32_op ar (x0 + x1 - (s - x2)) = x0 + x1 - (s - x2)" "i32_op ar (s - x1) = s - x1"
    "i32_op ar (x3 - x2 + (s - x1)) = x3 - x2 + (s - x1)"
    using b s M by (intro op_lin[OF ok]; linarith)+
  let ?q0 = "x0 + x1 - (s - x2)" and ?q1 = "s - x2" and ?q2 = "x3 - x2 + (s - x1)" and ?q3 = "s - x1"
  have "fwht4 ar [x0, x1, x2, x3] = Inr [?q0, ?q1, ?q2, ?q3]"
    by (simp add: fwht4_def Let_def tx_add_def tx_sub_def sub_avg_def ops drop_bit_eq_div s_def[symmetric] del: One_nat_def)
  moreover have "\<bar>?q0\<bar> \<le> 5 * M" "\<bar>?q1\<bar> \<le> 5 * M" "\<bar>?q2\<bar> \<le> 5 * M" "\<bar>?q3\<bar> \<le> 5 * M"
    using b s by linarith+
  moreover have "av1_iwht4 ideal (?q0 # ?q1 # ?q2 # ?q3 # zs) rng = Inr [x0, x1, x2, x3]" for zs rng
  proof -
    have "?q0 + ?q1 - (?q2 - ?q3) = x0 + x1 - (x3 - x2)" by simp
    then have half: "drop_bit 1 (?q0 + ?q1 - (?q2 - ?q3)) = s" by (simp add: drop_bit_eq_div s_def)
    have e: "av1_iwht4 ideal (q0 # q1 # q2 # q3 # zs) rng =
        Inr [q0 + q1 - (drop_bit 1 (q0 + q1 - (q2 - q3)) - q3), drop_bit 1 (q0 + q1 - (q2 - q3)) - q3,
          drop_bit 1 (q0 + q1 - (q2 - q3)) - q1, q2 - q3 + (drop_bit 1 (q0 + q1 - (q2 - q3)) - q1)]" for q0 q1 q2 q3
      by (simp add: av1_iwht4_def Let_def)
    show ?thesis unfolding e half by simp
  qed
  ultimately show ?thesis by blast
qed

section \<open>A block\<close>

text \<open>The residual that the encoder transforms, stored by rows, and the samples it comes from.\<close>

definition residual_of :: "int list list \<Rightarrow> int list list \<Rightarrow> int list" where
  "residual_of src pred = concat (map2 (map2 (-)) src pred)"

definition samples_4x4 :: "nat \<Rightarrow> int list list \<Rightarrow> bool" where
  "samples_4x4 bd rows \<longleftrightarrow> length rows = 4 \<and> (\<forall>row\<in>set rows. length row = 4 \<and> (\<forall>v\<in>set row. 0 \<le> v \<and> v < 2 ^ bd))"

lemma list4: "length xs = 4 \<Longrightarrow> \<exists>a b c d. xs = [a, b, c, d]"
  by (auto simp: numeral_eq_Suc length_Suc_conv)

definition wht_cfg :: txfm_2d_flip_cfg where
  "wht_cfg = \<lparr>cfg_tx_size = TX_4X4, cfg_ud_flip = False, cfg_lr_flip = False, cfg_shift = [0, 0, 2],
     cfg_txfm_type_col = WHT4, cfg_txfm_type_row = WHT4\<rparr>"

lemma wht_cfg: "fwd_cfg WHT_WHT TX_4X4 bd = Inr wht_cfg"
  by (simp add: fwd_cfg_def wht_cfg_def get_flip_cfg_def VTX_TAB_def HTX_TAB_def all_tx_types_def AV1_TXFM_TYPE_LS_def FWD_SHIFT_4X4_WHT_def)

lemma wht_shifts [simp]:
  "av1_round_shift_array ar xs n (- (cfg_shift wht_cfg ! 0)) = xs"
  "av1_round_shift_array ar xs n (- (cfg_shift wht_cfg ! 1)) = xs"
  "av1_round_shift_array ar [a, b, c, d] 4 (- (cfg_shift wht_cfg ! 2)) =
     [i32_wrapping ar (4 * a), i32_wrapping ar (4 * b), i32_wrapping ar (4 * c), i32_wrapping ar (4 * d)]"
  by (simp_all add: av1_round_shift_array_def wht_cfg_def push_bit_eq_mult mult.commute)

lemma upt4: "[0..<4] = [0, 1, 2, 3 :: nat]"
  by (simp add: upt_rec)

lemma wht_col:
  "forward_col ar [a0, a1, a2, a3, b0, b1, b2, b3, c0, c1, c2, c3, d0, d1, d2, d3] 4 4 wht_cfg 0 = fwht4 ar [a0, b0, c0, d0]"
  "forward_col ar [a0, a1, a2, a3, b0, b1, b2, b3, c0, c1, c2, c3, d0, d1, d2, d3] 4 4 wht_cfg 1 = fwht4 ar [a1, b1, c1, d1]"
  "forward_col ar [a0, a1, a2, a3, b0, b1, b2, b3, c0, c1, c2, c3, d0, d1, d2, d3] 4 4 wht_cfg 2 = fwht4 ar [a2, b2, c2, d2]"
  "forward_col ar [a0, a1, a2, a3, b0, b1, b2, b3, c0, c1, c2, c3, d0, d1, d2, d3] 4 4 wht_cfg 3 = fwht4 ar [a3, b3, c3, d3]"
  by (simp_all add: forward_col_def upt4 wht_shifts[simplified]) (simp_all add: wht_cfg_def)

lemma wht_write:
  "write_row wide 4 4 0 [a, b, c, d] [p0, p1, p2, p3, p4, p5, p6, p7, p8, p9, p10, p11, p12, p13, p14, p15] =
     Inr [cast_from wide a, p1, p2, p3, cast_from wide b, p5, p6, p7, cast_from wide c, p9, p10, p11, cast_from wide d, p13, p14, p15]"
  "write_row wide 4 4 1 [a, b, c, d] [p0, p1, p2, p3, p4, p5, p6, p7, p8, p9, p10, p11, p12, p13, p14, p15] =
     Inr [p0, cast_from wide a, p2, p3, p4, cast_from wide b, p6, p7, p8, cast_from wide c, p10, p11, p12, cast_from wide d, p14, p15]"
  "write_row wide 4 4 2 [a, b, c, d] [p0, p1, p2, p3, p4, p5, p6, p7, p8, p9, p10, p11, p12, p13, p14, p15] =
     Inr [p0, p1, cast_from wide a, p3, p4, p5, cast_from wide b, p7, p8, p9, cast_from wide c, p11, p12, p13, cast_from wide d, p15]"
  "write_row wide 4 4 3 [a, b, c, d] [p0, p1, p2, p3, p4, p5, p6, p7, p8, p9, p10, p11, p12, p13, p14, p15] =
     Inr [p0, p1, p2, cast_from wide a, p4, p5, p6, cast_from wide b, p8, p9, p10, cast_from wide c, p12, p13, p14, cast_from wide d]"
  by (simp_all add: write_row_def Let_def upt4)

lemma list16: "length xs = 16 \<Longrightarrow> \<exists>p0 p1 p2 p3 p4 p5 p6 p7 p8 p9 p10 p11 p12 p13 p14 p15. xs = [p0, p1, p2, p3, p4, p5, p6, p7, p8, p9, p10, p11, p12, p13, p14, p15]"
  by (auto simp: numeral_eq_Suc length_Suc_conv)

text \<open>The coefficients of a block from those of its rows.\<close>

lemma wht_forward:
  assumes cols: "fwht4 ar [a0, b0, c0, d0] = Inr [s0, t0, u0, v0]" "fwht4 ar [a1, b1, c1, d1] = Inr [s1, t1, u1, v1]"
      "fwht4 ar [a2, b2, c2, d2] = Inr [s2, t2, u2, v2]" "fwht4 ar [a3, b3, c3, d3] = Inr [s3, t3, u3, v3]"
    and rows: "fwht4 ar [s0, s1, s2, s3] = Inr [x0, x1, x2, x3]" "fwht4 ar [t0, t1, t2, t3] = Inr [y0, y1, y2, y3]"
      "fwht4 ar [u0, u1, u2, u3] = Inr [z0, z1, z2, z3]" "fwht4 ar [v0, v1, v2, v3] = Inr [w0, w1, w2, w3]"
    and out: "length output = 16"
  shows "forward_transform ar wide [a0, a1, a2, a3, b0, b1, b2, b3, c0, c1, c2, c3, d0, d1, d2, d3] output 4 TX_4X4 WHT_WHT bd =
    Inr (map (\<lambda>v. cast_from wide (i32_wrapping ar (4 * v))) [x0, y0, z0, w0, x1, y1, z1, w1, x2, y2, z2, w2, x3, y3, z3, w3])"
proof -
  obtain p0 p1 p2 p3 p4 p5 p6 p7 p8 p9 p10 p11 p12 p13 p14 p15 where p: "output = [p0, p1, p2, p3, p4, p5, p6, p7, p8, p9, p10, p11, p12, p13, p14, p15]" using list16[OF out] by blast
  have valid: "valid_av1_transform TX_4X4 WHT_WHT" by (simp add: valid_av1_transform_def)
  have dims: "tx_width TX_4X4 = 4" "tx_height TX_4X4 = 4" by (simp_all add: tx_width_def tx_height_def)
  have func: "get_func (cfg_txfm_type_row wht_cfg) = fwht4" "\<not> cfg_lr_flip wht_cfg" by (simp_all add: wht_cfg_def)
  show ?thesis
    by (simp add: forward_transform_def valid dims wht_cfg Let_def upt4 wht_col[simplified] cols func p rows wht_write[simplified])
qed

text \<open>The residual from the coefficients.\<close>

lemma clamp_bits:
  assumes "\<bar>v\<bar> \<le> k * 2 ^ bd" "k * 2 ^ bd < 2 ^ (n - 1)"
  shows "clamp_value ideal v n = v"
  using assms by (intro clamp_value_id) linarith+

lemma wht_inverse:
  assumes rows: "\<And>zs rng. av1_iwht4 ideal (x0 # x1 # x2 # x3 # zs) rng = Inr [s0, s1, s2, s3]"
      "\<And>zs rng. av1_iwht4 ideal (y0 # y1 # y2 # y3 # zs) rng = Inr [t0, t1, t2, t3]"
      "\<And>zs rng. av1_iwht4 ideal (z0 # z1 # z2 # z3 # zs) rng = Inr [u0, u1, u2, u3]"
      "\<And>zs rng. av1_iwht4 ideal (w0 # w1 # w2 # w3 # zs) rng = Inr [v0, v1, v2, v3]"
    and cols: "\<And>zs rng. av1_iwht4 ideal (s0 # t0 # u0 # v0 # zs) rng = Inr [a0, b0, c0, d0]"
      "\<And>zs rng. av1_iwht4 ideal (s1 # t1 # u1 # v1 # zs) rng = Inr [a1, b1, c1, d1]"
      "\<And>zs rng. av1_iwht4 ideal (s2 # t2 # u2 # v2 # zs) rng = Inr [a2, b2, c2, d2]"
      "\<And>zs rng. av1_iwht4 ideal (s3 # t3 # u3 # v3 # zs) rng = Inr [a3, b3, c3, d3]"
    and big: "\<And>v. v \<in> {x0, y0, z0, w0, x1, y1, z1, w1, x2, y2, z2, w2, x3, y3, z3, w3} \<Longrightarrow> \<bar>v\<bar> \<le> 25 * 2 ^ bd"
    and mid: "\<And>v. v \<in> {s0, s1, s2, s3, t0, t1, t2, t3, u0, u1, u2, u3, v0, v1, v2, v3} \<Longrightarrow> \<bar>v\<bar> \<le> 5 * 2 ^ bd"
  shows "residual_cols ideal [4 * x0, 4 * y0, 4 * z0, 4 * w0, 4 * x1, 4 * y1, 4 * z1, 4 * w1, 4 * x2, 4 * y2, 4 * z2, 4 * w2, 4 * x3, 4 * y3, 4 * z3, 4 * w3] TX_4X4 WHT_WHT bd =
    Inr [[a0, b0, c0, d0], [a1, b1, c1, d1], [a2, b2, c2, d2], [a3, b3, c3, d3]]"
proof -
  have dims: "tx_width TX_4X4 = 4" "tx_height TX_4X4 = 4" "rect_ratio_log2 TX_4X4 = 0" by (simp_all add: tx_width_def tx_height_def rect_ratio_log2_def)
  have fn: "INV_TXFM_FNS ! type_1d_index (snd (get_1d_tx_types WHT_WHT)) ! (width_log2 TX_4X4 - 2) = av1_iwht4"
    "INV_TXFM_FNS ! type_1d_index (fst (get_1d_tx_types WHT_WHT)) ! (height_log2 TX_4X4 - 2) = av1_iwht4"
    "INV_INTERMEDIATE_SHIFTS ! index_of all_tx_sizes TX_4X4 = 0"
    by (simp_all add: INV_TXFM_FNS_def INV_INTERMEDIATE_SHIFTS_def all_tx_sizes_def)
  have "25 * 2 ^ bd < (2 :: int) ^ (bd + 8 - 1)" by (simp add: power_add)
  then have c: "clamp_value ideal v (bd + 8) = v" if "v \<in> {x0, y0, z0, w0, x1, y1, z1, w1, x2, y2, z2, w2, x3, y3, z3, w3}" for v
    using clamp_bits[OF big[OF that]] by blast
  have "5 * 2 ^ bd < (2 :: int) ^ (bd + 5)" by (simp add: power_add)
  also have "\<dots> \<le> 2 ^ (max (bd + 6) 16 - 1)" by (rule power_increasing) simp_all
  finally have e: "clamp_value ideal v (max (bd + 6) 16) = v" if "v \<in> {s0, s1, s2, s3, t0, t1, t2, t3, u0, u1, u2, u3, v0, v1, v2, v3}" for v
    using clamp_bits[OF mid[OF that]] by blast
  have q: "drop_bit 2 (4 * v) = v" for v :: int by (simp add: drop_bit_eq_div)
  let ?in = "[4 * x0, 4 * y0, 4 * z0, 4 * w0, 4 * x1, 4 * y1, 4 * z1, 4 * w1, 4 * x2, 4 * y2, 4 * z2, 4 * w2, 4 * x3, 4 * y3, 4 * z3, 4 * w3]"
  have row: "inverse_row ideal ?in TX_4X4 WHT_WHT (bd + 8) 0 = Inr [s0, s1, s2, s3]"
    "inverse_row ideal ?in TX_4X4 WHT_WHT (bd + 8) 1 = Inr [t0, t1, t2, t3]"
    "inverse_row ideal ?in TX_4X4 WHT_WHT (bd + 8) 2 = Inr [u0, u1, u2, u3]"
    "inverse_row ideal ?in TX_4X4 WHT_WHT (bd + 8) 3 = Inr [v0, v1, v2, v3]"
    by (simp_all only: inverse_row_def Let_def fn) (simp_all add: dims upt4 temp64_def q c rows)
  let ?buf = "[[s0, s1, s2, s3], [t0, t1, t2, t3], [u0, u1, u2, u3], [v0, v1, v2, v3]]"
  have col: "inverse_col ideal ?buf TX_4X4 WHT_WHT (max (bd + 6) 16) 0 = Inr [a0, b0, c0, d0]"
    "inverse_col ideal ?buf TX_4X4 WHT_WHT (max (bd + 6) 16) 1 = Inr [a1, b1, c1, d1]"
    "inverse_col ideal ?buf TX_4X4 WHT_WHT (max (bd + 6) 16) 2 = Inr [a2, b2, c2, d2]"
    "inverse_col ideal ?buf TX_4X4 WHT_WHT (max (bd + 6) 16) 3 = Inr [a3, b3, c3, d3]"
    by (simp_all only: inverse_col_def Let_def fn) (simp_all add: temp64_def e cols)
  show ?thesis
    by (simp add: residual_cols_def residual_rows_def dims upt4 row[simplified] col[simplified])
qed

section \<open>Forward and back\<close>

lemma small_sample:
  assumes "samples_4x4 bd src" "i < 4" "j < 4"
  shows "0 \<le> src ! i ! j \<and> src ! i ! j < 2 ^ bd"
proof -
  have "src ! i \<in> set src" using assms by (simp add: samples_4x4_def)
  moreover from this have "src ! i ! j \<in> set (src ! i)" using assms by (simp add: samples_4x4_def)
  ultimately show ?thesis using assms(1) by (auto simp: samples_4x4_def)
qed

lemma samples_lists:
  assumes "samples_4x4 bd src"
  shows "src = map (\<lambda>i. map (\<lambda>j. src ! i ! j) [0..<4]) [0..<4]"
proof (rule nth_equalityI)
  show "length src = length (map (\<lambda>i. map (\<lambda>j. src ! i ! j) [0..<4]) [0..<4])" using assms by (simp add: samples_4x4_def)
  fix i assume "i < length src"
  then show "src ! i = map (\<lambda>i. map (\<lambda>j. src ! i ! j) [0..<4]) [0..<4] ! i"
    using assms by (intro nth_equalityI) (simp_all add: samples_4x4_def)
qed

lemma cast_small: "wide \<or> bd = 8 \<Longrightarrow> \<bar>v\<bar> \<le> 100 * 2 ^ bd \<Longrightarrow> cast_from wide v = v"
  by (auto simp: cast_from_def)

lemma wht_lossless:
  assumes ok: "machine_ok ar" and bd: "8 \<le> bd" "bd \<le> 10" and wide: "wide \<or> bd = 8"
    and src: "samples_4x4 bd src" and pred: "samples_4x4 bd pred" and out: "length output = 16"
  shows "\<exists>coeffs. forward_transform ar wide (residual_of src pred) output 4 TX_4X4 WHT_WHT bd = Inr coeffs \<and>
    inverse_transform_add ar coeffs pred TX_4X4 WHT_WHT bd = Inr src"
proof -
  define d where "d i j = src ! i ! j - pred ! i ! j" for i j
  define M :: int where "M = 2 ^ bd"
  have M: "M \<le> 1024" "0 \<le> M" using power_increasing[of bd 10 "2 :: int"] bd by (simp_all add: M_def)
  have d: "\<bar>d i j\<bar> \<le> M" if "i < 4" "j < 4" for i j
    using small_sample[OF src that] small_sample[OF pred that] unfolding d_def M_def by linarith
  have M': "M \<le> 134217728" "5 * M \<le> 134217728" using M by simp_all
  have col: "\<exists>q0 q1 q2 q3. fwht4 ar [d 0 c, d 1 c, d 2 c, d 3 c] = Inr [q0, q1, q2, q3] \<and>
      (\<bar>q0\<bar> \<le> 5 * M \<and> \<bar>q1\<bar> \<le> 5 * M \<and> \<bar>q2\<bar> \<le> 5 * M \<and> \<bar>q3\<bar> \<le> 5 * M) \<and>
      (\<forall>zs rng. av1_iwht4 ideal (q0 # q1 # q2 # q3 # zs) rng = Inr [d 0 c, d 1 c, d 2 c, d 3 c])" if "c < 4" for c
    by (rule fwht4_pair[OF ok]) (simp_all add: d that M'(1))
  obtain s0 t0 u0 v0 where c0: "fwht4 ar [d 0 0, d 1 0, d 2 0, d 3 0] = Inr [s0, t0, u0, v0]"
      "\<bar>s0\<bar> \<le> 5 * M" "\<bar>t0\<bar> \<le> 5 * M" "\<bar>u0\<bar> \<le> 5 * M" "\<bar>v0\<bar> \<le> 5 * M"
      "\<And>zs rng. av1_iwht4 ideal (s0 # t0 # u0 # v0 # zs) rng = Inr [d 0 0, d 1 0, d 2 0, d 3 0]"
    using col[of 0] by auto
  obtain s1 t1 u1 v1 where c1: "fwht4 ar [d 0 1, d 1 1, d 2 1, d 3 1] = Inr [s1, t1, u1, v1]"
      "\<bar>s1\<bar> \<le> 5 * M" "\<bar>t1\<bar> \<le> 5 * M" "\<bar>u1\<bar> \<le> 5 * M" "\<bar>v1\<bar> \<le> 5 * M"
      "\<And>zs rng. av1_iwht4 ideal (s1 # t1 # u1 # v1 # zs) rng = Inr [d 0 1, d 1 1, d 2 1, d 3 1]"
    using col[of 1] by auto
  obtain s2 t2 u2 v2 where c2: "fwht4 ar [d 0 2, d 1 2, d 2 2, d 3 2] = Inr [s2, t2, u2, v2]"
      "\<bar>s2\<bar> \<le> 5 * M" "\<bar>t2\<bar> \<le> 5 * M" "\<bar>u2\<bar> \<le> 5 * M" "\<bar>v2\<bar> \<le> 5 * M"
      "\<And>zs rng. av1_iwht4 ideal (s2 # t2 # u2 # v2 # zs) rng = Inr [d 0 2, d 1 2, d 2 2, d 3 2]"
    using col[of 2] by auto
  obtain s3 t3 u3 v3 where c3: "fwht4 ar [d 0 3, d 1 3, d 2 3, d 3 3] = Inr [s3, t3, u3, v3]"
      "\<bar>s3\<bar> \<le> 5 * M" "\<bar>t3\<bar> \<le> 5 * M" "\<bar>u3\<bar> \<le> 5 * M" "\<bar>v3\<bar> \<le> 5 * M"
      "\<And>zs rng. av1_iwht4 ideal (s3 # t3 # u3 # v3 # zs) rng = Inr [d 0 3, d 1 3, d 2 3, d 3 3]"
    using col[of 3] by auto
  obtain x0 x1 x2 x3 where rx: "fwht4 ar [s0, s1, s2, s3] = Inr [x0, x1, x2, x3]"
      "\<bar>x0\<bar> \<le> 5 * (5 * M)" "\<bar>x1\<bar> \<le> 5 * (5 * M)" "\<bar>x2\<bar> \<le> 5 * (5 * M)" "\<bar>x3\<bar> \<le> 5 * (5 * M)"
      "\<And>zs rng. av1_iwht4 ideal (x0 # x1 # x2 # x3 # zs) rng = Inr [s0, s1, s2, s3]"
    using fwht4_pair[OF ok c0(2) c1(2) c2(2) c3(2) M'(2)] by auto
  obtain y0 y1 y2 y3 where ry: "fwht4 ar [t0, t1, t2, t3] = Inr [y0, y1, y2, y3]"
      "\<bar>y0\<bar> \<le> 5 * (5 * M)" "\<bar>y1\<bar> \<le> 5 * (5 * M)" "\<bar>y2\<bar> \<le> 5 * (5 * M)" "\<bar>y3\<bar> \<le> 5 * (5 * M)"
      "\<And>zs rng. av1_iwht4 ideal (y0 # y1 # y2 # y3 # zs) rng = Inr [t0, t1, t2, t3]"
    using fwht4_pair[OF ok c0(3) c1(3) c2(3) c3(3) M'(2)] by auto
  obtain z0 z1 z2 z3 where rz: "fwht4 ar [u0, u1, u2, u3] = Inr [z0, z1, z2, z3]"
      "\<bar>z0\<bar> \<le> 5 * (5 * M)" "\<bar>z1\<bar> \<le> 5 * (5 * M)" "\<bar>z2\<bar> \<le> 5 * (5 * M)" "\<bar>z3\<bar> \<le> 5 * (5 * M)"
      "\<And>zs rng. av1_iwht4 ideal (z0 # z1 # z2 # z3 # zs) rng = Inr [u0, u1, u2, u3]"
    using fwht4_pair[OF ok c0(4) c1(4) c2(4) c3(4) M'(2)] by auto
  obtain w0 w1 w2 w3 where rw: "fwht4 ar [v0, v1, v2, v3] = Inr [w0, w1, w2, w3]"
      "\<bar>w0\<bar> \<le> 5 * (5 * M)" "\<bar>w1\<bar> \<le> 5 * (5 * M)" "\<bar>w2\<bar> \<le> 5 * (5 * M)" "\<bar>w3\<bar> \<le> 5 * (5 * M)"
      "\<And>zs rng. av1_iwht4 ideal (w0 # w1 # w2 # w3 # zs) rng = Inr [v0, v1, v2, v3]"
    using fwht4_pair[OF ok c0(5) c1(5) c2(5) c3(5) M'(2)] by auto
  have res: "residual_of src pred = [d 0 0, d 0 1, d 0 2, d 0 3, d 1 0, d 1 1, d 1 2, d 1 3, d 2 0, d 2 1, d 2 2, d 2 3, d 3 0, d 3 1, d 3 2, d 3 3]"
    by (subst samples_lists[OF src], subst samples_lists[OF pred]) (simp add: residual_of_def upt4 d_def)
  have big: "\<bar>v\<bar> \<le> 25 * M" if "v \<in> {x0, y0, z0, w0, x1, y1, z1, w1, x2, y2, z2, w2, x3, y3, z3, w3}" for v
    using that rx(2-5) ry(2-5) rz(2-5) rw(2-5) by auto
  have mid: "\<bar>v\<bar> \<le> 5 * M" if "v \<in> {s0, s1, s2, s3, t0, t1, t2, t3, u0, u1, u2, u3, v0, v1, v2, v3}" for v
    using that c0(2-5) c1(2-5) c2(2-5) c3(2-5) by auto
  let ?coeffs = "[4 * x0, 4 * y0, 4 * z0, 4 * w0, 4 * x1, 4 * y1, 4 * z1, 4 * w1, 4 * x2, 4 * y2, 4 * z2, 4 * w2, 4 * x3, 4 * y3, 4 * z3, 4 * w3]"
  have cast: "cast_from wide (i32_wrapping ar (4 * v)) = 4 * v" if "v \<in> {x0, y0, z0, w0, x1, y1, z1, w1, x2, y2, z2, w2, x3, y3, z3, w3}" for v
    using big[OF that] M wrapping_id[OF ok, of "4 * v"] cast_small[OF wide, of "4 * v"] by (simp add: M_def)
  have fwd: "forward_transform ar wide (residual_of src pred) output 4 TX_4X4 WHT_WHT bd = Inr ?coeffs"
    unfolding res wht_forward[OF c0(1) c1(1) c2(1) c3(1) rx(1) ry(1) rz(1) rw(1) out] by (simp add: cast)
  have dims: "tx_width TX_4X4 = 4" "tx_height TX_4X4 = 4" by (simp_all add: tx_width_def tx_height_def)
  have inv: "residual_cols ideal ?coeffs TX_4X4 WHT_WHT bd =
      Inr [[d 0 0, d 1 0, d 2 0, d 3 0], [d 0 1, d 1 1, d 2 1, d 3 1], [d 0 2, d 1 2, d 2 2, d 3 2], [d 0 3, d 1 3, d 2 3, d 3 3]]"
    by (rule wht_inverse[OF rx(6) ry(6) rz(6) rw(6) c0(6) c1(6) c2(6) c3(6) big[unfolded M_def] mid[unfolded M_def]])
  have "\<bar>v\<bar> \<le> 524288" if "v \<in> set ?coeffs" for v
  proof -
    have "v \<in> (\<lambda>u. 4 * u) ` {x0, y0, z0, w0, x1, y1, z1, w1, x2, y2, z2, w2, x3, y3, z3, w3}" using that by simp
    then obtain u where "v = 4 * u" "u \<in> {x0, y0, z0, w0, x1, y1, z1, w1, x2, y2, z2, w2, x3, y3, z3, w3}" by blast
    then show ?thesis using big[of u] M by linarith
  qed
  moreover have "valid_av1_transform TX_4X4 WHT_WHT" by (simp add: valid_av1_transform_def)
  moreover have "tx_width TX_4X4 \<le> length (pred ! i)" if "i < length pred" for i
    using pred that by (simp add: samples_4x4_def dims)
  moreover have "0 \<le> v \<and> v < 2 ^ bd" if "row \<in> set pred" "v \<in> set row" for row v
    using pred that by (auto simp: samples_4x4_def)
  ultimately obtain cols rows where rec: "residual_cols ideal ?coeffs TX_4X4 WHT_WHT bd = Inr cols"
      "inverse_transform_add ar ?coeffs pred TX_4X4 WHT_WHT bd = Inr rows" "block_added TX_4X4 WHT_WHT bd cols pred rows"
    using inverse_transform_add_ok[OF ok bd, of TX_4X4 WHT_WHT ?coeffs pred] by (auto simp: dims)
  have cs: "cols = [[d 0 0, d 1 0, d 2 0, d 3 0], [d 0 1, d 1 1, d 2 1, d 3 1], [d 0 2, d 1 2, d 2 2, d 3 2], [d 0 3, d 1 3, d 2 3, d 3 3]]"
    using rec(1) unfolding inv by simp
  have cols: "cols ! j ! i = d i j" if "i < 4" "j < 4" for i j
  proof -
    have "i \<in> {0, 1, 2, 3}" "j \<in> {0, 1, 2, 3}" using that by auto
    then show ?thesis unfolding cs by auto
  qed
  have len: "length src = 4" "length pred = 4" "i < 4 \<Longrightarrow> length (src ! i) = 4" "i < 4 \<Longrightarrow> length (pred ! i) = 4" for i
    using src pred by (simp_all add: samples_4x4_def)
  have shape: "length rows = 4" "i < 4 \<Longrightarrow> length (rows ! i) = 4" for i using rec(3) len by (simp_all add: block_added_def)
  have "rows ! i ! j = src ! i ! j" if "i < 4" "j < 4" for i j
    using rec(3) that small_sample[OF src that] by (simp add: block_added_def len dims added_def cols d_def)
  then have "rows = src" using shape len by (intro nth_equalityI) simp_all
  then show ?thesis using fwd rec(2) by blast
qed

end
