(* ===== verification/Av1_FlatTx.thy ===== *)
theory Av1_FlatTx
  imports Av1_FwdTxLaws
begin

text \<open>
  The cosine transforms of flat blocks. A flat residual has one coefficient, and that
  coefficient restores it exactly, in every transform size.
\<close>

section \<open>Butterflies of equal numbers and of zeros\<close>

lemma op_zero: "machine_ok ar \<Longrightarrow> i32_op ar 0 = 0"
  by (rule op_id) simp_all

lemma tx_zero:
  assumes "machine_ok ar"
  shows "tx_add ar 0 0 = 0" "tx_sub ar 0 0 = 0" "add_avg ar 0 0 = 0" "sub_avg ar 0 0 = 0" "rshift1 ar 0 = 0"
    "tx_sub ar x x = 0" "sub_avg ar x x = 0"
  by (simp_all add: tx_add_def tx_sub_def add_avg_def sub_avg_def rshift1_def op_zero[OF assms])

lemma tx_mul_zero:
  assumes "machine_ok ar" "n \<le> 20"
  shows "tx_mul ar n 0 m = 0"
proof -
  have p: "push_bit n (1 :: int) \<le> 2 ^ 20" "0 \<le> push_bit n (1 :: int)"
    using power_increasing[OF assms(2), of "2 :: int"] by (simp_all add: push_bit_eq_mult)
  have "drop_bit n (drop_bit 1 (push_bit n 1)) = (0 :: int)"
    by (simp add: drop_bit_eq_div push_bit_eq_mult zdiv_zmult2_eq[symmetric] flip: power_Suc)
  moreover have "i32_op ar (drop_bit 1 (push_bit n 1)) = drop_bit 1 (push_bit n 1)"
    using p by (intro op_id[OF assms(1)]) (simp add: drop_bit_eq_div)
  ultimately show ?thesis by (simp add: tx_mul_def op_zero[OF assms(1)])
qed

lemma butterfly_zero:
  assumes "machine_ok ar"
  shows "butterfly_add ar 0 0 = ((0, 0), 0)" "butterfly_sub ar 0 0 = ((0, 0), 0)" "butterfly_neg ar 0 0 = (0, (0, 0))"
    "butterfly_add_asym ar (0, 0) 0 = (0, 0)" "butterfly_sub_asym ar (0, 0) 0 = (0, 0)" "butterfly_neg_asym ar 0 (0, 0) = (0, 0)"
  by (simp_all add: butterfly_add_def butterfly_sub_def butterfly_neg_def butterfly_add_asym_def butterfly_sub_asym_def
    butterfly_neg_asym_def tx_zero[OF assms] Let_def)

lemmas rotations = RotatePi4Add_def RotatePi4AddAvg_def RotatePi4Sub_def RotatePi4SubAvg_def RotateAdd_def RotateAddAvg_def
  RotateAddShift_def RotateSub_def RotateSubAvg_def RotateSubShift_def RotateNeg_def RotateNegAvg_def

definition zero_rotation :: "rotation \<Rightarrow> bool" where
  "zero_rotation K \<longleftrightarrow> rot_ADD K 0 0 = 0 \<and> rot_SUB K 0 0 = 0 \<and> rot_SHIFT K 0 = 0"

lemma zero_rotations:
  assumes "machine_ok ar"
  shows "zero_rotation (RotatePi4Add ar)" "zero_rotation (RotatePi4AddAvg ar)" "zero_rotation (RotatePi4Sub ar)"
    "zero_rotation (RotatePi4SubAvg ar)" "zero_rotation (RotateAdd ar)" "zero_rotation (RotateAddAvg ar)" "zero_rotation (RotateAddShift ar)"
    "zero_rotation (RotateSub ar)" "zero_rotation (RotateSubAvg ar)" "zero_rotation (RotateSubShift ar)"
    "RotateNeg ar 0 0 = 0" "RotateNegAvg ar 0 0 = 0"
  by (simp_all add: zero_rotation_def rotations tx_zero[OF assms])

lemma kernel_zero:
  assumes "machine_ok ar"
  shows "s0 \<le> 20 \<Longrightarrow> s1 \<le> 20 \<Longrightarrow> zero_rotation K \<Longrightarrow> pi4_kernel ar K s0 s1 0 0 m0 m1 = (0, 0)"
    "s0 \<le> 20 \<Longrightarrow> s1 \<le> 20 \<Longrightarrow> s2 \<le> 20 \<Longrightarrow> zero_rotation K \<Longrightarrow> half_kernel ar K s0 s1 s2 (0, 0) 0 m0 m1 m2 = (0, 0)"
    "s0 \<le> 20 \<Longrightarrow> s1 \<le> 20 \<Longrightarrow> s2 \<le> 20 \<Longrightarrow> zero_rotation K \<Longrightarrow> kernel ar K s0 s1 s2 0 0 m0 m1 m2 = (0, 0)"
    "s0 \<le> 20 \<Longrightarrow> s1 \<le> 20 \<Longrightarrow> s2 \<le> 20 \<Longrightarrow> A 0 0 = 0 \<Longrightarrow> neg_kernel ar A s0 s1 s2 0 0 m0 m1 m2 = (0, 0)"
  using assms by (simp_all add: pi4_kernel_def half_kernel_def kernel_def neg_kernel_def zero_rotation_def tx_mul_zero tx_zero Let_def)

lemma op_big: "machine_ok ar \<Longrightarrow> \<bar>x\<bar> \<le> 2147483647 \<Longrightarrow> i32_op ar x = x"
  by (rule op_id) simp_all

lemma butterfly_flat:
  assumes "machine_ok ar" "\<bar>x\<bar> \<le> 1000000"
  shows "butterfly_neg ar x x = (x, (0, 0))" "butterfly_add ar x x = ((x, 2 * x), 0)"
    "butterfly_neg_asym ar x (x, 2 * x) = (2 * x, 0)" "butterfly_sub_asym ar (x, 2 * x) x = (2 * x, 0)"
proof -
  have op: "i32_op ar x = x" "i32_op ar (2 * x) = 2 * x" "i32_op ar (1 + 2 * x) = 1 + 2 * x" "i32_op ar (x + x) = 2 * x"
    using assms(2) by (subst op_big[OF assms(1)]; simp)+
  have half: "rshift1 ar (2 * x) = x"
    using op by (auto simp: rshift1_def drop_bit_eq_div add.commute)
  show "butterfly_neg ar x x = (x, (0, 0))" "butterfly_add ar x x = ((x, 2 * x), 0)"
    "butterfly_neg_asym ar x (x, 2 * x) = (2 * x, 0)" "butterfly_sub_asym ar (x, 2 * x) x = (2 * x, 0)"
    by (simp_all add: butterfly_neg_def butterfly_add_def butterfly_neg_asym_def butterfly_sub_asym_def Let_def tx_zero[OF assms(1)] half)
      (simp_all add: tx_add_def tx_sub_def op op_zero[OF assms(1)] half)
qed

section \<open>Sine transforms of zeros\<close>

text \<open>The odd half of a flat block's cosine transform is a sine transform of zeros.\<close>

lemma fdst_iv_2_asym_zero:
  assumes "machine_ok ar"
  shows "daala_fdst_iv_2_asym ar (0, 0) 0 = (0, 0)"
  unfolding daala_fdst_iv_2_asym_def
  by (simp add: kernel_zero[OF assms] zero_rotations[OF assms] butterfly_zero[OF assms] tx_zero[OF assms]  cong: let_weak_cong)

lemma fdst_iv_2_zero:
  assumes "machine_ok ar"
  shows "daala_fdst_iv_2 ar 0 0 = (0, 0)"
  unfolding daala_fdst_iv_2_def
  by (simp add: kernel_zero[OF assms] zero_rotations[OF assms] butterfly_zero[OF assms] tx_zero[OF assms] fdst_iv_2_asym_zero[OF assms] cong: let_weak_cong)

lemma fdst_iv_4_asym_zero:
  assumes "machine_ok ar"
  shows "daala_fdst_iv_4_asym ar (0, 0) 0 (0, 0) 0 = [0, 0, 0, 0]"
  unfolding daala_fdst_iv_4_asym_def
  by (simp add: kernel_zero[OF assms] zero_rotations[OF assms] butterfly_zero[OF assms] tx_zero[OF assms] fdst_iv_2_asym_zero[OF assms] fdst_iv_2_zero[OF assms] cong: let_weak_cong)

lemma fdst_iv_4_zero:
  assumes "machine_ok ar"
  shows "daala_fdst_iv_4 ar 0 0 0 0 = [0, 0, 0, 0]"
  unfolding daala_fdst_iv_4_def
  by (simp add: kernel_zero[OF assms] zero_rotations[OF assms] butterfly_zero[OF assms] tx_zero[OF assms] fdst_iv_2_asym_zero[OF assms] fdst_iv_2_zero[OF assms] fdst_iv_4_asym_zero[OF assms] cong: let_weak_cong)

lemma fdst_iv_8_zero:
  assumes "machine_ok ar"
  shows "daala_fdst_iv_8 ar 0 0 0 0 0 0 0 0 = [0, 0, 0, 0, 0, 0, 0, 0]"
  unfolding daala_fdst_iv_8_def
  by (simp add: kernel_zero[OF assms] zero_rotations[OF assms] butterfly_zero[OF assms] tx_zero[OF assms] fdst_iv_2_asym_zero[OF assms] fdst_iv_2_zero[OF assms] fdst_iv_4_asym_zero[OF assms] fdst_iv_4_zero[OF assms] cong: let_weak_cong)

lemma fdst_iv_8_asym_zero:
  assumes "machine_ok ar"
  shows "daala_fdst_iv_8_asym ar (0, 0) 0 (0, 0) 0 (0, 0) 0 (0, 0) 0 = [0, 0, 0, 0, 0, 0, 0, 0]"
  unfolding daala_fdst_iv_8_asym_def
  by (simp add: kernel_zero[OF assms] zero_rotations[OF assms] butterfly_zero[OF assms] tx_zero[OF assms] fdst_iv_2_asym_zero[OF assms] fdst_iv_2_zero[OF assms] fdst_iv_4_asym_zero[OF assms] fdst_iv_4_zero[OF assms] fdst_iv_8_zero[OF assms] cong: let_weak_cong)

lemma fdst_iv_16_zero:
  assumes "machine_ok ar"
  shows "daala_fdst_iv_16 ar 0 0 0 0 0 0 0 0 0 0 0 0 0 0 0 0 = [0, 0, 0, 0, 0, 0, 0, 0, 0, 0, 0, 0, 0, 0, 0, 0]"
  unfolding daala_fdst_iv_16_def
  by (simp add: kernel_zero[OF assms] zero_rotations[OF assms] butterfly_zero[OF assms] tx_zero[OF assms] fdst_iv_2_asym_zero[OF assms] fdst_iv_2_zero[OF assms] fdst_iv_4_asym_zero[OF assms] fdst_iv_4_zero[OF assms] fdst_iv_8_zero[OF assms] fdst_iv_8_asym_zero[OF assms] cong: let_weak_cong)

lemma fdst_iv_16_asym_zero:
  assumes "machine_ok ar"
  shows "daala_fdst_iv_16_asym ar (0, 0) 0 (0, 0) 0 (0, 0) 0 (0, 0) 0 (0, 0) 0 (0, 0) 0 (0, 0) 0 (0, 0) 0 = [0, 0, 0, 0, 0, 0, 0, 0, 0, 0, 0, 0, 0, 0, 0, 0]"
  unfolding daala_fdst_iv_16_asym_def
  by (simp add: kernel_zero[OF assms] zero_rotations[OF assms] butterfly_zero[OF assms] tx_zero[OF assms] fdst_iv_2_asym_zero[OF assms] fdst_iv_2_zero[OF assms] fdst_iv_4_asym_zero[OF assms] fdst_iv_4_zero[OF assms] fdst_iv_8_zero[OF assms] fdst_iv_8_asym_zero[OF assms] fdst_iv_16_zero[OF assms] cong: let_weak_cong)

lemma fdst_iv_32_asym_zero:
  assumes "machine_ok ar"
  shows "daala_fdst_iv_32_asym ar (0, 0) 0 (0, 0) 0 (0, 0) 0 (0, 0) 0 (0, 0) 0 (0, 0) 0 (0, 0) 0 (0, 0) 0 (0, 0) 0 (0, 0) 0 (0, 0) 0 (0, 0) 0 (0, 0) 0 (0, 0) 0 (0, 0) 0 (0, 0) 0 = [0, 0, 0, 0, 0, 0, 0, 0, 0, 0, 0, 0, 0, 0, 0, 0, 0, 0, 0, 0, 0, 0, 0, 0, 0, 0, 0, 0, 0, 0, 0, 0]"
  unfolding daala_fdst_iv_32_asym_def
  by (simp add: kernel_zero[OF assms] zero_rotations[OF assms] butterfly_zero[OF assms] tx_zero[OF assms] fdst_iv_2_asym_zero[OF assms] fdst_iv_2_zero[OF assms] fdst_iv_4_asym_zero[OF assms] fdst_iv_4_zero[OF assms] fdst_iv_8_zero[OF assms] fdst_iv_8_asym_zero[OF assms] fdst_iv_16_zero[OF assms] cong: let_weak_cong)

section \<open>Cosine transforms of equal numbers\<close>

definition dc_mul :: "int \<Rightarrow> int" where
  "dc_mul x = (x * 11585 + 4096) div 8192"

lemma dct_pair:
  assumes "machine_ok ar" "\<bar>x\<bar> \<le> 150000"
  shows "daala_fdct_ii_2 ar x x = (dc_mul x, 0)"
proof -
  have "\<bar>x * 11585\<bar> \<le> 1737750000" using mult_right_mono[OF assms(2), of 11585] by (simp add: abs_mult)
  then have "i32_op ar (x * 11585) = x * 11585" "i32_op ar (x * 11585 + 4096) = x * 11585 + 4096" "i32_op ar (dc_mul x) = dc_mul x"
    unfolding dc_mul_def by (auto intro!: op_big[OF assms(1)])
  then show ?thesis
    by (simp add: daala_fdct_ii_2_def pi4_kernel_def rotations tx_zero[OF assms(1)] tx_mul_zero[OF assms(1)] Let_def)
      (simp add: tx_add_def tx_mul_def push_bit_eq_mult drop_bit_eq_div dc_mul_def)
qed

lemma fdct_ii_4_flat:
  assumes "machine_ok ar" "\<bar>x\<bar> \<le> 1000000"
  shows "daala_fdct_ii_4 ar x x x x = [2 * x, 0, 0, 0]"
proof -
  have a: "\<bar>x\<bar> \<le> 1000000" "\<bar>2 * x\<bar> \<le> 2000000" using assms(2) by simp_all
  show ?thesis
    unfolding daala_fdct_ii_4_def
    by (simp add: butterfly_flat[OF assms(1) a(1)] butterfly_zero[OF assms(1)] daala_fdct_ii_2_asym_def fdst_iv_2_asym_zero[OF assms(1)] cong: let_weak_cong)
qed

lemma fdct_ii_4_asym_flat:
  assumes "machine_ok ar" "\<bar>x\<bar> \<le> 75000"
  shows "daala_fdct_ii_4_asym ar x (x, 2 * x) x (x, 2 * x) = [dc_mul (2 * x), 0, 0, 0]"
proof -
  have a: "\<bar>x\<bar> \<le> 1000000" "\<bar>2 * x\<bar> \<le> 150000" using assms(2) by simp_all
  show ?thesis
    unfolding daala_fdct_ii_4_asym_def
    by (simp add: butterfly_flat[OF assms(1) a(1)] butterfly_zero[OF assms(1)] dct_pair[OF assms(1) a(2)] fdst_iv_2_zero[OF assms(1)] cong: let_weak_cong)
qed

lemma fdct_ii_8_flat:
  assumes "machine_ok ar" "\<bar>x\<bar> \<le> 75000"
  shows "daala_fdct_ii_8 ar x x x x x x x x = [dc_mul (2 * x), 0, 0, 0, 0, 0, 0, 0]"
proof -
  have a: "\<bar>x\<bar> \<le> 1000000" "\<bar>2 * x\<bar> \<le> 150000" using assms(2) by simp_all
  show ?thesis
    unfolding daala_fdct_ii_8_def
    by (simp add: butterfly_flat[OF assms(1) a(1)] butterfly_zero[OF assms(1)] fdct_ii_4_asym_flat[OF assms] fdst_iv_4_asym_zero[OF assms(1)] cong: let_weak_cong)
qed

lemma fdct_ii_8_asym_flat:
  assumes "machine_ok ar" "\<bar>x\<bar> \<le> 500000"
  shows "daala_fdct_ii_8_asym ar x (x, 2 * x) x (x, 2 * x) x (x, 2 * x) x (x, 2 * x) = [4 * x, 0, 0, 0, 0, 0, 0, 0]"
proof -
  have a: "\<bar>x\<bar> \<le> 1000000" "\<bar>2 * x\<bar> \<le> 1000000" using assms(2) by simp_all
  show ?thesis
    unfolding daala_fdct_ii_8_asym_def
    by (simp add: butterfly_flat[OF assms(1) a(1)] butterfly_zero[OF assms(1)] fdct_ii_4_flat[OF assms(1), of "2 * x"] a(2) fdst_iv_4_zero[OF assms(1)] cong: let_weak_cong)
qed

lemma fdct_ii_16_flat:
  assumes "machine_ok ar" "\<bar>x\<bar> \<le> 500000"
  shows "daala_fdct_ii_16 ar x x x x x x x x x x x x x x x x = [4 * x, 0, 0, 0, 0, 0, 0, 0, 0, 0, 0, 0, 0, 0, 0, 0]"
proof -
  have a: "\<bar>x\<bar> \<le> 1000000" "\<bar>2 * x\<bar> \<le> 1000000" using assms(2) by simp_all
  show ?thesis
    unfolding daala_fdct_ii_16_def
    by (simp add: butterfly_flat[OF assms(1) a(1)] butterfly_zero[OF assms(1)] fdct_ii_8_asym_flat[OF assms] fdst_iv_8_asym_zero[OF assms(1)] cong: let_weak_cong)
qed

lemma fdct_ii_16_asym_flat:
  assumes "machine_ok ar" "\<bar>x\<bar> \<le> 37500"
  shows "daala_fdct_ii_16_asym ar x (x, 2 * x) x (x, 2 * x) x (x, 2 * x) x (x, 2 * x) x (x, 2 * x) x (x, 2 * x) x (x, 2 * x) x (x, 2 * x) = [dc_mul (4 * x), 0, 0, 0, 0, 0, 0, 0, 0, 0, 0, 0, 0, 0, 0, 0]"
proof -
  have a: "\<bar>x\<bar> \<le> 1000000" "\<bar>2 * x\<bar> \<le> 75000" using assms(2) by simp_all
  show ?thesis
    unfolding daala_fdct_ii_16_asym_def
    by (simp add: butterfly_flat[OF assms(1) a(1)] butterfly_zero[OF assms(1)] fdct_ii_8_flat[OF assms(1), of "2 * x"] a(2) fdst_iv_8_zero[OF assms(1)] cong: let_weak_cong)
qed

lemma fdct_ii_32_flat:
  assumes "machine_ok ar" "\<bar>x\<bar> \<le> 37500"
  shows "daala_fdct_ii_32 ar x x x x x x x x x x x x x x x x x x x x x x x x x x x x x x x x = [dc_mul (4 * x), 0, 0, 0, 0, 0, 0, 0, 0, 0, 0, 0, 0, 0, 0, 0, 0, 0, 0, 0, 0, 0, 0, 0, 0, 0, 0, 0, 0, 0, 0, 0]"
proof -
  have a: "\<bar>x\<bar> \<le> 1000000" "\<bar>2 * x\<bar> \<le> 75000" using assms(2) by simp_all
  show ?thesis
    unfolding daala_fdct_ii_32_def
    by (simp add: butterfly_flat[OF assms(1) a(1)] butterfly_zero[OF assms(1)] fdct_ii_16_asym_flat[OF assms] fdst_iv_16_asym_zero[OF assms(1)] cong: let_weak_cong)
qed

lemma fdct_ii_32_asym_flat:
  assumes "machine_ok ar" "\<bar>x\<bar> \<le> 250000"
  shows "daala_fdct_ii_32_asym ar x (x, 2 * x) x (x, 2 * x) x (x, 2 * x) x (x, 2 * x) x (x, 2 * x) x (x, 2 * x) x (x, 2 * x) x (x, 2 * x) x (x, 2 * x) x (x, 2 * x) x (x, 2 * x) x (x, 2 * x) x (x, 2 * x) x (x, 2 * x) x (x, 2 * x) x (x, 2 * x) = [8 * x, 0, 0, 0, 0, 0, 0, 0, 0, 0, 0, 0, 0, 0, 0, 0, 0, 0, 0, 0, 0, 0, 0, 0, 0, 0, 0, 0, 0, 0, 0, 0]"
proof -
  have a: "\<bar>x\<bar> \<le> 1000000" "\<bar>2 * x\<bar> \<le> 500000" using assms(2) by simp_all
  show ?thesis
    unfolding daala_fdct_ii_32_asym_def
    by (simp add: butterfly_flat[OF assms(1) a(1)] butterfly_zero[OF assms(1)] fdct_ii_16_flat[OF assms(1), of "2 * x"] a(2) fdst_iv_16_zero[OF assms(1)] cong: let_weak_cong)
qed

section \<open>One dimension\<close>

text \<open>The coefficient of \<open>2 ^ k\<close> equal numbers.\<close>

definition dc_gain :: "nat \<Rightarrow> int \<Rightarrow> int" where
  "dc_gain k x = (if odd k then dc_mul (2 ^ (k div 2) * x) else 2 ^ (k div 2) * x)"

lemma dc_gain_simps: "dc_gain 2 x = 2 * x" "dc_gain 3 x = dc_mul (2 * x)" "dc_gain 4 x = 4 * x" "dc_gain 5 x = dc_mul (4 * x)" "dc_gain 6 x = 8 * x"
  by (simp_all add: dc_gain_def)

lemma zero_lists:
  "replicate 3 0 = [(0 :: int), 0, 0]"
  "replicate 7 0 = [(0 :: int), 0, 0, 0, 0, 0, 0]"
  "replicate 15 0 = [(0 :: int), 0, 0, 0, 0, 0, 0, 0, 0, 0, 0, 0, 0, 0, 0]"
  "replicate 31 0 = [(0 :: int), 0, 0, 0, 0, 0, 0, 0, 0, 0, 0, 0, 0, 0, 0, 0, 0, 0, 0, 0, 0, 0, 0, 0, 0, 0, 0, 0, 0, 0, 0]"
  "replicate 63 0 = [(0 :: int), 0, 0, 0, 0, 0, 0, 0, 0, 0, 0, 0, 0, 0, 0, 0, 0, 0, 0, 0, 0, 0, 0, 0, 0, 0, 0, 0, 0, 0, 0, 0, 0, 0, 0, 0, 0, 0, 0, 0, 0, 0, 0, 0, 0, 0, 0, 0, 0, 0, 0, 0, 0, 0, 0, 0, 0, 0, 0, 0, 0, 0, 0]"
  by (simp_all add: numeral_eq_Suc)

lemma fdct4_flat:
  assumes "machine_ok ar" "\<bar>x\<bar> \<le> 32768"
  shows "daala_fdct4 ar (replicate 4 x) = Inr (dc_gain 2 x # replicate 3 0)"
  unfolding daala_fdct4_def dc_gain_simps zero_lists using assms(2) by (simp add: fdct_ii_4_flat[OF assms(1)])

lemma fdct8_flat:
  assumes "machine_ok ar" "\<bar>x\<bar> \<le> 32768"
  shows "daala_fdct8 ar (replicate 8 x) = Inr (dc_gain 3 x # replicate 7 0)"
  unfolding daala_fdct8_def dc_gain_simps zero_lists using assms(2) by (simp add: fdct_ii_8_flat[OF assms(1)])

lemma fdct16_flat:
  assumes "machine_ok ar" "\<bar>x\<bar> \<le> 32768"
  shows "daala_fdct16 ar (replicate 16 x) = Inr (dc_gain 4 x # replicate 15 0)"
  unfolding daala_fdct16_def dc_gain_simps zero_lists using assms(2) by (simp add: fdct_ii_16_flat[OF assms(1)])

lemma fdct32_flat:
  assumes "machine_ok ar" "\<bar>x\<bar> \<le> 32768"
  shows "daala_fdct32 ar (replicate 32 x) = Inr (dc_gain 5 x # replicate 31 0)"
  unfolding daala_fdct32_def dc_gain_simps zero_lists using assms(2) by (simp add: fdct_ii_32_flat[OF assms(1)])

lemma pair_flat:
  assumes "machine_ok ar" "\<bar>x\<bar> \<le> 32768" "i < 16"
  shows "butterfly_pair ar (replicate 64 x) i = ((x, (x, 2 * x)), (0, (0, 0)))"
  using assms(2,3) by (simp add: butterfly_pair_def butterfly_flat[OF assms(1)] Let_def)

lemma fdct64_flat:
  assumes "machine_ok ar" "\<bar>x\<bar> \<le> 32768"
  shows "daala_fdct64 ar (replicate 64 x) = Inr (dc_gain 6 x # replicate 63 0)"
proof -
  have pairs: "map (butterfly_pair ar (replicate 64 x)) [0..<16] = replicate 16 ((x, (x, 2 * x)), (0, (0, 0)))"
    using pair_flat[OF assms] by (intro nth_equalityI) simp_all
  have halves: "map (\<lambda>p. fst (fst p)) (replicate 16 ((x, (x, 2 * x)), (0 :: int, (0 :: int, 0 :: int)))) = replicate 16 x"
    "map (\<lambda>p. snd (fst p)) (replicate 16 ((x, (x, 2 * x)), (0 :: int, (0 :: int, 0 :: int)))) = replicate 16 (x, 2 * x)"
    "map (\<lambda>p. fst (snd p)) (replicate 16 ((x, (x, 2 * x)), (0 :: int, (0 :: int, 0 :: int)))) = replicate 16 0"
    "map (\<lambda>p. snd (snd p)) (replicate 16 ((x, (x, 2 * x)), (0 :: int, (0 :: int, 0 :: int)))) = replicate 16 (0, 0)"
    by simp_all
  have a: "\<bar>x\<bar> \<le> 250000" using assms(2) by simp
  show ?thesis
    unfolding daala_fdct64_def pairs halves Let_def dc_gain_simps zero_lists
    by (simp add: nth_append fdct_ii_32_asym_flat[OF assms(1) a] fdst_iv_32_asym_zero[OF assms(1)]) (simp add: reorder_4_def)
qed

section \<open>A flat block forward\<close>

text \<open>What the shifts make of a number.\<close>

definition tx_shift :: "int \<Rightarrow> int \<Rightarrow> int" where
  "tx_shift n x = (if 0 \<le> n then 2 ^ nat n * x else (x + 2 ^ nat (- n) div 2) div 2 ^ nat (- n))"

lemma tx_shift_zero: "- 2 \<le> n \<Longrightarrow> tx_shift n 0 = 0"
proof -
  assume "- 2 \<le> n"
  then have "n \<ge> 0 \<or> nat (- n) = 1 \<or> nat (- n) = 2" by linarith
  then show ?thesis by (auto simp: tx_shift_def)
qed

lemma shift_array:
  assumes ok: "machine_ok ar" and n: "- 2 \<le> n" "n \<le> 4" and xs: "\<And>x. x \<in> set xs \<Longrightarrow> \<bar>x\<bar> \<le> 100000000" and len: "length xs = m"
  shows "av1_round_shift_array ar xs m (- n) = map (tx_shift n) xs"
proof -
  have "i32_wrapping ar (2 ^ nat n * x) = 2 ^ nat n * x" if "x \<in> set xs" "0 < n" for x
  proof -
    have "(2 :: int) ^ nat n \<le> 16" using power_increasing[of "nat n" 4 "2 :: int"] n(2) by simp
    then have "\<bar>2 ^ nat n * x\<bar> \<le> 16 * 100000000" unfolding abs_mult using xs[OF that(1)] by (intro mult_mono) simp_all
    then show ?thesis by (intro wrapping_id[OF ok]) simp
  qed
  moreover have "i32_round_shift ar x (nat (- n)) = (x + 2 ^ nat (- n) div 2) div 2 ^ nat (- n)" if "x \<in> set xs" "n < 0" for x
  proof -
    have "nat (- n) = 1 \<or> nat (- n) = 2" using n(1) that(2) by linarith
    then have "(2 :: int) ^ nat (- n) div 2 \<le> 2" by auto
    then show ?thesis using xs[OF that(1)] by (intro round_shift_id[OF ok]) simp
  qed
  ultimately show ?thesis using len
    by (cases n "0 :: int" rule: linorder_cases)
      (auto simp: av1_round_shift_array_def tx_shift_def push_bit_eq_mult mult.commute intro!: map_idI[symmetric])
qed

lemma shift_dc:
  assumes ok: "machine_ok ar" and n: "- 2 \<le> n" "n \<le> 4" and v: "\<bar>v\<bar> \<le> 100000000" and m: "0 < m"
  shows "av1_round_shift_array ar (v # replicate (m - 1) 0) m (- n) = tx_shift n v # replicate (m - 1) 0"
proof -
  have b: "\<bar>x\<bar> \<le> 100000000" if "x \<in> set (v # replicate (m - 1) 0)" for x using that v by (auto split: if_splits)
  have "length (v # replicate (m - 1) 0) = m" using m by simp
  from shift_array[OF ok n b this] show ?thesis by (simp add: tx_shift_zero[OF n(1)])
qed

definition dct_type :: "nat \<Rightarrow> txfm_type" where
  "dct_type k = [DCT4, DCT8, DCT16, DCT32, DCT64] ! (k - 2)"

lemma dct_flat:
  assumes "machine_ok ar" "\<bar>x\<bar> \<le> 32768" "k \<in> {2, 3, 4, 5, 6}"
  shows "get_func (dct_type k) ar (replicate (2 ^ k) x) = Inr (dc_gain k x # replicate (2 ^ k - 1) 0)"
  using assms(3) fdct4_flat[OF assms(1,2)] fdct8_flat[OF assms(1,2)] fdct16_flat[OF assms(1,2)] fdct32_flat[OF assms(1,2)] fdct64_flat[OF assms(1,2)]
  by (auto simp: dct_type_def)

lemma dc_gain_zero: "dc_gain k 0 = 0"
  by (simp add: dc_gain_def dc_mul_def)

lemma dc_mul_le: "\<bar>x\<bar> \<le> n \<Longrightarrow> \<bar>dc_mul x\<bar> \<le> 2 * n"
  unfolding dc_mul_def by linarith

lemma dc_gain_le:
  assumes "\<bar>x\<bar> \<le> 32768" "k \<in> {2, 3, 4, 5, 6}"
  shows "\<bar>dc_gain k x\<bar> \<le> 262144"
  using assms(2)
proof -
  have "\<bar>2 * x\<bar> \<le> 65536" "\<bar>4 * x\<bar> \<le> 131072" using assms(1) by simp_all
  from this[THEN dc_mul_le] show ?thesis using assms by (elim insertE emptyE) (simp_all add: dc_gain_simps)
qed

lemma log_cases: "width_log2 s \<in> {2, 3, 4, 5, 6}" "height_log2 s \<in> {2, 3, 4, 5, 6}"
  by (cases s; simp)+

definition dct_cfg :: "tx_size \<Rightarrow> nat \<Rightarrow> txfm_2d_flip_cfg" where
  "dct_cfg s bd = \<lparr>cfg_tx_size = s, cfg_ud_flip = False, cfg_lr_flip = False,
     cfg_shift = FWD_TXFM_SHIFT_LS ! index_of all_tx_sizes s ! ((bd - 8) div 2),
     cfg_txfm_type_col = dct_type (height_log2 s), cfg_txfm_type_row = dct_type (width_log2 s)\<rparr>"

lemma dct_cfg: "8 \<le> bd \<Longrightarrow> bd \<le> 10 \<Longrightarrow> fwd_cfg DCT_DCT s bd = Inr (dct_cfg s bd)"
proof -
  assume "8 \<le> bd" "bd \<le> 10"
  moreover have "AV1_TXFM_TYPE_LS ! (k - 2) ! type_1d_index DCT = Some (dct_type k)" if "k \<in> {2, 3, 4, 5, 6}" for k
    using that by (auto simp: AV1_TXFM_TYPE_LS_def dct_type_def)
  ultimately show ?thesis
    using log_cases[of s] by (auto simp: fwd_cfg_def dct_cfg_def get_flip_cfg_def VTX_TAB_def HTX_TAB_def all_tx_types_def)
qed

lemma shift_range:
  assumes "i < 3"
  shows "cfg_shift (dct_cfg s bd) ! i \<in> {- 2..4} \<or> \<not> (bd = 8 \<or> bd = 10)"
  using assms by (cases s) (auto simp: dct_cfg_def FWD_TXFM_SHIFT_LS_def all_tx_sizes_def numeral_eq_Suc less_Suc_eq)

text \<open>Writing every place of a list with its value.\<close>

definition placed :: "nat \<Rightarrow> (nat \<Rightarrow> 'a) \<Rightarrow> nat set \<Rightarrow> 'a list \<Rightarrow> bool" where
  "placed n v W out \<longleftrightarrow> length out = n \<and> (\<forall>i\<in>W. i < n \<longrightarrow> out ! i = v i)"

lemma placed_write: "placed n v W out \<Longrightarrow> x = v i \<Longrightarrow> placed n v (W \<union> {i}) (out[i := x])"
  unfolding placed_def by (metis Un_iff length_list_update nth_list_update_eq nth_list_update_neq singletonD)

lemma placed_all: "placed n v W out \<Longrightarrow> {0..<n} \<subseteq> W \<Longrightarrow> out = map v [0..<n]"
  by (intro nth_equalityI) (auto simp: placed_def)

lemma forR_placed:
  assumes "\<And>k W s. k \<in> set ks \<Longrightarrow> placed n v W s \<Longrightarrow> \<exists>s'. f k s = Inr s' \<and> placed n v (W \<union> A k) s'" and "placed n v W s"
  shows "\<exists>s'. forR f ks s = Inr s' \<and> placed n v (W \<union> (\<Union>k\<in>set ks. A k)) s'"
  using assms
proof (induction ks arbitrary: W s)
  case (Cons k ks)
  obtain s1 where s1: "f k s = Inr s1" "placed n v (W \<union> A k) s1" using Cons.prems(1)[of k W s] Cons.prems(2) by auto
  obtain s' where "forR f ks s1 = Inr s'" "placed n v (W \<union> A k \<union> (\<Union>k\<in>set ks. A k)) s'"
    using Cons.IH[OF _ s1(2)] Cons.prems(1) by (metis list.set_intros(2))
  then show ?case using s1(1) by (auto simp: Un_assoc)
qed simp

text \<open>The place of a coefficient: row \<open>r\<close>, chunk \<open>g\<close> of 32 columns, column \<open>c\<close> of the chunk.\<close>

definition coeff_place :: "nat \<Rightarrow> nat \<Rightarrow> nat \<Rightarrow> nat \<Rightarrow> nat \<Rightarrow> nat" where
  "coeff_place w h r g c = (if r \<ge> 32 then 1 else 0) * min h 32 * min w 32 + h * (g * 32) + (c * min h 32 + r mod 32)"

definition pow_dim :: "nat \<Rightarrow> bool" where
  "pow_dim n \<longleftrightarrow> n \<in> {4, 8, 16, 32, 64}"

lemma dims_pow: "pow_dim (tx_width s)" "pow_dim (tx_height s)"
  by (cases s; simp add: pow_dim_def tx_width_def tx_height_def)+

lemma place_bound:
  assumes "pow_dim w" "pow_dim h" "r < h" "g < (w + 31) div 32" "c < min w 32"
  shows "coeff_place w h r g c < w * h" "c + 32 * g < w" "coeff_place w h r g c = 0 \<longleftrightarrow> r = 0 \<and> c + 32 * g = 0"
  using assms by (auto simp: coeff_place_def pow_dim_def)

lemma place_cover:
  assumes "pow_dim w" "pow_dim h" "i < w * h"
  shows "\<exists>r g c. r < h \<and> g < (w + 31) div 32 \<and> c < min w 32 \<and> coeff_place w h r g c = i"
proof -
  define a where "a = min h 32"
  define b where "b = min w 32"
  define q where "q = i div a"
  define t where "t = q div b"
  have ab: "0 < a" "0 < b" "h = a * (if h = 64 then 2 else 1)" "w = b * ((w + 31) div 32)" using assms(1,2) by (auto simp: a_def b_def pow_dim_def)
  have t: "t < (w + 31) div 32 * (if h = 64 then 2 else 1)"
  proof -
    have "i < (w + 31) div 32 * (if h = 64 then 2 else 1) * b * a" using assms(3) ab(3,4) by (metis mult.assoc mult.commute)
    then show ?thesis using ab(1,2) by (simp add: t_def q_def less_mult_imp_div_less)
  qed
  have i: "i = (t * b + q mod b) * a + i mod a" unfolding t_def q_def by simp
  let ?g = "if h = 64 then t div 2 else t" and ?r = "if h = 64 then 32 * (t mod 2) + i mod a else i mod a"
  have m: "q mod b < b" "i mod a < a" using ab by simp_all
  have "coeff_place w h ?r ?g (q mod b) = i"
  proof (cases "h = 64")
    case True
    then have a: "a = 32" by (simp add: a_def)
    define u e where ue: "u = t div 2" "e = t mod 2"
    have t2: "t = 2 * u + e" "e < 2" by (simp_all add: ue)
    have b: "b = 32 \<or> u = 0" using t True assms(1) by (auto simp: b_def pow_dim_def ue)
    have split: "i = (2 * u * b + e * b + q mod b) * 32 + i mod 32" using i unfolding a t2(1) by (simp add: add_mult_distrib)
    have r: "32 * e + i mod 32 \<ge> 32 \<longleftrightarrow> e = 1" "(32 * e + i mod 32) mod 32 = i mod 32" using t2(2) by auto
    have "coeff_place w h (32 * e + i mod 32) u (q mod b) = (if e = 1 then 1 else 0) * 32 * b + 64 * (u * 32) + (q mod b * 32 + i mod 32)"
      unfolding coeff_place_def r a_def[symmetric] b_def[symmetric] a using True by simp
    also have "\<dots> = i" using b t2(2) by (subst split) (auto simp: algebra_simps less_2_cases_iff)
    finally show ?thesis using True by (simp add: a ue)
  next
    case False
    then have "h = a" "a \<le> 32" using assms(2) by (auto simp: a_def pow_dim_def)
    moreover have "b = 32 \<or> t = 0" using t False assms(1) by (auto simp: b_def pow_dim_def)
    ultimately show ?thesis using False i m by (auto simp: coeff_place_def b_def[symmetric] a_def[symmetric] algebra_simps)
  qed
  moreover have "?r < h" using m(2) assms(2) by (auto simp: a_def pow_dim_def)
  moreover have "?g < (w + 31) div 32" using t by auto
  moreover have "q mod b < min w 32" using m(1) by (simp add: b_def)
  ultimately show ?thesis by blast
qed

lemma write_row_placed:
  assumes dims: "pow_dim w" "pow_dim h" "r < h" and row: "\<And>j. j < w \<Longrightarrow> cast_from wide (row ! j) = (if r = 0 \<and> j = 0 then v else 0)"
    and out: "placed (w * h) (\<lambda>i. if i = 0 then v else 0) W out"
  shows "\<exists>out'. write_row wide w h r row out = Inr out' \<and>
    placed (w * h) (\<lambda>i. if i = 0 then v else 0) (W \<union> {coeff_place w h r g c |g c. g < (w + 31) div 32 \<and> c < min w 32}) out'"
proof -
  let ?P = "placed (w * h) (\<lambda>i. if i = 0 then v else 0)"
  let ?base = "(if r \<ge> 32 then 1 else 0) * min h 32 * min w 32"
  let ?f = "\<lambda>cg c output. let i = ?base + h * cg + (c * min h 32 + r mod 32)
    in if i < length output then Inr (output[i := cast_from wide (row ! (c + cg))]) else Inl Fault"
  have step: "\<exists>s'. ?f (g * 32) c s = Inr s' \<and> ?P (W \<union> {coeff_place w h r g c}) s'"
    if "g < (w + 31) div 32" "c < min w 32" "?P W s" for g c W s
  proof -
    have p: "?base + h * (g * 32) + (c * min h 32 + r mod 32) = coeff_place w h r g c" by (simp add: coeff_place_def)
    have "coeff_place w h r g c < length s" using place_bound(1)[OF dims that(1,2)] that(3) by (simp add: placed_def)
    moreover have "cast_from wide (row ! (c + g * 32)) = (if coeff_place w h r g c = 0 then v else 0)"
      using row[of "c + g * 32"] place_bound(2,3)[OF dims that(1,2)] by (simp add: mult.commute)
    ultimately show ?thesis unfolding p Let_def using placed_write[OF that(3)] by simp
  qed
  have inner: "\<exists>s'. forR (?f cg) [0..<min w 32] s = Inr s' \<and> ?P (W \<union> (\<Union>c\<in>set [0..<min w 32]. {coeff_place w h r (cg div 32) c})) s'"
    if "cg \<in> set (map (\<lambda>k. k * 32) [0..<(w + 31) div 32])" "?P W s" for cg W s
  proof -
    obtain g where g: "cg = g * 32" "g < (w + 31) div 32" using \<open>cg \<in> set (map (\<lambda>k. k * 32) [0..<(w + 31) div 32])\<close> by auto
    have d: "cg div 32 = g" by (simp add: g(1))
    show ?thesis
    proof (rule forR_placed[OF _ that(2)])
      fix c V s' assume c: "c \<in> set [0..<min w 32]" and V: "?P V s'"
      have "c < min w 32" using c by simp
      from step[OF g(2) this V] show "\<exists>t. ?f cg c s' = Inr t \<and> ?P (V \<union> {coeff_place w h r (cg div 32) c}) t"
        unfolding d unfolding g(1) .
    qed
  qed
  have "\<exists>s'. write_row wide w h r row out = Inr s' \<and>
      ?P (W \<union> (\<Union>cg\<in>set (map (\<lambda>k. k * 32) [0..<(w + 31) div 32]). \<Union>c\<in>set [0..<min w 32]. {coeff_place w h r (cg div 32) c})) s'"
    unfolding write_row_def Let_def[of "min h 32"] Let_def[of "?base"] by (rule forR_placed[OF inner out])
  moreover have "(\<Union>cg\<in>set (map (\<lambda>k. k * 32) [0..<(w + 31) div 32]). \<Union>c\<in>set [0..<min w 32]. {coeff_place w h r (cg div 32) c}) =
      {coeff_place w h r g c |g c. g < (w + 31) div 32 \<and> c < min w 32}"
    by auto (blast, metis atLeastLessThan_iff le0 min_less_iff_conj)
  ultimately show ?thesis by simp
qed

text \<open>The coefficient of a flat block.\<close>

definition flat_dc :: "tx_size \<Rightarrow> nat \<Rightarrow> int \<Rightarrow> int" where
  "flat_dc s bd c =
     (let shift = FWD_TXFM_SHIFT_LS ! index_of all_tx_sizes s ! ((bd - 8) div 2)
      in tx_shift (shift ! 2) (dc_gain (width_log2 s) (tx_shift (shift ! 1) (dc_gain (height_log2 s) (tx_shift (shift ! 0) c)))))"

lemma mapR_replicate: "(\<And>x. x \<in> set xs \<Longrightarrow> f x = Inr y) \<Longrightarrow> mapR f xs = Inr (replicate (length xs) y)"
  by (induction xs) simp_all

lemma first_shift:
  assumes "bd = 8 \<or> bd = 10" "\<bar>c\<bar> < 2 ^ bd"
  shows "\<bar>tx_shift (cfg_shift (dct_cfg s bd) ! 0) c\<bar> \<le> 4092"
  using assms by (cases s) (auto simp: dct_cfg_def FWD_TXFM_SHIFT_LS_def all_tx_sizes_def tx_shift_def)

lemma dc_gain_4092:
  assumes "\<bar>x\<bar> \<le> 4092" "k \<in> {2, 3, 4, 5, 6}"
  shows "\<bar>dc_gain k x\<bar> \<le> 32736"
proof -
  have "\<bar>2 * x\<bar> \<le> 8184" "\<bar>4 * x\<bar> \<le> 16368" using assms(1) by simp_all
  from this[THEN dc_mul_le] show ?thesis using assms by (elim insertE emptyE) (simp_all add: dc_gain_simps)
qed

lemma second_shift:
  assumes "bd = 8 \<or> bd = 10" "\<bar>v\<bar> \<le> 32736"
  shows "\<bar>tx_shift (cfg_shift (dct_cfg s bd) ! 1) v\<bar> \<le> 32768"
proof -
  have "cfg_shift (dct_cfg s bd) ! 1 \<in> {- 2, - 1, 0}"
    using assms(1) by (cases s) (auto simp: dct_cfg_def FWD_TXFM_SHIFT_LS_def all_tx_sizes_def)
  then show ?thesis using assms(2) by (auto simp: tx_shift_def)
qed

lemma flat_forward:
  assumes ok: "machine_ok ar" and bd: "bd = 8 \<or> bd = 10" and c: "\<bar>c\<bar> < 2 ^ bd" and cast: "cast_from wide (flat_dc s bd c) = flat_dc s bd c"
    and out: "length output = tx_width s * tx_height s"
  shows "forward_transform ar wide (replicate (tx_width s * tx_height s) c) output (tx_width s) s DCT_DCT bd =
    Inr (flat_dc s bd c # replicate (tx_width s * tx_height s - 1) 0)"
proof -
  let ?w = "tx_width s" and ?h = "tx_height s" and ?cfg = "dct_cfg s bd"
  let ?sh = "\<lambda>i. cfg_shift ?cfg ! i"
  define x where "x = tx_shift (?sh 0) c"
  define y where "y = tx_shift (?sh 1) (dc_gain (height_log2 s) x)"
  have x: "\<bar>x\<bar> \<le> 4092" unfolding x_def by (rule first_shift[OF bd c])
  have g: "\<bar>dc_gain (height_log2 s) x\<bar> \<le> 32736" by (rule dc_gain_4092[OF x log_cases(2)])
  have y: "\<bar>y\<bar> \<le> 32768" unfolding y_def by (rule second_shift[OF bd g])
  have dc: "flat_dc s bd c = tx_shift (?sh 2) (dc_gain (width_log2 s) y)"
    by (simp add: flat_dc_def dct_cfg_def x_def y_def Let_def)
  have sh: "- 2 \<le> ?sh i" "?sh i \<le> 4" if "i < 3" for i using shift_range[OF that, of s bd] bd by auto
  have wh: "?w = 2 ^ width_log2 s" "?h = 2 ^ height_log2 s" by (simp_all add: tx_width_def tx_height_def)
  have pos: "0 < ?w" "0 < ?h" by (simp_all add: wh)
  have fn: "cfg_txfm_type_col ?cfg = dct_type (height_log2 s)" "cfg_txfm_type_row ?cfg = dct_type (width_log2 s)"
    "\<not> cfg_ud_flip ?cfg" "\<not> cfg_lr_flip ?cfg" by (simp_all add: dct_cfg_def)
  have cs: "\<bar>c\<bar> \<le> 100000000" using c bd by auto
  have col: "forward_col ar (replicate (?w * ?h) c) ?w ?h ?cfg j = Inr (y # replicate (?h - 1) 0)" if j: "j < ?w" for j
  proof -
    have "r * ?w + j < ?w * ?h" if "r < ?h" for r
    proof -
      have "r * ?w + j < (r + 1) * ?w" using j by simp
      also have "\<dots> \<le> ?h * ?w" using that by (intro mult_le_mono1) simp
      finally show ?thesis by (simp add: mult.commute)
    qed
    then have "mapR (\<lambda>r. let i = (if cfg_ud_flip ?cfg then ?h - r - 1 else r) * ?w + j
        in if i < length (replicate (?w * ?h) c) then Inr (replicate (?w * ?h) c ! i) else Inl Fault) [0..<?h] = Inr (replicate (length [0..<?h]) c)"
      by (intro mapR_replicate) (simp add: fn)
    moreover have "av1_round_shift_array ar (replicate ?h c) ?h (- ?sh 0) = replicate ?h x"
      using shift_array[OF ok sh[of 0], of "replicate ?h c" ?h] cs by (simp add: x_def)
    moreover have "get_func (dct_type (height_log2 s)) ar (replicate ?h x) = Inr (dc_gain (height_log2 s) x # replicate (?h - 1) 0)"
      using dct_flat[OF ok _ log_cases(2), of x] x by (simp add: wh)
    moreover have "av1_round_shift_array ar (dc_gain (height_log2 s) x # replicate (?h - 1) 0) ?h (- ?sh 1) = y # replicate (?h - 1) 0"
      unfolding y_def by (rule shift_dc[OF ok]) (use sh[of 1] g pos in simp_all)
    ultimately show ?thesis by (simp add: forward_col_def fn)
  qed
  have cols: "mapR (forward_col ar (replicate (?w * ?h) c) ?w ?h ?cfg) [0..<?w] = Inr (replicate ?w (y # replicate (?h - 1) 0))"
    using mapR_replicate[of "[0..<?w]" "forward_col ar (replicate (?w * ?h) c) ?w ?h ?cfg"] col by simp
  have row: "bindR (get_func (dct_type (width_log2 s)) ar (map (\<lambda>col. col ! r) (replicate ?w (y # replicate (?h - 1) 0)))) (\<lambda>row_coeffs. f (av1_round_shift_array ar row_coeffs ?w (- ?sh 2))) =
      f ((if r = 0 then flat_dc s bd c else 0) # replicate (?w - 1) 0)" if r: "r < ?h" for r f
  proof -
    let ?z = "if r = 0 then y else 0"
    have z: "\<bar>?z\<bar> \<le> 32768" using y by simp
    have m1: "map (\<lambda>col. col ! r) (replicate ?w (y # replicate (?h - 1) 0)) = replicate ?w ?z" using r by (simp add: nth_Cons')
    have m2: "get_func (dct_type (width_log2 s)) ar (replicate ?w ?z) = Inr (dc_gain (width_log2 s) ?z # replicate (?w - 1) 0)"
      using dct_flat[OF ok z log_cases(1)] by (simp add: wh)
    have m3: "av1_round_shift_array ar (dc_gain (width_log2 s) ?z # replicate (?w - 1) 0) ?w (- ?sh 2) =
        tx_shift (?sh 2) (dc_gain (width_log2 s) ?z) # replicate (?w - 1) 0"
      by (rule shift_dc[OF ok]) (use sh[of 2] dc_gain_le[OF z log_cases(1)[of s]] pos in simp_all)
    show ?thesis unfolding m1 m2 bindR_simps m3 by (simp add: dc dc_gain_zero tx_shift_zero[OF sh(1)])
  qed
  let ?v = "\<lambda>i :: nat. if i = 0 then flat_dc s bd c else 0"
  let ?A = "\<lambda>r. {coeff_place ?w ?h r g k |g k. g < (?w + 31) div 32 \<and> k < min ?w 32}"
  have "\<exists>s'. forR (\<lambda>r output. bindR (get_func (dct_type (width_log2 s)) ar (map (\<lambda>col. col ! r) (replicate ?w (y # replicate (?h - 1) 0)))) (\<lambda>row_coeffs.
      write_row wide ?w ?h r (av1_round_shift_array ar row_coeffs ?w (- ?sh 2)) output)) [0..<?h] output = Inr s' \<and>
      placed (?w * ?h) ?v ({} \<union> (\<Union>r\<in>set [0..<?h]. ?A r)) s'"
  proof (rule forR_placed)
    fix r W o' assume r: "r \<in> set [0..<?h]" and W: "placed (?w * ?h) ?v W o'"
    have "cast_from wide ((((if r = 0 then flat_dc s bd c else 0) # replicate (?w - 1) 0)) ! j) = (if r = 0 \<and> j = 0 then flat_dc s bd c else 0)" if "j < ?w" for j
      using that cast by (auto simp: nth_Cons' cast_from_def)
    from write_row_placed[OF dims_pow _ this W] r
    show "\<exists>s'. bindR (get_func (dct_type (width_log2 s)) ar (map (\<lambda>col. col ! r) (replicate ?w (y # replicate (?h - 1) 0)))) (\<lambda>row_coeffs.
      write_row wide ?w ?h r (av1_round_shift_array ar row_coeffs ?w (- ?sh 2)) o') = Inr s' \<and> placed (?w * ?h) ?v (W \<union> ?A r) s'"
      by (subst row) auto
  qed (use out in \<open>simp add: placed_def\<close>)
  then obtain s' where s': "forR (\<lambda>r output. bindR (get_func (dct_type (width_log2 s)) ar (map (\<lambda>col. col ! r) (replicate ?w (y # replicate (?h - 1) 0)))) (\<lambda>row_coeffs.
      write_row wide ?w ?h r (av1_round_shift_array ar row_coeffs ?w (- ?sh 2)) output)) [0..<?h] output = Inr s'"
      "placed (?w * ?h) ?v (\<Union>r\<in>set [0..<?h]. ?A r) s'" by auto
  have "s' = map ?v [0..<?w * ?h]"
  proof (rule placed_all[OF s'(2)], rule subsetI)
    fix i assume "i \<in> {0..<?w * ?h}"
    then show "i \<in> (\<Union>r\<in>set [0..<?h]. ?A r)" using place_cover[OF dims_pow(1)[of s] dims_pow(2)[of s], of i] by force
  qed
  also have "\<dots> = flat_dc s bd c # replicate (?w * ?h - 1) 0"
    using pos by (intro nth_equalityI) (auto simp: nth_Cons')
  finally have "s' = flat_dc s bd c # replicate (?w * ?h - 1) 0" .
  moreover have "valid_av1_transform s DCT_DCT" by (cases s) (simp_all add: valid_av1_transform_def)
  moreover have "8 \<le> bd" "bd \<le> 10" using bd by auto
  ultimately show ?thesis using s'(1) by (simp add: forward_transform_def dct_cfg cols fn)
qed

end
