(* ===== verification/Av1_FlatInv.thy ===== *)
theory Av1_FlatInv
  imports Complex_Main Av1_FlatTx
begin

text \<open>
  The inverse cosine transforms of a single coefficient: a flat residual; and the
  round trip of flat blocks.
\<close>

section \<open>One coefficient in one dimension\<close>

definition dc_half :: "int \<Rightarrow> int" where
  "dc_half v = (2896 * v + 2048) div 4096"

lemma dc_half_between:
  assumes "- B \<le> v" "v < (B :: int)" "0 < B"
  shows "- B \<le> dc_half v" "dc_half v < B"
proof -
  have "4096 * dc_half v \<le> 2896 * v + 2048" "2896 * v + 2048 < 4096 * dc_half v + 4096"
    unfolding dc_half_def by linarith+
  then show "- B \<le> dc_half v" "dc_half v < B" using assms by linarith+
qed

lemma dc_half_zero: "dc_half 0 = 0"
  by (simp add: dc_half_def)

lemma half_btf_dc:
  "half_btf ideal c 0 d 0 INV_COS_BIT = 0"
  "half_btf ideal (COSPI_INV ! 32) v (COSPI_INV ! 32) 0 INV_COS_BIT = dc_half v"
  "half_btf ideal (COSPI_INV ! 32) v (- (COSPI_INV ! 32)) 0 INV_COS_BIT = dc_half v"
  by (simp_all add: half_btf_ideal dc_half_def COSPI_INV_def)

lemma clamp_dc:
  assumes "- (2 ^ (rng - 1)) \<le> v" "v < 2 ^ (rng - 1)"
  shows "clamp_value ideal 0 rng = 0" "clamp_value ideal (dc_half v) rng = dc_half v"
  using dc_half_between[OF assms] by (simp_all add: clamp_value_id)

lemma idct4_dc:
  assumes "- (2 ^ (rng - 1)) \<le> v" "v < 2 ^ (rng - 1)"
  shows "av1_idct4 ideal (v # 0 # 0 # 0 # zs) rng = Inr [dc_half v, dc_half v, dc_half v, dc_half v]"
  by (simp add: av1_idct4_def Let_def half_btf_dc clamp_dc[OF assms])

lemma idct8_dc:
  assumes "- (2 ^ (rng - 1)) \<le> v" "v < 2 ^ (rng - 1)"
  shows "av1_idct8 ideal (v # 0 # 0 # 0 # 0 # 0 # 0 # 0 # zs) rng =
    Inr [dc_half v, dc_half v, dc_half v, dc_half v, dc_half v, dc_half v, dc_half v, dc_half v]"
  by (simp add: av1_idct8_def Let_def half_btf_dc clamp_dc[OF assms] idct4_dc[OF assms] cong: let_weak_cong)

lemma copies:
  "replicate 16 v = [v, v, v, v, v, v, v, v, v, v, v, v, v, v, v, v]"
  "replicate 32 v = [v, v, v, v, v, v, v, v, v, v, v, v, v, v, v, v, v, v, v, v, v, v, v, v, v, v, v, v, v, v, v, v]"
  "replicate 64 v = [v, v, v, v, v, v, v, v, v, v, v, v, v, v, v, v, v, v, v, v, v, v, v, v, v, v, v, v, v, v, v, v, v, v, v, v, v, v, v, v, v, v, v, v, v, v, v, v, v, v, v, v, v, v, v, v, v, v, v, v, v, v, v, v]"
  by (simp_all add: numeral_eq_Suc)

lemma idct16_dc:
  assumes "- (2 ^ (rng - 1)) \<le> v" "v < 2 ^ (rng - 1)"
  shows "av1_idct16 ideal (v # replicate 63 0) rng = Inr (replicate 16 (dc_half v))"
  unfolding copies by (simp add: av1_idct16_def Let_def half_btf_dc clamp_dc[OF assms] idct8_dc[OF assms] cong: let_weak_cong)

lemma idct32_dc:
  assumes "- (2 ^ (rng - 1)) \<le> v" "v < 2 ^ (rng - 1)"
  shows "av1_idct32 ideal (v # replicate 63 0) rng = Inr (replicate 32 (dc_half v))"
  unfolding copies by (simp add: av1_idct32_def Let_def half_btf_dc clamp_dc[OF assms] cong: let_weak_cong)

lemma idct64_dc:
  assumes "- (2 ^ (rng - 1)) \<le> v" "v < 2 ^ (rng - 1)"
  shows "av1_idct64 ideal (v # replicate 63 0) rng = Inr (replicate 64 (dc_half v))"
  unfolding copies by (simp add: av1_idct64_def Let_def half_btf_dc clamp_dc[OF assms] cong: let_weak_cong)

lemma idct_dc:
  assumes "- (2 ^ (rng - 1)) \<le> v" "v < 2 ^ (rng - 1)" "k \<in> {2, 3, 4, 5, 6}"
  shows "(INV_TXFM_FNS ! 0 ! (k - 2)) ideal (v # replicate 63 0) rng = Inr (replicate (2 ^ k) (dc_half v))"
proof -
  have "av1_idct4 ideal (v # replicate 63 0) rng = Inr (replicate 4 (dc_half v))"
    using idct4_dc[OF assms(1,2), of "replicate 60 0"] by (simp add: numeral_eq_Suc)
  moreover have "av1_idct8 ideal (v # replicate 63 0) rng = Inr (replicate 8 (dc_half v))"
    using idct8_dc[OF assms(1,2), of "replicate 56 0"] by (simp add: numeral_eq_Suc)
  ultimately show ?thesis
    using assms(3) idct16_dc[OF assms(1,2)] idct32_dc[OF assms(1,2)] idct64_dc[OF assms(1,2)] by (auto simp: INV_TXFM_FNS_def)
qed

section \<open>The numbers\<close>

text \<open>
  What the inverse transform makes of the coefficient of a flat block: a factor for
  rectangles of two squares, the row pass, a shift, the column pass.
\<close>

definition back_in :: "tx_size \<Rightarrow> int \<Rightarrow> int" where
  "back_in s v = (if \<bar>rect_ratio_log2 s\<bar> = 1 then dc_half v else v)"

definition back_mid :: "tx_size \<Rightarrow> int \<Rightarrow> int" where
  "back_mid s v = (dc_half (back_in s v) + 2 ^ (INV_INTERMEDIATE_SHIFTS ! index_of all_tx_sizes s) div 2) div 2 ^ (INV_INTERMEDIATE_SHIFTS ! index_of all_tx_sizes s)"

text \<open>\<open>x\<close> is \<open>a * c\<close> up to an error of \<open>e\<close>; the steps of the transforms.\<close>

definition near :: "real \<Rightarrow> real \<Rightarrow> int \<Rightarrow> int \<Rightarrow> bool" where
  "near a e c x \<longleftrightarrow> \<bar>real_of_int x - a * real_of_int c\<bar> \<le> e"

lemma near_start: "near 1 0 c c"
  by (simp add: near_def)

lemma near_times: "near a e c x \<Longrightarrow> near (numeral n * a) (numeral n * e) c (numeral n * x)"
proof -
  assume near: "near a e c x"
  have "real_of_int (numeral n * x) - numeral n * a * real_of_int c = numeral n * (real_of_int x - a * real_of_int c)"
    by (simp add: right_diff_distrib)
  then show ?thesis using near unfolding near_def by (simp only: abs_mult abs_numeral) simp
qed

lemma tri: "2 * \<bar>p - q\<bar> \<le> d \<Longrightarrow> \<bar>q - r\<bar> \<le> e \<Longrightarrow> \<bar>p - r\<bar> \<le> e + d / 2" for p q r d e :: real
proof -
  assume "2 * \<bar>p - q\<bar> \<le> d" "\<bar>q - r\<bar> \<le> e"
  then have "\<bar>p - q\<bar> \<le> d / 2" "\<bar>q - r\<bar> \<le> e" by simp_all
  then show "\<bar>p - r\<bar> \<le> e + d / 2" by linarith
qed

lemma near_div:
  assumes "near a e c x" and "0 < d"
  shows "near (real_of_int m * a / real_of_int d) (\<bar>real_of_int m\<bar> * e / real_of_int d + 1 / 2) c ((m * x + d div 2) div d)"
proof -
  define y where "y = (m * x + d div 2) div d"
  define h where "h = d div 2"
  define r where "r = (m * x + h) mod d"
  have "d * y + r = m * x + h" unfolding y_def h_def[symmetric] r_def by (rule mult_div_mod_eq)
  then have r: "d * y - m * x = h - r" "0 \<le> r" "r < d" using assms(2) by (linarith, simp_all add: r_def)
  have h: "2 * h \<le> d" "d \<le> 2 * h + 1" by (simp_all add: h_def)
  have "2 * \<bar>d * y - m * x\<bar> \<le> d" unfolding r(1) using r(2,3) h by (cases "r \<le> h") simp_all
  then have dy: "2 * \<bar>real_of_int d * real_of_int y - real_of_int m * real_of_int x\<bar> \<le> real_of_int d"
  proof -
    assume "2 * \<bar>d * y - m * x\<bar> \<le> d"
    then have "real_of_int (2 * \<bar>d * y - m * x\<bar>) \<le> real_of_int d" by (simp only: of_int_le_iff)
    then show ?thesis by simp
  qed
  have "\<bar>real_of_int m * real_of_int x - real_of_int m * (a * real_of_int c)\<bar> \<le> \<bar>real_of_int m\<bar> * e"
    using assms(1) by (simp add: near_def abs_mult mult_left_mono flip: right_diff_distrib)
  from tri[OF dy this] have "\<bar>real_of_int d * real_of_int y - real_of_int m * (a * real_of_int c)\<bar> \<le> \<bar>real_of_int m\<bar> * e + real_of_int d / 2" .
  then have "\<bar>real_of_int d * (real_of_int y - real_of_int m * a / real_of_int d * real_of_int c)\<bar> \<le> real_of_int d * (\<bar>real_of_int m\<bar> * e / real_of_int d + 1 / 2)"
    using assms(2) by (simp add: right_diff_distrib distrib_left mult.assoc)
  then show ?thesis using assms(2) by (simp add: near_def y_def abs_mult)
qed

lemma near_mul: "near a e c x \<Longrightarrow> near (11585 * a / 8192) (11585 * e / 8192 + 1 / 2) c (dc_mul x)"
  using near_div[of a e c x 8192 11585] by (simp add: dc_mul_def mult.commute)

lemma near_half: "near a e c x \<Longrightarrow> near (2896 * a / 4096) (2896 * e / 4096 + 1 / 2) c (dc_half x)"
  using near_div[of a e c x 4096 2896] by (simp add: dc_half_def)

lemma near_shift:
  "near a e c x \<Longrightarrow> near (a / 2) (e / 2 + 1 / 2) c ((x + 1) div 2)"
  "near a e c x \<Longrightarrow> near (a / 4) (e / 4 + 1 / 2) c ((x + 2) div 4)"
  using near_div[of a e c x 2 1] near_div[of a e c x 4 1] by simp_all

lemma near_bound:
  assumes "near a e c x" and "\<bar>c\<bar> \<le> n" and "0 \<le> a" and "a * real_of_int n + e < real_of_int B"
  shows "- B \<le> x \<and> x < B"
proof -
  have "a * \<bar>real_of_int c\<bar> \<le> a * real_of_int n" using assms(2,3) by (intro mult_left_mono) simp_all
  moreover have "\<bar>a * real_of_int c\<bar> = a * \<bar>real_of_int c\<bar>" using assms(3) by (simp add: abs_mult)
  moreover have "\<bar>real_of_int x - a * real_of_int c\<bar> \<le> e" using assms(1) by (simp add: near_def)
  ultimately have "\<bar>real_of_int x\<bar> < real_of_int B" using assms(4) by linarith
  then show ?thesis by (auto simp: abs_less_iff)
qed

lemma near_end:
  assumes "near a e c x" and "\<bar>c\<bar> \<le> n" and "\<bar>a - 16\<bar> * real_of_int n + e < 8"
  shows "(x + 8) div 16 = c"
proof -
  have "\<bar>a - 16\<bar> * \<bar>real_of_int c\<bar> \<le> \<bar>a - 16\<bar> * real_of_int n" using assms(2) by (intro mult_left_mono) simp_all
  moreover have "\<bar>real_of_int x - 16 * real_of_int c\<bar> \<le> \<bar>real_of_int x - a * real_of_int c\<bar> + \<bar>a - 16\<bar> * \<bar>real_of_int c\<bar>"
    by (simp add: abs_mult[symmetric] left_diff_distrib)
  ultimately have "\<bar>real_of_int (x - 16 * c)\<bar> < 8" using assms(1,3) by (simp add: near_def)
  then have "\<bar>x - 16 * c\<bar> < 8" by linarith
  then show ?thesis by linarith
qed

lemmas numbers = flat_dc_def Let_def FWD_TXFM_SHIFT_LS_def all_tx_sizes_def tx_shift_def dc_gain_def back_in_def back_mid_def
  INV_INTERMEDIATE_SHIFTS_def rect_ratio_log2_def

lemmas near_rules = near_start near_mul near_half near_shift near_times

lemma dc_near_8: "\<exists>a e. near a e c (flat_dc s 8 c) \<and> (0 \<le> a \<and> a * 255 + e < 32768)"
  by (cases s; simp only:; simp add: numbers; (intro exI conjI, (rule near_rules)+; simp))

lemma mid_near_8: "\<exists>a e. near a e c (back_mid s (flat_dc s 8 c)) \<and> (0 \<le> a \<and> a * 255 + e < 32768)"
  by (cases s; simp only:; simp add: numbers; (intro exI conjI, (rule near_rules)+; simp))

lemma end_near_8: "\<exists>a e. near a e c (dc_half (back_mid s (flat_dc s 8 c))) \<and> \<bar>a - 16\<bar> * 255 + e < 8"
  by (cases s; simp only:; simp add: numbers; (intro exI conjI, (rule near_rules)+; simp))

lemma dc_near_10: "\<exists>a e. near a e c (flat_dc s 10 c) \<and> (0 \<le> a \<and> a * 1023 + e < 131072)"
  by (cases s; simp only:; simp add: numbers; (intro exI conjI, (rule near_rules)+; simp))

lemma mid_near_10: "\<exists>a e. near a e c (back_mid s (flat_dc s 10 c)) \<and> (0 \<le> a \<and> a * 1023 + e < 32768)"
  by (cases s; simp only:; simp add: numbers; (intro exI conjI, (rule near_rules)+; simp))

lemma end_near_10: "\<exists>a e. near a e c (dc_half (back_mid s (flat_dc s 10 c))) \<and> \<bar>a - 16\<bar> * 1023 + e < 8"
  by (cases s; simp only:; simp add: numbers; (intro exI conjI, (rule near_rules)+; simp))

lemma flat_numbers:
  assumes "bd = 8 \<or> bd = 10" and "\<bar>c\<bar> < 2 ^ bd"
  shows "- (2 ^ (bd + 7)) \<le> flat_dc s bd c \<and> flat_dc s bd c < 2 ^ (bd + 7)"
    and "- 32768 \<le> back_mid s (flat_dc s bd c) \<and> back_mid s (flat_dc s bd c) < 32768"
    and "(dc_half (back_mid s (flat_dc s bd c)) + 8) div 16 = c"
proof -
  have c: "bd = 8 \<and> \<bar>c\<bar> \<le> 255 \<or> bd = 10 \<and> \<bar>c\<bar> \<le> 1023" using assms by auto
  then show "- (2 ^ (bd + 7)) \<le> flat_dc s bd c \<and> flat_dc s bd c < 2 ^ (bd + 7)"
    using dc_near_8[of c s] dc_near_10[of c s] near_bound[of _ _ c "flat_dc s 8 c" 255 32768] near_bound[of _ _ c "flat_dc s 10 c" 1023 131072] by auto
  show "- 32768 \<le> back_mid s (flat_dc s bd c) \<and> back_mid s (flat_dc s bd c) < 32768"
    using c mid_near_8[of c s] mid_near_10[of c s] near_bound[of _ _ c "back_mid s (flat_dc s 8 c)" 255 32768]
      near_bound[of _ _ c "back_mid s (flat_dc s 10 c)" 1023 32768] by auto
  show "(dc_half (back_mid s (flat_dc s bd c)) + 8) div 16 = c"
    using c end_near_8[of c s] end_near_10[of c s] near_end[of _ _ c "dc_half (back_mid s (flat_dc s 8 c))" 255]
      near_end[of _ _ c "dc_half (back_mid s (flat_dc s 10 c))" 1023] by auto
qed

section \<open>A block of one coefficient\<close>

lemma temp64_dc: "0 < m \<Longrightarrow> m \<le> 64 \<Longrightarrow> temp64 (z # replicate (m - 1) 0) = z # replicate 63 0"
  by (auto simp: temp64_def replicate_add[symmetric] take_Cons' min_def)

lemma clamp_zero: "0 < n \<Longrightarrow> clamp_value ideal 0 n = 0"
  by (rule clamp_value_id) simp_all

lemma dims_facts: "0 < tx_width s" "0 < tx_height s" "tx_width s \<le> 64" "tx_height s \<le> 64"
  by (cases s; simp add: tx_width_def tx_height_def)+

lemma dc_nth: "i < n \<Longrightarrow> (v # replicate (n - 1) 0) ! i = (if i = 0 then v else 0)"
  by (cases i) simp_all

lemma dc_map: "(\<And>k. k < n \<Longrightarrow> f k = (if k = 0 then z else (0 :: int))) \<Longrightarrow> 0 < n \<Longrightarrow> map f [0..<n] = z # replicate (n - 1) 0"
  by (intro nth_equalityI) (auto simp: nth_Cons')

lemma inverse_row_dc:
  assumes v: "- (2 ^ (bd + 7)) \<le> v" "v < 2 ^ (bd + 7)" and r: "r < min (tx_height s) 32"
  shows "inverse_row ideal (v # replicate (min (tx_width s) 32 * min (tx_height s) 32 - 1) 0) s DCT_DCT (bd + 8) r =
    Inr (replicate (tx_width s) (if r = 0 then dc_half (back_in s v) else 0))"
proof -
  let ?w = "min (tx_width s) 32" and ?h = "min (tx_height s) 32"
  let ?z = "if r = 0 then back_in s v else 0"
  have pos: "0 < ?w" "0 < ?h" using dims_facts[of s] by simp_all
  have b: "- (2 ^ (bd + 8 - 1)) \<le> v" "v < 2 ^ (bd + 8 - 1)" using v by (simp_all add: add.commute)
  have bb: "- (2 ^ (bd + 8 - 1)) \<le> back_in s v" "back_in s v < 2 ^ (bd + 8 - 1)"
    using dc_half_between[OF b] b by (auto simp: back_in_def)
  then have z: "- (2 ^ (bd + 8 - 1)) \<le> ?z" "?z < 2 ^ (bd + 8 - 1)" by simp_all
  have raw: "(v # replicate (?w * ?h - 1) 0) ! (r + k * ?h) = (if r = 0 \<and> k = 0 then v else 0)" if "k < ?w" for k
  proof -
    have "r + k * ?h < (k + 1) * ?h" using r by simp
    also have "\<dots> \<le> ?w * ?h" using that by (intro mult_le_mono1) simp
    finally show ?thesis using pos by (subst dc_nth) auto
  qed
  have "(let raw = (v # replicate (?w * ?h - 1) 0) ! (r + k * ?h);
        val = (if \<bar>rect_ratio_log2 s\<bar> = 1 then i32_round_shift ideal (i32_op ideal (raw * INV_SQRT2)) SQRT2_BITS
               else if (DCT_DCT = WHT_WHT) then drop_bit 2 raw else raw)
      in clamp_value ideal val (bd + 8)) = (if k = 0 then ?z else 0)" if "k < ?w" for k
    unfolding raw[OF that] using clamp_value_id[OF bb] clamp_zero[of "bd + 8"]
    by (auto simp: Let_def back_in_def dc_half_def INV_SQRT2_def SQRT2_BITS_def mult.commute)
  then have "map (\<lambda>k. let raw = (v # replicate (?w * ?h - 1) 0) ! (r + k * ?h);
        val = (if \<bar>rect_ratio_log2 s\<bar> = 1 then i32_round_shift ideal (i32_op ideal (raw * INV_SQRT2)) SQRT2_BITS
               else if (DCT_DCT = WHT_WHT) then drop_bit 2 raw else raw)
      in clamp_value ideal val (bd + 8)) [0..<?w] = ?z # replicate (?w - 1) 0"
    by (rule dc_map) (assumption, rule pos(1))
  moreover have "temp64 (?z # replicate (?w - 1) 0) = ?z # replicate 63 0" using pos by (intro temp64_dc) simp_all
  moreover have "(INV_TXFM_FNS ! type_1d_index (snd (get_1d_tx_types DCT_DCT)) ! (width_log2 s - 2)) ideal (?z # replicate 63 0) (bd + 8) =
      Inr (replicate (tx_width s) (dc_half ?z))"
    using idct_dc[OF z log_cases(1)[of s]] by (simp add: tx_width_def)
  ultimately have "inverse_row ideal (v # replicate (?w * ?h - 1) 0) s DCT_DCT (bd + 8) r = Inr (replicate (tx_width s) (dc_half ?z))"
    by (simp only: inverse_row_def Let_def[of "tx_width s"] Let_def[of "tx_height s"] Let_def[of "rect_ratio_log2 s"] Let_def[of "DCT_DCT = WHT_WHT"] Let_def[of "temp64 _"])
  then show ?thesis by (simp add: dc_half_zero)
qed

lemma inverse_col_dc:
  assumes mid: "- 32768 \<le> back_mid s v" "back_mid s v < 32768" and bd: "8 \<le> bd" "bd \<le> 10" and c: "c < tx_width s"
  shows "inverse_col ideal (replicate (tx_width s) (dc_half (back_in s v)) # replicate (tx_height s - 1) (replicate (tx_width s) 0)) s DCT_DCT (max (bd + 6) 16) c =
    Inr (replicate (tx_height s) (dc_half (back_mid s v)))"
proof -
  let ?sh = "INV_INTERMEDIATE_SHIFTS ! index_of all_tx_sizes s"
  have rng: "max (bd + 6) 16 = 16" using bd by simp
  have z: "- (2 ^ (16 - 1)) \<le> back_mid s v" "back_mid s v < 2 ^ (16 - 1)" using mid by simp_all
  have "?sh \<le> 2" by (cases s) (simp_all add: INV_INTERMEDIATE_SHIFTS_def all_tx_sizes_def)
  then have "?sh = 0 \<or> ?sh = 1 \<or> ?sh = 2" by linarith
  then have zero: "(0 + 2 ^ ?sh div 2) div 2 ^ ?sh = (0 :: int)" by auto
  have "map (\<lambda>row. clamp_value ideal (i32_round_shift ideal (row ! c) ?sh) 16)
      (replicate (tx_width s) (dc_half (back_in s v)) # replicate (tx_height s - 1) (replicate (tx_width s) 0)) =
      back_mid s v # replicate (tx_height s - 1) 0"
    using c clamp_value_id[OF z] clamp_zero[of 16] zero by (simp add: back_mid_def)
  moreover have "temp64 (back_mid s v # replicate (tx_height s - 1) 0) = back_mid s v # replicate 63 0"
    by (rule temp64_dc) (simp_all add: dims_facts)
  moreover have "(INV_TXFM_FNS ! type_1d_index (fst (get_1d_tx_types DCT_DCT)) ! (height_log2 s - 2)) ideal (back_mid s v # replicate 63 0) 16 =
      Inr (replicate (tx_height s) (dc_half (back_mid s v)))"
    using idct_dc[OF z log_cases(2)[of s]] by (simp add: tx_height_def)
  ultimately show ?thesis unfolding rng by (simp only: inverse_col_def Let_def)
qed

lemma mapR_map: "(\<And>x. x \<in> set xs \<Longrightarrow> f x = Inr (g x)) \<Longrightarrow> mapR f xs = Inr (map g xs)"
  by (induction xs) simp_all

lemma residual_dc:
  assumes bd: "8 \<le> bd" "bd \<le> 10" and v: "- (2 ^ (bd + 7)) \<le> v" "v < 2 ^ (bd + 7)" and mid: "- 32768 \<le> back_mid s v" "back_mid s v < 32768"
  shows "residual_cols ideal (v # replicate (tx_width s * tx_height s - 1) 0) s DCT_DCT bd =
    Inr (replicate (tx_width s) (replicate (tx_height s) (dc_half (back_mid s v))))"
proof -
  let ?w = "tx_width s" and ?h = "tx_height s"
  let ?n = "min ?w 32 * min ?h 32"
  have pos: "0 < ?w" "0 < ?h" "0 < ?n" using dims_facts[of s] by simp_all
  have "?n \<le> ?w * ?h" by (intro mult_le_mono) simp_all
  then have take: "take ?n (v # replicate (?w * ?h - 1) 0) = v # replicate (?n - 1) 0"
    using pos by (simp add: take_Cons' min_def)
  let ?r0 = "replicate ?w (dc_half (back_in s v))"
  have "mapR (inverse_row ideal (v # replicate (?n - 1) 0) s DCT_DCT (bd + 8)) [0..<min ?h 32] =
      Inr (map (\<lambda>r. replicate ?w (if r = 0 then dc_half (back_in s v) else 0)) [0..<min ?h 32])"
    using inverse_row_dc[OF v, of _ s] by (intro mapR_map) simp
  moreover have "map (\<lambda>r. replicate ?w (if r = 0 then dc_half (back_in s v) else 0)) [0..<min ?h 32] = ?r0 # replicate (min ?h 32 - 1) (replicate ?w 0)"
    using pos by (intro nth_equalityI) (auto simp: nth_Cons')
  moreover have "(?r0 # replicate (min ?h 32 - 1) (replicate ?w 0)) @ replicate (?h - min ?h 32) (replicate ?w 0) = ?r0 # replicate (?h - 1) (replicate ?w 0)"
    using pos by (simp add: replicate_add[symmetric] min_def)
  ultimately have rows: "residual_rows ideal (v # replicate (?w * ?h - 1) 0) s DCT_DCT bd = Inr (?r0 # replicate (?h - 1) (replicate ?w 0))"
    by (simp only: residual_rows_def take bindR_simps)
  have "mapR (inverse_col ideal (?r0 # replicate (?h - 1) (replicate ?w 0)) s DCT_DCT (max (bd + 6) 16)) [0..<?w] =
      Inr (replicate (length [0..<?w]) (replicate ?h (dc_half (back_mid s v))))"
    using inverse_col_dc[OF mid bd] by (intro mapR_replicate) simp
  then show ?thesis unfolding residual_cols_def rows by simp
qed

section \<open>Forward and back\<close>

text \<open>A block of samples that stay samples when \<open>c\<close> is added.\<close>

definition flat_pair :: "tx_size \<Rightarrow> nat \<Rightarrow> int \<Rightarrow> int list list \<Rightarrow> bool" where
  "flat_pair s bd c pred \<longleftrightarrow> length pred = tx_height s \<and> (\<forall>row\<in>set pred. length row = tx_width s \<and>
     (\<forall>v\<in>set row. 0 \<le> v \<and> v < 2 ^ bd \<and> 0 \<le> v + c \<and> v + c < 2 ^ bd))"

lemma flat_pair_small:
  assumes "flat_pair s bd c pred"
  shows "\<bar>c\<bar> < 2 ^ bd"
proof -
  obtain row rest where row: "pred = row # rest" using assms dims_facts(2)[of s] by (cases pred) (auto simp: flat_pair_def)
  moreover obtain v vs where "row = v # vs" using assms row dims_facts(1)[of s] by (cases row) (auto simp: flat_pair_def)
  ultimately show ?thesis using assms by (auto simp: flat_pair_def)
qed

lemma residual_flat:
  assumes "flat_pair s bd c pred"
  shows "residual_of (map (map (\<lambda>v. v + c)) pred) pred = replicate (tx_width s * tx_height s) c"
proof -
  have row: "map2 (-) (map (\<lambda>v. v + c) row) row = replicate (length row) c" for row :: "int list"
    by (induction row) simp_all
  have "concat (map2 (map2 (-)) (map (map (\<lambda>v. v + c)) rows) rows) = replicate (w * length rows) c"
    if "\<forall>row\<in>set rows. length row = w" for rows :: "int list list" and w
    using that by (induction rows) (simp_all add: row replicate_add[symmetric])
  from this[of pred "tx_width s"] show ?thesis using assms by (simp add: residual_of_def flat_pair_def)
qed

lemma flat_lossless:
  assumes ok: "machine_ok ar" and bd: "bd = 8 \<or> bd = 10" and wide: "wide \<or> bd = 8" and pred: "flat_pair s bd c pred"
    and out: "length output = tx_width s * tx_height s"
  shows "\<exists>dc. forward_transform ar wide (residual_of (map (map (\<lambda>v. v + c)) pred) pred) output (tx_width s) s DCT_DCT bd =
      Inr (dc # replicate (tx_width s * tx_height s - 1) 0) \<and>
    inverse_transform_add ar (dc # replicate (tx_width s * tx_height s - 1) 0) pred s DCT_DCT bd = Inr (map (map (\<lambda>v. v + c)) pred)"
proof -
  let ?w = "tx_width s" and ?h = "tx_height s" and ?dc = "flat_dc s bd c"
  let ?in = "?dc # replicate (?w * ?h - 1) 0"
  have bds: "8 \<le> bd" "bd \<le> 10" using bd by auto
  note c = flat_pair_small[OF pred]
  note num = flat_numbers[OF bd c, of s]
  have big: "(2 :: int) ^ (bd + 7) \<le> 131072" "bd = 8 \<Longrightarrow> (2 :: int) ^ (bd + 7) = 32768" using bd by auto
  have cast: "cast_from wide ?dc = ?dc"
    using wide num(1) big(2) by (auto simp: cast_from_def)
  have fwd: "forward_transform ar wide (residual_of (map (map (\<lambda>v. v + c)) pred) pred) output ?w s DCT_DCT bd = Inr ?in"
    unfolding residual_flat[OF pred] by (rule flat_forward[OF ok bd c cast out])
  have cols: "residual_cols ideal ?in s DCT_DCT bd = Inr (replicate ?w (replicate ?h (dc_half (back_mid s ?dc))))"
    by (rule residual_dc[OF bds]) (use num(1,2) in simp_all)
  have "valid_av1_transform s DCT_DCT" by (cases s) (simp_all add: valid_av1_transform_def)
  moreover have "min ?w 32 * min ?h 32 \<le> length ?in"
  proof -
    have "min ?w 32 * min ?h 32 \<le> ?w * ?h" by (intro mult_le_mono) simp_all
    then show ?thesis using dims_facts[of s] by simp
  qed
  moreover have "\<bar>v\<bar> \<le> 524288" if "v \<in> set ?in" for v using that num(1) big(1) by (auto split: if_splits)
  moreover have "?w \<le> length (pred ! i)" if "i < length pred" for i using pred that by (simp add: flat_pair_def)
  moreover have "0 \<le> v \<and> v < 2 ^ bd" if "row \<in> set pred" "v \<in> set row" for row v using pred that by (auto simp: flat_pair_def)
  ultimately obtain cs rows where rows: "residual_cols ideal ?in s DCT_DCT bd = Inr cs" "inverse_transform_add ar ?in pred s DCT_DCT bd = Inr rows"
      "block_added s DCT_DCT bd cs pred rows"
    using inverse_transform_add_ok[OF ok bds, of s DCT_DCT ?in pred] by auto
  have cs: "cs = replicate ?w (replicate ?h (dc_half (back_mid s ?dc)))" using rows(1) unfolding cols by simp
  have add: "added DCT_DCT (cs ! j ! i) = c" if "i < ?h" "j < ?w" for i j
    using that num(3) by (simp add: cs added_def)
  have len: "length pred = ?h" "length rows = ?h" "i < ?h \<Longrightarrow> length (pred ! i) = ?w" "i < ?h \<Longrightarrow> length (rows ! i) = ?w" for i
    using rows(3) pred by (simp_all add: block_added_def flat_pair_def)
  have "rows ! i ! j = pred ! i ! j + c" if ij: "i < ?h" "j < ?w" for i j
  proof -
    have "pred ! i \<in> set pred" "pred ! i ! j \<in> set (pred ! i)" using ij len by simp_all
    then have "0 \<le> pred ! i ! j + c" "pred ! i ! j + c < 2 ^ bd" using pred unfolding flat_pair_def by blast+
    then show ?thesis using rows(3) ij len add[OF ij] by (simp add: block_added_def)
  qed
  then have "rows = map (map (\<lambda>v. v + c)) pred" using len by (intro nth_equalityI) simp_all
  then show ?thesis using fwd rows(2) by blast
qed

end
