(* ===== verification/Spec2Isabelle.thy ===== *)
theory Spec2Isabelle
  imports O3_EncDecode Av1_Coding Av1_QuantLaws Av1_ApiRun Av1_FlatInv
begin

text \<open>
  Verification of this repository: the AV1 encoder \<open>rav1e\<close> (\<open>src/src\<close>), of which the
  entropy coder with its contexts, the scans, the quantizer, the transforms and the
  scheduling of frames are modelled, and the O3YV codec built beside it for 400x240 stereo pictures (two eyes side by
  side), which is modelled whole: its decoder is the library
  \<open>src/minidecoder/src/lib.rs\<close>, its encoder the program
  \<open>src/src/bin/rav1e-o3yv.rs\<close>. The theories of the first are named \<open>Av1_*\<close>, those
  of the second \<open>O3_*\<close>.

  The O3YV codec. A stream is a file header and frames. A key frame holds both eyes
  raw; a P-frame holds two tiles, one per eye, each with a base motion vector
  and fragments (rows of 16x16 macroblocks). A fragment has four byte streams:
  segment map, modes, residuals, raw macroblocks. A macroblock is skipped (the
  base prediction), copied with one to four vectors, or raw, and may carry a
  residual of 4x4 blocks (DC only, masked coefficients, or raw samples). The
  decoder keeps the reference and a scratch frame and swaps them after every
  frame; the encoder keeps its reconstruction and must predict from what the
  decoder will show.

  Conventions. Fallible code returns \<open>error + 'a\<close> (\<open>result\<close>, with \<open>bindR\<close> and
  the loop \<open>forR\<close>); every \<open>return Err\<close> of the source is an \<open>Eof\<close>, \<open>Invalid\<close> or
  \<open>Unsupported\<close> branch, and an access out of bounds (checked or by pointer) or a
  panic is \<open>Fault\<close>. Bytes and fixed-width fields are words; \<open>i32\<close> arithmetic of
  the inverse transform wraps (\<open>wrap32\<close>); lengths and counters (\<open>usize\<close>, \<open>u64\<close>)
  are naturals, with the width written out where the source checks it
  (\<open>checked_add\<close>) and bounds proved where it does not. Loops are recursion with
  a measure or \<open>forR\<close> over the index list, so everything is total and no fuel is
  used.

  The AV1 encoder codes symbols with a range coder: a \<open>WriterBase\<close> over a storage
  that counts, records or encodes. A symbol is coded with a CDF of the tile's
  \<open>CDFContext\<close>, a struct of several thousand words that adapts after every symbol;
  a log of overwritten words (\<open>CDFContextLog\<close>) undoes the trials of the
  rate-distortion search. The model has the struct as its memory, a list of words
  with a layout (\<open>CDFContext\<close> names each field in the source's order), because the
  source writes it through raw pointers, also past the end of a short CDF into the
  next one.

  Decoder, in the order of its layers:
  \<^item> \<open>O3_Prelude\<close>, \<open>O3_Bits\<close>: the result type, loops, little-endian bytes,
    \<open>pmap\<close> (a plane given by a function of the index), masks as sets.
  \<^item> \<open>O3_Bytes\<close>: \<open>Reader\<close> and the \<open>put_*\<close> writers; the locale \<open>fixed_codec\<close>
    states the contract of a fixed-width field and is interpreted for every
    field type.
  \<^item> \<open>O3_Plane\<close>, \<open>O3_Eye\<close>, \<open>O3_Macroblock\<close>, \<open>O3_MbInterface\<close>: planes, eyes, the
    prediction copies as regions moved by a vector, raw macroblocks; the locale
    \<open>mb_op\<close> (an operation that touches one macroblock and depends on nothing
    else of the frame) and \<open>mb_overwrite\<close>, interpreted on the copies, the raw
    write and the residual.
  \<^item> \<open>O3_Residual\<close>, \<open>O3_Block\<close>, \<open>O3_MbResidual\<close>: block decoding, the DC clip
    table, the inverse transform and its exactness.
  \<^item> \<open>O3_Fragment\<close>, \<open>O3_Parse\<close>, \<open>O3_FragmentLaws\<close>: modes, headers, segment
    maps, and the decoder as a parse to a description (\<open>mb_desc\<close>) followed by
    its application.
  \<^item> \<open>O3_Stream\<close>, \<open>O3_Tile\<close>, \<open>O3_Decoder\<close>, \<open>O3_Machine\<close>, \<open>O3_Writers\<close>,
    \<open>O3_Sbs\<close>, \<open>O3_StreamLaws\<close>: stream writers and readers, tiles, the decoder
    state, the streaming decoder as a step relation (\<open>sd_run\<close>) with its
    invariant, round trips, side-by-side pictures, totality.

  Encoder:
  \<^item> \<open>O3_EncBase\<close>, \<open>O3_EncBlock\<close>, \<open>O3_EncBlockLaws\<close>, \<open>O3_EncLossy\<close>: constants,
    records, the coding of a 4x4 block; every payload parses to a block that
    turns the prediction into the samples the encoder keeps (\<open>codes\<close>).
  \<^item> \<open>O3_EncSearch\<close>, \<open>O3_EncGeom\<close>, \<open>O3_EncResidual\<close>, \<open>O3_EncMb\<close>: vector
    searches, the residual of a macroblock and the macroblock decision
    (\<open>choice_ok\<close>: what a choice writes, parses to, reconstructs and counts).
  \<^item> \<open>O3_EncTile\<close>, \<open>O3_EncBand\<close>, \<open>O3_EncTileLaws\<close>: bands of macroblocks with
    skip runs and segment maps; \<open>band_inv\<close> is the loop invariant, \<open>tile_done\<close>
    the contract of \<open>encode_tile\<close>.
  \<^item> \<open>O3_EncRate\<close>, \<open>O3_EncRateLaws\<close>: rolling window, budgets, quality metrics,
    scene cuts, and \<open>encode_budgeted_p_frame\<close> over the locale
    \<open>candidate_encoder\<close>, interpreted on \<open>encode_p_frame_candidate\<close>.
  \<^item> \<open>O3_EncMain\<close>, \<open>O3_EncMainLaws\<close>, \<open>O3_EncDecode\<close>: options, the frame loop
    with its loopback check and the invariant \<open>stream_inv\<close>; the contracts above
    restated through the decoder's own functions.

  AV1, in the order of its layers:
  \<^item> \<open>Av1_Ec\<close>: \<open>ec.rs\<close>, the three storages, symbol costs, adaptation, and the reader
    of its unit tests. \<open>Av1_EcLaws\<close> states the contract of a storage as the locale
    \<open>storage_backend\<close>, \<open>Av1_EcCoder\<close> interprets it on all three; the encoder's
    invariant \<open>enc_state\<close> ties bytes and carries to the exact low end of the
    interval. \<open>Av1_EcRound\<close>: a number in the final interval is decoded to the same
    symbols; \<open>Av1_EcCost\<close>: costs; \<open>Av1_EcAdapt\<close>: adaptation keeps \<open>cdf_ok\<close>.
  \<^item> \<open>Av1_Cdf\<close>, \<open>Av1_CdfDefaults\<close>, \<open>Av1_CdfTokens\<close>, \<open>Av1_CdfCoeffs\<close>: \<open>util/cdf.rs\<close>,
    \<open>entropymode.rs\<close> and \<open>token_cdfs.rs\<close>, every table with the lemma that it is valid.
  \<^item> \<open>Av1_CdfLayout\<close>, \<open>Av1_CdfLog\<close>, \<open>Av1_CdfLogLaws\<close>, \<open>Av1_Stream\<close>, \<open>Av1_ContextLaws\<close>,
    \<open>Av1_Coding\<close>: \<open>context/cdf_context.rs\<close>; the locale \<open>cdf_layout\<close> (what the undo log
    needs of the struct: padding after the last CDF of each size class) is
    interpreted on the slots of \<open>CDFContext\<close>; \<open>coding_state\<close> is the inductive set
    of the states that coding, undoing, clearing and the next frame reach.
  \<^item> \<open>Av1_Tx\<close>, \<open>Av1_Scan\<close>: transform sizes and types, scans and their inverses.
  \<^item> \<open>Av1_Quant\<close>, \<open>Av1_DivLaws\<close>, \<open>Av1_QuantLaws\<close>: \<open>quantize/\<close>; the rounding shift of the
    frame library is the parameter \<open>align\<close> with its documented value (\<open>align_ok\<close>).
  \<^item> \<open>Av1_InvTx\<close>, \<open>Av1_FwdTx\<close>: every transform of \<open>transform/\<close>. The arithmetic of \<open>i32\<close>
    is the record \<open>i32_arith\<close>, a parameter; \<open>machine_ok\<close> is all that the theorems
    assume of it (exact results in range), \<open>ideal\<close> and \<open>wrapping_i32\<close> satisfy it.
    \<open>Av1_InvTxBounds\<close> bounds every stage of an inverse transform, \<open>Av1_InvTxLaws\<close>
    the transform of a block, \<open>Av1_FwdTxLaws\<close> has the lossless transform;
    \<open>Av1_FlatTx\<close> and \<open>Av1_FlatInv\<close> follow a flat block forward and back, with the
    rounding errors of all stages as bounds on reals (\<open>near\<close>). Forward transforms
    other than of flat and lossless blocks have no bound of their own.
  \<^item> \<open>Av1_Reorder\<close>, \<open>Av1_Api\<close>: the schedule of frames (\<open>InterConfig\<close>, the scheduling
    fields of \<open>FrameInvariants\<close>, the reference buffer) and the numbering of outputs
    in \<open>api/internal.rs\<close>, with the queue's pictures by number. \<open>Av1_ReorderLaws\<close>,
    \<open>Av1_ApiLaws\<close>, \<open>Av1_ApiRun\<close>: the locale \<open>group_scheme\<close> is what the run needs of a
    group of pictures (slots, hints, order of showing); it is interpreted on the
    pyramid of four and on the low-latency configuration.

  What the theorems show. For AV1: what is coded is decoded, with adaptation,
  from every reachable state; trials leave no trace; recording, counting and
  encoding agree; costs are exact; contexts stay valid; reciprocal division,
  the end of block and the quantization error are right; scans are permutations;
  inverse transforms cannot overflow and change only their block; lossless blocks
  and flat blocks are restored; every picture is shown once, in order, and every reference that a
  frame names is the frame that its decoder holds.
  For O3YV: the loop of encoder and decoder is closed on every
  input; the decoder is total on arbitrary bytes, confined to its buffers and
  independent of its scratch frame; its shortcuts (lazy base copy, reuse of the
  reference, DC blocks, zero-vector spans, counting without decoding) agree with
  the plain computation; the encoder's residuals, choices, statistics, searches
  and metrics are what the decoder finds; key frames recur; the budget and the
  rolling window hold as far as the code enforces them. The size bounds
  (\<open>2 ^ 64\<close>) are the decoder's stream position; 14100062 bounds the bytes of a
  P-frame, so the bound admits any input of less than 10 ^ 12 frames.

  Not modelled: reading and writing files, log lines and usage text of the
  program, \<open>Display\<close> of errors, the C bindings and command line tools around
  the O3YV library; of the AV1 encoder the block syntax and headers,
  prediction and loop filters, motion and rate-distortion search (decisions in
  floating point over generic pixel types), rate control, the threaded API and
  the assembly.
\<close>

section \<open>The encoder and the decoder together\<close>

text \<open>
  C1: the encoder's loop is closed. For any input of at least one picture and
  any options the program accepts (with \<open>--loopback\<close> too, whose check
  therefore never fails), encoding returns a stream; decoding that stream gives
  as many frames as were selected, numbered from 0, the last of them the very
  frame the encoder kept as its reference, and every key frame shows its source
  picture bit for bit. The size bound is the decoder's 64-bit position.
\<close>

theorem encoder_decoder_closed_loop:
  assumes "SBS_FRAME_BYTES \<le> length input" and "op_frames options \<noteq> Some 0" and "0 < op_keyint options"
    and "60 + 14100062 * frames_selected options input < 2 ^ 64"
  shows "\<exists>st ds. encode_input options input = Inr st \<and> decode_stream_with_metadata (en_stream st) = Inr ds \<and>
    length ds = frames_selected options input \<and> en_reference st = Some (df_frame (last ds)) \<and>
    (\<forall>i<length ds. df_frame_no (ds ! i) = of_nat i \<and>
      (df_frame_type (ds ! i) = FRAME_TYPE_KEY_RAW \<longrightarrow>
        from_yuv420_sbs (take SBS_FRAME_BYTES (drop (i * SBS_FRAME_BYTES) input)) = Inr (df_frame (ds ! i))))"
  using encode_input_shows[OF assms] by blast

theorem encoder_decoder_closed_loop_witness:
  "\<exists>st ds. encode_input \<lparr>op_input = [], op_output = [], op_frames = Some 1, op_keyint = 48, op_loopback = True,
      op_row_bands = True, op_max_p_frame_bytes = 131072\<rparr> (replicate 288000 9) = Inr st \<and>
    decode_stream_with_metadata (en_stream st) = Inr ds \<and>
    length ds = frames_selected \<lparr>op_input = [], op_output = [], op_frames = Some 1, op_keyint = 48, op_loopback = True,
      op_row_bands = True, op_max_p_frame_bytes = 131072\<rparr> (replicate 288000 9) \<and> en_reference st = Some (df_frame (last ds)) \<and>
    (\<forall>i<length ds. df_frame_no (ds ! i) = of_nat i \<and>
      (df_frame_type (ds ! i) = FRAME_TYPE_KEY_RAW \<longrightarrow>
        from_yuv420_sbs (take SBS_FRAME_BYTES (drop (i * SBS_FRAME_BYTES) (replicate 288000 9))) = Inr (df_frame (ds ! i))))"
  by (rule encoder_decoder_closed_loop) (simp_all add: geom frames_selected_def)

text \<open>
  C2: a key frame always comes again. In the stream of any input, each frame is
  at most \<open>--keyint\<close> minus one frames after a key frame, so a decoder that
  joins waits at most that long.
\<close>

theorem key_frames_recur:
  assumes "SBS_FRAME_BYTES \<le> length input" and "op_frames options \<noteq> Some 0" and "0 < op_keyint options"
    and "60 + 14100062 * frames_selected options input < 2 ^ 64"
  shows "\<exists>st ds. encode_input options input = Inr st \<and> decode_stream_with_metadata (en_stream st) = Inr ds \<and>
    en_key_frames st = length (filter (\<lambda>d. df_frame_type d = FRAME_TYPE_KEY_RAW) ds) \<and>
    (\<forall>i<length ds. \<exists>j\<le>i. i - j < op_keyint options \<and> df_frame_type (ds ! j) = FRAME_TYPE_KEY_RAW)"
  using encode_input_shows[OF assms] by blast

theorem key_frames_recur_witness:
  "\<exists>st ds. encode_input \<lparr>op_input = [], op_output = [], op_frames = None, op_keyint = 1, op_loopback = False,
      op_row_bands = False, op_max_p_frame_bytes = 0\<rparr> (replicate 288000 9) = Inr st \<and>
    decode_stream_with_metadata (en_stream st) = Inr ds \<and>
    en_key_frames st = length (filter (\<lambda>d. df_frame_type d = FRAME_TYPE_KEY_RAW) ds) \<and>
    (\<forall>i<length ds. \<exists>j\<le>i. i - j < op_keyint \<lparr>op_input = [], op_output = [], op_frames = None, op_keyint = 1, op_loopback = False,
      op_row_bands = False, op_max_p_frame_bytes = 0\<rparr> \<and> df_frame_type (ds ! j) = FRAME_TYPE_KEY_RAW)"
  by (rule key_frames_recur) (simp_all add: geom frames_selected_def)

text \<open>
  C3: a P-frame candidate shows what the encoder thinks it shows. In every mode
  \<open>encode_p_frame_candidate\<close> returns; its bytes are a P-frame that any decoder
  holding the reference decodes to the candidate's reconstruction (the payload
  is consumed, the reuse shortcut and the scratch frame do not matter), and in
  lossless mode that is the source.
\<close>

theorem p_frame_candidate_decodes:
  assumes "wf_sbs frame" and "wf_sbs reference"
  shows "\<exists>c. encode_p_frame_candidate no frame reference row_bands mode = Inr c \<and> (mode = Lossless \<longrightarrow> pc_recon c = frame) \<and>
    (\<forall>current. wf_sbs current \<longrightarrow> (\<exists>r st'.
      decode_next_frame (reader_new (pc_bytes c)) \<lparr>ds_reference = reference, ds_current = current, ds_has_reference = True\<rparr> =
        Inr (Some \<lparr>df_frame_no = no, df_frame_type = FRAME_TYPE_P, df_frame = pc_recon c\<rparr>, r, st') \<and>
      remaining r = 0 \<and> ds_reference st' = pc_recon c))"
  using candidate_decodes[OF encode_p_frame_candidate_ok[OF assms]] assms by blast

theorem p_frame_candidate_decodes_witness:
  "\<exists>c. encode_p_frame_candidate 7 SbsFrame_new SbsFrame_new True (Budget 4) = Inr c \<and>
    (Budget 4 = Lossless \<longrightarrow> pc_recon c = SbsFrame_new) \<and>
    (\<forall>current. wf_sbs current \<longrightarrow> (\<exists>r st'.
      decode_next_frame (reader_new (pc_bytes c)) \<lparr>ds_reference = SbsFrame_new, ds_current = current, ds_has_reference = True\<rparr> =
        Inr (Some \<lparr>df_frame_no = 7, df_frame_type = FRAME_TYPE_P, df_frame = pc_recon c\<rparr>, r, st') \<and>
      remaining r = 0 \<and> ds_reference st' = pc_recon c))"
  by (rule p_frame_candidate_decodes) simp_all


text \<open>
  C4: the statistics that the budget is checked on count what the decoder will
  find. With \<open>left\<close> and \<open>right\<close> the tiles of the candidate and \<open>ds\<close> their
  macroblocks as they parse, the raw macroblocks and the blocks of each coding
  are counted exactly, the byte count is the frame's length, and so a candidate
  within the budget asks of a decoder at most 96 raw macroblocks, 3000 DC
  blocks and 256 inverse transforms.
\<close>

theorem statistics_count_parsed_frame:
  assumes "wf_sbs frame" and "wf_sbs reference"
  shows "\<exists>c left dl right dr ds. encode_p_frame_candidate no frame reference row_bands mode = Inr c \<and>
    pc_bytes c = write_p_frame [] no left right \<and>
    parse_tiles (p_payload left right) = Inr (tile_to_ast left dl, tile_to_ast right dr) \<and>
    ds = concat dl @ concat dr \<and> length ds = 750 \<and>
    fs_raw_mb (pc_stats c) = raw_count ds \<and> fs_skip_mb (pc_stats c) + fs_base_res_mb (pc_stats c) = base_count ds \<and>
    fs_dc_only_blocks (pc_stats c) = blk_total rs_dc_only_blocks ds \<and>
    fs_raw_4x4_blocks (pc_stats c) = blk_total rs_raw_4x4_blocks ds \<and>
    fs_full_idct_blocks (pc_stats c) = blk_total rs_full_idct_blocks ds \<and>
    fs_p_frame_bytes (pc_stats c) = length (pc_bytes c) \<and>
    (p_frame_satisfies_budget (pc_stats c) max_p_frame_bytes \<longrightarrow> length (pc_bytes c) \<le> max_p_frame_bytes \<and>
      raw_count ds \<le> 96 \<and> blk_total rs_dc_only_blocks ds \<le> 3000 \<and> blk_total rs_full_idct_blocks ds \<le> 256)"
proof -
  from candidate_statistics[OF encode_p_frame_candidate_ok[OF assms]]
  obtain c left dl right dr where c: "encode_p_frame_candidate no frame reference row_bands mode = Inr c"
    "pc_bytes c = write_p_frame [] no left right"
    "parse_tiles (p_payload left right) = Inr (tile_to_ast left dl, tile_to_ast right dr)"
    "counts_parsed (pc_stats c) (concat dl @ concat dr)" "fs_p_frame_bytes (pc_stats c) = length (pc_bytes c)" by blast
  show ?thesis
    using c by (intro exI[of _ c] exI[of _ left] exI[of _ dl] exI[of _ right] exI[of _ dr] exI[of _ "concat dl @ concat dr"])
      (auto simp: counts_parsed_def p_frame_satisfies_budget_def geom MAX_RAW_MB_PER_P_FRAME_def
        MAX_DC_ONLY_BLOCKS_PER_P_FRAME_def MAX_FULL_IDCT_BLOCKS_PER_P_FRAME_def)
qed

theorem statistics_count_parsed_frame_witness:
  "\<exists>c. encode_p_frame_candidate 7 SbsFrame_new SbsFrame_new False Lossless = Inr c \<and>
    fs_p_frame_bytes (pc_stats c) = length (pc_bytes c)"
  using statistics_count_parsed_frame[of SbsFrame_new SbsFrame_new 7 False Lossless 0] by auto



text \<open>
  C6: a reserve for a coming raw key frame is kept. After a frame that
  \<open>rolling_window_allows_next_raw_after_frame\<close> admits, the window has room for
  a raw key frame, and this frame itself is within the window when no recent
  frame was larger than a raw key frame; without that condition only the next
  frame's window is checked.
\<close>

theorem raw_key_reserve_kept:
  assumes "rolling_window_allows_next_raw_after_frame recent n"
  shows "rolling_window_allows_keyframe (recent @ [n]) \<and>
    ((\<forall>b\<in>set recent. b \<le> KEY_RAW_CODED_BYTES) \<longrightarrow> rolling_window_allows_frame_bytes recent n) \<and>
    sum_list (take 24 (rev (recent @ [n, KEY_RAW_CODED_BYTES]))) \<le> RATE_WINDOW_BYTES"
  using reserve_next_raw[OF assms]
    rolling_window_is_last_24[of "recent @ [n]" KEY_RAW_CODED_BYTES]
  by (auto simp: rolling_window_allows_keyframe_def rolling_window_allows_frame_bytes_def)

theorem raw_key_reserve_kept_witness:
  "rolling_window_allows_keyframe ([288028, 60000] @ [1500])"
  using raw_key_reserve_kept[of "[288028, 60000]" 1500]
  by (simp add: rolling_window_allows_next_raw_after_frame_def RATE_WINDOW_FRAMES_def KEY_RAW_CODED_BYTES_def
      FRAME_HEADER_BYTES_def RATE_WINDOW_BYTES_def geom)




section \<open>The AV1 frame queue\<close>





section \<open>The AV1 range coder and its adaptive contexts\<close>

text \<open>Two slots of the contexts, for concrete runs.\<close>

lemma slot_witness: "(0, 2) \<in> set cdf_slots" "(12, 2) \<in> set cdf_slots"
  by (simp_all add: cdf_slots_def CDFContext_def cdf_geom image_iff)

text \<open>
  C10: what the range coder writes is read back. From any state of a tile's
  contexts and log that coding reaches, a fresh encoder that codes any symbols
  with adaptation ends without a fault, and a reader of its bytes that knows only
  the contexts and the order of the CDFs used returns the symbols and arrives at
  the same adapted contexts.
\<close>

theorem av1_stream_roundtrip:
  assumes "coding_state l fc" and "codable xs"
  shows "\<exists>w l' fc' rd rd'. symbols_with_update encoder_store xs (WriterEncoder_new, l, fc) = Inr (w, l', fc') \<and>
    ec_reader_new (encoder_done w) = Inr rd \<and> decode_symbols (map snd xs) (rd, fc) = Inr (map fst xs, rd', fc')"
  using stream_roundtrip[OF conjunct2[OF coding_state_ok[OF assms(1)]] assms(2)[unfolded codable_syms]] coding_run(1)[OF assms]
  by fastforce

theorem av1_stream_roundtrip_witness:
  "\<exists>w l' fc' rd rd'. symbols_with_update encoder_store [(1, 0, 2), (0, 12, 2)] (WriterEncoder_new, log_new, CDFContext_new 90) = Inr (w, l', fc') \<and>
    ec_reader_new (encoder_done w) = Inr rd \<and>
    decode_symbols (map snd [(1 :: u32, 0, 2), (0, 12, 2)]) (rd, CDFContext_new 90) = Inr (map fst [(1 :: u32, 0 :: nat, 2 :: nat), (0, 12, 2)], rd', fc')"
  by (rule av1_stream_roundtrip) (simp_all add: cs_new slot_witness codable_def)

text \<open>
  C11: a trial leaves no trace. After any symbols coded from such a state, in any
  of the three storages, rolling back to the checkpoints taken before gives the
  writer (its range, low end, bits and bytes), every CDF of the contexts and the
  entries of the log as they were. Rate-distortion search relies on it at every
  decision.
\<close>

theorem av1_trial_undone:
  assumes "coding_state l fc" and "codable xs"
  shows "\<exists>w' r' c' l' fc' l''. symbols_with_update encoder_store xs (w, l, fc) = Inr (w', l', fc') \<and>
    symbols_with_update recorder_store xs (r, l, fc) = Inr (r', l', fc') \<and>
    symbols_with_update counter_store xs (c, l, fc) = Inr (c', l', fc') \<and>
    encoder_rollback (encoder_checkpoint w) w' = w \<and> recorder_rollback (recorder_checkpoint r) r' = r \<and>
    counter_rollback (counter_checkpoint c) c' = c \<and> log_rollback l' fc' (log_checkpoint l) = Inr (l'', fc) \<and>
    lp_data (log_small l'') = lp_data (log_small l) \<and> lp_data (log_large l'') = lp_data (log_large l)"
proof -
  obtain l'' where "log_rollback (run_log l fc xs) (run_context fc xs) (log_checkpoint l) = Inr (l'', fc)"
    "lp_data (log_small l'') = lp_data (log_small l)" "lp_data (log_large l'') = lp_data (log_large l)"
    using coding_run(2)[OF assms] by blast
  then show ?thesis
    by (intro exI conjI)
      (rule coding_run(1)[OF assms] encoder.rollback_checkpoint recorder.rollback_checkpoint counter.rollback_checkpoint | assumption)+
qed

theorem av1_trial_undone_witness:
  "\<exists>w' r' c' l' fc' l''. symbols_with_update encoder_store [(1, 0, 2), (0, 12, 2)] (WriterEncoder_new, log_new, CDFContext_new 7) = Inr (w', l', fc') \<and>
    symbols_with_update recorder_store [(1, 0, 2), (0, 12, 2)] (WriterRecorder_new, log_new, CDFContext_new 7) = Inr (r', l', fc') \<and>
    symbols_with_update counter_store [(1, 0, 2), (0, 12, 2)] (WriterCounter_new, log_new, CDFContext_new 7) = Inr (c', l', fc') \<and>
    encoder_rollback (encoder_checkpoint WriterEncoder_new) w' = WriterEncoder_new \<and>
    recorder_rollback (recorder_checkpoint WriterRecorder_new) r' = WriterRecorder_new \<and>
    counter_rollback (counter_checkpoint WriterCounter_new) c' = WriterCounter_new \<and>
    log_rollback l' fc' (log_checkpoint log_new) = Inr (l'', CDFContext_new 7) \<and>
    lp_data (log_small l'') = lp_data (log_small log_new) \<and> lp_data (log_large l'') = lp_data (log_large log_new)"
  by (rule av1_trial_undone) (simp_all add: cs_new slot_witness codable_def)

text \<open>
  C12: a recorder replayed is the direct encoding. Symbols coded into a recorder
  and replayed into an encoder leave it as if they had been coded there, with the
  same contexts and log, and leave the recorder fresh; and all three storages
  report the same cost to an eighth of a bit, so a decision made with a counter
  holds for the bytes that are written.
\<close>

theorem av1_recorder_replay:
  assumes "coding_state l fc" and "codable xs"
  shows "\<exists>e r c l' fc'. symbols_with_update encoder_store xs (WriterEncoder_new, l, fc) = Inr (e, l', fc') \<and>
    symbols_with_update recorder_store xs (WriterRecorder_new, l, fc) = Inr (r, l', fc') \<and>
    symbols_with_update counter_store xs (WriterCounter_new, l, fc) = Inr (c, l', fc') \<and>
    replay encoder_store r WriterEncoder_new = (e, WriterRecorder_new) \<and>
    tell_frac recorder_stream_bits r = tell_frac encoder_stream_bits e \<and>
    tell_frac counter_stream_bits c = tell_frac encoder_stream_bits e"
proof -
  have "32768 \<le> unat (wr_rng WriterEncoder_new)" by (simp add: WriterEncoder_new_def WriterBase_new_def)
  then show ?thesis
    by (intro exI conjI)
      (rule coding_run(1)[OF assms] replay_recorder tell_frac_same[OF coding_run(3)[OF assms]] | assumption)+
qed

theorem av1_recorder_replay_witness:
  "\<exists>e r c l' fc'. symbols_with_update encoder_store [(1, 0, 2), (1, 0, 2)] (WriterEncoder_new, log_new, CDFContext_new 255) = Inr (e, l', fc') \<and>
    symbols_with_update recorder_store [(1, 0, 2), (1, 0, 2)] (WriterRecorder_new, log_new, CDFContext_new 255) = Inr (r, l', fc') \<and>
    symbols_with_update counter_store [(1, 0, 2), (1, 0, 2)] (WriterCounter_new, log_new, CDFContext_new 255) = Inr (c, l', fc') \<and>
    replay encoder_store r WriterEncoder_new = (e, WriterRecorder_new) \<and>
    tell_frac recorder_stream_bits r = tell_frac encoder_stream_bits e \<and>
    tell_frac counter_stream_bits c = tell_frac encoder_stream_bits e"
  by (rule av1_recorder_replay) (simp_all add: cs_new slot_witness codable_def)

text \<open>
  C13: the cost of a symbol is known before it is coded. After any symbols, what
  \<open>symbol_bits\<close> computes for the next one from the range alone is the difference
  that coding it makes to \<open>tell_frac\<close>.
\<close>

theorem av1_symbol_cost_exact:
  assumes "coding_state l fc" and "codable xs" and "s \<in> set cdf_slots" and "unat v < snd s"
  shows "\<exists>w l' fc' w'. symbols_with_update encoder_store xs (WriterEncoder_new, l, fc) = Inr (w, l', fc') \<and>
    write_symbol encoder_store (unat v) (fc_get fc' s) w = Inr w' \<and>
    symbol_bits (unat v) (fc_get fc' s) w = Inr (tell_frac encoder_stream_bits w' - tell_frac encoder_stream_bits w)"
proof -
  let ?w = "store_tokens encoder_store (run_tokens fc xs) WriterEncoder_new"
  have "\<exists>L N. enc_state WriterEncoder_new L N" using enc_state_new by blast
  from encoder.run_state[OF this coding_run(3)[OF assms(1,2)]] have w: "\<exists>L N. enc_state ?w L N" by blast
  have "cdf_ok (fc_get (run_context fc xs) s)" "unat v < length (fc_get (run_context fc xs) s)"
    using ctx.fc_get_ok[OF coding_run(4)[OF assms(1,2)] assms(3)] assms(4) by simp_all
  from encoder.tell_frac_store[OF w this] show ?thesis
    using coding_run(1)[OF assms(1,2), of encoder_store WriterEncoder_new] by blast
qed

theorem av1_symbol_cost_exact_witness:
  "\<exists>w l' fc' w'. symbols_with_update encoder_store [(1, 0, 2)] (WriterEncoder_new, log_new, CDFContext_new 30) = Inr (w, l', fc') \<and>
    write_symbol encoder_store (unat (1 :: u32)) (fc_get fc' (12, 2)) w = Inr w' \<and>
    symbol_bits (unat (1 :: u32)) (fc_get fc' (12, 2)) w = Inr (tell_frac encoder_stream_bits w' - tell_frac encoder_stream_bits w)"
  by (rule av1_symbol_cost_exact) (simp_all add: cs_new slot_witness codable_def)

text \<open>
  C14: the contexts stay valid. In every state that coding reaches, whatever was
  coded, undone, cleared or carried to the next frame, every CDF of the context
  has its length and is one the coder accepts: inverse probabilities that never
  increase and stay under one, and a count of at most 32. So no symbol ever meets
  a CDF that would make the coder fail.
\<close>

theorem av1_contexts_stay_valid:
  assumes "coding_state l fc" and "s \<in> set cdf_slots"
  shows "length (fc_get fc s) = snd s \<and> sorted_wrt (\<lambda>a b. b \<le> a) (butlast (fc_get fc s)) \<and>
    list_all (\<lambda>p. p < 32768) (butlast (fc_get fc s)) \<and> last (fc_get fc s) < 64"
  using ctx.fc_get_ok[OF conjunct2[OF coding_state_ok[OF assms(1)]] assms(2)] unfolding cdf_ok_def list_all_iff by blast

theorem av1_contexts_stay_valid_witness:
  "length (fc_get (reset_counts (CDFContext_new 100)) (12, 2)) = snd (12 :: nat, 2 :: nat) \<and>
    sorted_wrt (\<lambda>a b. b \<le> a) (butlast (fc_get (reset_counts (CDFContext_new 100)) (12, 2))) \<and>
    list_all (\<lambda>p. p < 32768) (butlast (fc_get (reset_counts (CDFContext_new 100)) (12, 2))) \<and>
    last (fc_get (reset_counts (CDFContext_new 100)) (12, 2)) < 64"
  by (rule av1_contexts_stay_valid[OF cs_next_frame[OF cs_new]]) (rule slot_witness)

section \<open>The AV1 scans and the quantizer\<close>

text \<open>
  C15: the quantizer's division is exact. For every divisor but zero and every
  32-bit dividend, multiplying by the reciprocal of \<open>divu_gen\<close> gives the quotient.
\<close>

theorem av1_division_exact:
  assumes "0 < unat d"
  shows "unat (divu_pair x (divu_gen d)) = unat x div unat d"
  using assms by (rule divu_exact)

theorem av1_division_exact_witness:
  "unat (divu_pair 4294967295 (divu_gen 29247)) = unat (4294967295 :: u32) div unat (29247 :: u32)"
  by (rule av1_division_exact) simp

text \<open>
  C16: lossless blocks. For every pair of 4x4 blocks of samples of 8 or 10 bits, the
  Walsh-Hadamard transform of their difference, added to the second block by the
  inverse transform, gives the first block: on any machine whose \<open>i32\<close> is exact in
  range, and with coefficients kept in 16 bits for 8-bit video.
\<close>

theorem av1_wht_lossless:
  assumes "machine_ok ar" and "8 \<le> bd" and "bd \<le> 10" and "wide \<or> bd = 8"
    and "samples_4x4 bd src" and "samples_4x4 bd pred" and "length output = 16"
  shows "\<exists>coeffs. forward_transform ar wide (residual_of src pred) output 4 TX_4X4 WHT_WHT bd = Inr coeffs \<and>
    inverse_transform_add ar coeffs pred TX_4X4 WHT_WHT bd = Inr src"
  by (rule wht_lossless[OF assms])

theorem av1_wht_lossless_witness:
  "let src = [[0, 255, 3, 128], [17, 255, 0, 1], [254, 2, 99, 0], [255, 255, 0, 0]]; pred = replicate 4 [255, 0, 128, 7]
   in \<exists>coeffs. forward_transform wrapping_i32 False (residual_of src pred) (replicate 16 0) 4 TX_4X4 WHT_WHT 8 = Inr coeffs \<and>
    inverse_transform_add wrapping_i32 coeffs pred TX_4X4 WHT_WHT 8 = Inr src"
  unfolding Let_def by (rule av1_wht_lossless) (simp_all add: wrapping_i32_ok samples_4x4_def)

text \<open>
  C17: the inverse transforms stay in 32 bits. For every transform size and type,
  video of 8 or 10 bits and coefficients up to 20 bits, the transform does not fail,
  computes on any machine whose \<open>i32\<close> is exact in range the residual of ideal
  integers, adds it to the samples of the block, clipped to the bit depth, and
  changes no sample outside of the block.
\<close>

theorem av1_inverse_exact:
  assumes "machine_ok ar" and "8 \<le> bd" and "bd \<le> 10" and "valid_av1_transform s t" and "t = WHT_WHT \<Longrightarrow> s = TX_4X4"
    and "min (tx_width s) 32 * min (tx_height s) 32 \<le> length input" and "\<And>v. v \<in> set input \<Longrightarrow> \<bar>v\<bar> \<le> 524288"
    and "\<And>i. i < tx_height s \<Longrightarrow> i < length output \<Longrightarrow> tx_width s \<le> length (output ! i)"
    and "\<And>row v. row \<in> set output \<Longrightarrow> v \<in> set row \<Longrightarrow> 0 \<le> v \<and> v < 2 ^ bd"
  shows "\<exists>cols out. residual_cols ideal input s t bd = Inr cols \<and> inverse_transform_add ar input output s t bd = Inr out \<and>
    length cols = tx_width s \<and> block_added s t bd cols output out"
  by (rule inverse_transform_add_ok[OF assms])

theorem av1_inverse_exact_witness:
  "\<exists>cols out. residual_cols ideal (524288 # replicate 1023 (- 524288)) TX_64X64 DCT_DCT 10 = Inr cols \<and>
    inverse_transform_add wrapping_i32 (524288 # replicate 1023 (- 524288)) (replicate 64 (replicate 64 1023)) TX_64X64 DCT_DCT 10 = Inr out \<and>
    length cols = tx_width TX_64X64 \<and> block_added TX_64X64 DCT_DCT 10 cols (replicate 64 (replicate 64 1023)) out"
  by (rule av1_inverse_exact) (auto simp: wrapping_i32_ok valid_av1_transform_def tx_width_def tx_height_def)

text \<open>
  C18: flat blocks. In every transform size, for 8 and 10 bits, a block of samples
  predicted up to the same difference \<open>c\<close> everywhere is coded by a single number:
  the forward cosine transform of the residual has one coefficient and zeros, and the
  inverse transform of it, added to the prediction, gives the block exactly, with the
  roundings of all stages in the arithmetic of any machine whose \<open>i32\<close> is exact in
  range.
\<close>

theorem av1_flat_lossless:
  assumes "machine_ok ar" and "bd = 8 \<or> bd = 10" and "wide \<or> bd = 8" and "flat_pair s bd c pred"
    and "length output = tx_width s * tx_height s"
  shows "\<exists>dc. forward_transform ar wide (residual_of (map (map (\<lambda>v. v + c)) pred) pred) output (tx_width s) s DCT_DCT bd =
      Inr (dc # replicate (tx_width s * tx_height s - 1) 0) \<and>
    inverse_transform_add ar (dc # replicate (tx_width s * tx_height s - 1) 0) pred s DCT_DCT bd = Inr (map (map (\<lambda>v. v + c)) pred)"
  by (rule flat_lossless[OF assms])

theorem av1_flat_lossless_witness:
  "let pred = replicate 32 (replicate 64 7) in
   \<exists>dc. forward_transform wrapping_i32 False (residual_of (map (map (\<lambda>v. v + 248)) pred) pred) (replicate 2048 0) 64 TX_64X32 DCT_DCT 8 = Inr (dc # replicate 2047 0) \<and>
    inverse_transform_add wrapping_i32 (dc # replicate 2047 0) pred TX_64X32 DCT_DCT 8 = Inr (map (map (\<lambda>v. v + 248)) pred)"
  using av1_flat_lossless[of wrapping_i32 8 False TX_64X32 248 "replicate 32 (replicate 64 7)" "replicate 2048 0"]
  by (simp add: wrapping_i32_ok flat_pair_def tx_width_def tx_height_def Let_def)

text \<open>
  C19: quantizing a block. For every transform size and type of AV1 and every
  context an update leaves, \<open>quantize\<close> returns without a fault, its result is the
  position after the last coefficient of the scan that is not zero (its own
  assertion), and dequantizing gives back every coefficient up to one step and
  the rounding of the shift, whatever biases were chosen. The coefficients are
  those the 32-bit arithmetic and the coefficient type can hold with a step to
  spare; the output array comes zeroed, as the source asks.
\<close>

theorem av1_quantize_block:
  fixes coeffs :: "'a::len word list"
  assumes "t \<noteq> WHT_WHT" and "length coeffs = coded_area ts" and "align_ok align"
    and "16 \<le> LENGTH('a)" and "LENGTH('a) \<le> 32"
    and "S = QuantizationContext_update qi ts intra bd dd da S0"
    and "\<forall>i<coded_area ts. \<bar>sint (coeffs ! i)\<bar> + step_at S i \<le> 2 ^ (LENGTH('a) - 1) \<and> \<bar>sint (coeffs ! i)\<bar> < 2 ^ 28"
  shows "\<exists>qs. quantize align S coeffs (replicate (coded_area ts) 0) ts t = Inr (coded_end (scan_for ts t) qs, qs) \<and>
    (\<forall>i<coded_area ts. \<bar>sint (dequantize qi qs (replicate (coded_area ts) 0) ts bd dd da ! i) - sint (coeffs ! i)\<bar>
      * 2 ^ get_log_tx_scale ts < step_at S i + 2 ^ get_log_tx_scale ts)"
  using assms by (rule quantize_dequantize)

theorem av1_quantize_block_witness:
  "\<exists>qs. quantize (\<lambda>x n. (x + 2 ^ n - 1) div 2 ^ n) (QuantizationContext_update 60 TX_4X4 True 8 0 0 QuantizationContext_default)
      (replicate 16 (300 :: u16)) (replicate (coded_area TX_4X4) 0) TX_4X4 DCT_ADST = Inr (coded_end (scan_for TX_4X4 DCT_ADST) qs, qs) \<and>
    (\<forall>i<coded_area TX_4X4. \<bar>sint (dequantize 60 qs (replicate (coded_area TX_4X4) 0) TX_4X4 8 0 0 ! i) - sint (replicate 16 (300 :: u16) ! i)\<bar>
      * 2 ^ get_log_tx_scale TX_4X4 < step_at (QuantizationContext_update 60 TX_4X4 True 8 0 0 QuantizationContext_default) i + 2 ^ get_log_tx_scale TX_4X4)"
proof (rule av1_quantize_block[where intra = True and ?S0.0 = QuantizationContext_default])
  let ?S = "QuantizationContext_update 60 TX_4X4 True 8 0 0 QuantizationContext_default"
  have n: "coded_area TX_4X4 = 16" by (simp add: coded_area_def tx_width_def tx_height_def)
  then show "length (replicate 16 (300 :: u16)) = coded_area TX_4X4" by simp
  show "\<forall>i<coded_area TX_4X4. \<bar>sint (replicate 16 (300 :: u16) ! i)\<bar> + step_at ?S i \<le> 2 ^ (LENGTH(16) - 1) \<and> \<bar>sint (replicate 16 (300 :: u16) ! i)\<bar> < 2 ^ 28"
    using qc_ok_step[OF QuantizationContext_update_ok[of TX_4X4 60 True 8 0 0 QuantizationContext_default]] by (simp add: n) (smt (verit))
qed (simp_all add: align_ok_def)

text \<open>
  C20: the scans. For every transform size and type of AV1 the table's scan visits
  each coded coefficient once, the first at zero, and its inverse leads back.
\<close>

theorem av1_scans_are_orders:
  assumes "t \<noteq> WHT_WHT"
  shows "\<exists>o'. o' = av1_scan_orders ! index_of all_tx_sizes s ! index_of all_tx_types t \<and> distinct (so_scan o') \<and>
    set (so_scan o') = {..<coded_area s} \<and> so_scan o' ! 0 = 0 \<and>
    (\<forall>i<coded_area s. so_iscan o' ! (so_scan o' ! i) = i \<and> so_scan o' ! (so_iscan o' ! i) = i)"
proof -
  obtain xs where xs: "av1_scan_orders ! index_of all_tx_sizes s ! index_of all_tx_types t = scan_order xs" "is_scan (coded_area s) xs"
    using av1_scan_orders_ok[OF assms] by blast
  then show ?thesis using invert_scan[OF xs(2)] by (simp add: scan_order_def is_scan_def)
qed

theorem av1_scans_are_orders_witness:
  "\<exists>o'. o' = av1_scan_orders ! index_of all_tx_sizes TX_8X8 ! index_of all_tx_types V_DCT \<and> distinct (so_scan o') \<and>
    set (so_scan o') = {..<coded_area TX_8X8} \<and> so_scan o' ! 0 = 0 \<and>
    (\<forall>i<coded_area TX_8X8. so_iscan o' ! (so_scan o' ! i) = i \<and> so_scan o' ! (so_iscan o' ! i) = i)"
  by (rule av1_scans_are_orders) simp

section \<open>Streams\<close>

text \<open>
  C21: a stream is decoded to exactly the pictures its writer meant. For every
  list of key frames and P-frames whose tiles parse and fill both eyes,
  \<open>decode_stream_with_metadata\<close> on the written bytes returns each frame's
  number, type and picture, where a P-frame's picture is a function of the
  previous picture only.
\<close>

theorem decode_stream_roundtrip:
  assumes "stream_ok False ws" and "60 + length (write_all ws) < 2 ^ 64"
  shows "decode_stream_with_metadata (write_file_header [] n @ write_all ws) = Inr (shown_all SbsFrame_new ws)"
  using assms by (rule decode_stream_written)

theorem decode_stream_roundtrip_witness:
  "decode_stream_with_metadata (write_file_header [] 2 @ write_all still_stream) = Inr (shown_all SbsFrame_new still_stream)"
  by (rule decode_stream_roundtrip) (rule still_stream_ok)+

text \<open>
  C22: no input crashes the decoder. On any byte string
  \<open>decode_stream_with_metadata\<close> returns an error or frames, never an access
  out of bounds or a panic; every frame has planes of the right size, the
  first one is a key frame, and each frame has used at least its 28 header
  bytes, so the loop ends.
\<close>

theorem decode_stream_total:
  "decode_stream_with_metadata bytes \<noteq> Inl Fault \<and>
    (\<forall>fs. decode_stream_with_metadata bytes = Inr fs \<longrightarrow>
      60 + 28 * length fs \<le> length bytes \<and> (\<forall>d\<in>set fs. wf_sbs (df_frame d)) \<and>
      (fs \<noteq> [] \<longrightarrow> df_frame_type (hd fs) = FRAME_TYPE_KEY_RAW))"
  using decode_stream_safe[of bytes] decode_stream_frames[of bytes] by blast

theorem decode_stream_total_witness:
  "60 + 28 * length (shown_all SbsFrame_new still_stream) \<le> length (write_file_header [] 2 @ write_all still_stream) \<and>
    df_frame_type (hd (shown_all SbsFrame_new still_stream)) = FRAME_TYPE_KEY_RAW"
proof -
  have "decode_stream_with_metadata (write_file_header [] 2 @ write_all still_stream) = Inr (shown_all SbsFrame_new still_stream)"
    by (rule decode_stream_written) (rule still_stream_ok)+
  moreover have "shown_all SbsFrame_new still_stream \<noteq> []" by (simp add: still_stream_def)
  ultimately show ?thesis using decode_stream_total[of "write_file_header [] 2 @ write_all still_stream"] by simp
qed

text \<open>
  C23: the unchecked, in-place frame decoder implements its specification.
  \<open>decode_next_frame\<close>, which overwrites the scratch frame while it parses, is
  parsing the frame into a description first and applying that to the state
  afterwards; in particular its errors do not depend on any picture.
\<close>

theorem decode_next_frame_refines:
  assumes "wf_state st"
  shows "decode_next_frame r st =
    bindR (parse_frame (ds_has_reference st) r) (\<lambda>(x, r). Inr (fst (finish_frame st x), r, snd (finish_frame st x)))"
  using assms by (rule decode_next_frame_ok)

theorem decode_next_frame_refines_witness:
  "decode_next_frame (reader_new [1, 2, 3]) DecoderState_new =
    bindR (parse_frame (ds_has_reference DecoderState_new) (reader_new [1, 2, 3]))
      (\<lambda>(x, r). Inr (fst (finish_frame DecoderState_new x), r, snd (finish_frame DecoderState_new x)))"
  by (rule decode_next_frame_refines) simp





text \<open>
  C26: a decoded P-frame does not depend on the scratch frame. The decoder
  swaps two buffers, so the frame it decodes into holds the picture before the
  last one. If the two tiles are of different eyes and their fragments cover
  all macroblocks (or the tile prefills its eye), two states that agree on the
  reference give the same picture.
\<close>

theorem scratch_frame_irrelevant:
  assumes "wf_sbs reference" and "wf_sbs c1" and "wf_sbs c2"
    and "parse_tiles payload = Inr (t1, t2)" and "frame_complete (PF t1 t2)"
  shows "decode_p_tiles payload reference c1 = decode_p_tiles payload reference c2"
  using complete_tiles_independent[OF assms(2,3), of t1 t2 reference] parse_tiles_ok[OF assms(4)] assms
  by (simp add: decode_p_tiles_ok frame_ok_def)

theorem scratch_frame_irrelevant_witness:
  "decode_p_tiles (p_payload (still_tile 0) (still_tile 1)) SbsFrame_new SbsFrame_new =
    decode_p_tiles (p_payload (still_tile 0) (still_tile 1)) SbsFrame_new (SbsFrame_new\<lparr>sbs_left := EyeFrame_new\<lparr>eye_y := replicate EYE_Y_BYTES 9\<rparr>\<rparr>)"
  by (rule scratch_frame_irrelevant[OF _ _ _ parse_tiles_written[OF still_tile_valid still_tile_valid] still_complete])
    (simp_all add: wf_sbs_def SbsFrame_new_def, simp add: wf_eye_def EyeFrame_new_def EYE_CHROMA_BYTES_def)



section \<open>Tiles and fragments\<close>



text \<open>
  C29: decoding a fragment is safe and local. \<open>decode_fragment\<close> never faults; if
  it succeeds it has consumed its bytes forward and changed samples of the
  macroblock rows its header names only, all of them inside the eye.
\<close>

theorem fragment_confined:
  assumes "wf_eye reference" and "wf_eye e"
  shows "decode_fragment r tile_id segment_count base reference e \<noteq> Inl Fault \<and>
    (\<forall>r' e'. decode_fragment r tile_id segment_count base reference e = Inr (r', e') \<longrightarrow>
      moves r r' \<and> wf_eye e' \<and> (\<exists>start ds. parse_fragment tile_id segment_count r = Inr ((start, ds), r') \<and>
        start + length ds \<le> MB_COUNT \<and> agree (- {start..<start + length ds}) e' e))"
  using parse_fragment_parses[of r tile_id segment_count] agree_put_mbs_outside[OF assms(2)] assms
  by (auto simp: decode_fragment_ok parses_def bindR_eq_Inr_iff bindR_eq_Inl_iff frag_ok_def split: sum.splits)

theorem fragment_confined_witness:
  "decode_fragment (reader_new [1, 2, 3]) 0 1 Prefilled EyeFrame_new EyeFrame_new \<noteq> Inl Fault"
  using fragment_confined[of EyeFrame_new EyeFrame_new "reader_new [1, 2, 3]"] by simp



text \<open>
  C31: counting without decoding. For streams that parse,
  \<open>count_base_predictor_mbs_in_modes\<close> walks the mode stream alone and returns
  the number of macroblocks predicted from the base vector, or some number
  above the limit if that is exceeded; so the writer sets the lazy flag exactly
  when the tile has at most the limit.
\<close>

theorem base_predictor_count:
  assumes "parse_mbs n ms rs ws = Inr ds"
  shows "if base_count ds \<le> limit then count_base_predictor_mbs_in_modes ms start n limit = Inr (base_count ds)
    else \<exists>c>limit. count_base_predictor_mbs_in_modes ms start n limit = Inr c"
  using assms by (rule count_base_predictor_ok)

theorem base_predictor_count_witness:
  "count_base_predictor_mbs_in_modes [127, 127, 121] 0 MB_COUNT 400 = Inr 375"
  using base_predictor_count[OF all_skip_parse_mbs[OF still_modes], where limit = 400 and start = 0] by (simp add: geom)

section \<open>Macroblocks\<close>

text \<open>
  C32: decoding the residual of a macroblock never accesses memory out of
  bounds and never panics, whatever the stream holds; it changes samples of
  that macroblock only, and moves the reader forward inside its input.
\<close>

theorem mb_residual_confined:
  assumes "wf_eye e" and "mb < MB_COUNT"
  shows "apply_mb_residual e mb r \<noteq> Inl Fault \<and>
    (apply_mb_residual e mb r = Inr (e', r') \<longrightarrow> wf_eye e' \<and> agree (- {mb}) e' e \<and> moves r r')"
  using residual.op_safe[OF _ assms(2,1), of r] residual.op_frame[OF _ assms(2,1), of r r' e']
    parse_mb_residual_parses[of r]
  by (auto simp: residual_op_def apply_mb_residual_ok[OF assms] parses_def bindR_eq_Inr_iff split: sum.splits)

theorem mb_residual_confined_witness:
  "apply_mb_residual EyeFrame_new 374 (reader_new [1, 0, 0, 1, 0, 9]) \<noteq> Inl Fault"
  using mb_residual_confined[of EyeFrame_new 374 "reader_new [1, 0, 0, 1, 0, 9]"] by (simp add: geom)

text \<open>
  C33: the DC shortcut of the block decoder is an equivalence: for every DC
  coefficient the stream can carry, \<open>add_dc_block\<close> (with its clip table) gives
  the plane that the full inverse transform gives for that coefficient alone.
\<close>

theorem dc_shortcut_is_idct:
  assumes "blk_fits plane stride base" and "- 32768 \<le> c" and "c < 32768"
  shows "add_dc_block plane stride base c = add_idct_block plane stride base (c # replicate 15 0)"
  using assms by (rule add_dc_block_eq_idct)

theorem dc_shortcut_is_idct_witness:
  "add_dc_block (replicate 16 250) 4 0 100 = add_idct_block (replicate 16 250) 4 0 (100 # replicate 15 0)"
  by (rule dc_shortcut_is_idct) (simp_all add: blk_fits_def)

text \<open>
  C34: no wrap-around in the inverse transform for coefficients of at most
  16384 in size. The 32-bit arithmetic of \<open>add_idct_block\<close> then gives the exact
  integer transform, and every residual sample stays below 205461 before the
  final shift. (With S16 coefficients beyond that the stream can overflow the
  32-bit sums.)
\<close>

theorem idct_exact_in_range:
  assumes "blk_fits plane stride base" and "\<forall>k<16. \<bar>coeffs ! k\<bar> \<le> 16384"
  shows "\<exists>plane'. add_idct_block plane stride base coeffs = Inr plane' \<and> length plane' = length plane \<and>
    (\<forall>i<length plane. plane' ! i =
      (if in_rect stride (base mod stride) (base div stride) 4 4 i
       then clip_u8 (uint (plane ! i) +
         (idct_4x4_exact coeffs ! (4 * (i div stride - base div stride) + (i mod stride - base mod stride)) + 4) div 8)
       else plane ! i)) \<and>
    (\<forall>k<16. \<bar>idct_4x4_exact coeffs ! k\<bar> \<le> 205461)"
proof -
  have "put_blk stride base (idct_fn coeffs) plane ! i =
      (if in_rect stride (base mod stride) (base div stride) 4 4 i
       then clip_u8 (uint (plane ! i) +
         (idct_4x4_exact coeffs ! (4 * (i div stride - base div stride) + (i mod stride - base mod stride)) + 4) div 8)
       else plane ! i)" if "i < length plane" for i
    using that by (auto simp: put_blk_def idct_fn_exact[OF assms(2)] in_rect_def)
  then show ?thesis using idct_4x4_in_range(2)[OF assms(2)] by (simp add: add_idct_block_ok[OF assms(1)])
qed

theorem idct_exact_in_range_witness:
  "\<exists>plane'. add_idct_block (replicate 16 100) 4 0 (replicate 16 (- 16384)) = Inr plane' \<and> length plane' = 16"
proof -
  have "blk_fits (replicate 16 100) 4 0" by (simp add: blk_fits_def)
  from idct_exact_in_range[OF this, of "replicate 16 (- 16384)"] show ?thesis by auto
qed

text \<open>
  Coefficients are read back as they were written: for every 16-bit mask
  and coefficients that are zero off the mask, \<open>read_coeffs_s8\<close> of the bytes
  listed in zigzag order gives the coefficient block and consumes exactly one
  byte per set bit.
\<close>

theorem coefficients_roundtrip:
  assumes "length cs = 16"
    and "\<forall>k<16. if bit nz_mask k then sint (x k) = cs ! (ZIGZAG ! k) else cs ! (ZIGZAG ! k) = 0"
    and "rest r = put_coeffs (\<lambda>b. [b]) x nz_mask @ post"
  shows "read_coeffs_s8 nz_mask r = Inr (cs, adv (count_ones nz_mask) r)"
  using i8c.read_coeffs_written[OF assms] by (simp add: read_coeffs_eq)

theorem coefficients_roundtrip_witness:
  "read_coeffs_s8 0 (reader_new [7]) = Inr (replicate 16 0, adv (count_ones (0 :: u16)) (reader_new [7]))"
proof -
  have z: "set_bits_of (0 :: u16) = []" by (simp add: set_bits_of_def)
  show ?thesis
    by (rule coefficients_roundtrip[where x = "\<lambda>_. 0" and post = "[7]"]) (simp_all add: ZIGZAG_less put_coeffs_def z)
qed

text \<open>
  \<open>write_raw_mb\<close> replaces exactly one macroblock, and \<open>read_raw_mb\<close> reads
  back the 384 bytes that were written.
\<close>

theorem raw_mb_roundtrip:
  assumes "wf_eye e" and "mb < MB_COUNT" and "length bytes = RAW_MB_BYTES"
  shows "\<exists>e'. write_raw_mb e mb bytes = Inr e' \<and> wf_eye e' \<and> agree (- {mb}) e' e \<and> read_raw_mb e' mb [] = Inr bytes"
  using assms by (rule write_read_raw_mb)

theorem raw_mb_roundtrip_witness:
  "\<exists>e'. write_raw_mb EyeFrame_new 30 (replicate 384 7) = Inr e' \<and> wf_eye e' \<and> agree (- {30}) e' EyeFrame_new \<and>
    read_raw_mb e' 30 [] = Inr (replicate 384 7)"
  by (rule raw_mb_roundtrip) (simp_all add: geom)

text \<open>
  Copying a run of macroblocks from the reference (the span-wise loop for
  a zero vector included) leaves the run as prefilling the whole eye with the
  same vector would, and the rest of the frame as it was.
\<close>

theorem run_copy_is_prefill:
  assumes "wf_eye dst" and "wf_eye src" and "start + count \<le> MB_COUNT"
  shows "\<exists>run full. copy_mb_run_from_reference dst src start count mv = Inr run \<and>
    prefill_eye dst src mv = Inr full \<and>
    agree {start..<start + count} run full \<and> agree (- {start..<start + count}) run dst"
  using assms agree_mc_region[of dst dst "{start..<start + count}" UNIV mv src]
  by (auto simp: copy_mb_run_from_reference_ok prefill_eye_ok agree_mc_region_outside)

theorem run_copy_is_prefill_witness:
  "\<exists>run full. copy_mb_run_from_reference EyeFrame_new EyeFrame_new 20 30 \<lparr>mvX = 3, mvY = 255\<rparr> = Inr run \<and>
    prefill_eye EyeFrame_new EyeFrame_new \<lparr>mvX = 3, mvY = 255\<rparr> = Inr full \<and>
    agree {20..<20 + 30} run full \<and> agree (- {20..<20 + 30}) run EyeFrame_new"
  by (rule run_copy_is_prefill) (simp_all add: geom)

text \<open>
  A split prediction whose two or four vectors are equal is the plain
  16x16 copy with that vector, chroma rounding included.
\<close>

theorem equal_split_is_copy:
  assumes "wf_eye dst" and "wf_eye src" and "mb < MB_COUNT"
  shows "copy_vbs_from_reference dst src mb shape (replicate (vbs_count shape) m) = copy_mb_from_reference dst src mb m"
  using assms by (simp add: copy_vbs_from_reference_ok copy_mb_from_reference_ok vbs_equal_is_copy)

theorem equal_split_is_copy_witness:
  "copy_vbs_from_reference EyeFrame_new EyeFrame_new 374 Split8x8 (replicate (vbs_count Split8x8) \<lparr>mvX = 255, mvY = 3\<rparr>) =
    copy_mb_from_reference EyeFrame_new EyeFrame_new 374 \<lparr>mvX = 255, mvY = 3\<rparr>"
  by (rule equal_split_is_copy) (simp_all add: geom)

text \<open>
  splitting a side-by-side picture into two eyes and joining them are
  inverse to each other: \<open>from_yuv420_sbs\<close> accepts every buffer of the right
  size and \<open>write_yuv420_sbs_into\<close> (any output buffer) gives it back, and from
  the bytes of any frame the frame is recovered.
\<close>

theorem sbs_split_join:
  assumes "length bytes = SBS_FRAME_BYTES" and "length out = SBS_FRAME_BYTES" and "wf_sbs frame"
  shows "(\<exists>f. from_yuv420_sbs bytes = Inr f \<and> wf_sbs f \<and> write_yuv420_sbs_into f out = Inr bytes) \<and>
    bindR (to_yuv420_sbs frame) from_yuv420_sbs = Inr frame"
  using assms by (simp add: from_yuv420_sbs_ok wf_split_frame write_yuv420_sbs_into_ok write_split_frame to_yuv420_sbs_def
      split_pack_frame)

theorem sbs_split_join_witness:
  "(\<exists>f. from_yuv420_sbs (replicate SBS_FRAME_BYTES 5) = Inr f \<and> wf_sbs f \<and>
      write_yuv420_sbs_into f (replicate SBS_FRAME_BYTES 0) = Inr (replicate SBS_FRAME_BYTES 5)) \<and>
    bindR (to_yuv420_sbs SbsFrame_new) from_yuv420_sbs = Inr SbsFrame_new"
  by (rule sbs_split_join) simp_all

section \<open>The encoder's macroblocks\<close>

text \<open>
  C35: every macroblock decision decodes to what it promised. \<open>choose_mb\<close>
  returns in every mode; the bytes \<open>write_choice\<close> puts on the streams are a
  mode opcode and a payload that \<open>decode_one_mb\<close> consumes exactly, giving the
  frame the encoder goes on with, changed in this macroblock only; its recorded
  distortion is the squared error there, and in lossless mode it is the source.
\<close>

theorem chosen_macroblock_decodes:
  assumes "wf_eye src" and "wf_eye reference" and "wf_eye pre" and "mb < MB_COUNT"
  shows "\<exists>c op ms rs ws mr rr rw e. choose_mb src reference pre mb mode = Inr c \<and>
    write_choice ([], [], []) c = (op # ms, rs, ws) \<and> op AND 0xf0 = 0x80 \<and>
    decode_one_mb (op AND 0x0f) mb Prefilled (reader_new ms, reader_new rs, reader_new ws) reference pre = Inr ((mr, rr, rw), e) \<and>
    remaining mr = 0 \<and> remaining rr = 0 \<and> remaining rw = 0 \<and>
    apply_choice_to_recon pre mb c = Inr e \<and> agree (- {mb}) e pre \<and> mc_distortion c = mb_sse mb src e \<and>
    (mode = Lossless \<longrightarrow> agree {mb} e src)"
proof -
  obtain c d where "choose_mb src reference pre mb mode = Inr c" "choice_ok src reference pre mb mode c d"
    using choose_mb_ok[OF assms, of mode] unfolding okR_def by blast
  with choice_ok_decodes[OF this(2) assms(2-4)] show ?thesis by (auto simp: choice_decodes_def)
qed

theorem chosen_macroblock_decodes_witness:
  "\<exists>c. choose_mb (EyeFrame_new\<lparr>eye_y := replicate EYE_Y_BYTES 9\<rparr>) EyeFrame_new EyeFrame_new 374 (Budget 8) = Inr c"
proof -
  have "wf_eye (EyeFrame_new\<lparr>eye_y := replicate EYE_Y_BYTES 9\<rparr>)" by (simp add: wf_eye_def EyeFrame_new_def EYE_CHROMA_BYTES_def)
  from chosen_macroblock_decodes[OF this wf_EyeFrame_new wf_EyeFrame_new, of 374 "Budget 8"] show ?thesis by (auto simp: geom)
qed

text \<open>
  C36: a lossless residual is exact. \<open>build_lossless_residual\<close> gives None only
  where prediction and source already agree, and otherwise bytes that
  \<open>apply_mb_residual\<close> consumes exactly and that turn the prediction into the
  source on the macroblock.
\<close>

theorem lossless_residual_exact:
  assumes "wf_eye src" and "wf_eye pred" and "mb < MB_COUNT"
  shows "build_lossless_residual src pred mb = Inr None \<and> agree {mb} pred src \<or>
    (\<exists>bytes e r. build_lossless_residual src pred mb = Inr (Some bytes) \<and>
      apply_mb_residual pred mb (reader_new bytes) = Inr (e, r) \<and> remaining r = 0 \<and> agree {mb} e src)"
proof -
  obtain out where out: "build_lossless_residual src pred mb = Inr out" "case out of None \<Rightarrow> agree {mb} pred src
    | Some bytes \<Rightarrow> \<exists>e r. apply_mb_residual pred mb (reader_new bytes) = Inr (e, r) \<and> remaining r = 0 \<and> agree {mb} e src"
    using lossless_residual_decodes[OF assms] unfolding okR_def by blast
  then show ?thesis by (cases out) auto
qed

theorem lossless_residual_exact_witness:
  "build_lossless_residual EyeFrame_new EyeFrame_new 0 \<noteq> Inl Fault"
  using lossless_residual_exact[of EyeFrame_new EyeFrame_new 0] by (auto simp: geom)

text \<open>
  C37: a lossy residual reports what the decoder will show. Whatever the
  quantizer step and threshold, the bytes decode on the prediction to the
  reconstruction \<open>build_lossy_residual\<close> returned, its distortion is the squared
  error of that, and its statistics are those that \<open>residual_stats\<close> recounts
  from the bytes.
\<close>

theorem lossy_residual_reports_decoding:
  assumes "wf_eye src" and "wf_eye pred" and "mb < MB_COUNT"
  shows "\<exists>res e r. build_lossy_residual src pred mb q_step threshold = Inr res \<and>
    apply_mb_residual pred mb (reader_new (lr_bytes res)) = Inr (e, r) \<and> remaining r = 0 \<and>
    read_raw_mb e mb [] = Inr (lr_recon res) \<and> lr_distortion res = mb_sse mb src e \<and>
    lr_stats res = residual_stats (lr_bytes res)"
  using lossy_residual_decodes[OF assms] by (auto simp: okR_def)

theorem lossy_residual_reports_decoding_witness:
  "\<exists>res. build_lossy_residual EyeFrame_new EyeFrame_new 374 16 (Some 50) = Inr res \<and>
    lr_stats res = residual_stats (lr_bytes res)"
  using lossy_residual_reports_decoding[of EyeFrame_new EyeFrame_new 374 16 "Some 50"] by (auto simp: geom)

text \<open>
  C38: the encoder's inverse transform is the decoder's: on any sixteen
  predicted samples and any coefficients \<open>idct_reconstruct_block\<close> gives what
  \<open>add_idct_block\<close> makes of them, wrap-around included.
\<close>

theorem encoder_transform_is_decoders:
  assumes "length pv = 16"
  shows "add_idct_block pv 4 0 coeffs = Inr (idct_reconstruct_block pv coeffs)"
  using assms by (rule encoder_idct)

theorem encoder_transform_is_decoders_witness:
  "add_idct_block (replicate 16 3) 4 0 (replicate 16 32767) = Inr (idct_reconstruct_block (replicate 16 3) (replicate 16 32767))"
  by (rule encoder_transform_is_decoders) simp

text \<open>
  The search for an exact copy is sound and complete on its window: a
  vector it returns makes \<open>copy_mb_from_reference\<close> produce the source
  macroblock, and if it returns none, no nonzero vector of at most 8 does.
\<close>

theorem exact_copy_search:
  assumes "wf_eye src" and "wf_eye reference" and "mb < MB_COUNT"
  shows "(\<exists>mv e. find_exact_copy src reference mb = Inr (Some mv) \<and>
      copy_mb_from_reference src reference mb mv = Inr e \<and> agree {mb} src e) \<or>
    find_exact_copy src reference mb = Inr None \<and>
      (\<forall>dx dy e. \<bar>dx\<bar> \<le> 8 \<and> \<bar>dy\<bar> \<le> 8 \<and> (dx, dy) \<noteq> (0, 0) \<and>
        copy_mb_from_reference src reference mb (mv_of dx dy) = Inr e \<longrightarrow> \<not> agree {mb} src e)"
proof -
  obtain hit where hit: "find_exact_copy src reference mb = Inr hit" "case hit of
      Some mv \<Rightarrow> agree {mb} src (mc_region {mb} mv reference src)
    | None \<Rightarrow> \<forall>dx dy. \<bar>dx\<bar> \<le> 8 \<and> \<bar>dy\<bar> \<le> 8 \<and> (dx, dy) \<noteq> (0, 0) \<longrightarrow>
        \<not> agree {mb} src (mc_region {mb} (mv_of dx dy) reference src)"
    using find_exact_copy_ok[OF assms] unfolding okR_def by blast
  show ?thesis
  proof (cases hit)
    case None
    with hit show ?thesis by (simp add: copy_mb_from_reference_ok[OF assms])
  next
    case (Some mv)
    with hit show ?thesis by (simp add: copy_mb_from_reference_ok[OF assms])
  qed
qed

theorem exact_copy_search_witness:
  "find_exact_copy EyeFrame_new EyeFrame_new 200 \<noteq> Inl Fault"
  using exact_copy_search[of EyeFrame_new EyeFrame_new 200] by (auto simp: geom)

text \<open>
  C39: the base vector of a tile is a best one of the 9 by 9 window: it lies in
  the window and no vector of the window has a smaller sampled difference.
\<close>

theorem base_vector_optimal:
  assumes "wf_eye src" and "wf_eye reference"
  shows "\<exists>x y c. find_base_mv src reference = Inr (mv_of x y) \<and> \<bar>x\<bar> \<le> 4 \<and> \<bar>y\<bar> \<le> 4 \<and>
    sampled_eye_sad src reference (mv_of x y) = Inr c \<and>
    (\<forall>x' y'. \<bar>x'\<bar> \<le> 4 \<and> \<bar>y'\<bar> \<le> 4 \<longrightarrow> (\<exists>d. sampled_eye_sad src reference (mv_of x' y') = Inr d \<and> c \<le> d))"
proof -
  have w: "(y, x) \<in> set (window 4) \<longleftrightarrow> \<bar>x\<bar> \<le> 4 \<and> \<bar>y\<bar> \<le> 4" for x y
    unfolding window_def set_product set_upto mem_Sigma_iff atLeastAtMost_iff by auto
  obtain best where best: "find_base_mv src reference = Inr best" "best_in 4 (sampled_eye_sad src reference) best"
    using find_base_mv_ok[OF assms] unfolding okR_def by blast
  from best(2) obtain c y x where c: "sampled_eye_sad src reference best = Inr c" "\<bar>x\<bar> \<le> 4 \<and> \<bar>y\<bar> \<le> 4" "best = mv_of x y"
    "\<forall>y x. \<bar>x\<bar> \<le> 4 \<and> \<bar>y\<bar> \<le> 4 \<longrightarrow> (\<exists>d. sampled_eye_sad src reference (mv_of x y) = Inr d \<and> c \<le> d)"
    unfolding best_in_def w by blast
  show ?thesis
    by (intro exI[of _ x] exI[of _ y] exI[of _ c] conjI) (use best(1) c in simp_all)
qed

theorem base_vector_optimal_witness:
  "\<exists>x y. find_base_mv EyeFrame_new EyeFrame_new = Inr (mv_of x y) \<and> \<bar>x\<bar> \<le> 4 \<and> \<bar>y\<bar> \<le> 4"
  using base_vector_optimal[of EyeFrame_new EyeFrame_new] by auto

text \<open>
  C40: skip runs. \<open>flush_skip\<close> ends for any run, appends opcodes between 1 and
  127 only (so none is taken for the end of the stream or a mode), and they add
  up to the run.
\<close>

theorem skip_runs_written:
  "\<exists>runs. flush_skip mode_stream skip_run = (mode_stream @ map of_nat runs, 0) \<and> sum_list runs = skip_run \<and>
    list_all (\<lambda>r. 0 < r \<and> r \<le> 127) runs"
  using flush_skip_bytes[of mode_stream skip_run] by (simp add: list_all_iff)

text \<open>
  segment maps. For any list of segment numbers below 4, of any length,
  \<open>build_segment_map\<close> writes a map that \<open>validate_segment_map\<close> accepts for that
  many macroblocks and that expands to the list again.
\<close>

theorem segment_map_roundtrip:
  assumes "\<forall>s\<in>set ids. s < 4"
  shows "validate_segment_map (build_segment_map ids) 4 (length ids) = Inr () \<and>
    (\<exists>runs. build_segment_map ids = seg_bytes runs \<and> expand_runs runs = ids)"
  using segment_map_valid[OF assms] by blast

theorem segment_map_roundtrip_witness:
  "validate_segment_map (build_segment_map (replicate 375 3)) 4 375 = Inr ()"
  using segment_map_roundtrip[of "replicate 375 3"] by simp

text \<open>
  the quality metrics are exact: the \<open>u32\<close> casts of the reported ratios
  never truncate, the sum of squares and the worst macroblock are those of the
  two pictures' luma.
\<close>

theorem quality_metrics_exact:
  assumes "wf_sbs f" and "wf_sbs g"
  shows "\<exists>q. frame_quality_metrics f g = Inr q \<and> qm_y_sse q = luma_sse f g \<and> qm_y_sse q \<le> 65025 * 192000 \<and>
    unat (qm_y_mae_milli q) = luma_abs f g * 1000 div 192000 \<and>
    unat (qm_y_bad_gt16_per_mille q) = luma_above 16 f g * 1000 div 192000 \<and>
    unat (qm_y_bad_gt32_per_mille q) = luma_above 32 f g * 1000 div 192000 \<and> qm_max_mb_y_sse q = max_mb_sse f g"
  using frame_quality_ok[OF assms] luma_bounds(3)[OF assms] by (auto simp: okR_def geom split: sum.splits)

theorem quality_metrics_exact_witness:
  "\<exists>q. frame_quality_metrics SbsFrame_new SbsFrame_new = Inr q \<and>
    unat (qm_y_mae_milli q) = luma_abs SbsFrame_new SbsFrame_new * 1000 div 192000"
  using quality_metrics_exact[of SbsFrame_new SbsFrame_new] by auto


end
